(* ===== verification/Prelude.thy ===== *)
theory Prelude
  imports Complex_Main "HOL-Library.Sublist"
begin

text \<open>
  Shared vocabulary of the development.

  \<^item> The exceptions the backend raises (\<open>exc\<close>) and the results of fallible code
    (\<open>exc + 'a\<close>, \<open>Inl\<close> for a raise), with \<open>bindE\<close>, \<open>foldE\<close> and \<open>mapE\<close> for
    sequencing, iteration and comprehension, each of which stops at the first raise.
  \<^item> JSON values (\<open>json\<close>), whose objects are association lists because a Python dict keeps
    its insertion order, and the dict operations on them.
  \<^item> The Python string operations the code uses on characters and decimal numbers.

  Error message texts are not modelled: nothing in the backend branches on them. Status,
  error name and code of a Range42Error are.
\<close>

named_theorems res_simps \<open>inversion of fallible computations\<close>
named_theorems eval_defs \<open>definitions unfolded to evaluate a concrete input\<close>
named_theorems dict_simps \<open>lookup after a dict operation\<close>

subsection \<open>Exceptions and fallible computations\<close>

record api_error =
  ae_status :: nat
  ae_error :: string
  ae_code :: string

datatype exc =
    ApiError api_error
  | KeyError
  | ValueError
  | TypeError
  | IndexError
  | AttributeError
  | OSError
  | TimeoutError
  | OperationalError
  | RuntimeError
  | RecursionError
  | NotImplementedError

type_synonym 'a res = "exc + 'a"

definition bindE :: "'e + 'a \<Rightarrow> ('a \<Rightarrow> 'e + 'b) \<Rightarrow> 'e + 'b" where
  "bindE m f = (case m of Inl e \<Rightarrow> Inl e | Inr x \<Rightarrow> f x)"

lemma bindE_simps [simp]: "bindE (Inl e) f = Inl e" "bindE (Inr x) f = f x"
  by (simp_all add: bindE_def)

lemma bindE_Inr [res_simps]: "bindE m f = Inr y \<longleftrightarrow> (\<exists>x. m = Inr x \<and> f x = Inr y)"
  by (cases m) auto

lemma bindE_Inl: "bindE m f = Inl e \<longleftrightarrow> m = Inl e \<or> (\<exists>x. m = Inr x \<and> f x = Inl e)"
  by (cases m) auto

lemma bindE_cong [fundef_cong]:
  "m = n \<Longrightarrow> (\<And>x. n = Inr x \<Longrightarrow> f x = g x) \<Longrightarrow> bindE m f = bindE n g"
  by (cases n) auto

definition assertE :: "bool \<Rightarrow> 'e \<Rightarrow> 'e + unit" where
  "assertE b e = (if b then Inr () else Inl e)"

lemma assertE_Inr [res_simps]: "assertE b e = Inr u \<longleftrightarrow> b"
  by (simp add: assertE_def)

lemma assertE_Inl: "assertE b e = Inl e' \<longleftrightarrow> \<not> b \<and> e' = e"
  by (auto simp: assertE_def)

lemma assertE_eval [simp]: "assertE True e = Inr ()" "assertE False e = Inl e"
  by (simp_all add: assertE_def)

definition of_opt :: "'e \<Rightarrow> 'a option \<Rightarrow> 'e + 'a" where
  "of_opt e x = (case x of None \<Rightarrow> Inl e | Some v \<Rightarrow> Inr v)"

lemma of_opt_simps [simp]: "of_opt e None = Inl e" "of_opt e (Some v) = Inr v"
  by (simp_all add: of_opt_def)

lemma of_opt_Inr [res_simps]: "of_opt e x = Inr v \<longleftrightarrow> x = Some v"
  by (cases x) auto

fun foldE :: "('s \<Rightarrow> 'a \<Rightarrow> 'e + 's) \<Rightarrow> 's \<Rightarrow> 'a list \<Rightarrow> 'e + 's" where
  "foldE f s [] = Inr s"
| "foldE f s (x # xs) = bindE (f s x) (\<lambda>s'. foldE f s' xs)"

fun mapE :: "('a \<Rightarrow> 'e + 'b) \<Rightarrow> 'a list \<Rightarrow> 'e + 'b list" where
  "mapE f [] = Inr []"
| "mapE f (x # xs) = bindE (f x) (\<lambda>y. bindE (mapE f xs) (\<lambda>ys. Inr (y # ys)))"

lemma foldE_invariant:
  assumes "foldE f s xs = Inr t" and "P s"
    and "\<And>s x s'. x \<in> set xs \<Longrightarrow> P s \<Longrightarrow> f s x = Inr s' \<Longrightarrow> P s'"
  shows "P t"
  using assms
proof (induction xs arbitrary: s)
  case Nil
  then show ?case by simp
next
  case (Cons x xs)
  from Cons.prems(1) obtain s' where s': "f s x = Inr s'" "foldE f s' xs = Inr t"
    by (auto simp: res_simps)
  show ?case
  proof (rule Cons.IH [OF s'(2)])
    show "P s'" using Cons.prems(2,3) s'(1) by auto
    show "\<And>s y s'. y \<in> set xs \<Longrightarrow> P s \<Longrightarrow> f s y = Inr s' \<Longrightarrow> P s'"
      using Cons.prems(3) by auto
  qed
qed

lemma foldE_append:
  "foldE f s (xs @ ys) = bindE (foldE f s xs) (\<lambda>s'. foldE f s' ys)"
proof (induction xs arbitrary: s)
  case Nil
  then show ?case by simp
next
  case (Cons x xs)
  then show ?case by (cases "f s x") simp_all
qed

lemma foldE_each: "foldE f s xs = Inr t \<Longrightarrow> x \<in> set xs \<Longrightarrow> \<exists>s s'. f s x = Inr s'"
  by (induction xs arbitrary: s) (auto simp: bindE_Inr)

lemma foldE_Inl: "foldE f s xs = Inl e \<Longrightarrow> \<exists>s x. x \<in> set xs \<and> f s x = Inl e"
  by (induction xs arbitrary: s) (auto simp: bindE_Inl, blast+)

lemma mapE_Inr_list_all2:
  "mapE f xs = Inr ys \<longleftrightarrow> list_all2 (\<lambda>x y. f x = Inr y) xs ys"
proof (induction xs arbitrary: ys)
  case Nil
  then show ?case by auto
next
  case (Cons x xs)
  then show ?case by (cases ys) (auto simp: res_simps)
qed

lemma mapE_length: "mapE f xs = Inr ys \<Longrightarrow> length ys = length xs"
  by (auto simp: mapE_Inr_list_all2 dest: list_all2_lengthD)

lemma mapE_Inr_setD:
  "mapE f xs = Inr ys \<Longrightarrow> y \<in> set ys \<Longrightarrow> \<exists>x\<in>set xs. f x = Inr y"
  by (auto simp: mapE_Inr_list_all2 list_all2_conv_all_nth in_set_conv_nth)
     (metis nth_mem)

lemma mapE_Inr_set:
  "mapE f xs = Inr ys \<Longrightarrow> x \<in> set xs \<Longrightarrow> \<exists>y\<in>set ys. f x = Inr y"
proof (induction xs arbitrary: ys)
  case Nil
  then show ?case by simp
next
  case (Cons a xs)
  then show ?case by (cases ys) (auto simp: bindE_Inr)
qed

lemma foldE_cong [fundef_cong]:
  "s = t \<Longrightarrow> xs = ys \<Longrightarrow> (\<And>s x. x \<in> set ys \<Longrightarrow> f s x = g s x) \<Longrightarrow> foldE f s xs = foldE g t ys"
proof (induction ys arbitrary: s t xs)
  case Nil
  then show ?case by simp
next
  case (Cons y ys)
  then show ?case by (cases "g t y") auto
qed

lemma mapE_cong [fundef_cong]:
  "xs = ys \<Longrightarrow> (\<And>x. x \<in> set ys \<Longrightarrow> f x = g x) \<Longrightarrow> mapE f xs = mapE g ys"
  by (induction ys arbitrary: xs) auto

subsection \<open>JSON values and dicts\<close>

text \<open>
  Numbers keep Python's distinction between \<open>int\<close> and \<open>float\<close>; a float is carried as the
  rational number it denotes, so rounding, infinities and NaN are outside the model.
\<close>

datatype json =
    JNull
  | JBool bool
  | JInt int
  | JFloat rat
  | JStr string
  | JList "json list"
  | JObj "(string \<times> json) list"

type_synonym dict = "(string \<times> json) list"

lemma json_induct [case_names JNull JBool JInt JFloat JStr JList JObj]:
  assumes "P JNull" and "\<And>b. P (JBool b)" and "\<And>i. P (JInt i)" and "\<And>r. P (JFloat r)"
    and "\<And>s. P (JStr s)"
    and "\<And>xs. (\<And>x. x \<in> set xs \<Longrightarrow> P x) \<Longrightarrow> P (JList xs)"
    and "\<And>kvs. (\<And>k v. (k, v) \<in> set kvs \<Longrightarrow> P v) \<Longrightarrow> P (JObj kvs)"
  shows "P j"
proof (induction j rule: json.induct)
  case (JObj kvs)
  show ?case
  proof (rule assms(7))
    fix k v assume "(k, v) \<in> set kvs"
    then show "P v" by (rule JObj) simp
  qed
qed (auto intro: assms)

lemma json_size_obj [termination_simp]:
  "(k, v) \<in> set kvs \<Longrightarrow> size v < Suc (size_list (size_prod size size) kvs)"
proof (induction kvs)
  case Nil
  then show ?case by simp
next
  case (Cons p kvs)
  then show ?case by (cases p) auto
qed

text \<open>
  \<open>dget\<close> is \<open>d.get(k)\<close>, \<open>dset\<close> is \<open>d[k] = v\<close> (in place when the key is there, at the
  end otherwise), \<open>dpop\<close> is \<open>d.pop(k, None)\<close>, \<open>dsetdefault\<close> is \<open>d.setdefault(k, v)\<close>,
  \<open>dupdate\<close> is \<open>d.update(e)\<close>.
\<close>

definition dget :: "(string \<times> 'v) list \<Rightarrow> string \<Rightarrow> 'v option" where
  "dget d k = map_of d k"

fun dset :: "string \<Rightarrow> 'v \<Rightarrow> (string \<times> 'v) list \<Rightarrow> (string \<times> 'v) list" where
  "dset k v [] = [(k, v)]"
| "dset k v ((k', w) # d) = (if k' = k then (k, v) # d else (k', w) # dset k v d)"

definition dpop :: "string \<Rightarrow> (string \<times> 'v) list \<Rightarrow> (string \<times> 'v) list" where
  "dpop k d = filter (\<lambda>(k', w). k' \<noteq> k) d"

definition dsetdefault :: "string \<Rightarrow> 'v \<Rightarrow> (string \<times> 'v) list \<Rightarrow> (string \<times> 'v) list" where
  "dsetdefault k v d = (case dget d k of None \<Rightarrow> dset k v d | Some w \<Rightarrow> d)"

definition dupdate :: "(string \<times> 'v) list \<Rightarrow> (string \<times> 'v) list \<Rightarrow> (string \<times> 'v) list" where
  "dupdate d e = fold (\<lambda>(k, v). dset k v) e d"

definition dkeys :: "(string \<times> 'v) list \<Rightarrow> string list" where
  "dkeys d = map fst d"

lemma dget_Nil [simp]: "dget [] k = None"
  by (simp add: dget_def)

lemma dget_Cons [simp]: "dget ((k', v) # d) k = (if k = k' then Some v else dget d k)"
  by (simp add: dget_def)

lemma dget_dset [dict_simps]: "dget (dset k v d) k' = (if k' = k then Some v else dget d k')"
  by (induction k v d rule: dset.induct) auto

lemma dget_dpop [dict_simps]: "dget (dpop k d) k' = (if k' = k then None else dget d k')"
  by (induction d) (auto simp: dpop_def dget_def)

lemma dget_dsetdefault [dict_simps]:
  "dget (dsetdefault k v d) k' =
     (if k' = k \<and> dget d k = None then Some v else dget d k')"
  by (auto simp: dsetdefault_def dget_dset split: option.split)

lemma dget_in_set: "dget d k = Some v \<Longrightarrow> (k, v) \<in> set d"
  by (simp add: dget_def map_of_SomeD)

lemma dget_append [dict_simps]:
  "dget (d @ e) k = (case dget d k of None \<Rightarrow> dget e k | Some v \<Rightarrow> Some v)"
  by (induction d) auto

lemma dget_dupdate [dict_simps]:
  "dget (dupdate d e) k = (case dget (rev e) k of None \<Rightarrow> dget d k | Some v \<Rightarrow> Some v)"
proof (induction e arbitrary: d)
  case Nil
  then show ?case by (simp add: dupdate_def)
next
  case (Cons p e)
  have "dupdate d (p # e) = dupdate (dset (fst p) (snd p) d) e"
    by (simp add: dupdate_def split_def)
  then have "dget (dupdate d (p # e)) k =
      (case dget (rev e) k of None \<Rightarrow> dget (dset (fst p) (snd p) d) k | Some v \<Rightarrow> Some v)"
    by (simp add: Cons.IH)
  then show ?case
    by (cases p) (auto simp: dget_dset dget_append split: option.splits)
qed

lemma dset_keys: "set (map fst (dset k v d)) = insert k (set (map fst d))"
  by (induction k v d rule: dset.induct) auto

lemma dset_distinct: "distinct (map fst d) \<Longrightarrow> distinct (map fst (dset k v d))"
  by (induction k v d rule: dset.induct) (auto simp: dset_keys [simplified])

lemma dpop_distinct: "distinct (map fst d) \<Longrightarrow> distinct (map fst (dpop k d))"
  by (induction d) (auto simp: dpop_def)

fun is_str :: "json \<Rightarrow> bool" where
  "is_str (JStr s) = True"
| "is_str _ = False"

text \<open>Python truthiness of a JSON value.\<close>

fun truthy :: "json \<Rightarrow> bool" where
  "truthy JNull = False"
| "truthy (JBool b) = b"
| "truthy (JInt i) = (i \<noteq> 0)"
| "truthy (JFloat r) = (r \<noteq> 0)"
| "truthy (JStr s) = (s \<noteq> [])"
| "truthy (JList xs) = (xs \<noteq> [])"
| "truthy (JObj d) = (d \<noteq> [])"

subsection \<open>Strings\<close>

definition digit_char :: "nat \<Rightarrow> char" where
  "digit_char d = ''0123456789'' ! d"

definition is_digit :: "char \<Rightarrow> bool" where
  "is_digit c = (c \<in> set ''0123456789'')"

definition is_alpha :: "char \<Rightarrow> bool" where
  "is_alpha c = (c \<in> set ''abcdefghijklmnopqrstuvwxyzABCDEFGHIJKLMNOPQRSTUVWXYZ'')"

definition digit_val :: "char \<Rightarrow> nat" where
  "digit_val c = of_char c - 48"

fun nat_str :: "nat \<Rightarrow> string" where
  "nat_str n = (if n < 10 then [digit_char n] else nat_str (n div 10) @ [digit_char (n mod 10)])"

declare nat_str.simps [simp del]

definition int_str :: "int \<Rightarrow> string" where
  "int_str i = (if i < 0 then CHR ''-'' # nat_str (nat (- i)) else nat_str (nat i))"

definition digits_val :: "string \<Rightarrow> nat" where
  "digits_val s = foldl (\<lambda>a c. 10 * a + digit_val c) 0 s"

lemma less_10_cases: "(d::nat) < 10 \<Longrightarrow> d \<in> {0,1,2,3,4,5,6,7,8,9}"
  by auto

lemma digit_val_char [simp]: "d < 10 \<Longrightarrow> digit_val (digit_char d) = d"
  by (drule less_10_cases) (auto simp: digit_val_def digit_char_def)

lemma is_digit_char [simp]: "d < 10 \<Longrightarrow> is_digit (digit_char d)"
  by (drule less_10_cases) (auto simp: is_digit_def digit_char_def)

lemma nat_str_digits: "list_all is_digit (nat_str n)"
proof (induction n rule: nat_str.induct)
  case (1 n)
  then show ?case by (cases "n < 10") (simp_all add: nat_str.simps [of n])
qed

lemma nat_str_nonempty [simp]: "nat_str n \<noteq> []"
  by (subst nat_str.simps) simp

lemma digits_val_snoc: "digits_val (s @ [c]) = 10 * digits_val s + digit_val c"
  by (simp add: digits_val_def)

lemma digits_val_nat_str [simp]: "digits_val (nat_str n) = n"
proof (induction n rule: nat_str.induct)
  case (1 n)
  show ?case
  proof (cases "n < 10")
    case True
    then show ?thesis by (simp add: nat_str.simps [of n] digits_val_def)
  next
    case False
    then show ?thesis
      by (simp add: nat_str.simps [of n] digits_val_snoc 1)
  qed
qed

lemma nat_str_inj: "nat_str m = nat_str n \<longleftrightarrow> m = n"
  by (metis digits_val_nat_str)

text \<open>\<open>s.split(c)\<close> for a one-character separator: always at least one part.\<close>

fun split_on :: "char \<Rightarrow> string \<Rightarrow> string list" where
  "split_on c [] = [[]]"
| "split_on c (x # xs) =
     (if x = c then [] # split_on c xs
      else case split_on c xs of [] \<Rightarrow> [[x]] | p # ps \<Rightarrow> (x # p) # ps)"

lemma split_on_nonempty [simp]: "split_on c s \<noteq> []"
  by (induction s) (auto split: list.splits)

lemma split_on_no_sep: "c \<notin> set s \<Longrightarrow> split_on c s = [s]"
  by (induction s) auto

lemma split_on_sep: "c \<notin> set s \<Longrightarrow> split_on c (s @ c # t) = s # split_on c t"
  by (induction s) auto

text \<open>\<open>s.split(c, 1)\<close> when \<open>c in s\<close>: the parts before and after the first separator.\<close>

definition split_once :: "char \<Rightarrow> string \<Rightarrow> string \<times> string" where
  "split_once c s = (takeWhile (\<lambda>x. x \<noteq> c) s, drop 1 (dropWhile (\<lambda>x. x \<noteq> c) s))"

definition starts_with :: "string \<Rightarrow> string \<Rightarrow> bool" where
  "starts_with p s = prefix p s"

definition ends_with :: "string \<Rightarrow> string \<Rightarrow> bool" where
  "ends_with p s = suffix p s"

text \<open>\<open>re.fullmatch\<close> of a character class with length bounds, the shape of most patterns here.\<close>

definition class_match :: "(char \<Rightarrow> bool) \<Rightarrow> nat \<Rightarrow> nat \<Rightarrow> string \<Rightarrow> bool" where
  "class_match p lo hi s = (lo \<le> length s \<and> length s \<le> hi \<and> list_all p s)"

subsection \<open>Machines\<close>

text \<open>
  A step relation with a property that every step keeps. Each state machine of the development
  interprets it: the proof of the interpretation is the preservation by every kind of step,
  \<open>reachable_inv\<close> its consequence for every sequence of steps.
\<close>

locale machine =
  fixes step :: "'s \<Rightarrow> 's \<Rightarrow> bool" and inv :: "'s \<Rightarrow> bool"
  assumes step_inv: "step s t \<Longrightarrow> inv s \<Longrightarrow> inv t"
begin

lemma reachable_inv: "step\<^sup>*\<^sup>* s t \<Longrightarrow> inv s \<Longrightarrow> inv t"
  by (induction rule: rtranclp_induct) (auto intro: step_inv)

end

text \<open>
  A machine whose steps, from states that satisfy the invariant, only move forward in a
  preorder: so does every run.
\<close>

locale progressive_machine = machine +
  fixes forward :: "'a \<Rightarrow> 'a \<Rightarrow> bool"
  assumes forward_refl: "forward s s"
    and forward_trans: "forward s t \<Longrightarrow> forward t u \<Longrightarrow> forward s u"
    and step_forward: "step s t \<Longrightarrow> inv s \<Longrightarrow> forward s t"
begin

lemma reachable_forward: "step\<^sup>*\<^sup>* s t \<Longrightarrow> inv s \<Longrightarrow> forward s t"
proof (induction rule: rtranclp_induct)
  case base
  show ?case by (rule forward_refl)
next
  case (step t u)
  then have "forward s t" and "inv t" using reachable_inv by blast+
  then show ?case using step.hyps(2) step_forward forward_trans by blast
qed

end

end
