(* ===== verification/Ipv4.thy ===== *)
theory Ipv4
  imports Prelude
begin

text \<open>
  The part of Python's \<open>ipaddress\<close> module that the allocation code calls: parsing and
  printing of IPv4 addresses, networks and interfaces, membership, the usable host range
  and overlap. An address is the number it denotes. The module is part of the standard
  library, so it is modelled here from its documented behaviour (Python 3.12); none of these
  definitions is mapped to a file of the repository.

  \<^item> \<open>parse_ipv4\<close>: \<open>IPv4Address(s)\<close>, \<open>None\<close> for its ValueError.
  \<^item> \<open>ip_str\<close>: \<open>str(address)\<close>; \<open>parse_ip_str\<close> shows that parsing inverts it.
  \<^item> \<open>parse_network\<close>: \<open>IPv4Network(s, strict=True)\<close>, with prefix lengths, netmasks and
    hostmasks; \<open>parse_ipv4_interface\<close> and \<open>is_ipv6_interface\<close>: the two classes that
    \<open>ip_interface\<close> tries.
\<close>

subsection \<open>Addresses\<close>

definition parse_octet :: "string \<Rightarrow> nat option" where
  "parse_octet s =
     (if s \<noteq> [] \<and> list_all is_digit s \<and> length s \<le> 3
         \<and> \<not> (length s > 1 \<and> hd s = CHR ''0'') \<and> digits_val s \<le> 255
      then Some (digits_val s) else None)"

definition parse_ipv4 :: "string \<Rightarrow> nat option" where
  "parse_ipv4 s =
     (case map parse_octet (split_on (CHR ''.'') s) of
        [Some a, Some b, Some c, Some d] \<Rightarrow> Some (a * 16777216 + b * 65536 + c * 256 + d)
      | _ \<Rightarrow> None)"

definition ip_str :: "nat \<Rightarrow> string" where
  "ip_str n =
     nat_str (n div 16777216 mod 256) @ ''.'' @ nat_str (n div 65536 mod 256) @ ''.''
       @ nat_str (n div 256 mod 256) @ ''.'' @ nat_str (n mod 256)"

lemma nat_str_len_256: "n < 256 \<Longrightarrow> length (nat_str n) \<le> 3"
  by (simp add: nat_str.simps [of n] nat_str.simps [of "n div 10"]
      nat_str.simps [of "n div 10 div 10"])

lemma nat_str_hd_zero: "hd (nat_str n) = CHR ''0'' \<Longrightarrow> length (nat_str n) = 1"
proof (induction n rule: nat_str.induct)
  case (1 n)
  show ?case
  proof (cases "n < 10")
    case True
    then show ?thesis by (simp add: nat_str.simps [of n])
  next
    case False
    have hd: "hd (nat_str (n div 10)) = CHR ''0''"
      using "1.prems" False by (simp add: nat_str.simps [of n])
    have "length (nat_str (n div 10)) = 1"
      using "1.IH" [OF False hd] .
    then have small: "n div 10 < 10"
      by (cases "n div 10 < 10") (simp_all add: nat_str.simps [of "n div 10"])
    then have "digit_char (n div 10) = CHR ''0''"
      using hd by (simp add: nat_str.simps [of "n div 10"])
    moreover have "n div 10 > 0" using False by auto
    moreover note small
    ultimately have False
      by (drule_tac less_10_cases) (auto simp: digit_char_def)
    then show ?thesis ..
  qed
qed

lemma parse_octet_nat_str [simp]: "n < 256 \<Longrightarrow> parse_octet (nat_str n) = Some n"
  using nat_str_hd_zero [of n]
  by (auto simp: parse_octet_def nat_str_digits nat_str_len_256)

lemma is_digit_not_sep: "is_digit c \<Longrightarrow> c \<noteq> CHR ''.'' \<and> c \<noteq> CHR ''/'' \<and> c \<noteq> CHR '':''"
  by (auto simp: is_digit_def)

lemma nat_str_no_dot [simp]: "CHR ''.'' \<notin> set (nat_str n)"
  using nat_str_digits [of n] is_digit_not_sep by (auto simp: list_all_iff)

lemma split_ip_str:
  "split_on (CHR ''.'') (ip_str n) =
     [nat_str (n div 16777216 mod 256), nat_str (n div 65536 mod 256),
      nat_str (n div 256 mod 256), nat_str (n mod 256)]"
  by (simp add: ip_str_def split_on_sep split_on_no_sep)

lemma octets_sum:
  fixes n :: nat
  assumes "n < 4294967296"
  shows "n div 16777216 mod 256 * 16777216 + n div 65536 mod 256 * 65536
           + n div 256 mod 256 * 256 + n mod 256 = n"
proof -
  define p q r where "p = n div 256" and "q = p div 256" and "r = q div 256"
  have pq: "n div 65536 = q" "n div 16777216 = r"
    using div_mult2_eq [of n 256 256] div_mult2_eq [of n 65536 256]
    by (simp_all add: p_def q_def r_def)
  have "r < 256" using assms by (simp add: p_def q_def r_def div_mult2_eq [symmetric] less_mult_imp_div_less)
  then have "r mod 256 = r" by simp
  moreover have "n = p * 256 + n mod 256" "p = q * 256 + p mod 256" "q = r * 256 + q mod 256"
    by (simp_all add: p_def q_def r_def)
  ultimately show ?thesis
    unfolding pq p_def [symmetric] by linarith
qed

theorem parse_ip_str: "n < 4294967296 \<Longrightarrow> parse_ipv4 (ip_str n) = Some n"
  using octets_sum [of n] by (simp add: parse_ipv4_def split_ip_str)

lemma ip_str_inj: "m < 4294967296 \<Longrightarrow> n < 4294967296 \<Longrightarrow> ip_str m = ip_str n \<longleftrightarrow> m = n"
  by (metis option.inject parse_ip_str)

lemma parse_octet_bound: "parse_octet s = Some n \<Longrightarrow> n \<le> 255"
  by (auto simp: parse_octet_def split: if_splits)

lemma parse_ipv4_bound: "parse_ipv4 s = Some n \<Longrightarrow> n < 4294967296"
proof -
  assume "parse_ipv4 s = Some n"
  then obtain a b c d where
    o: "map parse_octet (split_on (CHR ''.'') s) = [Some a, Some b, Some c, Some d]"
    and n: "n = a * 16777216 + b * 65536 + c * 256 + d"
    by (auto simp: parse_ipv4_def split: list.splits option.splits)
  have "\<forall>x \<in> set (map parse_octet (split_on (CHR ''.'') s)). \<forall>v. x = Some v \<longrightarrow> v \<le> 255"
    by (auto dest: parse_octet_bound)
  then have "a \<le> 255" "b \<le> 255" "c \<le> 255" "d \<le> 255"
    unfolding o by simp_all
  then show ?thesis using n by linarith
qed

subsection \<open>Networks\<close>

record ipnet =
  net_base :: nat
  net_plen :: nat

definition net_size :: "ipnet \<Rightarrow> nat" where
  "net_size n = 2 ^ (32 - net_plen n)"

definition parse_prefix :: "string \<Rightarrow> nat option" where
  "parse_prefix s =
     (if s \<noteq> [] \<and> list_all is_digit s \<and> digits_val s \<le> 32 then Some (digits_val s)
      else case parse_ipv4 s of
        None \<Rightarrow> None
      | Some m \<Rightarrow>
          (case List.find (\<lambda>p. m = 4294967296 - 2 ^ (32 - p)) [0..<33] of
             Some p \<Rightarrow> Some p
           | None \<Rightarrow>
               List.find (\<lambda>p. 4294967295 - m = 4294967296 - 2 ^ (32 - p)) [0..<33]))"

definition parse_addr_prefix :: "string \<Rightarrow> (nat \<times> nat) option" where
  "parse_addr_prefix s =
     (case split_on (CHR ''/'') s of
        [a] \<Rightarrow> (case parse_ipv4 a of Some n \<Rightarrow> Some (n, 32) | None \<Rightarrow> None)
      | [a, p] \<Rightarrow>
          (case (parse_ipv4 a, parse_prefix p) of
             (Some n, Some k) \<Rightarrow> Some (n, k)
           | _ \<Rightarrow> None)
      | _ \<Rightarrow> None)"

definition parse_network :: "string \<Rightarrow> ipnet option" where
  "parse_network s =
     (case parse_addr_prefix s of
        Some (n, k) \<Rightarrow>
          (if n mod 2 ^ (32 - k) = 0 then Some \<lparr>net_base = n, net_plen = k\<rparr> else None)
      | None \<Rightarrow> None)"

definition net_broadcast :: "ipnet \<Rightarrow> nat" where
  "net_broadcast n = net_base n + net_size n - 1"

definition in_net :: "nat \<Rightarrow> ipnet \<Rightarrow> bool" where
  "in_net a n = (net_base n \<le> a \<and> a \<le> net_broadcast n)"

text \<open>The condition the code writes as \<open>address in subnet and address not in (network, broadcast)\<close>.\<close>

definition usable_in :: "nat \<Rightarrow> ipnet \<Rightarrow> bool" where
  "usable_in a n = (in_net a n \<and> a \<noteq> net_base n \<and> a \<noteq> net_broadcast n)"

text \<open>\<open>subnet.hosts()\<close> for the prefixes the schema admits: its length and its i-th element.\<close>

definition host_count :: "ipnet \<Rightarrow> nat" where
  "host_count n = (if net_plen n = 32 then 1 else if net_plen n = 31 then 2 else net_size n - 2)"

definition host_at :: "ipnet \<Rightarrow> nat \<Rightarrow> nat" where
  "host_at n i = (if 31 \<le> net_plen n then net_base n + i else net_base n + 1 + i)"

definition nets_overlap :: "ipnet \<Rightarrow> ipnet \<Rightarrow> bool" where
  "nets_overlap a b =
     (in_net (net_base a) b \<or> in_net (net_broadcast a) b
      \<or> in_net (net_base b) a \<or> in_net (net_broadcast b) a)"

lemma parse_prefix_bound: "parse_prefix s = Some k \<Longrightarrow> k \<le> 32"
  by (auto simp: parse_prefix_def find_Some_iff nth_append split: if_splits option.splits)

lemma parse_addr_prefix_bound:
  "parse_addr_prefix s = Some (n, k) \<Longrightarrow> n < 4294967296 \<and> k \<le> 32"
  by (auto simp: parse_addr_prefix_def split: list.splits option.splits
      dest: parse_ipv4_bound parse_prefix_bound)

lemma aligned_below:
  fixes n m :: nat
  assumes "m dvd n" and "m dvd t" and "n < t" and "0 < m"
  shows "n + m \<le> t"
proof -
  from assms(1,2) obtain i j where n: "n = m * i" and t: "t = m * j" by (auto elim!: dvdE)
  with assms(3,4) have "Suc i \<le> j" by simp
  then have "m * Suc i \<le> m * j" by (rule mult_le_mono2)
  with n t show ?thesis by (simp add: algebra_simps)
qed

lemma parse_network_bounds:
  assumes "parse_network s = Some n"
  shows "net_plen n \<le> 32" "net_broadcast n < 4294967296" "net_size n dvd net_base n"
proof -
  from assms obtain b k where p: "parse_addr_prefix s = Some (b, k)"
    and m: "b mod 2 ^ (32 - k) = 0" and n: "n = \<lparr>net_base = b, net_plen = k\<rparr>"
    by (auto simp: parse_network_def split: option.splits if_splits)
  note bk = parse_addr_prefix_bound [OF p]
  show "net_plen n \<le> 32" using n bk by simp
  have d: "(2::nat) ^ (32 - k) dvd b" using m by auto
  then show "net_size n dvd net_base n" using n by (simp add: net_size_def)
  have "(2::nat) ^ (32 - k) dvd 2 ^ 32" by (rule le_imp_power_dvd) simp
  moreover have "(2::nat) ^ 32 = 4294967296" by simp
  ultimately have "(2::nat) ^ (32 - k) dvd 4294967296" by (simp only:)
  with d bk have "b + 2 ^ (32 - k) \<le> 4294967296"
    by (intro aligned_below) auto
  then show "net_broadcast n < 4294967296"
    using n by (simp add: net_broadcast_def net_size_def)
qed

lemma net_size_ge4: "net_plen n \<le> 30 \<Longrightarrow> 4 \<le> net_size n"
  using power_increasing [of 2 "32 - net_plen n" "2::nat"] by (simp add: net_size_def)

lemma host_usable:
  assumes "net_plen n \<le> 30" and "i < host_count n"
  shows "usable_in (host_at n i) n"
  using assms net_size_ge4 [OF assms(1)]
  by (auto simp: usable_in_def in_net_def host_at_def host_count_def net_broadcast_def)

lemma usable_is_host:
  assumes "net_plen n \<le> 30" and "usable_in a n"
  shows "\<exists>i < host_count n. a = host_at n i"
  using assms net_size_ge4 [OF assms(1)]
  by (intro exI [of _ "a - net_base n - 1"])
     (auto simp: usable_in_def in_net_def host_at_def host_count_def net_broadcast_def)

subsection \<open>Interfaces\<close>

text \<open>\<open>IPv4Interface(s).ip\<close>: host bits may be set.\<close>

definition parse_ipv4_interface :: "string \<Rightarrow> nat option" where
  "parse_ipv4_interface s = map_option fst (parse_addr_prefix s)"

text \<open>
  Whether \<open>IPv6Interface(s)\<close> accepts: an optional \<open>/0\<close> to \<open>/128\<close>, an optional non-empty
  scope after one percent sign, and eight hextets with at most one \<open>::\<close> gap, whose last
  part may be a dotted IPv4 address.
\<close>

definition is_hextet :: "string \<Rightarrow> bool" where
  "is_hextet s = (s \<noteq> [] \<and> length s \<le> 4
     \<and> list_all (\<lambda>c. c \<in> set ''0123456789abcdefABCDEF'') s)"

definition expand_v4_tail :: "string list \<Rightarrow> string list option" where
  "expand_v4_tail ps =
     (if CHR ''.'' \<in> set (last ps)
      then (case parse_ipv4 (last ps) of
              Some _ \<Rightarrow> Some (butlast ps @ [''0'', ''0'']) | None \<Rightarrow> None)
      else Some ps)"

definition skip_indexes :: "string list \<Rightarrow> nat list" where
  "skip_indexes ps = filter (\<lambda>i. ps ! i = []) [1..<length ps - 1]"

definition is_ipv6_hextets :: "string list \<Rightarrow> bool" where
  "is_ipv6_hextets ps =
     (length ps \<le> 9 \<and>
      (case skip_indexes ps of
         [] \<Rightarrow> length ps = 8 \<and> list_all is_hextet ps
       | [i] \<Rightarrow>
           let hi0 = i; lo0 = length ps - i - 1;
               hi = (if hd ps = [] then hi0 - 1 else hi0);
               lo = (if last ps = [] then lo0 - 1 else lo0)
           in (hd ps = [] \<longrightarrow> hi = 0) \<and> (last ps = [] \<longrightarrow> lo = 0) \<and> hi + lo < 8
              \<and> list_all is_hextet (take hi ps) \<and> list_all is_hextet (drop (length ps - lo) ps)
       | _ \<Rightarrow> False))"

definition is_ipv6_address :: "string \<Rightarrow> bool" where
  "is_ipv6_address s =
     (case split_on (CHR ''%'') s of
        [a] \<Rightarrow> (let ps = split_on (CHR '':'') a in 3 \<le> length ps \<and>
                 (case expand_v4_tail ps of Some qs \<Rightarrow> is_ipv6_hextets qs | None \<Rightarrow> False))
      | [a, sc] \<Rightarrow> sc \<noteq> [] \<and> (let ps = split_on (CHR '':'') a in 3 \<le> length ps \<and>
                 (case expand_v4_tail ps of Some qs \<Rightarrow> is_ipv6_hextets qs | None \<Rightarrow> False))
      | _ \<Rightarrow> False)"

definition is_ipv6_interface :: "string \<Rightarrow> bool" where
  "is_ipv6_interface s =
     (case split_on (CHR ''/'') s of
        [a] \<Rightarrow> is_ipv6_address a
      | [a, p] \<Rightarrow> is_ipv6_address a \<and> p \<noteq> [] \<and> list_all is_digit p \<and> digits_val p \<le> 128
      | _ \<Rightarrow> False)"

end
