(* ===== verification/Alloc_Schema.thy ===== *)
theory Alloc_Schema
  imports Ipv4
begin

text \<open>
  The typed allocation request (\<open>app/schemas/v1/allocation.py\<close>): its fields with their
  bounds and patterns, and the validators that run after them. A request reaches the
  planner only when \<open>valid_request\<close> holds; a failed check is Pydantic's ValidationError.
  Pydantic itself (strict types, no extra fields) is a library the schema calls and is the
  typing of these records.
\<close>

definition is_alnum :: "char \<Rightarrow> bool" where
  "is_alnum c = (is_alpha c \<or> is_digit c)"

definition valid_key :: "string \<Rightarrow> bool" where
  "valid_key s = (1 \<le> length s \<and> length s \<le> 128 \<and> is_alnum (hd s)
     \<and> list_all (\<lambda>c. is_alnum c \<or> c \<in> set ''_.:-'') (tl s))"

definition valid_nic_key :: "string \<Rightarrow> bool" where
  "valid_nic_key s = class_match (\<lambda>c. is_alnum c \<or> c \<in> set ''_.-'') 1 128 s"

definition valid_bridge :: "string \<Rightarrow> bool" where
  "valid_bridge s = (1 \<le> length s \<and> length s \<le> 15 \<and> is_alpha (hd s)
     \<and> list_all (\<lambda>c. is_alnum c \<or> c \<in> set ''_.-'') (tl s))"

definition valid_vmid :: "int \<Rightarrow> bool" where
  "valid_vmid v = (100 \<le> v \<and> v \<le> 999999999)"

subsection \<open>Networks\<close>

record alloc_network =
  an_id :: string
  an_bridge :: string
  an_subnet :: string
  an_gateway :: "string option"
  an_reserved :: "string list"

definition gateway_list :: "alloc_network \<Rightarrow> string list" where
  "gateway_list n =
     (case an_gateway n of Some g \<Rightarrow> if g = [] then [] else [g] | None \<Rightarrow> [])"

definition valid_network :: "alloc_network \<Rightarrow> bool" where
  "valid_network n =
     (valid_key (an_id n) \<and> valid_bridge (an_bridge n) \<and> length (an_subnet n) \<le> 18
      \<and> (case an_gateway n of Some g \<Rightarrow> length g \<le> 15 | None \<Rightarrow> True)
      \<and> length (an_reserved n) \<le> 256
      \<and> (case parse_network (an_subnet n) of
           None \<Rightarrow> False
         | Some net \<Rightarrow> 16 \<le> net_plen net \<and> net_plen net \<le> 30
             \<and> list_all (\<lambda>v. case parse_ipv4 v of Some a \<Rightarrow> usable_in a net | None \<Rightarrow> False)
                 (an_reserved n @ gateway_list n)))"

subsection \<open>Virtual machines\<close>

record alloc_nic =
  nq_index :: int
  nq_key :: "string option"
  nq_network :: string
  nq_ip :: "string option"

record alloc_vm =
  vq_node :: string
  vq_vmid :: "int option"
  vq_nics :: "alloc_nic list"

definition valid_nic :: "alloc_nic \<Rightarrow> bool" where
  "valid_nic n =
     (0 \<le> nq_index n \<and> nq_index n \<le> 31
      \<and> (case nq_key n of Some k \<Rightarrow> valid_nic_key k | None \<Rightarrow> True)
      \<and> valid_key (nq_network n)
      \<and> (case nq_ip n of Some i \<Rightarrow> length i \<le> 15 | None \<Rightarrow> True))"

definition given :: "('a \<Rightarrow> 'b option) \<Rightarrow> 'a list \<Rightarrow> 'b list" where
  "given f xs = List.map_filter f xs"

definition valid_vm :: "alloc_vm \<Rightarrow> bool" where
  "valid_vm vm =
     (valid_key (vq_node vm)
      \<and> (case vq_vmid vm of Some v \<Rightarrow> valid_vmid v | None \<Rightarrow> True)
      \<and> 1 \<le> length (vq_nics vm) \<and> length (vq_nics vm) \<le> 32 \<and> list_all valid_nic (vq_nics vm)
      \<and> sort (map nq_index (vq_nics vm)) = map int [0..<length (vq_nics vm)]
      \<and> (let keys = given nq_key (vq_nics vm) in
           keys \<noteq> [] \<longrightarrow> length keys = length (vq_nics vm) \<and> distinct keys))"

subsection \<open>Requests\<close>

record alloc_request =
  rq_project :: string
  rq_lease_seconds :: int
  rq_vmid_start :: int
  rq_vmid_end :: int
  rq_networks :: "alloc_network list"
  rq_vms :: "alloc_vm list"

fun pairwise :: "('a \<Rightarrow> 'a \<Rightarrow> bool) \<Rightarrow> 'a list \<Rightarrow> bool" where
  "pairwise P [] = True"
| "pairwise P (x # xs) = (list_all (P x) xs \<and> pairwise P xs)"

definition valid_request :: "alloc_request \<Rightarrow> bool" where
  "valid_request r =
     (valid_key (rq_project r)
      \<and> 300 \<le> rq_lease_seconds r \<and> rq_lease_seconds r \<le> 86400
      \<and> valid_vmid (rq_vmid_start r) \<and> valid_vmid (rq_vmid_end r)
      \<and> 1 \<le> length (rq_networks r) \<and> length (rq_networks r) \<le> 32
      \<and> list_all valid_network (rq_networks r)
      \<and> 1 \<le> length (rq_vms r) \<and> length (rq_vms r) \<le> 64 \<and> list_all valid_vm (rq_vms r)
      \<and> rq_vmid_start r \<le> rq_vmid_end r
      \<and> distinct (map an_id (rq_networks r))
      \<and> pairwise (\<lambda>a b. \<not> nets_overlap a b) (given (\<lambda>n. parse_network (an_subnet n)) (rq_networks r))
      \<and> distinct (map vq_node (rq_vms r))
      \<and> sum_list (map (\<lambda>vm. length (vq_nics vm)) (rq_vms r)) \<le> 256
      \<and> list_all (\<lambda>vm. list_all (\<lambda>nic.
            nq_network nic \<in> set (map an_id (rq_networks r))
            \<and> (case nq_ip nic of Some i \<Rightarrow> parse_ipv4 i \<noteq> None | None \<Rightarrow> True)) (vq_nics vm)) (rq_vms r))"

subsection \<open>Consequences the planner uses\<close>

lemma valid_network_parse:
  "valid_network n \<Longrightarrow> \<exists>net. parse_network (an_subnet n) = Some net \<and> 16 \<le> net_plen net \<and> net_plen net \<le> 30"
  by (auto simp: valid_network_def split: option.splits)

lemma valid_vm_indexes:
  assumes "valid_vm vm"
  shows "distinct (map nq_index (vq_nics vm))"
    and "set (map nq_index (vq_nics vm)) = {0..<int (length (vq_nics vm))}"
proof -
  have s: "sort (map nq_index (vq_nics vm)) = map int [0..<length (vq_nics vm)]"
    using assms by (simp add: valid_vm_def)
  have "distinct (sort (map nq_index (vq_nics vm)))"
    unfolding s by (simp add: distinct_map)
  then show "distinct (map nq_index (vq_nics vm))" by simp
  have "set (map nq_index (vq_nics vm)) = set (map int [0..<length (vq_nics vm)])"
    using arg_cong [OF s, of set] by simp
  also have "\<dots> = {0..<int (length (vq_nics vm))}"
    by (simp add: image_int_atLeastLessThan)
  finally show "set (map nq_index (vq_nics vm)) = {0..<int (length (vq_nics vm))}" .
qed

lemma valid_request_vm: "valid_request r \<Longrightarrow> vm \<in> set (rq_vms r) \<Longrightarrow> valid_vm vm"
  by (auto simp: valid_request_def list_all_iff)

lemma valid_request_network: "valid_request r \<Longrightarrow> n \<in> set (rq_networks r) \<Longrightarrow> valid_network n"
  by (auto simp: valid_request_def list_all_iff)

end
