(* ===== verification/Json_Text.thy ===== *)
theory Json_Text
  imports Prelude
begin

text \<open>
  JSON text as the backend reads and writes it: \<open>json_loads\<close> is \<open>json.loads\<close> and
  \<open>json_dumps\<close> is \<open>json.dumps(value, separators=(",", ":"))\<close> with its default ASCII
  escapes. Both belong to Python's standard library and are modelled from its
  documentation; no file of the repository is mapped here.

  Characters are code points below 256; an escape \<open>\u....\<close> beyond them, \<open>NaN\<close> and the
  infinities are outside the model (\<open>None\<close>), and so is the interpreter's recursion limit.
  That \<open>json_loads\<close> reads back what \<open>json_dumps\<close> writes is \<open>json_roundtrip\<close> of the theory
  Json_Roundtrip.
\<close>

definition is_ws :: "char \<Rightarrow> bool" where
  "is_ws c = (c \<in> {CHR 0x20, CHR 0x09, CHR 0x0A, CHR 0x0D})"

definition skip_ws :: "string \<Rightarrow> string" where
  "skip_ws s = dropWhile is_ws s"

definition hex_val :: "char \<Rightarrow> nat option" where
  "hex_val c =
     (if is_digit c then Some (digit_val c)
      else if c \<in> set ''abcdef'' then Some (of_char c - 87)
      else if c \<in> set ''ABCDEF'' then Some (of_char c - 55)
      else None)"

definition simple_escape :: "char \<Rightarrow> char option" where
  "simple_escape c =
     map_of [(CHR 0x22, CHR 0x22), (CHR 0x5C, CHR 0x5C), (CHR ''/'', CHR ''/''),
             (CHR ''b'', CHR 0x08), (CHR ''f'', CHR 0x0C), (CHR ''n'', CHR 0x0A),
             (CHR ''r'', CHR 0x0D), (CHR ''t'', CHR 0x09)] c"

fun parse_str :: "string \<Rightarrow> (string \<times> string) option" where
  "parse_str [] = None"
| "parse_str (c # cs) =
     (if c = CHR 0x22 then Some ([], cs)
      else if c = CHR 0x5C then
        (case cs of
           CHR ''u'' # a # b # d # e # r \<Rightarrow>
             (case (hex_val a, hex_val b, hex_val d, hex_val e) of
                (Some w, Some x, Some y, Some z) \<Rightarrow>
                  (if w = 0 \<and> x = 0
                   then map_option (apfst (Cons (char_of (16 * y + z)))) (parse_str r)
                   else None)
              | _ \<Rightarrow> None)
         | k # r \<Rightarrow>
             (case simple_escape k of
                Some x \<Rightarrow> map_option (apfst (Cons x)) (parse_str r)
              | None \<Rightarrow> None)
         | [] \<Rightarrow> None)
      else if of_char c < (32::nat) then None
      else map_option (apfst (Cons c)) (parse_str cs))"

definition parse_exp :: "string \<Rightarrow> (int \<times> string) option" where
  "parse_exp s =
     (let (neg, r) = (case s of CHR ''-'' # r \<Rightarrow> (True, r) | CHR ''+'' # r \<Rightarrow> (False, r) | _ \<Rightarrow> (False, s));
          ds = takeWhile is_digit r
      in if ds = [] then None
         else Some ((if neg then - int (digits_val ds) else int (digits_val ds)), drop (length ds) r))"

definition pow10 :: "int \<Rightarrow> rat" where
  "pow10 e = (if 0 \<le> e then 10 ^ nat e else 1 / 10 ^ nat (- e))"

definition parse_frac :: "string \<Rightarrow> string \<times> string" where
  "parse_frac s =
     (case s of CHR ''.'' # r \<Rightarrow>
        (let ds = takeWhile is_digit r in if ds = [] then ([], s) else (ds, drop (length ds) r))
      | _ \<Rightarrow> ([], s))"

definition parse_expo :: "string \<Rightarrow> int option \<times> string" where
  "parse_expo s =
     (case s of c # r \<Rightarrow>
        (if c = CHR ''e'' \<or> c = CHR ''E''
         then (case parse_exp r of Some (e, r') \<Rightarrow> (Some e, r') | None \<Rightarrow> (None, s))
         else (None, s))
      | [] \<Rightarrow> (None, s))"

definition parse_num :: "string \<Rightarrow> (json \<times> string) option" where
  "parse_num s =
     (let (neg, r) = (case s of CHR ''-'' # r \<Rightarrow> (True, r) | _ \<Rightarrow> (False, s));
          all = takeWhile is_digit r;
          ds = (if take 1 all = ''0'' then ''0'' else all);
          r1 = drop (length ds) r;
          sgn = (if neg then -1 else 1)
      in if ds = [] then None
         else case parse_frac r1 of (fr, r2) \<Rightarrow>
              case parse_expo r2 of (ex, r3) \<Rightarrow>
                if fr = [] \<and> ex = None then Some (JInt (sgn * int (digits_val ds)), r1)
                else Some (JFloat (of_int sgn
                       * (of_nat (digits_val ds) + of_nat (digits_val fr) / 10 ^ length fr)
                       * pow10 (case ex of None \<Rightarrow> 0 | Some e \<Rightarrow> e)), r3))"

definition parse_lit :: "string \<Rightarrow> (json \<times> string) option" where
  "parse_lit s =
     (if prefix ''null'' s then Some (JNull, drop 4 s)
      else if prefix ''true'' s then Some (JBool True, drop 4 s)
      else if prefix ''false'' s then Some (JBool False, drop 5 s)
      else parse_num s)"

text \<open>
  \<open>h\<close> is the \<open>object_pairs_hook\<close>: what an object becomes of its members in their order, or a
  refusal. Without one an object is a dict, where the last of equal keys counts.
\<close>

type_synonym object_hook = "dict \<Rightarrow> json option"

fun parse_value :: "object_hook \<Rightarrow> nat \<Rightarrow> string \<Rightarrow> (json \<times> string) option"
  and parse_elems :: "object_hook \<Rightarrow> nat \<Rightarrow> string \<Rightarrow> (json list \<times> string) option"
  and parse_members :: "object_hook \<Rightarrow> nat \<Rightarrow> string \<Rightarrow> (dict \<times> string) option" where
  "parse_value h 0 s = None"
| "parse_value h (Suc n) s =
     (case skip_ws s of
        [] \<Rightarrow> None
      | c # cs \<Rightarrow>
          if c = CHR 0x22 then map_option (apfst JStr) (parse_str cs)
          else if c = CHR ''['' then
            (case skip_ws cs of
               d # r \<Rightarrow> if d = CHR '']'' then Some (JList [], r)
                        else map_option (apfst JList) (parse_elems h n cs)
             | [] \<Rightarrow> None)
          else if c = CHR ''{'' then
            (case skip_ws cs of
               d # r \<Rightarrow> if d = CHR ''}'' then map_option (\<lambda>v. (v, r)) (h [])
                        else (case parse_members h n cs of
                           None \<Rightarrow> None
                         | Some (ps, r') \<Rightarrow> map_option (\<lambda>v. (v, r')) (h ps))
             | [] \<Rightarrow> None)
          else parse_lit (c # cs))"
| "parse_elems h 0 s = None"
| "parse_elems h (Suc n) s =
     (case parse_value h n s of
        None \<Rightarrow> None
      | Some (x, r) \<Rightarrow>
          (case skip_ws r of
             c # r' \<Rightarrow> if c = CHR '','' then map_option (apfst (Cons x)) (parse_elems h n r')
                       else if c = CHR '']'' then Some ([x], r') else None
           | [] \<Rightarrow> None))"
| "parse_members h 0 s = None"
| "parse_members h (Suc n) s =
     (case skip_ws s of
        [] \<Rightarrow> None
      | q # cs \<Rightarrow>
          if q \<noteq> CHR 0x22 then None
          else (case parse_str cs of
             None \<Rightarrow> None
           | Some (k, r) \<Rightarrow>
               (case skip_ws r of
                  [] \<Rightarrow> None
                | col # r1 \<Rightarrow>
                    if col \<noteq> CHR '':'' then None
                    else (case parse_value h n r1 of
                       None \<Rightarrow> None
                     | Some (v, r2) \<Rightarrow>
                         (case skip_ws r2 of
                            c # r3 \<Rightarrow>
                              if c = CHR '','' then map_option (apfst (Cons (k, v))) (parse_members h n r3)
                              else if c = CHR ''}'' then Some ([(k, v)], r3) else None
                          | [] \<Rightarrow> None)))))"

definition json_loads_hook :: "object_hook \<Rightarrow> string \<Rightarrow> json option" where
  "json_loads_hook h s =
     (case parse_value h (2 * length s + 2) s of
        Some (v, r) \<Rightarrow> if skip_ws r = [] then Some v else None
      | None \<Rightarrow> None)"

definition dict_object :: object_hook where
  "dict_object ps = Some (JObj (dupdate [] ps))"

definition json_loads :: "string \<Rightarrow> json option" where
  "json_loads s = json_loads_hook dict_object s"

subsection \<open>Writing\<close>

definition hex_char :: "nat \<Rightarrow> char" where
  "hex_char d = ''0123456789abcdef'' ! d"

definition esc_char :: "char \<Rightarrow> string" where
  "esc_char c =
     (if c = CHR 0x22 then [CHR 0x5C, CHR 0x22]
      else if c = CHR 0x5C then [CHR 0x5C, CHR 0x5C]
      else if c = CHR 0x0A then [CHR 0x5C, CHR ''n'']
      else if c = CHR 0x0D then [CHR 0x5C, CHR ''r'']
      else if c = CHR 0x09 then [CHR 0x5C, CHR ''t'']
      else if c = CHR 0x08 then [CHR 0x5C, CHR ''b'']
      else if c = CHR 0x0C then [CHR 0x5C, CHR ''f'']
      else if of_char c < (32::nat) \<or> of_char c > (126::nat)
      then [CHR 0x5C, CHR ''u'', CHR ''0'', CHR ''0'', hex_char (of_char c div 16), hex_char (of_char c mod 16)]
      else [c])"

definition dumps_str :: "string \<Rightarrow> string" where
  "dumps_str s = CHR 0x22 # concat (map esc_char s) @ [CHR 0x22]"

fun join_with :: "string \<Rightarrow> string list \<Rightarrow> string" where
  "join_with sep [] = []"
| "join_with sep [x] = x"
| "join_with sep (x # y # xs) = x @ sep @ join_with sep (y # xs)"

text \<open>
  A float is written by its \<open>repr\<close>, which only its rational value determines here; the
  writer takes it as an argument and no theorem of the round trip is about floats.
\<close>

fun json_dumps :: "(rat \<Rightarrow> string) \<Rightarrow> json \<Rightarrow> string" where
  "json_dumps fr JNull = ''null''"
| "json_dumps fr (JBool b) = (if b then ''true'' else ''false'')"
| "json_dumps fr (JInt i) = int_str i"
| "json_dumps fr (JFloat r) = fr r"
| "json_dumps fr (JStr s) = dumps_str s"
| "json_dumps fr (JList xs) = ''['' @ join_with '','' (map (json_dumps fr) xs) @ '']''"
| "json_dumps fr (JObj d) =
     ''{'' @ join_with '','' (map (\<lambda>(k, v). dumps_str k @ '':'' @ json_dumps fr v) d) @ ''}''"

end
