(* ===== verification/Json_Values.thy ===== *)
theory Json_Values
  imports Prelude
begin

text \<open>
  Reading JSON values the way the code does: type tests, \<open>d.get(k)\<close> and \<open>d[k]\<close>, comparison with
  an integer, iteration, and the conversions \<open>int(x)\<close> and \<open>str.splitlines\<close>.
\<close>

fun as_obj :: "json \<Rightarrow> dict option" where
  "as_obj (JObj d) = Some d"
| "as_obj _ = None"

fun as_str :: "json \<Rightarrow> string option" where
  "as_str (JStr s) = Some s"
| "as_str _ = None"

definition jget :: "dict \<Rightarrow> string \<Rightarrow> json" where
  "jget d k = (case dget d k of None \<Rightarrow> JNull | Some v \<Rightarrow> v)"

fun as_int :: "json \<Rightarrow> int option" where
  "as_int (JInt i) = Some i"
| "as_int _ = None"

fun as_list :: "json \<Rightarrow> json list option" where
  "as_list (JList xs) = Some xs"
| "as_list _ = None"

lemma as_Some [res_simps]:
  "as_int v = Some i \<longleftrightarrow> v = JInt i" "as_list v = Some xs \<longleftrightarrow> v = JList xs"
  "as_obj v = Some d \<longleftrightarrow> v = JObj d" "as_str v = Some s \<longleftrightarrow> v = JStr s"
  by (cases v; simp)+

definition item :: "dict \<Rightarrow> string \<Rightarrow> json res" where
  "item d k = of_opt KeyError (dget d k)"

text \<open>\<open>x == n\<close> between a JSON value and an integer: Python compares across its number types.\<close>

fun json_eq_int :: "json \<Rightarrow> int \<Rightarrow> bool" where
  "json_eq_int (JInt i) n = (i = n)"
| "json_eq_int (JBool b) n = ((if b then 1 else 0) = n)"
| "json_eq_int (JFloat r) n = (r = of_int n)"
| "json_eq_int _ n = False"

text \<open>\<open>for x in value\<close>: an object yields its keys, a string its characters.\<close>

fun iter_json :: "json \<Rightarrow> json list res" where
  "iter_json (JList xs) = Inr xs"
| "iter_json (JObj d) = Inr (map JStr (dkeys d))"
| "iter_json (JStr s) = Inr (map (\<lambda>c. JStr [c]) s)"
| "iter_json _ = Inl TypeError"

text \<open>Python's whitespace below code point 256, and \<open>int(x)\<close>: blanks around, a sign, digits with single underscores.\<close>

definition py_space :: "char \<Rightarrow> bool" where
  "py_space c = (let n = of_char c :: nat in 9 \<le> n \<and> n \<le> 13 \<or> 28 \<le> n \<and> n \<le> 32 \<or> n = 133 \<or> n = 160)"

definition strip :: "string \<Rightarrow> string" where
  "strip s = rev (dropWhile py_space (rev (dropWhile py_space s)))"

definition nat_of_str :: "string \<Rightarrow> nat option" where
  "nat_of_str s =
     (if list_all (\<lambda>p. p \<noteq> [] \<and> list_all is_digit p) (split_on (CHR ''_'') s)
      then Some (digits_val (filter is_digit s)) else None)"

definition int_of_str :: "string \<Rightarrow> int option" where
  "int_of_str s =
     (case strip s of
        [] \<Rightarrow> None
      | c # r \<Rightarrow>
          if c = CHR ''-'' then map_option (\<lambda>n. - int n) (nat_of_str r)
          else if c = CHR ''+'' then map_option int (nat_of_str r)
          else map_option int (nat_of_str (c # r)))"

fun int_of_json :: "json \<Rightarrow> int res" where
  "int_of_json (JInt i) = Inr i"
| "int_of_json (JBool b) = Inr (if b then 1 else 0)"
| "int_of_json (JFloat r) = Inr (if 0 \<le> r then \<lfloor>r\<rfloor> else \<lceil>r\<rceil>)"
| "int_of_json (JStr s) = of_opt ValueError (int_of_str s)"
| "int_of_json _ = Inl TypeError"

definition line_break :: "char \<Rightarrow> bool" where
  "line_break c = (let n = of_char c :: nat in n \<in> {10, 11, 12, 13, 28, 29, 30, 133})"

fun split_lines :: "string \<Rightarrow> string \<Rightarrow> string list" where
  "split_lines cur [] = (if cur = [] then [] else [rev cur])"
| "split_lines cur (c # cs) =
     (if line_break c
      then rev cur # split_lines [] (if c = CHR 0x0D \<and> take 1 cs = [CHR 0x0A] then drop 1 cs else cs)
      else split_lines (c # cur) cs)"

abbreviation splitlines :: "string \<Rightarrow> string list" where
  "splitlines s \<equiv> split_lines [] s"

end
