(* ===== verification/Occupancy.thy ===== *)
theory Occupancy
  imports Ipv4 Json_Text Json_Values
begin

text \<open>
  Reads of the Proxmox API (\<open>app/core/proxmox_read.py\<close>) and the occupancy audit
  (\<open>app/core/allocation_occupancy.py\<close>) that every reservation starts from.

  The HTTP client is a parameter: \<open>get url params\<close> is \<open>None\<close> when httpx raises an HTTPError
  and the response otherwise, whose body is \<open>None\<close> when it is not JSON. The guests and nodes
  that the code inspects concurrently are inspected in list order; the result only grows, so
  the order shows in nothing but which of several errors of the same code is reported.
\<close>

subsection \<open>Requests\<close>

record http_response =
  hr_status :: int
  hr_body :: "json option"

type_synonym http_get = "string \<Rightarrow> dict \<Rightarrow> http_response option"

record proxmox_host =
  ph_id :: string
  ph_api_url :: string
  ph_node_name :: string
  ph_protected_json :: "string option"

definition rstrip_slash :: "string \<Rightarrow> string" where
  "rstrip_slash s = rev (dropWhile (\<lambda>c. c = CHR ''/'') (rev s))"

definition api_url :: "proxmox_host \<Rightarrow> string \<Rightarrow> string" where
  "api_url h path = rstrip_slash (ph_api_url h) @ ''/api2/json'' @ path"

datatype read_error = ProxmoxReadError

definition is_success :: "int \<Rightarrow> bool" where
  "is_success st = (200 \<le> st \<and> st < 300)"

fun plain_data :: "json \<Rightarrow> bool" where
  "plain_data (JObj d) = True"
| "plain_data (JList xs) = True"
| "plain_data (JStr s) = True"
| "plain_data (JInt i) = True"
| "plain_data _ = False"

definition read_proxmox_data ::
    "http_get \<Rightarrow> proxmox_host \<Rightarrow> string \<Rightarrow> dict \<Rightarrow> read_error + json" where
  "read_proxmox_data get h path params =
     (case get (api_url h path) params of
        None \<Rightarrow> Inl ProxmoxReadError
      | Some r \<Rightarrow>
          if \<not> is_success (hr_status r) then Inl ProxmoxReadError
          else case hr_body r of
            Some (JObj d) \<Rightarrow>
              (case dget d ''data'' of
                 Some v \<Rightarrow> if plain_data v then Inr v else Inl ProxmoxReadError
               | None \<Rightarrow> Inl ProxmoxReadError)
          | _ \<Rightarrow> Inl ProxmoxReadError)"

definition list_proxmox_data ::
    "http_get \<Rightarrow> proxmox_host \<Rightarrow> string \<Rightarrow> dict \<Rightarrow> read_error + dict list" where
  "list_proxmox_data get h path params =
     bindE (read_proxmox_data get h path params)
       (\<lambda>v. case v of
          JList xs \<Rightarrow> mapE (\<lambda>x. of_opt ProxmoxReadError (as_obj x)) xs
        | _ \<Rightarrow> Inl ProxmoxReadError)"

subsection \<open>Occupied identifiers and addresses\<close>

type_synonym addr = "string \<times> string"

record occupancy =
  occ_vmids :: "int set"
  occ_addresses :: "addr set"
  occ_unknown :: nat

definition empty_occupancy :: occupancy where
  "empty_occupancy = \<lparr>occ_vmids = {}, occ_addresses = {}, occ_unknown = 0\<rparr>"

definition unavailable :: exc where
  "unavailable = ApiError \<lparr>ae_status = 409, ae_error = ''error'', ae_code = ''ALLOCATION_OCCUPANCY_UNAVAILABLE''\<rparr>"

text \<open>The \<open>except ProxmoxReadError\<close> clause around the audit.\<close>

definition reading :: "read_error + 'a \<Rightarrow> 'a res" where
  "reading r = (case r of Inl _ \<Rightarrow> Inl unavailable | Inr x \<Rightarrow> Inr x)"

lemma reading_Inr [res_simps]: "reading r = Inr x \<longleftrightarrow> r = Inr x"
  by (cases r) (simp_all add: reading_def)

definition properties :: "string \<Rightarrow> (string \<times> string) list" where
  "properties value =
     dupdate [] (map (split_once (CHR ''=''))
       (filter (\<lambda>part. CHR ''='' \<in> set part) (split_on (CHR '','') value)))"

definition record_address :: "occupancy \<Rightarrow> string \<Rightarrow> string option \<Rightarrow> occupancy res" where
  "record_address occ bridge value =
     (case value of
        None \<Rightarrow> Inr (occ\<lparr>occ_unknown := Suc (occ_unknown occ)\<rparr>)
      | Some v \<Rightarrow>
          if v = [] \<or> v \<in> {''dhcp'', ''manual'', ''auto''}
          then Inr (occ\<lparr>occ_unknown := Suc (occ_unknown occ)\<rparr>)
          else case parse_ipv4_interface v of
            Some a \<Rightarrow> Inr (occ\<lparr>occ_addresses := insert (bridge, ip_str a) (occ_addresses occ)\<rparr>)
          | None \<Rightarrow> if is_ipv6_interface v then Inr occ else Inl unavailable)"

definition audit_permitted :: "json \<Rightarrow> bool" where
  "audit_permitted v =
     (case v of JObj d \<Rightarrow>
        (case dget d ''/vms'' of
           Some (JObj p) \<Rightarrow> (case dget p ''VM.Audit'' of Some x \<Rightarrow> json_eq_int x 1 | None \<Rightarrow> False)
         | _ \<Rightarrow> False)
      | _ \<Rightarrow> False)"

definition is_node_name :: "string \<Rightarrow> bool" where
  "is_node_name s = (s \<noteq> [] \<and>
     list_all (\<lambda>c. is_alpha c \<or> is_digit c \<or> c \<in> set ''_.-'') s)"

definition is_net_key :: "string \<Rightarrow> bool" where
  "is_net_key k = (prefix ''net'' k \<and> length k > 3 \<and> list_all is_digit (drop 3 k))"

definition inspect_config_item ::
    "string \<Rightarrow> dict \<Rightarrow> occupancy \<Rightarrow> string \<times> json \<Rightarrow> occupancy res" where
  "inspect_config_item kind config occ kv =
     (case kv of (key, value) \<Rightarrow>
        if \<not> is_net_key key then Inr occ
        else case value of
          JStr s \<Rightarrow>
            (case dget (properties s) ''bridge'' of
               None \<Rightarrow> Inr occ
             | Some bridge \<Rightarrow>
                 if bridge = [] then Inr occ
                 else case (if kind = ''qemu''
                            then (case dget config (''ipconfig'' @ drop 3 key) of
                                    Some x \<Rightarrow> x | None \<Rightarrow> JStr [])
                            else value) of
                   JStr ipconfig \<Rightarrow> record_address occ bridge (dget (properties ipconfig) ''ip'')
                 | _ \<Rightarrow> Inl unavailable)
        | _ \<Rightarrow> Inl unavailable)"

definition inspect_config :: "string \<Rightarrow> occupancy \<Rightarrow> json \<Rightarrow> occupancy res" where
  "inspect_config kind occ config =
     (case config of
        JObj d \<Rightarrow> foldE (inspect_config_item kind d) occ d
      | _ \<Rightarrow> Inl unavailable)"

definition config_path :: "string \<Rightarrow> string \<Rightarrow> int \<Rightarrow> string" where
  "config_path node kind vmid =
     ''/nodes/'' @ node @ ''/'' @ kind @ ''/'' @ int_str vmid @ ''/config''"

text \<open>
  The checks of one inventory row. \<open>kind not in {...}\<close> hashes \<open>kind\<close>, so a list or an object
  there raises TypeError, after the two checks of the VMID.
\<close>

definition guest_row :: "dict \<Rightarrow> (int \<times> string \<times> string) res" where
  "guest_row row =
     (case dget row ''vmid'' of
        Some (JInt vmid) \<Rightarrow>
          if vmid < 100 then Inl unavailable
          else (case dget row ''type'' of
             Some (JList _) \<Rightarrow> Inl TypeError
           | Some (JObj _) \<Rightarrow> Inl TypeError
           | Some (JStr kind) \<Rightarrow>
               if kind \<notin> {''qemu'', ''lxc''} then Inl unavailable
               else (case dget row ''node'' of
                  Some (JStr node) \<Rightarrow>
                    if is_node_name node then Inr (vmid, kind, node) else Inl unavailable
                | _ \<Rightarrow> Inl unavailable)
           | _ \<Rightarrow> Inl unavailable)
      | _ \<Rightarrow> Inl unavailable)"

definition inspect_guest ::
    "http_get \<Rightarrow> proxmox_host \<Rightarrow> occupancy \<Rightarrow> dict \<Rightarrow> occupancy res" where
  "inspect_guest get h occ row =
     bindE (guest_row row) (\<lambda>(vmid, kind, node).
       foldE (\<lambda>o' current.
           bindE (reading (read_proxmox_data get h (config_path node kind vmid)
                    [(''current'', JInt current)]))
             (inspect_config kind o'))
         (occ\<lparr>occ_vmids := insert vmid (occ_vmids occ)\<rparr>) [0, 1])"

definition or_else :: "json option \<Rightarrow> json option \<Rightarrow> json option" where
  "or_else a b = (case a of Some v \<Rightarrow> if truthy v then Some v else b | None \<Rightarrow> b)"

definition inspect_network :: "occupancy \<Rightarrow> dict \<Rightarrow> occupancy res" where
  "inspect_network occ network =
     (case or_else (dget network ''cidr'') (dget network ''address'') of
        None \<Rightarrow> Inr occ
      | Some value \<Rightarrow>
          if \<not> truthy value then Inr occ
          else case (dget network ''iface'', value) of
            (Some (JStr iface), JStr v) \<Rightarrow> record_address occ iface (Some v)
          | _ \<Rightarrow> Inl unavailable)"

definition inspect_node ::
    "http_get \<Rightarrow> proxmox_host \<Rightarrow> occupancy \<Rightarrow> dict \<Rightarrow> occupancy res" where
  "inspect_node get h occ row =
     (case dget row ''node'' of
        Some (JStr node) \<Rightarrow>
          if \<not> is_node_name node then Inl unavailable
          else bindE (reading (list_proxmox_data get h (''/nodes/'' @ node @ ''/network'') []))
                 (foldE inspect_network occ)
      | _ \<Rightarrow> Inl unavailable)"

definition node_online :: "proxmox_host \<Rightarrow> dict \<Rightarrow> bool" where
  "node_online h node =
     (dget node ''node'' = Some (JStr (ph_node_name h)) \<and> dget node ''status'' = Some (JStr ''online''))"

definition read_occupancy :: "http_get \<Rightarrow> proxmox_host \<Rightarrow> occupancy res" where
  "read_occupancy get h =
     bindE (reading (read_proxmox_data get h ''/access/permissions'' [(''path'', JStr ''/vms'')]))
       (\<lambda>perms. bindE (assertE (audit_permitted perms) unavailable) (\<lambda>_.
     bindE (reading (list_proxmox_data get h ''/cluster/resources'' [(''type'', JStr ''vm'')]))
       (\<lambda>rows.
     bindE (reading (list_proxmox_data get h ''/nodes'' []))
       (\<lambda>nodes.
     bindE (assertE (length rows \<le> 4096 \<and> length nodes \<le> 128) unavailable) (\<lambda>_.
     bindE (assertE (list_ex (node_online h) nodes) unavailable) (\<lambda>_.
     bindE (foldE (inspect_guest get h) empty_occupancy rows) (\<lambda>occ.
     foldE (inspect_node get h) occ nodes)))))))"

text \<open>
  \<open>str(data["data"]) != str(vmid)\<close> for the two types the check admits.
\<close>

definition names_vmid :: "json option \<Rightarrow> int \<Rightarrow> bool" where
  "names_vmid v vmid =
     (case v of Some (JStr s) \<Rightarrow> s = int_str vmid | Some (JInt i) \<Rightarrow> i = vmid | _ \<Rightarrow> False)"

definition conflict_body :: "dict \<Rightarrow> int \<Rightarrow> bool res" where
  "conflict_body d vmid =
     (case dget d ''errors'' of
        None \<Rightarrow> Inr False
      | Some (JObj e) \<Rightarrow> Inr (dget e ''vmid'' = Some (JStr (''VM '' @ int_str vmid @ '' already exists'')))
      | Some _ \<Rightarrow> Inl unavailable)"

definition vmid_is_free :: "http_get \<Rightarrow> proxmox_host \<Rightarrow> int \<Rightarrow> bool res" where
  "vmid_is_free get h vmid =
     (case get (api_url h ''/cluster/nextid'') [(''vmid'', JInt vmid)] of
        None \<Rightarrow> Inl unavailable
      | Some r \<Rightarrow>
          (case hr_body r of
             None \<Rightarrow> Inl unavailable
           | Some data \<Rightarrow>
               bindE (case data of
                        JObj d \<Rightarrow> if hr_status r = 400 then conflict_body d vmid else Inr False
                      | _ \<Rightarrow> Inr False)
                 (\<lambda>conflict.
                    if conflict then Inr False
                    else if \<not> is_success (hr_status r) then Inl unavailable
                    else case data of
                      JObj d \<Rightarrow> if names_vmid (dget d ''data'') vmid then Inr True else Inl unavailable
                    | _ \<Rightarrow> Inl unavailable)))"

subsection \<open>The audit only grows its result\<close>

definition occ_le :: "occupancy \<Rightarrow> occupancy \<Rightarrow> bool" where
  "occ_le a b =
     (occ_vmids a \<subseteq> occ_vmids b \<and> occ_addresses a \<subseteq> occ_addresses b
      \<and> occ_unknown a \<le> occ_unknown b)"

lemma occ_le_refl [simp]: "occ_le a a"
  by (simp add: occ_le_def)

lemma occ_le_trans: "occ_le a b \<Longrightarrow> occ_le b c \<Longrightarrow> occ_le a c"
  by (auto simp: occ_le_def)

lemma foldE_grows:
  assumes "foldE f a xs = Inr b" and "\<And>s x s'. f s x = Inr s' \<Longrightarrow> occ_le s s'"
  shows "occ_le a b"
  by (rule foldE_invariant [where P = "occ_le a", OF assms(1)])
     (auto intro: occ_le_trans assms(2))

text \<open>Whatever a step puts into the audit is still there at its end.\<close>

lemma foldE_records:
  assumes "foldE f a xs = Inr b" and "\<And>s x s'. f s x = Inr s' \<Longrightarrow> occ_le s s'" and "x \<in> set xs"
  shows "\<exists>s s'. f s x = Inr s' \<and> occ_le s' b"
proof -
  from assms(3) obtain us vs where xs: "xs = us @ x # vs" by (meson split_list)
  from assms(1) obtain s s' where "f s x = Inr s'" and rest: "foldE f s' vs = Inr b"
    by (auto simp: xs foldE_append res_simps)
  moreover have "occ_le s' b" by (rule foldE_grows [OF rest assms(2)])
  ultimately show ?thesis by blast
qed

lemma record_address_grows: "record_address occ b v = Inr occ' \<Longrightarrow> occ_le occ occ'"
  by (auto simp: record_address_def occ_le_def split: option.splits if_splits)

lemma inspect_config_item_grows: "inspect_config_item k d occ kv = Inr occ' \<Longrightarrow> occ_le occ occ'"
  by (cases kv) (auto simp: inspect_config_item_def record_address_grows
      split: option.splits if_splits json.splits)

lemma inspect_config_grows: "inspect_config k occ c = Inr occ' \<Longrightarrow> occ_le occ occ'"
  by (auto simp: inspect_config_def intro: foldE_grows inspect_config_item_grows split: json.splits)

lemma inspect_guest_steps:
  assumes "inspect_guest get h occ row = Inr occ'"
  obtains vmid kind node c0 c1 o1 where
    "guest_row row = Inr (vmid, kind, node)"
    "read_proxmox_data get h (config_path node kind vmid) [(''current'', JInt 0)] = Inr c0"
    "inspect_config kind (occ\<lparr>occ_vmids := insert vmid (occ_vmids occ)\<rparr>) c0 = Inr o1"
    "read_proxmox_data get h (config_path node kind vmid) [(''current'', JInt 1)] = Inr c1"
    "inspect_config kind o1 c1 = Inr occ'"
proof -
  from assms obtain g where g: "guest_row row = Inr g"
    by (auto simp: inspect_guest_def res_simps)
  obtain vmid kind node where "g = (vmid, kind, node)" by (cases g)
  with g assms that show thesis by (auto simp: inspect_guest_def res_simps)
qed

lemma inspect_guest_grows: "inspect_guest get h occ row = Inr occ' \<Longrightarrow> occ_le occ occ'"
proof (erule inspect_guest_steps)
  fix vmid kind c0 o1 c1
  assume "inspect_config kind (occ\<lparr>occ_vmids := insert vmid (occ_vmids occ)\<rparr>) c0 = Inr o1"
    and "inspect_config kind o1 c1 = Inr occ'"
  then have "occ_le (occ\<lparr>occ_vmids := insert vmid (occ_vmids occ)\<rparr>) occ'"
    by (blast intro: occ_le_trans inspect_config_grows)
  then show ?thesis by (auto simp: occ_le_def)
qed

lemma inspect_network_grows: "inspect_network occ n = Inr occ' \<Longrightarrow> occ_le occ occ'"
  by (auto simp: inspect_network_def record_address_grows split: option.splits if_splits json.splits)

lemma inspect_node_grows: "inspect_node get h occ row = Inr occ' \<Longrightarrow> occ_le occ occ'"
  by (auto simp: inspect_node_def bindE_Inr intro: foldE_grows inspect_network_grows
      split: option.splits if_splits json.splits)

subsection \<open>What a completed audit guarantees\<close>

text \<open>The static IPv4 address a guest's configuration item gives to a bridge, if it gives one.\<close>

definition static_address :: "string \<Rightarrow> dict \<Rightarrow> string \<Rightarrow> string \<Rightarrow> addr option" where
  "static_address kind config key s =
     (case dget (properties s) ''bridge'' of
        None \<Rightarrow> None
      | Some bridge \<Rightarrow>
          if bridge = [] then None
          else case (if kind = ''qemu'' then dget config (''ipconfig'' @ drop 3 key) else Some (JStr s)) of
            Some (JStr ipconfig) \<Rightarrow>
              (case dget (properties ipconfig) ''ip'' of
                 Some v \<Rightarrow> if v \<in> {[], ''dhcp'', ''manual'', ''auto''} then None
                            else map_option (\<lambda>a. (bridge, ip_str a)) (parse_ipv4_interface v)
               | None \<Rightarrow> None)
          | _ \<Rightarrow> None)"

lemma inspect_config_item_static:
  assumes "inspect_config_item kind d occ (key, JStr s) = Inr occ'"
    and "is_net_key key" and "static_address kind d key s = Some p"
  shows "p \<in> occ_addresses occ'"
  using assms
  by (auto simp: inspect_config_item_def static_address_def record_address_def
      split: option.splits if_splits json.splits)

lemma inspect_config_static:
  assumes "inspect_config kind occ (JObj d) = Inr occ'" and "(key, JStr s) \<in> set d"
    and "is_net_key key" and "static_address kind d key s = Some p"
  shows "p \<in> occ_addresses occ'"
proof -
  have "foldE (inspect_config_item kind d) occ d = Inr occ'"
    using assms(1) by (simp add: inspect_config_def)
  then obtain o1 o2 where "inspect_config_item kind d o1 (key, JStr s) = Inr o2" and "occ_le o2 occ'"
    using assms(2) foldE_records inspect_config_item_grows by metis
  with inspect_config_item_static [OF _ assms(3,4)] show ?thesis
    by (auto simp: occ_le_def)
qed

definition config_recorded :: "occupancy \<Rightarrow> string \<Rightarrow> json \<Rightarrow> bool" where
  "config_recorded occ kind c =
     (case c of
        JObj d \<Rightarrow>
          (\<forall>(key, v) \<in> set d. is_net_key key \<longrightarrow>
             (case v of
                JStr s \<Rightarrow> (case static_address kind d key s of
                             Some p \<Rightarrow> p \<in> occ_addresses occ | None \<Rightarrow> True)
              | _ \<Rightarrow> False))
      | _ \<Rightarrow> False)"

definition guest_recorded ::
    "http_get \<Rightarrow> proxmox_host \<Rightarrow> occupancy \<Rightarrow> dict \<Rightarrow> bool" where
  "guest_recorded get h occ row =
     (case guest_row row of
        Inl _ \<Rightarrow> False
      | Inr (vmid, kind, node) \<Rightarrow>
          vmid \<in> occ_vmids occ \<and>
          (\<forall>current \<in> {0, 1}.
             case read_proxmox_data get h (config_path node kind vmid) [(''current'', JInt current)] of
               Inr c \<Rightarrow> config_recorded occ kind c
             | Inl _ \<Rightarrow> False))"

lemma inspect_config_item_net_str:
  "inspect_config_item kind d occ (key, v) = Inr occ' \<Longrightarrow> is_net_key key \<Longrightarrow> \<exists>s. v = JStr s"
  by (auto simp: inspect_config_item_def split: json.splits)

lemma inspect_config_recorded:
  assumes "inspect_config kind occ c = Inr occ'" and "occ_le occ' fin"
  shows "config_recorded fin kind c"
proof -
  from assms(1) obtain d where d: "c = JObj d" and f: "foldE (inspect_config_item kind d) occ d = Inr occ'"
    by (auto simp: inspect_config_def split: json.splits)
  have "case v of JStr s \<Rightarrow> (case static_address kind d key s of
          Some p \<Rightarrow> p \<in> occ_addresses fin | None \<Rightarrow> True) | _ \<Rightarrow> False"
    if kv: "(key, v) \<in> set d" and net: "is_net_key key" for key v
  proof -
    obtain o1 o2 where "inspect_config_item kind d o1 (key, v) = Inr o2"
      using foldE_records [OF f _ kv] inspect_config_item_grows by blast
    then obtain s where s: "v = JStr s" using inspect_config_item_net_str net by blast
    show ?thesis
      using inspect_config_static [OF assms(1) [unfolded d]] kv net assms(2) s
      by (auto simp: occ_le_def split: option.splits)
  qed
  with d show ?thesis by (auto simp: config_recorded_def)
qed

lemma inspect_guest_recorded:
  assumes "inspect_guest get h occ row = Inr occ'" and "occ_le occ' fin"
  shows "guest_recorded get h fin row"
proof -
  from assms(1) obtain vmid kind node c0 c1 o1 where
    g: "guest_row row = Inr (vmid, kind, node)"
    and r0: "read_proxmox_data get h (config_path node kind vmid) [(''current'', JInt 0)] = Inr c0"
    and i0: "inspect_config kind (occ\<lparr>occ_vmids := insert vmid (occ_vmids occ)\<rparr>) c0 = Inr o1"
    and r1: "read_proxmox_data get h (config_path node kind vmid) [(''current'', JInt 1)] = Inr c1"
    and i1: "inspect_config kind o1 c1 = Inr occ'"
    by (rule inspect_guest_steps)
  have "occ_le o1 fin"
    using inspect_config_grows [OF i1] assms(2) by (rule occ_le_trans)
  moreover from this have "vmid \<in> occ_vmids fin"
    using inspect_config_grows [OF i0] by (auto simp: occ_le_def)
  ultimately show ?thesis
    using g r0 r1 inspect_config_recorded [OF i0] inspect_config_recorded [OF i1 assms(2)]
    by (auto simp: guest_recorded_def)
qed

lemma read_occupancy_steps:
  assumes "read_occupancy get h = Inr occ"
  obtains perms rows nodes mid where
    "read_proxmox_data get h ''/access/permissions'' [(''path'', JStr ''/vms'')] = Inr perms"
    "audit_permitted perms"
    "list_proxmox_data get h ''/cluster/resources'' [(''type'', JStr ''vm'')] = Inr rows"
    "list_proxmox_data get h ''/nodes'' [] = Inr nodes"
    "length rows \<le> 4096" "length nodes \<le> 128" "list_ex (node_online h) nodes"
    "foldE (inspect_guest get h) empty_occupancy rows = Inr mid"
    "foldE (inspect_node get h) mid nodes = Inr occ"
  using assms
  by (auto simp: read_occupancy_def bindE_Inr assertE_Inr reading_def split: sum.splits)

text \<open>A one-node, one-guest cluster, for the witnesses.\<close>

definition sample_host :: proxmox_host where
  "sample_host = \<lparr>ph_id = ''h1'', ph_api_url = ''https://p/'', ph_node_name = ''pve'', ph_protected_json = None\<rparr>"

definition sample_get :: http_get where
  "sample_get url params =
     (let ok = (\<lambda>v. Some \<lparr>hr_status = 200, hr_body = Some (JObj [(''data'', v)])\<rparr>) in
      if url = ''https://p/api2/json/access/permissions''
      then ok (JObj [(''/vms'', JObj [(''VM.Audit'', JInt 1)])])
      else if url = ''https://p/api2/json/cluster/resources''
      then ok (JList [JObj [(''vmid'', JInt 200), (''type'', JStr ''lxc''), (''node'', JStr ''pve'')]])
      else if url = ''https://p/api2/json/nodes''
      then ok (JList [JObj [(''node'', JStr ''pve''), (''status'', JStr ''online'')]])
      else if url = ''https://p/api2/json/nodes/pve/lxc/200/config''
      then ok (JObj [(''net0'', JStr ''bridge=b0,ip=10.0.0.5/24'')])
      else if url = ''https://p/api2/json/nodes/pve/network''
      then ok (JList [JObj [(''iface'', JStr ''b0''), (''cidr'', JStr ''10.0.0.1/24'')]])
      else None)"

lemmas [eval_defs] =
  read_occupancy_def read_proxmox_data_def list_proxmox_data_def reading_def api_url_def
  rstrip_slash_def sample_host_def sample_get_def is_success_def audit_permitted_def
  node_online_def inspect_guest_def guest_row_def inspect_config_def inspect_config_item_def
  inspect_node_def inspect_network_def or_else_def record_address_def properties_def
  is_net_key_def is_node_name_def config_path_def empty_occupancy_def split_once_def
  dupdate_def int_str_def nat_str.simps digit_char_def is_digit_def is_alpha_def
  parse_ipv4_interface_def parse_addr_prefix_def parse_ipv4_def parse_prefix_def
  parse_octet_def digits_val_def digit_val_def ip_str_def

text \<open>
  C9: a completed audit is complete. It read the permissions with propagated VM.Audit, and
  for every guest in the cluster's inventory it holds the VMID and every static IPv4
  address of the running and of the pending configuration; nothing unreadable is skipped.
\<close>

theorem read_occupancy_complete:
  assumes "read_occupancy get h = Inr occ"
  shows "\<exists>perms rows.
      read_proxmox_data get h ''/access/permissions'' [(''path'', JStr ''/vms'')] = Inr perms
    \<and> audit_permitted perms
    \<and> list_proxmox_data get h ''/cluster/resources'' [(''type'', JStr ''vm'')] = Inr rows
    \<and> list_all (guest_recorded get h occ) rows"
proof -
  obtain perms rows nodes mid where r:
    "read_proxmox_data get h ''/access/permissions'' [(''path'', JStr ''/vms'')] = Inr perms"
    "audit_permitted perms"
    "list_proxmox_data get h ''/cluster/resources'' [(''type'', JStr ''vm'')] = Inr rows"
    and f: "foldE (inspect_guest get h) empty_occupancy rows = Inr mid"
    and n: "foldE (inspect_node get h) mid nodes = Inr occ"
    using assms by (rule read_occupancy_steps)
  have "guest_recorded get h occ row" if row: "row \<in> set rows" for row
  proof -
    obtain s s' where "inspect_guest get h s row = Inr s'" and "occ_le s' mid"
      using foldE_records [OF f _ row] inspect_guest_grows by blast
    moreover have "occ_le mid occ" by (rule foldE_grows [OF n inspect_node_grows])
    ultimately show ?thesis by (blast intro: inspect_guest_recorded occ_le_trans)
  qed
  with r show ?thesis by (auto simp: list_all_iff)
qed

theorem read_occupancy_complete_witness:
  "\<exists>occ. read_occupancy sample_get sample_host = Inr occ
     \<and> (\<exists>perms rows.
      read_proxmox_data sample_get sample_host ''/access/permissions'' [(''path'', JStr ''/vms'')] = Inr perms
    \<and> audit_permitted perms
    \<and> list_proxmox_data sample_get sample_host ''/cluster/resources'' [(''type'', JStr ''vm'')] = Inr rows
    \<and> list_all (guest_recorded sample_get sample_host occ) rows)"
proof -
  have "read_occupancy sample_get sample_host =
    Inr \<lparr>occ_vmids = {200}, occ_addresses = {(''b0'', ''10.0.0.5''), (''b0'', ''10.0.0.1'')}, occ_unknown = 0\<rparr>"
    by (simp add: eval_defs insert_commute)
  then show ?thesis using read_occupancy_complete by blast
qed

text \<open>
  the availability probe fails closed. Free means a successful answer that names the
  VMID back, taken means the exact conflict of the public API, and anything else raises.
\<close>

theorem vmid_is_free_fail_closed:
  "vmid_is_free get h vmid = Inr free \<longleftrightarrow>
     (\<exists>st d. get (api_url h ''/cluster/nextid'') [(''vmid'', JInt vmid)]
              = Some \<lparr>hr_status = st, hr_body = Some (JObj d)\<rparr>
       \<and> (if free then is_success st \<and> names_vmid (dget d ''data'') vmid
          else st = 400 \<and> conflict_body d vmid = Inr True))"
proof -
  have [simp]: "\<not> is_success 400" by (simp add: is_success_def)
  show ?thesis
  proof (cases "get (api_url h ''/cluster/nextid'') [(''vmid'', JInt vmid)]")
    case None
    then show ?thesis by (simp add: vmid_is_free_def)
  next
    case (Some r)
    obtain st b where r: "r = \<lparr>hr_status = st, hr_body = b\<rparr>" by (cases r)
    with Some show ?thesis
      by (cases b; cases "the b"; cases free)
         (auto simp: vmid_is_free_def bindE_Inr split: if_splits)
  qed
qed

end
