(* ===== verification/Host_Capacity.thy ===== *)
theory Host_Capacity
  imports Alloc_Schema Occupancy
begin

text \<open>
  Measured capacity of a target node (\<open>app/core/host_capacity.py\<close>,
  \<open>app/schemas/v1/capacity.py\<close>). A measurement that Proxmox does not report, or reports out
  of range, is \<open>None\<close> and never zero. The observation time and the fixed list of limitations
  are not modelled; an issue is its code and its resource.
\<close>

subsection \<open>Records\<close>

type_synonym capacity_issue = "string \<times> string"

record cpu_capacity =
  cc_logical :: "int option"
  cc_utilization :: "rat option"

record memory_capacity =
  mc_total :: "int option"
  mc_used :: "int option"
  mc_free :: "int option"

record storage_capacity = memory_capacity +
  sc_storage :: string
  sc_type :: "string option"
  sc_content :: "string list"
  sc_enabled :: "bool option"
  sc_active :: "bool option"
  sc_shared :: "bool option"

datatype capacity_status = Available | Partial | Unavailable

record host_capacity =
  hc_host :: string
  hc_node :: string
  hc_status :: capacity_status
  hc_cpu :: cpu_capacity
  hc_memory :: memory_capacity
  hc_storage :: "storage_capacity list"
  hc_issues :: "capacity_issue list"

subsection \<open>Reading values\<close>

definition hc_integer :: "bool \<Rightarrow> json \<Rightarrow> int option" where
  "hc_integer positive v =
     (case v of JInt i \<Rightarrow> if (if positive then 1 else 0) \<le> i then Some i else None | _ \<Rightarrow> None)"

definition hc_flag :: "json \<Rightarrow> bool option" where
  "hc_flag v =
     (case v of JBool b \<Rightarrow> Some b
      | JInt i \<Rightarrow> if i = 0 then Some False else if i = 1 then Some True else None
      | _ \<Rightarrow> None)"

definition hc_utilization :: "json \<Rightarrow> rat option" where
  "hc_utilization v =
     (case v of
        JInt i \<Rightarrow> if 0 \<le> i \<and> i \<le> 1 then Some (of_int i) else None
      | JFloat r \<Rightarrow> if 0 \<le> r \<and> r \<le> 1 then Some r else None
      | _ \<Rightarrow> None)"

definition dict_or_empty :: "json \<Rightarrow> dict" where
  "dict_or_empty v = (case v of JObj d \<Rightarrow> d | _ \<Rightarrow> [])"

definition clip :: "int option \<Rightarrow> int option \<Rightarrow> int option" where
  "clip tot v =
     (case (tot, v) of (Some t, Some x) \<Rightarrow> if t < x then None else v | _ \<Rightarrow> v)"

definition normalize_node_capacity ::
    "json \<Rightarrow> cpu_capacity \<times> memory_capacity \<times> capacity_issue list" where
  "normalize_node_capacity v =
     (let data = dict_or_empty v;
          info = dict_or_empty (jget data ''cpuinfo'');
          memory = dict_or_empty (jget data ''memory'');
          cpu = \<lparr>cc_logical = hc_integer True (jget info ''cpus''),
                 cc_utilization = hc_utilization (jget data ''cpu'')\<rparr>;
          tot = hc_integer True (jget memory ''total'');
          ram = \<lparr>mc_total = tot, mc_used = clip tot (hc_integer False (jget memory ''used'')),
                 mc_free = clip tot (hc_integer False (jget memory ''free''))\<rparr>
      in (cpu, ram,
          (if cc_logical cpu = None \<or> cc_utilization cpu = None
           then [(''CPU_CAPACITY_UNKNOWN'', ''cpu'')] else [])
          @ (if mc_total ram = None \<or> mc_used ram = None \<or> mc_free ram = None
             then [(''MEMORY_CAPACITY_UNKNOWN'', ''memory'')] else [])))"

subsection \<open>Storage pools\<close>

definition pool_resource :: "string \<Rightarrow> string" where
  "pool_resource name = ''storage:'' @ name"

definition raw_pool :: "string \<Rightarrow> dict \<Rightarrow> storage_capacity" where
  "raw_pool name row =
     \<lparr>mc_total = hc_integer True (jget row ''total''), mc_used = hc_integer False (jget row ''used''),
      mc_free = hc_integer False (jget row ''avail''), sc_storage = name,
      sc_type = as_str (jget row ''type''),
      sc_content = (case jget row ''content'' of JStr s \<Rightarrow> split_on (CHR '','') s | _ \<Rightarrow> []),
      sc_enabled = hc_flag (jget row ''enabled''), sc_active = hc_flag (jget row ''active''),
      sc_shared = hc_flag (jget row ''shared'')\<rparr>"

definition availability :: "storage_capacity \<Rightarrow> storage_capacity \<times> capacity_issue list" where
  "availability pool =
     (let r = pool_resource (sc_storage pool) in
      if sc_active pool = Some False \<or> sc_enabled pool = Some False
      then (pool\<lparr>mc_free := None\<rparr>, [(''STORAGE_INACTIVE'', r)])
      else if sc_active pool = None \<or> sc_enabled pool = None
           \<or> mc_total pool = None \<or> mc_used pool = None \<or> mc_free pool = None
      then (pool, [(''STORAGE_CAPACITY_UNKNOWN'', r)])
      else (pool, []))"

definition bounded_pool :: "storage_capacity \<Rightarrow> storage_capacity \<times> capacity_issue list" where
  "bounded_pool pool =
     (let r = pool_resource (sc_storage pool);
          bad = (\<lambda>v. clip (mc_total pool) v \<noteq> v)
      in (pool\<lparr>mc_used := clip (mc_total pool) (mc_used pool),
               mc_free := clip (mc_total pool) (mc_free pool)\<rparr>,
          (if bad (mc_used pool) then [(''STORAGE_DATA_INVALID'', r)] else [])
          @ (if bad (mc_free pool) then [(''STORAGE_DATA_INVALID'', r)] else [])))"

definition storage_row ::
    "storage_capacity list \<times> capacity_issue list \<times> string set \<Rightarrow> dict
       \<Rightarrow> storage_capacity list \<times> capacity_issue list \<times> string set" where
  "storage_row acc row =
     (case acc of (pools, issues, seen) \<Rightarrow>
        case jget row ''storage'' of
          JStr name \<Rightarrow>
            if name = [] \<or> name \<in> seen
            then (pools, issues @ [(''STORAGE_DATA_INVALID'', ''storage'')], seen)
            else let (p1, i1) = availability (raw_pool name row); (p2, i2) = bounded_pool p1
                 in (pools @ [p2], issues @ i1 @ i2, insert name seen)
        | _ \<Rightarrow> (pools, issues @ [(''STORAGE_DATA_INVALID'', ''storage'')], seen))"

definition normalize_storage :: "dict list \<Rightarrow> storage_capacity list \<times> capacity_issue list" where
  "normalize_storage rows =
     (let (pools, issues, _) = foldl storage_row
            ([], if rows = [] then [(''STORAGE_VISIBILITY_UNKNOWN'', ''storage'')] else [], {}) rows
      in (pools, issues))"

subsection \<open>Reading a host\<close>

text \<open>\<open>urllib.parse.quote(s, safe='')\<close> on code points below 256, encoded as UTF-8.\<close>

definition hex_digit :: "nat \<Rightarrow> char" where
  "hex_digit n = ''0123456789ABCDEF'' ! n"

definition percent :: "nat \<Rightarrow> string" where
  "percent n = [CHR ''%'', hex_digit (n div 16), hex_digit (n mod 16)]"

definition quote_char :: "char \<Rightarrow> string" where
  "quote_char c =
     (if is_alnum c \<or> c \<in> set ''_.-~'' then [c]
      else let n = of_char c :: nat
           in if n < 128 then percent n else percent (192 + n div 64) @ percent (128 + n mod 64))"

definition url_quote :: "string \<Rightarrow> string" where
  "url_quote s = concat (map quote_char s)"

definition no_cpu :: cpu_capacity where
  "no_cpu = \<lparr>cc_logical = None, cc_utilization = None\<rparr>"

definition no_memory :: memory_capacity where
  "no_memory = \<lparr>mc_total = None, mc_used = None, mc_free = None\<rparr>"

definition read_host_capacity :: "http_get \<Rightarrow> proxmox_host \<Rightarrow> host_capacity" where
  "read_host_capacity get h =
     (let node = url_quote (ph_node_name h);
          (cpu, memory, node_issues) =
            (case read_proxmox_data get h (''/nodes/'' @ node @ ''/status'') [] of
               Inl _ \<Rightarrow> (no_cpu, no_memory, [(''NODE_CAPACITY_UNAVAILABLE'', ''node'')])
             | Inr v \<Rightarrow> normalize_node_capacity v);
          (pools, pool_issues) =
            (case list_proxmox_data get h (''/nodes/'' @ node @ ''/storage'') [] of
               Inl _ \<Rightarrow> ([], [(''STORAGE_CAPACITY_UNAVAILABLE'', ''storage'')])
             | Inr rows \<Rightarrow> normalize_storage rows);
          issues = node_issues @ pool_issues;
          measured = (cc_logical cpu \<noteq> None \<or> mc_free memory \<noteq> None \<or> pools \<noteq> [])
      in \<lparr>hc_host = ph_id h, hc_node = ph_node_name h,
          hc_status = (if \<not> measured then Unavailable else if issues \<noteq> [] then Partial else Available),
          hc_cpu = cpu, hc_memory = memory, hc_storage = pools, hc_issues = issues\<rparr>)"

subsection \<open>Measurements are in range\<close>

definition memory_ok :: "'a memory_capacity_scheme \<Rightarrow> bool" where
  "memory_ok m =
     ((case mc_total m of Some t \<Rightarrow> 0 < t | None \<Rightarrow> True)
      \<and> (case mc_used m of Some u \<Rightarrow> 0 \<le> u \<and> (case mc_total m of Some t \<Rightarrow> u \<le> t | None \<Rightarrow> True) | None \<Rightarrow> True)
      \<and> (case mc_free m of Some f \<Rightarrow> 0 \<le> f \<and> (case mc_total m of Some t \<Rightarrow> f \<le> t | None \<Rightarrow> True) | None \<Rightarrow> True))"

definition pool_ok :: "storage_capacity \<Rightarrow> bool" where
  "pool_ok p = (memory_ok p \<and> sc_storage p \<noteq> []
     \<and> (mc_free p \<noteq> None \<longrightarrow> sc_active p \<noteq> Some False \<and> sc_enabled p \<noteq> Some False))"

definition cpu_ok :: "cpu_capacity \<Rightarrow> bool" where
  "cpu_ok c =
     ((case cc_logical c of Some n \<Rightarrow> 0 < n | None \<Rightarrow> True)
      \<and> (case cc_utilization c of Some u \<Rightarrow> 0 \<le> u \<and> u \<le> 1 | None \<Rightarrow> True))"

lemma hc_integer_Some: "hc_integer p v = Some i \<Longrightarrow> (if p then 0 < i else 0 \<le> i)"
  by (auto simp: hc_integer_def split: json.splits if_splits)

lemma clip_None [simp]: "clip tot None = None"
  by (simp add: clip_def split: option.split)

lemma clip_ok:
  "clip tot (hc_integer False v) = Some x \<Longrightarrow> 0 \<le> x \<and> (case tot of Some t \<Rightarrow> x \<le> t | None \<Rightarrow> True)"
  by (auto simp: clip_def dest: hc_integer_Some split: option.splits if_splits)

lemma memory_ok_clip:
  assumes "mc_total m = hc_integer True a" and "mc_used m = clip (mc_total m) (hc_integer False b)"
    and "mc_free m = clip (mc_total m) (hc_integer False c) \<or> mc_free m = None"
  shows "memory_ok m"
proof -
  have "case mc_total m of Some t \<Rightarrow> 0 < t | None \<Rightarrow> True"
    using assms(1) hc_integer_Some [of True a] by (auto split: option.split)
  moreover have "case mc_used m of Some u \<Rightarrow> 0 \<le> u \<and> (case mc_total m of Some t \<Rightarrow> u \<le> t | None \<Rightarrow> True) | None \<Rightarrow> True"
    using assms(2) clip_ok [of "mc_total m" b] by (simp split: option.split)
  moreover have "case mc_free m of Some u \<Rightarrow> 0 \<le> u \<and> (case mc_total m of Some t \<Rightarrow> u \<le> t | None \<Rightarrow> True) | None \<Rightarrow> True"
    using assms(3) clip_ok [of "mc_total m" c] by (auto split: option.split)
  ultimately show ?thesis by (simp add: memory_ok_def)
qed

lemma hc_utilization_ok: "hc_utilization v = Some u \<Longrightarrow> 0 \<le> u \<and> u \<le> 1"
  by (auto simp: hc_utilization_def split: json.splits if_splits)

lemma normalize_node_ok:
  assumes "normalize_node_capacity v = (cpu, memory, issues)"
  shows "cpu_ok cpu" and "memory_ok memory"
proof -
  let ?data = "dict_or_empty v"
  let ?mem = "dict_or_empty (jget ?data ''memory'')"
  have c: "cpu = \<lparr>cc_logical = hc_integer True (jget (dict_or_empty (jget ?data ''cpuinfo'')) ''cpus''),
                 cc_utilization = hc_utilization (jget ?data ''cpu'')\<rparr>"
    and m: "memory = \<lparr>mc_total = hc_integer True (jget ?mem ''total''),
       mc_used = clip (hc_integer True (jget ?mem ''total'')) (hc_integer False (jget ?mem ''used'')),
       mc_free = clip (hc_integer True (jget ?mem ''total'')) (hc_integer False (jget ?mem ''free''))\<rparr>"
    using assms by (simp_all add: normalize_node_capacity_def Let_def)
  show "cpu_ok cpu"
    using hc_utilization_ok hc_integer_Some [of True]
    by (simp add: c cpu_ok_def split: option.split)
  show "memory_ok memory" 
    by (rule memory_ok_clip [of memory "jget ?mem ''total''" "jget ?mem ''used''" "jget ?mem ''free''"])
       (simp_all add: m)
qed

lemma storage_row_inv:
  assumes "storage_row (pools, issues, seen) row = (pools', issues', seen')"
    and "list_all pool_ok pools" "sc_storage ` set pools = seen" "distinct (map sc_storage pools)"
  shows "list_all pool_ok pools' \<and> sc_storage ` set pools' = seen' \<and> distinct (map sc_storage pools')"
proof (cases "\<exists>name. jget row ''storage'' = JStr name \<and> name \<noteq> [] \<and> name \<notin> seen")
  case False
  with assms show ?thesis by (auto simp: storage_row_def split: json.splits)
next
  case True
  then obtain name where n: "jget row ''storage'' = JStr name" "name \<noteq> []" "name \<notin> seen" by blast
  obtain p1 i1 where a: "availability (raw_pool name row) = (p1, i1)" by fastforce
  obtain p2 i2 where b: "bounded_pool p1 = (p2, i2)" by fastforce
  have p1: "p1 = raw_pool name row \<or> p1 = (raw_pool name row)\<lparr>mc_free := None\<rparr>"
    and off: "sc_active p1 = Some False \<or> sc_enabled p1 = Some False \<longrightarrow> mc_free p1 = None"
    using a by (auto simp: availability_def Let_def split: if_splits)
  have name2: "sc_storage p2 = name" using b p1 by (auto simp: bounded_pool_def Let_def raw_pool_def)
  have p2: "p2 = p1\<lparr>mc_used := clip (mc_total p1) (mc_used p1), mc_free := clip (mc_total p1) (mc_free p1)\<rparr>"
    using b by (simp add: bounded_pool_def Let_def)
  have fields: "mc_total p1 = hc_integer True (jget row ''total'')"
    "mc_used p1 = hc_integer False (jget row ''used'')"
    "mc_free p1 = hc_integer False (jget row ''avail'') \<or> mc_free p1 = None"
    using p1 by (auto simp: raw_pool_def)
  have "memory_ok p2"
    by (rule memory_ok_clip [of p2 "jget row ''total''" "jget row ''used''" "jget row ''avail''"])
       (use fields in \<open>auto simp: p2\<close>)
  moreover have "mc_free p2 \<noteq> None \<Longrightarrow> mc_free p1 \<noteq> None"
    by (auto simp: p2 clip_def split: option.splits)
  ultimately have "pool_ok p2"
    using off n(2) name2 by (auto simp: pool_ok_def p2)
  with assms n a b name2 show ?thesis
    by (auto simp: storage_row_def)
qed

lemma normalize_storage_inv:
  "normalize_storage rows = (pools, issues) \<Longrightarrow> list_all pool_ok pools \<and> distinct (map sc_storage pools)"
proof -
  have "foldl storage_row (ps, is, seen) rows = (pools, issues, seen') \<Longrightarrow>
      list_all pool_ok ps \<Longrightarrow> sc_storage ` set ps = seen \<Longrightarrow> distinct (map sc_storage ps) \<Longrightarrow>
      list_all pool_ok pools \<and> distinct (map sc_storage pools)" for ps "is" seen seen'
  proof (induction rows arbitrary: ps "is" seen)
    case Nil
    then show ?case by simp
  next
    case (Cons row rows)
    obtain ps' is' s' where r: "storage_row (ps, is, seen) row = (ps', is', s')" by (metis prod_cases3)
    show ?case
      using Cons.IH [of ps' is' s'] Cons.prems storage_row_inv [OF r] r by auto
  qed
  then show "normalize_storage rows = (pools, issues) \<Longrightarrow> ?thesis"
    by (fastforce simp: normalize_storage_def Let_def split: prod.splits)
qed


end
