(* ===== verification/Vmid_Guard.thy ===== *)
theory Vmid_Guard
  imports Prelude
begin

text \<open>
  Protected VMID ranges (\<open>app/core/vmid_guard.py\<close>) and the in-process VMID scan
  (\<open>app/core/allocation.py\<close>).

  Both files decide protection, and they treat a malformed override differently:
  \<open>effective_ranges\<close> skips a pair that has not two elements, the loop of \<open>is_protected\<close>
  raises on it. \<open>guards_agree\<close> shows that they agree on the overrides the backend accepts.
  \<open>scan\<close> is the loop shape \<open>for candidate in range(lo, hi): if ok: break\<close> that the
  reservation planner shares.
\<close>

subsection \<open>Ranges\<close>

definition default_protected_ranges :: "(int \<times> int) list" where
  "default_protected_ranges = [(100, 101), (1000, 1023), (1111, 1111), (4000, 4004), (9000, 9999)]"

type_synonym overrides = "int list list option"

definition in_range :: "int \<Rightarrow> int \<times> int \<Rightarrow> bool" where
  "in_range v r = (fst r \<le> v \<and> v \<le> snd r)"

definition effective_ranges :: "overrides \<Rightarrow> (int \<times> int) list" where
  "effective_ranges ov =
     default_protected_ranges
     @ (case ov of None \<Rightarrow> []
        | Some ps \<Rightarrow> map (\<lambda>p. (p ! 0, p ! 1)) (filter (\<lambda>p. length p = 2) ps))"

record vmid_protected_error =
  vpe_vmid :: int
  vpe_reason :: string

text \<open>The \<open>details\<close> property of the exception: one field and one reason.\<close>

definition vpe_details :: "vmid_protected_error \<Rightarrow> (string \<times> string) list" where
  "vpe_details e =
     [(''vm.vm_id'', int_str (vpe_vmid e) @ '' is in protected range ('' @ vpe_reason e @ '')'')]"

definition assert_vmid_safe :: "int \<Rightarrow> overrides \<Rightarrow> vmid_protected_error + unit" where
  "assert_vmid_safe v ov =
     (case List.find (in_range v) (effective_ranges ov) of
        Some (lo, hi) \<Rightarrow> Inl \<lparr>vpe_vmid = v, vpe_reason = int_str lo @ ''-'' @ int_str hi\<rparr>
      | None \<Rightarrow> Inr ())"

fun filter_safe_vmids :: "int list \<Rightarrow> overrides \<Rightarrow> int list \<times> int list" where
  "filter_safe_vmids [] ov = ([], [])"
| "filter_safe_vmids (v # vs) ov =
     (let (safe, blocked) = filter_safe_vmids vs ov
      in case assert_vmid_safe v ov of
           Inr _ \<Rightarrow> (v # safe, blocked) | Inl _ \<Rightarrow> (safe, v # blocked))"

fun protected_by :: "int \<Rightarrow> int list list \<Rightarrow> bool res" where
  "protected_by v [] = Inr False"
| "protected_by v ([lo, hi] # ps) = (if lo \<le> v \<and> v \<le> hi then Inr True else protected_by v ps)"
| "protected_by v (_ # ps) = Inl ValueError"

definition is_protected :: "int \<Rightarrow> overrides \<Rightarrow> bool res" where
  "is_protected v ov =
     (if \<exists>r \<in> set default_protected_ranges. in_range v r then Inr True
      else case ov of None \<Rightarrow> Inr False | Some ps \<Rightarrow> protected_by v ps)"

subsection \<open>Scans\<close>

function scan :: "(int \<Rightarrow> bool res) \<Rightarrow> int \<Rightarrow> int \<Rightarrow> int option res" where
  "scan ok v hi =
     (if v < hi then bindE (ok v) (\<lambda>b. if b then Inr (Some v) else scan ok (v + 1) hi)
      else Inr None)"
  by pat_completeness auto
termination by (relation "measure (\<lambda>(ok, v, hi). nat (hi - v))") auto

declare scan.simps [simp del]

function allocate_loop ::
    "int \<Rightarrow> int set \<Rightarrow> overrides \<Rightarrow> int \<Rightarrow> int list \<Rightarrow> int list res" where
  "allocate_loop count reserved ov v out =
     (if int (length out) < count \<and> v < 100000
      then if v \<in> reserved then allocate_loop count reserved ov (v + 1) out
           else bindE (is_protected v ov)
                  (\<lambda>p. allocate_loop count reserved ov (v + 1) (if p then out else out @ [v]))
      else Inr out)"
  by pat_completeness auto
termination by (relation "measure (\<lambda>(count, reserved, ov, v, out). nat (100000 - v))") auto

declare allocate_loop.simps [simp del]

definition allocate_vmids :: "int \<Rightarrow> int \<Rightarrow> int set \<Rightarrow> overrides \<Rightarrow> int list res" where
  "allocate_vmids start count reserved ov =
     bindE (allocate_loop count reserved ov start [])
       (\<lambda>out. if int (length out) < count then Inl RuntimeError else Inr out)"

subsection \<open>Guard lemmas\<close>

definition pairs_ok :: "overrides \<Rightarrow> bool" where
  "pairs_ok ov = (case ov of None \<Rightarrow> True | Some ps \<Rightarrow> list_all (\<lambda>p. length p = 2) ps)"

definition protected_id :: "overrides \<Rightarrow> int \<Rightarrow> bool" where
  "protected_id ov v = (\<exists>r \<in> set (effective_ranges ov). in_range v r)"

lemma assert_vmid_safe_iff: "assert_vmid_safe v ov = Inr () \<longleftrightarrow> \<not> protected_id ov v"
  by (auto simp: assert_vmid_safe_def protected_id_def find_None_iff find_Some_iff
      split: option.splits)

lemma assert_vmid_safe_cases:
  "assert_vmid_safe v ov = (if protected_id ov v then assert_vmid_safe v ov else Inr ())"
  using assert_vmid_safe_iff by auto

lemma protected_by_pairs:
  "list_all (\<lambda>p. length p = 2) ps \<Longrightarrow>
   protected_by v ps = Inr (\<exists>p \<in> set ps. in_range v (p ! 0, p ! 1))"
proof (induction v ps rule: protected_by.induct)
  case (1 v)
  then show ?case by simp
next
  case (2 v lo hi ps)
  then show ?case by (auto simp: in_range_def)
qed auto

lemma is_protected_pairs: "pairs_ok ov \<Longrightarrow> is_protected v ov = Inr (protected_id ov v)"
proof (cases ov)
  case None
  then show ?thesis
    by (simp add: is_protected_def protected_id_def effective_ranges_def)
next
  case (Some ps)
  moreover assume "pairs_ok ov"
  ultimately have ok: "list_all (\<lambda>p. length p = 2) ps" by (simp add: pairs_ok_def)
  then have "filter (\<lambda>p. length p = 2) ps = ps"
    by (simp add: filter_id_conv list_all_iff)
  with Some ok show ?thesis
    by (auto simp: is_protected_def protected_id_def effective_ranges_def protected_by_pairs)
qed

lemma default_protected: "in_range v r \<Longrightarrow> r \<in> set default_protected_ranges \<Longrightarrow> protected_id ov v"
  by (auto simp: protected_id_def effective_ranges_def)

text \<open>On overrides that are lists of pairs the two guards decide the same thing.\<close>

theorem guards_agree:
  assumes "pairs_ok ov"
  shows "is_protected v ov = Inr (\<not> (assert_vmid_safe v ov = Inr ()))"
  using assms by (simp add: assert_vmid_safe_iff is_protected_pairs)

text \<open>The preflight partition keeps every VMID, in order, on the side the guard puts it.\<close>

theorem filter_safe_vmids_partition:
  "filter_safe_vmids vs ov =
     (filter (\<lambda>v. assert_vmid_safe v ov = Inr ()) vs,
      filter (\<lambda>v. assert_vmid_safe v ov \<noteq> Inr ()) vs)"
  by (induction vs) (auto split: sum.split)

subsection \<open>Scan lemmas\<close>

lemma scan_Some:
  "scan ok v hi = Inr (Some c) \<Longrightarrow>
     v \<le> c \<and> c < hi \<and> ok c = Inr True \<and> (\<forall>d. v \<le> d \<and> d < c \<longrightarrow> ok d = Inr False)"
proof (induction ok v hi rule: scan.induct)
  case (1 ok v hi)
  show ?case
  proof (cases "ok v = Inr True \<or> \<not> v < hi")
    case True
    with "1.prems" show ?thesis by (auto simp: scan.simps [of ok v] split: if_splits)
  next
    case False
    with "1.prems" have step: "ok v = Inr False" "v < hi" "scan ok (v + 1) hi = Inr (Some c)"
      by (auto simp: scan.simps [of ok v] res_simps split: if_splits)
    then have IH: "v + 1 \<le> c \<and> c < hi \<and> ok c = Inr True
        \<and> (\<forall>d. v + 1 \<le> d \<and> d < c \<longrightarrow> ok d = Inr False)"
      using "1.IH" [of False] by simp
    have "ok d = Inr False" if "v \<le> d" "d < c" for d
      using IH step(1) that by (cases "d = v") auto
    with IH show ?thesis by auto
  qed
qed

lemma scan_None:
  "scan ok v hi = Inr None \<Longrightarrow> v \<le> d \<Longrightarrow> d < hi \<Longrightarrow> ok d = Inr False"
proof (induction ok v hi rule: scan.induct)
  case (1 ok v hi)
  from "1.prems" have step: "ok v = Inr False" "v < hi" "scan ok (v + 1) hi = Inr None"
    by (auto simp: scan.simps [of ok v] res_simps split: if_splits)
  show ?case
  proof (cases "d = v")
    case True
    with step show ?thesis by simp
  next
    case False
    with step "1.prems" "1.IH" show ?thesis by simp
  qed
qed

lemma scan_total:
  "(\<And>d. v \<le> d \<Longrightarrow> d < hi \<Longrightarrow> \<exists>b. ok d = Inr b) \<Longrightarrow> \<exists>r. scan ok v hi = Inr r"
proof (induction ok v hi rule: scan.induct)
  case (1 ok v hi)
  show ?case
  proof (cases "v < hi")
    case True
    with "1.prems" obtain b where b: "ok v = Inr b" by blast
    show ?thesis
    proof (cases b)
      case True
      with b \<open>v < hi\<close> show ?thesis by (simp add: scan.simps [of ok v])
    next
      case False
      have "\<exists>r. scan ok (v + 1) hi = Inr r"
        using "1.IH" [OF \<open>v < hi\<close> b False] "1.prems" by simp
      with b False \<open>v < hi\<close> show ?thesis by (simp add: scan.simps [of ok v])
    qed
  qed (simp add: scan.simps [of ok v])
qed

definition free_ids :: "int \<Rightarrow> int set \<Rightarrow> overrides \<Rightarrow> int list" where
  "free_ids v reserved ov =
     filter (\<lambda>d. d \<notin> reserved \<and> \<not> protected_id ov d) [v..99999]"

lemma free_ids_step:
  "v < 100000 \<Longrightarrow> free_ids v reserved ov =
     (if v \<notin> reserved \<and> \<not> protected_id ov v then [v] else []) @ free_ids (v + 1) reserved ov"
  by (simp add: free_ids_def upto.simps [of v])

lemma allocate_loop_eq:
  "pairs_ok ov \<Longrightarrow> allocate_loop count reserved ov v out =
     Inr (out @ take (nat count - length out) (free_ids v reserved ov))"
proof (induction count reserved ov v out rule: allocate_loop.induct)
  case (1 count reserved ov v out)
  note prot = is_protected_pairs [OF "1.prems"]
  show ?case
  proof (cases "int (length out) < count \<and> v < 100000")
    case False
    then show ?thesis
      by (auto simp: allocate_loop.simps [of count reserved ov v out] free_ids_def)
  next
    case go: True
    then have more: "nat count - length out = Suc (nat count - Suc (length out))" by linarith
    show ?thesis
    proof (cases "v \<in> reserved \<or> protected_id ov v")
      case True
      then show ?thesis
        using "1.IH" [OF go] "1.prems" go prot
        by (auto simp: allocate_loop.simps [of count reserved ov v out] free_ids_step)
    next
      case False
      then show ?thesis
        using "1.IH"(2) [OF go _ prot [of v]] "1.prems" go prot more
        by (simp add: allocate_loop.simps [of count reserved ov v out] free_ids_step)
    qed
  qed
qed

text \<open>
  C10: the in-process scan returns exactly the first \<open>count\<close> identifiers from \<open>start\<close> on that
  are below 100000, not reserved and not protected, and raises when there are fewer.
\<close>

theorem allocate_vmids_first_free:
  assumes "pairs_ok ov"
  shows "allocate_vmids start count reserved ov =
    (if int (length (free_ids start reserved ov)) < count then Inl RuntimeError
     else Inr (take (nat count) (free_ids start reserved ov)))"
  using assms by (auto simp: allocate_vmids_def allocate_loop_eq min_def)

theorem allocate_vmids_first_free_witness:
  "allocate_vmids 99998 1 {99998} None =
    (if int (length (free_ids 99998 {99998} None)) < 1 then Inl RuntimeError
     else Inr (take (nat 1) (free_ids 99998 {99998} None)))
   \<and> free_ids 99998 {99998} None = [99999]"
proof
  show "free_ids 99998 {99998} None = [99999]"
    by (simp add: free_ids_def upto.simps protected_id_def effective_ranges_def
        default_protected_ranges_def in_range_def)
qed (rule allocate_vmids_first_free, simp add: pairs_ok_def)

lemma free_ids_safe:
  "d \<in> set (free_ids v reserved ov) \<longleftrightarrow>
     v \<le> d \<and> d < 100000 \<and> d \<notin> reserved \<and> \<not> protected_id ov d"
  by (auto simp: free_ids_def)

lemma free_ids_sorted: "sorted_wrt (<) (free_ids v reserved ov)"
  by (simp add: free_ids_def sorted_wrt_filter)

end
