(* ===== verification/Preflight.thy ===== *)
theory Preflight
  imports Vmid_Guard Occupancy
begin

text \<open>
  Preflight checks (\<open>app/core/preflight.py\<close>): each check is a verdict with a code and the field
  it is about, and a report is the worst of its verdicts. Detail texts are not modelled. The
  HTTP clients are parameters (\<open>None\<close> for an HTTPError), and so are the files of the project
  and of the catalog. A field that names a topology node is kept as the JSON value of its id.
\<close>

subsection \<open>Verdicts\<close>

datatype verdict = Pass | Warn | Block

datatype field_ref = AtField string | AtNode json | AtAttachment json nat

record pcheck =
  pc_check :: string
  pc_result :: verdict
  pc_code :: "string option"
  pc_field :: "field_ref option"

definition report_result :: "pcheck list \<Rightarrow> verdict" where
  "report_result checks =
     (if list_ex (\<lambda>c. pc_result c = Block) checks then Block
      else if list_ex (\<lambda>c. pc_result c = Warn) checks then Warn else Pass)"

abbreviation verdict_of :: "string \<Rightarrow> verdict \<Rightarrow> string option \<Rightarrow> field_ref option \<Rightarrow> pcheck" where
  "verdict_of c r code f \<equiv> \<lparr>pc_check = c, pc_result = r, pc_code = code, pc_field = f\<rparr>"

definition passed :: "string \<Rightarrow> pcheck" where
  "passed c = verdict_of c Pass None None"

subsection \<open>Single checks\<close>

definition check_scenario_playbook :: "bool \<Rightarrow> pcheck" where
  "check_scenario_playbook resolved =
     (if resolved then passed ''scenario_playbook''
      else verdict_of ''scenario_playbook'' Block (Some ''SCENARIO_PLAYBOOK_UNAVAILABLE'')
             (Some (AtField ''scenario_label'')))"

definition check_vmids :: "int list \<Rightarrow> overrides \<Rightarrow> pcheck" where
  "check_vmids requested ov =
     (if list_ex (\<lambda>v. assert_vmid_safe v ov \<noteq> Inr ()) requested \<or> \<not> distinct requested
      then verdict_of ''vmid_collision'' Block None (Some (AtField ''vm.vm_id''))
      else passed ''vmid_collision'')"

definition check_resource_budget :: "int \<Rightarrow> int \<Rightarrow> pcheck" where
  "check_resource_budget required capacity =
     (if capacity \<le> 0
      then verdict_of ''resource_budget'' Block None (Some (AtField ''target_host_id''))
      else let ratio = of_int required / of_int capacity :: rat in
        if 11 / 10 < ratio then verdict_of ''resource_budget'' Block None (Some (AtField ''team_count''))
        else if 9 / 10 < ratio then verdict_of ''resource_budget'' Warn None (Some (AtField ''team_count''))
        else passed ''resource_budget'')"

definition check_proxmox_api_status :: "http_get \<Rightarrow> string \<Rightarrow> pcheck" where
  "check_proxmox_api_status get url =
     (case get (rstrip_slash url @ ''/api2/json/nodes'') [] of
        None \<Rightarrow> verdict_of ''proxmox_api'' Block None (Some (AtField ''target_host_id''))
      | Some r \<Rightarrow>
          if hr_status r \<noteq> 200
          then verdict_of ''proxmox_api'' Block None (Some (AtField ''target_host_id''))
          else passed ''proxmox_api'')"

text \<open>\<open>v.get(k)\<close>, which only an object has, and \<open>x or []\<close>.\<close>

definition pget :: "json \<Rightarrow> string \<Rightarrow> json res" where
  "pget v k = (case v of JObj d \<Rightarrow> Inr (jget d k) | _ \<Rightarrow> Inl AttributeError)"

definition or_list :: "json \<Rightarrow> json list res" where
  "or_list v = (if truthy v then iter_json v else Inr [])"

definition check_sdn_bridge :: "http_get \<Rightarrow> string \<Rightarrow> string \<Rightarrow> pcheck res" where
  "check_sdn_bridge get url bridge =
     (case get (rstrip_slash url @ ''/api2/json/cluster/sdn/vnets'') [] of
        None \<Rightarrow> Inr (verdict_of ''sdn_bridge'' Warn None None)
      | Some r \<Rightarrow>
          if hr_status r \<noteq> 200 then Inr (verdict_of ''sdn_bridge'' Warn None None)
          else bindE (of_opt ValueError (hr_body r)) (\<lambda>body.
               bindE (pget body ''data'') (\<lambda>data.
               bindE (or_list data) (\<lambda>vnets.
               bindE (foldE (\<lambda>found v. if found then Inr True
                        else bindE (pget v ''vnet'') (\<lambda>x. Inr (x = JStr bridge))) False vnets) (\<lambda>found.
                 Inr (if found then passed ''sdn_bridge''
                      else verdict_of ''sdn_bridge'' Warn None (Some (AtField ''default_bridge''))))))))"

definition missing_secret :: "string list \<Rightarrow> dict \<Rightarrow> bool res" where
  "missing_secret provided e =
     (if truthy (jget e ''secret'')
         \<and> truthy (case dget e ''required'' of None \<Rightarrow> JBool True | Some v \<Rightarrow> v)
      then bindE (item e ''name'') (\<lambda>n. Inr (n \<notin> JStr ` set provided))
      else Inr False)"

definition check_secret_completeness :: "dict list \<Rightarrow> string list \<Rightarrow> pcheck res" where
  "check_secret_completeness env provided =
     bindE (mapE (missing_secret provided) env) (\<lambda>missing.
       Inr (if True \<in> set missing
            then verdict_of ''secret_completeness'' Block None (Some (AtField ''secrets''))
            else passed ''secret_completeness''))"

text \<open>\<open>image.partition(":")\<close> of the name with its default registry namespace and tag.\<close>

definition manifest_url :: "string \<Rightarrow> string" where
  "manifest_url img =
     (let full = (if CHR ''/'' \<in> set img then img else ''library/'' @ img);
          (name, tag) = split_once (CHR '':'') full
      in ''https://registry-1.docker.io/v2/'' @ name @ ''/manifests/''
           @ (if tag = [] then ''latest'' else tag))"

definition check_docker_image_pull :: "(string \<Rightarrow> int option) \<Rightarrow> string list \<Rightarrow> pcheck" where
  "check_docker_image_pull head images =
     (if list_ex (\<lambda>i. case head (manifest_url i) of None \<Rightarrow> True | Some st \<Rightarrow> 500 \<le> st) images
      then verdict_of ''docker_image_pull'' Block None (Some (AtField ''attachments''))
      else passed ''docker_image_pull'')"

definition check_git_reachable :: "(string \<Rightarrow> int option) \<Rightarrow> string \<Rightarrow> pcheck" where
  "check_git_reachable head url =
     (case head url of
        None \<Rightarrow> verdict_of ''git_reachable'' Block None (Some (AtField ''project.source''))
      | Some st \<Rightarrow>
          if st = 401 \<or> st = 403
          then verdict_of ''git_reachable'' Block None (Some (AtField ''project.source''))
          else if 500 \<le> st
          then verdict_of ''git_reachable'' Warn None (Some (AtField ''project.source''))
          else passed ''git_reachable'')"

subsection \<open>Topologies\<close>

text \<open>
  The scheme and the network location that \<open>urllib.parse.urlparse\<close> splits from a URL; a bracketed
  host that is no IPv6 or future address is its ValueError.
\<close>

definition url_clean :: "string \<Rightarrow> string" where
  "url_clean url =
     filter (\<lambda>c. c \<notin> {CHR 0x09, CHR 0x0A, CHR 0x0D}) (dropWhile (\<lambda>c. of_char c \<le> (32 :: nat)) url)"

definition to_lower :: "char \<Rightarrow> char" where
  "to_lower c = (let n = of_char c :: nat in if 65 \<le> n \<and> n \<le> 90 then char_of (n + 32) else c)"

definition split_scheme :: "string \<Rightarrow> string \<times> string" where
  "split_scheme url =
     (let (s, r) = split_once (CHR '':'') url in
      if CHR '':'' \<in> set url \<and> s \<noteq> [] \<and> is_alpha (hd s)
         \<and> list_all (\<lambda>c. is_alpha c \<or> is_digit c \<or> c \<in> set ''+-.'') s
      then (map to_lower s, r) else ([], url))"

definition bracket_host_ok :: "string \<Rightarrow> bool" where
  "bracket_host_ok host =
     (if take 1 host = ''v''
      then (let (h, r) = split_once (CHR ''.'') (tl host) in
            CHR ''.'' \<in> set (tl host) \<and> h \<noteq> []
              \<and> list_all (\<lambda>c. c \<in> set ''0123456789abcdefABCDEF'') h \<and> r \<noteq> [])
      else is_ipv6_address host)"

definition url_netloc :: "string \<Rightarrow> string res" where
  "url_netloc rest =
     (if take 2 rest \<noteq> ''//'' then Inr []
      else let netloc = takeWhile (\<lambda>c. c \<notin> set ''/?#'') (drop 2 rest);
               open_b = (CHR ''['' \<in> set netloc); close_b = (CHR '']'' \<in> set netloc)
           in if open_b \<noteq> close_b then Inl ValueError
              else if open_b \<and> \<not> bracket_host_ok (takeWhile (\<lambda>c. c \<noteq> CHR '']'')
                     (drop 1 (dropWhile (\<lambda>c. c \<noteq> CHR ''['') netloc)))
              then Inl ValueError else Inr netloc)"

definition url_base :: "string \<Rightarrow> string res" where
  "url_base url =
     (let (scheme, rest) = split_scheme (url_clean url) in
      bindE (url_netloc rest) (\<lambda>netloc.
        Inr (if scheme \<noteq> [] \<and> netloc \<noteq> [] then scheme @ ''://'' @ netloc else [])))"

text \<open>\<open>source.get(k) or ""\<close>, then used as a path or a text: a value that is no string raises.\<close>

definition text_field :: "exc \<Rightarrow> json \<Rightarrow> string \<Rightarrow> string res" where
  "text_field e source k =
     bindE (pget source k) (\<lambda>v. if \<not> truthy v then Inr [] else of_opt e (as_str v))"

record asset_env =
  ae_file :: "string \<Rightarrow> bool"
  ae_catalog :: "(string \<Rightarrow> bool) option"
  ae_sources :: "string list"

definition asset_check :: "verdict \<Rightarrow> string \<Rightarrow> json \<Rightarrow> nat \<Rightarrow> pcheck list" where
  "asset_check r code node_id idx =
     [verdict_of ''topology_assets'' r (Some code) (Some (AtAttachment node_id idx))]"

definition check_source :: "asset_env \<Rightarrow> (verdict \<Rightarrow> string \<Rightarrow> pcheck list) \<Rightarrow> json \<Rightarrow> json \<Rightarrow> pcheck list res" where
  "check_source env report source kind =
     (if kind = JStr ''file_upload''
      then bindE (text_field TypeError source ''path'') (\<lambda>p.
             Inr (if p = [] \<or> \<not> ae_file env p then report Block ''MISSING_ASSET'' else []))
      else if kind = JStr ''inline_yaml''
      then bindE (text_field AttributeError source ''content'') (\<lambda>c.
             Inr (if strip c = [] then report Block ''MISSING_ASSET'' else []))
      else if kind = JStr ''external_git''
      then bindE (text_field AttributeError source ''url'') (\<lambda>u. bindE (url_base u) (\<lambda>base.
             Inr (if base = [] \<or> base \<notin> set (ae_sources env)
                  then report Block ''EXTERNAL_GIT_NOT_REGISTERED'' else [])))
      else if kind = JStr ''catalog_role'' \<or> kind = JStr ''catalog_container''
      then (case ae_catalog env of
              None \<Rightarrow> Inr (report Warn ''CATALOG_NOT_RESOLVED'')
            | Some exists \<Rightarrow>
                bindE (text_field TypeError source ''ref'') (\<lambda>r.
                  Inr (if r = [] \<or> \<not> exists r then report Block ''MISSING_ASSET'' else [])))
      else Inr [])"

definition check_attachment :: "asset_env \<Rightarrow> json \<Rightarrow> nat \<Rightarrow> json \<Rightarrow> pcheck list res" where
  "check_attachment env node_id idx att =
     bindE (pget att ''source'') (\<lambda>s0.
     let source = (if truthy s0 then s0 else JObj []) in
     bindE (pget source ''kind'') (check_source env (\<lambda>r code. asset_check r code node_id idx) source))"

definition check_node_assets :: "asset_env \<Rightarrow> json \<Rightarrow> pcheck list res" where
  "check_node_assets env node =
     bindE (pget node ''attachments'') (\<lambda>a. bindE (or_list a) (\<lambda>atts.
     bindE (pget node ''id'') (\<lambda>node_id.
     bindE (mapE (\<lambda>(i, att). check_attachment env node_id i att) (zip [0..<length atts] atts)) (\<lambda>css.
       Inr (concat css)))))"

definition or_passed :: "string \<Rightarrow> pcheck list \<Rightarrow> pcheck list" where
  "or_passed c checks = (if checks = [] then [passed c] else checks)"

definition check_topology_assets :: "asset_env \<Rightarrow> dict \<Rightarrow> pcheck list res" where
  "check_topology_assets env topology =
     bindE (or_list (jget topology ''nodes'')) (\<lambda>nodes.
     bindE (mapE (check_node_assets env) nodes) (\<lambda>css. Inr (or_passed ''topology_assets'' (concat css))))"

definition node_role :: "json \<Rightarrow> pcheck list res" where
  "node_role node =
     bindE (pget node ''kind'') (\<lambda>kind.
       if kind \<notin> {JStr ''vm'', JStr ''lxc''} then Inr []
       else bindE (pget node ''role'') (\<lambda>role. bindE (pget node ''id'') (\<lambda>i.
         Inr (if truthy role then []
              else [verdict_of ''topology_node_role'' Block (Some ''TOPOLOGY_NODE_MISSING_ROLE'')
                      (Some (AtNode i))]))))"

definition check_topology_node_role :: "dict \<Rightarrow> pcheck list res" where
  "check_topology_node_role topology =
     bindE (or_list (jget topology ''nodes'')) (\<lambda>nodes.
     bindE (mapE node_role nodes) (\<lambda>css. Inr (or_passed ''topology_node_role'' (concat css))))"

subsection \<open>Declared checks\<close>

definition declarative_checks :: "string list" where
  "declarative_checks =
     [''proxmox.connectivity'', ''vmid.safety'', ''topology.assets'', ''topology.node_role'',
      ''secrets.completeness'', ''git.reachable'', ''docker.images'', ''sdn.bridge'', ''resource.budget'']"

text \<open>\<open>run name\<close> is the named check applied to the arguments that the context has for it.\<close>

definition declarative_check :: "(string \<Rightarrow> pcheck list res) \<Rightarrow> string \<Rightarrow> pcheck list" where
  "declarative_check run name =
     (if name \<notin> set declarative_checks
      then [verdict_of ''declarative'' Warn (Some ''UNKNOWN_PREFLIGHT_CHECK'') None]
      else case run name of
        Inl _ \<Rightarrow> [verdict_of ''declarative'' Warn (Some ''DECLARATIVE_CHECK_RAISED'') None]
      | Inr checks \<Rightarrow> checks)"

definition run_declarative_checks :: "(string \<Rightarrow> pcheck list res) \<Rightarrow> string list \<Rightarrow> pcheck list" where
  "run_declarative_checks run names = concat (map (declarative_check run) names)"

subsection \<open>Verdict lemmas\<close>

lemma report_not_block: "report_result checks \<noteq> Block \<longleftrightarrow> list_all (\<lambda>c. pc_result c \<noteq> Block) checks"
  by (auto simp: report_result_def list_ex_iff list_all_iff)

lemma check_vmids_Block:
  "pc_result (check_vmids vs ov) = Block \<longleftrightarrow>
     \<not> distinct vs \<or> list_ex (\<lambda>v. assert_vmid_safe v ov \<noteq> Inr ()) vs"
  by (auto simp: check_vmids_def passed_def)

definition attachment_resolves :: "asset_env \<Rightarrow> dict \<Rightarrow> bool" where
  "attachment_resolves env source =
     (case jget source ''kind'' of
        JStr k \<Rightarrow>
          (if k = ''file_upload'' then (\<exists>p. jget source ''path'' = JStr p \<and> p \<noteq> [] \<and> ae_file env p)
           else if k = ''inline_yaml'' then (\<exists>c. jget source ''content'' = JStr c \<and> strip c \<noteq> [])
           else if k = ''external_git''
           then (\<exists>u base. jget source ''url'' = JStr u \<and> url_base u = Inr base \<and> base \<in> set (ae_sources env))
           else if k \<in> {''catalog_role'', ''catalog_container''}
           then (\<exists>r exists. jget source ''ref'' = JStr r \<and> ae_catalog env = Some exists \<and> exists r)
           else True)
      | _ \<Rightarrow> True)"

definition attachment_source :: "json \<Rightarrow> dict" where
  "attachment_source att =
     (case att of JObj d \<Rightarrow> (case jget d ''source'' of JObj s \<Rightarrow> s | _ \<Rightarrow> []) | _ \<Rightarrow> [])"

definition list_field :: "json \<Rightarrow> string \<Rightarrow> json list" where
  "list_field v k = (case v of JObj d \<Rightarrow> (case jget d k of JList xs \<Rightarrow> xs | _ \<Rightarrow> []) | _ \<Rightarrow> [])"

definition topology_sources :: "dict \<Rightarrow> dict list" where
  "topology_sources topology =
     concat (map (\<lambda>node. map attachment_source (list_field node ''attachments''))
       (list_field (JObj topology) ''nodes''))"

lemma pget_Inr [res_simps]: "pget v k = Inr x \<longleftrightarrow> (\<exists>d. v = JObj d \<and> x = jget d k)"
  by (cases v) (auto simp: pget_def)

lemma text_field_Inr:
  "text_field e (JObj d) k = Inr t \<Longrightarrow> t \<noteq> [] \<Longrightarrow> jget d k = JStr t"
  by (auto simp: text_field_def pget_def res_simps split: if_splits)

lemma strip_Nil [simp]: "strip [] = []"
  by (simp add: strip_def)

lemma url_base_Nil: "url_base [] = Inr []"
  by (simp add: url_base_def url_clean_def split_scheme_def split_once_def url_netloc_def)

lemma asset_check_not_Nil [simp]: "asset_check r c n i \<noteq> []"
  by (simp add: asset_check_def)

lemma check_source_resolves:
  assumes "check_source env report (JObj d) (jget d ''kind'') = Inr []" and r: "\<And>v c. report v c \<noteq> []"
  shows "attachment_resolves env d"
proof -
  consider (upload) "jget d ''kind'' = JStr ''file_upload''" | (inl) "jget d ''kind'' = JStr ''inline_yaml''"
    | (git) "jget d ''kind'' = JStr ''external_git''"
    | (cat) "jget d ''kind'' = JStr ''catalog_role'' \<or> jget d ''kind'' = JStr ''catalog_container''"
    | (other) "jget d ''kind'' \<notin> {JStr ''file_upload'', JStr ''inline_yaml'', JStr ''external_git'',
        JStr ''catalog_role'', JStr ''catalog_container''}" by blast
  then show ?thesis
  proof cases
    case upload
    with assms obtain p where "text_field TypeError (JObj d) ''path'' = Inr p" "p \<noteq> []" "ae_file env p"
      by (auto simp: check_source_def res_simps split: if_splits)
    with upload show ?thesis by (auto simp: attachment_resolves_def dest: text_field_Inr)
  next
    case inl
    with assms obtain p where "text_field AttributeError (JObj d) ''content'' = Inr p" "strip p \<noteq> []"
      by (auto simp: check_source_def res_simps split: if_splits)
    moreover from this have "p \<noteq> []" by auto
    ultimately show ?thesis using inl by (auto simp: attachment_resolves_def dest: text_field_Inr)
  next
    case git
    with assms obtain u base where u: "text_field AttributeError (JObj d) ''url'' = Inr u" "url_base u = Inr base"
      "base \<noteq> []" "base \<in> set (ae_sources env)"
      by (auto simp: check_source_def res_simps split: if_splits)
    then have "u \<noteq> []" using url_base_Nil by auto
    with u git show ?thesis by (auto simp: attachment_resolves_def dest: text_field_Inr)
  next
    case cat
    with assms obtain p exists where "text_field TypeError (JObj d) ''ref'' = Inr p" "p \<noteq> []"
      "ae_catalog env = Some exists" "exists p"
      by (auto simp: check_source_def res_simps split: if_splits option.splits)
    with cat show ?thesis by (auto simp: attachment_resolves_def dest: text_field_Inr)
  next
    case other
    then show ?thesis by (auto simp: attachment_resolves_def split: json.split)
  qed
qed

lemma check_attachment_resolves:
  assumes "check_attachment env node_id idx att = Inr []"
  shows "attachment_resolves env (attachment_source att)"
proof -
  from assms obtain d source where d: "att = JObj d"
    and s: "(if truthy (jget d ''source'') then jget d ''source'' else JObj []) = JObj source"
    and c: "check_source env (\<lambda>r code. asset_check r code node_id idx) (JObj source) (jget source ''kind'') = Inr []"
    by (auto simp: check_attachment_def res_simps Let_def)
  have "attachment_source att = source"
    using s d by (auto simp: attachment_source_def split: if_splits json.splits)
  with check_source_resolves [OF c] show ?thesis by simp
qed

lemma check_source_results:
  assumes "check_source env report source kind = Inr cs"
  shows "cs \<in> {[], report Block ''MISSING_ASSET'', report Block ''EXTERNAL_GIT_NOT_REGISTERED'',
     report Warn ''CATALOG_NOT_RESOLVED''}"
  using assms by (auto simp: check_source_def res_simps split: if_splits option.splits)

lemma check_node_assets_results:
  assumes "check_node_assets env node = Inr cs" and "x \<in> set cs"
  shows "pc_result x \<noteq> Pass"
proof -
  from assms(1) obtain as n css where "mapE (\<lambda>(i, att). check_attachment env n i att) as = Inr css"
    and "cs = concat css" by (auto simp: check_node_assets_def res_simps)
  with assms(2) obtain ys i att where "check_attachment env n i att = Inr ys" and x: "x \<in> set ys"
    by (auto dest!: mapE_Inr_setD)
  then obtain source kind where
    "check_source env (\<lambda>r code. asset_check r code n i) source kind = Inr ys"
    by (auto simp: check_attachment_def res_simps Let_def)
  from check_source_results [OF this] x show ?thesis by (auto simp: asset_check_def)
qed

lemma or_list_JList [simp]: "or_list (JList xs) = Inr xs"
  by (simp add: or_list_def)

lemma list_field_elem:
  "x \<in> set (list_field v k) \<Longrightarrow> \<exists>d xs. v = JObj d \<and> jget d k = JList xs \<and> x \<in> set xs"
proof (cases v)
  case (JObj d)
  moreover assume "x \<in> set (list_field v k)"
  ultimately show ?thesis by (cases "jget d k") (simp_all add: list_field_def)
qed (simp_all add: list_field_def)

lemma check_node_assets_resolves:
  assumes "check_node_assets env node = Inr []" and "att \<in> set (list_field node ''attachments'')"
  shows "attachment_resolves env (attachment_source att)"
proof -
  from list_field_elem [OF assms(2)] obtain d atts where n: "node = JObj d" "jget d ''attachments'' = JList atts"
    and i: "att \<in> set atts" by blast
  with assms(1) obtain css where
    m: "mapE (\<lambda>(i, att). check_attachment env (jget d ''id'') i att) (zip [0..<length atts] atts) = Inr css"
    and c: "\<forall>cs \<in> set css. cs = []"
    by (auto simp: check_node_assets_def pget_def res_simps)
  from i obtain k where k: "k < length atts" "atts ! k = att" by (auto simp: in_set_conv_nth)
  then have "check_attachment env (jget d ''id'') k att = Inr (css ! k)" "k < length css"
    using m by (auto simp: mapE_Inr_list_all2 list_all2_conv_all_nth)
  with c check_attachment_resolves show ?thesis by (metis nth_mem)
qed

text \<open>
  a topology passes the asset check only when every attachment of every node resolves: its
  upload exists, its inline text is not blank, its repository's base URL is registered, its
  catalog artifact exists in the given catalog.
\<close>

theorem topology_assets_resolved:
  assumes "check_topology_assets env topology = Inr checks" and "report_result checks = Pass"
  shows "list_all (attachment_resolves env) (topology_sources topology)"
proof -
  have "attachment_resolves env (attachment_source att)"
    if n: "node \<in> set (list_field (JObj topology) ''nodes'')" and a: "att \<in> set (list_field node ''attachments'')"
    for node att
  proof -
    from list_field_elem [OF n] obtain nodes where nd: "jget topology ''nodes'' = JList nodes" "node \<in> set nodes"
      by auto
    with assms obtain css where m: "mapE (check_node_assets env) nodes = Inr css"
      and c: "checks = or_passed ''topology_assets'' (concat css)"
      by (auto simp: check_topology_assets_def res_simps)
    from mapE_Inr_set [OF m nd(2)] obtain cs where cs: "check_node_assets env node = Inr cs" "cs \<in> set css"
      by blast
    have "cs = []"
    proof (rule ccontr)
      assume "cs \<noteq> []"
      then obtain x where x: "x \<in> set cs" by (cases cs) auto
      then have "x \<in> set checks" using cs c by (auto simp: or_passed_def)
      moreover have "pc_result x \<noteq> Pass" using check_node_assets_results [OF cs(1) x] .
      ultimately show False
        using assms(2) by (auto simp: report_result_def list_ex_iff split: if_splits) (metis verdict.exhaust)
    qed
    then show ?thesis using check_node_assets_resolves cs(1) a by blast
  qed
  then show ?thesis by (auto simp: topology_sources_def list_all_iff)
qed

definition sample_assets :: asset_env where
  "sample_assets = \<lparr>ae_file = (\<lambda>p. p = ''a.yml''), ae_catalog = None, ae_sources = [''https://git.example'']\<rparr>"

definition sample_topology :: dict where
  "sample_topology = [(''nodes'', JList [JObj [(''id'', JStr ''n1''), (''attachments'', JList
     [JObj [(''source'', JObj [(''kind'', JStr ''file_upload''), (''path'', JStr ''a.yml'')])],
      JObj [(''source'', JObj [(''kind'', JStr ''external_git''), (''url'', JStr ''https://git.example/x'')])]])]])]"

lemma sample_topology_passes: "check_topology_assets sample_assets sample_topology = Inr [passed ''topology_assets'']"
proof -
  have "url_base ''https://git.example/x'' = Inr ''https://git.example''" by code_simp
  then show ?thesis
    by (simp add: check_topology_assets_def sample_topology_def sample_assets_def jget_def check_node_assets_def
        pget_def check_attachment_def check_source_def text_field_def or_passed_def)
qed

theorem topology_assets_resolved_witness:
  "list_all (attachment_resolves sample_assets) (topology_sources sample_topology)
   \<and> length (topology_sources sample_topology) = 2"
  using topology_assets_resolved [OF sample_topology_passes]
  by (simp add: report_result_def passed_def topology_sources_def list_field_def sample_topology_def jget_def)

end
