(* ===== verification/Scenario_Capacity.thy ===== *)
theory Scenario_Capacity
  imports Host_Capacity Preflight "HOL-Library.Char_ord" "HOL-Library.List_Lexorder"
begin

text \<open>
  The capacity assessment of a concrete plan
  (\<open>app/core/scenario_capacity.py\<close>): measured RAM blocks, CPU only warns, and storage blocks
  on the pools that the plan selects and warns on the pools it inherits.

  The planned VMs are rows of a validated manifest, so a VMID, a template and a disk size are
  integers and a storage name is a string. Detail texts are not modelled. Ratios are rational
  where the code divides floats, and \<open>Decimal\<close>'s rounding of sizes with more than 28 digits is
  outside the model.
\<close>

subsection \<open>Checks\<close>

definition cap_check :: "string \<Rightarrow> verdict \<Rightarrow> string option \<Rightarrow> string option \<Rightarrow> pcheck" where
  "cap_check resource result code pool =
     \<lparr>pc_check = ''capacity_'' @ resource, pc_result = result, pc_code = code,
      pc_field = Some (AtField (case pool of
         Some p \<Rightarrow> if p = [] then ''manifest/scenario_vms.json'' else ''storage:'' @ p
       | None \<Rightarrow> ''manifest/scenario_vms.json''))\<rparr>"

definition gib :: int where "gib = 1073741824"

definition under_pressure :: "rat \<Rightarrow> bool" where
  "under_pressure ratio = (9 / 10 \<le> ratio)"

subsection \<open>Disk sizes\<close>

definition unit_power :: "string \<Rightarrow> nat option" where
  "unit_power r =
     (case r of
        [] \<Rightarrow> Some 0
      | [c] \<Rightarrow> map_of (zip ''KMGTPE'' [1, 2, 3, 4, 5, 6]) c
      | _ \<Rightarrow> None)"

definition size_parts :: "string \<Rightarrow> (string \<times> string \<times> nat) option" where
  "size_parts s =
     (let ds = takeWhile is_digit s; r = dropWhile is_digit s in
      if ds = [] then None
      else case r of
        CHR ''.'' # q \<Rightarrow>
          (let fs = takeWhile is_digit q in
           if fs = [] then None
           else map_option (\<lambda>k. (ds, fs, k)) (unit_power (dropWhile is_digit q)))
      | _ \<Rightarrow> map_option (\<lambda>k. (ds, [], k)) (unit_power r))"

definition size_bytes :: "string \<Rightarrow> int option" where
  "size_bytes s =
     (case size_parts s of
        None \<Rightarrow> None
      | Some (ds, fs, k) \<Rightarrow>
          (let num = digits_val (ds @ fs) * 1024 ^ k; den = 10 ^ length fs in
           if 0 < num \<and> num mod den = 0 \<and> num div den < 9223372036854775808
           then Some (int (num div den)) else None))"

definition is_disk :: "string \<Rightarrow> bool" where
  "is_disk key =
     (key \<in> {''efidisk0'', ''tpmstate0''}
      \<or> list_ex (\<lambda>p. prefix p key \<and> drop (length p) key \<noteq> [] \<and> list_all is_digit (drop (length p) key))
          [''ide'', ''sata'', ''scsi'', ''virtio''])"

definition spec_options :: "string \<Rightarrow> (string \<times> string) list" where
  "spec_options spec =
     dupdate [] (map (split_once (CHR ''=''))
       (filter (\<lambda>part. CHR ''='' \<in> set part) (tl (split_on (CHR '','') spec))))"

definition option_or :: "(string \<times> string) list \<Rightarrow> string \<Rightarrow> string" where
  "option_or d k = (case dget d k of None \<Rightarrow> [] | Some v \<Rightarrow> v)"

definition volume_pool :: "string \<Rightarrow> string option" where
  "volume_pool spec =
     (let first = hd (split_on (CHR '','') spec);
          volume = (if prefix ''file='' first then drop 5 first else first);
          pool = takeWhile (\<lambda>c. c \<noteq> CHR '':'') volume
      in if CHR '':'' \<in> set volume \<and> pool \<noteq> [] \<and> is_alpha (hd pool)
            \<and> list_all (\<lambda>c. is_alnum c \<or> c \<in> set ''._-'') (tl pool)
         then Some pool else None)"

subsection \<open>What one VM needs\<close>

definition jget_or :: "dict \<Rightarrow> string \<Rightarrow> json \<Rightarrow> json" where
  "jget_or d k v = (case dget d k of None \<Rightarrow> v | Some w \<Rightarrow> w)"

definition disk_gb :: "dict \<Rightarrow> int option" where
  "disk_gb planned = as_int (jget planned ''disk_gb'')"

definition disk_device :: "dict \<Rightarrow> json" where
  "disk_device planned = jget_or planned ''disk_device'' (JStr ''scsi0'')"

definition selected_pool :: "dict \<Rightarrow> string option" where
  "selected_pool planned =
     (case jget planned ''storage'' of JStr s \<Rightarrow> if s = [] then None else Some s | _ \<Rightarrow> None)"

fun add_size :: "string \<Rightarrow> int \<Rightarrow> (string \<times> int) list \<Rightarrow> (string \<times> int) list" where
  "add_size k n [] = [(k, n)]"
| "add_size k n ((k', m) # d) = (if k' = k then (k, m + n) # d else (k', m) # add_size k n d)"

record disk_scan =
  ds_storage :: "(string \<times> int) list"
  ds_unknown :: bool
  ds_found :: bool
  ds_resized :: bool

definition scan_disk :: "dict \<Rightarrow> disk_scan \<Rightarrow> string \<times> json \<Rightarrow> disk_scan" where
  "scan_disk planned st kv =
     (case kv of (device, specification) \<Rightarrow>
        if \<not> is_disk device then st
        else case specification of
          JStr spec \<Rightarrow>
            (let options = spec_options spec in
             if dget options ''media'' = Some ''cdrom'' then st
             else case (volume_pool spec, size_bytes (option_or options ''size'')) of
               (Some pool, Some sz) \<Rightarrow>
                 (let grow = disk_gb planned \<noteq> None \<and> JStr device = disk_device planned;
                      bytes = (if grow then max sz (the (disk_gb planned) * gib) else sz);
                      target = (case selected_pool planned of Some s \<Rightarrow> s | None \<Rightarrow> pool)
                  in st\<lparr>ds_found := True, ds_resized := (ds_resized st \<or> grow),
                        ds_storage := add_size target bytes (ds_storage st)\<rparr>)
             | _ \<Rightarrow> st\<lparr>ds_found := True, ds_unknown := True\<rparr>)
        | _ \<Rightarrow> st\<lparr>ds_unknown := True\<rparr>)"

definition positive_int :: "json \<Rightarrow> int option" where
  "positive_int v = (case v of JInt i \<Rightarrow> if 0 < i then Some i else None | _ \<Rightarrow> None)"

definition template_requirements :: "dict \<Rightarrow> dict \<Rightarrow> int option \<times> (string \<times> int) list \<times> bool" where
  "template_requirements planned config =
     (let cpu = (case (positive_int (jget_or planned ''cores'' (jget_or config ''cores'' (JInt 1))),
                       positive_int (jget_or config ''sockets'' (JInt 1))) of
                   (Some c, Some s) \<Rightarrow> Some (c * s) | _ \<Rightarrow> None);
          st = foldl (scan_disk planned)
                 \<lparr>ds_storage = [], ds_unknown = False, ds_found = False,
                  ds_resized = (jget planned ''disk_gb'' = JNull)\<rparr> config
      in (cpu, ds_storage st, ds_unknown st \<or> \<not> ds_found st \<or> \<not> ds_resized st))"

subsection \<open>Assessing a plan\<close>

definition memory_check :: "int option \<Rightarrow> int \<Rightarrow> rat \<Rightarrow> pcheck" where
  "memory_check tot free required =
     (case tot of
        None \<Rightarrow> cap_check ''memory'' Warn (Some ''MEMORY_CAPACITY_UNKNOWN'') None
      | Some t \<Rightarrow>
          if under_pressure ((of_int t - of_int free + required) / of_int t)
          then cap_check ''memory'' Warn (Some ''MEMORY_PRESSURE'') None
          else cap_check ''memory'' Pass None None)"

definition growth_check :: "dict \<Rightarrow> dict \<Rightarrow> pcheck list" where
  "growth_check vm config =
     (case disk_gb vm of
        None \<Rightarrow> []
      | Some g \<Rightarrow>
          (let options = (case disk_device vm of
                 JStr device \<Rightarrow> (case dget config device of Some (JStr spec) \<Rightarrow> spec_options spec | _ \<Rightarrow> [])
               | _ \<Rightarrow> []) in
           case size_bytes (option_or options ''size'') of
             None \<Rightarrow> [cap_check ''storage'' Block (Some ''DISK_GROWTH_UNAVAILABLE'') None]
           | Some current \<Rightarrow>
               if dget options ''media'' = Some ''cdrom''
               then [cap_check ''storage'' Block (Some ''DISK_GROWTH_UNAVAILABLE'') None]
               else if g * gib < current
               then [cap_check ''storage'' Block (Some ''DISK_SHRINK_UNSUPPORTED'') None] else []))"

record plan_scan =
  pl_checks :: "pcheck list"
  pl_cpus :: int
  pl_unknown_cpu :: bool
  pl_unknown_disk :: bool
  pl_disks :: "(string \<times> int) list"

definition template_id :: "dict \<Rightarrow> int" where
  "template_id vm = (case as_int (jget vm ''template_vm_id'') of Some i \<Rightarrow> i | None \<Rightarrow> 0)"

definition scan_vm :: "(int \<Rightarrow> dict option) \<Rightarrow> plan_scan \<Rightarrow> dict \<Rightarrow> plan_scan" where
  "scan_vm configs st vm =
     (case configs (template_id vm) of
        None \<Rightarrow> st\<lparr>pl_unknown_cpu := True, pl_unknown_disk := True,
            pl_checks := pl_checks st @
              (if disk_gb vm \<noteq> None
               then [cap_check ''storage'' Block (Some ''DISK_GROWTH_UNAVAILABLE'') None] else [])\<rparr>
      | Some config \<Rightarrow>
          (case template_requirements vm config of (cpu, storage, incomplete) \<Rightarrow>
             st\<lparr>pl_checks := pl_checks st @ growth_check vm config,
                pl_unknown_cpu := (pl_unknown_cpu st \<or> cpu = None),
                pl_cpus := pl_cpus st + (case cpu of Some c \<Rightarrow> c | None \<Rightarrow> 0),
                pl_unknown_disk := (pl_unknown_disk st \<or> incomplete),
                pl_disks := fold (\<lambda>(pool, size). add_size pool size) storage (pl_disks st)\<rparr>))"

definition cpu_checks :: "host_capacity \<Rightarrow> bool \<Rightarrow> int \<Rightarrow> pcheck list" where
  "cpu_checks capacity unknown_cpu cpus =
     (let warn = (\<lambda>code. [cap_check ''cpu'' Warn (Some code) None]) in
      (if unknown_cpu then warn ''CPU_REQUIREMENTS_UNKNOWN''
       else case cc_logical (hc_cpu capacity) of
         None \<Rightarrow> warn ''CPU_CAPACITY_UNKNOWN''
       | Some n \<Rightarrow> if n < cpus then warn ''CPU_OVERCOMMIT'' else [cap_check ''cpu'' Pass None None])
      @ (case cc_utilization (hc_cpu capacity) of
           None \<Rightarrow> warn ''CPU_LOAD_UNKNOWN''
         | Some u \<Rightarrow> if under_pressure u then warn ''CPU_PRESSURE'' else []))"

definition pool_usable :: "storage_capacity option \<Rightarrow> bool" where
  "pool_usable pool =
     (case pool of
        None \<Rightarrow> False
      | Some p \<Rightarrow> sc_active p = Some True \<and> sc_enabled p = Some True \<and> mc_free p \<noteq> None
           \<and> ''images'' \<in> set (sc_content p))"

definition may_allocate :: "http_get \<Rightarrow> proxmox_host \<Rightarrow> string \<Rightarrow> bool" where
  "may_allocate get h name =
     (let path = ''/storage/'' @ name in
      case read_proxmox_data get h ''/access/permissions'' [(''path'', JStr path)] of
        Inr (JObj d) \<Rightarrow>
          (case jget d path of
             JObj rights \<Rightarrow>
               (case jget rights ''Datastore.AllocateSpace'' of
                  JBool b \<Rightarrow> True | JInt i \<Rightarrow> i = 0 \<or> i = 1 | _ \<Rightarrow> False)
           | _ \<Rightarrow> False)
      | _ \<Rightarrow> False)"

definition space_check :: "storage_capacity \<Rightarrow> string \<Rightarrow> bool \<Rightarrow> int \<Rightarrow> pcheck" where
  "space_check p name selected required =
     (case mc_free p of
        None \<Rightarrow> cap_check ''storage'' Block None (Some name)
      | Some free \<Rightarrow>
          if free < required
          then (if selected then cap_check ''storage'' Block (Some ''INSUFFICIENT_STORAGE'') (Some name)
                else cap_check ''storage'' Warn (Some ''STORAGE_ESTIMATE_EXCEEDS_FREE'') (Some name))
          else case mc_total p of
            Some t \<Rightarrow>
              if under_pressure ((of_int t - of_int free + of_int required) / of_int t)
              then cap_check ''storage'' Warn (Some ''STORAGE_PRESSURE'') (Some name)
              else cap_check ''storage'' Pass None (Some name)
          | None \<Rightarrow> cap_check ''storage'' Warn (Some ''STORAGE_CAPACITY_UNKNOWN'') (Some name))"

definition pool_checks ::
    "http_get \<Rightarrow> proxmox_host \<Rightarrow> host_capacity \<Rightarrow> string list \<Rightarrow> bool \<Rightarrow> (string \<times> int) list
       \<Rightarrow> string \<Rightarrow> pcheck list" where
  "pool_checks get h capacity selected_pools unknown_disk disks name =
     (let required = (case dget disks name of Some n \<Rightarrow> n | None \<Rightarrow> 0);
          selected = (name \<in> set selected_pools);
          pool = List.find (\<lambda>p. sc_storage p = name) (rev (hc_storage capacity))
      in if \<not> pool_usable pool
         then [if selected then cap_check ''storage'' Block (Some ''STORAGE_POOL_UNAVAILABLE'') (Some name)
               else cap_check ''storage'' Warn (Some ''STORAGE_POOL_UNKNOWN'') (Some name)]
         else if selected \<and> \<not> may_allocate get h name
         then [cap_check ''storage'' Block (Some ''STORAGE_PERMISSION_UNAVAILABLE'') (Some name)]
         else if selected \<and> unknown_disk then []
         else [space_check (the pool) name selected required])"

definition template_config :: "http_get \<Rightarrow> proxmox_host \<Rightarrow> int \<Rightarrow> dict option" where
  "template_config get h i =
     (case read_proxmox_data get h
             (''/nodes/'' @ url_quote (ph_node_name h) @ ''/qemu/'' @ int_str i @ ''/config'') [] of
        Inr (JObj d) \<Rightarrow> Some d | _ \<Rightarrow> None)"

definition plan_scan_of :: "http_get \<Rightarrow> proxmox_host \<Rightarrow> pcheck \<Rightarrow> dict list \<Rightarrow> plan_scan" where
  "plan_scan_of get h memory vms =
     foldl (scan_vm (template_config get h))
       \<lparr>pl_checks = [memory], pl_cpus = 0, pl_unknown_cpu = False, pl_unknown_disk = False, pl_disks = []\<rparr> vms"

definition check_plan_capacity :: "http_get \<Rightarrow> proxmox_host \<Rightarrow> dict list \<Rightarrow> rat \<Rightarrow> pcheck list" where
  "check_plan_capacity get h vms required_memory =
     (let capacity = read_host_capacity get h; memory = hc_memory capacity in
      case mc_free memory of
        None \<Rightarrow> [cap_check ''memory'' Block (Some ''SCENARIO_RESOURCES_UNREADABLE'') None]
      | Some free \<Rightarrow>
          if of_int free < required_memory
          then [cap_check ''memory'' Block (Some ''INSUFFICIENT_MEMORY'') None]
          else
            (let selected_pools = List.map_filter selected_pool vms;
                 st = plan_scan_of get h (memory_check (mc_total memory) free required_memory) vms;
                 names = remdups (sort (map fst (pl_disks st) @ selected_pools))
             in pl_checks st @ cpu_checks capacity (pl_unknown_cpu st) (pl_cpus st)
                @ (if pl_unknown_disk st
                   then [cap_check ''storage'' (if selected_pools \<noteq> [] then Block else Warn)
                           (Some ''STORAGE_REQUIREMENTS_UNKNOWN'') None] else [])
                @ concat (map (pool_checks get h capacity selected_pools (pl_unknown_disk st) (pl_disks st))
                    names)))"

subsection \<open>What a verdict guarantees\<close>

lemma cap_check_result [simp]: "pc_result (cap_check r v c p) = v"
  by (simp add: cap_check_def)

lemma add_size_get: "dget (add_size k n d) k' = (if k' = k then Some (n + (case dget d k of Some m \<Rightarrow> m | None \<Rightarrow> 0)) else dget d k')"
  by (induction k n d rule: add_size.induct) auto

definition pool_fits :: "http_get \<Rightarrow> proxmox_host \<Rightarrow> host_capacity \<Rightarrow> (string \<times> int) list \<Rightarrow> string \<Rightarrow> bool" where
  "pool_fits get h capacity disks name =
     (\<exists>p free. p \<in> set (hc_storage capacity) \<and> sc_storage p = name \<and> pool_usable (Some p)
        \<and> mc_free p = Some free \<and> may_allocate get h name
        \<and> (case dget disks name of Some n \<Rightarrow> n \<le> free | None \<Rightarrow> 0 \<le> free))"

lemma pool_checks_fits:
  assumes "list_all (\<lambda>c. pc_result c \<noteq> Block) (pool_checks get h capacity sel False disks name)" and "name \<in> set sel"
  shows "pool_fits get h capacity disks name"
proof -
  let ?pool = "List.find (\<lambda>p. sc_storage p = name) (rev (hc_storage capacity))"
  have u: "pool_usable ?pool" and m: "may_allocate get h name"
    using assms by (auto simp: pool_checks_def Let_def split: if_splits)
  then obtain p free where p: "?pool = Some p" and f: "mc_free p = Some free"
    by (auto simp: pool_usable_def split: option.splits)
  have in_set: "p \<in> set (hc_storage capacity)" "sc_storage p = name"
    using p by (auto simp: find_Some_iff) (metis nth_mem set_rev length_rev)
  have "\<not> free < (case dget disks name of Some n \<Rightarrow> n | None \<Rightarrow> 0)"
    using assms u m p f by (auto simp: pool_checks_def Let_def space_check_def split: if_splits)
  then show ?thesis
    using p u m f in_set unfolding pool_fits_def by (intro exI [of _ p] exI [of _ free]) (auto split: option.split)
qed

text \<open>
  A plan whose capacity checks do not block fits: the node's measured free memory covers it, and
  every storage pool it selects is visible, active, enabled, holds images, may be allocated from by
  the token, and has the measured free space for all of the plan's disks on it, none of which is of
  unknown size.
\<close>

theorem capacity_admits_only_fitting:
  assumes "report_result (check_plan_capacity get h vms required) \<noteq> Block"
  shows "\<exists>free st. mc_free (hc_memory (read_host_capacity get h)) = Some free \<and> required \<le> of_int free
    \<and> st = plan_scan_of get h (memory_check (mc_total (hc_memory (read_host_capacity get h))) free required) vms
    \<and> (if List.map_filter selected_pool vms = [] then True else \<not> pl_unknown_disk st)
    \<and> list_all (pool_fits get h (read_host_capacity get h) (pl_disks st)) (List.map_filter selected_pool vms)"
proof -
  let ?cap = "read_host_capacity get h" and ?sel = "List.map_filter selected_pool vms"
  from assms obtain free where f: "mc_free (hc_memory ?cap) = Some free" "required \<le> of_int free"
    by (auto simp: report_not_block check_plan_capacity_def Let_def split: option.splits if_splits)
  define st where "st = plan_scan_of get h (memory_check (mc_total (hc_memory ?cap)) free required) vms"
  let ?names = "remdups (sort (map fst (pl_disks st) @ ?sel))"
  have run: "check_plan_capacity get h vms required =
      pl_checks st @ cpu_checks ?cap (pl_unknown_cpu st) (pl_cpus st)
                @ (if pl_unknown_disk st
                   then [cap_check ''storage'' (if ?sel \<noteq> [] then Block else Warn)
                           (Some ''STORAGE_REQUIREMENTS_UNKNOWN'') None] else [])
                @ concat (map (pool_checks get h ?cap ?sel (pl_unknown_disk st) (pl_disks st)) ?names)"
    using f by (simp add: check_plan_capacity_def Let_def st_def)
  have known: "?sel \<noteq> [] \<Longrightarrow> \<not> pl_unknown_disk st"
    using assms by (auto simp: report_not_block run split: if_splits)
  have "pool_fits get h ?cap (pl_disks st) name" if n: "name \<in> set ?sel" for name
  proof -
    have "list_all (\<lambda>c. pc_result c \<noteq> Block) (pool_checks get h ?cap ?sel (pl_unknown_disk st) (pl_disks st) name)"
      using assms n by (auto simp: report_not_block run list_all_iff)
    moreover have "pl_unknown_disk st = False" using known n by force
    ultimately show ?thesis using pool_checks_fits n by metis
  qed
  then show ?thesis using f known st_def by (auto simp: list_all_iff)
qed

text \<open>
  CPU overcommitment is advisory: no check of the cpu resource ever blocks a plan.
\<close>

theorem cpu_never_blocks:
  "list_all (\<lambda>c. pc_result c \<noteq> Block) (cpu_checks capacity unknown_cpu cpus)"
  by (simp add: cpu_checks_def Let_def split: option.split)

subsection \<open>A plan that fits\<close>

definition capacity_get :: http_get where
  "capacity_get url params =
     (let ok = (\<lambda>v. Some \<lparr>hr_status = 200, hr_body = Some (JObj [(''data'', v)])\<rparr>) in
      if url = ''https://p/api2/json/nodes/pve/status''
      then ok (JObj [(''cpu'', JInt 0), (''cpuinfo'', JObj [(''cpus'', JInt 8)]),
        (''memory'', JObj [(''total'', JInt 1000), (''used'', JInt 100), (''free'', JInt 900)])])
      else if url = ''https://p/api2/json/nodes/pve/storage''
      then ok (JList [JObj [(''storage'', JStr ''fast''), (''content'', JStr ''images''), (''enabled'', JInt 1),
        (''active'', JInt 1), (''total'', JInt 9000), (''used'', JInt 0), (''avail'', JInt 9000)]])
      else if url = ''https://p/api2/json/nodes/pve/qemu/900/config''
      then ok (JObj [(''scsi0'', JStr ''local:disk,size=2K'')])
      else if url = ''https://p/api2/json/access/permissions''
      then ok (JObj [(''/storage/fast'', JObj [(''Datastore.AllocateSpace'', JInt 1)])])
      else None)"

definition capacity_vms :: "dict list" where
  "capacity_vms = [[(''vm_id'', JInt 300), (''template_vm_id'', JInt 900), (''storage'', JStr ''fast'')]]"

lemma capacity_reads:
  "read_host_capacity capacity_get sample_host =
     \<lparr>hc_host = ''h1'', hc_node = ''pve'', hc_status = Available,
      hc_cpu = \<lparr>cc_logical = Some 8, cc_utilization = Some 0\<rparr>,
      hc_memory = \<lparr>mc_total = Some 1000, mc_used = Some 100, mc_free = Some 900\<rparr>,
      hc_storage = [\<lparr>mc_total = Some 9000, mc_used = Some 0, mc_free = Some 9000, sc_storage = ''fast'',
        sc_type = None, sc_content = [''images''], sc_enabled = Some True, sc_active = Some True, sc_shared = None\<rparr>],
      hc_issues = []\<rparr>"
  by (simp add: read_host_capacity_def capacity_get_def eval_defs url_quote_def quote_char_def is_alnum_def
      normalize_node_capacity_def dict_or_empty_def jget_def hc_integer_def hc_utilization_def clip_def
      normalize_storage_def storage_row_def raw_pool_def hc_flag_def availability_def bounded_pool_def Let_def)

lemma capacity_config: "template_config capacity_get sample_host 900 = Some [(''scsi0'', JStr ''local:disk,size=2K'')]"
  by (simp add: template_config_def capacity_get_def eval_defs url_quote_def quote_char_def is_alnum_def)

lemma capacity_allowed: "may_allocate capacity_get sample_host ''fast''"
  by (simp add: may_allocate_def capacity_get_def eval_defs jget_def)

lemma capacity_scan:
  "plan_scan_of capacity_get sample_host m capacity_vms =
     \<lparr>pl_checks = [m], pl_cpus = 1, pl_unknown_cpu = False, pl_unknown_disk = False,
      pl_disks = [(''fast'', 2048)]\<rparr>"
proof -
  have "size_bytes ''2K'' = Some 2048"
    by (simp add: size_bytes_def size_parts_def unit_power_def is_digit_def digits_val_def digit_val_def Let_def)
  moreover have "volume_pool ''local:disk,size=2K'' = Some ''local''" by code_simp
  moreover have "spec_options ''local:disk,size=2K'' = [(''size'', ''2K'')]" by code_simp
  moreover have "is_disk ''scsi0''" by code_simp
  ultimately show ?thesis
    by (simp add: plan_scan_of_def scan_vm_def capacity_vms_def template_id_def jget_def capacity_config
        template_requirements_def jget_or_def positive_int_def scan_disk_def option_or_def selected_pool_def
        disk_gb_def growth_check_def Let_def)
qed

lemma capacity_run: "report_result (check_plan_capacity capacity_get sample_host capacity_vms 500) \<noteq> Block"
proof -
  have "List.map_filter selected_pool capacity_vms = [''fast'']"
    by (simp add: capacity_vms_def List.map_filter_simps selected_pool_def jget_def)
  then show ?thesis
    by (simp add: check_plan_capacity_def capacity_reads capacity_scan Let_def report_not_block cpu_checks_def
        memory_check_def pool_checks_def pool_usable_def capacity_allowed space_check_def)
qed

theorem capacity_admits_only_fitting_witness:
  "\<exists>free st. mc_free (hc_memory (read_host_capacity capacity_get sample_host)) = Some free
    \<and> st = plan_scan_of capacity_get sample_host
        (memory_check (mc_total (hc_memory (read_host_capacity capacity_get sample_host))) free 500) capacity_vms
    \<and> list_all (pool_fits capacity_get sample_host (read_host_capacity capacity_get sample_host) (pl_disks st))
        (List.map_filter selected_pool capacity_vms)"
  using capacity_admits_only_fitting [OF capacity_run] by blast

end
