(* ===== verification/Reservations.thy ===== *)
theory Reservations
  imports Alloc_Schema Occupancy Vmid_Guard
begin

text \<open>
  Authoring leases (\<open>app/core/allocation_reservations.py\<close>, \<open>app/core/allocation_models.py\<close>):
  the planner \<open>plan\<close> that assigns VMIDs and addresses, the reservation transaction and its
  retry loop, and release. Instants are microseconds of UTC as integers, the SHA-256 digest
  is a parameter, and stored JSON assignments are typed records (\<open>lease_vm\<close>, \<open>claim_vm\<close>)
  that share the part the ledger compares (\<open>vm_core\<close>, \<open>nic_core\<close>).
\<close>

subsection \<open>Rows\<close>

type_synonym instant = int

record nic_core =
  nc_index :: int
  nc_bridge :: string
  nc_ip :: string

record lease_nic = nic_core +
  ln_key :: "string option"
  ln_network :: string
  ln_subnet :: string
  ln_prefix :: nat
  ln_gateway :: "string option"

record 'n vm_core =
  vc_vmid :: int
  vc_nics :: "'n list"

record lease_vm = "lease_nic vm_core" +
  lv_node :: string

record claim_vm = "nic_core vm_core" +
  cv_name :: "json option"

record reservation =
  rv_id :: string
  rv_project :: string
  rv_host :: string
  rv_node_name :: string
  rv_api_url :: "string option"
  rv_token_hash :: string
  rv_assignments :: "lease_vm list"
  rv_expires :: instant
  rv_checked :: instant

record deployment_claim =
  dc_id :: string
  dc_deployment :: string
  dc_project_sha :: string
  dc_host :: string
  dc_api_url :: string
  dc_node_name :: string
  dc_assignments :: "claim_vm list"
  dc_source :: "lease_vm list option"
  dc_created :: instant

subsection \<open>Errors, tokens and ownership\<close>

definition alloc_error :: "string \<Rightarrow> nat \<Rightarrow> exc" where
  "alloc_error code status =
     ApiError \<lparr>ae_status = status, ae_error = ''error'', ae_code = ''ALLOCATION_'' @ code\<rparr>"

definition token_digest :: "(string \<Rightarrow> string) \<Rightarrow> string \<Rightarrow> string res" where
  "token_digest sha256 token =
     (if class_match (\<lambda>c. is_alnum c \<or> c \<in> set ''_-'') 32 128 token
      then Inr (sha256 token) else Inl (alloc_error ''INVALID'' 422))"

definition ownership :: "reservation \<Rightarrow> string \<Rightarrow> string \<Rightarrow> unit res" where
  "ownership row token_hash host_id =
     (if rv_token_hash row \<noteq> token_hash \<or> rv_host row \<noteq> host_id
      then Inl (alloc_error ''OWNERSHIP'' 403) else Inr ())"

fun override_pair :: "json \<Rightarrow> int list option" where
  "override_pair (JList [JInt lo, JInt hi]) =
     (if 100 \<le> lo \<and> lo \<le> hi \<and> hi \<le> 999999999 then Some [lo, hi] else None)"
| "override_pair _ = None"

definition protected_overrides :: "proxmox_host \<Rightarrow> int list list res" where
  "protected_overrides h =
     (let text = (case ph_protected_json h of Some s \<Rightarrow> if s = [] then ''[]'' else s | None \<Rightarrow> ''[]'')
      in case json_loads text of
           Some (JList ps) \<Rightarrow>
             (if length ps \<le> 256 \<and> list_all (\<lambda>p. override_pair p \<noteq> None) ps
              then Inr (map (\<lambda>p. the (override_pair p)) ps)
              else Inl (alloc_error ''INVALID'' 409))
         | _ \<Rightarrow> Inl (alloc_error ''INVALID'' 409))"

subsection \<open>Retained interfaces\<close>

abbreviation nic_identity_required :: exc where
  "nic_identity_required \<equiv> alloc_error ''NIC_IDENTITY_REQUIRED'' 409"

definition network_map :: "alloc_network list \<Rightarrow> string \<Rightarrow> alloc_network option" where
  "network_map ns k = map_of (rev (map (\<lambda>n. (an_id n, n)) ns)) k"

definition same_network :: "lease_nic \<Rightarrow> alloc_network \<Rightarrow> bool" where
  "same_network nic n =
     (ln_network nic = an_id n \<and> nc_bridge nic = an_bridge n \<and> ln_subnet nic = an_subnet n)"

definition retain_legacy ::
    "alloc_vm \<Rightarrow> lease_nic list \<Rightarrow> (string \<Rightarrow> alloc_network option)
       \<Rightarrow> (int \<rightharpoonup> lease_nic) \<Rightarrow> alloc_nic \<Rightarrow> (int \<rightharpoonup> lease_nic) res" where
  "retain_legacy vm previous networks retained nic =
     (if nq_ip nic \<noteq> None then Inr retained
      else bindE (of_opt KeyError (networks (nq_network nic))) (\<lambda>network.
        let explicit = set (map (\<lambda>n. (nq_network n, the (nq_ip n)))
                              (filter (\<lambda>n. nq_ip n \<noteq> None) (vq_nics vm)));
            candidates = filter (\<lambda>item. (ln_network item, nc_ip item) \<notin> explicit
                                   \<and> same_network item network) previous;
            unresolved = length (filter (\<lambda>n. nq_network n = nq_network nic \<and> nq_ip n = None) (vq_nics vm))
        in case candidates of
             [] \<Rightarrow> Inr retained
           | c # cs \<Rightarrow>
               if cs \<noteq> [] \<or> unresolved \<noteq> 1 then Inl nic_identity_required
               else Inr (retained(nq_index nic \<mapsto> c))))"

definition retained_nics ::
    "alloc_vm \<Rightarrow> lease_vm option \<Rightarrow> (string \<Rightarrow> alloc_network option) \<Rightarrow> (int \<rightharpoonup> lease_nic) res" where
  "retained_nics vm old networks =
     (let previous = (case old of Some v \<Rightarrow> vc_nics v | None \<Rightarrow> []);
          keys = given ln_key previous
      in if previous = [] then Inr Map.empty
         else if keys \<noteq> [] \<and> (length keys \<noteq> length previous \<or> \<not> distinct keys)
         then Inl nic_identity_required
         else case vq_nics vm of
           [] \<Rightarrow> Inl IndexError
         | first # _ \<Rightarrow>
             if nq_key first = None
             then (if keys \<noteq> [] then Inl nic_identity_required
                   else Inr (map_of (rev (map (\<lambda>nic. (nc_index nic, nic)) previous))))
             else if keys \<noteq> []
             then Inr (\<lambda>i. case map_of (rev (map (\<lambda>n. (nq_index n, n)) (vq_nics vm))) i of
                     None \<Rightarrow> None
                   | Some n \<Rightarrow> map_of (rev (map (\<lambda>nic. (ln_key nic, nic)) previous)) (nq_key n))
             else foldE (retain_legacy vm previous networks) Map.empty (vq_nics vm))"

subsection \<open>The planner\<close>

definition occupied :: "('n nic_core_scheme, 'v) vm_core_scheme list \<Rightarrow> int set \<times> addr set" where
  "occupied vms =
     (vc_vmid ` set vms, (\<Union>vm \<in> set vms. (\<lambda>n. (nc_bridge n, nc_ip n)) ` set (vc_nics vm)))"

abbreviation ids_of :: "('n nic_core_scheme, 'v) vm_core_scheme list \<Rightarrow> int set" where
  "ids_of vms \<equiv> fst (occupied vms)"

abbreviation addrs_of :: "('n nic_core_scheme, 'v) vm_core_scheme list \<Rightarrow> addr set" where
  "addrs_of vms \<equiv> snd (occupied vms)"

record plan_state =
  ps_ids :: "int set"
  ps_ips :: "addr set"
  ps_fixed_ids :: "string \<rightharpoonup> int"
  ps_fixed_ips :: "(string \<times> int) \<rightharpoonup> string"

record plan_env =
  pe_overrides :: "int list list"
  pe_networks :: "string \<Rightarrow> alloc_network option"
  pe_ids :: "int set"
  pe_ips :: "addr set"

definition unavailable_ids ::
    "reservation list \<Rightarrow> deployment_claim list \<Rightarrow> occupancy \<Rightarrow> int set" where
  "unavailable_ids leases claims occ =
     occ_vmids occ \<union> (\<Union>r \<in> set leases. ids_of (rv_assignments r))
       \<union> (\<Union>c \<in> set claims. ids_of (dc_assignments c))"

definition unavailable_ips ::
    "alloc_network list \<Rightarrow> reservation list \<Rightarrow> deployment_claim list \<Rightarrow> occupancy \<Rightarrow> addr set" where
  "unavailable_ips networks leases claims occ =
     occ_addresses occ \<union> (\<Union>r \<in> set leases. addrs_of (rv_assignments r))
       \<union> (\<Union>c \<in> set claims. addrs_of (dc_assignments c))
       \<union> (\<Union>n \<in> set networks. (\<lambda>ip. (an_bridge n, ip)) ` set (an_reserved n @ gateway_list n))"

definition fix_vmid :: "plan_env \<Rightarrow> alloc_vm \<Rightarrow> lease_vm option \<Rightarrow> plan_state \<Rightarrow> plan_state res" where
  "fix_vmid env vm old st =
     (case (case vq_vmid vm of Some v \<Rightarrow> Some v | None \<Rightarrow> map_option vc_vmid old) of
        None \<Rightarrow> Inr st
      | Some v \<Rightarrow>
          bindE (is_protected v (Some (pe_overrides env))) (\<lambda>p.
            if p then Inl (alloc_error ''PROTECTED'' 409)
            else if v \<in> pe_ids env \<or> v \<in> ps_ids st then Inl (alloc_error ''OCCUPIED'' 409)
            else Inr (st\<lparr>ps_fixed_ids := (ps_fixed_ids st)(vq_node vm \<mapsto> v),
                         ps_ids := insert v (ps_ids st)\<rparr>)))"

definition fixed_ip_of :: "alloc_nic \<Rightarrow> lease_nic option \<Rightarrow> alloc_network \<Rightarrow> string option" where
  "fixed_ip_of nic old network =
     (case nq_ip nic of
        Some i \<Rightarrow> Some i
      | None \<Rightarrow> (case old of
          Some o' \<Rightarrow> if same_network o' network then Some (nc_ip o') else None
        | None \<Rightarrow> None))"

definition fix_nic ::
    "plan_env \<Rightarrow> alloc_vm \<Rightarrow> (int \<rightharpoonup> lease_nic) \<Rightarrow> plan_state \<Rightarrow> alloc_nic \<Rightarrow> plan_state res" where
  "fix_nic env vm old_nics st nic =
     bindE (of_opt KeyError (pe_networks env (nq_network nic))) (\<lambda>network.
       case fixed_ip_of nic (old_nics (nq_index nic)) network of
         None \<Rightarrow> Inr st
       | Some ip \<Rightarrow>
           bindE (of_opt ValueError (parse_network (an_subnet network))) (\<lambda>subnet.
           bindE (of_opt ValueError (parse_ipv4 ip)) (\<lambda>address.
             if \<not> usable_in address subnet then Inl (alloc_error ''INVALID'' 409)
             else let pair = (an_bridge network, ip) in
               if pair \<in> pe_ips env \<or> pair \<in> ps_ips st then Inl (alloc_error ''OCCUPIED'' 409)
               else Inr (st\<lparr>ps_fixed_ips := (ps_fixed_ips st)((vq_node vm, nq_index nic) \<mapsto> ip),
                            ps_ips := insert pair (ps_ips st)\<rparr>))))"

definition fix_vm ::
    "plan_env \<Rightarrow> (string \<rightharpoonup> lease_vm) \<Rightarrow> plan_state \<Rightarrow> alloc_vm \<Rightarrow> plan_state res" where
  "fix_vm env previous st vm =
     bindE (fix_vmid env vm (previous (vq_node vm)) st) (\<lambda>st1.
     bindE (retained_nics vm (previous (vq_node vm)) (pe_networks env)) (\<lambda>old_nics.
       foldE (fix_nic env vm old_nics) st1 (vq_nics vm)))"

definition choose_vmid ::
    "plan_env \<Rightarrow> int \<Rightarrow> int \<Rightarrow> plan_state \<Rightarrow> alloc_vm \<Rightarrow> (int \<times> plan_state) res" where
  "choose_vmid env lo hi st vm =
     (case ps_fixed_ids st (vq_node vm) of
        Some v \<Rightarrow> Inr (v, st)
      | None \<Rightarrow>
          bindE (scan (\<lambda>c. if c \<notin> pe_ids env \<and> c \<notin> ps_ids st
                           then bindE (is_protected c (Some (pe_overrides env))) (\<lambda>p. Inr (\<not> p))
                           else Inr False)
                   lo (min (hi + 1) (lo + 100000)))
            (\<lambda>r. case r of
               None \<Rightarrow> Inl (alloc_error ''POOL_EXHAUSTED'' 409)
             | Some v \<Rightarrow> Inr (v, st\<lparr>ps_ids := insert v (ps_ids st)\<rparr>)))"

definition choose_ip ::
    "plan_env \<Rightarrow> plan_state \<Rightarrow> alloc_vm \<Rightarrow> alloc_nic \<Rightarrow> alloc_network \<Rightarrow> ipnet \<Rightarrow> (string \<times> plan_state) res" where
  "choose_ip env st vm nic network subnet =
     (case ps_fixed_ips st (vq_node vm, nq_index nic) of
        Some ip \<Rightarrow> Inr (ip, st)
      | None \<Rightarrow>
          bindE (scan (\<lambda>i. let pair = (an_bridge network, ip_str (host_at subnet (nat i)))
                           in Inr (pair \<notin> pe_ips env \<and> pair \<notin> ps_ips st))
                   0 (min 4096 (int (host_count subnet))))
            (\<lambda>r. case r of
               None \<Rightarrow> Inl (alloc_error ''POOL_EXHAUSTED'' 409)
             | Some i \<Rightarrow>
                 let ip = ip_str (host_at subnet (nat i))
                 in Inr (ip, st\<lparr>ps_ips := insert (an_bridge network, ip) (ps_ips st)\<rparr>)))"

definition assign_nic ::
    "plan_env \<Rightarrow> alloc_vm \<Rightarrow> plan_state \<times> lease_nic list \<Rightarrow> alloc_nic \<Rightarrow> (plan_state \<times> lease_nic list) res" where
  "assign_nic env vm acc nic =
     bindE (of_opt KeyError (pe_networks env (nq_network nic))) (\<lambda>network.
     bindE (of_opt ValueError (parse_network (an_subnet network))) (\<lambda>subnet.
     bindE (choose_ip env (fst acc) vm nic network subnet) (\<lambda>(ip, st).
       Inr (st, snd acc @
         [\<lparr>nc_index = nq_index nic, nc_bridge = an_bridge network, nc_ip = ip,
           ln_key = nq_key nic, ln_network = an_id network, ln_subnet = an_subnet network,
           ln_prefix = net_plen subnet, ln_gateway = an_gateway network\<rparr>]))))"

definition assign_vm ::
    "plan_env \<Rightarrow> int \<Rightarrow> int \<Rightarrow> plan_state \<times> lease_vm list \<Rightarrow> alloc_vm \<Rightarrow> (plan_state \<times> lease_vm list) res" where
  "assign_vm env lo hi acc vm =
     bindE (choose_vmid env lo hi (fst acc) vm) (\<lambda>(v, st).
     bindE (foldE (assign_nic env vm) (st, []) (sort_key nq_index (vq_nics vm))) (\<lambda>(st', nics).
       Inr (st', snd acc @ [\<lparr>vc_vmid = v, vc_nics = nics, lv_node = vq_node vm\<rparr>])))"

definition previous_map :: "reservation option \<Rightarrow> string \<rightharpoonup> lease_vm" where
  "previous_map current =
     (case current of None \<Rightarrow> Map.empty
      | Some r \<Rightarrow> map_of (rev (map (\<lambda>vm. (lv_node vm, vm)) (rv_assignments r))))"

definition other_leases :: "reservation option \<Rightarrow> reservation list \<Rightarrow> reservation list" where
  "other_leases current leases =
     (case current of None \<Rightarrow> leases | Some c \<Rightarrow> filter (\<lambda>r. rv_id r \<noteq> rv_id c) leases)"

definition other_claims :: "reservation option \<Rightarrow> deployment_claim list \<Rightarrow> deployment_claim list" where
  "other_claims current claims =
     (case current of None \<Rightarrow> claims | Some c \<Rightarrow> filter (\<lambda>r. dc_id r \<noteq> rv_id c) claims)"

definition plan_env_of ::
    "alloc_request \<Rightarrow> int list list \<Rightarrow> reservation list \<Rightarrow> deployment_claim list \<Rightarrow> reservation option
       \<Rightarrow> occupancy \<Rightarrow> plan_env" where
  "plan_env_of payload overrides leases claims current occ =
     \<lparr>pe_overrides = overrides, pe_networks = network_map (rq_networks payload),
      pe_ids = unavailable_ids (other_leases current leases) (other_claims current claims) occ,
      pe_ips = unavailable_ips (rq_networks payload) (other_leases current leases)
                 (other_claims current claims) occ\<rparr>"

definition plan ::
    "alloc_request \<Rightarrow> proxmox_host \<Rightarrow> reservation list \<Rightarrow> deployment_claim list \<Rightarrow> reservation option
       \<Rightarrow> occupancy \<Rightarrow> lease_vm list res" where
  "plan payload host leases claims current occ =
     bindE (protected_overrides host) (\<lambda>overrides.
       let env = plan_env_of payload overrides leases claims current occ in
       bindE (foldE (fix_vm env (previous_map current))
                \<lparr>ps_ids = {}, ps_ips = {}, ps_fixed_ids = Map.empty, ps_fixed_ips = Map.empty\<rparr>
                (rq_vms payload)) (\<lambda>st.
       bindE (foldE (assign_vm env (rq_vmid_start payload) (rq_vmid_end payload)) (st, []) (rq_vms payload))
         (\<lambda>(st', assignments). Inr assignments)))"

end
