(* ===== verification/Plan_Correct.thy ===== *)
theory Plan_Correct
  imports Reservations
begin

text \<open>
  Correctness of the reservation planner. Both resources it hands out, VMIDs and
  bridge/address pairs, follow one scheme: manual and retained values are fixed first, then
  every key draws its fixed value or a fresh one. \<open>draws\<close> states that scheme once;
  \<open>draws_distinct\<close> gives the uniqueness of what is drawn, and the two folds of the planner
  are shown to be draws.
\<close>

subsection \<open>Drawing resources for keys\<close>

inductive draws :: "('k \<rightharpoonup> 'r) \<Rightarrow> 'r set \<Rightarrow> 'k list \<Rightarrow> 'r list \<Rightarrow> 'r set \<Rightarrow> bool" for F where
  draw_none: "draws F C [] [] C"
| draw_fixed: "F k = Some r \<Longrightarrow> draws F C ks rs C' \<Longrightarrow> draws F C (k # ks) (r # rs) C'"
| draw_fresh: "F k = None \<Longrightarrow> r \<notin> C \<Longrightarrow> draws F (insert r C) ks rs C'
    \<Longrightarrow> draws F C (k # ks) (r # rs) C'"

inductive_cases draws_ConsE: "draws F C (k # ks) rs C'"

lemma draws_append:
  "draws F C ks rs C' \<Longrightarrow> draws F C' ks' rs' C'' \<Longrightarrow> draws F C (ks @ ks') (rs @ rs') C''"
  by (induction rule: draws.induct) (auto intro: draws.intros)

lemma draws_grow: "draws F C ks rs C' \<Longrightarrow> ran F \<subseteq> C \<Longrightarrow> C' = C \<union> set rs"
  by (induction rule: draws.induct) (auto simp: ran_def)

lemma draws_origin:
  "draws F C ks rs C' \<Longrightarrow> r \<in> set rs \<Longrightarrow> r \<notin> C \<or> (\<exists>k \<in> set ks. F k = Some r)"
  by (induction rule: draws.induct) auto

definition inj_map :: "('k \<rightharpoonup> 'r) \<Rightarrow> bool" where
  "inj_map F = (\<forall>k k' r. F k = Some r \<longrightarrow> F k' = Some r \<longrightarrow> k = k')"

lemma draws_distinct:
  "draws F C ks rs C' \<Longrightarrow> inj_map F \<Longrightarrow> ran F \<subseteq> C \<Longrightarrow> distinct ks \<Longrightarrow> distinct rs"
proof (induction rule: draws.induct)
  case (draw_fixed k r C ks rs C')
  have "r \<notin> set rs"
  proof
    assume "r \<in> set rs"
    then obtain k' where "k' \<in> set ks" "F k' = Some r"
      using draws_origin draw_fixed by (metis ranI subsetD)
    then show False using draw_fixed.prems draw_fixed.hyps by (auto simp: inj_map_def)
  qed
  with draw_fixed show ?case by simp
next
  case (draw_fresh k r C ks rs C')
  have "r \<notin> set rs"
  proof
    assume "r \<in> set rs"
    then obtain k' where "F k' = Some r"
      using draws_origin [OF draw_fresh.hyps(3)] by auto
    then show False using draw_fresh by (auto simp: ran_def)
  qed
  with draw_fresh show ?case by auto
qed simp

lemma draws_length: "draws F C ks rs C' \<Longrightarrow> length rs = length ks"
  by (induction rule: draws.induct) auto

subsection \<open>Keys of a payload\<close>

definition nic_keys :: "alloc_vm \<Rightarrow> (string \<times> int) list" where
  "nic_keys vm = map (\<lambda>n. (vq_node vm, nq_index n)) (sort_key nq_index (vq_nics vm))"

definition payload_keys :: "alloc_vm list \<Rightarrow> (string \<times> int) list" where
  "payload_keys vms = concat (map nic_keys vms)"

definition network_of_key ::
    "(string \<Rightarrow> alloc_network option) \<Rightarrow> alloc_vm list \<Rightarrow> string \<times> int \<Rightarrow> alloc_network option" where
  "network_of_key networks vms k =
     (case map_of (concat (map (\<lambda>vm. map (\<lambda>n. ((vq_node vm, nq_index n), n)) (vq_nics vm)) vms)) k of
        None \<Rightarrow> None | Some n \<Rightarrow> networks (nq_network n))"

definition nic_pair :: "'n nic_core_scheme \<Rightarrow> addr" where
  "nic_pair n = (nc_bridge n, nc_ip n)"

lemma distinct_payload_keys:
  "distinct (map vq_node vms) \<Longrightarrow> (\<And>vm. vm \<in> set vms \<Longrightarrow> distinct (map nq_index (vq_nics vm)))
   \<Longrightarrow> distinct (payload_keys vms)"
proof (induction vms)
  case Nil
  then show ?case by (simp add: payload_keys_def)
next
  case (Cons vm vms)
  have "distinct (map nq_index (sort_key nq_index (vq_nics vm)))"
    using Cons.prems(2) [of vm] by (simp add: distinct_map)
  then have "distinct (nic_keys vm)"
    by (auto simp: nic_keys_def distinct_map inj_on_def)
  then show ?case
    using Cons by (auto simp: payload_keys_def nic_keys_def)
qed

lemma network_of_key:
  assumes "distinct (map vq_node vms)" and "\<And>vm. vm \<in> set vms \<Longrightarrow> distinct (map nq_index (vq_nics vm))"
    and "vm \<in> set vms" and "nic \<in> set (vq_nics vm)"
  shows "network_of_key networks vms (vq_node vm, nq_index nic) = networks (nq_network nic)"
proof -
  let ?L = "concat (map (\<lambda>vm. map (\<lambda>n. ((vq_node vm, nq_index n), n)) (vq_nics vm)) vms)"
  have "distinct (map fst ?L)"
    using assms(1,2)
  proof (induction vms)
    case Nil
    then show ?case by simp
  next
    case (Cons v vs)
    have "distinct (map nq_index (vq_nics v))" using Cons.prems(2) by simp
    then have "distinct (map (\<lambda>n. (vq_node v, nq_index n)) (vq_nics v))"
      by (auto simp: distinct_map inj_on_def)
    then show ?case using Cons by (auto simp: comp_def)
  qed
  moreover have "((vq_node vm, nq_index nic), nic) \<in> set ?L"
    using assms(3,4) by auto
  ultimately show ?thesis by (simp add: network_of_key_def)
qed

subsection \<open>Fixing manual and retained values\<close>

definition usable_ip :: "alloc_network \<Rightarrow> string \<Rightarrow> bool" where
  "usable_ip nw ip = (\<exists>subnet a. parse_network (an_subnet nw) = Some subnet
     \<and> parse_ipv4 ip = Some a \<and> usable_in a subnet)"

definition fixed_pairs ::
    "(string \<times> int \<Rightarrow> alloc_network option) \<Rightarrow> plan_state \<Rightarrow> string \<times> int \<rightharpoonup> addr" where
  "fixed_pairs nk st k =
     (case (ps_fixed_ips st k, nk k) of
        (Some ip, Some nw) \<Rightarrow> Some (an_bridge nw, ip) | _ \<Rightarrow> None)"

definition fixed_inv ::
    "plan_env \<Rightarrow> (string \<times> int \<Rightarrow> alloc_network option) \<Rightarrow> plan_state \<Rightarrow> bool" where
  "fixed_inv env nk st =
     (inj_map (ps_fixed_ids st) \<and> ran (ps_fixed_ids st) \<subseteq> ps_ids st
      \<and> ps_ids st \<inter> pe_ids env = {}
      \<and> (\<forall>v \<in> ps_ids st. \<not> protected_id (Some (pe_overrides env)) v)
      \<and> inj_map (fixed_pairs nk st) \<and> ran (fixed_pairs nk st) \<subseteq> ps_ips st
      \<and> ps_ips st \<inter> pe_ips env = {}
      \<and> (\<forall>k ip. ps_fixed_ips st k = Some ip \<longrightarrow> (\<exists>nw. nk k = Some nw \<and> usable_ip nw ip)))"

definition keyed :: "plan_env \<Rightarrow> (string \<times> int \<Rightarrow> alloc_network option) \<Rightarrow> alloc_vm \<Rightarrow> bool" where
  "keyed env nk vm =
     (\<forall>nic \<in> set (vq_nics vm). nk (vq_node vm, nq_index nic) = pe_networks env (nq_network nic))"

lemma inj_map_upd:
  "inj_map F \<Longrightarrow> r \<notin> ran F \<Longrightarrow> inj_map (F(k \<mapsto> r))"
  by (auto simp: inj_map_def ran_def)

lemma ran_upd_subset: "ran F \<subseteq> C \<Longrightarrow> ran (F(k \<mapsto> r)) \<subseteq> insert r C"
  by (auto simp: ran_def)

lemma fixed_pairs_upd:
  "nk k = Some nw \<Longrightarrow>
   fixed_pairs nk (st\<lparr>ps_fixed_ips := (ps_fixed_ips st)(k \<mapsto> ip)\<rparr>)
     = (fixed_pairs nk st)(k \<mapsto> (an_bridge nw, ip))"
  by (auto simp: fixed_pairs_def fun_eq_iff)

lemma fixed_pairs_frame [simp]:
  "fixed_pairs nk (st\<lparr>ps_ids := A\<rparr>) = fixed_pairs nk st"
  "fixed_pairs nk (st\<lparr>ps_ips := X\<rparr>) = fixed_pairs nk st"
  "fixed_pairs nk (st\<lparr>ps_fixed_ids := F\<rparr>) = fixed_pairs nk st"
  by (auto simp: fixed_pairs_def fun_eq_iff)

lemma fix_vmid_inv:
  assumes "fix_vmid env vm old st = Inr st'" and "fixed_inv env nk st"
    and ov: "pairs_ok (Some (pe_overrides env))"
  shows "fixed_inv env nk st'"
proof (cases "case vq_vmid vm of Some v \<Rightarrow> Some v | None \<Rightarrow> map_option vc_vmid old")
  case None
  with assms show ?thesis by (simp add: fix_vmid_def)
next
  case (Some v)
  with assms(1) ov have v: "\<not> protected_id (Some (pe_overrides env)) v" "v \<notin> pe_ids env" "v \<notin> ps_ids st"
    and st': "st' = st\<lparr>ps_fixed_ids := (ps_fixed_ids st)(vq_node vm \<mapsto> v), ps_ids := insert v (ps_ids st)\<rparr>"
    by (auto simp: fix_vmid_def is_protected_pairs split: if_splits)
  have "v \<notin> ran (ps_fixed_ids st)" using v(3) assms(2) by (auto simp: fixed_inv_def)
  then show ?thesis
    using v assms(2) unfolding st'
    by (auto simp: fixed_inv_def intro!: inj_map_upd dest: ran_upd_subset [THEN subsetD, rotated])
qed

lemma fix_nic_inv:
  assumes f: "fix_nic env vm old_nics st nic = Inr st'" and inv: "fixed_inv env nk st"
    and nk: "nk (vq_node vm, nq_index nic) = pe_networks env (nq_network nic)"
  shows "fixed_inv env nk st'"
proof -
  from f obtain nw where nw: "pe_networks env (nq_network nic) = Some nw"
    by (auto simp: fix_nic_def res_simps)
  show ?thesis
  proof (cases "fixed_ip_of nic (old_nics (nq_index nic)) nw")
    case None
    with f nw inv show ?thesis by (simp add: fix_nic_def)
  next
    case (Some ip)
    let ?k = "(vq_node vm, nq_index nic)" and ?p = "(an_bridge nw, ip)"
    from f nw Some have u: "usable_ip nw ip" and p: "?p \<notin> pe_ips env" "?p \<notin> ps_ips st"
      and st': "st' = st\<lparr>ps_fixed_ips := (ps_fixed_ips st)(?k \<mapsto> ip), ps_ips := insert ?p (ps_ips st)\<rparr>"
      by (auto simp: fix_nic_def res_simps usable_ip_def Let_def split: if_splits)
    have "?p \<notin> ran (fixed_pairs nk st)" using p(2) inv by (auto simp: fixed_inv_def)
    moreover have k: "nk ?k = Some nw" using nk nw by simp
    moreover have "fixed_pairs nk st' = (fixed_pairs nk st)(?k \<mapsto> ?p)"
      unfolding st' fixed_pairs_frame by (rule fixed_pairs_upd [where nk = nk, OF k])
    ultimately show ?thesis
      using p u inv unfolding fixed_inv_def
      by (auto simp: st' intro!: inj_map_upd dest: ran_upd_subset [THEN subsetD, rotated])
  qed
qed

lemma fix_vm_inv:
  assumes "fix_vm env previous st vm = Inr st'" and "fixed_inv env nk st"
    and "keyed env nk vm" and "pairs_ok (Some (pe_overrides env))"
  shows "fixed_inv env nk st'"
proof -
  from assms(1) obtain st1 old where s1: "fix_vmid env vm (previous (vq_node vm)) st = Inr st1"
    and s2: "foldE (fix_nic env vm old) st1 (vq_nics vm) = Inr st'"
    by (auto simp: fix_vm_def res_simps)
  have "fixed_inv env nk st1" using s1 assms(2,4) by (rule fix_vmid_inv)
  then show ?thesis
    by (rule foldE_invariant [where P = "fixed_inv env nk", OF s2]) (use assms(3) in \<open>auto simp: keyed_def intro: fix_nic_inv\<close>)
qed

lemma fix_all_inv:
  assumes "foldE (fix_vm env previous) st vms = Inr st'" and "fixed_inv env nk st"
    and "\<forall>vm \<in> set vms. keyed env nk vm" and "pairs_ok (Some (pe_overrides env))"
  shows "fixed_inv env nk st'"
  by (rule foldE_invariant [where P = "fixed_inv env nk", OF assms(1,2)]) (use assms(3,4) in \<open>auto intro: fix_vm_inv\<close>)

lemma fixed_inv_init:
  "fixed_inv env nk \<lparr>ps_ids = {}, ps_ips = {}, ps_fixed_ids = Map.empty, ps_fixed_ips = Map.empty\<rparr>"
  by (simp add: fixed_inv_def inj_map_def fixed_pairs_def ran_def)

subsection \<open>Assigning the rest\<close>

definition nic_matches ::
    "plan_env \<Rightarrow> plan_state \<Rightarrow> alloc_vm \<Rightarrow> alloc_nic \<Rightarrow> lease_nic \<Rightarrow> bool" where
  "nic_matches env st vm nic out =
     (\<exists>nw subnet. pe_networks env (nq_network nic) = Some nw \<and> parse_network (an_subnet nw) = Some subnet
        \<and> nc_index out = nq_index nic \<and> ln_key out = nq_key nic \<and> nc_bridge out = an_bridge nw
        \<and> ln_network out = an_id nw \<and> ln_subnet out = an_subnet nw \<and> ln_prefix out = net_plen subnet
        \<and> ln_gateway out = an_gateway nw \<and> usable_ip nw (nc_ip out)
        \<and> (\<forall>ip. ps_fixed_ips st (vq_node vm, nq_index nic) = Some ip \<longrightarrow> nc_ip out = ip))"

definition networks_ok :: "plan_env \<Rightarrow> bool" where
  "networks_ok env = (\<forall>i nw. pe_networks env i = Some nw \<longrightarrow> valid_network nw)"

lemma host_usable_ip:
  assumes "valid_network nw" and s: "parse_network (an_subnet nw) = Some subnet" and "i < host_count subnet"
  shows "usable_ip nw (ip_str (host_at subnet i))"
proof -
  have p: "net_plen subnet \<le> 30" using valid_network_parse [OF assms(1)] s by auto
  have u: "usable_in (host_at subnet i) subnet" by (rule host_usable [OF p assms(3)])
  then have "host_at subnet i < 4294967296"
    using parse_network_bounds(2) [OF s] by (auto simp: usable_in_def in_net_def)
  then show ?thesis using u s by (auto simp: usable_ip_def parse_ip_str)
qed

lemma choose_ip_draw:
  assumes c: "choose_ip env st vm nic nw subnet = Inr (ip, st')"
    and k: "nk (vq_node vm, nq_index nic) = Some nw"
    and s: "parse_network (an_subnet nw) = Some subnet" and nw: "valid_network nw"
    and inv: "\<forall>k ip. ps_fixed_ips st k = Some ip \<longrightarrow> (\<exists>nw. nk k = Some nw \<and> usable_ip nw ip)"
    and free: "ps_ips st \<inter> pe_ips env = {}"
  shows "\<exists>X. st' = st\<lparr>ps_ips := X\<rparr> \<and> X \<inter> pe_ips env = {}
     \<and> draws (fixed_pairs nk st) (ps_ips st) [(vq_node vm, nq_index nic)] [(an_bridge nw, ip)] X
     \<and> usable_ip nw ip
     \<and> (\<forall>i. ps_fixed_ips st (vq_node vm, nq_index nic) = Some i \<longrightarrow> ip = i)"
proof (cases "ps_fixed_ips st (vq_node vm, nq_index nic)")
  case (Some i)
  with c have "ip = i" "st' = st" by (auto simp: choose_ip_def)
  moreover have "fixed_pairs nk st (vq_node vm, nq_index nic) = Some (an_bridge nw, i)"
    using Some k by (simp add: fixed_pairs_def)
  moreover have "usable_ip nw i" using inv Some k by force
  ultimately show ?thesis
    using Some free by (intro exI [of _ "ps_ips st"]) (auto intro: draws.intros)
next
  case None
  let ?ok = "\<lambda>i. Inr ((an_bridge nw, ip_str (host_at subnet (nat i))) \<notin> pe_ips env
      \<and> (an_bridge nw, ip_str (host_at subnet (nat i))) \<notin> ps_ips st) :: bool res"
  from c None obtain i where i: "scan ?ok 0 (min 4096 (int (host_count subnet))) = Inr (Some i)"
    and ip: "ip = ip_str (host_at subnet (nat i))"
    and st': "st' = st\<lparr>ps_ips := insert (an_bridge nw, ip) (ps_ips st)\<rparr>"
    by (auto simp: choose_ip_def res_simps Let_def split: option.splits)
  from scan_Some [OF i] have b: "0 \<le> i" "i < int (host_count subnet)"
    and f: "(an_bridge nw, ip) \<notin> pe_ips env" "(an_bridge nw, ip) \<notin> ps_ips st"
    by (auto simp: ip)
  have "nat i < host_count subnet" using b by simp
  then have "usable_ip nw ip" unfolding ip by (rule host_usable_ip [OF nw s])
  moreover have "fixed_pairs nk st (vq_node vm, nq_index nic) = None"
    using None by (simp add: fixed_pairs_def)
  ultimately show ?thesis
    using f free None st' by (auto intro: draws.intros)
qed

lemma assign_nic_draw:
  assumes a: "assign_nic env vm (st, out) nic = Inr (st', out')"
    and k: "nk (vq_node vm, nq_index nic) = pe_networks env (nq_network nic)"
    and nw: "networks_ok env"
    and inv: "\<forall>k ip. ps_fixed_ips st k = Some ip \<longrightarrow> (\<exists>nw. nk k = Some nw \<and> usable_ip nw ip)"
    and free: "ps_ips st \<inter> pe_ips env = {}"
  shows "\<exists>X n. st' = st\<lparr>ps_ips := X\<rparr> \<and> out' = out @ [n] \<and> X \<inter> pe_ips env = {}
     \<and> draws (fixed_pairs nk st) (ps_ips st) [(vq_node vm, nq_index nic)] [nic_pair n] X
     \<and> nic_matches env st vm nic n"
proof -
  from a obtain network subnet ip where n: "pe_networks env (nq_network nic) = Some network"
    and s: "parse_network (an_subnet network) = Some subnet"
    and c: "choose_ip env st vm nic network subnet = Inr (ip, st')"
    and out': "out' = out @ [\<lparr>nc_index = nq_index nic, nc_bridge = an_bridge network, nc_ip = ip,
           ln_key = nq_key nic, ln_network = an_id network, ln_subnet = an_subnet network,
           ln_prefix = net_plen subnet, ln_gateway = an_gateway network\<rparr>]"
    by (auto simp: assign_nic_def res_simps)
  have v: "valid_network network" using nw n by (auto simp: networks_ok_def)
  from choose_ip_draw [OF c _ s v inv free] k n
  obtain X where X: "st' = st\<lparr>ps_ips := X\<rparr>" "X \<inter> pe_ips env = {}"
    "draws (fixed_pairs nk st) (ps_ips st) [(vq_node vm, nq_index nic)] [(an_bridge network, ip)] X"
    "usable_ip network ip" "\<forall>i. ps_fixed_ips st (vq_node vm, nq_index nic) = Some i \<longrightarrow> ip = i"
    by auto
  then show ?thesis
    using out' n s by (auto simp: nic_matches_def nic_pair_def)
qed

lemma nic_matches_frame [simp]:
  "nic_matches env (st\<lparr>ps_ips := X\<rparr>) = nic_matches env st"
  by (simp add: nic_matches_def fun_eq_iff)

lemma assign_nics_draw:
  assumes "foldE (assign_nic env vm) (st, out) nics = Inr (st', out')"
    and "\<forall>nic \<in> set nics. nk (vq_node vm, nq_index nic) = pe_networks env (nq_network nic)"
    and nw: "networks_ok env"
    and "\<forall>k ip. ps_fixed_ips st k = Some ip \<longrightarrow> (\<exists>nw. nk k = Some nw \<and> usable_ip nw ip)"
    and "ps_ips st \<inter> pe_ips env = {}"
  shows "\<exists>X new. st' = st\<lparr>ps_ips := X\<rparr> \<and> out' = out @ new \<and> X \<inter> pe_ips env = {}
     \<and> draws (fixed_pairs nk st) (ps_ips st) (map (\<lambda>n. (vq_node vm, nq_index n)) nics) (map nic_pair new) X
     \<and> list_all2 (nic_matches env st vm) nics new"
  using assms(1,2,4,5)
proof (induction nics arbitrary: st out)
  case Nil
  then show ?case
    by (intro exI [of _ "ps_ips st"] exI [of _ "[]"]) (auto intro: draws.intros)
next
  case (Cons nic nics)
  from Cons.prems(1) obtain st1 out1 where a: "assign_nic env vm (st, out) nic = Inr (st1, out1)"
    and r: "foldE (assign_nic env vm) (st1, out1) nics = Inr (st', out')"
    by (auto simp: res_simps)
  have k: "nk (vq_node vm, nq_index nic) = pe_networks env (nq_network nic)"
    using Cons.prems(2) by simp
  from assign_nic_draw [where nk = nk, OF a k nw Cons.prems(3,4)] obtain Y n where
    st1: "st1 = st\<lparr>ps_ips := Y\<rparr>" and Y: "out1 = out @ [n]" "Y \<inter> pe_ips env = {}"
    "draws (fixed_pairs nk st) (ps_ips st) [(vq_node vm, nq_index nic)] [nic_pair n] Y"
    "nic_matches env st vm nic n" by blast
  have "\<exists>X new. st' = st1\<lparr>ps_ips := X\<rparr> \<and> out' = out1 @ new \<and> X \<inter> pe_ips env = {}
     \<and> draws (fixed_pairs nk st1) (ps_ips st1) (map (\<lambda>n. (vq_node vm, nq_index n)) nics) (map nic_pair new) X
     \<and> list_all2 (nic_matches env st1 vm) nics new"
    by (rule Cons.IH [OF r]) (use Cons.prems(2,3) Y(2) st1 in auto)
  then obtain X new where X: "st' = st\<lparr>ps_ips := X\<rparr>" "out' = out1 @ new" "X \<inter> pe_ips env = {}"
    "draws (fixed_pairs nk st) Y (map (\<lambda>n. (vq_node vm, nq_index n)) nics) (map nic_pair new) X"
    "list_all2 (nic_matches env st vm) nics new"
    by (auto simp: st1)
  then show ?case
    using Y draws_append [OF Y(3) X(4)]
    by (intro exI [of _ X] exI [of _ "n # new"]) auto
qed

lemma choose_vmid_draw:
  assumes c: "choose_vmid env lo hi st vm = Inr (v, st')"
    and ov: "pairs_ok (Some (pe_overrides env))"
    and free: "ps_ids st \<inter> pe_ids env = {}" "\<forall>v \<in> ps_ids st. \<not> protected_id (Some (pe_overrides env)) v"
  shows "\<exists>I. st' = st\<lparr>ps_ids := I\<rparr> \<and> I \<inter> pe_ids env = {} \<and> (\<forall>v \<in> I. \<not> protected_id (Some (pe_overrides env)) v)
     \<and> draws (ps_fixed_ids st) (ps_ids st) [vq_node vm] [v] I
     \<and> (case ps_fixed_ids st (vq_node vm) of Some w \<Rightarrow> v = w | None \<Rightarrow> lo \<le> v \<and> v \<le> hi)"
proof (cases "ps_fixed_ids st (vq_node vm)")
  case (Some w)
  with c show ?thesis
    using free by (intro exI [of _ "ps_ids st"]) (auto simp: choose_vmid_def intro: draws.intros)
next
  case None
  let ?ok = "\<lambda>c. if c \<notin> pe_ids env \<and> c \<notin> ps_ids st
      then bindE (is_protected c (Some (pe_overrides env))) (\<lambda>p. Inr (\<not> p)) else Inr False :: bool res"
  from c None have i: "scan ?ok lo (min (hi + 1) (lo + 100000)) = Inr (Some v)"
    and st': "st' = st\<lparr>ps_ids := insert v (ps_ids st)\<rparr>"
    by (auto simp: choose_vmid_def res_simps split: option.splits)
  from scan_Some [OF i] have b: "lo \<le> v" "v \<le> hi" and f: "v \<notin> pe_ids env" "v \<notin> ps_ids st"
    "\<not> protected_id (Some (pe_overrides env)) v"
    by (auto simp: is_protected_pairs [OF ov] split: if_splits)
  then show ?thesis
    using free None st' by (auto intro: draws.intros)
qed

definition vm_matches ::
    "plan_env \<Rightarrow> int \<Rightarrow> int \<Rightarrow> plan_state \<Rightarrow> alloc_vm \<Rightarrow> lease_vm \<Rightarrow> bool" where
  "vm_matches env lo hi st vm out =
     (lv_node out = vq_node vm
      \<and> (case ps_fixed_ids st (vq_node vm) of
           Some w \<Rightarrow> vc_vmid out = w | None \<Rightarrow> lo \<le> vc_vmid out \<and> vc_vmid out \<le> hi)
      \<and> list_all2 (nic_matches env st vm) (sort_key nq_index (vq_nics vm)) (vc_nics out))"

definition all_pairs :: "('n nic_core_scheme, 'v) vm_core_scheme list \<Rightarrow> addr list" where
  "all_pairs vms = concat (map (\<lambda>vm. map nic_pair (vc_nics vm)) vms)"

lemma nic_matches_ids [simp]: "nic_matches env (st\<lparr>ps_ids := I\<rparr>) = nic_matches env st"
  by (simp add: nic_matches_def fun_eq_iff)

lemma matches_frame [simp]:
  "vm_matches env lo hi (st\<lparr>ps_ids := I\<rparr>) = vm_matches env lo hi st"
  "vm_matches env lo hi (st\<lparr>ps_ips := X\<rparr>) = vm_matches env lo hi st"
  by (simp_all add: vm_matches_def fun_eq_iff)

definition assign_inv ::
    "plan_env \<Rightarrow> (string \<times> int \<Rightarrow> alloc_network option) \<Rightarrow> plan_state \<Rightarrow> bool" where
  "assign_inv env nk st =
     (ps_ids st \<inter> pe_ids env = {} \<and> ps_ips st \<inter> pe_ips env = {}
      \<and> (\<forall>v \<in> ps_ids st. \<not> protected_id (Some (pe_overrides env)) v)
      \<and> (\<forall>k ip. ps_fixed_ips st k = Some ip \<longrightarrow> (\<exists>nw. nk k = Some nw \<and> usable_ip nw ip)))"

definition assigned ::
    "plan_env \<Rightarrow> (string \<times> int \<Rightarrow> alloc_network option) \<Rightarrow> int \<Rightarrow> int \<Rightarrow> plan_state \<Rightarrow> alloc_vm list
       \<Rightarrow> lease_vm list \<Rightarrow> int set \<Rightarrow> addr set \<Rightarrow> bool" where
  "assigned env nk lo hi st vms new I X =
     (assign_inv env nk (st\<lparr>ps_ids := I, ps_ips := X\<rparr>)
      \<and> draws (ps_fixed_ids st) (ps_ids st) (map vq_node vms) (map vc_vmid new) I
      \<and> draws (fixed_pairs nk st) (ps_ips st) (payload_keys vms) (all_pairs new) X
      \<and> list_all2 (vm_matches env lo hi st) vms new)"

lemma assigned_append:
  "assigned env nk lo hi st vms new I X \<Longrightarrow>
   assigned env nk lo hi (st\<lparr>ps_ids := I, ps_ips := X\<rparr>) vms' new' I' X' \<Longrightarrow>
   assigned env nk lo hi st (vms @ vms') (new @ new') I' X'"
  by (auto simp: assigned_def payload_keys_def all_pairs_def intro: draws_append list_all2_appendI)

lemma assign_vm_draw:
  assumes a: "assign_vm env lo hi (st, out) vm = Inr (st', out')"
    and k: "keyed env nk vm" and nw: "networks_ok env" and ov: "pairs_ok (Some (pe_overrides env))"
    and inv: "assign_inv env nk st"
  shows "\<exists>I X n. st' = st\<lparr>ps_ids := I, ps_ips := X\<rparr> \<and> out' = out @ [n] \<and> assigned env nk lo hi st [vm] [n] I X"
proof -
  from a obtain v st1 nics where c: "choose_vmid env lo hi st vm = Inr (v, st1)"
    and f: "foldE (assign_nic env vm) (st1, []) (sort_key nq_index (vq_nics vm)) = Inr (st', nics)"
    and out': "out' = out @ [\<lparr>vc_vmid = v, vc_nics = nics, lv_node = vq_node vm\<rparr>]"
    by (auto simp: assign_vm_def res_simps)
  obtain I where st1: "st1 = st\<lparr>ps_ids := I\<rparr>" and I: "I \<inter> pe_ids env = {}"
    "\<forall>v \<in> I. \<not> protected_id (Some (pe_overrides env)) v"
    "draws (ps_fixed_ids st) (ps_ids st) [vq_node vm] [v] I"
    "case ps_fixed_ids st (vq_node vm) of Some w \<Rightarrow> v = w | None \<Rightarrow> lo \<le> v \<and> v \<le> hi"
    using choose_vmid_draw [OF c ov] inv by (auto simp: assign_inv_def)
  have "\<exists>X new. st' = st1\<lparr>ps_ips := X\<rparr> \<and> nics = [] @ new \<and> X \<inter> pe_ips env = {}
     \<and> draws (fixed_pairs nk st1) (ps_ips st1)
         (map (\<lambda>n. (vq_node vm, nq_index n)) (sort_key nq_index (vq_nics vm))) (map nic_pair new) X
     \<and> list_all2 (nic_matches env st1 vm) (sort_key nq_index (vq_nics vm)) new"
    by (rule assign_nics_draw [OF f _ nw]) (use k inv st1 in \<open>auto simp: keyed_def assign_inv_def\<close>)
  then obtain X where X: "st' = st\<lparr>ps_ids := I, ps_ips := X\<rparr>" "X \<inter> pe_ips env = {}"
    "draws (fixed_pairs nk st) (ps_ips st) (nic_keys vm) (map nic_pair nics) X"
    "list_all2 (nic_matches env st vm) (sort_key nq_index (vq_nics vm)) nics"
    by (auto simp: st1 nic_keys_def)
  show ?thesis
    using I X out' inv
    by (intro exI [of _ I] exI [of _ X])
       (auto simp: assigned_def assign_inv_def vm_matches_def all_pairs_def payload_keys_def
         split: option.splits)
qed

lemma assign_all_draw:
  assumes "foldE (assign_vm env lo hi) (st, out) vms = Inr (st', out')"
    and "\<forall>vm \<in> set vms. keyed env nk vm" and nw: "networks_ok env" and ov: "pairs_ok (Some (pe_overrides env))"
    and "assign_inv env nk st"
  shows "\<exists>I X new. st' = st\<lparr>ps_ids := I, ps_ips := X\<rparr> \<and> out' = out @ new \<and> assigned env nk lo hi st vms new I X"
  using assms(1,2,5)
proof (induction vms arbitrary: st out)
  case Nil
  then show ?case
    by (intro exI [of _ "ps_ids st"] exI [of _ "ps_ips st"] exI [of _ "[]"])
       (auto simp: assigned_def payload_keys_def all_pairs_def intro: draws.intros)
next
  case (Cons vm vms)
  from Cons.prems(1) obtain st1 out1 where a: "assign_vm env lo hi (st, out) vm = Inr (st1, out1)"
    and r: "foldE (assign_vm env lo hi) (st1, out1) vms = Inr (st', out')"
    by (auto simp: res_simps)
  have "keyed env nk vm" using Cons.prems(2) by simp
  from assign_vm_draw [OF a this nw ov Cons.prems(3)] obtain I X n where
    st1: "st1 = st\<lparr>ps_ids := I, ps_ips := X\<rparr>" and A: "out1 = out @ [n]"
    "assigned env nk lo hi st [vm] [n] I X" by blast
  have "\<exists>I X new. st' = st1\<lparr>ps_ids := I, ps_ips := X\<rparr> \<and> out' = out1 @ new
      \<and> assigned env nk lo hi st1 vms new I X"
    by (rule Cons.IH [OF r]) (use Cons.prems(2) A(2) st1 in \<open>auto simp: assigned_def\<close>)
  then obtain I' X' new where B: "st' = st\<lparr>ps_ids := I', ps_ips := X'\<rparr>" "out' = out @ [n] @ new"
    "assigned env nk lo hi st1 vms new I' X'" by (auto simp: st1 A(1))
  then show ?case
    using assigned_append [OF A(2) B(3) [unfolded st1]]
    by (intro exI [of _ I'] exI [of _ X'] exI [of _ "[n] @ new"]) simp
qed

subsection \<open>Which values are fixed\<close>

definition wanted_vmid :: "(string \<rightharpoonup> lease_vm) \<Rightarrow> alloc_vm \<Rightarrow> int option" where
  "wanted_vmid previous vm =
     (case vq_vmid vm of Some v \<Rightarrow> Some v | None \<Rightarrow> map_option vc_vmid (previous (vq_node vm)))"

definition wanted_ip ::
    "(string \<Rightarrow> alloc_network option) \<Rightarrow> (int \<rightharpoonup> lease_nic) \<Rightarrow> alloc_nic \<Rightarrow> string option" where
  "wanted_ip networks old nic =
     (case networks (nq_network nic) of
        None \<Rightarrow> None | Some nw \<Rightarrow> fixed_ip_of nic (old (nq_index nic)) nw)"

definition untouched :: "plan_state \<Rightarrow> string \<Rightarrow> bool" where
  "untouched st node = (ps_fixed_ids st node = None \<and> (\<forall>i. ps_fixed_ips st (node, i) = None))"

definition fixed_as_wanted ::
    "plan_env \<Rightarrow> (string \<rightharpoonup> lease_vm) \<Rightarrow> plan_state \<Rightarrow> alloc_vm \<Rightarrow> bool" where
  "fixed_as_wanted env previous st vm =
     (ps_fixed_ids st (vq_node vm) = wanted_vmid previous vm
      \<and> (\<exists>old. retained_nics vm (previous (vq_node vm)) (pe_networks env) = Inr old
           \<and> (\<forall>nic \<in> set (vq_nics vm).
                ps_fixed_ips st (vq_node vm, nq_index nic) = wanted_ip (pe_networks env) old nic)))"

lemma fix_vmid_value:
  assumes "fix_vmid env vm old st = Inr st'"
  shows "ps_fixed_ips st' = ps_fixed_ips st"
    and "ps_fixed_ids st' = (case (case vq_vmid vm of Some v \<Rightarrow> Some v | None \<Rightarrow> map_option vc_vmid old) of
           None \<Rightarrow> ps_fixed_ids st | Some v \<Rightarrow> (ps_fixed_ids st)(vq_node vm \<mapsto> v))"
  using assms by (auto simp: fix_vmid_def res_simps split: option.splits if_splits)

lemma fix_nic_value:
  assumes "fix_nic env vm old st nic = Inr st'"
  shows "ps_fixed_ids st' = ps_fixed_ids st \<and>
     ps_fixed_ips st' = (case wanted_ip (pe_networks env) old nic of
           None \<Rightarrow> ps_fixed_ips st | Some ip \<Rightarrow> (ps_fixed_ips st)((vq_node vm, nq_index nic) \<mapsto> ip))"
proof -
  from assms obtain nw where nw: "pe_networks env (nq_network nic) = Some nw"
    by (auto simp: fix_nic_def res_simps)
  show ?thesis
  proof (cases "fixed_ip_of nic (old (nq_index nic)) nw")
    case None
    with assms nw show ?thesis by (simp add: fix_nic_def wanted_ip_def)
  next
    case (Some ip)
    have "st' = st\<lparr>ps_fixed_ips := (ps_fixed_ips st)((vq_node vm, nq_index nic) \<mapsto> ip),
          ps_ips := insert (an_bridge nw, ip) (ps_ips st)\<rparr>"
      using assms nw Some by (auto simp: fix_nic_def res_simps Let_def split: if_splits)
    then show ?thesis using nw Some by (simp add: wanted_ip_def)
  qed
qed

lemma fix_nics_value:
  assumes "foldE (fix_nic env vm old) st nics = Inr st'" and "distinct (map nq_index nics)"
  shows "ps_fixed_ids st' = ps_fixed_ids st
    \<and> (\<forall>k. k \<notin> (\<lambda>n. (vq_node vm, nq_index n)) ` set nics \<longrightarrow> ps_fixed_ips st' k = ps_fixed_ips st k)
    \<and> ((\<forall>nic \<in> set nics. ps_fixed_ips st (vq_node vm, nq_index nic) = None) \<longrightarrow>
       (\<forall>nic \<in> set nics. ps_fixed_ips st' (vq_node vm, nq_index nic) = wanted_ip (pe_networks env) old nic))"
  using assms
proof (induction nics arbitrary: st)
  case Nil
  then show ?case by simp
next
  case (Cons nic nics)
  from Cons.prems(1) obtain st1 where a: "fix_nic env vm old st nic = Inr st1"
    and r: "foldE (fix_nic env vm old) st1 nics = Inr st'" by (auto simp: res_simps)
  have d: "distinct (map nq_index nics)" "nq_index nic \<notin> nq_index ` set nics" using Cons.prems(2) by auto
  note IH = Cons.IH [OF r d(1)]
  have IHf: "ps_fixed_ips st' k = ps_fixed_ips st1 k"
    if "k \<notin> (\<lambda>n. (vq_node vm, nq_index n)) ` set nics" for k
    using IH that by blast
  have step: "ps_fixed_ips st1 (vq_node vm, nq_index n) = ps_fixed_ips st (vq_node vm, nq_index n)"
    if "n \<in> set nics" for n
  proof -
    have "nq_index n \<noteq> nq_index nic" using that d(2) by (metis imageI)
    then show ?thesis using fix_nic_value [OF a] by (simp split: option.split)
  qed
  have frame: "ps_fixed_ips st' k = ps_fixed_ips st k"
    if "k \<notin> (\<lambda>n. (vq_node vm, nq_index n)) ` set (nic # nics)" for k
  proof -
    have "ps_fixed_ips st1 k = ps_fixed_ips st k"
      using that fix_nic_value [OF a] by (auto split: option.split)
    then show ?thesis using IHf [of k] that by simp
  qed
  have "ps_fixed_ips st' (vq_node vm, nq_index n) = wanted_ip (pe_networks env) old n"
    if u: "\<forall>n \<in> set (nic # nics). ps_fixed_ips st (vq_node vm, nq_index n) = None"
      and n: "n \<in> set (nic # nics)" for n
  proof (cases "n \<in> set nics")
    case True
    then show ?thesis using IH step u by simp
  next
    case False
    then have "ps_fixed_ips st' (vq_node vm, nq_index n) = ps_fixed_ips st1 (vq_node vm, nq_index nic)"
      using IH d(2) n by (auto simp: image_iff)
    then show ?thesis using fix_nic_value [OF a] u n False by (auto split: option.split)
  qed
  then show ?case using IH fix_nic_value [OF a] frame by simp
qed

lemma fix_vm_value:
  assumes f: "fix_vm env previous st vm = Inr st'" and d: "distinct (map nq_index (vq_nics vm))"
  shows "node \<noteq> vq_node vm \<Longrightarrow> ps_fixed_ids st' node = ps_fixed_ids st node
           \<and> ps_fixed_ips st' (node, i) = ps_fixed_ips st (node, i)"
    and "untouched st (vq_node vm) \<Longrightarrow> fixed_as_wanted env previous st' vm"
proof -
  from f obtain st1 old where s1: "fix_vmid env vm (previous (vq_node vm)) st = Inr st1"
    and o: "retained_nics vm (previous (vq_node vm)) (pe_networks env) = Inr old"
    and s2: "foldE (fix_nic env vm old) st1 (vq_nics vm) = Inr st'"
    by (auto simp: fix_vm_def res_simps)
  note v1 = fix_vmid_value [OF s1] and v2 = fix_nics_value [OF s2 d]
  show "node \<noteq> vq_node vm \<Longrightarrow> ps_fixed_ids st' node = ps_fixed_ids st node
           \<and> ps_fixed_ips st' (node, i) = ps_fixed_ips st (node, i)"
    using v1 v2 by (auto split: option.splits)
  show "untouched st (vq_node vm) \<Longrightarrow> fixed_as_wanted env previous st' vm"
    using v1 v2 o by (auto simp: untouched_def fixed_as_wanted_def wanted_vmid_def split: option.splits)
qed

lemma fix_all_values:
  assumes "foldE (fix_vm env previous) st vms = Inr st'" and "distinct (map vq_node vms)"
    and "\<forall>vm \<in> set vms. distinct (map nq_index (vq_nics vm))"
  shows "(\<forall>node i. node \<notin> vq_node ` set vms \<longrightarrow> ps_fixed_ids st' node = ps_fixed_ids st node
           \<and> ps_fixed_ips st' (node, i) = ps_fixed_ips st (node, i))
    \<and> ((\<forall>vm \<in> set vms. untouched st (vq_node vm)) \<longrightarrow> (\<forall>vm \<in> set vms. fixed_as_wanted env previous st' vm))"
  using assms
proof (induction vms arbitrary: st)
  case Nil
  then show ?case by simp
next
  case (Cons vm vms)
  from Cons.prems(1) obtain st1 where a: "fix_vm env previous st vm = Inr st1"
    and r: "foldE (fix_vm env previous) st1 vms = Inr st'" by (auto simp: res_simps)
  have d: "distinct (map nq_index (vq_nics vm))" using Cons.prems(3) by simp
  have IH: "\<forall>node i. node \<notin> vq_node ` set vms \<longrightarrow> ps_fixed_ids st' node = ps_fixed_ids st1 node
           \<and> ps_fixed_ips st' (node, i) = ps_fixed_ips st1 (node, i)"
    "(\<forall>vm \<in> set vms. untouched st1 (vq_node vm)) \<longrightarrow> (\<forall>vm \<in> set vms. fixed_as_wanted env previous st' vm)"
    using Cons.IH [OF r] Cons.prems(2,3) by auto
  have step: "ps_fixed_ids st1 node = ps_fixed_ids st node \<and> ps_fixed_ips st1 (node, i) = ps_fixed_ips st (node, i)"
    if "node \<noteq> vq_node vm" for node i using fix_vm_value(1) [OF a d that] .
  have new: "vq_node vm \<notin> vq_node ` set vms" using Cons.prems(2) by auto
  have frame: "\<forall>node i. node \<notin> vq_node ` set (vm # vms) \<longrightarrow> ps_fixed_ids st' node = ps_fixed_ids st node
           \<and> ps_fixed_ips st' (node, i) = ps_fixed_ips st (node, i)"
    using IH(1) step by simp
  moreover have "\<forall>w \<in> set (vm # vms). fixed_as_wanted env previous st' w"
    if u: "\<forall>w \<in> set (vm # vms). untouched st (vq_node w)"
  proof -
    have "\<forall>w \<in> set vms. untouched st1 (vq_node w)"
    proof
      fix w assume w: "w \<in> set vms"
      then have "vq_node w \<noteq> vq_node vm" using new by (metis imageI)
      then show "untouched st1 (vq_node w)" using u w step by (simp add: untouched_def)
    qed
    moreover have "fixed_as_wanted env previous st1 vm" using fix_vm_value(2) [OF a d] u by simp
    then have "fixed_as_wanted env previous st' vm"
      using IH(1) new by (auto simp: fixed_as_wanted_def)
    ultimately show ?thesis using IH(2) by simp
  qed
  ultimately show ?case by blast
qed

subsection \<open>The plan as a whole\<close>

definition nic_planned ::
    "alloc_request \<Rightarrow> (int \<rightharpoonup> lease_nic) \<Rightarrow> alloc_nic \<Rightarrow> lease_nic \<Rightarrow> bool" where
  "nic_planned payload old nic out =
     (\<exists>nw subnet. network_map (rq_networks payload) (nq_network nic) = Some nw
        \<and> parse_network (an_subnet nw) = Some subnet
        \<and> nc_index out = nq_index nic \<and> ln_key out = nq_key nic \<and> nc_bridge out = an_bridge nw
        \<and> ln_network out = an_id nw \<and> ln_subnet out = an_subnet nw \<and> ln_prefix out = net_plen subnet
        \<and> ln_gateway out = an_gateway nw \<and> usable_ip nw (nc_ip out)
        \<and> (case nq_ip nic of
             Some ip \<Rightarrow> nc_ip out = ip
           | None \<Rightarrow> (\<forall>leased. old (nq_index nic) = Some leased \<and> same_network leased nw \<longrightarrow> nc_ip out = nc_ip leased)))"

definition vm_planned ::
    "alloc_request \<Rightarrow> (string \<rightharpoonup> lease_vm) \<Rightarrow> alloc_vm \<Rightarrow> lease_vm \<Rightarrow> bool" where
  "vm_planned payload previous vm out =
     (lv_node out = vq_node vm
      \<and> (case wanted_vmid previous vm of
           Some w \<Rightarrow> vc_vmid out = w
         | None \<Rightarrow> rq_vmid_start payload \<le> vc_vmid out \<and> vc_vmid out \<le> rq_vmid_end payload)
      \<and> (\<exists>old. retained_nics vm (previous (vq_node vm)) (network_map (rq_networks payload)) = Inr old
           \<and> list_all2 (nic_planned payload old) (sort_key nq_index (vq_nics vm)) (vc_nics out)))"

lemma override_pair_length: "override_pair p = Some q \<Longrightarrow> length q = 2"
  by (induction p rule: override_pair.induct) (auto split: if_splits)

lemma protected_overrides_pairs: "protected_overrides h = Inr ov \<Longrightarrow> pairs_ok (Some ov)"
  by (auto simp: protected_overrides_def pairs_ok_def list_all_iff override_pair_length Let_def
      split: option.splits json.splits if_splits)

lemma network_map_in: "network_map ns i = Some n \<Longrightarrow> n \<in> set ns"
  by (auto simp: network_map_def dest: map_of_SomeD)

lemma nic_matches_planned:
  assumes "nic_matches env st vm nic out" and "pe_networks env = network_map (rq_networks payload)"
    and "ps_fixed_ips st (vq_node vm, nq_index nic) = wanted_ip (pe_networks env) old nic"
  shows "nic_planned payload old nic out"
proof -
  from assms(1) obtain nw subnet where n: "pe_networks env (nq_network nic) = Some nw"
    "parse_network (an_subnet nw) = Some subnet"
    "nc_index out = nq_index nic" "ln_key out = nq_key nic" "nc_bridge out = an_bridge nw"
    "ln_network out = an_id nw" "ln_subnet out = an_subnet nw" "ln_prefix out = net_plen subnet"
    "ln_gateway out = an_gateway nw" "usable_ip nw (nc_ip out)"
    "\<forall>ip. ps_fixed_ips st (vq_node vm, nq_index nic) = Some ip \<longrightarrow> nc_ip out = ip"
    unfolding nic_matches_def by blast
  then show ?thesis
    using assms(2,3) unfolding nic_planned_def wanted_ip_def fixed_ip_of_def by (auto split: option.splits)
qed

lemma vm_matches_planned:
  assumes m: "vm_matches env (rq_vmid_start payload) (rq_vmid_end payload) st vm out"
    and e: "pe_networks env = network_map (rq_networks payload)"
    and w: "fixed_as_wanted env previous st vm"
  shows "vm_planned payload previous vm out"
proof -
  from w obtain old where o: "retained_nics vm (previous (vq_node vm)) (pe_networks env) = Inr old"
    "\<forall>nic \<in> set (vq_nics vm). ps_fixed_ips st (vq_node vm, nq_index nic) = wanted_ip (pe_networks env) old nic"
    by (auto simp: fixed_as_wanted_def)
  have "list_all2 (nic_matches env st vm) (sort_key nq_index (vq_nics vm)) (vc_nics out)"
    using m by (simp add: vm_matches_def)
  then have "list_all2 (nic_planned payload old) (sort_key nq_index (vq_nics vm)) (vc_nics out)"
    by (rule list.rel_mono_strong) (use o e in \<open>auto intro: nic_matches_planned\<close>)
  then show ?thesis
    using m w o e by (auto simp: vm_matches_def vm_planned_def fixed_as_wanted_def)
qed

lemma plan_spec:
  assumes valid: "valid_request payload"
    and plan: "plan payload host leases claims current occ = Inr out"
  shows "\<exists>overrides env. protected_overrides host = Inr overrides
     \<and> env = plan_env_of payload overrides leases claims current occ
     \<and> distinct (map vc_vmid out) \<and> vc_vmid ` set out \<inter> pe_ids env = {}
     \<and> (\<forall>v \<in> vc_vmid ` set out. \<not> protected_id (Some overrides) v)
     \<and> distinct (all_pairs out) \<and> set (all_pairs out) \<inter> pe_ips env = {}
     \<and> list_all2 (vm_planned payload (previous_map current)) (rq_vms payload) out"
proof -
  let ?st0 = "\<lparr>ps_ids = {}, ps_ips = {}, ps_fixed_ids = Map.empty, ps_fixed_ips = Map.empty\<rparr>"
  let ?prev = "previous_map current" and ?vms = "rq_vms payload"
  let ?lo = "rq_vmid_start payload" and ?hi = "rq_vmid_end payload"
  let ?nk = "network_of_key (network_map (rq_networks payload)) ?vms"
  from plan obtain overrides env st st' where
    ov: "protected_overrides host = Inr overrides"
    and env: "env = plan_env_of payload overrides leases claims current occ"
    and f: "foldE (fix_vm env ?prev) ?st0 ?vms = Inr st"
    and a: "foldE (assign_vm env ?lo ?hi) (st, []) ?vms = Inr (st', out)"
    by (auto simp: plan_def res_simps Let_def)
  have pok: "pairs_ok (Some (pe_overrides env))" and ne: "pe_networks env = network_map (rq_networks payload)"
    using protected_overrides_pairs [OF ov] by (simp_all add: env plan_env_of_def)
  have nodes: "distinct (map vq_node ?vms)" using valid by (simp add: valid_request_def)
  have idx: "distinct (map nq_index (vq_nics vm))" if "vm \<in> set ?vms" for vm
    using valid_request_vm [OF valid that] by (rule valid_vm_indexes(1))
  have keyed: "\<forall>vm \<in> set ?vms. keyed env ?nk vm"
    using network_of_key [OF nodes idx] by (auto simp: keyed_def ne)
  have nw: "networks_ok env"
    using valid_request_network [OF valid] network_map_in by (fastforce simp: networks_ok_def ne)
  have F: "fixed_inv env ?nk st" using fix_all_inv [OF f fixed_inv_init keyed pok] .
  have W: "\<forall>vm \<in> set ?vms. fixed_as_wanted env ?prev st vm"
    using fix_all_values [OF f nodes] idx by (simp add: untouched_def)
  have "assign_inv env ?nk st" using F by (auto simp: fixed_inv_def assign_inv_def)
  from assign_all_draw [OF a keyed nw pok this] obtain I X where
    A: "assigned env ?nk ?lo ?hi st ?vms out I X" by auto
  have dI: "draws (ps_fixed_ids st) (ps_ids st) (map vq_node ?vms) (map vc_vmid out) I"
    and dX: "draws (fixed_pairs ?nk st) (ps_ips st) (payload_keys ?vms) (all_pairs out) X"
    and inv: "assign_inv env ?nk (st\<lparr>ps_ids := I, ps_ips := X\<rparr>)"
    and m: "list_all2 (vm_matches env ?lo ?hi st) ?vms out"
    using A by (auto simp: assigned_def)
  have "distinct (map vc_vmid out)" "vc_vmid ` set out \<subseteq> I"
    using draws_distinct [OF dI _ _ nodes] draws_grow [OF dI] F by (auto simp: fixed_inv_def)
  moreover have "distinct (all_pairs out)" "set (all_pairs out) \<subseteq> X"
    using draws_distinct [OF dX _ _ distinct_payload_keys [OF nodes idx]] draws_grow [OF dX] F
    by (auto simp: fixed_inv_def)
  moreover have "list_all2 (vm_planned payload ?prev) ?vms out"
    by (rule list.rel_mono_strong [OF m]) (use W ne in \<open>auto intro: vm_matches_planned\<close>)
  ultimately show ?thesis
    using ov env inv by (auto simp: assign_inv_def plan_env_of_def)
qed

subsection \<open>A concrete plan\<close>

definition sample_network :: alloc_network where
  "sample_network = \<lparr>an_id = ''lan'', an_bridge = ''vmbr1'', an_subnet = ''10.0.1.0/29'',
     an_gateway = Some ''10.0.1.1'', an_reserved = []\<rparr>"

definition sample_request :: alloc_request where
  "sample_request = \<lparr>rq_project = ''lab'', rq_lease_seconds = 600, rq_vmid_start = 1022, rq_vmid_end = 1030,
     rq_networks = [sample_network],
     rq_vms =
       [\<lparr>vq_node = ''a'', vq_vmid = None,
         vq_nics = [\<lparr>nq_index = 0, nq_key = None, nq_network = ''lan'', nq_ip = None\<rparr>]\<rparr>,
        \<lparr>vq_node = ''b'', vq_vmid = Some 1024,
         vq_nics = [\<lparr>nq_index = 0, nq_key = None, nq_network = ''lan'', nq_ip = Some ''10.0.1.2''\<rparr>]\<rparr>]\<rparr>"

definition sample_occupancy :: occupancy where
  "sample_occupancy = \<lparr>occ_vmids = {1025}, occ_addresses = {(''vmbr1'', ''10.0.1.3'')}, occ_unknown = 0\<rparr>"

definition sample_plan :: "lease_vm list" where
  "sample_plan =
     [\<lparr>vc_vmid = 1026,
       vc_nics = [\<lparr>nc_index = 0, nc_bridge = ''vmbr1'', nc_ip = ''10.0.1.4'', ln_key = None,
         ln_network = ''lan'', ln_subnet = ''10.0.1.0/29'', ln_prefix = 29, ln_gateway = Some ''10.0.1.1''\<rparr>],
       lv_node = ''a''\<rparr>,
      \<lparr>vc_vmid = 1024,
       vc_nics = [\<lparr>nc_index = 0, nc_bridge = ''vmbr1'', nc_ip = ''10.0.1.2'', ln_key = None,
         ln_network = ''lan'', ln_subnet = ''10.0.1.0/29'', ln_prefix = 29, ln_gateway = Some ''10.0.1.1''\<rparr>],
       lv_node = ''b''\<rparr>]"

lemmas ip_eval = parse_octet_def parse_ipv4_def parse_addr_prefix_def parse_prefix_def parse_network_def
  digits_val_def digit_val_def is_digit_def is_alpha_def is_alnum_def usable_in_def in_net_def net_broadcast_def
  net_size_def host_count_def host_at_def

lemma sample_subnet: "parse_network ''10.0.1.0/29'' = Some \<lparr>net_base = 167772416, net_plen = 29\<rparr>"
  by (simp add: ip_eval)

lemma sample_addresses:
  "parse_ipv4 ''10.0.1.1'' = Some 167772417" "parse_ipv4 ''10.0.1.2'' = Some 167772418"
  by (simp_all add: ip_eval)

lemma sample_hosts:
  "ip_str 167772417 = ''10.0.1.1''" "ip_str 167772418 = ''10.0.1.2''"
  "ip_str 167772419 = ''10.0.1.3''" "ip_str 167772420 = ''10.0.1.4''"
  by (simp_all add: ip_str_def nat_str.simps digit_char_def)

lemma sample_request_valid: "valid_request sample_request"
  by (simp add: valid_request_def sample_request_def sample_network_def valid_network_def valid_vm_def
      valid_nic_def valid_key_def valid_bridge_def valid_vmid_def is_alnum_def is_alpha_def is_digit_def
      sample_subnet sample_addresses gateway_list_def given_def usable_in_def in_net_def net_broadcast_def
      net_size_def List.map_filter_def)

lemma sample_host_overrides: "protected_overrides sample_host = Inr []"
  by (simp add: protected_overrides_def sample_host_def json_loads_def json_loads_hook_def dict_object_def eval_defs Let_def skip_ws_def is_ws_def)

lemma sample_env:
  "plan_env_of sample_request [] [] [] None sample_occupancy =
     \<lparr>pe_overrides = [], pe_networks = [''lan'' \<mapsto> sample_network], pe_ids = {1025},
      pe_ips = {(''vmbr1'', ''10.0.1.3''), (''vmbr1'', ''10.0.1.1'')}\<rparr>"
  by (auto simp: plan_env_of_def sample_request_def sample_occupancy_def unavailable_ids_def unavailable_ips_def
      other_leases_def other_claims_def network_map_def fun_eq_iff sample_network_def gateway_list_def)

lemmas plan_eval = fix_vm_def fix_vmid_def fix_nic_def retained_nics_def given_def fixed_ip_of_def
  assign_vm_def assign_nic_def choose_vmid_def choose_ip_def scan.simps is_protected_def
  default_protected_ranges_def in_range_def previous_map_def Let_def

lemma sample_plan_run:
  "plan sample_request sample_host [] [] None sample_occupancy = Inr sample_plan"
  by (simp add: plan_def sample_host_overrides Let_def sample_env)
     (simp add: plan_eval sample_request_def sample_network_def sample_plan_def sample_subnet sample_addresses
       sample_hosts usable_in_def in_net_def net_broadcast_def net_size_def host_count_def host_at_def
       List.map_filter_def)

subsection \<open>Properties of the planner\<close>

lemma all_pairs_addrs: "set (all_pairs vms) = addrs_of vms"
  by (auto simp: all_pairs_def occupied_def nic_pair_def)

text \<open>
  C3: for a valid request, the VMIDs of a plan are pairwise distinct, none is on the cluster, in
  another live lease or in another claim, and none is in a protected range of the host.
\<close>

theorem plan_vmids_safe:
  assumes "valid_request payload" and "plan payload host leases claims current occ = Inr out"
  shows "distinct (map vc_vmid out) \<and>
    (\<exists>ov. protected_overrides host = Inr ov \<and>
      list_all (\<lambda>v. assert_vmid_safe v (Some ov) = Inr ()) (map vc_vmid out))
    \<and> ids_of out \<inter> occ_vmids occ = {}
    \<and> list_all (\<lambda>r. ids_of out \<inter> ids_of (rv_assignments r) = {}) (other_leases current leases)
    \<and> list_all (\<lambda>c. ids_of out \<inter> ids_of (dc_assignments c) = {}) (other_claims current claims)"
proof -
  from plan_spec [OF assms] obtain ov env where o: "protected_overrides host = Inr ov"
    and e: "env = plan_env_of payload ov leases claims current occ"
    and d: "distinct (map vc_vmid out)" "ids_of out \<inter> pe_ids env = {}"
    "\<forall>v \<in> ids_of out. \<not> protected_id (Some ov) v"
    by (auto simp: occupied_def)
  have "pe_ids env = unavailable_ids (other_leases current leases) (other_claims current claims) occ"
    by (simp add: e plan_env_of_def)
  moreover have "list_all (\<lambda>v. assert_vmid_safe v (Some ov) = Inr ()) (map vc_vmid out)"
    using d(3) by (simp add: assert_vmid_safe_iff list_all_iff occupied_def)
  ultimately show ?thesis using o d(1,2) unfolding unavailable_ids_def list_all_iff by blast
qed

theorem plan_vmids_safe_witness:
  "distinct (map vc_vmid sample_plan) \<and>
    (\<exists>ov. protected_overrides sample_host = Inr ov \<and>
      list_all (\<lambda>v. assert_vmid_safe v (Some ov) = Inr ()) (map vc_vmid sample_plan))
    \<and> ids_of sample_plan \<inter> occ_vmids sample_occupancy = {}
    \<and> list_all (\<lambda>r. ids_of sample_plan \<inter> ids_of (rv_assignments r) = {}) (other_leases None [])
    \<and> list_all (\<lambda>c. ids_of sample_plan \<inter> ids_of (dc_assignments c) = {}) (other_claims None [])"
  by (rule plan_vmids_safe [OF sample_request_valid sample_plan_run])

text \<open>
  C2: for a valid request, the bridge and address pairs of a plan are pairwise distinct over all
  interfaces, none is in use on the cluster, in another live lease or in another claim, and none
  is a gateway or a reserved address of a requested network on its bridge.
\<close>

theorem plan_addresses_safe:
  assumes "valid_request payload" and "plan payload host leases claims current occ = Inr out"
  shows "distinct (all_pairs out) \<and>
    addrs_of out \<inter> occ_addresses occ = {}
    \<and> list_all (\<lambda>r. addrs_of out \<inter> addrs_of (rv_assignments r) = {}) (other_leases current leases)
    \<and> list_all (\<lambda>c. addrs_of out \<inter> addrs_of (dc_assignments c) = {}) (other_claims current claims)
    \<and> list_all (\<lambda>n. list_all (\<lambda>ip. (an_bridge n, ip) \<notin> addrs_of out) (an_reserved n @ gateway_list n))
         (rq_networks payload)"
proof -
  from plan_spec [OF assms] obtain ov env where
    e: "env = plan_env_of payload ov leases claims current occ"
    and d: "distinct (all_pairs out)" "addrs_of out \<inter> pe_ips env = {}"
    by (auto simp: all_pairs_addrs)
  have "pe_ips env = unavailable_ips (rq_networks payload) (other_leases current leases)
      (other_claims current claims) occ"
    by (simp add: e plan_env_of_def)
  with d show ?thesis unfolding unavailable_ips_def list_all_iff by blast
qed

theorem plan_addresses_safe_witness:
  "distinct (all_pairs sample_plan) \<and>
    addrs_of sample_plan \<inter> occ_addresses sample_occupancy = {}
    \<and> list_all (\<lambda>r. addrs_of sample_plan \<inter> addrs_of (rv_assignments r) = {}) (other_leases None [])
    \<and> list_all (\<lambda>c. addrs_of sample_plan \<inter> addrs_of (dc_assignments c) = {}) (other_claims None [])
    \<and> list_all (\<lambda>n. list_all (\<lambda>ip. (an_bridge n, ip) \<notin> addrs_of sample_plan) (an_reserved n @ gateway_list n))
         (rq_networks sample_request)"
  by (rule plan_addresses_safe [OF sample_request_valid sample_plan_run])

text \<open>
  C4: a plan answers the request node by node, in order: a manual VMID, else the VMID the current
  lease holds for the node, else one of the requested range; and interface by interface the
  requested network's bridge, subnet, prefix and gateway, with a usable host address of that subnet
  that is the manual one, else the retained one, where there is such an address.
\<close>

theorem plan_fulfils_request:
  assumes "valid_request payload" and "plan payload host leases claims current occ = Inr out"
  shows "list_all2 (vm_planned payload (previous_map current)) (rq_vms payload) out"
  using plan_spec [OF assms] by blast

theorem plan_fulfils_request_witness:
  "list_all2 (vm_planned sample_request (previous_map None)) (rq_vms sample_request) sample_plan"
  by (rule plan_fulfils_request [OF sample_request_valid sample_plan_run])

end
