(* ===== verification/Alloc_Txn.thy ===== *)
theory Alloc_Txn
  imports Plan_Correct "HOL-Library.Char_ord" "HOL-Library.List_Lexorder" "HOL-Library.Product_Lexorder"
begin

text \<open>
  The transactions on the reservation ledger: \<open>reserve\<close> with its probe loop and
  \<open>get_or_release\<close> (\<open>app/core/allocation_reservations.py\<close>), \<open>bind\<close> and
  \<open>ensure_for_attempt\<close> (\<open>app/core/deployment_allocations.py\<close>).

  A transaction is a function of the ledger it reads under SQLite's writer lock and of the
  clock; a raise leaves the ledger as it was, because the session rolls back. \<open>reserve\<close> takes
  the ledger and the clock of each of its rounds from \<open>ledger\<close> and \<open>clock\<close>, since other
  processes write between them. Round 0 is the ownership check made before the audit. A round
  that finds a busy writer, or that the 30 second timeout ends, raises instead.
\<close>

subsection \<open>The ledger\<close>

record deployment_ref =
  dp_id :: string
  dp_host :: string
  dp_sha :: string

record alloc_db =
  ad_leases :: "reservation list"
  ad_claims :: "deployment_claim list"
  ad_hosts :: "string \<rightharpoonup> proxmox_host"
  ad_deployments :: "string \<rightharpoonup> deployment_ref"

record allocation_lease =
  al_reservation :: string
  al_project :: string
  al_host :: string
  al_node :: string
  al_expires :: instant
  al_checked :: instant
  al_assignments :: "lease_vm list"

definition lease_of :: "reservation \<Rightarrow> allocation_lease" where
  "lease_of row =
     \<lparr>al_reservation = rv_id row, al_project = rv_project row, al_host = rv_host row,
      al_node = rv_node_name row, al_expires = rv_expires row, al_checked = rv_checked row,
      al_assignments = rv_assignments row\<rparr>"

definition max_probes :: int where "max_probes = 4096"
definition max_active_leases :: nat where "max_active_leases = 1000"

definition same_registration :: "proxmox_host \<Rightarrow> proxmox_host \<Rightarrow> bool" where
  "same_registration a b =
     (ph_api_url a = ph_api_url b \<and> ph_node_name a = ph_node_name b
      \<and> ph_protected_json a = ph_protected_json b)"

definition live_leases :: "instant \<Rightarrow> alloc_db \<Rightarrow> reservation list" where
  "live_leases now db = filter (\<lambda>r. now < rv_expires r) (ad_leases db)"

definition project_row :: "string \<Rightarrow> reservation list \<Rightarrow> reservation option" where
  "project_row project rows = List.find (\<lambda>r. rv_project r = project) rows"

lemma token_digest_Inr [res_simps]:
  "token_digest sha256 token = Inr h \<longleftrightarrow>
     class_match (\<lambda>c. is_alnum c \<or> c \<in> set ''_-'') 32 128 token \<and> h = sha256 token"
  by (auto simp: token_digest_def)

lemma ownership_Inr [res_simps]:
  "ownership row h host_id = Inr u \<longleftrightarrow> rv_token_hash row = h \<and> rv_host row = host_id"
  by (simp add: ownership_def)

subsection \<open>Reserving\<close>

datatype txn_result = Saved reservation alloc_db | Pending "int list"

definition save_row :: "reservation \<Rightarrow> reservation option \<Rightarrow> reservation list \<Rightarrow> reservation list" where
  "save_row row current rows =
     (case current of
        None \<Rightarrow> rows @ [row]
      | Some c \<Rightarrow> map (\<lambda>r. if rv_id r = rv_id c then row else r) rows)"

definition reserve_guard ::
    "proxmox_host \<Rightarrow> string \<Rightarrow> reservation list \<Rightarrow> reservation option \<Rightarrow> unit res" where
  "reserve_guard host token_hash rows current =
     (case current of
        Some c \<Rightarrow>
          bindE (ownership c token_hash (ph_id host)) (\<lambda>_.
            assertE (rv_node_name c = ph_node_name host) (alloc_error ''INVALID'' 409))
      | None \<Rightarrow> assertE (length rows < max_active_leases) (alloc_error ''POOL_EXHAUSTED'' 409))"

definition reserve_txn ::
    "proxmox_host \<Rightarrow> alloc_request \<Rightarrow> string \<Rightarrow> string \<Rightarrow> instant \<Rightarrow> occupancy \<Rightarrow> int set
       \<Rightarrow> instant \<Rightarrow> alloc_db \<Rightarrow> txn_result res" where
  "reserve_txn host payload token_hash new_id checked_at occ checked_free now db =
     (let rows = live_leases now db; current = project_row (rq_project payload) rows in
      bindE (reserve_guard host token_hash rows current) (\<lambda>_.
      bindE (assertE (case ad_hosts db (ph_id host) of
                 None \<Rightarrow> False | Some f \<Rightarrow> same_registration f host) (alloc_error ''INVALID'' 409)) (\<lambda>_.
      bindE (plan payload host rows (ad_claims db) current occ) (\<lambda>assignments.
        let pending = filter (\<lambda>v. v \<notin> checked_free) (remdups (sort (map vc_vmid assignments))) in
        if pending = []
        then let base = (case current of
                   Some c \<Rightarrow> c
                 | None \<Rightarrow> \<lparr>rv_id = new_id, rv_project = rq_project payload, rv_host = ph_id host,
                     rv_node_name = ph_node_name host, rv_api_url = None, rv_token_hash = token_hash,
                     rv_assignments = [], rv_expires = now, rv_checked = now\<rparr>);
                 row = base\<lparr>rv_assignments := assignments, rv_api_url := Some (ph_api_url host),
                        rv_checked := checked_at,
                        rv_expires := now + 1000000 * rq_lease_seconds payload\<rparr>
             in Inr (Saved row (db\<lparr>ad_leases := save_row row current rows\<rparr>))
        else Inr (Pending pending)))))"

lemma reserve_txn_Pending: "reserve_txn h p t n ca occ cf now db = Inr (Pending vs) \<Longrightarrow> vs \<noteq> []"
  by (auto simp: reserve_txn_def res_simps Let_def split: if_splits)

definition probed :: "(int \<times> bool) list \<Rightarrow> occupancy \<Rightarrow> occupancy" where
  "probed results occ =
     occ\<lparr>occ_vmids := occ_vmids occ \<union> fst ` set (filter (\<lambda>r. \<not> snd r) results)\<rparr>"

definition probe_vmids :: "(int \<Rightarrow> bool res) \<Rightarrow> int list \<Rightarrow> (int \<times> bool) list res" where
  "probe_vmids free vs = mapE (\<lambda>v. bindE (free v) (\<lambda>b. Inr (v, b))) vs"

function reserve_loop ::
    "(int \<Rightarrow> bool res) \<Rightarrow> (nat \<Rightarrow> alloc_db res) \<Rightarrow> (nat \<Rightarrow> instant)
       \<Rightarrow> (occupancy \<Rightarrow> int set \<Rightarrow> instant \<Rightarrow> alloc_db \<Rightarrow> txn_result res)
       \<Rightarrow> nat \<Rightarrow> int \<Rightarrow> int set \<Rightarrow> occupancy \<Rightarrow> (nat \<times> reservation \<times> alloc_db) res" where
  "reserve_loop free ledger clock txn i probes checked_free occ =
     (if probes \<le> max_probes
      then bindE (ledger i) (\<lambda>db.
           bindE (txn occ checked_free (clock i) db) (\<lambda>r.
             case r of
               Saved row db' \<Rightarrow> Inr (i, row, db')
             | Pending vs \<Rightarrow>
                 if vs = [] \<or> max_probes < probes + int (length vs)
                 then Inl (alloc_error ''POOL_EXHAUSTED'' 409)
                 else bindE (probe_vmids free vs) (\<lambda>results.
                   reserve_loop free ledger clock txn (Suc i) (probes + int (length vs))
                     (checked_free \<union> fst ` set (filter snd results)) (probed results occ))))
      else Inl (alloc_error ''POOL_EXHAUSTED'' 409))"
  by pat_completeness auto
termination
  by (relation "measure (\<lambda>(free, ledger, clock, txn, i, probes, cf, occ). nat (max_probes + 1 - probes))")
     (auto simp: neq_Nil_conv)

declare reserve_loop.simps [simp del]

text \<open>The \<open>except TimeoutError\<close> and \<open>except OperationalError\<close> clauses.\<close>

definition reserve_errors :: "'a res \<Rightarrow> 'a res" where
  "reserve_errors r =
     (case r of
        Inl TimeoutError \<Rightarrow> Inl (alloc_error ''OCCUPANCY_UNAVAILABLE'' 409)
      | Inl OperationalError \<Rightarrow> Inl (alloc_error ''BUSY'' 409)
      | _ \<Rightarrow> r)"

lemma reserve_errors_Inr [res_simps]: "reserve_errors r = Inr x \<longleftrightarrow> r = Inr x"
  by (simp add: reserve_errors_def split: sum.split exc.split)

definition with_reserved :: "occupancy option \<Rightarrow> occupancy \<Rightarrow> occupancy" where
  "with_reserved reserved occ =
     (case reserved of
        None \<Rightarrow> occ
      | Some r \<Rightarrow> occ\<lparr>occ_vmids := occ_vmids occ \<union> occ_vmids r,
                     occ_addresses := occ_addresses occ \<union> occ_addresses r\<rparr>)"

definition reserve ::
    "(string \<Rightarrow> string) \<Rightarrow> http_get \<Rightarrow> (nat \<Rightarrow> alloc_db res) \<Rightarrow> (nat \<Rightarrow> instant) \<Rightarrow> proxmox_host
       \<Rightarrow> alloc_request \<Rightarrow> string \<Rightarrow> string \<Rightarrow> instant \<Rightarrow> occupancy option
       \<Rightarrow> (nat \<times> reservation \<times> alloc_db) res" where
  "reserve sha256 get ledger clock host payload token new_id checked_at reserved =
     bindE (token_digest sha256 token) (\<lambda>token_hash.
     bindE (ledger 0) (\<lambda>db0.
     bindE (case project_row (rq_project payload) (ad_leases db0) of
              Some c \<Rightarrow> if clock 0 < rv_expires c then ownership c token_hash (ph_id host) else Inr ()
            | None \<Rightarrow> Inr ()) (\<lambda>_.
     reserve_errors (bindE (read_occupancy get host) (\<lambda>occ.
       reserve_loop (vmid_is_free get host) ledger clock
         (reserve_txn host payload token_hash new_id checked_at) 1 0 {} (with_reserved reserved occ))))))"

subsection \<open>Reading and releasing\<close>

definition get_or_release ::
    "(string \<Rightarrow> string) \<Rightarrow> instant \<Rightarrow> string \<Rightarrow> string \<Rightarrow> string \<Rightarrow> bool \<Rightarrow> alloc_db
       \<Rightarrow> (allocation_lease option \<times> alloc_db) res" where
  "get_or_release sha256 now host_id reservation_id token release db =
     bindE (token_digest sha256 token) (\<lambda>token_hash.
     bindE (of_opt (alloc_error ''EXPIRED'' 409)
              (List.find (\<lambda>r. rv_id r = reservation_id) (ad_leases db))) (\<lambda>row.
     bindE (ownership row token_hash host_id) (\<lambda>_.
       if release
       then Inr (None, db\<lparr>ad_leases := filter (\<lambda>r. rv_id r \<noteq> reservation_id) (ad_leases db)\<rparr>)
       else if rv_expires row \<le> now then Inl (alloc_error ''EXPIRED'' 409)
       else Inr (Some (lease_of row), db))))"

subsection \<open>Binding a deployment\<close>

definition mapping ::
    "('n nic_core_scheme, 'v) vm_core_scheme list \<Rightarrow> (int \<times> (int \<times> string \<times> string) list) list" where
  "mapping vms =
     sort (map (\<lambda>vm. (vc_vmid vm, sort (map (\<lambda>n. (nc_index n, nc_bridge n, nc_ip n)) (vc_nics vm)))) vms)"

definition validate_binding :: "deployment_claim \<Rightarrow> deployment_ref \<Rightarrow> proxmox_host option \<Rightarrow> unit res" where
  "validate_binding claim dep host =
     (case host of
        None \<Rightarrow> Inl (alloc_error ''TARGET_CHANGED'' 409)
      | Some h \<Rightarrow>
          assertE (dc_host claim = dp_host dep \<and> dc_api_url claim = ph_api_url h
              \<and> dc_node_name claim = ph_node_name h \<and> dc_project_sha claim = dp_sha dep)
            (alloc_error ''TARGET_CHANGED'' 409))"

definition lease_to_transfer ::
    "(string \<Rightarrow> string) \<Rightarrow> instant \<Rightarrow> alloc_db \<Rightarrow> proxmox_host \<Rightarrow> claim_vm list
       \<Rightarrow> string option \<Rightarrow> string option \<Rightarrow> reservation option res" where
  "lease_to_transfer sha256 now db host assignments reservation_id token =
     (case reservation_id of
        None \<Rightarrow> Inr None
      | Some rid \<Rightarrow>
          if rid = [] then Inr None
          else case token of
            None \<Rightarrow> Inl (alloc_error ''OWNERSHIP'' 403)
          | Some tk \<Rightarrow>
              if tk = [] then Inl (alloc_error ''OWNERSHIP'' 403)
              else case List.find (\<lambda>r. rv_id r = rid) (ad_leases db) of
                None \<Rightarrow> Inl (alloc_error ''EXPIRED'' 409)
              | Some lease \<Rightarrow>
                  if rv_expires lease \<le> now then Inl (alloc_error ''EXPIRED'' 409)
                  else bindE (token_digest sha256 tk) (\<lambda>h.
                       bindE (ownership lease h (ph_id host)) (\<lambda>_.
                       bindE (assertE (rv_api_url lease = Some (ph_api_url host)
                                \<and> rv_node_name lease = ph_node_name host)
                                (alloc_error ''TARGET_CHANGED'' 409)) (\<lambda>_.
                       bindE (assertE (mapping (rv_assignments lease) = mapping assignments)
                                (alloc_error ''MAPPING_CHANGED'' 409)) (\<lambda>_.
                         Inr (Some lease))))))"

definition clash ::
    "claim_vm list \<Rightarrow> ('n nic_core_scheme, 'v) vm_core_scheme list \<Rightarrow> bool" where
  "clash assignments other =
     (ids_of assignments \<inter> ids_of other \<noteq> {} \<or> addrs_of assignments \<inter> addrs_of other \<noteq> {})"

definition any_protected :: "int list list \<Rightarrow> claim_vm list \<Rightarrow> bool res" where
  "any_protected ov vms =
     foldE (\<lambda>found vm. if found then Inr True else is_protected (vc_vmid vm) (Some ov)) False vms"

definition bind_new ::
    "(string \<Rightarrow> string) \<Rightarrow> instant \<Rightarrow> string \<Rightarrow> alloc_db \<Rightarrow> deployment_ref \<Rightarrow> proxmox_host \<Rightarrow> claim_vm list
       \<Rightarrow> string option \<Rightarrow> string option \<Rightarrow> (deployment_claim \<times> alloc_db) res" where
  "bind_new sha256 now new_id db dep host assignments reservation_id token =
     bindE (lease_to_transfer sha256 now db host assignments reservation_id token) (\<lambda>lease.
     bindE (protected_overrides host) (\<lambda>ov.
     bindE (any_protected ov assignments) (\<lambda>p.
       if p then Inl (alloc_error ''PROTECTED'' 409)
       else if (\<exists>c \<in> set (ad_claims db). clash assignments (dc_assignments c))
            \<or> (\<exists>r \<in> set (live_leases now db).
                 (case lease of Some l \<Rightarrow> rv_id r \<noteq> rv_id l | None \<Rightarrow> True)
                 \<and> clash assignments (rv_assignments r))
       then Inl (alloc_error ''OCCUPIED'' 409)
       else let claim = \<lparr>dc_id = new_id, dc_deployment = dp_id dep, dc_project_sha = dp_sha dep,
                  dc_host = ph_id host, dc_api_url = ph_api_url host, dc_node_name = ph_node_name host,
                  dc_assignments = assignments, dc_source = map_option rv_assignments lease,
                  dc_created = now\<rparr>
            in Inr (claim, db\<lparr>ad_claims := ad_claims db @ [claim],
                 ad_leases := (case lease of
                    None \<Rightarrow> ad_leases db
                  | Some l \<Rightarrow> filter (\<lambda>r. rv_id r \<noteq> rv_id l) (ad_leases db))\<rparr>))))"

definition bind ::
    "(string \<Rightarrow> string) \<Rightarrow> instant \<Rightarrow> string \<Rightarrow> alloc_db \<Rightarrow> deployment_ref \<Rightarrow> proxmox_host \<Rightarrow> claim_vm list
       \<Rightarrow> string option \<Rightarrow> string option \<Rightarrow> (deployment_claim \<times> alloc_db) res" where
  "bind sha256 now new_id db dep host assignments reservation_id token =
     (case List.find (\<lambda>c. dc_deployment c = dp_id dep) (ad_claims db) of
        Some existing \<Rightarrow>
          bindE (validate_binding existing dep (Some host)) (\<lambda>_.
          bindE (assertE (dc_assignments existing = assignments) (alloc_error ''MAPPING_CHANGED'' 409)) (\<lambda>_.
            Inr (existing, db)))
      | None \<Rightarrow> bind_new sha256 now new_id db dep host assignments reservation_id token)"

text \<open>The end of a claim: its row is deleted.\<close>

definition drop_claim :: "string \<Rightarrow> alloc_db \<Rightarrow> alloc_db" where
  "drop_claim i db = db\<lparr>ad_claims := filter (\<lambda>c. dc_id c \<noteq> i) (ad_claims db)\<rparr>"

definition ensure_for_attempt ::
    "(string \<Rightarrow> string) \<Rightarrow> instant \<Rightarrow> string \<Rightarrow> claim_vm list res \<Rightarrow> deployment_ref \<Rightarrow> bool \<Rightarrow> proxmox_host
       \<Rightarrow> alloc_db \<Rightarrow> alloc_db res" where
  "ensure_for_attempt sha256 now new_id manifest dep create checked_host db =
     bindE manifest (\<lambda>assignments.
     bindE (of_opt (alloc_error ''TARGET_CHANGED'' 409) (ad_deployments db (dp_id dep))) (\<lambda>fresh.
     bindE (assertE (dp_host fresh = dp_host dep \<and> dp_sha fresh = dp_sha dep)
              (alloc_error ''TARGET_CHANGED'' 409)) (\<lambda>_.
     bindE (of_opt (alloc_error ''TARGET_CHANGED'' 409) (ad_hosts db (dp_host fresh))) (\<lambda>host.
     bindE (assertE (same_registration host checked_host) (alloc_error ''TARGET_CHANGED'' 409)) (\<lambda>_.
       if List.find (\<lambda>c. dc_deployment c = dp_id fresh) (ad_claims db) \<noteq> None
          \<or> create \<and> assignments \<noteq> []
       then bindE (bind sha256 now new_id db fresh host assignments None None) (\<lambda>r. Inr (snd r))
       else Inr db)))))"

end
