(* ===== verification/Alloc_System.thy ===== *)
theory Alloc_System
  imports Alloc_Txn
begin

text \<open>
  The reservation ledger as a state machine. Its state is the current instant and the ledger;
  its steps are the committed transactions of \<open>Alloc_Txn\<close>, the passage of time, and changes of
  registered hosts and deployments. The invariant \<open>ledger_ok\<close> is the promise of the whole
  allocation subsystem: at every instant, no VMID and no bridge/address pair is held twice.
\<close>

subsection \<open>The probe loop\<close>

text \<open>
  What the loop relies on: a transaction saves a row only when each of its VMIDs is among the
  confirmed ones. What it gives: every VMID of a saved row was confirmed free on the cluster.
\<close>

locale probing =
  fixes free :: "int \<Rightarrow> bool res"
    and txn :: "occupancy \<Rightarrow> int set \<Rightarrow> instant \<Rightarrow> alloc_db \<Rightarrow> txn_result res"
  assumes saved_confirmed:
    "txn occ cf now db = Inr (Saved row db') \<Longrightarrow> ids_of (rv_assignments row) \<subseteq> cf"
begin

lemma probe_vmids_confirms:
  "probe_vmids free vs = Inr results \<Longrightarrow> v \<in> fst ` set (filter snd results) \<Longrightarrow> free v = Inr True"
  by (auto simp: probe_vmids_def res_simps dest!: mapE_Inr_setD)

lemma loop_confirms:
  "reserve_loop free ledger clock txn i probes cf occ = Inr (j, row, db') \<Longrightarrow>
   \<forall>v \<in> cf. free v = Inr True \<Longrightarrow>
   (\<forall>v \<in> ids_of (rv_assignments row). free v = Inr True) \<and> i \<le> j
     \<and> (\<exists>db occ' cf'. ledger j = Inr db \<and> txn occ' cf' (clock j) db = Inr (Saved row db'))"
proof (induction "nat (max_probes + 1 - probes)" arbitrary: i probes cf occ rule: less_induct)
  case less
  note run = less.prems(1) [unfolded reserve_loop.simps [of free ledger clock txn i probes cf occ]]
  from run obtain db r where go: "probes \<le> max_probes" and db: "ledger i = Inr db"
    and r: "txn occ cf (clock i) db = Inr r"
    by (auto simp: res_simps split: if_splits)
  show ?case
  proof (cases r)
    case (Saved row' db'')
    with run go db r have "j = i" "row' = row" "db'' = db'" by auto
    then show ?thesis
      using saved_confirmed r Saved db less.prems(2) by fastforce
  next
    case (Pending vs)
    with run go db r obtain results where vs: "vs \<noteq> []" and c: "probe_vmids free vs = Inr results"
      and rest: "reserve_loop free ledger clock txn (Suc i) (probes + int (length vs))
                  (cf \<union> fst ` set (filter snd results)) (probed results occ) = Inr (j, row, db')"
      by (auto simp: res_simps split: if_splits)
    have small: "nat (max_probes + 1 - (probes + int (length vs))) < nat (max_probes + 1 - probes)"
      using go vs by (auto simp: neq_Nil_conv)
    have "\<forall>v \<in> cf \<union> fst ` set (filter snd results). free v = Inr True"
      using less.prems(2) probe_vmids_confirms [OF c] by blast
    from less.hyps [OF small rest this] show ?thesis by auto
  qed
qed

end

lemma reserve_txn_Saved:
  assumes "reserve_txn host payload th nid ca occ cf now db = Inr (Saved row db')"
  shows "\<exists>current assignments.
     current = project_row (rq_project payload) (live_leases now db)
     \<and> reserve_guard host th (live_leases now db) current = Inr ()
     \<and> plan payload host (live_leases now db) (ad_claims db) current occ = Inr assignments
     \<and> ids_of assignments \<subseteq> cf
     \<and> rv_assignments row = assignments \<and> rv_project row = rq_project payload
     \<and> rv_expires row = now + 1000000 * rq_lease_seconds payload \<and> rv_checked row = ca
     \<and> rv_api_url row = Some (ph_api_url host)
     \<and> rv_id row = (case current of Some c \<Rightarrow> rv_id c | None \<Rightarrow> nid)
     \<and> rv_host row = ph_id host \<and> rv_token_hash row = th \<and> rv_node_name row = ph_node_name host
     \<and> db' = db\<lparr>ad_leases := save_row row current (live_leases now db)\<rparr>"
proof -
  let ?rows = "live_leases now db"
  let ?cur = "project_row (rq_project payload) ?rows"
  from assms obtain assignments where
    g: "reserve_guard host th ?rows ?cur = Inr ()"
    and p: "plan payload host ?rows (ad_claims db) ?cur occ = Inr assignments"
    and none: "filter (\<lambda>v. v \<notin> cf) (remdups (sort (map vc_vmid assignments))) = []"
    and row: "row = (case ?cur of
                   Some c \<Rightarrow> c
                 | None \<Rightarrow> \<lparr>rv_id = nid, rv_project = rq_project payload, rv_host = ph_id host,
                     rv_node_name = ph_node_name host, rv_api_url = None, rv_token_hash = th,
                     rv_assignments = [], rv_expires = now, rv_checked = now\<rparr>)
        \<lparr>rv_assignments := assignments, rv_api_url := Some (ph_api_url host), rv_checked := ca,
          rv_expires := now + 1000000 * rq_lease_seconds payload\<rparr>"
    and db': "db' = db\<lparr>ad_leases := save_row row ?cur ?rows\<rparr>"
    by (auto simp: reserve_txn_def res_simps Let_def split: if_splits)
  have "ids_of assignments \<subseteq> cf"
    using none by (auto simp: filter_empty_conv occupied_def)
  moreover have "rv_project row = rq_project payload
     \<and> rv_id row = (case ?cur of Some c \<Rightarrow> rv_id c | None \<Rightarrow> nid)
     \<and> rv_host row = ph_id host \<and> rv_token_hash row = th \<and> rv_node_name row = ph_node_name host"
  proof (cases ?cur)
    case None
    then show ?thesis by (simp add: row)
  next
    case (Some c)
    then have "rv_project c = rq_project payload"
      by (auto simp: project_row_def find_Some_iff)
    with Some g show ?thesis
      by (auto simp: row reserve_guard_def ownership_def res_simps split: if_splits)
  qed
  ultimately show ?thesis using g p row db' by auto
qed

interpretation reserve_probing:
  probing "vmid_is_free get host" "reserve_txn host payload th nid ca" for get host payload th nid ca
  by unfold_locales (auto dest!: reserve_txn_Saved)

subsection \<open>The invariant of the ledger\<close>

definition apart ::
    "('n nic_core_scheme, 'v) vm_core_scheme list \<Rightarrow> ('m nic_core_scheme, 'w) vm_core_scheme list \<Rightarrow> bool" where
  "apart a b = (ids_of a \<inter> ids_of b = {} \<and> addrs_of a \<inter> addrs_of b = {})"

definition holds_once :: "('n nic_core_scheme, 'v) vm_core_scheme list \<Rightarrow> bool" where
  "holds_once vms = (distinct (map vc_vmid vms) \<and> distinct (all_pairs vms))"

definition leases_ok :: "instant \<Rightarrow> alloc_db \<Rightarrow> bool" where
  "leases_ok now db =
     (distinct (map rv_id (ad_leases db))
      \<and> (\<forall>r \<in> set (live_leases now db). holds_once (rv_assignments r))
      \<and> (\<forall>r \<in> set (live_leases now db). \<forall>r' \<in> set (live_leases now db).
           rv_id r \<noteq> rv_id r' \<longrightarrow>
             rv_project r \<noteq> rv_project r' \<and> apart (rv_assignments r) (rv_assignments r')))"

definition claims_ok :: "alloc_db \<Rightarrow> bool" where
  "claims_ok db =
     (distinct (map dc_id (ad_claims db)) \<and> distinct (map dc_deployment (ad_claims db))
      \<and> (\<forall>c \<in> set (ad_claims db). holds_once (dc_assignments c))
      \<and> (\<forall>c \<in> set (ad_claims db). \<forall>c' \<in> set (ad_claims db).
           dc_id c \<noteq> dc_id c' \<longrightarrow> apart (dc_assignments c) (dc_assignments c')))"

definition ledger_ok :: "instant \<Rightarrow> alloc_db \<Rightarrow> bool" where
  "ledger_ok now db =
     (leases_ok now db \<and> claims_ok db
      \<and> (\<forall>r \<in> set (ad_leases db). \<forall>c \<in> set (ad_claims db). rv_id r \<noteq> dc_id c)
      \<and> (\<forall>r \<in> set (live_leases now db). \<forall>c \<in> set (ad_claims db).
           apart (rv_assignments r) (dc_assignments c)))"

lemma apart_sym: "apart a b \<Longrightarrow> apart b a"
  by (auto simp: apart_def)

lemma clash_apart: "clash a b \<longleftrightarrow> \<not> apart a b"
  by (auto simp: clash_def apart_def)

lemma live_leases_mono: "now \<le> now' \<Longrightarrow> set (live_leases now' db) \<subseteq> set (live_leases now db)"
  by (auto simp: live_leases_def)

lemma live_subset: "set (live_leases now db) \<subseteq> set (ad_leases db)"
  by (auto simp: live_leases_def)

text \<open>Time passing, and any loss of leases, keeps the invariant.\<close>

lemma ledger_ok_shrink:
  assumes ok: "ledger_ok now db" and sub: "set (live_leases now' db') \<subseteq> set (live_leases now db)"
    and all: "set (ad_leases db') \<subseteq> set (ad_leases db)" and d: "distinct (map rv_id (ad_leases db'))"
    and claims: "ad_claims db' = ad_claims db"
  shows "ledger_ok now' db'"
proof -
  have "leases_ok now' db'"
    using ok sub d unfolding ledger_ok_def leases_ok_def by blast
  moreover have "claims_ok db'" using ok claims by (simp add: ledger_ok_def claims_ok_def)
  ultimately show ?thesis using ok sub all claims unfolding ledger_ok_def by (simp add: subset_iff)
qed

lemma ledger_ok_tick: "ledger_ok now db \<Longrightarrow> now \<le> now' \<Longrightarrow> ledger_ok now' db"
  by (rule ledger_ok_shrink [OF _ live_leases_mono]) (auto simp: ledger_ok_def leases_ok_def)

lemma plan_apart:
  assumes "valid_request payload" and "plan payload host leases claims current occ = Inr out"
  shows "holds_once out"
    and "r \<in> set (other_leases current leases) \<Longrightarrow> apart out (rv_assignments r)"
    and "c \<in> set (other_claims current claims) \<Longrightarrow> apart out (dc_assignments c)"
proof -
  from plan_spec [OF assms] obtain ov env where
    e: "env = plan_env_of payload ov leases claims current occ"
    and d: "distinct (map vc_vmid out)" "ids_of out \<inter> pe_ids env = {}"
      "distinct (all_pairs out)" "addrs_of out \<inter> pe_ips env = {}"
    by (auto simp: all_pairs_addrs occupied_def)
  have i: "ids_of out \<inter> unavailable_ids (other_leases current leases) (other_claims current claims) occ = {}"
    and a: "addrs_of out \<inter> unavailable_ips (rq_networks payload) (other_leases current leases)
      (other_claims current claims) occ = {}"
    using d by (simp_all add: e plan_env_of_def)
  show "holds_once out" using d by (simp add: holds_once_def)
  show "apart out (rv_assignments r)" if "r \<in> set (other_leases current leases)"
    using i a that unfolding apart_def unavailable_ids_def unavailable_ips_def by blast
  show "apart out (dc_assignments c)" if "c \<in> set (other_claims current claims)"
    using i a that unfolding apart_def unavailable_ids_def unavailable_ips_def by blast
qed

lemma save_row_None:
  "set (save_row row None rows) = insert row (set rows)"
  "map rv_id (save_row row None rows) = map rv_id rows @ [rv_id row]"
  by (auto simp: save_row_def)

lemma save_row_Some:
  assumes "c \<in> set rows" and "rv_id row = rv_id c"
  shows "set (save_row row (Some c) rows) = insert row {r \<in> set rows. rv_id r \<noteq> rv_id row}"
    and "map rv_id (save_row row (Some c) rows) = map rv_id rows"
  using assms by (auto simp: save_row_def)

lemma reserve_txn_ok:
  assumes txn: "reserve_txn host payload th nid ca occ cf now db = Inr (Saved row db')"
    and v: "valid_request payload" and ok: "ledger_ok now db"
    and fresh: "nid \<notin> rv_id ` set (ad_leases db)" "nid \<notin> dc_id ` set (ad_claims db)"
  shows "ledger_ok now db'"
proof -
  let ?rows = "live_leases now db"
  from reserve_txn_Saved [OF txn] obtain current where
    cur: "current = project_row (rq_project payload) ?rows"
    and p: "plan payload host ?rows (ad_claims db) current occ = Inr (rv_assignments row)"
    and proj: "rv_project row = rq_project payload"
    and id: "rv_id row = (case current of Some c \<Rightarrow> rv_id c | None \<Rightarrow> nid)"
    and db': "db' = db\<lparr>ad_leases := save_row row current ?rows\<rparr>"
    by blast
  note apart = plan_apart [OF v p]
  have d: "distinct (map rv_id ?rows)"
    using ok by (auto simp: ledger_ok_def leases_ok_def live_leases_def distinct_map inj_on_def)
  have curc: "case current of None \<Rightarrow> \<forall>r \<in> set ?rows. rv_project r \<noteq> rq_project payload
      | Some c \<Rightarrow> c \<in> set ?rows \<and> rv_project c = rq_project payload"
    unfolding cur project_row_def
    by (auto simp: find_None_iff find_Some_iff split: option.splits)
  define others where "others = {r \<in> set ?rows. rv_id r \<noteq> rv_id row}"
  have rows': "set (ad_leases db') = insert row others \<and> distinct (map rv_id (ad_leases db'))"
  proof (cases current)
    case None
    then have "rv_id row \<notin> rv_id ` set ?rows" using id fresh(1) live_subset by fastforce
    then have "others = set ?rows" and "rv_id row \<notin> rv_id ` set ?rows"
      by (auto simp: others_def) (metis imageI)
    then show ?thesis using None d by (simp add: db' save_row_None)
  next
    case (Some c)
    then show ?thesis using curc id d by (simp add: db' save_row_Some [of c] others_def)
  qed
  have live: "set (live_leases now db') \<subseteq> insert row others"
    using rows' live_subset by blast
  have oth: "r \<in> set (other_leases current ?rows)" if "r \<in> others" for r
    using that id by (auto simp: others_def other_leases_def split: option.splits)
  have fresh_claims: "rv_id row \<noteq> dc_id c" if "c \<in> set (ad_claims db)" for c
  proof (cases current)
    case None
    then show ?thesis using id fresh(2) that by auto
  next
    case (Some k)
    then have "k \<in> set (ad_leases db)" using curc live_subset by auto
    then show ?thesis using Some id ok that by (auto simp: ledger_ok_def)
  qed
  have oc: "c \<in> set (other_claims current (ad_claims db))" if "c \<in> set (ad_claims db)" for c
    using fresh_claims [OF that] that id by (auto simp: other_claims_def split: option.splits)
  have proj_apart: "rv_project row \<noteq> rv_project r" if "r \<in> others" for r
  proof (cases current)
    case None
    then show ?thesis using that curc proj by (auto simp: others_def)
  next
    case (Some k)
    then have "k \<in> set ?rows" "rv_project k = rv_project row" "rv_id k \<noteq> rv_id r"
      using curc proj id that by (auto simp: others_def)
    then show ?thesis using ok that unfolding ledger_ok_def leases_ok_def others_def by fastforce
  qed
  have sub: "others \<subseteq> set ?rows" by (auto simp: others_def)
  have "leases_ok now db'"
    unfolding leases_ok_def
  proof (intro conjI ballI impI)
    show "distinct (map rv_id (ad_leases db'))" using rows' by simp
    fix r assume r: "r \<in> set (live_leases now db')"
    show "holds_once (rv_assignments r)"
      using r live sub apart(1) ok unfolding ledger_ok_def leases_ok_def by blast
    fix r' assume r': "r' \<in> set (live_leases now db')" and ne: "rv_id r \<noteq> rv_id r'"
    show "rv_project r \<noteq> rv_project r'"
      using r r' ne live sub proj_apart ok unfolding ledger_ok_def leases_ok_def by (metis insertE subsetD)
    show "apart (rv_assignments r) (rv_assignments r')"
      using r r' ne live sub apart(2) [OF oth] apart_sym ok unfolding ledger_ok_def leases_ok_def
      by (metis insertE subsetD)
  qed
  moreover have "claims_ok db'" using ok by (simp add: db' ledger_ok_def claims_ok_def)
  moreover have "rv_id r \<noteq> dc_id c" if "r \<in> set (ad_leases db')" "c \<in> set (ad_claims db')" for r c
    using that rows' fresh_claims sub live_subset ok unfolding ledger_ok_def db' by auto blast
  moreover have "apart (rv_assignments r) (dc_assignments c)"
    if "r \<in> set (live_leases now db')" "c \<in> set (ad_claims db')" for r c
  proof -
    have c: "c \<in> set (ad_claims db)" using that(2) by (simp add: db')
    show ?thesis
      using that(1) c live sub apart(3) [OF oc [OF c]] ok unfolding ledger_ok_def by blast
  qed
  ultimately show ?thesis unfolding ledger_ok_def by blast
qed

lemma release_ok:
  assumes r: "get_or_release sha256 now host_id rid token rel db = Inr (l, db')" and ok: "ledger_ok now db"
  shows "ledger_ok now db'"
proof -
  have "ad_claims db' = ad_claims db" "set (ad_leases db') \<subseteq> set (ad_leases db)"
    "distinct (map rv_id (ad_leases db'))"
    using r ok by (auto simp: get_or_release_def res_simps ledger_ok_def leases_ok_def distinct_map_filter
        split: if_splits)
  moreover from this have "set (live_leases now db') \<subseteq> set (live_leases now db)"
    by (auto simp: live_leases_def)
  ultimately show ?thesis using ledger_ok_shrink [OF ok] by blast
qed

lemma lease_to_transfer_Some:
  "lease_to_transfer sha256 now db host assignments rid token = Inr (Some l) \<Longrightarrow>
     l \<in> set (ad_leases db) \<and> now < rv_expires l \<and> mapping (rv_assignments l) = mapping assignments
     \<and> rv_api_url l = Some (ph_api_url host) \<and> rv_node_name l = ph_node_name host \<and> rv_host l = ph_id host"
  by (auto simp: lease_to_transfer_def res_simps find_Some_iff ownership_def split: option.splits if_splits)

lemma bind_new_Inr:
  assumes "bind_new sha256 now nid db dep host vms rid token = Inr (claim, db')"
  shows "\<exists>lease ov. lease_to_transfer sha256 now db host vms rid token = Inr lease
     \<and> protected_overrides host = Inr ov \<and> any_protected ov vms = Inr False
     \<and> (\<forall>c \<in> set (ad_claims db). apart vms (dc_assignments c))
     \<and> (\<forall>r \<in> set (live_leases now db). (case lease of Some l \<Rightarrow> rv_id r \<noteq> rv_id l | None \<Rightarrow> True)
           \<longrightarrow> apart vms (rv_assignments r))
     \<and> claim = \<lparr>dc_id = nid, dc_deployment = dp_id dep, dc_project_sha = dp_sha dep,
                  dc_host = ph_id host, dc_api_url = ph_api_url host, dc_node_name = ph_node_name host,
                  dc_assignments = vms, dc_source = map_option rv_assignments lease, dc_created = now\<rparr>
     \<and> db' = db\<lparr>ad_claims := ad_claims db @ [claim],
                 ad_leases := (case lease of None \<Rightarrow> ad_leases db
                  | Some l \<Rightarrow> filter (\<lambda>r. rv_id r \<noteq> rv_id l) (ad_leases db))\<rparr>"
  using assms by (auto simp: bind_new_def res_simps Let_def clash_apart split: if_splits)

lemma bind_new_ok:
  assumes b: "bind_new sha256 now nid db dep host vms rid token = Inr (claim, db')"
    and ok: "ledger_ok now db" and once: "holds_once vms"
    and fresh: "nid \<notin> rv_id ` set (ad_leases db)" "nid \<notin> dc_id ` set (ad_claims db)"
    and new: "dp_id dep \<notin> dc_deployment ` set (ad_claims db)"
  shows "ledger_ok now db'"
proof -
  from bind_new_Inr [OF b] obtain lease :: "reservation option" where
    ac: "\<forall>c \<in> set (ad_claims db). apart vms (dc_assignments c)"
    and al: "\<forall>r \<in> set (live_leases now db). (case lease of Some l \<Rightarrow> rv_id r \<noteq> rv_id l | None \<Rightarrow> True)
           \<longrightarrow> apart vms (rv_assignments r)"
    and c: "claim = \<lparr>dc_id = nid, dc_deployment = dp_id dep, dc_project_sha = dp_sha dep,
                  dc_host = ph_id host, dc_api_url = ph_api_url host, dc_node_name = ph_node_name host,
                  dc_assignments = vms, dc_source = map_option rv_assignments lease, dc_created = now\<rparr>"
    and db': "db' = db\<lparr>ad_claims := ad_claims db @ [claim],
                 ad_leases := (case lease of None \<Rightarrow> ad_leases db
                  | Some l \<Rightarrow> filter (\<lambda>r. rv_id r \<noteq> rv_id l) (ad_leases db))\<rparr>"
    by blast
  have claim: "dc_id claim = nid" "dc_deployment claim = dp_id dep" "dc_assignments claim = vms"
    by (simp_all add: c)
  define dbl where "dbl = db\<lparr>ad_leases := ad_leases db'\<rparr>"
  have "ledger_ok now dbl"
  proof (rule ledger_ok_shrink [OF ok])
    show "distinct (map rv_id (ad_leases dbl))"
      using ok by (auto simp: dbl_def db' ledger_ok_def leases_ok_def distinct_map_filter split: option.splits)
  qed (auto simp: dbl_def db' live_leases_def split: option.splits)
  moreover have "leases_ok now db' = leases_ok now dbl"
    by (simp add: leases_ok_def dbl_def live_leases_def)
  moreover have live: "live_leases now db' = live_leases now dbl" by (simp add: dbl_def live_leases_def)
  have ca: "\<forall>c \<in> set (ad_claims db). apart (dc_assignments c) vms"
    using ac apart_sym by blast
  moreover have "claims_ok db'"
    using ok claim ac ca once fresh(2) new
    unfolding ledger_ok_def claims_ok_def db' by auto
  moreover have fr: "rv_id r \<noteq> nid" if "r \<in> set (ad_leases db)" for r
    using fresh(1) that by (metis imageI)
  moreover have "rv_id r \<noteq> dc_id c" if "r \<in> set (ad_leases db')" "c \<in> set (ad_claims db')" for r c
    using that ok fr claim(1) unfolding ledger_ok_def db' by (auto split: option.splits)
  moreover have "apart (rv_assignments r) (dc_assignments c)"
    if r: "r \<in> set (live_leases now db')" and c: "c \<in> set (ad_claims db')" for r c
  proof (cases "c = claim")
    case True
    have "r \<in> set (live_leases now db) \<and> (case lease of Some l \<Rightarrow> rv_id r \<noteq> rv_id l | None \<Rightarrow> True)"
      using r by (auto simp: live_leases_def db' split: option.splits)
    then show ?thesis using al True claim(3) apart_sym by auto
  next
    case False
    then have "r \<in> set (live_leases now dbl)" "c \<in> set (ad_claims dbl)"
      using r c live by (auto simp: dbl_def db')
    then show ?thesis using \<open>ledger_ok now dbl\<close> unfolding ledger_ok_def by blast
  qed
  ultimately show ?thesis unfolding ledger_ok_def by blast
qed

lemma bind_ok:
  assumes "bind sha256 now nid db dep host vms rid token = Inr (claim, db')"
    and "ledger_ok now db" and "holds_once vms"
    and "nid \<notin> rv_id ` set (ad_leases db)" "nid \<notin> dc_id ` set (ad_claims db)"
  shows "ledger_ok now db'"
proof (cases "List.find (\<lambda>c. dc_deployment c = dp_id dep) (ad_claims db)")
  case None
  then have "dp_id dep \<notin> dc_deployment ` set (ad_claims db)" by (auto simp: find_None_iff)
  with None assms show ?thesis by (auto simp: bind_def intro: bind_new_ok)
next
  case (Some existing)
  with assms show ?thesis by (auto simp: bind_def res_simps)
qed

lemma ensure_for_attempt_ok:
  assumes "ensure_for_attempt sha256 now nid manifest dep create ch db = Inr db'" and "manifest = Inr vms"
    and "ledger_ok now db" and "holds_once vms"
    and "nid \<notin> rv_id ` set (ad_leases db)" "nid \<notin> dc_id ` set (ad_claims db)"
  shows "ledger_ok now db'"
  using assms by (auto simp: ensure_for_attempt_def res_simps split: if_splits intro: bind_ok)

lemma drop_claim_ok: "ledger_ok now db \<Longrightarrow> ledger_ok now (drop_claim i db)"
  by (auto simp: ledger_ok_def leases_ok_def claims_ok_def live_leases_def drop_claim_def distinct_map_filter)

subsection \<open>The machine\<close>

inductive alloc_step :: "instant \<times> alloc_db \<Rightarrow> instant \<times> alloc_db \<Rightarrow> bool" where
  step_tick: "now \<le> now' \<Longrightarrow> alloc_step (now, db) (now', db)"
| step_reserve: "valid_request payload \<Longrightarrow>
    reserve_txn host payload th nid ca occ cf now db = Inr (Saved row db') \<Longrightarrow>
    nid \<notin> rv_id ` set (ad_leases db) \<union> dc_id ` set (ad_claims db) \<Longrightarrow>
    alloc_step (now, db) (now, db')"
| step_release: "get_or_release sha256 now host_id rid token rel db = Inr (l, db') \<Longrightarrow>
    alloc_step (now, db) (now, db')"
| step_bind: "bind sha256 now nid db dep host vms rid token = Inr (claim, db') \<Longrightarrow> holds_once vms \<Longrightarrow>
    nid \<notin> rv_id ` set (ad_leases db) \<union> dc_id ` set (ad_claims db) \<Longrightarrow>
    alloc_step (now, db) (now, db')"
| step_unclaim: "alloc_step (now, db) (now, drop_claim claim_id db)"
| step_register: "alloc_step (now, db) (now, db\<lparr>ad_hosts := hosts, ad_deployments := deployments\<rparr>)"

inductive_cases alloc_stepE: "alloc_step s t"

lemma ledger_ok_register:
  "ledger_ok now (db\<lparr>ad_hosts := hosts, ad_deployments := deployments\<rparr>) = ledger_ok now db"
  by (simp add: ledger_ok_def leases_ok_def claims_ok_def live_leases_def)

interpretation ledger: machine alloc_step "\<lambda>s. ledger_ok (fst s) (snd s)"
proof
  show "alloc_step s t \<Longrightarrow> ledger_ok (fst s) (snd s) \<Longrightarrow> ledger_ok (fst t) (snd t)" for s t
    by (erule alloc_stepE)
       (auto intro: ledger_ok_tick reserve_txn_ok release_ok bind_ok drop_claim_ok simp: ledger_ok_register)
qed

definition empty_ledger :: alloc_db where
  "empty_ledger = \<lparr>ad_leases = [], ad_claims = [], ad_hosts = Map.empty, ad_deployments = Map.empty\<rparr>"

lemma empty_ledger_ok: "ledger_ok now empty_ledger"
  by (simp add: ledger_ok_def leases_ok_def claims_ok_def live_leases_def empty_ledger_def)

subsection \<open>Properties of the ledger\<close>

text \<open>
  C1: starting from an empty ledger, whatever reservations, renewals, releases, bindings, ends of claims and
  registrations are committed and however time passes, no VMID and no bridge/address pair is held
  by two live leases, by two deployments, or by a live lease and a deployment.
\<close>

theorem ledger_never_double_books:
  assumes "alloc_step\<^sup>*\<^sup>* (t0, empty_ledger) (now, db)"
  shows "ledger_ok now db"
  using ledger.reachable_inv [OF assms] empty_ledger_ok by simp

definition sample_ledger :: alloc_db where
  "sample_ledger = empty_ledger\<lparr>ad_hosts := [''h1'' \<mapsto> sample_host]\<rparr>"

definition sample_row :: reservation where
  "sample_row = \<lparr>rv_id = ''r1'', rv_project = ''lab'', rv_host = ''h1'', rv_node_name = ''pve'',
     rv_api_url = Some ''https://p/'', rv_token_hash = ''digest'', rv_assignments = sample_plan,
     rv_expires = 600000005, rv_checked = 4\<rparr>"

lemma sample_reserve_txn:
  "reserve_txn sample_host sample_request ''digest'' ''r1'' 4 sample_occupancy {1024, 1026} 5 sample_ledger
     = Inr (Saved sample_row (sample_ledger\<lparr>ad_leases := [sample_row]\<rparr>))"
  using sample_plan_run
  by (simp add: reserve_txn_def live_leases_def sample_ledger_def empty_ledger_def project_row_def
      reserve_guard_def max_active_leases_def same_registration_def save_row_def sample_row_def
      sample_host_def sample_request_def sample_plan_def Let_def)

lemma sample_run:
  "alloc_step\<^sup>*\<^sup>* (0, empty_ledger) (5, sample_ledger\<lparr>ad_leases := [sample_row]\<rparr>)"
proof -
  have "alloc_step (0, empty_ledger) (5, empty_ledger)" by (rule step_tick) simp
  moreover have "alloc_step (5, empty_ledger) (5, sample_ledger)"
    using step_register [where now = 5 and db = empty_ledger
        and hosts = "[''h1'' \<mapsto> sample_host]" and deployments = Map.empty]
    by (simp add: sample_ledger_def empty_ledger_def)
  moreover have "alloc_step (5, sample_ledger) (5, sample_ledger\<lparr>ad_leases := [sample_row]\<rparr>)"
    by (rule step_reserve [OF sample_request_valid sample_reserve_txn])
       (simp add: sample_ledger_def empty_ledger_def)
  ultimately show ?thesis by (meson rtranclp.rtrancl_into_rtrancl rtranclp.rtrancl_refl)
qed

theorem ledger_never_double_books_witness:
  "ledger_ok 5 (sample_ledger\<lparr>ad_leases := [sample_row]\<rparr>)"
  by (rule ledger_never_double_books [OF sample_run])

text \<open>
  C5: a reservation that succeeds was written by one ledger transaction of the loop, belongs to the
  presented token and host, expires the requested time after that transaction's clock, and every
  VMID in it was individually confirmed free on the cluster.
\<close>

theorem reserve_confirmed:
  assumes "reserve sha256 get ledger clock host payload token nid ca reserved = Inr (j, row, db')"
  shows "list_all (\<lambda>vm. vmid_is_free get host (vc_vmid vm) = Inr True) (rv_assignments row)
    \<and> rv_token_hash row = sha256 token \<and> rv_host row = ph_id host
    \<and> rv_expires row = clock j + 1000000 * rq_lease_seconds payload
    \<and> (\<exists>db occ cf. ledger j = Inr db \<and>
         reserve_txn host payload (sha256 token) nid ca occ cf (clock j) db = Inr (Saved row db'))"
proof -
  from assms obtain occ where
    "reserve_loop (vmid_is_free get host) ledger clock
       (reserve_txn host payload (sha256 token) nid ca) 1 0 {} occ = Inr (j, row, db')"
    by (auto simp: reserve_def res_simps)
  from reserve_probing.loop_confirms [OF this] obtain db occ' cf where
    f: "\<forall>v \<in> ids_of (rv_assignments row). vmid_is_free get host v = Inr True" and l: "ledger j = Inr db"
    and t: "reserve_txn host payload (sha256 token) nid ca occ' cf (clock j) db = Inr (Saved row db')"
    by auto
  have "list_all (\<lambda>vm. vmid_is_free get host (vc_vmid vm) = Inr True) (rv_assignments row)"
    using f by (simp add: list_all_iff occupied_def)
  then show ?thesis using l t reserve_txn_Saved [OF t] by blast
qed

definition sample_token :: string where
  "sample_token = ''0123456789abcdef0123456789abcdef''"

definition reserve_get :: http_get where
  "reserve_get url params =
     (if url = ''https://p/api2/json/cluster/nextid''
      then map_option (\<lambda>v. \<lparr>hr_status = 200, hr_body = Some (JObj [(''data'', v)])\<rparr>) (dget params ''vmid'')
      else sample_get url params)"

definition sample_occupancy2 :: occupancy where
  "sample_occupancy2 = \<lparr>occ_vmids = {200, 1025},
     occ_addresses = {(''b0'', ''10.0.0.5''), (''b0'', ''10.0.0.1''), (''vmbr1'', ''10.0.1.3'')}, occ_unknown = 0\<rparr>"

lemma reserve_get_occupancy:
  "bindE (read_occupancy reserve_get sample_host) (\<lambda>occ. Inr (with_reserved (Some sample_occupancy) occ))
     = Inr sample_occupancy2"
  by (simp add: eval_defs reserve_get_def with_reserved_def sample_occupancy_def sample_occupancy2_def insert_commute)

lemma reserve_get_free: "vmid_is_free reserve_get sample_host 1024 = Inr True"
  "vmid_is_free reserve_get sample_host 1026 = Inr True"
  by (simp_all add: vmid_is_free_def reserve_get_def eval_defs names_vmid_def)

lemma sample_env2:
  "plan_env_of sample_request [] [] [] None sample_occupancy2 =
     \<lparr>pe_overrides = [], pe_networks = [''lan'' \<mapsto> sample_network], pe_ids = {200, 1025},
      pe_ips = {(''b0'', ''10.0.0.5''), (''b0'', ''10.0.0.1''), (''vmbr1'', ''10.0.1.3''), (''vmbr1'', ''10.0.1.1'')}\<rparr>"
  by (auto simp: plan_env_of_def sample_request_def sample_occupancy2_def unavailable_ids_def unavailable_ips_def
      other_leases_def other_claims_def network_map_def fun_eq_iff sample_network_def gateway_list_def)

lemma sample_plan_run2: "plan sample_request sample_host [] [] None sample_occupancy2 = Inr sample_plan"
  by (simp add: plan_def sample_host_overrides Let_def sample_env2)
     (simp add: plan_eval sample_request_def sample_network_def sample_plan_def sample_subnet sample_addresses
       sample_hosts usable_in_def in_net_def net_broadcast_def net_size_def host_count_def host_at_def
       List.map_filter_def)

lemma sample_txn2:
  "reserve_txn sample_host sample_request ''digest'' ''r1'' 4 sample_occupancy2 {} 5 sample_ledger
     = Inr (Pending [1024, 1026])"
  "reserve_txn sample_host sample_request ''digest'' ''r1'' 4 sample_occupancy2 {1024, 1026} 5 sample_ledger
     = Inr (Saved sample_row (sample_ledger\<lparr>ad_leases := [sample_row]\<rparr>))"
  using sample_plan_run2
  by (simp_all add: reserve_txn_def live_leases_def sample_ledger_def empty_ledger_def project_row_def
      reserve_guard_def max_active_leases_def same_registration_def save_row_def sample_row_def
      sample_host_def sample_request_def sample_plan_def Let_def)

lemma sample_reserve:
  "reserve (\<lambda>_. ''digest'') reserve_get (\<lambda>_. Inr sample_ledger) (\<lambda>_. 5) sample_host sample_request
     sample_token ''r1'' 4 (Some sample_occupancy)
   = Inr (2, sample_row, sample_ledger\<lparr>ad_leases := [sample_row]\<rparr>)"
proof -
  have t: "token_digest (\<lambda>_. ''digest'') sample_token = Inr ''digest''"
    by (simp add: token_digest_def class_match_def sample_token_def is_alnum_def is_alpha_def is_digit_def)
  have p: "project_row (rq_project sample_request) (ad_leases sample_ledger) = None"
    by (simp add: project_row_def sample_ledger_def empty_ledger_def)
  obtain occ where o: "read_occupancy reserve_get sample_host = Inr occ"
    "with_reserved (Some sample_occupancy) occ = sample_occupancy2"
    using reserve_get_occupancy by (auto simp: res_simps)
  let ?loop = "reserve_loop (vmid_is_free reserve_get sample_host) (\<lambda>_. Inr sample_ledger) (\<lambda>_. 5)
      (reserve_txn sample_host sample_request ''digest'' ''r1'' 4)"
  have pr: "probed [(1024, True), (1026, True)] sample_occupancy2 = sample_occupancy2"
    by (simp add: probed_def)
  have cf: "fst ` set (filter snd [(1024 :: int, True), (1026, True)]) = {1024, 1026}" by auto
  have "?loop 2 2 {1024, 1026} sample_occupancy2 = Inr (2, sample_row, sample_ledger\<lparr>ad_leases := [sample_row]\<rparr>)"
    by (simp add: reserve_loop.simps max_probes_def sample_txn2)
  moreover have "probe_vmids (vmid_is_free reserve_get sample_host) [1024, 1026] = Inr [(1024, True), (1026, True)]"
    by (simp add: probe_vmids_def reserve_get_free)
  ultimately have "?loop 1 0 {} sample_occupancy2 = Inr (2, sample_row, sample_ledger\<lparr>ad_leases := [sample_row]\<rparr>)"
    using pr cf by (subst reserve_loop.simps) (simp add: max_probes_def sample_txn2 numeral_2_eq_2 del: set_filter)
  then show ?thesis
    by (simp add: reserve_def t p o reserve_errors_def)
qed

theorem reserve_confirmed_witness:
  "list_all (\<lambda>vm. vmid_is_free reserve_get sample_host (vc_vmid vm) = Inr True) (rv_assignments sample_row)
    \<and> rv_token_hash sample_row = ''digest'' \<and> rv_host sample_row = ph_id sample_host
    \<and> rv_expires sample_row = 5 + 1000000 * rq_lease_seconds sample_request"
  using reserve_confirmed [OF sample_reserve] by blast

text \<open>
  A lease is shown or released only to the holder of its token at its host; releasing removes
  exactly that lease, and an expired lease is never shown.
\<close>

theorem lease_owner_only:
  assumes "get_or_release sha256 now host_id rid token rel db = Inr (out, db')"
  shows "\<exists>row \<in> set (ad_leases db). rv_id row = rid \<and> rv_token_hash row = sha256 token \<and> rv_host row = host_id
    \<and> (if rel then out = None \<and> db' = db\<lparr>ad_leases := filter (\<lambda>r. rv_id r \<noteq> rid) (ad_leases db)\<rparr>
       else out = Some (lease_of row) \<and> now < rv_expires row \<and> db' = db)"
proof -
  from assms obtain row where f: "List.find (\<lambda>r. rv_id r = rid) (ad_leases db) = Some row"
    and o: "rv_token_hash row = sha256 token" "rv_host row = host_id"
    and r: "if rel then out = None \<and> db' = db\<lparr>ad_leases := filter (\<lambda>r. rv_id r \<noteq> rid) (ad_leases db)\<rparr>
       else out = Some (lease_of row) \<and> now < rv_expires row \<and> db' = db"
    by (auto simp: get_or_release_def res_simps split: if_splits)
  have "row \<in> set (ad_leases db) \<and> rv_id row = rid"
    using f by (auto simp: find_Some_iff)
  with o r show ?thesis by blast
qed

theorem lease_owner_only_witness:
  "\<exists>row \<in> set (ad_leases (sample_ledger\<lparr>ad_leases := [sample_row]\<rparr>)).
     rv_id row = ''r1'' \<and> rv_token_hash row = ''digest'' \<and> rv_host row = ''h1''
    \<and> (if True then None = (None :: allocation_lease option) \<and> sample_ledger = (sample_ledger\<lparr>ad_leases := [sample_row]\<rparr>)
          \<lparr>ad_leases := filter (\<lambda>r. rv_id r \<noteq> ''r1'') (ad_leases (sample_ledger\<lparr>ad_leases := [sample_row]\<rparr>))\<rparr>
       else None = Some (lease_of row) \<and> 6 < rv_expires row
          \<and> sample_ledger = sample_ledger\<lparr>ad_leases := [sample_row]\<rparr>)"
  by (rule lease_owner_only [of "\<lambda>_. ''digest''" 6 "''h1''" "''r1''" sample_token True])
     (simp add: get_or_release_def token_digest_def class_match_def sample_token_def is_alnum_def is_alpha_def
       is_digit_def sample_row_def ownership_def sample_ledger_def empty_ledger_def)

lemma mapping_occupied:
  assumes "mapping a = mapping b"
  shows "occupied a = occupied b"
proof -
  let ?nics = "\<lambda>vm. sort (map (\<lambda>n. (nc_index n, nc_bridge n, nc_ip n)) (vc_nics vm))"
  have ids: "ids_of vms = fst ` set (mapping vms)" for vms :: "('x nic_core_scheme, 'y) vm_core_scheme list"
    by (auto simp: occupied_def mapping_def image_iff)
  have addrs: "addrs_of vms = (\<Union>p \<in> set (mapping vms). snd ` set (snd p))"
    for vms :: "('x nic_core_scheme, 'y) vm_core_scheme list"
    by (auto simp: occupied_def mapping_def image_image)
  show ?thesis by (rule prod_eqI) (simp_all only: ids addrs assms)
qed

lemma any_protected_pairs:
  assumes "pairs_ok (Some ov)"
  shows "any_protected ov vms = Inr (\<exists>v \<in> ids_of vms. protected_id (Some ov) v)"
proof -
  have "foldE (\<lambda>found vm. if found then Inr True else is_protected (vc_vmid vm) (Some ov)) b vms
      = Inr (b \<or> (\<exists>v \<in> ids_of vms. protected_id (Some ov) v))" for b
    by (induction vms arbitrary: b) (auto simp: is_protected_pairs [OF assms] occupied_def)
  then show ?thesis by (simp add: any_protected_def)
qed

lemma lease_to_transfer_given:
  assumes "lease_to_transfer sha256 now db host vms (Some rid) token = Inr lease" and "rid \<noteq> []"
  shows "\<exists>l tk. lease = Some l \<and> token = Some tk \<and> l \<in> set (ad_leases db) \<and> rv_id l = rid
    \<and> now < rv_expires l \<and> rv_token_hash l = sha256 tk \<and> rv_host l = ph_id host
    \<and> rv_api_url l = Some (ph_api_url host) \<and> mapping (rv_assignments l) = mapping vms"
  using assms
  by (auto simp: lease_to_transfer_def res_simps find_Some_iff split: option.splits if_splits)

definition sample_claim_vms :: "claim_vm list" where
  "sample_claim_vms =
     [\<lparr>vc_vmid = 1024, vc_nics = [\<lparr>nc_index = 0, nc_bridge = ''vmbr1'', nc_ip = ''10.0.1.2''\<rparr>], cv_name = None\<rparr>,
      \<lparr>vc_vmid = 1026, vc_nics = [\<lparr>nc_index = 0, nc_bridge = ''vmbr1'', nc_ip = ''10.0.1.4''\<rparr>], cv_name = None\<rparr>]"

definition sample_deployment :: deployment_ref where
  "sample_deployment = \<lparr>dp_id = ''d1'', dp_host = ''h1'', dp_sha = ''c0ffee''\<rparr>"

definition sample_claim :: deployment_claim where
  "sample_claim = \<lparr>dc_id = ''c1'', dc_deployment = ''d1'', dc_project_sha = ''c0ffee'', dc_host = ''h1'',
     dc_api_url = ''https://p/'', dc_node_name = ''pve'', dc_assignments = sample_claim_vms,
     dc_source = Some sample_plan, dc_created = 7\<rparr>"

lemma sample_bind:
  "bind (\<lambda>_. ''digest'') 7 ''c1'' (sample_ledger\<lparr>ad_leases := [sample_row]\<rparr>) sample_deployment sample_host
     sample_claim_vms (Some ''r1'') (Some sample_token)
   = Inr (sample_claim, sample_ledger\<lparr>ad_claims := [sample_claim]\<rparr>)"
proof -
  have t: "lease_to_transfer (\<lambda>_. ''digest'') 7 (sample_ledger\<lparr>ad_leases := [sample_row]\<rparr>) sample_host
      sample_claim_vms (Some ''r1'') (Some sample_token) = Inr (Some sample_row)"
    by (simp add: lease_to_transfer_def sample_row_def token_digest_def class_match_def sample_token_def
        is_alnum_def is_alpha_def is_digit_def ownership_def sample_host_def mapping_def sample_plan_def
        sample_claim_vms_def)
  have "\<not> protected_id (Some []) 1024" "\<not> protected_id (Some []) 1026"
    by (simp_all add: protected_id_def effective_ranges_def default_protected_ranges_def in_range_def)
  then have "any_protected [] sample_claim_vms = Inr False"
    by (simp add: any_protected_pairs pairs_ok_def occupied_def sample_claim_vms_def)
  moreover have "List.find (\<lambda>c. dc_deployment c = dp_id sample_deployment)
      (ad_claims (sample_ledger\<lparr>ad_leases := [sample_row]\<rparr>)) = None"
    by (simp add: sample_ledger_def empty_ledger_def)
  ultimately show ?thesis
    unfolding bind_def bind_new_def t sample_host_overrides
    by simp (simp add: Let_def sample_ledger_def empty_ledger_def live_leases_def sample_claim_def sample_deployment_def
         sample_host_def sample_row_def)
qed

text \<open>
  C6: binding a deployment with a reservation moves the holdings: the lease was live, owned by the
  presented token and on the same target, the claim holds exactly its VMIDs and addresses, none of
  them protected, and the lease is consumed in the same transaction.
\<close>

theorem bind_consumes_lease:
  assumes "bind sha256 now nid db dep host vms (Some rid) token = Inr (claim, db')"
    and "rid \<noteq> []" and "\<forall>c \<in> set (ad_claims db). dc_deployment c \<noteq> dp_id dep"
  shows "\<exists>lease \<in> set (ad_leases db). rv_id lease = rid \<and> now < rv_expires lease
    \<and> (\<exists>tk. token = Some tk \<and> rv_token_hash lease = sha256 tk)
    \<and> rv_host lease = ph_id host \<and> rv_api_url lease = Some (ph_api_url host)
    \<and> occupied (dc_assignments claim) = occupied (rv_assignments lease)
    \<and> (\<exists>ov. protected_overrides host = Inr ov
         \<and> list_all (\<lambda>vm. assert_vmid_safe (vc_vmid vm) (Some ov) = Inr ()) (dc_assignments claim))
    \<and> rid \<notin> rv_id ` set (ad_leases db') \<and> claim \<in> set (ad_claims db')"
proof -
  have "List.find (\<lambda>c. dc_deployment c = dp_id dep) (ad_claims db) = None"
    using assms(3) by (simp add: find_None_iff)
  with assms(1) have "bind_new sha256 now nid db dep host vms (Some rid) token = Inr (claim, db')"
    by (simp add: bind_def)
  from bind_new_Inr [OF this] obtain lease :: "reservation option" and ov where
    t: "lease_to_transfer sha256 now db host vms (Some rid) token = Inr lease"
    and ov: "protected_overrides host = Inr ov" "any_protected ov vms = Inr False"
    and c: "dc_assignments claim = vms"
    and db': "db' = db\<lparr>ad_claims := ad_claims db @ [claim],
                 ad_leases := (case lease of None \<Rightarrow> ad_leases db
                  | Some l \<Rightarrow> filter (\<lambda>r. rv_id r \<noteq> rv_id l) (ad_leases db))\<rparr>"
    by (metis deployment_claim.select_convs(7))
  from lease_to_transfer_given [OF t assms(2)] obtain l tk where
    l: "lease = Some l" "token = Some tk" "l \<in> set (ad_leases db)" "rv_id l = rid"
    "now < rv_expires l" "rv_token_hash l = sha256 tk" "rv_host l = ph_id host"
    "rv_api_url l = Some (ph_api_url host)" "mapping (rv_assignments l) = mapping vms" by blast
  have safe: "list_all (\<lambda>vm. assert_vmid_safe (vc_vmid vm) (Some ov) = Inr ()) (dc_assignments claim)"
    using ov any_protected_pairs [OF protected_overrides_pairs [OF ov(1)]]
    by (simp add: assert_vmid_safe_iff c list_all_iff occupied_def)
  have occ: "occupied (dc_assignments claim) = occupied (rv_assignments l)"
    using mapping_occupied [OF l(9)] c by simp
  show ?thesis
    using l safe occ ov(1) by (intro bexI [of _ l]) (auto simp: db')
qed

theorem bind_consumes_lease_witness:
  "\<exists>lease \<in> set (ad_leases (sample_ledger\<lparr>ad_leases := [sample_row]\<rparr>)).
     rv_id lease = ''r1'' \<and> 7 < rv_expires lease
    \<and> (\<exists>tk. Some sample_token = Some tk \<and> rv_token_hash lease = (\<lambda>_. ''digest'') tk)
    \<and> rv_host lease = ph_id sample_host \<and> rv_api_url lease = Some (ph_api_url sample_host)
    \<and> occupied (dc_assignments sample_claim) = occupied (rv_assignments lease)
    \<and> (\<exists>ov. protected_overrides sample_host = Inr ov
         \<and> list_all (\<lambda>vm. assert_vmid_safe (vc_vmid vm) (Some ov) = Inr ()) (dc_assignments sample_claim))
    \<and> ''r1'' \<notin> rv_id ` set (ad_leases (sample_ledger\<lparr>ad_claims := [sample_claim]\<rparr>))
    \<and> sample_claim \<in> set (ad_claims (sample_ledger\<lparr>ad_claims := [sample_claim]\<rparr>))"
  by (rule bind_consumes_lease [OF sample_bind]) (simp_all add: sample_ledger_def empty_ledger_def)

lemma find_append_None:
  "List.find P xs = None \<Longrightarrow> List.find P (xs @ ys) = List.find P ys"
  by (induction xs) (auto split: if_splits)

text \<open>
  Repeating a binding is idempotent: the same deployment on the same registration with the same
  assignments gets the claim it already has, and the ledger stays as it is.
\<close>

theorem bind_idempotent:
  assumes "bind sha256 now nid db dep host vms rid token = Inr (claim, db')" and "dp_host dep = ph_id host"
  shows "bind sha256 now' nid' db' dep host vms rid' token' = Inr (claim, db')"
proof (cases "List.find (\<lambda>c. dc_deployment c = dp_id dep) (ad_claims db)")
  case (Some existing)
  with assms(1) have "existing = claim" "db' = db" by (auto simp: bind_def res_simps)
  with Some assms(1) show ?thesis by (auto simp: bind_def res_simps)
next
  case None
  then have b: "bind_new sha256 now nid db dep host vms rid token = Inr (claim, db')"
    using assms(1) by (simp add: bind_def)
  have f: "List.find (\<lambda>c. dc_deployment c = dp_id dep) (ad_claims db') = Some claim"
    and m: "dc_host claim = dp_host dep" "dc_api_url claim = ph_api_url host"
      "dc_node_name claim = ph_node_name host" "dc_project_sha claim = dp_sha dep" "dc_assignments claim = vms"
    using bind_new_Inr [OF b] None assms(2) by (auto simp: find_append_None)
  show ?thesis using f m by (simp add: bind_def validate_binding_def)
qed

theorem bind_idempotent_witness:
  "bind (\<lambda>_. ''digest'') 9 ''c2'' (sample_ledger\<lparr>ad_claims := [sample_claim]\<rparr>) sample_deployment sample_host
     sample_claim_vms None None = Inr (sample_claim, sample_ledger\<lparr>ad_claims := [sample_claim]\<rparr>)"
  by (rule bind_idempotent [OF sample_bind]) (simp add: sample_deployment_def sample_host_def)

end
