(* ===== verification/Manifest.thy ===== *)
theory Manifest
  imports Alloc_System "HOL-Library.Multiset"
begin

text \<open>
  VM manifests: the Pydantic models and the versioned validation of
  \<open>app/core/scenario_manifest.py\<close>, and the literal assignments that
  \<open>app/core/deployment_allocations.py\<close> reads from a manifest when a deployment is bound.

  A model is a predicate on the JSON value, because validation never rewrites the document. A
  failed validation is a ValueError. A file is \<open>None\<close> when it cannot be read, else whether its
  resolved path stays inside the scenario directory, its size, and its text.
\<close>

subsection \<open>Values\<close>

definition int_between :: "int \<Rightarrow> int \<Rightarrow> json \<Rightarrow> bool" where
  "int_between lo hi v = (case v of JInt i \<Rightarrow> lo \<le> i \<and> i \<le> hi | _ \<Rightarrow> False)"

definition str_matching :: "(string \<Rightarrow> bool) \<Rightarrow> json \<Rightarrow> bool" where
  "str_matching p v = (case v of JStr s \<Rightarrow> p s | _ \<Rightarrow> False)"

definition optional_field :: "dict \<Rightarrow> string \<Rightarrow> (json \<Rightarrow> bool) \<Rightarrow> bool" where
  "optional_field d k p = (jget d k = JNull \<or> p (jget d k))"

text \<open>\<open>IPv4Address(value)\<close> accepts an integer below \<open>2 ** 32\<close> (a boolean is one) or a string.\<close>

fun ipv4_of_json :: "json \<Rightarrow> nat option" where
  "ipv4_of_json (JStr s) = parse_ipv4 s"
| "ipv4_of_json (JInt i) = (if 0 \<le> i \<and> i < 4294967296 then Some (nat i) else None)"
| "ipv4_of_json (JBool b) = Some (if b then 1 else 0)"
| "ipv4_of_json _ = None"

definition is_ipv4 :: "json \<Rightarrow> bool" where
  "is_ipv4 v = (ipv4_of_json v \<noteq> None)"

definition bounded_word :: "(char \<Rightarrow> bool) \<Rightarrow> (char \<Rightarrow> bool) \<Rightarrow> nat \<Rightarrow> string \<Rightarrow> bool" where
  "bounded_word first rest n s =
     (s \<noteq> [] \<and> first (hd s) \<and> length s \<le> Suc n \<and> list_all rest (tl s))"

definition is_lower :: "char \<Rightarrow> bool" where
  "is_lower c = (c \<in> set ''abcdefghijklmnopqrstuvwxyz'')"

definition storage_name :: "string \<Rightarrow> bool" where
  "storage_name = bounded_word is_alpha (\<lambda>c. is_alnum c \<or> c \<in> set ''._-'') 63"

definition vm_name :: "string \<Rightarrow> bool" where
  "vm_name = bounded_word is_alpha (\<lambda>c. is_alnum c \<or> c = CHR ''-'') 62"

definition ssh_user :: "string \<Rightarrow> bool" where
  "ssh_user = bounded_word (\<lambda>c. is_lower c \<or> c = CHR ''_'')
     (\<lambda>c. is_lower c \<or> is_digit c \<or> c \<in> set ''_-'') 31"

definition dns_label :: "string \<Rightarrow> bool" where
  "dns_label s = (s \<noteq> [] \<and> length s \<le> 63 \<and> is_alnum (hd s) \<and> is_alnum (last s)
     \<and> list_all (\<lambda>c. is_alnum c \<or> c = CHR ''-'') s)"

definition search_domain :: "string \<Rightarrow> bool" where
  "search_domain s = (length s \<le> 253 \<and> list_all dns_label (split_on (CHR ''.'') s))"

definition disk_devices :: "string list" where
  "disk_devices = map (\<lambda>n. ''scsi'' @ nat_str n) [0..<31] @ map (\<lambda>n. ''virtio'' @ nat_str n) [0..<16]
     @ map (\<lambda>n. ''sata'' @ nat_str n) [0..<6]"

subsection \<open>Models\<close>

definition vmid_value :: "json \<Rightarrow> bool" where
  "vmid_value = int_between 100 999999999"

definition bridge_value :: "json \<Rightarrow> bool" where
  "bridge_value = str_matching valid_bridge"

definition nic_model :: "json \<Rightarrow> bool" where
  "nic_model v =
     (case v of
        JObj d \<Rightarrow> int_between 0 31 (jget d ''index'') \<and> bridge_value (jget d ''bridge'')
          \<and> is_ipv4 (jget d ''ip'') \<and> optional_field d ''prefix'' (int_between 1 30)
          \<and> optional_field d ''gateway'' is_ipv4
      | _ \<Rightarrow> False)"

definition overrides_model :: "json \<Rightarrow> bool" where
  "overrides_model v =
     (case v of
        JObj d \<Rightarrow> optional_field d ''storage'' (str_matching storage_name)
          \<and> optional_field d ''cores'' (int_between 1 128)
          \<and> optional_field d ''memory_mb'' (int_between 128 1048576)
          \<and> optional_field d ''disk_gb'' (int_between 1 65536)
          \<and> optional_field d ''disk_device'' (str_matching (\<lambda>s. s \<in> set disk_devices))
      | _ \<Rightarrow> False)"

definition cloud_init_model :: "json \<Rightarrow> bool" where
  "cloud_init_model v =
     (case v of
        JObj d \<Rightarrow> set (dkeys d) \<subseteq> {''ssh_user'', ''dns_servers'', ''dns_search_domain''}
          \<and> str_matching ssh_user (jget d ''ssh_user'')
          \<and> dget d ''dns_servers'' \<noteq> None
          \<and> optional_field d ''dns_servers'' (\<lambda>w. case w of
               JList xs \<Rightarrow> 1 \<le> length xs \<and> length xs \<le> 3 \<and> list_all (str_matching (\<lambda>s. parse_ipv4 s \<noteq> None)) xs
             | _ \<Rightarrow> False)
          \<and> dget d ''dns_search_domain'' \<noteq> None
          \<and> optional_field d ''dns_search_domain'' (str_matching search_domain)
      | _ \<Rightarrow> False)"

definition nics_of :: "dict \<Rightarrow> dict list" where
  "nics_of d = (case jget d ''nics'' of JList xs \<Rightarrow> List.map_filter as_obj xs | _ \<Rightarrow> [])"

definition management_nic :: "dict \<Rightarrow> bool" where
  "management_nic d =
     (let nics = nics_of d in
      map (\<lambda>n. jget n ''index'') nics = map (\<lambda>i. JInt (int i)) [0..<length nics]
      \<and> nics \<noteq> []
      \<and> ipv4_of_json (jget d ''ip'') = ipv4_of_json (jget (hd nics) ''ip'')
      \<and> jget d ''bridge'' = jget (hd nics) ''bridge''
      \<and> \<not> (jget d ''disk_gb'' \<noteq> JNull \<and> jget d ''disk_device'' = JNull))"

definition vm_model :: "json \<Rightarrow> bool" where
  "vm_model v =
     (case v of
        JObj d \<Rightarrow> overrides_model v \<and> vmid_value (jget d ''vm_id'')
          \<and> str_matching vm_name (jget d ''vm_name'')
          \<and> optional_field d ''template_vm_id'' vmid_value
          \<and> is_ipv4 (jget d ''ip'') \<and> bridge_value (jget d ''bridge'')
          \<and> (case jget d ''nics'' of
               JList xs \<Rightarrow> 1 \<le> length xs \<and> length xs \<le> 32 \<and> list_all nic_model xs
             | _ \<Rightarrow> False)
          \<and> optional_field d ''cloud_init'' cloud_init_model
          \<and> management_nic d
      | _ \<Rightarrow> False)"

subsection \<open>Versions\<close>

definition declares :: "string \<Rightarrow> json \<Rightarrow> bool" where
  "declares k v = (case v of JObj d \<Rightarrow> dget d k \<noteq> None | _ \<Rightarrow> False)"

definition preferences_guard :: "dict \<Rightarrow> unit res" where
  "preferences_guard doc =
     (let preferences = jget doc ''guest_preferences_version'';
          rows = (case jget doc ''vms'' of JList xs \<Rightarrow> Some xs | _ \<Rightarrow> None);
          explicit_storage = (case rows of Some xs \<Rightarrow> list_ex (declares ''storage'') xs | None \<Rightarrow> False);
          explicit_cloud_init = (case rows of Some xs \<Rightarrow> list_ex (declares ''cloud_init'') xs | None \<Rightarrow> False)
      in if preferences = JNull \<and> \<not> explicit_storage \<and> \<not> explicit_cloud_init then Inr ()
         else assertE
           (preferences \<in> {JInt 1, JInt 2} \<and> json_eq_int (jget doc ''version'') 3
            \<and> (case rows of Some xs \<Rightarrow> list_all (declares ''storage'') xs | None \<Rightarrow> False)
            \<and> (explicit_cloud_init \<longrightarrow> preferences = JInt 2)
            \<and> (preferences = JInt 2 \<longrightarrow>
                 (case rows of Some xs \<Rightarrow> list_all (\<lambda>v. case v of
                      JObj d \<Rightarrow> (case jget d ''cloud_init'' of JObj _ \<Rightarrow> True | _ \<Rightarrow> False)
                    | _ \<Rightarrow> False) xs | None \<Rightarrow> False)))
           ValueError)"

definition vm_ids :: "dict list \<Rightarrow> json list" where
  "vm_ids vms = map (\<lambda>d. jget d ''vm_id'') vms"

definition nic_addresses :: "dict list \<Rightarrow> (json \<times> nat option) list" where
  "nic_addresses vms =
     concat (map (\<lambda>d. map (\<lambda>n. (jget n ''bridge'', ipv4_of_json (jget n ''ip''))) (nics_of d)) vms)"

definition v3_plan_ok :: "dict list \<Rightarrow> bool" where
  "v3_plan_ok vms =
     (distinct (vm_ids vms) \<and> distinct (map (\<lambda>d. jget d ''vm_name'') vms)
      \<and> list_all (\<lambda>d. jget d ''template_vm_id'' \<notin> set (vm_ids vms)) vms
      \<and> distinct (nic_addresses vms))"

definition is_version :: "json \<Rightarrow> bool" where
  "is_version v = (json_eq_int v 1 \<or> json_eq_int v 2)"

definition validate_vm_manifest :: "json \<Rightarrow> dict res" where
  "validate_vm_manifest document =
     (case document of
        JObj doc \<Rightarrow>
          bindE (preferences_guard doc) (\<lambda>_.
            if is_version (case dget doc ''version'' of None \<Rightarrow> JInt 2 | Some v \<Rightarrow> v)
            then bindE (iter_json (case dget doc ''vms'' of None \<Rightarrow> JList [] | Some v \<Rightarrow> v)) (\<lambda>vms.
                 bindE (assertE (list_all overrides_model vms) ValueError) (\<lambda>_. Inr doc))
            else (case jget doc ''vms'' of
                JList vms \<Rightarrow>
                  bindE (assertE (json_eq_int (jget doc ''version'') 3 \<and> list_all vm_model vms
                            \<and> v3_plan_ok (List.map_filter as_obj vms)) ValueError)
                    (\<lambda>_. Inr doc)
              | _ \<Rightarrow> Inl ValueError))
      | _ \<Rightarrow> Inl ValueError)"

subsection \<open>Literal assignments\<close>

record manifest_file =
  mf_inside :: bool
  mf_size :: nat
  mf_text :: string

definition read_manifest :: "manifest_file option \<Rightarrow> json res" where
  "read_manifest f =
     bindE (of_opt OSError f) (\<lambda>m.
     bindE (assertE (mf_inside m \<and> mf_size m \<le> 1048576) ValueError) (\<lambda>_.
       of_opt ValueError (json_loads (mf_text m))))"

definition legacy_nics :: "dict \<Rightarrow> json" where
  "legacy_nics vm =
     JList (if truthy (jget vm ''ip'') \<and> truthy (jget vm ''bridge'')
            then [JObj [(''index'', JInt 0), (''bridge'', jget vm ''bridge''), (''ip'', jget vm ''ip'')]]
            else [])"

definition normalize_nic :: "nat \<Rightarrow> json \<Rightarrow> nic_core res" where
  "normalize_nic index v =
     (case v of
        JObj d \<Rightarrow>
          (case (jget d ''index'', jget d ''bridge'') of
             (JInt i, JStr bridge) \<Rightarrow>
               bindE (assertE (i = int index) ValueError) (\<lambda>_.
               bindE (item d ''ip'') (\<lambda>ip.
               bindE (of_opt ValueError (ipv4_of_json ip)) (\<lambda>a.
                 Inr \<lparr>nc_index = i, nc_bridge = bridge, nc_ip = ip_str a\<rparr>)))
           | _ \<Rightarrow> Inl ValueError)
      | _ \<Rightarrow> Inl ValueError)"

definition assignment_of :: "json \<Rightarrow> claim_vm res" where
  "assignment_of v =
     (case v of
        JObj vm \<Rightarrow>
          bindE (item vm ''vm_id'') (\<lambda>vmid.
          bindE (of_opt ValueError (as_int vmid)) (\<lambda>i.
          bindE (assertE (valid_vmid i) ValueError) (\<lambda>_.
          bindE (of_opt ValueError (as_list (if jget vm ''nics'' = JNull then legacy_nics vm
                                             else jget vm ''nics''))) (\<lambda>nics.
          bindE (assertE (length nics \<le> 32) ValueError) (\<lambda>_.
          bindE (mapE (\<lambda>(k, n). normalize_nic k n) (zip [0..<length nics] nics)) (\<lambda>normalized.
            Inr \<lparr>vc_vmid = i, vc_nics = normalized,
                 cv_name = (if jget vm ''vm_name'' = JNull then None else Some (jget vm ''vm_name''))\<rparr>))))))
      | _ \<Rightarrow> Inl TypeError)"

definition assignments_of :: "json \<Rightarrow> claim_vm list res" where
  "assignments_of document =
     bindE (validate_vm_manifest document) (\<lambda>doc.
     bindE (item doc ''vms'') (\<lambda>vms.
     bindE (of_opt ValueError (as_list vms)) (\<lambda>xs.
     bindE (assertE (length xs \<le> 4096) ValueError) (\<lambda>_.
     bindE (mapE assignment_of xs) (\<lambda>result.
     bindE (assertE (card (ids_of result) = length result
          \<and> card (addrs_of result) = sum_list (map (\<lambda>vm. length (vc_nics vm)) result)) ValueError) (\<lambda>_.
       Inr (sort_key vc_vmid result)))))))"

definition manifest_error :: "'a res \<Rightarrow> 'a res" where
  "manifest_error r =
     (case r of
        Inl e \<Rightarrow> if e \<in> {OSError, ValueError, KeyError, TypeError}
                 then Inl (alloc_error ''MANIFEST_INVALID'' 409) else Inl e
      | Inr x \<Rightarrow> Inr x)"

definition manifest_assignments :: "manifest_file option \<Rightarrow> claim_vm list res" where
  "manifest_assignments f = manifest_error (bindE (read_manifest f) assignments_of)"

subsection \<open>What a manifest commits a deployment to\<close>

lemma manifest_error_Inr [res_simps]: "manifest_error r = Inr x \<longleftrightarrow> r = Inr x"
  by (simp add: manifest_error_def split: sum.split)

lemma assignment_of_Inr:
  assumes "assignment_of v = Inr vm"
  shows "valid_vmid (vc_vmid vm) \<and> (\<exists>d. v = JObj d \<and> jget d ''vm_id'' = JInt (vc_vmid vm))"
proof -
  from assms obtain d where v: "v = JObj d" by (cases v) (auto simp: assignment_of_def)
  with assms show ?thesis by (auto simp: assignment_of_def item_def jget_def res_simps)
qed

lemma all_pairs_length: "length (all_pairs vms) = sum_list (map (\<lambda>vm. length (vc_nics vm)) vms)"
  by (simp add: all_pairs_def length_concat comp_def)

lemma holds_once_card:
  assumes "card (ids_of vms) = length vms"
    and "card (addrs_of vms) = sum_list (map (\<lambda>vm. length (vc_nics vm)) vms)"
  shows "holds_once vms"
proof -
  have "card (set (map vc_vmid vms)) = length (map vc_vmid vms)" using assms(1) by (simp add: occupied_def)
  moreover have "card (set (all_pairs vms)) = length (all_pairs vms)"
    using assms(2) by (simp add: all_pairs_addrs all_pairs_length)
  ultimately show ?thesis unfolding holds_once_def by (blast intro: card_distinct)
qed

lemma holds_once_mset:
  fixes a b :: "('a nic_core_scheme, 'b) vm_core_scheme list"
  shows "mset a = mset b \<Longrightarrow> holds_once a \<Longrightarrow> holds_once b"
proof -
  assume m: "mset a = mset b" and h: "holds_once a"
  have "mset (map vc_vmid a) = mset (map vc_vmid b)" using m by simp
  moreover have "mset (all_pairs v) = sum_mset (image_mset (\<lambda>vm. mset (map nic_pair (vc_nics vm))) (mset v))"
    for v :: "('a nic_core_scheme, 'b) vm_core_scheme list"
    by (induction v) (simp_all add: all_pairs_def)
  ultimately show ?thesis
    using m h unfolding holds_once_def by (metis mset_eq_imp_distinct_iff)
qed

lemma manifest_ids:
  "list_all2 (\<lambda>x y. assignment_of x = Inr y) xs vms \<Longrightarrow>
   map (\<lambda>vm. JInt (vc_vmid vm)) vms = vm_ids (List.map_filter as_obj xs)"
  by (induction rule: list_all2_induct)
     (auto simp: vm_ids_def List.map_filter_simps dest!: assignment_of_Inr)

text \<open>
  the assignments read from a manifest are exactly its VMs, each with a VMID in bounds, sorted
  by VMID, and no VMID and no bridge/address pair occurs twice among them. This is what the binding
  step of the ledger relies on.
\<close>

theorem manifest_assignments_once:
  assumes "manifest_assignments f = Inr vms"
  shows "holds_once vms \<and> sorted (map vc_vmid vms) \<and> list_all (\<lambda>vm. valid_vmid (vc_vmid vm)) vms
    \<and> (\<exists>doc xs. read_manifest f = Inr (JObj doc) \<and> dget doc ''vms'' = Some (JList xs)
         \<and> mset (map (\<lambda>vm. JInt (vc_vmid vm)) vms) = mset (vm_ids (List.map_filter as_obj xs)))"
proof -
  from assms obtain document doc where r: "read_manifest f = Inr document"
    and v: "validate_vm_manifest document = Inr doc" and a: "assignments_of document = Inr vms"
    by (auto simp: manifest_assignments_def assignments_of_def res_simps)
  have document: "document = JObj doc"
    using v by (auto simp: validate_vm_manifest_def res_simps split: json.splits if_splits)
  from a v obtain xs result where x: "dget doc ''vms'' = Some (JList xs)"
    and m: "mapE assignment_of xs = Inr result"
    and c: "card (ids_of result) = length result"
      "card (addrs_of result) = sum_list (map (\<lambda>vm. length (vc_nics vm)) result)"
    and vms: "vms = sort_key vc_vmid result"
    by (auto simp: assignments_of_def item_def res_simps)
  have all2: "list_all2 (\<lambda>x y. assignment_of x = Inr y) xs result" using m by (simp add: mapE_Inr_list_all2)
  have "holds_once vms"
    by (rule holds_once_mset [OF _ holds_once_card [OF c]]) (simp add: vms)
  moreover have "list_all (\<lambda>vm. valid_vmid (vc_vmid vm)) vms"
    using m assignment_of_Inr by (fastforce simp: vms list_all_iff dest: mapE_Inr_setD)
  moreover have "mset (map (\<lambda>vm. JInt (vc_vmid vm)) vms) = mset (vm_ids (List.map_filter as_obj xs))"
    using manifest_ids [OF all2] by (metis mset_map mset_sort vms)
  ultimately show ?thesis using r document x by (simp add: vms)
qed

definition sample_manifest :: manifest_file where
  "sample_manifest = \<lparr>mf_inside = True, mf_size = 90,
     mf_text = ''{\"vms\":[{\"vm_id\":205,\"ip\":\"10.0.0.9\",\"bridge\":\"b0\"},{\"vm_id\":204}]}''\<rparr>"

definition sample_manifest_json :: json where
  "sample_manifest_json = JObj [(''vms'', JList
     [JObj [(''vm_id'', JInt 205), (''ip'', JStr ''10.0.0.9''), (''bridge'', JStr ''b0'')], JObj [(''vm_id'', JInt 204)]])]"

lemma sample_manifest_read: "read_manifest (Some sample_manifest) = Inr sample_manifest_json"
proof -
  have "json_loads (mf_text sample_manifest) = Some sample_manifest_json" by code_simp
  then show ?thesis by (simp add: read_manifest_def sample_manifest_def)
qed

lemma sample_manifest_assignments:
  "manifest_assignments (Some sample_manifest) = Inr
     [\<lparr>vc_vmid = 204, vc_nics = [], cv_name = None\<rparr>,
      \<lparr>vc_vmid = 205, vc_nics = [\<lparr>nc_index = 0, nc_bridge = ''b0'', nc_ip = ''10.0.0.9''\<rparr>], cv_name = None\<rparr>]"
  by (simp add: manifest_assignments_def sample_manifest_read sample_manifest_json_def assignments_of_def
      validate_vm_manifest_def preferences_guard_def Let_def jget_def declares_def is_version_def
      overrides_model_def optional_field_def item_def assignment_of_def valid_vmid_def legacy_nics_def
      normalize_nic_def ip_eval ip_str_def nat_str.simps digit_char_def occupied_def manifest_error_def)

theorem manifest_assignments_once_witness:
  "\<exists>vms. manifest_assignments (Some sample_manifest) = Inr vms \<and> map vc_vmid vms = [204, 205] \<and> holds_once vms"
  using manifest_assignments_once [OF sample_manifest_assignments] sample_manifest_assignments by simp

lemma manifest_assignments_holds: "manifest_assignments f = Inr vms \<Longrightarrow> holds_once vms"
proof -
  assume "manifest_assignments f = Inr vms"
  then obtain result where "holds_once result" and "vms = sort_key vc_vmid result"
    by (auto simp: manifest_assignments_def assignments_of_def res_simps intro!: holds_once_card)
  then show ?thesis by (auto intro: holds_once_mset [of result])
qed

lemma bind_claims:
  "bind sha256 now nid db dep host vms rid token = Inr (claim, db') \<Longrightarrow>
     claim \<in> set (ad_claims db') \<and> dc_deployment claim = dp_id dep \<and> dc_assignments claim = vms"
  by (auto simp: bind_def res_simps find_Some_iff dest!: bind_new_Inr split: option.splits)

text \<open>
  The launch gate. When it lets an attempt that creates guests through, a non-empty manifest is
  claimed for exactly this deployment with exactly the manifest's assignments, and the ledger still
  holds nothing twice.
\<close>

theorem launch_gate_claims:
  assumes "ensure_for_attempt sha256 now nid (manifest_assignments f) dep True host db = Inr db'"
    and "manifest_assignments f = Inr vms" and "vms \<noteq> []" and "ledger_ok now db"
    and "nid \<notin> rv_id ` set (ad_leases db) \<union> dc_id ` set (ad_claims db)"
  shows "ledger_ok now db' \<and> (\<exists>fresh. ad_deployments db (dp_id dep) = Some fresh
     \<and> dp_host fresh = dp_host dep \<and> dp_sha fresh = dp_sha dep
     \<and> (\<exists>claim \<in> set (ad_claims db'). dc_deployment claim = dp_id fresh \<and> dc_assignments claim = vms))"
proof
  show "ledger_ok now db'"
    using ensure_for_attempt_ok [OF assms(1,2,4) manifest_assignments_holds [OF assms(2)]] assms(5) by simp
  from assms(1-3) obtain fresh h claim where "ad_deployments db (dp_id dep) = Some fresh"
    "dp_host fresh = dp_host dep" "dp_sha fresh = dp_sha dep"
    and b: "bind sha256 now nid db fresh h vms None None = Inr (claim, db')"
    by (auto simp: ensure_for_attempt_def res_simps split: if_splits)
  with bind_claims [OF b] show "\<exists>fresh. ad_deployments db (dp_id dep) = Some fresh
     \<and> dp_host fresh = dp_host dep \<and> dp_sha fresh = dp_sha dep
     \<and> (\<exists>claim \<in> set (ad_claims db'). dc_deployment claim = dp_id fresh \<and> dc_assignments claim = vms)" by blast
qed

definition launch_ledger :: alloc_db where
  "launch_ledger = \<lparr>ad_leases = [], ad_claims = [], ad_hosts = [''h1'' \<mapsto> sample_host],
     ad_deployments = [''d1'' \<mapsto> sample_deployment]\<rparr>"

lemma launch_ledger_ok: "ledger_ok 5 launch_ledger"
  by (simp add: ledger_ok_def leases_ok_def claims_ok_def live_leases_def launch_ledger_def)

lemma launch_sample:
  "\<exists>db'. ensure_for_attempt (\<lambda>_. ''digest'') 5 ''c1'' (manifest_assignments (Some sample_manifest))
     sample_deployment True sample_host launch_ledger = Inr db'"
proof -
  have "\<not> protected_id (Some []) 204" "\<not> protected_id (Some []) 205"
    by (simp_all add: protected_id_def effective_ranges_def default_protected_ranges_def in_range_def)
  then have p: "any_protected [] [\<lparr>vc_vmid = 204, vc_nics = [], cv_name = None\<rparr>,
      \<lparr>vc_vmid = 205, vc_nics = [\<lparr>nc_index = 0, nc_bridge = ''b0'', nc_ip = ''10.0.0.9''\<rparr>], cv_name = None\<rparr>] = Inr False"
    by (simp add: any_protected_pairs pairs_ok_def occupied_def)
  have "same_registration sample_host sample_host" by (simp add: same_registration_def)
  then show ?thesis
    using p sample_host_overrides
    by (simp add: ensure_for_attempt_def sample_manifest_assignments bind_def bind_new_def lease_to_transfer_def
        live_leases_def launch_ledger_def sample_deployment_def Let_def)
qed

theorem launch_gate_claims_witness:
  "\<exists>db' vms. ensure_for_attempt (\<lambda>_. ''digest'') 5 ''c1'' (manifest_assignments (Some sample_manifest))
       sample_deployment True sample_host launch_ledger = Inr db'
     \<and> manifest_assignments (Some sample_manifest) = Inr vms \<and> ledger_ok 5 db'"
proof -
  obtain db' where e: "ensure_for_attempt (\<lambda>_. ''digest'') 5 ''c1'' (manifest_assignments (Some sample_manifest))
     sample_deployment True sample_host launch_ledger = Inr db'" using launch_sample by blast
  have "ledger_ok 5 db'"
    using launch_gate_claims [OF e sample_manifest_assignments _ launch_ledger_ok] by (simp add: launch_ledger_def)
  then show ?thesis using e sample_manifest_assignments by blast
qed

end
