(* ===== verification/Scenario_Resources.thy ===== *)
theory Scenario_Resources
  imports Scenario_Capacity Manifest
begin

text \<open>
  The resource and ownership checks of a generated scenario
  (\<open>app/core/scenario_resources.py\<close>): which VMIDs a full deployment may create, and which
  existing guests a configuration or a teardown may touch.

  The manifest file, the capabilities file of the runtime, and the verdict of the firewall
  policy (\<open>Inl\<close> the code of its refusal) are parameters, besides the HTTP client.
\<close>

subsection \<open>Bootstrap features\<close>

definition known_features :: "string list" where
  "known_features = [''extra_nics'', ''resources'', ''disk_resize'']"

text \<open>The capabilities file: \<open>None\<close> without a bundle directory or a readable file, else its size and text.\<close>

definition bootstrap_features :: "(nat \<times> string) option \<Rightarrow> string set" where
  "bootstrap_features f =
     (case f of
        None \<Rightarrow> {}
      | Some (sz, text) \<Rightarrow>
          if 8192 < sz then {}
          else case json_loads text of
            Some (JObj d) \<Rightarrow>
              (case jget d ''features'' of
                 JList fs \<Rightarrow>
                   if json_eq_int (jget d ''version'') 1 \<and> list_all is_str fs
                   then {k. k \<in> set known_features \<and> JStr k \<in> set fs} else {}
               | _ \<Rightarrow> {})
          | _ \<Rightarrow> {})"

definition present :: "dict \<Rightarrow> string \<Rightarrow> bool" where
  "present d k = (jget d k \<noteq> JNull)"

text \<open>\<open>len(vm.get("nics") or []) > 1\<close>.\<close>

definition many_nics :: "dict \<Rightarrow> bool res" where
  "many_nics vm =
     (let v = jget vm ''nics'' in
      if \<not> truthy v then Inr False
      else case v of
        JList xs \<Rightarrow> Inr (1 < length xs) | JStr s \<Rightarrow> Inr (1 < length s) | JObj d \<Rightarrow> Inr (1 < length d)
      | _ \<Rightarrow> Inl TypeError)"

definition vm_features :: "dict \<Rightarrow> string set res" where
  "vm_features vm =
     bindE (many_nics vm) (\<lambda>m.
       Inr ((if m then {''extra_nics''} else {})
            \<union> (if present vm ''cores'' \<or> present vm ''memory_mb'' then {''resources''} else {})
            \<union> (if present vm ''disk_gb'' then {''disk_resize''} else {})))"

definition missing_bootstrap_features :: "(nat \<times> string) option \<Rightarrow> dict list \<Rightarrow> string set res" where
  "missing_bootstrap_features f vms =
     bindE (mapE vm_features vms) (\<lambda>fs. Inr (\<Union>(set fs) - bootstrap_features f))"

subsection \<open>Checking each planned VM\<close>

datatype scope = Full | Configuration | Teardown

definition res_blocked :: "string \<Rightarrow> pcheck list" where
  "res_blocked code =
     [verdict_of ''scenario_resources'' Block (Some code) (Some (AtField ''manifest/scenario_vms.json''))]"

text \<open>
  A refusal (\<open>Stop\<close>, the \<open>return\<close> of the code), a read error, or another exception ends the loop.
\<close>

datatype stop = Stop "pcheck list" | Unreadable | Raised exc

definition raised :: "'a res \<Rightarrow> stop + 'a" where
  "raised r = (case r of Inl e \<Rightarrow> Inl (Raised e) | Inr x \<Rightarrow> Inr x)"

definition readable :: "read_error + 'a \<Rightarrow> stop + 'a" where
  "readable r = (case r of Inl _ \<Rightarrow> Inl Unreadable | Inr x \<Rightarrow> Inr x)"

definition stop_unless :: "bool \<Rightarrow> string \<Rightarrow> stop + unit" where
  "stop_unless b code = (if b then Inr () else Inl (Stop (res_blocked code)))"

definition by_id :: "dict list \<Rightarrow> (int \<rightharpoonup> dict) res" where
  "by_id resources =
     foldE (\<lambda>m vm. bindE (item vm ''vmid'') (\<lambda>v. bindE (int_of_json v) (\<lambda>i. Inr (m(i \<mapsto> vm)))))
       Map.empty resources"

definition planned_id :: "dict \<Rightarrow> int" where
  "planned_id vm = (case as_int (jget vm ''vm_id'') of Some i \<Rightarrow> i | None \<Rightarrow> 0)"

text \<open>An empty resource row is falsy, like a missing one.\<close>

definition found :: "(int \<rightharpoonup> dict) \<Rightarrow> int \<Rightarrow> dict option" where
  "found m i = (case m i of Some d \<Rightarrow> if d = [] then None else Some d | None \<Rightarrow> None)"

definition confirm_unused ::
    "http_get \<Rightarrow> proxmox_host \<Rightarrow> (int \<rightharpoonup> dict) \<Rightarrow> int \<Rightarrow> stop + unit" where
  "confirm_unused get h m vmid =
     (if m vmid = None
      then bindE (readable (read_proxmox_data get h ''/cluster/nextid'' [(''vmid'', JInt vmid)])) (\<lambda>available.
             stop_unless (names_vmid (Some available) vmid) ''SCENARIO_RESOURCES_UNREADABLE'')
      else Inr ())"

definition template_ready :: "proxmox_host \<Rightarrow> dict \<Rightarrow> bool" where
  "template_ready h t =
     (json_eq_int (jget t ''template'') 1 \<and> jget t ''node'' = JStr (ph_node_name h)
      \<and> jget t ''type'' = JStr ''qemu'')"

text \<open>The planned memory in bytes, else the template's \<open>maxmem\<close>, when it is a positive number.\<close>

definition planned_memory :: "dict \<Rightarrow> dict \<Rightarrow> rat option" where
  "planned_memory planned template =
     (case as_int (jget planned ''memory_mb'') of
        Some mb \<Rightarrow> if 0 < mb then Some (of_int (mb * 1048576)) else None
      | None \<Rightarrow>
          (case jget template ''maxmem'' of
             JInt i \<Rightarrow> if 0 < i then Some (of_int i) else None
           | JFloat r \<Rightarrow> if 0 < r then Some r else None
           | _ \<Rightarrow> None))"

definition check_new_vm ::
    "http_get \<Rightarrow> proxmox_host \<Rightarrow> (int \<rightharpoonup> dict) \<Rightarrow> rat \<Rightarrow> dict \<Rightarrow> stop + rat" where
  "check_new_vm get h m required planned =
     bindE (confirm_unused get h m (planned_id planned)) (\<lambda>_.
     bindE (stop_unless (found m (planned_id planned) = None) ''VMID_IN_USE'') (\<lambda>_.
     case found m (template_id planned) of
       None \<Rightarrow> Inl (Stop (res_blocked ''TEMPLATE_NOT_READY''))
     | Some t \<Rightarrow>
         bindE (stop_unless (template_ready h t) ''TEMPLATE_NOT_READY'') (\<lambda>_.
         case planned_memory planned t of
           None \<Rightarrow> Inl (Stop (res_blocked ''SCENARIO_RESOURCES_UNREADABLE''))
         | Some n \<Rightarrow> Inr (required + n))))"

definition ownership_marker :: "string \<Rightarrow> string" where
  "ownership_marker deployment_id = ''range42-deployment:'' @ deployment_id"

definition carries_marker :: "string \<Rightarrow> json \<Rightarrow> bool" where
  "carries_marker deployment_id config =
     (case config of
        JObj d \<Rightarrow>
          (case jget d ''description'' of
             JStr s \<Rightarrow> ownership_marker deployment_id \<in> set (splitlines s) | _ \<Rightarrow> False)
      | _ \<Rightarrow> False)"

definition is_own_vm :: "proxmox_host \<Rightarrow> dict \<Rightarrow> dict \<Rightarrow> bool" where
  "is_own_vm h planned existing =
     (jget existing ''node'' = JStr (ph_node_name h) \<and> jget existing ''name'' = jget planned ''vm_name''
      \<and> jget existing ''type'' = JStr ''qemu'' \<and> \<not> truthy (jget existing ''template''))"

definition vm_config_path :: "proxmox_host \<Rightarrow> int \<Rightarrow> string" where
  "vm_config_path h vmid =
     ''/nodes/'' @ url_quote (ph_node_name h) @ ''/qemu/'' @ int_str vmid @ ''/config''"

definition check_owned_vm ::
    "http_get \<Rightarrow> proxmox_host \<Rightarrow> string \<Rightarrow> scope \<Rightarrow> (int \<rightharpoonup> dict) \<Rightarrow> dict \<Rightarrow> stop + unit" where
  "check_owned_vm get h deployment_id scope m planned =
     (let vmid = planned_id planned in
      bindE (if scope = Teardown then confirm_unused get h m vmid else Inr ()) (\<lambda>_.
      if m vmid = None \<and> scope = Teardown then Inr ()
      else case found m vmid of
        None \<Rightarrow> Inl (Stop (res_blocked ''VM_OWNERSHIP_MISMATCH''))
      | Some existing \<Rightarrow>
          bindE (stop_unless (is_own_vm h planned existing) ''VM_OWNERSHIP_MISMATCH'') (\<lambda>_.
          bindE (readable (read_proxmox_data get h (vm_config_path h vmid) [])) (\<lambda>config.
            stop_unless (carries_marker deployment_id config) ''VM_OWNERSHIP_MISMATCH''))))"

subsection \<open>The check\<close>

definition manifest_vms :: "manifest_file option \<Rightarrow> dict list res" where
  "manifest_vms f =
     bindE (read_manifest f) (\<lambda>document.
     bindE (validate_vm_manifest document) (\<lambda>doc.
     bindE (item doc ''vms'') (\<lambda>v.
     bindE (of_opt ValueError (as_list v)) (\<lambda>xs.
       mapE (\<lambda>x. of_opt ValueError (as_obj x)) xs))))"

definition generated_vm :: "dict \<Rightarrow> bool" where
  "generated_vm vm =
     (as_int (jget vm ''vm_id'') \<noteq> None \<and> as_int (jget vm ''template_vm_id'') \<noteq> None
      \<and> is_str (jget vm ''vm_name''))"

definition resources_pass :: pcheck where
  "resources_pass = passed ''scenario_resources''"

definition check_vms ::
    "http_get \<Rightarrow> proxmox_host \<Rightarrow> string \<Rightarrow> scope \<Rightarrow> dict list \<Rightarrow> stop + pcheck list" where
  "check_vms get h deployment_id scope vms =
     bindE (readable (list_proxmox_data get h ''/cluster/resources'' [(''type'', JStr ''vm'')])) (\<lambda>resources.
     bindE (raised (by_id resources)) (\<lambda>m.
       if scope = Full
       then bindE (foldE (check_new_vm get h m) 0 vms) (\<lambda>required.
              Inr (resources_pass # check_plan_capacity get h vms required))
       else bindE (foldE (\<lambda>_ vm. check_owned_vm get h deployment_id scope m vm) () vms) (\<lambda>_.
              Inr [resources_pass])))"

definition check_manifest ::
    "http_get \<Rightarrow> (nat \<times> string) option \<Rightarrow> manifest_file option \<Rightarrow> proxmox_host option \<Rightarrow> string \<Rightarrow> scope
       \<Rightarrow> stop + pcheck list" where
  "check_manifest get capabilities f host deployment_id scope =
     bindE (raised (manifest_vms f)) (\<lambda>vms.
       if \<not> list_ex (\<lambda>vm. dget vm ''template_vm_id'' \<noteq> None) vms then Inr []
       else bindE (if list_all generated_vm vms then Inr () else Inl (Raised ValueError)) (\<lambda>_.
         case host of
           None \<Rightarrow> Inl (Stop (res_blocked ''SCENARIO_RESOURCES_UNREADABLE''))
         | Some h \<Rightarrow>
             bindE (if scope = Full
                    then bindE (raised (missing_bootstrap_features capabilities vms)) (\<lambda>missing.
                           stop_unless (missing = {}) ''BOOTSTRAP_CAPABILITY_MISSING'')
                    else Inr ()) (\<lambda>_.
               check_vms get h deployment_id scope vms)))"

definition check_scenario_resources ::
    "http_get \<Rightarrow> (string + unit) \<Rightarrow> (nat \<times> string) option \<Rightarrow> manifest_file option
       \<Rightarrow> proxmox_host option \<Rightarrow> string \<Rightarrow> scope \<Rightarrow> pcheck list res" where
  "check_scenario_resources get firewall capabilities f host deployment_id scope =
     (case (if scope = Full then firewall else Inr ()) of
        Inl code \<Rightarrow> Inr [verdict_of ''scenario_firewall'' Block (Some code)
                         (Some (AtField ''manifest/scenario_firewall.json''))]
      | Inr _ \<Rightarrow>
          (case check_manifest get capabilities f host deployment_id scope of
             Inr checks \<Rightarrow> Inr checks
           | Inl (Stop checks) \<Rightarrow> Inr checks
           | Inl Unreadable \<Rightarrow> Inr (res_blocked ''SCENARIO_RESOURCES_UNREADABLE'')
           | Inl (Raised e) \<Rightarrow>
               if e \<in> {ValueError, TypeError, KeyError, OSError}
               then Inr (res_blocked ''SCENARIO_RESOURCES_INVALID'') else Inl e))"

subsection \<open>What a passed check guarantees\<close>

lemma stop_inversions [res_simps]:
  "raised r = Inr x \<longleftrightarrow> r = Inr x" "readable q = Inr y \<longleftrightarrow> q = Inr y" "stop_unless b c = Inr u \<longleftrightarrow> b"
  by (simp_all add: raised_def readable_def stop_unless_def split: sum.split)

lemma stop_sources [simp]:
  "raised r \<noteq> Inl (Stop c)" "readable q \<noteq> Inl (Stop c)"
  "stop_unless b k = Inl (Stop c) \<longleftrightarrow> \<not> b \<and> c = res_blocked k"
  by (auto simp: raised_def readable_def stop_unless_def split: sum.split)

lemma check_new_vm_Stop: "check_new_vm get h m n vm = Inl (Stop c) \<Longrightarrow> \<exists>k. c = res_blocked k"
  by (auto simp: check_new_vm_def confirm_unused_def bindE_Inl split: option.splits if_splits)

lemma check_owned_vm_Stop: "check_owned_vm get h dep scope m vm = Inl (Stop c) \<Longrightarrow> \<exists>k. c = res_blocked k"
  by (auto simp: check_owned_vm_def confirm_unused_def bindE_Inl Let_def split: option.splits if_splits)

lemma check_vms_Stop: "check_vms get h dep scope vms = Inl (Stop c) \<Longrightarrow> \<exists>k. c = res_blocked k"
  by (auto simp: check_vms_def bindE_Inl dest!: foldE_Inl check_new_vm_Stop check_owned_vm_Stop split: if_splits)

lemma check_manifest_Stop:
  "check_manifest get capabilities f host dep scope = Inl (Stop c) \<Longrightarrow> \<exists>k. c = res_blocked k"
  by (auto simp: check_manifest_def bindE_Inl dest!: check_vms_Stop split: option.splits if_splits)

lemma res_blocked_Block: "report_result (res_blocked c) = Block"
  by (simp add: res_blocked_def report_result_def)

lemma check_scenario_passed:
  assumes "check_scenario_resources get firewall capabilities f host dep scope = Inr checks"
    and "report_result checks \<noteq> Block" and "checks \<noteq> []"
  shows "\<exists>vms h. manifest_vms f = Inr vms \<and> host = Some h \<and> list_all generated_vm vms
     \<and> check_vms get h dep scope vms = Inr checks"
proof -
  have m: "check_manifest get capabilities f host dep scope = Inr checks"
  proof (cases "check_manifest get capabilities f host dep scope")
    case (Inr c)
    with assms show ?thesis by (auto simp: check_scenario_resources_def report_result_def split: sum.splits if_splits)
  next
    case (Inl e)
    have "report_result checks = Block"
    proof (cases e)
      case (Stop c)
      with Inl check_manifest_Stop obtain k where "c = res_blocked k" by blast
      with assms(1) Inl Stop show ?thesis
        by (auto simp: check_scenario_resources_def res_blocked_Block split: sum.splits if_splits)
          (simp add: report_result_def)
    qed (use assms(1) Inl in \<open>auto simp: check_scenario_resources_def report_result_def res_blocked_def
        split: sum.splits if_splits\<close>)
    with assms(2) show ?thesis by simp
  qed
  then show ?thesis
    using assms(3) by (auto simp: check_manifest_def res_simps split: if_splits option.splits)
qed

definition vm_is_owned :: "http_get \<Rightarrow> proxmox_host \<Rightarrow> string \<Rightarrow> (int \<rightharpoonup> dict) \<Rightarrow> dict \<Rightarrow> bool" where
  "vm_is_owned get h dep m planned =
     (\<exists>existing config. m (planned_id planned) = Some existing \<and> is_own_vm h planned existing
        \<and> read_proxmox_data get h (vm_config_path h (planned_id planned)) [] = Inr config
        \<and> carries_marker dep config)"

definition vm_is_absent :: "http_get \<Rightarrow> proxmox_host \<Rightarrow> (int \<rightharpoonup> dict) \<Rightarrow> dict \<Rightarrow> bool" where
  "vm_is_absent get h m planned =
     (m (planned_id planned) = None
      \<and> (\<exists>v. read_proxmox_data get h ''/cluster/nextid'' [(''vmid'', JInt (planned_id planned))] = Inr v
           \<and> names_vmid (Some v) (planned_id planned)))"

lemma check_owned_vm_Inr:
  "check_owned_vm get h dep scope m planned = Inr u \<Longrightarrow>
     vm_is_owned get h dep m planned \<or> scope = Teardown \<and> vm_is_absent get h m planned"
  by (auto simp: check_owned_vm_def vm_is_owned_def vm_is_absent_def confirm_unused_def found_def res_simps Let_def
      split: if_splits option.splits)


definition vm_is_creatable :: "http_get \<Rightarrow> proxmox_host \<Rightarrow> (int \<rightharpoonup> dict) \<Rightarrow> dict \<Rightarrow> bool" where
  "vm_is_creatable get h m planned =
     (found m (planned_id planned) = None
      \<and> (m (planned_id planned) = None \<longrightarrow> vm_is_absent get h m planned)
      \<and> (\<exists>t. m (template_id planned) = Some t \<and> template_ready h t))"

lemma check_new_vm_Inr:
  "check_new_vm get h m n planned = Inr n' \<Longrightarrow> vm_is_creatable get h m planned \<and> n < n'"
  by (auto simp: check_new_vm_def vm_is_creatable_def vm_is_absent_def confirm_unused_def found_def
      planned_memory_def res_simps split: if_splits option.splits json.splits)

text \<open>
  A full deployment that the check lets through creates guests only under VMIDs that no visible
  guest has and that the cluster confirms unused, from templates that are ready on the target node,
  and its capacity checks have run on the sum of its memory.
\<close>

theorem full_creates_only_unused:
  assumes "check_scenario_resources get firewall capabilities f (Some h) dep Full = Inr checks"
    and "report_result checks \<noteq> Block" and "checks \<noteq> []"
  shows "\<exists>vms resources m required. manifest_vms f = Inr vms
    \<and> list_proxmox_data get h ''/cluster/resources'' [(''type'', JStr ''vm'')] = Inr resources
    \<and> by_id resources = Inr m \<and> list_all (vm_is_creatable get h m) vms
    \<and> checks = resources_pass # check_plan_capacity get h vms required"
proof -
  from check_scenario_passed [OF assms] obtain vms where v: "manifest_vms f = Inr vms"
    and c: "check_vms get h dep Full vms = Inr checks" by auto
  from c obtain resources m required where r:
    "list_proxmox_data get h ''/cluster/resources'' [(''type'', JStr ''vm'')] = Inr resources"
    "by_id resources = Inr m"
    and fo: "foldE (check_new_vm get h m) 0 vms = Inr required"
    and ch: "checks = resources_pass # check_plan_capacity get h vms required"
    by (auto simp: check_vms_def res_simps)
  have "vm_is_creatable get h m vm" if "vm \<in> set vms" for vm
    using foldE_each [OF fo that] check_new_vm_Inr by blast
  then show ?thesis using v r ch by (auto simp: list_all_iff)
qed

subsection \<open>Concrete scenarios\<close>

definition gen_manifest :: manifest_file where
  "gen_manifest = \<lparr>mf_inside = True, mf_size = 70,
     mf_text = ''{\"vms\":[{\"vm_id\":300,\"template_vm_id\":900,\"vm_name\":\"a\"}]}''\<rparr>"

definition gen_vms :: "dict list" where
  "gen_vms = [[(''vm_id'', JInt 300), (''template_vm_id'', JInt 900), (''vm_name'', JStr ''a'')]]"

definition resources_get :: http_get where
  "resources_get url params =
     (let ok = (\<lambda>v. Some \<lparr>hr_status = 200, hr_body = Some (JObj [(''data'', v)])\<rparr>) in
      if url = ''https://p/api2/json/cluster/resources''
      then ok (JList [JObj [(''vmid'', JInt 900), (''template'', JInt 1), (''node'', JStr ''pve''),
        (''type'', JStr ''qemu''), (''maxmem'', JInt 100)]])
      else if url = ''https://p/api2/json/cluster/nextid'' then ok (jget params ''vmid'')
      else if url = ''https://p/api2/json/nodes/pve/status''
      then ok (JObj [(''memory'', JObj [(''total'', JInt 1000), (''free'', JInt 900)])])
      else None)"

definition owned_get :: http_get where
  "owned_get url params =
     (let ok = (\<lambda>v. Some \<lparr>hr_status = 200, hr_body = Some (JObj [(''data'', v)])\<rparr>) in
      if url = ''https://p/api2/json/cluster/resources''
      then ok (JList [JObj [(''vmid'', JInt 300), (''node'', JStr ''pve''), (''name'', JStr ''a''), (''type'', JStr ''qemu'')]])
      else if url = ''https://p/api2/json/nodes/pve/qemu/300/config''
      then ok (JObj [(''description'', JStr ''range42-deployment:d1'')])
      else None)"

lemma gen_manifest_vms: "manifest_vms (Some gen_manifest) = Inr gen_vms"
proof -
  have "json_loads (mf_text gen_manifest) = Some (JObj [(''vms'', JList (map JObj gen_vms))])" by code_simp
  then show ?thesis
    by (simp add: manifest_vms_def read_manifest_def gen_manifest_def validate_vm_manifest_def preferences_guard_def
        Let_def jget_def declares_def is_version_def overrides_model_def optional_field_def item_def gen_vms_def)
qed

lemma resources_sample:
  "check_scenario_resources resources_get (Inr ()) None (Some gen_manifest) (Some sample_host) ''d1'' Full
     = Inr (resources_pass # check_plan_capacity resources_get sample_host gen_vms 100)"
proof -
  have "missing_bootstrap_features None gen_vms = Inr {}"
    by (simp add: gen_vms_def missing_bootstrap_features_def vm_features_def many_nics_def present_def jget_def)
  moreover have "check_vms resources_get sample_host ''d1'' Full gen_vms
      = Inr (resources_pass # check_plan_capacity resources_get sample_host gen_vms 100)"
  proof -
    have r: "list_proxmox_data resources_get sample_host ''/cluster/resources'' [(''type'', JStr ''vm'')]
        = Inr [[(''vmid'', JInt 900), (''template'', JInt 1), (''node'', JStr ''pve''),
        (''type'', JStr ''qemu''), (''maxmem'', JInt 100)]]"
      and n: "read_proxmox_data resources_get sample_host ''/cluster/nextid'' [(''vmid'', JInt 300)] = Inr (JInt 300)"
      by (simp_all add: resources_get_def eval_defs jget_def)
    show ?thesis
      by (simp add: gen_vms_def check_vms_def r readable_def raised_def by_id_def item_def check_new_vm_def
          planned_id_def template_id_def confirm_unused_def n found_def names_vmid_def template_ready_def
          planned_memory_def jget_def stop_unless_def) (simp add: sample_host_def)
  qed
  moreover have "list_all generated_vm gen_vms" "list_ex (\<lambda>vm. dget vm ''template_vm_id'' \<noteq> None) gen_vms"
    by (simp_all add: gen_vms_def generated_vm_def jget_def)
  ultimately have "check_manifest resources_get None (Some gen_manifest) (Some sample_host) ''d1'' Full
      = Inr (resources_pass # check_plan_capacity resources_get sample_host gen_vms 100)"
    by (simp add: check_manifest_def gen_manifest_vms raised_def stop_unless_def)
  then show ?thesis by (simp add: check_scenario_resources_def)
qed

lemma resources_capacity:
  "report_result (resources_pass # check_plan_capacity resources_get sample_host gen_vms 100) \<noteq> Block"
proof -
  have c: "template_config resources_get sample_host 900 = None"
    by (simp add: template_config_def resources_get_def eval_defs url_quote_def quote_char_def is_alnum_def)
  have "read_host_capacity resources_get sample_host =
     \<lparr>hc_host = ''h1'', hc_node = ''pve'', hc_status = Partial,
      hc_cpu = \<lparr>cc_logical = None, cc_utilization = None\<rparr>,
      hc_memory = \<lparr>mc_total = Some 1000, mc_used = None, mc_free = Some 900\<rparr>, hc_storage = [],
      hc_issues = [(''CPU_CAPACITY_UNKNOWN'', ''cpu''), (''MEMORY_CAPACITY_UNKNOWN'', ''memory''),
        (''STORAGE_CAPACITY_UNAVAILABLE'', ''storage'')]\<rparr>"
    by (simp add: read_host_capacity_def resources_get_def eval_defs url_quote_def quote_char_def is_alnum_def
        normalize_node_capacity_def dict_or_empty_def jget_def hc_integer_def hc_utilization_def clip_def Let_def)
  with c show ?thesis
    by (simp add: check_plan_capacity_def plan_scan_of_def scan_vm_def gen_vms_def template_id_def jget_def
        disk_gb_def Let_def report_not_block cpu_checks_def memory_check_def selected_pool_def
        List.map_filter_simps resources_pass_def passed_def)
qed

theorem full_creates_only_unused_witness:
  "\<exists>vms resources m. manifest_vms (Some gen_manifest) = Inr vms
    \<and> list_proxmox_data resources_get sample_host ''/cluster/resources'' [(''type'', JStr ''vm'')] = Inr resources
    \<and> by_id resources = Inr m \<and> list_all (vm_is_creatable resources_get sample_host m) vms"
  using full_creates_only_unused [OF resources_sample resources_capacity] by blast

lemma owned_sample:
  "check_scenario_resources owned_get (Inr ()) None (Some gen_manifest) (Some sample_host) ''d1'' Teardown
     = Inr [resources_pass]"
proof -
  have r: "list_proxmox_data owned_get sample_host ''/cluster/resources'' [(''type'', JStr ''vm'')]
      = Inr [[(''vmid'', JInt 300), (''node'', JStr ''pve''), (''name'', JStr ''a''), (''type'', JStr ''qemu'')]]"
    and c: "read_proxmox_data owned_get sample_host (vm_config_path sample_host 300) []
      = Inr (JObj [(''description'', JStr ''range42-deployment:d1'')])"
    by (simp_all add: owned_get_def vm_config_path_def url_quote_def quote_char_def is_alnum_def eval_defs jget_def)
  have "carries_marker ''d1'' (JObj [(''description'', JStr ''range42-deployment:d1'')])" by code_simp
  then have "check_vms owned_get sample_host ''d1'' Teardown gen_vms = Inr [resources_pass]"
    using c by (simp add: gen_vms_def check_vms_def r readable_def raised_def by_id_def item_def check_owned_vm_def
        planned_id_def confirm_unused_def found_def is_own_vm_def jget_def stop_unless_def)
      (simp add: sample_host_def)
  moreover have "list_all generated_vm gen_vms" "list_ex (\<lambda>vm. dget vm ''template_vm_id'' \<noteq> None) gen_vms"
    by (simp_all add: gen_vms_def generated_vm_def jget_def)
  ultimately have "check_manifest owned_get None (Some gen_manifest) (Some sample_host) ''d1'' Teardown
      = Inr [resources_pass]"
    by (simp add: check_manifest_def gen_manifest_vms raised_def)
  then show ?thesis by (simp add: check_scenario_resources_def)
qed


end
