(* ===== verification/Py_Values.thy ===== *)
theory Py_Values
  imports Json_Text Json_Values "HOL-Library.Char_ord" "HOL-Library.List_Lexorder"
begin

text \<open>
  More of Python's values: equality of JSON values, \<open>str.replace\<close>, \<open>x in {strings}\<close>, the
  canonical JSON text that digests are taken of, and \<open>uuid.UUID\<close>.
\<close>

subsection \<open>Equality and membership\<close>

fun number_of :: "json \<Rightarrow> rat option" where
  "number_of (JInt i) = Some (of_int i)"
| "number_of (JFloat r) = Some r"
| "number_of (JBool b) = Some (if b then 1 else 0)"
| "number_of _ = None"

fun json_eq :: "json \<Rightarrow> json \<Rightarrow> bool" where
  "json_eq JNull w = (w = JNull)"
| "json_eq (JStr s) w = (w = JStr s)"
| "json_eq (JList xs) w = (case w of JList ys \<Rightarrow> list_all2 (\<lambda>x y. json_eq x y) xs ys | _ \<Rightarrow> False)"
| "json_eq (JObj d) w =
     (case w of
        JObj e \<Rightarrow> length d = length e
          \<and> list_all (\<lambda>(k, v). case dget e k of None \<Rightarrow> False | Some u \<Rightarrow> json_eq v u) d
      | _ \<Rightarrow> False)"
| "json_eq (JInt i) w = (number_of w = Some (of_int i))"
| "json_eq (JFloat r) w = (number_of w = Some r)"
| "json_eq (JBool b) w = (number_of w = Some (if b then 1 else 0))"

text \<open>\<open>x in {"a", ...}\<close>: a list or an object cannot be hashed.\<close>

fun in_strings :: "json \<Rightarrow> string list \<Rightarrow> bool res" where
  "in_strings (JStr s) xs = Inr (s \<in> set xs)"
| "in_strings (JList ys) xs = Inl TypeError"
| "in_strings (JObj d) xs = Inl TypeError"
| "in_strings _ xs = Inr False"

subsection \<open>Text\<close>

text \<open>\<open>s.replace(old, new)\<close> for a non-empty \<open>old\<close>.\<close>

function str_replace :: "string \<Rightarrow> string \<Rightarrow> string \<Rightarrow> string" where
  "str_replace old new s =
     (if old = [] then s
      else case s of
        [] \<Rightarrow> []
      | c # cs \<Rightarrow> if prefix old s then new @ str_replace old new (drop (length old) s)
                  else c # str_replace old new cs)"
  by pat_completeness auto
termination
  by (relation "measure (\<lambda>(old, new, s). length s)") auto

declare str_replace.simps [simp del]

text \<open>\<open>json.dumps(value, sort_keys=True, ...)\<close> sorts the keys of every object.\<close>

fun sort_keys :: "json \<Rightarrow> json" where
  "sort_keys (JList xs) = JList (map sort_keys xs)"
| "sort_keys (JObj d) = JObj (sort_key fst (map (\<lambda>(k, v). (k, sort_keys v)) d))"
| "sort_keys v = v"

text \<open>SHA-256 in hexadecimal and the text of a float are parameters of every digest.\<close>

record hasher =
  hs_sha :: "string \<Rightarrow> string"
  hs_float :: "rat \<Rightarrow> string"

definition digest :: "hasher \<Rightarrow> json \<Rightarrow> string" where
  "digest hs v = hs_sha hs (json_dumps (hs_float hs) (sort_keys v))"

subsection \<open>UUIDs\<close>

fun hex_digits :: "nat \<Rightarrow> nat \<Rightarrow> string" where
  "hex_digits 0 n = []"
| "hex_digits (Suc k) n = hex_digits k (n div 16) @ [hex_char (n mod 16)]"

definition hex_number :: "string \<Rightarrow> nat option" where
  "hex_number s =
     (if list_all (\<lambda>p. p \<noteq> [] \<and> list_all (\<lambda>c. hex_val c \<noteq> None) p) (split_on (CHR ''_'') s)
      then Some (foldl (\<lambda>a c. 16 * a + (case hex_val c of None \<Rightarrow> 0 | Some d \<Rightarrow> d)) 0
                  (filter (\<lambda>c. c \<noteq> CHR ''_'') s))
      else None)"

text \<open>\<open>int(s, 16)\<close>: blanks, a sign, the prefix \<open>0x\<close> and single underscores are allowed.\<close>

definition int_base16 :: "string \<Rightarrow> int option" where
  "int_base16 s =
     (let t = strip s;
          neg = (take 1 t = ''-'');
          r = (if neg \<or> take 1 t = ''+'' then drop 1 t else t);
          q = (if take 2 r = ''0x'' \<or> take 2 r = ''0X''
               then (if take 1 (drop 2 r) = ''_'' then drop 3 r else drop 2 r) else r)
      in map_option (\<lambda>n. if neg then - int n else int n) (hex_number q))"

definition uuid_text :: "string \<Rightarrow> string option" where
  "uuid_text s =
     (let t = str_replace ''uuid:'' [] (str_replace ''urn:'' [] s);
          brace = (\<lambda>c. c \<in> {CHR ''{'', CHR ''}''});
          u = rev (dropWhile brace (rev (dropWhile brace t)));
          h = filter (\<lambda>c. c \<noteq> CHR ''-'') u
      in if length h \<noteq> 32 then None
         else case int_base16 h of
           None \<Rightarrow> None
         | Some n \<Rightarrow>
             if n < 0 then None
             else let x = hex_digits 32 (nat n) in
               Some (take 8 x @ ''-'' @ take 4 (drop 8 x) @ ''-'' @ take 4 (drop 12 x) @ ''-''
                     @ take 4 (drop 16 x) @ ''-'' @ drop 20 x))"

end
