(* ===== verification/Store.thy ===== *)
theory Store
  imports Occupancy
begin

text \<open>
  The rows of the state database that deployments, attempts, locks and snapshot sets keep
  (\<open>app/core/models.py\<close>, \<open>app/core/snapshot_models.py\<close>) and the statements issued on them:
  \<open>row_by\<close> is \<open>session.get\<close> or a select on a unique column, \<open>update_rows\<close> an
  \<open>UPDATE ... WHERE\<close> and \<open>count_rows\<close> its row count, \<open>delete_rows\<close> a \<open>DELETE ... WHERE\<close>.
  A transaction is a function from the store to the store: what it raises is rolled back.

  Columns that no modelled code reads (\<open>catalog_sha\<close>, \<open>vault_hash\<close>, \<open>updated_at\<close>, ...) are
  left out. Instants are microseconds since the epoch, UTC.
\<close>

subsection \<open>Rows\<close>

definition row_by :: "('r \<Rightarrow> 'k) \<Rightarrow> 'k \<Rightarrow> 'r list \<Rightarrow> 'r option" where
  "row_by key k rows = find (\<lambda>r. key r = k) rows"

definition update_rows :: "('r \<Rightarrow> bool) \<Rightarrow> ('r \<Rightarrow> 'r) \<Rightarrow> 'r list \<Rightarrow> 'r list" where
  "update_rows p f rows = map (\<lambda>r. if p r then f r else r) rows"

definition count_rows :: "('r \<Rightarrow> bool) \<Rightarrow> 'r list \<Rightarrow> nat" where
  "count_rows p rows = length (filter p rows)"

definition delete_rows :: "('r \<Rightarrow> bool) \<Rightarrow> 'r list \<Rightarrow> 'r list" where
  "delete_rows p rows = filter (\<lambda>r. \<not> p r) rows"

named_theorems row_simps \<open>rows after a statement\<close>

lemma row_by_Some: "row_by key k rows = Some r \<Longrightarrow> r \<in> set rows \<and> key r = k"
  by (auto simp: row_by_def find_Some_iff)

lemma row_by_None: "row_by key k rows = None \<longleftrightarrow> k \<notin> key ` set rows"
  by (auto simp: row_by_def find_None_iff)

lemma row_by_Nil [simp]: "row_by key k [] = None"
  by (simp add: row_by_def)

lemma row_by_Cons [simp]: "row_by key k (r # rows) = (if key r = k then Some r else row_by key k rows)"
  by (simp add: row_by_def)

lemma row_by_unique:
  "distinct (map key rows) \<Longrightarrow> r \<in> set rows \<Longrightarrow> key r = k \<Longrightarrow> row_by key k rows = Some r"
  by (induction rows) (auto simp: image_iff)

lemma row_by_iff:
  "distinct (map key rows) \<Longrightarrow> row_by key k rows = Some r \<longleftrightarrow> r \<in> set rows \<and> key r = k"
  using row_by_unique row_by_Some by metis

lemma set_update_rows [row_simps]: "set (update_rows p f rows) = (\<lambda>r. if p r then f r else r) ` set rows"
  by (simp add: update_rows_def)

lemma set_delete_rows [row_simps]: "set (delete_rows p rows) = {r \<in> set rows. \<not> p r}"
  by (simp add: delete_rows_def)

lemma update_rows_keys:
  "(\<And>r. r \<in> set rows \<Longrightarrow> p r \<Longrightarrow> key (f r) = key r) \<Longrightarrow> map key (update_rows p f rows) = map key rows"
  by (simp add: update_rows_def)

lemma update_rows_mem: "r \<in> set rows \<Longrightarrow> (if p r then f r else r) \<in> set (update_rows p f rows)"
  by (simp add: update_rows_def)

lemma update_rows_key_set:
  assumes "\<And>r. key (f r) = key r"
  shows "key ` set (update_rows p f rows) = key ` set rows"
proof -
  have "map key (update_rows p f rows) = map key rows" by (rule update_rows_keys) (simp add: assms)
  then show ?thesis by (metis set_map)
qed

lemma row_by_update:
  assumes "\<And>r. key (f r) = key r"
  shows "row_by key k (update_rows p f rows) = map_option (\<lambda>r. if p r then f r else r) (row_by key k rows)"
  by (induction rows) (auto simp: update_rows_def assms)

lemma row_by_delete:
  "row_by key k (delete_rows (\<lambda>r. key r = k') rows) = (if k = k' then None else row_by key k rows)"
  by (induction rows) (auto simp: delete_rows_def)

lemma delete_rows_keys: "distinct (map key rows) \<Longrightarrow> distinct (map key (delete_rows p rows))"
  by (simp add: delete_rows_def distinct_map_filter)

lemma count_rows_pos: "count_rows p rows \<noteq> 0 \<longleftrightarrow> (\<exists>r\<in>set rows. p r)"
  by (auto simp: count_rows_def filter_empty_conv)

lemma row_by_append: "row_by key k (xs @ ys) = (case row_by key k xs of None \<Rightarrow> row_by key k ys | Some r \<Rightarrow> Some r)"
  by (induction xs) auto

text \<open>\<open>try: m except (...): h\<close>, where \<open>p\<close> tells the exceptions that are caught.\<close>

definition catchE :: "(exc \<Rightarrow> bool) \<Rightarrow> 'a res \<Rightarrow> 'a res \<Rightarrow> 'a res" where
  "catchE p m h = (case m of Inl e \<Rightarrow> if p e then h else Inl e | Inr x \<Rightarrow> Inr x)"

lemma catchE_simps [simp]:
  "catchE p (Inr x) h = Inr x" "catchE p (Inl e) h = (if p e then h else Inl e)"
  by (simp_all add: catchE_def)

lemma catchE_Inr [res_simps]:
  "catchE p m h = Inr x \<longleftrightarrow> m = Inr x \<or> (\<exists>e. m = Inl e \<and> p e \<and> h = Inr x)"
  by (cases m) auto

subsection \<open>Deployments, attempts and locks\<close>

record deployment =
  dep_id :: string
  dep_codename :: string
  dep_scenario_label :: string
  dep_project_id :: string
  dep_target_host_id :: string
  dep_project_sha :: "string option"
  dep_native :: "dict option"
  dep_team_count :: int
  dep_state :: string
  dep_current :: "string option"
  dep_workspace :: string

record attempt =
  at_id :: string
  at_deployment :: string
  at_scope :: string
  at_project_sha :: "string option"
  at_operation :: "json option"
  at_operation_result :: "json option"
  at_team_id :: "int option"
  at_state :: string
  at_sub_reason :: "string option"
  at_rc :: "int option"
  at_started :: "int option"
  at_ended :: "int option"
  at_cursor :: int
  at_pid :: "int option"
  at_artifact_dir :: "string option"

record workspace_lock =
  lk_deployment :: string
  lk_owner :: string
  lk_acquired :: int
  lk_heartbeat :: int
  lk_interval :: int

subsection \<open>Snapshot sets\<close>

record snap_proof =
  sp_snaptime :: int
  sp_config_digest :: string

record op_row =
  or_vm_id :: int
  or_state :: string
  or_code :: "string option"
  or_upid :: "string option"
  or_dispatched :: "int option"
  or_snapshot :: "snap_proof option"

record snap_member =
  sm_vm_id :: int
  sm_vm_name :: json
  sm_uuid :: string
  sm_config_digest :: string
  sm_restore_digest :: string
  sm_status :: string

record set_member = snap_member +
  sm_row :: "op_row option"

record retention_policy =
  rp_keep_count :: int
  rp_keep_days :: int

record operation_plan =
  pl_id :: string
  pl_set_id :: string
  pl_kind :: string
  pl_target_digest :: string
  pl_project_sha :: string
  pl_members :: "snap_member list"
  pl_snapshots :: "(string \<times> snap_proof) list"
  pl_retention :: "retention_policy option"

record snapshot_operation =
  op_id :: string
  op_set_id :: string
  op_kind :: string
  op_state :: string
  op_plan_digest :: string
  op_plan :: operation_plan
  op_members :: "op_row list"
  op_attempt_id :: "string option"
  op_created :: int
  op_expires :: int

record snapshot_set =
  ss_id :: string
  ss_deployment :: string
  ss_project_sha :: string
  ss_host :: string
  ss_target_digest :: string
  ss_name :: string
  ss_description :: string
  ss_native_name :: string
  ss_state :: string
  ss_members :: "set_member list"
  ss_created :: int

record registered_host = proxmox_host +
  rh_token_ref :: string

record store =
  st_deployments :: "deployment list"
  st_attempts :: "attempt list"
  st_locks :: "workspace_lock list"
  st_operations :: "snapshot_operation list"
  st_sets :: "snapshot_set list"
  st_hosts :: "registered_host list"

abbreviation get_deployment :: "store \<Rightarrow> string \<Rightarrow> deployment option" where
  "get_deployment db \<equiv> \<lambda>i. row_by dep_id i (st_deployments db)"

abbreviation get_attempt :: "store \<Rightarrow> string \<Rightarrow> attempt option" where
  "get_attempt db \<equiv> \<lambda>i. row_by at_id i (st_attempts db)"

abbreviation get_lock :: "store \<Rightarrow> string \<Rightarrow> workspace_lock option" where
  "get_lock db \<equiv> \<lambda>i. row_by lk_deployment i (st_locks db)"

abbreviation get_operation :: "store \<Rightarrow> string \<Rightarrow> snapshot_operation option" where
  "get_operation db \<equiv> \<lambda>i. row_by op_id i (st_operations db)"

abbreviation get_set :: "store \<Rightarrow> string \<Rightarrow> snapshot_set option" where
  "get_set db \<equiv> \<lambda>i. row_by ss_id i (st_sets db)"

abbreviation get_host :: "store \<Rightarrow> string \<Rightarrow> registered_host option" where
  "get_host db \<equiv> \<lambda>i. row_by ph_id i (st_hosts db)"

end
