(* ===== verification/Pve_Routes.thy ===== *)
theory Pve_Routes
  imports Host_Capacity Store Vmid_Guard
begin

text \<open>
  The routes that change a guest's snapshots (\<open>app/routes/v1/proxmox/snapshots.py\<close>) and the
  helpers of the Proxmox routes (\<open>app/routes/v1/proxmox/_helpers.py\<close>): the VMID guard of a
  host, the mapping of Proxmox answers to errors, task identifiers, and the fence that keeps
  raw writes away from guests of a running snapshot-set operation.

  \<open>send method url form\<close> is the HTTP client: \<open>None\<close> when httpx raises a RequestError.
\<close>

abbreviation api_fail :: "nat \<Rightarrow> string \<Rightarrow> string \<Rightarrow> 'a res" where
  "api_fail st e c \<equiv> Inl (ApiError \<lparr>ae_status = st, ae_error = e, ae_code = c\<rparr>)"

datatype http_method = Post | Delete

type_synonym http_send = "http_method \<Rightarrow> string \<Rightarrow> dict \<Rightarrow> http_response option"

subsection \<open>Helpers\<close>

text \<open>One stored range: \<open>len(pair) == 2\<close> and \<open>int\<close> of both elements; other lengths are skipped.\<close>

fun override_ints :: "json \<Rightarrow> int list res" where
  "override_ints (JList [a, b]) = bindE (int_of_json a) (\<lambda>x. bindE (int_of_json b) (\<lambda>y. Inr [x, y]))"
| "override_ints (JList xs) = Inr []"
| "override_ints (JStr [a, b]) =
     bindE (of_opt ValueError (int_of_str [a])) (\<lambda>x. bindE (of_opt ValueError (int_of_str [b])) (\<lambda>y. Inr [x, y]))"
| "override_ints (JStr s) = Inr []"
| "override_ints (JObj d) = (if length d = 2 then Inl KeyError else Inr [])"
| "override_ints _ = Inl TypeError"

definition host_overrides :: "string option \<Rightarrow> overrides res" where
  "host_overrides text =
     (case text of
        None \<Rightarrow> Inr None
      | Some t \<Rightarrow>
          if t = [] then Inr None
          else bindE (of_opt ValueError (json_loads t)) (\<lambda>v.
               if truthy v
               then bindE (iter_json v) (\<lambda>ps. bindE (mapE override_ints ps) (\<lambda>rs. Inr (Some rs)))
               else Inr None))"

definition assert_host_vmid_safe :: "'a proxmox_host_scheme \<Rightarrow> int \<Rightarrow> unit res" where
  "assert_host_vmid_safe h vmid =
     bindE (host_overrides (ph_protected_json h)) (\<lambda>ov.
     case assert_vmid_safe vmid ov of
       Inl _ \<Rightarrow> api_fail 409 ''vmid_protected'' ''VMID_PROTECTED''
     | Inr _ \<Rightarrow> Inr ())"

definition raise_for_pve :: "int \<Rightarrow> unit res" where
  "raise_for_pve st =
     (if st = 401 \<or> st = 403 then api_fail 502 ''proxmox_auth_failed'' ''AUTH_FAILED''
      else if st \<noteq> 200 then api_fail 502 ''upstream_error'' ''PROXMOX_ERROR'' else Inr ())"

definition route_host :: "store \<Rightarrow> string \<Rightarrow> registered_host res" where
  "route_host db i =
     (case get_host db i of None \<Rightarrow> api_fail 404 ''not_found'' ''NOT_FOUND'' | Some h \<Rightarrow> Inr h)"

text \<open>
  \<open>UPID:<node>:<hex>:<hex>:<hex>:<worker>:<target>:<user>:\<close>, the form of a task identifier:
  the worker and the target it names, when the node and the field shapes are right.
\<close>

definition is_hex :: "string \<Rightarrow> bool" where
  "is_hex s = (s \<noteq> [] \<and> list_all (\<lambda>c. is_digit c \<or> c \<in> set ''abcdefABCDEF'') s)"

definition task_fields :: "string \<Rightarrow> string \<Rightarrow> (string \<times> string) option" where
  "task_fields node upid =
     (let head = ''UPID:'' @ node @ '':'' in
      if length upid \<le> 512 \<and> prefix head upid
      then case split_on (CHR '':'') (drop (length head) upid) of
             [a, b, c, worker, target, user, z] \<Rightarrow>
               if is_hex a \<and> is_hex b \<and> is_hex c \<and> user \<noteq> [] \<and> list_all (\<lambda>x. \<not> py_space x) user \<and> z = []
               then Some (worker, target) else None
           | _ \<Rightarrow> None
      else None)"

definition config_task_vmid :: "json \<Rightarrow> string \<Rightarrow> string list \<Rightarrow> int option" where
  "config_task_vmid upid node kinds =
     (case upid of
        JStr u \<Rightarrow>
          (case task_fields node u of
             Some (worker, target) \<Rightarrow>
               if worker \<in> set kinds \<and> class_match is_digit 3 9 target \<and> 100 \<le> digits_val target
               then Some (int (digits_val target)) else None
           | None \<Rightarrow> None)
      | _ \<Rightarrow> None)"

definition assert_snapshot_member_free :: "store \<Rightarrow> int \<Rightarrow> unit res" where
  "assert_snapshot_member_free db vmid =
     (if list_ex (\<lambda>opr. (op_state opr = ''running'' \<or> op_state opr = ''needs_review'')
            \<and> list_ex (\<lambda>s. ss_id s = op_set_id opr \<and> list_ex (\<lambda>m. sm_vm_id m = vmid) (ss_members s)) (st_sets db))
          (st_operations db)
      then api_fail 409 ''snapshot_member_busy'' ''SNAPSHOT_MEMBER_BUSY'' else Inr ())"

subsection \<open>Snapshot writes\<close>

definition snap_base :: "'a proxmox_host_scheme \<Rightarrow> string \<Rightarrow> int \<Rightarrow> string" where
  "snap_base h vmtype vmid =
     rstrip_slash (ph_api_url h) @ ''/api2/json/nodes/'' @ ph_node_name h @ ''/'' @ vmtype @ ''/''
       @ int_str vmid @ ''/snapshot''"

text \<open>The answer of an accepted write: the task identifier, when it is a string or absent.\<close>

definition accepted_upid :: "http_response option \<Rightarrow> string option res" where
  "accepted_upid r =
     (case r of
        None \<Rightarrow> api_fail 502 ''upstream_error'' ''PROXMOX_UNREACHABLE''
      | Some r \<Rightarrow>
          bindE (raise_for_pve (hr_status r)) (\<lambda>_.
          bindE (of_opt ValueError (hr_body r)) (\<lambda>body.
          case body of
            JObj d \<Rightarrow> (case jget d ''data'' of JStr s \<Rightarrow> Inr (Some s) | JNull \<Rightarrow> Inr None | _ \<Rightarrow> Inl ValueError)
          | _ \<Rightarrow> Inl AttributeError)))"

definition create_snapshot ::
    "http_send \<Rightarrow> store \<Rightarrow> string \<Rightarrow> int \<Rightarrow> string \<Rightarrow> string option \<Rightarrow> bool option \<Rightarrow> string
       \<Rightarrow> string option res" where
  "create_snapshot send db host vmid snapname description vmstate vmtype =
     bindE (route_host db host) (\<lambda>h.
     bindE (assert_host_vmid_safe h vmid) (\<lambda>_.
     let form = [(''snapname'', JStr snapname)]
                  @ (case description of None \<Rightarrow> [] | Some t \<Rightarrow> [(''description'', JStr t)])
                  @ (case vmstate of
                       Some b \<Rightarrow> if vmtype = ''qemu'' then [(''vmstate'', JInt (if b then 1 else 0))] else []
                     | None \<Rightarrow> [])
     in accepted_upid (send Post (snap_base h vmtype vmid) form)))"

definition delete_snapshot ::
    "http_send \<Rightarrow> store \<Rightarrow> string \<Rightarrow> int \<Rightarrow> string \<Rightarrow> string \<Rightarrow> string option res" where
  "delete_snapshot send db host vmid vmtype name =
     bindE (route_host db host) (\<lambda>h.
     bindE (assert_host_vmid_safe h vmid) (\<lambda>_.
       accepted_upid (send Delete (snap_base h vmtype vmid @ ''/'' @ name) [])))"

definition rollback_snapshot ::
    "http_send \<Rightarrow> store \<Rightarrow> string \<Rightarrow> int \<Rightarrow> string \<Rightarrow> string \<Rightarrow> string option res" where
  "rollback_snapshot send db host vmid vmtype name =
     bindE (route_host db host) (\<lambda>h.
     bindE (assert_host_vmid_safe h vmid) (\<lambda>_.
       accepted_upid (send Post (snap_base h vmtype vmid @ ''/'' @ name @ ''/rollback'') [])))"

lemma assert_host_vmid_safe_iff:
  "assert_host_vmid_safe h v = Inr () \<longleftrightarrow> (\<exists>ov. host_overrides (ph_protected_json h) = Inr ov \<and> \<not> protected_id ov v)"
proof -
  have "(case assert_vmid_safe v ov of
           Inl _ \<Rightarrow> api_fail 409 ''vmid_protected'' ''VMID_PROTECTED'' | Inr _ \<Rightarrow> Inr ()) = Inr ()
        \<longleftrightarrow> \<not> protected_id ov v" for ov
    using assert_vmid_safe_iff [of v ov] by (cases "assert_vmid_safe v ov") auto
  then show ?thesis by (simp add: assert_host_vmid_safe_def bindE_Inr)
qed

end
