(* ===== verification/Snapshot_Read.thy ===== *)
theory Snapshot_Read
  imports Py_Values Pve_Routes Scenario_Resources
begin

text \<open>
  What a snapshot-set operation reads of Proxmox before and after it acts
  (\<open>app/core/snapshot_sets.py\<close>, first half): digests of the target and of a guest's
  configuration, the observation of every member with its ownership, and the proof that a
  native snapshot is the set's own.
\<close>

abbreviation snap_blocked :: "string \<Rightarrow> 'a res" where
  "snap_blocked code \<equiv> api_fail 409 ''snapshot_operation_blocked'' code"

definition opt_json :: "string option \<Rightarrow> json" where
  "opt_json s = (case s of None \<Rightarrow> JNull | Some t \<Rightarrow> JStr t)"

definition target_digest :: "hasher \<Rightarrow> registered_host \<Rightarrow> string" where
  "target_digest hs h =
     digest hs (JList [JStr (ph_id h), JStr (rstrip_slash (ph_api_url h)), JStr (ph_node_name h),
                       JStr (rh_token_ref h), opt_json (ph_protected_json h)])"

definition deployment_target :: "store \<Rightarrow> string \<Rightarrow> (deployment \<times> registered_host) res" where
  "deployment_target db i =
     (case get_deployment db i of
        None \<Rightarrow> api_fail 404 ''snapshot_operation_blocked'' ''NOT_FOUND''
      | Some d \<Rightarrow>
          if dep_project_sha d = None \<or> dep_project_sha d = Some [] \<or> dep_scenario_label d = ''_universal''
          then snap_blocked ''SNAPSHOT_SCENARIO_UNSUPPORTED''
          else case get_host db (dep_target_host_id d) of
            None \<Rightarrow> snap_blocked ''SNAPSHOT_TARGET_CHANGED''
          | Some h \<Rightarrow> Inr (d, h))"

definition check_binding :: "hasher \<Rightarrow> snapshot_set \<Rightarrow> deployment \<Rightarrow> registered_host \<Rightarrow> unit res" where
  "check_binding hs s d h =
     (if ss_deployment s \<noteq> dep_id d \<or> Some (ss_project_sha s) \<noteq> dep_project_sha d
         \<or> ss_host s \<noteq> dep_target_host_id d \<or> ss_target_digest s \<noteq> target_digest hs h
      then snap_blocked ''SNAPSHOT_TARGET_CHANGED'' else Inr ())"

definition snap_read :: "http_get \<Rightarrow> registered_host \<Rightarrow> string \<Rightarrow> dict \<Rightarrow> json res" where
  "snap_read get h path params =
     (case read_proxmox_data get (proxmox_host.truncate h) path params of
        Inl _ \<Rightarrow> snap_blocked ''SNAPSHOT_READ_UNAVAILABLE''
      | Inr v \<Rightarrow> Inr v)"

definition guest_base :: "registered_host \<Rightarrow> int \<Rightarrow> string" where
  "guest_base h vmid = ''/nodes/'' @ url_quote (ph_node_name h) @ ''/qemu/'' @ int_str vmid"

definition volatile_keys :: "string list" where
  "volatile_keys = [''digest'', ''parent'', ''snaptime'', ''snapstate'', ''vmstate'', ''vmgenid'',
                    ''description'', ''runningmachine'', ''runningcpu'', ''running-nets-host-mtu'']"

definition is_unused_key :: "string \<Rightarrow> bool" where
  "is_unused_key k = (prefix ''unused'' k \<and> drop 6 k \<noteq> [] \<and> list_all is_digit (drop 6 k))"

definition config_digest :: "hasher \<Rightarrow> dict \<Rightarrow> string" where
  "config_digest hs config =
     digest hs (JObj (filter (\<lambda>(k, v). k \<notin> set volatile_keys \<and> \<not> is_unused_key k) config))"

subsection \<open>Members\<close>

text \<open>What is known of a member beforehand: its VMID and, when it has one, its name.\<close>

type_synonym member_ref = "int \<times> json option"

definition read_roster :: "http_get \<Rightarrow> registered_host \<Rightarrow> dict list res" where
  "read_roster get h =
     bindE (snap_read get h ''/cluster/resources'' [(''type'', JStr ''vm'')]) (\<lambda>v.
     case v of
       JList xs \<Rightarrow> if length xs \<le> 4096 then mapE (\<lambda>x. of_opt (ApiError \<lparr>ae_status = 409,
           ae_error = ''snapshot_operation_blocked'', ae_code = ''SNAPSHOT_PLAN_STALE''\<rparr>) (as_obj x)) xs
         else snap_blocked ''SNAPSHOT_PLAN_STALE''
     | _ \<Rightarrow> snap_blocked ''SNAPSHOT_PLAN_STALE'')"

definition roster_entry :: "registered_host \<Rightarrow> dict list \<Rightarrow> int \<Rightarrow> dict option" where
  "roster_entry h roster vmid =
     (case filter (\<lambda>r. json_eq_int (jget r ''vmid'') vmid) roster of
        [r] \<Rightarrow> if jget r ''node'' = JStr (ph_node_name h) \<and> jget r ''type'' = JStr ''qemu''
                  \<and> \<not> truthy (jget r ''template'') then Some r else None
      | _ \<Rightarrow> None)"

definition no_pending :: "json \<Rightarrow> bool" where
  "no_pending v =
     (case v of
        JList xs \<Rightarrow> list_all (\<lambda>x. case x of
            JObj r \<Rightarrow> dget r ''pending'' = None \<and> \<not> truthy (jget r ''delete'') | _ \<Rightarrow> False) xs
      | _ \<Rightarrow> False)"

definition owned_config :: "string \<Rightarrow> member_ref \<Rightarrow> dict \<Rightarrow> json \<Rightarrow> dict option" where
  "owned_config deployment_id m r config =
     (case config of
        JObj c \<Rightarrow>
          if \<not> truthy (jget c ''template'') \<and> \<not> truthy (jget c ''lock'') \<and> carries_marker deployment_id config
             \<and> json_eq (jget c ''name'') (jget r ''name'')
             \<and> (case snd m of None \<Rightarrow> True | Some n \<Rightarrow> truthy n \<longrightarrow> json_eq n (jget c ''name''))
          then Some c else None
      | _ \<Rightarrow> None)"

definition smbios_uuid :: "dict \<Rightarrow> string option" where
  "smbios_uuid c =
     (case (case dget c ''smbios1'' of None \<Rightarrow> JStr [] | Some v \<Rightarrow> v) of
        JStr s \<Rightarrow>
          (case filter (\<lambda>p. prefix ''uuid='' p) (split_on (CHR '','') s) of
             [p] \<Rightarrow> uuid_text (drop 5 p)
           | _ \<Rightarrow> None)
      | _ \<Rightarrow> None)"

definition observe_member ::
    "hasher \<Rightarrow> http_get \<Rightarrow> registered_host \<Rightarrow> string \<Rightarrow> dict list \<Rightarrow> member_ref \<Rightarrow> snap_member res" where
  "observe_member hs get h deployment_id roster m =
     (let vmid = fst m in
      bindE (assert_host_vmid_safe h vmid) (\<lambda>_.
      case roster_entry h roster vmid of
        None \<Rightarrow> snap_blocked ''SNAPSHOT_OWNERSHIP_CHANGED''
      | Some r \<Rightarrow>
          bindE (snap_read get h (guest_base h vmid @ ''/config'') [(''current'', JInt 1)]) (\<lambda>config.
          bindE (snap_read get h (guest_base h vmid @ ''/pending'') []) (\<lambda>pending.
          bindE (snap_read get h (guest_base h vmid @ ''/status/current'') []) (\<lambda>status.
          case (owned_config deployment_id m r config, status) of
            (Some c, JObj st) \<Rightarrow>
              if \<not> no_pending pending then snap_blocked ''SNAPSHOT_OWNERSHIP_CHANGED''
              else bindE (in_strings (jget st ''status'') [''running'', ''stopped'']) (\<lambda>known.
                case (known, jget st ''status'', smbios_uuid c) of
                  (True, JStr s, Some u) \<Rightarrow>
                    bindE (item c ''name'') (\<lambda>name.
                      Inr \<lparr>sm_vm_id = vmid, sm_vm_name = name, sm_uuid = u,
                           sm_config_digest = digest hs (JObj (filter (\<lambda>(k, v). k \<noteq> ''digest'') c)),
                           sm_restore_digest = config_digest hs c, sm_status = s\<rparr>)
                | (True, JStr s, None) \<Rightarrow> snap_blocked ''SNAPSHOT_IDENTITY_UNAVAILABLE''
                | _ \<Rightarrow> snap_blocked ''SNAPSHOT_OWNERSHIP_CHANGED'')
          | _ \<Rightarrow> snap_blocked ''SNAPSHOT_OWNERSHIP_CHANGED'')))))"

definition observe ::
    "hasher \<Rightarrow> http_get \<Rightarrow> registered_host \<Rightarrow> string \<Rightarrow> member_ref list \<Rightarrow> snap_member list res" where
  "observe hs get h deployment_id members =
     bindE (read_roster get h) (\<lambda>roster. mapE (observe_member hs get h deployment_id roster) members)"

subsection \<open>Native snapshots\<close>

definition set_marker :: "snapshot_set \<Rightarrow> string" where
  "set_marker s = ''range42-snapshot-set:'' @ ss_id s"

definition stable_snapshot :: "hasher \<Rightarrow> dict \<Rightarrow> json \<Rightarrow> snap_proof option" where
  "stable_snapshot hs row config =
     (case (config, jget row ''snaptime'') of
        (JObj c, JInt t) \<Rightarrow>
          if \<not> truthy (jget c ''snapstate'') \<and> \<not> truthy (jget c ''vmstate'') \<and> 0 < t
          then Some \<lparr>sp_snaptime = t, sp_config_digest = config_digest hs c\<rparr> else None
      | _ \<Rightarrow> None)"

definition native_snapshot ::
    "hasher \<Rightarrow> http_get \<Rightarrow> registered_host \<Rightarrow> snapshot_set \<Rightarrow> int \<Rightarrow> snap_proof option res" where
  "native_snapshot hs get h s vmid =
     bindE (snap_read get h (guest_base h vmid @ ''/snapshot'') []) (\<lambda>v.
     case v of
       JList xs \<Rightarrow>
         if 4096 < length xs \<or> list_ex (\<lambda>x. as_obj x = None) xs then snap_blocked ''SNAPSHOT_PLAN_STALE''
         else (case filter (\<lambda>r. jget r ''name'' = JStr (ss_native_name s)) (map (\<lambda>x. the (as_obj x)) xs) of
             [] \<Rightarrow> Inr None
           | [r] \<Rightarrow>
               if jget r ''description'' \<noteq> JStr (set_marker s) then snap_blocked ''SNAPSHOT_OWNERSHIP_CHANGED''
               else bindE (snap_read get h (guest_base h vmid @ ''/snapshot/'' @ ss_native_name s @ ''/config'') [])
                 (\<lambda>config. case stable_snapshot hs r config of
                    None \<Rightarrow> snap_blocked ''SNAPSHOT_PLAN_STALE'' | Some p \<Rightarrow> Inr (Some p))
           | _ \<Rightarrow> snap_blocked ''SNAPSHOT_OWNERSHIP_CHANGED'')
     | _ \<Rightarrow> snap_blocked ''SNAPSHOT_PLAN_STALE'')"

subsection \<open>What an observation proves\<close>

text \<open>
  An observed guest is unprotected, is a guest of the host's node, carries the deployment's marker
  and has neither a lock nor pending changes.
\<close>

lemma roster_entry_Some:
  "roster_entry h roster v = Some r \<Longrightarrow>
     r \<in> set roster \<and> json_eq_int (jget r ''vmid'') v \<and> jget r ''node'' = JStr (ph_node_name h)"
proof -
  assume a: "roster_entry h roster v = Some r"
  then have f: "filter (\<lambda>r. json_eq_int (jget r ''vmid'') v) roster = [r]" and n: "jget r ''node'' = JStr (ph_node_name h)"
    by (auto simp: roster_entry_def split: list.splits if_splits)
  have "r \<in> set (filter (\<lambda>r. json_eq_int (jget r ''vmid'') v) roster)" by (simp only: f list.set) simp
  then show ?thesis using n by simp
qed

lemma observe_memberD:
  assumes "observe_member hs get h d roster m = Inr x"
  obtains r c ov where "sm_vm_id x = fst m" and "roster_entry h roster (fst m) = Some r"
    and "host_overrides (ph_protected_json h) = Inr ov" and "\<not> protected_id ov (fst m)"
    and "snap_read get h (guest_base h (fst m) @ ''/config'') [(''current'', JInt 1)] = Inr (JObj c)"
    and "carries_marker d (JObj c)" and "\<not> truthy (jget c ''lock'')" and "smbios_uuid c = Some (sm_uuid x)"
    and "sm_restore_digest x = config_digest hs c"
proof -
  from assms obtain r config pending status where
      r: "roster_entry h roster (fst m) = Some r" and safe: "assert_host_vmid_safe h (fst m) = Inr ()"
    and config: "snap_read get h (guest_base h (fst m) @ ''/config'') [(''current'', JInt 1)] = Inr config"
    and rest: "(case (owned_config d m r config, status) of
            (Some c, JObj st) \<Rightarrow>
              if \<not> no_pending pending then snap_blocked ''SNAPSHOT_OWNERSHIP_CHANGED''
              else bindE (in_strings (jget st ''status'') [''running'', ''stopped'']) (\<lambda>known.
                case (known, jget st ''status'', smbios_uuid c) of
                  (True, JStr s, Some u) \<Rightarrow>
                    bindE (item c ''name'') (\<lambda>name.
                      Inr \<lparr>sm_vm_id = fst m, sm_vm_name = name, sm_uuid = u,
                           sm_config_digest = digest hs (JObj (filter (\<lambda>(k, v). k \<noteq> ''digest'') c)),
                           sm_restore_digest = config_digest hs c, sm_status = s\<rparr>)
                | (True, JStr s, None) \<Rightarrow> snap_blocked ''SNAPSHOT_IDENTITY_UNAVAILABLE''
                | _ \<Rightarrow> snap_blocked ''SNAPSHOT_OWNERSHIP_CHANGED'')
          | _ \<Rightarrow> snap_blocked ''SNAPSHOT_OWNERSHIP_CHANGED'') = Inr x"
    by (auto simp: observe_member_def Let_def bindE_Inr split: option.splits)
  then obtain c st where c: "owned_config d m r config = Some c" and st: "status = JObj st"
    by (auto split: option.splits json.splits)
  have fields: "sm_vm_id x = fst m \<and> smbios_uuid c = Some (sm_uuid x) \<and> sm_restore_digest x = config_digest hs c"
    using rest by (auto simp: c st bindE_Inr split: if_splits option.splits json.splits bool.splits)
  have own: "config = JObj c" "carries_marker d config" "\<not> truthy (jget c ''lock'')"
    using c by (auto simp: owned_config_def split: json.splits if_splits)
  obtain ov where "host_overrides (ph_protected_json h) = Inr ov" "\<not> protected_id ov (fst m)"
    using safe by (auto simp: assert_host_vmid_safe_iff)
  then show ?thesis using that [of r ov c] fields r config own by simp
qed

end
