(* ===== verification/Runner.thy ===== *)
theory Runner
  imports Store
begin

text \<open>
  Detached runner processes (\<open>app/core/runner_detached.py\<close>): the identity of a Linux process,
  its comparison with the identity recorded beside an attempt's artifacts, and signalling.

  The files are a parameter: \<open>f_read\<close> is \<open>Path.read_text\<close> (it raises OSError, or ValueError
  when the bytes are not text), \<open>f_resolve\<close> is \<open>Path.resolve\<close>. A path is its string; \<open>a / b\<close>
  is \<open>a @ ''/b''\<close>, as for the absolute normal paths these directories have. The kernel's
  \<open>kill\<close> is a parameter, which answers whether the process was there.
\<close>

record files =
  f_read :: "string \<Rightarrow> string res"
  f_resolve :: "string \<Rightarrow> string res"
  f_is_symlink :: "string \<Rightarrow> bool"
  f_is_file :: "string \<Rightarrow> bool"

record process_identity =
  pi_pid :: int
  pi_start_time :: string
  pi_boot_id :: string

text \<open>\<open>s.split()\<close>, and \<open>s.rsplit(c, 1)[1]\<close>, which is an IndexError without the separator.\<close>

fun words_of :: "string \<Rightarrow> string \<Rightarrow> string list" where
  "words_of cur [] = (if cur = [] then [] else [rev cur])"
| "words_of cur (c # cs) =
     (if py_space c then (if cur = [] then words_of [] cs else rev cur # words_of [] cs)
      else words_of (c # cur) cs)"

definition after_last :: "char \<Rightarrow> string \<Rightarrow> string res" where
  "after_last c s =
     (if c \<in> set s then Inr (rev (takeWhile (\<lambda>x. x \<noteq> c) (rev s))) else Inl IndexError)"

definition nth_field :: "string list \<Rightarrow> nat \<Rightarrow> string res" where
  "nth_field xs i = (if i < length xs then Inr (xs ! i) else Inl IndexError)"

abbreviation os_or :: "exc \<Rightarrow> exc \<Rightarrow> bool" where
  "os_or e \<equiv> \<lambda>x. x = OSError \<or> x = e"

definition proc_identity :: "files \<Rightarrow> int \<Rightarrow> process_identity option res" where
  "proc_identity fs pid =
     (if pid \<le> 0 then Inr None
      else catchE (os_or IndexError)
        (bindE (f_read fs (''/proc/'' @ int_str pid @ ''/stat'')) (\<lambda>stat.
         bindE (after_last (CHR '')'') stat) (\<lambda>rest.
         let fields = words_of [] rest in
         bindE (nth_field fields 0) (\<lambda>st.
         if st = ''Z'' then Inr None
         else bindE (nth_field fields 19) (\<lambda>start.
              bindE (f_read fs ''/proc/sys/kernel/random/boot_id'') (\<lambda>boot.
                Inr (Some \<lparr>pi_pid = pid, pi_start_time = start, pi_boot_id = strip boot\<rparr>)))))))
        (Inr None))"

text \<open>\<open>recorded == current\<close> between a parsed document and an identity dict.\<close>

fun same_identity :: "json \<Rightarrow> process_identity \<Rightarrow> bool" where
  "same_identity (JObj d) p =
     (length d = 3
      \<and> (case dget d ''pid'' of None \<Rightarrow> False | Some v \<Rightarrow> json_eq_int v (pi_pid p))
      \<and> dget d ''start_time'' = Some (JStr (pi_start_time p))
      \<and> dget d ''boot_id'' = Some (JStr (pi_boot_id p)))"
| "same_identity _ p = False"

definition load_json :: "files \<Rightarrow> string \<Rightarrow> json res" where
  "load_json fs path = bindE (f_read fs path) (\<lambda>t. of_opt ValueError (json_loads t))"

definition process_matches :: "files \<Rightarrow> string \<Rightarrow> int \<Rightarrow> bool res" where
  "process_matches fs artifact pid =
     (case load_json fs (artifact @ ''/process.json'') of
        Inl e \<Rightarrow> if e = OSError \<or> e = ValueError then Inr False else Inl e
      | Inr recorded \<Rightarrow>
          bindE (proc_identity fs pid) (\<lambda>current.
            Inr (case current of None \<Rightarrow> False | Some p \<Rightarrow> same_identity recorded p)))"

definition read_int :: "files \<Rightarrow> string \<Rightarrow> int res" where
  "read_int fs path = bindE (f_read fs path) (\<lambda>t. of_opt ValueError (int_of_str t))"

text \<open>\<open>_read_rc\<close> of \<open>orphans.py\<close>: the exit code a finished runner left.\<close>

definition read_rc :: "files \<Rightarrow> string \<Rightarrow> int option res" where
  "read_rc fs artifact =
     catchE (os_or ValueError)
       (bindE (f_read fs (artifact @ ''/rc'')) (\<lambda>t.
        bindE (of_opt ValueError (int_of_str (take 32 t))) (\<lambda>i. Inr (Some i)))) (Inr None)"

definition plain_name :: "string \<Rightarrow> bool" where
  "plain_name s = (s \<noteq> [] \<and> CHR ''/'' \<notin> set s \<and> s \<noteq> ''.'' \<and> s \<noteq> ''..'')"

text \<open>
  The candidate directories of one attempt, or of any attempt of the workspace: the latter are
  globbed, which is the parameter \<open>found\<close>. The result names the process that was signalled.
\<close>

definition pid_candidates :: "string \<Rightarrow> string option \<Rightarrow> string list \<Rightarrow> string list option" where
  "pid_candidates ws attempt found =
     (case attempt of
        Some i \<Rightarrow> if plain_name i then Some [ws @ ''/runner/'' @ i] else None
      | None \<Rightarrow> Some ([ws @ ''/runner'', ws @ ''/runner/artifacts''] @ found))"

fun signal_first :: "files \<Rightarrow> (int \<Rightarrow> bool res) \<Rightarrow> string list \<Rightarrow> int option res" where
  "signal_first fs kill [] = Inr None"
| "signal_first fs kill (dir # dirs) =
     (if f_is_file fs (dir @ ''/rc'') then signal_first fs kill dirs
      else case read_int fs (dir @ ''/pid'') of
        Inl e \<Rightarrow> if e = OSError \<or> e = ValueError then signal_first fs kill dirs else Inl e
      | Inr pid \<Rightarrow>
          if pid \<le> 0 then signal_first fs kill dirs
          else bindE (process_matches fs dir pid) (\<lambda>same.
            if \<not> same then signal_first fs kill dirs
            else bindE (kill pid) (\<lambda>sent. if sent then Inr (Some pid) else signal_first fs kill dirs)))"

definition signal_running_attempt ::
    "files \<Rightarrow> (int \<Rightarrow> bool res) \<Rightarrow> bool \<Rightarrow> string \<Rightarrow> string option \<Rightarrow> string list \<Rightarrow> int option res" where
  "signal_running_attempt fs kill known ws attempt found =
     (case pid_candidates ws attempt found of
        None \<Rightarrow> Inr None
      | Some dirs \<Rightarrow> if \<not> known then Inr None else signal_first fs kill dirs)"

text \<open>
  \<open>signal_process_identity\<close>: through a pidfd, which is opened before the identity is verified;
  \<open>opened\<close> and \<open>send\<close> are the two system calls.
\<close>

definition signal_process_identity ::
    "files \<Rightarrow> (int \<Rightarrow> unit res) \<Rightarrow> (int \<Rightarrow> unit res) \<Rightarrow> dict \<Rightarrow> bool res" where
  "signal_process_identity fs opened send identity =
     (case jget identity ''pid'' of
        JInt pid \<Rightarrow>
          if \<not> (0 < pid \<and> pid < 2 ^ 31) then Inr False
          else catchE (os_or AttributeError)
            (bindE (opened pid) (\<lambda>_.
             bindE (proc_identity fs pid) (\<lambda>current.
               if \<not> (case current of None \<Rightarrow> False | Some p \<Rightarrow> same_identity (JObj identity) p)
               then Inr False
               else bindE (send pid) (\<lambda>_. Inr True)))) (Inr False)
      | _ \<Rightarrow> Inr False)"

subsection \<open>Only the recorded process is a match\<close>

text \<open>The process with this PID is alive and is the one recorded in the artifact directory.\<close>

definition recorded_process :: "files \<Rightarrow> string \<Rightarrow> int \<Rightarrow> bool" where
  "recorded_process fs artifact pid =
     (case (proc_identity fs pid, load_json fs (artifact @ ''/process.json'')) of
        (Inr (Some p), Inr (JObj d)) \<Rightarrow>
          pi_pid p = pid \<and> dget d ''start_time'' = Some (JStr (pi_start_time p))
          \<and> dget d ''boot_id'' = Some (JStr (pi_boot_id p))
      | _ \<Rightarrow> False)"

lemma proc_identity_pid: "proc_identity fs pid = Inr (Some p) \<Longrightarrow> pi_pid p = pid \<and> 0 < pid"
  by (auto simp: proc_identity_def res_simps Let_def split: if_splits)

lemma process_matches_recorded:
  assumes "process_matches fs artifact pid = Inr True"
  shows "recorded_process fs artifact pid"
proof -
  obtain doc where doc: "load_json fs (artifact @ ''/process.json'') = Inr doc"
    using assms by (cases "load_json fs (artifact @ ''/process.json'')")
      (auto simp: process_matches_def split: if_splits)
  obtain p where p: "proc_identity fs pid = Inr (Some p)" and same: "same_identity doc p"
    using assms by (auto simp: process_matches_def doc res_simps split: option.splits)
  obtain d where d: "doc = JObj d" using same by (cases doc) auto
  show ?thesis using same proc_identity_pid [OF p]
    by (simp add: recorded_process_def doc p d)
qed

lemma signal_first_recorded:
  "signal_first fs kill dirs = Inr (Some pid) \<Longrightarrow>
     \<exists>dir\<in>set dirs. \<not> f_is_file fs (dir @ ''/rc'') \<and> read_int fs (dir @ ''/pid'') = Inr pid
       \<and> recorded_process fs dir pid \<and> kill pid = Inr True"
proof (induction dirs)
  case Nil
  then show ?case by simp
next
  case (Cons dir dirs)
  show ?case
  proof (cases "f_is_file fs (dir @ ''/rc'')")
    case True
    then show ?thesis using Cons by auto
  next
    case False
    show ?thesis
    proof (cases "read_int fs (dir @ ''/pid'')")
      case (Inl e)
      then show ?thesis using Cons False by (auto split: if_splits)
    next
      case (Inr n)
      then show ?thesis using Cons False process_matches_recorded [of fs dir n]
        by (auto simp: res_simps split: if_splits)
    qed
  qed
qed

text \<open>
  A signal is sent only to a process of one of the attempt's artifact directories, one that
  has left no exit code, whose PID file names it and whose start time and boot identifier are
  those recorded when it was spawned: a recycled PID is never signalled.
\<close>

theorem signal_only_recorded:
  assumes "signal_running_attempt fs kill known ws attempt found = Inr (Some pid)"
  shows "\<exists>dirs dir. pid_candidates ws attempt found = Some dirs \<and> dir \<in> set dirs
           \<and> \<not> f_is_file fs (dir @ ''/rc'') \<and> read_int fs (dir @ ''/pid'') = Inr pid
           \<and> recorded_process fs dir pid \<and> kill pid = Inr True"
  using assms
  by (auto simp: signal_running_attempt_def split: option.splits if_splits dest!: signal_first_recorded)

definition sample_stat :: string where
  "sample_stat = ''7 (a) b) S 1 1 1 0 0 0 0 0 0 0 0 0 0 0 0 0 0 0 99''"

definition sample_files :: files where
  "sample_files =
     \<lparr>f_read = (\<lambda>p. if p = ''/w/runner/a/pid'' then Inr ''7''
                  else if p = ''/w/runner/a/process.json''
                  then Inr (json_dumps (\<lambda>_. []) (JObj [(''pid'', JInt 7), (''start_time'', JStr ''99''), (''boot_id'', JStr ''b'')]))
                  else if p = ''/proc/7/stat'' then Inr sample_stat
                  else if p = ''/proc/sys/kernel/random/boot_id'' then Inr ''b'' else Inl OSError),
      f_resolve = Inr, f_is_symlink = (\<lambda>p. False), f_is_file = (\<lambda>p. False)\<rparr>"

lemma sample_signalled:
  "signal_running_attempt sample_files (\<lambda>_. Inr True) True ''/w'' (Some ''a'') [] = Inr (Some 7)"
  by code_simp

theorem signal_only_recorded_witness:
  "\<exists>dirs dir. pid_candidates ''/w'' (Some ''a'') [] = Some dirs \<and> dir \<in> set dirs
     \<and> \<not> f_is_file sample_files (dir @ ''/rc'') \<and> read_int sample_files (dir @ ''/pid'') = Inr 7
     \<and> recorded_process sample_files dir 7 \<and> (\<lambda>_. Inr True :: bool res) (7 :: int) = Inr True"
  by (rule signal_only_recorded [OF sample_signalled])

end
