(* ===== verification/Locks.thy ===== *)
theory Locks
  imports Runner
begin

text \<open>
  The workspace lock of a deployment (\<open>app/core/locks.py\<close>): its staleness, the check that its
  owner is still alive, and the operations that take, renew, release and clean it. The primary
  key leaves at most one lock of a deployment, so \<open>get_lock\<close> is \<open>scalar_one_or_none\<close>.
\<close>

definition second :: int where "second = 1000000"

definition attempt_owner :: "string \<Rightarrow> string" where
  "attempt_owner i = ''attempt-'' @ i"

definition is_stale :: "int \<Rightarrow> workspace_lock \<Rightarrow> bool" where
  "is_stale now l = (now - lk_heartbeat l > 3 * lk_interval l * second)"

definition is_relative_to :: "string \<Rightarrow> string \<Rightarrow> bool" where
  "is_relative_to p base = (p = base \<or> prefix (if base = ''/'' then base else base @ ''/'') p)"

definition str_given :: "string option \<Rightarrow> bool" where
  "str_given s = (s \<noteq> None \<and> s \<noteq> Some [])"

text \<open>The attempt a lock's owner names; it keeps the lock only on its own deployment.\<close>

definition owner_attempt :: "store \<Rightarrow> workspace_lock \<Rightarrow> attempt option" where
  "owner_attempt db l =
     (if prefix ''attempt-'' (lk_owner l)
      then case get_attempt db (drop 8 (lk_owner l)) of
        None \<Rightarrow> None
      | Some a \<Rightarrow> if at_deployment a = lk_deployment l then Some a else None
      else None)"

definition active_operation :: "string \<Rightarrow> bool" where
  "active_operation s = (s = ''running'' \<or> s = ''needs_review'')"

definition runner_pid :: "files \<Rightarrow> attempt \<Rightarrow> string \<Rightarrow> int res" where
  "runner_pid fs a artifact =
     (case at_pid a of
        Some p \<Rightarrow> if p \<noteq> 0 then Inr p else read_int fs (artifact @ ''/pid'')
      | None \<Rightarrow> read_int fs (artifact @ ''/pid''))"

definition runner_process_alive :: "files \<Rightarrow> deployment \<Rightarrow> attempt \<Rightarrow> bool res" where
  "runner_process_alive fs d a =
     (let artifact = dep_workspace d @ ''/runner/'' @ at_id a in
      bindE (f_resolve fs artifact) (\<lambda>resolved.
      if f_is_symlink fs artifact then Inr False
      else bindE (f_resolve fs (dep_workspace d)) (\<lambda>base.
           if \<not> is_relative_to resolved base then Inr False
           else bindE (case at_artifact_dir a of
                   None \<Rightarrow> Inr True
                 | Some dir \<Rightarrow> if dir = [] then Inr True
                               else bindE (f_resolve fs dir) (\<lambda>r. Inr (r = resolved))) (\<lambda>agrees.
                if \<not> agrees then Inr False
                else bindE (runner_pid fs a artifact) (process_matches fs artifact)))))"

definition runner_alive :: "files \<Rightarrow> store \<Rightarrow> workspace_lock \<Rightarrow> bool res" where
  "runner_alive fs db l =
     (case owner_attempt db l of
        None \<Rightarrow> Inr False
      | Some a \<Rightarrow>
          if at_scope a = ''snapshot_set''
          then Inr (case row_by op_attempt_id (Some (at_id a)) (st_operations db) of
                 None \<Rightarrow> False | Some opr \<Rightarrow> active_operation (op_state opr))
          else case get_deployment db (lk_deployment l) of
            None \<Rightarrow> Inr False
          | Some d \<Rightarrow>
              catchE (\<lambda>e. e \<in> {OSError, ValueError, RuntimeError})
                (runner_process_alive fs d a) (Inr False))"

definition lock_held_error :: api_error where
  "lock_held_error = \<lparr>ae_status = 409, ae_error = ''deployment_locked'', ae_code = ''DEPLOYMENT_LOCKED''\<rparr>"

definition drop_lock :: "string \<Rightarrow> store \<Rightarrow> store" where
  "drop_lock d db = db\<lparr>st_locks := delete_rows (\<lambda>l. lk_deployment l = d) (st_locks db)\<rparr>"

definition add_lock :: "workspace_lock \<Rightarrow> store \<Rightarrow> store" where
  "add_lock l db = db\<lparr>st_locks := st_locks db @ [l]\<rparr>"

text \<open>A lock may be taken away when its heartbeat expired and its owner is gone.\<close>

definition abandoned :: "files \<Rightarrow> int \<Rightarrow> store \<Rightarrow> workspace_lock \<Rightarrow> bool res" where
  "abandoned fs now db l =
     (if is_stale now l then bindE (runner_alive fs db l) (\<lambda>alive. Inr (\<not> alive)) else Inr False)"

definition acquire_lock :: "files \<Rightarrow> int \<Rightarrow> string \<Rightarrow> string \<Rightarrow> int \<Rightarrow> store \<Rightarrow> store res" where
  "acquire_lock fs now d owner interval db =
     bindE (case get_lock db d of
         None \<Rightarrow> Inr db
       | Some l \<Rightarrow> bindE (abandoned fs now db l) (\<lambda>free.
           if free then Inr (drop_lock d db) else Inl (ApiError lock_held_error))) (\<lambda>db.
     Inr (add_lock \<lparr>lk_deployment = d, lk_owner = owner, lk_acquired = now, lk_heartbeat = now,
                    lk_interval = interval\<rparr> db))"

definition owns_lock :: "store \<Rightarrow> string \<Rightarrow> string \<Rightarrow> bool" where
  "owns_lock db d owner = (case get_lock db d of None \<Rightarrow> False | Some l \<Rightarrow> lk_owner l = owner)"

definition release_lock :: "string \<Rightarrow> string \<Rightarrow> store \<Rightarrow> bool \<times> store" where
  "release_lock d owner db =
     (if owns_lock db d owner then (True, drop_lock d db) else (False, db))"

definition heartbeat :: "int \<Rightarrow> string \<Rightarrow> string \<Rightarrow> store \<Rightarrow> bool \<times> store" where
  "heartbeat now d owner db =
     (if owns_lock db d owner
      then (True, db\<lparr>st_locks := update_rows (\<lambda>l. lk_deployment l = d) (\<lambda>l. l\<lparr>lk_heartbeat := now\<rparr>)
                                  (st_locks db)\<rparr>)
      else (False, db))"

text \<open>The rows selected first are visited one by one; the count is of the removed ones.\<close>

definition cleanup_step ::
    "files \<Rightarrow> int \<Rightarrow> nat \<times> store \<Rightarrow> workspace_lock \<Rightarrow> (nat \<times> store) res" where
  "cleanup_step fs now s l =
     (case s of (n, db) \<Rightarrow> bindE (abandoned fs now db l) (\<lambda>gone.
        Inr (if gone then (Suc n, drop_lock (lk_deployment l) db) else (n, db))))"

definition cleanup_stale_locks :: "files \<Rightarrow> int \<Rightarrow> string option \<Rightarrow> store \<Rightarrow> (nat \<times> store) res" where
  "cleanup_stale_locks fs now only db =
     foldE (cleanup_step fs now) (0, db)
        (filter (\<lambda>l. case only of None \<Rightarrow> True | Some d \<Rightarrow> lk_deployment l = d) (st_locks db))"

subsection \<open>Laws\<close>

definition lock_keys :: "store \<Rightarrow> bool" where
  "lock_keys db = distinct (map lk_deployment (st_locks db))"

lemma drop_lock_simps [simp]:
  "st_deployments (drop_lock d db) = st_deployments db" "st_attempts (drop_lock d db) = st_attempts db"
  "st_operations (drop_lock d db) = st_operations db" "st_sets (drop_lock d db) = st_sets db"
  "st_hosts (drop_lock d db) = st_hosts db"
  by (simp_all add: drop_lock_def)

lemma add_lock_simps [simp]:
  "st_deployments (add_lock l db) = st_deployments db" "st_attempts (add_lock l db) = st_attempts db"
  "st_operations (add_lock l db) = st_operations db" "st_sets (add_lock l db) = st_sets db"
  "st_hosts (add_lock l db) = st_hosts db"
  by (simp_all add: add_lock_def)

lemma get_drop_lock [row_simps]: "get_lock (drop_lock d db) i = (if i = d then None else get_lock db i)"
  by (simp add: drop_lock_def row_by_delete)

lemma get_add_lock [row_simps]:
  "get_lock (add_lock l db) i =
     (case get_lock db i of None \<Rightarrow> if lk_deployment l = i then Some l else None | Some k \<Rightarrow> Some k)"
  by (simp add: add_lock_def row_by_append split: option.split)

lemma lock_keys_drop [simp]: "lock_keys db \<Longrightarrow> lock_keys (drop_lock d db)"
  by (simp add: lock_keys_def drop_lock_def delete_rows_keys)

lemma lock_keys_add: "lock_keys db \<Longrightarrow> get_lock db (lk_deployment l) = None \<Longrightarrow> lock_keys (add_lock l db)"
  by (auto simp: lock_keys_def add_lock_def row_by_None)

lemma runner_alive_cong:
  "st_attempts db' = st_attempts db \<Longrightarrow> st_operations db' = st_operations db \<Longrightarrow>
     st_deployments db' = st_deployments db \<Longrightarrow> runner_alive fs db' l = runner_alive fs db l"
  unfolding runner_alive_def owner_attempt_def by (simp only:)

lemma abandoned_drop [simp]: "abandoned fs now (drop_lock d db) l = abandoned fs now db l"
  by (simp add: abandoned_def runner_alive_cong [of "drop_lock d db" db])

lemma abandoned_True: "abandoned fs now db l = Inr True \<longleftrightarrow> is_stale now l \<and> runner_alive fs db l = Inr False"
  by (auto simp: abandoned_def res_simps)

lemma acquire_lockD:
  assumes "acquire_lock fs now d owner n db = Inr db'"
  shows "\<exists>l. lk_deployment l = d \<and> lk_owner l = owner
           \<and> (get_lock db d = None \<and> db' = add_lock l db
              \<or> (\<exists>k. get_lock db d = Some k \<and> is_stale now k \<and> runner_alive fs db k = Inr False
                  \<and> db' = add_lock l (drop_lock d db)))"
  using assms
  by (auto simp: acquire_lock_def res_simps abandoned_True split: option.splits if_splits
        intro!: exI [of _ "\<lparr>lk_deployment = d, lk_owner = owner, lk_acquired = now, lk_heartbeat = now, lk_interval = n\<rparr>"])

text \<open>
  What a cleanup removes: exactly the abandoned locks of its selection. \<open>cleanup_step\<close> is the
  body of its loop; \<open>drop_locks\<close> deletes the rows that a predicate selects.
\<close>

definition drop_locks :: "(workspace_lock \<Rightarrow> bool) \<Rightarrow> store \<Rightarrow> store" where
  "drop_locks p db = db\<lparr>st_locks := filter (\<lambda>l. \<not> p l) (st_locks db)\<rparr>"

lemma drop_locks_drop:
  "drop_locks p (drop_lock d db) = drop_locks (\<lambda>l. lk_deployment l = d \<or> p l) db"
  by (auto simp: drop_locks_def drop_lock_def delete_rows_def intro!: filter_cong)

lemma drop_locks_cong:
  "(\<And>l. l \<in> set (st_locks db) \<Longrightarrow> p l = q l) \<Longrightarrow> drop_locks p db = drop_locks q db"
  unfolding drop_locks_def by (simp cong: filter_cong)

lemma cleanup_fold:
  "foldE (cleanup_step fs now) (n, db) ls = Inr (n', db') \<Longrightarrow>
     db' = drop_locks (\<lambda>l. \<exists>k\<in>set ls. lk_deployment l = lk_deployment k \<and> abandoned fs now db k = Inr True) db"
proof (induction ls arbitrary: n db)
  case Nil
  then show ?case by (simp add: drop_locks_def)
next
  case (Cons k ls)
  from Cons.prems obtain g where g: "abandoned fs now db k = Inr g"
    and rest: "foldE (cleanup_step fs now)
                 (if g then (Suc n, drop_lock (lk_deployment k) db) else (n, db)) ls = Inr (n', db')"
    by (simp only: foldE.simps bindE_Inr cleanup_step_def [of fs now "(n, db)"] prod.case) auto
  show ?case
  proof (cases g)
    case True
    then have "foldE (cleanup_step fs now) (Suc n, drop_lock (lk_deployment k) db) ls = Inr (n', db')"
      using rest by simp
    from Cons.IH [OF this] show ?thesis
      using g True by (simp add: drop_locks_drop)
  next
    case False
    then have "foldE (cleanup_step fs now) (n, db) ls = Inr (n', db')" using rest by simp
    from Cons.IH [OF this] show ?thesis using g False by simp
  qed
qed

lemma lock_unique:
  "lock_keys db \<Longrightarrow> l \<in> set (st_locks db) \<Longrightarrow> k \<in> set (st_locks db) \<Longrightarrow>
     lk_deployment l = lk_deployment k \<Longrightarrow> l = k"
  unfolding lock_keys_def distinct_map by (blast dest: inj_onD)

lemma cleanupD:
  assumes "cleanup_stale_locks fs now only db = Inr (n, db')" and "lock_keys db"
  shows "db' = drop_locks (\<lambda>l. (only = None \<or> only = Some (lk_deployment l))
                              \<and> abandoned fs now db l = Inr True) db"
proof -
  let ?p = "\<lambda>l. only = None \<or> only = Some (lk_deployment l)"
  have sel: "filter (\<lambda>l. case only of None \<Rightarrow> True | Some d \<Rightarrow> lk_deployment l = d) (st_locks db)
      = filter ?p (st_locks db)"
    by (cases only) (auto intro!: filter_cong)
  show ?thesis
    unfolding cleanup_fold [OF assms(1) [unfolded cleanup_stale_locks_def sel]]
    by (rule drop_locks_cong) (use lock_unique [OF assms(2)] in \<open>simp, metis\<close>)
qed

lemma lock_keys_drop_locks: "lock_keys db \<Longrightarrow> lock_keys (drop_locks p db)"
  by (simp add: lock_keys_def drop_locks_def distinct_map_filter)

lemma get_drop_locks:
  assumes "lock_keys db"
  shows "get_lock (drop_locks p db) d = Some l \<longleftrightarrow> get_lock db d = Some l \<and> \<not> p l"
  using lock_keys_drop_locks [OF assms, of p] assms
  by (auto simp: row_by_iff lock_keys_def) (auto simp: drop_locks_def)

end
