(* ===== verification/Attempts.thy ===== *)
theory Attempts
  imports Locks Pve_Routes
begin

text \<open>
  The life of an attempt (\<open>app/core/attempt_lifecycle.py\<close>,
  \<open>app/routes/v1/deployments/attempts.py\<close>, the cancel route of
  \<open>app/routes/v1/deployments/snapshots.py\<close>, the scope checks of \<open>app/core/scenario.py\<close>).

  Each definition is one transaction. The clock, the new identifier, the files, the kernel's
  \<open>kill\<close> and the playbook lookup of installed scenarios are parameters; the runner that
  \<open>start_attempt\<close> spawns is not modelled, its effects on the store are the transactions here.
\<close>

definition terminal_states :: "string list" where
  "terminal_states = [''succeeded'', ''completed'', ''partial'', ''failed'', ''cancelled'', ''unknown'']"

definition is_terminal :: "string \<Rightarrow> bool" where
  "is_terminal s = (s \<in> set terminal_states)"

lemma is_terminal_eval [simp]:
  "is_terminal ''succeeded''" "is_terminal ''completed''" "is_terminal ''partial''" "is_terminal ''failed''"
  "is_terminal ''cancelled''" "is_terminal ''unknown''" "\<not> is_terminal ''pending''" "\<not> is_terminal ''deploying''"
  by (simp_all add: is_terminal_def terminal_states_def)

subsection \<open>Transactions on one attempt\<close>

abbreviation on_attempts :: "(attempt \<Rightarrow> bool) \<Rightarrow> (attempt \<Rightarrow> attempt) \<Rightarrow> store \<Rightarrow> store" where
  "on_attempts p f db \<equiv> db\<lparr>st_attempts := update_rows p f (st_attempts db)\<rparr>"

abbreviation on_deployments :: "(deployment \<Rightarrow> bool) \<Rightarrow> (deployment \<Rightarrow> deployment) \<Rightarrow> store \<Rightarrow> store" where
  "on_deployments p f db \<equiv> db\<lparr>st_deployments := update_rows p f (st_deployments db)\<rparr>"

definition advance_attempt_cursor :: "string \<Rightarrow> int \<Rightarrow> store \<Rightarrow> store" where
  "advance_attempt_cursor i tip db =
     on_attempts (\<lambda>a. at_id a = i \<and> at_cursor a < tip) (\<lambda>a. a\<lparr>at_cursor := tip\<rparr>) db"

definition heartbeat_attempt :: "int \<Rightarrow> string \<Rightarrow> string \<Rightarrow> store \<Rightarrow> bool \<times> store" where
  "heartbeat_attempt now i d db = heartbeat now d (attempt_owner i) db"

text \<open>
  The loop of \<open>keep_attempt_lock\<close> over its wake-ups: whether \<open>stop\<close> was set, the time and
  the store it then finds. It yields the stores it committed.
\<close>

fun keep_attempt_lock :: "string \<Rightarrow> string \<Rightarrow> (bool \<times> int \<times> store) list \<Rightarrow> store list" where
  "keep_attempt_lock i d [] = []"
| "keep_attempt_lock i d ((stop, now, db) # ticks) =
     (if stop then []
      else case heartbeat_attempt now i d db of (renewed, db') \<Rightarrow>
        if renewed then db' # keep_attempt_lock i d ticks else [db'])"

definition cancel_requested :: "attempt \<Rightarrow> bool" where
  "cancel_requested a = (at_sub_reason a = Some ''cancel_requested'')"

text \<open>\<open>UPDATE deployments SET state\<close> where the attempt is the current one of its deployment.\<close>

definition publish_state :: "attempt \<Rightarrow> string \<Rightarrow> store \<Rightarrow> store" where
  "publish_state a s db =
     on_deployments (\<lambda>d. dep_id d = at_deployment a \<and> dep_current d = Some (at_id a))
       (\<lambda>d. d\<lparr>dep_state := s\<rparr>) db"

definition may_start :: "string \<Rightarrow> attempt \<Rightarrow> bool" where
  "may_start i a = (at_id a = i \<and> \<not> is_terminal (at_state a) \<and> \<not> cancel_requested a)"

definition mark_attempt_running ::
    "int \<Rightarrow> string \<Rightarrow> int option \<Rightarrow> string \<Rightarrow> store \<Rightarrow> bool \<times> store" where
  "mark_attempt_running now i pid dir db =
     (if count_rows (may_start i) (st_attempts db) = 0 then (False, db)
      else let db' = on_attempts (may_start i)
                       (\<lambda>a. a\<lparr>at_state := ''deploying'', at_pid := pid, at_artifact_dir := Some dir,
                               at_started := Some now\<rparr>) db
           in case get_attempt db' i of
             None \<Rightarrow> (False, db)
           | Some a \<Rightarrow> (True, publish_state a ''deploying'' db'))"

definition finish_state :: "int option \<Rightarrow> string option \<Rightarrow> bool \<Rightarrow> bool \<Rightarrow> bool \<Rightarrow> string" where
  "finish_state rc err cancelled unknown partial =
     (if cancelled then ''cancelled'' else if unknown then ''unknown'' else if partial then ''partial''
      else if rc = Some 0 \<and> err = None then ''succeeded'' else ''failed'')"

record finish_args =
  fa_rc :: "int option"
  fa_cursor :: "int option"
  fa_error :: "string option"
  fa_warning :: "string option"
  fa_cancelled :: bool
  fa_unknown :: bool
  fa_partial :: bool

definition conclude :: "int \<Rightarrow> finish_args \<Rightarrow> attempt \<Rightarrow> attempt" where
  "conclude now args a =
     a\<lparr>at_state := (if cancel_requested a then ''cancelled''
                    else finish_state (fa_rc args) (fa_error args) (fa_cancelled args) (fa_unknown args) (fa_partial args)),
       at_rc := fa_rc args,
       at_sub_reason := (if cancel_requested a then Some ''cancel_requested''
                         else if str_given (fa_error args) then fa_error args else fa_warning args),
       at_ended := Some now\<rparr>"

definition late_rc :: "int option \<Rightarrow> attempt \<Rightarrow> attempt" where
  "late_rc rc a = (if at_rc a = None \<and> rc \<noteq> None then a\<lparr>at_rc := rc\<rparr> else a)"

definition late_cursor :: "int option \<Rightarrow> attempt \<Rightarrow> attempt" where
  "late_cursor tip a =
     (case tip of None \<Rightarrow> a | Some t \<Rightarrow> a\<lparr>at_cursor := (if at_cursor a < t then t else at_cursor a)\<rparr>)"

definition finish_attempt :: "int \<Rightarrow> string \<Rightarrow> finish_args \<Rightarrow> store \<Rightarrow> string option \<times> store" where
  "finish_attempt now i args db =
     (let db1 = on_attempts (\<lambda>a. at_id a = i \<and> \<not> is_terminal (at_state a)) (conclude now args) db
      in if get_attempt db1 i = None then (None, db)
         else let db2 = on_attempts (\<lambda>a. at_id a = i) (late_cursor (fa_cursor args) \<circ> late_rc (fa_rc args)) db1
         in case get_attempt db2 i of
              None \<Rightarrow> (None, db)
            | Some a \<Rightarrow> (Some (at_state a),
                snd (release_lock (at_deployment a) (attempt_owner i) (publish_state a (at_state a) db2))))"

definition finish_defaults :: finish_args where
  "finish_defaults = \<lparr>fa_rc = None, fa_cursor = None, fa_error = None, fa_warning = None,
                      fa_cancelled = False, fa_unknown = False, fa_partial = False\<rparr>"

text \<open>
  The cancel route: it claims cancellation, then signals the runner; without a runner to
  signal, the claim is rolled back unless the attempt is still starting.
\<close>

definition cancel_current_attempt ::
    "files \<Rightarrow> (int \<Rightarrow> bool res) \<Rightarrow> (string \<Rightarrow> bool) \<Rightarrow> string \<Rightarrow> store \<Rightarrow> (attempt \<times> store) res" where
  "cancel_current_attempt fs kill tracked d db =
     bindE (case get_deployment db d of None \<Rightarrow> api_fail 404 ''not_found'' ''NOT_FOUND'' | Some dep \<Rightarrow> Inr dep) (\<lambda>dep.
     if \<not> str_given (dep_current dep) then api_fail 409 ''no_inflight_attempt'' ''NO_INFLIGHT_ATTEMPT''
     else case get_attempt db (the (dep_current dep)) of
       None \<Rightarrow> api_fail 409 ''attempt_terminal'' ''ATTEMPT_TERMINAL''
     | Some a \<Rightarrow>
         if at_scope a = ''snapshot_set'' \<and> at_state a \<notin> {''succeeded'', ''partial'', ''failed''}
         then api_fail 409 ''native_task_active'' ''SNAPSHOT_RECONCILIATION_REQUIRED''
         else if is_terminal (at_state a) then api_fail 409 ''attempt_terminal'' ''ATTEMPT_TERMINAL''
         else if at_state a \<notin> {''pending'', ''running'', ''deploying''} then api_fail 409 ''error'' ''ATTEMPT_TERMINAL''
         else let db' = on_attempts (\<lambda>r. at_id r = at_id a) (\<lambda>r. r\<lparr>at_sub_reason := Some ''cancel_requested''\<rparr>) db in
           bindE (signal_running_attempt fs kill True (dep_workspace dep) (Some (at_id a)) []) (\<lambda>sent.
           if sent = None \<and> \<not> (at_state a = ''pending'' \<and> tracked (at_id a))
           then api_fail 409 ''error'' ''RUNNER_NOT_RUNNING''
           else Inr (a\<lparr>at_sub_reason := Some ''cancel_requested''\<rparr>, db')))"

subsection \<open>Reserving an attempt\<close>

definition native_actions :: "string list" where
  "native_actions = [''full'', ''configure'', ''deploy_vms'', ''teardown'', ''delete_vms'', ''reset'',
                     ''deploy_networks'', ''delete_networks'']"

definition destructive_actions :: "string list" where
  "destructive_actions = [''teardown'', ''delete_vms'', ''delete_networks'', ''reset'']"

definition is_native :: "deployment \<Rightarrow> bool" where
  "is_native d = (case dep_native d of None \<Rightarrow> False | Some n \<Rightarrow> n \<noteq> [])"

text \<open>\<open>scope in actions\<close> for the JSON value a saved descriptor declares.\<close>

fun str_in_json :: "string \<Rightarrow> json \<Rightarrow> bool res" where
  "str_in_json s (JObj d) = Inr (s \<in> set (dkeys d))"
| "str_in_json s (JList xs) = Inr (JStr s \<in> set xs)"
| "str_in_json s (JStr t) = Inr (sublist s t)"
| "str_in_json s _ = Inl TypeError"

definition native_declares :: "string \<Rightarrow> dict \<Rightarrow> bool res" where
  "native_declares scope n =
     (case (case dget n ''descriptor'' of None \<Rightarrow> JObj [] | Some v \<Rightarrow> v) of
        JObj descr \<Rightarrow>
          bindE (case dget descr ''actions'' of
                   None \<Rightarrow> Inr (scope \<in> set native_actions)
                 | Some v \<Rightarrow> str_in_json scope v) (\<lambda>declared.
            Inr (declared \<and> scope \<in> set native_actions))
      | _ \<Rightarrow> Inl AttributeError)"

definition validate_concrete_scope :: "deployment \<Rightarrow> string \<Rightarrow> unit res" where
  "validate_concrete_scope d scope =
     (if is_native d
      then bindE (native_declares scope (the (dep_native d))) (\<lambda>declared.
             if declared then Inr () else api_fail 409 ''native_scenario_invalid'' ''NATIVE_ACTION_UNAVAILABLE'')
      else if dep_scenario_label d = ''_universal'' then api_fail 400 ''scenario_retired'' ''SCENARIO_RETIRED''
      else if str_given (dep_project_sha d) \<and> scope \<notin> {''full'', ''configure'', ''teardown'', ''runtime''}
      then api_fail 400 ''scenario_scope_unsupported'' ''PROJECT_SCENARIO_SCOPE_UNSUPPORTED''
      else Inr ())"

definition lower_char :: "char \<Rightarrow> char" where
  "lower_char c =
     (let n = of_char c :: nat in
      if 65 \<le> n \<and> n \<le> 90 \<or> 192 \<le> n \<and> n \<le> 222 \<and> n \<noteq> 215 then char_of (n + 32) else c)"

definition sha_lower :: "string option \<Rightarrow> string" where
  "sha_lower s = (case s of None \<Rightarrow> [] | Some t \<Rightarrow> map lower_char t)"

definition validate_project_revision :: "deployment \<Rightarrow> string \<Rightarrow> string option \<Rightarrow> unit res" where
  "validate_project_revision d scope sha =
     (if is_native d
      then if str_given sha \<and> sha_lower sha \<noteq> sha_lower (dep_project_sha d)
           then api_fail 409 ''native_scenario_invalid'' ''NATIVE_REVISION_CHANGED'' else Inr ()
      else if sha \<noteq> None \<and> (scope \<noteq> ''configure'' \<or> \<not> str_given (dep_project_sha d)
                            \<or> dep_scenario_label d = ''_universal'')
      then api_fail 400 ''unsupported_revision'' ''PROJECT_SCENARIO_REVISION_UNSUPPORTED''
      else Inr ())"

record attempt_create =
  pa_scope :: string
  pa_team_id :: "int option"
  pa_confirm :: "string option"
  pa_project_sha :: "string option"

definition check_team :: "string \<Rightarrow> attempt_create \<Rightarrow> deployment \<Rightarrow> unit res" where
  "check_team scope p d =
     (if (case pa_team_id p of None \<Rightarrow> False | Some t \<Rightarrow> \<not> (1 \<le> t \<and> t \<le> dep_team_count d))
      then api_fail 400 ''error'' ''TEAM_OUT_OF_RANGE''
      else if scope \<in> {''team_reset'', ''rollback_team'', ''snapshot_team''} \<and> pa_team_id p = None
      then api_fail 400 ''error'' ''TEAM_REQUIRED'' else Inr ())"

definition is_destructive :: "attempt_create \<Rightarrow> deployment \<Rightarrow> bool" where
  "is_destructive p d =
     (pa_scope p = ''teardown'' \<or> is_native d \<and> pa_scope p \<in> set destructive_actions)"

definition check_destructive :: "attempt_create \<Rightarrow> deployment \<Rightarrow> unit res" where
  "check_destructive p d =
     (if is_destructive p d
      then if pa_confirm p \<noteq> Some (dep_codename d) then api_fail 400 ''confirm_mismatch'' ''TEARDOWN_CONFIRM_MISMATCH''
           else if dep_state d = ''unknown'' then api_fail 409 ''teardown_blocked'' ''DEPLOYMENT_UNKNOWN_STATE''
           else Inr ()
      else Inr ())"

definition check_reservable ::
    "deployment \<Rightarrow> string \<Rightarrow> attempt_create \<Rightarrow> bool \<Rightarrow> unit res" where
  "check_reservable d scope p legacy =
     bindE (validate_concrete_scope d scope) (\<lambda>_.
     bindE (validate_project_revision d scope (pa_project_sha p)) (\<lambda>_.
     bindE (if scope \<in> {''rollback_all'', ''rollback_team''} \<and> \<not> legacy
            then api_fail 400 ''error'' ''USE_SCOPED_ENDPOINT'' else Inr ()) (\<lambda>_.
     bindE (check_team scope p d) (\<lambda>_. check_destructive p d))))"

definition new_attempt ::
    "int \<Rightarrow> string \<Rightarrow> deployment \<Rightarrow> string \<Rightarrow> attempt_create \<Rightarrow> json option \<Rightarrow> dict option \<Rightarrow> attempt" where
  "new_attempt now i d scope p operation legacy =
     \<lparr>at_id = i, at_deployment = dep_id d, at_scope = scope,
      at_project_sha = (let s = (if str_given (pa_project_sha p) then pa_project_sha p else dep_project_sha d)
                        in if str_given s then Some (sha_lower s) else None),
      at_operation = (case legacy of None \<Rightarrow> operation
                      | Some v \<Rightarrow> Some (JObj [(''kind'', JStr ''legacy''), (''variables'', JObj v)])),
      at_operation_result = None, at_team_id = pa_team_id p, at_state = ''pending'', at_sub_reason = None,
      at_rc = None, at_started = Some now, at_ended = None, at_cursor = 0, at_pid = None,
      at_artifact_dir = None\<rparr>"

definition active_attempt :: "store \<Rightarrow> deployment \<Rightarrow> bool" where
  "active_attempt db d =
     (case dep_current d of None \<Rightarrow> False
      | Some i \<Rightarrow> list_ex (\<lambda>a. at_id a = i \<and> \<not> is_terminal (at_state a)) (st_attempts db))"

definition held_lock :: "store \<Rightarrow> deployment \<Rightarrow> bool" where
  "held_lock db d = list_ex (\<lambda>l. lk_deployment l = dep_id d) (st_locks db)"

definition reservable :: "store \<Rightarrow> string \<Rightarrow> deployment \<Rightarrow> bool" where
  "reservable db d r = (dep_id r = d \<and> \<not> active_attempt db r \<and> \<not> held_lock db r)"

definition claim_pointer :: "attempt \<Rightarrow> store \<Rightarrow> store res" where
  "claim_pointer a db =
     (if count_rows (reservable db (at_deployment a)) (st_deployments db) = 0
      then api_fail 409 ''attempt_in_progress'' ''ATTEMPT_IN_PROGRESS''
      else Inr (on_deployments (reservable db (at_deployment a))
                  (\<lambda>r. r\<lparr>dep_current := Some (at_id a), dep_state := ''pending''\<rparr>) db))"

definition reserve_attempt ::
    "files \<Rightarrow> (string \<Rightarrow> string \<Rightarrow> unit res) \<Rightarrow> int \<Rightarrow> string \<Rightarrow> string \<Rightarrow> attempt_create
       \<Rightarrow> json option \<Rightarrow> dict option \<Rightarrow> store \<Rightarrow> (attempt \<times> store) res" where
  "reserve_attempt fs resolve now i d p operation legacy db =
     bindE (case get_deployment db d of None \<Rightarrow> api_fail 404 ''not_found'' ''NOT_FOUND'' | Some dep \<Rightarrow> Inr dep) (\<lambda>dep.
     let scope = (if operation \<noteq> None then ''runtime'' else pa_scope p) in
     bindE (check_reservable dep scope p (legacy \<noteq> None)) (\<lambda>_.
     let row = new_attempt now i dep scope p operation legacy in
     bindE (cleanup_stale_locks fs now (Some d) (db\<lparr>st_attempts := st_attempts db @ [row]\<rparr>)) (\<lambda>(n, db1).
     bindE (claim_pointer row db1) (\<lambda>db2.
     bindE (if \<not> str_given (dep_project_sha dep) \<and> scope \<noteq> ''full''
            then resolve (dep_scenario_label dep) scope else Inr ()) (\<lambda>_.
       Inr (row, db2))))))"

text \<open>
  When the start raises after the reservation was committed: the failure is recorded, then
  announced, and the cursor of the announcement, if it could be written, is recorded too.
\<close>

definition autostart_failed ::
    "int \<Rightarrow> string \<Rightarrow> exc \<Rightarrow> (string option \<Rightarrow> string \<Rightarrow> int option) \<Rightarrow> store \<Rightarrow> store" where
  "autostart_failed now i e write db =
     (let code = (case e of ApiError x \<Rightarrow> ae_code x | _ \<Rightarrow> ''ATTEMPT_START_FAILED'') in
      case finish_attempt now i (finish_defaults\<lparr>fa_error := Some code\<rparr>) db of
        (state, db1) \<Rightarrow>
          (case write state code of
             None \<Rightarrow> db1
           | Some cursor \<Rightarrow> snd (finish_attempt now i (finish_defaults\<lparr>fa_cursor := Some cursor\<rparr>) db1)))"

subsection \<open>What a consistent store is\<close>

text \<open>
  Every attempt that is not terminal is the current one of its deployment, so a deployment has
  at most one; a deployment shows the state of its current attempt; and while a lock is held,
  the only attempt of the deployment that may still be active is its owner.
\<close>

definition is_current :: "store \<Rightarrow> attempt \<Rightarrow> bool" where
  "is_current db a =
     (\<exists>d\<in>set (st_deployments db). dep_id d = at_deployment a \<and> dep_current d = Some (at_id a))"

definition pointer_ok :: "store \<Rightarrow> deployment \<Rightarrow> bool" where
  "pointer_ok db d =
     (\<forall>i. dep_current d = Some i \<longrightarrow>
        (\<exists>a\<in>set (st_attempts db). at_id a = i \<and> at_deployment a = dep_id d \<and> dep_state d = at_state a))"

definition lock_exclusive :: "store \<Rightarrow> bool" where
  "lock_exclusive db =
     (\<forall>l\<in>set (st_locks db). \<forall>a\<in>set (st_attempts db).
        at_deployment a = lk_deployment l \<and> \<not> is_terminal (at_state a) \<longrightarrow> lk_owner l = attempt_owner (at_id a))"

definition lifecycle_ok :: "store \<Rightarrow> bool" where
  "lifecycle_ok db =
     (distinct (map dep_id (st_deployments db)) \<and> distinct (map at_id (st_attempts db)) \<and> lock_keys db
      \<and> (\<forall>a\<in>set (st_attempts db). \<not> is_terminal (at_state a) \<longrightarrow> is_current db a)
      \<and> (\<forall>d\<in>set (st_deployments db). pointer_ok db d)
      \<and> lock_exclusive db)"

lemma lifecycle_okI:
  assumes "distinct (map dep_id (st_deployments db))" and "distinct (map at_id (st_attempts db))" and "lock_keys db"
    and "\<And>a. a \<in> set (st_attempts db) \<Longrightarrow> \<not> is_terminal (at_state a) \<Longrightarrow> is_current db a"
    and "\<And>d. d \<in> set (st_deployments db) \<Longrightarrow> pointer_ok db d"
    and "lock_exclusive db"
  shows "lifecycle_ok db"
  using assms by (simp add: lifecycle_ok_def)

lemma lifecycle_okD:
  assumes "lifecycle_ok db"
  shows "distinct (map dep_id (st_deployments db))" "distinct (map at_id (st_attempts db))" "lock_keys db"
    "\<And>a. a \<in> set (st_attempts db) \<Longrightarrow> \<not> is_terminal (at_state a) \<Longrightarrow> is_current db a"
    "\<And>d. d \<in> set (st_deployments db) \<Longrightarrow> pointer_ok db d" "lock_exclusive db"
  using assms by (simp_all add: lifecycle_ok_def)

lemma unique_by:
  "distinct (map key rows) \<Longrightarrow> r \<in> set rows \<Longrightarrow> s \<in> set rows \<Longrightarrow> key r = key s \<Longrightarrow> r = s"
  by (auto simp: distinct_map inj_on_def)

lemma one_active_attempt:
  assumes "lifecycle_ok db" and "a \<in> set (st_attempts db)" and "b \<in> set (st_attempts db)"
    and "at_deployment a = at_deployment b" and "\<not> is_terminal (at_state a)" and "\<not> is_terminal (at_state b)"
  shows "a = b"
proof -
  obtain d where d: "d \<in> set (st_deployments db)" "dep_id d = at_deployment a" "dep_current d = Some (at_id a)"
    using lifecycle_okD(4) [OF assms(1,2,5)] by (auto simp: is_current_def)
  obtain e where e: "e \<in> set (st_deployments db)" "dep_id e = at_deployment b" "dep_current e = Some (at_id b)"
    using lifecycle_okD(4) [OF assms(1,3,6)] by (auto simp: is_current_def)
  have "d = e" using unique_by [OF lifecycle_okD(1) [OF assms(1)] d(1) e(1)] d(2) e(2) assms(4) by simp
  then have "at_id a = at_id b" using d(3) e(3) by simp
  then show ?thesis by (rule unique_by [OF lifecycle_okD(2) [OF assms(1)] assms(2,3)])
qed

lemma on_attempts_simps [simp]:
  "st_locks (on_attempts p f db) = st_locks db" "st_deployments (on_attempts p f db) = st_deployments db"
  "st_locks (on_deployments q g db) = st_locks db" "st_attempts (on_deployments q g db) = st_attempts db"
  by simp_all

text \<open>
  A change of attempt rows that keeps identities, states and deployments keeps everything; a
  change of lock rows keeps everything when the owners it leaves are still allowed.
\<close>

lemma lifecycle_ok_attempt_fields:
  assumes ok: "lifecycle_ok db"
    and f: "\<And>a. at_id (f a) = at_id a" "\<And>a. at_deployment (f a) = at_deployment a"
      "\<And>a. at_state (f a) = at_state a"
  shows "lifecycle_ok (on_attempts p f db)"
proof -
  define g where "g r = (if p r then f r else r)" for r
  have g [simp]: "at_id (g a) = at_id a" "at_deployment (g a) = at_deployment a" "at_state (g a) = at_state a" for a
    using f by (simp_all add: g_def)
  have rows: "update_rows p f (st_attempts db) = map g (st_attempts db)"
    by (simp add: update_rows_def g_def)
  show ?thesis
    using ok by (simp add: rows lifecycle_ok_def is_current_def pointer_ok_def lock_exclusive_def
        lock_keys_def comp_def)
qed

lemma lifecycle_ok_locks:
  assumes "lifecycle_ok db" and "st_deployments db' = st_deployments db" and "st_attempts db' = st_attempts db"
    and "lock_keys db'" and "lock_exclusive db'"
  shows "lifecycle_ok db'"
  using assms by (simp add: lifecycle_ok_def is_current_def pointer_ok_def)

lemma lock_exclusive_subset:
  "lock_exclusive db \<Longrightarrow> st_attempts db' = st_attempts db \<Longrightarrow> set (st_locks db') \<subseteq> set (st_locks db) \<Longrightarrow>
     lock_exclusive db'"
  by (auto simp: lock_exclusive_def)

lemma lifecycle_ok_drop_locks: "lifecycle_ok db \<Longrightarrow> lifecycle_ok (drop_locks p db)"
  using lock_keys_drop_locks [of db p] lock_exclusive_subset [of db "drop_locks p db"]
  by (auto simp: lifecycle_ok_def drop_locks_def is_current_def pointer_ok_def)

lemma drop_lock_locks: "drop_lock d db = drop_locks (\<lambda>l. lk_deployment l = d) db"
  by (simp add: drop_lock_def drop_locks_def delete_rows_def)

subsection \<open>Each transaction keeps it\<close>

text \<open>
  The general change of one attempt: its row and the state its deployment shows change
  together, and a terminal attempt is not revived.
\<close>

lemma lifecycle_ok_publish:
  assumes ok: "lifecycle_ok db" and a: "a \<in> set (st_attempts db)"
    and f: "at_id (f a) = at_id a" "at_deployment (f a) = at_deployment a"
    and live: "is_terminal (at_state a) \<Longrightarrow> is_terminal (at_state (f a))"
    and i: "i = at_id a" and s: "s = at_state (f a)"
  shows "lifecycle_ok (publish_state a s (on_attempts (\<lambda>r. at_id r = i) f db))"
    (is "lifecycle_ok ?db")
proof -
  define g :: "attempt \<Rightarrow> attempt" where "g r = (if at_id r = at_id a then f r else r)" for r
  define h :: "deployment \<Rightarrow> deployment" where "h d = (if dep_id d = at_deployment a \<and> dep_current d = Some (at_id a)
                         then d\<lparr>dep_state := s\<rparr> else d)" for d
  note inv = lifecycle_okD [OF ok]
  have only: "r = a" if "r \<in> set (st_attempts db)" "at_id r = at_id a" for r
    by (rule unique_by [OF inv(2) that(1) a that(2)])
  have rows: "st_attempts ?db = map g (st_attempts db)" "st_deployments ?db = map h (st_deployments db)"
      "st_locks ?db = st_locks db"
    by (simp_all add: update_rows_def g_def h_def publish_state_def i)
  have g: "at_id (g r) = at_id r" "at_deployment (g r) = at_deployment r"
      "\<not> is_terminal (at_state (g r)) \<Longrightarrow> \<not> is_terminal (at_state r)"
      if "r \<in> set (st_attempts db)" for r
  proof -
    have "g r = (if r = a then f a else r)" using only [OF that] by (auto simp: g_def)
    then show "at_id (g r) = at_id r" "at_deployment (g r) = at_deployment r"
      "\<not> is_terminal (at_state (g r)) \<Longrightarrow> \<not> is_terminal (at_state r)"
      using f live by (auto split: if_splits)
  qed
  have h [simp]: "dep_id (h d) = dep_id d" "dep_current (h d) = dep_current d" for d
    by (simp_all add: h_def)
  show ?thesis
  proof (rule lifecycle_okI)
    show "distinct (map dep_id (st_deployments ?db))"
      using inv(1) by (simp add: rows comp_def)
    have "map (at_id \<circ> g) (st_attempts db) = map at_id (st_attempts db)" using g(1) by simp
    then show "distinct (map at_id (st_attempts ?db))" using inv(2) by (simp only: rows map_map)
    show "lock_keys ?db" using inv(3) by (simp add: lock_keys_def rows)
    show "is_current ?db r" if "r \<in> set (st_attempts ?db)" "\<not> is_terminal (at_state r)" for r
      using that inv(4) g by (auto simp: rows is_current_def)
    show "lock_exclusive ?db"
      using inv(6) g by (auto simp: lock_exclusive_def rows)
    show "pointer_ok ?db d" if "d \<in> set (st_deployments ?db)" for d
    proof -
      from that have "d \<in> h ` set (st_deployments db)" by (simp only: rows set_map)
      then obtain d0 where d0: "d0 \<in> set (st_deployments db)" and d: "d = h d0" by (rule imageE)
      show ?thesis
      proof (cases "dep_current d0")
        case None
        then show ?thesis by (simp add: pointer_ok_def d)
      next
        case (Some j)
        then obtain r where r: "r \<in> set (st_attempts db)" "at_id r = j" "at_deployment r = dep_id d0"
            "dep_state d0 = at_state r"
          using inv(5) [OF d0] by (auto simp: pointer_ok_def)
        have "dep_state d = at_state (g r)"
        proof (cases "j = at_id a")
          case True
          then have "r = a" using only r by simp
          then show ?thesis using r Some s by (simp add: d h_def g_def)
        next
          case False
          then show ?thesis using r Some by (auto simp: d h_def g_def)
        qed
        then show ?thesis using r Some g by (auto simp: pointer_ok_def rows d)
      qed
    qed
  qed
qed

lemma publish_state_rows:
  "at_id a' = at_id a \<Longrightarrow> at_deployment a' = at_deployment a \<Longrightarrow> publish_state a' s db = publish_state a s db"
  by (simp add: publish_state_def)

lemma get_attempt_on:
  "(\<And>a. at_id (f a) = at_id a) \<Longrightarrow>
     get_attempt (on_attempts p f db) i = map_option (\<lambda>a. if p a then f a else a) (get_attempt db i)"
  by (simp add: row_by_update)

lemma heartbeat_ok: "lifecycle_ok db \<Longrightarrow> lifecycle_ok (snd (heartbeat now d owner db))"
proof (cases "owns_lock db d owner")
  case True
  assume ok: "lifecycle_ok db"
  let ?db = "db\<lparr>st_locks := update_rows (\<lambda>l. lk_deployment l = d) (\<lambda>l. l\<lparr>lk_heartbeat := now\<rparr>) (st_locks db)\<rparr>"
  have "lifecycle_ok ?db"
  proof (rule lifecycle_ok_locks [OF ok])
    show "lock_keys ?db" using lifecycle_okD(3) [OF ok] by (simp add: lock_keys_def update_rows_keys)
    show "lock_exclusive ?db" using lifecycle_okD(6) [OF ok] by (auto simp: lock_exclusive_def row_simps)
  qed simp_all
  then show ?thesis using True by (simp add: heartbeat_def)
qed (simp add: heartbeat_def)

lemma advance_cursor_ok: "lifecycle_ok db \<Longrightarrow> lifecycle_ok (advance_attempt_cursor i tip db)"
  unfolding advance_attempt_cursor_def by (rule lifecycle_ok_attempt_fields) simp_all

lemma update_same_id:
  assumes "distinct (map at_id rows)" and "row_by at_id i rows = Some a"
    and "\<And>r. p r \<longleftrightarrow> at_id r = i \<and> q r"
  shows "update_rows p f rows = (if q a then update_rows (\<lambda>r. at_id r = i) f rows else rows)"
proof -
  have "r = a" if "r \<in> set rows" "at_id r = i" for r
    using unique_by [OF assms(1) that(1)] row_by_Some [OF assms(2)] that(2) by simp
  then show ?thesis using assms(3) by (auto simp: update_rows_def intro!: map_cong map_idI)
qed

lemma mark_running_rows:
  assumes ok: "lifecycle_ok db" and m: "mark_attempt_running now i pid dir db = (True, db')"
  obtains a f where "get_attempt db i = Some a" and "may_start i a"
    and "at_id (f a) = at_id a" and "at_deployment (f a) = at_deployment a" and "at_state (f a) = ''deploying''"
    and "db' = publish_state a ''deploying'' (on_attempts (\<lambda>r. at_id r = i) f db)"
proof -
  let ?f = "\<lambda>a. a\<lparr>at_state := ''deploying'', at_pid := pid, at_artifact_dir := Some dir, at_started := Some now\<rparr>"
  obtain a where a: "a \<in> set (st_attempts db)" "may_start i a"
    using m count_rows_pos [of "may_start i" "st_attempts db"]
    by (auto simp: mark_attempt_running_def split: if_splits)
  have get: "get_attempt db i = Some a"
    using row_by_unique [OF lifecycle_okD(2) [OF ok] a(1), of i] a(2) by (simp add: may_start_def)
  have rows: "update_rows (may_start i) ?f (st_attempts db) = update_rows (\<lambda>r. at_id r = i) ?f (st_attempts db)"
    using update_same_id [OF lifecycle_okD(2) [OF ok] get, of "may_start i"
        "\<lambda>r. \<not> is_terminal (at_state r) \<and> \<not> cancel_requested r"] a(2)
    by (simp add: may_start_def)
  have n: "count_rows (may_start i) (st_attempts db) \<noteq> 0"
    using a count_rows_pos [of "may_start i" "st_attempts db"] by blast
  have got: "get_attempt (on_attempts (\<lambda>r. at_id r = i) ?f db) i = Some (?f a)"
    using row_by_Some [OF get] by (simp add: row_by_update get)
  have "db' = publish_state (?f a) ''deploying'' (on_attempts (\<lambda>r. at_id r = i) ?f db)"
    using m n got by (simp add: mark_attempt_running_def rows Let_def)
  then show ?thesis
    using that [of a ?f] get a(2) publish_state_rows [of "?f a" a] by simp
qed

lemma mark_running_ok:
  assumes "lifecycle_ok db"
  shows "lifecycle_ok (snd (mark_attempt_running now i pid dir db))"
proof (cases "mark_attempt_running now i pid dir db")
  case (Pair b db')
  show ?thesis
  proof (cases b)
    case True
    have m: "mark_attempt_running now i pid dir db = (True, db')" using Pair True by simp
    obtain a f where get: "get_attempt db i = Some a" and f: "may_start i a" "at_id (f a) = at_id a"
        "at_deployment (f a) = at_deployment a" "at_state (f a) = ''deploying''"
        "db' = publish_state a ''deploying'' (on_attempts (\<lambda>r. at_id r = i) f db)"
      by (rule mark_running_rows [OF assms m])
    have "lifecycle_ok db'"
      unfolding f(5)
    proof (rule lifecycle_ok_publish [OF assms])
      show "a \<in> set (st_attempts db)" "i = at_id a" using row_by_Some [OF get] by simp_all
      show "is_terminal (at_state a) \<Longrightarrow> is_terminal (at_state (f a))" using f(1) by (simp add: may_start_def)
    qed (use f in simp_all)
    then show ?thesis using Pair by simp
  next
    case False
    then have "db' = db" using Pair
      by (auto simp: mark_attempt_running_def Let_def split: if_splits option.splits)
    then show ?thesis using assms Pair by simp
  qed
qed

text \<open>The row that a completion leaves behind.\<close>

definition finished :: "int \<Rightarrow> finish_args \<Rightarrow> attempt \<Rightarrow> attempt" where
  "finished now args a =
     late_cursor (fa_cursor args) (late_rc (fa_rc args)
       (if is_terminal (at_state a) then a else conclude now args a))"

lemma late_simps [simp]:
  "at_id (late_cursor t a) = at_id a" "at_deployment (late_cursor t a) = at_deployment a"
  "at_state (late_cursor t a) = at_state a" "at_sub_reason (late_cursor t a) = at_sub_reason a"
  "at_rc (late_cursor t a) = at_rc a"
  "at_id (late_rc r a) = at_id a" "at_deployment (late_rc r a) = at_deployment a"
  "at_state (late_rc r a) = at_state a" "at_sub_reason (late_rc r a) = at_sub_reason a"
  "at_cursor (late_rc r a) = at_cursor a"
  by (simp_all add: late_cursor_def late_rc_def split: option.split)

lemma conclude_simps [simp]:
  "at_id (conclude now args a) = at_id a" "at_deployment (conclude now args a) = at_deployment a"
  "at_cursor (conclude now args a) = at_cursor a" "is_terminal (at_state (conclude now args a))"
  by (simp_all add: conclude_def finish_state_def)

lemma finished_simps [simp]:
  "at_id (finished now args a) = at_id a" "at_deployment (finished now args a) = at_deployment a"
  "is_terminal (at_state (finished now args a))"
  "is_terminal (at_state a) \<Longrightarrow> at_state (finished now args a) = at_state a"
  "at_cursor a \<le> at_cursor (finished now args a)"
  by (simp_all add: finished_def) (simp add: late_cursor_def split: option.split)

lemma update_update_rows:
  "(\<And>r. p (f r) = p r) \<Longrightarrow> update_rows p g (update_rows p f rows) = update_rows p (g \<circ> f) rows"
  by (simp add: update_rows_def)

lemma update_rows_if:
  "update_rows (\<lambda>r. p r \<and> q r) f rows = update_rows p (\<lambda>r. if q r then f r else r) rows"
  by (auto simp: update_rows_def)

lemma finish_attempt_eq:
  "finish_attempt now i args db =
     (case get_attempt db i of
        None \<Rightarrow> (None, db)
      | Some a \<Rightarrow> (Some (at_state (finished now args a)),
          snd (release_lock (at_deployment a) (attempt_owner i)
            (publish_state a (at_state (finished now args a))
              (on_attempts (\<lambda>r. at_id r = i) (finished now args) db)))))"
proof -
  let ?f1 = "\<lambda>r. if \<not> is_terminal (at_state r) then conclude now args r else r"
  have f1: "at_id (?f1 r) = at_id r" for r by simp
  have r1: "update_rows (\<lambda>r. at_id r = i \<and> \<not> is_terminal (at_state r)) (conclude now args) (st_attempts db)
      = update_rows (\<lambda>r. at_id r = i) ?f1 (st_attempts db)"
    by (rule update_rows_if)
  have "late_cursor (fa_cursor args) \<circ> late_rc (fa_rc args) \<circ> ?f1 = finished now args"
    by (auto simp: finished_def)
  then have r2: "update_rows (\<lambda>r. at_id r = i) (late_cursor (fa_cursor args) \<circ> late_rc (fa_rc args))
        (update_rows (\<lambda>r. at_id r = i) ?f1 (st_attempts db))
      = update_rows (\<lambda>r. at_id r = i) (finished now args) (st_attempts db)"
    using update_update_rows [of "\<lambda>r. at_id r = i" ?f1 "late_cursor (fa_cursor args) \<circ> late_rc (fa_rc args)"] by simp
  show ?thesis
  proof (cases "get_attempt db i")
    case None
    then show ?thesis by (simp add: finish_attempt_def Let_def r1 row_by_update [where key = at_id and f = ?f1, OF f1])
  next
    case (Some a)
    then have "at_id a = i" using row_by_Some by metis
    then show ?thesis
      using Some publish_state_rows [of "finished now args a" a]
      by (simp add: finish_attempt_def Let_def r1 r2 row_by_update [where key = at_id and f = ?f1, OF f1]
          row_by_update [where key = at_id and f = "finished now args"])
  qed
qed

lemma release_lock_ok: "lifecycle_ok db \<Longrightarrow> lifecycle_ok (snd (release_lock d owner db))"
  by (simp add: release_lock_def drop_lock_locks lifecycle_ok_drop_locks)

lemma finish_ok: "lifecycle_ok db \<Longrightarrow> lifecycle_ok (snd (finish_attempt now i args db))"
proof (cases "get_attempt db i")
  case None
  assume "lifecycle_ok db"
  then show ?thesis using None by (simp add: finish_attempt_eq)
next
  case (Some a)
  assume ok: "lifecycle_ok db"
  have "lifecycle_ok (publish_state a (at_state (finished now args a))
          (on_attempts (\<lambda>r. at_id r = i) (finished now args) db))"
    by (rule lifecycle_ok_publish [OF ok]) (use row_by_Some [OF Some] in simp_all)
  from release_lock_ok [OF this] show ?thesis by (simp add: finish_attempt_eq Some)
qed

lemma cancel_rows:
  assumes "cancel_current_attempt fs kill tracked d db = Inr (a, db')"
  obtains i where "db' = on_attempts (\<lambda>r. at_id r = i) (\<lambda>r. r\<lparr>at_sub_reason := Some ''cancel_requested''\<rparr>) db"
  using assms
  by (auto simp: cancel_current_attempt_def res_simps Let_def split: option.splits if_splits)

lemma cancel_ok:
  assumes "lifecycle_ok db" and "cancel_current_attempt fs kill tracked d db = Inr (a, db')"
  shows "lifecycle_ok db'"
proof -
  obtain i where "db' = on_attempts (\<lambda>r. at_id r = i) (\<lambda>r. r\<lparr>at_sub_reason := Some ''cancel_requested''\<rparr>) db"
    using cancel_rows [OF assms(2)] by metis
  then show ?thesis by (simp only:) (rule lifecycle_ok_attempt_fields [OF assms(1)], simp_all)
qed

lemma add_lock_ok:
  assumes ok: "lifecycle_ok db" and a: "a \<in> set (st_attempts db)" and live: "\<not> is_terminal (at_state a)"
    and l: "lk_deployment l = at_deployment a" "lk_owner l = attempt_owner (at_id a)"
    and free: "get_lock db (at_deployment a) = None"
  shows "lifecycle_ok (add_lock l db)"
proof (rule lifecycle_ok_locks [OF ok])
  show "lock_keys (add_lock l db)" using lock_keys_add [OF lifecycle_okD(3) [OF ok]] free l by simp
  show "lock_exclusive (add_lock l db)"
    using lifecycle_okD(6) [OF ok] one_active_attempt [OF ok _ a _ _ live] l
    by (auto simp: lock_exclusive_def add_lock_def)
qed simp_all

lemma acquire_ok:
  assumes ok: "lifecycle_ok db" and a: "a \<in> set (st_attempts db)" "\<not> is_terminal (at_state a)"
    and acq: "acquire_lock fs now (at_deployment a) (attempt_owner (at_id a)) n db = Inr db'"
  shows "lifecycle_ok db'"
proof -
  obtain l where l: "lk_deployment l = at_deployment a" "lk_owner l = attempt_owner (at_id a)"
    and db': "get_lock db (at_deployment a) = None \<and> db' = add_lock l db
              \<or> db' = add_lock l (drop_lock (at_deployment a) db)"
    using acquire_lockD [OF acq] by blast
  have dropped: "lifecycle_ok (drop_lock (at_deployment a) db)"
    unfolding drop_lock_locks by (rule lifecycle_ok_drop_locks [OF ok])
  show ?thesis
    using db' add_lock_ok [OF ok a l] add_lock_ok [OF dropped _ a(2) l] a(1) by (auto simp: row_simps)
qed

lemma cleanup_ok:
  assumes "lifecycle_ok db" and "cleanup_stale_locks fs now only db = Inr (n, db')"
  shows "lifecycle_ok db'"
  unfolding cleanupD [OF assms(2) lifecycle_okD(3) [OF assms(1)]] by (rule lifecycle_ok_drop_locks [OF assms(1)])

text \<open>What a successful reservation found: the deployment, no active attempt and no lock left.\<close>

definition swept :: "files \<Rightarrow> int \<Rightarrow> string \<Rightarrow> store \<Rightarrow> workspace_lock \<Rightarrow> bool" where
  "swept fs now d db l = (lk_deployment l = d \<and> abandoned fs now db l = Inr True)"

definition with_attempt :: "attempt \<Rightarrow> store \<Rightarrow> store" where
  "with_attempt a db = db\<lparr>st_attempts := st_attempts db @ [a]\<rparr>"

lemma reserve_attempt_rows:
  assumes ok: "lifecycle_ok db" and r: "reserve_attempt fs resolve now i d p operation legacy db = Inr (row, db')"
  obtains dep where "dep \<in> set (st_deployments db)" and "dep_id dep = d"
    and "row = new_attempt now i dep (if operation \<noteq> None then ''runtime'' else pa_scope p) p operation legacy"
    and "check_reservable dep (if operation \<noteq> None then ''runtime'' else pa_scope p) p (legacy \<noteq> None) = Inr ()"
    and "\<not> active_attempt (with_attempt row db) dep"
    and "\<forall>l\<in>set (st_locks db). lk_deployment l = d \<longrightarrow> swept fs now d (with_attempt row db) l"
    and "db' = on_deployments (\<lambda>r. dep_id r = d) (\<lambda>r. r\<lparr>dep_current := Some i, dep_state := ''pending''\<rparr>)
                 (drop_locks (swept fs now d (with_attempt row db)) (with_attempt row db))"
proof -
  let ?scope = "if operation \<noteq> None then ''runtime'' else pa_scope p"
  let ?db0 = "with_attempt row db"
  let ?q = "swept fs now d ?db0"
  from r obtain dep n db1 where dep: "get_deployment db d = Some dep"
    and chk: "check_reservable dep ?scope p (legacy \<noteq> None) = Inr ()"
    and row: "row = new_attempt now i dep ?scope p operation legacy"
    and c: "cleanup_stale_locks fs now (Some d) ?db0 = Inr (n, db1)"
    and claim: "claim_pointer row db1 = Inr db'"
    by (auto simp: reserve_attempt_def res_simps Let_def with_attempt_def split: option.splits if_splits)
  have "lock_keys ?db0" using lifecycle_okD(3) [OF ok] by (simp add: lock_keys_def with_attempt_def)
  from cleanupD [OF c this] have db1: "db1 = drop_locks ?q ?db0"
    by (auto simp: swept_def intro!: drop_locks_cong)
  have d: "dep \<in> set (st_deployments db)" "dep_id dep = d" using row_by_Some [OF dep] by simp_all
  have row_dep: "at_deployment row = d" "at_id row = i" using row d by (simp_all add: new_attempt_def)
  from claim obtain r where r: "r \<in> set (st_deployments db1)" "reservable db1 d r"
    and db': "db' = on_deployments (reservable db1 d) (\<lambda>r. r\<lparr>dep_current := Some i, dep_state := ''pending''\<rparr>) db1"
    using count_rows_pos [of "reservable db1 d" "st_deployments db1"]
    by (auto simp: claim_pointer_def row_dep split: if_splits)
  have same: "s = dep" if "s \<in> set (st_deployments db1)" "dep_id s = d" for s
    using unique_by [OF lifecycle_okD(1) [OF ok] _ d(1)] that d(2) by (simp add: db1 drop_locks_def with_attempt_def)
  have res: "reservable db1 d dep" using same [OF r(1)] r(2) by (simp add: reservable_def)
  have "update_rows (reservable db1 d) f (st_deployments db1) = update_rows (\<lambda>r. dep_id r = d) f (st_deployments db1)" for f
    using res same by (auto simp: update_rows_def reservable_def)
  then have "db' = on_deployments (\<lambda>r. dep_id r = d) (\<lambda>r. r\<lparr>dep_current := Some i, dep_state := ''pending''\<rparr>)
                 (drop_locks ?q ?db0)"
    using db' by (simp add: db1)
  moreover have "\<not> active_attempt ?db0 dep"
    using res by (simp add: reservable_def active_attempt_def db1 drop_locks_def with_attempt_def cong: option.case_cong)
  moreover have "?q l" if "l \<in> set (st_locks db)" "lk_deployment l = d" for l
    using res that d(2) by (auto simp: reservable_def held_lock_def list_ex_iff db1 drop_locks_def with_attempt_def)
  ultimately show ?thesis using that [of dep] d row chk by blast
qed

lemma with_attempt_simps [simp]:
  "st_locks (with_attempt a db) = st_locks db" "st_operations (with_attempt a db) = st_operations db"
  "st_sets (with_attempt a db) = st_sets db" "st_deployments (with_attempt a db) = st_deployments db"
  "st_hosts (with_attempt a db) = st_hosts db" "st_attempts (with_attempt a db) = st_attempts db @ [a]"
  by (simp_all add: with_attempt_def)

text \<open>Without an active current attempt, every attempt of the deployment has ended.\<close>

lemma attempts_ended:
  assumes ok: "lifecycle_ok db" and dep: "dep \<in> set (st_deployments db)" and idle: "\<not> active_attempt db dep"
    and a: "a \<in> set (st_attempts db)" "at_deployment a = dep_id dep"
  shows "is_terminal (at_state a)"
proof (rule ccontr)
  assume live: "\<not> is_terminal (at_state a)"
  then obtain e where e: "e \<in> set (st_deployments db)" "dep_id e = at_deployment a" "dep_current e = Some (at_id a)"
    using lifecycle_okD(4) [OF ok a(1)] by (auto simp: is_current_def)
  have "e = dep" using unique_by [OF lifecycle_okD(1) [OF ok] e(1) dep] e(2) a(2) by simp
  then show False using idle e(3) a(1) live by (auto simp: active_attempt_def list_ex_iff)
qed

text \<open>A new attempt becomes the current one of a deployment whose attempts have all ended.\<close>

lemma lifecycle_ok_new_attempt:
  assumes ok: "lifecycle_ok db" and fresh: "at_id row \<notin> at_id ` set (st_attempts db)"
    and dep: "dep \<in> set (st_deployments db)" "dep_id dep = at_deployment row"
    and ended: "\<And>a. a \<in> set (st_attempts db) \<Longrightarrow> at_deployment a = at_deployment row \<Longrightarrow> is_terminal (at_state a)"
    and locks: "\<And>l. l \<in> set (st_locks db) \<Longrightarrow> lk_deployment l = at_deployment row \<Longrightarrow>
                  lk_owner l = attempt_owner (at_id row)"
    and db': "db' = on_deployments (\<lambda>r. dep_id r = at_deployment row)
                (\<lambda>r. r\<lparr>dep_current := Some (at_id row), dep_state := at_state row\<rparr>) (with_attempt row db)"
  shows "lifecycle_ok db'"
proof -
  note inv = lifecycle_okD [OF ok]
  define h :: "deployment \<Rightarrow> deployment" where
    "h r = (if dep_id r = at_deployment row
            then r\<lparr>dep_current := Some (at_id row), dep_state := at_state row\<rparr> else r)" for r
  have rows: "st_deployments db' = map h (st_deployments db)" "st_attempts db' = st_attempts db @ [row]"
      "st_locks db' = st_locks db"
    by (simp_all add: db' update_rows_def h_def)
  have h [simp]: "dep_id (h r) = dep_id r" for r by (simp add: h_def)
  show ?thesis
  proof (rule lifecycle_okI)
    show "distinct (map dep_id (st_deployments db'))" using inv(1) by (simp add: rows comp_def)
    show "distinct (map at_id (st_attempts db'))" using inv(2) fresh by (simp add: rows)
    show "lock_keys db'" using inv(3) by (simp add: lock_keys_def rows)
    show "is_current db' a" if a: "a \<in> set (st_attempts db')" "\<not> is_terminal (at_state a)" for a
    proof (cases "a = row")
      case True
      have "h dep \<in> set (st_deployments db')" using dep by (simp add: rows)
      then show ?thesis using True dep by (auto simp: is_current_def h_def intro!: bexI [of _ "h dep"])
    next
      case False
      then have old: "a \<in> set (st_attempts db)" using a by (simp add: rows)
      then have "at_deployment a \<noteq> at_deployment row" using ended a(2) by blast
      then show ?thesis using inv(4) [OF old a(2)] by (auto simp: is_current_def rows h_def)
    qed
    show "pointer_ok db' e" if "e \<in> set (st_deployments db')" for e
    proof -
      from that have "e \<in> h ` set (st_deployments db)" by (simp only: rows set_map)
      then obtain e0 where e0: "e0 \<in> set (st_deployments db)" and e: "e = h e0" by (rule imageE)
      show ?thesis
        using inv(5) [OF e0] by (cases "dep_id e0 = at_deployment row") (auto simp: pointer_ok_def e h_def rows)
    qed
    show "lock_exclusive db'"
      using inv(6) locks by (auto simp: lock_exclusive_def rows)
  qed
qed

lemma reserve_attempt_ok:
  assumes ok: "lifecycle_ok db" and fresh: "i \<notin> at_id ` set (st_attempts db)"
    and r: "reserve_attempt fs resolve now i d p operation legacy db = Inr (row, db')"
  shows "lifecycle_ok db'"
proof -
  let ?q = "swept fs now d (with_attempt row db)"
  obtain dep where dep: "dep \<in> set (st_deployments db)" "dep_id dep = d"
    and row: "row = new_attempt now i dep (if operation \<noteq> None then ''runtime'' else pa_scope p) p operation legacy"
    and "check_reservable dep (if operation \<noteq> None then ''runtime'' else pa_scope p) p (legacy \<noteq> None) = Inr ()"
    and idle: "\<not> active_attempt (with_attempt row db) dep"
    and q: "\<forall>l\<in>set (st_locks db). lk_deployment l = d \<longrightarrow> ?q l"
    and db': "db' = on_deployments (\<lambda>r. dep_id r = d) (\<lambda>r. r\<lparr>dep_current := Some i, dep_state := ''pending''\<rparr>)
                 (drop_locks ?q (with_attempt row db))"
    by (rule reserve_attempt_rows [OF ok r])
  have row_simps: "at_id row = i" "at_deployment row = d" "at_state row = ''pending''"
    using row dep by (simp_all add: new_attempt_def)
  have "\<not> active_attempt db dep"
    using idle by (auto simp: active_attempt_def split: option.splits)
  note ended = attempts_ended [OF ok dep(1) this]
  show ?thesis
  proof (rule lifecycle_ok_new_attempt [of "drop_locks ?q db" row dep])
    show "lifecycle_ok (drop_locks ?q db)" by (rule lifecycle_ok_drop_locks [OF ok])
    show "db' = on_deployments (\<lambda>r. dep_id r = at_deployment row)
        (\<lambda>r. r\<lparr>dep_current := Some (at_id row), dep_state := at_state row\<rparr>)
        (with_attempt row (drop_locks ?q db))"
      by (simp add: db' row_simps drop_locks_def with_attempt_def)
  qed (use fresh dep ended q in \<open>auto simp: row_simps drop_locks_def\<close>)
qed

end
