(* ===== verification/Snapshot_Sets.thy ===== *)
theory Snapshot_Sets
  imports Snapshot_Read Attempts "HOL-Library.Product_Lexorder"
begin

text \<open>
  Reviewed snapshot sets (\<open>app/core/snapshot_sets.py\<close>): planning, cancelling, executing and
  reconciling finite native operations, with their durable per-member journal.

  Each definition that returns a store is one committed transaction. \<open>execute\<close> is the sequence of
  its transactions and native writes: it yields them in order, so a crash between any two is a
  prefix of its trace. Identifiers, the clock, SHA-256, the checkout of the scenario, the
  retention file and the HTTP clients are parameters.
\<close>

subsection \<open>Plans\<close>

fun proof_json :: "snap_proof \<Rightarrow> json" where
  "proof_json p = JObj [(''snaptime'', JInt (sp_snaptime p)), (''config_digest'', JStr (sp_config_digest p))]"

definition member_json :: "snap_member \<Rightarrow> json" where
  "member_json m =
     JObj [(''vm_id'', JInt (sm_vm_id m)), (''vm_name'', sm_vm_name m), (''uuid'', JStr (sm_uuid m)),
           (''config_digest'', JStr (sm_config_digest m)), (''restore_digest'', JStr (sm_restore_digest m)),
           (''status'', JStr (sm_status m))]"

definition retention_json :: "retention_policy option \<Rightarrow> json" where
  "retention_json r =
     (case r of None \<Rightarrow> JNull
      | Some p \<Rightarrow> JObj [(''keep_count'', JInt (rp_keep_count p)), (''keep_days'', JInt (rp_keep_days p))])"

text \<open>A plan to create carries neither snapshots nor a retention policy.\<close>

definition plan_json :: "operation_plan \<Rightarrow> json" where
  "plan_json p =
     JObj ([(''id'', JStr (pl_id p)), (''set_id'', JStr (pl_set_id p)), (''kind'', JStr (pl_kind p)),
            (''target_digest'', JStr (pl_target_digest p)), (''project_sha'', JStr (pl_project_sha p)),
            (''members'', JList (map member_json (pl_members p))), (''vmstate'', JBool False)]
           @ (if pl_kind p = ''create'' then []
              else [(''snapshots'', JObj (map (\<lambda>(k, v). (k, proof_json v)) (pl_snapshots p))),
                    (''retention'', retention_json (pl_retention p))]))"

definition plan_digest :: "hasher \<Rightarrow> operation_plan \<Rightarrow> string" where
  "plan_digest hs p = digest hs (plan_json p)"

definition minute :: int where "minute = 60 * second"

definition planned_row :: "snap_member \<Rightarrow> op_row" where
  "planned_row m = \<lparr>or_vm_id = sm_vm_id m, or_state = ''planned'', or_code = None, or_upid = None,
                    or_dispatched = None, or_snapshot = None\<rparr>"

definition new_operation ::
    "hasher \<Rightarrow> int \<Rightarrow> string \<Rightarrow> snapshot_set \<Rightarrow> string \<Rightarrow> snap_member list
       \<Rightarrow> (string \<times> snap_proof) list \<Rightarrow> retention_policy option \<Rightarrow> snapshot_operation" where
  "new_operation hs now i s kind members proofs retention =
     (let plan = \<lparr>pl_id = i, pl_set_id = ss_id s, pl_kind = kind, pl_target_digest = ss_target_digest s,
                  pl_project_sha = ss_project_sha s, pl_members = members, pl_snapshots = proofs,
                  pl_retention = retention\<rparr>
      in \<lparr>op_id = i, op_set_id = ss_id s, op_kind = kind, op_state = ''planned'',
          op_plan_digest = plan_digest hs plan, op_plan = plan, op_members = map planned_row members,
          op_attempt_id = None, op_created = now, op_expires = now + 5 * minute\<rparr>)"

definition claim_ref :: "claim_vm \<Rightarrow> member_ref" where
  "claim_ref v = (vc_vmid v, cv_name v)"

definition member_ref_of :: "'a snap_member_scheme \<Rightarrow> member_ref" where
  "member_ref_of m = (sm_vm_id m, Some (sm_vm_name m))"

definition set_member_of :: "snap_member \<Rightarrow> set_member" where
  "set_member_of m = snap_member.extend m \<lparr>sm_row = None\<rparr>"

definition add_operation :: "snapshot_operation \<Rightarrow> store \<Rightarrow> store" where
  "add_operation opr db = db\<lparr>st_operations := st_operations db @ [opr]\<rparr>"

text \<open>
  \<open>plan_create\<close>: the review reads the store \<open>db\<close>; after the checkout and the observations it
  rechecks the binding on the store \<open>db'\<close> it then finds, under the write lock.
\<close>

record plan_request =
  pq_set_id :: string
  pq_operation_id :: string
  pq_token :: string
  pq_name :: string
  pq_description :: string

definition plan_create ::
    "hasher \<Rightarrow> http_get \<Rightarrow> (deployment \<Rightarrow> claim_vm list res) \<Rightarrow> int \<Rightarrow> string \<Rightarrow> plan_request
       \<Rightarrow> store \<Rightarrow> store \<Rightarrow> store res" where
  "plan_create hs get prepare now d q db db' =
     bindE (deployment_target db d) (\<lambda>(dep, h).
     bindE (prepare dep) (\<lambda>members.
     if \<not> (1 \<le> length members \<and> length members \<le> 64) then snap_blocked ''SNAPSHOT_MEMBERS_UNSUPPORTED''
     else bindE (observe hs get h d (map claim_ref members)) (\<lambda>observed.
     let s = \<lparr>ss_id = pq_set_id q, ss_deployment = d, ss_project_sha = the (dep_project_sha dep),
              ss_host = dep_target_host_id dep, ss_target_digest = target_digest hs h, ss_name = pq_name q,
              ss_description = pq_description q, ss_native_name = ''r42s_'' @ take 24 (pq_token q),
              ss_state = ''planned'', ss_members = map set_member_of observed, ss_created = now\<rparr>
     in bindE (deployment_target db' d) (\<lambda>(fresh, fresh_host).
        bindE (check_binding hs s fresh fresh_host) (\<lambda>_.
          Inr (add_operation (new_operation hs now (pq_operation_id q) s ''create'' observed [] None)
                 (db'\<lparr>st_sets := st_sets db' @ [s]\<rparr>)))))))"

definition stored_set :: "store \<Rightarrow> string \<Rightarrow> string \<Rightarrow> snapshot_set res" where
  "stored_set db d s =
     (case get_set db s of
        None \<Rightarrow> api_fail 404 ''snapshot_operation_blocked'' ''NOT_FOUND''
      | Some x \<Rightarrow> if ss_deployment x = d then Inr x else api_fail 404 ''snapshot_operation_blocked'' ''NOT_FOUND'')"

subsection \<open>Retention\<close>

definition default_retention :: retention_policy where
  "default_retention = \<lparr>rp_keep_count = 5, rp_keep_days = 7\<rparr>"

definition bounded_field :: "dict \<Rightarrow> string \<Rightarrow> int \<Rightarrow> int \<Rightarrow> int option" where
  "bounded_field d k dflt hi =
     (case dget d k of
        None \<Rightarrow> Some dflt
      | Some (JInt i) \<Rightarrow> if 0 \<le> i \<and> i \<le> hi then Some i else None
      | Some _ \<Rightarrow> None)"

definition retention_model :: "json \<Rightarrow> retention_policy option" where
  "retention_model v =
     (case v of
        JObj d \<Rightarrow>
          if set (dkeys d) \<subseteq> {''keep_count'', ''keep_days''}
          then (case (bounded_field d ''keep_count'' 5 10000, bounded_field d ''keep_days'' 7 36500) of
                  (Some c, Some n) \<Rightarrow> Some \<lparr>rp_keep_count = c, rp_keep_days = n\<rparr>
                | _ \<Rightarrow> None)
          else None
      | _ \<Rightarrow> None)"

text \<open>The stored policy; a missing file is the default, anything else unreadable is refused.\<close>

definition read_for_deletion :: "string res option \<Rightarrow> retention_policy res" where
  "read_for_deletion path =
     (case path of
        None \<Rightarrow> Inr default_retention
      | Some content \<Rightarrow>
          catchE (os_or ValueError)
            (bindE content (\<lambda>t. bindE (of_opt ValueError (json_loads t)) (\<lambda>v. of_opt ValueError (retention_model v))))
            (api_fail 409 ''retention_policy_unavailable'' ''RETENTION_POLICY_UNAVAILABLE''))"

text \<open>Newest first, by creation and then by identifier.\<close>

definition newest_first :: "snapshot_set list \<Rightarrow> snapshot_set list" where
  "newest_first xs = rev (sort_key (\<lambda>s. (ss_created s, ss_id s)) xs)"

definition retention_candidates :: "int \<Rightarrow> retention_policy \<Rightarrow> string \<Rightarrow> store \<Rightarrow> snapshot_set list res" where
  "retention_candidates now p d db =
     (let complete = newest_first (filter (\<lambda>s. ss_deployment s = d \<and> ss_state s = ''complete'') (st_sets db));
          cutoff = now - rp_keep_days p * 24 * 60 * minute
      in if 1000 < length complete then snap_blocked ''SNAPSHOT_PLAN_STALE''
         else Inr (filter (\<lambda>s. ss_created s \<le> cutoff) (drop (nat (rp_keep_count p)) complete)))"

definition check_retention ::
    "(unit \<Rightarrow> retention_policy res) \<Rightarrow> int \<Rightarrow> snapshot_set \<Rightarrow> retention_policy \<Rightarrow> store \<Rightarrow> unit res" where
  "check_retention policy now s reviewed db =
     bindE (policy ()) (\<lambda>p.
     if p \<noteq> reviewed then snap_blocked ''SNAPSHOT_PLAN_STALE''
     else bindE (retention_candidates now reviewed (ss_deployment s) db) (\<lambda>rows.
       if ss_id s \<in> ss_id ` set rows then Inr () else snap_blocked ''SNAPSHOT_PLAN_STALE''))"

subsection \<open>Planning on an existing set\<close>

definition row_proof :: "set_member \<Rightarrow> snap_proof option" where
  "row_proof m = (case sm_row m of None \<Rightarrow> None | Some r \<Rightarrow> or_snapshot r)"

definition owned_proofs ::
    "hasher \<Rightarrow> http_get \<Rightarrow> registered_host \<Rightarrow> snapshot_set \<Rightarrow> string \<Rightarrow> (string \<times> snap_proof) list res" where
  "owned_proofs hs get h s kind =
     foldE (\<lambda>ps m. bindE (native_snapshot hs get h s (sm_vm_id m)) (\<lambda>p.
              if kind = ''rollback'' \<and> (p = None \<or> p \<noteq> row_proof m) then snap_blocked ''SNAPSHOT_PLAN_STALE''
              else Inr (case p of None \<Rightarrow> ps | Some x \<Rightarrow> dset (int_str (sm_vm_id m)) x ps)))
       [] (ss_members s)"

definition plannable :: "string \<Rightarrow> string \<Rightarrow> bool" where
  "plannable kind state =
     (state \<in> (if kind = ''rollback'' then {''complete''} else {''complete'', ''partial'', ''failed''}))"

definition plan_existing ::
    "hasher \<Rightarrow> http_get \<Rightarrow> (unit \<Rightarrow> retention_policy res) \<Rightarrow> int \<Rightarrow> string \<Rightarrow> string \<Rightarrow> string \<Rightarrow> string
       \<Rightarrow> retention_policy option \<Rightarrow> store \<Rightarrow> store res" where
  "plan_existing hs get policy now i d sid kind retention db =
     bindE (stored_set db d sid) (\<lambda>s.
     if \<not> plannable kind (ss_state s) then snap_blocked ''SNAPSHOT_PLAN_STALE''
     else bindE (deployment_target db d) (\<lambda>(dep, h).
     bindE (check_binding hs s dep h) (\<lambda>_.
     bindE (case retention of None \<Rightarrow> Inr () | Some r \<Rightarrow> check_retention policy now s r db) (\<lambda>_.
     bindE (observe hs get h d (map member_ref_of (ss_members s))) (\<lambda>observed.
     if map sm_uuid observed \<noteq> map sm_uuid (ss_members s) then snap_blocked ''SNAPSHOT_OWNERSHIP_CHANGED''
     else bindE (owned_proofs hs get h s kind) (\<lambda>proofs.
     if proofs = [] then snap_blocked ''SNAPSHOT_PLAN_STALE''
     else Inr (add_operation (new_operation hs now i s kind
            (filter (\<lambda>m. dget proofs (int_str (sm_vm_id m)) \<noteq> None) observed) proofs retention) db)))))))"

definition plan_retention ::
    "hasher \<Rightarrow> http_get \<Rightarrow> (unit \<Rightarrow> retention_policy res) \<Rightarrow> int \<Rightarrow> (string \<Rightarrow> string) \<Rightarrow> string \<Rightarrow> nat
       \<Rightarrow> store \<Rightarrow> store res" where
  "plan_retention hs get policy now ids d n db =
     bindE (policy ()) (\<lambda>p.
     bindE (deployment_target db d) (\<lambda>_.
     bindE (retention_candidates now p d db) (\<lambda>rows.
       foldE (\<lambda>db s. plan_existing hs get policy now (ids (ss_id s)) d (ss_id s) ''delete'' (Some p) db)
         db (take n rows))))"

definition cancel_plan :: "string \<Rightarrow> string \<Rightarrow> string \<Rightarrow> store \<Rightarrow> store res" where
  "cancel_plan d sid oid db =
     bindE (stored_set db d sid) (\<lambda>_.
     case get_operation db oid of
       None \<Rightarrow> api_fail 404 ''snapshot_operation_blocked'' ''NOT_FOUND''
     | Some opr \<Rightarrow>
         if op_set_id opr \<noteq> sid then api_fail 404 ''snapshot_operation_blocked'' ''NOT_FOUND''
         else if op_state opr \<noteq> ''planned'' \<or> str_given (op_attempt_id opr)
         then snap_blocked ''SNAPSHOT_RECONCILIATION_REQUIRED''
         else Inr (db\<lparr>st_operations := update_rows (\<lambda>r. op_id r = oid) (\<lambda>r. r\<lparr>op_state := ''cancelled''\<rparr>)
                                          (st_operations db)\<rparr>))"

subsection \<open>Execution\<close>

definition same_member :: "snap_member \<Rightarrow> snap_member \<Rightarrow> bool" where
  "same_member a b =
     (sm_vm_id a = sm_vm_id b \<and> json_eq (sm_vm_name a) (sm_vm_name b) \<and> sm_uuid a = sm_uuid b
      \<and> sm_config_digest a = sm_config_digest b \<and> sm_restore_digest a = sm_restore_digest b
      \<and> sm_status a = sm_status b)"

definition plan_proof :: "operation_plan \<Rightarrow> int \<Rightarrow> snap_proof option" where
  "plan_proof p vmid = (if pl_kind p = ''create'' then None else dget (pl_snapshots p) (int_str vmid))"

definition guard_members ::
    "hasher \<Rightarrow> http_get \<Rightarrow> registered_host \<Rightarrow> snapshot_set \<Rightarrow> snapshot_operation \<Rightarrow> snap_member list \<Rightarrow> unit res" where
  "guard_members hs get h s opr members =
     bindE (observe hs get h (ss_deployment s) (map member_ref_of members)) (\<lambda>observed.
     if \<not> list_all2 same_member observed members then snap_blocked ''SNAPSHOT_PLAN_STALE''
     else bindE (mapE (\<lambda>m. bindE (native_snapshot hs get h s (sm_vm_id m)) (\<lambda>p.
            if p = plan_proof (op_plan opr) (sm_vm_id m) then Inr () else snap_blocked ''SNAPSHOT_OWNERSHIP_CHANGED''))
            members) (\<lambda>_. Inr ()))"

definition worker_of :: "string \<Rightarrow> string" where
  "worker_of kind =
     (if kind = ''create'' then ''qmsnapshot'' else if kind = ''rollback'' then ''qmrollback'' else ''qmdelsnapshot'')"

definition validate_task :: "string option \<Rightarrow> registered_host \<Rightarrow> int \<Rightarrow> string \<Rightarrow> bool" where
  "validate_task upid h vmid kind =
     (case upid of None \<Rightarrow> False
      | Some u \<Rightarrow> task_fields (ph_node_name h) u = Some (worker_of kind, int_str vmid))"

definition dispatch ::
    "http_send \<Rightarrow> store \<Rightarrow> snapshot_set \<Rightarrow> snapshot_operation \<Rightarrow> registered_host \<Rightarrow> int \<Rightarrow> string option res" where
  "dispatch send db s opr h vmid =
     (if op_kind opr = ''create''
      then create_snapshot send db (ph_id h) vmid (ss_native_name s) (Some (set_marker s)) (Some False) ''qemu''
      else if op_kind opr = ''rollback'' then rollback_snapshot send db (ph_id h) vmid ''qemu'' (ss_native_name s)
      else delete_snapshot send db (ph_id h) vmid ''qemu'' (ss_native_name s))"

definition put_operation :: "snapshot_operation \<Rightarrow> store \<Rightarrow> store" where
  "put_operation opr db =
     db\<lparr>st_operations := update_rows (\<lambda>r. op_id r = op_id opr) (\<lambda>_. opr) (st_operations db)\<rparr>"

definition put_set :: "snapshot_set \<Rightarrow> store \<Rightarrow> store" where
  "put_set s db = db\<lparr>st_sets := update_rows (\<lambda>r. ss_id r = ss_id s) (\<lambda>_. s) (st_sets db)\<rparr>"

definition busy_state :: "string \<Rightarrow> string" where
  "busy_state kind =
     (if kind = ''create'' then ''creating'' else if kind = ''rollback'' then ''rolling_back'' else ''deleting'')"

definition snapshot_attempt :: "int \<Rightarrow> string \<Rightarrow> deployment \<Rightarrow> snapshot_operation \<Rightarrow> attempt" where
  "snapshot_attempt now i dep opr =
     \<lparr>at_id = i, at_deployment = dep_id dep, at_scope = ''snapshot_set'', at_project_sha = dep_project_sha dep,
      at_operation = Some (JObj [(''kind'', JStr ''snapshot_set''), (''operation_id'', JStr (op_id opr))]),
      at_operation_result = None, at_team_id = None, at_state = ''deploying'', at_sub_reason = None,
      at_rc = None, at_started = Some now, at_ended = None, at_cursor = 0, at_pid = None,
      at_artifact_dir = None\<rparr>"

text \<open>The operation a reviewed digest selects, when it may still be executed.\<close>

definition executable_plan ::
    "hasher \<Rightarrow> int \<Rightarrow> string \<Rightarrow> string \<Rightarrow> string \<Rightarrow> store \<Rightarrow> (snapshot_set \<times> snapshot_operation) res" where
  "executable_plan hs now d sid reviewed db =
     (case (get_set db sid, find (\<lambda>r. op_set_id r = sid \<and> op_plan_digest r = reviewed) (st_operations db)) of
        (Some s, Some opr) \<Rightarrow>
          if ss_deployment s \<noteq> d then snap_blocked ''SNAPSHOT_PLAN_STALE''
          else if op_state opr \<noteq> ''planned'' \<or> op_expires opr \<le> now
               \<or> op_plan_digest opr \<noteq> plan_digest hs (op_plan opr)
          then snap_blocked ''SNAPSHOT_PLAN_STALE'' else Inr (s, opr)
      | _ \<Rightarrow> snap_blocked ''SNAPSHOT_PLAN_STALE'')"

definition current_active :: "store \<Rightarrow> deployment \<Rightarrow> bool" where
  "current_active db dep =
     (case dep_current dep of None \<Rightarrow> False
      | Some i \<Rightarrow> if i = [] then False
                  else (case get_attempt db i of None \<Rightarrow> False | Some a \<Rightarrow> \<not> is_terminal (at_state a)))"

definition supersede :: "snapshot_operation \<Rightarrow> store \<Rightarrow> store" where
  "supersede opr db =
     db\<lparr>st_operations := update_rows (\<lambda>r. op_set_id r = op_set_id opr \<and> op_state r = ''planned'' \<and> op_id r \<noteq> op_id opr)
                           (\<lambda>r. r\<lparr>op_state := ''superseded''\<rparr>) (st_operations db)\<rparr>"

definition begin_operation ::
    "int \<Rightarrow> string \<Rightarrow> deployment \<Rightarrow> snapshot_set \<Rightarrow> snapshot_operation \<Rightarrow> store \<Rightarrow> store" where
  "begin_operation now i dep s opr db =
     on_deployments (\<lambda>r. dep_id r = dep_id dep) (\<lambda>r. r\<lparr>dep_current := Some i, dep_state := ''deploying''\<rparr>)
       (put_set (s\<lparr>ss_state := busy_state (op_kind opr)\<rparr>)
         (put_operation (opr\<lparr>op_attempt_id := Some i, op_state := ''running''\<rparr>)
           (supersede opr (with_attempt (snapshot_attempt now i dep opr) db))))"

definition execute_begin ::
    "files \<Rightarrow> hasher \<Rightarrow> http_get \<Rightarrow> (unit \<Rightarrow> retention_policy res) \<Rightarrow> int \<Rightarrow> string \<Rightarrow> string \<Rightarrow> string \<Rightarrow> string
       \<Rightarrow> store \<Rightarrow> (string \<times> store) res" where
  "execute_begin fs hs get policy now i d sid reviewed db =
     bindE (executable_plan hs now d sid reviewed db) (\<lambda>(s, opr).
     bindE (deployment_target db d) (\<lambda>(dep, h).
     bindE (check_binding hs s dep h) (\<lambda>_.
     bindE (case pl_retention (op_plan opr) of None \<Rightarrow> Inr () | Some r \<Rightarrow> check_retention policy now s r db) (\<lambda>_.
     bindE (guard_members hs get h s opr (pl_members (op_plan opr))) (\<lambda>_.
     if current_active db dep then snap_blocked ''ATTEMPT_IN_PROGRESS''
     else bindE (acquire_lock fs now d (attempt_owner i) 30 db) (\<lambda>db'.
       Inr (op_id opr, begin_operation now i dep s opr db')))))))"

text \<open>
  One member: the guard and the durable intent (\<open>None\<close>: the rest is not started), the native
  write, and the record of its answer (\<open>False\<close>: it was not identified, nothing more is written).
\<close>

definition mark_from :: "nat \<Rightarrow> (op_row \<Rightarrow> op_row) \<Rightarrow> op_row list \<Rightarrow> op_row list" where
  "mark_from k f rows = take k rows @ map f (drop k rows)"

definition not_started :: "string option \<Rightarrow> op_row \<Rightarrow> op_row" where
  "not_started code r = r\<lparr>or_state := ''not_started'', or_code := (if code = None then or_code r else code)\<rparr>"

definition member_guard ::
    "hasher \<Rightarrow> http_get \<Rightarrow> (unit \<Rightarrow> retention_policy res) \<Rightarrow> nat \<Rightarrow> store \<Rightarrow> snapshot_set \<Rightarrow> snapshot_operation
       \<Rightarrow> deployment \<Rightarrow> registered_host \<Rightarrow> unit res" where
  "member_guard hs get policy k db s opr dep h =
     bindE (check_binding hs s dep h) (\<lambda>_.
     bindE (case pl_retention (op_plan opr) of
              None \<Rightarrow> Inr ()
            | Some r \<Rightarrow> bindE (policy ()) (\<lambda>p. if p = r then Inr () else snap_blocked ''SNAPSHOT_PLAN_STALE'')) (\<lambda>_.
       guard_members hs get h s opr [pl_members (op_plan opr) ! k]))"

definition record_intent :: "int \<Rightarrow> nat \<Rightarrow> snapshot_operation \<Rightarrow> snapshot_operation" where
  "record_intent now k opr =
     opr\<lparr>op_members := (op_members opr)[k := (op_members opr ! k)\<lparr>or_state := ''dispatching'', or_dispatched := Some now\<rparr>]\<rparr>"

definition record_accepted :: "nat \<Rightarrow> string option \<Rightarrow> snapshot_operation \<Rightarrow> snapshot_operation" where
  "record_accepted k upid opr =
     opr\<lparr>op_members := (op_members opr)[k := (op_members opr ! k)\<lparr>or_state := ''accepted'', or_upid := upid\<rparr>]\<rparr>"

definition record_unconfirmed :: "nat \<Rightarrow> snapshot_operation \<Rightarrow> snapshot_operation" where
  "record_unconfirmed k opr =
     opr\<lparr>op_members := mark_from (Suc k) (not_started None)
           ((op_members opr)[k := (op_members opr ! k)\<lparr>or_state := ''unconfirmed'',
                                     or_code := Some ''SNAPSHOT_DISPATCH_UNCONFIRMED''\<rparr>]),
         op_state := ''needs_review''\<rparr>"

definition record_stopped :: "nat \<Rightarrow> snapshot_operation \<Rightarrow> snapshot_operation" where
  "record_stopped k opr =
     opr\<lparr>op_members := mark_from k (not_started (Some ''SNAPSHOT_PLAN_STALE'')) (op_members opr)\<rparr>"

datatype effect = Committed store | NativeWrite int

text \<open>
  The loop over the members, as the trace of its commits and native writes. \<open>env k\<close> is what the
  outside is at member \<open>k\<close>: the store found (other requests commit in between), the reads, the
  policy, the clock and the write client.
\<close>

record outside =
  ou_store :: "store \<Rightarrow> store"
  ou_get :: http_get
  ou_policy :: "unit \<Rightarrow> retention_policy res"
  ou_now :: int
  ou_send :: http_send

definition fresh_target :: "store \<Rightarrow> deployment \<Rightarrow> registered_host \<Rightarrow> (deployment \<times> registered_host) res" where
  "fresh_target db dep h =
     (case (get_deployment db (dep_id dep), get_host db (ph_id h)) of
        (Some d', Some h') \<Rightarrow> Inr (d', h') | _ \<Rightarrow> Inl RuntimeError)"

text \<open>The trace, and the exception that ended it early when there was one.\<close>

type_synonym run = "effect list \<times> exc option"

definition then_run :: "effect list \<Rightarrow> run \<Rightarrow> run" where
  "then_run es r = (es @ fst r, snd r)"

definition identified ::
    "string option res \<Rightarrow> registered_host \<Rightarrow> int \<Rightarrow> string \<Rightarrow> string option" where
  "identified answer h vmid kind =
     (case answer of Inr u \<Rightarrow> if validate_task u h vmid kind then u else None | Inl _ \<Rightarrow> None)"

function execute_members ::
    "hasher \<Rightarrow> (nat \<Rightarrow> outside) \<Rightarrow> snapshot_set \<Rightarrow> deployment \<Rightarrow> registered_host \<Rightarrow> nat
       \<Rightarrow> snapshot_operation \<Rightarrow> store \<Rightarrow> run" where
  "execute_members hs env s dep h k opr db0 =
     (if length (op_members opr) \<le> k then ([], None)
      else let out = env k; db = ou_store out db0 in
        case fresh_target db dep h of
          Inl e \<Rightarrow> ([], Some e)
        | Inr (dep', h') \<Rightarrow>
          (case member_guard hs (ou_get out) (ou_policy out) k db s opr dep' h' of
             Inl (ApiError e) \<Rightarrow> ([Committed (put_operation (record_stopped k opr) db)], None)
           | Inl e \<Rightarrow> ([], Some e)
           | Inr _ \<Rightarrow>
               let intent = record_intent (ou_now out) k opr;
                   db1 = put_operation intent db;
                   vmid = or_vm_id (op_members opr ! k)
               in (case identified (dispatch (ou_send out) db1 s intent h' vmid) h' vmid (op_kind opr) of
                     Some u \<Rightarrow>
                       let accepted = record_accepted k (Some u) intent;
                           db2 = put_operation accepted db1
                       in then_run [Committed db1, NativeWrite vmid, Committed db2]
                            (execute_members hs env s dep' h' (Suc k) accepted db2)
                   | None \<Rightarrow>
                       ([Committed db1, NativeWrite vmid,
                         Committed (put_set (s\<lparr>ss_state := ''needs_review''\<rparr>)
                                      (put_operation (record_unconfirmed k intent) db1))], None))))"
  by pat_completeness auto
termination
  by (relation "measure (\<lambda>(hs, env, s, dep, h, k, opr, db). length (op_members opr) - k)")
     (auto simp: record_accepted_def record_intent_def Let_def)

declare execute_members.simps [simp del]

text \<open>The whole of \<open>execute\<close>: the reservation, committed first, and then the members.\<close>

definition execute ::
    "files \<Rightarrow> hasher \<Rightarrow> http_get \<Rightarrow> (unit \<Rightarrow> retention_policy res) \<Rightarrow> (nat \<Rightarrow> outside) \<Rightarrow> int \<Rightarrow> string
       \<Rightarrow> string \<Rightarrow> string \<Rightarrow> string \<Rightarrow> store \<Rightarrow> run" where
  "execute fs hs get policy env now i d sid reviewed db =
     (case execute_begin fs hs get policy now i d sid reviewed db of
        Inl e \<Rightarrow> ([], Some e)
      | Inr (oid, db1) \<Rightarrow>
          (case (get_operation db1 oid, get_set db1 sid, deployment_target db1 d) of
             (Some opr, Some s, Inr (dep, h)) \<Rightarrow>
               then_run [Committed db1] (execute_members hs env s dep h 0 opr db1)
           | _ \<Rightarrow> ([Committed db1], Some RuntimeError)))"

subsection \<open>Reconciliation\<close>

definition task_path :: "registered_host \<Rightarrow> string \<Rightarrow> string" where
  "task_path h upid = ''/nodes/'' @ url_quote (ph_node_name h) @ ''/tasks/'' @ url_quote upid @ ''/status''"

datatype task_state = TaskRunning | TaskOk | TaskFailed

definition task_result :: "http_get \<Rightarrow> registered_host \<Rightarrow> string \<Rightarrow> task_state res" where
  "task_result get h upid =
     bindE (snap_read get h (task_path h upid) []) (\<lambda>task.
     case task of
       JObj t \<Rightarrow>
         if jget t ''upid'' \<noteq> JStr upid then snap_blocked ''SNAPSHOT_PLAN_STALE''
         else if jget t ''status'' = JStr ''running'' then Inr TaskRunning
         else (case (jget t ''status'' = JStr ''stopped'', jget t ''exitstatus'') of
                 (True, JStr e) \<Rightarrow> Inr (if e = ''OK'' then TaskOk else TaskFailed)
               | _ \<Rightarrow> snap_blocked ''SNAPSHOT_PLAN_STALE'')
     | _ \<Rightarrow> snap_blocked ''SNAPSHOT_PLAN_STALE'')"

text \<open>After a task that ended well: what the guest and its snapshots must show for the member to count.\<close>

definition readback ::
    "snapshot_operation \<Rightarrow> snap_member \<Rightarrow> snap_member \<Rightarrow> snap_proof option \<Rightarrow> op_row \<Rightarrow> op_row res" where
  "readback opr expected actual shown row =
     (if op_kind opr = ''create''
      then (case shown of
              None \<Rightarrow> snap_blocked ''SNAPSHOT_PLAN_STALE''
            | Some p \<Rightarrow> if sp_config_digest p = sm_restore_digest expected
                        then Inr (row\<lparr>or_snapshot := shown\<rparr>) else snap_blocked ''SNAPSHOT_PLAN_STALE'')
      else if op_kind opr = ''delete''
      then (if shown = None then Inr row else snap_blocked ''SNAPSHOT_PLAN_STALE'')
      else (case shown of
              None \<Rightarrow> snap_blocked ''SNAPSHOT_PLAN_STALE''
            | Some p \<Rightarrow>
                bindE (of_opt KeyError (dget (pl_snapshots (op_plan opr)) (int_str (or_vm_id row)))) (\<lambda>q.
                  if p = q \<and> sm_restore_digest actual = sp_config_digest p \<and> sm_status actual = ''stopped''
                  then Inr row else snap_blocked ''SNAPSHOT_PLAN_STALE'')))"

definition verify_member ::
    "hasher \<Rightarrow> http_get \<Rightarrow> registered_host \<Rightarrow> snapshot_set \<Rightarrow> snapshot_operation \<Rightarrow> op_row \<Rightarrow> op_row res" where
  "verify_member hs get h s opr row =
     bindE (of_opt RuntimeError (find (\<lambda>m. sm_vm_id m = or_vm_id row) (ss_members s))) (\<lambda>m.
     bindE (observe hs get h (ss_deployment s) [member_ref_of m]) (\<lambda>observed.
     bindE (of_opt IndexError (case observed of [] \<Rightarrow> None | x # _ \<Rightarrow> Some x)) (\<lambda>actual.
     if sm_uuid actual \<noteq> sm_uuid m then snap_blocked ''SNAPSHOT_PLAN_STALE''
     else bindE (native_snapshot hs get h s (or_vm_id row)) (\<lambda>shown.
          bindE (readback opr (snap_member.truncate m) actual shown row) (\<lambda>r.
            Inr (r\<lparr>or_state := ''succeeded'', or_code := None\<rparr>))))))"

definition is_api_error :: "exc \<Rightarrow> bool" where
  "is_api_error e = (case e of ApiError _ \<Rightarrow> True | _ \<Rightarrow> False)"

definition reconcile_row ::
    "hasher \<Rightarrow> http_get \<Rightarrow> registered_host \<Rightarrow> snapshot_set \<Rightarrow> snapshot_operation \<Rightarrow> op_row \<Rightarrow> op_row res" where
  "reconcile_row hs get h s opr row =
     (if or_state row = ''planned''
      then Inr (row\<lparr>or_state := ''not_started'', or_code := Some ''SNAPSHOT_DISPATCH_INTERRUPTED''\<rparr>)
      else if or_state row \<notin> {''accepted'', ''dispatching''} then Inr row
      else if \<not> validate_task (or_upid row) h (or_vm_id row) (op_kind opr)
      then Inr (row\<lparr>or_state := ''unconfirmed'', or_code := Some ''SNAPSHOT_DISPATCH_UNCONFIRMED''\<rparr>)
      else catchE is_api_error
        (bindE (task_result get h (the (or_upid row))) (\<lambda>t.
         case t of
           TaskRunning \<Rightarrow> Inr row
         | TaskFailed \<Rightarrow> Inr (row\<lparr>or_state := ''failed'', or_code := Some ''SNAPSHOT_NATIVE_TASK_FAILED''\<rparr>)
         | TaskOk \<Rightarrow> verify_member hs get h s opr row))
        (Inr (row\<lparr>or_code := Some ''SNAPSHOT_READBACK_UNCONFIRMED''\<rparr>)))"

definition final_row :: "op_row \<Rightarrow> bool" where
  "final_row r = (or_state r \<in> {''succeeded'', ''failed'', ''not_started''})"

definition outcome_of :: "op_row list \<Rightarrow> string" where
  "outcome_of rows =
     (if rows \<noteq> [] \<and> list_all (\<lambda>r. or_state r = ''succeeded'') rows then ''succeeded''
      else if list_ex (\<lambda>r. or_state r = ''succeeded'') rows then ''partial'' else ''failed'')"

definition set_outcome :: "string \<Rightarrow> string \<Rightarrow> string" where
  "set_outcome kind outcome =
     (if kind = ''create'' then (if outcome = ''succeeded'' then ''complete'' else outcome)
      else if kind = ''delete'' then (if outcome = ''succeeded'' then ''deleted'' else ''partial'')
      else ''complete'')"

definition merge_rows :: "op_row list \<Rightarrow> set_member list \<Rightarrow> set_member list res" where
  "merge_rows rows members =
     mapE (\<lambda>m. bindE (of_opt RuntimeError (find (\<lambda>r. or_vm_id r = sm_vm_id m) rows)) (\<lambda>r. Inr (m\<lparr>sm_row := Some r\<rparr>)))
       members"

fun opt_entry :: "string \<Rightarrow> json option \<Rightarrow> dict" where
  "opt_entry k None = []"
| "opt_entry k (Some v) = [(k, v)]"

definition row_json :: "op_row \<Rightarrow> json" where
  "row_json r =
     JObj ([(''vm_id'', JInt (or_vm_id r)), (''state'', JStr (or_state r))]
           @ opt_entry ''dispatched_at'' (map_option JInt (or_dispatched r))
           @ opt_entry ''upid'' (map_option JStr (or_upid r))
           @ opt_entry ''code'' (map_option JStr (or_code r))
           @ opt_entry ''snapshot'' (map_option proof_json (or_snapshot r)))"

definition close_attempt :: "int \<Rightarrow> snapshot_set \<Rightarrow> snapshot_operation \<Rightarrow> string \<Rightarrow> attempt \<Rightarrow> attempt" where
  "close_attempt now s opr outcome a =
     a\<lparr>at_state := outcome, at_rc := Some (if outcome = ''succeeded'' then 0 else 1), at_ended := Some now,
       at_operation_result := Some (JObj [(''set_id'', JStr (ss_id s)), (''kind'', JStr (op_kind opr)),
         (''members'', JList (map row_json (op_members opr))), (''atomic'', JBool False)])\<rparr>"

text \<open>The journal rows are final: the operation, its set, its attempt and the lock close together.\<close>

definition close_operation :: "int \<Rightarrow> snapshot_set \<Rightarrow> snapshot_operation \<Rightarrow> store \<Rightarrow> store res" where
  "close_operation now s opr db =
     (let outcome = outcome_of (op_members opr) in
      bindE (if op_kind opr = ''create'' then merge_rows (op_members opr) (ss_members s) else Inr (ss_members s)) (\<lambda>ms.
      bindE (of_opt AttributeError (case op_attempt_id opr of None \<Rightarrow> None | Some i \<Rightarrow> get_attempt db i)) (\<lambda>a.
        Inr (snd (release_lock (ss_deployment s) (attempt_owner (at_id a))
          (publish_state (a\<lparr>at_deployment := ss_deployment s\<rparr>) outcome
            (on_attempts (\<lambda>r. at_id r = at_id a) (close_attempt now s opr outcome)
              (put_set (s\<lparr>ss_state := set_outcome (op_kind opr) outcome, ss_members := ms\<rparr>)
                (put_operation (opr\<lparr>op_state := outcome\<rparr>) db)))))))))"

definition settle_operation :: "int \<Rightarrow> snapshot_set \<Rightarrow> snapshot_operation \<Rightarrow> store \<Rightarrow> store res" where
  "settle_operation now s opr db =
     (if list_all final_row (op_members opr) then close_operation now s opr db
      else if list_ex (\<lambda>r. or_state r = ''unconfirmed'' \<or> or_state r = ''dispatching'') (op_members opr)
      then Inr (put_set (s\<lparr>ss_state := ''needs_review''\<rparr>) (put_operation (opr\<lparr>op_state := ''needs_review''\<rparr>) db))
      else Inr (put_operation opr db))"

definition reconcile_operation ::
    "hasher \<Rightarrow> http_get \<Rightarrow> int \<Rightarrow> string \<Rightarrow> store \<Rightarrow> store res" where
  "reconcile_operation hs get now oid db =
     (case get_operation db oid of
        None \<Rightarrow> Inr db
      | Some opr \<Rightarrow>
          if \<not> active_operation (op_state opr) then Inr db
          else bindE (of_opt AttributeError (get_set db (op_set_id opr))) (\<lambda>s.
               bindE (deployment_target db (ss_deployment s)) (\<lambda>(dep, h).
               bindE (check_binding hs s dep h) (\<lambda>_.
               bindE (mapE (reconcile_row hs get h s opr) (op_members opr)) (\<lambda>rows.
                 settle_operation now s (opr\<lparr>op_members := rows\<rparr>) db)))))"

text \<open>\<open>reconcile\<close> reconciles the active operations of a set one after the other.\<close>

definition reconcile :: "hasher \<Rightarrow> http_get \<Rightarrow> int \<Rightarrow> string \<Rightarrow> string \<Rightarrow> store \<Rightarrow> store res" where
  "reconcile hs get now d sid db =
     bindE (stored_set db d sid) (\<lambda>_.
       foldE (\<lambda>db opr. if active_operation (op_state opr) then reconcile_operation hs get now (op_id opr) db else Inr db)
         db (sort_key (\<lambda>r. (op_created r, op_id r)) (filter (\<lambda>r. op_set_id r = sid) (st_operations db))))"

text \<open>What the API tells a client to do about an operation.\<close>

definition recovery_of :: "snapshot_operation \<Rightarrow> string" where
  "recovery_of opr =
     (if op_state opr = ''needs_review'' then ''operator_required''
      else if op_state opr = ''running'' then ''poll_saved_tasks'' else ''none'')"

end
