(* ===== verification/Snapshot_Safety.thy ===== *)
theory Snapshot_Safety
  imports Snapshot_Sets
begin

text \<open>
  What executing, reconciling and retiring snapshot sets guarantees about the guests: writes are
  recorded before they are issued and each member is written at most once, success is never
  concluded without a read-back, and retention never proposes the sets it has to keep.
\<close>

subsection \<open>The trace of an execution\<close>

definition native_writes :: "effect list \<Rightarrow> int list" where
  "native_writes es = concat (map (\<lambda>e. case e of NativeWrite v \<Rightarrow> [v] | Committed _ \<Rightarrow> []) es)"

lemma native_writes_simps [simp]:
  "native_writes [] = []" "native_writes (NativeWrite v # es) = v # native_writes es"
  "native_writes (Committed db # es) = native_writes es"
  by (simp_all add: native_writes_def)

lemma accepted_members [simp]:
  "length (op_members (record_accepted k u (record_intent now k x))) = length (op_members x)"
  "drop (Suc k) (op_members (record_accepted k u (record_intent now k x))) = drop (Suc k) (op_members x)"
  "op_id (record_intent now k x) = op_id x" "op_id (record_accepted k u y) = op_id y"
  "op_id (record_unconfirmed k y) = op_id y" "op_id (record_stopped k y) = op_id y"
  by (simp_all add: record_accepted_def record_intent_def record_unconfirmed_def record_stopped_def)

text \<open>The three ways a member ends: not reached, stopped before its intent, or dispatched.\<close>

lemma execute_members_cases:
  obtains "length (op_members x) \<le> k" and "execute_members hs env s dep h k x db0 = ([], None)"
  | es e where "execute_members hs env s dep h k x db0 = (es, e)" and "list_all (\<lambda>c. \<exists>db. c = Committed db) es"
  | db where "k < length (op_members x)" and "db = ou_store (env k) db0" and
      "execute_members hs env s dep h k x db0
         = ([Committed (put_operation (record_intent (ou_now (env k)) k x) db), NativeWrite (or_vm_id (op_members x ! k)),
             Committed (put_set (s\<lparr>ss_state := ''needs_review''\<rparr>)
               (put_operation (record_unconfirmed k (record_intent (ou_now (env k)) k x))
                  (put_operation (record_intent (ou_now (env k)) k x) db)))], None)"
  | db dep' h' y db2 u where "k < length (op_members x)" and "db = ou_store (env k) db0"
      and "y = record_accepted k (Some u) (record_intent (ou_now (env k)) k x)"
      and "db2 = put_operation y (put_operation (record_intent (ou_now (env k)) k x) db)" and
      "execute_members hs env s dep h k x db0
         = then_run [Committed (put_operation (record_intent (ou_now (env k)) k x) db),
                     NativeWrite (or_vm_id (op_members x ! k)), Committed db2]
             (execute_members hs env s dep' h' (Suc k) y db2)"
proof (cases "length (op_members x) \<le> k")
  case True
  then show ?thesis using that(1) by (simp add: execute_members.simps)
next
  case False
  let ?db = "ou_store (env k) db0"
  show ?thesis
  proof (cases "fresh_target ?db dep h")
    case (Inl e)
    then show ?thesis using that(2) [of "[]"] False by (subst (asm) execute_members.simps) (simp add: Let_def)
  next
    case (Inr t)
    obtain dep' h' where t: "fresh_target ?db dep h = Inr (dep', h')" using Inr by (cases t) auto
    show ?thesis
    proof (cases "member_guard hs (ou_get (env k)) (ou_policy (env k)) k ?db s x dep' h'")
      case (Inl e)
      have "execute_members hs env s dep h k x db0
          = (case e of ApiError a \<Rightarrow> ([Committed (put_operation (record_stopped k x) ?db)], None) | _ \<Rightarrow> ([], Some e))"
        using False by (subst execute_members.simps, cases e) (simp_all add: Let_def t Inl)
      then show ?thesis
        using that(2) [of "fst (execute_members hs env s dep h k x db0)" "snd (execute_members hs env s dep h k x db0)"]
        by (simp split: exc.splits)
    next
      case (Inr w)
      let ?i = "record_intent (ou_now (env k)) k x"
      let ?v = "or_vm_id (op_members x ! k)"
      let ?a = "identified (dispatch (ou_send (env k)) (put_operation ?i ?db) s ?i h' ?v) h' ?v (op_kind x)"
      show ?thesis
      proof (cases ?a)
        case None
        have "execute_members hs env s dep h k x db0
           = ([Committed (put_operation ?i ?db), NativeWrite ?v,
             Committed (put_set (s\<lparr>ss_state := ''needs_review''\<rparr>)
               (put_operation (record_unconfirmed k ?i) (put_operation ?i ?db)))], None)"
          using False by (subst execute_members.simps) (simp add: Let_def t Inr None)
        then show ?thesis using that(3) [OF _ refl] False by simp
      next
        case (Some u)
        have "execute_members hs env s dep h k x db0
           = then_run [Committed (put_operation ?i ?db), NativeWrite ?v,
                 Committed (put_operation (record_accepted k (Some u) ?i) (put_operation ?i ?db))]
               (execute_members hs env s dep' h' (Suc k) (record_accepted k (Some u) ?i)
                 (put_operation (record_accepted k (Some u) ?i) (put_operation ?i ?db)))"
          using False by (subst execute_members.simps) (simp add: Let_def t Inr Some)
        then show ?thesis using that(4) [OF _ refl refl refl] False by simp
      qed
    qed
  qed
qed

lemma committed_only_writes: "list_all (\<lambda>c. \<exists>db. c = Committed db) es \<Longrightarrow> native_writes es = []"
  by (induction es) auto

lemma fst_then_run [simp]: "fst (then_run es r) = es @ fst r"
  by (simp add: then_run_def)

text \<open>
  Executing a plan writes to the reviewed guests only, in the reviewed order and at most once
  each, from the given member on: the guests written are an initial part of the remaining ones.
\<close>

theorem native_writes_prefix:
  "prefix (native_writes (fst (execute_members hs env s dep h k x db0))) (map or_vm_id (drop k (op_members x)))"
proof (induction "length (op_members x) - k" arbitrary: k x db0 dep h)
  case 0
  then have "execute_members hs env s dep h k x db0 = ([], None)" by (simp add: execute_members.simps)
  then show ?case by simp
next
  case (Suc n)
  show ?case
  proof (cases rule: execute_members_cases [of x k hs env s dep h db0])
    case 1 then show ?thesis by simp
  next
    case (2 es e) then show ?thesis by (simp add: committed_only_writes)
  next
    case 3 then show ?thesis by (simp add: Cons_nth_drop_Suc [symmetric])
  next
    case (4 db dep' h' y db2 u)
    have "drop (Suc k) (op_members y) = drop (Suc k) (op_members x)" by (simp add: 4(3))
    moreover have "n = length (op_members y) - Suc k" using Suc.hyps(2) by (simp add: 4(3))
    ultimately show ?thesis
      using Suc.hyps(1) [of y "Suc k" dep' h' db2] 4(1) by (simp add: 4(5) Cons_nth_drop_Suc [symmetric])
  qed
qed

text \<open>
  Whether every native write directly follows the commit of a store in which the operation records
  the dispatch of that guest.
\<close>

definition intent_recorded :: "string \<Rightarrow> int \<Rightarrow> store \<Rightarrow> bool" where
  "intent_recorded oid v db =
     (case get_operation db oid of None \<Rightarrow> False
      | Some x \<Rightarrow> list_ex (\<lambda>r. or_vm_id r = v \<and> or_state r = ''dispatching'' \<and> or_dispatched r \<noteq> None) (op_members x))"

fun writes_intended :: "string \<Rightarrow> effect list \<Rightarrow> bool" where
  "writes_intended oid (Committed db # NativeWrite v # es) = (intent_recorded oid v db \<and> writes_intended oid es)"
| "writes_intended oid (Committed db # es) = writes_intended oid es"
| "writes_intended oid (NativeWrite v # es) = False"
| "writes_intended oid [] = True"

lemma writes_intended_committed: "list_all (\<lambda>c. \<exists>db. c = Committed db) es \<Longrightarrow> writes_intended oid es"
proof (induction es)
  case (Cons c es)
  then show ?case by (cases es) auto
qed simp

lemma writes_intended_after_commit: "es = [] \<or> (\<exists>db r. es = Committed db # r) \<Longrightarrow>
    writes_intended oid (Committed db # es) = writes_intended oid es"
  by auto

lemma execute_members_starts:
  "fst (execute_members hs env s dep h k x db0) = []
     \<or> (\<exists>db r. fst (execute_members hs env s dep h k x db0) = Committed db # r)"
proof (cases rule: execute_members_cases [of x k hs env s dep h db0])
  case (2 es e)
  then show ?thesis by (cases es) auto
qed auto

lemma get_put_operation:
  assumes "get_operation db i \<noteq> None" and "op_id y = i"
  shows "get_operation (put_operation y db) i = Some y"
proof -
  have "row_by op_id i (update_rows (\<lambda>r. op_id r = i) (\<lambda>_. y) rows) = Some y" if "row_by op_id i rows \<noteq> None" for rows
    using that by (induction rows) (auto simp: update_rows_def assms(2))
  then show ?thesis using assms by (simp add: put_operation_def)
qed

lemma intent_committed:
  assumes "k < length (op_members x)" and "get_operation db (op_id x) \<noteq> None"
  shows "intent_recorded (op_id x) (or_vm_id (op_members x ! k)) (put_operation (record_intent now k x) db)"
proof -
  have g: "get_operation (put_operation (record_intent now k x) db) (op_id x) = Some (record_intent now k x)"
    by (rule get_put_operation [OF assms(2)]) simp
  have "(op_members x ! k)\<lparr>or_state := ''dispatching'', or_dispatched := Some now\<rparr> \<in> set (op_members (record_intent now k x))"
    using assms(1) by (simp add: record_intent_def set_update_memI)
  then show ?thesis unfolding intent_recorded_def g list_ex_iff option.case by (rule bexI [rotated]) simp
qed


definition one_operation :: snapshot_operation where
  "one_operation = \<lparr>op_id = ''o1'', op_set_id = ''s1'', op_kind = ''create'', op_state = ''running'',
     op_plan_digest = ''r'', op_plan = \<lparr>pl_id = ''o1'', pl_set_id = ''s1'', pl_kind = ''create'',
       pl_target_digest = ''t'', pl_project_sha = ''c'', pl_members = [], pl_snapshots = [], pl_retention = None\<rparr>,
     op_members = [\<lparr>or_vm_id = 100, or_state = ''planned'', or_code = None, or_upid = None, or_dispatched = None,
                    or_snapshot = None\<rparr>],
     op_attempt_id = Some ''a1'', op_created = 0, op_expires = 9\<rparr>"

definition one_operation_store :: store where
  "one_operation_store = \<lparr>st_deployments = [], st_attempts = [], st_locks = [], st_operations = [one_operation],
                          st_sets = [], st_hosts = []\<rparr>"

definition idle_outside :: outside where
  "idle_outside = \<lparr>ou_store = (\<lambda>db. db), ou_get = (\<lambda>_ _. None), ou_policy = (\<lambda>_. Inr default_retention), ou_now = 0,
                   ou_send = (\<lambda>_ _ _. None)\<rparr>"


subsection \<open>Success is read back\<close>

text \<open>
  A member counts as done only after its recorded task, of the right guest and kind, was reported
  as stopped with OK by the node, and the guest and its snapshots were read back as the plan expects.
\<close>

definition read_back :: "hasher \<Rightarrow> http_get \<Rightarrow> registered_host \<Rightarrow> snapshot_set \<Rightarrow> snapshot_operation \<Rightarrow> op_row \<Rightarrow> bool" where
  "read_back hs get h s x row =
     (or_state row \<in> {''accepted'', ''dispatching''} \<and> validate_task (or_upid row) h (or_vm_id row) (op_kind x)
      \<and> task_result get h (the (or_upid row)) = Inr TaskOk \<and> (\<exists>r. verify_member hs get h s x row = Inr r))"

lemma list_all2_partner: "list_all2 P xs ys \<Longrightarrow> x \<in> set xs \<Longrightarrow> \<exists>y\<in>set ys. P x y"
  by (induction rule: list_all2_induct) auto

lemma reconcile_row_succeeded:
  assumes "reconcile_row hs get h s x row = Inr r" and "or_state r = ''succeeded''"
  shows "or_state row = ''succeeded'' \<or> read_back hs get h s x row"
proof (cases "or_state row \<in> {''accepted'', ''dispatching''} \<and> validate_task (or_upid row) h (or_vm_id row) (op_kind x)")
  case False
  then show ?thesis using assms by (auto simp: reconcile_row_def split: if_splits)
next
  case True
  then have eq: "reconcile_row hs get h s x row = catchE is_api_error
        (bindE (task_result get h (the (or_upid row))) (\<lambda>t.
         case t of
           TaskRunning \<Rightarrow> Inr row
         | TaskFailed \<Rightarrow> Inr (row\<lparr>or_state := ''failed'', or_code := Some ''SNAPSHOT_NATIVE_TASK_FAILED''\<rparr>)
         | TaskOk \<Rightarrow> verify_member hs get h s x row))
        (Inr (row\<lparr>or_code := Some ''SNAPSHOT_READBACK_UNCONFIRMED''\<rparr>))"
    by (auto simp: reconcile_row_def)
  have pending: "or_state row \<noteq> ''succeeded''" using True by auto
  with assms(1) [unfolded eq] assms(2) obtain t where t: "task_result get h (the (or_upid row)) = Inr t"
      "(case t of TaskRunning \<Rightarrow> Inr row
         | TaskFailed \<Rightarrow> Inr (row\<lparr>or_state := ''failed'', or_code := Some ''SNAPSHOT_NATIVE_TASK_FAILED''\<rparr>)
         | TaskOk \<Rightarrow> verify_member hs get h s x row) = Inr r"
    by (auto simp: catchE_Inr bindE_Inr)
  then have "t = TaskOk" using assms(2) pending by (cases t) auto
  then show ?thesis using True t by (auto simp: read_back_def)
qed



subsection \<open>Retention\<close>

lemma take_drop_sorted:
  assumes "sorted (map f (rev xs))" and "r \<in> set (drop n xs)" and "s \<in> set (take n xs)"
  shows "f r \<le> (f s :: 'k :: linorder)"
proof -
  have "sorted (map f (rev (drop n xs)) @ map f (rev (take n xs)))"
    using assms(1) by (metis append_take_drop_id map_append rev_append)
  then show ?thesis using assms(2,3) by (auto simp: sorted_append)
qed

text \<open>
  C17: A retention review proposes only complete sets of the deployment that are older than the
  policy's days, and only beyond its count: at least \<open>keep_count\<close> other complete sets, none of
  them older, stay.
\<close>

theorem retention_keeps_newest:
  assumes "retention_candidates now p d db = Inr rows" and "r \<in> set rows" and "distinct (map ss_id (st_sets db))"
    and "0 \<le> rp_keep_count p"
  shows "ss_deployment r = d \<and> ss_state r = ''complete'' \<and> ss_created r \<le> now - rp_keep_days p * 24 * 60 * minute
     \<and> (\<exists>kept. int (length kept) = rp_keep_count p \<and> distinct (r # kept)
          \<and> list_all (\<lambda>s. s \<in> set (st_sets db) \<and> ss_deployment s = d \<and> ss_state s = ''complete''
               \<and> (ss_created r, ss_id r) \<le> (ss_created s, ss_id s)) kept)"
proof -
  let ?n = "nat (rp_keep_count p)"
  define xs where "xs = newest_first (filter (\<lambda>s. ss_deployment s = d \<and> ss_state s = ''complete'') (st_sets db))"
  have rows: "rows = filter (\<lambda>s. ss_created s \<le> now - rp_keep_days p * 24 * 60 * minute) (drop ?n xs)"
    using assms(1) by (auto simp: retention_candidates_def Let_def xs_def split: if_splits)
  then have r: "r \<in> set (drop ?n xs)" "ss_created r \<le> now - rp_keep_days p * 24 * 60 * minute" using assms(2) by auto
  have xs_set: "set xs = {s \<in> set (st_sets db). ss_deployment s = d \<and> ss_state s = ''complete''}"
    by (simp add: xs_def newest_first_def)
  have "distinct (map ss_id xs)"
    using assms(3) by (simp add: xs_def newest_first_def distinct_map_filter rev_map [symmetric] distinct_map inj_on_def)
  then have dist: "distinct xs" by (simp add: distinct_map)
  have sorted: "sorted (map (\<lambda>s. (ss_created s, ss_id s)) (rev xs))"
    by (simp add: xs_def newest_first_def)
  have "?n < length xs" using r(1) by (cases "?n < length xs") auto
  then have len: "int (length (take ?n xs)) = rp_keep_count p" using assms(4) by simp
  have "r \<notin> set (take ?n xs)"
    using r(1) dist append_take_drop_id [of ?n xs] by (metis disjoint_iff distinct_append)
  moreover have "list_all (\<lambda>s. s \<in> set (st_sets db) \<and> ss_deployment s = d \<and> ss_state s = ''complete''
               \<and> (ss_created r, ss_id r) \<le> (ss_created s, ss_id s)) (take ?n xs)"
    using take_drop_sorted [OF sorted r(1)] in_set_takeD [of _ ?n xs] xs_set by (auto simp: list_all_iff)
  moreover have "r \<in> set xs" using r(1) in_set_dropD by fast
  ultimately show ?thesis using r(2) dist len xs_set by (intro conjI exI [of _ "take ?n xs"]) auto
qed

definition kept_set :: "string \<Rightarrow> int \<Rightarrow> snapshot_set" where
  "kept_set i t = \<lparr>ss_id = i, ss_deployment = ''d1'', ss_project_sha = ''c'', ss_host = ''h'', ss_target_digest = ''t'',
     ss_name = ''n'', ss_description = ''d'', ss_native_name = ''n'', ss_state = ''complete'', ss_members = [], ss_created = t\<rparr>"

lemma retention_keeps_newest_witness:
  "\<exists>kept. int (length kept) = 1 \<and> distinct (kept_set ''a'' 0 # kept)
     \<and> list_all (\<lambda>s. s \<in> set [kept_set ''a'' 0, kept_set ''b'' 5] \<and> ss_deployment s = ''d1'' \<and> ss_state s = ''complete''
          \<and> (0, ''a'') \<le> (ss_created s, ss_id s)) kept"
proof -
  let ?db = "one_operation_store\<lparr>st_sets := [kept_set ''a'' 0, kept_set ''b'' 5]\<rparr>"
  have "retention_candidates (2 * 24 * 60 * minute) \<lparr>rp_keep_count = 1, rp_keep_days = 1\<rparr> ''d1'' ?db = Inr [kept_set ''a'' 0]"
    by (simp add: retention_candidates_def newest_first_def kept_set_def one_operation_store_def minute_def second_def Let_def)
  from retention_keeps_newest [OF this] show ?thesis
    by (auto simp: kept_set_def one_operation_store_def)
qed

end
