(* ===== verification/Lifecycle.thy ===== *)
theory Lifecycle
  imports Snapshot_Sets
begin

text \<open>
  Deployments, attempts, locks and snapshot operations as one machine: a step is one committed
  transaction of any request or background task, in any order and at any time. The invariant
  \<open>sys_ok\<close> is that of the attempts (\<open>lifecycle_ok\<close>) together with the ownership of active
  snapshot operations: each keeps its attempt active and holds the lock of its deployment.

  Two guards of a step are the callers': a runner's lock is acquired for an attempt that is still
  active (the starting task is tracked, so nothing finishes it meanwhile), and completions are
  recorded for runner attempts only (\<open>reconcile_once\<close> leaves snapshot attempts to their journal).
\<close>

subsection \<open>Ownership of active operations\<close>

definition owned :: "store \<Rightarrow> snapshot_operation \<Rightarrow> bool" where
  "owned db opr =
     (\<exists>s\<in>set (st_sets db). \<exists>a\<in>set (st_attempts db). \<exists>l\<in>set (st_locks db).
        ss_id s = op_set_id opr \<and> op_attempt_id opr = Some (at_id a) \<and> at_scope a = ''snapshot_set''
        \<and> \<not> is_terminal (at_state a) \<and> at_deployment a = ss_deployment s
        \<and> lk_deployment l = ss_deployment s \<and> lk_owner l = attempt_owner (at_id a))"

definition journal_ok :: "store \<Rightarrow> bool" where
  "journal_ok db =
     (distinct (map ss_id (st_sets db)) \<and> distinct (map op_id (st_operations db))
      \<and> (\<forall>x\<in>set (st_operations db). \<forall>y\<in>set (st_operations db). \<forall>i.
            op_attempt_id x = Some i \<and> op_attempt_id y = Some i \<longrightarrow> x = y)
      \<and> (\<forall>x\<in>set (st_operations db). \<forall>i. op_attempt_id x = Some i \<longrightarrow> i \<in> at_id ` set (st_attempts db))
      \<and> (\<forall>x\<in>set (st_operations db). active_operation (op_state x) \<longrightarrow> owned db x))"

lemma journal_okI:
  assumes "distinct (map ss_id (st_sets db))" and "distinct (map op_id (st_operations db))"
    and "\<And>x y i. x \<in> set (st_operations db) \<Longrightarrow> y \<in> set (st_operations db) \<Longrightarrow>
           op_attempt_id x = Some i \<Longrightarrow> op_attempt_id y = Some i \<Longrightarrow> x = y"
    and "\<And>x i. x \<in> set (st_operations db) \<Longrightarrow> op_attempt_id x = Some i \<Longrightarrow> i \<in> at_id ` set (st_attempts db)"
    and "\<And>x. x \<in> set (st_operations db) \<Longrightarrow> active_operation (op_state x) \<Longrightarrow> owned db x"
  shows "journal_ok db"
  unfolding journal_ok_def using assms by blast

lemma journal_okD:
  assumes "journal_ok db"
  shows "distinct (map ss_id (st_sets db))" and "distinct (map op_id (st_operations db))"
    and "\<And>x y i. x \<in> set (st_operations db) \<Longrightarrow> y \<in> set (st_operations db) \<Longrightarrow>
           op_attempt_id x = Some i \<Longrightarrow> op_attempt_id y = Some i \<Longrightarrow> x = y"
    and "\<And>x i. x \<in> set (st_operations db) \<Longrightarrow> op_attempt_id x = Some i \<Longrightarrow> i \<in> at_id ` set (st_attempts db)"
    and "\<And>x. x \<in> set (st_operations db) \<Longrightarrow> active_operation (op_state x) \<Longrightarrow> owned db x"
  using assms unfolding journal_ok_def by blast+

lemma owned_mono:
  assumes "owned db x" and "set (st_sets db) \<subseteq> set (st_sets db')" and "set (st_attempts db) \<subseteq> set (st_attempts db')"
    and "set (st_locks db) \<subseteq> set (st_locks db')"
  shows "owned db' x"
  using assms unfolding owned_def by blast

definition named_pointers :: "store \<Rightarrow> bool" where
  "named_pointers db = (Some [] \<notin> dep_current ` set (st_deployments db))"

definition sys_ok :: "store \<Rightarrow> bool" where
  "sys_ok db = (lifecycle_ok db \<and> journal_ok db \<and> named_pointers db)"

lemma named_pointers_same: "st_deployments db' = st_deployments db \<Longrightarrow> named_pointers db' = named_pointers db"
  by (simp add: named_pointers_def)

lemma named_pointers_simps [simp]:
  "named_pointers (publish_state a s db) = named_pointers db"
  "named_pointers (on_attempts p f db) = named_pointers db"
  "named_pointers (drop_locks q db) = named_pointers db" "named_pointers (drop_lock d db) = named_pointers db"
  "named_pointers (add_lock l db) = named_pointers db" "named_pointers (with_attempt r db) = named_pointers db"
  "named_pointers (snd (heartbeat now d owner db)) = named_pointers db"
  "named_pointers (snd (release_lock d owner db)) = named_pointers db"
  "named_pointers (advance_attempt_cursor i tip db) = named_pointers db"
  by (simp_all add: named_pointers_def publish_state_def update_rows_key_set drop_locks_def
      heartbeat_def release_lock_def advance_attempt_cursor_def)

lemma named_pointers_mark [simp]:
  "named_pointers (snd (mark_attempt_running now i pid dir db)) = named_pointers db"
  by (simp add: mark_attempt_running_def Let_def split: option.split)

lemma named_pointers_finish [simp]: "named_pointers (snd (finish_attempt now i args db)) = named_pointers db"
  by (simp add: finish_attempt_eq split: option.split)

lemma attempt_owner_inj [simp]: "attempt_owner i = attempt_owner j \<longleftrightarrow> i = j"
  by (simp add: attempt_owner_def)

lemma attempt_owner_parts [simp]:
  "prefix ''attempt-'' (attempt_owner i)" "drop 8 (attempt_owner i) = i"
  by (simp_all add: attempt_owner_def)

text \<open>The lock of an owned operation is never found abandoned.\<close>

lemma owned_not_abandoned:
  assumes get: "get_attempt db' (at_id a) = Some a" and ops: "st_operations db' = st_operations db"
    and j: "journal_ok db" and x: "x \<in> set (st_operations db)" and act: "active_operation (op_state x)"
    and i: "op_attempt_id x = Some (at_id a)" and sc: "at_scope a = ''snapshot_set''"
    and l: "lk_deployment l = at_deployment a" "lk_owner l = attempt_owner (at_id a)"
  shows "abandoned fs now db' l \<noteq> Inr True"
proof -
  have own: "owner_attempt db' l = Some a" by (simp add: owner_attempt_def l get)
  obtain y where y: "row_by op_attempt_id (Some (at_id a)) (st_operations db) = Some y"
    using x i row_by_None [of op_attempt_id "Some (at_id a)" "st_operations db"]
    by (cases "row_by op_attempt_id (Some (at_id a)) (st_operations db)") (auto simp: image_iff)
  then have "y = x" using row_by_Some [OF y] journal_okD(3) [OF j _ x _ i] by blast
  then have "runner_alive fs db' l = Inr True"
    using act by (simp add: runner_alive_def own sc y ops)
  then show ?thesis by (simp add: abandoned_True)
qed

lemma owned_lock_kept:
  assumes life: "lifecycle_ok db" and j: "journal_ok db" and x: "x \<in> set (st_operations db)"
    and act: "active_operation (op_state x)" and a: "a \<in> set (st_attempts db)"
    and i: "op_attempt_id x = Some (at_id a)" and sc: "at_scope a = ''snapshot_set''"
    and l: "lk_deployment l = at_deployment a" "lk_owner l = attempt_owner (at_id a)"
  shows "abandoned fs now db l \<noteq> Inr True"
  by (rule owned_not_abandoned [OF row_by_unique [OF lifecycle_okD(2) [OF life] a refl] refl j x act i sc l])

lemma sys_lock_kept:
  assumes ok: "sys_ok db" and x: "x \<in> set (st_operations db)" and act: "active_operation (op_state x)"
  obtains s a l where "s \<in> set (st_sets db)" and "a \<in> set (st_attempts db)" and "l \<in> set (st_locks db)"
    and "ss_id s = op_set_id x" and "op_attempt_id x = Some (at_id a)" and "at_scope a = ''snapshot_set''"
    and "\<not> is_terminal (at_state a)" and "at_deployment a = ss_deployment s" and "lk_deployment l = ss_deployment s"
    and "lk_owner l = attempt_owner (at_id a)" and "\<forall>fs now. abandoned fs now db l \<noteq> Inr True"
proof -
  have life: "lifecycle_ok db" and j: "journal_ok db" using ok by (simp_all add: sys_ok_def)
  have "owned db x" using j x act by (simp add: journal_ok_def)
  then obtain s a l where "s \<in> set (st_sets db)" "a \<in> set (st_attempts db)" "l \<in> set (st_locks db)"
     "ss_id s = op_set_id x" "op_attempt_id x = Some (at_id a)" "at_scope a = ''snapshot_set''"
     "\<not> is_terminal (at_state a)" "at_deployment a = ss_deployment s" "lk_deployment l = ss_deployment s"
     "lk_owner l = attempt_owner (at_id a)"
    unfolding owned_def by blast
  then show ?thesis using that owned_lock_kept [OF life j x act] by metis
qed

text \<open>
  How the other components change the store under an active operation: attempt rows may change as
  long as an active snapshot attempt keeps what makes it the owner, and locks may go as long as
  the owner's stays.
\<close>

lemma journal_ok_frame:
  assumes j: "journal_ok db" and same: "st_operations db' = st_operations db" "st_sets db' = st_sets db"
    and ids: "at_id ` set (st_attempts db) \<subseteq> at_id ` set (st_attempts db')"
    and kept: "\<And>x s a l. x \<in> set (st_operations db) \<Longrightarrow> active_operation (op_state x) \<Longrightarrow>
        s \<in> set (st_sets db) \<Longrightarrow> a \<in> set (st_attempts db) \<Longrightarrow> l \<in> set (st_locks db) \<Longrightarrow>
        op_attempt_id x = Some (at_id a) \<Longrightarrow>
        at_scope a = ''snapshot_set'' \<Longrightarrow> \<not> is_terminal (at_state a) \<Longrightarrow> at_deployment a = ss_deployment s \<Longrightarrow>
        lk_deployment l = ss_deployment s \<Longrightarrow> lk_owner l = attempt_owner (at_id a) \<Longrightarrow>
        (\<exists>b\<in>set (st_attempts db'). at_id b = at_id a \<and> at_scope b = ''snapshot_set''
            \<and> \<not> is_terminal (at_state b) \<and> at_deployment b = at_deployment a)
        \<and> (\<exists>k\<in>set (st_locks db'). lk_deployment k = lk_deployment l \<and> lk_owner k = lk_owner l)"
  shows "journal_ok db'"
proof -
  have "owned db' x" if x: "x \<in> set (st_operations db)" "active_operation (op_state x)" for x
  proof -
    have "owned db x" using j x by (simp add: journal_ok_def)
    then obtain s a l where o: "s \<in> set (st_sets db)" "a \<in> set (st_attempts db)" "l \<in> set (st_locks db)"
       "ss_id s = op_set_id x" "op_attempt_id x = Some (at_id a)" "at_scope a = ''snapshot_set''"
       "\<not> is_terminal (at_state a)" "at_deployment a = ss_deployment s" "lk_deployment l = ss_deployment s"
       "lk_owner l = attempt_owner (at_id a)"
      unfolding owned_def by blast
    from kept [OF x o(1,2,3,5-)] obtain b k where "b \<in> set (st_attempts db')" "at_id b = at_id a"
        "at_scope b = ''snapshot_set''" "\<not> is_terminal (at_state b)" "at_deployment b = at_deployment a"
        "k \<in> set (st_locks db')" "lk_deployment k = lk_deployment l" "lk_owner k = lk_owner l" by blast
    then show ?thesis using o same unfolding owned_def by metis
  qed
  then show ?thesis using j same ids by (auto simp: journal_ok_def)
qed

lemma journal_ok_attempts:
  assumes j: "journal_ok db"
    and f: "\<And>r. at_id (f r) = at_id r" "\<And>r. at_scope (f r) = at_scope r" "\<And>r. at_deployment (f r) = at_deployment r"
    and live: "\<And>r. r \<in> set (st_attempts db) \<Longrightarrow> p r \<Longrightarrow> at_scope r = ''snapshot_set'' \<Longrightarrow>
        \<not> is_terminal (at_state r) \<Longrightarrow> \<not> is_terminal (at_state (f r))"
  shows "journal_ok (on_attempts p f db)"
proof (rule journal_ok_frame [OF j])
  show "at_id ` set (st_attempts db) \<subseteq> at_id ` set (st_attempts (on_attempts p f db))"
    using update_rows_key_set [of at_id f p "st_attempts db"] f(1) by simp
  fix x s a l
  assume "a \<in> set (st_attempts db)" "at_scope a = ''snapshot_set''" "\<not> is_terminal (at_state a)"
    and l: "l \<in> set (st_locks db)"
  then have "(if p a then f a else a) \<in> set (st_attempts (on_attempts p f db))"
      "at_id (if p a then f a else a) = at_id a" "at_scope (if p a then f a else a) = ''snapshot_set''"
      "\<not> is_terminal (at_state (if p a then f a else a))" "at_deployment (if p a then f a else a) = at_deployment a"
    using f live by (auto simp: row_simps)
  then show "(\<exists>b\<in>set (st_attempts (on_attempts p f db)). at_id b = at_id a \<and> at_scope b = ''snapshot_set''
            \<and> \<not> is_terminal (at_state b) \<and> at_deployment b = at_deployment a)
        \<and> (\<exists>k\<in>set (st_locks (on_attempts p f db)). lk_deployment k = lk_deployment l \<and> lk_owner k = lk_owner l)"
    using l by auto
qed simp_all

lemma journal_ok_same:
  assumes "journal_ok db" and "st_operations db' = st_operations db" and "st_sets db' = st_sets db"
    and "st_attempts db' = st_attempts db" and "st_locks db' = st_locks db"
  shows "journal_ok db'"
  by (rule journal_ok_frame [OF assms(1-3)]) (use assms(4,5) in auto)

lemma journal_ok_publish: "journal_ok db \<Longrightarrow> journal_ok (publish_state a s db)"
  by (erule journal_ok_same) (simp_all add: publish_state_def)

lemma heartbeat_sys: "sys_ok db \<Longrightarrow> sys_ok (snd (heartbeat now d owner db))"
proof -
  assume ok: "sys_ok db"
  have "journal_ok (snd (heartbeat now d owner db))"
  proof (rule journal_ok_frame)
    show "journal_ok db" using ok by (simp add: sys_ok_def)
    fix x s a l assume a: "a \<in> set (st_attempts db)" "at_scope a = ''snapshot_set''" "\<not> is_terminal (at_state a)"
      and l: "l \<in> set (st_locks db)"
    have "\<exists>k\<in>set (st_locks (snd (heartbeat now d owner db))). lk_deployment k = lk_deployment l \<and> lk_owner k = lk_owner l"
      using l update_rows_mem [OF l, of "\<lambda>l. lk_deployment l = d" "\<lambda>l. l\<lparr>lk_heartbeat := now\<rparr>"]
      by (auto simp: heartbeat_def split: if_splits intro: bexI [rotated])
    then show "(\<exists>b\<in>set (st_attempts (snd (heartbeat now d owner db))). at_id b = at_id a \<and> at_scope b = ''snapshot_set''
            \<and> \<not> is_terminal (at_state b) \<and> at_deployment b = at_deployment a)
        \<and> (\<exists>k\<in>set (st_locks (snd (heartbeat now d owner db))). lk_deployment k = lk_deployment l \<and> lk_owner k = lk_owner l)"
      using a by (auto simp: heartbeat_def)
  qed (simp_all add: heartbeat_def)
  then show ?thesis using heartbeat_ok ok by (simp add: sys_ok_def)
qed

lemma advance_cursor_sys: "sys_ok db \<Longrightarrow> sys_ok (advance_attempt_cursor i tip db)"
proof -
  assume ok: "sys_ok db"
  have "journal_ok (advance_attempt_cursor i tip db)"
    unfolding advance_attempt_cursor_def by (rule journal_ok_attempts) (use ok in \<open>simp_all add: sys_ok_def\<close>)
  then show ?thesis using ok advance_cursor_ok by (simp add: sys_ok_def)
qed

lemma mark_running_sys:
  assumes ok: "sys_ok db" shows "sys_ok (snd (mark_attempt_running now i pid dir db))"
proof -
  let ?f = "\<lambda>a. a\<lparr>at_state := ''deploying'', at_pid := pid, at_artifact_dir := Some dir, at_started := Some now\<rparr>"
  have "journal_ok (on_attempts (may_start i) ?f db)"
    using ok by (auto simp: sys_ok_def intro!: journal_ok_attempts)
  then have "journal_ok (snd (mark_attempt_running now i pid dir db))"
    using ok journal_ok_publish by (auto simp: mark_attempt_running_def Let_def sys_ok_def split: option.split)
  then show ?thesis using ok mark_running_ok by (simp add: sys_ok_def)
qed

lemma cancel_sys:
  assumes ok: "sys_ok db" and c: "cancel_current_attempt fs kill tracked d db = Inr (a, db')"
  shows "sys_ok db'"
proof -
  obtain i where "db' = on_attempts (\<lambda>r. at_id r = i) (\<lambda>r. r\<lparr>at_sub_reason := Some ''cancel_requested''\<rparr>) db"
    using cancel_rows [OF c] by metis
  then have "journal_ok db'" using ok by (auto simp: sys_ok_def intro!: journal_ok_attempts)
  moreover have "named_pointers db' = named_pointers db"
    using \<open>db' = _\<close> by simp
  ultimately show ?thesis using ok cancel_ok [OF _ c] by (simp add: sys_ok_def)
qed

text \<open>Locks are dropped; those of active operations are not among them.\<close>

lemma journal_ok_drop:
  assumes j: "journal_ok db"
    and q: "\<And>x a l. x \<in> set (st_operations db) \<Longrightarrow> active_operation (op_state x) \<Longrightarrow> a \<in> set (st_attempts db) \<Longrightarrow>
        l \<in> set (st_locks db) \<Longrightarrow> op_attempt_id x = Some (at_id a) \<Longrightarrow> at_scope a = ''snapshot_set'' \<Longrightarrow>
        lk_deployment l = at_deployment a \<Longrightarrow> lk_owner l = attempt_owner (at_id a) \<Longrightarrow> \<not> q l"
  shows "journal_ok (drop_locks q db)"
proof (rule journal_ok_frame [OF j])
  fix x s a l
  assume "x \<in> set (st_operations db)" "active_operation (op_state x)" "a \<in> set (st_attempts db)"
    "l \<in> set (st_locks db)" "op_attempt_id x = Some (at_id a)" "at_scope a = ''snapshot_set''"
    "at_deployment a = ss_deployment s" "lk_deployment l = ss_deployment s" "lk_owner l = attempt_owner (at_id a)"
    "\<not> is_terminal (at_state a)"
  moreover from this have "\<not> q l" using q by simp
  ultimately show "(\<exists>b\<in>set (st_attempts (drop_locks q db)). at_id b = at_id a \<and> at_scope b = ''snapshot_set''
            \<and> \<not> is_terminal (at_state b) \<and> at_deployment b = at_deployment a)
        \<and> (\<exists>k\<in>set (st_locks (drop_locks q db)). lk_deployment k = lk_deployment l \<and> lk_owner k = lk_owner l)"
    by (auto simp: drop_locks_def)
qed (simp_all add: drop_locks_def)

lemma finish_sys:
  assumes ok: "sys_ok db" and runner: "\<forall>a\<in>set (st_attempts db). at_id a = i \<longrightarrow> at_scope a \<noteq> ''snapshot_set''"
  shows "sys_ok (snd (finish_attempt now i args db))"
proof (cases "get_attempt db i")
  case None
  then show ?thesis using ok by (simp add: finish_attempt_eq)
next
  case (Some a)
  have life: "lifecycle_ok db" and j: "journal_ok db" using ok by (simp_all add: sys_ok_def)
  let ?db = "publish_state a (at_state (finished now args a)) (on_attempts (\<lambda>r. at_id r = i) (finished now args) db)"
  have scope: "at_scope (finished now args r) = at_scope r" for r
    by (simp add: finished_def late_cursor_def late_rc_def conclude_def split: option.split)
  have j1: "journal_ok ?db"
    by (rule journal_ok_publish, rule journal_ok_attempts [OF j]) (use scope runner in auto)
  have "journal_ok (snd (release_lock (at_deployment a) (attempt_owner i) ?db))"
  proof (cases "owns_lock ?db (at_deployment a) (attempt_owner i)")
    case True
    have keys: "lock_keys ?db" using lifecycle_okD(3) [OF life] by (simp add: lock_keys_def publish_state_def)
    have "journal_ok (drop_locks (\<lambda>l. lk_deployment l = at_deployment a) ?db)"
    proof (rule journal_ok_drop [OF j1])
      fix x b l
      assume b: "b \<in> set (st_attempts ?db)" "at_scope b = ''snapshot_set''" and l: "l \<in> set (st_locks ?db)"
        "lk_deployment l = at_deployment b" "lk_owner l = attempt_owner (at_id b)"
      from b(1) obtain r where r: "r \<in> set (st_attempts db)" "b = (if at_id r = i then finished now args r else r)"
        by (auto simp: publish_state_def set_update_rows)
      then have "at_id b \<noteq> i" using b(2) runner scope by (auto split: if_splits)
      then show "lk_deployment l \<noteq> at_deployment a"
        using True l row_by_unique [OF keys [unfolded lock_keys_def] l(1)]
        by (auto simp: owns_lock_def split: option.splits)
    qed
    then show ?thesis using True by (simp add: release_lock_def drop_lock_locks)
  qed (use j1 in \<open>simp add: release_lock_def\<close>)
  moreover have "lifecycle_ok (snd (finish_attempt now i args db))" by (rule finish_ok [OF life])
  ultimately show ?thesis using ok by (simp add: sys_ok_def finish_attempt_eq Some)
qed

lemma cleanup_sys:
  assumes ok: "sys_ok db" and c: "cleanup_stale_locks fs now only db = Inr (n, db')"
  shows "sys_ok db'"
proof -
  have life: "lifecycle_ok db" and j: "journal_ok db" using ok by (simp_all add: sys_ok_def)
  have "journal_ok db'"
    unfolding cleanupD [OF c lifecycle_okD(3) [OF life]]
    by (rule journal_ok_drop [OF j]) (use owned_lock_kept [OF life j] in auto)
  moreover have "named_pointers db' = named_pointers db"
    using cleanupD [OF c lifecycle_okD(3) [OF life]] by simp
  ultimately show ?thesis using cleanup_ok [OF life c] ok by (simp add: sys_ok_def)
qed

lemma journal_ok_add_lock: "journal_ok db \<Longrightarrow> journal_ok (add_lock l db)"
  by (erule journal_ok_frame) (auto simp: add_lock_def)

lemma acquire_journal:
  assumes ok: "sys_ok db" and acq: "acquire_lock fs now d owner n db = Inr db'"
  shows "journal_ok db'"
proof -
  have life: "lifecycle_ok db" and j: "journal_ok db" using ok by (simp_all add: sys_ok_def)
  from acquire_lockD [OF acq] obtain l where
    "db' = add_lock l db \<or> (\<exists>k. get_lock db d = Some k \<and> is_stale now k \<and> runner_alive fs db k = Inr False
        \<and> db' = add_lock l (drop_lock d db))" by blast
  then show ?thesis
  proof
    assume "db' = add_lock l db"
    then show ?thesis using journal_ok_add_lock [OF j] by simp
  next
    assume "\<exists>k. get_lock db d = Some k \<and> is_stale now k \<and> runner_alive fs db k = Inr False
        \<and> db' = add_lock l (drop_lock d db)"
    then obtain k where k: "get_lock db d = Some k" "abandoned fs now db k = Inr True"
      and db': "db' = add_lock l (drop_lock d db)" by (auto simp: abandoned_True)
    have "journal_ok (drop_lock d db)"
      unfolding drop_lock_locks
    proof (rule journal_ok_drop [OF j])
      fix x a m
      assume x: "x \<in> set (st_operations db)" "active_operation (op_state x)" "a \<in> set (st_attempts db)"
        and m: "m \<in> set (st_locks db)" and o: "op_attempt_id x = Some (at_id a)" "at_scope a = ''snapshot_set''"
          "lk_deployment m = at_deployment a" "lk_owner m = attempt_owner (at_id a)"
      show "lk_deployment m \<noteq> d"
      proof
        assume "lk_deployment m = d"
        then have "m = k"
          using row_by_unique [OF lifecycle_okD(3) [OF life, unfolded lock_keys_def] m] k(1) by simp
        then show False using owned_lock_kept [OF life j x o] k(2) by simp
      qed
    qed
    then show ?thesis using db' journal_ok_add_lock by simp
  qed
qed

lemma acquire_sys:
  assumes ok: "sys_ok db" and a: "a \<in> set (st_attempts db)" "\<not> is_terminal (at_state a)"
    and acq: "acquire_lock fs now (at_deployment a) (attempt_owner (at_id a)) n db = Inr db'"
  shows "sys_ok db'"
proof -
  have "named_pointers db' = named_pointers db"
    using acquire_lockD [OF acq] by auto
  then show ?thesis
    using acquire_ok [OF _ a acq] acquire_journal [OF ok acq] ok by (simp add: sys_ok_def)
qed

text \<open>A new attempt row keeps the lookups of the old ones.\<close>

lemma journal_ok_with_attempt: "journal_ok db \<Longrightarrow> journal_ok (with_attempt a db)"
  by (erule journal_ok_frame) auto

lemma get_with_attempt:
  "lifecycle_ok db \<Longrightarrow> a \<in> set (st_attempts db) \<Longrightarrow> get_attempt (with_attempt row db) (at_id a) = Some a"
  by (simp add: row_by_append row_by_unique [OF lifecycle_okD(2)])

lemma reserve_sys:
  assumes ok: "sys_ok db" and fresh: "i \<notin> at_id ` set (st_attempts db)"
    and r: "reserve_attempt fs resolve now i d p operation legacy db = Inr (row, db')"
    and named: "i \<noteq> []"
  shows "sys_ok db'"
proof -
  have life: "lifecycle_ok db" and j: "journal_ok db" using ok by (simp_all add: sys_ok_def)
  obtain dep where "dep \<in> set (st_deployments db)" "dep_id dep = d"
    and "row = new_attempt now i dep (if operation \<noteq> None then ''runtime'' else pa_scope p) p operation legacy"
    and "check_reservable dep (if operation \<noteq> None then ''runtime'' else pa_scope p) p (legacy \<noteq> None) = Inr ()"
    and "\<not> active_attempt (with_attempt row db) dep"
    and "\<forall>l\<in>set (st_locks db). lk_deployment l = d \<longrightarrow> swept fs now d (with_attempt row db) l"
    and db': "db' = on_deployments (\<lambda>r. dep_id r = d) (\<lambda>r. r\<lparr>dep_current := Some i, dep_state := ''pending''\<rparr>)
                 (drop_locks (swept fs now d (with_attempt row db)) (with_attempt row db))"
    by (rule reserve_attempt_rows [OF life r])
  have kept: "\<not> swept fs now d (with_attempt row db) l"
    if x: "x \<in> set (st_operations db)" "active_operation (op_state x)"
      and a: "a \<in> set (st_attempts (with_attempt row db))" "op_attempt_id x = Some (at_id a)" "at_scope a = ''snapshot_set''"
      and l: "lk_deployment l = at_deployment a" "lk_owner l = attempt_owner (at_id a)" for x a l
  proof -
    have "at_id a \<in> at_id ` set (st_attempts db)" using j x(1) a(2) by (simp add: journal_ok_def)
    moreover have "at_id row = i"
      using \<open>row = _\<close> by (simp add: new_attempt_def)
    ultimately have "a \<in> set (st_attempts db)" using a(1) fresh by auto
    from owned_not_abandoned [OF get_with_attempt [OF life this] _ j x a(2,3) l] show ?thesis
      by (auto simp: swept_def)
  qed
  have "journal_ok (drop_locks (swept fs now d (with_attempt row db)) (with_attempt row db))"
    by (rule journal_ok_drop [OF journal_ok_with_attempt [OF j]]) (use kept in auto)
  then have "journal_ok db'"
    unfolding db' by (rule journal_ok_same) simp_all
  moreover have "named_pointers db'"
    using ok named by (auto simp: db' sys_ok_def named_pointers_def set_update_rows drop_locks_def)
  ultimately show ?thesis using reserve_attempt_ok [OF life fresh r] by (simp add: sys_ok_def)
qed

subsection \<open>Snapshot operations\<close>

text \<open>
  Rewriting the journal and the sets: identities stay, nothing becomes active, and an operation
  that stays active keeps its attempt.
\<close>

lemma journal_ok_rewrite:
  assumes j: "journal_ok db"
    and ops: "st_operations db' = map g (st_operations db)" and sets: "st_sets db' = map h (st_sets db)"
    and same: "st_attempts db' = st_attempts db" "st_locks db' = st_locks db"
    and g: "\<And>x. op_id (g x) = op_id x" "\<And>x. op_set_id (g x) = op_set_id x"
      "\<And>x. x \<in> set (st_operations db) \<Longrightarrow> op_attempt_id (g x) = op_attempt_id x"
      "\<And>x. x \<in> set (st_operations db) \<Longrightarrow> active_operation (op_state (g x)) \<Longrightarrow> active_operation (op_state x)"
    and h: "\<And>s. ss_id (h s) = ss_id s" "\<And>s. s \<in> set (st_sets db) \<Longrightarrow> ss_deployment (h s) = ss_deployment s"
  shows "journal_ok db'"
proof -
  have "owned db' (g x)" if x: "x \<in> set (st_operations db)" "active_operation (op_state (g x))" for x
  proof -
    have "owned db x" using j x g(4) by (simp add: journal_ok_def)
    then show ?thesis unfolding owned_def using g(2) g(3) [OF x(1)] h by (auto simp: sets same)
  qed
  note own = this
  show ?thesis
  proof (rule journal_okI)
    show "distinct (map ss_id (st_sets db'))" using journal_okD(1) [OF j] h(1) by (simp add: sets comp_def)
    show "distinct (map op_id (st_operations db'))" using journal_okD(2) [OF j] g(1) by (simp add: ops comp_def)
  next
    fix u v i assume "u \<in> set (st_operations db')" "v \<in> set (st_operations db')"
      and i: "op_attempt_id u = Some i" "op_attempt_id v = Some i"
    then obtain x y where "x \<in> set (st_operations db)" "y \<in> set (st_operations db)" "u = g x" "v = g y"
      unfolding ops set_map by blast
    moreover from this have "x = y" using journal_okD(3) [OF j, of x y i] g(3) i by simp
    ultimately show "u = v" by simp
  next
    fix u i assume "u \<in> set (st_operations db')" and i: "op_attempt_id u = Some i"
    then obtain x where "x \<in> set (st_operations db)" "u = g x" unfolding ops set_map by blast
    then show "i \<in> at_id ` set (st_attempts db')"
      unfolding same using journal_okD(4) [OF j, of x i] g(3) i by simp
  next
    fix u assume "u \<in> set (st_operations db')" and act: "active_operation (op_state u)"
    then obtain x where "x \<in> set (st_operations db)" "u = g x" unfolding ops set_map by blast
    then show "owned db' u" using own act by simp
  qed
qed

lemma sys_ok_rewrite:
  assumes ok: "sys_ok db"
    and ops: "st_operations db' = map g (st_operations db)" and sets: "st_sets db' = map h (st_sets db)"
    and same: "st_attempts db' = st_attempts db" "st_locks db' = st_locks db" "st_deployments db' = st_deployments db"
    and g: "\<And>x. op_id (g x) = op_id x" "\<And>x. op_set_id (g x) = op_set_id x"
      "\<And>x. x \<in> set (st_operations db) \<Longrightarrow> op_attempt_id (g x) = op_attempt_id x"
      "\<And>x. x \<in> set (st_operations db) \<Longrightarrow> active_operation (op_state (g x)) \<Longrightarrow> active_operation (op_state x)"
    and h: "\<And>s. ss_id (h s) = ss_id s" "\<And>s. s \<in> set (st_sets db) \<Longrightarrow> ss_deployment (h s) = ss_deployment s"
  shows "sys_ok db'"
proof -
  have "lifecycle_ok db'"
    by (rule lifecycle_ok_locks [of db])
       (use ok same lifecycle_okD [of db] in \<open>auto simp: sys_ok_def lock_keys_def lock_exclusive_def\<close>)
  then show ?thesis
    using journal_ok_rewrite [OF _ ops sets same(1,2) g h] ok named_pointers_same [OF same(3)]
    by (simp add: sys_ok_def)
qed

lemma sys_ok_add_plan:
  assumes ok: "sys_ok db" and fresh: "op_id x \<notin> op_id ` set (st_operations db)"
    and x: "op_attempt_id x = None" "\<not> active_operation (op_state x)"
    and sets: "st_sets db' = st_sets db @ ss" "distinct (map ss_id (st_sets db'))"
    and rest: "st_operations db' = st_operations db @ [x]" "st_attempts db' = st_attempts db"
      "st_locks db' = st_locks db" "st_deployments db' = st_deployments db"
  shows "sys_ok db'"
proof -
  have life: "lifecycle_ok db'"
    by (rule lifecycle_ok_locks [of db])
       (use ok rest lifecycle_okD [of db] in \<open>auto simp: sys_ok_def lock_keys_def lock_exclusive_def\<close>)
  have j: "journal_ok db" using ok by (simp add: sys_ok_def)
  have "owned db' y" if "y \<in> set (st_operations db)" "active_operation (op_state y)" for y
    by (rule owned_mono [OF journal_okD(5) [OF j that]]) (use sets(1) rest in auto)
  then have "journal_ok db'"
    using journal_okD(2-4) [OF j] fresh x sets(2)
    by (intro journal_okI) (auto simp: rest)
  then show ?thesis using life ok named_pointers_same [OF rest(4)] by (simp add: sys_ok_def)
qed

lemma new_operation_simps [simp]:
  "op_id (new_operation hs now i s k ms ps r) = i" "op_attempt_id (new_operation hs now i s k ms ps r) = None"
  "op_state (new_operation hs now i s k ms ps r) = ''planned''"
  by (simp_all add: new_operation_def Let_def)

lemma active_operation_eval [simp]:
  "active_operation ''running''" "active_operation ''needs_review''" "\<not> active_operation ''planned''"
  "\<not> active_operation ''cancelled''" "\<not> active_operation ''superseded''" "\<not> active_operation ''succeeded''"
  "\<not> active_operation ''partial''" "\<not> active_operation ''failed''"
  by (simp_all add: active_operation_def)

lemma plan_create_sys:
  assumes ok: "sys_ok db'" and p: "plan_create hs get prepare now d q db db' = Inr db''"
    and fresh: "pq_set_id q \<notin> ss_id ` set (st_sets db')" "pq_operation_id q \<notin> op_id ` set (st_operations db')"
  shows "sys_ok db''"
proof -
  obtain x s where db'': "db'' = add_operation x (db'\<lparr>st_sets := st_sets db' @ [s]\<rparr>)"
    and x: "op_id x = pq_operation_id q" "op_attempt_id x = None" "op_state x = ''planned''" and s: "ss_id s = pq_set_id q"
    using p by (auto simp: plan_create_def bindE_Inr Let_def split: if_splits prod.splits)
  show ?thesis
    by (rule sys_ok_add_plan [OF ok, of x _ "[s]"])
       (use fresh x s ok in \<open>auto simp: db'' add_operation_def sys_ok_def journal_ok_def\<close>)
qed

lemma plan_existing_sys:
  assumes ok: "sys_ok db" and p: "plan_existing hs get policy now i d sid kind retention db = Inr db'"
    and fresh: "i \<notin> op_id ` set (st_operations db)"
  shows "sys_ok db'"
proof -
  obtain x where db': "db' = add_operation x db" and x: "op_id x = i" "op_attempt_id x = None" "op_state x = ''planned''"
    using p by (auto simp: plan_existing_def bindE_Inr Let_def split: if_splits prod.splits)
  show ?thesis
    by (rule sys_ok_add_plan [OF ok, of x _ "[]"])
       (use fresh x ok in \<open>auto simp: db' add_operation_def sys_ok_def journal_ok_def\<close>)
qed

lemma cancel_plan_sys:
  assumes ok: "sys_ok db" and c: "cancel_plan d sid oid db = Inr db'"
  shows "sys_ok db'"
proof -
  have db': "db' = db\<lparr>st_operations := update_rows (\<lambda>r. op_id r = oid) (\<lambda>r. r\<lparr>op_state := ''cancelled''\<rparr>) (st_operations db)\<rparr>"
    using c by (auto simp: cancel_plan_def bindE_Inr split: option.splits if_splits)
  show ?thesis
    by (rule sys_ok_rewrite [OF ok, where g = "\<lambda>r. if op_id r = oid then r\<lparr>op_state := ''cancelled''\<rparr> else r"
          and h = "\<lambda>s. s"]) (auto simp: db' update_rows_def split: if_splits)
qed

text \<open>
  A journal entry of a running operation, as the executor commits it: the members' rows and, when
  a dispatch was not confirmed, the state of the operation and its set.
\<close>

definition journal_entry :: "snapshot_operation \<Rightarrow> snapshot_operation \<Rightarrow> bool" where
  "journal_entry x y =
     (active_operation (op_state x) \<and> active_operation (op_state y)
      \<and> (\<exists>ms st. y = x\<lparr>op_members := ms, op_state := st\<rparr>))"

lemma journal_entry_same:
  assumes "journal_entry x y"
  shows "op_id y = op_id x" "op_set_id y = op_set_id x" "op_attempt_id y = op_attempt_id x"
    "active_operation (op_state x)" "active_operation (op_state y)"
  using assms by (auto simp: journal_entry_def)

lemma put_operation_sys:
  assumes ok: "sys_ok db" and x: "x \<in> set (st_operations db)" and y: "journal_entry x y"
  shows "sys_ok (put_operation y db)"
proof -
  have j: "journal_ok db" using ok by (simp add: sys_ok_def)
  note same = journal_entry_same [OF y]
  have only: "r = x" if "r \<in> set (st_operations db)" "op_id r = op_id y" for r
    using unique_by [OF journal_okD(2) [OF j] that(1) x] that(2) same(1) by simp
  show ?thesis
  proof (rule sys_ok_rewrite [OF ok, where g = "\<lambda>r. if op_id r = op_id y \<and> op_set_id r = op_set_id y then y else r"
        and h = "\<lambda>s. s"])
    show "st_operations (put_operation y db)
        = map (\<lambda>r. if op_id r = op_id y \<and> op_set_id r = op_set_id y then y else r) (st_operations db)"
      using only same by (auto simp: put_operation_def update_rows_def)
  qed (use only same in \<open>auto simp: put_operation_def split: if_splits\<close>)
qed

lemma put_set_sys:
  assumes ok: "sys_ok db" and s: "s \<in> set (st_sets db)"
    and t: "ss_id t = ss_id s" "ss_deployment t = ss_deployment s"
  shows "sys_ok (put_set t db)"
proof -
  have only: "r = s" if "r \<in> set (st_sets db)" "ss_id r = ss_id t" for r
    using unique_by [of ss_id "st_sets db" r s] that s t ok by (simp add: sys_ok_def journal_ok_def)
  show ?thesis
    by (rule sys_ok_rewrite [OF ok, where g = "\<lambda>x. x" and h = "\<lambda>r. if ss_id r = ss_id t then t else r"])
       (use only t in \<open>auto simp: put_set_def update_rows_def\<close>)
qed

text \<open>Closing an operation: its attempt ends and its lock goes, both of its own deployment.\<close>

lemma publish_state_as:
  "at_deployment a = d \<Longrightarrow> publish_state (a\<lparr>at_deployment := d\<rparr>) s db = publish_state a s db"
  by (simp add: publish_state_def)

lemma outcome_terminal [simp]: "is_terminal (outcome_of rows)" "\<not> active_operation (outcome_of rows)"
  by (simp_all add: outcome_of_def)

lemma close_attempt_simps [simp]:
  "at_id (close_attempt now s x out a) = at_id a" "at_deployment (close_attempt now s x out a) = at_deployment a"
  "at_state (close_attempt now s x out a) = out" "at_scope (close_attempt now s x out a) = at_scope a"
  by (simp_all add: close_attempt_def)

lemma close_operationD:
  assumes c: "close_operation now s y db = Inr db'"
  obtains ms a where "(case op_attempt_id y of None \<Rightarrow> None | Some i \<Rightarrow> get_attempt db i) = Some a"
    and "db' = snd (release_lock (ss_deployment s) (attempt_owner (at_id a))
          (publish_state (a\<lparr>at_deployment := ss_deployment s\<rparr>) (outcome_of (op_members y))
            (on_attempts (\<lambda>r. at_id r = at_id a) (close_attempt now s y (outcome_of (op_members y)))
              (put_set (s\<lparr>ss_state := set_outcome (op_kind y) (outcome_of (op_members y)), ss_members := ms\<rparr>)
                (put_operation (y\<lparr>op_state := outcome_of (op_members y)\<rparr>) db)))))"
proof -
  obtain ms where ms: "(if op_kind y = ''create'' then merge_rows (op_members y) (ss_members s) else Inr (ss_members s)) = Inr ms"
    using c by (auto simp: close_operation_def bindE_Inr Let_def)
  obtain a where a: "(case op_attempt_id y of None \<Rightarrow> None | Some i \<Rightarrow> get_attempt db i) = Some a"
    using c ms by (auto simp: close_operation_def bindE_Inr Let_def of_opt_Inr)
  show ?thesis
    using that [OF a, of ms] c unfolding close_operation_def Let_def ms bindE_simps a of_opt_simps
    by (simp only: sum.inject)
qed

text \<open>The attempt of an active operation is that of its set's deployment, and has not ended.\<close>

lemma active_attempt_of:
  assumes ok: "sys_ok db" and x: "x \<in> set (st_operations db)" and y: "journal_entry x y"
    and s: "s \<in> set (st_sets db)" "ss_id s = op_set_id x"
    and a: "(case op_attempt_id y of None \<Rightarrow> None | Some i \<Rightarrow> get_attempt db i) = Some a"
  shows "op_attempt_id x = Some (at_id a)" "a \<in> set (st_attempts db)" "at_deployment a = ss_deployment s"
    "\<not> is_terminal (at_state a)"
proof -
  have life: "lifecycle_ok db" and j: "journal_ok db" using ok by (simp_all add: sys_ok_def)
  note same = journal_entry_same [OF y]
  show att: "op_attempt_id x = Some (at_id a)" "a \<in> set (st_attempts db)"
    using a same(3) row_by_Some [of at_id _ "st_attempts db" a] by (auto split: option.splits)
  have "owned db x" by (rule journal_okD(5) [OF j x same(4)])
  then obtain s' a' where o: "s' \<in> set (st_sets db)" "a' \<in> set (st_attempts db)" "ss_id s' = op_set_id x"
      "op_attempt_id x = Some (at_id a')" "\<not> is_terminal (at_state a')" "at_deployment a' = ss_deployment s'"
    unfolding owned_def by blast
  have "s' = s" using unique_by [OF journal_okD(1) [OF j] o(1) s(1)] o(3) s(2) by simp
  moreover have "a' = a" using unique_by [OF lifecycle_okD(2) [OF life] o(2) att(2)] o(4) att(1) by simp
  ultimately show "at_deployment a = ss_deployment s" "\<not> is_terminal (at_state a)" using o(5,6) by simp_all
qed

lemma close_operation_sys:
  assumes ok: "sys_ok db" and x: "x \<in> set (st_operations db)" and y: "journal_entry x y"
    and s: "s \<in> set (st_sets db)" "ss_id s = op_set_id x" and c: "close_operation now s y db = Inr db'"
  shows "sys_ok db'"
proof -
  have life: "lifecycle_ok db" and j: "journal_ok db" using ok by (simp_all add: sys_ok_def)
  note same = journal_entry_same [OF y]
  let ?out = "outcome_of (op_members y)"
  obtain ms a where a: "(case op_attempt_id y of None \<Rightarrow> None | Some i \<Rightarrow> get_attempt db i) = Some a"
    and db': "db' = snd (release_lock (ss_deployment s) (attempt_owner (at_id a))
          (publish_state (a\<lparr>at_deployment := ss_deployment s\<rparr>) ?out
            (on_attempts (\<lambda>r. at_id r = at_id a) (close_attempt now s y ?out)
              (put_set (s\<lparr>ss_state := set_outcome (op_kind y) ?out, ss_members := ms\<rparr>)
                (put_operation (y\<lparr>op_state := ?out\<rparr>) db)))))"
    by (rule close_operationD [OF c])
  note att = active_attempt_of [OF ok x y s a]
  note dep = att(3)
  let ?db1 = "put_set (s\<lparr>ss_state := set_outcome (op_kind y) ?out, ss_members := ms\<rparr>)
                (put_operation (y\<lparr>op_state := ?out\<rparr>) db)"
  let ?db2 = "publish_state a ?out (on_attempts (\<lambda>r. at_id r = at_id a) (close_attempt now s y ?out) ?db1)"
  have only_s: "r = s" if "r \<in> set (st_sets db)" "ss_id r = ss_id s" for r
    by (rule unique_by [OF journal_okD(1) [OF j] that(1) s(1) that(2)])
  have only_x: "r = x" if "r \<in> set (st_operations db)" "op_id r = op_id y" for r
    using unique_by [OF journal_okD(2) [OF j] that(1) x] that(2) same(1) by simp
  have rows: "st_attempts ?db1 = st_attempts db" "st_locks ?db1 = st_locks db" "st_deployments ?db1 = st_deployments db"
    by (simp_all add: put_set_def put_operation_def)
  have life1: "lifecycle_ok ?db1"
    by (rule lifecycle_ok_locks [OF life])
       (use lifecycle_okD(3,6) [OF life] in \<open>simp_all add: rows lock_keys_def lock_exclusive_def\<close>)
  have life2: "lifecycle_ok ?db2"
    by (rule lifecycle_ok_publish [OF life1]) (use att(2) in \<open>simp_all add: rows\<close>)
  have j1: "journal_ok ?db1"
  proof (rule journal_ok_rewrite [OF j, where g = "\<lambda>r. if op_id r = op_id y \<and> op_set_id r = op_set_id y
          then y\<lparr>op_state := ?out\<rparr> else r"
        and h = "\<lambda>r. if ss_id r = ss_id s then s\<lparr>ss_state := set_outcome (op_kind y) ?out, ss_members := ms\<rparr> else r"])
    show "st_operations ?db1 = map (\<lambda>r. if op_id r = op_id y \<and> op_set_id r = op_set_id y
          then y\<lparr>op_state := ?out\<rparr> else r) (st_operations db)"
      using only_x same by (auto simp: put_operation_def put_set_def update_rows_def)
  qed (use only_x only_s same in \<open>auto simp: put_operation_def put_set_def update_rows_def split: if_splits\<close>)
  have other: "op_attempt_id z \<noteq> Some (at_id a)" if z: "z \<in> set (st_operations ?db1)" "active_operation (op_state z)" for z
  proof
    assume zi: "op_attempt_id z = Some (at_id a)"
    have "y\<lparr>op_state := ?out\<rparr> \<in> set (st_operations ?db1)"
      using x same(1) by (auto simp: put_operation_def put_set_def set_update_rows intro!: image_eqI [of _ _ x])
    then have "z = y\<lparr>op_state := ?out\<rparr>"
      using journal_okD(3) [OF j1 z(1) _ zi] att(1) same(3) by simp
    then show False using z(2) by simp
  qed
  have j2: "journal_ok ?db2"
  proof (rule journal_ok_frame [OF j1])
    show "at_id ` set (st_attempts ?db1) \<subseteq> at_id ` set (st_attempts ?db2)"
      by (simp add: publish_state_def update_rows_key_set)
    fix z t b l
    assume z: "z \<in> set (st_operations ?db1)" "active_operation (op_state z)" "b \<in> set (st_attempts ?db1)"
      "l \<in> set (st_locks ?db1)" "op_attempt_id z = Some (at_id b)" "at_scope b = ''snapshot_set''"
      "\<not> is_terminal (at_state b)"
    then have "b \<in> set (st_attempts ?db2)"
      using other [OF z(1,2)] by (auto simp: publish_state_def set_update_rows)
    then show "(\<exists>c\<in>set (st_attempts ?db2). at_id c = at_id b \<and> at_scope c = ''snapshot_set''
            \<and> \<not> is_terminal (at_state c) \<and> at_deployment c = at_deployment b)
        \<and> (\<exists>k\<in>set (st_locks ?db2). lk_deployment k = lk_deployment l \<and> lk_owner k = lk_owner l)"
      using z by (auto simp: publish_state_def)
  qed (simp_all add: publish_state_def)
  have db'2: "db' = snd (release_lock (ss_deployment s) (attempt_owner (at_id a)) ?db2)"
    unfolding db' publish_state_as [OF dep] ..
  have "journal_ok db'"
  proof (cases "owns_lock ?db2 (ss_deployment s) (attempt_owner (at_id a))")
    case True
    have keys: "distinct (map lk_deployment (st_locks ?db2))"
      using lifecycle_okD(3) [OF life2] by (simp add: lock_keys_def)
    have "journal_ok (drop_locks (\<lambda>l. lk_deployment l = ss_deployment s) ?db2)"
    proof (rule journal_ok_drop [OF j2])
      fix z b l
      assume z: "z \<in> set (st_operations ?db2)" "active_operation (op_state z)"
        "op_attempt_id z = Some (at_id b)" and l: "l \<in> set (st_locks ?db2)" "lk_owner l = attempt_owner (at_id b)"
      have "at_id b \<noteq> at_id a" using other [of z] z by (auto simp: publish_state_def)
      then show "lk_deployment l \<noteq> ss_deployment s"
        using True l(2) row_by_unique [OF keys l(1)] by (auto simp: owns_lock_def split: option.splits)
    qed
    then show ?thesis using True by (simp add: db'2 release_lock_def drop_lock_locks)
  qed (use j2 in \<open>simp add: db'2 release_lock_def\<close>)
  moreover have "lifecycle_ok db'" unfolding db'2 by (rule release_lock_ok [OF life2])
  moreover have "named_pointers ?db2"
    using ok rows(3) named_pointers_same [of ?db1 db] by (simp add: sys_ok_def)
  then have "named_pointers db'" by (simp add: db'2)
  ultimately show ?thesis by (simp add: sys_ok_def)
qed

lemma settle_cases:
  assumes "settle_operation now s y db = Inr db'"
  shows "close_operation now s y db = Inr db'
    \<or> db' = put_set (s\<lparr>ss_state := ''needs_review''\<rparr>) (put_operation (y\<lparr>op_state := ''needs_review''\<rparr>) db)
    \<or> db' = put_operation y db"
proof (cases "list_all final_row (op_members y)")
  case True
  then show ?thesis using assms by (simp add: settle_operation_def)
next
  case False
  then have "settle_operation now s y db =
      (if list_ex (\<lambda>r. or_state r = ''unconfirmed'' \<or> or_state r = ''dispatching'') (op_members y)
       then Inr (put_set (s\<lparr>ss_state := ''needs_review''\<rparr>) (put_operation (y\<lparr>op_state := ''needs_review''\<rparr>) db))
       else Inr (put_operation y db))"
    unfolding settle_operation_def by (simp only: if_False)
  then show ?thesis using assms by (simp split: if_split_asm)
qed

lemma settle_sys:
  assumes ok: "sys_ok db" and x: "x \<in> set (st_operations db)" "active_operation (op_state x)"
    and s: "s \<in> set (st_sets db)" "ss_id s = op_set_id x"
    and c: "settle_operation now s (x\<lparr>op_members := rows\<rparr>) db = Inr db'"
  shows "sys_ok db'"
proof -
  have y: "journal_entry x (x\<lparr>op_members := rows\<rparr>)"
      "journal_entry x (x\<lparr>op_members := rows, op_state := ''needs_review''\<rparr>)"
    using x(2) by (cases x; auto simp: journal_entry_def)+
  let ?y = "x\<lparr>op_members := rows\<rparr>"
  from settle_cases [OF c] consider "close_operation now s ?y db = Inr db'"
    | "db' = put_set (s\<lparr>ss_state := ''needs_review''\<rparr>) (put_operation (?y\<lparr>op_state := ''needs_review''\<rparr>) db)"
    | "db' = put_operation ?y db"
    by (elim disjE)
  then show ?thesis
  proof cases
    case 1
    then show ?thesis by (rule close_operation_sys [OF ok x(1) y(1) s])
  next
    case 2
    have "st_sets (put_operation (x\<lparr>op_members := rows, op_state := ''needs_review''\<rparr>) db) = st_sets db"
      by (simp add: put_operation_def)
    then show ?thesis
      unfolding 2 by (intro put_set_sys [OF put_operation_sys [OF ok x(1) y(2)], of s]) (use s in simp_all)
  next
    case 3
    then show ?thesis using put_operation_sys [OF ok x(1) y(1)] by simp
  qed
qed

lemma reconcile_operation_sys:
  assumes ok: "sys_ok db" and c: "reconcile_operation hs get now oid db = Inr db'"
  shows "sys_ok db'"
proof (cases "get_operation db oid")
  case None
  then show ?thesis using c ok by (simp add: reconcile_operation_def)
next
  case (Some x)
  then show ?thesis
  proof (cases "active_operation (op_state x)")
    case True
    then obtain s rows where s: "get_set db (op_set_id x) = Some s"
      and st: "settle_operation now s (x\<lparr>op_members := rows\<rparr>) db = Inr db'"
      using c Some by (auto simp: reconcile_operation_def bindE_Inr of_opt_Inr split: prod.splits)
    show ?thesis
      by (rule settle_sys [OF ok _ True _ _ st]) (use row_by_Some [OF s] row_by_Some [OF Some] in auto)
  qed (use c ok in \<open>simp add: reconcile_operation_def\<close>)
qed

text \<open>Beginning an execution: the attempt, its lock and the running operation appear together.\<close>

lemma acquired_lock:
  assumes keys: "lock_keys db" and acq: "acquire_lock fs now d owner n db = Inr db'"
  shows "lock_keys db'" and "\<exists>l\<in>set (st_locks db'). lk_deployment l = d \<and> lk_owner l = owner"
    and "\<And>l. l \<in> set (st_locks db') \<Longrightarrow> lk_deployment l = d \<Longrightarrow> lk_owner l = owner"
    and "\<And>l. l \<in> set (st_locks db') \<Longrightarrow> lk_deployment l \<noteq> d \<Longrightarrow> l \<in> set (st_locks db)"
    and "st_attempts db' = st_attempts db" "st_deployments db' = st_deployments db"
    and "st_operations db' = st_operations db" "st_sets db' = st_sets db"
proof -
  obtain l where l: "lk_deployment l = d" "lk_owner l = owner"
    and shape: "get_lock db d = None \<and> db' = add_lock l db \<or> db' = add_lock l (drop_lock d db)"
    using acquire_lockD [OF acq] by blast
  from shape consider "get_lock db d = None" "db' = add_lock l db" | "db' = add_lock l (drop_lock d db)"
    by (elim disjE conjE)
  from this obtain db0 where db': "db' = add_lock l db0" and k0: "lock_keys db0" and free: "get_lock db0 d = None"
    and sub: "set (st_locks db0) \<subseteq> set (st_locks db)"
    and rest: "st_attempts db0 = st_attempts db" "st_deployments db0 = st_deployments db"
      "st_operations db0 = st_operations db" "st_sets db0 = st_sets db"
  proof cases
    case 1 then show ?thesis using keys that by blast
  next
    case 2
    have "set (st_locks (drop_lock d db)) \<subseteq> set (st_locks db)" by (auto simp: drop_lock_locks drop_locks_def)
    moreover have "get_lock (drop_lock d db) d = None"
      by (auto simp: row_by_None drop_lock_locks drop_locks_def)
    ultimately show ?thesis using that [OF 2] keys by simp
  qed
  have none: "lk_deployment k \<noteq> d" if "k \<in> set (st_locks db0)" for k
    using free that by (auto simp: row_by_None)
  show "lock_keys db'" using lock_keys_add [OF k0] free l by (simp add: db')
  show "\<exists>l\<in>set (st_locks db'). lk_deployment l = d \<and> lk_owner l = owner"
    using l by (auto simp: db' add_lock_def)
  show "\<And>l. l \<in> set (st_locks db') \<Longrightarrow> lk_deployment l = d \<Longrightarrow> lk_owner l = owner"
    using l none by (auto simp: db' add_lock_def)
  show "\<And>k. k \<in> set (st_locks db') \<Longrightarrow> lk_deployment k \<noteq> d \<Longrightarrow> k \<in> set (st_locks db)"
    using l sub by (auto simp: db' add_lock_def)
  show "st_attempts db' = st_attempts db" "st_deployments db' = st_deployments db"
    "st_operations db' = st_operations db" "st_sets db' = st_sets db"
    using rest by (simp_all add: db' add_lock_def)
qed

lemma current_active_attempt:
  "named_pointers db \<Longrightarrow> dep \<in> set (st_deployments db) \<Longrightarrow> lifecycle_ok db \<Longrightarrow> \<not> current_active db dep \<Longrightarrow>
     \<not> active_attempt db dep"
proof (rule notI)
  assume n: "named_pointers db" "dep \<in> set (st_deployments db)" and ok: "lifecycle_ok db"
    and idle: "\<not> current_active db dep" and "active_attempt db dep"
  then obtain a where a: "a \<in> set (st_attempts db)" "dep_current dep = Some (at_id a)" "\<not> is_terminal (at_state a)"
    by (auto simp: active_attempt_def list_ex_iff split: option.splits)
  moreover have "at_id a \<noteq> []" using n a(2) by (force simp: named_pointers_def)
  moreover have "get_attempt db (at_id a) = Some a" by (rule row_by_unique [OF lifecycle_okD(2) [OF ok] a(1) refl])
  ultimately show False using idle by (simp add: current_active_def)
qed

lemma execute_beginD:
  assumes "execute_begin fs hs get policy now i d sid reviewed db = Inr (oid, db')"
  obtains dep s x db1 where "dep \<in> set (st_deployments db)" "dep_id dep = d" "s \<in> set (st_sets db)" "ss_id s = sid"
    "ss_deployment s = d" "x \<in> set (st_operations db)" "op_id x = oid" "op_set_id x = sid" "op_state x = ''planned''"
    "now < op_expires x" "op_plan_digest x = reviewed" "op_plan_digest x = plan_digest hs (op_plan x)"
    "\<not> current_active db dep" "acquire_lock fs now d (attempt_owner i) 30 db = Inr db1"
    "db' = begin_operation now i dep s x db1"
proof -
  obtain s x dep h db1 where p: "executable_plan hs now d sid reviewed db = Inr (s, x)"
    and t: "deployment_target db d = Inr (dep, h)" and idle: "\<not> current_active db dep"
    and acq: "acquire_lock fs now d (attempt_owner i) 30 db = Inr db1"
    and db': "oid = op_id x" "db' = begin_operation now i dep s x db1"
    using assms unfolding execute_begin_def
    by (auto simp: bindE_Inr split: prod.splits if_split_asm)
  have "get_set db sid = Some s \<and> find (\<lambda>r. op_set_id r = sid \<and> op_plan_digest r = reviewed) (st_operations db) = Some x
      \<and> ss_deployment s = d \<and> op_state x = ''planned'' \<and> now < op_expires x \<and> op_plan_digest x = plan_digest hs (op_plan x)"
    using p by (auto simp: executable_plan_def split: option.splits if_split_asm)
  moreover from this have "x \<in> set (st_operations db) \<and> op_set_id x = sid \<and> op_plan_digest x = reviewed"
    by (auto simp: find_Some_iff)
  moreover have "get_deployment db d = Some dep"
    using t by (auto simp: deployment_target_def split: option.splits if_split_asm)
  ultimately show ?thesis
    using that [of dep s x db1] row_by_Some [of ss_id sid "st_sets db" s] row_by_Some [of dep_id d "st_deployments db" dep]
      idle acq db' by simp
qed

lemma snapshot_attempt_simps [simp]:
  "at_id (snapshot_attempt now i dep x) = i" "at_deployment (snapshot_attempt now i dep x) = dep_id dep"
  "at_state (snapshot_attempt now i dep x) = ''deploying''" "at_scope (snapshot_attempt now i dep x) = ''snapshot_set''"
  "at_cursor (snapshot_attempt now i dep x) = 0"
  by (simp_all add: snapshot_attempt_def)

lemma begin_operation_rows:
  "st_attempts (begin_operation now i dep s x db) = st_attempts db @ [snapshot_attempt now i dep x]"
  "st_locks (begin_operation now i dep s x db) = st_locks db"
  "st_deployments (begin_operation now i dep s x db)
     = update_rows (\<lambda>r. dep_id r = dep_id dep) (\<lambda>r. r\<lparr>dep_current := Some i, dep_state := ''deploying''\<rparr>) (st_deployments db)"
  "st_sets (begin_operation now i dep s x db)
     = update_rows (\<lambda>r. ss_id r = ss_id s) (\<lambda>_. s\<lparr>ss_state := busy_state (op_kind x)\<rparr>) (st_sets db)"
  "st_operations (begin_operation now i dep s x db)
     = update_rows (\<lambda>r. op_id r = op_id x) (\<lambda>_. x\<lparr>op_attempt_id := Some i, op_state := ''running''\<rparr>)
         (update_rows (\<lambda>r. op_set_id r = op_set_id x \<and> op_state r = ''planned'' \<and> op_id r \<noteq> op_id x)
            (\<lambda>r. r\<lparr>op_state := ''superseded''\<rparr>) (st_operations db))"
  by (simp_all add: begin_operation_def put_set_def put_operation_def supersede_def with_attempt_def)

lemma begin_lifecycle:
  assumes life: "lifecycle_ok db" and idle: "\<not> active_attempt db dep" and dep: "dep \<in> set (st_deployments db)"
    and fresh: "i \<notin> at_id ` set (st_attempts db)"
    and acq: "acquire_lock fs now (dep_id dep) (attempt_owner i) n db = Inr db1"
  shows "lifecycle_ok (begin_operation now i dep s x db1)"
proof -
  note lock = acquired_lock [OF lifecycle_okD(3) [OF life] acq]
  note ended = attempts_ended [OF life dep idle]
  let ?row = "snapshot_attempt now i dep x"
  have life1: "lifecycle_ok db1"
  proof (rule lifecycle_ok_locks [OF life lock(6,5,1)])
    show "lock_exclusive db1"
      unfolding lock_exclusive_def lock(5) using lock(4) lifecycle_okD(6) [OF life, unfolded lock_exclusive_def] ended
      by metis
  qed
  have "lifecycle_ok (on_deployments (\<lambda>r. dep_id r = at_deployment ?row)
        (\<lambda>r. r\<lparr>dep_current := Some (at_id ?row), dep_state := at_state ?row\<rparr>) (with_attempt ?row db1))"
    by (rule lifecycle_ok_new_attempt [OF life1, of ?row dep])
       (use fresh dep ended lock(3) in \<open>auto simp: lock(5,6)\<close>)
  then show ?thesis
    by (rule lifecycle_ok_locks)
       (use lock(1,3,4) lifecycle_okD(6) [OF life1] ended in
         \<open>auto simp: begin_operation_rows lock_keys_def lock_exclusive_def with_attempt_def lock(5)\<close>)
qed

lemma begin_journal:
  assumes j: "journal_ok db1" and fresh: "i \<notin> at_id ` set (st_attempts db1)"
    and s: "s \<in> set (st_sets db1)" "ss_id s = op_set_id x" "ss_deployment s = dep_id dep"
    and x: "x \<in> set (st_operations db1)"
    and lock: "\<exists>l\<in>set (st_locks db1). lk_deployment l = dep_id dep \<and> lk_owner l = attempt_owner i"
  shows "journal_ok (begin_operation now i dep s x db1)" (is "journal_ok ?db")
proof -
  define x' where "x' = x\<lparr>op_attempt_id := Some i, op_state := ''running''\<rparr>"
  define g :: "snapshot_operation \<Rightarrow> snapshot_operation" where
    "g r = (if r = x then x'
            else if op_set_id r = op_set_id x \<and> op_state r = ''planned'' then r\<lparr>op_state := ''superseded''\<rparr> else r)" for r
  define h :: "snapshot_set \<Rightarrow> snapshot_set" where
    "h r = (if r = s then s\<lparr>ss_state := busy_state (op_kind x)\<rparr> else r)" for r
  have only: "op_id r = op_id x \<longleftrightarrow> r = x" if "r \<in> set (st_operations db1)" for r
    using unique_by [OF journal_okD(2) [OF j] that x] by auto
  have only_s: "ss_id r = ss_id s \<longleftrightarrow> r = s" if "r \<in> set (st_sets db1)" for r
    using unique_by [OF journal_okD(1) [OF j] that s(1)] by auto
  have ops: "st_operations ?db = map g (st_operations db1)"
    using only by (auto simp: begin_operation_rows update_rows_def g_def x'_def comp_def)
  have sets: "st_sets ?db = map h (st_sets db1)"
    using only_s by (auto simp: begin_operation_rows update_rows_def h_def)
  have g: "op_id (g r) = op_id r" "op_set_id (g r) = op_set_id r" for r by (simp_all add: g_def x'_def)
  have h: "ss_id (h r) = ss_id r" "ss_deployment (h r) = ss_deployment r" for r by (simp_all add: h_def)
  have old: "op_attempt_id r \<noteq> Some i" if "r \<in> set (st_operations db1)" for r
    using journal_okD(4) [OF j that, of i] fresh by blast
  have att: "op_attempt_id (g r) = (if r = x then Some i else op_attempt_id r)" for r by (simp add: g_def x'_def)
  show ?thesis
  proof (rule journal_okI)
    show "distinct (map ss_id (st_sets ?db))" using journal_okD(1) [OF j] by (simp add: sets h comp_def)
    show "distinct (map op_id (st_operations ?db))" using journal_okD(2) [OF j] by (simp add: ops g comp_def)
  next
    fix u v k assume u: "u \<in> set (st_operations ?db)" "op_attempt_id u = Some k"
      and v: "v \<in> set (st_operations ?db)" "op_attempt_id v = Some k"
    then obtain a b where ab: "a \<in> set (st_operations db1)" "u = g a" "b \<in> set (st_operations db1)" "v = g b"
      unfolding ops set_map by blast
    have "a = b"
      using u(2) v(2) old ab journal_okD(3) [OF j ab(1,3), of k] by (auto simp: att split: if_splits)
    then show "u = v" using ab by simp
  next
    fix u k assume "u \<in> set (st_operations ?db)" "op_attempt_id u = Some k"
    then obtain a where "a \<in> set (st_operations db1)" "(if a = x then Some i else op_attempt_id a) = Some k"
      unfolding ops set_map using att by auto
    then show "k \<in> at_id ` set (st_attempts ?db)"
      using journal_okD(4) [OF j] by (auto simp: begin_operation_rows split: if_splits)
  next
    fix u assume "u \<in> set (st_operations ?db)" and act: "active_operation (op_state u)"
    then obtain a where a: "a \<in> set (st_operations db1)" "u = g a" unfolding ops set_map by blast
    show "owned ?db u"
    proof (cases "a = x")
      case True
      obtain l where "l \<in> set (st_locks db1)" "lk_deployment l = dep_id dep" "lk_owner l = attempt_owner i"
        using lock by blast
      moreover have "h s \<in> set (st_sets ?db)" using s(1) by (simp add: sets)
      ultimately show ?thesis
        unfolding owned_def using s(2,3) True a
        by (intro bexI [of _ "h s"] bexI [of _ "snapshot_attempt now i dep x"] bexI [of _ l])
           (simp_all add: begin_operation_rows g h att)
    next
      case False
      then have "active_operation (op_state a)"
        using act a by (auto simp: g_def split: if_splits)
      then have "owned db1 a" by (rule journal_okD(5) [OF j a(1)])
      then show ?thesis
        using False unfolding owned_def a(2) g att sets set_map begin_operation_rows(1,2)
        by (auto simp: h)
    qed
  qed
qed

lemma execute_begin_sys:
  assumes ok: "sys_ok db" and fresh: "i \<notin> at_id ` set (st_attempts db)" and named: "i \<noteq> []"
    and e: "execute_begin fs hs get policy now i d sid reviewed db = Inr (oid, db')"
  shows "sys_ok db'"
proof -
  have life: "lifecycle_ok db" and ptr: "named_pointers db" using ok by (simp_all add: sys_ok_def)
  obtain dep s x db1 where x: "dep \<in> set (st_deployments db)" "dep_id dep = d" "s \<in> set (st_sets db)" "ss_id s = sid"
    "ss_deployment s = d" "x \<in> set (st_operations db)" "op_set_id x = sid"
    and idle: "\<not> current_active db dep" and acq: "acquire_lock fs now d (attempt_owner i) 30 db = Inr db1"
    and db': "db' = begin_operation now i dep s x db1"
    by (rule execute_beginD [OF e])
  note lock = acquired_lock [OF lifecycle_okD(3) [OF life] acq]
  have "lifecycle_ok db'"
    unfolding db' by (rule begin_lifecycle [OF life current_active_attempt [OF ptr x(1) life idle] x(1) fresh])
      (use acq x(2) in simp)
  moreover have "journal_ok db'"
    unfolding db' by (rule begin_journal [OF acquire_journal [OF ok acq]]) (use fresh x lock in auto)
  moreover have "named_pointers db'"
    using ptr named by (auto simp: db' named_pointers_def begin_operation_rows set_update_rows lock(6))
  ultimately show ?thesis by (simp add: sys_ok_def)
qed

end
