(* ===== verification/Orphans.thy ===== *)
theory Orphans
  imports Snapshot_Sets
begin

text \<open>
  Recovery after a restart (\<open>app/core/orphans.py\<close>): which attempts \<open>reconcile_once\<close> looks at,
  what it decides for each (leave, adopt the running process, or record its end), and the lock
  it restores for an adopted runner. \<open>started\<close> is \<open>attempt.started_at or dep.updated_at\<close>.

  Selecting an attempt and adopting it are one step of the model. The observer of an adopted
  runner and the replay of its events are not modelled; the read-only legacy scanner is its
  classification only.
\<close>

subsection \<open>The legacy classification\<close>

text \<open>\<open>kill\<close> is \<open>os.kill(pid, 0)\<close>: the process is there, is gone, or is another user's.\<close>

datatype probe = Exists | NoProcess | NotPermitted

definition classify_pid :: "(int \<Rightarrow> probe) \<Rightarrow> int \<Rightarrow> rat option \<Rightarrow> string" where
  "classify_pid kill pid age =
     (if kill pid \<noteq> NoProcess then ''alive''
      else case age of None \<Rightarrow> ''unknown''
      | Some a \<Rightarrow> if 60 \<le> a then ''unknown'' else ''completed_unflushed'')"

subsection \<open>The tasks of this process\<close>

text \<open>A task is its identity; which tasks are done is known to the event loop.\<close>

type_synonym tasks = "string \<rightharpoonup> nat"

definition track_attempt :: "string \<Rightarrow> nat \<Rightarrow> tasks \<Rightarrow> tasks" where
  "track_attempt i task ts = ts(i \<mapsto> task)"

definition untrack_attempt :: "string \<Rightarrow> nat \<Rightarrow> tasks \<Rightarrow> tasks" where
  "untrack_attempt i task ts = (if ts i = Some task then ts(i := None) else ts)"

definition attempt_is_tracked :: "(nat \<Rightarrow> bool) \<Rightarrow> string \<Rightarrow> tasks \<Rightarrow> bool" where
  "attempt_is_tracked is_done i ts = (case ts i of None \<Rightarrow> False | Some task \<Rightarrow> \<not> is_done task)"

subsection \<open>Selection and decision\<close>

definition recoverable :: "store \<Rightarrow> attempt \<Rightarrow> bool" where
  "recoverable db a =
     (\<not> is_terminal (at_state a)
      \<or> at_state a = ''cancelled''
        \<and> list_ex (\<lambda>l. lk_deployment l = at_deployment a \<and> lk_owner l = attempt_owner (at_id a)) (st_locks db))"

definition recovery_rows :: "store \<Rightarrow> (attempt \<times> deployment) list" where
  "recovery_rows db =
     concat (map (\<lambda>a. case get_deployment db (at_deployment a) of
                        None \<Rightarrow> [] | Some d \<Rightarrow> if recoverable db a then [(a, d)] else []) (st_attempts db))"

datatype recovery =
    Leave
  | Snapshot json
  | Adopt int
  | Recovered "int option"

text \<open>The artifact directory must be the attempt's own, inside its deployment's workspace.\<close>

definition artifact_of :: "deployment \<Rightarrow> attempt \<Rightarrow> string" where
  "artifact_of d a = dep_workspace d @ ''/runner/'' @ at_id a"

definition own_artifact :: "files \<Rightarrow> deployment \<Rightarrow> attempt \<Rightarrow> bool res" where
  "own_artifact fs d a =
     bindE (if str_given (at_artifact_dir a)
            then bindE (f_resolve fs (the (at_artifact_dir a))) (\<lambda>r.
                 bindE (f_resolve fs (artifact_of d a)) (\<lambda>own. Inr (r = own)))
            else Inr True) (\<lambda>agrees.
     if \<not> agrees then Inr False
     else if f_is_symlink fs (artifact_of d a) then Inr False
     else bindE (f_resolve fs (artifact_of d a)) (\<lambda>r.
          bindE (f_resolve fs (dep_workspace d)) (\<lambda>base. Inr (is_relative_to r base))))"

text \<open>The PID to look for; \<open>None\<close> when the attempt was reserved so recently that it is left alone.\<close>

definition orphan_pid :: "files \<Rightarrow> int \<Rightarrow> int \<Rightarrow> deployment \<Rightarrow> attempt \<Rightarrow> int option res" where
  "orphan_pid fs now started d a =
     (let pid = (case at_pid a of None \<Rightarrow> 0 | Some p \<Rightarrow> p) in
      if pid \<noteq> 0 then Inr (Some pid)
      else catchE (os_or ValueError)
        (bindE (read_int fs (artifact_of d a @ ''/pid'')) (\<lambda>p. Inr (Some p)))
        (if now - started < 90 * second then Inr None else Inr (Some 0)))"

definition recovery_for ::
    "files \<Rightarrow> (string \<Rightarrow> bool) \<Rightarrow> int \<Rightarrow> int \<Rightarrow> deployment \<Rightarrow> attempt \<Rightarrow> recovery res" where
  "recovery_for fs tracked now started d a =
     (if at_scope a = ''snapshot_set''
      then Inr (Snapshot (case at_operation a of Some (JObj op) \<Rightarrow> jget op ''operation_id'' | _ \<Rightarrow> JNull))
      else if tracked (at_id a) then Inr Leave
      else bindE (own_artifact fs d a) (\<lambda>own.
           if \<not> own then Inr Leave
           else bindE (orphan_pid fs now started d a) (\<lambda>found.
             case found of None \<Rightarrow> Inr Leave
             | Some pid \<Rightarrow>
                 bindE (read_rc fs (artifact_of d a)) (\<lambda>rc.
                 bindE (process_matches fs (artifact_of d a) pid) (\<lambda>alive.
                   Inr (if alive then Adopt pid else Recovered rc))))))"

text \<open>The reported classification of an attempt that was not left alone.\<close>

definition recovery_class :: "recovery \<Rightarrow> string option" where
  "recovery_class r =
     (case r of Adopt _ \<Rightarrow> Some ''alive''
      | Recovered rc \<Rightarrow> Some (if rc \<noteq> None then ''completed_unflushed'' else ''unknown'')
      | _ \<Rightarrow> None)"

text \<open>
  The lock of an adopted runner: restored when it is missing; \<open>False\<close> when another attempt
  holds the deployment, and then the runner is not adopted.
\<close>

definition adopt_lock :: "int \<Rightarrow> deployment \<Rightarrow> attempt \<Rightarrow> store \<Rightarrow> bool \<times> store" where
  "adopt_lock now d a db =
     (case get_lock db (dep_id d) of
        None \<Rightarrow> (True, add_lock \<lparr>lk_deployment = dep_id d, lk_owner = attempt_owner (at_id a),
                                 lk_acquired = now, lk_heartbeat = now, lk_interval = 30\<rparr> db)
      | Some l \<Rightarrow> (lk_owner l = attempt_owner (at_id a), db))"

text \<open>
  The end of a process that is gone: the first completion records the exit code, or that it was
  never observed; the second adds the cursor of the event that announces it. \<open>completion\<close> is
  what the read-back of a runtime attempt says (\<open>partial\<close> and an error code).
\<close>

definition recovered_args :: "int option \<Rightarrow> (bool \<times> string option) option \<Rightarrow> finish_args" where
  "recovered_args rc completion =
     (if rc = None then finish_defaults\<lparr>fa_unknown := True, fa_error := Some ''RUNNER_EXIT_UNOBSERVED''\<rparr>
      else case completion of
        None \<Rightarrow> finish_defaults\<lparr>fa_rc := rc\<rparr>
      | Some (partial, err) \<Rightarrow> finish_defaults\<lparr>fa_rc := rc, fa_partial := partial, fa_error := err\<rparr>)"

definition finish_recovered ::
    "int \<Rightarrow> int \<Rightarrow> int \<Rightarrow> (bool \<times> string option) option \<Rightarrow> string \<Rightarrow> int option \<Rightarrow> store \<Rightarrow> store" where
  "finish_recovered now later cursor completion i rc db =
     snd (finish_attempt later i (finish_defaults\<lparr>fa_rc := rc, fa_cursor := Some cursor\<rparr>)
       (snd (finish_attempt now i (recovered_args rc completion) db)))"

subsection \<open>What recovery does and does not do\<close>

lemma recovery_for_Recovered:
  assumes "recovery_for fs tracked now started d a = Inr (Recovered rc)"
  obtains pid where "\<not> tracked (at_id a)" and "at_scope a \<noteq> ''snapshot_set''"
    and "orphan_pid fs now started d a = Inr (Some pid)" and "process_matches fs (artifact_of d a) pid = Inr False"
    and "read_rc fs (artifact_of d a) = Inr rc" and "own_artifact fs d a = Inr True"
  using assms by (auto simp: recovery_for_def bindE_Inr split: if_splits option.splits)

lemma recovery_for_Adopt:
  assumes "recovery_for fs tracked now started d a = Inr (Adopt pid)"
  shows "\<not> tracked (at_id a)" and "at_scope a \<noteq> ''snapshot_set''" and "own_artifact fs d a = Inr True"
    and "process_matches fs (artifact_of d a) pid = Inr True"
  using assms by (auto simp: recovery_for_def bindE_Inr split: if_splits option.splits)

lemma recovery_rows_iff:
  "distinct (map dep_id (st_deployments db)) \<Longrightarrow>
     (a, d) \<in> set (recovery_rows db) \<longleftrightarrow>
       a \<in> set (st_attempts db) \<and> d \<in> set (st_deployments db) \<and> dep_id d = at_deployment a \<and> recoverable db a"
  by (auto simp: recovery_rows_def eq_commute [of "Some _"] row_by_iff split: option.splits if_splits)

text \<open>A recovered attempt is adopted without disturbing the others.\<close>

lemma adopt_lock_cases:
  assumes "adopt_lock now d a db = (b, db')"
  shows "db' = db \<or> (get_lock db (dep_id d) = None
     \<and> (\<exists>l. lk_deployment l = dep_id d \<and> lk_owner l = attempt_owner (at_id a) \<and> db' = add_lock l db))"
  using assms
  by (auto simp: adopt_lock_def split: option.splits
        intro!: exI [of _ "\<lparr>lk_deployment = dep_id d, lk_owner = attempt_owner (at_id a),
                            lk_acquired = now, lk_heartbeat = now, lk_interval = 30\<rparr>"])

lemma adopt_lock_ok:
  assumes ok: "lifecycle_ok db" and row: "(a, d) \<in> set (recovery_rows db)"
    and r: "adopt_lock now d a db = (b, db')"
  shows "lifecycle_ok db'"
proof -
  have a: "a \<in> set (st_attempts db)" "dep_id d = at_deployment a" "recoverable db a"
    using row recovery_rows_iff [OF lifecycle_okD(1) [OF ok]] by auto
  from adopt_lock_cases [OF r] show ?thesis
  proof (elim disjE conjE exE)
    fix l assume l: "lk_deployment l = dep_id d" "lk_owner l = attempt_owner (at_id a)" "db' = add_lock l db"
      and free: "get_lock db (dep_id d) = None"
    have "\<not> is_terminal (at_state a)"
      using a(2,3) free by (force simp: recoverable_def list_ex_iff row_by_None)
    then show ?thesis using add_lock_ok [OF ok a(1)] l free a(2) by simp
  qed (use ok in simp)
qed

end
