(* ===== verification/System_Runs.thy ===== *)
theory System_Runs
  imports Lifecycle Orphans
begin

text \<open>
  Every run of deployments, attempts, locks and snapshot operations: \<open>sys_step\<close> has one rule for
  each transaction that touches them. \<open>forward\<close> is what no transaction undoes: attempts and
  operations are never deleted or renamed, what has ended stays as it ended, event cursors do
  not go back, and a plan that was executed or closed cannot be executed again.
\<close>

subsection \<open>The transactions\<close>

inductive sys_step :: "store \<Rightarrow> store \<Rightarrow> bool" where
  created: "dep_id dep \<notin> dep_id ` set (st_deployments db) \<Longrightarrow> dep_current dep = None \<Longrightarrow>
     sys_step db (db\<lparr>st_deployments := st_deployments db @ [dep]\<rparr>)"
| hosts: "sys_step db (db\<lparr>st_hosts := hs\<rparr>)"
| reserved: "reserve_attempt fs resolve now i d p operation legacy db = Inr (row, db') \<Longrightarrow>
     i \<notin> at_id ` set (st_attempts db) \<Longrightarrow> i \<noteq> [] \<Longrightarrow> sys_step db db'"
| acquired: "a \<in> set (st_attempts db) \<Longrightarrow> \<not> is_terminal (at_state a) \<Longrightarrow>
     acquire_lock fs now (at_deployment a) (attempt_owner (at_id a)) n db = Inr db' \<Longrightarrow> sys_step db db'"
| running: "sys_step db (snd (mark_attempt_running now i pid dir db))"
| finished: "\<forall>a\<in>set (st_attempts db). at_id a = i \<longrightarrow> at_scope a \<noteq> ''snapshot_set'' \<Longrightarrow>
     sys_step db (snd (finish_attempt now i args db))"
| reported: "sys_step db (on_attempts (\<lambda>a. at_id a = i) (\<lambda>a. a\<lparr>at_operation_result := v\<rparr>) db)"
| cancelled: "cancel_current_attempt fs kill tracked d db = Inr (a, db') \<Longrightarrow> sys_step db db'"
| cursor: "sys_step db (advance_attempt_cursor i tip db)"
| heartbeats: "sys_step db (snd (heartbeat now d owner db))"
| swept: "cleanup_stale_locks fs now only db = Inr (n, db') \<Longrightarrow> sys_step db db'"
| adopted: "(a, d) \<in> set (recovery_rows db) \<Longrightarrow> recovery_for fs tracked now started d a = Inr (Adopt pid) \<Longrightarrow>
     sys_step db (snd (adopt_lock now d a db))"
| planned: "plan_create hs get prepare now d q seen db = Inr db' \<Longrightarrow>
     pq_set_id q \<notin> ss_id ` set (st_sets db) \<Longrightarrow> pq_operation_id q \<notin> op_id ` set (st_operations db) \<Longrightarrow> sys_step db db'"
| planned_existing: "plan_existing hs get policy now i d sid kind retention db = Inr db' \<Longrightarrow>
     i \<notin> op_id ` set (st_operations db) \<Longrightarrow> sys_step db db'"
| plan_cancelled: "cancel_plan d sid oid db = Inr db' \<Longrightarrow> sys_step db db'"
| executed: "execute_begin fs hs get policy now i d sid reviewed db = Inr (oid, db') \<Longrightarrow>
     i \<notin> at_id ` set (st_attempts db) \<Longrightarrow> i \<noteq> [] \<Longrightarrow> sys_step db db'"
| journaled: "x \<in> set (st_operations db) \<Longrightarrow> journal_entry x y \<Longrightarrow> sys_step db (put_operation y db)"
| reviewed: "s \<in> set (st_sets db) \<Longrightarrow> sys_step db (put_set (s\<lparr>ss_state := ''needs_review''\<rparr>) db)"
| reconciled: "reconcile_operation hs get now oid db = Inr db' \<Longrightarrow> sys_step db db'"

lemma adopt_sys:
  assumes ok: "sys_ok db" and row: "(a, d) \<in> set (recovery_rows db)"
  shows "sys_ok (snd (adopt_lock now d a db))"
proof -
  obtain b db' where r: "adopt_lock now d a db = (b, db')" by (cases "adopt_lock now d a db")
  have "lifecycle_ok db'" by (rule adopt_lock_ok [OF _ row r]) (use ok in \<open>simp add: sys_ok_def\<close>)
  moreover have "journal_ok db' \<and> named_pointers db'"
    using adopt_lock_cases [OF r] ok journal_ok_add_lock by (auto simp: sys_ok_def)
  ultimately show ?thesis by (simp add: sys_ok_def r)
qed

lemma created_sys:
  assumes ok: "sys_ok db" and dep: "dep_id dep \<notin> dep_id ` set (st_deployments db)" "dep_current dep = None"
  shows "sys_ok (db\<lparr>st_deployments := st_deployments db @ [dep]\<rparr>)" (is "sys_ok ?db")
proof -
  have life: "lifecycle_ok db" using ok by (simp add: sys_ok_def)
  have "lifecycle_ok ?db"
  proof (rule lifecycle_okI)
    show "is_current ?db a" if "a \<in> set (st_attempts ?db)" "\<not> is_terminal (at_state a)" for a
      using lifecycle_okD(4) [OF life, of a] that by (auto simp: is_current_def)
    show "pointer_ok ?db d" if "d \<in> set (st_deployments ?db)" for d
      using lifecycle_okD(5) [OF life, of d] that dep by (auto simp: pointer_ok_def)
  qed (use lifecycle_okD(1-3,6) [OF life] dep in \<open>auto simp: lock_keys_def lock_exclusive_def\<close>)
  moreover have "journal_ok ?db" by (rule journal_ok_same [of db]) (use ok in \<open>simp_all add: sys_ok_def\<close>)
  ultimately show ?thesis using ok dep by (auto simp: sys_ok_def named_pointers_def)
qed

lemma hosts_sys: "sys_ok db \<Longrightarrow> sys_ok (db\<lparr>st_hosts := hs\<rparr>)"
proof -
  assume ok: "sys_ok db"
  then have life: "lifecycle_ok db" by (simp add: sys_ok_def)
  have "lifecycle_ok (db\<lparr>st_hosts := hs\<rparr>)"
    by (rule lifecycle_ok_locks [OF life])
       (use lifecycle_okD(3,6) [OF life] in \<open>simp_all add: lock_keys_def lock_exclusive_def\<close>)
  moreover have "journal_ok (db\<lparr>st_hosts := hs\<rparr>)"
    by (rule journal_ok_same [of db]) (use ok in \<open>simp_all add: sys_ok_def\<close>)
  ultimately show ?thesis using ok by (simp add: sys_ok_def named_pointers_def)
qed

lemma reported_sys:
  assumes ok: "sys_ok db" shows "sys_ok (on_attempts p (\<lambda>a. a\<lparr>at_operation_result := v\<rparr>) db)"
proof -
  have "lifecycle_ok db" "journal_ok db" "named_pointers db" using ok by (simp_all add: sys_ok_def)
  then show ?thesis
    unfolding sys_ok_def named_pointers_simps by (intro conjI lifecycle_ok_attempt_fields journal_ok_attempts) simp_all
qed

lemma sys_step_ok: "sys_step db db' \<Longrightarrow> sys_ok db \<Longrightarrow> sys_ok db'"
proof (induction rule: sys_step.induct)
  case created then show ?case by (intro created_sys)
next
  case hosts then show ?case by (intro hosts_sys)
next
  case reserved then show ?case by (metis reserve_sys)
next
  case acquired then show ?case by (metis acquire_sys)
next
  case running then show ?case by (intro mark_running_sys)
next
  case finished then show ?case by (intro finish_sys)
next
  case reported then show ?case by (intro reported_sys)
next
  case cancelled then show ?case by (metis cancel_sys)
next
  case cursor then show ?case by (intro advance_cursor_sys)
next
  case heartbeats then show ?case by (intro heartbeat_sys)
next
  case swept then show ?case by (metis cleanup_sys)
next
  case adopted then show ?case by (intro adopt_sys)
next
  case planned then show ?case by (metis plan_create_sys)
next
  case planned_existing then show ?case by (metis plan_existing_sys)
next
  case plan_cancelled then show ?case by (metis cancel_plan_sys)
next
  case executed then show ?case by (metis execute_begin_sys)
next
  case journaled then show ?case by (intro put_operation_sys)
next
  case (reviewed s db) then show ?case by (intro put_set_sys) simp_all
next
  case reconciled then show ?case by (metis reconcile_operation_sys)
qed

subsection \<open>What no transaction undoes\<close>

definition attempt_forward :: "attempt \<Rightarrow> attempt \<Rightarrow> bool" where
  "attempt_forward a b =
     (at_id b = at_id a \<and> at_deployment b = at_deployment a \<and> at_scope b = at_scope a \<and> at_cursor a \<le> at_cursor b
      \<and> (is_terminal (at_state a) \<longrightarrow> at_state b = at_state a \<and> at_ended b = at_ended a
           \<and> (at_rc a \<noteq> None \<longrightarrow> at_rc b = at_rc a)))"

definition closed_operation :: "string \<Rightarrow> bool" where
  "closed_operation s = (s \<notin> {''planned'', ''running'', ''needs_review''})"

definition op_forward :: "snapshot_operation \<Rightarrow> snapshot_operation \<Rightarrow> bool" where
  "op_forward x y =
     (op_id y = op_id x \<and> op_set_id y = op_set_id x \<and> op_kind y = op_kind x \<and> op_plan y = op_plan x
      \<and> op_plan_digest y = op_plan_digest x \<and> (op_state x \<noteq> ''planned'' \<longrightarrow> op_state y \<noteq> ''planned'')
      \<and> (op_state x \<noteq> ''planned'' \<longrightarrow> op_attempt_id y = op_attempt_id x)
      \<and> (closed_operation (op_state x) \<longrightarrow> y = x))"

definition forward :: "store \<Rightarrow> store \<Rightarrow> bool" where
  "forward db db' =
     ((\<forall>a\<in>set (st_attempts db). \<exists>b\<in>set (st_attempts db'). attempt_forward a b)
      \<and> (\<forall>x\<in>set (st_operations db). \<exists>y\<in>set (st_operations db'). op_forward x y))"

lemma attempt_forward_refl [simp]: "attempt_forward a a"
  by (simp add: attempt_forward_def)

lemma op_forward_refl [simp]: "op_forward x x"
  by (simp add: op_forward_def)

lemma attempt_forward_trans: "attempt_forward a b \<Longrightarrow> attempt_forward b c \<Longrightarrow> attempt_forward a c"
  unfolding attempt_forward_def by (elim conjE, intro conjI impI; simp)

lemma op_forward_trans: "op_forward x y \<Longrightarrow> op_forward y z \<Longrightarrow> op_forward x z"
  unfolding op_forward_def by (elim conjE, intro conjI impI; simp)

lemma forward_refl [simp]: "forward db db"
  unfolding forward_def by (blast intro: attempt_forward_refl op_forward_refl)

lemma forward_trans: "forward db1 db2 \<Longrightarrow> forward db2 db3 \<Longrightarrow> forward db1 db3"
  unfolding forward_def by (meson attempt_forward_trans op_forward_trans)

lemma forwardI:
  assumes "\<And>a. a \<in> set (st_attempts db) \<Longrightarrow> f a \<in> set (st_attempts db') \<and> attempt_forward a (f a)"
    and "\<And>x. x \<in> set (st_operations db) \<Longrightarrow> g x \<in> set (st_operations db') \<and> op_forward x (g x)"
  shows "forward db db'"
  unfolding forward_def using assms by blast

lemma forward_same:
  "set (st_attempts db) \<subseteq> set (st_attempts db') \<Longrightarrow> set (st_operations db) \<subseteq> set (st_operations db') \<Longrightarrow> forward db db'"
  by (rule forwardI [of _ "\<lambda>a. a" _ "\<lambda>x. x"]) auto

lemma forward_rows:
  assumes "st_attempts db' = update_rows p f (st_attempts db)" and "st_operations db' = st_operations db"
    and "\<And>a. a \<in> set (st_attempts db) \<Longrightarrow> p a \<Longrightarrow> attempt_forward a (f a)"
  shows "forward db db'"
  by (rule forwardI [of _ "\<lambda>a. if p a then f a else a" _ "\<lambda>x. x"]) (use assms in \<open>auto simp: set_update_rows\<close>)

lemma forward_operations:
  assumes "set (st_attempts db) \<subseteq> set (st_attempts db')" and "st_operations db' = update_rows q g (st_operations db)"
    and "\<And>x. x \<in> set (st_operations db) \<Longrightarrow> q x \<Longrightarrow> op_forward x (g x)"
  shows "forward db db'"
  by (rule forwardI [of _ "\<lambda>a. a" _ "\<lambda>x. if q x then g x else x"]) (use assms in \<open>auto simp: set_update_rows\<close>)

lemma finished_forward: "attempt_forward a (finished now args a)"
  unfolding attempt_forward_def
proof (intro conjI impI)
  show "at_scope (finished now args a) = at_scope a"
    by (simp add: finished_def late_cursor_def late_rc_def conclude_def split: option.split)
  assume "is_terminal (at_state a)"
  then show "at_ended (finished now args a) = at_ended a"
    by (simp add: finished_def late_cursor_def late_rc_def split: option.split)
  assume "at_rc a \<noteq> None"
  then have "late_rc rc a = a" for rc by (auto simp: late_rc_def)
  with \<open>is_terminal (at_state a)\<close> show "at_rc (finished now args a) = at_rc a"
    by (simp add: finished_def)
qed simp_all

lemma finish_forward: "forward db (snd (finish_attempt now i args db))"
proof (cases "get_attempt db i")
  case (Some a)
  show ?thesis
    by (rule forward_rows [where p = "\<lambda>r. at_id r = i" and f = "finished now args"])
       (simp_all add: finish_attempt_eq Some finished_forward release_lock_def publish_state_def)
qed (simp add: finish_attempt_eq)

lemma running_forward: "forward db (snd (mark_attempt_running now i pid dir db))"
proof -
  let ?f = "\<lambda>a. a\<lparr>at_state := ''deploying'', at_pid := pid, at_artifact_dir := Some dir, at_started := Some now\<rparr>"
  have "attempt_forward a (?f a)" if "may_start i a" for a
    using that by (simp add: attempt_forward_def may_start_def)
  then have "forward db (on_attempts (may_start i) ?f db)"
    by (intro forward_rows [where p = "may_start i" and f = ?f]) simp_all
  moreover have "forward (on_attempts (may_start i) ?f db) (publish_state a s (on_attempts (may_start i) ?f db))" for a s
    by (rule forward_same) (simp_all add: publish_state_def)
  ultimately show ?thesis
    by (auto simp: mark_attempt_running_def Let_def split: option.split intro: forward_trans)
qed

lemma cancel_forward:
  assumes "cancel_current_attempt fs kill tracked d db = Inr (a, db')" shows "forward db db'"
proof -
  obtain i where db': "db' = on_attempts (\<lambda>r. at_id r = i) (\<lambda>r. r\<lparr>at_sub_reason := Some ''cancel_requested''\<rparr>) db"
    using cancel_rows [OF assms] by metis
  show ?thesis
    by (rule forward_rows [where p = "\<lambda>r. at_id r = i" and f = "\<lambda>r. r\<lparr>at_sub_reason := Some ''cancel_requested''\<rparr>"])
       (simp_all add: db' attempt_forward_def)
qed

lemma cursor_forward: "forward db (advance_attempt_cursor i tip db)"
  by (rule forward_rows [where p = "\<lambda>a. at_id a = i \<and> at_cursor a < tip" and f = "\<lambda>a. a\<lparr>at_cursor := tip\<rparr>"])
     (simp_all add: advance_attempt_cursor_def attempt_forward_def)

lemma active_state:
  "active_operation s \<Longrightarrow> s \<noteq> ''planned'' \<and> \<not> closed_operation s"
  by (auto simp: active_operation_def closed_operation_def)

lemma op_forward_active:
  "active_operation (op_state x) \<Longrightarrow> s \<noteq> ''planned'' \<Longrightarrow> op_forward x (x\<lparr>op_members := ms, op_state := s\<rparr>)"
  using active_state by (simp add: op_forward_def)

lemma journal_entry_forward:
  assumes "journal_entry x y"
  shows "op_forward x y" and "s \<noteq> ''planned'' \<Longrightarrow> op_forward x (y\<lparr>op_state := s\<rparr>)"
proof -
  obtain ms st where y: "y = x\<lparr>op_members := ms, op_state := st\<rparr>" and act: "active_operation (op_state x)"
      "active_operation (op_state y)"
    using assms unfolding journal_entry_def by (elim conjE exE)
  have "st \<noteq> ''planned''" using active_state [OF act(2)] by (simp add: y)
  then show "op_forward x y" unfolding y by (rule op_forward_active [OF act(1)])
  show "op_forward x (y\<lparr>op_state := s\<rparr>)" if "s \<noteq> ''planned''"
    using op_forward_active [OF act(1) that, of ms] by (simp add: y)
qed

lemma put_operation_forward:
  assumes ok: "sys_ok db" and x: "x \<in> set (st_operations db)" and y: "op_id y = op_id x" "op_forward x y"
  shows "forward db (put_operation y db)"
proof (rule forward_operations [where q = "\<lambda>r. op_id r = op_id y" and g = "\<lambda>_. y"])
  fix r assume "r \<in> set (st_operations db)" "op_id r = op_id y"
  then have "r = x" using unique_by [of op_id "st_operations db" r x] ok x y(1) by (simp add: sys_ok_def journal_ok_def)
  then show "op_forward r y" using y(2) by simp
qed (simp_all add: put_operation_def)

lemma close_forward:
  assumes ok: "sys_ok db" and x: "x \<in> set (st_operations db)" and y: "journal_entry x y"
    and s: "s \<in> set (st_sets db)" "ss_id s = op_set_id x" and c: "close_operation now s y db = Inr db'"
  shows "forward db db'"
proof -
  let ?out = "outcome_of (op_members y)"
  obtain ms a where a: "(case op_attempt_id y of None \<Rightarrow> None | Some i \<Rightarrow> get_attempt db i) = Some a"
    and db': "db' = snd (release_lock (ss_deployment s) (attempt_owner (at_id a))
          (publish_state (a\<lparr>at_deployment := ss_deployment s\<rparr>) ?out
            (on_attempts (\<lambda>r. at_id r = at_id a) (close_attempt now s y ?out)
              (put_set (s\<lparr>ss_state := set_outcome (op_kind y) ?out, ss_members := ms\<rparr>)
                (put_operation (y\<lparr>op_state := ?out\<rparr>) db)))))"
    by (rule close_operationD [OF c])
  note att = active_attempt_of [OF ok x y s a]
  have only: "r = a" if "r \<in> set (st_attempts db)" "at_id r = at_id a" for r
    using unique_by [of at_id "st_attempts db" r a] that att(2) ok lifecycle_okD(2) [of db] by (simp add: sys_ok_def)
  have "?out \<noteq> ''planned''" by (simp add: outcome_of_def)
  then have "forward db (put_operation (y\<lparr>op_state := ?out\<rparr>) db)"
    using put_operation_forward [OF ok x, of "y\<lparr>op_state := ?out\<rparr>"] journal_entry_forward(2) [OF y]
      journal_entry_same(1) [OF y] by simp
  moreover have "forward (put_operation (y\<lparr>op_state := ?out\<rparr>) db) db'"
  proof (rule forward_rows [where p = "\<lambda>r. at_id r = at_id a" and f = "close_attempt now s y ?out"])
    fix r assume "r \<in> set (st_attempts (put_operation (y\<lparr>op_state := ?out\<rparr>) db))" "at_id r = at_id a"
    then have "r = a" using only by (simp add: put_operation_def)
    then show "attempt_forward r (close_attempt now s y ?out r)"
      using att(4) by (simp add: attempt_forward_def close_attempt_def)
  qed (simp_all add: db' release_lock_def publish_state_def put_set_def put_operation_def)
  ultimately show ?thesis by (rule forward_trans)
qed

lemma reconcile_forward:
  assumes ok: "sys_ok db" and c: "reconcile_operation hs get now oid db = Inr db'"
  shows "forward db db'"
proof (cases "get_operation db oid")
  case None
  then show ?thesis using c by (simp add: reconcile_operation_def)
next
  case (Some x)
  show ?thesis
  proof (cases "active_operation (op_state x)")
    case True
    then obtain s rows where s: "get_set db (op_set_id x) = Some s"
      and st: "settle_operation now s (x\<lparr>op_members := rows\<rparr>) db = Inr db'"
      using c Some by (auto simp: reconcile_operation_def bindE_Inr of_opt_Inr split: prod.splits)
    have x: "x \<in> set (st_operations db)" using row_by_Some [OF Some] by simp
    note s' = row_by_Some [OF s]
    have put: "forward db (put_operation y db)" if "op_id y = op_id x" "op_forward x y" for y
      by (rule put_operation_forward [OF ok x that])
    have entry: "journal_entry x (x\<lparr>op_members := rows\<rparr>)"
      using True by (cases x) (auto simp: journal_entry_def)
    from settle_cases [OF st] show ?thesis
    proof (elim disjE)
      assume "close_operation now s (x\<lparr>op_members := rows\<rparr>) db = Inr db'"
      then show ?thesis by (rule close_forward [OF ok x entry conjunct1 [OF s'] conjunct2 [OF s']])
    next
      assume db': "db' = put_set (s\<lparr>ss_state := ''needs_review''\<rparr>)
          (put_operation (x\<lparr>op_members := rows\<rparr>\<lparr>op_state := ''needs_review''\<rparr>) db)"
      have "forward db (put_operation (x\<lparr>op_members := rows\<rparr>\<lparr>op_state := ''needs_review''\<rparr>) db)"
        using put op_forward_active [OF True] by simp
      moreover have "forward t (put_set u t)" for t u by (rule forward_same) (simp_all add: put_set_def)
      ultimately show ?thesis unfolding db' by (rule forward_trans)
    next
      assume "db' = put_operation (x\<lparr>op_members := rows\<rparr>) db"
      then show ?thesis using put journal_entry_forward(1) [OF entry] by simp
    qed
  qed (use c Some in \<open>simp add: reconcile_operation_def\<close>)
qed

lemma execute_forward:
  assumes ok: "sys_ok db" and e: "execute_begin fs hs get policy now i d sid reviewed db = Inr (oid, db')"
  shows "forward db db'"
proof -
  obtain dep s x db1 where x: "x \<in> set (st_operations db)" "op_state x = ''planned''"
    and acq: "acquire_lock fs now d (attempt_owner i) 30 db = Inr db1"
    and db': "db' = begin_operation now i dep s x db1"
    by (rule execute_beginD [OF e])
  note lock = acquired_lock [OF lifecycle_okD(3) acq]
  have life: "lifecycle_ok db" using ok by (simp add: sys_ok_def)
  let ?h = "\<lambda>r. r\<lparr>op_state := ''superseded''\<rparr> :: snapshot_operation"
  let ?q = "\<lambda>r. op_set_id r = op_set_id x \<and> op_state r = ''planned'' \<and> op_id r \<noteq> op_id x"
  let ?y = "x\<lparr>op_attempt_id := Some i, op_state := ''running''\<rparr>"
  define g where "g r = (if op_id r = op_id x then ?y else if ?q r then ?h r else r)" for r
  have only: "r = x" if "r \<in> set (st_operations db)" "op_id r = op_id x" for r
    using unique_by [of op_id "st_operations db" r x] that x(1) ok by (simp add: sys_ok_def journal_ok_def)
  have ops: "st_operations db' = map g (st_operations db)"
    unfolding db' begin_operation_rows lock(7) [OF life]
    by (auto simp: update_rows_def g_def)
  show ?thesis
  proof (rule forwardI [where f = "\<lambda>a. a" and g = g])
    show "a \<in> set (st_attempts db') \<and> attempt_forward a a" if "a \<in> set (st_attempts db)" for a
      using that by (simp add: db' begin_operation_rows lock(5) [OF life])
    show "g r \<in> set (st_operations db') \<and> op_forward r (g r)" if r: "r \<in> set (st_operations db)" for r
    proof -
      have "op_forward r (g r)"
        using only [OF r] x(2) by (auto simp: g_def op_forward_def closed_operation_def)
      then show ?thesis using r by (simp add: ops)
    qed
  qed
qed

lemma reserve_forward:
  assumes ok: "sys_ok db" and r: "reserve_attempt fs resolve now i d p operation legacy db = Inr (row, db')"
  shows "forward db db'"
proof -
  have life: "lifecycle_ok db" using ok by (simp add: sys_ok_def)
  show ?thesis
    by (rule reserve_attempt_rows [OF life r]) (auto intro!: forward_same simp: drop_locks_def)
qed

lemma planned_forward:
  assumes "plan_create hs get prepare now d q seen db = Inr db' \<or> plan_existing hs get policy now i d sid kind retention db = Inr db'"
  shows "forward db db'"
  using assms
  by (auto intro!: forward_same simp: plan_create_def plan_existing_def add_operation_def bindE_Inr Let_def
      split: if_splits prod.splits)

lemma cancel_plan_forward:
  assumes "cancel_plan d sid oid db = Inr db'" and ok: "sys_ok db" shows "forward db db'"
proof -
  obtain x where x: "x \<in> set (st_operations db)" "op_id x = oid" "op_state x = ''planned''"
    and db': "db' = db\<lparr>st_operations := update_rows (\<lambda>r. op_id r = oid) (\<lambda>r. r\<lparr>op_state := ''cancelled''\<rparr>) (st_operations db)\<rparr>"
    using assms(1) row_by_Some [of op_id oid "st_operations db"]
    by (auto simp: cancel_plan_def bindE_Inr split: option.splits if_splits)
  show ?thesis
  proof (rule forward_operations [where q = "\<lambda>r. op_id r = oid" and g = "\<lambda>r. r\<lparr>op_state := ''cancelled''\<rparr>"])
    fix r assume "r \<in> set (st_operations db)" "op_id r = oid"
    then have "r = x" using unique_by [of op_id "st_operations db" r x] x ok by (simp add: sys_ok_def journal_ok_def)
    then show "op_forward r (r\<lparr>op_state := ''cancelled''\<rparr>)"
      using x(3) by (simp add: op_forward_def closed_operation_def)
  qed (simp_all add: db')
qed

lemma sys_step_forward: "sys_step db db' \<Longrightarrow> sys_ok db \<Longrightarrow> forward db db'"
proof (induction rule: sys_step.induct)
  case created then show ?case by (intro forward_same) simp_all
next
  case hosts then show ?case by (intro forward_same) simp_all
next
  case reserved then show ?case by (metis reserve_forward)
next
  case (acquired a db fs now n db')
  have "lock_keys db" using acquired.prems lifecycle_okD(3) by (simp add: sys_ok_def)
  from acquired_lock [OF this acquired.hyps(3)] show ?case by (intro forward_same) simp_all
next
  case running then show ?case by (intro running_forward)
next
  case finished then show ?case by (intro finish_forward)
next
  case (reported db i v)
  show ?case
    by (rule forward_rows [where p = "\<lambda>a. at_id a = i" and f = "\<lambda>a. a\<lparr>at_operation_result := v\<rparr>"])
       (simp_all add: attempt_forward_def)
next
  case cancelled then show ?case by (metis cancel_forward)
next
  case cursor then show ?case by (intro cursor_forward)
next
  case heartbeats then show ?case by (intro forward_same) (simp_all add: heartbeat_def)
next
  case (swept fs now only db n db')
  have "lock_keys db" using swept.prems lifecycle_okD(3) by (simp add: sys_ok_def)
  from cleanupD [OF swept.hyps this] show ?case by (intro forward_same) (simp_all add: drop_locks_def)
next
  case (adopted a d db)
  show ?case by (rule forward_same) (simp_all add: adopt_lock_def split: option.split)
next
  case planned then show ?case by (metis planned_forward)
next
  case planned_existing then show ?case by (metis planned_forward)
next
  case plan_cancelled then show ?case by (metis cancel_plan_forward)
next
  case executed then show ?case by (metis execute_forward)
next
  case journaled then show ?case by (metis put_operation_forward journal_entry_forward(1) journal_entry_same(1))
next
  case reviewed then show ?case by (intro forward_same) (simp_all add: put_set_def)
next
  case reconciled then show ?case by (metis reconcile_forward)
qed

interpretation runs: progressive_machine sys_step sys_ok forward
  by unfold_locales (auto intro: sys_step_ok sys_step_forward forward_trans)

subsection \<open>Every run from an empty store\<close>

definition empty_store :: store where
  "empty_store = \<lparr>st_deployments = [], st_attempts = [], st_locks = [], st_operations = [], st_sets = [], st_hosts = []\<rparr>"

lemma empty_store_ok: "sys_ok empty_store"
  by (simp add: sys_ok_def lifecycle_ok_def journal_ok_def named_pointers_def empty_store_def lock_keys_def lock_exclusive_def)

lemma run_ok: "sys_step\<^sup>*\<^sup>* empty_store db \<Longrightarrow> sys_ok db"
  using runs.reachable_inv empty_store_ok by blast

lemma forward_attempt:
  assumes "sys_ok db" and "sys_step\<^sup>*\<^sup>* db db'" and "a \<in> set (st_attempts db)"
  obtains b where "b \<in> set (st_attempts db')" and "attempt_forward a b"
  using runs.reachable_forward [OF assms(2,1)] assms(3) unfolding forward_def by blast

lemma forward_operation:
  assumes "sys_ok db" and "sys_step\<^sup>*\<^sup>* db db'" and "x \<in> set (st_operations db)"
  obtains y where "y \<in> set (st_operations db')" and "op_forward x y"
  using runs.reachable_forward [OF assms(2,1)] assms(3) unfolding forward_def by blast

text \<open>A first deployment and its first attempt, for the witnesses.\<close>

definition first_deployment :: deployment where
  "first_deployment = \<lparr>dep_id = ''d1'', dep_codename = ''alpha'', dep_scenario_label = ''lab'', dep_project_id = ''p'',
     dep_target_host_id = ''h'', dep_project_sha = None, dep_native = None, dep_team_count = 1, dep_state = ''created'',
     dep_current = None, dep_workspace = ''/ws''\<rparr>"

definition no_files :: files where
  "no_files = \<lparr>f_read = (\<lambda>_. Inl OSError), f_resolve = (\<lambda>p. Inr p), f_is_symlink = (\<lambda>_. False), f_is_file = (\<lambda>_. False)\<rparr>"

definition first_request :: attempt_create where
  "first_request = \<lparr>pa_scope = ''full'', pa_team_id = None, pa_confirm = None, pa_project_sha = None\<rparr>"

definition first_attempt :: attempt where
  "first_attempt = new_attempt 0 ''a1'' first_deployment ''full'' first_request None None"

definition first_store :: store where
  "first_store = empty_store\<lparr>st_deployments := [first_deployment\<lparr>dep_current := Some ''a1'', dep_state := ''pending''\<rparr>],
                             st_attempts := [first_attempt]\<rparr>"

lemma first_reserved:
  "reserve_attempt no_files (\<lambda>_ _. Inr ()) 0 ''a1'' ''d1'' first_request None None
     (empty_store\<lparr>st_deployments := [first_deployment]\<rparr>) = Inr (first_attempt, first_store)"
  by (simp add: reserve_attempt_def check_reservable_def validate_concrete_scope_def is_native_def
      validate_project_revision_def check_team_def check_destructive_def is_destructive_def str_given_def
      cleanup_stale_locks_def claim_pointer_def count_rows_def reservable_def active_attempt_def held_lock_def
      first_deployment_def first_request_def first_attempt_def first_store_def empty_store_def new_attempt_def
      update_rows_def Let_def)

lemma first_run: "sys_step\<^sup>*\<^sup>* empty_store first_store"
proof -
  have "sys_step empty_store (empty_store\<lparr>st_deployments := st_deployments empty_store @ [first_deployment]\<rparr>)"
    by (rule sys_step.created) (simp_all add: empty_store_def first_deployment_def)
  moreover have "sys_step (empty_store\<lparr>st_deployments := [first_deployment]\<rparr>) first_store"
    by (rule sys_step.reserved [OF first_reserved]) (simp_all add: empty_store_def)
  ultimately show ?thesis by (simp add: empty_store_def)
qed

subsection \<open>The properties of every run\<close>

text \<open>
  C13: Whatever requests and background tasks do, a deployment has at most one attempt that has not
  ended, and that attempt is the one the deployment points at and whose state it shows; every
  workspace lock of the deployment is that attempt's.
\<close>

theorem one_writer_per_deployment:
  assumes "sys_step\<^sup>*\<^sup>* empty_store db" and "a \<in> set (st_attempts db)" and "\<not> is_terminal (at_state a)"
  shows "{b \<in> set (st_attempts db). at_deployment b = at_deployment a \<and> \<not> is_terminal (at_state b)} = {a}
     \<and> (\<exists>d\<in>set (st_deployments db). dep_id d = at_deployment a \<and> dep_current d = Some (at_id a)
            \<and> dep_state d = at_state a)
     \<and> lk_owner ` {l \<in> set (st_locks db). lk_deployment l = at_deployment a} \<subseteq> {attempt_owner (at_id a)}"
proof -
  have life: "lifecycle_ok db" using run_ok [OF assms(1)] by (simp add: sys_ok_def)
  obtain d where d: "d \<in> set (st_deployments db)" "dep_id d = at_deployment a" "dep_current d = Some (at_id a)"
    using lifecycle_okD(4) [OF life assms(2,3)] by (auto simp: is_current_def)
  obtain b where b: "b \<in> set (st_attempts db)" "at_id b = at_id a" "dep_state d = at_state b"
    using lifecycle_okD(5) [OF life d(1)] d(3) by (auto simp: pointer_ok_def)
  have "b = a" by (rule unique_by [OF lifecycle_okD(2) [OF life] b(1) assms(2) b(2)])
  then show ?thesis
    using d b(3) assms(2,3) one_active_attempt [OF life] lifecycle_okD(6) [OF life] by (auto simp: lock_exclusive_def)
qed

lemma one_writer_per_deployment_witness:
  "sys_step\<^sup>*\<^sup>* empty_store first_store \<and> first_attempt \<in> set (st_attempts first_store)
   \<and> {b \<in> set (st_attempts first_store). at_deployment b = ''d1'' \<and> \<not> is_terminal (at_state b)} = {first_attempt}"
proof -
  have "first_attempt \<in> set (st_attempts first_store)" "\<not> is_terminal (at_state first_attempt)" "at_deployment first_attempt = ''d1''"
    by (simp_all add: first_store_def first_attempt_def new_attempt_def first_deployment_def is_terminal_def terminal_states_def)
  then show ?thesis using one_writer_per_deployment [OF first_run, of first_attempt] first_run by simp
qed

text \<open>
  An attempt that has ended stays as it ended in every later state: its row is never deleted,
  its terminal state and its end are final, a recorded exit code is never overwritten, and its
  event cursor does not go back.
\<close>

theorem ended_attempt_is_final:
  assumes "sys_ok db" and "sys_step\<^sup>*\<^sup>* db db'" and "a \<in> set (st_attempts db)" and "is_terminal (at_state a)"
    and "at_rc a = Some rc"
  shows "\<exists>b\<in>set (st_attempts db'). at_id b = at_id a \<and> at_state b = at_state a \<and> at_ended b = at_ended a
           \<and> at_rc b = Some rc \<and> at_cursor a \<le> at_cursor b"
proof -
  obtain b where "b \<in> set (st_attempts db')" "attempt_forward a b" by (rule forward_attempt [OF assms(1-3)])
  then show ?thesis using assms(4,5) by (auto simp: attempt_forward_def)
qed

definition ended_attempt :: attempt where
  "ended_attempt = first_attempt\<lparr>at_state := ''succeeded'', at_rc := Some 0, at_ended := Some 9\<rparr>"

definition ended_store :: store where
  "ended_store = first_store\<lparr>st_deployments := [first_deployment\<lparr>dep_current := Some ''a1'', dep_state := ''succeeded''\<rparr>],
                             st_attempts := [ended_attempt]\<rparr>"

lemma ended_attempt_is_final_witness:
  "\<exists>b\<in>set (st_attempts (advance_attempt_cursor ''a1'' 4 ended_store)). at_id b = ''a1'' \<and> at_state b = ''succeeded''
     \<and> at_ended b = Some 9 \<and> at_rc b = Some 0 \<and> 0 \<le> at_cursor b"
proof -
  have "sys_ok ended_store"
    by (simp add: sys_ok_def lifecycle_ok_def journal_ok_def named_pointers_def ended_store_def first_store_def
        empty_store_def lock_keys_def lock_exclusive_def ended_attempt_def first_attempt_def new_attempt_def
        first_deployment_def is_terminal_def terminal_states_def is_current_def pointer_ok_def)
  moreover have "sys_step\<^sup>*\<^sup>* ended_store (advance_attempt_cursor ''a1'' 4 ended_store)"
    using sys_step.cursor by blast
  moreover have "ended_attempt \<in> set (st_attempts ended_store)" by (simp add: ended_store_def)
  ultimately show ?thesis
    using ended_attempt_is_final [of ended_store _ ended_attempt 0]
    by (simp add: ended_attempt_def first_attempt_def new_attempt_def is_terminal_def terminal_states_def)
qed

text \<open>
  C14: A snapshot plan runs at most once: once its operation was begun, cancelled or superseded, no
  later execution, with whatever digest, readings and clock, can begin it again.
\<close>

theorem executed_plan_is_spent:
  assumes ok: "sys_ok db" and run: "sys_step\<^sup>*\<^sup>* db db'" and x: "x \<in> set (st_operations db)" "op_state x \<noteq> ''planned''"
  shows "execute_begin fs hs get policy now i d sid reviewed db' \<noteq> Inr (op_id x, db'')"
proof
  assume e: "execute_begin fs hs get policy now i d sid reviewed db' = Inr (op_id x, db'')"
  obtain y where y: "y \<in> set (st_operations db')" "op_forward x y" by (rule forward_operation [OF ok run x(1)])
  obtain z where z: "z \<in> set (st_operations db')" "op_id z = op_id x" "op_state z = ''planned''"
    by (rule execute_beginD [OF e])
  have "sys_ok db'" by (rule runs.reachable_inv [OF run ok])
  then have "z = y"
    using unique_by [of op_id "st_operations db'" z y] y z by (simp add: sys_ok_def journal_ok_def op_forward_def)
  then show False using z(3) y(2) x(2) by (simp add: op_forward_def)
qed

definition running_operation :: snapshot_operation where
  "running_operation = \<lparr>op_id = ''o1'', op_set_id = ''s1'', op_kind = ''create'', op_state = ''running'',
     op_plan_digest = ''r'', op_plan = \<lparr>pl_id = ''o1'', pl_set_id = ''s1'', pl_kind = ''create'',
       pl_target_digest = ''t'', pl_project_sha = ''c'', pl_members = [], pl_snapshots = [], pl_retention = None\<rparr>,
     op_members = [], op_attempt_id = Some ''a1'', op_created = 0, op_expires = 9\<rparr>"

definition creating_set :: snapshot_set where
  "creating_set = \<lparr>ss_id = ''s1'', ss_deployment = ''d1'', ss_project_sha = ''c'', ss_host = ''h'', ss_target_digest = ''t'',
     ss_name = ''n'', ss_description = ''d'', ss_native_name = ''n'', ss_state = ''creating'', ss_members = [], ss_created = 0\<rparr>"

definition operation_lock :: workspace_lock where
  "operation_lock = \<lparr>lk_deployment = ''d1'', lk_owner = ''attempt-a1'', lk_acquired = 0, lk_heartbeat = 0, lk_interval = 30\<rparr>"

definition operating_store :: store where
  "operating_store = \<lparr>st_deployments = [first_deployment\<lparr>dep_current := Some ''a1'', dep_state := ''deploying''\<rparr>],
     st_attempts = [snapshot_attempt 0 ''a1'' first_deployment running_operation], st_locks = [operation_lock],
     st_operations = [running_operation], st_sets = [creating_set], st_hosts = []\<rparr>"

lemma operating_store_ok: "sys_ok operating_store"
proof -
  have "lifecycle_ok operating_store"
    by (simp add: lifecycle_ok_def operating_store_def lock_keys_def lock_exclusive_def first_deployment_def
        is_current_def pointer_ok_def snapshot_attempt_def operation_lock_def attempt_owner_def)
  moreover have "journal_ok operating_store"
    by (simp add: journal_ok_def owned_def operating_store_def first_deployment_def snapshot_attempt_def
        operation_lock_def attempt_owner_def running_operation_def creating_set_def is_terminal_def terminal_states_def)
  ultimately show ?thesis by (simp add: sys_ok_def named_pointers_def operating_store_def first_deployment_def)
qed

lemma executed_plan_is_spent_witness:
  "sys_ok operating_store \<and> op_state running_operation = ''running''
   \<and> execute_begin no_files \<lparr>hs_sha = (\<lambda>s. s), hs_float = (\<lambda>_. [])\<rparr> (\<lambda>_ _. None) (\<lambda>_. Inr default_retention) 0 ''a2'' ''d1'' ''s1'' ''r''
       (advance_attempt_cursor ''a1'' 4 operating_store) \<noteq> Inr (''o1'', empty_store)"
proof -
  have "sys_step\<^sup>*\<^sup>* operating_store (advance_attempt_cursor ''a1'' 4 operating_store)" using sys_step.cursor by blast
  moreover have "running_operation \<in> set (st_operations operating_store)" by (simp add: operating_store_def)
  moreover have "op_state running_operation = ''running''" "op_id running_operation = ''o1''"
    by (simp_all add: running_operation_def)
  ultimately show ?thesis
    using executed_plan_is_spent [OF operating_store_ok, of _ running_operation] operating_store_ok by force
qed

text \<open>
  A snapshot operation that is running or under review always owns its deployment: its attempt
  has not ended, the deployment's workspace lock is its attempt's, and no sweep at any time finds
  that lock abandoned, whatever the files say. So no other work starts on the deployment while
  native tasks may still be running.
\<close>

theorem active_operation_keeps_lock:
  assumes "sys_step\<^sup>*\<^sup>* db0 db" and "sys_ok db0" and "x \<in> set (st_operations db)" and "active_operation (op_state x)"
  shows "\<exists>a\<in>set (st_attempts db). \<exists>l\<in>set (st_locks db). op_attempt_id x = Some (at_id a) \<and> \<not> is_terminal (at_state a)
           \<and> lk_deployment l = at_deployment a \<and> lk_owner l = attempt_owner (at_id a)
           \<and> abandoned fs now db l \<noteq> Inr True"
proof -
  have "sys_ok db" by (rule runs.reachable_inv [OF assms(1,2)])
  from sys_lock_kept [OF this assms(3,4)] show ?thesis by metis
qed

lemma active_operation_keeps_lock_witness:
  "\<exists>a\<in>set (st_attempts operating_store). \<exists>l\<in>set (st_locks operating_store). at_id a = ''a1'' \<and> \<not> is_terminal (at_state a)
           \<and> lk_deployment l = at_deployment a \<and> lk_owner l = attempt_owner (at_id a)
           \<and> abandoned no_files 1000000000 operating_store l \<noteq> Inr True"
proof -
  have "running_operation \<in> set (st_operations operating_store)" "active_operation (op_state running_operation)"
      "op_attempt_id running_operation = Some ''a1''"
    by (simp_all add: operating_store_def running_operation_def)
  then show ?thesis
    using active_operation_keeps_lock [of operating_store operating_store running_operation no_files 1000000000]
      operating_store_ok by force
qed

end
