(* ===== verification/Progress.thy ===== *)
theory Progress
  imports System_Runs
begin

text \<open>
  Progress of the system: a reservation is refused exactly while other work owns the deployment,
  and is granted when it does not; an attempt whose runner is gone is ended by the next recovery
  pass; and all runs refine the abstract system in which every deployment is one slot.
\<close>

subsection \<open>When a reservation is granted\<close>

lemma one_lock_row:
  assumes "lock_keys db"
  shows "filter (\<lambda>l. lk_deployment l = d) (st_locks db) = (case get_lock db d of None \<Rightarrow> [] | Some l \<Rightarrow> [l])"
proof -
  have "filter (\<lambda>l. lk_deployment l = d) ls = (case row_by lk_deployment d ls of None \<Rightarrow> [] | Some l \<Rightarrow> [l])"
    if "distinct (map lk_deployment ls)" for ls
    using that
  proof (induction ls)
    case (Cons k ls)
    have "row_by lk_deployment (lk_deployment k) ls = None" using Cons.prems by (auto simp: row_by_None)
    then show ?case using Cons by auto
  qed simp
  then show ?thesis using assms by (simp add: lock_keys_def)
qed

text \<open>What a cleanup finds for one deployment: whether the deployment is then without a lock.\<close>

definition lock_free :: "files \<Rightarrow> int \<Rightarrow> string \<Rightarrow> store \<Rightarrow> bool res" where
  "lock_free fs now d db = (case get_lock db d of None \<Rightarrow> Inr True | Some l \<Rightarrow> abandoned fs now db l)"

lemma cleanup_one:
  assumes keys: "lock_keys db" and free: "lock_free fs now d db = Inr b"
  shows "\<exists>n. cleanup_stale_locks fs now (Some d) db = Inr (n, if b then drop_lock d db else db)"
proof (cases "get_lock db d")
  case None
  have "filter (\<lambda>l. lk_deployment l \<noteq> d) (st_locks db) = st_locks db"
    using None by (auto simp: row_by_None filter_id_conv)
  then have "drop_lock d db = db" by (simp add: drop_lock_def delete_rows_def)
  then show ?thesis
    using None free by (simp add: cleanup_stale_locks_def one_lock_row [OF keys] lock_free_def)
next
  case (Some l)
  have "lk_deployment l = d" using row_by_Some [OF Some] by simp
  then show ?thesis
    using Some free by (simp add: cleanup_stale_locks_def one_lock_row [OF keys] lock_free_def cleanup_step_def)
qed

lemma held_after_cleanup:
  assumes keys: "lock_keys db" and free: "lock_free fs now d db = Inr b" and dep: "dep_id dep = d"
  shows "held_lock (if b then drop_lock d db else db) dep = (\<not> b)"
proof (cases b)
  case True
  then show ?thesis using dep by (simp add: held_lock_def list_ex_iff drop_lock_def delete_rows_def)
next
  case False
  then obtain l where "get_lock db d = Some l" using free by (auto simp: lock_free_def split: option.splits)
  then show ?thesis using False dep row_by_Some [of lk_deployment d "st_locks db" l] by (auto simp: held_lock_def list_ex_iff)
qed

definition in_progress_error :: api_error where
  "in_progress_error = \<lparr>ae_status = 409, ae_error = ''attempt_in_progress'', ae_code = ''ATTEMPT_IN_PROGRESS''\<rparr>"

text \<open>
  C19: The outcome of a reservation whose request is valid: it is refused with ATTEMPT_IN_PROGRESS,
  and nothing is written, exactly when the deployment's current attempt has not ended or its lock
  is not abandoned; otherwise it succeeds (unless a legacy scope cannot be resolved), and the new
  attempt is the deployment's current one.
\<close>

theorem reservation_outcome:
  assumes "lifecycle_ok db" and "get_deployment db d = Some dep" and "i \<notin> at_id ` set (st_attempts db)"
    and "check_reservable dep (if operation \<noteq> None then ''runtime'' else pa_scope p) p (legacy \<noteq> None) = Inr ()"
    and "row = new_attempt now i dep (if operation \<noteq> None then ''runtime'' else pa_scope p) p operation legacy"
    and "lock_free fs now d (with_attempt row db) = Inr free"
  shows "if active_attempt db dep \<or> \<not> free
     then reserve_attempt fs resolve now i d p operation legacy db = Inl (ApiError in_progress_error)
     else reserve_attempt fs (\<lambda>_ _. Inr ()) now i d p operation legacy db
        = Inr (row, on_deployments (\<lambda>r. dep_id r = d) (\<lambda>r. r\<lparr>dep_current := Some i, dep_state := ''pending''\<rparr>)
                (drop_lock d (with_attempt row db)))"
proof -
  note inv = lifecycle_okD [OF assms(1)]
  let ?scope = "if operation \<noteq> None then ''runtime'' else pa_scope p"
  let ?db1 = "if free then drop_lock d (with_attempt row db) else with_attempt row db"
  have dep: "dep \<in> set (st_deployments db)" "dep_id dep = d" using row_by_Some [OF assms(2)] by simp_all
  have row: "at_id row = i" "at_deployment row = d" using dep by (simp_all add: assms(5) new_attempt_def)
  have keys: "lock_keys (with_attempt row db)" using inv(3) by (simp add: lock_keys_def)
  obtain n where c: "cleanup_stale_locks fs now (Some d) (with_attempt row db) = Inr (n, ?db1)"
    using cleanup_one [OF keys assms(6)] by blast
  have old: "dep_current dep \<noteq> Some i"
    using inv(5) [OF dep(1)] assms(3) by (auto simp: pointer_ok_def)
  have rows: "st_attempts ?db1 = st_attempts db @ [row]" "st_deployments ?db1 = st_deployments db" by simp_all
  have active: "active_attempt ?db1 dep = active_attempt db dep"
    using old row(1) by (auto simp: active_attempt_def rows split: option.splits)
  have same: "r = dep" if "r \<in> set (st_deployments db)" "dep_id r = d" for r
    by (rule unique_by [OF inv(1) that(1) dep(1)]) (simp add: that(2) dep(2))
  have res: "reservable ?db1 d r \<longleftrightarrow> dep_id r = d \<and> \<not> active_attempt db dep \<and> free" if "r \<in> set (st_deployments db)" for r
    using same [OF that] active held_after_cleanup [OF keys assms(6) dep(2)] dep(2)
    by (auto simp: reservable_def)
  have count: "count_rows (reservable ?db1 d) (st_deployments db) = 0 \<longleftrightarrow> active_attempt db dep \<or> \<not> free"
    using res dep by (auto simp: count_rows_def filter_empty_conv)
  have start: "reserve_attempt fs rs now i d p operation legacy db = bindE (claim_pointer row ?db1) (\<lambda>db2.
     bindE (if \<not> str_given (dep_project_sha dep) \<and> ?scope \<noteq> ''full'' then rs (dep_scenario_label dep) ?scope else Inr ())
       (\<lambda>_. Inr (row, db2)))" for rs
    unfolding reserve_attempt_def assms(2) option.case bindE_simps Let_def assms(4) assms(5) [symmetric]
      with_attempt_def [symmetric] c prod.case ..
  show ?thesis
  proof (cases "active_attempt db dep \<or> \<not> free")
    case True
    then have "claim_pointer row ?db1 = Inl (ApiError in_progress_error)"
      using count by (simp only: claim_pointer_def rows row in_progress_error_def if_True simp_thms)
    then show ?thesis using True start by simp
  next
    case False
    then have "claim_pointer row ?db1 = Inr (on_deployments (reservable ?db1 d)
        (\<lambda>r. r\<lparr>dep_current := Some i, dep_state := ''pending''\<rparr>) ?db1)"
      using count by (simp only: claim_pointer_def rows row if_False simp_thms)
    moreover have "update_rows (reservable ?db1 d) f (st_deployments db) = update_rows (\<lambda>r. dep_id r = d) f (st_deployments db)" for f
      using res False by (auto simp: update_rows_def)
    ultimately show ?thesis using False start by simp
  qed
qed

lemma reservation_outcome_witness:
  "reserve_attempt no_files (\<lambda>_ _. Inr ()) 7 ''a2'' ''d1'' first_request None None first_store = Inl (ApiError in_progress_error)"
proof -
  let ?dep = "first_deployment\<lparr>dep_current := Some ''a1'', dep_state := ''pending''\<rparr>"
  have "lifecycle_ok first_store" using run_ok [OF first_run] by (simp add: sys_ok_def)
  moreover have "get_deployment first_store ''d1'' = Some ?dep" "''a2'' \<notin> at_id ` set (st_attempts first_store)"
      "active_attempt first_store ?dep"
    by (simp_all add: first_store_def first_deployment_def first_attempt_def new_attempt_def active_attempt_def
        is_terminal_def terminal_states_def)
  moreover have "check_reservable ?dep ''full'' first_request False = Inr ()"
    by (simp add: check_reservable_def validate_concrete_scope_def is_native_def validate_project_revision_def
        check_team_def check_destructive_def is_destructive_def str_given_def first_deployment_def first_request_def)
  moreover have "lock_free no_files 7 ''d1'' (with_attempt row first_store) = Inr True" for row
    by (simp add: lock_free_def first_store_def empty_store_def)
  moreover have "pa_scope first_request = ''full''" by (simp add: first_request_def)
  ultimately show ?thesis
    using reservation_outcome [of first_store "''d1''" ?dep "''a2''" None first_request None] by simp
qed

subsection \<open>A dead runner does not keep its deployment\<close>

lemma finish_attempts:
  assumes "get_attempt db i = Some a"
  shows "st_attempts (snd (finish_attempt now i args db)) = update_rows (\<lambda>r. at_id r = i) (finished now args) (st_attempts db)"
    and "get_attempt (snd (finish_attempt now i args db)) i = Some (finished now args a)"
proof -
  show rows: "st_attempts (snd (finish_attempt now i args db)) = update_rows (\<lambda>r. at_id r = i) (finished now args) (st_attempts db)"
    by (simp add: finish_attempt_eq assms release_lock_def publish_state_def)
  show "get_attempt (snd (finish_attempt now i args db)) i = Some (finished now args a)"
    using assms row_by_Some [OF assms] by (simp add: rows row_by_update)
qed

lemma finish_locks:
  assumes "get_attempt db i = Some a"
  shows "get_lock (snd (finish_attempt now i args db)) (at_deployment a)
     = (if owns_lock db (at_deployment a) (attempt_owner i) then None else get_lock db (at_deployment a))"
  by (simp add: finish_attempt_eq assms release_lock_def publish_state_def owns_lock_def row_simps)

lemma orphan_found: "90 * second \<le> now - started \<Longrightarrow> orphan_pid fs now started d a = Inr sought \<Longrightarrow> sought \<noteq> None"
  by (auto simp: orphan_pid_def Let_def catchE_Inr bindE_Inr split: if_splits option.splits)

text \<open>
  C20: A deployment is never stuck on a runner that is gone: once the process of an attempt's
  recorded identity is not running and 90 seconds have passed since its start, the next recovery
  pass records how it ended (its exit code, that it was cancelled, or that its end is unknown), no
  attempt of the deployment is active any more and its lock is gone, so it can be reserved again.
\<close>

theorem dead_runner_is_recovered:
  assumes ok: "sys_ok db" and row: "(a, d) \<in> set (recovery_rows db)" and live: "\<not> is_terminal (at_state a)"
    and runner: "at_scope a \<noteq> ''snapshot_set''" "\<not> tracked (at_id a)" "own_artifact fs d a = Inr True"
    and old: "90 * second \<le> now - started" "orphan_pid fs now started d a = Inr sought"
    and gone: "\<And>pid. process_matches fs (artifact_of d a) pid = Inr False"
    and rc: "read_rc fs (artifact_of d a) = Inr rc"
  shows "recovery_for fs tracked now started d a = Inr (Recovered rc)
     \<and> (\<exists>b. get_attempt (finish_recovered now later cursor completion (at_id a) rc db) (at_id a) = Some b
          \<and> at_rc b = rc \<and> at_state b = (if cancel_requested a then ''cancelled'' else if rc = None then ''unknown''
              else finish_state rc (case completion of None \<Rightarrow> None | Some c \<Rightarrow> snd c) False False
                     (case completion of None \<Rightarrow> False | Some c \<Rightarrow> fst c)))
     \<and> filter (\<lambda>b. at_deployment b = dep_id d \<and> \<not> is_terminal (at_state b))
         (st_attempts (finish_recovered now later cursor completion (at_id a) rc db)) = []
     \<and> get_lock (finish_recovered now later cursor completion (at_id a) rc db) (dep_id d) = None"
proof -
  have life: "lifecycle_ok db" using ok by (simp add: sys_ok_def)
  let ?i = "at_id a" and ?args = "recovered_args rc completion"
  let ?late = "finish_defaults\<lparr>fa_rc := rc, fa_cursor := Some cursor\<rparr>"
  let ?db1 = "snd (finish_attempt now ?i ?args db)"
  let ?db2 = "snd (finish_attempt later ?i ?late ?db1)"
  let ?b = "finished later ?late (finished now ?args a)"
  have a: "a \<in> set (st_attempts db)" "dep_id d = at_deployment a"
    using row recovery_rows_iff [OF lifecycle_okD(1) [OF life]] by auto
  have get: "get_attempt db ?i = Some a" by (rule row_by_unique [OF lifecycle_okD(2) [OF life] a(1) refl])
  note f1 = finish_attempts [OF get, of now ?args]
  note f2 = finish_attempts [OF f1(2), of later ?late]
  have "recovery_for fs tracked now started d a = Inr (Recovered rc)"
  proof -
    obtain pid where "sought = Some pid" using orphan_found [OF old] by blast
    then show ?thesis using old(2) runner gone [of pid] rc by (simp add: recovery_for_def)
  qed
  note decided = this
  have fin: "finished now ?args a = late_cursor (fa_cursor ?args) (late_rc (fa_rc ?args) (conclude now ?args a))"
    using live by (simp only: finished_def if_False)
  have "at_state ?b = at_state (finished now ?args a)" by (rule finished_simps(4)) simp
  then have st: "at_state ?b = at_state (conclude now ?args a)" unfolding fin by simp
  have rc_b: "at_rc ?b = rc"
  proof -
    have args: "fa_rc ?args = rc" by (cases rc; cases completion) (auto simp: recovered_args_def finish_defaults_def)
    have late: "at_rc (late_rc rc r) = rc" if "at_rc r = rc" for r using that by (auto simp: late_rc_def)
    have "at_rc (finished now ?args a) = rc" unfolding fin args late_simps by (rule late) (simp add: conclude_def args)
    moreover have "?b = late_cursor (Some cursor) (late_rc rc (finished now ?args a))"
      unfolding finished_def [of later] by simp
    ultimately show ?thesis using late by simp
  qed
  have "at_state (conclude now ?args a) = (if cancel_requested a then ''cancelled'' else if rc = None then ''unknown''
              else finish_state rc (case completion of None \<Rightarrow> None | Some c \<Rightarrow> snd c) False False
                     (case completion of None \<Rightarrow> False | Some c \<Rightarrow> fst c))"
    by (cases rc; cases completion) (auto simp: conclude_def recovered_args_def finish_defaults_def finish_state_def)
  note state_b = trans [OF st this]
  have none_left: "filter (\<lambda>b. at_deployment b = dep_id d \<and> \<not> is_terminal (at_state b)) (st_attempts ?db2) = []"
  proof -
    have "is_terminal (at_state r)" if r: "r \<in> set (st_attempts ?db2)" "at_deployment r = dep_id d" for r
    proof -
      obtain q where q: "q \<in> set (st_attempts db)" "at_deployment q = at_deployment r"
          "r = (if at_id q = ?i then finished later ?late (finished now ?args q) else q)"
        using r(1) unfolding f2(1) f1(1) set_update_rows by (auto split: if_splits)
      show ?thesis
      proof (cases "at_id q = ?i")
        case False
        then have "is_terminal (at_state q)"
          using one_active_attempt [OF life q(1) a(1)] live q(2) r(2) a(2) by auto
        then show ?thesis using q(3) False by simp
      qed (use q in simp)
    qed
    then show ?thesis by (auto simp: filter_empty_conv)
  qed
  have unlocked: "get_lock ?db2 (dep_id d) = None"
  proof -
    have own: "owns_lock db (at_deployment a) (attempt_owner ?i)" if "get_lock db (at_deployment a) \<noteq> None"
      using that lifecycle_okD(6) [OF life] a(1) live row_by_Some [of lk_deployment "at_deployment a" "st_locks db"]
      by (auto simp: owns_lock_def lock_exclusive_def)
    then have "get_lock ?db1 (at_deployment a) = None" using finish_locks [OF get, of now ?args]
      by (cases "get_lock db (at_deployment a)") auto
    then show ?thesis using finish_locks [OF f1(2), of later ?late] a(2) by (simp add: owns_lock_def)
  qed
  show ?thesis
    unfolding finish_recovered_def
    by (intro conjI exI [of _ ?b] decided f2(2) rc_b state_b none_left unlocked)
qed

lemma dead_runner_is_recovered_witness:
  "\<exists>b. get_attempt (finish_recovered (90 * second) (90 * second) 3 None ''a1'' None first_store) ''a1'' = Some b
     \<and> at_rc b = None \<and> at_state b = ''unknown''"
proof -
  let ?d = "first_deployment\<lparr>dep_current := Some ''a1'', dep_state := ''pending''\<rparr>"
  have a: "at_id first_attempt = ''a1''" "at_scope first_attempt = ''full''" "\<not> is_terminal (at_state first_attempt)"
      "\<not> cancel_requested first_attempt" "at_pid first_attempt = None" "at_artifact_dir first_attempt = None"
    by (simp_all add: first_attempt_def new_attempt_def is_terminal_def terminal_states_def cancel_requested_def first_request_def)
  have "(first_attempt, ?d) \<in> set (recovery_rows first_store)"
    using a by (simp add: recovery_rows_def first_store_def recoverable_def) (simp add: first_attempt_def new_attempt_def first_deployment_def)
  moreover have "own_artifact no_files ?d first_attempt = Inr True"
    using a by (simp add: own_artifact_def no_files_def artifact_of_def str_given_def first_deployment_def is_relative_to_def)
  moreover have "orphan_pid no_files (90 * second) 0 ?d first_attempt = Inr (Some 0)"
    using a by (simp add: orphan_pid_def no_files_def read_int_def catchE_def)
  moreover have "process_matches no_files x pid = Inr False" for x pid
    by (simp add: process_matches_def load_json_def no_files_def)
  moreover have "read_rc no_files x = Inr None" for x
    by (simp add: read_rc_def no_files_def catchE_def)
  ultimately show ?thesis
    using dead_runner_is_recovered [OF run_ok [OF first_run], of first_attempt ?d "\<lambda>_. False" no_files "90 * second" 0 "Some 0" None
        "90 * second" 3 None] a by simp
qed

subsection \<open>The abstract system: one slot per deployment\<close>

text \<open>
  To its users a deployment is a slot that one attempt at a time occupies: it is taken when it is
  free, by an attempt that was never seen before, and given back when the attempt ends. The state
  is who occupies each slot and which attempts were ever seen.
\<close>

record slots =
  sl_busy :: "string \<Rightarrow> string option"
  sl_seen :: "string set"

inductive slot_step :: "slots \<Rightarrow> slots \<Rightarrow> bool" where
  idle: "slot_step t t"
| take: "sl_busy t d = None \<Longrightarrow> i \<notin> sl_seen t \<Longrightarrow>
     slot_step t (t\<lparr>sl_busy := (sl_busy t)(d := Some i), sl_seen := insert i (sl_seen t)\<rparr>)"
| give_back: "slot_step t (t\<lparr>sl_busy := (sl_busy t)(d := None)\<rparr>)"

definition slots_of :: "store \<Rightarrow> slots" where
  "slots_of db =
     \<lparr>sl_busy = (\<lambda>d. map_option at_id (find (\<lambda>a. at_deployment a = d \<and> \<not> is_terminal (at_state a)) (st_attempts db))),
      sl_seen = at_id ` set (st_attempts db)\<rparr>"

lemma sl_busy_iff:
  assumes "lifecycle_ok db"
  shows "sl_busy (slots_of db) d = Some i \<longleftrightarrow>
     (\<exists>a\<in>set (st_attempts db). at_id a = i \<and> at_deployment a = d \<and> \<not> is_terminal (at_state a))"
proof
  assume "sl_busy (slots_of db) d = Some i"
  then show "\<exists>a\<in>set (st_attempts db). at_id a = i \<and> at_deployment a = d \<and> \<not> is_terminal (at_state a)"
    by (auto simp: slots_of_def find_Some_iff)
next
  assume "\<exists>a\<in>set (st_attempts db). at_id a = i \<and> at_deployment a = d \<and> \<not> is_terminal (at_state a)"
  then obtain a where a: "a \<in> set (st_attempts db)" "at_id a = i" "at_deployment a = d" "\<not> is_terminal (at_state a)" by blast
  then obtain b where b: "find (\<lambda>a. at_deployment a = d \<and> \<not> is_terminal (at_state a)) (st_attempts db) = Some b"
    by (cases "find (\<lambda>a. at_deployment a = d \<and> \<not> is_terminal (at_state a)) (st_attempts db)") (auto simp: find_None_iff)
  then have "b \<in> set (st_attempts db)" "at_deployment b = d" "\<not> is_terminal (at_state b)" by (auto simp: find_Some_iff)
  then have "b = a" using one_active_attempt [OF assms _ a(1)] a(3,4) by metis
  then show "sl_busy (slots_of db) d = Some i" using b a(2) by (simp add: slots_of_def)
qed

lemma sl_seen_iff: "sl_seen (slots_of db) = at_id ` set (st_attempts db)"
  by (simp add: slots_of_def)

text \<open>Every occupied slot that changes was given back: an attempt that is active was so before.\<close>

lemma kept_attempts_slots:
  assumes ok: "lifecycle_ok db" "lifecycle_ok db'" and fwd: "forward db db'"
    and ids: "at_id ` set (st_attempts db') = at_id ` set (st_attempts db)"
  shows "sl_busy (slots_of db') d = sl_busy (slots_of db) d \<or> sl_busy (slots_of db') d = None"
proof (cases "sl_busy (slots_of db') d")
  case (Some i)
  then obtain b where b: "b \<in> set (st_attempts db')" "at_id b = i" "at_deployment b = d" "\<not> is_terminal (at_state b)"
    using sl_busy_iff [OF ok(2)] by auto
  then obtain a where a: "a \<in> set (st_attempts db)" "at_id a = i" using ids by (metis image_iff)
  then obtain c where c: "c \<in> set (st_attempts db')" "attempt_forward a c" using fwd unfolding forward_def by blast
  then have "c = b" using unique_by [OF lifecycle_okD(2) [OF ok(2)] c(1) b(1)] a(2) b(2) by (simp add: attempt_forward_def)
  then have "at_deployment a = d" "\<not> is_terminal (at_state a)" using c(2) b(3,4) by (auto simp: attempt_forward_def)
  then have "sl_busy (slots_of db) d = Some i" using sl_busy_iff [OF ok(1)] a by blast
  then show ?thesis using Some by simp
qed simp

text \<open>A transaction ends at most one attempt, which makes the change one step of the slots.\<close>

lemma slot_change:
  assumes seen: "sl_seen u = sl_seen t" and others: "\<And>e. e \<noteq> d \<Longrightarrow> sl_busy u e = sl_busy t e"
    and d: "sl_busy u d = sl_busy t d \<or> sl_busy u d = None"
  shows "slot_step t u"
proof (cases "sl_busy u d = sl_busy t d")
  case True
  then have "sl_busy u = sl_busy t" using others by (intro ext) metis
  then have "u = t" using seen by (cases u; cases t) auto
  then show ?thesis using slot_step.idle by simp
next
  case False
  then have "sl_busy u = (sl_busy t)(d := None)" using others d by (intro ext) auto
  then have "u = t\<lparr>sl_busy := (sl_busy t)(d := None)\<rparr>" using seen by (cases u; cases t) auto
  then show ?thesis using slot_step.give_back by simp
qed

text \<open>The attempts a transaction touches belong to one deployment.\<close>

definition touches_one :: "store \<Rightarrow> store \<Rightarrow> bool" where
  "touches_one db db' =
     (\<exists>d. \<forall>a. at_deployment a \<noteq> d \<longrightarrow> a \<in> set (st_attempts db) \<longrightarrow>
        (\<exists>b\<in>set (st_attempts db'). at_id b = at_id a \<and> at_deployment b = at_deployment a
           \<and> is_terminal (at_state b) = is_terminal (at_state a)))"

lemma kept_step:
  assumes ok: "sys_ok db" "sys_ok db'" and fwd: "forward db db'"
    and ids: "at_id ` set (st_attempts db') = at_id ` set (st_attempts db)" and one: "touches_one db db'"
  shows "slot_step (slots_of db) (slots_of db')"
proof -
  have life: "lifecycle_ok db" "lifecycle_ok db'" using ok by (simp_all add: sys_ok_def)
  obtain d where d: "\<And>a. at_deployment a \<noteq> d \<Longrightarrow> a \<in> set (st_attempts db) \<Longrightarrow>
        \<exists>b\<in>set (st_attempts db'). at_id b = at_id a \<and> at_deployment b = at_deployment a
           \<and> is_terminal (at_state b) = is_terminal (at_state a)"
    using one unfolding touches_one_def by blast
  show ?thesis
  proof (rule slot_change [of _ _ d])
    show "sl_seen (slots_of db') = sl_seen (slots_of db)" by (simp add: sl_seen_iff ids)
    show "sl_busy (slots_of db') d = sl_busy (slots_of db) d \<or> sl_busy (slots_of db') d = None"
      by (rule kept_attempts_slots [OF life fwd ids])
    fix e assume e: "e \<noteq> d"
    show "sl_busy (slots_of db') e = sl_busy (slots_of db) e"
    proof (cases "sl_busy (slots_of db) e")
      case None
      then show ?thesis using kept_attempts_slots [OF life fwd ids, of e] by simp
    next
      case (Some i)
      then obtain a where a: "a \<in> set (st_attempts db)" "at_id a = i" "at_deployment a = e" "\<not> is_terminal (at_state a)"
        using sl_busy_iff [OF life(1)] by auto
      then have "sl_busy (slots_of db') e = Some i"
        using d [of a] e sl_busy_iff [OF life(2)] by auto
      then show ?thesis using Some by simp
    qed
  qed
qed

lemma touches_one_same: "set (st_attempts db) \<subseteq> set (st_attempts db') \<Longrightarrow> touches_one db db'"
  unfolding touches_one_def by blast

lemma touches_one_by_id:
  assumes life: "lifecycle_ok db" and rows: "st_attempts db' = update_rows p f (st_attempts db)"
    and f: "\<And>a. at_id (f a) = at_id a" "\<And>a. at_deployment (f a) = at_deployment a"
    and p: "\<And>a. p a \<Longrightarrow> at_id a = i"
  shows "at_id ` set (st_attempts db') = at_id ` set (st_attempts db)" and "touches_one db db'"
proof -
  show "at_id ` set (st_attempts db') = at_id ` set (st_attempts db)"
    unfolding rows by (rule update_rows_key_set) (rule f(1))
  show "touches_one db db'"
  proof (cases "\<exists>r\<in>set (st_attempts db). at_id r = i")
    case True
    then obtain r where r: "r \<in> set (st_attempts db)" "at_id r = i" by blast
    have only: "a = r" if "a \<in> set (st_attempts db)" "p a" for a
      using unique_by [OF lifecycle_okD(2) [OF life] that(1) r(1)] p [OF that(2)] r(2) by simp
    show ?thesis
      unfolding touches_one_def
    proof (intro exI [of _ "at_deployment r"] allI impI)
      fix a assume "at_deployment a \<noteq> at_deployment r" and a: "a \<in> set (st_attempts db)"
      then have "\<not> p a" using only by blast
      then have "a \<in> set (st_attempts db')" using update_rows_mem [OF a, of p f] by (simp add: rows)
      then show "\<exists>b\<in>set (st_attempts db'). at_id b = at_id a \<and> at_deployment b = at_deployment a
           \<and> is_terminal (at_state b) = is_terminal (at_state a)" by blast
    qed
  next
    case False
    then have "\<not> p a" if "a \<in> set (st_attempts db)" for a using p that by blast
    then have "st_attempts db' = st_attempts db" unfolding rows update_rows_def by (simp add: map_idI)
    then show ?thesis using touches_one_same by simp
  qed
qed

lemma option_eqI: "\<forall>i. x = Some i \<longleftrightarrow> y = Some i \<Longrightarrow> x = y"
  by (cases x; cases y) auto

lemma same_attempts_slots: "st_attempts db' = st_attempts db \<Longrightarrow> slot_step (slots_of db) (slots_of db')"
  by (simp add: slots_of_def slot_step.idle)

lemma new_attempt_slots:
  assumes ok: "lifecycle_ok db" "lifecycle_ok db'" and rows: "st_attempts db' = st_attempts db @ [row]"
    and row: "\<not> is_terminal (at_state row)" "at_id row \<notin> at_id ` set (st_attempts db)"
    and ended: "\<And>a. a \<in> set (st_attempts db) \<Longrightarrow> at_deployment a = at_deployment row \<Longrightarrow> is_terminal (at_state a)"
  shows "slot_step (slots_of db) (slots_of db')"
proof -
  let ?d = "at_deployment row"
  have free: "sl_busy (slots_of db) ?d = None"
  proof (cases "sl_busy (slots_of db) ?d")
    case (Some i)
    then show ?thesis using sl_busy_iff [OF ok(1)] ended by auto
  qed
  have "sl_busy (slots_of db') e = ((sl_busy (slots_of db))(?d := Some (at_id row))) e" for e
  proof (cases "e = ?d")
    case True
    have "row \<in> set (st_attempts db')" by (simp add: rows)
    then have "sl_busy (slots_of db') ?d = Some (at_id row)" using sl_busy_iff [OF ok(2)] row(1) by blast
    then show ?thesis using True by simp
  next
    case False
    have "sl_busy (slots_of db') e = Some i \<longleftrightarrow> sl_busy (slots_of db) e = Some i" for i
      unfolding sl_busy_iff [OF ok(1)] sl_busy_iff [OF ok(2)] rows using False by auto
    then have "sl_busy (slots_of db') e = sl_busy (slots_of db) e" by (intro option_eqI allI)
    then show ?thesis using False by simp
  qed
  then have "sl_busy (slots_of db') = (sl_busy (slots_of db))(?d := Some (at_id row))" by (rule ext)
  then have "slots_of db' = (slots_of db)\<lparr>sl_busy := (sl_busy (slots_of db))(?d := Some (at_id row)),
      sl_seen := insert (at_id row) (sl_seen (slots_of db))\<rparr>"
    by (intro slots.equality) (auto simp: sl_seen_iff rows)
  then show ?thesis
    using slot_step.take [of "slots_of db" ?d "at_id row"] free row(2) by (simp add: sl_seen_iff)
qed

lemma reserve_slots:
  assumes ok: "sys_ok db" "sys_ok db'" and fresh: "i \<notin> at_id ` set (st_attempts db)"
    and r: "reserve_attempt fs resolve now i d p operation legacy db = Inr (row, db')"
  shows "slot_step (slots_of db) (slots_of db')"
proof -
  have life: "lifecycle_ok db" "lifecycle_ok db'" using ok by (simp_all add: sys_ok_def)
  obtain dep where dep: "dep \<in> set (st_deployments db)" "dep_id dep = d"
    and row: "row = new_attempt now i dep (if operation \<noteq> None then ''runtime'' else pa_scope p) p operation legacy"
    and idle: "\<not> active_attempt (with_attempt row db) dep"
    and db': "db' = on_deployments (\<lambda>r. dep_id r = d) (\<lambda>r. r\<lparr>dep_current := Some i, dep_state := ''pending''\<rparr>)
                 (drop_locks (swept fs now d (with_attempt row db)) (with_attempt row db))"
    by (rule reserve_attempt_rows [OF life(1) r])
  have row_simps: "at_id row = i" "at_deployment row = d" "\<not> is_terminal (at_state row)"
    using row dep by (simp_all add: new_attempt_def is_terminal_def terminal_states_def)
  have "\<not> active_attempt db dep" using idle by (auto simp: active_attempt_def split: option.splits)
  note ended = attempts_ended [OF life(1) dep(1) this]
  show ?thesis
    by (rule new_attempt_slots [OF life]) (use ended dep row_simps fresh in \<open>auto simp: db' drop_locks_def\<close>)
qed

lemma execute_slots:
  assumes ok: "sys_ok db" "sys_ok db'" and fresh: "i \<notin> at_id ` set (st_attempts db)"
    and e: "execute_begin fs hs get policy now i d sid reviewed db = Inr (oid, db')"
  shows "slot_step (slots_of db) (slots_of db')"
proof -
  have life: "lifecycle_ok db" "lifecycle_ok db'" and ptr: "named_pointers db" using ok by (simp_all add: sys_ok_def)
  obtain dep s x db1 where dep: "dep \<in> set (st_deployments db)" "dep_id dep = d" and idle: "\<not> current_active db dep"
    and acq: "acquire_lock fs now d (attempt_owner i) 30 db = Inr db1" and db': "db' = begin_operation now i dep s x db1"
    by (rule execute_beginD [OF e])
  note ended = attempts_ended [OF life(1) dep(1) current_active_attempt [OF ptr dep(1) life(1) idle]]
  have "\<not> is_terminal (at_state (snapshot_attempt now i dep x))" by (simp add: is_terminal_def terminal_states_def)
  then show ?thesis
    by (intro new_attempt_slots [OF life, of "snapshot_attempt now i dep x"])
       (use ended dep fresh acquired_lock(5) [OF lifecycle_okD(3) [OF life(1)] acq] in
         \<open>auto simp: db' begin_operation_rows\<close>)
qed

lemma update_slots:
  assumes "sys_ok db" "sys_ok db'" and "forward db db'" and "st_attempts db' = update_rows p f (st_attempts db)"
    and "\<And>a. at_id (f a) = at_id a" "\<And>a. at_deployment (f a) = at_deployment a" "\<And>a. p a \<Longrightarrow> at_id a = i"
  shows "slot_step (slots_of db) (slots_of db')"
proof -
  have "lifecycle_ok db" using assms(1) by (simp add: sys_ok_def)
  from touches_one_by_id [OF this assms(4-7)] show ?thesis by (rule kept_step [OF assms(1-3)])
qed

lemma reconcile_rows:
  assumes c: "reconcile_operation hs get now oid db = Inr db'"
  shows "\<exists>p f i. st_attempts db' = update_rows p f (st_attempts db) \<and> (\<forall>a. at_id (f a) = at_id a)
     \<and> (\<forall>a. at_deployment (f a) = at_deployment a) \<and> (\<forall>a. p a \<longrightarrow> at_id a = i)"
proof -
  have same: ?thesis if "st_attempts db' = st_attempts db"
    using that by (intro exI [of _ "\<lambda>_. False"] exI [of _ "\<lambda>a. a"]) (simp add: update_rows_def)
  show ?thesis
  proof (cases "\<exists>x s y. get_operation db oid = Some x \<and> active_operation (op_state x) \<and> settle_operation now s y db = Inr db'")
    case False
    then have "db' = db"
      using c by (auto simp: reconcile_operation_def bindE_Inr split: option.splits if_splits prod.splits)
    then show ?thesis using same by simp
  next
    case True
    then obtain s y where st: "settle_operation now s y db = Inr db'" by blast
    from settle_cases [OF st] show ?thesis
    proof (elim disjE)
      assume cl: "close_operation now s y db = Inr db'"
      obtain ms a where "db' = snd (release_lock (ss_deployment s) (attempt_owner (at_id a))
          (publish_state (a\<lparr>at_deployment := ss_deployment s\<rparr>) (outcome_of (op_members y))
            (on_attempts (\<lambda>r. at_id r = at_id a) (close_attempt now s y (outcome_of (op_members y)))
              (put_set (s\<lparr>ss_state := set_outcome (op_kind y) (outcome_of (op_members y)), ss_members := ms\<rparr>)
                (put_operation (y\<lparr>op_state := outcome_of (op_members y)\<rparr>) db)))))"
        by (rule close_operationD [OF cl])
      then have "st_attempts db' = update_rows (\<lambda>r. at_id r = at_id a)
          (close_attempt now s y (outcome_of (op_members y))) (st_attempts db)"
        by (simp add: release_lock_def publish_state_def put_set_def put_operation_def)
      then show ?thesis
        by (intro exI [of _ "\<lambda>r. at_id r = at_id a"] exI [of _ "close_attempt now s y (outcome_of (op_members y))"]) auto
    qed (rule same, simp add: put_set_def put_operation_def)+
  qed
qed

text \<open>
  C18: The store implements the slots: every transaction, seen through who occupies which
  deployment, leaves everything, takes one free slot for an attempt never seen before, or gives one
  slot back; no transaction hands a deployment from one attempt to another.
\<close>

theorem store_refines_slots:
  assumes "sys_step db db'" and "sys_ok db"
  shows "slot_step (slots_of db) (slots_of db')"
proof -
  have ok: "sys_ok db'" and fwd: "forward db db'"
    using assms sys_step_ok sys_step_forward by blast+
  note change = update_slots [OF assms(2) ok fwd]
  show ?thesis
    using assms(1)
  proof cases
    case reserved
    then show ?thesis using reserve_slots [OF assms(2) ok] by blast
  next
    case acquired
    have "lock_keys db" using assms(2) lifecycle_okD(3) by (simp add: sys_ok_def)
    then show ?thesis using acquired acquired_lock(5) by (blast intro: same_attempts_slots)
  next
    case (running now i pid dir)
    show ?thesis
    proof (cases "db' = db")
      case False
      then have "st_attempts db' = update_rows (may_start i) (\<lambda>a. a\<lparr>at_state := ''deploying'', at_pid := pid,
          at_artifact_dir := Some dir, at_started := Some now\<rparr>) (st_attempts db)"
        unfolding running by (auto simp: mark_attempt_running_def Let_def publish_state_def split: option.splits if_splits)
      then show ?thesis by (rule change) (simp_all add: may_start_def)
    qed (simp add: slot_step.idle)
  next
    case (finished i now args)
    show ?thesis
    proof (cases "get_attempt db i")
      case None
      then show ?thesis using finished by (simp add: finish_attempt_eq slot_step.idle)
    next
      case (Some a)
      show ?thesis by (rule change [OF finish_attempts(1) [OF Some, of now args, folded finished(1)]]) simp_all
    qed
  next
    case (reported i v)
    then have "st_attempts db' = update_rows (\<lambda>a. at_id a = i) (\<lambda>a. a\<lparr>at_operation_result := v\<rparr>) (st_attempts db)" by simp
    then show ?thesis by (rule change) simp_all
  next
    case (cancelled fs kill tracked d a)
    obtain i where "db' = on_attempts (\<lambda>r. at_id r = i) (\<lambda>r. r\<lparr>at_sub_reason := Some ''cancel_requested''\<rparr>) db"
      using cancel_rows [OF cancelled] by metis
    then have "st_attempts db' = update_rows (\<lambda>r. at_id r = i) (\<lambda>r. r\<lparr>at_sub_reason := Some ''cancel_requested''\<rparr>) (st_attempts db)"
      by simp
    then show ?thesis by (rule change) simp_all
  next
    case (cursor i tip)
    then have "st_attempts db' = update_rows (\<lambda>a. at_id a = i \<and> at_cursor a < tip) (\<lambda>a. a\<lparr>at_cursor := tip\<rparr>) (st_attempts db)"
      by (simp add: advance_attempt_cursor_def)
    then show ?thesis by (rule change) simp_all
  next
    case (swept fs now only n)
    have "lock_keys db" using assms(2) lifecycle_okD(3) by (simp add: sys_ok_def)
    then show ?thesis using cleanupD [OF swept] by (auto intro!: same_attempts_slots simp: drop_locks_def)
  next
    case executed
    then show ?thesis using execute_slots [OF assms(2) ok] by blast
  next
    case reconciled
    then obtain p f i where "st_attempts db' = update_rows p f (st_attempts db)" "\<And>a. at_id (f a) = at_id a"
        "\<And>a. at_deployment (f a) = at_deployment a" "\<And>a. p a \<Longrightarrow> at_id a = i"
      using reconcile_rows by metis
    then show ?thesis by (rule change)
  qed (auto intro!: same_attempts_slots
        simp: heartbeat_def adopt_lock_def plan_create_def plan_existing_def cancel_plan_def add_operation_def put_operation_def
          put_set_def bindE_Inr Let_def split: option.splits if_splits prod.splits)
qed

lemma store_refines_slots_witness:
  "slot_step (slots_of first_store) (slots_of (snd (finish_attempt 5 ''a1'' (finish_defaults\<lparr>fa_rc := Some 0\<rparr>) first_store)))"
proof (rule store_refines_slots [OF _ run_ok [OF first_run]])
  show "sys_step first_store (snd (finish_attempt 5 ''a1'' (finish_defaults\<lparr>fa_rc := Some 0\<rparr>) first_store))"
    by (rule sys_step.finished) (simp add: first_store_def first_attempt_def new_attempt_def first_request_def)
qed

end
