(* ===== verification/Json_Roundtrip.thy ===== *)
theory Json_Roundtrip
  imports Json_Text Ipv4
begin

text \<open>
  What \<open>json_dumps\<close> writes, \<open>json_loads\<close> reads back: \<open>json_roundtrip\<close>, for every value without
  floats whose objects have distinct keys, as every Python dict has. The parser's fuel is twice
  the length of the text, which is enough because every nested call has consumed a character.
\<close>

fun plain_json :: "json \<Rightarrow> bool" where
  "plain_json (JFloat r) = False"
| "plain_json (JList xs) = list_all plain_json xs"
| "plain_json (JObj d) = (distinct (map fst d) \<and> list_all (\<lambda>(k, v). plain_json v) d)"
| "plain_json v = True"

subsection \<open>Strings\<close>

lemma hex_val_char: "d < 16 \<Longrightarrow> hex_val (hex_char d) = Some d"
proof -
  assume "d < 16"
  then have "d \<in> set [0..<16]" by simp
  then show ?thesis
    by (simp add: upt_rec hex_val_def hex_char_def is_digit_def digit_val_def) (elim disjE; simp)
qed

lemma parse_str_esc: "parse_str (esc_char c @ t) = map_option (apfst (Cons c)) (parse_str t)"
proof (cases "c \<in> {CHR 0x22, CHR 0x5C, CHR 0x0A, CHR 0x0D, CHR 0x09, CHR 0x08, CHR 0x0C}")
  case True
  then show ?thesis by (elim insertE) (simp_all add: esc_char_def simple_escape_def)
next
  case False
  show ?thesis
  proof (cases "of_char c < (32::nat) \<or> of_char c > (126::nat)")
    case True
    let ?n = "of_char c :: nat"
    have n: "?n < 256" by (metis mod_less_divisor of_char_mod_256 zero_less_numeral)
    have "char_of (16 * (?n div 16) + ?n mod 16) = c" by simp
    moreover have "hex_val (hex_char (?n div 16)) = Some (?n div 16)" by (intro hex_val_char less_mult_imp_div_less) (use n in simp)
    moreover have "hex_val (hex_char (?n mod 16)) = Some (?n mod 16)" by (rule hex_val_char) simp
    moreover have "hex_val (CHR ''0'') = Some 0" by (simp add: hex_val_def is_digit_def digit_val_def)
    ultimately show ?thesis using True False by (simp add: esc_char_def)
  next
    case small: False
    then show ?thesis using False by (simp add: esc_char_def)
  qed
qed

lemma parse_str_dumps: "parse_str (concat (map esc_char s) @ CHR 0x22 # r) = Some (s, r)"
  by (induction s) (simp_all add: parse_str_esc)

subsection \<open>Numbers\<close>

text \<open>What may follow a value: nothing that would continue a number.\<close>

definition stops :: "string \<Rightarrow> bool" where
  "stops r = (case r of [] \<Rightarrow> True | c # _ \<Rightarrow> \<not> is_digit c \<and> c \<notin> set ''.eE'')"

lemma stops_simps [simp]:
  "stops []" "stops (c # r) = (\<not> is_digit c \<and> c \<notin> set ''.eE'')"
  by (simp_all add: stops_def)

lemma take_digits: "stops r \<Longrightarrow> takeWhile is_digit (nat_str n @ r) = nat_str n"
  using nat_str_digits [of n] by (cases r) (auto simp: list_all_iff takeWhile_append2)

lemma nat_str_first: "\<exists>c cs. nat_str n = c # cs \<and> is_digit c"
  using nat_str_digits [of n] nat_str_nonempty [of n] by (cases "nat_str n") auto

lemma parse_frac_stops: "stops r \<Longrightarrow> parse_frac r = ([], r)"
  by (cases r) (auto simp: parse_frac_def split: char.splits bool.splits)

lemma parse_expo_stops: "stops r \<Longrightarrow> parse_expo r = (None, r)"
  by (cases r) (auto simp: parse_expo_def)

lemma parse_digits:
  assumes "stops r"
  shows "(let all = takeWhile is_digit (nat_str n @ r); ds = (if take 1 all = ''0'' then ''0'' else all) in ds) = nat_str n"
proof -
  obtain c cs where c: "nat_str n = c # cs" using nat_str_first by blast
  have "cs = []" if "c = CHR ''0''" using nat_str_hd_zero [of n] that by (simp add: c)
  then show ?thesis unfolding Let_def take_digits [OF assms] by (auto simp: c)
qed

lemma not_minus: "c \<noteq> CHR ''-'' \<Longrightarrow> (case c # t of CHR ''-'' # r \<Rightarrow> f r | _ \<Rightarrow> g) = g"
  by (cases c) (auto split: bool.splits)

lemma parse_num_nat:
  assumes "stops r"
  shows "parse_num (nat_str n @ r) = Some (JInt (int n), r)" "parse_num (CHR ''-'' # nat_str n @ r) = Some (JInt (- int n), r)"
proof -
  obtain c cs where c: "nat_str n = c # cs" "is_digit c" using nat_str_first by blast
  have "c \<noteq> CHR ''-''" using c(2) by (auto simp: is_digit_def)
  then have neg: "(case nat_str n @ r of CHR ''-'' # r \<Rightarrow> (True, r) | _ \<Rightarrow> (False, nat_str n @ r)) = (False, nat_str n @ r)"
    unfolding c(1) append_Cons by (rule not_minus)
  have neg2: "(case CHR ''-'' # nat_str n @ r of CHR ''-'' # r \<Rightarrow> (True, r) | _ \<Rightarrow> (False, CHR ''-'' # nat_str n @ r))
      = (True, nat_str n @ r)" by simp
  note digits = parse_digits [OF assms, of n, unfolded Let_def]
  show "parse_num (nat_str n @ r) = Some (JInt (int n), r)"
    unfolding parse_num_def Let_def neg
    by (simp only: prod.case digits) (simp add: parse_frac_stops [OF assms] parse_expo_stops [OF assms])
  show "parse_num (CHR ''-'' # nat_str n @ r) = Some (JInt (- int n), r)"
    unfolding parse_num_def Let_def neg2
    by (simp only: prod.case digits) (simp add: parse_frac_stops [OF assms] parse_expo_stops [OF assms])
qed

lemma parse_lit_int: "stops r \<Longrightarrow> parse_lit (int_str i @ r) = Some (JInt i, r)"
proof -
  assume r: "stops r"
  obtain c cs where c: "nat_str (nat (if i < 0 then - i else i)) = c # cs" "is_digit c" using nat_str_first by blast
  have "c \<notin> set ''-ntf''" using c(2) by (auto simp: is_digit_def)
  then have "\<not> prefix ''null'' (int_str i @ r)" "\<not> prefix ''true'' (int_str i @ r)" "\<not> prefix ''false'' (int_str i @ r)"
    using c by (auto simp: int_str_def split: if_splits)
  then have "parse_lit (int_str i @ r) = parse_num (int_str i @ r)" by (simp add: parse_lit_def)
  then show ?thesis using parse_num_nat [OF r] by (simp add: int_str_def)
qed

subsection \<open>Values\<close>

lemma dupdate_distinct: "distinct (map fst d) \<Longrightarrow> dupdate [] d = d"
proof (induction d rule: rev_induct)
  case (snoc p d)
  have "dset k v e = e @ [(k, v)]" if "k \<notin> set (map fst e)" for k :: string and v :: 'a and e
    using that by (induction e) auto
  then show ?case using snoc by (cases p) (auto simp: dupdate_def)
qed (simp add: dupdate_def)

lemma skip_ws_nonspace: "\<not> is_ws c \<Longrightarrow> skip_ws (c # r) = c # r"
  by (simp add: skip_ws_def)

text \<open>The first character of a written value: never blank, never closing.\<close>

lemma dumps_first:
  assumes "plain_json v"
  obtains c cs where "json_dumps fr v = c # cs" and "\<not> is_ws c" and "c \<noteq> CHR '']''" and "c \<noteq> CHR ''}''"
proof (cases v)
  case (JInt i)
  obtain c cs where "nat_str (nat (if i < 0 then - i else i)) = c # cs" "is_digit c" using nat_str_first by blast
  then show ?thesis
    using that by (cases "i < 0") (auto simp: JInt int_str_def is_ws_def is_digit_def)
next
  case (JBool b)
  then show ?thesis using that by (cases b) (auto simp: is_ws_def)
qed (use that assms in \<open>auto simp: is_ws_def dumps_str_def\<close>)

definition reads :: "(rat \<Rightarrow> string) \<Rightarrow> json \<Rightarrow> bool" where
  "reads fr v = (\<forall>n r. 2 * length (json_dumps fr v) + 1 \<le> n \<longrightarrow> stops r \<longrightarrow>
     parse_value dict_object n (json_dumps fr v @ r) = Some (v, r))"

lemma readsD: "reads fr v \<Longrightarrow> 2 * length (json_dumps fr v) + 1 \<le> n \<Longrightarrow> stops r \<Longrightarrow>
    parse_value dict_object n (json_dumps fr v @ r) = Some (v, r)"
  by (simp add: reads_def)

lemma read_elems:
  "xs \<noteq> [] \<Longrightarrow> \<forall>x\<in>set xs. reads fr x \<Longrightarrow> 2 * length (join_with '','' (map (json_dumps fr) xs)) + 2 \<le> n \<Longrightarrow>
     parse_elems dict_object n (join_with '','' (map (json_dumps fr) xs) @ CHR '']'' # r) = Some (xs, r)"
proof (induction xs arbitrary: n)
  case (Cons x xs)
  then obtain m where n: "n = Suc m" by (cases n) auto
  show ?case
  proof (cases xs)
    case Nil
    have "parse_value dict_object m (json_dumps fr x @ CHR '']'' # r) = Some (x, CHR '']'' # r)"
      by (rule readsD) (use Cons.prems n Nil in \<open>auto simp: is_digit_def\<close>)
    then show ?thesis by (simp add: n Nil skip_ws_nonspace is_ws_def)
  next
    case (Cons y ys)
    let ?rest = "join_with '','' (map (json_dumps fr) xs)"
    have shown: "join_with '','' (map (json_dumps fr) (x # xs)) = json_dumps fr x @ CHR '','' # ?rest" by (simp add: Cons)
    have "parse_value dict_object m (json_dumps fr x @ CHR '','' # ?rest @ CHR '']'' # r) = Some (x, CHR '','' # ?rest @ CHR '']'' # r)"
      by (rule readsD) (use Cons.prems n shown in \<open>auto simp: is_digit_def\<close>)
    moreover have "parse_elems dict_object m (?rest @ CHR '']'' # r) = Some (xs, r)"
      by (rule Cons.IH) (use Cons.prems n shown Cons in auto)
    ultimately show ?thesis unfolding n shown by (simp add: skip_ws_nonspace is_ws_def)
  qed
qed simp

definition member_text :: "(rat \<Rightarrow> string) \<Rightarrow> string \<times> json \<Rightarrow> string" where
  "member_text fr = (\<lambda>(k, v). dumps_str k @ '':'' @ json_dumps fr v)"

lemma dumps_obj: "json_dumps fr (JObj d) = ''{'' @ join_with '','' (map (member_text fr) d) @ ''}''"
  by (simp add: member_text_def)

lemma read_members:
  "d \<noteq> [] \<Longrightarrow> \<forall>p\<in>set d. reads fr (snd p) \<Longrightarrow> 2 * length (join_with '','' (map (member_text fr) d)) + 2 \<le> n \<Longrightarrow>
     parse_members dict_object n (join_with '','' (map (member_text fr) d) @ CHR ''}'' # r) = Some (d, r)"
proof (induction d arbitrary: n)
  case (Cons p d)
  obtain k v where p: "p = (k, v)" by (cases p)
  from Cons.prems obtain m where n: "n = Suc m" by (cases n) auto
  have step: "parse_members dict_object (Suc m) (member_text fr p @ t) = (case skip_ws t of
         c # r3 \<Rightarrow> if c = CHR '','' then map_option (apfst (Cons (k, v))) (parse_members dict_object m r3)
                  else if c = CHR ''}'' then Some ([(k, v)], r3) else None
       | [] \<Rightarrow> None)" if "2 * length (json_dumps fr v) + 1 \<le> m" "stops t" for t
  proof -
    have "parse_value dict_object m (json_dumps fr v @ t) = Some (v, t)"
      by (rule readsD) (use Cons.prems(2) that p in auto)
    moreover have "parse_str (concat (map esc_char k) @ CHR 0x22 # CHR '':'' # json_dumps fr v @ t) = Some (k, CHR '':'' # json_dumps fr v @ t)"
      by (rule parse_str_dumps)
    ultimately show ?thesis by (simp add: p member_text_def dumps_str_def skip_ws_nonspace is_ws_def)
  qed
  show ?case
  proof (cases d)
    case Nil
    then have "2 * length (json_dumps fr v) + 1 \<le> m" using Cons.prems(3) by (simp add: n p member_text_def dumps_str_def)
    from step [OF this, of "CHR ''}'' # r"] show ?thesis
      by (simp add: n Nil p skip_ws_nonspace is_ws_def is_digit_def)
  next
    case (Cons q e)
    let ?rest = "join_with '','' (map (member_text fr) d)"
    have shown: "join_with '','' (map (member_text fr) (p # d)) = member_text fr p @ CHR '','' # ?rest" by (simp add: Cons)
    have len: "2 * length (json_dumps fr v) + 1 \<le> m" using Cons.prems(3) shown by (simp add: n p member_text_def dumps_str_def)
    have "parse_members dict_object m (?rest @ CHR ''}'' # r) = Some (d, r)"
      by (rule Cons.IH) (use Cons.prems n shown Cons in auto)
    then show ?thesis
      unfolding n shown append_assoc append_Cons
      by (subst step [OF len]) (simp_all add: p skip_ws_nonspace is_ws_def is_digit_def)
  qed
qed simp

lemma value_reads: "plain_json v \<Longrightarrow> reads fr v"
proof (induction v rule: json_induct)
  case JNull
  show ?case unfolding reads_def
  proof (intro allI impI)
    fix n r assume "2 * length (json_dumps fr JNull) + 1 \<le> n"
    then obtain m where "n = Suc m" by (cases n) auto
    then show "parse_value dict_object n (json_dumps fr JNull @ r) = Some (JNull, r)"
      by (simp add: skip_ws_nonspace is_ws_def parse_lit_def)
  qed
next
  case (JBool b)
  show ?case unfolding reads_def
  proof (intro allI impI)
    fix n r assume "2 * length (json_dumps fr (JBool b)) + 1 \<le> n"
    then obtain m where "n = Suc m" by (cases n) auto
    then show "parse_value dict_object n (json_dumps fr (JBool b) @ r) = Some (JBool b, r)"
      by (simp add: skip_ws_nonspace is_ws_def parse_lit_def)
  qed
next
  case (JInt i)
  show ?case unfolding reads_def
  proof (intro allI impI)
    fix n r assume "2 * length (json_dumps fr (JInt i)) + 1 \<le> n" and r: "stops r"
    then obtain m where n: "n = Suc m" by (cases n) auto
    obtain c cs where c: "int_str i = c # cs" "\<not> is_ws c" "c \<noteq> CHR 0x22" "c \<noteq> CHR ''[''" "c \<noteq> CHR ''{''"
    proof -
      obtain c cs where "nat_str (nat (if i < 0 then - i else i)) = c # cs" "is_digit c" using nat_str_first by blast
      then show ?thesis using that by (cases "i < 0") (auto simp: int_str_def is_ws_def is_digit_def)
    qed
    then show "parse_value dict_object n (json_dumps fr (JInt i) @ r) = Some (JInt i, r)"
      using parse_lit_int [OF r, of i] by (simp add: n skip_ws_nonspace)
  qed
next
  case (JStr s)
  show ?case unfolding reads_def
  proof (intro allI impI)
    fix n r assume "2 * length (json_dumps fr (JStr s)) + 1 \<le> n"
    then obtain m where "n = Suc m" by (cases n) auto
    then show "parse_value dict_object n (json_dumps fr (JStr s) @ r) = Some (JStr s, r)"
      using parse_str_dumps [of s r] by (simp add: dumps_str_def skip_ws_nonspace is_ws_def)
  qed
next
  case (JList xs)
  show ?case unfolding reads_def
  proof (intro allI impI)
    fix n r assume len: "2 * length (json_dumps fr (JList xs)) + 1 \<le> n"
    then obtain m where n: "n = Suc m" by (cases n) auto
    show "parse_value dict_object n (json_dumps fr (JList xs) @ r) = Some (JList xs, r)"
    proof (cases xs)
      case Nil
      then show ?thesis by (simp add: n skip_ws_nonspace is_ws_def)
    next
      case (Cons x ys)
      let ?t = "join_with '','' (map (json_dumps fr) xs)"
      have plain: "plain_json x" using JList.prems by (simp add: Cons)
      obtain c cs where c: "json_dumps fr x = c # cs" "\<not> is_ws c" "c \<noteq> CHR '']''" by (rule dumps_first [OF plain])
      have "\<exists>cs'. ?t = c # cs'" using c(1) by (cases ys) (auto simp: Cons)
      then obtain cs' where t: "?t = c # cs'" by blast
      have "parse_elems dict_object m (?t @ CHR '']'' # r) = Some (xs, r)"
        by (rule read_elems) (use JList len n Cons in \<open>auto simp: list_all_iff\<close>)
      then show ?thesis using c t by (simp add: n skip_ws_nonspace is_ws_def)
    qed
  qed
next
  case (JObj d)
  show ?case unfolding reads_def
  proof (intro allI impI)
    fix n r assume len: "2 * length (json_dumps fr (JObj d)) + 1 \<le> n"
    then obtain m where n: "n = Suc m" by (cases n) auto
    show "parse_value dict_object n (json_dumps fr (JObj d) @ r) = Some (JObj d, r)"
    proof (cases d)
      case Nil
      then show ?thesis by (simp add: n skip_ws_nonspace is_ws_def dict_object_def dupdate_def)
    next
      case (Cons p e)
      let ?t = "join_with '','' (map (member_text fr) d)"
      have "\<exists>cs. ?t = CHR 0x22 # cs" by (cases p; cases e) (auto simp: Cons member_text_def dumps_str_def)
      then obtain cs where t: "?t = CHR 0x22 # cs" by blast
      have "parse_members dict_object m (?t @ CHR ''}'' # r) = Some (d, r)"
      proof (rule read_members)
        show "\<forall>p\<in>set d. reads fr (snd p)" using JObj by (force simp: list_all_iff)
      qed (use len n Cons in \<open>auto simp: dumps_obj simp del: json_dumps.simps\<close>)
      moreover have "dupdate [] d = d" using JObj.prems by (intro dupdate_distinct) simp
      ultimately show ?thesis
        unfolding dumps_obj using t by (simp add: n skip_ws_nonspace is_ws_def dict_object_def)
    qed
  qed
qed simp

theorem json_roundtrip: "plain_json v \<Longrightarrow> json_loads (json_dumps fr v) = Some v"
  using readsD [OF value_reads, of v fr "2 * length (json_dumps fr v) + 2" "[]"]
  by (simp add: json_loads_def json_loads_hook_def skip_ws_def)

end
