(* ===== verification/Events.thy ===== *)
theory Events
  imports Json_Roundtrip Json_Values
begin

text \<open>
  The event log of a deployment (\<open>app/core/events.py\<close>): \<open>EventsWriter\<close> with its recovered
  sequence number, and \<open>EventsReader.read_range\<close>. The file is the string of its bytes. How
  \<open>json.loads\<close> decodes bytes is the parameter \<open>decode\<close> (\<open>None\<close>: a UnicodeDecodeError, which is
  a ValueError); on printable ASCII, which is all the writer produces, it is the identity. The
  text of a float and of the current time are parameters. Flushing, and waiting for changes of
  the file, are not modelled.
\<close>

subsection \<open>Lines\<close>

definition newline :: char where "newline = CHR 0x0A"

text \<open>Iteration over a binary file: lines end after a line feed, the last one may lack it.\<close>

fun lines_of :: "string \<Rightarrow> string \<Rightarrow> string list" where
  "lines_of cur [] = (if cur = [] then [] else [rev cur])"
| "lines_of cur (c # cs) = (if c = newline then rev (c # cur) # lines_of [] cs else lines_of (c # cur) cs)"

definition byte_space :: "char \<Rightarrow> bool" where
  "byte_space c = (let n = of_char c :: nat in 9 \<le> n \<and> n \<le> 13 \<or> n = 32)"

definition byte_strip :: "string \<Rightarrow> string" where
  "byte_strip s = rev (dropWhile byte_space (rev (dropWhile byte_space s)))"

definition sentinel_text :: string where
  "sentinel_text = [CHR 0x22, CHR 0x22]"

text \<open>What a line holds: \<open>None\<close> when it is blank, the sentinel, or not JSON.\<close>

definition line_value :: "(string \<Rightarrow> string option) \<Rightarrow> string \<Rightarrow> json option" where
  "line_value decode raw =
     (let s = byte_strip raw in
      if s = [] \<or> s = sentinel_text then None
      else case decode s of None \<Rightarrow> None | Some t \<Rightarrow> json_loads t)"

text \<open>\<open>isinstance(v, int)\<close> holds of booleans too.\<close>

fun seq_number :: "json \<Rightarrow> int option" where
  "seq_number (JInt i) = Some i"
| "seq_number (JBool b) = Some (if b then 1 else 0)"
| "seq_number _ = None"

subsection \<open>Writing\<close>

record events_writer =
  ew_file :: string
  ew_seq :: int

definition recover_line :: "(string \<Rightarrow> string option) \<Rightarrow> int \<Rightarrow> string \<Rightarrow> int" where
  "recover_line decode highest raw =
     (case line_value decode raw of
        Some (JObj d) \<Rightarrow> (case seq_number (jget d ''event_seq'') of Some i \<Rightarrow> max highest i | None \<Rightarrow> highest)
      | _ \<Rightarrow> highest)"

definition recover_seq :: "(string \<Rightarrow> string option) \<Rightarrow> string \<Rightarrow> int" where
  "recover_seq decode content = foldl (recover_line decode) 0 (lines_of [] content)"

definition open_writer :: "(string \<Rightarrow> string option) \<Rightarrow> string \<Rightarrow> events_writer" where
  "open_writer decode content = \<lparr>ew_file = content, ew_seq = recover_seq decode content\<rparr>"

definition stage_boundary_types :: "string list" where
  "stage_boundary_types = [''phase_transition'', ''state_transition'', ''attempt_start'', ''attempt_end'']"

text \<open>An event type that is a list or an object is not hashable; a payload must be an object.\<close>

definition should_fsync :: "dict \<Rightarrow> bool res" where
  "should_fsync e =
     (case jget e ''event_type'' of
        JStr t \<Rightarrow>
          if t \<in> set stage_boundary_types then Inr True
          else if t = ''task_end''
          then (if truthy (jget e ''payload'')
                then (case jget e ''payload'' of
                        JObj p \<Rightarrow> Inr (jget p ''task_name'' = JStr ''playbook_on_stats'')
                      | _ \<Rightarrow> Inl AttributeError)
                else Inr False)
          else Inr False
      | JList xs \<Rightarrow> Inl TypeError
      | JObj d \<Rightarrow> Inl TypeError
      | _ \<Rightarrow> Inr False)"

definition stamp :: "int \<Rightarrow> string \<Rightarrow> string option \<Rightarrow> string \<Rightarrow> dict \<Rightarrow> dict" where
  "stamp seq attempt dep ts event =
     (let e = dset ''attempt_id'' (JStr attempt) (dset ''event_seq'' (JInt seq) event);
          e = (case dep of None \<Rightarrow> e | Some d \<Rightarrow> dset ''deployment_id'' (JStr d) e)
      in dsetdefault ''ts'' (JStr ts) e)"

text \<open>The sequence number is taken before anything can fail.\<close>

definition append_event ::
    "(rat \<Rightarrow> string) \<Rightarrow> string \<Rightarrow> dict \<Rightarrow> string \<Rightarrow> string option \<Rightarrow> events_writer \<Rightarrow> events_writer \<times> int res" where
  "append_event fr ts event attempt dep w =
     (let seq = ew_seq w + 1;
          stamped = stamp seq attempt dep ts event;
          line = json_dumps fr (JObj stamped) @ [newline]
      in case should_fsync stamped of
           Inl e \<Rightarrow> (w\<lparr>ew_seq := seq\<rparr>, Inl e)
         | Inr _ \<Rightarrow> (w\<lparr>ew_seq := seq, ew_file := ew_file w @ line @ sentinel_text @ [newline]\<rparr>, Inr seq))"

subsection \<open>Reading\<close>

text \<open>
  The events yielded, and the exception that ended the iteration: a line that is JSON but not an
  object has no \<open>get\<close>.
\<close>

fun read_lines :: "(string \<Rightarrow> string option) \<Rightarrow> int \<Rightarrow> int option \<Rightarrow> string list \<Rightarrow> json list \<times> exc option" where
  "read_lines decode from_seq to_seq [] = ([], None)"
| "read_lines decode from_seq to_seq (raw # rest) =
     (case line_value decode raw of
        None \<Rightarrow> read_lines decode from_seq to_seq rest
      | Some (JObj d) \<Rightarrow>
          (case seq_number (jget d ''event_seq'') of
             None \<Rightarrow> read_lines decode from_seq to_seq rest
           | Some seq \<Rightarrow>
               if seq < from_seq then read_lines decode from_seq to_seq rest
               else if (case to_seq of None \<Rightarrow> False | Some t \<Rightarrow> t < seq) then ([], None)
               else apfst (Cons (JObj d)) (read_lines decode from_seq to_seq rest))
      | Some _ \<Rightarrow> ([], Some AttributeError))"

definition read_range :: "(string \<Rightarrow> string option) \<Rightarrow> int \<Rightarrow> int option \<Rightarrow> string \<Rightarrow> json list \<times> exc option" where
  "read_range decode from_seq to_seq content = read_lines decode from_seq to_seq (lines_of [] content)"

subsection \<open>An appended event is the next one read\<close>

definition terminated :: "string \<Rightarrow> bool" where
  "terminated s = (s = [] \<or> last s = newline)"

lemma lines_of_append:
  "s \<noteq> [] \<Longrightarrow> last s = newline \<Longrightarrow> lines_of cur (s @ t) = lines_of cur s @ lines_of [] t"
proof (induction s arbitrary: cur)
  case (Cons c s)
  then show ?case by (cases s) auto
qed simp

lemma lines_of_terminated: "terminated s \<Longrightarrow> lines_of [] (s @ t) = lines_of [] s @ lines_of [] t"
  by (cases "s = []") (auto simp: terminated_def lines_of_append)

lemma lines_of_line: "newline \<notin> set s \<Longrightarrow> lines_of cur (s @ newline # t) = (rev cur @ s @ [newline]) # lines_of [] t"
  by (induction s arbitrary: cur) auto

definition printable :: "char \<Rightarrow> bool" where
  "printable c = (32 \<le> (of_char c :: nat) \<and> of_char c < (127::nat))"

lemma is_digit_printable: "is_digit c \<Longrightarrow> printable c"
  unfolding is_digit_def by (simp add: printable_def) (elim disjE; simp)

lemma nat_str_printable: "list_all printable (nat_str n)"
  using nat_str_digits [of n] is_digit_printable by (simp add: list_all_iff)

lemma hex_char_printable: "d < 16 \<Longrightarrow> printable (hex_char d)"
proof -
  assume "d < 16"
  then have "d \<in> set [0..<16]" by simp
  then show ?thesis by (simp add: upt_rec hex_char_def printable_def) (elim disjE; simp)
qed

lemma printable_chars:
  "printable (CHR 0x22)" "printable (CHR 0x5C)" "printable (CHR ''u'')" "printable (CHR ''0'')" "printable (CHR ''n'')"
  "printable (CHR ''r'')" "printable (CHR ''t'')" "printable (CHR ''b'')" "printable (CHR ''f'')" "printable (CHR '','')"
  "printable (CHR '':'')" "printable (CHR ''['')" "printable (CHR '']'')" "printable (CHR ''{'')" "printable (CHR ''}'')"
  "printable (CHR ''-'')" "printable (CHR ''l'')" "printable (CHR ''e'')" "printable (CHR ''a'')" "printable (CHR ''s'')"
  by (simp_all add: printable_def)

lemma esc_char_printable: "list_all printable (esc_char c)"
proof -
  have "of_char c < (256::nat)" by (metis mod_less_divisor of_char_mod_256 zero_less_numeral)
  then have "printable (hex_char (of_char c div 16))" "printable (hex_char (of_char c mod 16))"
    by (simp_all add: hex_char_printable less_mult_imp_div_less)
  then have u: "list_all printable [CHR 0x5C, CHR ''u'', CHR ''0'', CHR ''0'', hex_char (of_char c div 16), hex_char (of_char c mod 16)]"
    by (simp add: printable_chars)
  show ?thesis
  proof (cases "c \<in> {CHR 0x22, CHR 0x5C, CHR 0x0A, CHR 0x0D, CHR 0x09, CHR 0x08, CHR 0x0C}")
    case True
    then show ?thesis by (elim insertE) (simp_all add: esc_char_def printable_chars)
  next
    case False
    then have e: "esc_char c = (if of_char c < (32::nat) \<or> of_char c > (126::nat)
      then [CHR 0x5C, CHR ''u'', CHR ''0'', CHR ''0'', hex_char (of_char c div 16), hex_char (of_char c mod 16)]
      else [c])" by (simp add: esc_char_def)
    show ?thesis
    proof (cases "of_char c < (32::nat) \<or> of_char c > (126::nat)")
      case True
      then show ?thesis unfolding e using u by (simp only: if_True)
    next
      case False
      then have "printable c" by (simp add: printable_def)
      then show ?thesis unfolding e using False by (simp only: if_False list.pred_inject simp_thms)
    qed
  qed
qed

lemma dumps_str_printable: "list_all printable (dumps_str s)"
  using esc_char_printable by (induction s) (simp_all add: dumps_str_def printable_chars)

lemma join_with_all: "list_all P sep \<Longrightarrow> list_all (list_all P) xs \<Longrightarrow> list_all P (join_with sep xs)"
  by (induction sep xs rule: join_with.induct) auto

lemma dumps_printable: "plain_json v \<Longrightarrow> list_all printable (json_dumps fr v)"
proof (induction v rule: json_induct)
  case (JInt i)
  show ?case using nat_str_printable by (simp add: int_str_def printable_chars)
next
  case (JList xs)
  then have "list_all (list_all printable) (map (json_dumps fr) xs)" by (auto simp: list_all_iff)
  then have "list_all printable (join_with '','' (map (json_dumps fr) xs))"
    by (intro join_with_all) (simp_all add: printable_chars)
  then show ?case by (simp add: printable_chars)
next
  case (JObj d)
  have "list_all printable (member_text fr p)" if "p \<in> set d" for p
  proof -
    have "list_all printable (json_dumps fr (snd p))" using JObj that by (cases p) (auto simp: list_all_iff)
    then show ?thesis using dumps_str_printable [of "fst p"] by (cases p) (simp add: member_text_def printable_chars)
  qed
  then have "list_all (list_all printable) (map (member_text fr) d)" by (simp add: list_all_iff)
  then have "list_all printable (join_with '','' (map (member_text fr) d))"
    by (intro join_with_all) (simp_all add: printable_chars)
  then show ?case unfolding dumps_obj by (simp add: printable_chars)
qed (simp_all add: dumps_str_printable printable_chars)

text \<open>How \<open>json.loads\<close> decodes printable ASCII.\<close>

definition decodes_ascii :: "(string \<Rightarrow> string option) \<Rightarrow> bool" where
  "decodes_ascii decode = (\<forall>s. list_all printable s \<longrightarrow> decode s = Some s)"

lemma byte_strip_line:
  assumes "\<not> byte_space c" and "\<not> byte_space z"
  shows "byte_strip ((c # s @ [z]) @ [newline]) = c # s @ [z]"
  using assms by (simp add: byte_strip_def byte_space_def newline_def)

lemma line_value_dumps:
  assumes "decodes_ascii decode" and "plain_json (JObj d)"
  shows "line_value decode (json_dumps fr (JObj d) @ [newline]) = Some (JObj d)"
proof -
  let ?s = "json_dumps fr (JObj d)"
  have s: "?s = CHR ''{'' # join_with '','' (map (member_text fr) d) @ [CHR ''}'']" unfolding dumps_obj by simp
  have "byte_strip (?s @ [newline]) = ?s" unfolding s by (rule byte_strip_line) (simp_all add: byte_space_def)
  moreover have "?s \<noteq> []" "?s \<noteq> sentinel_text" unfolding s by (simp_all add: sentinel_text_def)
  moreover have "decode ?s = Some ?s"
    using dumps_printable [OF assms(2), of fr] assms(1) unfolding decodes_ascii_def by blast
  ultimately show ?thesis using json_roundtrip [OF assms(2), of fr] by (simp add: line_value_def Let_def)
qed

lemma line_value_sentinel: "line_value decode (sentinel_text @ [newline]) = None"
  by (simp add: line_value_def sentinel_text_def byte_strip_def byte_space_def newline_def)

lemma read_lines_append:
  "snd (read_lines decode f None xs) = None \<Longrightarrow>
     read_lines decode f None (xs @ ys) = apfst ((@) (fst (read_lines decode f None xs))) (read_lines decode f None ys)"
proof (induction xs)
  case (Cons raw xs)
  show ?case
  proof (cases "line_value decode raw")
    case None
    then show ?thesis using Cons by simp
  next
    case (Some v)
    then obtain d where "v = JObj d" using Cons.prems by (cases v) auto
    show ?thesis
    proof (cases "seq_number (jget d ''event_seq'')")
      case None
      then show ?thesis using Some \<open>v = JObj d\<close> Cons by simp
    next
      case seq: (Some i)
      show ?thesis
      proof (cases "i < f")
        case True
        then show ?thesis using Some \<open>v = JObj d\<close> Cons seq by simp
      next
        case False
        then have "snd (read_lines decode f None xs) = None" using Some \<open>v = JObj d\<close> Cons.prems seq by simp
        then show ?thesis using Some \<open>v = JObj d\<close> Cons.IH seq False by (simp add: prod.expand)
      qed
    qed
  qed
qed (simp add: apfst_def map_prod_def split: prod.split)

lemma dget_stamp:
  "dget (stamp seq attempt dep ts event) ''event_seq'' = Some (JInt seq)"
  "dget (stamp seq attempt dep ts event) ''attempt_id'' = Some (JStr attempt)"
  "k \<notin> {''event_seq'', ''attempt_id'', ''deployment_id'', ''ts''} \<Longrightarrow> dget (stamp seq attempt dep ts event) k = dget event k"
  by (auto simp: stamp_def Let_def dict_simps split: option.split)

lemma plain_dset: "plain_json (JObj d) \<Longrightarrow> plain_json v \<Longrightarrow> plain_json (JObj (dset k v d))"
proof -
  assume d: "plain_json (JObj d)" and v: "plain_json v"
  have "list_all (\<lambda>(k, v). plain_json v) (dset k v d)" using d v by (induction d) auto
  then show ?thesis using d dset_distinct by auto
qed

lemma plain_stamp: "plain_json (JObj event) \<Longrightarrow> plain_json (JObj (stamp seq attempt dep ts event))"
  unfolding stamp_def Let_def dsetdefault_def by (auto intro!: plain_dset simp del: plain_json.simps(3) split: option.split)

lemma append_event_file:
  assumes "append_event fr ts event attempt dep w = (w', Inr seq)"
  shows "seq = ew_seq w + 1" and "ew_seq w' = seq"
    and "ew_file w' = ew_file w @ json_dumps fr (JObj (stamp seq attempt dep ts event)) @ newline # sentinel_text @ [newline]"
  using assms by (auto simp: append_event_def Let_def split: sum.splits)

lemma appended_lines:
  assumes "terminated content" and "plain_json (JObj d)"
  shows "lines_of [] (content @ json_dumps fr (JObj d) @ newline # sentinel_text @ [newline])
     = lines_of [] content @ [json_dumps fr (JObj d) @ [newline], sentinel_text @ [newline]]"
proof -
  have "newline \<notin> set (json_dumps fr (JObj d))"
    using dumps_printable [OF assms(2), of fr] by (auto simp: list_all_iff newline_def printable_def)
  then have "lines_of [] (json_dumps fr (JObj d) @ newline # sentinel_text @ [newline])
      = (json_dumps fr (JObj d) @ [newline]) # lines_of [] (sentinel_text @ [newline])"
    using lines_of_line [of "json_dumps fr (JObj d)" "[]"] by simp
  moreover have "lines_of [] (sentinel_text @ [newline]) = [sentinel_text @ [newline]]"
    by (simp add: sentinel_text_def newline_def)
  ultimately show ?thesis using lines_of_terminated [OF assms(1)] by simp
qed

lemma append_reads_back:
  assumes ascii: "decodes_ascii decode" and plain: "plain_json (JObj event)" and ended: "terminated (ew_file w)"
    and readable: "read_range decode from_seq None (ew_file w) = (events, None)"
    and app: "append_event fr ts event attempt dep w = (w', Inr seq)" and from_seq: "from_seq \<le> seq"
    and recovered: "ew_seq w = recover_seq decode (ew_file w)"
  shows "read_range decode from_seq None (ew_file w') = (events @ [JObj (stamp seq attempt dep ts event)], None)
     \<and> seq = ew_seq w + 1 \<and> open_writer decode (ew_file w') = w' \<and> terminated (ew_file w')"
proof -
  let ?d = "stamp seq attempt dep ts event"
  note out = append_event_file [OF app]
  have plain': "plain_json (JObj ?d)" by (rule plain_stamp [OF plain])
  have lines: "lines_of [] (ew_file w') = lines_of [] (ew_file w) @ [json_dumps fr (JObj ?d) @ [newline], sentinel_text @ [newline]]"
    unfolding out(3) by (rule appended_lines [OF ended plain'])
  have line: "line_value decode (json_dumps fr (JObj ?d) @ [newline]) = Some (JObj ?d)"
    by (rule line_value_dumps [OF ascii plain'])
  have seq: "seq_number (jget ?d ''event_seq'') = Some seq" by (simp add: jget_def dget_stamp)
  have "read_range decode from_seq None (ew_file w') = (events @ [JObj ?d], None)"
    using readable from_seq
    by (simp add: read_range_def lines read_lines_append line line_value_sentinel seq apfst_def map_prod_def del: json_dumps.simps)
  moreover have "recover_seq decode (ew_file w') = seq"
  proof -
    have "recover_line decode h (json_dumps fr (JObj ?d) @ [newline]) = max h seq" for h
      by (simp only: recover_line_def line option.case json.case seq)
    moreover have "recover_line decode h (sentinel_text @ [newline]) = h" for h
      by (simp add: recover_line_def line_value_sentinel)
    ultimately have "recover_seq decode (ew_file w') = max (recover_seq decode (ew_file w)) seq"
      by (simp only: recover_seq_def lines foldl_append foldl.simps)
    then show ?thesis using out(1) recovered by simp
  qed
  moreover have "w' = \<lparr>ew_file = ew_file w', ew_seq = seq\<rparr>" using out(2) by simp
  moreover have "terminated (ew_file w')" by (simp add: terminated_def out(3))
  ultimately show ?thesis using out(1) by (simp add: open_writer_def)
qed

text \<open>
  C21: The log reads back what was appended: after an event is appended to a log whose last line is
  complete and which can be read, reading from any earlier sequence number yields the events read
  before and then this event, with the number the writer returned and all its other fields as
  given; and a writer that reopens the log continues after that number.
\<close>

theorem appended_event_is_read:
  assumes ascii: "decodes_ascii decode" and plain: "plain_json (JObj event)" and ended: "terminated (ew_file w)"
    and readable: "read_range decode from_seq None (ew_file w) = (events, None)"
    and app: "append_event fr ts event attempt dep w = (w', Inr seq)" and from_seq: "from_seq \<le> seq"
    and recovered: "ew_seq w = recover_seq decode (ew_file w)"
  shows "read_range decode from_seq None (ew_file w') = (events @ [JObj (stamp seq attempt dep ts event)], None)
     \<and> seq = ew_seq w + 1 \<and> open_writer decode (ew_file w') = w' \<and> terminated (ew_file w')"
  by (rule append_reads_back [OF assms])

lemma appended_event_is_read_witness:
  "\<exists>w' seq. append_event (\<lambda>_. []) ''t'' [(''event_type'', JStr ''attempt_start'')] ''a1'' None (open_writer Some []) = (w', Inr seq)
     \<and> seq = 1 \<and> read_range Some 0 None (ew_file w')
        = ([JObj (stamp 1 ''a1'' None ''t'' [(''event_type'', JStr ''attempt_start'')])], None)"
proof -
  let ?w = "open_writer Some []" and ?e = "[(''event_type'', JStr ''attempt_start'')]"
  have w: "ew_file ?w = []" "ew_seq ?w = 0" "recover_seq Some [] = 0" by (simp_all add: open_writer_def recover_seq_def)
  have "should_fsync (stamp 1 ''a1'' None ''t'' ?e) = Inr True"
    by (simp add: should_fsync_def stamp_def dsetdefault_def jget_def stage_boundary_types_def Let_def dict_simps)
  then obtain w' where app: "append_event (\<lambda>_. []) ''t'' ?e ''a1'' None ?w = (w', Inr 1)"
    by (simp add: append_event_def w)
  have "read_range Some 0 None (ew_file ?w) = ([], None)" by (simp add: read_range_def w)
  from appended_event_is_read [OF _ _ _ this app] app w show ?thesis
    by (force simp: decodes_ascii_def terminated_def)
qed

subsection \<open>A torn line swallows the next event\<close>

text \<open>What a write cut short inside a line leaves, and the event that is appended next.\<close>

definition torn_content :: string where
  "torn_content = CHR ''{'' # CHR 0x22 # ''event_seq'' @ [CHR 0x22]"

definition next_event :: dict where
  "next_event = [(''event_type'', JStr ''attempt_end'')]"

text \<open>
  The sentinel does not protect the next event from a crash in the middle of a line: appended
  to a log that ends in a torn line, an event gets its number, but its text continues the torn
  line, and no later reading yields it.
\<close>

theorem torn_line_swallows_event:
  "\<exists>w'. append_event (\<lambda>_. []) ''t'' next_event ''a1'' None (open_writer Some torn_content) = (w', Inr 1)
     \<and> read_range Some 0 None (ew_file w') = ([], None)"
proof -
  let ?w = "open_writer Some torn_content"
  let ?w' = "fst (append_event (\<lambda>_. []) ''t'' next_event ''a1'' None ?w)"
  have "snd (append_event (\<lambda>_. []) ''t'' next_event ''a1'' None ?w) = Inr 1" by code_simp
  moreover have "read_range Some 0 None (ew_file ?w') = ([], None)" by code_simp
  ultimately show ?thesis by (metis prod.collapse)
qed

text \<open>A line that is JSON but no object, other than the sentinel, ends the reading with an AttributeError.\<close>

theorem reader_fails_on_other_json:
  "read_range Some 0 None (''7'' @ [newline]) = ([], Some AttributeError)"
  by code_simp

end
