(* ===== verification/Redaction.thy ===== *)
theory Redaction
  imports Py_Values
begin

text \<open>
  Redaction of events (\<open>app/core/redaction.py\<close>): the three layers that are in use and the
  pipeline that runs them and writes one audit row per redacted field. A layer maps an event to
  the new event and the rules that fired with their field paths.

  The tainted-string layer sorts a Python set by length; the order among needles of one length is
  the set's, so the sorted needles are an argument (\<open>needle_order\<close> says what they are).
\<close>

type_synonym fired = "(string \<times> string) list"

subsection \<open>Shell patterns (\<open>fnmatch.fnmatchcase\<close>)\<close>

fun class_items :: "string \<Rightarrow> (char \<times> char) list" where
  "class_items (a # CHR ''-'' # b # r) = (a, b) # class_items r"
| "class_items (a # r) = (a, a) # class_items r"
| "class_items [] = []"

definition in_class :: "string \<Rightarrow> char \<Rightarrow> bool" where
  "in_class stuff c =
     (let negated = (take 1 stuff = ''!'');
          hit = list_ex (\<lambda>(a, b). of_char a \<le> (of_char c :: nat) \<and> (of_char c :: nat) \<le> of_char b)
                  (class_items (if negated then drop 1 stuff else stuff))
      in if negated then \<not> hit else hit)"

text \<open>After \<open>[\<close>: the class and what follows its closing bracket, which may not come first.\<close>

definition class_end :: "string \<Rightarrow> (string \<times> string) option" where
  "class_end p =
     (let lead = (if take 1 p = ''!'' then 1 else 0);
          lead = (if take 1 (drop lead p) = '']'' then Suc lead else lead);
          body = takeWhile (\<lambda>c. c \<noteq> CHR '']'') (drop lead p);
          rest = drop (lead + length body) p
      in if rest = [] then None else Some (take lead p @ body, drop 1 rest))"

lemma class_end_shorter: "class_end p = Some (stuff, rest) \<Longrightarrow> length rest < Suc (length p)"
  by (auto simp: class_end_def Let_def split: if_splits)

function glob :: "string \<Rightarrow> string \<Rightarrow> bool" where
  "glob [] s = (s = [])"
| "glob (c # p) s =
     (if c = CHR ''*'' then glob p s \<or> (case s of [] \<Rightarrow> False | _ # t \<Rightarrow> glob (c # p) t)
      else case s of
        [] \<Rightarrow> False
      | x # t \<Rightarrow>
          if c = CHR ''?'' then glob p t
          else if c = CHR ''['' then
            (case class_end p of
               None \<Rightarrow> x = c \<and> glob p t
             | Some (stuff, rest) \<Rightarrow> in_class stuff x \<and> glob rest t)
          else x = c \<and> glob p t)"
  by pat_completeness auto
termination
  by (relation "measure (\<lambda>(p, s). length p + length s)") (auto dest: class_end_shorter)

definition matches_any :: "string list \<Rightarrow> string \<Rightarrow> bool" where
  "matches_any patterns key = list_ex (\<lambda>p. glob p key) patterns"

subsection \<open>Field paths\<close>

definition sub_path :: "string \<Rightarrow> string \<Rightarrow> string" where
  "sub_path path k = (if path = [] then k else path @ ''.'' @ k)"

definition item_path :: "string \<Rightarrow> nat \<Rightarrow> string" where
  "item_path path i = path @ ''['' @ nat_str i @ '']''"

fun is_container :: "json \<Rightarrow> bool" where
  "is_container (JObj d) = True"
| "is_container (JList xs) = True"
| "is_container _ = False"

subsection \<open>The denylist layer\<close>

definition denied_text :: string where "denied_text = ''[REDACTED:config_denylist]''"

text \<open>\<open>m\<close> is the key test. The value of a dict marked \<open>secret\<close> is replaced before its keys are visited.\<close>

fun deny :: "(string \<Rightarrow> bool) \<Rightarrow> string \<Rightarrow> json \<Rightarrow> json \<times> fired"
  and deny_items :: "(string \<Rightarrow> bool) \<Rightarrow> string \<Rightarrow> bool \<Rightarrow> dict \<Rightarrow> dict \<times> fired"
  and deny_elems :: "(string \<Rightarrow> bool) \<Rightarrow> string \<Rightarrow> nat \<Rightarrow> json list \<Rightarrow> json list \<times> fired" where
  "deny m path (JObj d) =
     (let secret = (dget d ''secret'' = Some (JBool True) \<and> dget d ''value'' \<noteq> None) in
      case deny_items m path secret d of (d', f) \<Rightarrow>
        (JObj d', (if secret then [(''denylist:env.secret-true'', sub_path path ''value'')] else []) @ f))"
| "deny m path (JList xs) = (case deny_elems m path 0 xs of (ys, f) \<Rightarrow> (JList ys, f))"
| "deny m path v = (v, [])"
| "deny_items m path secret [] = ([], [])"
| "deny_items m path secret ((k, v) # d) =
     (case deny_items m path secret d of (d', f) \<Rightarrow>
        if secret \<and> k = ''value''
        then ((k, JStr denied_text) # d', (if m k then [(''denylist:'' @ k, sub_path path k)] else []) @ f)
        else if is_container v
        then (case deny m (sub_path path k) v of (w, g) \<Rightarrow> ((k, w) # d', g @ f))
        else if m k then ((k, JStr denied_text) # d', (''denylist:'' @ k, sub_path path k) # f)
        else ((k, v) # d', f))"
| "deny_elems m path i [] = ([], [])"
| "deny_elems m path i (x # xs) =
     (case deny m (item_path path i) x of (y, g) \<Rightarrow>
      case deny_elems m path (Suc i) xs of (ys, f) \<Rightarrow> (y # ys, g @ f))"

definition config_denylist :: "string list \<Rightarrow> json \<Rightarrow> json \<times> fired" where
  "config_denylist patterns event = deny (matches_any patterns) [] event"

subsection \<open>The vault layer\<close>

definition vault_marker :: string where "vault_marker = ''__range42_vault_origin__''"

definition vault_text :: string where "vault_text = ''[REDACTED:vault_tagged]''"

definition vault_rule :: "json \<Rightarrow> string option" where
  "vault_rule v =
     (case v of
        JObj d \<Rightarrow> if dget d vault_marker = Some (JBool True) then Some ''vault:tagged-value'' else None
      | JStr s \<Rightarrow> if prefix ''!vault'' (dropWhile py_space s) then Some ''vault:ansible-vault-inline'' else None
      | _ \<Rightarrow> None)"

text \<open>The values below a value; whether a value itself is replaced is decided where it is held.\<close>

fun vault_walk :: "string \<Rightarrow> json \<Rightarrow> json \<times> fired"
  and vault_items :: "string \<Rightarrow> dict \<Rightarrow> dict \<times> fired"
  and vault_elems :: "string \<Rightarrow> nat \<Rightarrow> json list \<Rightarrow> json list \<times> fired" where
  "vault_walk path v =
     (if vault_rule v \<noteq> None then (v, [])
      else case v of
        JObj d \<Rightarrow> (case vault_items path d of (d', f) \<Rightarrow> (JObj d', f))
      | JList xs \<Rightarrow> (case vault_elems path 0 xs of (ys, f) \<Rightarrow> (JList ys, f))
      | _ \<Rightarrow> (v, []))"
| "vault_items path [] = ([], [])"
| "vault_items path ((k, v) # d) =
     (case vault_items path d of (d', f) \<Rightarrow>
      case vault_rule v of
        Some rule \<Rightarrow> ((k, JStr vault_text) # d', (rule, sub_path path k) # f)
      | None \<Rightarrow> (case vault_walk (sub_path path k) v of (w, g) \<Rightarrow> ((k, w) # d', g @ f)))"
| "vault_elems path i [] = ([], [])"
| "vault_elems path i (x # xs) =
     (case vault_elems path (Suc i) xs of (ys, f) \<Rightarrow>
      case vault_rule x of
        Some rule \<Rightarrow> (JStr vault_text # ys, (rule, item_path path i) # f)
      | None \<Rightarrow> (case vault_walk (item_path path i) x of (y, g) \<Rightarrow> (y # ys, g @ f)))"

definition vault_tagged :: "json \<Rightarrow> json \<times> fired" where
  "vault_tagged event = vault_walk [] event"

subsection \<open>The tainted-string layer\<close>

definition taint_text :: string where "taint_text = ''[REDACTED:tainted_string]''"

text \<open>\<open>json.dumps(s)[1:-1]\<close>, and with \<open>ensure_ascii=False\<close>.\<close>

definition ascii_body :: "string \<Rightarrow> string" where
  "ascii_body s = concat (map esc_char s)"

definition plain_body :: "string \<Rightarrow> string" where
  "plain_body s = concat (map (\<lambda>c. if (126::nat) < of_char c then [c] else esc_char c) s)"

definition needle_set :: "string set \<Rightarrow> string set" where
  "needle_set secrets = (let S = secrets - {[]} in S \<union> ascii_body ` S \<union> plain_body ` S)"

definition needle_order :: "string set \<Rightarrow> string list \<Rightarrow> bool" where
  "needle_order secrets ns = (distinct ns \<and> set ns = needle_set secrets \<and> sorted (rev (map length ns)))"

fun redact_string :: "string list \<Rightarrow> string \<Rightarrow> string \<Rightarrow> string \<times> fired" where
  "redact_string [] path out = (out, [])"
| "redact_string (t # ts) path out =
     (if t \<noteq> [] \<and> sublist t out
      then (case redact_string ts path (str_replace t taint_text out) of (r, f) \<Rightarrow>
              (r, (''tainted_string:known-secret'', path) # f))
      else redact_string ts path out)"

fun taint_walk :: "string list \<Rightarrow> string \<Rightarrow> json \<Rightarrow> json \<times> fired"
  and taint_items :: "string list \<Rightarrow> string \<Rightarrow> dict \<Rightarrow> dict \<times> fired"
  and taint_elems :: "string list \<Rightarrow> string \<Rightarrow> nat \<Rightarrow> json list \<Rightarrow> json list \<times> fired" where
  "taint_walk ns path (JObj d) = (case taint_items ns path d of (d', f) \<Rightarrow> (JObj d', f))"
| "taint_walk ns path (JList xs) = (case taint_elems ns path 0 xs of (ys, f) \<Rightarrow> (JList ys, f))"
| "taint_walk ns path (JStr s) = (case redact_string ns path s of (t, f) \<Rightarrow> (JStr t, f))"
| "taint_walk ns path v = (v, [])"
| "taint_items ns path [] = ([], [])"
| "taint_items ns path ((k, v) # d) =
     (case taint_walk ns (sub_path path k) v of (w, g) \<Rightarrow>
      case taint_items ns path d of (d', f) \<Rightarrow> ((k, w) # d', g @ f))"
| "taint_elems ns path i [] = ([], [])"
| "taint_elems ns path i (x # xs) =
     (case taint_walk ns (item_path path i) x of (y, g) \<Rightarrow>
      case taint_elems ns path (Suc i) xs of (ys, f) \<Rightarrow> (y # ys, g @ f))"

definition tainted_string :: "string list \<Rightarrow> json \<Rightarrow> json \<times> fired" where
  "tainted_string ns event = (if ns = [] then (event, []) else taint_walk ns [] event)"

subsection \<open>The pipeline\<close>

record audit_row =
  ar_deployment :: string
  ar_attempt :: string
  ar_layer :: string
  ar_rule :: string
  ar_event_seq :: int
  ar_path :: string

text \<open>\<open>int(event.get("event_seq") or 0)\<close>, evaluated for each row.\<close>

definition audit_seq :: "json \<Rightarrow> int res" where
  "audit_seq event =
     (case event of
        JObj d \<Rightarrow> (let v = jget d ''event_seq'' in if truthy v then int_of_json v else Inr 0)
      | _ \<Rightarrow> Inl AttributeError)"

fun run_pipeline ::
    "string \<Rightarrow> string \<Rightarrow> (string \<times> (json \<Rightarrow> json \<times> fired)) list \<Rightarrow> json \<Rightarrow> (json \<times> audit_row list) res" where
  "run_pipeline dep att [] event = Inr (event, [])"
| "run_pipeline dep att ((name, layer) # layers) event =
     (case layer event of (current, fired) \<Rightarrow>
      bindE (mapE (\<lambda>(rule, path). bindE (audit_seq current) (\<lambda>seq.
               Inr \<lparr>ar_deployment = dep, ar_attempt = att, ar_layer = name, ar_rule = rule,
                     ar_event_seq = seq, ar_path = path\<rparr>)) fired) (\<lambda>rows.
      bindE (run_pipeline dep att layers current) (\<lambda>(result, more). Inr (result, rows @ more))))"

subsection \<open>No denied value is left\<close>

text \<open>
  Every plain value under a denied key, at any depth, is the placeholder, and so is the value of
  every dict still marked secret.
\<close>

fun denied_clean :: "(string \<Rightarrow> bool) \<Rightarrow> json \<Rightarrow> bool" where
  "denied_clean m (JObj d) =
     (list_all (\<lambda>(k, v). (is_container v \<or> (m k \<longrightarrow> v = JStr denied_text)) \<and> denied_clean m v) d
      \<and> (dget d ''secret'' = Some (JBool True) \<longrightarrow> dget d ''value'' \<in> {None, Some (JStr denied_text)}))"
| "denied_clean m (JList xs) = list_all (denied_clean m) xs"
| "denied_clean m v = True"

lemma is_container_deny: "deny m path v = (w, g) \<Longrightarrow> is_container w = is_container v"
  by (cases v) (auto simp: Let_def split: prod.splits)

lemma denied_clean_plain: "\<not> is_container v \<Longrightarrow> denied_clean m v"
  by (cases v) auto

lemma deny_items_dget:
  "dget (fst (deny_items m path s d)) k = Some (JBool b) \<Longrightarrow> dget d k = Some (JBool b)"
proof (induction d)
  case (Cons p d)
  obtain k' v where p: "p = (k', v)" by (cases p)
  show ?case
    using Cons is_container_deny [of m "sub_path path k'" v "JBool b"]
    by (auto simp: p dget_def split: prod.splits if_splits)
qed simp

lemma deny_items_value:
  "dget d ''value'' \<noteq> None \<Longrightarrow> dget (fst (deny_items m path True d)) ''value'' = Some (JStr denied_text)"
  by (induction d) (auto simp: dget_def split: prod.splits)

lemma deny_items_keys: "map fst (fst (deny_items m path s d)) = map fst d"
  by (induction d) (auto split: prod.splits)

lemma dget_None_keys: "dget d k = None \<longleftrightarrow> k \<notin> set (map fst d)"
  by (auto simp: dget_def map_of_eq_None_iff)

definition entry_clean :: "(string \<Rightarrow> bool) \<Rightarrow> string \<times> json \<Rightarrow> bool" where
  "entry_clean m = (\<lambda>(k, v). (is_container v \<or> (m k \<longrightarrow> v = JStr denied_text)) \<and> denied_clean m v)"

lemma entry_clean_pair [simp]:
  "entry_clean m (k, v) = ((is_container v \<or> (m k \<longrightarrow> v = JStr denied_text)) \<and> denied_clean m v)"
  by (simp add: entry_clean_def)

lemma deny_obj:
  "fst (deny m path (JObj d))
     = JObj (fst (deny_items m path (dget d ''secret'' = Some (JBool True) \<and> dget d ''value'' \<noteq> None) d))"
  by (simp add: Let_def split: prod.split)

lemma deny_clean:
  "denied_clean m (fst (deny m path v))"
  "list_all (entry_clean m) (fst (deny_items m path secret d))"
  "list_all (denied_clean m) (fst (deny_elems m path i xs))"
proof (induction m path v and m path secret d and m path i xs rule: deny_deny_items_deny_elems.induct)
  case (1 m path d)
  let ?s = "dget d ''secret'' = Some (JBool True) \<and> dget d ''value'' \<noteq> None"
  let ?d = "fst (deny_items m path ?s d)"
  have "dget ?d ''value'' \<in> {None, Some (JStr denied_text)}" if "dget ?d ''secret'' = Some (JBool True)"
  proof (cases "dget d ''value''")
    case None
    then have "dget ?d ''value'' = None" by (simp add: dget_None_keys deny_items_keys)
    then show ?thesis by simp
  next
    case (Some v)
    then have "?s" using deny_items_dget [OF that] by simp
    then show ?thesis using deny_items_value [of d m path] Some by simp
  qed
  moreover have "list_all (entry_clean m) ?d" using 1 by simp
  ultimately show ?case unfolding deny_obj denied_clean.simps entry_clean_def by (intro conjI impI)
next
  case (5 m path secret k v d)
  show ?case
    using 5 is_container_deny [of m "sub_path path k" v] denied_clean_plain [of v m]
    by (auto split: prod.splits)
qed (auto split: prod.splits)

text \<open>
  After the denylist layer, whatever the event, every value that is neither a dict nor a list
  and is held at any depth under a key that a configured pattern matches is the placeholder; and so
  is the value of every dict that is marked secret.
\<close>

theorem denylist_hides: "denied_clean (matches_any patterns) (fst (config_denylist patterns event))"
  using deny_clean(1) by (simp add: config_denylist_def)

subsection \<open>No known secret is left\<close>

text \<open>
  Replacing cannot bring a needle back when it shares nothing with the placeholder: it has no
  bracket and does not occur inside.
\<close>

definition taint_body :: string where "taint_body = ''REDACTED:tainted_string''"

definition separable :: "string \<Rightarrow> bool" where
  "separable t = (t \<noteq> [] \<and> CHR ''['' \<notin> set t \<and> CHR '']'' \<notin> set t \<and> \<not> sublist t taint_body)"

lemma taint_text_parts: "taint_text = CHR ''['' # taint_body @ [CHR '']'']"
  by (simp add: taint_text_def taint_body_def)

lemma sublist_taint_text: "sublist t taint_text \<Longrightarrow> \<not> separable t"
proof (rule notI)
  assume "sublist t taint_text" and t: "separable t"
  then obtain a b where ab: "CHR ''['' # taint_body @ [CHR '']''] = a @ t @ b"
    by (auto simp: sublist_def taint_text_parts)
  have ne: "t \<noteq> []" "CHR ''['' \<notin> set t" "CHR '']'' \<notin> set t" using t by (simp_all add: separable_def)
  obtain a' where a: "a = CHR ''['' # a'" using ab ne by (cases a; cases t) auto
  obtain b' where b: "b = b' @ [CHR '']'']" using ab ne by (cases b rule: rev_cases; cases t rule: rev_cases) auto
  have "taint_body = a' @ t @ b'" using ab by (simp add: a b)
  then show False using t by (auto simp: separable_def sublist_def)
qed

lemma sublist_after_text:
  assumes "separable t" and "sublist t (taint_text @ r)"
  shows "sublist t r"
proof -
  from assms(2) consider "sublist t taint_text" | "sublist t r"
    | a b where "t = a @ b" "suffix a taint_text" "prefix b r"
    unfolding sublist_append by blast
  then show ?thesis
  proof cases
    case (3 a b)
    have "a = []"
    proof (cases a rule: rev_cases)
      case (snoc y c)
      then have "c = CHR '']''" using 3(2) by (auto simp: suffix_def taint_text_parts)
      then show ?thesis using assms(1) 3(1) snoc by (simp add: separable_def)
    qed
    then show ?thesis using 3 by simp
  qed (use assms(1) sublist_taint_text in auto)
qed

lemma str_replace_Nil [simp]: "str_replace old new [] = []"
  by (subst str_replace.simps) simp

lemma str_replace_Cons:
  "old \<noteq> [] \<Longrightarrow> str_replace old new (c # cs) =
     (if prefix old (c # cs) then new @ str_replace old new (drop (length old) (c # cs)) else c # str_replace old new cs)"
  by (subst str_replace.simps) simp

lemma str_replace_empty: "str_replace [] new s = s"
  by (subst str_replace.simps) simp

lemma prefix_replaced: "CHR ''['' \<notin> set u \<Longrightarrow> prefix u (str_replace old taint_text s) \<Longrightarrow> prefix u s"
proof (induction s arbitrary: u)
  case (Cons c cs)
  show ?case
  proof (cases u)
    case (Cons x v)
    show ?thesis
    proof (cases "old = [] \<or> prefix old (c # cs)")
      case True
      have "x \<noteq> CHR ''[''" using Cons.prems(1) Cons by auto
      then have "old = []" using Cons.prems(2) Cons True by (cases "old = []") (auto simp: str_replace_Cons taint_text_parts)
      then show ?thesis using Cons.prems(2) by (simp add: str_replace_empty)
    next
      case False
      then have "prefix v (str_replace old taint_text cs)" "x = c"
        using Cons.prems(2) Cons by (auto simp: str_replace_Cons)
      then show ?thesis using Cons.IH [of v] Cons.prems(1) Cons by simp
    qed
  qed simp
qed simp

lemma sublist_replaced:
  assumes t: "separable t" and "sublist t (str_replace old taint_text s)"
  shows "sublist t s \<and> \<not> (t = old)"
  using assms(2)
proof (induction "length s" arbitrary: s rule: less_induct)
  case less
  have ne: "t \<noteq> []" "CHR ''['' \<notin> set t" using t by (simp_all add: separable_def)
  show ?case
  proof (cases s)
    case Nil
    then show ?thesis using less.prems ne by simp
  next
    case (Cons c cs)
    show ?thesis
    proof (cases "old \<noteq> [] \<and> prefix old s")
      case True
      then have "sublist t (taint_text @ str_replace old taint_text (drop (length old) s))"
        using less.prems Cons by (simp add: str_replace_Cons)
      then have "sublist t (str_replace old taint_text (drop (length old) s))" by (rule sublist_after_text [OF t])
      moreover have "length (drop (length old) s) < length s" using True Cons by (cases old) auto
      ultimately have "sublist t (drop (length old) s) \<and> t \<noteq> old" using less.hyps by blast
      then show ?thesis by (meson sublist_drop sublist_order.order_trans)
    next
      case False
      then have r: "old = [] \<or> str_replace old taint_text s = c # str_replace old taint_text cs"
        using Cons by (cases "old = []") (auto simp: str_replace_Cons)
      show ?thesis
      proof (cases "old = []")
        case True
        then show ?thesis using less.prems ne by (simp add: str_replace_empty)
      next
        case nonempty: False
        then have whole: "str_replace old taint_text s = c # str_replace old taint_text cs" using r by simp
        from less.prems consider "prefix t (str_replace old taint_text s)" | "sublist t (str_replace old taint_text cs)"
          unfolding whole by (auto simp: sublist_Cons_right)
        then show ?thesis
        proof cases
          case 1
          then have "prefix t s" by (rule prefix_replaced [OF ne(2)])
          moreover from this have "t \<noteq> old" using False nonempty by auto
          ultimately show ?thesis by (simp add: prefix_imp_sublist)
        next
          case 2
          then have "sublist t cs \<and> t \<noteq> old" using less.hyps [of cs] Cons by simp
          then show ?thesis using Cons by (simp add: sublist_Cons_right)
        qed
      qed
    qed
  qed
qed

lemma redact_string_clean:
  "list_all separable ns \<Longrightarrow> t \<in> set ns \<or> \<not> sublist t s \<and> separable t \<Longrightarrow> \<not> sublist t (fst (redact_string ns path s))"
proof (induction ns path s rule: redact_string.induct)
  case (1 path s)
  then show ?case by simp
next
  case (2 n ns path s)
  show ?case
  proof (cases "sublist n s")
    case True
    have n: "separable n" "n \<noteq> []" using "2.prems"(1) by (simp_all add: separable_def)
    have "t \<in> set ns \<or> \<not> sublist t (str_replace n taint_text s) \<and> separable t"
      using "2.prems" sublist_replaced [of t n s] n by auto
    then have "\<not> sublist t (fst (redact_string ns path (str_replace n taint_text s)))"
      using "2.IH"(1) True n "2.prems"(1) by simp
    then show ?thesis using True n(2) by (simp add: case_prod_beta)
  next
    case False
    then have "t \<in> set ns \<or> \<not> sublist t s \<and> separable t" using "2.prems" by auto
    then show ?thesis using "2.IH"(2) False "2.prems"(1) by simp
  qed
qed

text \<open>Whether a string occurs in some string value of an event (keys are not values).\<close>

fun occurs :: "string \<Rightarrow> json \<Rightarrow> bool" where
  "occurs t (JStr s) = sublist t s"
| "occurs t (JList xs) = list_ex (occurs t) xs"
| "occurs t (JObj d) = list_ex (\<lambda>(k, v). occurs t v) d"
| "occurs t _ = False"

lemma taint_walk_clean:
  assumes ns: "list_all separable ns" "t \<in> set ns"
  shows "\<not> occurs t (fst (taint_walk ns path v))"
    and "\<not> occurs t (JObj (fst (taint_items ns path d)))"
    and "\<not> occurs t (JList (fst (taint_elems ns path i xs)))"
  using assms
proof (induction ns path v and ns path d and ns path i xs rule: taint_walk_taint_items_taint_elems.induct)
  case (3 ns path s)
  then show ?case using redact_string_clean [of ns t s path] by (auto split: prod.splits)
qed (auto split: prod.splits)



text \<open>
  A denied key whose value is an object or a list is not replaced: its value is only searched
  further, so what lies under other names in it stays.
\<close>

theorem denied_object_is_searched_only:
  "fst (config_denylist [''password''] (JObj [(''password'', JObj [(''raw'', JStr ''hunter2'')])]))
     = JObj [(''password'', JObj [(''raw'', JStr ''hunter2'')])]"
  by code_simp

text \<open>The marker of a resolved secret on the event itself is not looked at.\<close>

theorem marked_event_is_kept:
  "fst (vault_tagged (JObj [(vault_marker, JBool True), (''value'', JStr ''hunter2'')]))
     = JObj [(vault_marker, JBool True), (''value'', JStr ''hunter2'')]"
  by code_simp

end
