(* ===== verification/Catalog_Cache.thy ===== *)
theory Catalog_Cache
  imports Prelude "HOL-Library.AList"
begin

text \<open>
  The catalog's metadata cache (\<open>app/core/catalog_snapshots.py\<close>) and the registration of the
  default source (\<open>_register_default_source\<close> in \<open>app/routes/v1/catalog/sources.py\<close>).

  The cache is a state machine over its operations: \<open>get\<close>, \<open>invalidate\<close>, the end of a load (its
  result stored by \<open>_load\<close>, or an exception), and the task's done callback. Any of them may come
  between any others. Times are rationals, an entry is of any type \<open>'e\<close> and its size in bytes is
  the parameter \<open>bytes_of\<close>. The tasks started so far are kept as a list, so that the model can say
  which of them an answer comes from. The semaphore only delays loads and is not modelled.
\<close>

subsection \<open>The state of the cache\<close>

record cache_config =
  cc_ttl :: rat
  cc_max_entries :: int
  cc_max_bytes :: int

record 'e cached =
  cr_expires :: rat
  cr_entries :: "'e list"
  cr_bytes :: int

datatype 'e task_state = Loading | Returned "'e list" rat | Raised

record 'e load_task =
  lt_generation :: nat
  lt_key :: string
  lt_state :: "'e task_state"

record 'e catalog_cache =
  ca_snapshots :: "(string \<times> 'e cached) list"
  ca_pending :: "((nat \<times> string) \<times> nat) list"
  ca_generation :: nat
  ca_tasks :: "'e load_task list"

definition empty_cache :: "'e catalog_cache" where
  "empty_cache = \<lparr>ca_snapshots = [], ca_pending = [], ca_generation = 0, ca_tasks = []\<rparr>"

datatype 'e cache_reply = Hit "'e list" | Awaits nat

subsection \<open>Its operations\<close>

definition invalidate :: "'e catalog_cache \<Rightarrow> 'e catalog_cache" where
  "invalidate c = c\<lparr>ca_generation := Suc (ca_generation c), ca_snapshots := []\<rparr>"

definition drop_expired :: "rat \<Rightarrow> (string \<times> 'e cached) list \<Rightarrow> (string \<times> 'e cached) list" where
  "drop_expired now d = filter (\<lambda>(k, r). \<not> cr_expires r \<le> now) d"

definition move_to_end :: "string \<Rightarrow> 'a \<Rightarrow> (string \<times> 'a) list \<Rightarrow> (string \<times> 'a) list" where
  "move_to_end k v d = AList.delete k d @ [(k, v)]"

text \<open>A miss joins the load of the same key and generation, or starts one.\<close>

definition cache_get :: "rat \<Rightarrow> string \<Rightarrow> 'e catalog_cache \<Rightarrow> 'e catalog_cache \<times> 'e cache_reply" where
  "cache_get now key c =
     (let kept = drop_expired now (ca_snapshots c); c = c\<lparr>ca_snapshots := kept\<rparr>;
          pending_key = (ca_generation c, key)
      in case map_of kept key of
           Some r \<Rightarrow> (c\<lparr>ca_snapshots := move_to_end key r kept\<rparr>, Hit (cr_entries r))
         | None \<Rightarrow>
             (case map_of (ca_pending c) pending_key of
                Some i \<Rightarrow> (c, Awaits i)
              | None \<Rightarrow>
                  (c\<lparr>ca_tasks := ca_tasks c @ [\<lparr>lt_generation = ca_generation c, lt_key = key, lt_state = Loading\<rparr>],
                     ca_pending := ca_pending c @ [(pending_key, length (ca_tasks c))]\<rparr>,
                   Awaits (length (ca_tasks c)))))"

definition bytes_held :: "(string \<times> 'e cached) list \<Rightarrow> int" where
  "bytes_held d = sum_list (map (\<lambda>(k, r). cr_bytes r) d)"

definition over_limit :: "cache_config \<Rightarrow> (string \<times> 'e cached) list \<Rightarrow> bool" where
  "over_limit cfg d = (cc_max_entries cfg < int (length d) \<or> cc_max_bytes cfg < bytes_held d)"

text \<open>\<open>popitem\<close> of an empty dict raises KeyError.\<close>

fun evict :: "cache_config \<Rightarrow> (string \<times> 'e cached) list \<Rightarrow> (string \<times> 'e cached) list res" where
  "evict cfg [] = (if over_limit cfg ([] :: (string \<times> 'e cached) list) then Inl KeyError else Inr [])"
| "evict cfg (p # d) = (if over_limit cfg (p # d) then evict cfg d else Inr (p # d))"

definition set_task :: "nat \<Rightarrow> 'e task_state \<Rightarrow> 'e catalog_cache \<Rightarrow> 'e catalog_cache" where
  "set_task i s c = c\<lparr>ca_tasks := (ca_tasks c)[i := (ca_tasks c ! i)\<lparr>lt_state := s\<rparr>]\<rparr>"

text \<open>A loader has returned: the rest of \<open>_load\<close>.\<close>

definition load_done ::
    "('e \<Rightarrow> nat) \<Rightarrow> cache_config \<Rightarrow> nat \<Rightarrow> 'e list \<Rightarrow> rat \<Rightarrow> 'e catalog_cache \<Rightarrow> 'e catalog_cache" where
  "load_done bytes_of cfg i entries now c =
     (let t = ca_tasks c ! i; size = int (sum_list (map bytes_of entries)) in
      if lt_generation t = ca_generation c \<and> size \<le> cc_max_bytes cfg
      then let row = \<lparr>cr_expires = now + cc_ttl cfg, cr_entries = entries, cr_bytes = size\<rparr>;
               d = AList.update (lt_key t) row (ca_snapshots c)
           in case evict cfg d of
                Inl e \<Rightarrow> set_task i Raised (c\<lparr>ca_snapshots := []\<rparr>)
              | Inr kept \<Rightarrow> set_task i (Returned entries now) (c\<lparr>ca_snapshots := kept\<rparr>)
      else set_task i (Returned entries now) c)"

definition finished_callback :: "nat \<Rightarrow> 'e catalog_cache \<Rightarrow> 'e catalog_cache" where
  "finished_callback i c =
     (let t = ca_tasks c ! i in
      c\<lparr>ca_pending := AList.delete (lt_generation t, lt_key t) (ca_pending c)\<rparr>)"

subsection \<open>Runs\<close>

datatype 'e cache_op =
    Get rat string
  | Invalidate
  | Loaded nat "'e list" rat
  | Failed nat
  | Callback nat

definition is_loading :: "nat \<Rightarrow> 'e catalog_cache \<Rightarrow> bool" where
  "is_loading i c = (i < length (ca_tasks c) \<and> (case lt_state (ca_tasks c ! i) of Loading \<Rightarrow> True | _ \<Rightarrow> False))"

definition is_done :: "nat \<Rightarrow> 'e catalog_cache \<Rightarrow> bool" where
  "is_done i c = (i < length (ca_tasks c) \<and> (case lt_state (ca_tasks c ! i) of Loading \<Rightarrow> False | _ \<Rightarrow> True))"

text \<open>Only a load under way can end, and only an ended one is called back.\<close>

fun cache_do :: "('e \<Rightarrow> nat) \<Rightarrow> cache_config \<Rightarrow> 'e catalog_cache \<Rightarrow> 'e cache_op \<Rightarrow> 'e catalog_cache" where
  "cache_do bytes_of cfg c (Get now key) = fst (cache_get now key c)"
| "cache_do bytes_of cfg c Invalidate = invalidate c"
| "cache_do bytes_of cfg c (Loaded i entries now) = (if is_loading i c then load_done bytes_of cfg i entries now c else c)"
| "cache_do bytes_of cfg c (Failed i) = (if is_loading i c then set_task i Raised c else c)"
| "cache_do bytes_of cfg c (Callback i) = (if is_done i c then finished_callback i c else c)"

definition cache_run :: "('e \<Rightarrow> nat) \<Rightarrow> cache_config \<Rightarrow> 'e cache_op list \<Rightarrow> 'e catalog_cache" where
  "cache_run bytes_of cfg ops = foldl (cache_do bytes_of cfg) empty_cache ops"

subsection \<open>The invariant\<close>

text \<open>What a cached row, and a pending entry, say of the task they come from.\<close>

definition loaded_by :: "cache_config \<Rightarrow> 'e catalog_cache \<Rightarrow> nat \<Rightarrow> string \<Rightarrow> 'e cached \<Rightarrow> bool" where
  "loaded_by cfg c i k r =
     (i < length (ca_tasks c) \<and> lt_generation (ca_tasks c ! i) = ca_generation c \<and> lt_key (ca_tasks c ! i) = k
      \<and> lt_state (ca_tasks c ! i) = Returned (cr_entries r) (cr_expires r - cc_ttl cfg))"

definition within_limits :: "cache_config \<Rightarrow> 'e catalog_cache \<Rightarrow> bool" where
  "within_limits cfg c = (\<not> over_limit cfg (ca_snapshots c))"

definition tagged :: "'e catalog_cache \<Rightarrow> (nat \<times> string) \<times> nat \<Rightarrow> bool" where
  "tagged c = (\<lambda>((g, k), i). i < length (ca_tasks c) \<and> lt_generation (ca_tasks c ! i) = g \<and> lt_key (ca_tasks c ! i) = k)"

definition cache_ok :: "cache_config \<Rightarrow> 'e catalog_cache \<Rightarrow> bool" where
  "cache_ok cfg c =
     (within_limits cfg c
      \<and> (\<forall>(k, r) \<in> set (ca_snapshots c). 0 \<le> cr_bytes r \<and> (\<exists>i. loaded_by cfg c i k r))
      \<and> list_all (tagged c) (ca_pending c))"

text \<open>The first \<open>n\<close> tasks belong to earlier generations.\<close>

definition outdated :: "nat \<Rightarrow> 'e catalog_cache \<Rightarrow> bool" where
  "outdated n c = (n \<le> length (ca_tasks c) \<and> (\<forall>i < n. lt_generation (ca_tasks c ! i) < ca_generation c))"
lemma evict_Inr: "evict cfg d = Inr kept \<Longrightarrow> \<not> over_limit cfg kept \<and> set kept \<subseteq> set d"
  by (induction d) (auto split: if_splits)

lemma evict_possible: "0 \<le> cc_max_entries cfg \<Longrightarrow> 0 \<le> cc_max_bytes cfg \<Longrightarrow> \<exists>kept. evict cfg d = Inr kept"
  by (induction d) (auto simp: over_limit_def bytes_held_def)

lemma bytes_held_Cons: "bytes_held ((k, r) # d) = cr_bytes r + bytes_held d"
  by (simp add: bytes_held_def)

lemma bytes_held_filter: "\<forall>(k, r) \<in> set d. 0 \<le> cr_bytes r \<Longrightarrow> bytes_held (filter P d) \<le> bytes_held d"
  by (induction d) (auto simp: bytes_held_def)

lemma not_over_limit_filter:
  "\<forall>(k, r) \<in> set d. 0 \<le> cr_bytes r \<Longrightarrow> \<not> over_limit cfg d \<Longrightarrow> \<not> over_limit cfg (filter P d)"
  using bytes_held_filter [of d P] length_filter_le [of P d] unfolding over_limit_def by linarith

lemma delete_shrinks:
  assumes "\<forall>(k, r) \<in> set d. 0 \<le> cr_bytes r" and "map_of d k = Some r"
  shows "length (AList.delete k d) < length d \<and> bytes_held (AList.delete k d) + cr_bytes r \<le> bytes_held d"
  using assms
proof (induction d)
  case (Cons p d)
  obtain k' r' where p: "p = (k', r')" by (cases p)
  show ?case
  proof (cases "k' = k")
    case True
    then have "bytes_held (AList.delete k d) \<le> bytes_held d" "length (AList.delete k d) \<le> length d"
      using Cons.prems(1) by (simp_all add: AList.delete_eq bytes_held_filter)
    then show ?thesis using True Cons.prems(2) p by (simp add: bytes_held_Cons)
  next
    case False
    then have "map_of d k = Some r" using Cons.prems(2) p by simp
    then show ?thesis using Cons.IH Cons.prems(1) p False by (simp add: bytes_held_Cons)
  qed
qed simp

lemma not_over_limit_move:
  assumes "\<forall>(k, r) \<in> set d. 0 \<le> cr_bytes r" and "map_of d k = Some r" and "\<not> over_limit cfg d"
  shows "\<not> over_limit cfg (move_to_end k r d)"
  using delete_shrinks [OF assms(1,2)] assms(3) by (auto simp: over_limit_def move_to_end_def bytes_held_def)

lemma set_move_to_end: "map_of d k = Some r \<Longrightarrow> set (move_to_end k r d) \<subseteq> set d"
  by (auto simp: move_to_end_def AList.delete_eq dest: map_of_SomeD)

lemma set_cache_update: "set (AList.update k v d) \<subseteq> insert (k, v) (set d)"
  by (induction d) auto

text \<open>What keeps the invariant when the tasks only grow or end.\<close>

definition tasks_kept :: "'e catalog_cache \<Rightarrow> 'e catalog_cache \<Rightarrow> bool" where
  "tasks_kept c c' =
     (length (ca_tasks c) \<le> length (ca_tasks c') \<and> ca_generation c' = ca_generation c
      \<and> (\<forall>i < length (ca_tasks c).
           lt_generation (ca_tasks c' ! i) = lt_generation (ca_tasks c ! i)
           \<and> lt_key (ca_tasks c' ! i) = lt_key (ca_tasks c ! i)
           \<and> (lt_state (ca_tasks c ! i) = Loading \<or> lt_state (ca_tasks c' ! i) = lt_state (ca_tasks c ! i))))"

lemma loaded_by_kept: "tasks_kept c c' \<Longrightarrow> loaded_by cfg c i k r \<Longrightarrow> loaded_by cfg c' i k r"
  unfolding tasks_kept_def loaded_by_def by auto

lemma tagged_kept: "tasks_kept c c' \<Longrightarrow> tagged c p \<Longrightarrow> tagged c' p"
  unfolding tasks_kept_def tagged_def by auto

lemma outdated_kept: "tasks_kept c c' \<Longrightarrow> outdated n c \<Longrightarrow> outdated n c'"
  unfolding tasks_kept_def outdated_def by auto

lemma cache_ok_kept:
  assumes "cache_ok cfg c" and "tasks_kept c c'" and "\<not> over_limit cfg (ca_snapshots c')"
    and "\<And>k r. (k, r) \<in> set (ca_snapshots c') \<Longrightarrow> (k, r) \<in> set (ca_snapshots c) \<or> 0 \<le> cr_bytes r \<and> (\<exists>i. loaded_by cfg c' i k r)"
    and "\<And>p. p \<in> set (ca_pending c') \<Longrightarrow> p \<in> set (ca_pending c) \<or> tagged c' p"
  shows "cache_ok cfg c'"
  using assms loaded_by_kept [OF assms(2)] tagged_kept [OF assms(2)]
  unfolding cache_ok_def within_limits_def list_all_iff by blast

lemma cache_okD:
  assumes "cache_ok cfg c"
  shows "\<not> over_limit cfg (ca_snapshots c)" and "\<forall>(k, r) \<in> set (ca_snapshots c). 0 \<le> cr_bytes r"
    and "(k, r) \<in> set (ca_snapshots c) \<Longrightarrow> \<exists>i. loaded_by cfg c i k r"
    and "p \<in> set (ca_pending c) \<Longrightarrow> tagged c p"
  using assms by (auto simp: cache_ok_def within_limits_def list_all_iff)

lemma set_task_kept: "is_loading i c \<Longrightarrow> tasks_kept c (set_task i s (c\<lparr>ca_snapshots := d\<rparr>))"
  by (auto simp: tasks_kept_def set_task_def is_loading_def nth_list_update split: task_state.splits)

lemma set_task_same [simp]:
  "ca_snapshots (set_task i s c) = ca_snapshots c" "ca_pending (set_task i s c) = ca_pending c"
  by (simp_all add: set_task_def)
lemma get_ok:
  assumes ok: "cache_ok cfg c" and get: "cache_get now key c = (c', reply)"
  shows "cache_ok cfg c' \<and> tasks_kept c c'"
proof -
  let ?kept = "drop_expired now (ca_snapshots c)" and ?pk = "(ca_generation c, key)"
  note c = cache_okD [OF ok]
  have rows: "\<forall>(k, r) \<in> set ?kept. 0 \<le> cr_bytes r" and sub: "set ?kept \<subseteq> set (ca_snapshots c)"
    using c(2) by (auto simp: drop_expired_def)
  have lim: "\<not> over_limit cfg ?kept" unfolding drop_expired_def by (rule not_over_limit_filter [OF c(2,1)])
  consider (hit) r where "map_of ?kept key = Some r" "c' = c\<lparr>ca_snapshots := move_to_end key r ?kept\<rparr>"
    | (join) "c' = c\<lparr>ca_snapshots := ?kept\<rparr>"
    | (start) "c' = c\<lparr>ca_snapshots := ?kept,
        ca_tasks := ca_tasks c @ [\<lparr>lt_generation = ca_generation c, lt_key = key, lt_state = Loading\<rparr>],
        ca_pending := ca_pending c @ [(?pk, length (ca_tasks c))]\<rparr>"
    using get by (auto simp: cache_get_def Let_def split: option.splits)
  then show ?thesis
  proof cases
    case hit
    then have "tasks_kept c c'" by (simp add: tasks_kept_def)
    moreover have "\<not> over_limit cfg (ca_snapshots c')"
      using not_over_limit_move [OF rows hit(1) lim] hit(2) by simp
    moreover have "set (ca_snapshots c') \<subseteq> set (ca_snapshots c)"
      using set_move_to_end [OF hit(1)] sub hit(2) by auto
    ultimately show ?thesis using cache_ok_kept [OF ok, of c'] hit(2) by auto
  next
    case join
    then have "tasks_kept c c'" by (simp add: tasks_kept_def)
    then show ?thesis using cache_ok_kept [OF ok, of c'] lim sub join by auto
  next
    case start
    then have "tasks_kept c c'" by (simp add: tasks_kept_def nth_append)
    moreover have "tagged c' (?pk, length (ca_tasks c))" using start by (simp add: tagged_def)
    ultimately show ?thesis using cache_ok_kept [OF ok, of c'] lim sub start by auto
  qed
qed

lemma load_done_ok:
  assumes lims: "0 \<le> cc_max_entries cfg" "0 \<le> cc_max_bytes cfg" and ok: "cache_ok cfg c" and run: "is_loading i c"
  shows "cache_ok cfg (load_done bytes_of cfg i entries now c) \<and> tasks_kept c (load_done bytes_of cfg i entries now c)"
proof -
  let ?t = "ca_tasks c ! i" and ?size = "int (sum_list (map bytes_of entries))"
  let ?c = "load_done bytes_of cfg i entries now c"
  note c = cache_okD [OF ok]
  show ?thesis
  proof (cases "lt_generation ?t = ca_generation c \<and> ?size \<le> cc_max_bytes cfg")
    case False
    then have eq: "?c = set_task i (Returned entries now) (c\<lparr>ca_snapshots := ca_snapshots c\<rparr>)"
      by (auto simp: load_done_def Let_def)
    have "tasks_kept c ?c" unfolding eq by (rule set_task_kept [OF run])
    then show ?thesis using cache_ok_kept [OF ok, of ?c] c(1) eq by simp
  next
    case True
    let ?row = "\<lparr>cr_expires = now + cc_ttl cfg, cr_entries = entries, cr_bytes = ?size\<rparr>"
    obtain kept where kept: "evict cfg (AList.update (lt_key ?t) ?row (ca_snapshots c)) = Inr kept"
      using evict_possible [OF lims] by blast
    then have eq: "?c = set_task i (Returned entries now) (c\<lparr>ca_snapshots := kept\<rparr>)"
      using True by (simp add: load_done_def Let_def)
    then have tk: "tasks_kept c ?c" using set_task_kept [OF run] by simp
    have row: "loaded_by cfg ?c i (lt_key ?t) ?row" "0 \<le> cr_bytes ?row"
      using run True by (simp_all add: eq loaded_by_def set_task_def is_loading_def sum_list_nonneg)
    have "set kept \<subseteq> insert (lt_key ?t, ?row) (set (ca_snapshots c))"
      using evict_Inr [OF kept] set_cache_update [of "lt_key ?t" ?row "ca_snapshots c"] by blast
    then have "(k, r) \<in> set (ca_snapshots c) \<or> 0 \<le> cr_bytes r \<and> (\<exists>i. loaded_by cfg ?c i k r)"
      if "(k, r) \<in> set (ca_snapshots ?c)" for k r
      using that row unfolding eq by auto
    then show ?thesis using cache_ok_kept [OF ok tk] evict_Inr [OF kept] tk by (simp add: eq)
  qed
qed

lemma do_ok:
  assumes lims: "0 \<le> cc_max_entries cfg" "0 \<le> cc_max_bytes cfg" and ok: "cache_ok cfg c"
  shows "cache_ok cfg (cache_do bytes_of cfg c op) \<and> (outdated n c \<longrightarrow> outdated n (cache_do bytes_of cfg c op))"
proof (cases op)
  case (Get now key)
  then show ?thesis using get_ok [OF ok] outdated_kept by (metis cache_do.simps(1) prod.collapse)
next
  case Invalidate
  have "cache_ok cfg (invalidate c)"
    using ok lims by (simp add: cache_ok_def invalidate_def within_limits_def over_limit_def bytes_held_def tagged_def list_all_iff)
  moreover have "outdated n c \<Longrightarrow> outdated n (invalidate c)"
    by (auto simp: outdated_def invalidate_def)
  ultimately show ?thesis using Invalidate by simp
next
  case (Loaded i entries now)
  then show ?thesis using load_done_ok [OF lims ok] ok outdated_kept by (metis cache_do.simps(3))
next
  case (Failed i)
  have "cache_ok cfg (set_task i Raised c) \<and> tasks_kept c (set_task i Raised c)" if "is_loading i c"
    using set_task_kept [OF that, of Raised "ca_snapshots c"] cache_ok_kept [OF ok, of "set_task i Raised c"] cache_okD(1) [OF ok]
    by simp
  then show ?thesis using Failed ok outdated_kept by (metis cache_do.simps(4))
next
  case (Callback i)
  have "tasks_kept c (finished_callback i c)" by (simp add: tasks_kept_def finished_callback_def Let_def)
  moreover have "cache_ok cfg (finished_callback i c)"
    using cache_ok_kept [OF ok calculation] cache_okD(1) [OF ok]
    by (auto simp: finished_callback_def Let_def AList.delete_eq)
  ultimately show ?thesis using Callback ok outdated_kept by (metis cache_do.simps(5))
qed

lemma run_ok_from:
  assumes lims: "0 \<le> cc_max_entries cfg" "0 \<le> cc_max_bytes cfg" and "cache_ok cfg c"
  shows "cache_ok cfg (foldl (cache_do bytes_of cfg) c ops)
     \<and> (outdated n c \<longrightarrow> outdated n (foldl (cache_do bytes_of cfg) c ops))"
  using assms(3)
proof (induction ops arbitrary: c)
  case (Cons op ops)
  then show ?case using do_ok [OF lims, of c bytes_of op n] by (metis foldl.simps(2))
qed simp
text \<open>An answer comes from a load of that key, not among the first \<open>n\<close>, and a hit from one that ended less than the ttl ago.\<close>

fun answered_from :: "cache_config \<Rightarrow> nat \<Rightarrow> rat \<Rightarrow> string \<Rightarrow> 'e catalog_cache \<Rightarrow> 'e cache_reply \<Rightarrow> bool" where
  "answered_from cfg n now key c (Hit entries) =
     (\<exists>i \<in> {n..<length (ca_tasks c)}. lt_key (ca_tasks c ! i) = key
        \<and> (case lt_state (ca_tasks c ! i) of Returned es t \<Rightarrow> es = entries \<and> now < t + cc_ttl cfg | _ \<Rightarrow> False))"
| "answered_from cfg n now key c (Awaits i) =
     (n \<le> i \<and> i < length (ca_tasks c) \<and> lt_key (ca_tasks c ! i) = key)"

lemma current_not_outdated:
  "outdated n c \<Longrightarrow> lt_generation (ca_tasks c ! i) = ca_generation c \<Longrightarrow> n \<le> i"
  unfolding outdated_def by (metis less_irrefl not_le_imp_less)

lemma get_answer:
  assumes ok: "cache_ok cfg c" and old: "outdated n c" and get: "cache_get now key c = (c', reply)"
  shows "answered_from cfg n now key c' reply"
proof (cases "map_of (drop_expired now (ca_snapshots c)) key")
  case (Some r)
  then have r: "(key, r) \<in> set (ca_snapshots c)" "now < cr_expires r"
    by (auto simp: drop_expired_def dest: map_of_SomeD)
  then obtain i where "loaded_by cfg c i key r" using cache_okD(3) [OF ok] by blast
  moreover from this have "n \<le> i" using current_not_outdated [OF old] by (simp add: loaded_by_def)
  ultimately show ?thesis using get Some r(2) by (auto simp: cache_get_def Let_def loaded_by_def intro!: bexI [of _ i])
next
  case miss: None
  show ?thesis
  proof (cases "map_of (ca_pending c) (ca_generation c, key)")
    case (Some i)
    then have "tagged c ((ca_generation c, key), i)" using cache_okD(4) [OF ok] by (auto dest: map_of_SomeD)
    then show ?thesis using get miss Some current_not_outdated [OF old, of i] by (auto simp: cache_get_def Let_def tagged_def)
  next
    case None
    then show ?thesis using get miss old by (auto simp: cache_get_def Let_def outdated_def)
  qed
qed

lemma run_keeps:
  assumes lims: "0 \<le> cc_max_entries cfg" "0 \<le> cc_max_bytes cfg"
  shows "cache_ok cfg (cache_run bytes_of cfg ops)"
proof -
  have "cache_ok cfg empty_cache"
    using lims by (simp add: cache_ok_def empty_cache_def within_limits_def over_limit_def bytes_held_def)
  then show ?thesis unfolding cache_run_def using run_ok_from [OF lims] by blast
qed

definition tasks_known :: "'e catalog_cache \<Rightarrow> bool" where
  "tasks_known c = list_all (\<lambda>t. lt_generation t \<le> ca_generation c) (ca_tasks c)"

lemma invalidate_outdates: "tasks_known c \<Longrightarrow> outdated (length (ca_tasks c)) (invalidate c)"
  by (simp add: tasks_known_def outdated_def invalidate_def list_all_length less_Suc_eq_le)

lemma set_task_known: "i < length (ca_tasks c) \<Longrightarrow> tasks_known c \<Longrightarrow> tasks_known (set_task i s (c\<lparr>ca_snapshots := d\<rparr>))"
  by (auto simp: tasks_known_def set_task_def list_all_length nth_list_update)

lemma load_done_known:
  assumes "i < length (ca_tasks c)" and "tasks_known c"
  shows "tasks_known (load_done bytes_of cfg i entries now c)"
  using set_task_known [OF assms] set_task_known [OF assms, of _ "ca_snapshots c"]
  by (simp add: load_done_def Let_def split: sum.split)

lemma get_known: "tasks_known c \<Longrightarrow> tasks_known (fst (cache_get now key c))"
  by (auto simp: tasks_known_def cache_get_def Let_def split: option.split)

lemma do_known:
  assumes "tasks_known c"
  shows "tasks_known (cache_do bytes_of cfg c op)"
proof (cases op)
  case Invalidate
  then show ?thesis using assms by (auto simp: tasks_known_def invalidate_def list_all_iff intro: le_SucI)
next
  case (Failed i)
  then show ?thesis using assms set_task_known [of i c Raised "ca_snapshots c"] by (simp add: is_loading_def)
next
  case (Callback i)
  then show ?thesis using assms by (simp add: tasks_known_def finished_callback_def Let_def)
qed (use assms in \<open>simp_all add: get_known load_done_known is_loading_def\<close>)

lemma run_known: "tasks_known (cache_run bytes_of cfg ops)"
  by (induction ops rule: rev_induct) (simp_all add: cache_run_def do_known, simp add: tasks_known_def empty_cache_def)

text \<open>
  C23: Whatever loads are under way and in whatever order they end, after an invalidation the cache
  answers only from loads that were started after it: a load begun before an edit or a refresh never
  fills it again. A hit is younger than the ttl, and the cache never holds more entries or bytes
  than its limits.
\<close>

theorem no_stale_catalog:
  assumes lims: "0 \<le> cc_max_entries cfg" "0 \<le> cc_max_bytes cfg"
    and before: "c1 = cache_run bytes_of cfg ops" and after: "c2 = cache_run bytes_of cfg (ops @ Invalidate # later)"
    and get: "cache_get now key c2 = (c3, reply)"
  shows "answered_from cfg (length (ca_tasks c1)) now key c3 reply
     \<and> int (length (ca_snapshots c3)) \<le> cc_max_entries cfg \<and> bytes_held (ca_snapshots c3) \<le> cc_max_bytes cfg"
proof -
  have c2: "c2 = foldl (cache_do bytes_of cfg) (invalidate c1) later" by (simp add: after before cache_run_def)
  have "outdated (length (ca_tasks c1)) (invalidate c1)"
    unfolding before by (rule invalidate_outdates [OF run_known])
  moreover have "cache_ok cfg (invalidate c1)"
    using do_ok [OF lims run_keeps [OF lims], of bytes_of bytes_of ops Invalidate] by (simp add: before)
  ultimately have c2_ok: "cache_ok cfg c2" "outdated (length (ca_tasks c1)) c2"
    unfolding c2 using run_ok_from [OF lims] by blast+
  have "answered_from cfg (length (ca_tasks c1)) now key c3 reply" by (rule get_answer [OF c2_ok get])
  moreover have "\<not> over_limit cfg (ca_snapshots c3)" using get_ok [OF c2_ok(1) get] cache_okD(1) by blast
  ultimately show ?thesis by (simp add: over_limit_def)
qed

definition small_cache :: cache_config where
  "small_cache = \<lparr>cc_ttl = 30, cc_max_entries = 1, cc_max_bytes = 100\<rparr>"

lemma no_stale_catalog_witness:
  "\<exists>c. cache_get 4 ''a'' (cache_run id small_cache ([Get 0 ''a''] @ Invalidate # [Loaded 0 [1] 1, Get 2 ''a'', Loaded 1 [2] 3]))
         = (c, Hit [2])
     \<and> answered_from small_cache 1 4 ''a'' c (Hit [2]) \<and> bytes_held (ca_snapshots c) \<le> 100"
proof -
  let ?c1 = "cache_run id small_cache [Get 0 ''a'']"
  let ?c2 = "cache_run id small_cache ([Get 0 ''a''] @ Invalidate # [Loaded 0 [1] 1, Get 2 ''a'', Loaded 1 [2] 3])"
  have "snd (cache_get 4 ''a'' ?c2) = Hit [2]" "length (ca_tasks ?c1) = 1" by code_simp+
  then obtain c where get: "cache_get 4 ''a'' ?c2 = (c, Hit [2])" by (metis prod.collapse)
  from no_stale_catalog [OF _ _ refl refl this] \<open>length (ca_tasks ?c1) = 1\<close> get show ?thesis
    by (auto simp: small_cache_def)
qed

end
