(* ===== verification/Catalog_Sources.thy ===== *)
theory Catalog_Sources
  imports Catalog_Cache Reservations Py_Values
begin

text \<open>
  The catalog's sources (\<open>app/routes/v1/catalog/sources.py\<close>): the writes of the route handlers on
  the \<open>sources\<close> table, each with its invalidation of the metadata cache, and the registration of
  the default source with its search for a free identifier. Identifiers and the current time are
  parameters. A race of two registrations ends in an IntegrityError and a second run of the same
  function; the model has the run that commits.
\<close>

subsection \<open>Rows\<close>

record source_repo =
  sr_id :: string
  sr_owner :: string
  sr_repo :: string
  sr_branch :: string

record catalog_source =
  cs_id :: string
  cs_provider :: string
  cs_base_url :: string
  cs_auth_kind :: string
  cs_token_ref :: "string option"
  cs_created :: instant
  cs_repos :: "source_repo list"

record source_out =
  so_id :: string
  so_provider :: string
  so_base_url :: string
  so_auth_kind :: string
  so_has_token :: bool
  so_created :: instant
  so_repos :: "source_repo list"

definition has_text :: "string option \<Rightarrow> bool" where
  "has_text t = (case t of None \<Rightarrow> False | Some s \<Rightarrow> s \<noteq> [])"

definition to_out :: "catalog_source \<Rightarrow> source_out" where
  "to_out s = \<lparr>so_id = cs_id s, so_provider = cs_provider s, so_base_url = cs_base_url s,
     so_auth_kind = cs_auth_kind s, so_has_token = has_text (cs_token_ref s), so_created = cs_created s,
     so_repos = cs_repos s\<rparr>"

definition source_not_found :: exc where
  "source_not_found = ApiError \<lparr>ae_status = 404, ae_error = ''not_found'', ae_code = ''NOT_FOUND''\<rparr>"

subsection \<open>The handlers that write\<close>

definition create_source ::
    "string \<Rightarrow> instant \<Rightarrow> string \<Rightarrow> string \<Rightarrow> string \<Rightarrow> string option \<Rightarrow> source_repo list
       \<Rightarrow> catalog_source list \<times> 'e catalog_cache \<Rightarrow> source_out \<times> catalog_source list \<times> 'e catalog_cache" where
  "create_source new_id now provider base_url auth_kind token_ref repos st =
     (let row = \<lparr>cs_id = new_id, cs_provider = provider, cs_base_url = base_url, cs_auth_kind = auth_kind,
            cs_token_ref = (if auth_kind \<noteq> ''none'' then token_ref else None), cs_created = now, cs_repos = repos\<rparr>
      in (to_out row, fst st @ [row], invalidate (snd st)))"

definition update_source_credentials ::
    "string \<Rightarrow> string \<Rightarrow> string option \<Rightarrow> catalog_source list \<times> 'e catalog_cache
       \<Rightarrow> (source_out \<times> catalog_source list \<times> 'e catalog_cache) res" where
  "update_source_credentials source_id auth_kind token_ref st =
     bindE (of_opt source_not_found (List.find (\<lambda>s. cs_id s = source_id) (fst st))) (\<lambda>row.
       let row' = row\<lparr>cs_auth_kind := auth_kind, cs_token_ref := token_ref\<rparr> in
       Inr (to_out row', map (\<lambda>s. if cs_id s = source_id then row' else s) (fst st), invalidate (snd st)))"

definition delete_source ::
    "string \<Rightarrow> catalog_source list \<times> 'e catalog_cache \<Rightarrow> (catalog_source list \<times> 'e catalog_cache) res" where
  "delete_source source_id st =
     bindE (of_opt source_not_found (List.find (\<lambda>s. cs_id s = source_id) (fst st))) (\<lambda>row.
       Inr (filter (\<lambda>s. cs_id s \<noteq> source_id) (fst st), invalidate (snd st)))"

subsection \<open>The default source\<close>

definition default_repo :: "string \<Rightarrow> string \<times> string" where
  "default_repo kind =
     (if kind = ''bundles'' then (''range42-playbooks'', ''feat-sdn-implementation'') else (''range42-catalog'', ''main''))"

text \<open>The loop passes over sources that are not the public, anonymous GitHub.\<close>

definition public_source :: "catalog_source \<Rightarrow> bool" where
  "public_source s = (\<not> (cs_provider s \<noteq> ''github'' \<or> cs_auth_kind s \<noteq> ''none''
      \<or> rstrip_slash (cs_base_url s) \<noteq> ''https://github.com'' \<or> has_text (cs_token_ref s)))"

definition serves_default :: "string \<Rightarrow> catalog_source \<Rightarrow> bool" where
  "serves_default kind s =
     (case List.find (\<lambda>r. sr_owner r = ''range42'' \<and> sr_repo r = fst (default_repo kind)) (cs_repos s) of
        None \<Rightarrow> False
      | Some r \<Rightarrow> length (cs_repos s) = 1 \<and> sr_branch r = snd (default_repo kind))"

text \<open>The source to return at once, or the one to reuse.\<close>

fun scan_sources ::
    "string \<Rightarrow> catalog_source option \<Rightarrow> catalog_source list \<Rightarrow> catalog_source + catalog_source option" where
  "scan_sources kind reusable [] = Inr reusable"
| "scan_sources kind reusable (s # ss) =
     (if \<not> public_source s then scan_sources kind reusable ss
      else if serves_default kind s then Inl s
      else scan_sources kind (if cs_repos s = [] \<and> reusable = None then Some s else reusable) ss)"

definition default_name :: "string \<Rightarrow> nat \<Rightarrow> string" where
  "default_name kind n =
     (if n = 0 then ''range42-public-'' @ kind else ''range42-public-'' @ kind @ ''-'' @ nat_str n)"

text \<open>\<open>while default_id in existing_ids\<close>: nothing bounds the loop but the set itself.\<close>

partial_function (option) free_source_id :: "string \<Rightarrow> string list \<Rightarrow> nat \<Rightarrow> string option" where
  "free_source_id kind existing n =
     (if default_name kind n \<in> set existing then free_source_id kind existing (Suc n)
      else Some (default_name kind n))"

text \<open>Rows are read in the order of their creation, then of their identifiers.\<close>

definition by_creation :: "catalog_source list \<Rightarrow> catalog_source list" where
  "by_creation rows = sort_key cs_created (sort_key cs_id rows)"

definition register_default ::
    "string \<Rightarrow> string \<Rightarrow> instant \<Rightarrow> catalog_source list \<Rightarrow> (catalog_source list \<times> catalog_source) option" where
  "register_default kind new_repo_id now rows =
     (let repo = \<lparr>sr_id = new_repo_id, sr_owner = ''range42'', sr_repo = fst (default_repo kind), sr_branch = snd (default_repo kind)\<rparr>
      in case scan_sources kind None (by_creation rows) of
           Inl s \<Rightarrow> Some (rows, s)
         | Inr (Some s) \<Rightarrow>
             (let s' = s\<lparr>cs_repos := cs_repos s @ [repo]\<rparr> in Some (map (\<lambda>r. if cs_id r = cs_id s then s' else r) rows, s'))
         | Inr None \<Rightarrow>
             Option.bind (free_source_id kind (map cs_id rows) 0) (\<lambda>i.
               let s' = \<lparr>cs_id = i, cs_provider = ''github'', cs_base_url = ''https://github.com/'', cs_auth_kind = ''none'',
                     cs_token_ref = None, cs_created = now, cs_repos = [repo]\<rparr>
               in Some (rows @ [s'], s')))"

text \<open>The handler: the cache is invalidated before the table is read.\<close>

definition register_default_source ::
    "string \<Rightarrow> string \<Rightarrow> instant \<Rightarrow> catalog_source list \<times> 'e catalog_cache
       \<Rightarrow> (source_out \<times> catalog_source list \<times> 'e catalog_cache) option" where
  "register_default_source kind new_repo_id now st =
     map_option (\<lambda>(rows, s). (to_out s, rows, invalidate (snd st))) (register_default kind new_repo_id now (fst st))"

subsection \<open>The search for an identifier ends\<close>

lemma default_name_inj: "default_name kind m = default_name kind n \<longleftrightarrow> m = n"
  by (auto simp: default_name_def nat_str_inj)

lemma free_source_id_from:
  assumes "default_name kind n \<notin> set existing" and "m \<le> n"
    and "\<And>i. m \<le> i \<Longrightarrow> i < n \<Longrightarrow> default_name kind i \<in> set existing"
  shows "free_source_id kind existing m = Some (default_name kind n)"
  using assms(2,3)
proof (induction "n - m" arbitrary: m)
  case 0
  then have "m = n" by simp
  then show ?case by (subst free_source_id.simps) (simp add: assms(1))
next
  case (Suc k)
  then have "m < n" by simp
  then have "free_source_id kind existing (Suc m) = Some (default_name kind n)"
    using Suc.hyps(1) [of "Suc m"] Suc.hyps(2) Suc.prems(2) by simp
  then show ?case using Suc.prems(2) [of m] \<open>m < n\<close> by (subst free_source_id.simps) simp
qed

lemma some_name_free: "\<exists>n \<le> length existing. default_name kind n \<notin> set existing"
proof (rule ccontr)
  assume "\<not> ?thesis"
  then have "default_name kind ` {..length existing} \<subseteq> set existing" by auto
  then have "card (default_name kind ` {..length existing}) \<le> card (set existing)" by (simp add: card_mono)
  moreover have "inj_on (default_name kind) {..length existing}" by (simp add: inj_on_def default_name_inj)
  ultimately show False using card_length [of existing] by (simp add: card_image)
qed

lemma free_source_id_total:
  "\<exists>n \<le> length existing. free_source_id kind existing 0 = Some (default_name kind n) \<and> default_name kind n \<notin> set existing"
proof -
  obtain k where k: "k \<le> length existing" "default_name kind k \<notin> set existing" using some_name_free by blast
  obtain n where n: "n \<le> k" "default_name kind n \<notin> set existing" "\<And>i. i < n \<Longrightarrow> default_name kind i \<in> set existing"
    using exists_least_iff [of "\<lambda>n. default_name kind n \<notin> set existing"] k(2) by (metis not_le_imp_less)
  have "free_source_id kind existing 0 = Some (default_name kind n)"
    by (rule free_source_id_from [OF n(2)]) (simp_all add: n(3))
  then show ?thesis using n(1,2) k(1) le_trans by blast
qed

subsection \<open>Registering twice\<close>

lemma set_by_creation [simp]: "set (by_creation rows) = set rows"
  by (simp add: by_creation_def)

abbreviation answers :: "string \<Rightarrow> catalog_source \<Rightarrow> bool" where
  "answers kind s \<equiv> public_source s \<and> serves_default kind s"

lemma scan_found: "List.find (answers kind) ss = Some s \<Longrightarrow> scan_sources kind r ss = Inl s"
  by (induction ss arbitrary: r) (auto split: if_splits)

lemma scan_Inl: "scan_sources kind r ss = Inl s \<Longrightarrow> s \<in> set ss \<and> answers kind s"
proof (induction ss arbitrary: r)
  case (Cons x ss)
  then show ?case by (cases "answers kind x") (fastforce split: if_splits)+
qed simp

lemma scan_Inr:
  "scan_sources kind r ss = Inr r' \<Longrightarrow>
     list_all (\<lambda>s. \<not> answers kind s) ss \<and> (r' = r \<or> list_ex (\<lambda>s. r' = Some s \<and> public_source s \<and> cs_repos s = []) ss)"
proof (induction ss arbitrary: r)
  case (Cons x ss)
  show ?case
  proof (cases "public_source x")
    case False
    then show ?thesis using Cons by simp
  next
    case public: True
    then have no: "\<not> serves_default kind x" using Cons.prems by (auto split: if_splits)
    let ?r = "if cs_repos x = [] \<and> r = None then Some x else r"
    have "scan_sources kind ?r ss = Inr r'" using Cons.prems public no by simp
    from Cons.IH [OF this] show ?thesis using public no by (auto split: if_splits)
  qed
qed simp

lemma scan_only:
  assumes "s \<in> set rows" and "answers kind s" and "\<And>r. r \<in> set rows \<Longrightarrow> answers kind r \<Longrightarrow> r = s"
  shows "scan_sources kind None (by_creation rows) = Inl s"
proof (rule scan_found)
  have "List.find (answers kind) (by_creation rows) \<noteq> None"
    using assms(1,2) by (auto simp: find_None_iff)
  then obtain r where r: "List.find (answers kind) (by_creation rows) = Some r" by blast
  then have "answers kind r" "r \<in> set (by_creation rows)"
    by (metis (no_types, lifting) find_Some_iff nth_mem)+
  then have "r \<in> set rows" "answers kind r" by simp_all
  then show "List.find (answers kind) (by_creation rows) = Some s" using r assms(3) by blast
qed

definition registered :: "string \<Rightarrow> catalog_source list \<Rightarrow> catalog_source \<Rightarrow> bool" where
  "registered kind rows s = (s \<in> set rows \<and> public_source s \<and> serves_default kind s \<and> distinct (map cs_id rows)
     \<and> scan_sources kind None (by_creation rows) = Inl s)"

lemma registeredI:
  assumes "s \<in> set rows" and "answers kind s" and "\<And>r. r \<in> set rows \<Longrightarrow> answers kind r \<Longrightarrow> r = s" and "distinct (map cs_id rows)"
  shows "registered kind rows s"
  using scan_only [OF assms(1,2,3)] assms(1,2,4) by (simp add: registered_def)

lemma register_ends:
  assumes ids: "distinct (map cs_id rows)"
  shows "\<exists>rows' s. register_default kind rid now rows = Some (rows', s) \<and> registered kind rows' s"
proof (cases "scan_sources kind None (by_creation rows)")
  case (Inl s)
  then show ?thesis using scan_Inl [OF Inl] ids by (auto simp: register_default_def registered_def)
next
  case (Inr r)
  let ?repo = "\<lparr>sr_id = rid, sr_owner = ''range42'', sr_repo = fst (default_repo kind), sr_branch = snd (default_repo kind)\<rparr>"
  have none: "\<not> answers kind s" if "s \<in> set rows" for s using scan_Inr [OF Inr] that by (simp add: list_all_iff)
  show ?thesis
  proof (cases r)
    case (Some s)
    let ?s = "s\<lparr>cs_repos := cs_repos s @ [?repo]\<rparr>"
    let ?rows = "map (\<lambda>r. if cs_id r = cs_id s then ?s else r) rows"
    have s: "s \<in> set rows" "public_source s" "cs_repos s = []" using scan_Inr [OF Inr] Some by (auto simp: list_ex_iff)
    have "registered kind ?rows ?s"
    proof (rule registeredI)
      show "?s \<in> set ?rows" using s(1) by force
      show "answers kind ?s" using s(2,3) by (simp add: public_source_def serves_default_def)
      show "r' = ?s" if "r' \<in> set ?rows" "answers kind r'" for r' using that none by (auto split: if_splits)
      have "map cs_id ?rows = map cs_id rows" by simp
      then show "distinct (map cs_id ?rows)" using ids by (simp only:)
    qed
    moreover have "register_default kind rid now rows = Some (?rows, ?s)" using Inr Some by (simp add: register_default_def Let_def)
    ultimately show ?thesis by blast
  next
    case None
    obtain i where i: "free_source_id kind (map cs_id rows) 0 = Some i" "i \<notin> set (map cs_id rows)"
      using free_source_id_total by blast
    let ?s = "\<lparr>cs_id = i, cs_provider = ''github'', cs_base_url = ''https://github.com/'', cs_auth_kind = ''none'',
        cs_token_ref = None, cs_created = now, cs_repos = [?repo]\<rparr>"
    have "registered kind (rows @ [?s]) ?s"
    proof (rule registeredI)
      show "answers kind ?s" by (simp add: public_source_def serves_default_def rstrip_slash_def has_text_def)
      show "r' = ?s" if "r' \<in> set (rows @ [?s])" "answers kind r'" for r' using that none by auto
      show "distinct (map cs_id (rows @ [?s]))" using ids i(2) by simp
    qed simp
    moreover have "register_default kind rid now rows = Some (rows @ [?s], ?s)"
      using Inr None i(1) by (simp add: register_default_def Let_def)
    ultimately show ?thesis by blast
  qed
qed

lemma register_again: "registered kind rows s \<Longrightarrow> register_default kind rid now rows = Some (rows, s)"
  by (simp add: registered_def register_default_def)

text \<open>
  C24: Registering the default source always ends, although its search for an identifier has no
  bound of its own: it returns a public source of the kind's repository that is in the table, no
  identifier is taken twice, and registering again, at any time, returns the same source and changes
  nothing.
\<close>

theorem default_source_registered:
  assumes ids: "distinct (map cs_id rows)"
  shows "\<exists>rows' s. register_default kind rid now rows = Some (rows', s) \<and> s \<in> set rows' \<and> public_source s
     \<and> serves_default kind s \<and> distinct (map cs_id rows')
     \<and> register_default kind rid' now' rows' = Some (rows', s)"
  using register_ends [OF ids, of kind rid now] register_again [of kind _ _ rid' now'] by (auto simp: registered_def)

definition taken_source :: catalog_source where
  "taken_source = \<lparr>cs_id = ''range42-public-catalog'', cs_provider = ''gitlab'', cs_base_url = ''https://gitlab.com'',
     cs_auth_kind = ''none'', cs_token_ref = None, cs_created = 5, cs_repos = []\<rparr>"

lemma default_source_registered_witness:
  "\<exists>rows' s. register_default ''catalog'' ''r1'' 1 [taken_source] = Some (rows', s) \<and> s \<in> set rows'
     \<and> register_default ''catalog'' ''r2'' 2 rows' = Some (rows', s)"
  using default_source_registered [of "[taken_source]" "''catalog''" "''r1''" 1 "''r2''" 2] by auto

end
