(* ===== verification/Scenario_Networks.thy ===== *)
theory Scenario_Networks
  imports Scenario_Resources Py_Values
begin

text \<open>
  The check of a scenario's networks (\<open>app/core/scenario_networks.py\<close>): the declared plan, the
  refusal of pending SDN changes, and the comparison of every declared VNet with the cluster.
  The manifest file, the presence of the bootstrap bundle and the HTTP client are parameters.
  \<open>Stop\<close> is the code's NetworkBlocked, \<open>Unreadable\<close> its ProxmoxReadError. Of \<open>ip_network\<close> an
  IPv6 network keeps only that it is one.
\<close>

subsection \<open>The declared plan\<close>

record vnet_plan =
  vn_vnet :: string
  vn_subnet :: string
  vn_gateway :: "string option"
  vn_snat :: bool

record sdn_plan =
  sp_zone :: string
  sp_vnets :: "vnet_plan list"

datatype network_plan = Sdn sdn_plan | Bridges "string list"

definition sdn_name :: "string \<Rightarrow> bool" where
  "sdn_name s = (1 \<le> length s \<and> length s \<le> 8 \<and> is_alpha (hd s) \<and> list_all is_alnum (tl s))"

definition bridge_name :: "string \<Rightarrow> bool" where
  "bridge_name s = (1 \<le> length s \<and> length s \<le> 15 \<and> is_alpha (hd s)
     \<and> list_all (\<lambda>c. is_alnum c \<or> c \<in> set ''_.-'') (tl s))"

definition valid_vnet :: "vnet_plan \<Rightarrow> bool" where
  "valid_vnet v =
     (case parse_network (vn_subnet v) of
        None \<Rightarrow> False
      | Some n \<Rightarrow>
          (case vn_gateway v of
             None \<Rightarrow> \<not> vn_snat v
           | Some g \<Rightarrow> (case parse_ipv4 g of None \<Rightarrow> False | Some a \<Rightarrow> usable_in a n)))"

definition vnet_of_json :: "json \<Rightarrow> vnet_plan option" where
  "vnet_of_json v =
     (case v of
        JObj d \<Rightarrow>
          if set (dkeys d) \<subseteq> set [''vnet'', ''subnet'', ''gateway'', ''snat'']
          then (case (jget d ''vnet'', jget d ''subnet'', jget d ''snat'') of
                  (JStr name, JStr subnet, JBool snat) \<Rightarrow>
                    (case (jget d ''gateway'') of
                       JNull \<Rightarrow> (let p = \<lparr>vn_vnet = name, vn_subnet = subnet, vn_gateway = None, vn_snat = snat\<rparr>
                                 in if sdn_name name \<and> valid_vnet p then Some p else None)
                     | JStr g \<Rightarrow> (let p = \<lparr>vn_vnet = name, vn_subnet = subnet, vn_gateway = Some g, vn_snat = snat\<rparr>
                                  in if sdn_name name \<and> valid_vnet p then Some p else None)
                     | _ \<Rightarrow> None)
                | _ \<Rightarrow> None)
          else None
      | _ \<Rightarrow> None)"

fun pairwise_disjoint :: "ipnet list \<Rightarrow> bool" where
  "pairwise_disjoint [] = True"
| "pairwise_disjoint (n # ns) = (list_all (\<lambda>m. \<not> nets_overlap n m) ns \<and> pairwise_disjoint ns)"

fun all_some :: "'a option list \<Rightarrow> 'a list option" where
  "all_some [] = Some []"
| "all_some (x # xs) = (case (x, all_some xs) of (Some y, Some ys) \<Rightarrow> Some (y # ys) | _ \<Rightarrow> None)"

definition unique_networks :: "vnet_plan list \<Rightarrow> bool" where
  "unique_networks vs =
     (distinct (map vn_vnet vs)
      \<and> (case all_some (map (\<lambda>v. parse_network (vn_subnet v)) vs) of None \<Rightarrow> False | Some ns \<Rightarrow> pairwise_disjoint ns))"

text \<open>The two models that \<open>mode\<close> discriminates; \<open>None\<close> is a validation error.\<close>

definition plan_of_json :: "json \<Rightarrow> network_plan option" where
  "plan_of_json v =
     (case v of
        JObj d \<Rightarrow>
          if jget d ''mode'' = JStr ''sdn''
          then (case (jget d ''zone'', jget d ''vnets'') of
                  (JStr zone, JList xs) \<Rightarrow>
                    (case all_some (map vnet_of_json xs) of
                       Some vs \<Rightarrow>
                         if set (dkeys d) \<subseteq> set [''mode'', ''zone'', ''vnets''] \<and> sdn_name zone
                            \<and> 1 \<le> length vs \<and> length vs \<le> 64 \<and> unique_networks vs
                         then Some (Sdn \<lparr>sp_zone = zone, sp_vnets = vs\<rparr>) else None
                     | None \<Rightarrow> None)
                | _ \<Rightarrow> None)
          else if jget d ''mode'' = JStr ''existing_bridge''
          then (case jget d ''bridges'' of
                  JList xs \<Rightarrow>
                    (case all_some (map as_str xs) of
                       Some bs \<Rightarrow>
                         if set (dkeys d) \<subseteq> set [''mode'', ''bridges''] \<and> list_all bridge_name bs
                            \<and> 1 \<le> length bs \<and> length bs \<le> 64
                         then Some (Bridges bs) else None
                     | None \<Rightarrow> None)
                | _ \<Rightarrow> None)
          else None
      | _ \<Rightarrow> None)"

text \<open>\<open>None\<close>: there is no such path. \<open>Some None\<close>: it cannot be read.\<close>

definition read_plan :: "manifest_file option option \<Rightarrow> network_plan option res" where
  "read_plan f =
     (case f of
        None \<Rightarrow> Inr None
      | Some g \<Rightarrow>
          bindE (of_opt OSError g) (\<lambda>m.
          bindE (assertE (mf_inside m \<and> mf_size m \<le> 65536) ValueError) (\<lambda>_.
          bindE (of_opt ValueError (json_loads (mf_text m))) (\<lambda>v.
          bindE (of_opt ValueError (plan_of_json v)) (\<lambda>p. Inr (Some p))))))"

subsection \<open>Refusals\<close>

definition net_verdict :: "string \<Rightarrow> pcheck list" where
  "net_verdict code =
     [verdict_of ''scenario_networks'' Block (Some code) (Some (AtField ''manifest/scenario_networks.json''))]"

definition net_unless :: "bool \<Rightarrow> string \<Rightarrow> stop + unit" where
  "net_unless b code = (if b then Inr () else Inl (Stop (net_verdict code)))"

lemma net_unless_Inr [res_simps]: "net_unless b code = Inr u \<longleftrightarrow> b"
  by (simp add: net_unless_def)

text \<open>A key of a dict must be hashable.\<close>

fun hashable :: "json \<Rightarrow> bool" where
  "hashable (JList xs) = False"
| "hashable (JObj d) = False"
| "hashable _ = True"

definition row_pending :: "dict \<Rightarrow> bool" where
  "row_pending row = (truthy (jget row ''pending'') \<or> jget row ''state'' \<notin> {JNull, JStr ''unchanged''})"

definition check_pending :: "dict list \<Rightarrow> stop + unit" where
  "check_pending rows = net_unless (\<not> list_ex row_pending rows) ''SDN_PENDING_CHANGES''"

subsection \<open>Networks of the cluster\<close>

datatype ip_net = V4 ipnet | V6

text \<open>\<open>IPv6Network(s)\<close> without host bits.\<close>

definition hextet_value :: "string \<Rightarrow> nat" where
  "hextet_value s = foldl (\<lambda>a c. 16 * a + (case hex_val c of Some d \<Rightarrow> d | None \<Rightarrow> 0)) 0 s"

definition v6_hextets :: "string list \<Rightarrow> nat list" where
  "v6_hextets ps =
     (let vals = map hextet_value in
      case skip_indexes ps of
        [] \<Rightarrow> vals ps
      | i # _ \<Rightarrow>
          (let hi = (if hd ps = [] then 0 else i); lo = (if last ps = [] then 0 else length ps - i - 1)
           in vals (take hi ps) @ replicate (8 - hi - lo) 0 @ vals (drop (length ps - lo) ps)))"

definition v6_value :: "string \<Rightarrow> nat" where
  "v6_value a =
     (let ps = split_on (CHR '':'') a
      in foldl (\<lambda>x h. 65536 * x + h) 0
           (if CHR ''.'' \<in> set (last ps)
            then (case parse_ipv4 (last ps) of
                    None \<Rightarrow> []
                  | Some n \<Rightarrow> (let hs = v6_hextets (butlast ps @ [''0'', ''0''])
                               in take 6 hs @ [n div 65536, n mod 65536]))
            else v6_hextets ps))"

definition is_v6_network :: "string \<Rightarrow> bool" where
  "is_v6_network s =
     (case split_on (CHR ''/'') s of
        [a] \<Rightarrow> is_ipv6_address a
      | [a, p] \<Rightarrow> is_ipv6_address a \<and> p \<noteq> [] \<and> list_all is_digit p \<and> digits_val p \<le> 128
          \<and> v6_value (takeWhile (\<lambda>c. c \<noteq> CHR ''%'') a) mod 2 ^ (128 - digits_val p) = 0
      | _ \<Rightarrow> False)"

definition ip_network_text :: "string \<Rightarrow> ip_net res" where
  "ip_network_text s =
     (case parse_network s of
        Some n \<Rightarrow> Inr (V4 n)
      | None \<Rightarrow> if is_v6_network s then Inr V6 else Inl ValueError)"
text \<open>\<open>ip_network\<close> of a JSON value: an integer is an address, a text is parsed, anything else is refused.\<close>

definition ip_network_json :: "json \<Rightarrow> ip_net res" where
  "ip_network_json v =
     (let number = (\<lambda>i. if 0 \<le> i \<and> i < 4294967296 then Inr (V4 \<lparr>net_base = nat i, net_plen = 32\<rparr>)
                        else if 0 \<le> i \<and> i < 2 ^ 128 then Inr V6 else Inl ValueError)
      in case v of
           JStr s \<Rightarrow> ip_network_text s
         | JInt i \<Rightarrow> number i
         | JBool b \<Rightarrow> number (if b then 1 else 0)
         | _ \<Rightarrow> Inl ValueError)"

definition hex_or_sep :: "char \<Rightarrow> bool" where
  "hex_or_sep c = (c \<in> set ''0123456789abcdefABCDEF.:'')"

text \<open>\<open>re.search(r"-([0-9a-fA-F.:]+)-(\d+)$", s)\<close>; \<open>$\<close> also matches before a final line feed.\<close>

definition subnet_suffix :: "string \<Rightarrow> string option" where
  "subnet_suffix s =
     (let t = (if s \<noteq> [] \<and> last s = CHR 0x0A then butlast s else s) in
      case rev (split_on (CHR ''-'') t) of
        plen # addr # _ # _ \<Rightarrow>
          if plen \<noteq> [] \<and> list_all is_digit plen \<and> addr \<noteq> [] \<and> list_all hex_or_sep addr
          then Some (addr @ ''/'' @ plen) else None
      | _ \<Rightarrow> None)"

definition subnet_cidr :: "dict \<Rightarrow> ip_net res" where
  "subnet_cidr row =
     (if truthy (jget row ''cidr'') then ip_network_json (jget row ''cidr'')
      else bindE (of_opt ValueError (case jget row ''subnet'' of JStr s \<Rightarrow> subnet_suffix s | _ \<Rightarrow> None)) ip_network_text)"

text \<open>The text of a value inside an f-string, when it can be part of a network.\<close>

fun field_text :: "json \<Rightarrow> string option" where
  "field_text (JStr s) = Some s"
| "field_text (JInt i) = Some (int_str i)"
| "field_text _ = None"

text \<open>\<open>ip_network(x, strict=False)\<close> clears the host bits.\<close>

definition loose_network_text :: "string \<Rightarrow> ip_net res" where
  "loose_network_text s =
     (case parse_addr_prefix s of
        Some (n, k) \<Rightarrow> Inr (V4 \<lparr>net_base = n - n mod 2 ^ (32 - k), net_plen = k\<rparr>)
      | None \<Rightarrow> if is_ipv6_interface s then Inr V6 else Inl ValueError)"

definition interface_network :: "dict \<Rightarrow> ip_net option res" where
  "interface_network row =
     (let cidr = jget row ''cidr'' in
      if truthy cidr
      then bindE (case cidr of JStr s \<Rightarrow> loose_network_text s | _ \<Rightarrow> ip_network_json cidr) (\<lambda>n. Inr (Some n))
      else if truthy (jget row ''address'') \<and> truthy (jget row ''netmask'')
      then (case (field_text (jget row ''address''), field_text (jget row ''netmask'')) of
              (Some a, Some m) \<Rightarrow> bindE (loose_network_text (a @ ''/'' @ m)) (\<lambda>n. Inr (Some n))
            | _ \<Rightarrow> Inl ValueError)
      else Inr None)"

definition desired_network :: "vnet_plan \<Rightarrow> ipnet" where
  "desired_network v = (case parse_network (vn_subnet v) of Some n \<Rightarrow> n | None \<Rightarrow> \<lparr>net_base = 0, net_plen = 0\<rparr>)"

text \<open>A row overlaps the declared subnet as an IPv4 network.\<close>

definition overlaps_desired :: "ip_net \<Rightarrow> vnet_plan \<Rightarrow> bool" where
  "overlaps_desired n v = (case n of V4 m \<Rightarrow> nets_overlap m (desired_network v) | V6 \<Rightarrow> False)"

definition check_interface :: "vnet_plan \<Rightarrow> dict \<Rightarrow> stop + unit" where
  "check_interface v row =
     (if jget row ''iface'' = JStr (vn_vnet v) then Inr ()
      else bindE (raised (interface_network row)) (\<lambda>n.
        net_unless (case n of None \<Rightarrow> True | Some m \<Rightarrow> \<not> overlaps_desired m v) ''SDN_CONFLICT''))"

definition check_interface_overlap :: "vnet_plan \<Rightarrow> dict list \<Rightarrow> stop + unit" where
  "check_interface_overlap v interfaces = foldE (\<lambda>_. check_interface v) () interfaces"

subsection \<open>Pending changes anywhere in the SDN\<close>

definition sdn_list :: "http_get \<Rightarrow> proxmox_host \<Rightarrow> string \<Rightarrow> stop + dict list" where
  "sdn_list get h path = readable (list_proxmox_data get h path [(''pending'', JInt 1)])"

text \<open>\<open>permissions.get(key, {}).get(privilege)\<close>.\<close>

definition privilege :: "json \<Rightarrow> string \<Rightarrow> string \<Rightarrow> bool res" where
  "privilege permissions key name =
     (case permissions of
        JObj d \<Rightarrow>
          (case dget d key of
             None \<Rightarrow> Inr False
           | Some (JObj p) \<Rightarrow> Inr (truthy (jget p name))
           | Some _ \<Rightarrow> Inl AttributeError)
      | _ \<Rightarrow> Inr False)"

definition feature_ids :: "dict list \<Rightarrow> json set res" where
  "feature_ids rows =
     (if list_all (\<lambda>r. hashable (jget r ''id'')) rows then Inr ((\<lambda>r. jget r ''id'') ` set rows) else Inl TypeError)"

definition check_feature ::
    "http_get \<Rightarrow> proxmox_host \<Rightarrow> json set \<Rightarrow> string \<times> string \<Rightarrow> stop + unit" where
  "check_feature get h features = (\<lambda>(feature, endpoint).
     if JStr feature \<in> features then bindE (sdn_list get h (''/cluster/sdn/'' @ endpoint)) check_pending else Inr ())"

definition check_fabric_rows :: "dict \<Rightarrow> string \<Rightarrow> stop + unit" where
  "check_fabric_rows data key =
     (case jget data key of
        JList xs \<Rightarrow> bindE (raised (mapE (\<lambda>x. of_opt ValueError (as_obj x)) xs)) check_pending
      | _ \<Rightarrow> Inl (Raised ValueError))"

definition check_fabrics :: "http_get \<Rightarrow> proxmox_host \<Rightarrow> stop + unit" where
  "check_fabrics get h =
     bindE (readable (read_proxmox_data get h ''/access/permissions'' [(''path'', JStr ''/nodes'')])) (\<lambda>permissions.
     bindE (raised (privilege permissions ''/nodes'' ''Sys.Audit'')) (\<lambda>audit.
     bindE (net_unless audit ''SDN_PERMISSION_REQUIRED'') (\<lambda>_.
     bindE (readable (read_proxmox_data get h ''/cluster/sdn/fabrics/all'' [(''pending'', JInt 1)])) (\<lambda>data.
     bindE (raised (of_opt ValueError (as_obj data))) (\<lambda>d.
     bindE (check_fabric_rows d ''fabrics'') (\<lambda>_. check_fabric_rows d ''nodes''))))))"

definition check_global_pending :: "http_get \<Rightarrow> proxmox_host \<Rightarrow> stop + unit" where
  "check_global_pending get h =
     bindE (sdn_list get h ''/cluster/sdn/controllers'') (\<lambda>controllers.
     bindE (check_pending controllers) (\<lambda>_.
     bindE (readable (list_proxmox_data get h ''/cluster/sdn'' [])) (\<lambda>rows.
     bindE (raised (feature_ids rows)) (\<lambda>features.
     bindE (foldE (\<lambda>_. check_feature get h features) ()
              [(''prefix-lists'', ''prefix-lists''), (''route-maps'', ''route-maps/entries'')]) (\<lambda>_.
       if JStr ''fabrics'' \<in> features then check_fabrics get h else Inr ())))))"

subsection \<open>One declared VNet\<close>

record sdn_view =
  sv_full :: bool
  sv_vnets :: "dict list"
  sv_interfaces :: "dict list"
  sv_subnets :: "(string \<times> dict) list"

definition row_named :: "string \<Rightarrow> string \<Rightarrow> dict list \<Rightarrow> dict option" where
  "row_named key name rows = List.find (\<lambda>r. jget r key = JStr name) rows"

definition runtime_root :: "proxmox_host \<Rightarrow> string" where
  "runtime_root h = ''/nodes/'' @ url_quote (ph_node_name h) @ ''/sdn/zones''"

definition is_available :: "dict \<Rightarrow> bool" where
  "is_available row = (jget row ''status'' = JStr ''available'')"

text \<open>A dict by VNet name keeps the last row of a name.\<close>

definition check_runtime :: "http_get \<Rightarrow> proxmox_host \<Rightarrow> string \<Rightarrow> string \<Rightarrow> stop + unit" where
  "check_runtime get h zone vnet =
     bindE (readable (list_proxmox_data get h (runtime_root h) [])) (\<lambda>zones.
     bindE (net_unless (list_ex (\<lambda>r. jget r ''zone'' = JStr zone \<and> is_available r) zones) ''SDN_NOT_READY'') (\<lambda>_.
     bindE (readable (list_proxmox_data get h (runtime_root h @ ''/'' @ url_quote zone @ ''/content'') [])) (\<lambda>rows.
     bindE (raised (assertE (list_all (\<lambda>r. hashable (jget r ''vnet'')) rows) TypeError)) (\<lambda>_.
       net_unless (case row_named ''vnet'' vnet (rev rows) of None \<Rightarrow> False | Some r \<Rightarrow> is_available r) ''SDN_NOT_READY''))))"

text \<open>Whether this subnet row is the declared one; a row that overlaps it otherwise is a conflict.\<close>

definition check_subnet :: "vnet_plan \<Rightarrow> string \<times> dict \<Rightarrow> stop + bool" where
  "check_subnet v = (\<lambda>(name, row).
     bindE (raised (subnet_cidr row)) (\<lambda>n.
       if \<not> overlaps_desired n v then Inr False
       else bindE (net_unless (name = vn_vnet v \<and> n = V4 (desired_network v)) ''SDN_CONFLICT'') (\<lambda>_.
            bindE (if jget row ''gateway'' = (case vn_gateway v of None \<Rightarrow> JNull | Some g \<Rightarrow> JStr g)
                   then bindE (raised (int_of_json (case dget row ''snat'' of None \<Rightarrow> JInt 0 | Some x \<Rightarrow> x)))
                          (\<lambda>i. Inr ((i \<noteq> 0) = vn_snat v))
                   else Inr False) (\<lambda>same.
            bindE (net_unless same ''SDN_CONFLICT'') (\<lambda>_. Inr True)))))"

definition check_desired :: "http_get \<Rightarrow> proxmox_host \<Rightarrow> string \<Rightarrow> sdn_view \<Rightarrow> vnet_plan \<Rightarrow> stop + unit" where
  "check_desired get h zone view v =
     (let existing = row_named ''vnet'' (vn_vnet v) (sv_vnets view) in
      bindE (check_interface_overlap v (sv_interfaces view)) (\<lambda>_.
      bindE (case existing of
               Some row \<Rightarrow> bindE (net_unless (jget row ''zone'' = JStr zone) ''SDN_CONFLICT'') (\<lambda>_.
                              check_runtime get h zone (vn_vnet v))
             | None \<Rightarrow> bindE (net_unless (row_named ''iface'' (vn_vnet v) (sv_interfaces view) = None) ''SDN_CONFLICT'') (\<lambda>_.
                          net_unless (sv_full view) ''SDN_NOT_READY'')) (\<lambda>_.
      bindE (mapE (check_subnet v) (sv_subnets view)) (\<lambda>found.
        net_unless (existing = None \<or> True \<in> set found \<or> sv_full view) ''SDN_NOT_READY''))))"

subsection \<open>The check\<close>

text \<open>\<open>nodes and host not in nodes\<close>, after splitting a string.\<close>

definition zone_excludes :: "proxmox_host \<Rightarrow> json \<Rightarrow> bool res" where
  "zone_excludes h nodes =
     (case nodes of
        JStr s \<Rightarrow> (let names = filter (\<lambda>n. n \<noteq> []) (split_on (CHR '','') s) in
                   Inr (names \<noteq> [] \<and> ph_node_name h \<notin> set names))
      | JList xs \<Rightarrow> Inr (xs \<noteq> [] \<and> JStr (ph_node_name h) \<notin> set xs)
      | JObj d \<Rightarrow> Inr (d \<noteq> [] \<and> ph_node_name h \<notin> set (dkeys d))
      | _ \<Rightarrow> if truthy nodes then Inl TypeError else Inr False)"

definition check_zone :: "proxmox_host \<Rightarrow> bool \<Rightarrow> string \<Rightarrow> dict list \<Rightarrow> stop + unit" where
  "check_zone h full name zones =
     (case row_named ''zone'' name zones of
        None \<Rightarrow> net_unless full ''SDN_NOT_READY''
      | Some z \<Rightarrow>
          if jget z ''type'' \<noteq> JStr ''simple'' then Inl (Stop (net_verdict ''SDN_CONFLICT''))
          else bindE (raised (zone_excludes h (jget z ''nodes''))) (\<lambda>out. net_unless (\<not> out) ''SDN_CONFLICT''))"

definition vnet_subnets :: "http_get \<Rightarrow> proxmox_host \<Rightarrow> dict \<Rightarrow> stop + (string \<times> dict) list" where
  "vnet_subnets get h row =
     (case jget row ''vnet'' of
        JStr name \<Rightarrow>
          bindE (sdn_list get h (''/cluster/sdn/vnets/'' @ url_quote name @ ''/subnets'')) (\<lambda>subnets.
          bindE (check_pending subnets) (\<lambda>_. Inr (map (Pair name) subnets)))
      | _ \<Rightarrow> Inl (Stop (net_verdict ''SCENARIO_NETWORK_UNREADABLE'')))"

definition check_sdn :: "http_get \<Rightarrow> proxmox_host \<Rightarrow> bool \<Rightarrow> sdn_plan \<Rightarrow> stop + pcheck" where
  "check_sdn get h full declared =
     bindE (if full
            then bindE (readable (read_proxmox_data get h ''/access/permissions'' [(''path'', JStr ''/sdn'')])) (\<lambda>permissions.
                 bindE (raised (privilege permissions ''/sdn'' ''SDN.Allocate'')) (\<lambda>allocate.
                   net_unless allocate ''SDN_PERMISSION_REQUIRED''))
            else Inr ()) (\<lambda>_.
     bindE (sdn_list get h ''/cluster/sdn/zones'') (\<lambda>zones.
     bindE (sdn_list get h ''/cluster/sdn/vnets'') (\<lambda>vnets.
     bindE (check_pending (zones @ vnets)) (\<lambda>_.
     bindE (if full then check_global_pending get h else Inr ()) (\<lambda>_.
     bindE (readable (list_proxmox_data get h (''/nodes/'' @ url_quote (ph_node_name h) @ ''/network'') [])) (\<lambda>interfaces.
     bindE (raised (assertE (list_all (\<lambda>r. hashable (jget r ''iface'')) interfaces) TypeError)) (\<lambda>_.
     bindE (check_zone h full (sp_zone declared) zones) (\<lambda>_.
     bindE (mapE (vnet_subnets get h) vnets) (\<lambda>subnets.
     bindE (mapE (check_desired get h (sp_zone declared)
                   \<lparr>sv_full = full, sv_vnets = vnets, sv_interfaces = interfaces, sv_subnets = concat subnets\<rparr>)
              (sp_vnets declared)) (\<lambda>_.
       Inr (passed ''scenario_networks'')))))))))))"

definition bridge_ready :: "dict list \<Rightarrow> string \<Rightarrow> bool" where
  "bridge_ready interfaces b =
     list_ex (\<lambda>r. jget r ''iface'' = JStr b \<and> truthy (jget r ''active'')
                \<and> jget r ''type'' \<in> {JStr ''bridge'', JStr ''OVSBridge''}) interfaces"

definition check_bridges :: "http_get \<Rightarrow> proxmox_host \<Rightarrow> string list \<Rightarrow> stop + pcheck" where
  "check_bridges get h bridges =
     bindE (readable (list_proxmox_data get h (''/nodes/'' @ url_quote (ph_node_name h) @ ''/network'') [])) (\<lambda>interfaces.
     bindE (net_unless (list_all (bridge_ready interfaces) bridges) ''BRIDGE_NOT_READY'') (\<lambda>_.
       Inr (passed ''scenario_networks'')))"

definition is_sdn :: "network_plan \<Rightarrow> bool" where
  "is_sdn p = (case p of Sdn _ \<Rightarrow> True | Bridges _ \<Rightarrow> False)"

text \<open>\<open>installed\<close>: the bootstrap bundle is installed.\<close>

definition networks_try ::
    "http_get \<Rightarrow> manifest_file option option \<Rightarrow> bool \<Rightarrow> proxmox_host option \<Rightarrow> scope \<Rightarrow> stop + pcheck list" where
  "networks_try get f installed host sc =
     bindE (raised (read_plan f)) (\<lambda>p.
       case p of
         None \<Rightarrow> Inr []
       | Some declared \<Rightarrow>
           if sc = Teardown then Inr []
           else (case host of
             None \<Rightarrow> Inl (Stop (net_verdict ''SCENARIO_NETWORK_UNREADABLE''))
           | Some h \<Rightarrow>
               bindE (net_unless (\<not> (is_sdn declared \<and> sc = Full \<and> \<not> installed)) ''SDN_BUNDLE_UNAVAILABLE'') (\<lambda>_.
               bindE (case declared of Sdn sdn \<Rightarrow> check_sdn get h (sc = Full) sdn | Bridges bs \<Rightarrow> check_bridges get h bs)
                 (\<lambda>c. Inr [c]))))"

definition check_scenario_networks ::
    "http_get \<Rightarrow> manifest_file option option \<Rightarrow> bool \<Rightarrow> proxmox_host option \<Rightarrow> scope \<Rightarrow> pcheck list res" where
  "check_scenario_networks get f installed host sc =
     (case networks_try get f installed host sc of
        Inr cs \<Rightarrow> Inr cs
      | Inl (Stop cs) \<Rightarrow> Inr cs
      | Inl Unreadable \<Rightarrow> Inr [verdict_of ''scenario_networks'' Block (Some ''SCENARIO_NETWORK_UNREADABLE'') None]
      | Inl (Raised e) \<Rightarrow>
          if e \<in> {ValueError, OSError, TypeError} then Inr (net_verdict ''SCENARIO_NETWORK_INVALID'') else Inl e)"
subsection \<open>A refusal blocks\<close>

text \<open>Every verdict of this check that is not a pass is a block.\<close>

definition blocks :: "stop + 'a \<Rightarrow> bool" where
  "blocks m = (case m of Inl (Stop cs) \<Rightarrow> report_result cs = Block | _ \<Rightarrow> True)"

named_theorems blocking \<open>computations whose refusals block\<close>

lemma blocks_basic [blocking]:
  "blocks (Inr x)" "blocks (raised r)" "blocks (readable q)" "blocks (net_unless b code)" "blocks (Inl (Raised e))"
  "blocks (Inl (Stop (net_verdict code)))"
  by (simp_all add: blocks_def raised_def readable_def net_unless_def net_verdict_def report_result_def split: sum.split)

lemma blocks_bind [blocking]: "blocks m \<Longrightarrow> (\<And>x. blocks (f x)) \<Longrightarrow> blocks (bindE m f)"
  by (cases m) (simp_all add: blocks_def)

lemma blocks_map [blocking]: "(\<And>x. blocks (f x)) \<Longrightarrow> blocks (mapE f xs)"
  by (induction xs) (simp_all add: blocking)

lemma blocks_fold [blocking]: "(\<And>s x. blocks (f s x)) \<Longrightarrow> blocks (foldE f s xs)"
  by (induction xs arbitrary: s) (simp_all add: blocking)

lemma blocks_pending [blocking]: "blocks (check_pending rows)" "blocks (sdn_list get h path)"
  by (simp_all add: check_pending_def sdn_list_def blocking)

lemma blocks_overlap [blocking]: "blocks (check_interface_overlap v rows)"
  by (simp add: check_interface_overlap_def check_interface_def blocking)

lemma blocks_fabrics [blocking]: "blocks (check_fabric_rows d k)" "blocks (check_fabrics get h)"
proof -
  show rows: "blocks (check_fabric_rows d k)" for d k
    by (simp add: check_fabric_rows_def blocking split: json.split)
  show "blocks (check_fabrics get h)" by (simp add: check_fabrics_def blocking rows)
qed

lemma blocks_everywhere [blocking]: "blocks (check_global_pending get h)"
  by (simp add: check_global_pending_def check_feature_def blocking split: prod.split)

lemma blocks_zone [blocking]: "blocks (check_zone h full zone zones)"
  by (simp add: check_zone_def blocking split: option.split)

lemma blocks_subnets [blocking]: "blocks (vnet_subnets get h row)" "blocks (check_subnet v p)"
  by (simp_all add: vnet_subnets_def check_subnet_def blocking split: json.split prod.split)

lemma blocks_desired [blocking]: "blocks (check_desired get h zone view v)"
  by (simp add: check_desired_def check_runtime_def Let_def blocking split: option.split)

lemma blocks_sdn [blocking]: "blocks (check_sdn get h full p)" "blocks (check_bridges get h bs)"
  by (simp_all add: check_sdn_def check_bridges_def blocking)

lemma blocks_try: "blocks (networks_try get f installed host sc)"
  by (simp add: networks_try_def blocking split: option.split network_plan.split)

lemma networks_passed:
  assumes "check_scenario_networks get f installed host sc = Inr cs" and "report_result cs \<noteq> Block"
  shows "networks_try get f installed host sc = Inr cs"
proof (cases "networks_try get f installed host sc")
  case (Inl e)
  then have "report_result cs = Block"
    using assms(1) blocks_try [of get f installed host sc]
    by (cases e) (auto simp: check_scenario_networks_def blocks_def net_verdict_def report_result_def split: if_splits)
  then show ?thesis using assms(2) by simp
qed (use assms(1) in \<open>simp add: check_scenario_networks_def\<close>)

subsection \<open>What a passed check guarantees\<close>

lemma in_net_overlap: "in_net a m \<Longrightarrow> in_net a n \<Longrightarrow> nets_overlap m n"
  by (auto simp: in_net_def nets_overlap_def)

lemma check_subnet_Inr:
  assumes "check_subnet v (name, row) = Inr b" and "subnet_cidr row = Inr (V4 m)"
    and "in_net a m" and "in_net a (desired_network v)"
  shows "name = vn_vnet v \<and> m = desired_network v"
  using assms in_net_overlap [OF assms(3,4)]
  by (auto simp: check_subnet_def res_simps overlaps_desired_def split: if_splits)

lemma vnet_subnets_Inr:
  assumes "vnet_subnets get h row = Inr ps" and "jget row ''vnet'' = JStr name"
  shows "\<exists>subnets. sdn_list get h (''/cluster/sdn/vnets/'' @ url_quote name @ ''/subnets'') = Inr subnets
     \<and> \<not> list_ex row_pending subnets \<and> ps = map (Pair name) subnets"
  using assms by (auto simp: vnet_subnets_def res_simps check_pending_def)

lemma check_sdn_Inr:
  assumes "check_sdn get h full p = Inr c" and "sdn_list get h ''/cluster/sdn/vnets'' = Inr vnets"
    and "v \<in> set (sp_vnets p)" and "row \<in> set vnets" and "jget row ''vnet'' = JStr name"
    and "sdn_list get h (''/cluster/sdn/vnets/'' @ url_quote name @ ''/subnets'') = Inr subnets" and "s \<in> set subnets"
  shows "\<not> row_pending row \<and> \<not> row_pending s \<and> (\<exists>b. check_subnet v (name, s) = Inr b)"
proof -
  from assms(1,2) obtain zones interfaces pss vs where
    p: "check_pending (zones @ vnets) = Inr ()" and pss: "mapE (vnet_subnets get h) vnets = Inr pss"
    and vs: "mapE (check_desired get h (sp_zone p)
      \<lparr>sv_full = full, sv_vnets = vnets, sv_interfaces = interfaces, sv_subnets = concat pss\<rparr>) (sp_vnets p) = Inr vs"
    by (auto simp: check_sdn_def res_simps)
  obtain ps where ps: "ps \<in> set pss" "vnet_subnets get h row = Inr ps" using mapE_Inr_set [OF pss assms(4)] by blast
  then have "ps = map (Pair name) subnets" "\<not> list_ex row_pending subnets"
    using vnet_subnets_Inr [OF ps(2) assms(5)] assms(6) by auto
  then have s: "(name, s) \<in> set (concat pss)" "\<not> row_pending s" using ps(1) assms(7) by (force simp: list_ex_iff)+
  obtain u where "check_desired get h (sp_zone p)
      \<lparr>sv_full = full, sv_vnets = vnets, sv_interfaces = interfaces, sv_subnets = concat pss\<rparr> v = Inr u"
    using mapE_Inr_set [OF vs assms(3)] by blast
  then obtain bs where "mapE (check_subnet v) (concat pss) = Inr bs"
    by (auto simp: check_desired_def Let_def res_simps)
  then have "\<exists>b. check_subnet v (name, s) = Inr b" using mapE_Inr_set [OF _ s(1)] by blast
  moreover have "\<not> row_pending row" using p assms(4) by (auto simp: check_pending_def res_simps list_ex_iff)
  ultimately show ?thesis using s(2) by blast
qed

text \<open>
  When a scenario with a declared SDN passes the network check, whatever the scope, no declared
  subnet shares an address with a subnet configured in the cluster, unless that one is the declared
  subnet itself, in its own VNet; and neither the VNet nor the subnet it was compared with has a
  pending change.
\<close>

theorem declared_networks_apart:
  assumes check: "check_scenario_networks get f installed host sc = Inr cs" and ok: "report_result cs \<noteq> Block" "cs \<noteq> []"
    and declared: "read_plan f = Inr (Some (Sdn p))" and v: "v \<in> set (sp_vnets p)" and host: "host = Some h"
    and vnets: "sdn_list get h ''/cluster/sdn/vnets'' = Inr vnets" and row: "row \<in> set vnets" "jget row ''vnet'' = JStr name"
    and subnets: "sdn_list get h (''/cluster/sdn/vnets/'' @ url_quote name @ ''/subnets'') = Inr subnets" and s: "s \<in> set subnets"
    and m: "subnet_cidr s = Inr (V4 m)"
  shows "(in_net a m \<and> in_net a (desired_network v) \<longrightarrow> name = vn_vnet v \<and> m = desired_network v)
     \<and> \<not> row_pending row \<and> \<not> row_pending s"
proof -
  have "networks_try get f installed host sc = Inr cs" by (rule networks_passed [OF check ok(1)])
  then have "\<exists>c. check_sdn get h (sc = Full) p = Inr c"
    using ok(2) declared host by (auto simp: networks_try_def res_simps is_sdn_def split: if_splits)
  then show ?thesis using check_sdn_Inr [OF _ vnets v row subnets s] check_subnet_Inr [OF _ m, of v name _ a] by blast
qed
definition net_manifest :: manifest_file where
  "net_manifest = \<lparr>mf_inside = True, mf_size = 98,
     mf_text = ''{\"mode\":\"sdn\",\"zone\":\"z\",\"vnets\":[{\"vnet\":\"v1\",\"subnet\":\"10.0.0.0/24\",\"gateway\":\"10.0.0.1\",\"snat\":true}]}''\<rparr>"

definition net_vnet :: vnet_plan where
  "net_vnet = \<lparr>vn_vnet = ''v1'', vn_subnet = ''10.0.0.0/24'', vn_gateway = Some ''10.0.0.1'', vn_snat = True\<rparr>"

definition net_plan :: sdn_plan where
  "net_plan = \<lparr>sp_zone = ''z'', sp_vnets = [net_vnet]\<rparr>"

definition net_subnet :: dict where
  "net_subnet = [(''subnet'', JStr ''z-10.0.0.0-24''), (''gateway'', JStr ''10.0.0.1''), (''snat'', JInt 1)]"

definition net_get :: http_get where
  "net_get url params =
     (let ok = (\<lambda>xs. Some \<lparr>hr_status = 200, hr_body = Some (JObj [(''data'', JList (map JObj xs))])\<rparr>) in
      if url = ''https://p/api2/json/cluster/sdn/zones'' then ok [[(''zone'', JStr ''z''), (''type'', JStr ''simple'')]]
      else if url = ''https://p/api2/json/cluster/sdn/vnets'' then ok [[(''vnet'', JStr ''v1''), (''zone'', JStr ''z'')]]
      else if url = ''https://p/api2/json/cluster/sdn/vnets/v1/subnets'' then ok [net_subnet]
      else if url = ''https://p/api2/json/nodes/pve/network'' then ok []
      else if url = ''https://p/api2/json/nodes/pve/sdn/zones'' then ok [[(''zone'', JStr ''z''), (''status'', JStr ''available'')]]
      else if url = ''https://p/api2/json/nodes/pve/sdn/zones/z/content''
      then ok [[(''vnet'', JStr ''v1''), (''status'', JStr ''available'')]]
      else None)"

lemma net_subnet_parsed: "parse_network ''10.0.0.0/24'' = Some \<lparr>net_base = 167772160, net_plen = 24\<rparr>"
  and net_gateway_parsed: "parse_ipv4 ''10.0.0.1'' = Some 167772161"
  by (simp_all add: parse_network_def parse_addr_prefix_def parse_prefix_def parse_ipv4_def parse_octet_def is_digit_def
      digits_val_def digit_val_def)

lemma net_desired: "desired_network net_vnet = \<lparr>net_base = 167772160, net_plen = 24\<rparr>"
  by (simp add: desired_network_def net_vnet_def net_subnet_parsed)

lemma net_plan_read: "read_plan (Some (Some net_manifest)) = Inr (Some (Sdn net_plan))"
proof -
  have "json_loads (mf_text net_manifest) = Some (JObj [(''mode'', JStr ''sdn''), (''zone'', JStr ''z''),
      (''vnets'', JList [JObj [(''vnet'', JStr ''v1''), (''subnet'', JStr ''10.0.0.0/24''),
        (''gateway'', JStr ''10.0.0.1''), (''snat'', JBool True)]])])" by code_simp
  then show ?thesis
    by (simp add: read_plan_def net_manifest_def plan_of_json_def jget_def vnet_of_json_def sdn_name_def is_alpha_def is_alnum_def
        is_digit_def valid_vnet_def net_subnet_parsed net_gateway_parsed usable_in_def in_net_def net_broadcast_def net_size_def
        unique_networks_def net_plan_def net_vnet_def dkeys_def Let_def)
qed
lemma net_reads:
  "sdn_list net_get sample_host ''/cluster/sdn/zones'' = Inr [[(''zone'', JStr ''z''), (''type'', JStr ''simple'')]]"
  "sdn_list net_get sample_host ''/cluster/sdn/vnets'' = Inr [[(''vnet'', JStr ''v1''), (''zone'', JStr ''z'')]]"
  "sdn_list net_get sample_host (''/cluster/sdn/vnets/'' @ url_quote ''v1'' @ ''/subnets'') = Inr [net_subnet]"
  "list_proxmox_data net_get sample_host (''/nodes/'' @ url_quote (ph_node_name sample_host) @ ''/network'') [] = Inr []"
  "list_proxmox_data net_get sample_host (runtime_root sample_host) [] = Inr [[(''zone'', JStr ''z''), (''status'', JStr ''available'')]]"
  "list_proxmox_data net_get sample_host (runtime_root sample_host @ ''/'' @ url_quote ''z'' @ ''/content'') []
     = Inr [[(''vnet'', JStr ''v1''), (''status'', JStr ''available'')]]"
  by (simp_all add: sdn_list_def readable_def runtime_root_def net_get_def url_quote_def quote_char_def is_alnum_def is_alpha_def
      is_digit_def eval_defs)

lemma net_cidr: "subnet_cidr net_subnet = Inr (V4 (desired_network net_vnet))"
proof -
  have "subnet_suffix ''z-10.0.0.0-24'' = Some ''10.0.0.0/24''" by code_simp
  then show ?thesis by (simp add: subnet_cidr_def net_subnet_def jget_def ip_network_text_def net_subnet_parsed net_desired)
qed

lemma net_sample:
  "check_scenario_networks net_get (Some (Some net_manifest)) False (Some sample_host) Configuration
     = Inr [passed ''scenario_networks'']"
proof -
  let ?view = "\<lparr>sv_full = False, sv_vnets = [[(''vnet'', JStr ''v1''), (''zone'', JStr ''z'')]], sv_interfaces = [], sv_subnets = [(''v1'', net_subnet)]\<rparr>"
  have v: "vn_vnet net_vnet = ''v1''" "vn_gateway net_vnet = Some ''10.0.0.1''" "vn_snat net_vnet"
    by (simp_all add: net_vnet_def)
  have "overlaps_desired (V4 (desired_network net_vnet)) net_vnet"
    by (simp add: overlaps_desired_def nets_overlap_def in_net_def net_broadcast_def net_size_def net_desired)
  then have "check_subnet net_vnet (''v1'', net_subnet) = Inr True"
    by (simp add: check_subnet_def net_cidr raised_def v net_unless_def) (simp add: net_subnet_def jget_def)
  moreover have "check_runtime net_get sample_host ''z'' ''v1'' = Inr ()"
    by (simp add: check_runtime_def net_reads net_reads(6) [simplified] readable_def raised_def net_unless_def is_available_def jget_def row_named_def)
  ultimately have "check_desired net_get sample_host ''z'' ?view net_vnet = Inr ()"
    by (simp add: check_desired_def check_interface_overlap_def row_named_def v jget_def net_unless_def)
  moreover have "vnet_subnets net_get sample_host [(''vnet'', JStr ''v1''), (''zone'', JStr ''z'')] = Inr [(''v1'', net_subnet)]"
    using net_reads(3) by (simp add: vnet_subnets_def jget_def check_pending_def net_unless_def row_pending_def net_subnet_def)
  ultimately have "check_sdn net_get sample_host False net_plan = Inr (passed ''scenario_networks'')"
    by (simp add: check_sdn_def net_reads net_reads(4) [simplified] check_pending_def net_unless_def row_pending_def jget_def readable_def raised_def
        check_zone_def row_named_def zone_excludes_def net_plan_def)
  then show ?thesis
    by (simp add: check_scenario_networks_def networks_try_def net_plan_read raised_def is_sdn_def net_unless_def)
qed

lemma declared_networks_apart_witness:
  "\<exists>m. subnet_cidr net_subnet = Inr (V4 m) \<and> in_net 167772165 m \<and> m = desired_network net_vnet
     \<and> \<not> row_pending net_subnet"
proof -
  have "in_net 167772165 (desired_network net_vnet)"
    by (simp add: net_desired in_net_def net_broadcast_def net_size_def)
  moreover have "net_vnet \<in> set (sp_vnets net_plan)" "report_result [passed ''scenario_networks''] \<noteq> Block"
    by (simp_all add: net_plan_def report_result_def passed_def)
  ultimately show ?thesis
    using declared_networks_apart [OF net_sample _ _ net_plan_read _ refl net_reads(2) _ _ net_reads(3) _ net_cidr, of net_vnet _ 167772165]
      net_cidr by (auto simp: jget_def)
qed

end
