(* ===== verification/Runtime_State.thy ===== *)
theory Runtime_State
  imports Scenario_Networks Store
begin

text \<open>
  What a deployment's guests, switches and networks look like on its host, as
  \<open>app/core/runtime_state.py\<close> reads them. The dicts the code builds are records here; of a
  list of error texts only whether it is empty is kept. The HTTP client and the manifest files are parameters.
\<close>

subsection \<open>Targets\<close>

record runtime_target =
  rt_vmid :: int
  rt_name :: string

definition target_of :: "dict \<Rightarrow> runtime_target option" where
  "target_of vm =
     (case (jget vm ''vm_id'', jget vm ''vm_name'') of
        (JInt i, JStr s) \<Rightarrow> if 100 \<le> i \<and> i \<le> 999999999 \<and> vm_name s then Some \<lparr>rt_vmid = i, rt_name = s\<rparr> else None
      | _ \<Rightarrow> None)"

definition runtime_invalid :: exc where
  "runtime_invalid = ApiError \<lparr>ae_status = 409, ae_error = ''runtime_manifest_invalid'', ae_code = ''RUNTIME_MANIFEST_INVALID''\<rparr>"

definition read_targets :: "manifest_file option \<Rightarrow> runtime_target list res" where
  "read_targets f =
     bindE (read_manifest f) (\<lambda>document.
     bindE (validate_vm_manifest document) (\<lambda>doc.
     bindE (item doc ''vms'') (\<lambda>v.
     case v of
       JList xs \<Rightarrow>
         bindE (assertE (length xs \<le> 512) ValueError) (\<lambda>_.
         bindE (mapE (\<lambda>x. of_opt ValueError (case x of JObj d \<Rightarrow> target_of d | _ \<Rightarrow> None)) xs) (\<lambda>vms.
         bindE (assertE (distinct (map rt_vmid vms)) ValueError) (\<lambda>_. Inr vms)))
     | _ \<Rightarrow> Inl ValueError)))"

definition runtime_targets :: "manifest_file option \<Rightarrow> manifest_file option option \<Rightarrow> (runtime_target list \<times> sdn_plan option) res" where
  "runtime_targets f networks =
     catchE (\<lambda>e. e \<in> {OSError, ValueError, KeyError, TypeError})
       (bindE (read_targets f) (\<lambda>vms.
        bindE (read_plan networks) (\<lambda>declared.
          Inr (vms, case declared of Some (Sdn p) \<Rightarrow> Some p | _ \<Rightarrow> None))))
       (Inl runtime_invalid)"

subsection \<open>Switches and interfaces\<close>

text \<open>\<open>value in (0, "0", False)\<close> compares with \<open>==\<close>.\<close>

definition flag :: "json \<Rightarrow> bool option" where
  "flag v =
     (if json_eq_int v 0 \<or> v = JStr ''0'' then Some False
      else if json_eq_int v 1 \<or> v = JStr ''1'' then Some True
      else None)"

definition flag_of :: "dict \<Rightarrow> string \<Rightarrow> json \<Rightarrow> bool option" where
  "flag_of d k dflt = flag (case dget d k of None \<Rightarrow> dflt | Some v \<Rightarrow> v)"

record nic_obs =
  ni_index :: nat
  ni_bridge :: "string option"
  ni_firewall :: "bool option"

definition is_nic_key :: "string \<Rightarrow> bool" where
  "is_nic_key k =
     (take 3 k = ''net''
      \<and> (case drop 3 k of
           [a] \<Rightarrow> is_digit a
         | [a, b] \<Rightarrow> (a \<in> set ''12'' \<and> is_digit b) \<or> (a = CHR ''3'' \<and> b \<in> set ''01'')
         | _ \<Rightarrow> False))"

definition nic_of :: "string \<times> json \<Rightarrow> nic_obs res" where
  "nic_of = (\<lambda>(key, value).
     case value of
       JStr s \<Rightarrow>
         (let fields = properties s in
          Inr \<lparr>ni_index = digits_val (drop 3 key), ni_bridge = dget fields ''bridge'',
               ni_firewall = flag (JStr (case dget fields ''firewall'' of None \<Rightarrow> ''0'' | Some v \<Rightarrow> v))\<rparr>)
     | _ \<Rightarrow> Inl ValueError)"

definition nics :: "dict \<Rightarrow> nic_obs list res" where
  "nics config = bindE (mapE nic_of (filter (\<lambda>(k, v). is_nic_key k) config)) (\<lambda>xs. Inr (sort_key ni_index xs))"

subsection \<open>Guests\<close>

datatype guest_status = Owned | Missing | Conflict | Unverified

record guest_obs =
  go_vmid :: int
  go_name :: string
  go_status :: guest_status
  go_firewall :: "bool option"
  go_nics :: "nic_obs list"
  go_filtering :: "bool option"

definition guest_as :: "runtime_target \<Rightarrow> guest_status \<Rightarrow> guest_obs" where
  "guest_as vm st = \<lparr>go_vmid = rt_vmid vm, go_name = rt_name vm, go_status = st, go_firewall = None, go_nics = [], go_filtering = None\<rparr>"

definition same_guest :: "proxmox_host \<Rightarrow> runtime_target \<Rightarrow> dict \<Rightarrow> bool" where
  "same_guest h vm live =
     (jget live ''node'' = JStr (ph_node_name h) \<and> jget live ''name'' = JStr (rt_name vm)
      \<and> jget live ''type'' = JStr ''qemu'' \<and> \<not> truthy (jget live ''template''))"

definition own_config :: "string \<Rightarrow> runtime_target \<Rightarrow> dict \<Rightarrow> bool" where
  "own_config deployment_id vm config =
     (jget config ''name'' = JStr (rt_name vm) \<and> flag_of config ''template'' (JInt 0) = Some False
      \<and> carries_marker deployment_id (JObj config))"

definition guest_path :: "proxmox_host \<Rightarrow> runtime_target \<Rightarrow> string" where
  "guest_path h vm = ''/nodes/'' @ url_quote (ph_node_name h) @ ''/qemu/'' @ int_str (rt_vmid vm)"

definition read_object :: "http_get \<Rightarrow> proxmox_host \<Rightarrow> string \<Rightarrow> dict option" where
  "read_object get h path =
     (case read_proxmox_data get h path [] of Inr (JObj d) \<Rightarrow> Some d | _ \<Rightarrow> None)"

definition filtering :: "bool option \<Rightarrow> bool option \<Rightarrow> nic_obs list \<Rightarrow> bool option" where
  "filtering datacenter guest ns =
     (let needed = datacenter # guest # map ni_firewall ns in
      if None \<in> set needed then None else Some (list_all (\<lambda>x. x = Some True) needed \<and> ns \<noteq> []))"

definition observe_owned :: "bool option \<Rightarrow> runtime_target \<Rightarrow> dict \<Rightarrow> dict \<Rightarrow> guest_obs" where
  "observe_owned datacenter vm config options =
     (let sw = flag (jget options ''enable'') in
      case nics config of
        Inl e \<Rightarrow> (guest_as vm Unverified)\<lparr>go_firewall := sw\<rparr>
      | Inr ns \<Rightarrow> (guest_as vm Owned)\<lparr>go_firewall := sw, go_nics := ns, go_filtering := filtering datacenter sw ns\<rparr>)"

definition observe_guest ::
    "http_get \<Rightarrow> proxmox_host \<Rightarrow> string \<Rightarrow> bool option \<Rightarrow> (int \<rightharpoonup> dict) \<Rightarrow> runtime_target \<Rightarrow> guest_obs" where
  "observe_guest get h deployment_id datacenter existing vm =
     (case existing (rt_vmid vm) of
        None \<Rightarrow>
          (case read_proxmox_data get h ''/cluster/nextid'' [(''vmid'', JInt (rt_vmid vm))] of
             Inl _ \<Rightarrow> guest_as vm Unverified
           | Inr vacant \<Rightarrow> guest_as vm (if names_vmid (Some vacant) (rt_vmid vm) then Missing else Unverified))
      | Some live \<Rightarrow>
          if \<not> same_guest h vm live then guest_as vm Conflict
          else case read_object get h (guest_path h vm @ ''/config'') of
            None \<Rightarrow> guest_as vm Unverified
          | Some config \<Rightarrow>
              if \<not> own_config deployment_id vm config then guest_as vm Conflict
              else case read_object get h (guest_path h vm @ ''/firewall/options'') of
                None \<Rightarrow> guest_as vm Unverified
              | Some options \<Rightarrow> observe_owned datacenter vm config options)"

definition live_guests :: "http_get \<Rightarrow> proxmox_host \<Rightarrow> (int \<rightharpoonup> dict) option" where
  "live_guests get h =
     (case list_proxmox_data get h ''/cluster/resources'' [(''type'', JStr ''vm'')] of
        Inl _ \<Rightarrow> None
      | Inr rows \<Rightarrow> (case by_id rows of Inl _ \<Rightarrow> None | Inr m \<Rightarrow> Some m))"

definition guests :: "http_get \<Rightarrow> proxmox_host \<Rightarrow> runtime_target list \<Rightarrow> string \<Rightarrow> bool option \<Rightarrow> guest_obs list" where
  "guests get h vms deployment_id datacenter =
     (case live_guests get h of
        None \<Rightarrow> map (\<lambda>vm. guest_as vm Unverified) vms
      | Some m \<Rightarrow> map (observe_guest get h deployment_id datacenter m) vms)"

subsection \<open>Networks\<close>

record network_obs =
  no_vnet :: string
  no_zone :: string
  no_subnet :: string
  no_gateway :: "string option"
  no_manifest_snat :: bool
  no_snat :: "bool option"
  no_subnet_id :: json
  no_matches :: bool
  no_active :: bool

record sdn_obs =
  so_pending :: "bool option"
  so_errors :: bool

definition unread_network :: "sdn_plan \<Rightarrow> vnet_plan \<Rightarrow> network_obs" where
  "unread_network p v =
     \<lparr>no_vnet = vn_vnet v, no_zone = sp_zone p, no_subnet = vn_subnet v, no_gateway = vn_gateway v,
      no_manifest_snat = vn_snat v, no_snat = None, no_subnet_id = JNull, no_matches = False, no_active = False\<rparr>"

definition subnet_rows :: "http_get \<Rightarrow> proxmox_host \<Rightarrow> (string \<times> dict list) list \<Rightarrow> dict \<Rightarrow> stop + (string \<times> dict list) list" where
  "subnet_rows get h acc vnet =
     (case jget vnet ''vnet'' of
        JStr name \<Rightarrow>
          bindE (sdn_list get h (''/cluster/sdn/vnets/'' @ url_quote name @ ''/subnets'')) (\<lambda>rows. Inr (dset name rows acc))
      | _ \<Rightarrow> Inl (Raised ValueError))"

text \<open>Other exceptions than a refusal leave the block.\<close>

definition pending_changes :: "http_get \<Rightarrow> proxmox_host \<Rightarrow> dict list \<Rightarrow> stop + sdn_obs" where
  "pending_changes get h rows =
     (case bindE (check_pending rows) (\<lambda>_. check_global_pending get h) of
        Inr _ \<Rightarrow> Inr \<lparr>so_pending = Some False, so_errors = False\<rparr>
      | Inl (Stop cs) \<Rightarrow>
          Inr \<lparr>so_pending = (if list_ex (\<lambda>c. pc_code c = Some ''SDN_PENDING_CHANGES'') cs then Some True else None), so_errors = True\<rparr>
      | Inl e \<Rightarrow> Inl e)"

definition zone_serves :: "proxmox_host \<Rightarrow> dict \<Rightarrow> bool res" where
  "zone_serves h zone =
     (if jget zone ''type'' \<noteq> JStr ''simple'' then Inr False
      else if \<not> truthy (jget zone ''nodes'') then Inr True
      else case jget zone ''nodes'' of
        JStr s \<Rightarrow> Inr (ph_node_name h \<in> set (split_on (CHR '','') s))
      | JList xs \<Rightarrow> Inr (JStr (ph_node_name h) \<in> set xs)
      | JObj d \<Rightarrow> Inr (ph_node_name h \<in> set (dkeys d))
      | _ \<Rightarrow> Inl TypeError)"

definition net_str :: "ip_net \<Rightarrow> string" where
  "net_str n = (case n of V4 m \<Rightarrow> ip_str (net_base m) @ ''/'' @ nat_str (net_plen m) | V6 \<Rightarrow> '':'')"

record sdn_live =
  sl_zones :: bool
  sl_vnets :: "dict list"
  sl_subnets :: "(string \<times> dict list) list"
  sl_active_zones :: "dict list"
  sl_active_vnets :: "dict list"

definition observe_network :: "sdn_plan \<Rightarrow> sdn_live \<Rightarrow> network_obs \<Rightarrow> network_obs res" where
  "observe_network p live n =
     (let vnet = (case row_named ''vnet'' (no_vnet n) (sl_vnets live) of None \<Rightarrow> [] | Some r \<Rightarrow> r);
          rows = (case dget (sl_subnets live) (no_vnet n) of None \<Rightarrow> [] | Some rs \<Rightarrow> rs)
      in bindE (mapE (\<lambda>r. bindE (subnet_cidr r) (\<lambda>c. Inr (r, net_str c))) rows) (\<lambda>named.
         let subnet = (case filter (\<lambda>(r, s). s = no_subnet n) named of [(r, s)] \<Rightarrow> r | _ \<Rightarrow> []) in
         Inr (n\<lparr>no_subnet_id := jget subnet ''subnet'',
                no_matches := (sl_zones live \<and> jget vnet ''zone'' = JStr (sp_zone p) \<and> subnet \<noteq> []
                  \<and> jget subnet ''gateway'' = (case no_gateway n of None \<Rightarrow> JNull | Some g \<Rightarrow> JStr g)),
                no_snat := (if subnet = [] then None else flag_of subnet ''snat'' (JInt 0)),
                no_active := (list_ex (\<lambda>r. jget r ''zone'' = JStr (sp_zone p) \<and> is_available r) (sl_active_zones live)
                  \<and> list_ex (\<lambda>r. jget r ''vnet'' = JStr (no_vnet n) \<and> is_available r) (sl_active_vnets live))\<rparr>)))"

text \<open>The rows before the first one that fails are updated; the flag tells whether none failed.\<close>

fun update_rows_until :: "('a \<Rightarrow> 'e + 'a) \<Rightarrow> 'a list \<Rightarrow> 'a list \<times> 'e option" where
  "update_rows_until f [] = ([], None)"
| "update_rows_until f (x # xs) =
     (case f x of
        Inl e \<Rightarrow> (x # xs, Some e)
      | Inr y \<Rightarrow> (case update_rows_until f xs of (ys, e) \<Rightarrow> (y # ys, e)))"

definition read_sdn :: "http_get \<Rightarrow> proxmox_host \<Rightarrow> sdn_plan \<Rightarrow> stop + sdn_obs \<times> sdn_live" where
  "read_sdn get h p =
     bindE (sdn_list get h ''/cluster/sdn/zones'') (\<lambda>zones.
     bindE (sdn_list get h ''/cluster/sdn/vnets'') (\<lambda>vnets.
     bindE (foldE (subnet_rows get h) [] vnets) (\<lambda>subnets.
     bindE (pending_changes get h (zones @ vnets @ concat (map snd subnets))) (\<lambda>sdn.
     bindE (readable (list_proxmox_data get h (runtime_root h) [])) (\<lambda>active_zones.
     bindE (readable (list_proxmox_data get h (runtime_root h @ ''/'' @ url_quote (sp_zone p) @ ''/content'') [])) (\<lambda>active_vnets.
     bindE (raised (zone_serves h (case row_named ''zone'' (sp_zone p) zones of None \<Rightarrow> [] | Some z \<Rightarrow> z))) (\<lambda>serves.
       Inr (sdn, \<lparr>sl_zones = serves, sl_vnets = vnets, sl_subnets = subnets, sl_active_zones = active_zones,
                  sl_active_vnets = active_vnets\<rparr>))))))))"

text \<open>An error that the code catches leaves the flag unknown, whatever was found before.\<close>

definition networks :: "http_get \<Rightarrow> proxmox_host \<Rightarrow> sdn_plan option \<Rightarrow> (sdn_obs \<times> network_obs list) res" where
  "networks get h declared =
     (case declared of
        None \<Rightarrow> Inr (\<lparr>so_pending = None, so_errors = False\<rparr>, [])
      | Some p \<Rightarrow>
          let unread = map (unread_network p) (sp_vnets p); failed = (\<lambda>ns. Inr (\<lparr>so_pending = None, so_errors = True\<rparr>, ns)) in
          case read_sdn get h p of
            Inl e \<Rightarrow> (case e of
                Raised x \<Rightarrow> if x = ValueError \<or> x = TypeError then failed unread else Inl x
              | _ \<Rightarrow> failed unread)
          | Inr (sdn, live) \<Rightarrow>
              (case update_rows_until (observe_network p live) unread of
                 (ns, None) \<Rightarrow> Inr (sdn, ns)
               | (ns, Some x) \<Rightarrow> if x = ValueError \<or> x = TypeError then failed ns else Inl x))"

subsection \<open>The state\<close>

record firewall_obs =
  fo_datacenter :: "bool option"
  fo_node :: "bool option"
  fo_errors :: bool

record runtime_state =
  rs_deployment :: string
  rs_node :: string
  rs_firewall :: firewall_obs
  rs_vms :: "guest_obs list"
  rs_sdn :: sdn_obs
  rs_networks :: "network_obs list"

definition host_switch :: "http_get \<Rightarrow> proxmox_host \<Rightarrow> string \<Rightarrow> bool option option" where
  "host_switch get h path = map_option (\<lambda>d. flag (jget d ''enable'')) (read_object get h path)"

definition switch_value :: "bool option option \<Rightarrow> bool option" where
  "switch_value s = (case s of None \<Rightarrow> None | Some v \<Rightarrow> v)"

definition host_firewall :: "http_get \<Rightarrow> proxmox_host \<Rightarrow> firewall_obs" where
  "host_firewall get h =
     (let dc = host_switch get h ''/cluster/firewall/options'';
          node = host_switch get h (''/nodes/'' @ url_quote (ph_node_name h) @ ''/firewall/options'')
      in \<lparr>fo_datacenter = switch_value dc, fo_node = switch_value node, fo_errors = (dc = None \<or> node = None)\<rparr>)"

definition read_runtime_state ::
    "http_get \<Rightarrow> manifest_file option \<Rightarrow> manifest_file option option \<Rightarrow> proxmox_host \<Rightarrow> string \<Rightarrow> runtime_state res" where
  "read_runtime_state get f nf h deployment_id =
     bindE (runtime_targets f nf) (\<lambda>(vms, declared).
     let fw = host_firewall get h; gs = guests get h vms deployment_id (fo_datacenter fw) in
     bindE (networks get h declared) (\<lambda>(sdn, ns).
       Inr \<lparr>rs_deployment = deployment_id, rs_node = ph_node_name h, rs_firewall = fw, rs_vms = gs, rs_sdn = sdn,
            rs_networks = ns\<rparr>))"

end
