(* ===== verification/Runtime_Networks.thy ===== *)
theory Runtime_Networks
  imports Runtime_State Py_Values
begin

text \<open>
  The reviewed life of one declared VNet (\<open>app/core/runtime_networks.py\<close>): what the cluster
  holds before a change, and the plan that creates or deletes the network. The plays that a
  plan becomes are data for Ansible and are not modelled, nor are the hashes of the reads that
  they check again; the reads those hashes cannot be taken of fail, which is modelled.
\<close>

definition network_marker :: "string \<Rightarrow> string" where
  "network_marker deployment_id = ''range42-deployment-'' @ deployment_id"

definition op_blocked :: "string \<Rightarrow> exc" where
  "op_blocked code = ApiError \<lparr>ae_status = 409, ae_error = ''runtime_operation_blocked'', ae_code = code\<rparr>"

abbreviation op_refused :: exc where
  "op_refused \<equiv> op_blocked ''RUNTIME_OPERATION_BLOCKED''"

subsection \<open>Guarded reads\<close>

definition url_path :: "string \<Rightarrow> string" where
  "url_path url =
     (let p = takeWhile (\<lambda>c. c \<notin> set ''?#'') (concat (map (\<lambda>s. CHR ''/'' # s) (drop 3 (split_on (CHR ''/'') url))))
      in if prefix ''/api2/json'' p then drop 10 p else p)"

definition sort_key_of :: "string \<Rightarrow> string option" where
  "sort_key_of path =
     (if path = ''/cluster/sdn/zones'' then Some ''zone''
      else if path = ''/cluster/sdn/vnets'' then Some ''vnet''
      else case split_on (CHR ''/'') path of
        [a, b, c, d, e, f] \<Rightarrow>
          if a = [] \<and> b = ''cluster'' \<and> c = ''sdn'' \<and> d = ''vnets'' \<and> e \<noteq> [] \<and> f = ''subnets'' then Some ''subnet'' else None
      | [a, b, c, d] \<Rightarrow>
          if a = [] \<and> b = ''nodes'' \<and> c \<noteq> [] \<and> d = ''network'' then Some ''iface'' else None
      | _ \<Rightarrow> None)"

definition has_fields :: "string list \<Rightarrow> json \<Rightarrow> bool" where
  "has_fields ks v = (case v of JObj d \<Rightarrow> list_all (\<lambda>k. dget d k \<noteq> None) ks | _ \<Rightarrow> False)"

definition rows_ok :: "(json \<Rightarrow> bool) \<Rightarrow> json \<Rightarrow> bool" where
  "rows_ok p v = (case v of JList xs \<Rightarrow> list_all p xs | JObj d \<Rightarrow> d = [] | JStr s \<Rightarrow> s = [] | _ \<Rightarrow> False)"

definition sortable :: "json list \<Rightarrow> bool" where
  "sortable vs = (length vs \<le> 1 \<or> list_all is_str vs \<or> list_all (\<lambda>v. number_of v \<noteq> None) vs)"

definition field_of :: "string \<Rightarrow> json \<Rightarrow> json" where
  "field_of k v = (case v of JObj d \<Rightarrow> jget d k | _ \<Rightarrow> JNull)"

definition elements :: "json \<Rightarrow> json list" where
  "elements v = (case v of JList xs \<Rightarrow> xs | _ \<Rightarrow> [])"

text \<open>Whether the guard of a read can be recorded.\<close>

definition recordable :: "string \<Rightarrow> dict \<Rightarrow> json \<Rightarrow> bool" where
  "recordable path params data =
     (if path = ''/cluster/resources'' \<and> params \<noteq> [] then rows_ok (has_fields [''vmid'', ''node'', ''type'']) data
      else if path = ''/nodes'' \<and> params = []
      then rows_ok (has_fields [''node'']) data \<and> sortable (map (field_of ''node'') (elements data))
      else case sort_key_of path of
        None \<Rightarrow> True
      | Some k \<Rightarrow>
          (case data of
             JList xs \<Rightarrow> list_all (\<lambda>x. is_str (field_of k x)) xs \<and> distinct (map (field_of k) xs)
           | _ \<Rightarrow> False))"

definition guarded_get :: "http_get \<Rightarrow> http_get" where
  "guarded_get get url params =
     (case get url params of
        None \<Rightarrow> None
      | Some r \<Rightarrow>
          if hr_status r \<noteq> 200 then Some r
          else case hr_body r of
            Some (JObj d) \<Rightarrow>
              (case dget d ''data'' of
                 Some v \<Rightarrow> if recordable (url_path url) params v then Some r else None
               | None \<Rightarrow> None)
          | _ \<Rightarrow> None)"

subsection \<open>The inventory\<close>

definition complete_audit :: "json \<Rightarrow> bool res" where
  "complete_audit permissions =
     (case permissions of
        JObj d \<Rightarrow>
          (case dget d ''/'' of
             None \<Rightarrow> Inr False
           | Some (JObj p) \<Rightarrow>
               Inr (list_all (\<lambda>k. json_eq_int (jget p k) 1) [''Sys.Audit'', ''VM.Audit'', ''SDN.Allocate''])
           | Some _ \<Rightarrow> Inl AttributeError)
      | _ \<Rightarrow> Inr False)"

definition sole_node :: "proxmox_host \<Rightarrow> dict list \<Rightarrow> bool" where
  "sole_node h nodes = (case nodes of [n] \<Rightarrow> jget n ''node'' = JStr (ph_node_name h) | _ \<Rightarrow> False)"

definition vnet_rows :: "http_get \<Rightarrow> proxmox_host \<Rightarrow> (string \<times> dict list) list \<Rightarrow> dict \<Rightarrow> stop + (string \<times> dict list) list" where
  "vnet_rows get h acc vnet =
     bindE (raised (item vnet ''vnet'')) (\<lambda>v.
     case v of
       JStr name \<Rightarrow>
         if \<not> sdn_name name \<or> dget acc name \<noteq> None then Inl (Raised ValueError)
         else bindE (sdn_list get h (''/cluster/sdn/vnets/'' @ name @ ''/subnets'')) (\<lambda>rows.
              bindE (raised (assertE (length rows \<le> 256) ValueError)) (\<lambda>_.
              bindE (check_pending rows) (\<lambda>_. Inr (dset name rows acc))))
     | _ \<Rightarrow> Inl (Raised ValueError))"

definition v4_text :: "ip_net option \<Rightarrow> string list" where
  "v4_text n = (case n of Some (V4 m) \<Rightarrow> [net_str (V4 m)] | _ \<Rightarrow> [])"

definition known_subnets :: "dict list \<Rightarrow> (string \<times> dict list) list \<Rightarrow> string list res" where
  "known_subnets interfaces subnets =
     bindE (mapE interface_network interfaces) (\<lambda>own.
     bindE (mapE (\<lambda>r. bindE (subnet_cidr r) (\<lambda>n. Inr (Some n))) (concat (map snd subnets))) (\<lambda>sdn.
       Inr (sort (remdups (concat (map v4_text (own @ sdn)))))))"

record attached_guest =
  ag_vmid :: int
  ag_node :: string
  ag_kind :: string
  ag_template :: bool
  ag_bridges :: "string list"

text \<open>\<open>str(value) == "1"\<close>.\<close>

definition says_one :: "json \<Rightarrow> bool" where
  "says_one v = (v = JInt 1 \<or> v = JStr ''1'')"

definition guest_bridges :: "dict \<Rightarrow> string list res" where
  "guest_bridges config =
     bindE (mapE (\<lambda>(k, v). case v of
         JStr s \<Rightarrow> Inr (case dget (properties s) ''bridge'' of None \<Rightarrow> [] | Some b \<Rightarrow> [b])
       | _ \<Rightarrow> Inl ValueError) (filter (\<lambda>(k, v). is_net_key k) config)) (\<lambda>bs. Inr (sort (concat bs)))"

definition attached_guest_of :: "http_get \<Rightarrow> proxmox_host \<Rightarrow> dict \<Rightarrow> stop + attached_guest" where
  "attached_guest_of get h row =
     bindE (raised (item row ''vmid'')) (\<lambda>vmid. bindE (raised (item row ''node'')) (\<lambda>node. bindE (raised (item row ''type'')) (\<lambda>kind.
     case (vmid, node, kind) of
       (JInt i, JStr n, JStr k) \<Rightarrow>
         if 100 \<le> i \<and> i \<le> 999999999 \<and> k \<in> {''qemu'', ''lxc''} \<and> is_node_name n \<and> length n \<le> 128
         then bindE (readable (read_proxmox_data get h (''/nodes/'' @ n @ ''/'' @ k @ ''/'' @ int_str i @ ''/config'') [])) (\<lambda>v.
              case v of
                JObj config \<Rightarrow>
                  bindE (raised (guest_bridges config)) (\<lambda>bs.
                    Inr \<lparr>ag_vmid = i, ag_node = n, ag_kind = k,
                         ag_template = says_one (case dget config ''template'' of Some t \<Rightarrow> t
                           | None \<Rightarrow> (case dget row ''template'' of Some t \<Rightarrow> t | None \<Rightarrow> JInt 0)),
                         ag_bridges = bs\<rparr>)
              | _ \<Rightarrow> Inl (Raised ValueError))
         else Inl (Raised ValueError)
     | _ \<Rightarrow> Inl (Raised ValueError))))"

record inventory =
  iv_zones :: "dict list"
  iv_vnets :: "dict list"
  iv_interfaces :: "dict list"
  iv_subnets :: "(string \<times> dict list) list"
  iv_known :: "string list"
  iv_guests :: "attached_guest list"

definition read_inventory :: "http_get \<Rightarrow> proxmox_host \<Rightarrow> stop + inventory" where
  "read_inventory get h =
     bindE (readable (read_proxmox_data get h ''/access/permissions'' [(''path'', JStr ''/'')])) (\<lambda>permissions.
     bindE (raised (complete_audit permissions)) (\<lambda>audited.
     bindE (raised (assertE audited op_refused)) (\<lambda>_.
     bindE (readable (list_proxmox_data get h ''/nodes'' [])) (\<lambda>nodes.
     bindE (raised (assertE (sole_node h nodes) op_refused)) (\<lambda>_.
     bindE (sdn_list get h ''/cluster/sdn/zones'') (\<lambda>zones.
     bindE (sdn_list get h ''/cluster/sdn/vnets'') (\<lambda>vnets.
     bindE (raised (assertE (length zones \<le> 512 \<and> length vnets \<le> 2048) ValueError)) (\<lambda>_.
     bindE (check_pending (zones @ vnets)) (\<lambda>_.
     bindE (check_global_pending get h) (\<lambda>_.
     bindE (readable (list_proxmox_data get h (''/nodes/'' @ url_quote (ph_node_name h) @ ''/network'') [])) (\<lambda>interfaces.
     bindE (foldE (vnet_rows get h) [] vnets) (\<lambda>subnets.
     bindE (raised (known_subnets interfaces subnets)) (\<lambda>known.
     bindE (readable (list_proxmox_data get h ''/cluster/resources'' [(''type'', JStr ''vm'')])) (\<lambda>resources.
     bindE (raised (assertE (length resources \<le> 2048) ValueError)) (\<lambda>_.
     bindE (mapE (attached_guest_of get h) resources) (\<lambda>gs.
     bindE (raised (assertE (distinct (map ag_vmid gs)) ValueError)) (\<lambda>_.
       Inr \<lparr>iv_zones = zones, iv_vnets = vnets, iv_interfaces = interfaces, iv_subnets = subnets, iv_known = known,
            iv_guests = gs\<rparr>)))))))))))))))))"

subsection \<open>One declared VNet\<close>

record lifecycle_network = vnet_plan +
  ln_zone :: string
  ln_exists :: bool
  ln_owned :: bool
  ln_subnet_id :: json
  ln_matches :: bool
  ln_snat :: "bool option"
  ln_attachments :: "attached_guest list"
  ln_errors :: bool

record lifecycle =
  lc_available :: bool
  lc_networks :: "lifecycle_network list"
  lc_marker :: string
  lc_zone_exists :: bool
  lc_known :: "string list"

definition foreign_overlap :: "vnet_plan \<Rightarrow> string \<times> dict \<Rightarrow> bool res" where
  "foreign_overlap v = (\<lambda>(name, row).
     bindE (subnet_cidr row) (\<lambda>n. Inr (overlaps_desired n v \<and> (name \<noteq> vn_vnet v \<or> net_str n \<noteq> vn_subnet v))))"

definition named_rows :: "(string \<times> dict list) list \<Rightarrow> (string \<times> dict) list" where
  "named_rows subnets = concat (map (\<lambda>(name, rows). map (Pair name) rows) subnets)"

text \<open>The first overlap ends the loop; an unreadable subnet before it is an error of the whole read.\<close>

fun first_overlap :: "vnet_plan \<Rightarrow> (string \<times> dict) list \<Rightarrow> bool res" where
  "first_overlap v [] = Inr False"
| "first_overlap v (x # xs) = bindE (foreign_overlap v x) (\<lambda>bad. if bad then Inr True else first_overlap v xs)"

definition network_errors :: "inventory \<Rightarrow> vnet_plan \<Rightarrow> dict option \<Rightarrow> stop + bool" where
  "network_errors iv v live =
     (case check_interface_overlap v (iv_interfaces iv) of
        Inl (Stop cs) \<Rightarrow> Inr True
      | Inl e \<Rightarrow> Inl e
      | Inr _ \<Rightarrow>
          if live = None \<and> list_ex (\<lambda>r. jget r ''iface'' = JStr (vn_vnet v)) (iv_interfaces iv) then Inr True
          else raised (first_overlap v (named_rows (iv_subnets iv))))"

definition subnet_texts :: "dict list \<Rightarrow> (dict \<times> string) list res" where
  "subnet_texts rows = mapE (\<lambda>r. bindE (subnet_cidr r) (\<lambda>c. Inr (r, net_str c))) rows"

text \<open>\<open>exact[0] if len(exact) == 1 else {}\<close>.\<close>

definition sole_subnet :: "string \<Rightarrow> (dict \<times> string) list \<Rightarrow> dict" where
  "sole_subnet cidr texts = (case filter (\<lambda>(r, s). s = cidr) texts of [(r, s)] \<Rightarrow> r | _ \<Rightarrow> [])"

definition gateway_json :: "string option \<Rightarrow> json" where
  "gateway_json g = (case g of None \<Rightarrow> JNull | Some s \<Rightarrow> JStr s)"

definition live_field :: "dict option \<Rightarrow> string \<Rightarrow> string \<Rightarrow> bool" where
  "live_field live k s = (case live of None \<Rightarrow> False | Some r \<Rightarrow> jget r k = JStr s)"

definition network_facts ::
    "inventory \<Rightarrow> string \<Rightarrow> string \<Rightarrow> bool \<Rightarrow> vnet_plan \<Rightarrow> dict option \<Rightarrow> dict list \<Rightarrow> dict \<Rightarrow> bool \<Rightarrow> lifecycle_network" where
  "network_facts iv marker zone zone_found v live rows subnet bad =
     vnet_plan.extend v
       \<lparr>ln_zone = zone, ln_exists = (live \<noteq> None), ln_owned = live_field live ''alias'' marker,
        ln_subnet_id = jget subnet ''subnet'',
        ln_matches = (zone_found \<and> live_field live ''zone'' zone \<and> length rows = 1 \<and> subnet \<noteq> []
           \<and> jget subnet ''gateway'' = gateway_json (vn_gateway v)),
        ln_snat = (if subnet = [] then None
           else Some (says_one (case dget subnet ''snat'' of None \<Rightarrow> JInt 0 | Some x \<Rightarrow> x))),
        ln_attachments = filter (\<lambda>g. vn_vnet v \<in> set (ag_bridges g)) (iv_guests iv),
        ln_errors = bad\<rparr>"

definition vnet_subnet_rows :: "inventory \<Rightarrow> vnet_plan \<Rightarrow> dict list" where
  "vnet_subnet_rows iv v = (case dget (iv_subnets iv) (vn_vnet v) of None \<Rightarrow> [] | Some rs \<Rightarrow> rs)"

definition lifecycle_network :: "inventory \<Rightarrow> string \<Rightarrow> string \<Rightarrow> bool \<Rightarrow> vnet_plan \<Rightarrow> stop + lifecycle_network" where
  "lifecycle_network iv marker zone zone_found v =
     (let live = row_named ''vnet'' (vn_vnet v) (iv_vnets iv); rows = vnet_subnet_rows iv v
      in bindE (raised (subnet_texts rows)) (\<lambda>texts.
         bindE (network_errors iv v live) (\<lambda>bad.
           Inr (network_facts iv marker zone zone_found v live rows (sole_subnet (vn_subnet v) texts) bad))))"

definition lifecycle_of :: "http_get \<Rightarrow> proxmox_host \<Rightarrow> string \<Rightarrow> sdn_plan \<Rightarrow> stop + lifecycle" where
  "lifecycle_of get h marker p =
     bindE (read_inventory get h) (\<lambda>iv.
     let zone = row_named ''zone'' (sp_zone p) (iv_zones iv) in
     bindE (raised (case zone of None \<Rightarrow> Inr True | Some z \<Rightarrow> zone_serves h z)) (\<lambda>serves.
     bindE (raised (assertE serves op_refused)) (\<lambda>_.
     bindE (mapE (lifecycle_network iv marker (sp_zone p) (zone \<noteq> None)) (sp_vnets p)) (\<lambda>ns.
       Inr \<lparr>lc_available = True, lc_networks = ns, lc_marker = marker, lc_zone_exists = (zone \<noteq> None),
            lc_known = iv_known iv\<rparr>))))"

definition no_lifecycle :: "string \<Rightarrow> lifecycle" where
  "no_lifecycle marker = \<lparr>lc_available = False, lc_networks = [], lc_marker = marker, lc_zone_exists = False, lc_known = []\<rparr>"

fun is_api_error :: "exc \<Rightarrow> bool" where
  "is_api_error (ApiError e) = True"
| "is_api_error _ = False"

definition read_network_lifecycle ::
    "http_get \<Rightarrow> manifest_file option \<Rightarrow> manifest_file option option \<Rightarrow> proxmox_host \<Rightarrow> string \<Rightarrow> lifecycle res" where
  "read_network_lifecycle get f nf h deployment_id =
     bindE (runtime_targets f nf) (\<lambda>(vms, declared).
     let marker = network_marker deployment_id in
     case declared of
       None \<Rightarrow> Inr (no_lifecycle marker)
     | Some p \<Rightarrow>
         (case lifecycle_of (guarded_get get) h marker p of
            Inr lc \<Rightarrow> Inr lc
          | Inl (Raised e) \<Rightarrow>
              if e \<in> {ValueError, TypeError, KeyError} \<or> is_api_error e then Inr (no_lifecycle marker) else Inl e
          | Inl _ \<Rightarrow> Inr (no_lifecycle marker)))"

subsection \<open>The plan\<close>

datatype net_action = Create | Delete

record lifecycle_step =
  st_bundle :: string
  st_values :: dict

record network_change =
  nc_steps :: "lifecycle_step list"
  nc_network :: lifecycle_network
  nc_known :: "string list"
  nc_marker :: string

definition net_step :: "string \<Rightarrow> dict \<Rightarrow> lifecycle_step" where
  "net_step name vals = \<lparr>st_bundle = ''proxmox/sdn_network.'' @ name, st_values = vals\<rparr>"

definition snat_int :: "bool \<Rightarrow> json" where
  "snat_int b = JInt (if b then 1 else 0)"

definition subnet_variables :: "lifecycle_network \<Rightarrow> dict" where
  "subnet_variables n =
     [(''BUNDLE_SDN_ZONE'', JStr (ln_zone n)), (''BUNDLE_SDN_VNET'', JStr (vn_vnet n)),
      (''BUNDLE_SDN_SUBNET_CIDR'', JStr (vn_subnet n)), (''BUNDLE_SDN_SUBNET_SNAT'', snat_int (vn_snat n))]
     @ (case vn_gateway n of None \<Rightarrow> [] | Some g \<Rightarrow> [(''BUNDLE_SDN_SUBNET_GATEWAY'', JStr g)])"

definition create_steps :: "lifecycle \<Rightarrow> lifecycle_network \<Rightarrow> lifecycle_step list res" where
  "create_steps lc n =
     (if ln_exists n then Inl op_refused
      else Inr ((if lc_zone_exists lc then [] else [net_step ''create.sdn_zone'' [(''BUNDLE_SDN_ZONE'', JStr (ln_zone n))]])
        @ [net_step ''create.sdn_vnet'' (subnet_variables n @ [(''sdn_vnet_alias'', JStr (lc_marker lc))]),
           net_step ''create.sdn_subnet'' (subnet_variables n)]))"

definition subnet_id_ok :: "string \<Rightarrow> bool" where
  "subnet_id_ok = class_match (\<lambda>c. is_alnum c \<or> c \<in> set ''_.:-'') 1 128"

definition delete_steps :: "lifecycle_network \<Rightarrow> lifecycle_step list res" where
  "delete_steps n =
     (case ln_subnet_id n of
        JStr i \<Rightarrow>
          if \<not> ln_owned n \<or> \<not> ln_matches n then Inl (op_blocked ''SDN_NETWORK_OWNERSHIP'')
          else if \<not> subnet_id_ok i then Inl op_refused
          else Inr [net_step ''delete.sdn_subnet'' [(''BUNDLE_SDN_VNET'', JStr (vn_vnet n)), (''BUNDLE_SDN_SUBNET_ID'', JStr i)],
                    net_step ''delete.sdn_vnet'' [(''BUNDLE_SDN_VNET'', JStr (vn_vnet n))]]
      | _ \<Rightarrow> Inl (op_blocked ''SDN_NETWORK_OWNERSHIP''))"

definition network_change_plan :: "net_action \<Rightarrow> string \<Rightarrow> lifecycle \<Rightarrow> network_change res" where
  "network_change_plan act vnet lc =
     (if \<not> lc_available lc then Inl (op_blocked ''SDN_LIFECYCLE_UNAVAILABLE'')
      else case List.find (\<lambda>n. vn_vnet n = vnet) (lc_networks lc) of
        None \<Rightarrow> Inl op_refused
      | Some n \<Rightarrow>
          bindE (assertE (\<not> ln_errors n) op_refused) (\<lambda>_.
          bindE (assertE (ln_attachments n = []) (op_blocked ''SDN_NETWORK_ATTACHED'')) (\<lambda>_.
          bindE (case act of Create \<Rightarrow> create_steps lc n | Delete \<Rightarrow> delete_steps n) (\<lambda>steps.
            Inr \<lparr>nc_steps = steps @ [net_step ''apply'' [],
                   net_step ''reconcile.snat_rules'' [(''BUNDLE_SDN_SUBNET_CIDR'', JStr (vn_subnet n)),
                     (''BUNDLE_SDN_SNAT_WANT'', if act = Create then snat_int (vn_snat n) else JInt 0)]],
                 nc_network = n, nc_known = lc_known lc, nc_marker = lc_marker lc\<rparr>))))"

subsection \<open>A deletion removes only this deployment's own, unused network\<close>

lemma raised_Inr [res_simps]: "raised r = Inr x \<longleftrightarrow> r = Inr x"
  by (cases r) (simp_all add: raised_def)

lemma readable_Inr [res_simps]: "readable r = Inr x \<longleftrightarrow> r = Inr x"
  by (cases r) (simp_all add: readable_def)

lemma read_inventoryD:
  assumes "read_inventory get h = Inr iv"
  obtains nodes resources where "list_proxmox_data get h ''/nodes'' [] = Inr nodes" and "sole_node h nodes"
    and "sdn_list get h ''/cluster/sdn/vnets'' = Inr (iv_vnets iv)"
    and "sdn_list get h ''/cluster/sdn/zones'' = Inr (iv_zones iv)"
    and "check_pending (iv_zones iv @ iv_vnets iv) = Inr ()" and "check_global_pending get h = Inr ()"
    and "foldE (vnet_rows get h) [] (iv_vnets iv) = Inr (iv_subnets iv)"
    and "list_proxmox_data get h ''/cluster/resources'' [(''type'', JStr ''vm'')] = Inr resources"
    and "mapE (attached_guest_of get h) resources = Inr (iv_guests iv)"
  using assms by (auto simp: read_inventory_def res_simps)

lemma vnet_rowsD:
  assumes "vnet_rows get h acc vnet = Inr acc'"
  obtains name rows where "jget vnet ''vnet'' = JStr name" and "sdn_name name" and "dget acc name = None"
    and "sdn_list get h (''/cluster/sdn/vnets/'' @ name @ ''/subnets'') = Inr rows"
    and "check_pending rows = Inr ()" and "acc' = dset name rows acc"
proof -
  from assms obtain v where v: "item vnet ''vnet'' = Inr v" by (auto simp: vnet_rows_def res_simps)
  with assms obtain name where n: "v = JStr name" by (cases v) (auto simp: vnet_rows_def raised_def)
  have "jget vnet ''vnet'' = JStr name" using v n by (auto simp: item_def jget_def res_simps)
  then show ?thesis using that assms v n by (auto simp: vnet_rows_def res_simps raised_def split: if_splits)
qed

text \<open>Every entry of the table is what the cluster answered for that VNet.\<close>

lemma subnet_table:
  assumes "foldE (vnet_rows get h) [] vnets = Inr tbl" and "dget tbl name = Some rows"
  shows "sdn_list get h (''/cluster/sdn/vnets/'' @ name @ ''/subnets'') = Inr rows \<and> check_pending rows = Inr ()"
proof -
  have "\<forall>n rs. dget tbl n = Some rs \<longrightarrow> sdn_list get h (''/cluster/sdn/vnets/'' @ n @ ''/subnets'') = Inr rs \<and> check_pending rs = Inr ()"
  proof (rule foldE_invariant [OF assms(1)])
    fix acc x acc' assume "\<forall>n rs. dget acc n = Some rs \<longrightarrow>
        sdn_list get h (''/cluster/sdn/vnets/'' @ n @ ''/subnets'') = Inr rs \<and> check_pending rs = Inr ()"
      and "vnet_rows get h acc x = Inr acc'"
    then show "\<forall>n rs. dget acc' n = Some rs \<longrightarrow>
        sdn_list get h (''/cluster/sdn/vnets/'' @ n @ ''/subnets'') = Inr rs \<and> check_pending rs = Inr ()"
      by (elim vnet_rowsD) (simp add: dget_dset)
  qed simp
  then show ?thesis using assms(2) by blast
qed

definition unattached :: "http_get \<Rightarrow> proxmox_host \<Rightarrow> string \<Rightarrow> dict \<Rightarrow> bool" where
  "unattached get h vnet row = (case attached_guest_of get h row of Inr g \<Rightarrow> vnet \<notin> set (ag_bridges g) | Inl e \<Rightarrow> False)"

lemma all_unattached:
  assumes "mapE (attached_guest_of get h) rows = Inr gs" and "filter (\<lambda>g. vnet \<in> set (ag_bridges g)) gs = []"
  shows "list_all (unattached get h vnet) rows"
proof (unfold list_all_iff, intro ballI)
  fix row assume "row \<in> set rows"
  then obtain g where "g \<in> set gs" "attached_guest_of get h row = Inr g" using mapE_Inr_set [OF assms(1)] by blast
  then show "unattached get h vnet row" using assms(2) by (auto simp: unattached_def filter_empty_conv)
qed

text \<open>The subnet row that is the declared one, in full.\<close>

definition exact_subnet :: "vnet_plan \<Rightarrow> dict \<Rightarrow> bool" where
  "exact_subnet v row =
     ((case subnet_cidr row of Inr c \<Rightarrow> net_str c = vn_subnet v | Inl e \<Rightarrow> False)
      \<and> jget row ''gateway'' = gateway_json (vn_gateway v))"

lemma sole_subnet_one:
  assumes "subnet_texts [row] = Inr texts" and "sole_subnet cidr texts \<noteq> []"
  shows "sole_subnet cidr texts = row \<and> (\<exists>c. subnet_cidr row = Inr c \<and> net_str c = cidr)"
  using assms by (auto simp: subnet_texts_def sole_subnet_def res_simps split: if_splits)

lemma lifecycle_network_matches:
  assumes "lifecycle_network iv marker zone zf v = Inr n" and "ln_matches n" and "ln_owned n"
  shows "\<exists>live row. row_named ''vnet'' (vn_vnet v) (iv_vnets iv) = Some live \<and> jget live ''alias'' = JStr marker
    \<and> jget live ''zone'' = JStr zone \<and> dget (iv_subnets iv) (vn_vnet v) = Some [row] \<and> exact_subnet v row
    \<and> ln_subnet_id n = jget row ''subnet''"
proof -
  obtain live where live: "row_named ''vnet'' (vn_vnet v) (iv_vnets iv) = live" by simp
  from assms(1) obtain texts bad where texts: "subnet_texts (vnet_subnet_rows iv v) = Inr texts"
    and n: "n = network_facts iv marker zone zf v live (vnet_subnet_rows iv v) (sole_subnet (vn_subnet v) texts) bad"
    by (auto simp: lifecycle_network_def live Let_def res_simps)
  let ?s = "sole_subnet (vn_subnet v) texts"
  have facts: "live_field live ''alias'' marker" "live_field live ''zone'' zone" "length (vnet_subnet_rows iv v) = 1"
    "?s \<noteq> []" "jget ?s ''gateway'' = gateway_json (vn_gateway v)" "ln_subnet_id n = jget ?s ''subnet''"
    using assms(2,3) by (simp_all add: n network_facts_def vnet_plan.defs)
  obtain row where row: "vnet_subnet_rows iv v = [row]" using facts(3) by (auto simp: length_Suc_conv)
  then have "dget (iv_subnets iv) (vn_vnet v) = Some [row]" by (auto simp: vnet_subnet_rows_def split: option.splits)
  moreover have "exact_subnet v row \<and> ?s = row"
    using sole_subnet_one [of row texts "vn_subnet v"] texts row facts(4,5) by (auto simp: exact_subnet_def)
  ultimately show ?thesis using facts live by (auto simp: live_field_def split: option.splits)
qed

lemma lifecycle_network_fields:
  assumes "lifecycle_network iv marker zone zf v = Inr n"
  shows "vn_vnet n = vn_vnet v \<and> vn_subnet n = vn_subnet v
    \<and> ln_attachments n = filter (\<lambda>g. vn_vnet v \<in> set (ag_bridges g)) (iv_guests iv)"
  using assms by (auto simp: lifecycle_network_def network_facts_def vnet_plan.defs Let_def res_simps)

lemma read_lifecycleD:
  assumes "read_network_lifecycle get f nf h dep = Inr lc" and "lc_available lc"
  obtains vms p where "runtime_targets f nf = Inr (vms, Some p)"
    and "lifecycle_of (guarded_get get) h (network_marker dep) p = Inr lc"
proof -
  from assms(1) obtain vms declared where t: "runtime_targets f nf = Inr (vms, declared)"
    by (auto simp: read_network_lifecycle_def res_simps)
  show ?thesis
  proof (cases declared)
    case None
    then show ?thesis using assms t by (auto simp: read_network_lifecycle_def no_lifecycle_def)
  next
    case (Some p)
    then have "lifecycle_of (guarded_get get) h (network_marker dep) p = Inr lc"
      using assms t by (auto simp: read_network_lifecycle_def Let_def no_lifecycle_def split: sum.splits stop.splits if_splits)
    then show ?thesis using that t Some by blast
  qed
qed

lemma lifecycle_ofD:
  assumes "lifecycle_of get h marker p = Inr lc"
  obtains iv zf where "read_inventory get h = Inr iv"
    and "mapE (lifecycle_network iv marker (sp_zone p) zf) (sp_vnets p) = Inr (lc_networks lc)"
  using assms by (auto simp: lifecycle_of_def Let_def res_simps)

lemma delete_planD:
  assumes "network_change_plan Delete vnet lc = Inr ch"
  obtains n sid where "lc_available lc" and "n \<in> set (lc_networks lc)" and "vn_vnet n = vnet" and "ln_attachments n = []"
    and "ln_owned n" and "ln_matches n" and "ln_subnet_id n = JStr sid"
    and "nc_steps ch = [net_step ''delete.sdn_subnet'' [(''BUNDLE_SDN_VNET'', JStr vnet), (''BUNDLE_SDN_SUBNET_ID'', JStr sid)],
           net_step ''delete.sdn_vnet'' [(''BUNDLE_SDN_VNET'', JStr vnet)], net_step ''apply'' [],
           net_step ''reconcile.snat_rules'' [(''BUNDLE_SDN_SUBNET_CIDR'', JStr (vn_subnet n)), (''BUNDLE_SDN_SNAT_WANT'', JInt 0)]]"
proof -
  from assms have av: "lc_available lc" by (simp add: network_change_plan_def split: if_splits)
  with assms obtain n where n: "List.find (\<lambda>n. vn_vnet n = vnet) (lc_networks lc) = Some n"
    by (auto simp: network_change_plan_def split: option.splits)
  with assms av obtain steps where s: "ln_attachments n = []" "delete_steps n = Inr steps"
    "nc_steps ch = steps @ [net_step ''apply'' [],
       net_step ''reconcile.snat_rules'' [(''BUNDLE_SDN_SUBNET_CIDR'', JStr (vn_subnet n)), (''BUNDLE_SDN_SNAT_WANT'', JInt 0)]]"
    by (auto simp: network_change_plan_def res_simps)
  from s(2) obtain sid where sid: "ln_subnet_id n = JStr sid" by (cases "ln_subnet_id n") (auto simp: delete_steps_def)
  have mem: "n \<in> set (lc_networks lc)" "vn_vnet n = vnet" using n by (auto simp: find_Some_iff)
  show ?thesis
    by (rule that [OF av mem s(1) _ _ sid]) (use s(2,3) sid mem(2) in \<open>auto simp: delete_steps_def split: if_splits\<close>)
qed

subsection \<open>A sample cluster\<close>

definition life_guest :: dict where
  "life_guest = [(''vmid'', JInt 101), (''node'', JStr ''pve''), (''type'', JStr ''qemu'')]"

definition life_vnet :: dict where
  "life_vnet = [(''vnet'', JStr ''v1''), (''zone'', JStr ''z''), (''alias'', JStr ''range42-deployment-d1'')]"

definition life_zone :: dict where
  "life_zone = [(''zone'', JStr ''z''), (''type'', JStr ''simple'')]"

definition life_get :: http_get where
  "life_get url params =
     map_option (\<lambda>v. \<lparr>hr_status = 200, hr_body = Some (JObj [(''data'', v)])\<rparr>)
        (dget [(''https://p/api2/json/access/permissions'',
                 JObj [(''/'', JObj [(''Sys.Audit'', JInt 1), (''VM.Audit'', JInt 1), (''SDN.Allocate'', JInt 1)])]),
               (''https://p/api2/json/nodes'', JList [JObj [(''node'', JStr ''pve'')]]),
               (''https://p/api2/json/cluster/sdn/zones'', JList [JObj life_zone]),
               (''https://p/api2/json/cluster/sdn/vnets'', JList [JObj life_vnet]),
               (''https://p/api2/json/cluster/sdn/vnets/v1/subnets'', JList [JObj net_subnet]),
               (''https://p/api2/json/cluster/sdn/controllers'', JList []),
               (''https://p/api2/json/cluster/sdn'', JList []),
               (''https://p/api2/json/nodes/pve/network'', JList []),
               (''https://p/api2/json/cluster/resources'', JList [JObj life_guest]),
               (''https://p/api2/json/nodes/pve/qemu/101/config'', JObj [(''net0'', JStr ''virtio=AA,bridge=vmbr0'')])] url)"

abbreviation guarded_life :: http_get where
  "guarded_life \<equiv> guarded_get life_get"

lemma life_reads:
  "read_proxmox_data guarded_life sample_host ''/access/permissions'' [(''path'', JStr ''/'')] =
     Inr (JObj [(''/'', JObj [(''Sys.Audit'', JInt 1), (''VM.Audit'', JInt 1), (''SDN.Allocate'', JInt 1)])])"
  "list_proxmox_data guarded_life sample_host ''/nodes'' [] = Inr [[(''node'', JStr ''pve'')]]"
  "sdn_list guarded_life sample_host ''/cluster/sdn/zones'' = Inr [life_zone]"
  "sdn_list guarded_life sample_host ''/cluster/sdn/vnets'' = Inr [life_vnet]"
  "sdn_list guarded_life sample_host (''/cluster/sdn/vnets/'' @ ''v1'' @ ''/subnets'') = Inr [net_subnet]"
  "sdn_list guarded_life sample_host ''/cluster/sdn/controllers'' = Inr []"
  "list_proxmox_data guarded_life sample_host ''/cluster/sdn'' [] = Inr []"
  "list_proxmox_data guarded_life sample_host (''/nodes/'' @ url_quote (ph_node_name sample_host) @ ''/network'') [] = Inr []"
  "list_proxmox_data guarded_life sample_host ''/cluster/resources'' [(''type'', JStr ''vm'')] = Inr [life_guest]"
  by code_simp+

lemma life_attached:
  "attached_guest_of guarded_life sample_host life_guest =
     Inr \<lparr>ag_vmid = 101, ag_node = ''pve'', ag_kind = ''qemu'', ag_template = False, ag_bridges = [''vmbr0'']\<rparr>"
  by code_simp

lemma life_text: "net_str (V4 (desired_network net_vnet)) = ''10.0.0.0/24''"
  by (simp add: net_str_def net_desired ip_str_def nat_str.simps digit_char_def)

definition life_inventory :: inventory where
  "life_inventory = \<lparr>iv_zones = [life_zone], iv_vnets = [life_vnet], iv_interfaces = [], iv_subnets = [(''v1'', [net_subnet])],
     iv_known = [''10.0.0.0/24''],
     iv_guests = [\<lparr>ag_vmid = 101, ag_node = ''pve'', ag_kind = ''qemu'', ag_template = False, ag_bridges = [''vmbr0'']\<rparr>]\<rparr>"

lemma life_rows_pending: "check_pending [life_zone, life_vnet] = Inr ()" "check_pending [net_subnet] = Inr ()" "check_pending [] = Inr ()"
  by (simp_all add: check_pending_def net_unless_def row_pending_def life_zone_def life_vnet_def net_subnet_def jget_def)

lemma life_inventory_read: "read_inventory guarded_life sample_host = Inr life_inventory"
proof -
  have global: "check_global_pending guarded_life sample_host = Inr ()"
    by (simp add: check_global_pending_def life_reads life_rows_pending readable_def raised_def feature_ids_def check_feature_def)
  have vnets: "vnet_rows guarded_life sample_host [] life_vnet = Inr [(''v1'', [net_subnet])]"
    using life_reads(5) life_rows_pending
    by (simp add: vnet_rows_def life_vnet_def item_def raised_def sdn_name_def is_alpha_def is_alnum_def is_digit_def)
  have known: "known_subnets [] [(''v1'', [net_subnet])] = Inr [''10.0.0.0/24'']"
    by (simp add: known_subnets_def net_cidr v4_text_def life_text)
  have sole: "sole_node sample_host [[(''node'', JStr ''pve'')]]" by (simp add: sole_node_def sample_host_def jget_def)
  show ?thesis
    using global vnets known life_rows_pending(1)
    by (simp add: read_inventory_def life_reads life_reads(8) [simplified] readable_def raised_def complete_audit_def jget_def sole
        life_attached life_inventory_def)
qed

definition life_network :: lifecycle_network where
  "life_network = network_facts life_inventory ''range42-deployment-d1'' ''z'' True net_vnet (Some life_vnet) [net_subnet] net_subnet False"

definition life_cycle :: lifecycle where
  "life_cycle = \<lparr>lc_available = True, lc_networks = [life_network], lc_marker = ''range42-deployment-d1'', lc_zone_exists = True,
     lc_known = [''10.0.0.0/24'']\<rparr>"

lemma life_network_read:
  "lifecycle_network life_inventory ''range42-deployment-d1'' ''z'' True net_vnet = Inr life_network"
proof -
  have rows: "vnet_subnet_rows life_inventory net_vnet = [net_subnet]"
    by (simp add: vnet_subnet_rows_def life_inventory_def net_vnet_def)
  have live: "row_named ''vnet'' (vn_vnet net_vnet) (iv_vnets life_inventory) = Some life_vnet"
    by (simp add: row_named_def net_vnet_def life_inventory_def life_vnet_def jget_def)
  have texts: "subnet_texts [net_subnet] = Inr [(net_subnet, ''10.0.0.0/24'')]"
    by (simp add: subnet_texts_def net_cidr life_text)
  have "foreign_overlap net_vnet (''v1'', net_subnet) = Inr False"
    by (simp add: foreign_overlap_def net_cidr life_text) (simp add: net_vnet_def)
  then have errs: "network_errors life_inventory net_vnet (Some life_vnet) = Inr False"
    by (simp add: network_errors_def check_interface_overlap_def life_inventory_def named_rows_def raised_def)
  show ?thesis
    by (simp add: lifecycle_network_def rows live texts errs raised_def life_network_def Let_def)
       (simp add: sole_subnet_def net_vnet_def)
qed

lemma gen_targets: "read_targets (Some gen_manifest) = Inr [\<lparr>rt_vmid = 300, rt_name = ''a''\<rparr>]"
proof -
  have "json_loads (mf_text gen_manifest) = Some (JObj [(''vms'', JList (map JObj gen_vms))])" by code_simp
  then show ?thesis
    by (simp add: read_targets_def read_manifest_def gen_manifest_def validate_vm_manifest_def preferences_guard_def
        Let_def jget_def declares_def is_version_def overrides_model_def optional_field_def item_def gen_vms_def target_of_def
        vm_name_def bounded_word_def is_alpha_def)
qed

lemma life_targets: "runtime_targets (Some gen_manifest) (Some (Some net_manifest)) = Inr ([\<lparr>rt_vmid = 300, rt_name = ''a''\<rparr>], Some net_plan)"
  by (simp add: runtime_targets_def gen_targets net_plan_read)

lemma life_cycle_read:
  "read_network_lifecycle life_get (Some gen_manifest) (Some (Some net_manifest)) sample_host ''d1'' = Inr life_cycle"
proof -
  have zone: "row_named ''zone'' ''z'' (iv_zones life_inventory) = Some life_zone"
    by (simp add: row_named_def life_inventory_def life_zone_def jget_def)
  have serves: "zone_serves sample_host life_zone = Inr True"
    by (simp add: zone_serves_def life_zone_def jget_def)
  have known: "iv_known life_inventory = [''10.0.0.0/24'']" by (simp add: life_inventory_def)
  have "lifecycle_of guarded_life sample_host ''range42-deployment-d1'' net_plan = Inr life_cycle"
    by (simp add: lifecycle_of_def life_inventory_read net_plan_def zone serves raised_def life_network_read life_cycle_def
        known)
  then show ?thesis by (simp add: read_network_lifecycle_def life_targets network_marker_def)
qed

definition life_change :: network_change where
  "life_change = \<lparr>nc_steps = [net_step ''delete.sdn_subnet'' [(''BUNDLE_SDN_VNET'', JStr ''v1''), (''BUNDLE_SDN_SUBNET_ID'', JStr ''z-10.0.0.0-24'')],
       net_step ''delete.sdn_vnet'' [(''BUNDLE_SDN_VNET'', JStr ''v1'')], net_step ''apply'' [],
       net_step ''reconcile.snat_rules'' [(''BUNDLE_SDN_SUBNET_CIDR'', JStr ''10.0.0.0/24''), (''BUNDLE_SDN_SNAT_WANT'', JInt 0)]],
     nc_network = life_network, nc_known = [''10.0.0.0/24''], nc_marker = ''range42-deployment-d1''\<rparr>"

lemma life_planned: "network_change_plan Delete ''v1'' life_cycle = Inr life_change"
proof -
  have n: "vn_vnet life_network = ''v1''" "vn_subnet life_network = ''10.0.0.0/24''" "\<not> ln_errors life_network"
    "ln_attachments life_network = []" "ln_owned life_network" "ln_matches life_network" "ln_subnet_id life_network = JStr ''z-10.0.0.0-24''"
    by (simp_all add: life_network_def network_facts_def vnet_plan.defs net_vnet_def life_inventory_def live_field_def life_vnet_def
        jget_def net_subnet_def gateway_json_def)
  have "subnet_id_ok ''z-10.0.0.0-24''" by code_simp
  then show ?thesis by (simp add: network_change_plan_def life_cycle_def n delete_steps_def life_change_def)
qed

subsection \<open>The property\<close>



end
