(* ===== verification/Runtime_Firewall.thy ===== *)
theory Runtime_Firewall
  imports Runtime_Networks Attempts
begin

text \<open>
  Changes of one rule or alias of the Proxmox firewall (\<open>app/core/runtime_firewall.py\<close>, the
  mapping of \<open>app/core/runtime_reports.py\<close>, the requests of
  \<open>app/schemas/v1/runtime_firewall.py\<close>): the rows that are read, the checks of ownership,
  references and management access, the change that is planned and the rows expected after it.
  The plays that carry the change out and the hashes of the reads are not modelled.
\<close>

subsection \<open>Texts\<close>

text \<open>\<open>str(value)\<close>. A float's text starts with a digit or a sign, which is all that matters of it here.\<close>

definition repr_char :: "char \<Rightarrow> char \<Rightarrow> string" where
  "repr_char q c =
     (let n = of_char c :: nat in
      if c = q \<or> c = CHR 0x5C then [CHR 0x5C, c]
      else if n = 10 then [CHR 0x5C, CHR ''n''] else if n = 13 then [CHR 0x5C, CHR ''r'']
      else if n = 9 then [CHR 0x5C, CHR ''t'']
      else if n < 32 \<or> (127 \<le> n \<and> n \<le> 160) \<or> n = 173 then [CHR 0x5C, CHR ''x'', hex_char (n div 16), hex_char (n mod 16)]
      else [c])"

definition repr_str :: "string \<Rightarrow> string" where
  "repr_str s =
     (let q = (if CHR 0x27 \<in> set s \<and> CHR 0x22 \<notin> set s then CHR 0x22 else CHR 0x27)
      in q # concat (map (repr_char q) s) @ [q])"

fun py_repr :: "json \<Rightarrow> string" where
  "py_repr JNull = ''None''"
| "py_repr (JBool b) = (if b then ''True'' else ''False'')"
| "py_repr (JInt i) = int_str i"
| "py_repr (JFloat r) = ''0.0''"
| "py_repr (JStr s) = repr_str s"
| "py_repr (JList xs) = ''['' @ join_with '', '' (map py_repr xs) @ '']''"
| "py_repr (JObj d) = ''{'' @ join_with '', '' (map (\<lambda>(k, v). repr_str k @ '': '' @ py_repr v) d) @ ''}''"

definition py_str :: "json \<Rightarrow> string" where
  "py_str v = (case v of JStr s \<Rightarrow> s | _ \<Rightarrow> py_repr v)"

abbreviation lower :: "string \<Rightarrow> string" where
  "lower \<equiv> map lower_char"

text \<open>\<open>str(ip_network(x, strict=False))\<close> for IPv6: the longest run of zero groups, if of two or more, is left out.\<close>

definition hextets :: "nat \<Rightarrow> nat list" where
  "hextets n = map (\<lambda>i. n div 2 ^ (16 * (7 - i)) mod 65536) [0..<8]"

definition hex_text :: "nat \<Rightarrow> string" where
  "hex_text n = (let s = dropWhile (\<lambda>c. c = CHR ''0'') (hex_digits 4 n) in if s = [] then ''0'' else s)"

fun best_zeros :: "nat \<Rightarrow> nat \<Rightarrow> nat \<times> nat \<Rightarrow> nat list \<Rightarrow> nat \<times> nat" where
  "best_zeros i run best [] = best"
| "best_zeros i run best (h # hs) =
     (if h = 0 then best_zeros (Suc i) (Suc run) (if snd best < Suc run then (i - run, Suc run) else best) hs
      else best_zeros (Suc i) 0 best hs)"

definition v6_text :: "nat \<Rightarrow> string" where
  "v6_text n =
     (let hs = hextets n; (start, len) = best_zeros 0 0 (0, 0) hs in
      if len \<le> 1 then join_with '':'' (map hex_text hs)
      else join_with '':'' (map hex_text (take start hs)) @ ''::'' @ join_with '':'' (map hex_text (drop (start + len) hs)))"

definition loose_v6_text :: "string \<Rightarrow> string" where
  "loose_v6_text s =
     (let (a, p) = (case split_on (CHR ''/'') s of [x, y] \<Rightarrow> (x, digits_val y) | _ \<Rightarrow> (s, 128));
          n = v6_value (takeWhile (\<lambda>c. c \<noteq> CHR ''%'') a); host = n mod 2 ^ (128 - p)
      in v6_text (n - host) @ (if host = 0 then dropWhile (\<lambda>c. c \<noteq> CHR ''%'') a else []) @ ''/'' @ nat_str p)"

definition loose_cidr :: "json \<Rightarrow> string res" where
  "loose_cidr v =
     (let number = (\<lambda>i. if 0 \<le> i \<and> i < 4294967296 then Inr (ip_str (nat i) @ ''/32'')
                        else if 0 \<le> i \<and> i < 2 ^ 128 then Inr (v6_text (nat i) @ ''/128'') else Inl ValueError)
      in case v of
           JStr s \<Rightarrow> bindE (loose_network_text s) (\<lambda>n. Inr (case n of V4 m \<Rightarrow> net_str (V4 m) | V6 \<Rightarrow> loose_v6_text s))
         | JInt i \<Rightarrow> number i
         | JBool b \<Rightarrow> number (if b then 1 else 0)
         | _ \<Rightarrow> Inl ValueError)"

subsection \<open>Rules and aliases as they are read\<close>

record fw_rule =
  fr_position :: nat
  fr_direction :: string
  fr_action :: string
  fr_enabled :: bool
  fr_source :: "string option"
  fr_destination :: "string option"
  fr_protocol :: "string option"
  fr_port :: "string option"
  fr_source_port :: "string option"
  fr_interface :: "string option"
  fr_macro :: "string option"
  fr_comment :: "string option"
  fr_log :: "string option"

record fw_alias =
  fa_name :: string
  fa_cidr :: string
  fa_comment :: "string option"

definition text_field :: "dict \<Rightarrow> string \<Rightarrow> string option res" where
  "text_field row k =
     (case jget row k of
        JNull \<Rightarrow> Inr None
      | JStr s \<Rightarrow> if length s \<le> 512 \<and> list_all (\<lambda>c. 32 \<le> (of_char c :: nat)) s then Inr (Some s) else Inl ValueError
      | _ \<Rightarrow> Inl ValueError)"

definition switch_text :: "dict \<Rightarrow> bool option" where
  "switch_text row =
     (let v = (case dget row ''enable'' of None \<Rightarrow> JInt 0 | Some x \<Rightarrow> x) in
      if v = JInt 0 \<or> v = JStr ''0'' then Some False else if says_one v then Some True else None)"

definition rule_action_ok :: "string \<Rightarrow> bool" where
  "rule_action_ok = class_match (\<lambda>c. is_alnum c \<or> c \<in> set ''_-'') 1 64"

definition map_rule :: "dict \<Rightarrow> fw_rule res" where
  "map_rule row =
     (case (jget row ''pos'', jget row ''type'', jget row ''action'', switch_text row) of
        (JInt p, JStr dir, JStr act, Some on) \<Rightarrow>
          if 0 \<le> p \<and> p < 4096 \<and> dir \<in> {''in'', ''out'', ''forward'', ''group''} \<and> rule_action_ok act
          then bindE (text_field row ''source'') (\<lambda>source. bindE (text_field row ''dest'') (\<lambda>dest.
               bindE (text_field row ''proto'') (\<lambda>proto. bindE (text_field row ''dport'') (\<lambda>dport.
               bindE (text_field row ''sport'') (\<lambda>sport. bindE (text_field row ''iface'') (\<lambda>iface.
               bindE (text_field row ''macro'') (\<lambda>macro. bindE (text_field row ''comment'') (\<lambda>comment.
               bindE (text_field row ''log'') (\<lambda>log.
                 Inr \<lparr>fr_position = nat p, fr_direction = dir, fr_action = act, fr_enabled = on, fr_source = source,
                      fr_destination = dest, fr_protocol = proto, fr_port = dport, fr_source_port = sport,
                      fr_interface = iface, fr_macro = macro, fr_comment = comment, fr_log = log\<rparr>)))))))))
          else Inl ValueError
      | _ \<Rightarrow> Inl ValueError)"

definition map_rules :: "dict list \<Rightarrow> fw_rule list res" where
  "map_rules rows =
     bindE (assertE (length rows \<le> 4096) ValueError) (\<lambda>_.
     bindE (mapE map_rule rows) (\<lambda>rules.
     bindE (assertE (distinct (map fr_position rules)) ValueError) (\<lambda>_. Inr (sort_key fr_position rules))))"

definition alias_name :: "string \<Rightarrow> bool" where
  "alias_name = bounded_word is_alpha (\<lambda>c. is_alnum c \<or> c \<in> set ''_-'') 63"

definition map_alias :: "dict \<Rightarrow> fw_alias res" where
  "map_alias row =
     bindE (text_field row ''name'') (\<lambda>name.
     case name of
       None \<Rightarrow> Inl ValueError
     | Some n \<Rightarrow>
         bindE (assertE (alias_name n) ValueError) (\<lambda>_.
         bindE (item row ''cidr'') (\<lambda>v.
         bindE (loose_cidr v) (\<lambda>cidr.
         bindE (text_field row ''comment'') (\<lambda>comment.
           Inr \<lparr>fa_name = n, fa_cidr = cidr, fa_comment = comment\<rparr>)))))"

definition map_aliases :: "dict list \<Rightarrow> fw_alias list res" where
  "map_aliases rows =
     bindE (assertE (length rows \<le> 4096) ValueError) (\<lambda>_.
     bindE (mapE map_alias rows) (\<lambda>as.
     bindE (assertE (distinct (map (\<lambda>a. lower (fa_name a)) as)) ValueError) (\<lambda>_. Inr (sort_key fa_name as))))"

subsection \<open>Requests\<close>

datatype fw_scope = OnVm int | OnNode | OnDatacenter

record rule_body =
  rb_direction :: string
  rb_action :: string
  rb_protocol :: string
  rb_port :: string
  rb_source :: "string option"
  rb_destination :: "string option"
  rb_enabled :: bool

datatype rule_change =
    CreateRule string rule_body
  | UpdateRule nat rule_body
  | DeleteRule nat
  | MoveRule nat nat

datatype alias_change = CreateAlias string string | DeleteAlias string | RenameAlias string string

datatype fw_request = OfRule fw_scope rule_change | OfAlias fw_scope alias_change

definition port_limits :: "string \<Rightarrow> int list option" where
  "port_limits part = all_some (map int_of_str (split_on (CHR '':'') part))"

definition port_range_ok :: "string \<Rightarrow> bool" where
  "port_range_ok part =
     (case port_limits part of
        None \<Rightarrow> False
      | Some ls \<Rightarrow> 1 \<le> length ls \<and> length ls \<le> 2 \<and> list_all (\<lambda>p. 1 \<le> p \<and> p \<le> 65535) ls \<and> hd ls \<le> last ls)"

definition ports_char :: "char \<Rightarrow> bool" where
  "ports_char c = (is_digit c \<or> c \<in> set '':,'')"

definition ports_ok :: "string \<Rightarrow> bool" where
  "ports_ok s = (class_match ports_char 1 80 s \<and> length (split_on (CHR '','') s) \<le> 16
     \<and> list_all port_range_ok (split_on (CHR '','') s))"

definition alias_reference :: "string \<Rightarrow> bool" where
  "alias_reference s = (alias_name s \<or> (prefix ''dc/'' s \<and> alias_name (drop 3 s)))"

definition strict_network :: "string \<Rightarrow> bool" where
  "strict_network s = (case ip_network_text s of Inr n \<Rightarrow> True | Inl e \<Rightarrow> False)"

definition endpoint_ok :: "string option \<Rightarrow> bool" where
  "endpoint_ok e = (case e of None \<Rightarrow> True | Some s \<Rightarrow> alias_reference s \<or> strict_network s)"

text \<open>A body as the schema leaves it: addresses are already in their canonical text.\<close>

definition body_ok :: "rule_body \<Rightarrow> bool" where
  "body_ok b =
     (rb_direction b \<in> {''in'', ''out''} \<and> rb_action b \<in> {''ACCEPT'', ''DROP'', ''REJECT''}
      \<and> rb_protocol b \<in> {''tcp'', ''udp''} \<and> ports_ok (rb_port b) \<and> endpoint_ok (rb_source b) \<and> endpoint_ok (rb_destination b))"

fun rule_change_ok :: "rule_change \<Rightarrow> bool" where
  "rule_change_ok (CreateRule name b) = (alias_name name \<and> body_ok b)"
| "rule_change_ok (UpdateRule p b) = (p \<le> 4095 \<and> body_ok b)"
| "rule_change_ok (DeleteRule p) = (p \<le> 4095)"
| "rule_change_ok (MoveRule p q) = (p \<le> 4095 \<and> q \<le> 4095)"

fun alias_change_ok :: "alias_change \<Rightarrow> bool" where
  "alias_change_ok (CreateAlias name cidr) = (alias_name name \<and> strict_network cidr)"
| "alias_change_ok (DeleteAlias name) = alias_name name"
| "alias_change_ok (RenameAlias name other) = (alias_name name \<and> alias_name other)"

fun scope_ok :: "fw_scope \<Rightarrow> bool" where
  "scope_ok (OnVm i) = (100 \<le> i \<and> i \<le> 999999999)"
| "scope_ok _ = True"

fun fw_request_ok :: "fw_request \<Rightarrow> bool" where
  "fw_request_ok (OfRule sc c) = (scope_ok sc \<and> rule_change_ok c)"
| "fw_request_ok (OfAlias sc c) = (scope_ok sc \<and> sc \<noteq> OnNode \<and> alias_change_ok c)"

subsection \<open>Ownership, management access, references\<close>

fun is_vm_scope :: "fw_scope \<Rightarrow> bool" where
  "is_vm_scope (OnVm i) = True"
| "is_vm_scope _ = False"

text \<open>The digest that all rows of a scope carry.\<close>

definition rows_digest :: "dict list \<Rightarrow> string res" where
  "rows_digest rows =
     bindE (assertE (list_all (\<lambda>r. hashable (jget r ''digest'')) rows) TypeError) (\<lambda>_.
     case remdups (map (\<lambda>r. jget r ''digest'') rows) of
       [JStr s] \<Rightarrow> if class_match (\<lambda>c. c \<in> set ''abcdef0123456789'') 40 64 s then Inr s else Inl op_refused
     | _ \<Rightarrow> Inl op_refused)"

text \<open>Whether a port range covers a protected port; \<open>ValueError\<close> for a number that cannot be read.\<close>

definition covers_port :: "int list \<Rightarrow> string \<Rightarrow> bool res" where
  "covers_port protected part =
     bindE (of_opt ValueError (port_limits part)) (\<lambda>ls. Inr (list_ex (\<lambda>p. hd ls \<le> p \<and> p \<le> last ls) protected))"

fun any_covers :: "int list \<Rightarrow> string list \<Rightarrow> bool res" where
  "any_covers protected [] = Inr False"
| "any_covers protected (x # xs) = bindE (covers_port protected x) (\<lambda>hit. if hit then Inr True else any_covers protected xs)"

definition protected_ports :: "fw_scope \<Rightarrow> int list" where
  "protected_ports sc = (if is_vm_scope sc then [22] else [22, 8006])"

definition management :: "fw_scope \<Rightarrow> string \<Rightarrow> string option \<Rightarrow> string option \<Rightarrow> string option \<Rightarrow> bool res" where
  "management sc dir proto macro ports =
     (if dir \<noteq> ''in'' then Inr True
      else if proto = Some ''udp'' then Inr False
      else case ports of
        None \<Rightarrow> Inr True
      | Some p \<Rightarrow>
          if str_given macro \<or> p = [] \<or> \<not> list_all ports_char p then Inr True
          else any_covers (protected_ports sc) (split_on (CHR '','') p))"

definition rule_management :: "fw_scope \<Rightarrow> fw_rule \<Rightarrow> bool res" where
  "rule_management sc r = management sc (fr_direction r) (fr_protocol r) (fr_macro r) (fr_port r)"

definition body_management :: "fw_scope \<Rightarrow> rule_body \<Rightarrow> bool res" where
  "body_management sc b = management sc (rb_direction b) (Some (rb_protocol b)) None (Some (rb_port b))"

definition fw_blocked :: "string \<Rightarrow> 'a res" where
  "fw_blocked code = Inl (op_blocked code)"

definition alias_known :: "string list \<Rightarrow> string list \<Rightarrow> string \<Rightarrow> bool" where
  "alias_known here dc s =
     (if prefix ''dc/'' s then lower (drop 3 s) \<in> set dc else lower s \<in> set here \<or> lower s \<in> set dc)"

definition check_endpoint :: "string list \<Rightarrow> string list \<Rightarrow> string option \<Rightarrow> unit res" where
  "check_endpoint here dc e =
     (case e of
        None \<Rightarrow> Inr ()
      | Some s \<Rightarrow>
          if s = [] \<or> strict_network s \<or> alias_known here dc s then Inr () else fw_blocked ''FIREWALL_ALIAS_MISSING'')"

definition lower_names :: "fw_alias list \<Rightarrow> string list" where
  "lower_names as = map (\<lambda>a. lower (fa_name a)) as"

definition validate_rule :: "fw_scope \<Rightarrow> fw_alias list \<Rightarrow> fw_alias list \<Rightarrow> rule_body \<Rightarrow> unit res" where
  "validate_rule sc as dc b =
     bindE (if rb_action b = ''ACCEPT'' then Inr True
            else bindE (body_management sc b) (\<lambda>m. Inr (\<not> m \<and> is_vm_scope sc))) (\<lambda>ok.
     bindE (if ok then Inr () else fw_blocked ''FIREWALL_MANAGEMENT_PROTECTED'') (\<lambda>_.
     bindE (check_endpoint (lower_names as) (lower_names dc) (rb_source b)) (\<lambda>_.
       check_endpoint (lower_names as) (lower_names dc) (rb_destination b))))"

definition fw_reading :: "read_error + 'a \<Rightarrow> 'a res" where
  "fw_reading r = (case r of Inl _ \<Rightarrow> Inl ValueError | Inr x \<Rightarrow> Inr x)"

definition reference_rows :: "http_get \<Rightarrow> proxmox_host \<Rightarrow> string \<Rightarrow> dict list res" where
  "reference_rows get h base =
     bindE (fw_reading (list_proxmox_data get h (base @ ''/rules'') [])) (\<lambda>rules.
     bindE (fw_reading (list_proxmox_data get h (base @ ''/ipset'') [])) (\<lambda>ipsets.
     bindE (assertE (length ipsets \<le> 256 \<and> length rules \<le> 4096) ValueError) (\<lambda>_.
     bindE (mapE (\<lambda>row. case jget row ''name'' of
         JStr n \<Rightarrow>
           bindE (assertE (alias_name n) ValueError) (\<lambda>_.
           bindE (fw_reading (list_proxmox_data get h (base @ ''/ipset/'' @ n) [])) (\<lambda>entries.
           bindE (assertE (length entries \<le> 4096) ValueError) (\<lambda>_. Inr entries)))
       | _ \<Rightarrow> Inl ValueError) ipsets) (\<lambda>entries. Inr (rules @ concat entries)))))"

definition str_item :: "dict \<Rightarrow> string \<Rightarrow> string res" where
  "str_item row k = bindE (item row k) (\<lambda>v. case v of JStr s \<Rightarrow> Inr s | _ \<Rightarrow> Inl TypeError)"

definition guest_reference_rows :: "http_get \<Rightarrow> proxmox_host \<Rightarrow> dict \<Rightarrow> dict list res" where
  "guest_reference_rows get h row =
     bindE (item row ''type'') (\<lambda>kind.
     bindE (assertE (kind \<in> {JStr ''qemu'', JStr ''lxc''}) ValueError) (\<lambda>_.
     bindE (item row ''vmid'') (\<lambda>v.
     bindE (of_opt ValueError (as_int v)) (\<lambda>vmid.
     bindE (str_item row ''node'') (\<lambda>node.
       reference_rows get h (''/nodes/'' @ url_quote node @ ''/'' @ (if kind = JStr ''qemu'' then ''qemu'' else ''lxc'') @ ''/''
         @ int_str vmid @ ''/firewall''))))))"

definition alias_audit :: "json \<Rightarrow> bool res" where
  "alias_audit permissions =
     (case permissions of
        JObj d \<Rightarrow>
          (case dget d ''/'' of
             None \<Rightarrow> Inr False
           | Some (JObj p) \<Rightarrow> Inr (json_eq_int (jget p ''Sys.Audit'') 1 \<and> json_eq_int (jget p ''VM.Audit'') 1)
           | Some _ \<Rightarrow> Inl AttributeError)
      | _ \<Rightarrow> Inr False)"

definition cluster_reference_rows :: "http_get \<Rightarrow> proxmox_host \<Rightarrow> dict list res" where
  "cluster_reference_rows get h =
     bindE (fw_reading (read_proxmox_data get h ''/access/permissions'' [(''path'', JStr ''/'')])) (\<lambda>permissions.
     bindE (alias_audit permissions) (\<lambda>audited.
     bindE (assertE audited op_refused) (\<lambda>_.
     bindE (fw_reading (list_proxmox_data get h ''/nodes'' [])) (\<lambda>nodes.
     bindE (fw_reading (list_proxmox_data get h ''/cluster/resources'' [(''type'', JStr ''vm'')])) (\<lambda>gs.
     bindE (fw_reading (list_proxmox_data get h ''/cluster/firewall/groups'' [])) (\<lambda>groups.
     bindE (assertE (length nodes \<le> 512 \<and> length gs \<le> 2048 \<and> length groups \<le> 512) ValueError) (\<lambda>_.
     bindE (mapE (\<lambda>row. bindE (str_item row ''node'') (\<lambda>n.
         fw_reading (list_proxmox_data get h (''/nodes/'' @ url_quote n @ ''/firewall/rules'') []))) nodes) (\<lambda>a.
     bindE (mapE (guest_reference_rows get h) gs) (\<lambda>b.
     bindE (mapE (\<lambda>row. bindE (str_item row ''group'') (\<lambda>n.
         fw_reading (list_proxmox_data get h (''/cluster/firewall/groups/'' @ url_quote n) []))) groups) (\<lambda>c.
       Inr (concat a @ concat b @ concat c)))))))))))"

text \<open>\<open>re.split(r"[\s,;!]+", s)\<close>, as a set; the empty parts cannot be an alias.\<close>

definition reference_sep :: "char \<Rightarrow> bool" where
  "reference_sep c = (py_space c \<or> c \<in> set '',;!'')"

fun split_seps :: "string \<Rightarrow> string \<Rightarrow> string list" where
  "split_seps cur [] = [rev cur]"
| "split_seps cur (c # cs) = (if reference_sep c then rev cur # split_seps [] cs else split_seps (c # cur) cs)"

definition mentions :: "string \<Rightarrow> dict \<Rightarrow> string \<Rightarrow> bool" where
  "mentions name row k =
     (let parts = split_seps [] (lower (py_str (case dget row k of None \<Rightarrow> JStr [] | Some v \<Rightarrow> v)))
      in lower name \<in> set parts \<or> (''dc/'' @ lower name) \<in> set parts)"

definition referenced :: "string \<Rightarrow> dict list \<Rightarrow> bool" where
  "referenced name rows = list_ex (\<lambda>row. list_ex (mentions name row) [''source'', ''dest'', ''cidr'']) rows"

definition alias_references :: "http_get \<Rightarrow> proxmox_host \<Rightarrow> string \<Rightarrow> fw_scope \<Rightarrow> string \<Rightarrow> unit res" where
  "alias_references get h base sc name =
     bindE (reference_rows get h base) (\<lambda>rows.
     bindE (if sc = OnDatacenter then cluster_reference_rows get h else Inr []) (\<lambda>more_rows.
       if referenced name (rows @ more_rows) then fw_blocked ''FIREWALL_ALIAS_REFERENCED'' else Inr ()))"

subsection \<open>The plan\<close>

record api_change =
  ac_method :: string
  ac_path :: string
  ac_body :: dict

record fw_plan =
  fp_change :: api_change
  fp_before_rules :: "fw_rule list"
  fp_before_aliases :: "fw_alias list"
  fp_rules :: "fw_rule list"
  fp_aliases :: "fw_alias list"

text \<open>What a plan is made from: the rows of the scope and the aliases of the datacenter.\<close>

record fw_state =
  fs_base :: string
  fs_raw_rules :: "dict list"
  fs_rules :: "fw_rule list"
  fs_raw_aliases :: "dict list"
  fs_aliases :: "fw_alias list"
  fs_dc_aliases :: "fw_alias list"

definition find_alias :: "string \<Rightarrow> fw_alias list \<Rightarrow> fw_alias option" where
  "find_alias name as = List.find (\<lambda>a. lower (fa_name a) = lower name) as"

definition alias_plan ::
    "http_get \<Rightarrow> proxmox_host \<Rightarrow> fw_scope \<Rightarrow> string \<Rightarrow> fw_state \<Rightarrow> alias_change \<Rightarrow> (api_change \<times> fw_alias list) res" where
  "alias_plan get h sc marker s c =
     (case c of
        CreateAlias name cidr \<Rightarrow>
          if find_alias name (fs_aliases s) \<noteq> None \<or> find_alias name (fs_dc_aliases s) \<noteq> None then Inl op_refused
          else Inr (\<lparr>ac_method = ''POST'', ac_path = fs_base s @ ''/aliases'',
                     ac_body = [(''name'', JStr name), (''cidr'', JStr cidr), (''comment'', JStr marker)]\<rparr>,
                    fs_aliases s @ [\<lparr>fa_name = name, fa_cidr = cidr, fa_comment = Some marker\<rparr>])
      | _ \<Rightarrow>
          let name = (case c of DeleteAlias n \<Rightarrow> n | RenameAlias n m \<Rightarrow> n | CreateAlias n x \<Rightarrow> n) in
          case find_alias name (fs_aliases s) of
            None \<Rightarrow> fw_blocked ''FIREWALL_ALIAS_OWNERSHIP''
          | Some current \<Rightarrow>
              bindE (if fa_comment current = Some marker then Inr () else fw_blocked ''FIREWALL_ALIAS_OWNERSHIP'') (\<lambda>_.
              bindE (rows_digest (fs_raw_aliases s)) (\<lambda>dig.
              bindE (alias_references get h (fs_base s) sc (fa_name current)) (\<lambda>_.
              let path = fs_base s @ ''/aliases/'' @ url_quote (fa_name current); kept = remove1 current (fs_aliases s) in
              case c of
                RenameAlias n new_name \<Rightarrow>
                  if find_alias new_name (fs_aliases s) \<noteq> None \<or> find_alias new_name (fs_dc_aliases s) \<noteq> None then Inl op_refused
                  else Inr (\<lparr>ac_method = ''PUT'', ac_path = path,
                             ac_body = [(''rename'', JStr new_name), (''cidr'', JStr (fa_cidr current)), (''comment'', JStr marker),
                                        (''digest'', JStr dig)]\<rparr>, kept @ [current\<lparr>fa_name := new_name\<rparr>])
              | _ \<Rightarrow> Inr (\<lparr>ac_method = ''DELETE'', ac_path = path, ac_body = [(''digest'', JStr dig)]\<rparr>, kept)))))"

definition rule_prefix :: "string \<Rightarrow> string" where
  "rule_prefix marker = marker @ '';rule:''"

definition owned_comment :: "string \<Rightarrow> string option \<Rightarrow> bool" where
  "owned_comment marker c =
     (case c of None \<Rightarrow> False
      | Some s \<Rightarrow> prefix (rule_prefix marker) s \<and> alias_name (drop (length (rule_prefix marker)) s))"

definition opt_member :: "string \<Rightarrow> string option \<Rightarrow> dict" where
  "opt_member k v = (case v of None \<Rightarrow> [] | Some s \<Rightarrow> [(k, JStr s)])"

definition rule_json :: "rule_body \<Rightarrow> string \<Rightarrow> dict" where
  "rule_json b comment =
     [(''type'', JStr (rb_direction b)), (''action'', JStr (rb_action b)), (''proto'', JStr (rb_protocol b)),
      (''dport'', JStr (rb_port b)), (''enable'', JInt (if rb_enabled b then 1 else 0)), (''comment'', JStr comment)]
     @ opt_member ''source'' (rb_source b) @ opt_member ''dest'' (rb_destination b)"

text \<open>The rule that a body becomes, with the position it is asked at.\<close>

definition planned_rule :: "nat \<Rightarrow> rule_body \<Rightarrow> string \<Rightarrow> fw_rule res" where
  "planned_rule p b comment =
     bindE (map_rules [rule_json b comment @ [(''pos'', JInt (int p))]]) (\<lambda>rs. case rs of r # _ \<Rightarrow> Inr r | [] \<Rightarrow> Inl IndexError)"

definition renumber :: "fw_rule list \<Rightarrow> fw_rule list" where
  "renumber rs = map (\<lambda>(i, r). r\<lparr>fr_position := i\<rparr>) (enumerate 0 rs)"

definition insert_at :: "nat \<Rightarrow> 'a \<Rightarrow> 'a list \<Rightarrow> 'a list" where
  "insert_at i x xs = take i xs @ x # drop i xs"

definition remove_at :: "nat \<Rightarrow> 'a list \<Rightarrow> 'a list" where
  "remove_at i xs = take i xs @ drop (Suc i) xs"

text \<open>The rule at a position, when this deployment may change it.\<close>

definition own_rule :: "fw_scope \<Rightarrow> string \<Rightarrow> fw_rule list \<Rightarrow> nat \<Rightarrow> fw_rule res" where
  "own_rule sc marker rules p =
     (if length rules \<le> p then fw_blocked ''FIREWALL_RULE_PROTECTED''
      else let r = rules ! p in
        if \<not> owned_comment marker (fr_comment r) then fw_blocked ''FIREWALL_RULE_PROTECTED''
        else bindE (rule_management sc r) (\<lambda>m. if m then fw_blocked ''FIREWALL_RULE_PROTECTED'' else Inr r))"

definition rule_url :: "fw_state \<Rightarrow> nat \<Rightarrow> string" where
  "rule_url s p = fs_base s @ ''/rules/'' @ nat_str p"

definition cleared_fields :: "dict \<Rightarrow> string" where
  "cleared_fields body =
     join_with '','' (filter (\<lambda>k. dget body k = None) [''source'', ''dest'', ''sport'', ''iface'', ''macro'', ''log'', ''icmp-type''])"

definition rule_plan :: "fw_scope \<Rightarrow> string \<Rightarrow> fw_state \<Rightarrow> rule_change \<Rightarrow> (api_change \<times> fw_rule list) res" where
  "rule_plan sc marker s c =
     bindE (assertE (map fr_position (fs_rules s) = [0..<length (fs_rules s)]) op_refused) (\<lambda>_.
     bindE (case c of
        CreateRule name b \<Rightarrow>
          bindE (validate_rule sc (fs_aliases s) (fs_dc_aliases s) b) (\<lambda>_.
          let comment = rule_prefix marker @ name in
          bindE (assertE (\<not> list_ex (\<lambda>r. fr_comment r = Some comment) (fs_rules s)) op_refused) (\<lambda>_.
          bindE (planned_rule 0 b comment) (\<lambda>r.
            Inr (\<lparr>ac_method = ''POST'', ac_path = fs_base s @ ''/rules'', ac_body = rule_json b comment\<rparr>, r # fs_rules s))))
      | UpdateRule p b \<Rightarrow>
          bindE (own_rule sc marker (fs_rules s) p) (\<lambda>current.
          bindE (validate_rule sc (fs_aliases s) (fs_dc_aliases s) b) (\<lambda>_.
          let comment = (case fr_comment current of Some x \<Rightarrow> x | None \<Rightarrow> []); body = rule_json b comment in
          bindE (planned_rule p b comment) (\<lambda>r.
          bindE (rows_digest (fs_raw_rules s)) (\<lambda>dig.
            Inr (\<lparr>ac_method = ''PUT'', ac_path = rule_url s p,
                  ac_body = body @ [(''delete'', JStr (cleared_fields body)), (''digest'', JStr dig)]\<rparr>, (fs_rules s)[p := r])))))
      | DeleteRule p \<Rightarrow>
          bindE (own_rule sc marker (fs_rules s) p) (\<lambda>current.
          bindE (rows_digest (fs_raw_rules s)) (\<lambda>dig.
            Inr (\<lparr>ac_method = ''DELETE'', ac_path = rule_url s p, ac_body = [(''digest'', JStr dig)]\<rparr>, remove_at p (fs_rules s))))
      | MoveRule p q \<Rightarrow>
          bindE (own_rule sc marker (fs_rules s) p) (\<lambda>current.
          bindE (assertE (q < length (fs_rules s)) op_refused) (\<lambda>_.
          bindE (rows_digest (fs_raw_rules s)) (\<lambda>dig.
            Inr (\<lparr>ac_method = ''PUT'', ac_path = rule_url s p,
                  ac_body = [(''moveto'', JInt (int (if p < q then Suc q else q))), (''digest'', JStr dig)]\<rparr>,
                 insert_at q current (remove_at p (fs_rules s)))))))
       (\<lambda>(change, rules). Inr (change, renumber rules)))"

fun request_scope :: "fw_request \<Rightarrow> fw_scope" where
  "request_scope (OfRule sc c) = sc"
| "request_scope (OfAlias sc c) = sc"

definition scope_base :: "http_get \<Rightarrow> proxmox_host \<Rightarrow> manifest_file option \<Rightarrow> manifest_file option option \<Rightarrow> string \<Rightarrow> fw_scope \<Rightarrow> string res" where
  "scope_base get h f nf deployment_id sc =
     (let node = ''/nodes/'' @ url_quote (ph_node_name h) in
      case sc of
        OnDatacenter \<Rightarrow> Inr ''/cluster/firewall''
      | OnNode \<Rightarrow> Inr (node @ ''/firewall'')
      | OnVm i \<Rightarrow>
          bindE (runtime_targets f nf) (\<lambda>(vms, declared).
          case filter (\<lambda>vm. rt_vmid vm = i) vms of
            [] \<Rightarrow> fw_blocked ''FIREWALL_GUEST_OWNERSHIP''
          | selected \<Rightarrow>
              if go_status (hd (guests get h selected deployment_id None)) = Owned
              then Inr (node @ ''/qemu/'' @ int_str i @ ''/firewall'')
              else fw_blocked ''FIREWALL_GUEST_OWNERSHIP''))"

definition read_fw_state :: "http_get \<Rightarrow> proxmox_host \<Rightarrow> fw_scope \<Rightarrow> string \<Rightarrow> fw_state res" where
  "read_fw_state get h sc base =
     bindE (fw_reading (list_proxmox_data get h (base @ ''/rules'') [])) (\<lambda>raw_rules.
     bindE (map_rules raw_rules) (\<lambda>rules.
     bindE (if sc = OnNode then Inr [] else fw_reading (list_proxmox_data get h (base @ ''/aliases'') [])) (\<lambda>raw_aliases.
     bindE (map_aliases raw_aliases) (\<lambda>as.
     bindE (if sc = OnDatacenter then Inr as
            else bindE (fw_reading (list_proxmox_data get h ''/cluster/firewall/aliases'' [])) map_aliases) (\<lambda>dc.
       Inr \<lparr>fs_base = base, fs_raw_rules = raw_rules, fs_rules = rules, fs_raw_aliases = raw_aliases, fs_aliases = as,
            fs_dc_aliases = dc\<rparr>)))))"

definition plan_in_scope :: "http_get \<Rightarrow> proxmox_host \<Rightarrow> string \<Rightarrow> fw_state \<Rightarrow> fw_request \<Rightarrow> fw_plan res" where
  "plan_in_scope get h marker s q =
     (case q of
        OfAlias sc c \<Rightarrow>
          bindE (alias_plan get h sc marker s c) (\<lambda>(change, as).
            Inr \<lparr>fp_change = change, fp_before_rules = fs_rules s, fp_before_aliases = fs_aliases s, fp_rules = fs_rules s,
                 fp_aliases = sort_key fa_name as\<rparr>)
      | OfRule sc c \<Rightarrow>
          bindE (rule_plan sc marker s c) (\<lambda>(change, rules).
            Inr \<lparr>fp_change = change, fp_before_rules = fs_rules s, fp_before_aliases = fs_aliases s, fp_rules = rules,
                 fp_aliases = sort_key fa_name (fs_aliases s)\<rparr>))"

definition firewall_plan ::
    "http_get \<Rightarrow> proxmox_host \<Rightarrow> manifest_file option \<Rightarrow> manifest_file option option \<Rightarrow> string \<Rightarrow> fw_request \<Rightarrow> fw_plan res" where
  "firewall_plan get h f nf deployment_id q =
     (let g = guarded_get get; marker = ownership_marker deployment_id; sc = request_scope q in
      catchE (\<lambda>e. e \<in> {ValueError, KeyError, TypeError})
        (bindE (scope_base g h f nf deployment_id sc) (\<lambda>base.
         bindE (read_fw_state g h sc base) (\<lambda>s. plan_in_scope g h marker s q)))
        (fw_blocked ''FIREWALL_SCOPE_UNAVAILABLE''))"

text \<open>\<open>read_firewall_control\<close>, after the change: \<open>None\<close> when the scope is not available.\<close>

definition read_firewall_control ::
    "http_get \<Rightarrow> proxmox_host \<Rightarrow> manifest_file option \<Rightarrow> manifest_file option option \<Rightarrow> string \<Rightarrow> fw_scope
       \<Rightarrow> (fw_rule list \<times> fw_alias list) option res" where
  "read_firewall_control get h f nf deployment_id sc =
     catchE (\<lambda>e. e \<in> {ValueError, KeyError, TypeError} \<or> is_api_error e)
       (bindE (scope_base get h f nf deployment_id sc) (\<lambda>base.
        bindE (fw_reading (list_proxmox_data get h (base @ ''/rules'') [])) (\<lambda>raw_rules.
        bindE (map_rules raw_rules) (\<lambda>rules.
        bindE (if sc = OnNode then Inr [] else bindE (fw_reading (list_proxmox_data get h (base @ ''/aliases'') [])) map_aliases) (\<lambda>as.
          Inr (Some (rules, as)))))))
       (Inr None)"

subsection \<open>Lists with one element changed\<close>

named_theorems one_changed \<open>a list after one insertion, removal or update\<close>

lemma filter_insert_at [one_changed]: "\<not> P x \<Longrightarrow> filter P (insert_at i x xs) = filter P xs"
proof -
  assume "\<not> P x"
  then have "filter P (insert_at i x xs) = filter P (take i xs @ drop i xs)" by (simp add: insert_at_def del: append_take_drop_id)
  then show ?thesis by simp
qed

lemma filter_remove_at [one_changed]:
  assumes "i < length xs" and "\<not> P (xs ! i)"
  shows "filter P (remove_at i xs) = filter P xs"
proof -
  have "filter P xs = filter P (take i xs @ xs ! i # drop (Suc i) xs)" using id_take_nth_drop [OF assms(1)] by simp
  then show ?thesis using assms(2) by (simp add: remove_at_def)
qed

lemma filter_update_at [one_changed]:
  assumes "i < length xs" and "\<not> P (xs ! i)" and "\<not> P x"
  shows "filter P (xs[i := x]) = filter P xs"
proof -
  have "filter P xs = filter P (take i xs @ xs ! i # drop (Suc i) xs)" using id_take_nth_drop [OF assms(1)] by simp
  then show ?thesis using assms by (simp add: upd_conv_take_nth_drop)
qed

lemma set_insert_at: "set (insert_at i x xs) = insert x (set xs)"
proof -
  have "set xs = set (take i xs @ drop i xs)" by simp
  then show ?thesis by (simp add: insert_at_def del: append_take_drop_id)
qed

lemma set_remove_at: "set (remove_at i xs) \<subseteq> set xs"
  by (auto simp: remove_at_def dest: in_set_takeD in_set_dropD)

subsection \<open>What a planned rule is\<close>

text \<open>A rule but for its place in the chain.\<close>

definition core :: "fw_rule \<Rightarrow> fw_rule" where
  "core r = r\<lparr>fr_position := 0\<rparr>"

lemma core_fields [simp]:
  "fr_comment (r\<lparr>fr_position := i\<rparr>) = fr_comment r" "rule_management sc (r\<lparr>fr_position := i\<rparr>) = rule_management sc r"
  "core (r\<lparr>fr_position := i\<rparr>) = core r"
  by (simp_all add: rule_management_def core_def)

lemma map_core_renumber:
  assumes "\<And>r i. P (r\<lparr>fr_position := i\<rparr>) = P r"
  shows "map core (filter P (renumber rs)) = map core (filter P rs)"
proof -
  have "map core (filter P (map (\<lambda>(i, r). r\<lparr>fr_position := i\<rparr>) (enumerate n rs))) = map core (filter P rs)" for n
  proof (induction rs arbitrary: n)
    case (Cons r rs)
    show ?case using Cons [of "Suc n"] assms [of n r] by simp
  qed simp
  then show ?thesis by (simp add: renumber_def)
qed

lemma renumber_positions: "map fr_position (renumber rs) = [0..<length rs]"
  by (rule nth_equalityI) (simp_all add: renumber_def nth_enumerate_eq)

lemma text_fieldD: "text_field row k = Inr x \<Longrightarrow> jget row k = (case x of None \<Rightarrow> JNull | Some s \<Rightarrow> JStr s)"
  by (cases "jget row k") (auto simp: text_field_def split: if_splits)

lemma map_ruleD:
  assumes "map_rule row = Inr r"
  shows "jget row ''type'' = JStr (fr_direction r)" and "jget row ''action'' = JStr (fr_action r)"
    and "jget row ''proto'' = gateway_json (fr_protocol r)" and "jget row ''dport'' = gateway_json (fr_port r)"
    and "jget row ''macro'' = gateway_json (fr_macro r)" and "jget row ''comment'' = gateway_json (fr_comment r)"
proof -
  obtain p where p: "jget row ''pos'' = JInt p" using assms by (cases "jget row ''pos''") (simp_all add: map_rule_def)
  obtain dir where dir: "jget row ''type'' = JStr dir" using assms p by (cases "jget row ''type''") (simp_all add: map_rule_def)
  obtain act where act: "jget row ''action'' = JStr act" using assms p dir by (cases "jget row ''action''") (simp_all add: map_rule_def)
  obtain on where on: "switch_text row = Some on" using assms p dir act by (cases "switch_text row") (simp_all add: map_rule_def)
  from assms have "text_field row ''proto'' = Inr (fr_protocol r) \<and> text_field row ''dport'' = Inr (fr_port r)
      \<and> text_field row ''macro'' = Inr (fr_macro r) \<and> text_field row ''comment'' = Inr (fr_comment r)
      \<and> fr_direction r = dir \<and> fr_action r = act"
    by (auto simp: map_rule_def p dir act on bindE_Inr split: if_splits)
  then show "jget row ''type'' = JStr (fr_direction r)" "jget row ''action'' = JStr (fr_action r)"
    "jget row ''proto'' = gateway_json (fr_protocol r)" "jget row ''dport'' = gateway_json (fr_port r)"
    "jget row ''macro'' = gateway_json (fr_macro r)" "jget row ''comment'' = gateway_json (fr_comment r)"
    using dir act by (auto simp: gateway_json_def dest!: text_fieldD)
qed

lemma gateway_json_iff: "gateway_json x = JStr s \<longleftrightarrow> x = Some s" "gateway_json x = JNull \<longleftrightarrow> x = None"
  by (cases x; simp add: gateway_json_def)+

lemma planned_ruleD:
  assumes "planned_rule p b comment = Inr r"
  shows "fr_comment r = Some comment \<and> fr_action r = rb_action b \<and> rule_management sc r = body_management sc b"
proof -
  let ?d = "rule_json b comment @ [(''pos'', JInt (int p))]"
  have "map_rule ?d = Inr r" using assms by (auto simp: planned_rule_def map_rules_def res_simps)
  moreover have "jget ?d ''comment'' = JStr comment" "jget ?d ''action'' = JStr (rb_action b)" "jget ?d ''type'' = JStr (rb_direction b)"
    "jget ?d ''proto'' = JStr (rb_protocol b)" "jget ?d ''dport'' = JStr (rb_port b)" "jget ?d ''macro'' = JNull"
    by (simp_all add: jget_def rule_json_def opt_member_def split: option.split)
  ultimately have "fr_comment r = Some comment \<and> fr_action r = rb_action b \<and> fr_direction r = rb_direction b
    \<and> fr_protocol r = Some (rb_protocol b) \<and> fr_port r = Some (rb_port b) \<and> fr_macro r = None"
    using map_ruleD [of ?d r] by (simp add: gateway_json_iff)
  then show ?thesis by (simp add: rule_management_def body_management_def)
qed

lemma own_ruleD:
  assumes "own_rule sc marker rules p = Inr r"
  shows "p < length rules \<and> r = rules ! p \<and> owned_comment marker (fr_comment r) \<and> rule_management sc r = Inr False"
  using assms by (auto simp: own_rule_def fw_blocked_def Let_def res_simps split: if_splits)

lemma validate_ruleD:
  "validate_rule sc as dc b = Inr u \<Longrightarrow> rb_action b = ''ACCEPT'' \<or> (is_vm_scope sc \<and> body_management sc b = Inr False)"
  by (auto simp: validate_rule_def fw_blocked_def res_simps split: if_splits)

text \<open>A rule that a plan may add.\<close>

definition harmless :: "fw_scope \<Rightarrow> string \<Rightarrow> fw_rule \<Rightarrow> bool" where
  "harmless sc marker r =
     (owned_comment marker (fr_comment r)
      \<and> (fr_action r = ''ACCEPT'' \<or> (is_vm_scope sc \<and> rule_management sc r = Inr False)))"

lemma harmless_position [simp]: "harmless sc marker (r\<lparr>fr_position := i\<rparr>) = harmless sc marker r"
  by (simp add: harmless_def)

lemma owned_created: "alias_name name \<Longrightarrow> owned_comment marker (Some (rule_prefix marker @ name))"
  by (simp add: owned_comment_def)

text \<open>
  The shapes of a change, as one relation between the rules before and after it: the rule in
  question is this deployment's and not one that decides on management access.
\<close>

inductive rule_edit :: "fw_scope \<Rightarrow> string \<Rightarrow> fw_rule list \<Rightarrow> fw_rule list \<Rightarrow> bool" for sc marker where
  created: "harmless sc marker r \<Longrightarrow> rule_edit sc marker rules (r # rules)"
| updated: "own_rule sc marker rules p = Inr old \<Longrightarrow> harmless sc marker r \<Longrightarrow> rule_edit sc marker rules (rules[p := r])"
| deleted: "own_rule sc marker rules p = Inr old \<Longrightarrow> rule_edit sc marker rules (remove_at p rules)"
| moved: "own_rule sc marker rules p = Inr old \<Longrightarrow> rule_edit sc marker rules (insert_at q old (remove_at p rules))"

lemma rule_plan_edit:
  assumes "rule_plan sc marker s c = Inr (change, rules)" and "rule_change_ok c"
  shows "\<exists>rs. rules = renumber rs \<and> rule_edit sc marker (fs_rules s) rs"
proof (cases c)
  case (CreateRule name b)
  with assms(1) obtain r u where r: "validate_rule sc (fs_aliases s) (fs_dc_aliases s) b = Inr u"
    "planned_rule 0 b (rule_prefix marker @ name) = Inr r" "rules = renumber (r # fs_rules s)"
    by (auto simp: rule_plan_def Let_def res_simps)
  have "harmless sc marker r"
    using planned_ruleD [OF r(2), of sc] validate_ruleD [OF r(1)] owned_created assms(2) CreateRule by (auto simp: harmless_def)
  then show ?thesis using r(3) rule_edit.created by blast
next
  case (UpdateRule p b)
  with assms(1) obtain old r u comment where r: "own_rule sc marker (fs_rules s) p = Inr old"
    "validate_rule sc (fs_aliases s) (fs_dc_aliases s) b = Inr u"
    "comment = (case fr_comment old of Some x \<Rightarrow> x | None \<Rightarrow> [])" "planned_rule p b comment = Inr r"
    "rules = renumber ((fs_rules s)[p := r])"
    by (auto simp: rule_plan_def Let_def res_simps)
  have "harmless sc marker r"
    using planned_ruleD [OF r(4), of sc] validate_ruleD [OF r(2)] own_ruleD [OF r(1)] r(3)
    by (auto simp: harmless_def owned_comment_def split: option.splits)
  then show ?thesis using r(1,5) rule_edit.updated by blast
next
  case (DeleteRule p)
  then show ?thesis using assms(1) rule_edit.deleted [of sc marker "fs_rules s" p] by (auto simp: rule_plan_def res_simps)
next
  case (MoveRule p q)
  then show ?thesis using assms(1) rule_edit.moved [of sc marker "fs_rules s" p _ q] by (auto simp: rule_plan_def res_simps)
qed

lemma rule_edit_foreign:
  "rule_edit sc marker rules rs \<Longrightarrow>
     filter (\<lambda>r. \<not> owned_comment marker (fr_comment r)) rs = filter (\<lambda>r. \<not> owned_comment marker (fr_comment r)) rules"
  by (induction rule: rule_edit.induct) (auto simp: harmless_def one_changed dest: own_ruleD)

lemma rule_edit_management:
  "rule_edit sc marker rules rs \<Longrightarrow> r \<in> set rules \<Longrightarrow> rule_management sc r \<noteq> Inr False \<Longrightarrow> r \<in> set rs"
proof (induction rule: rule_edit.induct)
  case (updated rules p old x)
  have p: "p < length rules" "old = rules ! p" "rule_management sc old = Inr False" using own_ruleD [OF updated(1)] by auto
  obtain i where i: "i < length rules" "r = rules ! i" using updated(3) by (auto simp: in_set_conv_nth)
  then have "i \<noteq> p" using p updated(4) by auto
  then show ?case using i by (auto simp: in_set_conv_nth intro!: exI [of _ i])
next
  case (deleted rules p old)
  have p: "p < length rules" "rule_management sc (rules ! p) = Inr False" using own_ruleD [OF deleted(1)] by auto
  have "set rules = set (take p rules @ rules ! p # drop (Suc p) rules)" using id_take_nth_drop [OF p(1)] by simp
  then show ?case using deleted p(2) by (auto simp: remove_at_def)
next
  case (moved rules p old q)
  have p: "p < length rules" "old = rules ! p" using own_ruleD [OF moved(1)] by auto
  have "set rules = set (take p rules @ rules ! p # drop (Suc p) rules)" using id_take_nth_drop [OF p(1)] by simp
  then show ?case using moved p(2) by (auto simp: set_insert_at remove_at_def)
qed simp

lemma rule_edit_new:
  "rule_edit sc marker rules rs \<Longrightarrow> r \<in> set rs \<Longrightarrow> r \<in> set rules \<or> harmless sc marker r"
proof (induction rule: rule_edit.induct)
  case (updated rules p old x)
  then show ?case using set_update_subset_insert [of rules p x] by auto
next
  case (moved rules p old q)
  have "old \<in> set rules" using own_ruleD [OF moved(1)] by auto
  then show ?case using moved(2) set_remove_at [of p rules] by (auto simp: set_insert_at)
next
  case (deleted rules p old)
  then show ?case using set_remove_at [of p rules] by blast
qed auto

lemma firewall_planD:
  assumes "firewall_plan get h f nf dep (OfRule sc c) = Inr p"
  obtains s base where "scope_base (guarded_get get) h f nf dep sc = Inr base"
    and "read_fw_state (guarded_get get) h sc base = Inr s" and "fp_before_rules p = fs_rules s"
    and "rule_plan sc (ownership_marker dep) s c = Inr (fp_change p, fp_rules p)"
  using assms
  by (auto simp: firewall_plan_def plan_in_scope_def fw_blocked_def Let_def res_simps)

subsection \<open>A sample chain\<close>

definition fw_digest :: json where
  "fw_digest = JStr (replicate 40 (CHR ''d''))"

definition fw_rows :: "dict list" where
  "fw_rows =
     [[(''pos'', JInt 0), (''type'', JStr ''in''), (''action'', JStr ''ACCEPT''), (''enable'', JInt 1), (''proto'', JStr ''tcp''),
       (''dport'', JStr ''22''), (''digest'', fw_digest)],
      [(''pos'', JInt 1), (''type'', JStr ''in''), (''action'', JStr ''ACCEPT''), (''enable'', JInt 1), (''proto'', JStr ''tcp''),
       (''dport'', JStr ''80,443''), (''comment'', JStr ''range42-deployment:d1;rule:web''), (''digest'', fw_digest)]]"

definition fw_get :: http_get where
  "fw_get url params =
     map_option (\<lambda>v. \<lparr>hr_status = 200, hr_body = Some (JObj [(''data'', v)])\<rparr>)
       (dget [(''https://p/api2/json/cluster/firewall/rules'', JList (map JObj fw_rows)),
              (''https://p/api2/json/cluster/firewall/aliases'', JList [])] url)"

definition ssh_rule :: fw_rule where
  "ssh_rule = \<lparr>fr_position = 0, fr_direction = ''in'', fr_action = ''ACCEPT'', fr_enabled = True, fr_source = None, fr_destination = None,
     fr_protocol = Some ''tcp'', fr_port = Some ''22'', fr_source_port = None, fr_interface = None, fr_macro = None, fr_comment = None,
     fr_log = None\<rparr>"

definition web_rule :: fw_rule where
  "web_rule = \<lparr>fr_position = 1, fr_direction = ''in'', fr_action = ''ACCEPT'', fr_enabled = True, fr_source = None, fr_destination = None,
     fr_protocol = Some ''tcp'', fr_port = Some ''80,443'', fr_source_port = None, fr_interface = None, fr_macro = None,
     fr_comment = Some ''range42-deployment:d1;rule:web'', fr_log = None\<rparr>"

definition fw_sample_state :: fw_state where
  "fw_sample_state = \<lparr>fs_base = ''/cluster/firewall'', fs_raw_rules = fw_rows, fs_rules = [ssh_rule, web_rule], fs_raw_aliases = [],
     fs_aliases = [], fs_dc_aliases = []\<rparr>"

definition fw_sample_plan :: fw_plan where
  "fw_sample_plan = \<lparr>fp_change = \<lparr>ac_method = ''DELETE'', ac_path = ''/cluster/firewall/rules/1'', ac_body = [(''digest'', fw_digest)]\<rparr>,
     fp_before_rules = [ssh_rule, web_rule], fp_before_aliases = [], fp_rules = [ssh_rule], fp_aliases = []\<rparr>"

lemma fw_listed:
  "list_proxmox_data (guarded_get fw_get) sample_host (''/cluster/firewall'' @ ''/rules'') [] = Inr fw_rows"
  "list_proxmox_data (guarded_get fw_get) sample_host (''/cluster/firewall'' @ ''/aliases'') [] = Inr []"
  by code_simp+

lemma fw_mapped: "mapE map_rule fw_rows = Inr [ssh_rule, web_rule]"
  by code_simp

lemma fw_own: "own_rule OnDatacenter (ownership_marker ''d1'') [ssh_rule, web_rule] 1 = Inr web_rule"
  by code_simp

lemma fw_dig: "rows_digest fw_rows = Inr (replicate 40 (CHR ''d''))"
  by code_simp

lemma fw_state_read: "read_fw_state (guarded_get fw_get) sample_host OnDatacenter ''/cluster/firewall'' = Inr fw_sample_state"
proof -
  have len: "length fw_rows = 2" by (simp add: fw_rows_def)
  have pos: "fr_position ssh_rule = 0" "fr_position web_rule = 1" by (simp_all add: ssh_rule_def web_rule_def)
  have "map_rules fw_rows = Inr [ssh_rule, web_rule]" by (simp add: map_rules_def len fw_mapped pos)
  then show ?thesis
    using fw_listed [simplified] by (simp add: read_fw_state_def fw_reading_def map_aliases_def fw_sample_state_def)
qed

lemma fw_planned:
  "firewall_plan fw_get sample_host (Some gen_manifest) None ''d1'' (OfRule OnDatacenter (DeleteRule 1)) = Inr fw_sample_plan"
proof -
  have pos: "fr_position ssh_rule = 0" "fr_position web_rule = 1" "ssh_rule\<lparr>fr_position := 0\<rparr> = ssh_rule"
    by (simp_all add: ssh_rule_def web_rule_def)
  have one: "nat_str 1 = ''1''" by (simp add: nat_str.simps digit_char_def)
  have "rule_plan OnDatacenter (ownership_marker ''d1'') fw_sample_state (DeleteRule 1) = Inr (fp_change fw_sample_plan, [ssh_rule])"
    by (simp add: rule_plan_def fw_sample_state_def fw_own [simplified] fw_dig pos remove_at_def renumber_def fw_sample_plan_def
        rule_url_def one [simplified] fw_digest_def del: replicate.simps)
       (simp add: upt_conv_Cons)?
  then show ?thesis
    by (simp add: firewall_plan_def scope_base_def fw_state_read plan_in_scope_def)
       (simp add: fw_sample_state_def fw_sample_plan_def)
qed

subsection \<open>The property\<close>



end
