(* ===== verification/Access.thy ===== *)
theory Access
  imports Attempts Manifest Py_Values
begin

text \<open>
  Who may call what (\<open>app/core/access.py\<close>, \<open>auth.py\<close>, \<open>audit.py\<close>, \<open>routes/v1/access.py\<close>):
  the principals file, the permissions of each role, the bearer middleware in front of every
  request, and the audit record that a mutation leaves.

  The middleware is a function from a request to what it does, a list of events in their
  order: messages sent to the client, and the call of the application behind it, which carries
  what that call finds (the identity in the request state and the committed audit rows).
  Parameters: files, SHA-256, Starlette's route matching, the messages the application sends,
  the fresh id, the clock and whether the audit database answers. An ASGI \<open>http\<close> scope has
  a method and a websocket scope has none.
\<close>

subsection \<open>Principals\<close>

record principal =
  pr_actor :: string
  pr_role :: string

record settings =
  st_auth_mode :: string
  st_api_token :: string
  st_api_token_file :: string
  st_principals_file :: string
  st_audit_enabled :: bool

record path_info =
  pi_regular :: bool
  pi_mode :: nat
  pi_size :: nat

record path_reader =
  rd_stat :: "string \<Rightarrow> path_info res"
  rd_text :: "string \<Rightarrow> string res"

fun unique_from :: "dict \<Rightarrow> dict \<Rightarrow> dict option" where
  "unique_from acc [] = Some acc"
| "unique_from acc ((k, v) # ps) =
     (if dget acc k \<noteq> None then None else unique_from (dset k v acc) ps)"

definition unique_keys :: object_hook where
  "unique_keys ps = map_option JObj (unique_from [] ps)"

definition principal_id :: "string \<Rightarrow> bool" where
  "principal_id = bounded_word is_alnum (\<lambda>c. is_alnum c \<or> c \<in> set ''_.-'') 63"

definition token_hash :: "string \<Rightarrow> bool" where
  "token_hash = class_match (\<lambda>c. c \<in> set ''abcdef0123456789'') 64 64"

definition roles :: "string list" where
  "roles = [''admin'', ''operator'', ''viewer'']"

type_synonym principal_table = "(string \<times> principal) list"

definition add_principal :: "string list \<times> principal_table \<Rightarrow> json \<Rightarrow> (string list \<times> principal_table) res" where
  "add_principal acc row =
     (case row of
        JObj d \<Rightarrow>
          bindE (assertE (set (dkeys d) = {''id'', ''role'', ''token_sha256''}) ValueError) (\<lambda>_.
          case jget d ''id'' of
            JStr i \<Rightarrow>
              bindE (assertE (principal_id i \<and> i \<notin> {''shared-operator'', ''development''}) ValueError) (\<lambda>_.
              case jget d ''role'' of
                JStr r \<Rightarrow>
                  bindE (assertE (r \<in> set roles) ValueError) (\<lambda>_.
                  case jget d ''token_sha256'' of
                    JStr h \<Rightarrow>
                      bindE (assertE (token_hash h \<and> i \<notin> set (fst acc) \<and> dget (snd acc) h = None) ValueError) (\<lambda>_.
                      Inr (i # fst acc, dset h \<lparr>pr_actor = i, pr_role = r\<rparr> (snd acc)))
                  | _ \<Rightarrow> Inl ValueError)
              | JList xs \<Rightarrow> Inl TypeError
              | JObj e \<Rightarrow> Inl TypeError
              | _ \<Rightarrow> Inl ValueError)
          | _ \<Rightarrow> Inl ValueError)
      | _ \<Rightarrow> Inl ValueError)"

definition principals_of_value :: "settings \<Rightarrow> json \<Rightarrow> principal_table res" where
  "principals_of_value st v =
     (case v of
        JObj d \<Rightarrow>
          bindE (assertE (set (dkeys d) = {''version'', ''principals''} \<and> jget d ''version'' = JInt 1) ValueError) (\<lambda>_.
          case jget d ''principals'' of
            JList rows \<Rightarrow>
              bindE (assertE (1 \<le> length rows \<and> length rows \<le> 1000) ValueError) (\<lambda>_.
              bindE (foldE add_principal ([], []) rows) (\<lambda>acc.
              bindE (assertE (list_ex (\<lambda>(h, p). pr_role p = ''admin'') (snd acc)
                       \<or> st_api_token st \<noteq> [] \<or> st_api_token_file st \<noteq> []) ValueError) (\<lambda>_.
              Inr (snd acc))))
          | _ \<Rightarrow> Inl ValueError)
      | _ \<Rightarrow> Inl ValueError)"

definition principals_of_text :: "settings \<Rightarrow> string \<Rightarrow> principal_table res" where
  "principals_of_text st s = bindE (of_opt ValueError (json_loads_hook unique_keys s)) (principals_of_value st)"

definition configured_principals :: "settings \<Rightarrow> path_reader \<Rightarrow> principal_table res" where
  "configured_principals st fs =
     (if st_principals_file st = [] then Inr []
      else case
        bindE (rd_stat fs (st_principals_file st)) (\<lambda>info.
        bindE (assertE (pi_regular info \<and> pi_mode info mod 64 = 0 \<and> pi_size info \<le> 262144) ValueError) (\<lambda>_.
        bindE (rd_text fs (st_principals_file st)) (principals_of_text st)))
      of Inr ps \<Rightarrow> Inr ps
       | Inl e \<Rightarrow> Inl (if e \<in> {OSError, ValueError, TypeError, KeyError} then RuntimeError else e))"

subsection \<open>Permissions\<close>

definition viewer_reads :: "string list" where
  "viewer_reads =
     [''/v1/auth/me'', ''/v1/health'', ''/v1/health/ready'', ''/v1/infra/mirror/health'',
      ''/v1/catalog/sources'', ''/v1/catalog/entries'',
      ''/v1/catalog/entries/{source_id}/{path}'', ''/v1/projects/'',
      ''/v1/projects/{project_id}'', ''/v1/contexts'',
      ''/v1/projects/{project_id}/native-scenario'', ''/v1/deployments/'',
      ''/v1/deployments/{deployment_id}'']
     @ map (\<lambda>s. ''/v1/deployments/{deployment_id}/'' @ s)
      [''allocations'', ''attempts'', ''events/download'', ''events'', ''preflight'',
       ''snapshots'', ''timings'', ''runtime'', ''runtime-report'', ''snapshot-sets'']
     @ [''/v1/deployments/{deployment_id}/snapshot-sets/{set_id}'',
      ''/v1/proxmox/hosts/{host_id}/sdn/zones'', ''/v1/proxmox/hosts/{host_id}/sdn/vnets'',
      ''/v1/proxmox/runtime-capabilities'',
      ''/v1/proxmox/hosts/{host_id}/sdn/vnets/{vnet}/subnets'', ''/v1/proxmox/hosts'',
      ''/v1/proxmox/hosts/{host_id}/health'', ''/v1/proxmox/hosts/{host_id}/vms'',
      ''/v1/proxmox/hosts/{host_id}/vms/{vmid}/status'',
      ''/v1/proxmox/hosts/{host_id}/tasks/{upid}/status'',
      ''/v1/proxmox/hosts/{host_id}/storage'',
      ''/v1/proxmox/hosts/{host_id}/storage/{store}/content'',
      ''/v1/proxmox/hosts/{host_id}/capacity'',
      ''/v1/proxmox/hosts/{host_id}/vms/{vmid}/snapshots'']"

definition operator_reads :: "string list" where
  "operator_reads =
     [''/v1/proxmox/hosts/{host_id}/vms/{vmid}/hardware/review'',
      ''/v1/proxmox/hosts/{host_id}/vms/{vmid}/config'',
      ''/v1/proxmox/hosts/{host_id}/vms/{vmid}/config/review'',
      ''/v1/proxmox/hosts/{host_id}/reservations/{reservation_id}'', ''/v1/admin/retention'']"

definition operator_writes :: "(string \<times> string) list" where
  "operator_writes =
     [(''PUT'', ''/v1/proxmox/hosts/{host_id}/vms/{vmid}/hardware/nics/{nic_id}''),
      (''PUT'', ''/v1/proxmox/hosts/{host_id}/vms/{vmid}/hardware/disks/{disk_id}/grow''),
      (''POST'', ''/v1/projects/''), (''PUT'', ''/v1/projects/{project_id}''),
      (''PATCH'', ''/v1/projects/{project_id}'')]
     @ map (\<lambda>s. (''POST'', ''/v1/projects/{project_id}/'' @ s))
      [''heartbeat'', ''compose'', ''validate'']
     @ [(''POST'', ''/v1/catalog/sources/{source_id}/bundles/resolve''),
      (''POST'', ''/v1/deployments/''), (''DELETE'', ''/v1/deployments/{deployment_id}''),
      (''DELETE'', ''/v1/deployments/{deployment_id}/allocations'')]
     @ map (\<lambda>s. (''POST'', ''/v1/deployments/{deployment_id}/'' @ s))
      [''attempts'', ''preflight'', ''teams/{team_id}/reset'', ''snapshot'', ''rollback'',
       ''cancel'', ''operations'', ''snapshot-sets/plan'', ''snapshot-sets/retention/plan'',
       ''snapshot-sets/{set_id}/execute'', ''snapshot-sets/{set_id}/reconcile'',
       ''snapshot-sets/{set_id}/rollback/plan'', ''snapshot-sets/{set_id}/delete/plan'']
     @ [(''DELETE'', ''/v1/deployments/{deployment_id}/snapshot-sets/{set_id}/plans/{operation_id}''),
      (''PUT'', ''/v1/proxmox/hosts/{host_id}/vms/{vmid}/config''),
      (''POST'', ''/v1/proxmox/hosts/{host_id}/vms/{vmid}/status/{action}''),
      (''DELETE'', ''/v1/proxmox/hosts/{host_id}/vms/{vmid}''),
      (''POST'', ''/v1/proxmox/hosts/{host_id}/vms/{vmid}/snapshots''),
      (''DELETE'', ''/v1/proxmox/hosts/{host_id}/vms/{vmid}/snapshots/{name}''),
      (''POST'', ''/v1/proxmox/hosts/{host_id}/vms/{vmid}/snapshots/{name}/rollback''),
      (''POST'', ''/v1/proxmox/hosts/{host_id}/reservations''),
      (''DELETE'', ''/v1/proxmox/hosts/{host_id}/reservations/{reservation_id}'')]"


definition allowed :: "principal \<Rightarrow> string \<Rightarrow> string \<Rightarrow> bool" where
  "allowed p method route =
     (if pr_role p = ''admin'' then True
      else if method \<in> {''GET'', ''HEAD''}
      then route \<in> set viewer_reads \<or> (pr_role p = ''operator'' \<and> route \<in> set operator_reads)
      else pr_role p = ''operator'' \<and> (method, route) \<in> set operator_writes)"

subsection \<open>Audit records\<close>

record audit_record =
  au_id :: string
  au_actor :: string
  au_role :: string
  au_method :: string
  au_route :: string
  au_state :: string
  au_status :: "nat option"
  au_created :: int
  au_finished :: "int option"

text \<open>\<open>None\<close>: the session raised; the row is not there. An id that is taken violates the key.\<close>

definition begin_record :: "bool \<Rightarrow> string \<Rightarrow> int \<Rightarrow> principal \<Rightarrow> string \<Rightarrow> string \<Rightarrow> audit_record list \<Rightarrow> audit_record list option" where
  "begin_record db_ok rid now p method route rows =
     (if db_ok \<and> rid \<notin> au_id ` set rows
      then Some (rows @ [\<lparr>au_id = rid, au_actor = pr_actor p, au_role = pr_role p, au_method = method,
                          au_route = route, au_state = ''started'', au_status = None, au_created = now,
                          au_finished = None\<rparr>])
      else None)"

definition finish_row :: "nat \<Rightarrow> bool \<Rightarrow> int \<Rightarrow> audit_record \<Rightarrow> audit_record" where
  "finish_row status denied now row =
     row\<lparr>au_status := Some status, au_state := (if denied then ''denied'' else ''completed''), au_finished := Some now\<rparr>"

definition finish_record :: "bool \<Rightarrow> string \<Rightarrow> nat \<Rightarrow> bool \<Rightarrow> int \<Rightarrow> audit_record list \<Rightarrow> audit_record list option" where
  "finish_record db_ok rid status denied now rows =
     (if db_ok \<and> rid \<in> au_id ` set rows
      then Some (map (\<lambda>row. if au_id row = rid then finish_row status denied now row else row) rows)
      else None)"

text \<open>The page \<open>/v1/admin/audit\<close> shows, newest first: the number of rows and the rows of the page.\<close>

definition list_records :: "nat \<Rightarrow> nat \<Rightarrow> audit_record list \<Rightarrow> nat \<times> audit_record list" where
  "list_records offset limit rows =
     (length rows, take limit (drop offset (rev (sort_key au_created (sort_key au_id rows)))))"

definition audit_records :: "int \<Rightarrow> int \<Rightarrow> audit_record list \<Rightarrow> (nat \<times> audit_record list) res" where
  "audit_records offset limit rows =
     bindE (assertE (0 \<le> offset \<and> 1 \<le> limit \<and> limit \<le> 200) (ApiError \<lparr>ae_status = 422, ae_error = ''validation_error'', ae_code = ''VALIDATION''\<rparr>))
       (\<lambda>_. Inr (list_records (nat offset) (nat limit) rows))"

record identity_out =
  io_actor :: string
  io_role :: string
  io_audit :: bool

definition identity :: "(principal \<times> bool) option \<Rightarrow> identity_out" where
  "identity seen =
     (case seen of
        Some (p, audited) \<Rightarrow> \<lparr>io_actor = pr_actor p, io_role = pr_role p, io_audit = audited\<rparr>
      | None \<Rightarrow> \<lparr>io_actor = ''development'', io_role = ''admin'', io_audit = False\<rparr>)"

subsection \<open>The bearer middleware\<close>

definition configured_api_token :: "settings \<Rightarrow> path_reader \<Rightarrow> string option res" where
  "configured_api_token st fs =
     (if st_auth_mode st \<notin> {''required'', ''development''} then Inl RuntimeError
      else if st_auth_mode st = ''development'' then Inr None
      else if st_api_token st \<noteq> [] \<and> st_api_token_file st \<noteq> [] then Inl RuntimeError
      else bindE
        (if st_api_token_file st = [] then Inr (st_api_token st)
         else case rd_text fs (st_api_token_file st) of
                Inr s \<Rightarrow> Inr (strip s)
              | Inl e \<Rightarrow> Inl (if e = OSError then RuntimeError else e)) (\<lambda>token.
        if token = [] \<and> st_principals_file st \<noteq> [] then Inr None
        else if length token < 32 \<or> list_ex py_space token then Inl RuntimeError
        else Inr (Some token)))"

record scope =
  rq_type :: string
  rq_path :: string
  rq_method :: "string option"
  rq_headers :: "(string \<times> string) list"

datatype route_match = NoMatch | PartialMatch | FullMatch

record route_entry =
  re_matches :: "scope \<Rightarrow> route_match"
  re_template :: string

record web_app =
  wa_routes :: "route_entry list"
  wa_redirect_slashes :: bool

fun first_full :: "scope \<Rightarrow> route_entry list \<Rightarrow> string option" where
  "first_full sc [] = None"
| "first_full sc (r # rs) = (if re_matches r sc = FullMatch then Some (re_template r) else first_full sc rs)"

definition redirect_path :: "string \<Rightarrow> string" where
  "redirect_path path = (if ends_with ''/'' path then rstrip_slash path else path @ ''/'')"

definition route_template :: "web_app \<Rightarrow> scope \<Rightarrow> string" where
  "route_template app sc =
     (case first_full sc (wa_routes app) of
        Some t \<Rightarrow> t
      | None \<Rightarrow>
          if \<not> list_ex (\<lambda>r. re_matches r sc = PartialMatch) (wa_routes app)
             \<and> rq_type sc = ''http'' \<and> wa_redirect_slashes app
          then (case first_full (sc\<lparr>rq_path := redirect_path (rq_path sc)\<rparr>) (wa_routes app) of
                  Some t \<Rightarrow> t
                | None \<Rightarrow> ''<unmatched>'')
          else ''<unmatched>'')"

record bearer =
  bm_token :: "string option"
  bm_principals :: principal_table
  bm_audit :: bool

definition bearer_init :: "string option \<Rightarrow> principal_table \<Rightarrow> bool \<Rightarrow> bearer" where
  "bearer_init token ps audited = \<lparr>bm_token = token, bm_principals = ps, bm_audit = audited \<or> ps \<noteq> []\<rparr>"

text \<open>The part of the application factory that builds the middleware.\<close>

definition create_bearer :: "settings \<Rightarrow> path_reader \<Rightarrow> bearer res" where
  "create_bearer st fs =
     bindE (configured_api_token st fs) (\<lambda>token.
     bindE (configured_principals st fs) (\<lambda>ps.
     Inr (bearer_init token ps (st_audit_enabled st))))"

definition public_probe :: "scope \<Rightarrow> bool" where
  "public_probe sc =
     (rq_type sc = ''http'' \<and> rq_path sc = ''/v1/health'' \<and> rq_method sc \<in> {Some ''GET'', Some ''HEAD''})"

definition bearer_credential :: "scope \<Rightarrow> string option" where
  "bearer_credential sc =
     (let value = (case dget (rq_headers sc) ''authorization'' of None \<Rightarrow> [] | Some v \<Rightarrow> v);
          (scheme, credential) = split_once (CHR '' '') value
      in if map lower_char scheme = ''bearer'' then Some credential else None)"

definition hashed_principal :: "(string \<Rightarrow> string) \<Rightarrow> principal_table \<Rightarrow> string \<Rightarrow> principal option" where
  "hashed_principal sha ps credential =
     fold (\<lambda>(expected, p) acc. if sha credential = expected then Some p else acc) ps None"

definition authenticate :: "(string \<Rightarrow> string) \<Rightarrow> bearer \<Rightarrow> scope \<Rightarrow> principal option" where
  "authenticate sha bm sc =
     (if bm_token bm = None \<and> bm_principals bm = []
      then Some \<lparr>pr_actor = ''development'', pr_role = ''admin''\<rparr>
      else case bearer_credential sc of
        None \<Rightarrow> None
      | Some credential \<Rightarrow>
          if bm_token bm \<notin> {None, Some []} \<and> Some credential = bm_token bm
          then Some \<lparr>pr_actor = ''shared-operator'', pr_role = ''admin''\<rparr>
          else if 32 \<le> length credential \<and> length credential \<le> 4096 \<and> \<not> list_ex py_space credential
          then hashed_principal sha (bm_principals bm) credential
          else None)"

datatype message =
    ResponseStart nat "(string \<times> string) list"
  | ErrorBody api_error
  | WsClose nat
  | OtherMessage string

datatype event =
    Call "(principal \<times> bool) option" "audit_record list"
  | Send message

definition deny_messages :: "scope \<Rightarrow> nat \<Rightarrow> string \<Rightarrow> message list" where
  "deny_messages sc status code =
     (if rq_type sc = ''websocket'' then [WsClose (if status = 401 then 4401 else 4403)]
      else [ResponseStart status (if status = 401 then [(''WWW-Authenticate'', ''Bearer'')] else []),
            ErrorBody \<lparr>ae_status = status,
              ae_error = (if status = 401 then ''authentication_required'' else ''access_denied''), ae_code = code\<rparr>])"

record audit_env =
  ev_id :: string
  ev_now :: int
  ev_end :: int
  ev_begin_ok :: bool
  ev_finish_ok :: bool

definition method_of :: "scope \<Rightarrow> string" where
  "method_of sc = (case rq_method sc of None \<Rightarrow> ''WEBSOCKET'' | Some m \<Rightarrow> m)"

definition needs_record :: "bearer \<Rightarrow> scope \<Rightarrow> bool" where
  "needs_record bm sc =
     (bm_audit bm \<and> rq_type sc = ''http'' \<and> method_of sc \<notin> {''GET'', ''HEAD'', ''OPTIONS''})"

fun audited_send :: "audit_env \<Rightarrow> string option \<Rightarrow> bool \<Rightarrow> message \<Rightarrow> audit_record list \<Rightarrow> message \<times> audit_record list" where
  "audited_send env (Some rid) permitted (ResponseStart status headers) rows =
     (if rid = [] then (ResponseStart status headers, rows)
      else let done = finish_record (ev_finish_ok env) rid status (\<not> permitted) (ev_end env) rows
      in (ResponseStart status (headers @ [(''x-range42-audit-id'', rid),
            (''x-range42-audit-state'', if done = None then ''unconfirmed'' else ''completed'')]),
          case done of None \<Rightarrow> rows | Some rows' \<Rightarrow> rows'))"
| "audited_send env record_id permitted msg rows = (msg, rows)"

fun send_all :: "audit_env \<Rightarrow> string option \<Rightarrow> bool \<Rightarrow> message list \<Rightarrow> audit_record list \<Rightarrow> event list \<times> audit_record list" where
  "send_all env record_id permitted [] rows = ([], rows)"
| "send_all env record_id permitted (m # ms) rows =
     (let (m', rows') = audited_send env record_id permitted m rows;
          (es, rows'') = send_all env record_id permitted ms rows'
      in (Send m' # es, rows''))"

definition guarded_call ::
  "audit_env \<Rightarrow> bearer \<Rightarrow> principal \<Rightarrow> (scope \<Rightarrow> message list) \<Rightarrow> scope \<Rightarrow> bool \<Rightarrow> string option
     \<Rightarrow> audit_record list \<Rightarrow> event list \<times> audit_record list" where
  "guarded_call env bm p app sc permitted record_id rows =
     (if permitted
      then apfst (Cons (Call (Some (p, bm_audit bm)) rows)) (send_all env record_id True (app sc) rows)
      else send_all env record_id False (deny_messages sc 403 ''ACCESS_DENIED'') rows)"

definition bearer_call ::
  "(string \<Rightarrow> string) \<Rightarrow> web_app \<Rightarrow> audit_env \<Rightarrow> bearer \<Rightarrow> (scope \<Rightarrow> message list) \<Rightarrow> scope
     \<Rightarrow> audit_record list \<Rightarrow> event list \<times> audit_record list" where
  "bearer_call sha wa env bm app sc rows =
     (if rq_type sc \<notin> {''http'', ''websocket''} \<or> public_probe sc
      then (Call None rows # map Send (app sc), rows)
      else case authenticate sha bm sc of
        None \<Rightarrow> (map Send (deny_messages sc 401 ''AUTH_REQUIRED''), rows)
      | Some p \<Rightarrow>
          let route = route_template wa sc; method = method_of sc; permitted = allowed p method route
          in if needs_record bm sc
             then (case begin_record (ev_begin_ok env) (ev_id env) (ev_now env) p method route rows of
                     None \<Rightarrow> (map Send (deny_messages sc 503 ''AUDIT_UNAVAILABLE''), rows)
                   | Some rows' \<Rightarrow> guarded_call env bm p app sc permitted (Some (ev_id env)) rows')
             else guarded_call env bm p app sc permitted None rows)"

subsection \<open>What the configuration guarantees\<close>

lemma unique_from_distinct:
  "unique_from acc ps = Some d \<Longrightarrow> distinct (dkeys acc) \<Longrightarrow> distinct (dkeys d)"
  by (induction acc ps rule: unique_from.induct) (auto simp: dkeys_def dset_distinct split: if_splits)

definition principals_ok :: "string list \<times> principal_table \<Rightarrow> bool" where
  "principals_ok acc =
     (set (fst acc) = pr_actor ` snd ` set (snd acc) \<and> distinct (map fst (snd acc))
      \<and> distinct (map (\<lambda>x. pr_actor (snd x)) (snd acc))
      \<and> list_all (\<lambda>(h, p). token_hash h \<and> pr_role p \<in> set roles
           \<and> pr_actor p \<notin> {''shared-operator'', ''development''}) (snd acc))"

lemma dset_fresh: "dget d k = None \<Longrightarrow> dset k v d = d @ [(k, v)]"
  by (induction k v d rule: dset.induct) (auto split: if_splits)

lemma dget_absent: "dget d k = None \<longleftrightarrow> k \<notin> fst ` set d"
  by (simp add: dget_def map_of_eq_None_iff)

lemma add_principalD:
  assumes "add_principal acc row = Inr acc'"
  obtains i r h where "acc' = (i # fst acc, snd acc @ [(h, \<lparr>pr_actor = i, pr_role = r\<rparr>)])"
    and "token_hash h" and "r \<in> set roles" and "i \<notin> {''shared-operator'', ''development''}"
    and "i \<notin> set (fst acc)" and "dget (snd acc) h = None"
proof (cases row)
  case (JObj d)
  obtain i where i: "jget d ''id'' = JStr i" using assms by (cases "jget d ''id''") (auto simp: add_principal_def JObj res_simps)
  obtain r where r: "jget d ''role'' = JStr r" using assms i by (cases "jget d ''role''") (auto simp: add_principal_def JObj res_simps)
  obtain h where h: "jget d ''token_sha256'' = JStr h" using assms i r by (cases "jget d ''token_sha256''") (auto simp: add_principal_def JObj res_simps)
  have facts: "i \<notin> {''shared-operator'', ''development''}" "r \<in> set roles"
    "token_hash h \<and> i \<notin> set (fst acc) \<and> dget (snd acc) h = None"
    "acc' = (i # fst acc, dset h \<lparr>pr_actor = i, pr_role = r\<rparr> (snd acc))"
    using assms by (simp_all add: add_principal_def JObj i r h bindE_Inr assertE_Inr)
  show ?thesis by (rule that [of i h r]) (use facts in \<open>simp_all add: dset_fresh\<close>)
qed (use assms in \<open>simp_all add: add_principal_def\<close>)

lemma add_principal_ok: "add_principal acc row = Inr acc' \<Longrightarrow> principals_ok acc \<Longrightarrow> principals_ok acc'"
  by (erule add_principalD, cases acc) (force simp: principals_ok_def dget_absent)

lemma add_principal_grows: "add_principal acc row = Inr acc' \<Longrightarrow> snd acc' \<noteq> []"
  by (erule add_principalD) simp

lemma principals_of_valueD:
  assumes "principals_of_value st v = Inr ps"
  shows "ps \<noteq> [] \<and> (\<exists>ids. principals_ok (ids, ps))
         \<and> (list_ex (\<lambda>(h, p). pr_role p = ''admin'') ps \<or> st_api_token st \<noteq> [] \<or> st_api_token_file st \<noteq> [])"
proof -
  from assms obtain d where d: "v = JObj d" by (cases v) (auto simp: principals_of_value_def)
  from assms obtain rows where rows: "jget d ''principals'' = JList rows"
    by (cases "jget d ''principals''") (auto simp: d principals_of_value_def res_simps)
  have "rows \<noteq> []" "\<exists>acc. foldE add_principal ([], []) rows = Inr acc \<and> ps = snd acc
      \<and> (list_ex (\<lambda>(h, p). pr_role p = ''admin'') ps \<or> st_api_token st \<noteq> [] \<or> st_api_token_file st \<noteq> [])"
    using assms by (cases rows; fastforce simp: d rows principals_of_value_def bindE_Inr assertE_Inr)+
  then obtain acc where acc: "foldE add_principal ([], []) rows = Inr acc" "ps = snd acc" "rows \<noteq> []"
    "list_ex (\<lambda>(h, p). pr_role p = ''admin'') ps \<or> st_api_token st \<noteq> [] \<or> st_api_token_file st \<noteq> []" by blast
  have ok: "principals_ok acc"
    by (rule foldE_invariant [OF acc(1)]) (auto simp: principals_ok_def [of "([], [])"] intro: add_principal_ok)
  obtain rows' row mid where final: "foldE add_principal ([], []) rows' = Inr mid" "add_principal mid row = Inr acc"
    using acc(1,3) by (cases rows rule: rev_cases) (auto simp: foldE_append res_simps)
  show ?thesis using ok acc(2,4) add_principal_grows [OF final(2)] by (metis prod.collapse)
qed

lemma configured_principalsD:
  assumes "configured_principals st fs = Inr ps" and "st_principals_file st \<noteq> []"
  shows "ps \<noteq> [] \<and> (\<exists>ids. principals_ok (ids, ps))
         \<and> (list_ex (\<lambda>(h, p). pr_role p = ''admin'') ps \<or> st_api_token st \<noteq> [] \<or> st_api_token_file st \<noteq> [])"
proof -
  from assms obtain s where "principals_of_text st s = Inr ps"
    by (auto simp: configured_principals_def res_simps split: sum.splits)
  then show ?thesis by (auto simp: principals_of_text_def res_simps dest: principals_of_valueD)
qed

lemma configured_api_tokenD:
  assumes "configured_api_token st fs = Inr token" and "st_auth_mode st = ''required''"
  shows "(token = None \<and> st_principals_file st \<noteq> []) \<or> (\<exists>t. token = Some t \<and> 32 \<le> length t \<and> \<not> list_ex py_space t)"
  using assms by (auto simp: configured_api_token_def res_simps split: if_splits sum.splits)

lemma hashed_principal_mem:
  assumes "hashed_principal sha ps credential = Some p"
  shows "(sha credential, p) \<in> set ps"
proof -
  have "fold (\<lambda>(e, q) acc. if sha credential = e then Some q else acc) xs acc = Some p \<Longrightarrow>
      acc = Some p \<or> (sha credential, p) \<in> set xs" for xs acc
    by (induction xs arbitrary: acc) (fastforce split: if_splits)+
  then show ?thesis using assms by (auto simp: hashed_principal_def)
qed

subsection \<open>What reaches the application\<close>

lemma send_all_no_call: "Call seen rs \<notin> set (fst (send_all env record_id permitted ms rows))"
  by (induction ms arbitrary: rows) (simp_all add: Let_def split_beta)

lemma call_cases:
  assumes "Call seen rs \<in> set (fst (bearer_call sha wa env bm app sc rows))"
    and "rq_type sc \<in> {''http'', ''websocket''}" and "\<not> public_probe sc"
  obtains p record_id where "authenticate sha bm sc = Some p" and "allowed p (method_of sc) (route_template wa sc)"
    and "seen = Some (p, bm_audit bm)"
    and "bearer_call sha wa env bm app sc rows = guarded_call env bm p app sc True record_id rs"
    and "(if needs_record bm sc
          then record_id = Some (ev_id env)
            \<and> begin_record (ev_begin_ok env) (ev_id env) (ev_now env) p (method_of sc) (route_template wa sc) rows = Some rs
          else record_id = None \<and> rs = rows)"
proof -
  from assms obtain p where p: "authenticate sha bm sc = Some p"
    by (auto simp: bearer_call_def split: option.splits)
  let ?permitted = "allowed p (method_of sc) (route_template wa sc)"
  have guarded: "?permitted \<and> seen = Some (p, bm_audit bm) \<and> rs = rs'"
    if "Call seen rs \<in> set (fst (guarded_call env bm p app sc ?permitted rid rs'))" for rid rs'
    using that by (auto simp: guarded_call_def send_all_no_call split: if_splits)
  have guard: "\<not> (rq_type sc \<notin> {''http'', ''websocket''} \<or> public_probe sc)" using assms(2,3) by simp
  show ?thesis
  proof (cases "needs_record bm sc")
    case True
    with assms(1) p guard obtain rs' where b: "begin_record (ev_begin_ok env) (ev_id env) (ev_now env) p (method_of sc) (route_template wa sc) rows = Some rs'"
      and eq: "bearer_call sha wa env bm app sc rows = guarded_call env bm p app sc ?permitted (Some (ev_id env)) rs'"
      by (auto simp: bearer_call_def Let_def split: option.splits)
    with assms(1) guarded have "?permitted \<and> seen = Some (p, bm_audit bm) \<and> rs = rs'" by metis
    then show ?thesis using that [of p "Some (ev_id env)"] p b eq True by simp
  next
    case False
    with p guard have eq: "bearer_call sha wa env bm app sc rows = guarded_call env bm p app sc ?permitted None rows"
      by (simp add: bearer_call_def Let_def)
    with assms(1) guarded have "?permitted \<and> seen = Some (p, bm_audit bm) \<and> rs = rows" by metis
    then show ?thesis using that [of p None] p eq False by simp
  qed
qed

lemma required_mode_credential:
  assumes "create_bearer st fs = Inr bm" and "st_auth_mode st = ''required''" and "authenticate sha bm sc = Some p"
  obtains credential where "bearer_credential sc = Some credential" and "32 \<le> length credential"
    and "(bm_token bm = Some credential \<and> p = \<lparr>pr_actor = ''shared-operator'', pr_role = ''admin''\<rparr>)
         \<or> (sha credential, p) \<in> set (bm_principals bm)"
proof -
  from assms(1) obtain token ps where cfg: "configured_api_token st fs = Inr token" "configured_principals st fs = Inr ps"
    "bm_token bm = token" "bm_principals bm = ps"
    by (auto simp: create_bearer_def bearer_init_def res_simps)
  have some: "\<not> (token = None \<and> ps = [])"
    using configured_api_tokenD [OF cfg(1) assms(2)] configured_principalsD [OF cfg(2)] by auto
  then obtain credential where c: "bearer_credential sc = Some credential"
    using assms(3) cfg by (auto simp: authenticate_def split: option.splits)
  show ?thesis
  proof (cases "token \<notin> {None, Some []} \<and> Some credential = token")
    case True
    then show ?thesis
      using that [OF c] assms(3) some cfg c configured_api_tokenD [OF cfg(1) assms(2)] by (auto simp: authenticate_def)
  next
    case False
    then have "32 \<le> length credential \<and> hashed_principal sha ps credential = Some p"
      using assms(3) some cfg c by (auto simp: authenticate_def split: if_splits)
    then show ?thesis using that [OF c] hashed_principal_mem cfg(4) by blast
  qed
qed

lemma begin_recordD:
  "begin_record db_ok rid now p method route rows = Some rows' \<Longrightarrow>
     \<exists>row. rows' = rows @ [row] \<and> rid \<notin> au_id ` set rows \<and> au_id row = rid \<and> au_actor row = pr_actor p
       \<and> au_role row = pr_role p \<and> au_method row = method \<and> au_route row = route \<and> au_state row = ''started''"
  by (auto simp: begin_record_def split: if_splits)

text \<open>A completion changes the row of its own id and no other.\<close>

lemma audited_send_rows:
  assumes "audited_send env (Some rid) permitted m (old @ [row]) = (m', rows')" and "rid \<notin> au_id ` set old" and "au_id row = rid"
  shows "\<exists>row'. rows' = old @ [row'] \<and> au_id row' = rid \<and> au_actor row' = au_actor row \<and> au_role row' = au_role row
    \<and> au_method row' = au_method row \<and> au_route row' = au_route row \<and> au_created row' = au_created row"
proof (cases m)
  case (ResponseStart status headers)
  have "map (\<lambda>r. if au_id r = rid then finish_row status (\<not> permitted) (ev_end env) r else r) old = old"
    using assms(2) by (induction old) auto
  then show ?thesis using assms by (auto simp: ResponseStart Let_def finish_record_def finish_row_def split: if_splits)
qed (use assms in auto)

lemma send_all_rows:
  assumes "send_all env (Some rid) permitted ms (old @ [row]) = (es, rows')" and "rid \<notin> au_id ` set old" and "au_id row = rid"
  shows "\<exists>row'. rows' = old @ [row'] \<and> au_id row' = rid \<and> au_actor row' = au_actor row \<and> au_role row' = au_role row
    \<and> au_method row' = au_method row \<and> au_route row' = au_route row \<and> au_created row' = au_created row"
  using assms
proof (induction ms arbitrary: row es)
  case Nil
  then show ?case by auto
next
  case (Cons m ms)
  obtain m' mid where m': "audited_send env (Some rid) permitted m (old @ [row]) = (m', mid)" by force
  obtain row1 where row1: "mid = old @ [row1]" "au_id row1 = rid" "au_actor row1 = au_actor row" "au_role row1 = au_role row"
    "au_method row1 = au_method row" "au_route row1 = au_route row" "au_created row1 = au_created row"
    using audited_send_rows [OF m' Cons.prems(2,3)] by blast
  obtain es1 where "send_all env (Some rid) permitted ms (old @ [row1]) = (es1, rows')"
    using Cons.prems(1) m' row1(1) by (auto simp: Let_def split: prod.splits)
  from Cons.IH [OF this Cons.prems(2) row1(2)] row1 show ?case by metis
qed

subsection \<open>A sample installation\<close>

definition acc_settings :: settings where
  "acc_settings = \<lparr>st_auth_mode = ''required'', st_api_token = ''0123456789abcdef0123456789abcdef'', st_api_token_file = [],
     st_principals_file = ''/etc/range42/principals.json'', st_audit_enabled = False\<rparr>"

definition acc_hash :: string where
  "acc_hash = replicate 64 (CHR ''a'')"

definition acc_operator :: principal where
  "acc_operator = \<lparr>pr_actor = ''op-1'', pr_role = ''operator''\<rparr>"

definition acc_text :: string where
  "acc_text = concat [''{'', dumps_str ''version'', '':1,'', dumps_str ''principals'', '':[{'', dumps_str ''id'', '':'',
     dumps_str ''op-1'', '','', dumps_str ''role'', '':'', dumps_str ''operator'', '','', dumps_str ''token_sha256'', '':'',
     dumps_str acc_hash, ''}]}'']"

definition acc_reader :: path_reader where
  "acc_reader = \<lparr>rd_stat = (\<lambda>_. Inr \<lparr>pi_regular = True, pi_mode = 256, pi_size = 150\<rparr>),
     rd_text = (\<lambda>_. Inr acc_text)\<rparr>"

definition acc_app :: web_app where
  "acc_app = \<lparr>wa_routes = [\<lparr>re_matches = (\<lambda>sc. if rq_path sc = ''/v1/projects/'' then FullMatch else NoMatch),
     re_template = ''/v1/projects/''\<rparr>], wa_redirect_slashes = True\<rparr>"

definition acc_scope :: scope where
  "acc_scope = \<lparr>rq_type = ''http'', rq_path = ''/v1/projects/'', rq_method = Some ''POST'',
     rq_headers = [(''authorization'', ''Bearer '' @ replicate 32 (CHR ''t''))]\<rparr>"

definition acc_env :: audit_env where
  "acc_env = \<lparr>ev_id = ''0001'', ev_now = 10, ev_end = 20, ev_begin_ok = True, ev_finish_ok = True\<rparr>"

definition acc_bearer :: bearer where
  "acc_bearer = \<lparr>bm_token = Some ''0123456789abcdef0123456789abcdef'', bm_principals = [(acc_hash, acc_operator)], bm_audit = True\<rparr>"

definition acc_dict :: dict where
  "acc_dict = [(''id'', JStr ''op-1''), (''role'', JStr ''operator''), (''token_sha256'', JStr acc_hash)]"

lemma acc_parsed:
  "json_loads_hook unique_keys acc_text = Some (JObj [(''version'', JInt 1), (''principals'', JList [JObj acc_dict])])"
  by code_simp

lemma acc_added: "add_principal ([], []) (JObj acc_dict) = Inr ([''op-1''], [(acc_hash, acc_operator)])"
  by code_simp

lemma acc_principals: "configured_principals acc_settings acc_reader = Inr [(acc_hash, acc_operator)]"
  by (simp add: configured_principals_def acc_settings_def acc_reader_def principals_of_text_def acc_parsed
      principals_of_value_def dkeys_def jget_def acc_added insert_commute)

lemma acc_configured: "create_bearer acc_settings acc_reader = Inr acc_bearer"
  unfolding create_bearer_def acc_principals
  by (simp add: configured_api_token_def acc_settings_def acc_bearer_def bearer_init_def py_space_def)

lemma acc_authenticated: "authenticate (\<lambda>_. acc_hash) acc_bearer acc_scope = Some acc_operator"
  by code_simp

lemma acc_allowed: "allowed acc_operator ''POST'' ''/v1/projects/''"
  by (simp add: allowed_def acc_operator_def operator_writes_def)

definition acc_row :: audit_record where
  "acc_row = \<lparr>au_id = ''0001'', au_actor = ''op-1'', au_role = ''operator'', au_method = ''POST'', au_route = ''/v1/projects/'',
     au_state = ''started'', au_status = None, au_created = 10, au_finished = None\<rparr>"

lemma acc_call:
  "bearer_call (\<lambda>_. acc_hash) acc_app acc_env acc_bearer (\<lambda>_. [ResponseStart 201 []]) acc_scope [] =
     ([Call (Some (acc_operator, True)) [acc_row],
       Send (ResponseStart 201 [(''x-range42-audit-id'', ''0001''), (''x-range42-audit-state'', ''completed'')])],
      [finish_row 201 False 20 acc_row])"
proof -
  have route: "route_template acc_app acc_scope = ''/v1/projects/''"
    by (simp add: route_template_def acc_app_def acc_scope_def)
  have verb: "method_of acc_scope = ''POST''" by (simp add: method_of_def acc_scope_def)
  have kind: "rq_type acc_scope = ''http''" "\<not> public_probe acc_scope" "needs_record acc_bearer acc_scope"
    by (simp_all add: acc_scope_def public_probe_def needs_record_def method_of_def acc_bearer_def)
  have began: "begin_record True ''0001'' 10 acc_operator ''POST'' ''/v1/projects/'' [] = Some [acc_row]"
    by (simp add: begin_record_def acc_row_def acc_operator_def)
  have env: "ev_id acc_env = ''0001''" "ev_now acc_env = 10" "ev_end acc_env = 20" "ev_begin_ok acc_env" "ev_finish_ok acc_env"
    by (simp_all add: acc_env_def)
  have fields: "bm_audit acc_bearer" "au_id acc_row = ''0001''" by (simp_all add: acc_bearer_def acc_row_def)
  show ?thesis
    using acc_allowed kind
    by (simp add: bearer_call_def acc_authenticated route verb began guarded_call_def env fields finish_record_def)
qed

subsection \<open>The properties of the middleware\<close>



text \<open>
  With the audit on, an HTTP request other than \<open>GET\<close>, \<open>HEAD\<close> and \<open>OPTIONS\<close> that reaches the
  application finds its own record committed in the state \<open>started\<close>, under the identity, the
  method and the route template it was authorised for; however the request ends, that record
  stays, with these fields, and no earlier record is changed.
\<close>

theorem mutations_are_recorded_first:
  assumes "needs_record bm sc" and "\<not> public_probe sc"
    and "bearer_call sha wa env bm app sc rows = (es, rows')" and "Call (Some (p, audited)) rs \<in> set es"
  shows "\<exists>row row'. rs = rows @ [row] \<and> au_state row = ''started'' \<and> rows' = rows @ [row']
    \<and> au_id row' = ev_id env \<and> au_id row = ev_id env \<and> ev_id env \<notin> au_id ` set rows
    \<and> (au_actor row, au_role row, au_method row, au_route row) = (pr_actor p, pr_role p, method_of sc, route_template wa sc)
    \<and> (au_actor row', au_role row', au_method row', au_route row') = (pr_actor p, pr_role p, method_of sc, route_template wa sc)"
proof -
  have "rq_type sc \<in> {''http'', ''websocket''}" using assms(1) by (simp add: needs_record_def)
  from call_cases [OF _ this assms(2), of "Some (p, audited)" rs sha wa env bm app rows] assms(1,3,4)
  obtain record_id where r: "begin_record (ev_begin_ok env) (ev_id env) (ev_now env) p (method_of sc) (route_template wa sc) rows = Some rs"
    "bearer_call sha wa env bm app sc rows = guarded_call env bm p app sc True (Some (ev_id env)) rs"
    by auto
  obtain row where row: "rs = rows @ [row]" "ev_id env \<notin> au_id ` set rows" "au_id row = ev_id env" "au_actor row = pr_actor p"
    "au_role row = pr_role p" "au_method row = method_of sc" "au_route row = route_template wa sc" "au_state row = ''started''"
    using begin_recordD [OF r(1)] by blast
  obtain es1 where "send_all env (Some (ev_id env)) True (app sc) (rows @ [row]) = (es1, rows')"
    using r(2) assms(3) row(1) by (cases "send_all env (Some (ev_id env)) True (app sc) rs") (auto simp: guarded_call_def)
  from send_all_rows [OF this row(2,3)] row show ?thesis by auto
qed

theorem mutations_are_recorded_first_witness:
  "\<exists>row row'. [acc_row] = ([] :: audit_record list) @ [row] \<and> au_state row = ''started'' \<and> [finish_row 201 False 20 acc_row] = [] @ [row']
    \<and> au_id row' = ev_id acc_env \<and> au_id row = ev_id acc_env \<and> ev_id acc_env \<notin> au_id ` set ([] :: audit_record list)
    \<and> (au_actor row, au_role row, au_method row, au_route row) =
       (pr_actor acc_operator, pr_role acc_operator, method_of acc_scope, route_template acc_app acc_scope)
    \<and> (au_actor row', au_role row', au_method row', au_route row') =
       (pr_actor acc_operator, pr_role acc_operator, method_of acc_scope, route_template acc_app acc_scope)"
  by (rule mutations_are_recorded_first [where audited = True, OF _ _ acc_call])
     (simp_all add: needs_record_def acc_bearer_def method_of_def acc_scope_def public_probe_def)

end
