(* ===== verification/Runtime_Ops.thy ===== *)
theory Runtime_Ops
  imports Runtime_Firewall Access
begin

text \<open>
  Desired-state operations on a deployment: the requests (\<open>app/schemas/v1/runtime.py\<close>), their
  plan from the observed state (\<open>app/core/runtime_operations.py\<close>), the review of shared
  operations (\<open>app/core/runtime_review.py\<close>), the verification that precedes a run and the order of its
  plays (\<open>app/core/runtime_runner.py\<close>), and the handlers of
  \<open>app/routes/v1/deployments/runtime.py\<close>. The checkout of the pinned scenario is a parameter, like the
  digests of the installed trees and the SHA-256 of a reviewed value; the texts of the Ansible plays
  are not modelled, only which plays a run has and in which order.
\<close>

subsection \<open>Requests\<close>

datatype runtime_request =
    VmFirewall bool int
  | ScenarioFirewall bool
  | SdnSnat bool string
  | HostFirewall bool
  | RuntimeObserve
  | SdnNetwork net_action string
  | FirewallChange fw_request

record op_payload =
  oq_request :: runtime_request
  oq_acknowledged :: bool
  oq_fingerprint :: "string option"

fun request_kind :: "runtime_request \<Rightarrow> string" where
  "request_kind (VmFirewall on i) = ''vm_firewall''"
| "request_kind (ScenarioFirewall on) = ''scenario_firewall''"
| "request_kind (SdnSnat on v) = ''sdn_snat''"
| "request_kind (HostFirewall on) = ''host_firewall''"
| "request_kind RuntimeObserve = ''runtime_observe''"
| "request_kind (SdnNetwork act v) = ''sdn_network''"
| "request_kind (FirewallChange (OfRule sc c)) = ''firewall_rule''"
| "request_kind (FirewallChange (OfAlias sc c)) = ''firewall_alias''"

fun request_ok :: "runtime_request \<Rightarrow> bool" where
  "request_ok (VmFirewall on i) = (100 \<le> i \<and> i \<le> 999999999)"
| "request_ok (SdnSnat on v) = sdn_name v"
| "request_ok (SdnNetwork act v) = sdn_name v"
| "request_ok (FirewallChange q) = fw_request_ok q"
| "request_ok _ = True"

definition admin_operations :: "string list" where
  "admin_operations = [''host_firewall'', ''sdn_network'', ''firewall_alias'', ''firewall_rule'']"

abbreviation reviewed_operations :: "string list" where
  "reviewed_operations \<equiv> admin_operations"

text \<open>Only a reviewed operation has a fingerprint; those and a SNAT change have to be acknowledged.\<close>

definition payload_ok :: "op_payload \<Rightarrow> bool" where
  "payload_ok p =
     (let kind = request_kind (oq_request p) in
      request_ok (oq_request p)
      \<and> (kind \<in> set (''sdn_snat'' # admin_operations) \<longrightarrow> oq_acknowledged p)
      \<and> (case oq_fingerprint p of None \<Rightarrow> True | Some s \<Rightarrow> kind \<in> set admin_operations \<and> token_hash s))"

subsection \<open>The installed runtime\<close>

definition native_operations :: "string list" where
  "native_operations = [''vm_firewall'', ''scenario_firewall'', ''sdn_snat'', ''host_firewall'', ''runtime_observe'',
     ''sdn_network'', ''firewall_alias'', ''firewall_rule'']"

definition legacy_operations :: "string list" where
  "legacy_operations = [''vm_firewall'', ''scenario_firewall'', ''sdn_snat'']"

definition native_contract_name :: string where
  "native_contract_name = ''native-sdn-20260921''"

definition reviewed_trees :: "(string \<times> string) list" where
  "reviewed_trees = [(''56f8801125eeaa75737535ff1b9aae7d2d80741850b7381b7bc818e40cdfa0cb'',
                      ''39d07c0541b24666a1396b9f8c6f9f5f50861d33060bd7e19bc0bf4d01530095'')]"

text \<open>
  The directories of the installed runtime: whether a path exists, is a directory, the digest of
  its tree (or the error \<open>tree_digest\<close> raises) and its \<open>runtime-capabilities.json\<close>. A profile
  is what \<open>runtime_snapshot\<close> verified.
\<close>

record runtime_dir =
  rd_exists :: bool
  rd_is_dir :: bool
  rd_digest :: "string res"
  rd_capabilities :: "manifest_file option"

record runtime_profile =
  rp_environment :: "(string \<times> string) list"
  rp_components :: "(string \<times> string \<times> string) list"
  rp_fingerprint :: string

record op_runtime =
  or_fingerprint :: string
  or_dependencies :: "(string \<times> string \<times> string) list"
  or_contract :: "string option"
  or_operations :: "string list"

definition role_dirs :: "runtime_profile \<Rightarrow> string list" where
  "role_dirs p =
     map (\<lambda>d. d @ ''/range42-ansible_roles-proxmox_controller'')
       (filter (\<lambda>d. d \<noteq> [])
          (split_on (CHR '':'') (case dget (rp_environment p) ''ANSIBLE_ROLES_PATH'' of None \<Rightarrow> [] | Some s \<Rightarrow> s)))"

text \<open>A capability file that is missing, a link, too long, or no JSON is an error that the callers catch.\<close>

definition read_capabilities :: "manifest_file option \<Rightarrow> json res" where
  "read_capabilities f =
     bindE (of_opt OSError f) (\<lambda>m.
     bindE (assertE (mf_inside m \<and> mf_size m \<le> 8192) ValueError) (\<lambda>_.
       of_opt ValueError (json_loads (mf_text m))))"

definition controller_exact_snat :: "(string \<Rightarrow> runtime_dir) \<Rightarrow> runtime_profile \<Rightarrow> bool" where
  "controller_exact_snat dirs p =
     (case filter (\<lambda>d. rd_is_dir (dirs d)) (role_dirs p) of
        [] \<Rightarrow> False
      | role # rest \<Rightarrow>
          (case read_capabilities (rd_capabilities (dirs role)) of
             Inr (JObj c) \<Rightarrow> json_eq_int (jget c ''version'') 1
               \<and> jget c ''snat_rule_matching'' = JStr ''exact_source_nat_target_v1''
           | _ \<Rightarrow> False))"

definition native_contract :: "(string \<Rightarrow> runtime_dir) \<Rightarrow> runtime_profile \<Rightarrow> string option" where
  "native_contract dirs p =
     (case dget (rp_environment p) ''RANGE42_BUNDLE_DIR'' of
        None \<Rightarrow> None
      | Some bundles \<Rightarrow>
          (case filter (\<lambda>d. rd_exists (dirs d)) (role_dirs p) of
             [] \<Rightarrow> None
           | role # rest \<Rightarrow>
               (case (rd_digest (dirs bundles), rd_digest (dirs role)) of
                  (Inr a, Inr b) \<Rightarrow> if (a, b) \<in> set reviewed_trees then Some native_contract_name else None
                | _ \<Rightarrow> None)))"

definition capable :: "(string \<Rightarrow> runtime_dir) \<Rightarrow> runtime_profile \<Rightarrow> dict \<Rightarrow> json list \<Rightarrow> string \<Rightarrow> bool" where
  "capable dirs p c declared kind =
     (JStr kind \<in> set declared
      \<and> (kind = ''sdn_snat'' \<longrightarrow> jget c ''snat_reconciles_all_declared_subnets'' = JBool True \<and> controller_exact_snat dirs p))"

definition capability_missing :: exc where
  "capability_missing = op_blocked ''RUNTIME_CAPABILITY_MISSING''"

definition operation_profile :: "(string \<Rightarrow> runtime_dir) \<Rightarrow> runtime_profile res \<Rightarrow> string \<Rightarrow> op_runtime res" where
  "operation_profile dirs snapshot kind =
     bindE snapshot (\<lambda>p.
     let offered = (\<lambda>contract ops. \<lparr>or_fingerprint = rp_fingerprint p, or_dependencies = rp_components p, or_contract = contract,
                                     or_operations = ops\<rparr>) in
     if native_contract dirs p \<noteq> None \<and> kind \<in> set native_operations
     then Inr (offered (native_contract dirs p) native_operations)
     else if kind \<notin> set legacy_operations then Inl capability_missing
     else bindE (of_opt KeyError (dget (rp_environment p) ''RANGE42_BUNDLE_DIR'')) (\<lambda>bundles.
       case read_capabilities (rd_capabilities (dirs bundles)) of
         Inr (JObj c) \<Rightarrow>
           (case jget c ''operations'' of
              JList declared \<Rightarrow>
                if json_eq_int (jget c ''version'') 1 \<and> capable dirs p c declared kind
                then Inr (offered None (filter (capable dirs p c declared) legacy_operations))
                else Inl capability_missing
            | _ \<Rightarrow> Inl capability_missing)
       | _ \<Rightarrow> Inl capability_missing))"

subsection \<open>Planning\<close>

record bundle_plan =
  bp_bundle :: string
  bp_variables :: dict
  bp_vmids :: "int list"
  bp_missing :: "int list"
  bp_before :: "(bool \<times> bool) option"
  bp_subnet :: "string option"
  bp_read_only :: bool

datatype op_plan = BundlePlan bundle_plan | NetworkPlan network_change | FirewallPlan fw_plan

definition plain_plan :: "string \<Rightarrow> bundle_plan" where
  "plain_plan b = \<lparr>bp_bundle = b, bp_variables = [], bp_vmids = [], bp_missing = [], bp_before = None, bp_subnet = None,
                   bp_read_only = False\<rparr>"

record op_state =
  os_runtime :: runtime_state
  os_lifecycle :: "lifecycle option"
  os_control :: "(fw_rule list \<times> fw_alias list) option"

definition switched :: "bool \<Rightarrow> string" where
  "switched on = (if on then ''enable'' else ''disable'')"

definition plan_host :: "bool \<Rightarrow> runtime_state \<Rightarrow> op_plan res" where
  "plan_host on s =
     (case (fo_datacenter (rs_firewall s), fo_node (rs_firewall s)) of
        (Some a, Some b) \<Rightarrow>
          if fo_errors (rs_firewall s) then Inl op_refused
          else Inr (BundlePlan ((plain_plan (''firewall/in_proxmox/firewall.'' @ switched on @ ''.datacenter_and_nodes''))
                     \<lparr>bp_before := Some (a, b)\<rparr>))
      | _ \<Rightarrow> Inl op_refused)"

definition snat_subnet_ok :: "string \<Rightarrow> bool" where
  "snat_subnet_ok s = (s \<noteq> [] \<and> list_all (\<lambda>c. is_alnum c \<or> c \<in> set ''_.:-'') s)"

definition plan_snat :: "bool \<Rightarrow> string \<Rightarrow> runtime_state \<Rightarrow> op_plan res" where
  "plan_snat on vnet s =
     (if so_pending (rs_sdn s) \<noteq> Some False \<or> so_errors (rs_sdn s) then Inl (op_blocked ''SDN_PENDING_CHANGES'')
      else case List.find (\<lambda>n. no_vnet n = vnet) (rs_networks s) of
        None \<Rightarrow> Inl op_refused
      | Some n \<Rightarrow>
          (case no_subnet_id n of
             JStr i \<Rightarrow>
               if no_matches n \<and> no_active n \<and> no_snat n \<noteq> None \<and> snat_subnet_ok i
               then Inr (BundlePlan ((plain_plan (''proxmox/sdn_network.internet_'' @ (if on then ''on'' else ''off'')))
                          \<lparr>bp_variables := [(''BUNDLE_SDN_SUBNET_ID'', JStr i)], bp_subnet := Some (no_subnet n)\<rparr>))
               else Inl op_refused
           | _ \<Rightarrow> Inl op_refused))"

fun enabled_of :: "runtime_request \<Rightarrow> bool option" where
  "enabled_of (VmFirewall on i) = Some on"
| "enabled_of (ScenarioFirewall on) = Some on"
| "enabled_of (SdnSnat on v) = Some on"
| "enabled_of (HostFirewall on) = Some on"
| "enabled_of _ = None"

text \<open>The guests a request selects, with the variables that select them.\<close>

definition selected_guests :: "runtime_request \<Rightarrow> guest_obs list \<Rightarrow> (guest_obs list \<times> dict \<times> string) res" where
  "selected_guests q gs =
     (case q of
        VmFirewall on i \<Rightarrow>
          (case filter (\<lambda>g. go_vmid g = i) gs of
             [g] \<Rightarrow> if go_status g = Owned then Inr ([g], [(''BUNDLE_VM_ID'', JInt i)], ''vm'') else Inl op_refused
           | _ \<Rightarrow> Inl op_refused)
      | _ \<Rightarrow> if list_all (\<lambda>g. go_status g \<in> {Owned, Missing}) gs then Inr (gs, [], ''vms'') else Inl op_refused)"

definition plan_guests :: "runtime_request \<Rightarrow> guest_obs list \<Rightarrow> op_plan res" where
  "plan_guests q all_guests =
     bindE (selected_guests q all_guests) (\<lambda>(gs, vars, noun).
     let own = filter (\<lambda>g. go_status g = Owned) gs in
     bindE (assertE (own \<noteq> []) op_refused) (\<lambda>_.
     bindE (of_opt AttributeError (enabled_of q)) (\<lambda>on.
     bindE (assertE (\<not> on \<or> list_all (\<lambda>g. go_nics g \<noteq> []) own) op_refused) (\<lambda>_.
       Inr (BundlePlan ((plain_plan (''firewall/in_proxmox/firewall.'' @ switched on @ ''.'' @ noun))
             \<lparr>bp_variables := vars, bp_vmids := map go_vmid own,
              bp_missing := map go_vmid (filter (\<lambda>g. go_status g = Missing) gs)\<rparr>))))))"

definition plan_operation :: "runtime_request \<Rightarrow> op_state \<Rightarrow> op_plan res" where
  "plan_operation q s =
     (case q of
        SdnNetwork act v \<Rightarrow>
          bindE (of_opt KeyError (os_lifecycle s)) (\<lambda>lc.
          bindE (network_change_plan act v lc) (\<lambda>ch. Inr (NetworkPlan ch)))
      | RuntimeObserve \<Rightarrow> Inr (BundlePlan ((plain_plan ''firewall/in_proxmox/firewall.report.status'')\<lparr>bp_read_only := True\<rparr>))
      | HostFirewall on \<Rightarrow> plan_host on (os_runtime s)
      | SdnSnat on v \<Rightarrow> plan_snat on v (os_runtime s)
      | _ \<Rightarrow> plan_guests q (rs_vms (os_runtime s)))"

text \<open>The files of the pinned scenario: \<open>scenario_vms.json\<close> and the network plan.\<close>

record scenario_files =
  sf_vms :: "manifest_file option"
  sf_networks :: "manifest_file option option"

definition read_op_state :: "http_get \<Rightarrow> scenario_files \<Rightarrow> proxmox_host \<Rightarrow> string \<Rightarrow> runtime_request \<Rightarrow> op_state res" where
  "read_op_state get fs h dep q =
     bindE (read_runtime_state get (sf_vms fs) (sf_networks fs) h dep) (\<lambda>s.
     case q of
       SdnNetwork act v \<Rightarrow>
         bindE (read_network_lifecycle get (sf_vms fs) (sf_networks fs) h dep) (\<lambda>lc.
           Inr \<lparr>os_runtime = s, os_lifecycle = Some lc, os_control = None\<rparr>)
     | _ \<Rightarrow> Inr \<lparr>os_runtime = s, os_lifecycle = None, os_control = None\<rparr>)"

definition current_plan :: "http_get \<Rightarrow> scenario_files \<Rightarrow> proxmox_host \<Rightarrow> string \<Rightarrow> runtime_request \<Rightarrow> op_plan res" where
  "current_plan get fs h dep q =
     (case q of
        FirewallChange c \<Rightarrow> bindE (firewall_plan get h (sf_vms fs) (sf_networks fs) dep c) (\<lambda>p. Inr (FirewallPlan p))
      | _ \<Rightarrow> bindE (read_op_state get fs h dep q) (plan_operation q))"

subsection \<open>Review\<close>

record target =
  tg_url :: string
  tg_node :: string

definition target_identity :: "proxmox_host option \<Rightarrow> target res" where
  "target_identity host =
     (case host of
        None \<Rightarrow> Inl (op_blocked ''RUNTIME_TARGET_CHANGED'')
      | Some h \<Rightarrow> Inr \<lparr>tg_url = rstrip_slash (ph_api_url h), tg_node = ph_node_name h\<rparr>)"

record runtime_operation =
  oo_payload :: op_payload
  oo_project_sha :: "string option"
  oo_host :: string
  oo_target :: target
  oo_runtime :: op_runtime
  oo_role :: "string option"
  oo_actor :: "string option"

definition authorize_operation :: "string \<Rightarrow> principal option \<Rightarrow> unit res" where
  "authorize_operation kind p =
     (if kind \<in> set admin_operations \<and> (case p of None \<Rightarrow> True | Some x \<Rightarrow> pr_role x \<noteq> ''admin'')
      then api_fail 403 ''forbidden'' ''RUNTIME_ADMIN_REQUIRED'' else Inr ())"

text \<open>What a review binds; its SHA-256 is the parameter \<open>fp\<close>.\<close>

record review =
  rw_project_sha :: "string option"
  rw_host :: string
  rw_target :: target
  rw_runtime :: op_runtime
  rw_request :: runtime_request
  rw_acknowledged :: bool
  rw_plan :: op_plan

definition review_of :: "runtime_operation \<Rightarrow> op_plan \<Rightarrow> review" where
  "review_of op p =
     \<lparr>rw_project_sha = oo_project_sha op, rw_host = oo_host op, rw_target = oo_target op, rw_runtime = oo_runtime op,
      rw_request = oq_request (oo_payload op), rw_acknowledged = oq_acknowledged (oo_payload op), rw_plan = p\<rparr>"

definition review_fingerprint :: "(review \<Rightarrow> string) \<Rightarrow> runtime_operation \<Rightarrow> op_plan \<Rightarrow> string" where
  "review_fingerprint fp op p = fp (review_of op p)"

definition is_reviewed :: "runtime_request \<Rightarrow> bool" where
  "is_reviewed q = (request_kind q \<in> set reviewed_operations)"

definition verify_review :: "(review \<Rightarrow> string) \<Rightarrow> runtime_operation \<Rightarrow> op_plan \<Rightarrow> unit res" where
  "verify_review fp op p =
     (if \<not> is_reviewed (oq_request (oo_payload op)) then Inr ()
      else if oo_role op \<noteq> Some ''admin'' then Inl (op_blocked ''RUNTIME_ADMIN_REQUIRED'')
      else if \<not> str_given (oq_fingerprint (oo_payload op)) then Inl (op_blocked ''RUNTIME_REVIEW_REQUIRED'')
      else if oq_fingerprint (oo_payload op) \<noteq> Some (review_fingerprint fp op p) then Inl (op_blocked ''RUNTIME_REVIEW_CHANGED'')
      else Inr ())"

subsection \<open>Verification before a run\<close>

record verified_plan =
  vp_plan :: op_plan
  vp_contract :: "string option"

definition plan_vmids :: "runtime_request \<Rightarrow> op_plan \<Rightarrow> int list" where
  "plan_vmids q p =
     (case p of
        BundlePlan b \<Rightarrow> bp_vmids b
      | NetworkPlan c \<Rightarrow> []
      | FirewallPlan f \<Rightarrow>
          (case q of FirewallChange c \<Rightarrow> (case request_scope c of OnVm i \<Rightarrow> [i] | _ \<Rightarrow> []) | _ \<Rightarrow> []))"

text \<open>The overrides are parsed before the guests are checked, and read only when there is one.\<close>

definition vmids_block :: "string option \<Rightarrow> int list \<Rightarrow> bool res" where
  "vmids_block overrides_text ids =
     bindE (case overrides_text of
              None \<Rightarrow> Inr ()
            | Some t \<Rightarrow> if t = [] then Inr () else bindE (of_opt ValueError (json_loads t)) (\<lambda>_. Inr ())) (\<lambda>_.
     if ids = [] then Inr False
     else bindE (host_overrides overrides_text) (\<lambda>ov. Inr (pc_result (check_vmids ids ov) = Block)))"

definition check_plan_vmids :: "proxmox_host \<Rightarrow> int list \<Rightarrow> unit res" where
  "check_plan_vmids h ids =
     bindE (vmids_block (ph_protected_json h) ids) (\<lambda>blocks. if blocks then Inl (op_blocked ''VMID_PROTECTED'') else Inr ())"

text \<open>What the verification reads of the outside world.\<close>

record op_world =
  ow_get :: http_get
  ow_dirs :: "string \<Rightarrow> runtime_dir"
  ow_snapshot :: "runtime_profile res"
  ow_fp :: "review \<Rightarrow> string"

definition same_target :: "deployment \<Rightarrow> string option \<Rightarrow> runtime_operation \<Rightarrow> proxmox_host option \<Rightarrow> proxmox_host res" where
  "same_target dep att_sha op host =
     (case host of
        None \<Rightarrow> Inl (op_blocked ''RUNTIME_TARGET_CHANGED'')
      | Some h \<Rightarrow>
          if oo_project_sha op = dep_project_sha dep \<and> att_sha = dep_project_sha dep
             \<and> oo_host op = dep_target_host_id dep \<and> ph_id h = dep_target_host_id dep
          then Inr h else Inl (op_blocked ''RUNTIME_TARGET_CHANGED''))"

text \<open>
  \<open>_verified_plan\<close>: \<open>host\<close> is the row the caller read, \<open>fresh\<close> the row read again, and \<open>fs\<close> the
  scenario's files.
\<close>

definition verified_plan_of ::
    "op_world \<Rightarrow> scenario_files \<Rightarrow> deployment \<Rightarrow> string option \<Rightarrow> runtime_operation option \<Rightarrow> proxmox_host option
       \<Rightarrow> proxmox_host option \<Rightarrow> verified_plan res" where
  "verified_plan_of w fs dep att_sha operation host fresh =
     bindE (of_opt (op_blocked ''RUNTIME_TARGET_CHANGED'') operation) (\<lambda>op.
     bindE (same_target dep att_sha op host) (\<lambda>h.
     bindE (target_identity (Some h)) (\<lambda>t.
     bindE (assertE (oo_target op = t) (op_blocked ''RUNTIME_TARGET_CHANGED'')) (\<lambda>_.
     bindE (target_identity fresh) (\<lambda>t'.
     bindE (assertE (oo_target op = t') (op_blocked ''RUNTIME_TARGET_CHANGED'')) (\<lambda>_.
     let q = oq_request (oo_payload op) in
     bindE (operation_profile (ow_dirs w) (ow_snapshot w) (request_kind q)) (\<lambda>prof.
     bindE (assertE (prof = oo_runtime op) (op_blocked ''RUNTIME_REVISION_CHANGED'')) (\<lambda>_.
     bindE (current_plan (ow_get w) fs h (dep_id dep) q) (\<lambda>p.
     bindE (verify_review (ow_fp w) op p) (\<lambda>_.
     bindE (check_plan_vmids h (plan_vmids q p)) (\<lambda>_.
       Inr \<lparr>vp_plan = p, vp_contract = (if str_given (or_contract prof) then or_contract prof else None)\<rparr>)))))))))))"

subsection \<open>The run\<close>

datatype play =
    OwnershipGuard "runtime_target list" string
  | SshNodeGuard
  | NatGuard
  | LifecycleGuard
  | FirewallChangePlay api_change
  | RecordNat
  | PreserveNat string
  | BundleImport string dict
  | NatObservation

record runtime_run =
  rr_plan :: verified_plan
  rr_targets :: "runtime_target list"
  rr_own_secrets :: bool
  rr_plays :: "play list"

definition plan_steps :: "op_plan \<Rightarrow> (string \<times> dict) list" where
  "plan_steps p =
     (case p of
        BundlePlan b \<Rightarrow> [(bp_bundle b, bp_variables b)]
      | NetworkPlan c \<Rightarrow> map (\<lambda>s. (st_bundle s, st_values s)) (nc_steps c)
      | FirewallPlan f \<Rightarrow> [])"

text \<open>\<open>RuntimeRun.variables\<close>.\<close>

definition add_variable :: "dict \<Rightarrow> string \<times> json \<Rightarrow> dict res" where
  "add_variable acc = (\<lambda>(k, v).
     if dget acc k \<noteq> None \<and> dget acc k \<noteq> Some v then Inl op_refused else Inr (dset k v acc))"

definition run_variables :: "op_plan \<Rightarrow> dict res" where
  "run_variables p = foldE add_variable [] (concat (map snd (plan_steps p)))"

definition import_step :: "(string \<Rightarrow> bool) \<Rightarrow> string \<times> dict \<Rightarrow> play res" where
  "import_step installed = (\<lambda>(bundle, vars).
     if installed bundle then Inr (BundleImport bundle vars) else Inl capability_missing)"

definition scoped_natively :: "string list" where
  "scoped_natively = [''sdn_network'', ''host_firewall'', ''firewall_rule'', ''firewall_alias'', ''runtime_observe'']"

definition nat_operations :: "string list" where
  "nat_operations = [''sdn_snat'', ''runtime_observe'', ''sdn_network'']"

definition change_plays :: "op_plan \<Rightarrow> play list \<Rightarrow> play list" where
  "change_plays p imports =
     (case p of
        FirewallPlan f \<Rightarrow> [LifecycleGuard, FirewallChangePlay (fp_change f)]
      | NetworkPlan c \<Rightarrow> [LifecycleGuard, RecordNat] @ imports @ [PreserveNat (vn_subnet (nc_network c))]
      | BundlePlan b \<Rightarrow> imports)"

definition run_plays :: "string \<Rightarrow> string \<Rightarrow> verified_plan \<Rightarrow> runtime_target list \<Rightarrow> play list \<Rightarrow> play list" where
  "run_plays deployment_id kind v targets imports =
     (let native = vp_contract v \<noteq> None in
      (if targets = [] then [] else [OwnershipGuard targets deployment_id])
      @ (if kind \<in> set nat_operations then SshNodeGuard # (if native then [NatGuard] else []) else [])
      @ change_plays (vp_plan v) imports
      @ (if native \<and> kind \<in> set nat_operations then [NatObservation] else []))"

definition prepare_runtime_run ::
    "op_world \<Rightarrow> (string \<Rightarrow> bool) option \<Rightarrow> scenario_files \<Rightarrow> deployment \<Rightarrow> string option \<Rightarrow> runtime_operation option
       \<Rightarrow> proxmox_host option \<Rightarrow> proxmox_host option \<Rightarrow> runtime_run res" where
  "prepare_runtime_run w installed fs dep att_sha operation host fresh =
     bindE (verified_plan_of w fs dep att_sha operation host fresh) (\<lambda>v.
     bindE (of_opt KeyError installed) (\<lambda>inst.
     bindE (mapE (import_step inst) (plan_steps (vp_plan v))) (\<lambda>imports.
     bindE (runtime_targets (sf_vms fs) (sf_networks fs)) (\<lambda>(vms, declared).
     bindE (of_opt AttributeError operation) (\<lambda>op.
     let q = oq_request (oo_payload op); kind = request_kind q;
         targets = filter (\<lambda>t. rt_vmid t \<in> set (plan_vmids q (vp_plan v))) vms
     in Inr \<lparr>rr_plan = v, rr_targets = targets,
             rr_own_secrets = (vp_contract v \<noteq> None \<and> kind \<in> set scoped_natively),
             rr_plays = run_plays (dep_id dep) kind v targets imports\<rparr>)))))"

definition recheck_runtime_run ::
    "op_world \<Rightarrow> scenario_files \<Rightarrow> deployment \<Rightarrow> string option \<Rightarrow> runtime_operation option \<Rightarrow> proxmox_host option
       \<Rightarrow> proxmox_host option \<Rightarrow> runtime_run \<Rightarrow> unit res" where
  "recheck_runtime_run w fs dep att_sha operation host fresh r =
     bindE (verified_plan_of w fs dep att_sha operation host fresh) (\<lambda>v.
       if v \<noteq> rr_plan r then Inl (op_blocked ''RUNTIME_TARGET_CHANGED'') else Inr ())"

subsection \<open>The handlers\<close>

definition runtime_deployment :: "store \<Rightarrow> string \<Rightarrow> deployment res" where
  "runtime_deployment db i =
     (case get_deployment db i of
        None \<Rightarrow> api_fail 404 ''not_found'' ''NOT_FOUND''
      | Some d \<Rightarrow>
          if \<not> str_given (dep_project_sha d) \<or> dep_scenario_label d = ''_universal'' then Inl op_refused else Inr d)"

definition target_host :: "store \<Rightarrow> deployment \<Rightarrow> proxmox_host option" where
  "target_host db d = map_option proxmox_host.truncate (get_host db (dep_target_host_id d))"

definition new_operation_for :: "op_payload \<Rightarrow> deployment \<Rightarrow> proxmox_host option \<Rightarrow> op_runtime \<Rightarrow> runtime_operation res" where
  "new_operation_for p d host prof =
     bindE (target_identity host) (\<lambda>t.
       Inr \<lparr>oo_payload = p, oo_project_sha = dep_project_sha d, oo_host = dep_target_host_id d, oo_target = t,
            oo_runtime = prof, oo_role = None, oo_actor = None\<rparr>)"

text \<open>The operation a request asks for, its deployment and the host that is read; then its plan over a fresh checkout.\<close>

definition requested_operation :: "op_world \<Rightarrow> store \<Rightarrow> string \<Rightarrow> op_payload \<Rightarrow> (deployment \<times> proxmox_host \<times> runtime_operation) res" where
  "requested_operation w db i p =
     bindE (runtime_deployment db i) (\<lambda>d.
     bindE (operation_profile (ow_dirs w) (ow_snapshot w) (request_kind (oq_request p))) (\<lambda>prof.
     bindE (new_operation_for p d (target_host db d) prof) (\<lambda>op.
     bindE (of_opt (op_blocked ''RUNTIME_TARGET_CHANGED'') (target_host db d)) (\<lambda>h. Inr (d, h, op)))))"

definition checkout_plan :: "op_world \<Rightarrow> (deployment \<Rightarrow> scenario_files res) \<Rightarrow> deployment \<Rightarrow> proxmox_host \<Rightarrow> runtime_operation \<Rightarrow> op_plan res" where
  "checkout_plan w checkout d h op =
     bindE (checkout d) (\<lambda>fs. current_plan (ow_get w) fs h (dep_id d) (oq_request (oo_payload op)))"

definition preview_operation ::
    "op_world \<Rightarrow> (deployment \<Rightarrow> scenario_files res) \<Rightarrow> store \<Rightarrow> principal option \<Rightarrow> string \<Rightarrow> op_payload
       \<Rightarrow> (runtime_operation \<times> op_plan \<times> string) res" where
  "preview_operation w checkout db who i p =
     bindE (authorize_operation (request_kind (oq_request p)) who) (\<lambda>_.
     bindE (requested_operation w db i p) (\<lambda>(d, h, op).
     bindE (checkout_plan w checkout d h op) (\<lambda>pl.
       Inr (op, pl, review_fingerprint (ow_fp w) op pl))))"

definition signed_by :: "principal option \<Rightarrow> runtime_operation \<Rightarrow> runtime_operation" where
  "signed_by who op = op\<lparr>oo_role := map_option pr_role who, oo_actor := map_option pr_actor who\<rparr>"

text \<open>The operation of a request, up to its reservation.\<close>

definition admitted_operation ::
    "op_world \<Rightarrow> (deployment \<Rightarrow> scenario_files res) \<Rightarrow> store \<Rightarrow> principal option \<Rightarrow> string \<Rightarrow> op_payload \<Rightarrow> runtime_operation res" where
  "admitted_operation w checkout db who i p =
     bindE (authorize_operation (request_kind (oq_request p)) who) (\<lambda>_.
     bindE (assertE (\<not> is_reviewed (oq_request p) \<or> str_given (oq_fingerprint p)) (op_blocked ''RUNTIME_REVIEW_REQUIRED'')) (\<lambda>_.
     bindE (requested_operation w db i p) (\<lambda>(d, h, op).
     if is_reviewed (oq_request p)
     then bindE (checkout_plan w checkout d h (signed_by who op)) (\<lambda>pl.
          bindE (verify_review (ow_fp w) (signed_by who op) pl) (\<lambda>_. Inr (signed_by who op)))
     else Inr op)))"

definition opt_str :: "string option \<Rightarrow> json" where
  "opt_str s = (case s of None \<Rightarrow> JNull | Some t \<Rightarrow> JStr t)"

fun scope_members :: "fw_scope \<Rightarrow> dict" where
  "scope_members (OnVm i) = [(''scope'', JStr ''vm''), (''vm_id'', JInt i)]"
| "scope_members OnNode = [(''scope'', JStr ''node''), (''vm_id'', JNull)]"
| "scope_members OnDatacenter = [(''scope'', JStr ''datacenter''), (''vm_id'', JNull)]"

definition body_json :: "rule_body \<Rightarrow> json" where
  "body_json b =
     JObj [(''direction'', JStr (rb_direction b)), (''action'', JStr (rb_action b)), (''protocol'', JStr (rb_protocol b)),
           (''destination_port'', JStr (rb_port b)), (''source'', opt_str (rb_source b)),
           (''destination'', opt_str (rb_destination b)), (''enabled'', JBool (rb_enabled b))]"

definition change_members :: "string \<Rightarrow> json \<Rightarrow> json \<Rightarrow> json \<Rightarrow> json \<Rightarrow> dict" where
  "change_members act pos move name body =
     [(''kind'', JStr ''firewall_rule''), (''action'', JStr act), (''position'', pos), (''move_to'', move), (''name'', name), (''rule'', body)]"

fun rule_members :: "rule_change \<Rightarrow> dict" where
  "rule_members (CreateRule name b) = change_members ''create'' JNull JNull (JStr name) (body_json b)"
| "rule_members (UpdateRule p b) = change_members ''update'' (JInt (int p)) JNull JNull (body_json b)"
| "rule_members (DeleteRule p) = change_members ''delete'' (JInt (int p)) JNull JNull JNull"
| "rule_members (MoveRule p q) = change_members ''move'' (JInt (int p)) (JInt (int q)) JNull JNull"

fun alias_members :: "alias_change \<Rightarrow> dict" where
  "alias_members (CreateAlias name cidr) =
     [(''action'', JStr ''create''), (''name'', JStr name), (''cidr'', JStr cidr), (''new_name'', JNull)]"
| "alias_members (DeleteAlias name) =
     [(''action'', JStr ''delete''), (''name'', JStr name), (''cidr'', JNull), (''new_name'', JNull)]"
| "alias_members (RenameAlias name other) =
     [(''action'', JStr ''rename''), (''name'', JStr name), (''cidr'', JNull), (''new_name'', JStr other)]"

text \<open>\<open>payload.model_dump()\<close> and the operation as it is stored with the attempt.\<close>

definition payload_json :: "op_payload \<Rightarrow> json" where
  "payload_json p =
     (let kind = (''kind'', JStr (request_kind (oq_request p)));
          ack = (''acknowledge_shared_scope'', JBool (oq_acknowledged p));
          fpr = (''review_fingerprint'', opt_str (oq_fingerprint p))
      in JObj (case oq_request p of
           VmFirewall on i \<Rightarrow> [(''enabled'', JBool on), kind, (''vm_id'', JInt i)]
         | ScenarioFirewall on \<Rightarrow> [(''enabled'', JBool on), kind]
         | SdnSnat on v \<Rightarrow> [(''enabled'', JBool on), kind, (''vnet'', JStr v), ack]
         | HostFirewall on \<Rightarrow> [(''enabled'', JBool on), kind, ack, fpr]
         | RuntimeObserve \<Rightarrow> [kind]
         | SdnNetwork act v \<Rightarrow>
             [kind, (''action'', JStr (if act = Create then ''create'' else ''delete'')), (''vnet'', JStr v), ack, fpr]
         | FirewallChange (OfRule sc c) \<Rightarrow> scope_members sc @ [ack, fpr] @ rule_members c
         | FirewallChange (OfAlias sc c) \<Rightarrow> scope_members sc @ [ack, fpr, kind] @ alias_members c))"

definition runtime_json :: "op_runtime \<Rightarrow> json" where
  "runtime_json r =
     JObj ([(''fingerprint'', JStr (or_fingerprint r)),
            (''dependencies'', JList (map (\<lambda>(n, v, s). JObj [(''name'', JStr n), (''revision'', JStr v), (''sha256'', JStr s)])
               (or_dependencies r)))]
           @ (case or_contract r of None \<Rightarrow> [] | Some c \<Rightarrow> [(''contract'', JStr c)])
           @ [(''operations'', JList (map JStr (or_operations r)))])"

definition operation_json :: "runtime_operation \<Rightarrow> json" where
  "operation_json op =
     JObj ([(''request'', payload_json (oo_payload op)), (''project_sha'', opt_str (oo_project_sha op)),
            (''target_host_id'', JStr (oo_host op)),
            (''target_identity'', JObj [(''api_url'', JStr (tg_url (oo_target op))), (''node_name'', JStr (tg_node (oo_target op)))]),
            (''runtime'', runtime_json (oo_runtime op))]
           @ (case oo_role op of None \<Rightarrow> [] | Some r \<Rightarrow> [(''authorized_role'', JStr r), (''authorized_actor'', opt_str (oo_actor op))]))"

definition create_operation ::
    "op_world \<Rightarrow> (deployment \<Rightarrow> scenario_files res) \<Rightarrow> files \<Rightarrow> (string \<Rightarrow> string \<Rightarrow> unit res) \<Rightarrow> int \<Rightarrow> string \<Rightarrow> principal option
       \<Rightarrow> string \<Rightarrow> op_payload \<Rightarrow> store \<Rightarrow> (attempt \<times> store) res" where
  "create_operation w checkout fs resolve now fresh_id who i p db =
     bindE (admitted_operation w checkout db who i p) (\<lambda>op.
       reserve_attempt fs resolve now fresh_id i
         \<lparr>pa_scope = ''configure'', pa_team_id = None, pa_confirm = None, pa_project_sha = None\<rparr>
         (Some (operation_json op)) None db)"

text \<open>The part of \<open>runtime_status\<close> that tells a caller what it may ask for.\<close>

record runtime_offer =
  of_available :: bool
  of_operations :: "string list"
  of_admin :: bool
  of_operate :: bool

definition runtime_offer_for :: "op_world \<Rightarrow> principal option \<Rightarrow> runtime_offer res" where
  "runtime_offer_for w who =
     (let admin = (case who of None \<Rightarrow> False | Some p \<Rightarrow> pr_role p = ''admin'');
          operate = (case who of None \<Rightarrow> False | Some p \<Rightarrow> pr_role p \<in> {''admin'', ''operator''});
          offer = (\<lambda>available ops. Inr \<lparr>of_available = available,
              of_operations = (if admin then ops else filter (\<lambda>k. k \<notin> set admin_operations) ops), of_admin = admin, of_operate = operate\<rparr>)
      in case operation_profile (ow_dirs w) (ow_snapshot w) ''vm_firewall'' of
           Inr prof \<Rightarrow> offer True (or_operations prof)
         | Inl e \<Rightarrow> if is_api_error e then offer False [] else Inl e)"

subsection \<open>What a verified plan tells\<close>

lemma verify_reviewD:
  assumes "verify_review fp op p = Inr ()" and "is_reviewed (oq_request (oo_payload op))"
  shows "oo_role op = Some ''admin''" and "oq_fingerprint (oo_payload op) = Some (fp (review_of op p))"
  using assms by (auto simp: verify_review_def review_fingerprint_def split: if_splits)

lemma same_target_iff:
  "same_target dep sha op host = Inr h \<longleftrightarrow>
     host = Some h \<and> oo_project_sha op = dep_project_sha dep \<and> sha = dep_project_sha dep \<and> oo_host op = dep_target_host_id dep
     \<and> ph_id h = dep_target_host_id dep"
  by (cases host) (auto simp: same_target_def)

lemma verified_planD:
  assumes "verified_plan_of w fs dep sha (Some op) host fresh = Inr v"
  shows "\<exists>h. host = Some h \<and> oo_project_sha op = dep_project_sha dep \<and> sha = dep_project_sha dep
    \<and> oo_host op = dep_target_host_id dep \<and> ph_id h = dep_target_host_id dep
    \<and> target_identity (Some h) = Inr (oo_target op) \<and> target_identity fresh = Inr (oo_target op)
    \<and> operation_profile (ow_dirs w) (ow_snapshot w) (request_kind (oq_request (oo_payload op))) = Inr (oo_runtime op)
    \<and> current_plan (ow_get w) fs h (dep_id dep) (oq_request (oo_payload op)) = Inr (vp_plan v)
    \<and> verify_review (ow_fp w) op (vp_plan v) = Inr ()
    \<and> check_plan_vmids h (plan_vmids (oq_request (oo_payload op)) (vp_plan v)) = Inr ()"
proof -
  obtain h where h: "same_target dep sha op host = Inr h"
    using assms by (auto simp: verified_plan_of_def bindE_Inr)
  then have host: "host = Some h" by (simp add: same_target_iff)
  show ?thesis
    using assms same_target_iff [THEN iffD1, OF h] unfolding verified_plan_of_def of_opt_simps bindE_simps h
    by (auto simp: bindE_Inr assertE_Inr Let_def)
qed

text \<open>No planned guest is protected, and none is planned twice.\<close>

lemma vmids_block_False:
  "vmids_block overrides_text ids = Inr False \<Longrightarrow> ids \<noteq> [] \<Longrightarrow>
     \<exists>ov. host_overrides overrides_text = Inr ov \<and> distinct ids \<and> (\<forall>i\<in>set ids. \<not> protected_id ov i)"
  by (auto simp: vmids_block_def bindE_Inr check_vmids_def passed_def list_ex_iff assert_vmid_safe_iff
      split: if_splits)

text \<open>The guests of a run are the planned ones that the manifest declares.\<close>

lemma prepare_runD:
  assumes "prepare_runtime_run w installed fs dep sha (Some op) host fresh = Inr r"
  shows "verified_plan_of w fs dep sha (Some op) host fresh = Inr (rr_plan r)"
    and "\<exists>vms declared. runtime_targets (sf_vms fs) (sf_networks fs) = Inr (vms, declared)
           \<and> rr_targets r = filter (\<lambda>t. rt_vmid t \<in> set (plan_vmids (oq_request (oo_payload op)) (vp_plan (rr_plan r)))) vms"
  using assms by (auto simp: prepare_runtime_run_def bindE_Inr Let_def split_def)

lemma recheck_runD:
  "recheck_runtime_run w fs dep sha op host fresh r = Inr () \<Longrightarrow> verified_plan_of w fs dep sha op host fresh = Inr (rr_plan r)"
  by (auto simp: recheck_runtime_run_def bindE_Inr split: if_splits)

lemma preview_operationD:
  "preview_operation w checkout db who i p = Inr (op, pl, f) \<Longrightarrow>
     f = ow_fp w (review_of op pl) \<and> oo_payload op = p"
  by (auto simp: preview_operation_def bindE_Inr review_fingerprint_def requested_operation_def new_operation_for_def split_def)

subsection \<open>The property\<close>

text \<open>
  C29: A shared operation that passes the last check before its run has been authorized by an
  administrator, and its run is the reviewed one: if the stored fingerprint is the one a preview
  showed, and the fingerprint does not take the two reviews for each other, then the request and
  the plan are the ones shown, the scenario read just now at the target still gives that plan, the
  target, revision and installed runtime are those of the review, and no protected guest is planned.
\<close>

theorem reviewed_run_is_what_was_shown:
  assumes "prepare_runtime_run w installed fs dep sha (Some op) host fresh = Inr r"
    and "recheck_runtime_run w' fs dep' sha' (Some op) host' fresh' r = Inr ()"
    and "is_reviewed (oq_request (oo_payload op))"
    and "preview_operation w0 checkout db who i p = Inr (shown, pl, f)"
    and "oq_fingerprint (oo_payload op) = Some f"
    and "ow_fp w0 (review_of shown pl) = ow_fp w' (review_of op (vp_plan (rr_plan r)))
           \<Longrightarrow> review_of shown pl = review_of op (vp_plan (rr_plan r))"
  shows "oo_role op = Some ''admin'' \<and> oq_request (oo_payload op) = oq_request p \<and> vp_plan (rr_plan r) = pl
    \<and> (\<exists>h. host' = Some h \<and> target_identity host' = Inr (oo_target shown) \<and> target_identity fresh' = Inr (oo_target shown)
         \<and> ph_id h = oo_host shown \<and> dep_target_host_id dep' = oo_host shown \<and> dep_project_sha dep' = oo_project_sha shown
         \<and> operation_profile (ow_dirs w') (ow_snapshot w') (request_kind (oq_request p)) = Inr (oo_runtime shown)
         \<and> current_plan (ow_get w') fs h (dep_id dep') (oq_request p) = Inr pl
         \<and> check_plan_vmids h (plan_vmids (oq_request p) pl) = Inr ())"
proof -
  have v: "verified_plan_of w' fs dep' sha' (Some op) host' fresh' = Inr (rr_plan r)" by (rule recheck_runD [OF assms(2)])
  obtain h where h: "host' = Some h" "oo_project_sha op = dep_project_sha dep'" "oo_host op = dep_target_host_id dep'"
    "ph_id h = dep_target_host_id dep'" "target_identity (Some h) = Inr (oo_target op)" "target_identity fresh' = Inr (oo_target op)"
    "operation_profile (ow_dirs w') (ow_snapshot w') (request_kind (oq_request (oo_payload op))) = Inr (oo_runtime op)"
    "current_plan (ow_get w') fs h (dep_id dep') (oq_request (oo_payload op)) = Inr (vp_plan (rr_plan r))"
    "verify_review (ow_fp w') op (vp_plan (rr_plan r)) = Inr ()"
    "check_plan_vmids h (plan_vmids (oq_request (oo_payload op)) (vp_plan (rr_plan r))) = Inr ()"
    using verified_planD [OF v] by blast
  have s: "f = ow_fp w0 (review_of shown pl)" "oo_payload shown = p" using preview_operationD [OF assms(4)] by simp_all
  have "ow_fp w0 (review_of shown pl) = ow_fp w' (review_of op (vp_plan (rr_plan r)))"
    using verify_reviewD(2) [OF h(9) assms(3)] assms(5) s(1) by simp
  then have "review_of shown pl = review_of op (vp_plan (rr_plan r))" by (rule assms(6))
  then have same: "oq_request (oo_payload op) = oq_request p" "vp_plan (rr_plan r) = pl" "oo_target op = oo_target shown"
    "oo_host op = oo_host shown" "oo_project_sha op = oo_project_sha shown" "oo_runtime op = oo_runtime shown"
    using s(2) by (simp_all add: review_of_def)
  show ?thesis using h same verify_reviewD(1) [OF h(9) assms(3)] by simp
qed

definition op_change :: runtime_request where
  "op_change = FirewallChange (OfRule OnDatacenter (DeleteRule 1))"

definition op_sample_payload :: op_payload where
  "op_sample_payload = \<lparr>oq_request = op_change, oq_acknowledged = True, oq_fingerprint = None\<rparr>"

definition op_profile_sample :: runtime_profile where
  "op_profile_sample = \<lparr>rp_environment = [(''RANGE42_BUNDLE_DIR'', ''/b''), (''ANSIBLE_ROLES_PATH'', ''/r'')], rp_components = [],
     rp_fingerprint = ''f''\<rparr>"

definition op_dirs :: "string \<Rightarrow> runtime_dir" where
  "op_dirs d = \<lparr>rd_exists = True, rd_is_dir = True,
     rd_digest = Inr (if d = ''/b'' then fst (hd reviewed_trees) else snd (hd reviewed_trees)), rd_capabilities = None\<rparr>"

definition op_sample_world :: op_world where
  "op_sample_world = \<lparr>ow_get = fw_get, ow_dirs = op_dirs, ow_snapshot = Inr op_profile_sample, ow_fp = rw_host\<rparr>"

definition op_sample_runtime :: op_runtime where
  "op_sample_runtime = \<lparr>or_fingerprint = ''f'', or_dependencies = [], or_contract = Some native_contract_name,
     or_operations = native_operations\<rparr>"

definition op_sample_files :: scenario_files where
  "op_sample_files = \<lparr>sf_vms = Some gen_manifest, sf_networks = None\<rparr>"

definition op_deployment :: deployment where
  "op_deployment = \<lparr>dep_id = ''d1'', dep_codename = ''c'', dep_scenario_label = ''demo'', dep_project_id = ''p'',
     dep_target_host_id = ''h1'', dep_project_sha = Some ''ab'', dep_native = None, dep_team_count = 1, dep_state = ''ready'',
     dep_current = None, dep_workspace = ''/w''\<rparr>"

definition op_sample_store :: store where
  "op_sample_store = \<lparr>st_deployments = [op_deployment], st_attempts = [], st_locks = [], st_operations = [], st_sets = [],
     st_hosts = [proxmox_host.extend sample_host \<lparr>rh_token_ref = ''t''\<rparr>]\<rparr>"

definition op_sample_target :: target where
  "op_sample_target = \<lparr>tg_url = ''https://p'', tg_node = ''pve''\<rparr>"

definition op_shown :: runtime_operation where
  "op_shown = \<lparr>oo_payload = op_sample_payload, oo_project_sha = Some ''ab'', oo_host = ''h1'', oo_target = op_sample_target,
     oo_runtime = op_sample_runtime, oo_role = None, oo_actor = None\<rparr>"

definition op_stored :: runtime_operation where
  "op_stored = op_shown\<lparr>oo_payload := op_sample_payload\<lparr>oq_fingerprint := Some ''h1''\<rparr>, oo_role := Some ''admin'', oo_actor := Some ''root''\<rparr>"

definition op_admin :: "principal option" where
  "op_admin = Some \<lparr>pr_actor = ''root'', pr_role = ''admin''\<rparr>"

definition op_sample_run :: runtime_run where
  "op_sample_run = \<lparr>rr_plan = \<lparr>vp_plan = FirewallPlan fw_sample_plan, vp_contract = Some native_contract_name\<rparr>, rr_targets = [],
     rr_own_secrets = True, rr_plays = [LifecycleGuard, FirewallChangePlay (fp_change fw_sample_plan)]\<rparr>"

lemma op_kind: "request_kind op_change = ''firewall_rule''" "is_reviewed op_change"
  by (simp_all add: op_change_def is_reviewed_def admin_operations_def)

lemma op_roles: "role_dirs op_profile_sample = [''/r'' @ ''/range42-ansible_roles-proxmox_controller'']"
  by code_simp

lemma op_installed: "operation_profile op_dirs (Inr op_profile_sample) ''firewall_rule'' = Inr op_sample_runtime"
proof -
  have "native_contract op_dirs op_profile_sample = Some native_contract_name"
    unfolding native_contract_def op_roles
    by (simp add: op_profile_sample_def op_dirs_def reviewed_trees_def)
  then show ?thesis
    by (simp add: operation_profile_def native_operations_def op_sample_runtime_def Let_def) (simp add: op_profile_sample_def)
qed

lemma op_target: "target_identity (Some sample_host) = Inr op_sample_target"
  by (simp add: target_identity_def op_sample_target_def sample_host_def rstrip_slash_def)

lemma op_host_row: "target_host op_sample_store op_deployment = Some sample_host"
  by (simp add: target_host_def op_sample_store_def op_deployment_def row_by_def sample_host_def proxmox_host.defs)

lemma op_planned: "current_plan fw_get op_sample_files sample_host ''d1'' op_change = Inr (FirewallPlan fw_sample_plan)"
  by (simp add: current_plan_def op_change_def op_sample_files_def fw_planned [unfolded One_nat_def])

lemma op_verified:
  "verified_plan_of op_sample_world op_sample_files op_deployment (Some ''ab'') (Some op_stored) (Some sample_host) (Some sample_host)
     = Inr (rr_plan op_sample_run)"
proof -
  have f: "oo_payload op_stored = op_sample_payload\<lparr>oq_fingerprint := Some ''h1''\<rparr>" "oq_request (oo_payload op_stored) = op_change"
    "oo_target op_stored = op_sample_target" "oo_runtime op_stored = op_sample_runtime" "oo_role op_stored = Some ''admin''"
    "oo_host op_stored = ''h1''" "oo_project_sha op_stored = Some ''ab''"
    by (simp_all add: op_stored_def op_shown_def op_sample_payload_def)
  have q: "oq_request op_sample_payload = op_change" by (simp add: op_sample_payload_def)
  have d: "dep_project_sha op_deployment = Some ''ab''" "dep_target_host_id op_deployment = ''h1''" "dep_id op_deployment = ''d1''"
    by (simp_all add: op_deployment_def)
  have h: "ph_id sample_host = ''h1''" "ph_protected_json sample_host = None" by (simp_all add: sample_host_def)
  have w: "ow_dirs op_sample_world = op_dirs" "ow_snapshot op_sample_world = Inr op_profile_sample" "ow_get op_sample_world = fw_get"
    "ow_fp op_sample_world = rw_host"
    by (simp_all add: op_sample_world_def)
  have v: "verify_review rw_host op_stored (FirewallPlan fw_sample_plan) = Inr ()"
    by (simp add: verify_review_def f op_kind review_fingerprint_def review_of_def str_given_def)
  have c: "check_plan_vmids sample_host (plan_vmids op_change (FirewallPlan fw_sample_plan)) = Inr ()"
    by (simp add: check_plan_vmids_def vmids_block_def h plan_vmids_def op_change_def)
  show ?thesis
    by (simp add: verified_plan_of_def same_target_def f d h w op_target op_kind op_installed op_planned v c Let_def q)
       (simp add: op_sample_run_def op_sample_runtime_def native_contract_name_def str_given_def)
qed

lemma op_prepared:
  "prepare_runtime_run op_sample_world (Some (\<lambda>b. True)) op_sample_files op_deployment (Some ''ab'') (Some op_stored) (Some sample_host)
     (Some sample_host) = Inr op_sample_run"
proof -
  have t: "runtime_targets (Some gen_manifest) None = Inr ([\<lparr>rt_vmid = 300, rt_name = ''a''\<rparr>], None)"
    by (simp add: runtime_targets_def gen_targets read_plan_def)
  have f: "oq_request (oo_payload op_stored) = op_change" by (simp add: op_stored_def op_shown_def op_sample_payload_def)
  have r: "rr_plan op_sample_run = \<lparr>vp_plan = FirewallPlan fw_sample_plan, vp_contract = Some native_contract_name\<rparr>"
    by (simp add: op_sample_run_def)
  have k: "plan_vmids op_change (FirewallPlan fw_sample_plan) = []" by (simp add: plan_vmids_def op_change_def)
  have s: "sf_vms op_sample_files = Some gen_manifest" "sf_networks op_sample_files = None" by (simp_all add: op_sample_files_def)
  show ?thesis
    by (simp add: prepare_runtime_run_def op_verified r f op_kind k plan_steps_def s t Let_def)
       (simp add: op_sample_run_def run_plays_def change_plays_def nat_operations_def scoped_natively_def)
qed

lemma op_previewed:
  "preview_operation op_sample_world (\<lambda>d. Inr op_sample_files) op_sample_store op_admin ''d1'' op_sample_payload
     = Inr (op_shown, FirewallPlan fw_sample_plan, ''h1'')"
proof -
  have q: "oq_request op_sample_payload = op_change" by (simp add: op_sample_payload_def)
  have a: "authorize_operation ''firewall_rule'' op_admin = Inr ()" by (simp add: authorize_operation_def op_admin_def)
  have d: "runtime_deployment op_sample_store ''d1'' = Inr op_deployment"
    by (simp add: runtime_deployment_def op_sample_store_def row_by_def op_deployment_def str_given_def)
  have w: "ow_dirs op_sample_world = op_dirs" "ow_snapshot op_sample_world = Inr op_profile_sample" "ow_get op_sample_world = fw_get"
    "ow_fp op_sample_world = rw_host"
    by (simp_all add: op_sample_world_def)
  have n: "new_operation_for op_sample_payload op_deployment (Some sample_host) op_sample_runtime = Inr op_shown"
    by (simp add: new_operation_for_def op_target) (simp add: op_shown_def op_deployment_def)
  have i: "dep_id op_deployment = ''d1''" by (simp add: op_deployment_def)
  have s: "oq_request (oo_payload op_shown) = op_change" "rw_host (review_of op_shown (FirewallPlan fw_sample_plan)) = ''h1''"
    by (simp_all add: op_shown_def op_sample_payload_def review_of_def)
  show ?thesis
    by (simp add: preview_operation_def q a op_kind requested_operation_def d w op_installed op_host_row n checkout_plan_def i s op_planned
        review_fingerprint_def)
qed

theorem reviewed_run_is_what_was_shown_witness:
  "oo_role op_stored = Some ''admin'' \<and> oq_request (oo_payload op_stored) = oq_request op_sample_payload
    \<and> vp_plan (rr_plan op_sample_run) = FirewallPlan fw_sample_plan
    \<and> (\<exists>h. Some sample_host = Some h \<and> target_identity (Some sample_host) = Inr (oo_target op_shown)
         \<and> target_identity (Some sample_host) = Inr (oo_target op_shown)
         \<and> ph_id h = oo_host op_shown \<and> dep_target_host_id op_deployment = oo_host op_shown
         \<and> dep_project_sha op_deployment = oo_project_sha op_shown
         \<and> operation_profile (ow_dirs op_sample_world) (ow_snapshot op_sample_world) (request_kind (oq_request op_sample_payload))
             = Inr (oo_runtime op_shown)
         \<and> current_plan (ow_get op_sample_world) op_sample_files h (dep_id op_deployment) (oq_request op_sample_payload)
             = Inr (FirewallPlan fw_sample_plan)
         \<and> check_plan_vmids h (plan_vmids (oq_request op_sample_payload) (FirewallPlan fw_sample_plan)) = Inr ())"
proof (rule reviewed_run_is_what_was_shown [OF op_prepared])
  show "recheck_runtime_run op_sample_world op_sample_files op_deployment (Some ''ab'') (Some op_stored) (Some sample_host)
      (Some sample_host) op_sample_run = Inr ()"
    by (simp add: recheck_runtime_run_def op_verified)
  show "is_reviewed (oq_request (oo_payload op_stored))"
    by (simp add: op_stored_def op_shown_def op_sample_payload_def op_kind)
  show "preview_operation op_sample_world (\<lambda>d. Inr op_sample_files) op_sample_store op_admin ''d1'' op_sample_payload
      = Inr (op_shown, FirewallPlan fw_sample_plan, ''h1'')"
    by (rule op_previewed)
  show "oq_fingerprint (oo_payload op_stored) = Some ''h1''"
    by (simp add: op_stored_def op_shown_def op_sample_payload_def)
  show "review_of op_shown (FirewallPlan fw_sample_plan) = review_of op_stored (vp_plan (rr_plan op_sample_run))"
    by (simp add: review_of_def op_stored_def op_shown_def op_sample_run_def op_sample_payload_def)
qed

end
