(* ===== verification/Runtime_Completion.thy ===== *)
theory Runtime_Completion
  imports Runtime_Ops
begin

text \<open>
  What a finished runtime operation reached: the native NAT observation
  (\<open>native_snat_count\<close> of \<open>app/core/native_sdn.py\<close>), the comparison of the state that is read back with the
  request (\<open>app/core/runtime_completion.py\<close>) and the report of a deployment's chains, cards and
  switches (\<open>app/core/runtime_reports.py\<close>). The events of the attempt are the list the reader yields; the
  run's private context file is a parameter.
\<close>

subsection \<open>Native NAT observations\<close>

definition below_2_31 :: "json \<Rightarrow> bool" where
  "below_2_31 v = (case v of JInt n \<Rightarrow> 0 \<le> n \<and> n < 2147483648 | _ \<Rightarrow> False)"

definition nat_row_ok :: "string \<Rightarrow> json \<Rightarrow> bool" where
  "nat_row_ok node v =
     (case v of
        JObj row \<Rightarrow>
          jget row ''proxmox_node'' = JStr node \<and> jget row ''snat_host'' = JStr ''r42-proxmox-cli''
          \<and> jget row ''snat_target'' \<in> {JStr ''SNAT'', JStr ''MASQUERADE''}
          \<and> is_str (jget row ''snat_source'') \<and> is_str (jget row ''snat_out_iface'') \<and> below_2_31 (jget row ''snat_count'')
      | _ \<Rightarrow> False)"

definition nat_count :: "string \<Rightarrow> json \<Rightarrow> int" where
  "nat_count subnet v =
     (case (field_of ''snat_source'' v, field_of ''snat_count'' v) of
        (JStr s, JInt n) \<Rightarrow> if s = subnet then n else 0
      | _ \<Rightarrow> 0)"

definition native_snat_count :: "json \<Rightarrow> string \<Rightarrow> string \<Rightarrow> int option" where
  "native_snat_count observation subnet node =
     (case observation of
        JObj d \<Rightarrow>
          if jget d ''complete'' \<noteq> JBool True \<or> jget d ''node'' \<noteq> JStr node then None
          else (case jget d ''rules'' of
             JList rows \<Rightarrow>
               if length rows \<le> 4096 \<and> list_all (nat_row_ok node) rows \<and> sum_list (map (nat_count subnet) rows) < 2147483648
               then Some (sum_list (map (nat_count subnet) rows)) else None
           | _ \<Rightarrow> None)
      | _ \<Rightarrow> None)"

subsection \<open>The attempt's events\<close>

definition response_of :: "dict \<Rightarrow> json res" where
  "response_of event =
     (case (case dget event ''payload'' of None \<Rightarrow> JObj [] | Some v \<Rightarrow> v) of
        JObj payload \<Rightarrow> Inr (case dget payload ''res'' of None \<Rightarrow> JObj [] | Some r \<Rightarrow> r)
      | _ \<Rightarrow> Inl AttributeError)"

text \<open>\<open>response[key] if key in response\<close>, else what was found before.\<close>

definition found_in :: "string \<Rightarrow> json \<Rightarrow> json \<Rightarrow> json res" where
  "found_in key response before =
     bindE (str_in_json key response) (\<lambda>hit.
     if \<not> hit then Inr before
     else case response of JObj d \<Rightarrow> Inr (jget d key) | _ \<Rightarrow> Inl TypeError)"

definition native_key :: string where
  "native_key = ''r42_native_snat_observation''"

definition last_sample :: "dict list \<Rightarrow> json res" where
  "last_sample events = foldE (\<lambda>acc e. bindE (response_of e) (\<lambda>r. found_in native_key r acc)) JNull events"

definition lifecycle_samples :: "dict list \<Rightarrow> (json \<times> json) res" where
  "lifecycle_samples events =
     foldE (\<lambda>(before, sample) e.
         bindE (response_of e) (\<lambda>r.
         bindE (found_in ''r42_lifecycle_nat_before'' r before) (\<lambda>b.
         bindE (found_in native_key r sample) (\<lambda>s. Inr (b, s))))) (JNull, JNull) events"

text \<open>The count a run of the older composites reports, when the sample is the selected subnet's.\<close>

definition reconcile_key :: string where
  "reconcile_key = ''network_delete_extra_snat_rules''"

definition composite_sample :: "json \<Rightarrow> json res" where
  "composite_sample response =
     bindE (of_opt AttributeError (as_obj response)) (\<lambda>d.
     if truthy (jget d reconcile_key) then Inr (jget d reconcile_key)
     else bindE (of_opt AttributeError (as_obj (case dget d ''ansible_facts'' of None \<Rightarrow> JObj [] | Some f \<Rightarrow> f))) (\<lambda>facts.
       Inr (jget facts reconcile_key)))"

definition composite_count :: "bool \<Rightarrow> string \<Rightarrow> string \<Rightarrow> json \<Rightarrow> int option" where
  "composite_count on subnet node v =
     (case v of
        JObj s \<Rightarrow>
          if jget s ''subnet_cidr'' = JStr subnet \<and> jget s ''snat_host'' = JStr ''r42-proxmox-cli''
             \<and> jget s ''snat_rule_matching'' = JStr ''exact_source_nat_target_v1'' \<and> jget s ''proxmox_node'' = JStr node
             \<and> jget s ''snat_want'' = snat_int on \<and> below_2_31 (jget s ''snat_after'')
          then as_int (jget s ''snat_after'') else None
      | _ \<Rightarrow> None)"

definition snat_step :: "string option \<Rightarrow> bool \<Rightarrow> string \<Rightarrow> string \<Rightarrow> int option \<Rightarrow> dict \<Rightarrow> int option res" where
  "snat_step contract on subnet node seen event =
     bindE (response_of event) (\<lambda>r.
     if contract = Some native_contract_name
     then bindE (str_in_json native_key r) (\<lambda>hit.
          if \<not> hit then Inr seen
          else bindE (found_in native_key r JNull) (\<lambda>sample. Inr (native_snat_count sample subnet node)))
     else bindE (composite_sample r) (\<lambda>sample.
          Inr (case composite_count on subnet node sample of None \<Rightarrow> seen | Some n \<Rightarrow> Some n)))"

subsection \<open>Assessment\<close>

record nat_rule =
  nr_source :: string
  nr_out_iface :: string
  nr_target :: string
  nr_count :: int

record assessment =
  as_reached :: bool
  as_partial :: bool
  as_count :: "int option"
  as_preserved :: "bool option"
  as_matched :: "int list"
  as_mismatched :: "int list"
  as_missing :: "int list"
  as_live_nat :: "nat_rule list option"

definition reached :: "bool \<Rightarrow> bool \<Rightarrow> assessment" where
  "reached r p = \<lparr>as_reached = r, as_partial = p, as_count = None, as_preserved = None, as_matched = [], as_mismatched = [],
                  as_missing = [], as_live_nat = None\<rparr>"

definition assess_control :: "fw_plan \<Rightarrow> op_state \<Rightarrow> assessment" where
  "assess_control p s = reached (os_control s = Some (fp_rules p, fp_aliases p)) False"

text \<open>Whether the other sources keep the rules counted before the change; unknown without complete counts.\<close>

definition preserved_counts :: "json \<Rightarrow> json \<Rightarrow> string \<Rightarrow> string \<Rightarrow> bool option" where
  "preserved_counts before sample subnet node =
     (case before of
        JObj d \<Rightarrow>
          if length d \<le> 4096 \<and> list_all (\<lambda>(k, v). below_2_31 v) d
          then let others = filter (\<lambda>(k, v). k \<noteq> subnet) d in
            if native_snat_count sample subnet node \<noteq> None \<and> list_all (\<lambda>(k, v). native_snat_count sample k node \<noteq> None) others
            then Some (list_all (\<lambda>(k, v). native_snat_count sample k node = as_int v) others)
            else None
          else None
      | _ \<Rightarrow> None)"

definition snat_count_of :: "bool \<Rightarrow> int" where
  "snat_count_of b = (if b then 1 else 0)"

definition lifecycle_reached :: "net_action \<Rightarrow> string \<Rightarrow> network_change \<Rightarrow> op_state \<Rightarrow> int option \<Rightarrow> bool" where
  "lifecycle_reached act vnet c s seen =
     (case os_lifecycle s of
        None \<Rightarrow> False
      | Some lc \<Rightarrow>
          let sdn = rs_sdn (os_runtime s);
              network = List.find (\<lambda>n. vn_vnet n = vnet) (lc_networks lc);
              running = List.find (\<lambda>n. no_vnet n = vnet) (rs_networks (os_runtime s))
          in lc_available lc \<and> so_pending sdn = Some False \<and> \<not> so_errors sdn
             \<and> (case (network, running) of
                  (Some n, Some r) \<Rightarrow>
                    if act = net_action.Delete then \<not> ln_exists n \<and> \<not> no_active r \<and> seen = Some 0
                    else ln_owned n \<and> ln_matches n \<and> no_active r \<and> ln_snat n = Some (vn_snat (nc_network c))
                      \<and> seen = Some (snat_count_of (vn_snat (nc_network c)))
                | _ \<Rightarrow> False))"

definition assess_lifecycle :: "net_action \<Rightarrow> string \<Rightarrow> network_change \<Rightarrow> op_state \<Rightarrow> dict list \<Rightarrow> assessment res" where
  "assess_lifecycle act vnet c s events =
     bindE (lifecycle_samples events) (\<lambda>(before, sample).
     let node = rs_node (os_runtime s); subnet = vn_subnet (nc_network c);
         seen = native_snat_count sample subnet node;
         kept = preserved_counts before sample subnet node;
         r = lifecycle_reached act vnet c s seen
     in Inr ((reached (r \<and> kept = Some True) (r \<and> kept \<noteq> Some True))\<lparr>as_count := seen, as_preserved := kept\<rparr>))"

definition nat_rule_of :: "json \<Rightarrow> nat_rule option" where
  "nat_rule_of v =
     (case (field_of ''snat_source'' v, field_of ''snat_out_iface'' v, field_of ''snat_target'' v, field_of ''snat_count'' v) of
        (JStr a, JStr b, JStr c, JInt n) \<Rightarrow> Some \<lparr>nr_source = a, nr_out_iface = b, nr_target = c, nr_count = n\<rparr>
      | _ \<Rightarrow> None)"

definition assess_observation :: "string option \<Rightarrow> op_state \<Rightarrow> dict list \<Rightarrow> assessment res" where
  "assess_observation contract s events =
     bindE (last_sample events) (\<lambda>sample.
     let valid = (contract = Some native_contract_name \<and> native_snat_count sample [] (rs_node (os_runtime s)) \<noteq> None);
         subnets = map no_subnet (rs_networks (os_runtime s));
         rules = filter (\<lambda>r. nr_source r \<in> set subnets) (List.map_filter nat_rule_of (elements (field_of ''rules'' sample)))
     in Inr ((reached valid False)\<lparr>as_live_nat := (if valid then Some rules else None)\<rparr>))"

definition assess_host :: "bool \<Rightarrow> op_state \<Rightarrow> assessment" where
  "assess_host on s =
     (let fw = rs_firewall (os_runtime s); matches = [fo_datacenter fw = Some on, fo_node fw = Some on]
      in reached (list_all (\<lambda>b. b) matches \<and> \<not> fo_errors fw) (list_ex (\<lambda>b. b) matches \<and> \<not> list_all (\<lambda>b. b) matches))"

definition assess_snat :: "bool \<Rightarrow> string \<Rightarrow> string option \<Rightarrow> string \<Rightarrow> op_state \<Rightarrow> dict list \<Rightarrow> assessment res" where
  "assess_snat on vnet contract subnet s events =
     bindE (foldE (snat_step contract on subnet (rs_node (os_runtime s))) None events) (\<lambda>seen.
     let sdn = rs_sdn (os_runtime s) in
     Inr ((reached (case List.find (\<lambda>n. no_vnet n = vnet) (rs_networks (os_runtime s)) of
              None \<Rightarrow> False
            | Some n \<Rightarrow> so_pending sdn = Some False \<and> \<not> so_errors sdn \<and> no_matches n \<and> no_active n \<and> no_snat n = Some on
                 \<and> seen = Some (snat_count_of on)) False)\<lparr>as_count := seen\<rparr>))"

definition guest_matches :: "bool \<Rightarrow> guest_obs \<Rightarrow> bool" where
  "guest_matches on g =
     (go_status g = Owned \<and> go_firewall g = Some on \<and> (go_nics g \<noteq> [] \<or> \<not> on)
      \<and> list_all (\<lambda>n. ni_firewall n = Some on) (go_nics g))"

definition vmid_matches :: "bool \<Rightarrow> guest_obs list \<Rightarrow> int \<Rightarrow> bool" where
  "vmid_matches on gs i = (case List.find (\<lambda>g. go_vmid g = i) gs of None \<Rightarrow> False | Some g \<Rightarrow> guest_matches on g)"

definition assess_guests :: "bool \<Rightarrow> bundle_plan \<Rightarrow> op_state \<Rightarrow> assessment" where
  "assess_guests on p s =
     (let matched = filter (vmid_matches on (rs_vms (os_runtime s))) (bp_vmids p);
          unmatched = filter (\<lambda>i. i \<notin> set matched) (bp_vmids p)
      in (reached (matched \<noteq> [] \<and> unmatched = [] \<and> bp_missing p = []) (matched \<noteq> [] \<and> (unmatched \<noteq> [] \<or> bp_missing p \<noteq> [])))
           \<lparr>as_matched := matched, as_mismatched := unmatched, as_missing := bp_missing p\<rparr>)"

text \<open>The plan is the one prepared for the same request; a plan of another kind lacks the keys.\<close>

definition assess_runtime_result :: "runtime_request \<Rightarrow> verified_plan \<Rightarrow> op_state \<Rightarrow> dict list \<Rightarrow> assessment res" where
  "assess_runtime_result q v s events =
     (case (q, vp_plan v) of
        (FirewallChange c, FirewallPlan p) \<Rightarrow> Inr (assess_control p s)
      | (SdnNetwork act vnet, NetworkPlan c) \<Rightarrow> assess_lifecycle act vnet c s events
      | (RuntimeObserve, BundlePlan p) \<Rightarrow> assess_observation (vp_contract v) s events
      | (HostFirewall on, BundlePlan p) \<Rightarrow> Inr (assess_host on s)
      | (SdnSnat on vnet, BundlePlan p) \<Rightarrow>
          bindE (of_opt KeyError (bp_subnet p)) (\<lambda>subnet. assess_snat on vnet (vp_contract v) subnet s events)
      | (VmFirewall on i, BundlePlan p) \<Rightarrow> Inr (assess_guests on p s)
      | (ScenarioFirewall on, BundlePlan p) \<Rightarrow> Inr (assess_guests on p s)
      | _ \<Rightarrow> Inl KeyError)"

subsection \<open>The end of a run\<close>

record run_context =
  rc_plain_file :: bool
  rc_size :: nat
  rc_content :: "(bool \<times> verified_plan) option"

record completion =
  cm_partial :: bool
  cm_error :: "string option"

definition concluded :: "bool \<Rightarrow> bool \<Rightarrow> completion" where
  "concluded ok p = \<lparr>cm_partial = p, cm_error = (if ok then None else Some ''RUNTIME_STATE_MISMATCH'')\<rparr>"

text \<open>The state read back, with what the kind of operation needs beside it.\<close>

definition read_back :: "http_get \<Rightarrow> scenario_files \<Rightarrow> proxmox_host \<Rightarrow> string \<Rightarrow> runtime_request \<Rightarrow> op_state res" where
  "read_back get fs h dep q =
     bindE (read_op_state get fs h dep q) (\<lambda>s.
     case q of
       FirewallChange c \<Rightarrow>
         bindE (read_firewall_control get h (sf_vms fs) (sf_networks fs) dep (request_scope c)) (\<lambda>control.
           Inr (s\<lparr>os_control := control\<rparr>))
     | _ \<Rightarrow> Inr s)"

definition read_context :: "run_context option \<Rightarrow> verified_plan res" where
  "read_context ctx =
     bindE (of_opt OSError ctx) (\<lambda>x.
     bindE (assertE (rc_plain_file x \<and> rc_size x \<le> 1048576) ValueError) (\<lambda>_.
     bindE (of_opt ValueError (rc_content x)) (\<lambda>(inside, v).
     bindE (assertE inside ValueError) (\<lambda>_. Inr v))))"

definition assess_run ::
    "http_get \<Rightarrow> run_context option \<Rightarrow> scenario_files \<Rightarrow> string \<Rightarrow> runtime_operation option \<Rightarrow> proxmox_host option
       \<Rightarrow> dict list \<Rightarrow> assessment res" where
  "assess_run get ctx fs dep operation host events =
     bindE (of_opt ValueError operation) (\<lambda>op.
     bindE (target_identity host) (\<lambda>t.
     bindE (assertE (oo_target op = t) ValueError) (\<lambda>_.
     bindE (read_context ctx) (\<lambda>v.
     bindE (of_opt ValueError host) (\<lambda>h.
     bindE (read_back get fs h dep (oq_request (oo_payload op))) (\<lambda>s.
       assess_runtime_result (oq_request (oo_payload op)) v s events))))))"

text \<open>
  \<open>observe_runtime_completion\<close>: the options it returns for \<open>finish_attempt\<close>, nothing for an attempt
  that is no runtime operation. An error that the code catches never counts as reached.
\<close>

definition observe_runtime_completion ::
    "http_get \<Rightarrow> run_context option \<Rightarrow> scenario_files \<Rightarrow> attempt option \<Rightarrow> runtime_operation option \<Rightarrow> proxmox_host option
       \<Rightarrow> dict list \<Rightarrow> completion option res" where
  "observe_runtime_completion get ctx fs att operation host events =
     (case att of
        None \<Rightarrow> Inr None
      | Some a \<Rightarrow>
          if at_scope a \<noteq> ''runtime'' then Inr None
          else catchE (\<lambda>e. e \<in> {OSError, ValueError, KeyError, TypeError} \<or> is_api_error e)
            (bindE (assess_run get ctx fs (at_deployment a) operation host events) (\<lambda>r.
               Inr (Some (concluded (as_reached r) (as_partial r)))))
            (Inr (Some (concluded False False))))"

subsection \<open>Reports\<close>

record chain_report =
  ch_scope :: fw_scope
  ch_available :: bool
  ch_rules :: "fw_rule list"
  ch_aliases :: "fw_alias list"

definition read_chain :: "http_get \<Rightarrow> proxmox_host \<Rightarrow> fw_scope \<Rightarrow> string \<Rightarrow> chain_report res" where
  "read_chain get h sc base =
     catchE (\<lambda>e. e \<in> {ValueError, TypeError, KeyError})
       (bindE (fw_reading (list_proxmox_data get h (base @ ''/firewall/rules'') [])) (\<lambda>raw_rules.
        bindE (map_rules raw_rules) (\<lambda>rules.
        bindE (if sc = OnNode then Inr []
               else bindE (fw_reading (list_proxmox_data get h (base @ ''/firewall/aliases'') [])) map_aliases) (\<lambda>as.
          Inr \<lparr>ch_scope = sc, ch_available = True, ch_rules = rules, ch_aliases = as\<rparr>))))
       (Inr \<lparr>ch_scope = sc, ch_available = False, ch_rules = [], ch_aliases = []\<rparr>)"

text \<open>The chains are read concurrently; their order in the report is this one.\<close>

definition read_chains :: "http_get \<Rightarrow> proxmox_host \<Rightarrow> runtime_state \<Rightarrow> chain_report list res" where
  "read_chains get h s =
     (let node = ''/nodes/'' @ url_quote (ph_node_name h) in
      mapE (\<lambda>(sc, base). read_chain get h sc base)
        ([(OnDatacenter, ''/cluster''), (OnNode, node)]
         @ map (\<lambda>g. (OnVm (go_vmid g), node @ ''/qemu/'' @ int_str (go_vmid g))) (filter (\<lambda>g. go_status g = Owned) (rs_vms s))))"

record card_report =
  cd_vmid :: int
  cd_index :: nat
  cd_bridge :: "string option"
  cd_filtering :: "bool option"
  cd_reasons :: "string list"

definition card_verdict :: "bool option list \<Rightarrow> bool option" where
  "card_verdict flags = (if Some False \<in> set flags then Some False else if None \<in> set flags then None else Some True)"

definition card_reasons :: "(string \<times> bool option) list \<Rightarrow> string list" where
  "card_reasons needed =
     (let open_ones = filter (\<lambda>(k, v). v \<noteq> Some True) needed in
      if open_ones = [] then [''all_switches_enabled_traffic_unverified'']
      else map (\<lambda>(k, v). k @ (if v = None then ''_unknown'' else ''_disabled'')) open_ones)"

definition card_of :: "bool option \<Rightarrow> guest_obs \<Rightarrow> nic_obs \<Rightarrow> card_report" where
  "card_of dc g n =
     (let needed = [(''datacenter'', dc), (''guest'', go_firewall g), (''nic'', ni_firewall n)] in
      \<lparr>cd_vmid = go_vmid g, cd_index = ni_index n, cd_bridge = ni_bridge n, cd_filtering = card_verdict (map snd needed),
       cd_reasons = card_reasons needed\<rparr>)"

record network_report =
  nt_network :: network_obs
  nt_matches :: "bool option"
  nt_active :: "bool option"

record state_report =
  sr_chains :: "chain_report list"
  sr_cards :: "card_report list"
  sr_networks :: "network_report list"
  sr_partial :: bool

definition report_from_state :: "http_get \<Rightarrow> proxmox_host \<Rightarrow> runtime_state \<Rightarrow> state_report res" where
  "report_from_state get h s =
     bindE (read_chains get h s) (\<lambda>chains.
     let known = (\<lambda>b. if so_errors (rs_sdn s) then None else Some b) in
     bindE (assertE (list_all (\<lambda>n. no_subnet_id n = JNull \<or> is_str (no_subnet_id n)) (rs_networks s)) ValueError) (\<lambda>_.
     Inr \<lparr>sr_chains = chains,
          sr_cards = concat (map (\<lambda>g. map (card_of (fo_datacenter (rs_firewall s)) g) (go_nics g))
            (filter (\<lambda>g. go_status g = Owned) (rs_vms s))),
          sr_networks = map (\<lambda>n. \<lparr>nt_network = n, nt_matches = known (no_matches n), nt_active = known (no_active n)\<rparr>) (rs_networks s),
          sr_partial = (list_ex (\<lambda>c. \<not> ch_available c) chains \<or> fo_errors (rs_firewall s) \<or> so_errors (rs_sdn s)
            \<or> list_ex (\<lambda>g. go_status g \<in> {Conflict, Unverified}) (rs_vms s))\<rparr>))"

definition read_runtime_report :: "http_get \<Rightarrow> scenario_files \<Rightarrow> proxmox_host \<Rightarrow> string \<Rightarrow> state_report res" where
  "read_runtime_report get fs h dep =
     bindE (read_runtime_state get (sf_vms fs) (sf_networks fs) h dep) (report_from_state get h)"

subsection \<open>What reaching a guest firewall means\<close>

definition switched_on_host :: "http_get \<Rightarrow> proxmox_host \<Rightarrow> string \<Rightarrow> bool \<Rightarrow> runtime_target \<Rightarrow> bool" where
  "switched_on_host get h dep on vm =
     (case live_guests get h of
        None \<Rightarrow> False
      | Some m \<Rightarrow>
          (case (m (rt_vmid vm), read_object get h (guest_path h vm @ ''/config''),
                 read_object get h (guest_path h vm @ ''/firewall/options'')) of
             (Some live, Some config, Some options) \<Rightarrow>
               same_guest h vm live \<and> own_config dep vm config \<and> flag (jget options ''enable'') = Some on
               \<and> (case nics config of
                    Inl e \<Rightarrow> False
                  | Inr ns \<Rightarrow> (on \<longrightarrow> ns \<noteq> []) \<and> list_all (\<lambda>n. ni_firewall n = Some on) ns)
           | _ \<Rightarrow> False))"

lemma observe_guest_vmid: "go_vmid (observe_guest get h dep dc m vm) = rt_vmid vm"
  by (auto simp: observe_guest_def guest_as_def observe_owned_def Let_def split: option.splits sum.splits)

text \<open>The row of a target that matches the request was read from the host.\<close>

lemma matching_guest_read:
  assumes "g \<in> set (guests get h vms dep dc)" and "guest_matches on g"
  shows "\<exists>vm\<in>set vms. rt_vmid vm = go_vmid g \<and> switched_on_host get h dep on vm"
proof -
  obtain m where m: "live_guests get h = Some m"
    using assms by (auto simp: guests_def guest_matches_def guest_as_def split: option.splits)
  then obtain vm where vm: "vm \<in> set vms" "g = observe_guest get h dep dc m vm" using assms(1) by (auto simp: guests_def)
  have "switched_on_host get h dep on vm"
    using assms(2) m unfolding vm(2)
    by (auto simp: switched_on_host_def guest_matches_def observe_guest_def observe_owned_def guest_as_def Let_def
        split: option.splits if_splits sum.splits)
  then show ?thesis using vm observe_guest_vmid by metis
qed

lemma find_Some_set: "List.find P xs = Some x \<Longrightarrow> x \<in> set xs \<and> P x"
  by (auto simp: find_Some_iff)

lemma assess_guestsD:
  assumes "as_reached (assess_guests on p s)" and "rs_vms (os_runtime s) = guests get h vms dep dc"
  shows "bp_vmids p \<noteq> []" and "bp_missing p = []"
    and "\<And>i. i \<in> set (bp_vmids p) \<Longrightarrow> \<exists>vm\<in>set vms. rt_vmid vm = i \<and> switched_on_host get h dep on vm"
proof -
  let ?gs = "rs_vms (os_runtime s)"
  have r: "filter (vmid_matches on ?gs) (bp_vmids p) \<noteq> []" "bp_missing p = []"
    "filter (\<lambda>i. i \<notin> set (filter (vmid_matches on ?gs) (bp_vmids p))) (bp_vmids p) = []"
    using assms(1) by (simp_all add: assess_guests_def reached_def Let_def)
  show "bp_vmids p \<noteq> []" using r(1) by auto
  show "bp_missing p = []" by (rule r(2))
  fix i assume "i \<in> set (bp_vmids p)"
  then have "vmid_matches on ?gs i" using r(3) by (auto simp: filter_empty_conv)
  then obtain g where "g \<in> set ?gs" "go_vmid g = i" "guest_matches on g"
    by (auto simp: vmid_matches_def split: option.splits dest!: find_Some_set)
  then show "\<exists>vm\<in>set vms. rt_vmid vm = i \<and> switched_on_host get h dep on vm"
    using matching_guest_read [of g get h vms dep dc on] assms(2) by auto
qed

lemma read_op_stateD:
  assumes "read_op_state get fs h dep q = Inr s"
  shows "\<exists>vms declared. runtime_targets (sf_vms fs) (sf_networks fs) = Inr (vms, declared)
    \<and> rs_vms (os_runtime s) = guests get h vms dep (fo_datacenter (host_firewall get h))"
proof -
  obtain r where r: "read_runtime_state get (sf_vms fs) (sf_networks fs) h dep = Inr r" "os_runtime s = r"
    using assms by (cases q) (auto simp: read_op_state_def bindE_Inr)
  obtain vms declared where "runtime_targets (sf_vms fs) (sf_networks fs) = Inr (vms, declared)"
    "rs_vms r = guests get h vms dep (fo_datacenter (host_firewall get h))"
    using r(1) by (auto simp: read_runtime_state_def bindE_Inr Let_def split_def)
  then show ?thesis using r(2) by auto
qed

text \<open>The requests for guest firewalls.\<close>

definition guest_request :: "bool \<Rightarrow> runtime_request \<Rightarrow> bool" where
  "guest_request on q = (q = ScenarioFirewall on \<or> (\<exists>i. q = VmFirewall on i))"

lemma completionD:
  assumes "observe_runtime_completion get ctx fs (Some a) (Some op) host events = Inr (Some c)" and "cm_error c = None"
    and "guest_request on (oq_request (oo_payload op))"
  shows "\<exists>h v p s. at_scope a = ''runtime'' \<and> host = Some h \<and> target_identity (Some h) = Inr (oo_target op) \<and> read_context ctx = Inr v
    \<and> vp_plan v = BundlePlan p \<and> read_op_state get fs h (at_deployment a) (oq_request (oo_payload op)) = Inr s
    \<and> as_reached (assess_guests on p s)"
proof -
  obtain r where r: "at_scope a = ''runtime''" "assess_run get ctx fs (at_deployment a) (Some op) host events = Inr r" "as_reached r"
    using assms(1,2) by (auto simp: observe_runtime_completion_def concluded_def catchE_def bindE_Inr bindE_Inl split: if_splits sum.splits)
  obtain t v h s where s: "target_identity host = Inr t" "oo_target op = t" "read_context ctx = Inr v" "host = Some h"
    "read_back get fs h (at_deployment a) (oq_request (oo_payload op)) = Inr s"
    "assess_runtime_result (oq_request (oo_payload op)) v s events = Inr r"
    using r(2) by (auto simp: assess_run_def bindE_Inr res_simps)
  have q: "read_op_state get fs h (at_deployment a) (oq_request (oo_payload op)) = Inr s"
    using s(5) assms(3) by (auto simp: read_back_def guest_request_def bindE_Inr)
  have "\<exists>p. vp_plan v = BundlePlan p \<and> r = assess_guests on p s"
    using s(6) assms(3) by (cases "vp_plan v") (auto simp: assess_runtime_result_def guest_request_def)
  then show ?thesis using r s q by auto
qed

subsection \<open>The property\<close>

text \<open>
  A guest-firewall operation ends without an error only when the target is the one the
  operation was made for, the plan left no guest out, and every planned guest was read back from
  the host: a guest of the manifest with its name, node and this deployment's marker, no
  template, whose firewall switch and every network card are as requested, with at least one card
  when the firewall is armed.
\<close>

theorem guest_firewall_is_read_back:
  assumes "observe_runtime_completion get ctx fs (Some a) (Some op) host events = Inr (Some c)" and "cm_error c = None"
    and "guest_request on (oq_request (oo_payload op))"
  shows "\<exists>h v p vms declared. host = Some h \<and> target_identity (Some h) = Inr (oo_target op) \<and> read_context ctx = Inr v
    \<and> vp_plan v = BundlePlan p \<and> bp_vmids p \<noteq> [] \<and> bp_missing p = []
    \<and> runtime_targets (sf_vms fs) (sf_networks fs) = Inr (vms, declared)
    \<and> list_all (\<lambda>i. list_ex (\<lambda>vm. rt_vmid vm = i \<and> switched_on_host get h (at_deployment a) on vm) vms) (bp_vmids p)"
proof -
  obtain h v p s where s: "host = Some h" "target_identity (Some h) = Inr (oo_target op)" "read_context ctx = Inr v"
    "vp_plan v = BundlePlan p" "read_op_state get fs h (at_deployment a) (oq_request (oo_payload op)) = Inr s"
    "as_reached (assess_guests on p s)"
    using completionD [OF assms] by blast
  obtain vms declared where t: "runtime_targets (sf_vms fs) (sf_networks fs) = Inr (vms, declared)"
    "rs_vms (os_runtime s) = guests get h vms (at_deployment a) (fo_datacenter (host_firewall get h))"
    using read_op_stateD [OF s(5)] by blast
  show ?thesis using s t assess_guestsD [OF s(6) t(2)] by (auto simp: list_all_iff list_ex_iff)
qed

definition armed_live :: dict where
  "armed_live = [(''vmid'', JInt 300), (''node'', JStr ''pve''), (''name'', JStr ''a''), (''type'', JStr ''qemu'')]"

definition armed_config :: dict where
  "armed_config = [(''name'', JStr ''a''), (''description'', JStr ''range42-deployment:d1''),
     (''net0'', JStr ''virtio=AA,bridge=vmbr0,firewall=1'')]"

definition armed_get :: http_get where
  "armed_get url params =
     map_option (\<lambda>v. \<lparr>hr_status = 200, hr_body = Some (JObj [(''data'', v)])\<rparr>)
       (dget [(''https://p/api2/json/cluster/firewall/options'', JObj [(''enable'', JInt 1)]),
              (''https://p/api2/json/nodes/pve/firewall/options'', JObj [(''enable'', JInt 1)]),
              (''https://p/api2/json/cluster/resources'', JList [JObj armed_live]),
              (''https://p/api2/json/nodes/pve/qemu/300/config'', JObj armed_config),
              (''https://p/api2/json/nodes/pve/qemu/300/firewall/options'', JObj [(''enable'', JInt 1)])] url)"

definition armed_plan :: bundle_plan where
  "armed_plan = (plain_plan ''firewall/in_proxmox/firewall.enable.vm'')
     \<lparr>bp_variables := [(''BUNDLE_VM_ID'', JInt 300)], bp_vmids := [300]\<rparr>"

definition armed_context :: run_context where
  "armed_context = \<lparr>rc_plain_file = True, rc_size = 10, rc_content = Some (True, \<lparr>vp_plan = BundlePlan armed_plan, vp_contract = None\<rparr>)\<rparr>"

definition armed_op :: runtime_operation where
  "armed_op = op_shown\<lparr>oo_payload := \<lparr>oq_request = VmFirewall True 300, oq_acknowledged = False, oq_fingerprint = None\<rparr>\<rparr>"

definition armed_attempt :: attempt where
  "armed_attempt = \<lparr>at_id = ''a1'', at_deployment = ''d1'', at_scope = ''runtime'', at_project_sha = Some ''ab'', at_operation = None,
     at_operation_result = None, at_team_id = None, at_state = ''running'', at_sub_reason = None, at_rc = None, at_started = None,
     at_ended = None, at_cursor = 0, at_pid = None, at_artifact_dir = None\<rparr>"

definition armed_nic :: nic_obs where
  "armed_nic = \<lparr>ni_index = 0, ni_bridge = Some ''vmbr0'', ni_firewall = Some True\<rparr>"

lemma armed_observed:
  "observe_guest armed_get sample_host ''d1'' (Some True) [300 \<mapsto> armed_live] \<lparr>rt_vmid = 300, rt_name = ''a''\<rparr>
     = \<lparr>go_vmid = 300, go_name = ''a'', go_status = Owned, go_firewall = Some True, go_nics = [armed_nic], go_filtering = Some True\<rparr>"
proof -
  have p: "guest_path sample_host \<lparr>rt_vmid = 300, rt_name = ''a''\<rparr> = ''/nodes/pve/qemu/300''" by code_simp
  have c: "read_object armed_get sample_host (''/nodes/pve/qemu/300'' @ ''/config'') = Some armed_config" by code_simp
  have o: "read_object armed_get sample_host (''/nodes/pve/qemu/300'' @ ''/firewall/options'') = Some [(''enable'', JInt 1)]" by code_simp
  have own: "own_config ''d1'' \<lparr>rt_vmid = 300, rt_name = ''a''\<rparr> armed_config" by code_simp
  have n: "nics armed_config = Inr [armed_nic]" by code_simp
  have s: "same_guest sample_host \<lparr>rt_vmid = 300, rt_name = ''a''\<rparr> armed_live" by code_simp
  show ?thesis
    using c o
    by (simp add: observe_guest_def s p own observe_owned_def n guest_as_def jget_def flag_def filtering_def Let_def)
       (simp add: armed_nic_def)
qed

lemma armed_read:
  "live_guests armed_get sample_host = Some [300 \<mapsto> armed_live]"
  "host_firewall armed_get sample_host = \<lparr>fo_datacenter = Some True, fo_node = Some True, fo_errors = False\<rparr>"
proof -
  have "list_proxmox_data armed_get sample_host ''/cluster/resources'' [(''type'', JStr ''vm'')] = Inr [armed_live]" by code_simp
  then show "live_guests armed_get sample_host = Some [300 \<mapsto> armed_live]"
    by (simp add: live_guests_def by_id_def armed_live_def item_def)
  show "host_firewall armed_get sample_host = \<lparr>fo_datacenter = Some True, fo_node = Some True, fo_errors = False\<rparr>" by code_simp
qed

lemma armed_completion:
  "observe_runtime_completion armed_get (Some armed_context) op_sample_files (Some armed_attempt) (Some armed_op) (Some sample_host) []
     = Inr (Some (concluded True False))"
proof -
  have t: "runtime_targets (sf_vms op_sample_files) (sf_networks op_sample_files) = Inr ([\<lparr>rt_vmid = 300, rt_name = ''a''\<rparr>], None)"
    by (simp add: op_sample_files_def runtime_targets_def gen_targets read_plan_def)
  have f: "oo_payload armed_op = \<lparr>oq_request = VmFirewall True 300, oq_acknowledged = False, oq_fingerprint = None\<rparr>"
    "oo_target armed_op = op_sample_target"
    by (simp_all add: armed_op_def op_shown_def)
  have x: "read_context (Some armed_context) = Inr \<lparr>vp_plan = BundlePlan armed_plan, vp_contract = None\<rparr>"
    by (simp add: read_context_def armed_context_def)
  have p: "bp_vmids armed_plan = [300]" "bp_missing armed_plan = []" by (simp_all add: armed_plan_def plain_plan_def)
  have a: "at_deployment armed_attempt = ''d1''" "at_scope armed_attempt = ''runtime''" by (simp_all add: armed_attempt_def)
  have n: "ni_firewall armed_nic = Some True" by (simp add: armed_nic_def)
  show ?thesis
    by (simp add: observe_runtime_completion_def assess_run_def op_target f x read_back_def read_op_state_def read_runtime_state_def t
        armed_read guests_def armed_observed networks_def assess_runtime_result_def assess_guests_def vmid_matches_def guest_matches_def
        p reached_def a n Let_def)
qed

theorem guest_firewall_is_read_back_witness:
  "\<exists>h v p vms declared. Some sample_host = Some h \<and> target_identity (Some h) = Inr (oo_target armed_op)
    \<and> read_context (Some armed_context) = Inr v
    \<and> vp_plan v = BundlePlan p \<and> bp_vmids p \<noteq> [] \<and> bp_missing p = []
    \<and> runtime_targets (sf_vms op_sample_files) (sf_networks op_sample_files) = Inr (vms, declared)
    \<and> list_all (\<lambda>i. list_ex (\<lambda>vm. rt_vmid vm = i \<and> switched_on_host armed_get h (at_deployment armed_attempt) True vm) vms) (bp_vmids p)"
  by (rule guest_firewall_is_read_back [OF armed_completion])
     (simp_all add: concluded_def guest_request_def armed_op_def)

end
