(* ===== verification/Launch.thy ===== *)
theory Launch
  imports Runtime_Completion Events Alloc_Txn Manifest
begin

text \<open>
  From a reserved attempt to a running process and to its end (\<open>app/core/deploy_trigger.py\<close>, with
  \<open>unlock_workspace_keys\<close> of \<open>app/core/ssh_agent.py\<close>): the gates in their order, the secrets known
  before the runner can print them, the inputs of the runner, and what happens to the process and the
  unlocked credentials on every path. The checkout, the decryption of a vault, the commands that
  start an agent or add a key, and the start of the process are parameters with their outcomes.
  The observable steps of a launch are the trace of its state.
\<close>

subsection \<open>Steps and state\<close>

record run_inputs =
  ri_variables :: dict
  ri_environment :: "(string \<times> string) list"

datatype launch_step =
    LockTaken
  | AssignmentsClaimed
  | StartRecorded
  | AgentStarted
  | SecretsSaved "string list"
  | VaultPlaced
  | CleanupRecorded
  | RunnerStarted run_inputs
  | RunnerKilled
  | CredentialsCleaned
  | MarkedRunning
  | EndRecorded
  | AttemptFinished

record launch_state =
  lx_db :: store
  lx_ledger :: alloc_db
  lx_log :: string
  lx_trace :: "launch_step list"

text \<open>A launch may raise, or be cancelled by the shutdown of the service.\<close>

datatype halt = Failed exc | Cancelled

type_synonym 'a launch = "launch_state \<Rightarrow> (halt + 'a) \<times> launch_state"

definition bindL :: "'a launch \<Rightarrow> ('a \<Rightarrow> 'b launch) \<Rightarrow> 'b launch" where
  "bindL m k s = (case m s of (Inl h, s') \<Rightarrow> (Inl h, s') | (Inr x, s') \<Rightarrow> k x s')"

definition returnL :: "'a \<Rightarrow> 'a launch" where
  "returnL x s = (Inr x, s)"

definition haltL :: "halt \<Rightarrow> 'a launch" where
  "haltL h s = (Inl h, s)"

definition liftL :: "'a res \<Rightarrow> 'a launch" where
  "liftL r s = (case r of Inl e \<Rightarrow> (Inl (Failed e), s) | Inr x \<Rightarrow> (Inr x, s))"

definition emit :: "launch_step \<Rightarrow> unit launch" where
  "emit e s = (Inr (), s\<lparr>lx_trace := lx_trace s @ [e]\<rparr>)"

definition cancel_if :: "bool \<Rightarrow> unit launch" where
  "cancel_if b = (if b then haltL Cancelled else returnL ())"

text \<open>\<open>except\<close>: the handler runs on the state that the failure left, then the failure goes on.\<close>

definition on_halt :: "'a launch \<Rightarrow> (halt \<Rightarrow> unit launch) \<Rightarrow> 'a launch" where
  "on_halt m handler s =
     (case m s of
        (Inr x, s') \<Rightarrow> (Inr x, s')
      | (Inl h, s') \<Rightarrow> (Inl h, snd (handler h s')))"

subsection \<open>Unlocking the workspace keys\<close>

record key_world =
  kw_vault :: bool
  kw_keys :: "string list"
  kw_passphrases :: "dict res"
  kw_agent :: "(string \<times> string) list res"
  kw_add :: "string \<Rightarrow> string \<Rightarrow> bool res"

definition suffix_fields :: "(string \<times> string) list" where
  "suffix_fields = [(''ssh_cli.root'', ''ssh_passphrase_px_root''), (''ssh_cli.jump_user'', ''ssh_passphrase_px_jump''),
     (''deployer-key_alice'', ''ssh_passphrase_deployer_admin''), (''student-key_bob'', ''ssh_passphrase_student_user'')]"

definition passphrase_field_for :: "string \<Rightarrow> string option" where
  "passphrase_field_for name =
     (if sublist ''student-key_bob_'' name then Some ''ssh_passphrase_student_user_extra_all''
      else map_option snd (List.find (\<lambda>(ending, field). suffix ending name) suffix_fields))"

definition passphrase_of :: "dict \<Rightarrow> string \<Rightarrow> string" where
  "passphrase_of phrases name =
     (case passphrase_field_for name of
        None \<Rightarrow> []
      | Some field \<Rightarrow> py_str (case dget phrases field of None \<Rightarrow> JStr [] | Some v \<Rightarrow> v))"

definition start_agent :: "key_world \<Rightarrow> (string \<times> string) list launch" where
  "start_agent w = bindL (liftL (kw_agent w)) (\<lambda>env. bindL (emit AgentStarted) (\<lambda>_. returnL env))"

fun add_keys :: "key_world \<Rightarrow> dict \<Rightarrow> string list \<Rightarrow> nat launch" where
  "add_keys w phrases [] = returnL 0"
| "add_keys w phrases (k # ks) =
     bindL (liftL (kw_add w k (passphrase_of phrases k))) (\<lambda>ok.
     bindL (add_keys w phrases ks) (\<lambda>n. returnL (if ok then Suc n else n)))"

text \<open>A decryption that fails, as a command or with an \<open>OSError\<close>, leaves the keys locked.\<close>

definition unlock_workspace_keys :: "key_world \<Rightarrow> (string \<times> string) list option launch" where
  "unlock_workspace_keys w =
     (if \<not> kw_vault w \<or> kw_keys w = [] then returnL None
      else case kw_passphrases w of
        Inl e \<Rightarrow> if e = OSError then returnL None else haltL (Failed e)
      | Inr phrases \<Rightarrow>
          bindL (start_agent w) (\<lambda>env. bindL (add_keys w phrases (kw_keys w)) (\<lambda>n. returnL (Some env))))"

subsection \<open>The outside world of a launch\<close>

record project_scenario =
  ps_files :: scenario_files
  ps_vmids :: "int list"
  ps_native :: bool
  ps_credential :: "string option"
  ps_firewall :: "string + unit"
  ps_capabilities :: "(nat \<times> string) option"
  ps_sdn_installed :: bool
  ps_storage :: "dict res"
  ps_root :: string
  ps_inventory :: string
  ps_playbook :: string

datatype spawn_outcome = Spawned "int option" | NotSpawned exc

datatype cancel_point = AtRecheck | AtSpawn | AtMark

record launch_world =
  lw_ops :: op_world
  lw_recheck :: op_world
  lw_fresh_host :: "registered_host option"
  lw_now :: int
  lw_liveness :: files
  lw_sha :: "string \<Rightarrow> string"
  lw_claim_id :: string
  lw_artifact :: "unit res"
  lw_checkout :: "string \<Rightarrow> project_scenario res"
  lw_playbook :: "string \<Rightarrow> string \<Rightarrow> string res"
  lw_native_command :: "string res"
  lw_native_secrets :: "json res"
  lw_operation :: "runtime_operation option"
  lw_installed :: "(string \<Rightarrow> bool) option"
  lw_target_variables :: "dict res"
  lw_config_dir :: "string res"
  lw_vault_pass :: "string res option"
  lw_keys :: key_world
  lw_save :: "unit res"
  lw_vault :: "bool res"
  lw_record :: "unit res"
  lw_spawn :: spawn_outcome
  lw_pid_file :: "unit res"
  lw_cancel :: "cancel_point option"
  lw_ca :: "string option"
  lw_controlmaster :: "(string \<times> string) list"
  lw_lock_fd :: "string option"
  lw_float :: "rat \<Rightarrow> string"
  lw_decode :: "string \<Rightarrow> string option"
  lw_stamp :: string

subsection \<open>Gates\<close>

definition scope_of_name :: "string \<Rightarrow> Scenario_Resources.scope" where
  "scope_of_name s = (if s = ''full'' then Full else if s = ''teardown'' then Teardown else Configuration)"

definition preflight_blocked :: exc where
  "preflight_blocked = ApiError \<lparr>ae_status = 400, ae_error = ''preflight_blocked'', ae_code = ''PREFLIGHT_BLOCKED''\<rparr>"

definition unblocked :: "pcheck list res \<Rightarrow> unit res" where
  "unblocked checks =
     bindE checks (\<lambda>cs. if list_ex (\<lambda>c. pc_result c = Block) cs then Inl preflight_blocked else Inr ())"

record launch_plan =
  lp_scenario :: "project_scenario option"
  lp_run :: "runtime_run option"
  lp_native :: "string option"
  lp_playbook :: string

definition vmid_gate :: "proxmox_host option \<Rightarrow> int list \<Rightarrow> unit res" where
  "vmid_gate host ids =
     bindE (vmids_block (case host of None \<Rightarrow> None | Some h \<Rightarrow> ph_protected_json h) ids) (\<lambda>blocks.
       if blocks then Inl preflight_blocked else Inr ())"

definition network_gate :: "launch_world \<Rightarrow> project_scenario \<Rightarrow> proxmox_host option \<Rightarrow> string \<Rightarrow> unit res" where
  "network_gate w sc host scope =
     unblocked (check_scenario_networks (ow_get (lw_ops w)) (sf_networks (ps_files sc)) (ps_sdn_installed sc) host (scope_of_name scope))"

definition resource_gate :: "launch_world \<Rightarrow> project_scenario \<Rightarrow> proxmox_host option \<Rightarrow> string \<Rightarrow> string \<Rightarrow> unit res" where
  "resource_gate w sc host dep scope =
     unblocked (check_scenario_resources (ow_get (lw_ops w)) (ps_firewall sc) (ps_capabilities sc) (sf_vms (ps_files sc)) host dep
       (scope_of_name scope))"

definition pinned_plan ::
    "launch_world \<Rightarrow> deployment \<Rightarrow> attempt \<Rightarrow> proxmox_host option \<Rightarrow> project_scenario \<Rightarrow> launch_plan res" where
  "pinned_plan w dep att host sc =
     bindE (vmid_gate host (ps_vmids sc)) (\<lambda>_.
     if ps_native sc
     then bindE (lw_native_command w) (\<lambda>command.
            Inr \<lparr>lp_scenario = Some sc, lp_run = None, lp_native = Some command, lp_playbook = ps_playbook sc\<rparr>)
     else if at_scope att = ''runtime''
     then bindE (prepare_runtime_run (lw_ops w) (lw_installed w) (ps_files sc) dep (at_project_sha att) (lw_operation w) host
                   (map_option proxmox_host.truncate (lw_fresh_host w))) (\<lambda>r.
            Inr \<lparr>lp_scenario = Some sc, lp_run = Some r, lp_native = None, lp_playbook = ''runtime/main.yml''\<rparr>)
     else bindE (network_gate w sc host (at_scope att)) (\<lambda>_.
          bindE (resource_gate w sc host (dep_id dep) (at_scope att)) (\<lambda>_.
            Inr \<lparr>lp_scenario = Some sc, lp_run = None, lp_native = None, lp_playbook = ps_playbook sc\<rparr>)))"

text \<open>A configuration run may use its own revision; every other pinned run uses the deployment's.\<close>

definition attempt_revision :: "deployment \<Rightarrow> attempt \<Rightarrow> string" where
  "attempt_revision dep att =
     (case (if at_scope att = ''configure'' then at_project_sha att else None) of
        Some s \<Rightarrow> if s = [] then the (dep_project_sha dep) else s
      | None \<Rightarrow> the (dep_project_sha dep))"

definition make_plan :: "launch_world \<Rightarrow> deployment \<Rightarrow> attempt \<Rightarrow> registered_host option \<Rightarrow> launch_plan res" where
  "make_plan w dep att host =
     (if str_given (dep_project_sha dep)
      then bindE (lw_checkout w (attempt_revision dep att)) (pinned_plan w dep att (map_option proxmox_host.truncate host))
      else bindE (lw_playbook w (dep_scenario_label dep) (at_scope att)) (\<lambda>path.
             Inr \<lparr>lp_scenario = None, lp_run = None, lp_native = None, lp_playbook = path\<rparr>))"

subsection \<open>What the runner is given\<close>

fun strings_of :: "json \<Rightarrow> string list" where
  "strings_of (JObj d) = concat (map (\<lambda>(k, v). strings_of v) d)"
| "strings_of (JList xs) = concat (map strings_of xs)"
| "strings_of (JStr s) = (if 4 \<le> length s then [s] else [])"
| "strings_of _ = []"

definition text_of :: "json \<Rightarrow> string" where
  "text_of v = (case v of JStr s \<Rightarrow> s | _ \<Rightarrow> [])"

text \<open>A password file that cannot be opened is passed over; one that cannot be decoded is not.\<close>

definition vault_secret :: "launch_world \<Rightarrow> string list res" where
  "vault_secret w =
     (case lw_vault_pass w of
        None \<Rightarrow> Inr []
      | Some r \<Rightarrow> catchE (\<lambda>e. e = OSError) (bindE r (\<lambda>s. Inr [strip s])) (Inr []))"

definition credential_secrets :: "project_scenario option \<Rightarrow> string list" where
  "credential_secrets sc =
     (case sc of
        None \<Rightarrow> []
      | Some x \<Rightarrow>
          (case ps_credential x of
             None \<Rightarrow> []
           | Some c \<Rightarrow> if c = [] then [] else [c, url_quote c]))"

text \<open>\<open>variables[key]\<close> of the target's variables, a missing one is an error.\<close>

definition target_secret :: "dict \<Rightarrow> string \<Rightarrow> string res" where
  "target_secret vars k = bindE (item vars k) (\<lambda>v. Inr (text_of v))"

record secrets_and_inputs =
  si_secrets :: "string list"
  si_variables :: dict
  si_environment :: "(string \<times> string) list"

definition base_environment :: "launch_world \<Rightarrow> attempt \<Rightarrow> (string \<times> string) list" where
  "base_environment w att =
     (let env = dupdate [(''RANGE42_TRACE_ID'', at_id att), (''ANSIBLE_FORKS'', ''25''), (''ANSIBLE_PIPELINING'', ''True'')]
                  (case lw_ca w of None \<Rightarrow> [] | Some ca \<Rightarrow> [(''SSL_CERT_FILE'', ca), (''REQUESTS_CA_BUNDLE'', ca)]);
          env = dupdate env (lw_controlmaster w);
          env = (case lw_lock_fd w of None \<Rightarrow> env | Some fd \<Rightarrow> dset ''RANGE42_PROVISIONING_LOCK_FD'' fd env)
      in if lw_vault_pass w = None then env else dset ''ANSIBLE_VAULT_PASSWORD_FILE'' ''secrets/vault_pass.txt'' env)"

definition opt_int :: "int option \<Rightarrow> json" where
  "opt_int i = (case i of None \<Rightarrow> JNull | Some n \<Rightarrow> JInt n)"

definition base_variables :: "deployment \<Rightarrow> attempt \<Rightarrow> string \<Rightarrow> dict" where
  "base_variables dep att playbook =
     (let vars = [(''r42_deployment_id'', JStr (dep_id dep)), (''r42_attempt_id'', JStr (at_id att)), (''r42_scope'', JStr (at_scope att)),
                  (''r42_team_id'', opt_int (at_team_id att)), (''r42_playbook_path'', JStr playbook),
                  (''team_count'', JInt (if dep_team_count dep = 0 then 1 else dep_team_count dep))]
      in case at_operation att of
           Some (JObj op) \<Rightarrow>
             if \<not> str_given (dep_project_sha dep) \<and> jget op ''kind'' = JStr ''legacy''
             then (case dget op ''variables'' of Some (JObj more_vars) \<Rightarrow> dupdate vars more_vars | _ \<Rightarrow> vars) else vars
         | _ \<Rightarrow> vars)"

definition native_inputs :: "launch_world \<Rightarrow> string \<Rightarrow> secrets_and_inputs \<Rightarrow> secrets_and_inputs res" where
  "native_inputs w command si =
     bindE (lw_native_secrets w) (\<lambda>vals.
       Inr (si\<lparr>si_secrets := si_secrets si @ strings_of vals,
              si_variables := dset ''r42_native_command'' (JStr command) (dpop ''r42_playbook_path'' (si_variables si))\<rparr>))"

definition pinned_inputs ::
    "launch_world \<Rightarrow> deployment \<Rightarrow> attempt \<Rightarrow> registered_host option \<Rightarrow> project_scenario \<Rightarrow> runtime_run option \<Rightarrow> secrets_and_inputs
       \<Rightarrow> secrets_and_inputs res" where
  "pinned_inputs w dep att host sc r si =
     bindE (lw_target_variables w) (\<lambda>tv.
     bindE (case r of None \<Rightarrow> Inr [] | Some x \<Rightarrow> run_variables (vp_plan (rr_plan x))) (\<lambda>rv.
     bindE (if at_scope att = ''full'' then ps_storage sc else Inr []) (\<lambda>sv.
     bindE (of_opt AttributeError host) (\<lambda>h.
     bindE (target_secret tv ''proxmox_api_token_secret'') (\<lambda>token.
     bindE (target_secret tv ''default_admin_vm_ci_password'') (\<lambda>password.
     bindE (if r = None then lw_config_dir w else Inr ''runtime/config'') (\<lambda>cfg.
     let vars = dupdate (dupdate (dupdate (si_variables si) tv) rv) sv;
         vars = dset ''r42_project_dir'' (JStr (if r = None then ps_root sc else ''runtime'')) vars;
         vars = dset ''r42_inventory_path'' (JStr (if r = None then ps_inventory sc else ''runtime/hosts.yml'')) vars
     in Inr (si\<lparr>si_secrets := si_secrets si @ [rh_token_ref h, token, password],
               si_variables := dset ''r42_workspace_dir'' (JStr (dep_workspace dep)) vars,
               si_environment := dset ''RANGE42_ACTIVE_CONFIG_DIR'' cfg (si_environment si)\<rparr>))))))))"

definition launch_inputs ::
    "launch_world \<Rightarrow> deployment \<Rightarrow> attempt \<Rightarrow> registered_host option \<Rightarrow> launch_plan \<Rightarrow> secrets_and_inputs res" where
  "launch_inputs w dep att host p =
     bindE (vault_secret w) (\<lambda>known.
     let si = \<lparr>si_secrets = known, si_variables = base_variables dep att (lp_playbook p),
                si_environment = base_environment w att\<rparr>
      in bindE (case (lp_native p, lp_scenario p) of
             (Some command, _) \<Rightarrow> native_inputs w command si
           | (None, Some sc) \<Rightarrow> pinned_inputs w dep att host sc (lp_run p) si
           | (None, None) \<Rightarrow> Inr (si\<lparr>si_variables := dset ''r42_inventory_dir'' (JStr (dep_workspace dep @ ''/inventory'')) (si_variables si)\<rparr>))
           (\<lambda>si. Inr (si\<lparr>si_secrets := si_secrets si @ credential_secrets (lp_scenario p)\<rparr>)))"

text \<open>What is saved for redaction: the known secrets that are not empty, each once, sorted.\<close>

definition saved_secrets :: "string list \<Rightarrow> string list" where
  "saved_secrets xs = sort (remdups (filter (\<lambda>s. s \<noteq> []) xs))"

subsection \<open>Starting\<close>

definition with_db :: "(store \<Rightarrow> store res) \<Rightarrow> unit launch" where
  "with_db f s = (case f (lx_db s) of Inl e \<Rightarrow> (Inl (Failed e), s) | Inr db \<Rightarrow> (Inr (), s\<lparr>lx_db := db\<rparr>))"

definition take_lock :: "launch_world \<Rightarrow> deployment \<Rightarrow> attempt \<Rightarrow> unit launch" where
  "take_lock w dep att =
     bindL (with_db (acquire_lock (lw_liveness w) (lw_now w) (dep_id dep) (attempt_owner (at_id att)) 30)) (\<lambda>_. emit LockTaken)"

definition deployment_ref_of :: "deployment \<Rightarrow> deployment_ref" where
  "deployment_ref_of dep = \<lparr>dp_id = dep_id dep, dp_host = dep_target_host_id dep, dp_sha = the (dep_project_sha dep)\<rparr>"

definition claim_assignments :: "launch_world \<Rightarrow> deployment \<Rightarrow> attempt \<Rightarrow> registered_host option \<Rightarrow> launch_plan \<Rightarrow> unit launch" where
  "claim_assignments w dep att host p =
     (case lp_scenario p of
        None \<Rightarrow> returnL ()
      | Some sc \<Rightarrow>
          if ps_native sc then returnL ()
          else bindL (liftL (of_opt AttributeError host)) (\<lambda>h.
               bindL (\<lambda>s. case ensure_for_attempt (lw_sha w) (lw_now w) (lw_claim_id w) (manifest_assignments (sf_vms (ps_files sc)))
                             (deployment_ref_of dep) (at_scope att = ''full'') (proxmox_host.truncate h) (lx_ledger s) of
                        Inl e \<Rightarrow> (Inl (Failed e), s)
                      | Inr l \<Rightarrow> (Inr (), s\<lparr>lx_ledger := l\<rparr>)) (\<lambda>_. emit AssignmentsClaimed)))"

definition start_event :: "attempt \<Rightarrow> dict" where
  "start_event att =
     [(''event_type'', JStr ''attempt_start''),
      (''payload'', JObj ([(''scope'', JStr (at_scope att)), (''team_id'', opt_int (at_team_id att))]
         @ (case at_operation att of None \<Rightarrow> [] | Some op \<Rightarrow> if truthy op then [(''operation'', op)] else [])))]"

definition log_event :: "launch_world \<Rightarrow> dict \<Rightarrow> deployment \<Rightarrow> attempt \<Rightarrow> launch_step \<Rightarrow> int launch" where
  "log_event w event dep att e s =
     (case append_event (lw_float w) (lw_stamp w) event (at_id att) (Some (dep_id dep)) (open_writer (lw_decode w) (lx_log s)) of
        (writer, Inl x) \<Rightarrow> (Inl (Failed x), s\<lparr>lx_log := ew_file writer\<rparr>)
      | (writer, Inr n) \<Rightarrow> bindL (emit e) (\<lambda>_. returnL n) (s\<lparr>lx_log := ew_file writer\<rparr>))"

definition get_agent :: "launch_world \<Rightarrow> launch_plan \<Rightarrow> (string \<times> string) list option launch" where
  "get_agent w p =
     (if lp_native p \<noteq> None then bindL (start_agent (lw_keys w)) (\<lambda>env. returnL (Some env))
      else if lw_vault_pass w \<noteq> None then unlock_workspace_keys (lw_keys w) else returnL None)"

definition place_vault :: "launch_world \<Rightarrow> launch_plan \<Rightarrow> unit launch" where
  "place_vault w p =
     (case lp_scenario p of
        None \<Rightarrow> returnL ()
      | Some sc \<Rightarrow>
          if ps_native sc then returnL ()
          else bindL (liftL (lw_vault w)) (\<lambda>placed. if placed then emit VaultPlaced else returnL ()))"

definition recheck :: "launch_world \<Rightarrow> deployment \<Rightarrow> attempt \<Rightarrow> registered_host option \<Rightarrow> launch_plan \<Rightarrow> unit launch" where
  "recheck w dep att host p =
     (case (lp_run p, lp_scenario p) of
        (Some r, Some sc) \<Rightarrow>
          bindL (cancel_if (lw_cancel w = Some AtRecheck)) (\<lambda>_.
            liftL (recheck_runtime_run (lw_recheck w) (ps_files sc) dep (at_project_sha att) (lw_operation w)
              (map_option proxmox_host.truncate host) (map_option proxmox_host.truncate (lw_fresh_host w)) r))
      | _ \<Rightarrow> returnL ())"

text \<open>Everything before the process exists.\<close>

definition before_spawn :: "launch_world \<Rightarrow> deployment \<Rightarrow> attempt \<Rightarrow> registered_host option \<Rightarrow> launch_plan \<Rightarrow> string list \<Rightarrow> unit launch" where
  "before_spawn w dep att host p secrets =
     bindL (liftL (lw_save w)) (\<lambda>_. bindL (emit (SecretsSaved (saved_secrets secrets))) (\<lambda>_.
     bindL (place_vault w p) (\<lambda>_.
     bindL (liftL (lw_record w)) (\<lambda>_. bindL (emit CleanupRecorded) (\<lambda>_.
       recheck w dep att host p)))))"

text \<open>A cancellation while the process is started waits for its handle; the error of a failed start wins.\<close>

definition spawn :: "launch_world \<Rightarrow> run_inputs \<Rightarrow> int option launch" where
  "spawn w inputs =
     (case lw_spawn w of
        NotSpawned e \<Rightarrow> haltL (Failed e)
      | Spawned pid \<Rightarrow> bindL (emit (RunnerStarted inputs)) (\<lambda>_. returnL pid))"

definition mark_running :: "launch_world \<Rightarrow> attempt \<Rightarrow> int option \<Rightarrow> bool launch" where
  "mark_running w att pid s =
     (case mark_attempt_running (lw_now w) (at_id att) pid (''runner/'' @ at_id att) (lx_db s) of
        (ok, db) \<Rightarrow> (if ok then bindL (emit MarkedRunning) (\<lambda>_. returnL True) else returnL False) (s\<lparr>lx_db := db\<rparr>))"

definition finish_with :: "launch_world \<Rightarrow> string \<Rightarrow> finish_args \<Rightarrow> unit launch" where
  "finish_with w i args s = emit AttemptFinished (s\<lparr>lx_db := snd (finish_attempt (lw_now w) i args (lx_db s))\<rparr>)"

definition kill_and_clean :: "unit launch" where
  "kill_and_clean = bindL (emit RunnerKilled) (\<lambda>_. emit CredentialsCleaned)"

text \<open>From the process to the running attempt; \<open>False\<close> when a cancellation came first.\<close>

definition after_spawn :: "launch_world \<Rightarrow> attempt \<Rightarrow> int option \<Rightarrow> bool launch" where
  "after_spawn w att pid =
     bindL (cancel_if (lw_cancel w = Some AtSpawn)) (\<lambda>_.
     bindL (liftL (lw_pid_file w)) (\<lambda>_.
     bindL (cancel_if (lw_cancel w = Some AtMark)) (\<lambda>_.
     bindL (mark_running w att pid) (\<lambda>running.
     if running then returnL True
     else bindL kill_and_clean (\<lambda>_. bindL (finish_with w (at_id att) finish_defaults) (\<lambda>_. returnL False))))))"

definition on_failure :: "bool \<Rightarrow> halt \<Rightarrow> unit launch" where
  "on_failure spawned h =
     (case h of
        Cancelled \<Rightarrow> if spawned then returnL () else emit CredentialsCleaned
      | Failed e \<Rightarrow> if spawned then kill_and_clean else emit CredentialsCleaned)"

definition run_phase ::
    "launch_world \<Rightarrow> deployment \<Rightarrow> attempt \<Rightarrow> registered_host option \<Rightarrow> launch_plan \<Rightarrow> string list \<Rightarrow> run_inputs \<Rightarrow> bool launch" where
  "run_phase w dep att host p secrets inputs =
     bindL (on_halt (bindL (before_spawn w dep att host p secrets) (\<lambda>_. spawn w inputs)) (on_failure False)) (\<lambda>pid.
       on_halt (after_spawn w att pid) (on_failure True))"

definition agent_environment :: "(string \<times> string) list option \<Rightarrow> secrets_and_inputs \<Rightarrow> run_inputs" where
  "agent_environment agent si =
     \<lparr>ri_variables = si_variables si,
      ri_environment = (case agent of None \<Rightarrow> si_environment si | Some env \<Rightarrow> dupdate (si_environment si) env)\<rparr>"

text \<open>\<open>_start_attempt\<close>, from its plan on, from its lock on, and as a whole: true when the attempt is running.\<close>

definition launch_planned :: "launch_world \<Rightarrow> deployment \<Rightarrow> attempt \<Rightarrow> registered_host option \<Rightarrow> launch_plan \<Rightarrow> bool launch" where
  "launch_planned w dep att host p =
     bindL (claim_assignments w dep att host p) (\<lambda>_.
     bindL (log_event w (start_event att) dep att StartRecorded) (\<lambda>_.
     bindL (liftL (launch_inputs w dep att host p)) (\<lambda>si.
     bindL (get_agent w p) (\<lambda>agent.
       run_phase w dep att host p (si_secrets si) (agent_environment agent si)))))"

definition launch_locked :: "launch_world \<Rightarrow> deployment \<Rightarrow> attempt \<Rightarrow> registered_host option \<Rightarrow> bool launch" where
  "launch_locked w dep att host =
     bindL (liftL (lw_artifact w)) (\<lambda>_.
     bindL (take_lock w dep att) (\<lambda>_.
     bindL (liftL (make_plan w dep att host)) (launch_planned w dep att host)))"

definition start_attempt_inner :: "launch_world \<Rightarrow> attempt \<Rightarrow> bool launch" where
  "start_attempt_inner w att s =
     (bindL (liftL (of_opt RuntimeError (get_deployment (lx_db s) (at_deployment att)))) (\<lambda>dep.
      bindL (liftL (validate_concrete_scope dep (at_scope att))) (\<lambda>_.
        launch_locked w dep att (get_host (lx_db s) (dep_target_host_id dep))))) s"

definition error_code_of :: "exc \<Rightarrow> string" where
  "error_code_of e = (case e of ApiError x \<Rightarrow> ae_code x | _ \<Rightarrow> ''ATTEMPT_START_FAILED'')"

text \<open>\<open>start_attempt\<close>: a failure, but not a cancellation, ends the attempt. \<open>fenced\<close> is the installation's lock.\<close>

definition start_attempt :: "launch_world \<Rightarrow> unit res \<Rightarrow> attempt \<Rightarrow> bool launch" where
  "start_attempt w fenced att =
     on_halt (\<lambda>s.
       (bindL (liftL (of_opt AttributeError (get_deployment (lx_db s) (at_deployment att)))) (\<lambda>dep.
        bindL (liftL (validate_concrete_scope dep (at_scope att))) (\<lambda>_.
        bindL (liftL (if str_given (dep_project_sha dep) \<and> (is_native dep \<or> at_scope att \<in> {''full'', ''runtime''}) then fenced else Inr ()))
          (\<lambda>_. start_attempt_inner w att)))) s)
     (\<lambda>h. case h of
        Cancelled \<Rightarrow> returnL ()
      | Failed e \<Rightarrow> finish_with w (at_id att) (finish_defaults\<lparr>fa_error := Some (error_code_of e)\<rparr>))"

subsection \<open>The end of a run\<close>

text \<open>
  What the monitor sees: how the wait for the process ended, whether the events could be streamed, the
  readback of a runtime operation, and whether the observation was cancelled.
\<close>

record run_end =
  re_wait :: "int res"
  re_stream_failed :: bool
  re_completion :: "completion option res"
  re_cancelled :: bool

definition end_event :: "string option \<Rightarrow> int \<Rightarrow> dict" where
  "end_event state rc =
     [(''event_type'', JStr ''attempt_end''),
      (''payload'', JObj [(''terminal_state'', case state of None \<Rightarrow> JNull | Some t \<Rightarrow> JStr t), (''rc'', JInt rc)])]"

definition completed_args :: "int \<Rightarrow> bool \<Rightarrow> completion option \<Rightarrow> finish_args" where
  "completed_args rc stream_failed c =
     finish_defaults\<lparr>fa_rc := Some rc, fa_warning := (if stream_failed then Some ''EVENT_STREAM_FAILED'' else None),
       fa_partial := (case c of None \<Rightarrow> False | Some x \<Rightarrow> cm_partial x),
       fa_error := (case c of None \<Rightarrow> None | Some x \<Rightarrow> cm_error x)\<rparr>"

definition conclude_run :: "launch_world \<Rightarrow> deployment \<Rightarrow> attempt \<Rightarrow> bool \<Rightarrow> int \<Rightarrow> run_end \<Rightarrow> unit launch" where
  "conclude_run w dep att is_runtime rc seen =
     bindL (emit CredentialsCleaned) (\<lambda>_.
     bindL (if is_runtime then liftL (re_completion seen) else returnL None) (\<lambda>c.
     bindL (\<lambda>s. case finish_attempt (lw_now w) (at_id att) (completed_args rc (re_stream_failed seen) c) (lx_db s) of
               (state, db) \<Rightarrow> (Inr state, s\<lparr>lx_db := db\<rparr>)) (\<lambda>state.
     bindL (log_event w (end_event state rc) dep att EndRecorded) (\<lambda>cursor.
       finish_with w (at_id att) (finish_defaults\<lparr>fa_rc := Some rc, fa_cursor := Some cursor\<rparr>)))))"

definition monitor_failed :: "launch_world \<Rightarrow> attempt \<Rightarrow> int option \<Rightarrow> unit launch" where
  "monitor_failed w att rc =
     bindL kill_and_clean (\<lambda>_. finish_with w (at_id att) (finish_defaults\<lparr>fa_rc := rc, fa_error := Some ''ATTEMPT_MONITOR_FAILED''\<rparr>))"

definition monitor_run :: "launch_world \<Rightarrow> deployment \<Rightarrow> attempt \<Rightarrow> bool \<Rightarrow> run_end \<Rightarrow> unit launch" where
  "monitor_run w dep att is_runtime seen s =
     (if re_cancelled seen then (Inl Cancelled, s)
      else case re_wait seen of
        Inl e \<Rightarrow> bindL (monitor_failed w att None) (\<lambda>_. emit CredentialsCleaned) s
      | Inr rc \<Rightarrow>
          (case conclude_run w dep att is_runtime rc seen s of
             (Inr _, s') \<Rightarrow> emit CredentialsCleaned s'
           | (Inl h, s') \<Rightarrow> bindL (monitor_failed w att (Some rc)) (\<lambda>_. emit CredentialsCleaned) s'))"

subsection \<open>What a launch leaves in its trace\<close>

text \<open>\<open>yields m P\<close>: whatever the state, \<open>m\<close> extends the trace, and \<open>P\<close> holds of the new part and the result.\<close>

definition yields :: "'a launch \<Rightarrow> (launch_step list \<Rightarrow> halt + 'a \<Rightarrow> bool) \<Rightarrow> bool" where
  "yields m P = (\<forall>s. \<exists>tr. lx_trace (snd (m s)) = lx_trace s @ tr \<and> P tr (fst (m s)))"

named_theorems yields_rules \<open>what the steps of a launch leave in its trace\<close>

lemma yieldsD:
  assumes "yields m P" and "m s = (r, s')"
  shows "\<exists>tr. lx_trace s' = lx_trace s @ tr \<and> P tr r"
  using assms unfolding yields_def by (metis fst_conv snd_conv)

lemma yields_weaken: "yields m P \<Longrightarrow> (\<And>tr r. P tr r \<Longrightarrow> Q tr r) \<Longrightarrow> yields m Q"
  unfolding yields_def by blast

lemma yields_bind:
  assumes "yields m P" and "\<And>x. yields (k x) (Q x)" and "\<And>tr h. P tr (Inl h) \<Longrightarrow> R tr (Inl h)"
    and "\<And>tr x tr' r. P tr (Inr x) \<Longrightarrow> Q x tr' r \<Longrightarrow> R (tr @ tr') r"
  shows "yields (bindL m k) R"
  unfolding yields_def
proof
  fix s
  obtain r s1 where m: "m s = (r, s1)" by (cases "m s")
  then obtain tr where tr: "lx_trace s1 = lx_trace s @ tr" "P tr r" using yieldsD [OF assms(1)] by blast
  show "\<exists>tr. lx_trace (snd (bindL m k s)) = lx_trace s @ tr \<and> R tr (fst (bindL m k s))"
  proof (cases r)
    case (Inl h)
    then show ?thesis using m tr assms(3) by (auto simp: bindL_def)
  next
    case (Inr x)
    obtain r' s2 where k: "k x s1 = (r', s2)" by (cases "k x s1")
    then obtain tr' where "lx_trace s2 = lx_trace s1 @ tr'" "Q x tr' r'" using yieldsD [OF assms(2)] by blast
    then show ?thesis using m tr k Inr assms(4) by (auto simp: bindL_def)
  qed
qed

lemma yields_on_halt:
  assumes "yields m P" and "\<And>h. yields (f h) (\<lambda>tr r. Q h tr)" and "\<And>tr x. P tr (Inr x) \<Longrightarrow> R tr (Inr x)"
    and "\<And>tr h tr'. P tr (Inl h) \<Longrightarrow> Q h tr' \<Longrightarrow> R (tr @ tr') (Inl h)"
  shows "yields (on_halt m f) R"
  unfolding yields_def
proof
  fix s
  obtain r s1 where m: "m s = (r, s1)" by (cases "m s")
  then obtain tr where tr: "lx_trace s1 = lx_trace s @ tr" "P tr r" using yieldsD [OF assms(1)] by blast
  show "\<exists>tr. lx_trace (snd (on_halt m f s)) = lx_trace s @ tr \<and> R tr (fst (on_halt m f s))"
  proof (cases r)
    case (Inr x)
    then show ?thesis using m tr assms(3) by (auto simp: on_halt_def)
  next
    case (Inl h)
    obtain r' s2 where k: "f h s1 = (r', s2)" by (cases "f h s1")
    then obtain tr' where "lx_trace s2 = lx_trace s1 @ tr'" "Q h tr'" using yieldsD [OF assms(2)] by blast
    then show ?thesis using m tr k Inl assms(4) by (auto simp: on_halt_def)
  qed
qed

lemma yields_steps [yields_rules]:
  "yields (emit e) (\<lambda>tr r. tr = [e] \<and> r = Inr ())"
  "yields (returnL x) (\<lambda>tr r. tr = [] \<and> r = Inr x)"
  "yields (haltL h) (\<lambda>tr r. tr = [] \<and> r = Inl h)"
  "yields (liftL q) (\<lambda>tr r. tr = [] \<and> (case q of Inl e \<Rightarrow> r = Inl (Failed e) | Inr x \<Rightarrow> r = Inr x))"
  "yields (with_db f) (\<lambda>tr r. tr = [] \<and> r \<noteq> Inl Cancelled)"
  by (auto simp: yields_def emit_def returnL_def haltL_def liftL_def with_db_def split: sum.split)

fun is_start :: "launch_step \<Rightarrow> bool" where
  "is_start (RunnerStarted i) = True"
| "is_start _ = False"

abbreviation started :: "launch_step list \<Rightarrow> bool" where
  "started tr \<equiv> list_ex is_start tr"

text \<open>Nothing started is left behind: who was started was killed, and the credentials were cleaned up.\<close>

definition cleared_away :: "launch_step list \<Rightarrow> bool" where
  "cleared_away tr = (CredentialsCleaned \<in> set tr \<and> (started tr \<longrightarrow> RunnerKilled \<in> set tr))"

definition settled :: "launch_step list \<Rightarrow> halt + bool \<Rightarrow> bool" where
  "settled tr r =
     (case r of
        Inr True \<Rightarrow> started tr \<and> MarkedRunning \<in> set tr \<and> RunnerKilled \<notin> set tr \<and> CredentialsCleaned \<notin> set tr
      | Inl Cancelled \<Rightarrow> cleared_away tr \<or> started tr \<and> CredentialsCleaned \<notin> set tr
      | _ \<Rightarrow> cleared_away tr)"

text \<open>A step of the preparation starts nothing, kills nothing and cleans nothing.\<close>

definition preparing :: "launch_step list \<Rightarrow> bool" where
  "preparing tr = (\<not> started tr \<and> set tr \<inter> {RunnerKilled, CredentialsCleaned, MarkedRunning} = {})"

lemma preparing_append [simp]: "preparing (a @ b) \<longleftrightarrow> preparing a \<and> preparing b"
  by (auto simp: preparing_def)

lemma preparing_single [simp]:
  "preparing [LockTaken]" "preparing [AssignmentsClaimed]" "preparing [StartRecorded]" "preparing [AgentStarted]"
  "preparing [SecretsSaved xs]" "preparing [VaultPlaced]" "preparing [CleanupRecorded]" "preparing []"
  by (simp_all add: preparing_def)

lemma preparing_bind:
  "yields m (\<lambda>tr r. preparing tr) \<Longrightarrow> (\<And>x. yields (k x) (\<lambda>tr r. preparing tr)) \<Longrightarrow> yields (bindL m k) (\<lambda>tr r. preparing tr)"
  by (erule yields_bind) auto

lemma preparing_steps [yields_rules]:
  "preparing [e] \<Longrightarrow> yields (emit e) (\<lambda>tr r. preparing tr)"
  "yields (returnL x) (\<lambda>tr r. preparing tr)" "yields (liftL q) (\<lambda>tr r. preparing tr)" "yields (haltL h) (\<lambda>tr r. preparing tr)"
  "yields (with_db f) (\<lambda>tr r. preparing tr)" "yields (cancel_if b) (\<lambda>tr r. preparing tr)"
  by (rule yields_weaken [OF yields_steps(1)] yields_weaken [OF yields_steps(2)] yields_weaken [OF yields_steps(4)]
      yields_weaken [OF yields_steps(3)] yields_weaken [OF yields_steps(5)], force simp: preparing_def)+
     (cases b; simp add: cancel_if_def yields_def returnL_def haltL_def preparing_def)

lemma prepares:
  "yields (take_lock w dep att) (\<lambda>tr r. preparing tr)"
  "yields (start_agent kw) (\<lambda>tr r. preparing tr)"
  "yields (place_vault w p) (\<lambda>tr r. preparing tr)"
  "yields (recheck w dep att host p) (\<lambda>tr r. preparing tr)"
  by (auto simp: take_lock_def start_agent_def place_vault_def recheck_def
      intro!: preparing_bind preparing_steps split: option.splits)

lemma add_keys_prepares: "yields (add_keys w phrases ks) (\<lambda>tr r. preparing tr)"
  by (induction ks) (auto intro!: preparing_bind preparing_steps)

lemma unlock_prepares: "yields (unlock_workspace_keys w) (\<lambda>tr r. preparing tr)"
  by (auto simp: unlock_workspace_keys_def intro!: preparing_bind preparing_steps prepares add_keys_prepares split: option.splits sum.splits)

lemma before_spawn_prepares: "yields (before_spawn w dep att host p secrets) (\<lambda>tr r. preparing tr)"
  by (auto simp: before_spawn_def intro!: preparing_bind preparing_steps prepares)

lemma spawn_yields:
  "yields (spawn w inputs) (\<lambda>tr r. case r of Inr pid \<Rightarrow> tr = [RunnerStarted inputs] | Inl h \<Rightarrow> tr = [] \<and> h \<noteq> Cancelled)"
  by (auto simp: yields_def spawn_def haltL_def bindL_def emit_def returnL_def split: spawn_outcome.splits)

lemma finish_with_yields: "yields (finish_with w i args) (\<lambda>tr r. tr = [AttemptFinished] \<and> r = Inr ())"
  by (simp add: yields_def finish_with_def emit_def)

lemma kill_and_clean_yields: "yields kill_and_clean (\<lambda>tr r. tr = [RunnerKilled, CredentialsCleaned] \<and> r = Inr ())"
  by (simp add: yields_def kill_and_clean_def bindL_def emit_def)

lemma mark_running_yields: "yields (mark_running w att pid) (\<lambda>tr r. \<exists>b. r = Inr b \<and> tr = (if b then [MarkedRunning] else []))"
  by (auto simp: yields_def mark_running_def bindL_def emit_def returnL_def split: prod.splits)

text \<open>What follows the start of the process; a failure in it is handled by the caller.\<close>

definition followed :: "launch_step list \<Rightarrow> halt + bool \<Rightarrow> bool" where
  "followed tr r =
     (\<not> started tr
      \<and> (case r of
           Inr True \<Rightarrow> MarkedRunning \<in> set tr \<and> RunnerKilled \<notin> set tr \<and> CredentialsCleaned \<notin> set tr
         | Inr False \<Rightarrow> RunnerKilled \<in> set tr \<and> CredentialsCleaned \<in> set tr
         | Inl h \<Rightarrow> CredentialsCleaned \<notin> set tr))"

lemma after_spawn_yields: "yields (after_spawn w att pid) followed"
proof -
  have stopped: "yields (bindL kill_and_clean (\<lambda>_. bindL (finish_with w (at_id att) finish_defaults) (\<lambda>_. returnL False)))
      (\<lambda>tr r. tr = [RunnerKilled, CredentialsCleaned, AttemptFinished] \<and> r = Inr False)"
    by (rule yields_bind [OF kill_and_clean_yields yields_bind [OF finish_with_yields yields_steps(2)]]) auto
  have marked: "yields (bindL (mark_running w att pid) (\<lambda>running. if running then returnL True
       else bindL kill_and_clean (\<lambda>_. bindL (finish_with w (at_id att) finish_defaults) (\<lambda>_. returnL False)))) followed"
  proof (rule yields_bind [OF mark_running_yields])
    fix b
    show "yields (if b then returnL True
        else bindL kill_and_clean (\<lambda>_. bindL (finish_with w (at_id att) finish_defaults) (\<lambda>_. returnL False)))
       (\<lambda>tr r. if b then tr = [] \<and> r = Inr True else tr = [RunnerKilled, CredentialsCleaned, AttemptFinished] \<and> r = Inr False)"
      using stopped yields_steps(2) [of True] by simp
  qed (auto simp: followed_def split: if_splits)
  have prep: "yields m (\<lambda>tr r. tr = []) \<Longrightarrow> (\<And>x. yields (k x) followed) \<Longrightarrow> yields (bindL m k) followed"
    for m :: "unit launch" and k
    by (erule yields_bind, assumption) (auto simp: followed_def)
  have silent: "yields (cancel_if b) (\<lambda>tr r. tr = [])" "yields (liftL q) (\<lambda>tr r. tr = [])" for b and q :: "unit res"
    by (auto simp: yields_def cancel_if_def haltL_def returnL_def liftL_def split: sum.split)
  show ?thesis unfolding after_spawn_def by (intro prep silent marked)
qed

lemma run_phase_settled: "yields (run_phase w dep att host p secrets inputs) settled"
proof -
  let ?before = "bindL (before_spawn w dep att host p secrets) (\<lambda>_. spawn w inputs)"
  have b: "yields ?before (\<lambda>tr r. case r of
       Inr pid \<Rightarrow> started tr \<and> RunnerKilled \<notin> set tr \<and> CredentialsCleaned \<notin> set tr | Inl h \<Rightarrow> \<not> started tr)"
    by (rule yields_bind [OF before_spawn_prepares spawn_yields]) (auto simp: preparing_def split: sum.splits)
  have cleaned: "yields (on_failure False h) (\<lambda>tr r. tr = [CredentialsCleaned])"
    "yields (on_failure True h) (\<lambda>tr r. tr = (if h = Cancelled then [] else [RunnerKilled, CredentialsCleaned]))" for h
    by (cases h; simp add: on_failure_def yields_def emit_def returnL_def kill_and_clean_def bindL_def)+
  have before: "yields (on_halt ?before (on_failure False)) (\<lambda>tr r. case r of
       Inr pid \<Rightarrow> started tr \<and> RunnerKilled \<notin> set tr \<and> CredentialsCleaned \<notin> set tr | Inl h \<Rightarrow> cleared_away tr)"
    by (rule yields_on_halt [OF b cleaned(1)]) (auto simp: cleared_away_def)
  have after: "yields (on_halt (after_spawn w att pid) (on_failure True)) (\<lambda>tr r. \<not> started tr \<and> (case r of
       Inr True \<Rightarrow> MarkedRunning \<in> set tr \<and> RunnerKilled \<notin> set tr \<and> CredentialsCleaned \<notin> set tr
     | Inl Cancelled \<Rightarrow> CredentialsCleaned \<notin> set tr
     | _ \<Rightarrow> RunnerKilled \<in> set tr \<and> CredentialsCleaned \<in> set tr))" for pid
    by (rule yields_on_halt [OF after_spawn_yields cleaned(2)]) (auto simp: followed_def split: bool.splits halt.splits)
  show ?thesis
    unfolding run_phase_def
    by (rule yields_bind [OF before after]) (auto simp: settled_def cleared_away_def split: sum.splits bool.splits halt.splits)
qed

lemma finish_ends:
  assumes "get_attempt (snd (finish_attempt now i args db)) i = Some a"
  shows "is_terminal (at_state a)" and "\<not> owns_lock (snd (finish_attempt now i args db)) (at_deployment a) (attempt_owner i)"
proof -
  have keep: "at_id (finished now args x) = at_id x" for x by simp
  obtain b where b: "get_attempt db i = Some b" using assms by (cases "get_attempt db i") (auto simp: finish_attempt_eq)
  then have "row_by at_id i (update_rows (\<lambda>r. at_id r = i) (finished now args) (st_attempts db)) = Some (finished now args b)"
    using row_by_Some [OF b] by (simp add: row_by_update [where key = at_id and f = "finished now args", OF keep])
  then have a: "a = finished now args b"
    using assms b by (simp add: finish_attempt_eq release_lock_def publish_state_def split: if_splits)
  then show "is_terminal (at_state a)" by simp
  have "at_deployment a = at_deployment b" using a by simp
  then show "\<not> owns_lock (snd (finish_attempt now i args db)) (at_deployment a) (attempt_owner i)"
    using b by (auto simp: finish_attempt_eq release_lock_def owns_lock_def row_simps split: option.splits if_splits)
qed

subsection \<open>Nothing is left behind\<close>

definition nothing_left :: "launch_step list \<Rightarrow> bool" where
  "nothing_left tr = ((started tr \<longrightarrow> RunnerKilled \<in> set tr) \<and> (AgentStarted \<in> set tr \<longrightarrow> CredentialsCleaned \<in> set tr))"

definition launch_outcome :: "launch_step list \<Rightarrow> halt + bool \<Rightarrow> bool" where
  "launch_outcome tr r =
     (case r of
        Inr True \<Rightarrow> started tr \<and> MarkedRunning \<in> set tr \<and> RunnerKilled \<notin> set tr \<and> CredentialsCleaned \<notin> set tr
      | Inl Cancelled \<Rightarrow> nothing_left tr \<or> started tr \<and> CredentialsCleaned \<notin> set tr
      | _ \<Rightarrow> nothing_left tr)"

text \<open>Up to the agent a launch holds nothing; so does a key loading that cannot fail.\<close>

definition holding_nothing :: "launch_step list \<Rightarrow> halt + 'a \<Rightarrow> bool" where
  "holding_nothing tr r = (preparing tr \<and> AgentStarted \<notin> set tr)"

lemma holding_bind:
  assumes "yields m holding_nothing" and "\<And>x. yields (k x) launch_outcome"
  shows "yields (bindL m k) launch_outcome"
  by (rule yields_bind [OF assms])
     (auto simp: holding_nothing_def launch_outcome_def nothing_left_def preparing_def split: sum.splits bool.splits halt.splits)

lemma holding_steps:
  "yields (liftL q) holding_nothing" "yields (take_lock w dep att) holding_nothing"
  "yields (claim_assignments w dep att host p) holding_nothing"
  "yields (log_event w e dep att StartRecorded) holding_nothing"
proof -
  have hn: "yields m (\<lambda>tr r. holding_nothing tr (Inr ())) \<Longrightarrow> yields m holding_nothing" for m :: "'b launch"
    by (erule yields_weaken) (simp add: holding_nothing_def)
  show "yields (liftL q) holding_nothing"
    by (rule yields_weaken [OF yields_steps(4)]) (simp add: holding_nothing_def)
  show "yields (take_lock w dep att) holding_nothing"
    unfolding take_lock_def
    by (rule yields_bind [OF yields_steps(5) yields_steps(1)]) (auto simp: holding_nothing_def)
  show "yields (claim_assignments w dep att host p) holding_nothing"
    by (auto simp: yields_def claim_assignments_def bindL_def liftL_def returnL_def emit_def holding_nothing_def
        split: option.splits sum.splits)
  show "yields (log_event w e dep att StartRecorded) holding_nothing"
    by (auto simp: yields_def log_event_def bindL_def returnL_def emit_def holding_nothing_def split: prod.splits sum.splits)
qed

lemma add_keys_total:
  "(\<And>k phrase e. kw_add w k phrase \<noteq> Inl e) \<Longrightarrow> yields (add_keys w phrases ks) (\<lambda>tr r. tr = [] \<and> (\<exists>n. r = Inr n))"
proof (induction ks)
  case Nil
  then show ?case by (simp add: yields_def returnL_def)
next
  case (Cons k ks)
  have a: "yields (liftL (kw_add w k (passphrase_of phrases k))) (\<lambda>tr r. tr = [] \<and> (\<exists>ok. r = Inr ok))"
    using Cons.prems [of k "passphrase_of phrases k"] by (auto simp: yields_def liftL_def split: sum.splits)
  have b: "yields (bindL (add_keys w phrases ks) (\<lambda>n. returnL (if ok then Suc n else n))) (\<lambda>tr r. tr = [] \<and> (\<exists>n. r = Inr n))" for ok
    by (rule yields_bind [OF Cons.IH [OF Cons.prems] yields_steps(2)]) auto
  show ?case unfolding add_keys.simps by (rule yields_bind [OF a b]) auto
qed

lemma start_agent_yields: "yields (start_agent w) (\<lambda>tr r. preparing tr \<and> (isl r \<longrightarrow> tr = []))"
  by (auto simp: yields_def start_agent_def bindL_def liftL_def emit_def returnL_def split: sum.split)

lemma get_agent_yields:
  assumes "\<And>k phrase e. kw_add (lw_keys w) k phrase \<noteq> Inl e"
  shows "yields (get_agent w p) (\<lambda>tr r. preparing tr \<and> (isl r \<longrightarrow> tr = []))"
proof -
  let ?P = "\<lambda>tr (r :: halt + (string \<times> string) list option). preparing tr \<and> (isl r \<longrightarrow> tr = [])"
  have quiet: "yields (returnL x) ?P" for x by (simp add: yields_def returnL_def)
  have halted: "yields (haltL h) ?P" for h by (simp add: yields_def haltL_def)
  have agent: "yields (bindL (start_agent (lw_keys w)) k) ?P"
    if "\<And>env. yields (k env) (\<lambda>tr r. tr = [] \<and> (\<exists>y. r = Inr y))" for k
    by (rule yields_bind [OF start_agent_yields that]) auto
  have loaded: "yields (bindL (add_keys (lw_keys w) phrases ks) (\<lambda>n. returnL (Some env))) (\<lambda>tr r. tr = [] \<and> (\<exists>y. r = Inr y))"
    for phrases ks and env :: "(string \<times> string) list"
    by (rule yields_bind [OF add_keys_total [OF assms] yields_steps(2)]) auto
  have plain: "yields (returnL (Some env)) (\<lambda>tr r. tr = [] \<and> (\<exists>y. r = Inr y))" for env :: "(string \<times> string) list"
    by (simp add: yields_def returnL_def)
  show ?thesis
    by (auto simp: get_agent_def unlock_workspace_keys_def intro!: quiet halted agent loaded plain split: option.splits sum.splits)
qed

lemma inner_outcome:
  assumes "\<And>k phrase e. kw_add (lw_keys w) k phrase \<noteq> Inl e"
  shows "yields (start_attempt_inner w att) launch_outcome"
proof -
  have run: "yields (bindL (get_agent w p) (\<lambda>agent. run_phase w dep att host p secrets (inputs agent))) launch_outcome"
    for p dep host secrets inputs
    by (rule yields_bind [OF get_agent_yields [OF assms] run_phase_settled])
       (auto simp: launch_outcome_def settled_def nothing_left_def cleared_away_def preparing_def
         split: sum.splits bool.splits halt.splits)
  have locked: "yields (launch_locked w dep att host) launch_outcome" for dep host
    unfolding launch_locked_def launch_planned_def by (intro holding_bind holding_steps run)
  have "\<exists>tr. lx_trace (snd (start_attempt_inner w att s)) = lx_trace s @ tr \<and> launch_outcome tr (fst (start_attempt_inner w att s))" for s
  proof -
    have "yields (bindL (liftL (of_opt RuntimeError (get_deployment (lx_db s) (at_deployment att)))) (\<lambda>dep.
      bindL (liftL (validate_concrete_scope dep (at_scope att))) (\<lambda>_.
        launch_locked w dep att (get_host (lx_db s) (dep_target_host_id dep))))) launch_outcome"
      by (intro holding_bind holding_steps locked)
    then show ?thesis unfolding yields_def start_attempt_inner_def by blast
  qed
  then show ?thesis by (simp add: yields_def)
qed

lemma start_attempt_outcome:
  assumes "\<And>k phrase e. kw_add (lw_keys w) k phrase \<noteq> Inl e"
  shows "yields (start_attempt w fenced att) launch_outcome"
proof -
  let ?ended = "\<lambda>h. case h of Cancelled \<Rightarrow> returnL ()
    | Failed e \<Rightarrow> finish_with w (at_id att) (finish_defaults\<lparr>fa_error := Some (error_code_of e)\<rparr>)"
  have end_trace: "yields (?ended h) (\<lambda>tr r. if h = Cancelled then tr = [] else tr = [AttemptFinished])" for h
    by (cases h) (auto simp: yields_def returnL_def finish_with_def emit_def)
  have "\<exists>tr. lx_trace (snd (start_attempt w fenced att s)) = lx_trace s @ tr \<and> launch_outcome tr (fst (start_attempt w fenced att s))" for s
  proof -
    let ?m = "bindL (liftL (of_opt AttributeError (get_deployment (lx_db s) (at_deployment att)))) (\<lambda>dep.
        bindL (liftL (validate_concrete_scope dep (at_scope att))) (\<lambda>_.
        bindL (liftL (if str_given (dep_project_sha dep) \<and> (is_native dep \<or> at_scope att \<in> {''full'', ''runtime''}) then fenced else Inr ()))
          (\<lambda>_. start_attempt_inner w att)))"
    have m: "yields ?m launch_outcome" by (intro holding_bind holding_steps inner_outcome assms)
    have "yields (on_halt ?m ?ended) launch_outcome"
      by (rule yields_on_halt [OF m end_trace])
         (auto simp: launch_outcome_def nothing_left_def split: halt.splits if_splits)
    then have "\<exists>tr. lx_trace (snd (on_halt ?m ?ended s)) = lx_trace s @ tr \<and> launch_outcome tr (fst (on_halt ?m ?ended s))"
      unfolding yields_def by blast
    then show ?thesis by (simp only: start_attempt_def on_halt_def)
  qed
  then show ?thesis by (simp add: yields_def)
qed

lemma failed_launch_ends:
  assumes "start_attempt w fenced att s = (Inl (Failed e), s')" and "get_attempt (lx_db s') (at_id att) = Some a"
  shows "is_terminal (at_state a)" and "\<not> owns_lock (lx_db s') (at_deployment a) (attempt_owner (at_id att))"
proof -
  obtain s1 where "s' = snd (finish_with w (at_id att) (finish_defaults\<lparr>fa_error := Some (error_code_of e)\<rparr>) s1)"
    using assms(1) unfolding start_attempt_def on_halt_def by (auto split: prod.splits sum.splits)
  then have db: "lx_db s' = snd (finish_attempt (lw_now w) (at_id att) (finish_defaults\<lparr>fa_error := Some (error_code_of e)\<rparr>) (lx_db s1))"
    by (simp add: finish_with_def emit_def)
  show "is_terminal (at_state a)" "\<not> owns_lock (lx_db s') (at_deployment a) (attempt_owner (at_id att))"
    using finish_ends assms(2) unfolding db by blast+
qed

subsection \<open>A process starts only past the gates\<close>

text \<open>What was checked of a pinned scenario, and the claim of its assignments.\<close>

definition gates_passed :: "launch_world \<Rightarrow> deployment \<Rightarrow> attempt \<Rightarrow> registered_host option \<Rightarrow> alloc_db \<Rightarrow> launch_plan \<Rightarrow> bool" where
  "gates_passed w dep att host ledger p =
     (case lp_scenario p of
        None \<Rightarrow> True
      | Some sc \<Rightarrow>
          let h = map_option proxmox_host.truncate host in
          vmid_gate h (ps_vmids sc) = Inr ()
          \<and> (ps_native sc
             \<or> (case host of
                  None \<Rightarrow> False
                | Some x \<Rightarrow> (case ensure_for_attempt (lw_sha w) (lw_now w) (lw_claim_id w) (manifest_assignments (sf_vms (ps_files sc)))
                    (deployment_ref_of dep) (at_scope att = ''full'') (proxmox_host.truncate x) ledger of Inl e \<Rightarrow> False | Inr l \<Rightarrow> True))
               \<and> (case lp_run p of
                    None \<Rightarrow> network_gate w sc h (at_scope att) = Inr () \<and> resource_gate w sc h (dep_id dep) (at_scope att) = Inr ()
                  | Some r \<Rightarrow> recheck_runtime_run (lw_recheck w) (ps_files sc) dep (at_project_sha att) (lw_operation w) h
                      (map_option proxmox_host.truncate (lw_fresh_host w)) r = Inr ())))"

text \<open>The registered token and the generated credentials are among the secrets.\<close>

definition secrets_covered :: "launch_world \<Rightarrow> registered_host option \<Rightarrow> launch_plan \<Rightarrow> string list \<Rightarrow> bool" where
  "secrets_covered w host p xs =
     (case (lp_scenario p, lp_native p) of
        (Some sc, None) \<Rightarrow>
          (case (host, lw_target_variables w) of
             (Some h, Inr tv) \<Rightarrow>
               {rh_token_ref h, text_of (jget tv ''proxmox_api_token_secret''), text_of (jget tv ''default_admin_vm_ci_password'')}
                 \<subseteq> set xs
           | _ \<Rightarrow> False)
      | _ \<Rightarrow> True)"

lemma launch_inputs_secrets: "launch_inputs w dep att host p = Inr si \<Longrightarrow> secrets_covered w host p (si_secrets si)"
  by (auto simp: launch_inputs_def pinned_inputs_def secrets_covered_def target_secret_def item_def jget_def bindE_Inr res_simps Let_def
      split: option.splits sum.splits)

lemma set_saved: "set (saved_secrets xs) = set xs - {[]}"
  by (auto simp: saved_secrets_def)

lemma make_plan_gates:
  assumes "make_plan w dep att host = Inr p" and "lp_scenario p = Some sc"
  shows "vmid_gate (map_option proxmox_host.truncate host) (ps_vmids sc) = Inr ()"
    and "\<not> ps_native sc \<Longrightarrow> lp_run p = None \<Longrightarrow>
           network_gate w sc (map_option proxmox_host.truncate host) (at_scope att) = Inr ()
           \<and> resource_gate w sc (map_option proxmox_host.truncate host) (dep_id dep) (at_scope att) = Inr ()"
  using assms by (auto simp: make_plan_def pinned_plan_def bindE_Inr split: if_splits)

lemma starts_after:
  assumes "bindL m k s = (r, s')" and "started (lx_trace s')" and "\<not> started (lx_trace s)" and "yields m (\<lambda>tr r. preparing tr)"
  shows "\<exists>x s1. m s = (Inr x, s1) \<and> k x s1 = (r, s') \<and> \<not> started (lx_trace s1) \<and> set (lx_trace s) \<subseteq> set (lx_trace s1)"
proof -
  obtain q s1 where m: "m s = (q, s1)" by (cases "m s")
  obtain tr where tr: "lx_trace s1 = lx_trace s @ tr" "preparing tr" using yieldsD [OF assms(4) m] by blast
  then have quiet: "\<not> started (lx_trace s1)" using assms(3) by (simp add: preparing_def)
  show ?thesis
  proof (cases q)
    case (Inl h)
    then show ?thesis using assms(1,2) m quiet by (simp add: bindL_def)
  next
    case (Inr x)
    then show ?thesis using assms(1) m quiet tr(1) by (auto simp: bindL_def)
  qed
qed

lemma lift_starts:
  assumes "bindL (liftL q) k s = (r, s')" and "started (lx_trace s')" and "\<not> started (lx_trace s)"
  shows "\<exists>x. q = Inr x \<and> k x s = (r, s')"
  using assms by (cases q) (auto simp: bindL_def liftL_def)

lemma lock_taken:
  assumes "take_lock w dep att s = (Inr u, s1)"
  shows "\<exists>db. acquire_lock (lw_liveness w) (lw_now w) (dep_id dep) (attempt_owner (at_id att)) 30 (lx_db s) = Inr db"
    and "lx_ledger s1 = lx_ledger s" and "LockTaken \<in> set (lx_trace s1)"
  using assms by (auto simp: take_lock_def bindL_def with_db_def emit_def split: sum.splits)

lemma claims_made:
  assumes "claim_assignments w dep att host p s = (Inr u, s1)" and "lp_scenario p = Some sc" and "\<not> ps_native sc"
  shows "\<exists>h l. host = Some h \<and> ensure_for_attempt (lw_sha w) (lw_now w) (lw_claim_id w) (manifest_assignments (sf_vms (ps_files sc)))
      (deployment_ref_of dep) (at_scope att = ''full'') (proxmox_host.truncate h) (lx_ledger s) = Inr l"
  using assms by (cases host) (auto simp: claim_assignments_def bindL_def liftL_def split: sum.splits)

lemma start_logged: "log_event w e dep att x s = (Inr n, s1) \<Longrightarrow> x \<in> set (lx_trace s1)"
  by (auto simp: log_event_def bindL_def emit_def returnL_def split: prod.splits sum.splits)

text \<open>What precedes the process: the secrets are saved, the cleanup is recorded, a runtime plan was verified again.\<close>

definition ready_to_start :: "launch_world \<Rightarrow> deployment \<Rightarrow> attempt \<Rightarrow> registered_host option \<Rightarrow> launch_plan \<Rightarrow> string list \<Rightarrow> launch_step list \<Rightarrow> bool" where
  "ready_to_start w dep att host p secrets tr =
     (\<not> started tr \<and> SecretsSaved (saved_secrets secrets) \<in> set tr \<and> CleanupRecorded \<in> set tr
      \<and> (case (lp_run p, lp_scenario p) of
           (Some r, Some sc) \<Rightarrow> recheck_runtime_run (lw_recheck w) (ps_files sc) dep (at_project_sha att) (lw_operation w)
              (map_option proxmox_host.truncate host) (map_option proxmox_host.truncate (lw_fresh_host w)) r = Inr ()
         | _ \<Rightarrow> True))"

lemma before_spawn_ready:
  "yields (before_spawn w dep att host p secrets) (\<lambda>tr r. \<not> started tr \<and> (\<forall>u. r = Inr u \<longrightarrow> ready_to_start w dep att host p secrets tr))"
proof -
  let ?R = "\<lambda>tr (r :: halt + unit). \<not> started tr \<and> (\<forall>u. r = Inr u \<longrightarrow> (case (lp_run p, lp_scenario p) of
      (Some x, Some sc) \<Rightarrow> recheck_runtime_run (lw_recheck w) (ps_files sc) dep (at_project_sha att) (lw_operation w)
         (map_option proxmox_host.truncate host) (map_option proxmox_host.truncate (lw_fresh_host w)) x = Inr () | _ \<Rightarrow> True))"
  have again: "yields (recheck w dep att host p) ?R"
    by (auto simp: yields_def recheck_def bindL_def cancel_if_def haltL_def returnL_def liftL_def split: option.splits sum.splits)
  have quiet: "yields (place_vault w p) (\<lambda>tr r. \<not> started tr)" "yields (liftL q) (\<lambda>tr r. \<not> started tr)" for q :: "unit res"
    by (rule yields_weaken [OF prepares(3)] yields_weaken [OF preparing_steps(3)]; simp add: preparing_def)+
  let ?C = "\<lambda>tr (r :: halt + unit). ?R tr r \<and> (r = Inr () \<longrightarrow> CleanupRecorded \<in> set tr)"
  let ?S = "\<lambda>tr (r :: halt + unit). ?C tr r \<and> (r = Inr () \<longrightarrow> SecretsSaved (saved_secrets secrets) \<in> set tr)"
  have later: "yields (bindL m (\<lambda>_. k)) ?C" "yields (bindL m (\<lambda>_. k')) ?S"
    if "yields m (\<lambda>tr r. \<not> started tr)" "yields k ?C" "yields k' ?S" for m :: "unit launch" and k k'
    by (rule yields_bind [OF that(1,2)], auto) (rule yields_bind [OF that(1,3)], auto)
  have recorded: "yields (bindL (emit CleanupRecorded) (\<lambda>_. recheck w dep att host p)) ?C"
    by (rule yields_bind [OF yields_steps(1) again]) auto
  have "yields (bindL (emit (SecretsSaved (saved_secrets secrets))) (\<lambda>_. k)) ?S" if "yields k ?C" for k
    by (rule yields_bind [OF yields_steps(1) that]) auto
  then have "yields (before_spawn w dep att host p secrets) ?S"
    unfolding before_spawn_def using later quiet recorded by meson
  then show ?thesis by (rule yields_weaken) (auto simp: ready_to_start_def split: option.splits)
qed

definition starts_once :: "(launch_step list \<Rightarrow> bool) \<Rightarrow> run_inputs \<Rightarrow> launch_step list \<Rightarrow> bool" where
  "starts_once before inputs tr =
     (\<not> started tr \<or> (\<exists>a b. tr = a @ RunnerStarted inputs # b \<and> before a \<and> \<not> started b))"

lemma run_phase_order:
  "yields (run_phase w dep att host p secrets inputs) (\<lambda>tr r. starts_once (ready_to_start w dep att host p secrets) inputs tr)"
proof -
  let ?ready = "ready_to_start w dep att host p secrets"
  let ?before = "bindL (before_spawn w dep att host p secrets) (\<lambda>_. spawn w inputs)"
  have b: "yields ?before (\<lambda>tr r. case r of Inr pid \<Rightarrow> (\<exists>a. tr = a @ [RunnerStarted inputs] \<and> ?ready a) | Inl h \<Rightarrow> \<not> started tr)"
    by (rule yields_bind [OF before_spawn_ready spawn_yields]) (auto split: sum.splits)
  have cleaned: "yields (on_failure x h) (\<lambda>tr r. \<not> started tr)" for x h
    by (cases h; simp add: on_failure_def yields_def emit_def returnL_def kill_and_clean_def bindL_def)
  have before: "yields (on_halt ?before (on_failure False)) (\<lambda>tr r. case r of
      Inr pid \<Rightarrow> (\<exists>a. tr = a @ [RunnerStarted inputs] \<and> ?ready a) | Inl h \<Rightarrow> \<not> started tr)"
    by (rule yields_on_halt [OF b cleaned]) auto
  have after: "yields (on_halt (after_spawn w att pid) (on_failure True)) (\<lambda>tr r. \<not> started tr)" for pid
    by (rule yields_on_halt [OF after_spawn_yields cleaned]) (auto simp: followed_def)
  show ?thesis
    unfolding run_phase_def
    by (rule yields_bind [OF before after]) (force simp: starts_once_def split: sum.splits)+
qed

lemma run_phase_start:
  assumes "run_phase w dep att host p secrets inputs s = (r, s')" and "started (lx_trace s')" and "\<not> started (lx_trace s)"
  shows "\<exists>a b. lx_trace s' = lx_trace s @ a @ RunnerStarted inputs # b \<and> \<not> started (lx_trace s @ a) \<and> \<not> started b
     \<and> ready_to_start w dep att host p secrets a"
proof -
  obtain tr where "lx_trace s' = lx_trace s @ tr" "starts_once (ready_to_start w dep att host p secrets) inputs tr"
    using yieldsD [OF run_phase_order assms(1)] by blast
  then show ?thesis using assms(2,3) by (auto simp: starts_once_def ready_to_start_def)
qed

text \<open>What holds when a process was started: the gates, and the steps that came before it.\<close>

definition started_properly :: "launch_world \<Rightarrow> attempt \<Rightarrow> launch_state \<Rightarrow> launch_step list \<Rightarrow> run_inputs \<Rightarrow> bool" where
  "started_properly w att s0 before inputs =
     (case get_deployment (lx_db s0) (at_deployment att) of
        None \<Rightarrow> False
      | Some dep \<Rightarrow>
          let host = get_host (lx_db s0) (dep_target_host_id dep) in
          validate_concrete_scope dep (at_scope att) = Inr ()
          \<and> (case acquire_lock (lw_liveness w) (lw_now w) (dep_id dep) (attempt_owner (at_id att)) 30 (lx_db s0) of
               Inl e \<Rightarrow> False | Inr db \<Rightarrow> True)
          \<and> (case make_plan w dep att host of
               Inl e \<Rightarrow> False
             | Inr p \<Rightarrow>
                 gates_passed w dep att host (lx_ledger s0) p
                 \<and> (case launch_inputs w dep att host p of
                      Inl e \<Rightarrow> False
                    | Inr si \<Rightarrow>
                        secrets_covered w host p (si_secrets si) \<and> ri_variables inputs = si_variables si
                        \<and> {LockTaken, StartRecorded, SecretsSaved (saved_secrets (si_secrets si)), CleanupRecorded} \<subseteq> set before)))"

lemma quiet_steps:
  "yields (claim_assignments w dep att host p) (\<lambda>tr r. preparing tr)"
  "yields (log_event w e dep att StartRecorded) (\<lambda>tr r. preparing tr)"
  "yields (get_agent w p) (\<lambda>tr r. preparing tr)"
proof -
  show "yields (claim_assignments w dep att host p) (\<lambda>tr r. preparing tr)"
    by (rule yields_weaken [OF holding_steps(3)]) (simp add: holding_nothing_def)
  show "yields (log_event w e dep att StartRecorded) (\<lambda>tr r. preparing tr)"
    by (rule yields_weaken [OF holding_steps(4)]) (simp add: holding_nothing_def)
  show "yields (get_agent w p) (\<lambda>tr r. preparing tr)"
    by (auto simp: get_agent_def intro!: preparing_bind preparing_steps prepares unlock_prepares)
qed

text \<open>From the plan on: the claim was made, and the process came after the steps that have to precede it.\<close>

lemma planned_started:
  assumes "launch_planned w dep att host p s = (r, s')" and "started (lx_trace s')" and "\<not> started (lx_trace s)"
  shows "\<exists>si ag y s2 a b. launch_inputs w dep att host p = Inr si \<and> claim_assignments w dep att host p s = (Inr y, s2)
    \<and> lx_trace s' = a @ RunnerStarted (agent_environment ag si) # b \<and> \<not> started a \<and> \<not> started b
    \<and> ready_to_start w dep att host p (si_secrets si) a \<and> StartRecorded \<in> set a \<and> set (lx_trace s) \<subseteq> set a"
proof -
  obtain y s2 where claim: "claim_assignments w dep att host p s = (Inr y, s2)" "\<not> started (lx_trace s2)"
    "set (lx_trace s) \<subseteq> set (lx_trace s2)"
    and k6: "bindL (log_event w (start_event att) dep att StartRecorded) (\<lambda>_.
      bindL (liftL (launch_inputs w dep att host p)) (\<lambda>si.
      bindL (get_agent w p) (\<lambda>agent.
        run_phase w dep att host p (si_secrets si) (agent_environment agent si)))) s2 = (r, s')"
    using starts_after [OF assms(1) [unfolded launch_planned_def] assms(2,3) quiet_steps(1)] by blast
  obtain n s3 where logged: "log_event w (start_event att) dep att StartRecorded s2 = (Inr n, s3)" "\<not> started (lx_trace s3)"
    "set (lx_trace s2) \<subseteq> set (lx_trace s3)"
    and k7: "bindL (liftL (launch_inputs w dep att host p)) (\<lambda>si.
      bindL (get_agent w p) (\<lambda>agent.
        run_phase w dep att host p (si_secrets si) (agent_environment agent si))) s3 = (r, s')"
    using starts_after [OF k6 assms(2) claim(2) quiet_steps(2)] by blast
  obtain si where si: "launch_inputs w dep att host p = Inr si" and k8: "bindL (get_agent w p) (\<lambda>agent.
        run_phase w dep att host p (si_secrets si) (agent_environment agent si)) s3 = (r, s')"
    using lift_starts [OF k7 assms(2) logged(2)] by blast
  obtain ag s4 where s4: "\<not> started (lx_trace s4)" "set (lx_trace s3) \<subseteq> set (lx_trace s4)"
    and k9: "run_phase w dep att host p (si_secrets si) (agent_environment ag si) s4 = (r, s')"
    using starts_after [OF k8 assms(2) logged(2) quiet_steps(3)] by blast
  obtain a b where ab: "lx_trace s' = lx_trace s4 @ a @ RunnerStarted (agent_environment ag si) # b" "\<not> started (lx_trace s4 @ a)"
    "\<not> started b" "ready_to_start w dep att host p (si_secrets si) a"
    using run_phase_start [OF k9 assms(2) s4(1)] by blast
  have ready: "ready_to_start w dep att host p (si_secrets si) (lx_trace s4 @ a)"
    using ab(2,4) by (simp add: ready_to_start_def)
  have "StartRecorded \<in> set (lx_trace s4 @ a)" "set (lx_trace s) \<subseteq> set (lx_trace s4 @ a)"
    using start_logged [OF logged(1)] claim(3) logged(3) s4(2) by auto
  then show ?thesis using si claim(1) ab(1-3) ready by (metis append.assoc)
qed

lemma inner_started:
  assumes "start_attempt_inner w att s = (r, s')" and "started (lx_trace s')" and "\<not> started (lx_trace s)"
  shows "\<exists>inputs a b. lx_trace s' = a @ RunnerStarted inputs # b \<and> \<not> started a \<and> \<not> started b
     \<and> started_properly w att s a inputs"
proof -
  obtain dep where dep: "get_deployment (lx_db s) (at_deployment att) = Some dep"
    and k1: "bindL (liftL (validate_concrete_scope dep (at_scope att))) (\<lambda>_.
        launch_locked w dep att (get_host (lx_db s) (dep_target_host_id dep))) s = (r, s')"
    using lift_starts [OF assms(1) [unfolded start_attempt_inner_def] assms(2,3)] by (auto simp: of_opt_Inr)
  define host where "host = get_host (lx_db s) (dep_target_host_id dep)"
  have valid: "validate_concrete_scope dep (at_scope att) = Inr ()" and k2: "launch_locked w dep att host s = (r, s')"
    using lift_starts [OF k1 assms(2,3)] by (auto simp: host_def)
  have k3: "bindL (take_lock w dep att) (\<lambda>_. bindL (liftL (make_plan w dep att host)) (launch_planned w dep att host)) s = (r, s')"
    using lift_starts [OF k2 [unfolded launch_locked_def] assms(2,3)] by blast
  obtain x s1 where lock: "take_lock w dep att s = (Inr x, s1)" "\<not> started (lx_trace s1)"
    and k4: "bindL (liftL (make_plan w dep att host)) (launch_planned w dep att host) s1 = (r, s')"
    using starts_after [OF k3 assms(2,3) prepares(1)] by blast
  obtain p where p: "make_plan w dep att host = Inr p" and k5: "launch_planned w dep att host p s1 = (r, s')"
    using lift_starts [OF k4 assms(2) lock(2)] by blast
  obtain si ag y s2 a b where ab: "launch_inputs w dep att host p = Inr si" "claim_assignments w dep att host p s1 = (Inr y, s2)"
    "lx_trace s' = a @ RunnerStarted (agent_environment ag si) # b" "\<not> started a" "\<not> started b"
    "ready_to_start w dep att host p (si_secrets si) a" "StartRecorded \<in> set a" "set (lx_trace s1) \<subseteq> set a"
    using planned_started [OF k5 assms(2) lock(2)] by blast
  obtain db where db: "acquire_lock (lw_liveness w) (lw_now w) (dep_id dep) (attempt_owner (at_id att)) 30 (lx_db s) = Inr db"
    using lock_taken(1) [OF lock(1)] by blast
  have gates: "gates_passed w dep att host (lx_ledger s) p"
    using make_plan_gates [OF p] claims_made [OF ab(2)] ab(6) lock_taken(2) [OF lock(1)]
    by (cases "lp_scenario p"; cases "lp_run p") (fastforce simp: gates_passed_def ready_to_start_def Let_def)+
  have "LockTaken \<in> set a" using lock_taken(3) [OF lock(1)] ab(8) by blast
  then have "started_properly w att s a (agent_environment ag si)"
    using dep valid db p gates ab(1,6,7) launch_inputs_secrets [OF ab(1)]
    by (simp add: started_properly_def host_def ready_to_start_def agent_environment_def)
  then show ?thesis using ab(3-5) by blast
qed

subsection \<open>The properties\<close>

lemma start_attempt_inner_of:
  assumes "start_attempt w fenced att s = (r, s')" and "started (lx_trace s')" and "\<not> started (lx_trace s)"
  shows "\<exists>r1 s1 e. start_attempt_inner w att s = (r1, s1) \<and> started (lx_trace s1) \<and> lx_trace s' = lx_trace s1 @ e \<and> \<not> started e"
proof -
  let ?m = "bindL (liftL (of_opt AttributeError (get_deployment (lx_db s) (at_deployment att)))) (\<lambda>dep.
      bindL (liftL (validate_concrete_scope dep (at_scope att))) (\<lambda>_.
      bindL (liftL (if str_given (dep_project_sha dep) \<and> (is_native dep \<or> at_scope att \<in> {''full'', ''runtime''}) then fenced else Inr ()))
        (\<lambda>_. start_attempt_inner w att)))"
  obtain r1 s1 where m: "?m s = (r1, s1)" by (cases "?m s")
  have tail: "\<exists>e. lx_trace s' = lx_trace s1 @ e \<and> \<not> started e"
    using assms(1) m by (auto simp: start_attempt_def on_halt_def returnL_def finish_with_def emit_def split: sum.splits halt.splits)
  then have st: "started (lx_trace s1)" using assms(2) by auto
  obtain dep k where "bindL (liftL (validate_concrete_scope dep (at_scope att))) k s = (r1, s1)"
    and k: "k = (\<lambda>_. bindL (liftL (if str_given (dep_project_sha dep) \<and> (is_native dep \<or> at_scope att \<in> {''full'', ''runtime''})
        then fenced else Inr ())) (\<lambda>_. start_attempt_inner w att))"
    using lift_starts [OF m st assms(3)] by blast
  then have "start_attempt_inner w att s = (r1, s1)"
    using lift_starts [OF _ st assms(3)] by metis
  then show ?thesis using st tail by blast
qed

text \<open>
  C30: A runner process is started at most once in a launch, and only when the attempt's scope is
  one the deployment supports, its lock was free and is taken, the guests of the pinned scenario are
  unprotected, its network and resource checks did not block or, for a runtime operation, its plan was
  verified again, and its assignments are claimed; and by then the attempt's start is in the log, the
  cleanup is recorded and every known secret, the registered token, the API secret and the guest
  password among them, is saved for redaction.
\<close>

theorem process_starts_past_the_gates:
  assumes "start_attempt w fenced att s = (r, s')" and "RunnerStarted i \<in> set (lx_trace s')" and "lx_trace s = []"
  shows "\<exists>a b. lx_trace s' = a @ RunnerStarted i # b \<and> \<not> started (a @ b) \<and> started_properly w att s a i"
proof -
  have st: "started (lx_trace s')" using assms(2) is_start.simps(1) unfolding list_ex_iff by blast
  obtain r1 s1 e where s1: "start_attempt_inner w att s = (r1, s1)" "started (lx_trace s1)" "lx_trace s' = lx_trace s1 @ e" "\<not> started e"
    using start_attempt_inner_of [OF assms(1) st] assms(3) by auto
  obtain inputs a b where ab: "lx_trace s1 = a @ RunnerStarted inputs # b" "\<not> started a" "\<not> started b" "started_properly w att s a inputs"
    using inner_started [OF s1(1,2)] assms(3) by auto
  have "RunnerStarted i \<notin> set a" "RunnerStarted i \<notin> set b" "RunnerStarted i \<notin> set e"
    using ab(2,3) s1(4) by (auto simp: list_ex_iff)
  then have "i = inputs" using assms(2) s1(3) ab(1) by auto
  then have "lx_trace s' = a @ RunnerStarted i # (b @ e)" "\<not> started (a @ (b @ e))" "started_properly w att s a i"
    using ab s1(3,4) by auto
  then show ?thesis by blast
qed

text \<open>
  C31: When a key can always be handed to the agent, a launch that ends in an error or finds its
  attempt cancelled leaves nothing behind: a process that was started is killed, the agent's
  credentials are cleaned up, and after an error the attempt has ended and holds no lock. A launch
  that succeeds leaves its process marked as running with its credentials; a shutdown of the service
  leaves a started process and its credentials for adoption, and otherwise nothing.
\<close>

theorem launch_leaves_nothing_behind:
  assumes "start_attempt w fenced att s = (r, s')" and "\<And>k phrase e. kw_add (lw_keys w) k phrase \<noteq> Inl e"
  shows "\<exists>tr. lx_trace s' = lx_trace s @ tr \<and> launch_outcome tr r
    \<and> (case (r, get_attempt (lx_db s') (at_id att)) of
         (Inl (Failed e), Some a) \<Rightarrow> is_terminal (at_state a) \<and> \<not> owns_lock (lx_db s') (at_deployment a) (attempt_owner (at_id att))
       | _ \<Rightarrow> True)"
proof -
  obtain tr where "lx_trace s' = lx_trace s @ tr" "launch_outcome tr r"
    using yieldsD [OF start_attempt_outcome [OF assms(2)] assms(1)] by blast
  then show ?thesis
    using failed_launch_ends [of w fenced att s _ s'] assms(1) by (auto split: sum.splits halt.splits option.splits)
qed

subsection \<open>A sample launch\<close>

definition sample_keys :: key_world where
  "sample_keys = \<lparr>kw_vault = True, kw_keys = [''deployer-key_alice''], kw_passphrases = Inr [(''ssh_passphrase_deployer_admin'', JStr ''pw'')],
     kw_agent = Inr [(''SSH_AUTH_SOCK'', ''/w/s'')], kw_add = (\<lambda>k phrase. Inr True)\<rparr>"

definition sample_scenario :: project_scenario where
  "sample_scenario = \<lparr>ps_files = op_sample_files, ps_vmids = [300], ps_native = False, ps_credential = None, ps_firewall = Inr (),
     ps_capabilities = None, ps_sdn_installed = True, ps_storage = Inr [], ps_root = ''/c'', ps_inventory = ''/c/hosts.yml'',
     ps_playbook = ''/c/main.yml''\<rparr>"

definition sample_world :: launch_world where
  "sample_world = \<lparr>lw_ops = op_sample_world, lw_recheck = op_sample_world, lw_fresh_host = Some (proxmox_host.extend sample_host \<lparr>rh_token_ref = ''t''\<rparr>),
     lw_now = 7, lw_liveness = \<lparr>f_read = (\<lambda>p. Inl OSError), f_resolve = Inr, f_is_symlink = (\<lambda>p. False), f_is_file = (\<lambda>p. False)\<rparr>,
     lw_sha = (\<lambda>x. ''digest''), lw_claim_id = ''c1'', lw_artifact = Inr (), lw_checkout = (\<lambda>sha. Inr sample_scenario),
     lw_playbook = (\<lambda>label scope. Inl OSError), lw_native_command = Inl OSError, lw_native_secrets = Inl OSError,
     lw_operation = Some op_stored, lw_installed = Some (\<lambda>b. True),
     lw_target_variables = Inr [(''proxmox_api_token_secret'', JStr ''secret''), (''default_admin_vm_ci_password'', JStr ''guest'')],
     lw_config_dir = Inr ''config'', lw_vault_pass = None, lw_keys = sample_keys, lw_save = Inr (), lw_vault = Inr False, lw_record = Inr (),
     lw_spawn = Spawned (Some 42), lw_pid_file = Inr (), lw_cancel = None, lw_ca = None, lw_controlmaster = [], lw_lock_fd = Some ''5'',
     lw_float = (\<lambda>r. ''0.0''), lw_decode = Some, lw_stamp = ''2026-01-01T00:00:00Z''\<rparr>"

definition sample_attempt :: attempt where
  "sample_attempt = armed_attempt\<lparr>at_state := ''pending''\<rparr>"

definition sample_state :: launch_state where
  "sample_state = \<lparr>lx_db = op_sample_store\<lparr>st_attempts := [sample_attempt]\<rparr>,
     lx_ledger = \<lparr>ad_leases = [], ad_claims = [], ad_hosts = [''h1'' \<mapsto> sample_host],
                  ad_deployments = [''d1'' \<mapsto> \<lparr>dp_id = ''d1'', dp_host = ''h1'', dp_sha = ''ab''\<rparr>]\<rparr>,
     lx_log = [], lx_trace = []\<rparr>"

abbreviation sample_row :: registered_host where
  "sample_row \<equiv> proxmox_host.extend sample_host \<lparr>rh_token_ref = ''t''\<rparr>"

definition sample_plan :: launch_plan where
  "sample_plan = \<lparr>lp_scenario = Some sample_scenario, lp_run = Some op_sample_run, lp_native = None, lp_playbook = ''runtime/main.yml''\<rparr>"

lemma sample_host_row: "get_host (lx_db sample_state) (dep_target_host_id op_deployment) = Some sample_row"
  by (simp add: sample_state_def op_sample_store_def op_deployment_def row_by_def sample_host_def proxmox_host.defs)

lemma sample_truncated: "proxmox_host.truncate sample_row = sample_host"
  by (simp add: sample_host_def proxmox_host.defs)

lemma sample_deployment_row: "get_deployment (lx_db sample_state) (at_deployment sample_attempt) = Some op_deployment"
  by (simp add: sample_state_def op_sample_store_def sample_attempt_def armed_attempt_def op_deployment_def row_by_def)

lemma sample_scope: "at_scope sample_attempt = ''runtime''" "at_id sample_attempt = ''a1''" "at_project_sha sample_attempt = Some ''ab''"
  "at_operation sample_attempt = None" "at_deployment sample_attempt = ''d1''"
  by (simp_all add: sample_attempt_def armed_attempt_def)

lemma sample_valid: "validate_concrete_scope op_deployment ''runtime'' = Inr ()"
  by (simp add: validate_concrete_scope_def is_native_def op_deployment_def)

lemma sample_unprotected: "vmids_block None [300] = Inr False"
  by (simp add: vmids_block_def host_overrides_def check_vmids_def passed_def assert_vmid_safe_iff protected_id_def effective_ranges_def
      default_protected_ranges_def in_range_def)

lemma sample_planned: "make_plan sample_world op_deployment sample_attempt (Some sample_row) = Inr sample_plan"
proof -
  have h: "ph_protected_json sample_host = None" by (simp add: sample_host_def)
  have s: "ps_vmids sample_scenario = [300]" "\<not> ps_native sample_scenario" "ps_files sample_scenario = op_sample_files"
    by (simp_all add: sample_scenario_def)
  have w: "lw_checkout sample_world x = Inr sample_scenario" "lw_ops sample_world = op_sample_world" "lw_installed sample_world = Some (\<lambda>b. True)"
    "lw_operation sample_world = Some op_stored" "lw_fresh_host sample_world = Some sample_row" for x
    by (simp_all add: sample_world_def)
  have d: "str_given (dep_project_sha op_deployment)" by (simp add: op_deployment_def str_given_def)
  show ?thesis
    by (simp add: make_plan_def d w pinned_plan_def s sample_truncated vmid_gate_def h sample_unprotected sample_scope op_prepared)
       (simp add: sample_plan_def)
qed

lemma sample_claimed:
  "ensure_for_attempt (lw_sha sample_world) (lw_now sample_world) (lw_claim_id sample_world) (manifest_assignments (Some gen_manifest))
     (deployment_ref_of op_deployment) False sample_host (lx_ledger sample_state) = Inr (lx_ledger sample_state)"
proof -
  have "manifest_assignments (Some gen_manifest) = Inr [\<lparr>vc_vmid = 300, vc_nics = [], cv_name = Some (JStr ''a'')\<rparr>]"
  proof -
    have "json_loads (mf_text gen_manifest) = Some (JObj [(''vms'', JList (map JObj gen_vms))])" by code_simp
    then show ?thesis
      by (simp add: manifest_assignments_def manifest_error_def assignments_of_def read_manifest_def gen_manifest_def
          validate_vm_manifest_def preferences_guard_def Let_def jget_def declares_def is_version_def overrides_model_def
          optional_field_def item_def gen_vms_def assignment_of_def legacy_nics_def valid_vmid_def occupied_def)
  qed
  moreover have "same_registration sample_host sample_host" by (simp add: same_registration_def)
  ultimately show ?thesis
    by (simp add: ensure_for_attempt_def deployment_ref_of_def op_deployment_def sample_state_def)
qed

definition sample_inputs :: secrets_and_inputs where
  "sample_inputs = (case launch_inputs sample_world op_deployment sample_attempt (Some sample_row) sample_plan of Inr si \<Rightarrow> si)"

lemma sample_inputs_given:
  "launch_inputs sample_world op_deployment sample_attempt (Some sample_row) sample_plan = Inr sample_inputs"
proof -
  have "run_variables (vp_plan (rr_plan op_sample_run)) = Inr []"
    by (simp add: run_variables_def plan_steps_def op_sample_run_def)
  then have "\<exists>si. launch_inputs sample_world op_deployment sample_attempt (Some sample_row) sample_plan = Inr si"
    by (simp add: launch_inputs_def vault_secret_def sample_world_def sample_plan_def pinned_inputs_def sample_scope target_secret_def
        item_def dget_def sample_scenario_def Let_def)
  then show ?thesis by (auto simp: sample_inputs_def)
qed

lemma sample_locked:
  "\<exists>s1. take_lock sample_world op_deployment sample_attempt sample_state = (Inr (), s1) \<and> lx_ledger s1 = lx_ledger sample_state
     \<and> st_attempts (lx_db s1) = [sample_attempt] \<and> st_deployments (lx_db s1) = [op_deployment]"
  by (simp add: take_lock_def with_db_def acquire_lock_def bindL_def emit_def row_by_def sample_state_def op_sample_store_def add_lock_def)

lemma sample_logged:
  "\<exists>n s2. log_event w (start_event sample_attempt) op_deployment sample_attempt StartRecorded s = (Inr n, s2)
     \<and> lx_ledger s2 = lx_ledger s \<and> lx_db s2 = lx_db s \<and> lx_trace s2 = lx_trace s @ [StartRecorded]"
proof -
  have "should_fsync (stamp n a (Some d) ts (start_event sample_attempt)) = Inr True" for n a d ts
    by (simp add: should_fsync_def stamp_def start_event_def jget_def dget_def dsetdefault_def Let_def stage_boundary_types_def)
  then show ?thesis
    by (simp add: log_event_def append_event_def Let_def bindL_def emit_def returnL_def)
qed

lemma sample_prepared:
  "\<exists>s4. before_spawn sample_world op_deployment sample_attempt (Some sample_row) sample_plan secrets s = (Inr (), s4) \<and> lx_db s4 = lx_db s"
proof -
  have w: "lw_recheck sample_world = op_sample_world" "lw_operation sample_world = Some op_stored" "lw_fresh_host sample_world = Some sample_row"
    "lw_save sample_world = Inr ()" "lw_vault sample_world = Inr False" "lw_record sample_world = Inr ()" "lw_cancel sample_world = None"
    by (simp_all add: sample_world_def)
  have p: "lp_scenario sample_plan = Some sample_scenario" "lp_run sample_plan = Some op_sample_run" "\<not> ps_native sample_scenario"
    "ps_files sample_scenario = op_sample_files"
    by (simp_all add: sample_plan_def sample_scenario_def)
  show ?thesis
    by (simp add: before_spawn_def place_vault_def recheck_def w p cancel_if_def bindL_def emit_def returnL_def liftL_def
        sample_truncated recheck_runtime_run_def op_verified sample_scope)
qed

lemma sample_after:
  assumes "st_attempts (lx_db s) = [sample_attempt]" and "st_deployments (lx_db s) = [op_deployment]"
  shows "\<exists>s6. after_spawn sample_world sample_attempt (Some 42) s = (Inr True, s6)"
proof -
  have w: "lw_cancel sample_world = None" "lw_pid_file sample_world = Inr ()" by (simp_all add: sample_world_def)
  have "\<exists>db. mark_attempt_running (lw_now sample_world) ''a1'' (Some 42) ''runner/a1'' (lx_db s) = (True, db)"
    using assms
    by (simp add: mark_attempt_running_def count_rows_def may_start_def sample_attempt_def armed_attempt_def Let_def row_by_def
        update_rows_def cancel_requested_def)
  then show ?thesis
    by (auto simp: after_spawn_def w cancel_if_def bindL_def emit_def returnL_def liftL_def mark_running_def sample_scope)
qed

lemma sample_planned_runs:
  assumes "lx_ledger s = lx_ledger sample_state" and "st_attempts (lx_db s) = [sample_attempt]" and "st_deployments (lx_db s) = [op_deployment]"
  shows "\<exists>s'. launch_planned sample_world op_deployment sample_attempt (Some sample_row) sample_plan s = (Inr True, s')"
proof -
  let ?i = "agent_environment None sample_inputs"
  have p: "lp_scenario sample_plan = Some sample_scenario" "lp_native sample_plan = None" "\<not> ps_native sample_scenario"
    "sf_vms (ps_files sample_scenario) = Some gen_manifest" "lw_vault_pass sample_world = None"
    by (simp_all add: sample_plan_def sample_scenario_def op_sample_files_def sample_world_def)
  obtain s1 where s1: "claim_assignments sample_world op_deployment sample_attempt (Some sample_row) sample_plan s = (Inr (), s1)"
    "lx_db s1 = lx_db s"
    by (simp add: claim_assignments_def p liftL_def bindL_def emit_def sample_truncated sample_claimed assms(1) sample_scope)
  obtain n s2 where s2: "log_event sample_world (start_event sample_attempt) op_deployment sample_attempt StartRecorded s1 = (Inr n, s2)"
    "lx_db s2 = lx_db s1" using sample_logged by blast
  have agent: "get_agent sample_world sample_plan s2 = (Inr None, s2)" by (simp add: get_agent_def p returnL_def)
  obtain s3 where s3: "before_spawn sample_world op_deployment sample_attempt (Some sample_row) sample_plan (si_secrets sample_inputs) s2
      = (Inr (), s3)" "lx_db s3 = lx_db s2" using sample_prepared by blast
  define s4 where "s4 = s3\<lparr>lx_trace := lx_trace s3 @ [RunnerStarted ?i]\<rparr>"
  have sp: "spawn sample_world ?i s3 = (Inr (Some 42), s4)"
    by (simp add: spawn_def sample_world_def bindL_def emit_def returnL_def s4_def)
  obtain s5 where s5: "after_spawn sample_world sample_attempt (Some 42) s4 = (Inr True, s5)"
    using sample_after [of s4] assms(2,3) s1(2) s2(2) s3(2) by (auto simp: s4_def)
  have "run_phase sample_world op_deployment sample_attempt (Some sample_row) sample_plan (si_secrets sample_inputs) ?i s2 = (Inr True, s5)"
    by (simp add: run_phase_def bindL_def on_halt_def s3(1) sp s5)
  then show ?thesis
    by (simp add: launch_planned_def s1(1) s2(1) agent liftL_def sample_inputs_given bindL_def)
qed

lemma sample_runs: "\<exists>s'. start_attempt sample_world (Inr ()) sample_attempt sample_state = (Inr True, s')"
proof -
  obtain s1 where s1: "take_lock sample_world op_deployment sample_attempt sample_state = (Inr (), s1)"
    "lx_ledger s1 = lx_ledger sample_state" "st_attempts (lx_db s1) = [sample_attempt]" "st_deployments (lx_db s1) = [op_deployment]"
    using sample_locked by blast
  obtain s2 where s2: "launch_planned sample_world op_deployment sample_attempt (Some sample_row) sample_plan s1 = (Inr True, s2)"
    using sample_planned_runs [OF s1(2-4)] by blast
  have l: "liftL (Inr x) s = (Inr x, s)" for x and s :: launch_state by (simp add: liftL_def)
  have a: "lw_artifact sample_world = Inr ()" by (simp add: sample_world_def)
  have "launch_locked sample_world op_deployment sample_attempt (Some sample_row) sample_state = (Inr True, s2)"
    by (simp add: launch_locked_def bindL_def a l s1(1) sample_planned s2)
  then have "start_attempt_inner sample_world sample_attempt sample_state = (Inr True, s2)"
    by (simp add: start_attempt_inner_def bindL_def sample_deployment_row [unfolded sample_scope] sample_scope sample_valid l sample_host_row)
  then show ?thesis
    by (simp add: start_attempt_def bindL_def on_halt_def sample_deployment_row [unfolded sample_scope] sample_scope sample_valid l)
qed

lemma sample_adds: "kw_add (lw_keys sample_world) k phrase \<noteq> Inl e"
  by (simp add: sample_world_def sample_keys_def)

theorem process_starts_past_the_gates_witness:
  "\<exists>s' i a b. start_attempt sample_world (Inr ()) sample_attempt sample_state = (Inr True, s')
     \<and> lx_trace s' = a @ RunnerStarted i # b \<and> \<not> started (a @ b) \<and> started_properly sample_world sample_attempt sample_state a i"
proof -
  obtain s' where s': "start_attempt sample_world (Inr ()) sample_attempt sample_state = (Inr True, s')" using sample_runs by blast
  have t: "lx_trace sample_state = []" by (simp add: sample_state_def)
  have "launch_outcome (lx_trace s') (Inr True)"
    using yieldsD [OF start_attempt_outcome [OF sample_adds] s'] t by auto
  then obtain i where "RunnerStarted i \<in> set (lx_trace s')" by (auto simp: launch_outcome_def list_ex_iff elim: is_start.elims)
  then show ?thesis using process_starts_past_the_gates [OF s' _ t] s' by blast
qed

theorem launch_leaves_nothing_behind_witness:
  "\<exists>s'. start_attempt sample_world (Inr ()) sample_attempt sample_state = (Inr True, s') \<and> launch_outcome (lx_trace s') (Inr True)"
proof -
  obtain s' where s': "start_attempt sample_world (Inr ()) sample_attempt sample_state = (Inr True, s')" using sample_runs by blast
  then show ?thesis using launch_leaves_nothing_behind [OF s' sample_adds] by (auto simp: sample_state_def)
qed

subsection \<open>A key that cannot be handed over\<close>

text \<open>
  The agent is running by the time its keys are added, and nothing cleans up between the two and the
  process: when adding a key raises, the agent stays behind.
\<close>

definition leaking_world :: launch_world where
  "leaking_world = sample_world\<lparr>lw_vault_pass := Some (Inr ''pw''), lw_keys := sample_keys\<lparr>kw_add := (\<lambda>k phrase. Inl OSError)\<rparr>\<rparr>"

lemma agent_left_behind:
  "\<exists>s'. get_agent leaking_world sample_plan s = (Inl (Failed OSError), s') \<and> lx_trace s' = lx_trace s @ [AgentStarted]"
  by (simp add: get_agent_def leaking_world_def sample_plan_def sample_world_def unlock_workspace_keys_def start_agent_def sample_keys_def
      bindL_def liftL_def emit_def returnL_def)

theorem key_failure_leaves_agent:
  assumes "lx_ledger s = lx_ledger sample_state" and "lx_trace s = [LockTaken]"
  shows "\<exists>s'. launch_planned leaking_world op_deployment sample_attempt (Some sample_row) sample_plan s = (Inl (Failed OSError), s')
     \<and> lx_trace s' = [LockTaken, AssignmentsClaimed, StartRecorded, AgentStarted]"
proof -
  have w: "lw_sha leaking_world = lw_sha sample_world" "lw_now leaking_world = lw_now sample_world"
    "lw_claim_id leaking_world = lw_claim_id sample_world" by (simp_all add: leaking_world_def)
  have p: "lp_scenario sample_plan = Some sample_scenario" "\<not> ps_native sample_scenario" "sf_vms (ps_files sample_scenario) = Some gen_manifest"
    by (simp_all add: sample_plan_def sample_scenario_def op_sample_files_def)
  obtain s1 where s1: "claim_assignments leaking_world op_deployment sample_attempt (Some sample_row) sample_plan s = (Inr (), s1)"
    "lx_trace s1 = [LockTaken, AssignmentsClaimed]"
    by (simp add: claim_assignments_def w p liftL_def bindL_def emit_def sample_truncated sample_claimed assms sample_scope)
  obtain n s2 where s2: "log_event leaking_world (start_event sample_attempt) op_deployment sample_attempt StartRecorded s1 = (Inr n, s2)"
    "lx_trace s2 = lx_trace s1 @ [StartRecorded]" using sample_logged by blast
  obtain s3 where s3: "get_agent leaking_world sample_plan s2 = (Inl (Failed OSError), s3)" "lx_trace s3 = lx_trace s2 @ [AgentStarted]"
    using agent_left_behind by blast
  have "run_variables (vp_plan (rr_plan op_sample_run)) = Inr []"
    by (simp add: run_variables_def plan_steps_def op_sample_run_def)
  then obtain si where "launch_inputs leaking_world op_deployment sample_attempt (Some sample_row) sample_plan = Inr si"
    by (simp add: launch_inputs_def vault_secret_def leaking_world_def sample_world_def sample_plan_def pinned_inputs_def sample_scope
        target_secret_def item_def dget_def sample_scenario_def Let_def)
  then show ?thesis
    by (simp add: launch_planned_def bindL_def liftL_def s1 s2 s3)
qed

end
