(* ===== verification/Maintenance.thy ===== *)
theory Maintenance
  imports Locks Access
begin

text \<open>
  Maintenance (\<open>app/core/maintenance.py\<close>, \<open>app/core/maintenance_guard.py\<close>): the API holds a
  shared flock on one persistent file for every finite HTTP request, and the installer takes
  the exclusive one, with the database's write lock, before it replaces the container.

  A descriptor is known by the identity of the file it has open; two descriptors are on the
  same lock exactly when device and inode agree. What the file system and \<open>/proc\<close> answer are
  parameters of each operation. Paths are the absolute normal strings of the theory Runner.
\<close>

subsection \<open>The gate\<close>

record lock_file =
  lf_regular :: bool
  lf_uid :: nat
  lf_mode :: nat
  lf_device :: nat
  lf_inode :: nat
  lf_size :: nat

record gate_id =
  gi_path :: string
  gi_device :: nat
  gi_inode :: nat
  gi_uid :: nat

definition same_inode :: "gate_id \<Rightarrow> gate_id \<Rightarrow> bool" where
  "same_inode a b = (gi_device a = gi_device b \<and> gi_inode a = gi_inode b)"

text \<open>
  \<open>ge_parent\<close> is the owner and mode of the directory once it exists, \<open>ge_opens\<close> whether
  \<open>os.open\<close> is not refused, \<open>ge_fresh\<close> the device and inode of a file it would create.
\<close>

record gate_env =
  ge_path :: "string option"
  ge_canonical :: bool
  ge_parent :: "(nat \<times> nat) res"
  ge_uid :: nat
  ge_opens :: bool
  ge_fresh :: "nat \<times> nat"

text \<open>A bit of the mode.\<close>

definition mode_bit :: "nat \<Rightarrow> nat \<Rightarrow> bool" where
  "mode_bit mode b = odd (mode div b)"

definition parent_private :: "gate_env \<Rightarrow> nat \<times> nat \<Rightarrow> bool" where
  "parent_private env p = (fst p = ge_uid env \<and> \<not> mode_bit (snd p) 16 \<and> \<not> mode_bit (snd p) 2)"

definition identity_of :: "string \<Rightarrow> lock_file \<Rightarrow> gate_id" where
  "identity_of path f = \<lparr>gi_path = path, gi_device = lf_device f, gi_inode = lf_inode f, gi_uid = lf_uid f\<rparr>"

definition created_file :: "gate_env \<Rightarrow> lock_file" where
  "created_file env = \<lparr>lf_regular = True, lf_uid = ge_uid env, lf_mode = 384, lf_device = fst (ge_fresh env),
     lf_inode = snd (ge_fresh env), lf_size = 0\<rparr>"

text \<open>
  \<open>_open\<close>: the file that the path names afterwards, and either an error or the file opened
  with the identity the gate then keeps. Only a gate without an identity creates the file.
\<close>

definition gate_open :: "gate_env \<Rightarrow> gate_id option \<Rightarrow> lock_file option \<Rightarrow> lock_file option \<times> (lock_file \<times> gate_id) res" where
  "gate_open env known on_disk =
     (case ge_path env of
        None \<Rightarrow> (on_disk, Inl ValueError)
      | Some path \<Rightarrow>
          if \<not> ge_canonical env then (on_disk, Inl ValueError)
          else case ge_parent env of
            Inl e \<Rightarrow> (on_disk, Inl e)
          | Inr p \<Rightarrow>
              if \<not> parent_private env p then (on_disk, Inl ValueError)
              else if \<not> ge_opens env \<or> (on_disk = None \<and> known \<noteq> None) then (on_disk, Inl OSError)
              else let f = (case on_disk of None \<Rightarrow> created_file env | Some g \<Rightarrow> g); i = identity_of path f in
                (Some f,
                 if \<not> (lf_regular f \<and> lf_uid f = ge_uid env \<and> lf_mode f mod 64 = 0) then Inl ValueError
                 else if known \<noteq> None \<and> known \<noteq> Some i then Inl ValueError
                 else Inr (f, i)))"

lemma gate_openD:
  "gate_open env known on_disk = (disk', Inr (f, i)) \<Longrightarrow>
     disk' = Some f \<and> (\<exists>path. ge_path env = Some path \<and> i = identity_of path f)
     \<and> (known = None \<or> known = Some i) \<and> (on_disk = None \<or> on_disk = Some f)"
  by (auto simp: gate_open_def Let_def split: option.splits sum.splits if_splits)

subsection \<open>The installation\<close>

text \<open>
  \<open>si_gate\<close> is the identity the API's gate has, \<open>si_tasks\<close> its tracked tasks with the file
  their descriptor is on, \<open>si_issued\<close> the capabilities it has answered, each with the process
  that answered it. The installer goes from the first check of its proof over the exclusive
  lock to the held state, in which the database's write lock is its.
\<close>

datatype installer = Away | Checked json gate_id | Locked json gate_id | Held json gate_id

record site =
  si_disk :: "lock_file option"
  si_gate :: "gate_id option"
  si_process :: process_identity
  si_tasks :: "(nat \<times> gate_id) list"
  si_issued :: "(process_identity \<times> json) list"
  si_installer :: installer
  si_db :: store

definition protocol :: string where
  "protocol = ''flock-http-intent-v2''"

definition identity_json :: "process_identity \<Rightarrow> json" where
  "identity_json p = JObj [(''pid'', JInt (pi_pid p)), (''start_time'', JStr (pi_start_time p)), (''boot_id'', JStr (pi_boot_id p))]"

definition lock_json :: "gate_id option \<Rightarrow> json" where
  "lock_json i =
     (case i of
        None \<Rightarrow> JNull
      | Some g \<Rightarrow> JObj [(''path'', JStr (gi_path g)), (''device'', JInt (int (gi_device g))),
                        (''inode'', JInt (int (gi_inode g))), (''uid'', JInt (int (gi_uid g)))])"

definition capability_json :: "bool \<Rightarrow> process_identity \<Rightarrow> gate_id option \<Rightarrow> json" where
  "capability_json enabled p i =
     JObj [(''protocol'', JStr protocol), (''enabled'', JBool enabled), (''process'', identity_json p), (''lock'', lock_json i)]"

text \<open>\<open>capability\<close> for the process \<open>own\<close>, as \<open>_process_identity\<close> reads it, with the gate's new identity.\<close>

definition capability ::
    "gate_env \<Rightarrow> process_identity option \<Rightarrow> gate_id option \<Rightarrow> lock_file option
       \<Rightarrow> lock_file option \<times> gate_id option \<times> json res" where
  "capability env own known on_disk =
     (let answer = (\<lambda>i. case own of None \<Rightarrow> Inl ValueError | Some p \<Rightarrow> Inr (capability_json (ge_path env \<noteq> None) p i))
      in if ge_path env = None then (on_disk, known, answer known)
         else case gate_open env known on_disk of
           (disk', Inl e) \<Rightarrow> (disk', known, Inl e)
         | (disk', Inr (f, i)) \<Rightarrow> (disk', Some i, answer (Some i)))"

text \<open>The exclusive lock of the installer, if it has one.\<close>

definition exclusive :: "installer \<Rightarrow> gate_id option" where
  "exclusive i = (case i of Locked p g \<Rightarrow> Some g | Held p g \<Rightarrow> Some g | _ \<Rightarrow> None)"

definition shared_free :: "site \<Rightarrow> gate_id \<Rightarrow> bool" where
  "shared_free s i = (case exclusive (si_installer s) of None \<Rightarrow> True | Some g \<Rightarrow> \<not> same_inode g i)"

definition exclusive_free :: "site \<Rightarrow> gate_id \<Rightarrow> bool" where
  "exclusive_free s i = list_all (\<lambda>(t, g). \<not> same_inode g i) (si_tasks s)"

text \<open>\<open>acquire_shared\<close>: the descriptor is the identity of the file it is on.\<close>

definition acquire_shared :: "gate_env \<Rightarrow> site \<Rightarrow> site \<times> gate_id option res" where
  "acquire_shared env s =
     (case gate_open env (si_gate s) (si_disk s) of
        (disk', Inl e) \<Rightarrow> (s\<lparr>si_disk := disk'\<rparr>, Inl e)
      | (disk', Inr (f, i)) \<Rightarrow>
          let s' = s\<lparr>si_disk := disk', si_gate := Some i\<rparr> in
          (s', Inr (if \<not> shared_free s i then None
                    else if lf_size f \<noteq> 0 then None else Some i)))"

definition event_stream :: "string \<Rightarrow> bool" where
  "event_stream path =
     (case split_on (CHR ''/'') path of
        [a, b, c, d, e] \<Rightarrow> a = [] \<and> b = ''v1'' \<and> c = ''deployments'' \<and> d \<noteq> [] \<and> e = ''events''
      | _ \<Rightarrow> False)"

definition bypasses :: "gate_env \<Rightarrow> scope \<Rightarrow> bool" where
  "bypasses env sc =
     (rq_type sc \<noteq> ''http'' \<or> ge_path env = None
      \<or> (rq_method sc = Some ''GET'' \<and> (rq_path sc = ''/v1/health'' \<or> event_stream (rq_path sc))))"

datatype admission = Bypassed | Admitted nat | RefusedWith nat string

text \<open>The middleware, up to the moment the task \<open>t\<close> is created.\<close>

definition maintenance_call :: "gate_env \<Rightarrow> nat \<Rightarrow> scope \<Rightarrow> site \<Rightarrow> (site \<times> admission) res" where
  "maintenance_call env t sc s =
     (if bypasses env sc then Inr (s, Bypassed)
      else case acquire_shared env s of
        (s', Inl e) \<Rightarrow>
          if e = OSError \<or> e = ValueError then Inr (s', RefusedWith 503 ''MAINTENANCE_GATE_UNAVAILABLE'') else Inl e
      | (s', Inr None) \<Rightarrow> Inr (s', RefusedWith 503 ''MAINTENANCE_ACTIVE'')
      | (s', Inr (Some i)) \<Rightarrow> Inr (s'\<lparr>si_tasks := (t, i) # si_tasks s'\<rparr>, Admitted t))"

text \<open>The callback of a task that has ended, cancelled or not.\<close>

definition task_finished :: "nat \<Rightarrow> site \<Rightarrow> site" where
  "task_finished t s = s\<lparr>si_tasks := filter (\<lambda>(u, i). u \<noteq> t) (si_tasks s)\<rparr>"

subsection \<open>The installer's checks\<close>

definition proof_process :: "json \<Rightarrow> dict option" where
  "proof_process cert =
     (case cert of
        JObj d \<Rightarrow>
          (case jget d ''process'' of
             JObj e \<Rightarrow> if jget d ''protocol'' = JStr protocol \<and> jget d ''enabled'' = JBool True then Some e else None
           | _ \<Rightarrow> None)
      | _ \<Rightarrow> None)"

definition proof_lock :: "json \<Rightarrow> json" where
  "proof_lock cert = (case cert of JObj d \<Rightarrow> jget d ''lock'' | _ \<Rightarrow> JNull)"

text \<open>
  \<open>_proof_matches\<close>; \<open>known\<close> is the identity of the installer's own gate. \<open>own\<close> and \<open>fs\<close> give
  the identity of the installer's process and of the one the proof names.
\<close>

definition proof_matches ::
    "files \<Rightarrow> gate_env \<Rightarrow> process_identity option \<Rightarrow> json \<Rightarrow> gate_id option \<Rightarrow> lock_file option
       \<Rightarrow> lock_file option \<times> gate_id option res" where
  "proof_matches fs env own cert known on_disk =
     (case proof_process cert of
        None \<Rightarrow> (on_disk, Inl ValueError)
      | Some e \<Rightarrow>
          (case jget e ''pid'' of
             JInt pid \<Rightarrow>
               (case proc_identity fs pid of
                  Inl x \<Rightarrow> (on_disk, Inl x)
                | Inr current \<Rightarrow>
                    if \<not> (case current of None \<Rightarrow> False | Some p \<Rightarrow> same_identity (JObj e) p) then (on_disk, Inl ValueError)
                    else case capability env own known on_disk of
                      (disk', known', Inl x) \<Rightarrow> (disk', Inl x)
                    | (disk', known', Inr answer) \<Rightarrow>
                        (disk', if json_eq (proof_lock answer) (proof_lock cert) then Inr known' else Inl ValueError))
           | _ \<Rightarrow> (on_disk, Inl ValueError)))"

text \<open>
  The artifact directories: \<open>tr_list\<close> is \<open>iterdir\<close> (names), \<open>tr_info\<close> whether a file that was
  opened is regular and its size.
\<close>

record tree =
  tr_files :: files
  tr_exists :: "string \<Rightarrow> bool"
  tr_is_dir :: "string \<Rightarrow> bool"
  tr_list :: "string \<Rightarrow> string list res"
  tr_info :: "string \<Rightarrow> (bool \<times> nat) res"

definition read_artifact :: "tree \<Rightarrow> string \<Rightarrow> nat \<Rightarrow> string res" where
  "read_artifact tr path limit =
     (if f_is_symlink (tr_files tr) path then Inl ValueError
      else bindE (tr_info tr path) (\<lambda>(regular, sz).
           if \<not> regular \<or> limit < sz then Inl ValueError
           else bindE (f_read (tr_files tr) path) (\<lambda>s. Inr (take (limit + 1) s))))"

definition idle_states :: "string list" where
  "idle_states = [''succeeded'', ''completed'', ''partial'', ''failed'', ''cancelled'']"

definition self_named :: "string \<Rightarrow> bool" where
  "self_named s = (CHR ''/'' \<notin> set s \<and> s \<noteq> ''.'')"

definition child_path :: "string \<Rightarrow> string \<Rightarrow> string" where
  "child_path dir name = (if name = [] then dir else dir @ ''/'' @ name)"

type_synonym artifact_table = "(string \<times> int option \<times> bool) list"

definition recorded_artifact :: "tree \<Rightarrow> store \<Rightarrow> string \<Rightarrow> artifact_table \<Rightarrow> attempt \<Rightarrow> artifact_table res" where
  "recorded_artifact tr db base arts a =
     (case get_deployment db (at_deployment a) of
        None \<Rightarrow> Inl ValueError
      | Some d \<Rightarrow>
          if dep_workspace d = [] \<or> \<not> self_named (at_id a) then Inl ValueError
          else let dir = child_path (dep_workspace d @ ''/runner'') (at_id a) in
            bindE (f_resolve (tr_files tr) dir) (\<lambda>resolved.
            bindE (assertE (resolved = dir \<and> is_relative_to dir base
                     \<and> \<not> (str_given (at_artifact_dir a) \<and> at_artifact_dir a \<noteq> Some dir)) ValueError) (\<lambda>_.
            Inr (dset dir (at_pid a, True) arts))))"

definition found_directory :: "tree \<Rightarrow> string \<Rightarrow> artifact_table \<Rightarrow> string \<Rightarrow> artifact_table res" where
  "found_directory tr runner arts name =
     (let dir = runner @ ''/'' @ name in
      if f_is_symlink (tr_files tr) dir \<or> \<not> tr_is_dir tr dir then Inl ValueError
      else let arts' = dsetdefault dir (None, False) arts in
           if 100000 < length arts' then Inl ValueError else Inr arts')"

definition found_workspace :: "tree \<Rightarrow> string \<Rightarrow> artifact_table \<Rightarrow> nat \<times> string \<Rightarrow> artifact_table res" where
  "found_workspace tr base arts entry =
     (let workspace = base @ ''/'' @ snd entry; runner = workspace @ ''/runner''; fs = tr_files tr in
      if 100000 \<le> fst entry then Inl ValueError
      else if \<not> tr_exists tr runner \<and> \<not> f_is_symlink fs runner then Inr arts
      else if f_is_symlink fs workspace \<or> f_is_symlink fs runner \<or> \<not> tr_is_dir tr runner then Inl ValueError
      else bindE (tr_list tr runner) (foldE (found_directory tr runner) arts))"

definition py_isdigit :: "string \<Rightarrow> bool" where
  "py_isdigit s = (s \<noteq> [] \<and> list_all (\<lambda>c. is_digit c \<or> of_char c \<in> {178, 179, 185 :: nat}) s)"

definition identity_pid :: "int option \<Rightarrow> json \<Rightarrow> int option" where
  "identity_pid pid doc =
     (case doc of
        JObj d \<Rightarrow>
          if set (dkeys d) = {''pid'', ''start_time'', ''boot_id''}
          then (case (jget d ''pid'', jget d ''start_time'', jget d ''boot_id'') of
                  (JInt p, JStr started, JStr boot) \<Rightarrow>
                    if 0 < p \<and> py_isdigit started \<and> boot \<noteq> [] \<and> (pid = None \<or> pid = Some p) then Some p else None
                | _ \<Rightarrow> None)
          else None
      | _ \<Rightarrow> None)"

text \<open>The PID that the PID file names, compared with the recorded one.\<close>

definition artifact_pid :: "tree \<Rightarrow> string \<Rightarrow> int option \<Rightarrow> int option res" where
  "artifact_pid tr dir pid =
     (let f = dir @ ''/pid'' in
      if \<not> tr_exists tr f \<and> \<not> f_is_symlink (tr_files tr) f then Inr pid
      else bindE (catchE (os_or ValueError) (bindE (read_artifact tr f 64) (\<lambda>s. of_opt ValueError (int_of_str s))) (Inl ValueError))
        (\<lambda>n. if pid \<noteq> None \<and> pid \<noteq> Some n then Inl ValueError else Inr (Some n)))"

definition idle_artifact :: "tree \<Rightarrow> string \<Rightarrow> string \<times> int option \<times> bool \<Rightarrow> unit res" where
  "idle_artifact tr base = (\<lambda>(dir, pid0, recorded).
     bindE (if f_is_symlink (tr_files tr) dir then Inl ValueError
            else bindE (f_resolve (tr_files tr) dir) (\<lambda>r. assertE (is_relative_to r base) ValueError)) (\<lambda>_.
     bindE (artifact_pid tr dir pid0) (\<lambda>pid.
     if pid \<in> {None, Some 0} \<and> \<not> tr_exists tr (dir @ ''/process.json'') \<and> recorded then Inr ()
     else bindE (catchE (os_or ValueError)
            (bindE (read_artifact tr (dir @ ''/process.json'') 1024) (\<lambda>s.
             bindE (of_opt ValueError (json_loads s)) (\<lambda>doc. of_opt ValueError (identity_pid pid doc)))) (Inl ValueError)) (\<lambda>p.
          bindE (process_matches (tr_files tr) dir p) (\<lambda>alive. assertE (\<not> alive) ValueError)))))"

definition assert_idle :: "tree \<Rightarrow> string \<Rightarrow> store \<Rightarrow> unit res" where
  "assert_idle tr base db =
     bindE (assertE (list_all (\<lambda>a. at_state a \<in> set idle_states) (st_attempts db)) ValueError) (\<lambda>_.
     bindE (assertE (st_locks db = []) ValueError) (\<lambda>_.
     bindE (assertE (length (st_attempts db) \<le> 100000) ValueError) (\<lambda>_.
     bindE (foldE (recorded_artifact tr db base) [] (st_attempts db)) (\<lambda>arts.
     bindE (tr_list tr base) (\<lambda>names.
     bindE (foldE (found_workspace tr base) arts (enumerate 0 names)) (\<lambda>arts'.
     bindE (mapE (idle_artifact tr base) arts') (\<lambda>_. Inr ())))))))"

subsection \<open>Holding maintenance\<close>

text \<open>
  \<open>hold_maintenance\<close> up to its \<open>yield\<close>, in the three stretches between which the API goes on:
  the first check, the exclusive lock, and what follows under it. A stretch that raises lets go
  of every lock. A gate without a path cannot be opened.
\<close>

definition hold_check :: "files \<Rightarrow> gate_env \<Rightarrow> process_identity option \<Rightarrow> json \<Rightarrow> site \<Rightarrow> site \<times> unit res" where
  "hold_check fs env own cert s =
     (case proof_matches fs env own cert None (si_disk s) of
        (disk', Inl e) \<Rightarrow> (s\<lparr>si_disk := disk', si_installer := Away\<rparr>, Inl e)
      | (disk', Inr None) \<Rightarrow> (s\<lparr>si_disk := disk', si_installer := Away\<rparr>, Inl ValueError)
      | (disk', Inr (Some g)) \<Rightarrow> (s\<lparr>si_disk := disk', si_installer := Checked cert g\<rparr>, Inr ()))"

definition hold_lock :: "gate_env \<Rightarrow> json \<Rightarrow> gate_id \<Rightarrow> site \<Rightarrow> site \<times> unit res" where
  "hold_lock env cert g s =
     (case gate_open env (Some g) (si_disk s) of
        (disk', Inl e) \<Rightarrow> (s\<lparr>si_disk := disk', si_installer := Away\<rparr>, Inl e)
      | (disk', Inr (f, i)) \<Rightarrow>
          if exclusive_free s i \<and> lf_size f = 0
          then (s\<lparr>si_disk := disk', si_installer := Locked cert i\<rparr>, Inr ())
          else (s\<lparr>si_disk := disk', si_installer := Away\<rparr>, Inl ValueError))"

text \<open>
  \<open>paths_ok\<close>: the database and the workspace are where they are configured; \<open>provision\<close> is the
  attempt to take the provisioning lock; \<open>begins\<close> whether the database's write lock is free.
\<close>

definition hold_idle ::
    "files \<Rightarrow> gate_env \<Rightarrow> process_identity option \<Rightarrow> tree \<Rightarrow> string \<Rightarrow> bool \<Rightarrow> unit res \<Rightarrow> bool \<Rightarrow> json \<Rightarrow> gate_id \<Rightarrow> site
       \<Rightarrow> site \<times> unit res" where
  "hold_idle fs env own tr base paths_ok provision begins cert g s =
     (let (disk1, r1) = proof_matches fs env own cert (Some g) (si_disk s);
          (disk2, r2) = proof_matches fs env own cert (Some g) disk1;
          checked = bindE r1 (\<lambda>_. bindE (assertE paths_ok ValueError) (\<lambda>_. bindE provision (\<lambda>_.
            bindE (assertE begins OperationalError) (\<lambda>_. assert_idle tr base (si_db s)))))
      in case checked of
           Inl e \<Rightarrow> (s\<lparr>si_disk := disk1, si_installer := Away\<rparr>, Inl e)
         | Inr u \<Rightarrow>
             (case r2 of
                Inl e \<Rightarrow> (s\<lparr>si_disk := disk2, si_installer := Away\<rparr>, Inl e)
              | Inr known \<Rightarrow> (s\<lparr>si_disk := disk2, si_installer := Held cert g\<rparr>, Inr ())))"

text \<open>
  The steps of an installation. The API's process may end at any time and another take its
  place, whose identity is new; the file may be replaced behind its back; the database may be
  committed to while the installer does not hold its write lock.
\<close>

inductive site_step :: "site \<Rightarrow> site \<Rightarrow> bool" where
  asked: "own = None \<or> own = Some (si_process s) \<Longrightarrow> capability env own (si_gate s) (si_disk s) = (disk', gate', r) \<Longrightarrow>
    site_step s (s\<lparr>si_disk := disk', si_gate := gate',
      si_issued := (case r of Inl e \<Rightarrow> si_issued s | Inr cert \<Rightarrow> (si_process s, cert) # si_issued s)\<rparr>)"
| requested: "maintenance_call env t sc s = Inr (s', adm) \<Longrightarrow> site_step s s'"
| finished: "site_step s (task_finished t s)"
| replaced: "site_step s (s\<lparr>si_disk := disk'\<rparr>)"
| restarted: "p \<noteq> si_process s \<Longrightarrow> p \<notin> fst ` set (si_issued s) \<Longrightarrow>
    site_step s (s\<lparr>si_process := p, si_gate := None, si_tasks := []\<rparr>)"
| committed: "\<nexists>cert g. si_installer s = Held cert g \<Longrightarrow> site_step s (s\<lparr>si_db := db\<rparr>)"
| checked: "si_installer s = Away \<Longrightarrow> hold_check fs env own cert s = (s', r) \<Longrightarrow> site_step s s'"
| locked: "si_installer s = Checked cert g \<Longrightarrow> hold_lock env cert g s = (s', r) \<Longrightarrow> site_step s s'"
| held: "si_installer s = Locked cert g \<Longrightarrow> hold_idle fs env own tr base paths_ok provision begins cert g s = (s', r) \<Longrightarrow> site_step s s'"
| left: "site_step s (s\<lparr>si_installer := Away\<rparr>)"

inductive_cases site_stepE: "site_step s s'"

subsection \<open>What the checks establish\<close>

lemma same_lockD:
  assumes "json_eq (lock_json (Some g)) (lock_json i)"
  shows "\<exists>h. i = Some h \<and> same_inode g h"
  using assms by (cases i) (auto simp: lock_json_def same_inode_def)

lemma proof_lock_capability [simp]: "proof_lock (capability_json e p i) = lock_json i"
  by (simp add: proof_lock_def capability_json_def jget_def)

lemma capability_effect:
  assumes "capability env own known on_disk = (disk', known', r)"
  shows "(known = None \<or> known' = known)
    \<and> (r = Inr cert \<longrightarrow> (\<exists>p. own = Some p \<and> cert = capability_json (ge_path env \<noteq> None) p known'))"
  using assms gate_openD [of env known on_disk]
  by (auto simp: capability_def split: if_splits prod.splits sum.splits option.splits)

lemma proof_matches_lock:
  assumes "proof_matches fs env own cert known on_disk = (disk', Inr known')"
  shows "(known = None \<or> known' = known) \<and> json_eq (lock_json known') (proof_lock cert)"
proof -
  from assms obtain answer where "capability env own known on_disk = (disk', known', Inr answer)"
    and eq: "json_eq (proof_lock answer) (proof_lock cert)"
    by (auto simp: proof_matches_def split: option.splits json.splits sum.splits prod.splits if_splits)
  from capability_effect [OF this(1), of answer] eq show ?thesis by auto
qed

lemma acquire_shared_effect:
  assumes "acquire_shared env s = (s', r)"
  shows "(\<exists>disk' gate'. s' = s\<lparr>si_disk := disk', si_gate := gate'\<rparr>)
    \<and> (si_gate s = None \<or> si_gate s' = si_gate s)
    \<and> (r = Inr (Some i) \<longrightarrow> si_gate s' = Some i \<and> shared_free s i)"
proof -
  obtain disk' opened where o: "gate_open env (si_gate s) (si_disk s) = (disk', opened)" by force
  show ?thesis
  proof (cases opened)
    case (Inl e)
    then have "s' = s\<lparr>si_disk := disk', si_gate := si_gate s\<rparr>" "r = Inl e" using assms o by (auto simp: acquire_shared_def)
    then show ?thesis by fastforce
  next
    case (Inr x)
    obtain f j where x: "x = (f, j)" by force
    have s': "s' = s\<lparr>si_disk := disk', si_gate := Some j\<rparr>" and r: "r = Inr (Some i) \<longrightarrow> j = i \<and> shared_free s i"
      using assms o Inr x by (auto simp: acquire_shared_def Let_def split: if_splits)
    have "si_gate s = None \<or> si_gate s = Some j" using gate_openD o Inr x by blast
    then show ?thesis using s' r by auto
  qed
qed

lemma idle_store:
  assumes "assert_idle tr base db = Inr ()"
  shows "st_locks db = []" and "a \<in> set (st_attempts db) \<Longrightarrow> at_state a \<in> set idle_states"
  using assms by (auto simp: assert_idle_def res_simps list_all_iff)

subsection \<open>The invariant\<close>

definition tasks_on_gate :: "site \<Rightarrow> bool" where
  "tasks_on_gate s = (\<forall>(t, i)\<in>set (si_tasks s). si_gate s = Some i)"

definition issued_for_gate :: "site \<Rightarrow> bool" where
  "issued_for_gate s = (\<forall>(p, cert)\<in>set (si_issued s). p = si_process s \<longrightarrow>
     (\<exists>e i. cert = capability_json e p i \<and> (i = None \<or> si_gate s = i)))"

definition locks_compatible :: "site \<Rightarrow> bool" where
  "locks_compatible s = (\<forall>g. exclusive (si_installer s) = Some g \<longrightarrow> exclusive_free s g)"

definition proof_names_lock :: "site \<Rightarrow> bool" where
  "proof_names_lock s =
     (case si_installer s of
        Away \<Rightarrow> True
      | Checked cert g \<Rightarrow> json_eq (lock_json (Some g)) (proof_lock cert)
      | Locked cert g \<Rightarrow> json_eq (lock_json (Some g)) (proof_lock cert)
      | Held cert g \<Rightarrow> json_eq (lock_json (Some g)) (proof_lock cert))"

definition idle_db :: "store \<Rightarrow> bool" where
  "idle_db db = (st_locks db = [] \<and> (\<forall>a\<in>set (st_attempts db). at_state a \<in> set idle_states))"

definition held_is_idle :: "site \<Rightarrow> bool" where
  "held_is_idle s = (\<forall>cert g. si_installer s = Held cert g \<longrightarrow> idle_db (si_db s))"

definition site_ok :: "site \<Rightarrow> bool" where
  "site_ok s = (tasks_on_gate s \<and> issued_for_gate s \<and> locks_compatible s \<and> proof_names_lock s \<and> held_is_idle s)"

lemmas site_defs = site_ok_def tasks_on_gate_def issued_for_gate_def locks_compatible_def proof_names_lock_def held_is_idle_def

text \<open>An operation that changes only the file, and the gate from nothing, keeps it.\<close>

lemma tasks_none: "tasks_on_gate s \<Longrightarrow> si_gate s = None \<Longrightarrow> si_tasks s = []"
  by (cases "si_tasks s") (auto simp: tasks_on_gate_def)

lemma ok_gate_opened:
  assumes "site_ok s" and "si_gate s = None \<or> gate' = si_gate s"
  shows "site_ok (s\<lparr>si_disk := disk', si_gate := gate'\<rparr>)"
proof (cases "si_gate s = None")
  case True
  then have "si_tasks s = []" using assms(1) tasks_none by (simp add: site_ok_def)
  then show ?thesis using assms(1) True by (fastforce simp: site_defs exclusive_free_def)
next
  case False
  then have "gate' = si_gate s" using assms(2) by (elim disjE) simp_all
  then have "s\<lparr>si_disk := disk', si_gate := gate'\<rparr> = s\<lparr>si_disk := disk'\<rparr>" by (cases s) simp
  then show ?thesis using assms(1) by (simp add: site_defs exclusive_free_def)
qed

lemma ok_tasks:
  assumes "site_ok s" and "set ts \<subseteq> set (si_tasks s)"
  shows "site_ok (s\<lparr>si_tasks := ts\<rparr>)"
proof -
  have "tasks_on_gate (s\<lparr>si_tasks := ts\<rparr>)" using assms by (auto simp: site_ok_def tasks_on_gate_def)
  moreover have "locks_compatible (s\<lparr>si_tasks := ts\<rparr>)"
    using assms by (simp add: site_ok_def locks_compatible_def exclusive_free_def list_all_iff) blast
  ultimately show ?thesis using assms(1) by (simp add: site_ok_def issued_for_gate_def proof_names_lock_def held_is_idle_def)
qed

lemma ok_installer:
  assumes "site_ok s" and "proof_names_lock (s\<lparr>si_installer := w\<rparr>)"
    and "\<And>g. exclusive w = Some g \<Longrightarrow> exclusive_free s g" and "\<And>cert g. w = Held cert g \<Longrightarrow> idle_db (si_db s)"
  shows "site_ok (s\<lparr>si_disk := disk', si_installer := w\<rparr>)"
  using assms by (simp add: site_defs exclusive_free_def)

lemma ok_away: "site_ok s \<Longrightarrow> site_ok (s\<lparr>si_disk := disk', si_installer := Away\<rparr>)"
  by (rule ok_installer) (simp_all add: proof_names_lock_def exclusive_def)

lemma ok_asked:
  assumes "site_ok s" and "own = None \<or> own = Some (si_process s)"
    and "capability env own (si_gate s) (si_disk s) = (disk', gate', r)"
  shows "site_ok (s\<lparr>si_disk := disk', si_gate := gate',
      si_issued := (case r of Inl e \<Rightarrow> si_issued s | Inr cert \<Rightarrow> (si_process s, cert) # si_issued s)\<rparr>)"
proof -
  have gate: "si_gate s = None \<or> gate' = si_gate s" using capability_effect [OF assms(3)] by auto
  have ok: "site_ok (s\<lparr>si_disk := disk', si_gate := gate'\<rparr>)" by (rule ok_gate_opened [OF assms(1) gate])
  show ?thesis
  proof (cases r)
    case (Inl e)
    then show ?thesis using ok by simp
  next
    case (Inr cert)
    then have "\<exists>e. cert = capability_json e (si_process s) gate'" using capability_effect [OF assms(3), of cert] assms(2) by auto
    then show ?thesis using ok Inr by (auto simp: site_defs exclusive_free_def)
  qed
qed

lemma ok_requested:
  assumes "site_ok s" and "maintenance_call env t sc s = Inr (s', adm)"
  shows "site_ok s'"
proof (cases "bypasses env sc")
  case True
  then show ?thesis using assms by (simp add: maintenance_call_def)
next
  case False
  obtain s1 r where a: "acquire_shared env s = (s1, r)" by force
  have eff: "\<exists>disk' gate'. s1 = s\<lparr>si_disk := disk', si_gate := gate'\<rparr>" "si_gate s = None \<or> si_gate s1 = si_gate s"
    using acquire_shared_effect [OF a] by auto
  then obtain disk' gate' where "s1 = s\<lparr>si_disk := disk', si_gate := gate'\<rparr>" by blast
  then have ok: "site_ok s1" using ok_gate_opened [OF assms(1), of gate' disk'] eff(2) by simp
  show ?thesis
  proof (cases "\<exists>i. r = Inr (Some i)")
    case True
    then obtain i where i: "r = Inr (Some i)" ..
    have got: "si_gate s1 = Some i" "shared_free s i" using acquire_shared_effect [OF a] i by auto
    then have free: "exclusive (si_installer s1) = Some g \<Longrightarrow> \<not> same_inode i g" for g
      using eff(1) by (auto simp: shared_free_def same_inode_def)
    have "s' = s1\<lparr>si_tasks := (t, i) # si_tasks s1\<rparr>" using assms(2) False a i by (simp add: maintenance_call_def)
    then show ?thesis using ok got(1) free by (auto simp: site_defs exclusive_free_def split: installer.splits)
  next
    case False
    then have "s' = s1" using assms(2) \<open>\<not> bypasses env sc\<close> a
      by (auto simp: maintenance_call_def split: sum.splits option.splits if_splits)
    then show ?thesis using ok by simp
  qed
qed

lemma ok_checked:
  assumes "site_ok s" and "hold_check fs env own cert s = (s', r)"
  shows "site_ok s'"
proof -
  obtain disk' got where p: "proof_matches fs env own cert None (si_disk s) = (disk', got)" by force
  show ?thesis
  proof (cases "\<exists>g. got = Inr (Some g)")
    case True
    then obtain g where g: "got = Inr (Some g)" ..
    then have "json_eq (lock_json (Some g)) (proof_lock cert)" using proof_matches_lock p by blast
    then have "site_ok (s\<lparr>si_disk := disk', si_installer := Checked cert g\<rparr>)"
      by (intro ok_installer [OF assms(1)]) (simp_all add: proof_names_lock_def exclusive_def)
    then show ?thesis using assms(2) p g by (simp add: hold_check_def)
  next
    case False
    then have "s' = s\<lparr>si_disk := disk', si_installer := Away\<rparr>" using assms(2) p
      by (cases got) (auto simp: hold_check_def split: option.splits)
    then show ?thesis using ok_away [OF assms(1)] by simp
  qed
qed

lemma ok_locked:
  assumes "site_ok s" and "si_installer s = Checked cert g" and "hold_lock env cert g s = (s', r)"
  shows "site_ok s'"
proof -
  obtain disk' opened where o: "gate_open env (Some g) (si_disk s) = (disk', opened)" by force
  show ?thesis
  proof (cases "\<exists>f i. opened = Inr (f, i) \<and> exclusive_free s i \<and> lf_size f = 0")
    case True
    then obtain f i where i: "opened = Inr (f, i)" "exclusive_free s i" "lf_size f = 0" by blast
    have "json_eq (lock_json (Some g)) (proof_lock cert)" using assms(1,2) by (simp add: site_defs)
    moreover have "i = g" using gate_openD [of env "Some g" "si_disk s" disk' f i] o i(1) by simp
    ultimately have "site_ok (s\<lparr>si_disk := disk', si_installer := Locked cert i\<rparr>)"
      by (intro ok_installer [OF assms(1)]) (use i(2) in \<open>simp_all add: proof_names_lock_def exclusive_def\<close>)
    then show ?thesis using assms(3) o i by (simp add: hold_lock_def)
  next
    case False
    then have "s' = s\<lparr>si_disk := disk', si_installer := Away\<rparr>" using assms(3) o
      by (cases opened) (auto simp: hold_lock_def split: if_splits)
    then show ?thesis using ok_away [OF assms(1)] by simp
  qed
qed

lemma ok_held:
  assumes "site_ok s" and "si_installer s = Locked cert g"
    and "hold_idle fs env own tr base paths_ok provision begins cert g s = (s', r)"
  shows "site_ok s'"
proof -
  obtain disk1 r1 where p1: "proof_matches fs env own cert (Some g) (si_disk s) = (disk1, r1)" by force
  obtain disk2 r2 where p2: "proof_matches fs env own cert (Some g) disk1 = (disk2, r2)" by force
  have free: "exclusive_free s g" and names: "json_eq (lock_json (Some g)) (proof_lock cert)"
    using assms(1,2) by (auto simp: site_defs exclusive_def)
  from assms(3) p1 p2 consider (away) disk' where "s' = s\<lparr>si_disk := disk', si_installer := Away\<rparr>"
    | (on) "s' = s\<lparr>si_disk := disk2, si_installer := Held cert g\<rparr>" "assert_idle tr base (si_db s) = Inr ()"
    by (auto simp: hold_idle_def res_simps split: sum.splits)
  then show ?thesis
  proof cases
    case away
    then show ?thesis using ok_away [OF assms(1)] by simp
  next
    case on
    show ?thesis unfolding on(1)
      by (rule ok_installer [OF assms(1)])
         (use free names idle_store [OF on(2)] in \<open>auto simp: proof_names_lock_def exclusive_def idle_db_def\<close>)
  qed
qed

lemma site_step_ok: "site_step s s' \<Longrightarrow> site_ok s \<Longrightarrow> site_ok s'"
proof (induction rule: site_step.induct)
  case (asked own s env disk' gate' r)
  from asked(3,1,2) show ?case by (rule ok_asked)
next
  case (requested env t sc s s' adm)
  from requested(2,1) show ?case by (rule ok_requested)
next
  case (finished s t)
  then show ?case unfolding task_finished_def by (rule ok_tasks) auto
next
  case (replaced s disk')
  then show ?case by (simp add: site_defs exclusive_free_def)
next
  case (restarted p s)
  have "issued_for_gate (s\<lparr>si_process := p, si_gate := None, si_tasks := []\<rparr>)"
    using restarted(2) by (auto simp: issued_for_gate_def image_iff)
  then show ?case using restarted(3) by (simp add: site_ok_def tasks_on_gate_def locks_compatible_def exclusive_free_def
        proof_names_lock_def held_is_idle_def)
next
  case (committed s db)
  then show ?case by (simp add: site_defs exclusive_free_def)
next
  case (checked s fs env own cert s' r)
  from checked(3,2) show ?case by (rule ok_checked)
next
  case (locked s cert g env s' r)
  from locked(3,1,2) show ?case by (rule ok_locked)
next
  case (held s cert g fs env own tr base paths_ok provision begins s' r)
  from held(3,1,2) show ?case by (rule ok_held)
next
  case (left s)
  then show ?case using ok_away [of s "si_disk s"] by simp
qed

definition site_start :: "site \<Rightarrow> bool" where
  "site_start s = (si_installer s = Away \<and> si_tasks s = [] \<and> si_issued s = [])"

interpretation site_machine: machine site_step site_ok
  by unfold_locales (rule site_step_ok)

lemma reachable_site_ok: "site_step\<^sup>*\<^sup>* s0 s \<Longrightarrow> site_start s0 \<Longrightarrow> site_ok s"
  by (rule site_machine.reachable_inv) (auto simp: site_start_def site_defs exclusive_def)

lemma held_excludes_tasks:
  assumes "site_ok s" and "si_installer s = Held cert g" and "(si_process s, cert) \<in> set (si_issued s)"
  shows "si_tasks s = []"
proof (rule ccontr)
  assume "si_tasks s \<noteq> []"
  then obtain t i where ti: "(t, i) \<in> set (si_tasks s)" by (cases "si_tasks s") auto
  have gate: "si_gate s = Some i" using assms(1) ti by (auto simp: site_ok_def tasks_on_gate_def)
  obtain e j where cert: "cert = capability_json e (si_process s) j" "j = None \<or> si_gate s = j"
    using assms(1,3) by (auto simp: site_ok_def issued_for_gate_def)
  have "json_eq (lock_json (Some g)) (lock_json j)" using assms(1,2) cert(1) by (simp add: site_ok_def proof_names_lock_def)
  then have "same_inode g i" using same_lockD cert(2) gate by fastforce
  moreover have "exclusive_free s g" using assms(1,2) by (simp add: site_ok_def locks_compatible_def exclusive_def)
  ultimately show False using ti by (auto simp: exclusive_free_def list_all_iff same_inode_def)
qed

text \<open>
  C26: Whatever requests, restarts, replacements of the lock file, commits and other
  installers came before: while the installer holds maintenance with a capability that the
  process now serving the API has issued, no finite HTTP request is being served and none is
  admitted; and, whoever serves, the database records no attempt that has not ended and no
  workspace lock.
\<close>

theorem maintenance_excludes_requests:
  assumes "site_step\<^sup>*\<^sup>* s0 s" and "site_start s0" and "si_installer s = Held cert g"
    and "(si_process s, cert) \<in> set (si_issued s)"
  shows "si_tasks s = [] \<and> (\<nexists>env t sc s' u. maintenance_call env t sc s = Inr (s', Admitted u))
    \<and> idle_db (si_db s)"
proof -
  have ok: "site_ok s" by (rule reachable_site_ok [OF assms(1,2)])
  have none: False if call: "maintenance_call env t sc s = Inr (s', Admitted u)" for env t sc s' u
  proof -
    have "site_ok s'" by (rule ok_requested [OF ok call])
    moreover have "si_installer s' = si_installer s \<and> si_process s' = si_process s \<and> si_issued s' = si_issued s \<and> si_tasks s' \<noteq> []"
      using call acquire_shared_effect [of env s] by (fastforce simp: maintenance_call_def split: if_splits prod.splits sum.splits option.splits)
    ultimately show False using held_excludes_tasks [of s' cert g] assms(3,4) by simp
  qed
  show ?thesis using held_excludes_tasks [OF ok assms(3,4)] none ok assms(3)
    by (auto simp: site_ok_def held_is_idle_def)
qed

definition api_process :: process_identity where
  "api_process = \<lparr>pi_pid = 7, pi_start_time = ''99'', pi_boot_id = ''b''\<rparr>"

definition gate_sample :: gate_env where
  "gate_sample = \<lparr>ge_path = Some ''/run/gate'', ge_canonical = True, ge_parent = Inr (1000, 448), ge_uid = 1000,
     ge_opens = True, ge_fresh = (5, 6)\<rparr>"

definition gate_known :: gate_id where
  "gate_known = \<lparr>gi_path = ''/run/gate'', gi_device = 5, gi_inode = 6, gi_uid = 1000\<rparr>"

definition quiet_store :: store where
  "quiet_store = \<lparr>st_deployments = [], st_attempts = [], st_locks = [], st_operations = [], st_sets = [], st_hosts = []\<rparr>"

definition bare_tree :: tree where
  "bare_tree = \<lparr>tr_files = sample_files, tr_exists = (\<lambda>_. False), tr_is_dir = (\<lambda>_. False), tr_list = (\<lambda>_. Inr []),
     tr_info = (\<lambda>_. Inl OSError)\<rparr>"

definition site_at :: "lock_file option \<Rightarrow> gate_id option \<Rightarrow> (process_identity \<times> json) list \<Rightarrow> installer \<Rightarrow> site" where
  "site_at d g iss w = \<lparr>si_disk = d, si_gate = g, si_process = api_process, si_tasks = [], si_issued = iss, si_installer = w,
     si_db = quiet_store\<rparr>"

definition cert_sample :: json where
  "cert_sample = capability_json True api_process (Some gate_known)"

definition gate_file :: lock_file where
  "gate_file = created_file gate_sample"

lemma proof_sample:
  "proof_matches sample_files gate_sample (Some api_process) cert_sample (Some gate_known) (Some gate_file) =
     (Some gate_file, Inr (Some gate_known))"
  by code_simp

lemma idle_sample: "assert_idle bare_tree base quiet_store = Inr ()"
  by (simp add: assert_idle_def quiet_store_def bare_tree_def)

lemma site_sample_run:
  "site_step\<^sup>*\<^sup>* (site_at None None [] Away)
     (site_at (Some gate_file) (Some gate_known) [(api_process, cert_sample)] (Held cert_sample gate_known))"
proof -
  let ?s1 = "site_at (Some gate_file) (Some gate_known) [(api_process, cert_sample)]"
  have cap: "capability gate_sample (Some api_process) None None = (Some gate_file, Some gate_known, Inr cert_sample)"
    by code_simp
  have chk: "hold_check sample_files gate_sample (Some api_process) cert_sample (?s1 Away) = (?s1 (Checked cert_sample gate_known), Inr ())"
    by code_simp
  have lck: "hold_lock gate_sample cert_sample gate_known (?s1 (Checked cert_sample gate_known)) = (?s1 (Locked cert_sample gate_known), Inr ())"
    by code_simp
  have hld: "hold_idle sample_files gate_sample (Some api_process) bare_tree ''/w'' True (Inr ()) True cert_sample gate_known
      (?s1 (Locked cert_sample gate_known)) = (?s1 (Held cert_sample gate_known), Inr ())"
    by (simp add: hold_idle_def site_at_def proof_sample idle_sample)
  have a: "site_step (site_at None None [] Away) (?s1 Away)"
    using site_step.asked [of "Some api_process" "site_at None None [] Away" gate_sample] cap by (simp add: site_at_def)
  have b: "site_step (?s1 Away) (?s1 (Checked cert_sample gate_known))"
    by (rule site_step.checked [OF _ chk]) (simp add: site_at_def)
  have c: "site_step (?s1 (Checked cert_sample gate_known)) (?s1 (Locked cert_sample gate_known))"
    by (rule site_step.locked [OF _ lck]) (simp add: site_at_def)
  have d: "site_step (?s1 (Locked cert_sample gate_known)) (?s1 (Held cert_sample gate_known))"
    by (rule site_step.held [OF _ hld]) (simp add: site_at_def)
  show ?thesis using a b c d by (meson r_into_rtranclp rtranclp.rtrancl_into_rtrancl)
qed

theorem maintenance_excludes_requests_witness:
  "si_tasks (site_at (Some gate_file) (Some gate_known) [(api_process, cert_sample)] (Held cert_sample gate_known)) = []
   \<and> (\<nexists>env t sc s' u. maintenance_call env t sc
        (site_at (Some gate_file) (Some gate_known) [(api_process, cert_sample)] (Held cert_sample gate_known)) = Inr (s', Admitted u))
   \<and> idle_db (si_db (site_at (Some gate_file) (Some gate_known) [(api_process, cert_sample)] (Held cert_sample gate_known)))"
  by (rule maintenance_excludes_requests [OF site_sample_run, of cert_sample gate_known]) (simp_all add: site_at_def site_start_def)

end
