(* ===== verification/Overlay.thy ===== *)
theory Overlay
  imports Redaction Py_Values
begin

text \<open>
  The overlay operators (\<open>app/overlay/compose.py\<close>, \<open>app/overlay/resolve_secrets.py\<close>): a base
  document and a project's overlay give the effective document, and the references to secrets in a
  document become marked values. Documents are trees: what two places of a YAML document share
  through an alias, or two nodes with the same id through one patch, is copied. Keys are strings.
\<close>

subsection \<open>Overriding a parameter\<close>

text \<open>
  \<open>str.isdigit\<close> below code point 256 also holds of the superscripts, which \<open>int\<close> refuses.
\<close>

definition superscript :: "char \<Rightarrow> bool" where
  "superscript c = ((of_char c :: nat) \<in> {178, 179, 185})"

definition list_index :: "string \<Rightarrow> nat res" where
  "list_index p = (if list_all is_digit p then Inr (digits_val p) else Inl ValueError)"

definition has_id :: "json \<Rightarrow> json \<Rightarrow> bool" where
  "has_id i v = (case v of JObj d \<Rightarrow> json_eq (jget d ''id'') i | _ \<Rightarrow> False)"

fun index_where :: "('a \<Rightarrow> bool) \<Rightarrow> 'a list \<Rightarrow> nat option" where
  "index_where p [] = None"
| "index_where p (x # xs) = (if p x then Some 0 else map_option Suc (index_where p xs))"

fun override_at :: "string list \<Rightarrow> json \<Rightarrow> json \<Rightarrow> json res" where
  "override_at [] v cur = Inr cur"
| "override_at [k] v cur = (case cur of JObj d \<Rightarrow> Inr (JObj (dset k v d)) | _ \<Rightarrow> Inr cur)"
| "override_at (p # q # ps) v cur =
     (case cur of
        JObj d \<Rightarrow>
          bindE (override_at (q # ps) v (case dget d p of None \<Rightarrow> JObj [] | Some c \<Rightarrow> c)) (\<lambda>c. Inr (JObj (dset p c d)))
      | JList xs \<Rightarrow>
          if p \<noteq> [] \<and> list_all (\<lambda>c. is_digit c \<or> superscript c) p
          then bindE (list_index p) (\<lambda>i.
               if length xs \<le> i then Inl IndexError
               else bindE (override_at (q # ps) v (xs ! i)) (\<lambda>c. Inr (JList (xs[i := c]))))
          else (case index_where (has_id (JStr p)) xs of
                  Some i \<Rightarrow> bindE (override_at (q # ps) v (xs ! i)) (\<lambda>c. Inr (JList (xs[i := c])))
                | None \<Rightarrow> bindE (override_at (q # ps) v (JObj [(''id'', JStr p)])) (\<lambda>c. Inr (JList (xs @ [c]))))
      | _ \<Rightarrow> Inr cur)"

definition apply_param_override :: "dict \<Rightarrow> string \<Rightarrow> json \<Rightarrow> dict res" where
  "apply_param_override doc dotted v =
     bindE (override_at (split_on (CHR ''.'') dotted) v (JObj doc)) (\<lambda>j. of_opt TypeError (as_obj j))"

subsection \<open>Nodes by id\<close>

lemma children_smaller [termination_simp]:
  assumes "dget d k = Some (JList cs)"
  shows "size_list size cs < Suc (Suc (size_list (\<lambda>x. Suc (size (snd x))) d + m))"
proof -
  have "size (JList cs) \<le> size_list (\<lambda>x. Suc (size (snd x))) d"
    using size_list_estimation' [OF dget_in_set [OF assms], of "size (JList cs)" "\<lambda>x. Suc (size (snd x))"] by simp
  then show ?thesis by simp
qed

text \<open>A result put in front of the results of the other elements, of which the first failure is the whole one's.\<close>

definition consE :: "'e + 'a \<Rightarrow> 'e + 'a list \<Rightarrow> 'e + 'a list" where
  "consE first rest = bindE first (\<lambda>x. bindE rest (\<lambda>xs. Inr (x # xs)))"

lemma consE_Inr [res_simps]: "consE m r = Inr zs \<longleftrightarrow> (\<exists>x xs. m = Inr x \<and> r = Inr xs \<and> zs = x # xs)"
  by (auto simp: consE_def res_simps)

fun remove_by_id :: "json \<Rightarrow> json list \<Rightarrow> json list res" where
  "remove_by_id i [] = Inr []"
| "remove_by_id i (JObj n # ns) =
     (if json_eq (jget n ''id'') i then remove_by_id i ns
      else consE
        (case dget n ''children'' of
           Some (JList cs) \<Rightarrow> bindE (remove_by_id i cs) (\<lambda>cs'. Inr (JObj (dset ''children'' (JList cs') n)))
         | _ \<Rightarrow> Inr (JObj n))
        (remove_by_id i ns))"
| "remove_by_id i (n # ns) = Inl AttributeError"

text \<open>
  \<open>dict.update(patch)\<close>, where the patch may also be an iterable of pairs with string keys.
\<close>

definition update_pair :: "json \<Rightarrow> (string \<times> json) res" where
  "update_pair x =
     (case x of
        JList [JStr k, v] \<Rightarrow> Inr (k, v)
      | JList [a, b] \<Rightarrow> Inl TypeError
      | JStr [a, b] \<Rightarrow> Inr ([a], JStr [b])
      | JObj [(k, _), (l, _)] \<Rightarrow> Inr (k, JStr l)
      | JList _ \<Rightarrow> Inl ValueError | JStr _ \<Rightarrow> Inl ValueError | JObj _ \<Rightarrow> Inl ValueError
      | _ \<Rightarrow> Inl TypeError)"

definition update_items :: "json \<Rightarrow> dict res" where
  "update_items patch =
     (case patch of
        JObj e \<Rightarrow> Inr e
      | JList xs \<Rightarrow> mapE update_pair xs
      | JStr s \<Rightarrow> mapE update_pair (map (\<lambda>c. JStr [c]) s)
      | _ \<Rightarrow> Inl TypeError)"

text \<open>
  Descending into the children that the patch itself brought: a node of that id among them holds
  the very list it is in, and the descent does not end.
\<close>

definition bothE :: "'e + unit \<Rightarrow> 'e + 'a \<Rightarrow> 'e + 'a" where
  "bothE first rest = bindE first (\<lambda>_. rest)"

fun descend_patch :: "json \<Rightarrow> json list \<Rightarrow> unit res" where
  "descend_patch i [] = Inr ()"
| "descend_patch i (JObj n # ns) =
     (if json_eq (jget n ''id'') i then Inl RecursionError
      else bothE (case dget n ''children'' of Some (JList cs) \<Rightarrow> descend_patch i cs | _ \<Rightarrow> Inr ()) (descend_patch i ns))"
| "descend_patch i (n # ns) = Inl AttributeError"

fun patch_by_id :: "json \<Rightarrow> json \<Rightarrow> json list \<Rightarrow> json list res" where
  "patch_by_id i patch [] = Inr []"
| "patch_by_id i patch (JObj n # ns) =
     consE
       (if json_eq (jget n ''id'') i
        then bindE (update_items patch) (\<lambda>e.
             case dget (rev e) ''children'' of
               Some (JList cs) \<Rightarrow> bindE (descend_patch i cs) (\<lambda>_. Inr (JObj (dupdate n e)))
             | Some other \<Rightarrow> Inr (JObj (dupdate n e))
             | None \<Rightarrow>
                 (case dget n ''children'' of
                    Some (JList cs) \<Rightarrow>
                      bindE (patch_by_id i patch cs) (\<lambda>cs'. Inr (JObj (dset ''children'' (JList cs') (dupdate n e))))
                  | _ \<Rightarrow> Inr (JObj (dupdate n e))))
        else (case dget n ''children'' of
                Some (JList cs) \<Rightarrow> bindE (patch_by_id i patch cs) (\<lambda>cs'. Inr (JObj (dset ''children'' (JList cs') n)))
              | _ \<Rightarrow> Inr (JObj n)))
       (patch_by_id i patch ns)"
| "patch_by_id i patch (n # ns) = Inl AttributeError"

text \<open>The attachment goes to the first node of that id in the order of the document.\<close>

definition attach :: "dict \<Rightarrow> dict \<Rightarrow> dict res" where
  "attach a n =
     (case dget n ''attachments'' of
        None \<Rightarrow> Inr (dset ''attachments'' (JList [JObj (dpop ''target_node'' a)]) n)
      | Some (JList xs) \<Rightarrow> Inr (dset ''attachments'' (JList (xs @ [JObj (dpop ''target_node'' a)])) n)
      | Some _ \<Rightarrow> Inl AttributeError)"

definition first_hit :: "(bool \<times> 'a) res \<Rightarrow> (bool \<times> 'a list) res \<Rightarrow> 'a list \<Rightarrow> (bool \<times> 'a list) res" where
  "first_hit first rest unseen =
     bindE first (\<lambda>(hit, x).
       if hit then Inr (True, x # unseen) else bindE rest (\<lambda>(hit', xs). Inr (hit', x # xs)))"

fun find_and_attach :: "json \<Rightarrow> dict \<Rightarrow> json list \<Rightarrow> (bool \<times> json list) res" where
  "find_and_attach t a [] = Inr (False, [])"
| "find_and_attach t a (JObj n # ns) =
     first_hit
       (if json_eq (jget n ''id'') t then bindE (attach a n) (\<lambda>n'. Inr (True, JObj n'))
        else (case dget n ''children'' of
                Some (JList cs) \<Rightarrow>
                  bindE (find_and_attach t a cs) (\<lambda>(hit, cs'). Inr (hit, JObj (dset ''children'' (JList cs') n)))
              | _ \<Rightarrow> Inr (False, JObj n)))
       (find_and_attach t a ns) ns"
| "find_and_attach t a (n # ns) = Inl AttributeError"

subsection \<open>The effective document\<close>

text \<open>\<open>(d.get(k) or {}).items()\<close> and \<open>for x in d.get(k) or []\<close>.\<close>

definition items_or_none :: "dict \<Rightarrow> string \<Rightarrow> dict res" where
  "items_or_none d k = (let v = jget d k in if truthy v then of_opt AttributeError (as_obj v) else Inr [])"

definition each_or_none :: "dict \<Rightarrow> string \<Rightarrow> json list res" where
  "each_or_none d k = (let v = jget d k in if truthy v then iter_json v else Inr [])"

definition nodes_in :: "dict \<Rightarrow> json list res" where
  "nodes_in d = iter_json (case dget d ''nodes'' of None \<Rightarrow> JList [] | Some v \<Rightarrow> v)"

definition add_node :: "dict \<Rightarrow> json \<Rightarrow> dict res" where
  "add_node eff node =
     (case dget eff ''nodes'' of
        None \<Rightarrow> Inr (dset ''nodes'' (JList [node]) eff)
      | Some (JList xs) \<Rightarrow> Inr (dset ''nodes'' (JList (xs @ [node])) eff)
      | Some _ \<Rightarrow> Inl AttributeError)"

definition remove_node :: "dict \<Rightarrow> json \<Rightarrow> dict res" where
  "remove_node eff i =
     bindE (nodes_in eff) (\<lambda>ns. bindE (remove_by_id i ns) (\<lambda>out. Inr (dset ''nodes'' (JList out) eff)))"

text \<open>A change in place: without nodes there is nothing to put back.\<close>

definition put_nodes :: "json list \<Rightarrow> dict \<Rightarrow> dict" where
  "put_nodes out eff = (case dget eff ''nodes'' of Some (JList _) \<Rightarrow> dset ''nodes'' (JList out) eff | _ \<Rightarrow> eff)"

definition patch_node :: "dict \<Rightarrow> json \<Rightarrow> dict res" where
  "patch_node eff p =
     (case p of
        JObj d \<Rightarrow>
          bindE (item d ''id'') (\<lambda>i. bindE (item d ''patch'') (\<lambda>patch. bindE (nodes_in eff) (\<lambda>ns.
          bindE (patch_by_id i patch ns) (\<lambda>out. Inr (put_nodes out eff)))))
      | _ \<Rightarrow> Inl TypeError)"

definition add_attachment :: "dict \<Rightarrow> json \<Rightarrow> dict res" where
  "add_attachment eff a =
     (case a of
        JObj d \<Rightarrow>
          if truthy (jget d ''target_node'')
          then bindE (nodes_in eff) (\<lambda>ns. bindE (find_and_attach (jget d ''target_node'') d ns) (\<lambda>(hit, out). Inr (put_nodes out eff)))
          else Inr eff
      | _ \<Rightarrow> Inl AttributeError)"

definition compose :: "dict \<Rightarrow> dict \<Rightarrow> dict res" where
  "compose base overlay =
     (if overlay = [] then Inr base
      else bindE (items_or_none overlay ''param_overrides'') (\<lambda>overrides.
           bindE (foldE (\<lambda>eff (dotted, v). apply_param_override eff dotted v) base overrides) (\<lambda>eff.
           bindE (each_or_none overlay ''nodes_added'') (\<lambda>added.
           bindE (foldE add_node eff added) (\<lambda>eff.
           bindE (each_or_none overlay ''nodes_removed'') (\<lambda>removed.
           bindE (foldE remove_node eff removed) (\<lambda>eff.
           bindE (each_or_none overlay ''nodes_patched'') (\<lambda>patches.
           bindE (foldE patch_node eff patches) (\<lambda>eff.
           bindE (each_or_none overlay ''attachments_added'') (\<lambda>attachments.
           bindE (foldE add_attachment eff attachments) (\<lambda>eff.
             Inr (let e = jget overlay ''execution_override'' in if truthy e then dset ''execution'' e eff else eff))))))))))))"

subsection \<open>Nodes and their ids\<close>

text \<open>The ids of all nodes, at any depth.\<close>

fun node_ids :: "json list \<Rightarrow> json list" where
  "node_ids [] = []"
| "node_ids (JObj n # ns) =
     jget n ''id'' # (case dget n ''children'' of Some (JList cs) \<Rightarrow> node_ids cs | _ \<Rightarrow> []) @ node_ids ns"
| "node_ids (n # ns) = node_ids ns"

definition names :: "json \<Rightarrow> json list \<Rightarrow> bool" where
  "names i ids = list_ex (\<lambda>j. json_eq j i) ids"

lemma names_simps [simp]:
  "names i [] = False" "names i (j # js) \<longleftrightarrow> json_eq j i \<or> names i js" "names i (xs @ ys) \<longleftrightarrow> names i xs \<or> names i ys"
  by (simp_all add: names_def)

lemma dset_same: "dget d k = Some v \<Longrightarrow> dset k v d = d"
  by (induction k v d rule: dset.induct) (auto split: if_splits)

lemma jget_dset: "jget (dset k v d) k' = (if k' = k then v else jget d k')"
  by (simp add: jget_def dget_dset)

lemma node_ids_append [simp]: "node_ids (xs @ ys) = node_ids xs @ node_ids ys"
  by (induction xs rule: node_ids.induct) simp_all

lemma node_ids_in: "x \<in> set ns \<Longrightarrow> names i (node_ids [x]) \<Longrightarrow> names i (node_ids ns)"
  by (induction ns rule: node_ids.induct) auto

text \<open>After a removal no node of that id is left, at any depth.\<close>

lemma remove_by_id_gone: "remove_by_id i ns = Inr out \<Longrightarrow> \<not> names i (node_ids out)"
proof (induction i ns arbitrary: out rule: remove_by_id.induct)
  case (2 i n ns)
  show ?case
  proof (cases "json_eq (jget n ''id'') i")
    case True
    then show ?thesis using 2 by simp
  next
    case False
    then obtain x xs where o: "out = x # xs" "remove_by_id i ns = Inr xs"
      and x: "(case dget n ''children'' of
           Some (JList cs) \<Rightarrow> bindE (remove_by_id i cs) (\<lambda>cs'. Inr (JObj (dset ''children'' (JList cs') n)))
         | _ \<Rightarrow> Inr (JObj n)) = Inr x"
      using "2.prems" by (auto simp: res_simps)
    have "\<not> names i (node_ids [x])"
      using x False "2.IH"(2) [OF False]
      by (auto simp: res_simps jget_dset dget_dset split: option.splits json.splits)
    moreover have "\<not> names i (node_ids xs)" using "2.IH"(3) [OF False o(2)] .
    ultimately show ?thesis using o(1) by (cases x) auto
  qed
qed simp_all

text \<open>A node in which nothing is named stays as it is.\<close>

lemma remove_by_id_same: "remove_by_id i ns = Inr out \<Longrightarrow> \<not> names i (node_ids ns) \<Longrightarrow> out = ns"
proof (induction i ns arbitrary: out rule: remove_by_id.induct)
  case (2 i n ns)
  have no: "\<not> json_eq (jget n ''id'') i" "\<not> names i (node_ids ns)" using "2.prems"(2) by auto
  then obtain x xs where o: "out = x # xs" "remove_by_id i ns = Inr xs"
    and x: "(case dget n ''children'' of
         Some (JList cs) \<Rightarrow> bindE (remove_by_id i cs) (\<lambda>cs'. Inr (JObj (dset ''children'' (JList cs') n)))
       | _ \<Rightarrow> Inr (JObj n)) = Inr x"
    using "2.prems" by (auto simp: res_simps)
  have "x = JObj n"
  proof (cases "\<exists>cs. dget n ''children'' = Some (JList cs)")
    case True
    then obtain cs cs' where cs: "dget n ''children'' = Some (JList cs)" "remove_by_id i cs = Inr cs'"
      "x = JObj (dset ''children'' (JList cs') n)" using x by (auto simp: res_simps)
    have "\<not> names i (node_ids cs)" using cs(1) "2.prems"(2) by simp
    then have "cs' = cs" using "2.IH"(2) [OF no(1) cs(1) refl cs(2)] by simp
    then show ?thesis using cs by (simp add: dset_same)
  next
    case False
    then show ?thesis using x by (auto split: option.splits json.splits)
  qed
  moreover have "xs = ns" using "2.IH"(3) [OF no(1) o(2) no(2)] by simp
  ultimately show ?case using o(1) by simp
qed simp_all

lemma remove_by_id_kept:
  "remove_by_id i ns = Inr out \<Longrightarrow> x \<in> set ns \<Longrightarrow> \<not> names i (node_ids [x]) \<Longrightarrow> x \<in> set out"
proof (induction ns arbitrary: out)
  case (Cons y ns)
  obtain n where y: "y = JObj n" using Cons.prems(1) by (cases y) auto
  show ?case
  proof (cases "json_eq (jget n ''id'') i")
    case True
    then show ?thesis using Cons y by auto
  next
    case False
    then obtain z zs where o: "out = z # zs" "remove_by_id i ns = Inr zs"
      using Cons.prems(1) y by (auto simp: res_simps)
    have one: "remove_by_id i [y] = Inr [z]" using Cons.prems(1) y False o by (auto simp: res_simps)
    show ?thesis
    proof (cases "x = y")
      case True
      then have "[z] = [y]" using remove_by_id_same [OF one] Cons.prems(3) by simp
      then show ?thesis using True o(1) by simp
    next
      case False
      then show ?thesis using Cons.IH [OF o(2) _ Cons.prems(3)] Cons.prems(2) o(1) by simp
    qed
  qed
qed simp

lemma patch_by_id_same: "patch_by_id i patch ns = Inr out \<Longrightarrow> \<not> names i (node_ids ns) \<Longrightarrow> out = ns"
proof (induction i patch ns arbitrary: out rule: patch_by_id.induct)
  case (2 i patch n ns)
  have no: "\<not> json_eq (jget n ''id'') i" "\<not> names i (node_ids ns)" using "2.prems"(2) by auto
  then obtain x xs where o: "out = x # xs" "patch_by_id i patch ns = Inr xs"
    and x: "(case dget n ''children'' of
         Some (JList cs) \<Rightarrow> bindE (patch_by_id i patch cs) (\<lambda>cs'. Inr (JObj (dset ''children'' (JList cs') n)))
       | _ \<Rightarrow> Inr (JObj n)) = Inr x"
    using "2.prems" by (auto simp: res_simps)
  have "x = JObj n"
  proof (cases "\<exists>cs. dget n ''children'' = Some (JList cs)")
    case True
    then obtain cs cs' where cs: "dget n ''children'' = Some (JList cs)" "patch_by_id i patch cs = Inr cs'"
      "x = JObj (dset ''children'' (JList cs') n)" using x by (auto simp: res_simps)
    have "\<not> names i (node_ids cs)" using cs(1) "2.prems"(2) by simp
    then have "cs' = cs" using "2.IH"(2) [OF no(1) cs(1) refl cs(2)] by simp
    then show ?thesis using cs by (simp add: dset_same)
  next
    case False
    then show ?thesis using x by (auto split: option.splits json.splits)
  qed
  moreover have "xs = ns" using "2.IH"(3) [OF o(2) no(2)] by simp
  ultimately show ?case using o(1) by simp
qed simp_all

lemma patch_by_id_kept:
  "patch_by_id i patch ns = Inr out \<Longrightarrow> x \<in> set ns \<Longrightarrow> \<not> names i (node_ids [x]) \<Longrightarrow> x \<in> set out"
proof (induction ns arbitrary: out)
  case (Cons y ns)
  obtain n where y: "y = JObj n" using Cons.prems(1) by (cases y) auto
  then obtain z zs where o: "out = z # zs" "patch_by_id i patch ns = Inr zs"
    using Cons.prems(1) by (auto simp: res_simps)
  have one: "patch_by_id i patch [y] = Inr [z]" using Cons.prems(1) y o by (auto simp: res_simps)
  show ?case
  proof (cases "x = y")
    case True
    then have "[z] = [y]" using patch_by_id_same [OF one] Cons.prems(3) by simp
    then show ?thesis using True o(1) by simp
  next
    case False
    then show ?thesis using Cons.IH [OF o(2) _ Cons.prems(3)] Cons.prems(2) o(1) by simp
  qed
qed simp

lemma first_hit_Inr [res_simps]:
  "first_hit m r unseen = Inr (h, out) \<longleftrightarrow>
     (\<exists>x. m = Inr (True, x) \<and> h \<and> out = x # unseen) \<or> (\<exists>x xs. m = Inr (False, x) \<and> r = Inr (h, xs) \<and> out = x # xs)"
  by (auto simp: first_hit_def res_simps split: prod.splits if_splits)

lemma find_and_attach_ids: "find_and_attach t a ns = Inr (h, out) \<Longrightarrow> node_ids out = node_ids ns"
proof (induction t a ns arbitrary: h out rule: find_and_attach.induct)
  case (2 t a n ns)
  have one: "node_ids [x] = node_ids [JObj n]"
    if "(if json_eq (jget n ''id'') t then bindE (attach a n) (\<lambda>n'. Inr (True, JObj n'))
        else (case dget n ''children'' of
                Some (JList cs) \<Rightarrow>
                  bindE (find_and_attach t a cs) (\<lambda>(hit, cs'). Inr (hit, JObj (dset ''children'' (JList cs') n)))
              | _ \<Rightarrow> Inr (False, JObj n))) = Inr (hit, x)" for hit x
    using that "2.IH"(1)
    by (auto simp: res_simps attach_def jget_dset dget_dset split: if_splits option.splits json.splits prod.splits)
  obtain hit x xs where x: "out = x # xs"
    and m: "(if json_eq (jget n ''id'') t then bindE (attach a n) (\<lambda>n'. Inr (True, JObj n'))
        else (case dget n ''children'' of
                Some (JList cs) \<Rightarrow>
                  bindE (find_and_attach t a cs) (\<lambda>(hit, cs'). Inr (hit, JObj (dset ''children'' (JList cs') n)))
              | _ \<Rightarrow> Inr (False, JObj n))) = Inr (hit, x)"
    and xs: "xs = ns \<or> find_and_attach t a ns = Inr (h, xs)"
    using "2.prems" unfolding find_and_attach.simps first_hit_Inr by blast
  have "node_ids xs = node_ids ns" using xs "2.IH"(2) by auto
  then show ?case using x one [OF m] node_ids_append [of "[x]" xs] node_ids_append [of "[JObj n]" ns] by simp
qed simp_all

lemma find_and_attach_same:
  "find_and_attach t a ns = Inr (h, out) \<Longrightarrow> \<not> names t (node_ids ns) \<Longrightarrow> \<not> h \<and> out = ns"
proof (induction t a ns arbitrary: h out rule: find_and_attach.induct)
  case (2 t a n ns)
  have no: "\<not> json_eq (jget n ''id'') t" "\<not> names t (node_ids ns)" using "2.prems"(2) by auto
  obtain hit x xs where m: "(case dget n ''children'' of
       Some (JList cs) \<Rightarrow> bindE (find_and_attach t a cs) (\<lambda>(hit, cs'). Inr (hit, JObj (dset ''children'' (JList cs') n)))
     | _ \<Rightarrow> Inr (False, JObj n)) = Inr (hit, x)" and o: "out = x # xs"
    and rest: "hit \<and> h \<and> xs = ns \<or> \<not> hit \<and> find_and_attach t a ns = Inr (h, xs)"
    using "2.prems"(1) no(1) unfolding find_and_attach.simps first_hit_Inr by (auto split: if_splits)
  have x: "\<not> hit \<and> x = JObj n"
  proof (cases "\<exists>cs. dget n ''children'' = Some (JList cs)")
    case True
    then obtain cs cs' where cs: "dget n ''children'' = Some (JList cs)" "find_and_attach t a cs = Inr (hit, cs')"
      "x = JObj (dset ''children'' (JList cs') n)" using m by (auto simp: res_simps)
    have "\<not> names t (node_ids cs)" using cs(1) "2.prems"(2) by simp
    then have "\<not> hit \<and> cs' = cs" using "2.IH"(1) [OF no(1) cs(1) refl cs(2)] by simp
    then show ?thesis using cs by (simp add: dset_same)
  next
    case False
    then show ?thesis using m by (auto split: option.splits json.splits)
  qed
  then have "\<not> h \<and> xs = ns" using rest "2.IH"(2) [OF _ no(2)] by blast
  then show ?case using x o by simp
qed simp_all

lemma find_and_attach_kept:
  "find_and_attach t a ns = Inr (h, out) \<Longrightarrow> x \<in> set ns \<Longrightarrow> \<not> names t (node_ids [x]) \<Longrightarrow> x \<in> set out"
proof (induction ns arbitrary: h out)
  case (Cons y ns)
  obtain n where y: "y = JObj n" using Cons.prems(1) by (cases y) auto
  obtain hit z zs where o: "out = z # zs" and one: "find_and_attach t a [y] = Inr (hit, [z])"
    and rest: "zs = ns \<or> find_and_attach t a ns = Inr (h, zs)"
    using Cons.prems(1) unfolding y find_and_attach.simps first_hit_Inr by auto
  show ?case
  proof (cases "x = y")
    case True
    then have "[z] = [y]" using find_and_attach_same [OF one] Cons.prems(3) by simp
    then show ?thesis using True o by simp
  next
    case False
    then show ?thesis using Cons.IH [OF _ _ Cons.prems(3)] Cons.prems(2) o rest by auto
  qed
qed simp

lemma remove_by_id_subset: "remove_by_id j ns = Inr out \<Longrightarrow> names i (node_ids out) \<Longrightarrow> names i (node_ids ns)"
proof (induction j ns arbitrary: out rule: remove_by_id.induct)
  case (2 j n ns)
  show ?case
  proof (cases "json_eq (jget n ''id'') j")
    case True
    then show ?thesis using 2 by simp
  next
    case False
    then obtain x xs where o: "out = x # xs" "remove_by_id j ns = Inr xs"
      and x: "(case dget n ''children'' of
           Some (JList cs) \<Rightarrow> bindE (remove_by_id j cs) (\<lambda>cs'. Inr (JObj (dset ''children'' (JList cs') n)))
         | _ \<Rightarrow> Inr (JObj n)) = Inr x"
      using "2.prems" by (auto simp: res_simps)
    have "names i (node_ids [x]) \<Longrightarrow> names i (node_ids [JObj n])"
      using x "2.IH"(2) [OF False]
      by (auto simp: res_simps jget_dset dget_dset split: option.splits json.splits)
    moreover have "names i (node_ids xs) \<Longrightarrow> names i (node_ids ns)" using "2.IH"(3) [OF False o(2)] .
    ultimately show ?thesis
      using "2.prems"(2) o(1) node_ids_append [of "[x]" xs] node_ids_append [of "[JObj n]" ns] by auto
  qed
qed simp_all

subsection \<open>What the operators do to the nodes\<close>

definition effective_nodes :: "dict \<Rightarrow> json list" where
  "effective_nodes eff = (case dget eff ''nodes'' of Some (JList xs) \<Rightarrow> xs | _ \<Rightarrow> [])"

lemma effective_nodes_dset [simp]: "effective_nodes (dset ''nodes'' (JList xs) eff) = xs"
  by (simp add: effective_nodes_def dget_dset)

lemma nodes_in_effective: "nodes_in eff = Inr ns \<Longrightarrow> x \<in> set (effective_nodes eff) \<Longrightarrow> ns = effective_nodes eff"
  by (auto simp: nodes_in_def effective_nodes_def split: option.splits json.splits)

lemma effective_put:
  "effective_nodes (put_nodes out eff) = (case dget eff ''nodes'' of Some (JList _) \<Rightarrow> out | _ \<Rightarrow> [])"
  by (auto simp: put_nodes_def effective_nodes_def dget_dset split: option.split json.split)

lemma add_node_kept: "add_node eff y = Inr eff' \<Longrightarrow> set (effective_nodes eff') = insert y (set (effective_nodes eff))"
  by (auto simp: add_node_def effective_nodes_def dget_dset split: option.splits json.splits)

lemma remove_node_kept:
  assumes "remove_node eff i = Inr eff'" and "x \<in> set (effective_nodes eff)" and "\<not> names i (node_ids [x])"
  shows "x \<in> set (effective_nodes eff')"
  using assms remove_by_id_kept nodes_in_effective by (fastforce simp: remove_node_def res_simps)

lemma in_effective_list: "x \<in> set (effective_nodes eff) \<Longrightarrow> \<exists>xs. dget eff ''nodes'' = Some (JList xs)"
  by (cases "dget eff ''nodes''") (auto simp: effective_nodes_def split: json.splits)

lemma patch_node_kept:
  assumes "patch_node eff (JObj d) = Inr eff'" and "x \<in> set (effective_nodes eff)" and "\<not> names (jget d ''id'') (node_ids [x])"
  shows "x \<in> set (effective_nodes eff')"
proof -
  obtain i patch ns out where s: "dget d ''id'' = Some i" "nodes_in eff = Inr ns" "patch_by_id i patch ns = Inr out" "eff' = put_nodes out eff"
    using assms(1) by (auto simp: patch_node_def item_def res_simps)
  have "x \<in> set ns" using nodes_in_effective [OF s(2) assms(2)] assms(2) by simp
  then have "x \<in> set out" using patch_by_id_kept [OF s(3)] assms(3) s(1) by (simp add: jget_def)
  then show ?thesis using in_effective_list [OF assms(2)] s(4) by (auto simp: effective_put)
qed

lemma add_attachment_kept:
  assumes "add_attachment eff (JObj d) = Inr eff'" and "x \<in> set (effective_nodes eff)" and "\<not> names (jget d ''target_node'') (node_ids [x])"
  shows "x \<in> set (effective_nodes eff')"
proof (cases "truthy (jget d ''target_node'')")
  case True
  then obtain ns h out where s: "nodes_in eff = Inr ns" "find_and_attach (jget d ''target_node'') d ns = Inr (h, out)" "eff' = put_nodes out eff"
    using assms(1) by (auto simp: add_attachment_def res_simps)
  have "x \<in> set ns" using nodes_in_effective [OF s(1) assms(2)] assms(2) by simp
  then have "x \<in> set out" using find_and_attach_kept [OF s(2)] assms(3) by blast
  then show ?thesis using in_effective_list [OF assms(2)] s(3) by (auto simp: effective_put)
next
  case False
  then show ?thesis using assms by (simp add: add_attachment_def)
qed

lemma removed_gone:
  "foldE remove_node eff is = Inr eff' \<Longrightarrow> i \<in> set is \<or> \<not> names i (node_ids (effective_nodes eff)) \<Longrightarrow>
     \<not> names i (node_ids (effective_nodes eff'))"
proof (induction "is" arbitrary: eff)
  case (Cons j js)
  then obtain e1 where e1: "remove_node eff j = Inr e1" "foldE remove_node e1 js = Inr eff'" by (auto simp: res_simps)
  then obtain ns out where s: "nodes_in eff = Inr ns" "remove_by_id j ns = Inr out" "effective_nodes e1 = out"
    by (auto simp: remove_node_def res_simps)
  have "i \<in> set js \<or> \<not> names i (node_ids (effective_nodes e1))"
  proof (cases "i = j")
    case True
    then show ?thesis using remove_by_id_gone [OF s(2)] s(3) by simp
  next
    case False
    show ?thesis
    proof (cases "i \<in> set js")
      case False
      then have no: "\<not> names i (node_ids (effective_nodes eff))" using Cons.prems(2) \<open>i \<noteq> j\<close> by simp
      have "ns = effective_nodes eff \<or> remove_by_id j ns = Inr [] \<or> out = []"
        using s(1,2) by (cases ns) (auto simp: nodes_in_def effective_nodes_def split: option.splits json.splits)
      then show ?thesis using remove_by_id_subset [OF s(2)] no s(2,3) by auto
    qed simp
  qed
  then show ?case using Cons.IH [OF e1(2)] by blast
qed simp

lemma attachments_keep_ids:
  "foldE add_attachment eff as = Inr eff' \<Longrightarrow> node_ids (effective_nodes eff') = node_ids (effective_nodes eff)"
proof (induction "as" arbitrary: eff)
  case (Cons a as)
  then obtain e1 where e1: "add_attachment eff a = Inr e1" "foldE add_attachment e1 as = Inr eff'" by (auto simp: res_simps)
  have "node_ids (effective_nodes e1) = node_ids (effective_nodes eff)"
  proof (cases "e1 = eff")
    case False
    then obtain d ns h out where s: "nodes_in eff = Inr ns" "find_and_attach (jget d ''target_node'') d ns = Inr (h, out)" "e1 = put_nodes out eff"
      using e1(1) by (auto simp: add_attachment_def res_simps split: json.splits if_splits)
    then obtain xs where "dget eff ''nodes'' = Some (JList xs)" using False by (auto simp: put_nodes_def split: option.splits json.splits)
    then have "ns = xs" "effective_nodes eff = xs" "effective_nodes e1 = out"
      using s(1) effective_put [of out eff] s(3) by (simp_all add: nodes_in_def effective_nodes_def)
    then show ?thesis using find_and_attach_ids [OF s(2)] by simp
  qed simp
  then show ?case using Cons.IH [OF e1(2)] by simp
qed simp

text \<open>Nothing in a node is named by what the overlay removes, patches or attaches to.\<close>

definition untouched :: "json list \<Rightarrow> json list \<Rightarrow> json list \<Rightarrow> json \<Rightarrow> bool" where
  "untouched removed patches attachments x =
     (list_all (\<lambda>i. \<not> names i (node_ids [x])) removed
      \<and> list_all (\<lambda>p. case p of JObj d \<Rightarrow> \<not> names (jget d ''id'') (node_ids [x]) | _ \<Rightarrow> True) patches
      \<and> list_all (\<lambda>p. case p of JObj d \<Rightarrow> \<not> names (jget d ''target_node'') (node_ids [x]) | _ \<Rightarrow> True) attachments)"

lemma untouched_kept:
  assumes "foldE add_node eff0 added = Inr eff1" and "foldE remove_node eff1 removed = Inr eff2"
    and "foldE patch_node eff2 patches = Inr eff3" and "foldE add_attachment eff3 attachments = Inr eff4"
    and "x \<in> set (effective_nodes eff0) \<union> set added" and u: "untouched removed patches attachments x"
  shows "x \<in> set (effective_nodes eff4)"
proof -
  have keep: "foldE add_node e ys = Inr e' \<Longrightarrow> y \<in> set (effective_nodes e) \<union> set ys \<Longrightarrow> y \<in> set (effective_nodes e')" for e e' ys y
  proof (induction ys arbitrary: e)
    case (Cons z ys)
    then obtain e1 where e1: "add_node e z = Inr e1" "foldE add_node e1 ys = Inr e'" by (auto simp: res_simps)
    then show ?case using Cons.IH [OF e1(2)] add_node_kept [OF e1(1)] Cons.prems(2) by auto
  qed simp
  have x1: "x \<in> set (effective_nodes eff1)" using keep [OF assms(1,5)] .
  have x2: "x \<in> set (effective_nodes eff2)"
    by (rule foldE_invariant [OF assms(2), where P = "\<lambda>e. x \<in> set (effective_nodes e)", OF x1])
       (rule remove_node_kept, assumption+, use u in \<open>simp add: untouched_def list_all_iff\<close>)
  have x3: "x \<in> set (effective_nodes eff3)"
  proof (rule foldE_invariant [OF assms(3), where P = "\<lambda>e. x \<in> set (effective_nodes e)", OF x2])
    fix e p e' assume s: "p \<in> set patches" "x \<in> set (effective_nodes e)" "patch_node e p = Inr e'"
    then obtain d where d: "p = JObj d" by (auto simp: patch_node_def split: json.splits)
    have "list_all (\<lambda>p. case p of JObj d \<Rightarrow> \<not> names (jget d ''id'') (node_ids [x]) | _ \<Rightarrow> True) patches"
      using u unfolding untouched_def by blast
    then have "\<not> names (jget d ''id'') (node_ids [x])" using s(1) d unfolding list_all_iff by (metis json.simps(55))
    then show "x \<in> set (effective_nodes e')" using patch_node_kept [OF s(3) [unfolded d] s(2)] by blast
  qed
  show ?thesis
  proof (rule foldE_invariant [OF assms(4), where P = "\<lambda>e. x \<in> set (effective_nodes e)", OF x3])
    fix e p e' assume s: "p \<in> set attachments" "x \<in> set (effective_nodes e)" "add_attachment e p = Inr e'"
    then obtain d where d: "p = JObj d" by (auto simp: add_attachment_def split: json.splits)
    have "list_all (\<lambda>p. case p of JObj d \<Rightarrow> \<not> names (jget d ''target_node'') (node_ids [x]) | _ \<Rightarrow> True) attachments"
      using u unfolding untouched_def by blast
    then have "\<not> names (jget d ''target_node'') (node_ids [x])" using s(1) d unfolding list_all_iff by (metis json.simps(55))
    then show "x \<in> set (effective_nodes e')" using add_attachment_kept [OF s(3) [unfolded d] s(2)] by blast
  qed
qed


subsection \<open>A sample\<close>

definition sample_base :: dict where
  "sample_base = [(''nodes'', JList [JObj [(''id'', JStr ''a'')],
     JObj [(''id'', JStr ''g''), (''children'', JList [JObj [(''id'', JStr ''b'')], JObj [(''id'', JStr ''c'')]])]])]"

definition sample_overlay :: dict where
  "sample_overlay = [(''nodes_added'', JList [JObj [(''id'', JStr ''d'')], JObj [(''id'', JStr ''a'')]]), (''nodes_removed'', JList [JStr ''b'']),
     (''attachments_added'', JList [JObj [(''target_node'', JStr ''c''), (''role'', JStr ''r'')]])]"

definition sample_effective :: dict where
  "sample_effective = [(''nodes'', JList [JObj [(''id'', JStr ''a'')],
     JObj [(''id'', JStr ''g''), (''children'', JList [JObj [(''id'', JStr ''c''), (''attachments'', JList [JObj [(''role'', JStr ''r'')]])]])],
     JObj [(''id'', JStr ''d'')], JObj [(''id'', JStr ''a'')]])]"

text \<open>An added node does not replace the node with its id: both are in the document.\<close>

lemma sample_composed: "compose sample_base sample_overlay = Inr sample_effective"
  by code_simp


subsection \<open>Resolving secrets\<close>

text \<open>
  A value \<open>env.secret.<name>\<close> under a key \<open><k>_from\<close> becomes the secret, marked as coming from the
  vault, under the key \<open><k>\<close>.
\<close>

definition secret_ref :: "string \<Rightarrow> json \<Rightarrow> string option" where
  "secret_ref k v =
     (case v of
        JStr s \<Rightarrow> if suffix ''_from'' k \<and> prefix ''env.secret.'' s then Some (drop 11 s) else None
      | _ \<Rightarrow> None)"

definition marked_secret :: "string \<Rightarrow> json" where
  "marked_secret s = JObj [(vault_marker, JBool True), (''value'', JStr s)]"

definition rewrite_entry :: "(string \<Rightarrow> string option) \<Rightarrow> dict \<Rightarrow> string \<times> json \<Rightarrow> dict res" where
  "rewrite_entry lookup obj = (\<lambda>(k, v).
     case secret_ref k v of
       None \<Rightarrow> Inr obj
     | Some n \<Rightarrow>
         (case lookup n of None \<Rightarrow> Inl KeyError | Some s \<Rightarrow> Inr (dset (take (length k - 5) k) (marked_secret s) obj)))"

definition rewrite_obj :: "(string \<Rightarrow> string option) \<Rightarrow> dict \<Rightarrow> dict res" where
  "rewrite_obj lookup d =
     bindE (foldE (rewrite_entry lookup) d d) (\<lambda>obj.
       Inr (fold (\<lambda>(k, v). if secret_ref k v = None then id else dpop k) d obj))"

text \<open>\<open>_walk\<close>: what was just marked holds nothing to rewrite, so only the entries of the object are walked.\<close>

fun resolve_walk :: "(string \<Rightarrow> string option) \<Rightarrow> json \<Rightarrow> json res" where
  "resolve_walk lookup (JObj d) =
     bindE (rewrite_obj lookup d) (\<lambda>obj.
     bindE (mapE (\<lambda>(k, v). bindE (if (k, v) \<in> set d then resolve_walk lookup v else Inr v) (\<lambda>w. Inr (k, w))) obj) (\<lambda>obj'.
       Inr (JObj obj')))"
| "resolve_walk lookup (JList xs) = bindE (mapE (resolve_walk lookup) xs) (\<lambda>ys. Inr (JList ys))"
| "resolve_walk lookup v = Inr v"

definition resolve_secrets :: "dict \<Rightarrow> (string \<Rightarrow> string option) \<Rightarrow> json res" where
  "resolve_secrets document lookup = resolve_walk lookup (JObj document)"

subsection \<open>The vault layer hides the resolved secrets\<close>

text \<open>The values as the vault layer sees them: what a marked object holds is not looked at.\<close>

fun masked :: "json \<Rightarrow> json" where
  "masked (JObj d) =
     (if dget d vault_marker = Some (JBool True) then JObj [(vault_marker, JBool True)]
      else JObj (map (\<lambda>(k, v). (k, masked v)) d))"
| "masked (JList xs) = JList (map masked xs)"
| "masked v = v"

lemma masked_marked: "masked (marked_secret a) = masked (marked_secret b)"
  by (simp add: marked_secret_def)

lemma masked_JBool: "masked v = JBool b \<longleftrightarrow> v = JBool b"
  by (cases v) auto

lemma masked_plain: "masked w = v \<Longrightarrow> \<not> is_container v \<Longrightarrow> w = v"
  by (cases w) (auto split: if_splits)

lemma dget_masked: "dget (map (\<lambda>(k, v). (k, masked v)) d) k = map_option masked (dget d k)"
  by (induction d) auto

lemma masked_rule: "masked v = masked w \<Longrightarrow> vault_rule v = vault_rule w"
proof -
  have "vault_rule v = vault_rule (masked v)" for v
    by (cases v) (auto simp: vault_rule_def dget_masked masked_JBool)
  then show "masked v = masked w \<Longrightarrow> vault_rule v = vault_rule w" by metis
qed

lemma masked_walk:
  "masked v = masked w \<Longrightarrow> vault_rule v = None \<Longrightarrow> vault_walk path v = vault_walk path w"
  "map (\<lambda>(k, v). (k, masked v)) d = map (\<lambda>(k, v). (k, masked v)) e \<Longrightarrow> vault_items path d = vault_items path e"
  "map masked xs = map masked ys \<Longrightarrow> vault_elems path i xs = vault_elems path i ys"
proof (induction path v and path d and path i xs arbitrary: w and e and ys
    rule: vault_walk_vault_items_vault_elems.induct)
  case (1 path v)
  have r: "vault_rule w = None" using masked_rule [OF "1.prems"(1)] "1.prems"(2) by simp
  show ?case
  proof (cases v)
    case (JObj d)
    then have d: "dget d vault_marker \<noteq> Some (JBool True)" using "1.prems"(2) by (auto simp: vault_rule_def)
    obtain e where e: "w = JObj e" "map (\<lambda>(k, v). (k, masked v)) d = map (\<lambda>(k, v). (k, masked v)) e"
      using "1.prems"(1) d r JObj by (cases w) (auto simp: vault_rule_def split: if_splits)
    have "vault_items path d = vault_items path e" using "1.IH"(2) [of d e] "1.prems"(2) JObj e(2) by simp
    then show ?thesis using JObj e(1) r "1.prems"(2) by (simp add: vault_walk.simps)
  next
    case (JList xs)
    then obtain ys where ys: "w = JList ys" "map masked xs = map masked ys"
      using "1.prems"(1) by (cases w) (auto split: if_splits)
    have "vault_elems path 0 xs = vault_elems path 0 ys" using "1.IH"(1) [of xs ys] "1.prems"(2) JList ys(2) by simp
    then show ?thesis using JList ys(1) r "1.prems"(2) by (simp add: vault_walk.simps)
  qed (use masked_plain [of w v] "1.prems"(1) in \<open>metis is_container.simps masked.simps\<close>)+
next
  case (3 path k v d)
  obtain p e' where "e = p # e'" using "3.prems" by (cases e) simp_all
  then obtain u where e: "e = (k, u) # e'" "masked v = masked u" "map (\<lambda>(k, v). (k, masked v)) d = map (\<lambda>(k, v). (k, masked v)) e'"
    using "3.prems" by (cases p) simp
  have i: "vault_items path d = vault_items path e'" using "3.IH"(1) e(3) by blast
  have r: "vault_rule v = vault_rule u" using masked_rule [OF e(2)] .
  show ?case
  proof (cases "vault_rule v")
    case None
    have "vault_walk (sub_path path k) v = vault_walk (sub_path path k) u"
      using "3.IH"(2) e(2) None by (metis prod.exhaust)
    then show ?thesis using e(1) i r None by simp
  next
    case (Some a)
    then show ?thesis using e(1) i r by simp
  qed
next
  case (5 path i x xs)
  obtain u ys' where e: "ys = u # ys'" using "5.prems" by (cases ys) simp_all
  then have e: "ys = u # ys'" "masked x = masked u" "map masked xs = map masked ys'" using "5.prems" by simp_all
  have i: "vault_elems path (Suc i) xs = vault_elems path (Suc i) ys'" using "5.IH"(1) e(3) by blast
  have r: "vault_rule x = vault_rule u" using masked_rule [OF e(2)] .
  show ?case
  proof (cases "vault_rule x")
    case None
    have "vault_walk (item_path path i) x = vault_walk (item_path path i) u"
      using "5.IH"(2) e(2) None by (metis prod.exhaust)
    then show ?thesis using e(1) i r None by simp
  next
    case (Some a)
    then show ?thesis using e(1) i r by simp
  qed
qed simp_all

text \<open>Two lookups that know the same names rewrite an object alike, up to the marked secrets.\<close>

definition alike :: "string \<times> json \<Rightarrow> string \<times> json \<Rightarrow> bool" where
  "alike p q = (fst p = fst q \<and> (snd p = snd q \<or> (\<exists>a b. snd p = marked_secret a \<and> snd q = marked_secret b)))"

lemma alike_refl [simp]: "alike p p"
  by (simp add: alike_def)

lemma alike_dset:
  "list_all2 alike d e \<Longrightarrow> alike (k, v) (k, w) \<Longrightarrow> list_all2 alike (dset k v d) (dset k w e)"
proof (induction rule: list_all2_induct)
  case (Cons p ps q qs)
  then show ?case by (cases p; cases q) (auto simp: alike_def)
qed simp

lemma alike_dpop: "list_all2 alike d e \<Longrightarrow> list_all2 alike (dpop k d) (dpop k e)"
  by (induction rule: list_all2_induct) (auto simp: dpop_def alike_def split: prod.splits)

abbreviation both :: "('a \<Rightarrow> 'b \<Rightarrow> bool) \<Rightarrow> 'a res \<Rightarrow> 'b res \<Rightarrow> bool" where
  "both R \<equiv> rel_sum (=) R"

lemma both_bind: "both R m n \<Longrightarrow> (\<And>x y. m = Inr x \<Longrightarrow> n = Inr y \<Longrightarrow> R x y \<Longrightarrow> both S (f x) (g y)) \<Longrightarrow> both S (bindE m f) (bindE n g)"
  by (cases m; cases n) auto

lemma both_mapE:
  "list_all2 R xs ys \<Longrightarrow> (\<And>x y. x \<in> set xs \<Longrightarrow> y \<in> set ys \<Longrightarrow> R x y \<Longrightarrow> both S (f x) (g y)) \<Longrightarrow> both (list_all2 S) (mapE f xs) (mapE g ys)"
proof (induction rule: list_all2_induct)
  case (Cons x xs y ys)
  then show ?case by (auto intro!: both_bind)
qed simp

lemma both_foldE:
  assumes "\<And>s t x. x \<in> set xs \<Longrightarrow> R s t \<Longrightarrow> both R (f s x) (g t x)" and "R s t"
  shows "both R (foldE f s xs) (foldE g t xs)"
  using assms
proof (induction xs arbitrary: s t)
  case (Cons x xs)
  show ?case
    using Cons.prems Cons.IH by (auto intro!: both_bind [where R = R])
qed simp

lemma rewrite_alike:
  assumes "\<And>n. l1 n = None \<longleftrightarrow> l2 n = None"
  shows "both (list_all2 alike) (rewrite_obj l1 d) (rewrite_obj l2 d)"
proof -
  have marked: "alike (k, marked_secret a) (k, marked_secret b)" for k a b by (auto simp: alike_def)
  have "both (list_all2 alike) (rewrite_entry l1 s p) (rewrite_entry l2 t p)" if st: "list_all2 alike s t" for s t p
  proof (cases "secret_ref (fst p) (snd p)")
    case None
    then show ?thesis using st by (simp add: rewrite_entry_def split_def)
  next
    case (Some n)
    then show ?thesis
      using assms [of n] alike_dset [OF st marked] by (cases "l1 n"; cases "l2 n") (simp_all add: rewrite_entry_def split_def)
  qed
  then have "both (list_all2 alike) (foldE (rewrite_entry l1) d d) (foldE (rewrite_entry l2) d d)"
    by (intro both_foldE) (auto simp: list.rel_refl)
  moreover have "list_all2 alike (fold (\<lambda>(k, v). if secret_ref k v = None then id else dpop k) ps s)
      (fold (\<lambda>(k, v). if secret_ref k v = None then id else dpop k) ps t)" if "list_all2 alike s t" for ps s t
    using that
  proof (induction ps arbitrary: s t)
    case (Cons p ps)
    obtain k v where p: "p = (k, v)" by (cases p)
    show ?case
    proof (cases "secret_ref k v = None")
      case True
      then show ?thesis using Cons p by simp
    next
      case False
      then obtain n where "secret_ref k v = Some n" by blast
      then show ?thesis using Cons.IH [OF alike_dpop [OF Cons.prems]] p by simp
    qed
  qed simp
  ultimately show ?thesis unfolding rewrite_obj_def by (intro both_bind) auto
qed

lemma resolve_marked: "resolve_walk lookup (marked_secret a) = Inr (marked_secret a)"
proof -
  have "\<not> suffix ''_from'' ''value''" by code_simp
  then show ?thesis by (simp add: marked_secret_def rewrite_obj_def rewrite_entry_def secret_ref_def)
qed

lemma resolve_masked:
  assumes "\<And>n. l1 n = None \<longleftrightarrow> l2 n = None"
  shows "both (\<lambda>v w. masked v = masked w) (resolve_walk l1 j) (resolve_walk l2 j)"
proof (induction j rule: json_induct)
  case (JList xs)
  have "both (list_all2 (\<lambda>v w. masked v = masked w)) (mapE (resolve_walk l1) xs) (mapE (resolve_walk l2) xs)"
    using JList by (intro both_mapE [where R = "(=)"]) (auto simp: list.rel_eq)
  moreover have "list_all2 (\<lambda>v w. masked v = masked w) vs ws \<Longrightarrow> map masked vs = map masked ws" for vs ws
    by (induction rule: list_all2_induct) auto
  ultimately show ?case by (auto intro!: both_bind)
next
  case (JObj d)
  let ?f = "\<lambda>l (k, v). bindE (if (k, v) \<in> set d then resolve_walk l v else Inr v) (\<lambda>w. Inr (k, w))"
  let ?R = "\<lambda>p q. fst p = fst q \<and> masked (snd p) = masked (snd q)"
  have marked: "?f l (k, marked_secret a) = Inr (k, marked_secret a)" for l k a
    by (simp add: resolve_marked)
  have "both ?R (?f l1 p) (?f l2 q)" if pq: "alike p q" for p q
  proof (cases "snd p = snd q")
    case True
    then have q: "q = p" using pq by (auto simp: alike_def prod_eq_iff)
    show ?thesis unfolding q using JObj by (cases p) (auto intro!: both_bind)
  next
    case False
    then obtain a b where "fst p = fst q" "snd p = marked_secret a" "snd q = marked_secret b"
      using pq unfolding alike_def by blast
    then have "p = (fst p, marked_secret a)" "q = (fst p, marked_secret b)" by (simp_all add: prod_eq_iff)
    then obtain k where "p = (k, marked_secret a)" "q = (k, marked_secret b)" by blast
    then show ?thesis using marked masked_marked by simp
  qed
  then have "both (list_all2 ?R) (mapE (?f l1) o1) (mapE (?f l2) o2)" if "list_all2 alike o1 o2" for o1 o2
    using that by (intro both_mapE [where R = alike]) auto
  moreover have "masked (JObj o1) = masked (JObj o2)" if r: "list_all2 ?R o1 o2" for o1 o2
  proof -
    have m: "map (\<lambda>(k, v). (k, masked v)) o1 = map (\<lambda>(k, v). (k, masked v)) o2"
      using r by (induction rule: list_all2_induct) auto
    then have "dget o1 vault_marker = Some (JBool True) \<longleftrightarrow> dget o2 vault_marker = Some (JBool True)"
      using dget_masked [of o1 vault_marker] dget_masked [of o2 vault_marker] masked_JBool
      by (cases "dget o1 vault_marker"; cases "dget o2 vault_marker") (simp_all, metis)
    then show ?thesis using m by simp
  qed
  ultimately show ?case
    using rewrite_alike [of l1 l2 d] assms by (auto intro!: both_bind)
qed simp_all

lemma resolve_fixed: "resolve_walk lookup v = Inr (JBool b) \<Longrightarrow> v = JBool b"
  by (cases v) (auto simp: res_simps)

lemma rewritten_marker:
  assumes "rewrite_obj lookup d = Inr obj" and "dget obj k = Some (JBool b)"
  shows "dget d k = Some (JBool b)"
proof -
  obtain o1 where o1: "foldE (rewrite_entry lookup) d d = Inr o1"
    and obj: "obj = fold (\<lambda>(k, v). if secret_ref k v = None then id else dpop k) d o1"
    using assms(1) by (auto simp: rewrite_obj_def res_simps)
  have popped: "dget (fold (\<lambda>(k, v). if secret_ref k v = None then id else dpop k) ps s) k = Some v \<Longrightarrow> dget s k = Some v" for ps s v
    by (induction ps arbitrary: s) (fastforce simp: dget_dpop split: if_splits)+
  have "dget o1 k = Some (JBool b) \<longrightarrow> dget d k = Some (JBool b)"
    by (rule foldE_invariant [OF o1, where P = "\<lambda>s. dget s k = Some (JBool b) \<longrightarrow> dget d k = Some (JBool b)"])
       (auto simp: rewrite_entry_def dget_dset marked_secret_def split: prod.splits option.splits if_splits)
  then show ?thesis using popped [of d o1 "JBool b"] obj assms(2) by simp
qed

lemma resolved_marker:
  assumes "resolve_walk lookup (JObj d) = Inr (JObj e)" and "dget e k = Some (JBool b)"
  shows "dget d k = Some (JBool b)"
proof -
  obtain obj where obj: "rewrite_obj lookup d = Inr obj"
    and e: "mapE (\<lambda>(k, v). bindE (if (k, v) \<in> set d then resolve_walk lookup v else Inr v) (\<lambda>w. Inr (k, w))) obj = Inr e"
    using assms(1) by (auto simp: res_simps)
  have "dget obj k = Some (JBool b)"
    using e assms(2)
  proof (induction obj arbitrary: e)
    case (Cons p obj)
    obtain k' v where p: "p = (k', v)" by (cases p)
    then obtain w e' where w: "(if (k', v) \<in> set d then resolve_walk lookup v else Inr v) = Inr w" "e = (k', w) # e'"
      and e': "mapE (\<lambda>(k, v). bindE (if (k, v) \<in> set d then resolve_walk lookup v else Inr v) (\<lambda>w. Inr (k, w))) obj = Inr e'"
      using Cons.prems(1) by (auto simp: res_simps)
    show ?case
    proof (cases "k = k'")
      case True
      then have "w = JBool b" using Cons.prems(2) w(2) by simp
      then show ?thesis using True p w(1) resolve_fixed by (auto split: if_splits)
    next
      case False
      then show ?thesis using Cons.IH [OF e'] Cons.prems(2) w(2) p by simp
    qed
  qed simp
  then show ?thesis using rewritten_marker [OF obj] by blast
qed


definition sample_document :: dict where
  "sample_document = [(''vars'', JObj [(''password_from'', JStr ''env.secret.db''), (''port'', JInt 5432)])]"

definition sample_vault :: "string \<Rightarrow> string \<Rightarrow> string option" where
  "sample_vault s n = (if n = ''db'' then Some s else None)"


end
