(* ===== verification/Overlay_Expand.thy ===== *)
theory Overlay_Expand
  imports Overlay
begin

text \<open>
  The replication of a document (\<open>app/overlay/expand_replication.py\<close>): every node that is
  replicated per team becomes one copy per team, with the team's identifier, VMID, addresses,
  templates and handler namespaces. What \<open>str\<close> gives for a list, an object or a fractional float, and
  what \<open>float\<close> reads from a text, are parameters; infinities and NaN are outside the model.
\<close>

subsection \<open>Numbers and texts the JavaScript way\<close>

record py_texts =
  pt_str :: "json \<Rightarrow> string"
  pt_float :: "string \<Rightarrow> rat option"

fun is_number :: "json \<Rightarrow> bool" where
  "is_number (JInt i) = True"
| "is_number (JFloat r) = True"
| "is_number _ = False"

definition num_op :: "(int \<Rightarrow> int \<Rightarrow> int) \<Rightarrow> (rat \<Rightarrow> rat \<Rightarrow> rat) \<Rightarrow> json \<Rightarrow> json \<Rightarrow> json" where
  "num_op f g x y =
     (case (x, y) of
        (JInt a, JInt b) \<Rightarrow> JInt (f a b)
      | _ \<Rightarrow> (case (number_of x, number_of y) of (Some a, Some b) \<Rightarrow> JFloat (g a b) | _ \<Rightarrow> JNull))"

definition integral :: "rat \<Rightarrow> bool" where
  "integral r = (of_int \<lfloor>r\<rfloor> = r)"

definition num_to_str :: "py_texts \<Rightarrow> json \<Rightarrow> string" where
  "num_to_str tx v =
     (case v of
        JInt i \<Rightarrow> int_str i
      | JFloat r \<Rightarrow> if integral r then int_str \<lfloor>r\<rfloor> else pt_str tx v
      | _ \<Rightarrow> pt_str tx v)"

definition js_str :: "py_texts \<Rightarrow> json option \<Rightarrow> string" where
  "js_str tx value =
     (case value of
        None \<Rightarrow> ''undefined''
      | Some JNull \<Rightarrow> ''null''
      | Some (JBool b) \<Rightarrow> if b then ''true'' else ''false''
      | Some (JStr s) \<Rightarrow> s
      | Some v \<Rightarrow> num_to_str tx v)"

definition num_to_str_value :: "json \<Rightarrow> json" where
  "num_to_str_value v = (case v of JFloat r \<Rightarrow> if integral r then JInt \<lfloor>r\<rfloor> else v | _ \<Rightarrow> v)"

definition js_number :: "py_texts \<Rightarrow> json \<Rightarrow> json option" where
  "js_number tx value =
     (case value of
        JNull \<Rightarrow> Some (JInt 0)
      | JBool b \<Rightarrow> Some (JInt (if b then 1 else 0))
      | JInt i \<Rightarrow> Some value
      | JFloat r \<Rightarrow> Some value
      | JStr s \<Rightarrow> if strip s = [] then Some (JFloat 0) else map_option JFloat (pt_float tx (strip s))
      | _ \<Rightarrow> None)"

text \<open>The whitespace of the patterns, and the leading integer of a text.\<close>

definition tpl_ws :: "char \<Rightarrow> bool" where
  "tpl_ws c = ((of_char c :: nat) \<in> {32, 9, 10, 13, 12, 11})"

definition js_parse_int :: "string \<Rightarrow> int option" where
  "js_parse_int value =
     (let s = dropWhile tpl_ws value;
          sign = (take 1 s = ''-'');
          digits = takeWhile is_digit (if take 1 s \<in> {''-'', ''+''} then drop 1 s else s)
      in if digits = [] then None else Some (if sign then - int (digits_val digits) else int (digits_val digits)))"

subsection \<open>Templates\<close>

text \<open>
  \<open>re.sub\<close>: the pattern is tried at each position from the left, and the search goes on after a
  match. A matcher gives what replaces the match and what follows it.
\<close>

function re_sub :: "(string \<Rightarrow> (string \<times> string) option) \<Rightarrow> string \<Rightarrow> string" where
  "re_sub match s =
     (case s of
        [] \<Rightarrow> []
      | c # cs \<Rightarrow>
          (case match s of
             Some (out, rest) \<Rightarrow> if length rest < length s then out @ re_sub match rest else c # re_sub match cs
           | None \<Rightarrow> c # re_sub match cs))"
  by pat_completeness auto
termination
  by (relation "measure (\<lambda>(match, s). length s)") auto

declare re_sub.simps [simp del]

datatype tpl_term = Number int | TeamId | BridgeBase

definition op_chars :: "char set" where
  "op_chars = {CHR ''+'', CHR ''-'', CHR ''*''}"

definition take_term :: "string \<Rightarrow> (tpl_term \<times> string) option" where
  "take_term s =
     (if takeWhile is_digit s \<noteq> [] then Some (Number (int (digits_val (takeWhile is_digit s))), dropWhile is_digit s)
      else if prefix ''team_id'' s then Some (TeamId, drop 7 s)
      else if prefix ''bridge_base'' s then Some (BridgeBase, drop 11 s)
      else None)"

text \<open>The rest of an expression of terms and operators; anything else is not of the grammar.\<close>

lemma take_term_shorter: "take_term s = Some (t, r) \<Longrightarrow> length r < length s"
proof -
  have "length (dropWhile is_digit s) < length s" if "takeWhile is_digit s \<noteq> []"
    using that takeWhile_dropWhile_id [of is_digit s] by (metis length_append length_greater_0_conv less_add_same_cancel2)
  then show "take_term s = Some (t, r) \<Longrightarrow> length r < length s"
    by (auto simp: take_term_def split: if_splits) (cases s; auto)+
qed

function expr_tail :: "string \<Rightarrow> (char \<times> tpl_term) list option" where
  "expr_tail s =
     (case dropWhile tpl_ws s of
        [] \<Rightarrow> Some []
      | c # cs \<Rightarrow>
          if c \<in> op_chars
          then (case take_term (dropWhile tpl_ws cs) of
                  None \<Rightarrow> None
                | Some (t, r) \<Rightarrow> map_option (Cons (c, t)) (expr_tail r))
          else None)"
  by pat_completeness auto
termination
proof (relation "measure length", simp)
  fix s c cs p t r
  assume a: "dropWhile tpl_ws s = c # cs" "take_term (dropWhile tpl_ws cs) = Some p" "(t, r) = p"
  have "length r < length (dropWhile tpl_ws cs)" using take_term_shorter a(2,3) by auto
  also have "\<dots> \<le> length cs" by (rule length_dropWhile_le)
  also have "\<dots> < length (dropWhile tpl_ws s)" by (simp add: a(1))
  also have "\<dots> \<le> length s" by (rule length_dropWhile_le)
  finally show "(r, s) \<in> measure length" by simp
qed

declare expr_tail.simps [simp del]

definition supported_expr :: "string \<Rightarrow> (tpl_term \<times> (char \<times> tpl_term) list) option" where
  "supported_expr inner =
     (case take_term (dropWhile tpl_ws inner) of
        None \<Rightarrow> None
      | Some (t, r) \<Rightarrow> map_option (Pair t) (expr_tail r))"

fun term_value :: "int \<Rightarrow> json \<Rightarrow> tpl_term \<Rightarrow> json" where
  "term_value team base (Number i) = JInt i"
| "term_value team base TeamId = JInt team"
| "term_value team base BridgeBase = base"

definition apply_op :: "int \<Rightarrow> json \<Rightarrow> json \<Rightarrow> char \<times> tpl_term \<Rightarrow> json" where
  "apply_op team base acc = (\<lambda>(c, t).
     let v = term_value team base t in
     if c = CHR ''+'' then num_op (+) (+) acc v
     else if c = CHR ''-'' then num_op (-) (-) acc v
     else num_op (*) (*) acc v)"

definition eval_expr :: "py_texts \<Rightarrow> int \<Rightarrow> json \<Rightarrow> tpl_term \<times> (char \<times> tpl_term) list \<Rightarrow> string" where
  "eval_expr tx team base = (\<lambda>(t, ops). num_to_str tx (foldl (apply_op team base) (term_value team base t) ops))"

text \<open>
  \<open>{{ ... }}\<close>: the text between the braces holds no brace and is not empty. Its group leaves out the
  blanks around it, which the grammar of the expressions allows anyway.
\<close>

definition jinja :: "py_texts \<Rightarrow> int \<Rightarrow> json \<Rightarrow> string \<Rightarrow> (string \<times> string) option" where
  "jinja tx team base s =
     (let plain = (\<lambda>c. c \<notin> {CHR ''{'', CHR ''}''}); r = takeWhile plain (drop 2 s); rest = dropWhile plain (drop 2 s)
      in if prefix ''{{'' s \<and> r \<noteq> [] \<and> prefix ''}}'' rest
         then Some (case supported_expr r of
                      None \<Rightarrow> ''{{'' @ r @ ''}}''
                    | Some e \<Rightarrow> eval_expr tx team base e, drop 2 rest)
         else None)"

text \<open>\<open>{140+team_id}\<close>: digits, perhaps an operator, and the team.\<close>

definition legacy_value :: "int \<Rightarrow> char option \<Rightarrow> int \<Rightarrow> string" where
  "legacy_value n op team =
     (case op of
        None \<Rightarrow> int_str (n + team)
      | Some c \<Rightarrow> if c = CHR ''+'' then int_str (n + team) else if c = CHR ''-'' then int_str (n - team) else int_str (n * team))"

definition legacy :: "int \<Rightarrow> string \<Rightarrow> (string \<times> string) option" where
  "legacy team s =
     (if prefix ''{'' s
      then let digits = takeWhile is_digit (drop 1 s);
               u = dropWhile tpl_ws (dropWhile is_digit (drop 1 s));
               op = (case u of [] \<Rightarrow> None | c # cs \<Rightarrow> if c \<in> op_chars then Some c else None);
               v = (if op = None then u else dropWhile tpl_ws (drop 1 u));
               w = dropWhile tpl_ws (drop 7 v)
           in if prefix ''team_id'' v \<and> prefix ''}'' w
              then Some (legacy_value (int (digits_val digits)) op team, drop 1 w) else None
      else None)"

definition render_template :: "py_texts \<Rightarrow> string \<Rightarrow> int \<Rightarrow> json \<Rightarrow> string" where
  "render_template tx tpl team base = re_sub (legacy team) (re_sub (jinja tx team base) tpl)"

subsection \<open>One copy\<close>

definition team_mark :: "int \<Rightarrow> string" where
  "team_mark team = ''__team_'' @ int_str team"

text \<open>\<open>d[new] = f(d.pop(old))\<close> when \<open>d[old]\<close> is a text.\<close>

definition retemplate :: "(string \<Rightarrow> json) \<Rightarrow> string \<Rightarrow> string \<Rightarrow> dict \<Rightarrow> dict" where
  "retemplate f old new d = (case dget d old of Some (JStr t) \<Rightarrow> dset new (f t) (dpop old d) | _ \<Rightarrow> d)"

definition offset_vmid :: "py_texts \<Rightarrow> int \<Rightarrow> dict \<Rightarrow> dict \<Rightarrow> dict" where
  "offset_vmid tx team id_offset cfg =
     (case (dget id_offset ''vmid'', dget cfg ''vm_id'') of
        (Some off, Some v) \<Rightarrow>
          if is_number off
          then (case js_number tx v of
                  None \<Rightarrow> cfg
                | Some b \<Rightarrow> dset ''vm_id'' (num_to_str_value (num_op (+) (+) b (num_op (*) (*) off (JInt team)))) cfg)
          else cfg
      | _ \<Rightarrow> cfg)"

definition copy_config :: "py_texts \<Rightarrow> int \<Rightarrow> dict \<Rightarrow> json \<Rightarrow> dict \<Rightarrow> dict" where
  "copy_config tx team id_offset base d =
     (let cfg = (case dget d ''config'' of Some (JObj c) \<Rightarrow> c | _ \<Rightarrow> []);
          cfg = retemplate (\<lambda>t. JStr (render_template tx t team base)) ''name_template'' ''name'' cfg;
          cfg = retemplate (\<lambda>t. case js_parse_int (render_template tx t team base) of None \<Rightarrow> JNull | Some i \<Rightarrow> JInt i)
                  ''vlan_template'' ''vlan'' cfg
      in offset_vmid tx team id_offset cfg)"

definition node_templates :: "(string \<times> string) list" where
  "node_templates = [(''cidr_template'', ''cidr''), (''bridge_template'', ''bridge''), (''gateway_template'', ''gateway'')]"

definition copy_networks :: "py_texts \<Rightarrow> int \<Rightarrow> json \<Rightarrow> dict \<Rightarrow> dict" where
  "copy_networks tx team base d =
     (case dget d ''networks'' of
        Some (JList xs) \<Rightarrow>
          dset ''networks'' (JList (map (\<lambda>nw. case nw of
              JObj n \<Rightarrow> JObj (retemplate (\<lambda>t. JStr (render_template tx t team base)) ''ip_template'' ''ip'' n)
            | _ \<Rightarrow> nw) xs)) d
      | _ \<Rightarrow> d)"

definition copy_notify :: "py_texts \<Rightarrow> int \<Rightarrow> dict \<Rightarrow> dict" where
  "copy_notify tx team a =
     (case dget a ''notify'' of
        Some (JList xs) \<Rightarrow> dset ''notify'' (JList (map (\<lambda>x. JStr (js_str tx (Some x) @ team_mark team)) xs)) a
      | Some (JStr s) \<Rightarrow> dset ''notify'' (JStr (s @ team_mark team)) a
      | _ \<Rightarrow> a)"

definition handler_namespace :: "int \<Rightarrow> dict \<Rightarrow> string" where
  "handler_namespace team a =
     (case dget a ''handler_namespace'' of
        Some (JStr s) \<Rightarrow> if s = [] then ''team_'' @ int_str team else s @ team_mark team
      | _ \<Rightarrow> ''team_'' @ int_str team)"

definition is_handler :: "dict \<Rightarrow> bool" where
  "is_handler a = (dget a ''ansible_primitive'' = Some (JStr ''handler''))"

definition copy_attachment :: "py_texts \<Rightarrow> int \<Rightarrow> json \<Rightarrow> json \<times> string list" where
  "copy_attachment tx team att =
     (case att of
        JObj a \<Rightarrow>
          if is_handler a
          then (JObj (dset ''handler_namespace'' (JStr (handler_namespace team a)) (copy_notify tx team a)), [handler_namespace team a])
          else (JObj (copy_notify tx team a), [])
      | _ \<Rightarrow> (att, []))"

definition copy_attachments :: "py_texts \<Rightarrow> int \<Rightarrow> dict \<Rightarrow> dict \<times> string list" where
  "copy_attachments tx team d =
     (case dget d ''attachments'' of
        Some (JList xs) \<Rightarrow>
          (dset ''attachments'' (JList (map (fst \<circ> copy_attachment tx team) xs)) d, concat (map (snd \<circ> copy_attachment tx team) xs))
      | _ \<Rightarrow> (d, []))"

text \<open>A child of a group that is not an object has no \<open>id\<close> to read.\<close>

definition not_a_node :: "json \<Rightarrow> exc" where
  "not_a_node v =
     (case v of
        JStr s \<Rightarrow> if sublist ''id'' s then TypeError else AttributeError
      | JList xs \<Rightarrow> if list_ex (\<lambda>x. x = JStr ''id'') xs then TypeError else AttributeError
      | _ \<Rightarrow> TypeError)"

definition apply_offsets :: "py_texts \<Rightarrow> json \<Rightarrow> dict \<Rightarrow> json \<Rightarrow> int \<Rightarrow> (json \<times> string list) res" where
  "apply_offsets tx base id_offset node team =
     (case node of
        JObj d \<Rightarrow>
          let out = dset ''id'' (JStr (js_str tx (dget d ''id'') @ team_mark team)) d;
              out = dset ''config'' (JObj (copy_config tx team id_offset base d)) out;
              out = fold (\<lambda>(old, new). retemplate (\<lambda>t. JStr (render_template tx t team base)) old new) node_templates out;
              out = copy_networks tx team base out
          in (case copy_attachments tx team out of (out, ns) \<Rightarrow> Inr (JObj out, ns))
      | v \<Rightarrow> Inl (not_a_node v))"

subsection \<open>All teams\<close>

definition replication_of :: "dict \<Rightarrow> dict" where
  "replication_of n = (case dget n ''replication'' of Some (JObj r) \<Rightarrow> r | _ \<Rightarrow> [])"

definition is_shared :: "dict \<Rightarrow> bool" where
  "is_shared n = (let s = jget (replication_of n) ''scope'' in s = JNull \<or> s = JStr ''shared'')"

definition group_children :: "dict \<Rightarrow> json list option" where
  "group_children n =
     (if dget n ''kind'' = Some (JStr ''group'') then (case dget n ''children'' of Some (JList cs) \<Rightarrow> Some cs | _ \<Rightarrow> None) else None)"

definition id_offset_of :: "dict \<Rightarrow> dict" where
  "id_offset_of n = (case dget (replication_of n) ''id_offset'' of Some (JObj d) \<Rightarrow> d | _ \<Rightarrow> [])"

text \<open>\<open>f"{x}"\<close>: \<open>str\<close>, not the JavaScript form.\<close>

definition py_format :: "py_texts \<Rightarrow> json \<Rightarrow> string" where
  "py_format tx v =
     (case v of
        JStr s \<Rightarrow> s | JNull \<Rightarrow> ''None'' | JBool b \<Rightarrow> if b then ''True'' else ''False''
      | JInt i \<Rightarrow> int_str i | _ \<Rightarrow> pt_str tx v)"

definition team_copy :: "py_texts \<Rightarrow> json \<Rightarrow> dict \<Rightarrow> int \<Rightarrow> (json \<times> string list) res" where
  "team_copy tx base n team =
     (case group_children n of
        None \<Rightarrow> apply_offsets tx base (id_offset_of n) (JObj n) team
      | Some cs \<Rightarrow>
          bindE (mapE (\<lambda>c. apply_offsets tx base (id_offset_of n) c team) cs) (\<lambda>copies.
          bindE (item n ''id'') (\<lambda>i.
            Inr (JObj (dset ''replication'' (JObj [(''scope'', JStr ''shared'')])
                   (dset ''children'' (JList (map fst copies)) (dset ''id'' (JStr (py_format tx i @ team_mark team)) n))),
                 concat (map snd copies)))))"

definition team_copies :: "py_texts \<Rightarrow> json \<Rightarrow> nat \<Rightarrow> dict \<Rightarrow> (json list \<times> string list) res" where
  "team_copies tx base count n =
     bindE (mapE (team_copy tx base n) (map int [1..<Suc count])) (\<lambda>copies. Inr (map fst copies, concat (map snd copies)))"

definition joinE :: "('a list \<times> 'b list) res \<Rightarrow> ('a list \<times> 'b list) res \<Rightarrow> ('a list \<times> 'b list) res" where
  "joinE p q = bindE p (\<lambda>(xs, ys). bindE q (\<lambda>(us, vs). Inr (xs @ us, ys @ vs)))"

lemma group_children_smaller [termination_simp]:
  assumes "group_children d = Some cs"
  shows "size_list size cs < Suc (Suc (size_list (\<lambda>x. Suc (size (snd x))) d + m))"
  using assms children_smaller [of d "''children''" cs m] by (auto simp: group_children_def split: if_splits option.splits json.splits)

fun walk_and_expand :: "py_texts \<Rightarrow> json \<Rightarrow> nat \<Rightarrow> json list \<Rightarrow> (json list \<times> string list) res" where
  "walk_and_expand tx base count [] = Inr ([], [])"
| "walk_and_expand tx base count (JObj n # ns) =
     joinE
       (if is_shared n
        then (case group_children n of
                None \<Rightarrow> Inr ([JObj n], [])
              | Some cs \<Rightarrow> bindE (walk_and_expand tx base count cs) (\<lambda>(cs', names). Inr ([JObj (dset ''children'' (JList cs') n)], names)))
        else team_copies tx base count n)
       (walk_and_expand tx base count ns)"
| "walk_and_expand tx base count (n # ns) = Inl AttributeError"

record expand_result =
  er_plays_per_team :: int
  er_handler_namespaces :: "string list"
  er_document :: dict

definition default_bridge_base :: int where "default_bridge_base = 140"

definition bridge_base_of :: "dict \<Rightarrow> json" where
  "bridge_base_of doc = (case dget doc ''bridge_base'' of Some v \<Rightarrow> if is_number v then v else JInt default_bridge_base | None \<Rightarrow> JInt default_bridge_base)"

definition expand_replication :: "py_texts \<Rightarrow> dict \<Rightarrow> int \<Rightarrow> expand_result res" where
  "expand_replication tx doc team_count =
     (if team_count < 1 then Inl ValueError
      else bindE (walk_and_expand tx (bridge_base_of doc) (nat team_count) (case dget doc ''nodes'' of Some (JList ns) \<Rightarrow> ns | _ \<Rightarrow> []))
             (\<lambda>(ns, names). Inr \<lparr>er_plays_per_team = team_count, er_handler_namespaces = names,
                                 er_document = dset ''nodes'' (JList ns) doc\<rparr>))"

subsection \<open>Ids and VMIDs of the copies\<close>

definition node_id :: "json \<Rightarrow> json" where
  "node_id x = (case x of JObj d \<Rightarrow> jget d ''id'' | _ \<Rightarrow> JNull)"

definition node_vmid :: "json \<Rightarrow> json" where
  "node_vmid x = (case x of JObj d \<Rightarrow> (case dget d ''config'' of Some (JObj c) \<Rightarrow> jget c ''vm_id'' | _ \<Rightarrow> JNull) | _ \<Rightarrow> JNull)"

lemma dget_retemplate [dict_simps]: "k \<noteq> old \<Longrightarrow> k \<noteq> new \<Longrightarrow> dget (retemplate f old new d) k = dget d k"
  by (auto simp: retemplate_def dget_dset dget_dpop split: option.split json.split)

lemma dget_copy_networks [dict_simps]: "k \<noteq> ''networks'' \<Longrightarrow> dget (copy_networks tx team base d) k = dget d k"
  by (auto simp: copy_networks_def dget_dset split: option.split json.split)

lemma dget_copy_attachments [dict_simps]: "k \<noteq> ''attachments'' \<Longrightarrow> dget (fst (copy_attachments tx team d)) k = dget d k"
  by (auto simp: copy_attachments_def dget_dset split: option.split json.split)

lemma apply_offsets_Inr:
  assumes "apply_offsets tx base off (JObj d) team = Inr (x, ns)"
  shows "node_id x = JStr (js_str tx (dget d ''id'') @ team_mark team)"
    and "node_vmid x = jget (copy_config tx team off base d) ''vm_id''"
proof -
  let ?r = "\<lambda>old new. retemplate (\<lambda>t. JStr (render_template tx t team base)) old new"
  let ?o = "dset ''config'' (JObj (copy_config tx team off base d)) (dset ''id'' (JStr (js_str tx (dget d ''id'') @ team_mark team)) d)"
  let ?p = "copy_networks tx team base (?r ''gateway_template'' ''gateway'' (?r ''bridge_template'' ''bridge'' (?r ''cidr_template'' ''cidr'' ?o)))"
  have x: "x = JObj (fst (copy_attachments tx team ?p))"
    using assms by (auto simp: apply_offsets_def Let_def node_templates_def split: prod.splits)
  have out: "dget (fst (copy_attachments tx team ?p)) k = dget ?o k" if "k = ''id'' \<or> k = ''config''" for k
    using that by (auto simp: dget_copy_attachments dget_copy_networks dget_retemplate)
  show "node_id x = JStr (js_str tx (dget d ''id'') @ team_mark team)"
    by (simp add: x node_id_def jget_def out dget_dset)
  show "node_vmid x = jget (copy_config tx team off base d) ''vm_id''"
    by (simp add: x node_vmid_def out dget_dset)
qed

lemma copy_config_vmid:
  assumes "dget d ''config'' = Some (JObj c)" and "dget c ''vm_id'' = Some (JInt b)" and "dget off ''vmid'' = Some (JInt k)"
  shows "jget (copy_config tx team off base d) ''vm_id'' = JInt (b + k * team)"
  using assms
  by (simp add: copy_config_def Let_def offset_vmid_def dget_retemplate js_number_def num_op_def num_to_str_value_def jget_dset)

lemma team_copy_id:
  assumes "team_copy tx base n team = Inr (x, ns)" and "dget n ''id'' = Some (JStr s)"
  shows "node_id x = JStr (s @ team_mark team)"
  using assms apply_offsets_Inr(1) [of tx base "id_offset_of n" n team x ns]
  by (auto simp: team_copy_def js_str_def item_def node_id_def jget_dset jget_def dget_dset py_format_def res_simps split: option.splits)

lemma copies_map: "list_all2 (\<lambda>t p. f (fst p) = h t) ts ps \<Longrightarrow> map f (map fst ps) = map h ts"
  by (induction rule: list_all2_induct) simp_all

lemma team_copies_ids:
  assumes "team_copies tx base count n = Inr (xs, ns)" and "dget n ''id'' = Some (JStr s)"
  shows "map node_id xs = map (\<lambda>t. JStr (s @ team_mark t)) (map int [1..<Suc count])"
proof -
  obtain copies where c: "mapE (team_copy tx base n) (map int [1..<Suc count]) = Inr copies" "xs = map fst copies"
    using assms(1) by (auto simp: team_copies_def res_simps)
  have "list_all2 (\<lambda>t p. node_id (fst p) = JStr (s @ team_mark t)) (map int [1..<Suc count]) copies"
    using c(1) team_copy_id [OF _ assms(2)] by (auto simp: mapE_Inr_list_all2 elim!: list_all2_mono)
  then show ?thesis unfolding c(2) by (rule copies_map)
qed

definition ids_of_node :: "nat \<Rightarrow> dict \<Rightarrow> json list" where
  "ids_of_node count n =
     (if is_shared n then [jget n ''id'']
      else map (\<lambda>t. JStr ((case jget n ''id'' of JStr s \<Rightarrow> s) @ team_mark t)) (map int [1..<Suc count]))"

lemma expanded_node_ids:
  assumes "walk_and_expand tx base count (map JObj ds) = Inr (xs, ns)" and "\<And>d. d \<in> set ds \<Longrightarrow> \<exists>s. dget d ''id'' = Some (JStr s)"
  shows "map node_id xs = concat (map (ids_of_node count) ds)"
  using assms
proof (induction ds arbitrary: xs ns)
  case (Cons d ds)
  obtain s where s: "dget d ''id'' = Some (JStr s)" using Cons.prems(2) by auto
  obtain as bs us vs where split: "xs = as @ us"
    and one: "(if is_shared d
        then (case group_children d of
                None \<Rightarrow> Inr ([JObj d], [])
              | Some cs \<Rightarrow> bindE (walk_and_expand tx base count cs) (\<lambda>(cs', names). Inr ([JObj (dset ''children'' (JList cs') d)], names)))
        else team_copies tx base count d) = Inr (as, bs)"
    and rest: "walk_and_expand tx base count (map JObj ds) = Inr (us, vs)"
    using Cons.prems(1) by (auto simp: joinE_def res_simps)
  have "map node_id as = ids_of_node count d"
  proof (cases "is_shared d")
    case True
    then show ?thesis
      using one s by (auto simp: ids_of_node_def node_id_def jget_dset res_simps split: option.splits)
  next
    case False
    then show ?thesis using one team_copies_ids [OF _ s] s by (simp add: ids_of_node_def jget_def)
  qed
  then show ?case using Cons.IH [OF rest] Cons.prems(2) split by auto
qed simp

text \<open>The digits at the end of a copy's id are its team.\<close>

lemma marked_eq: "a @ team_mark (int t) = b @ team_mark (int u) \<longleftrightarrow> a = b \<and> t = u"
proof
  have digits: "takeWhile is_digit (rev (c @ team_mark (int v))) = rev (nat_str v)" for c v
  proof -
    have "\<forall>x \<in> set (rev (nat_str v)). is_digit x" using nat_str_digits [of v] by (simp add: list_all_iff)
    moreover have "rev (c @ team_mark (int v)) = rev (nat_str v) @ CHR ''_'' # rev (c @ ''__team'')"
      by (simp add: team_mark_def int_str_def)
    moreover have "\<not> is_digit (CHR ''_'')" by code_simp
    ultimately show ?thesis by (metis takeWhile.simps(2) takeWhile_append2 append_Nil2)
  qed
  assume e: "a @ team_mark (int t) = b @ team_mark (int u)"
  then have "rev (nat_str t) = rev (nat_str u)" using digits by metis
  then have "t = u" by (simp add: nat_str_inj)
  then show "a = b \<and> t = u" using e by simp
qed simp

lemma team_mark_eq: "team_mark (int t) = team_mark (int u) \<longleftrightarrow> t = u"
  using marked_eq [of "[]" t "[]" u] by simp

text \<open>A guest that is replicated per team: its VMID and the offset per team.\<close>

definition team_guest :: "dict \<Rightarrow> (string \<times> int \<times> int) option" where
  "team_guest d =
     (case (dget d ''id'', dget d ''config'', dget (id_offset_of d) ''vmid'') of
        (Some (JStr i), Some (JObj c), Some (JInt k)) \<Rightarrow>
          (case dget c ''vm_id'' of
             Some (JInt b) \<Rightarrow> if is_shared d \<or> group_children d \<noteq> None then None else Some (i, b, k)
           | _ \<Rightarrow> None)
      | _ \<Rightarrow> None)"

lemma team_guest_Some:
  assumes "team_guest d = Some (i, b, k)"
  obtains c where "dget d ''id'' = Some (JStr i)" "dget d ''config'' = Some (JObj c)" "dget c ''vm_id'' = Some (JInt b)"
    "dget (id_offset_of d) ''vmid'' = Some (JInt k)" "\<not> is_shared d" "group_children d = None"
  using assms by (auto simp: team_guest_def split: option.splits json.splits if_splits)

lemma guest_copies:
  assumes "walk_and_expand tx base count (map JObj ds) = Inr (xs, ns)" and "d \<in> set ds" and "team_guest d = Some (i, b, k)"
    and "t \<in> set [1..<Suc count]"
  shows "\<exists>x \<in> set xs. node_id x = JStr (i @ team_mark (int t)) \<and> node_vmid x = JInt (b + k * int t)"
  using assms(1,2)
proof (induction ds arbitrary: xs ns)
  case (Cons d' ds)
  obtain as bs us vs where split: "xs = as @ us"
    and one: "(if is_shared d'
        then (case group_children d' of
                None \<Rightarrow> Inr ([JObj d'], [])
              | Some cs \<Rightarrow> bindE (walk_and_expand tx base count cs) (\<lambda>(cs', names). Inr ([JObj (dset ''children'' (JList cs') d')], names)))
        else team_copies tx base count d') = Inr (as, bs)"
    and rest: "walk_and_expand tx base count (map JObj ds) = Inr (us, vs)"
    using Cons.prems(1) by (auto simp: joinE_def res_simps)
  show ?case
  proof (cases "d' = d")
    case True
    obtain c where g: "dget d ''id'' = Some (JStr i)" "dget d ''config'' = Some (JObj c)" "dget c ''vm_id'' = Some (JInt b)"
      "dget (id_offset_of d) ''vmid'' = Some (JInt k)" "\<not> is_shared d" "group_children d = None"
      using team_guest_Some [OF assms(3)] .
    have "team_copies tx base count d = Inr (as, bs)" using one g(5) True by simp
    then obtain copies where c: "mapE (team_copy tx base d) (map int [1..<Suc count]) = Inr copies" "as = map fst copies"
      by (auto simp: team_copies_def res_simps)
    have "int t \<in> set (map int [1..<Suc count])" using assms(4) by (simp del: upt_Suc)
    then obtain p where p: "p \<in> set copies" "team_copy tx base d (int t) = Inr p" using mapE_Inr_set [OF c(1)] by blast
    obtain x ns' where x: "p = (x, ns')" by (cases p)
    have a: "apply_offsets tx base (id_offset_of d) (JObj d) (int t) = Inr (x, ns')" using p(2) g(6) x by (simp add: team_copy_def)
    have "node_id x = JStr (i @ team_mark (int t))" "node_vmid x = JInt (b + k * int t)"
      using apply_offsets_Inr [OF a] copy_config_vmid [OF g(2-4)] g(1) by (simp_all add: js_str_def)
    moreover have "x \<in> set xs" using p(1) x c(2) split by force
    ultimately show ?thesis by blast
  next
    case False
    then show ?thesis using Cons.IH [OF rest] Cons.prems(2) split by auto
  qed
qed simp

lemma concat_ids_distinct:
  assumes "distinct (map (\<lambda>d. jget d ''id'') ds)" and "\<And>d. d \<in> set ds \<Longrightarrow> \<exists>s. dget d ''id'' = Some (JStr s)"
    and "\<And>d s. d \<in> set ds \<Longrightarrow> is_shared d \<Longrightarrow> dget d ''id'' = Some (JStr s) \<Longrightarrow> \<not> sublist ''__team_'' s"
  shows "distinct (concat (map (ids_of_node count) ds))"
  using assms
proof (induction ds)
  case (Cons d ds)
  obtain s where s: "dget d ''id'' = Some (JStr s)" using Cons.prems(2) by auto
  have mark: "sublist ''__team_'' (a @ team_mark t)" for a t
    using sublist_appendI [of "''__team_''" a "int_str t"] by (simp add: team_mark_def)
  have "distinct (ids_of_node count d)"
    using s by (simp add: ids_of_node_def jget_def distinct_map inj_on_def team_mark_eq del: upt_Suc)
  moreover have "set (ids_of_node count d) \<inter> set (ids_of_node count e) = {}" if e: "e \<in> set ds" for e
  proof -
    obtain u where u: "dget e ''id'' = Some (JStr u)" using Cons.prems(2) e by auto
    have "s \<noteq> u" using Cons.prems(1) e s u by (force simp: jget_def)
    moreover have "is_shared d \<Longrightarrow> \<not> sublist ''__team_'' s" "is_shared e \<Longrightarrow> \<not> sublist ''__team_'' u"
      using Cons.prems(3) s u e by auto
    ultimately show ?thesis
      using s u mark by (auto simp: ids_of_node_def jget_def marked_eq simp del: upt_Suc)
  qed
  moreover have "distinct (concat (map (ids_of_node count) ds))" using Cons by auto
  ultimately show ?case by auto
qed simp


definition sample_doc :: dict where
  "sample_doc = [(''nodes'', JList (map JObj
     [[(''id'', JStr ''fw''), (''kind'', JStr ''vm'')],
      [(''id'', JStr ''web''), (''kind'', JStr ''vm''), (''config'', JObj [(''vm_id'', JInt 200)]),
       (''replication'', JObj [(''scope'', JStr ''per_team''), (''id_offset'', JObj [(''vmid'', JInt 10)])])]]))]"

definition plain_texts :: py_texts where
  "plain_texts = \<lparr>pt_str = (\<lambda>v. []), pt_float = (\<lambda>s. None)\<rparr>"


text \<open>
  The namespaces are listed as they are met, not sorted, and the nodes below a group that is itself
  a child of a replicated group are the same in every team, VMIDs included.
\<close>

definition nested_doc :: dict where
  "nested_doc = [(''nodes'', JList [JObj [(''id'', JStr ''g''), (''kind'', JStr ''group''),
     (''replication'', JObj [(''scope'', JStr ''per_team''), (''id_offset'', JObj [(''vmid'', JInt 10)])]),
     (''children'', JList [JObj [(''id'', JStr ''h''), (''kind'', JStr ''group''),
       (''children'', JList [JObj [(''id'', JStr ''vm''), (''config'', JObj [(''vm_id'', JInt 200)])]])]])]])]"

definition nested_guests :: "json \<Rightarrow> json list" where
  "nested_guests x =
     (case x of
        JObj d \<Rightarrow> (case dget d ''children'' of
            Some (JList [JObj h]) \<Rightarrow> (case dget h ''children'' of Some (JList cs) \<Rightarrow> cs | _ \<Rightarrow> [])
          | _ \<Rightarrow> [])
      | _ \<Rightarrow> [])"

theorem nested_guests_shared:
  "\<exists>r. expand_replication plain_texts nested_doc 2 = Inr r
     \<and> map (map node_vmid \<circ> nested_guests) (effective_nodes (er_document r)) = [[JInt 200], [JInt 200]]"
proof -
  have "case expand_replication plain_texts nested_doc 2 of
      Inl e \<Rightarrow> False
    | Inr r \<Rightarrow> map (map node_vmid \<circ> nested_guests) (effective_nodes (er_document r)) = [[JInt 200], [JInt 200]]" by code_simp
  then show ?thesis by (cases "expand_replication plain_texts nested_doc 2") auto
qed

definition handler_doc :: dict where
  "handler_doc = [(''nodes'', JList [JObj [(''id'', JStr ''n''), (''replication'', JObj [(''scope'', JStr ''per_team'')]),
     (''attachments'', JList [JObj [(''ansible_primitive'', JStr ''handler''), (''handler_namespace'', JStr ''web'')],
                              JObj [(''ansible_primitive'', JStr ''handler''), (''handler_namespace'', JStr ''db'')]])]])]"

theorem namespaces_unsorted:
  "\<exists>r. expand_replication plain_texts handler_doc 1 = Inr r \<and> er_handler_namespaces r = [''web__team_1'', ''db__team_1'']"
proof -
  have "case expand_replication plain_texts handler_doc 1 of
      Inl e \<Rightarrow> False | Inr r \<Rightarrow> er_handler_namespaces r = [''web__team_1'', ''db__team_1'']" by code_simp
  then show ?thesis by (cases "expand_replication plain_texts handler_doc 1") auto
qed

end
