(* ===== verification/Watcher.thy ===== *)
theory Watcher
  imports Events Redaction
begin

text \<open>
  From the runner's raw event files to the deployment's log (\<open>app/core/events_watcher.py\<close>).
  What a directory holds at each scan, and whether a file can be read, are inputs; a file's text is
  given decoded. The pauses between two scans are not modelled.
\<close>

subsection \<open>Translating an event\<close>

definition event_types :: "(string \<times> string) list" where
  "event_types = [(''playbook_on_start'', ''log_line''), (''playbook_on_stats'', ''log_line''),
     (''playbook_on_play_start'', ''phase_transition''), (''runner_on_ok'', ''task_end''), (''runner_on_failed'', ''task_end''),
     (''runner_on_unreachable'', ''host_unreachable''), (''runner_on_skipped'', ''task_end''), (''runner_on_start'', ''task_start'')]"

definition translated_type :: "json \<Rightarrow> string res" where
  "translated_type et =
     (case et of
        JStr t \<Rightarrow> Inr (case dget event_types t of None \<Rightarrow> ''log_line'' | Some r \<Rightarrow> r)
      | JList _ \<Rightarrow> Inl TypeError | JObj _ \<Rightarrow> Inl TypeError
      | _ \<Rightarrow> Inr ''log_line'')"

definition py_or :: "json \<Rightarrow> json \<Rightarrow> json" where
  "py_or a b = (if truthy a then a else b)"

text \<open>\<open>str.casefold\<close> below code point 256, up to the micro sign, which no phrase below contains.\<close>

definition fold_case :: "char \<Rightarrow> string" where
  "fold_case c =
     (let n = of_char c :: nat in
      if n = 223 then ''ss''
      else if (65 \<le> n \<and> n \<le> 90) \<or> (192 \<le> n \<and> n \<le> 222 \<and> n \<noteq> 215) then [char_of (n + 32)]
      else [c])"

definition casefold :: "string \<Rightarrow> string" where
  "casefold s = concat (map fold_case s)"

definition unreachable_message :: "json \<Rightarrow> string" where
  "unreachable_message result =
     (case result of
        JObj r \<Rightarrow> if truthy (jget r ''_ansible_no_log'') then []
                  else (case jget r ''msg'' of JStr s \<Rightarrow> casefold s | _ \<Rightarrow> [])
      | _ \<Rightarrow> [])"

definition unreachable_code :: "string \<Rightarrow> string" where
  "unreachable_code message =
     (if sublist ''host key verification failed'' message \<or> sublist ''remote host identification has changed'' message
      then ''SSH_HOST_KEY_REJECTED''
      else if sublist ''permission denied'' message \<and> sublist ''publickey'' message then ''SSH_AUTHENTICATION_FAILED''
      else ''HOST_UNREACHABLE'')"

definition unreachable_detail :: "string \<Rightarrow> string" where
  "unreachable_detail code =
     (if code = ''SSH_HOST_KEY_REJECTED''
      then ''SSH rejected the host key. Verify the node or guest key independently before updating the workspace known_hosts file.''
      else if code = ''SSH_AUTHENTICATION_FAILED''
      then ''SSH authentication failed. Check the target user and workspace SSH credentials.''
      else ''The host could not be reached. Check the target address, network access and SSH credentials.'')"

definition result_field :: "json \<Rightarrow> dict" where
  "result_field et =
     (if et = JStr ''runner_on_ok'' then [(''result'', JStr ''ok'')]
      else if et = JStr ''runner_on_failed'' then [(''result'', JStr ''failed'')]
      else if et = JStr ''runner_on_skipped'' then [(''result'', JStr ''skipped'')]
      else [])"

definition translated_payload :: "dict \<Rightarrow> dict \<Rightarrow> json \<Rightarrow> string \<Rightarrow> dict" where
  "translated_payload event data et r42_type =
     (if r42_type = ''task_start'' \<or> r42_type = ''task_end''
      then [(''task_name'', py_or (jget data ''task'') (py_or (jget data ''task_action'') (JStr ''unknown''))), (''host'', jget data ''host'')]
        @ result_field et @ [(''res'', py_or (jget data ''res'') (JObj []))]
      else if r42_type = ''phase_transition'' then [(''to'', jget data ''name'')]
      else if r42_type = ''host_unreachable''
      then (let code = unreachable_code (unreachable_message (jget data ''res''))
            in [(''host'', jget data ''host''), (''code'', JStr code), (''detail'', JStr (unreachable_detail code))])
      else [(''text'', py_or (jget event ''stdout'') (py_or (jget data ''stdout'') (JStr []))), (''ansible_event'', et),
            (''task_action'', jget data ''task_action'')])"

definition translate :: "json \<Rightarrow> dict res" where
  "translate raw =
     (case raw of
        JObj event \<Rightarrow>
          (let et = (case dget event ''event'' of None \<Rightarrow> JStr ''log_line'' | Some v \<Rightarrow> v)
           in bindE (translated_type et) (\<lambda>r42_type.
              bindE (of_opt AttributeError (as_obj (py_or (jget event ''event_data'') (JObj [])))) (\<lambda>data.
                Inr [(''event_type'', JStr r42_type), (''payload'', JObj (translated_payload event data et r42_type)),
                     (''proxmox_ts'', jget event ''created'')])))
      | _ \<Rightarrow> Inl AttributeError)"

subsection \<open>One scan\<close>

record watch_config =
  wc_deployment :: string
  wc_attempt :: string
  wc_layers :: "(string \<times> (json \<Rightarrow> json \<times> fired)) list"
  wc_float :: "rat \<Rightarrow> string"
  wc_stamp :: string
  wc_decode :: "string \<Rightarrow> string option"

record watcher =
  wa_writer :: events_writer
  wa_audit :: "audit_row list"
  wa_seen :: "string set"
  wa_cursor :: int
  wa_reported :: int

text \<open>The directory at a scan: names, and texts of the files that can be read.\<close>

type_synonym listing = "(string \<times> string option) list"

definition event_number :: "string \<Rightarrow> nat res" where
  "event_number name =
     (let p = takeWhile (\<lambda>c. c \<noteq> CHR ''-'') name in
      if p \<noteq> [] \<and> list_all is_digit p then Inr (digits_val p)
      else if p \<noteq> [] \<and> list_all (\<lambda>c. is_digit c \<or> (of_char c :: nat) \<in> {178, 179, 185}) p then Inl ValueError
      else Inr 0)"

definition event_files :: "listing \<Rightarrow> listing res" where
  "event_files dir =
     (let files = filter (\<lambda>(name, t). suffix ''.json'' name) dir
      in bindE (mapE (\<lambda>(name, t). event_number name) files) (\<lambda>ns.
           Inr (sort_key (\<lambda>(name, t). case event_number name of Inr n \<Rightarrow> n | Inl e \<Rightarrow> 0) (sort_key fst files))))"

text \<open>\<open>value[:4096]\<close> of a text or a list.\<close>

definition first_4096 :: "json \<Rightarrow> json res" where
  "first_4096 v =
     (case v of
        JStr s \<Rightarrow> Inr (JStr (take 4096 s))
      | JList xs \<Rightarrow> Inr (JList (take 4096 xs))
      | JObj d \<Rightarrow> Inl KeyError
      | _ \<Rightarrow> Inl TypeError)"

definition truncated :: "dict \<Rightarrow> dict res" where
  "truncated d =
     bindE (item d ''event_type'') (\<lambda>t.
       if t = JStr ''log_line''
       then bindE (item d ''payload'') (\<lambda>p.
            bindE (of_opt TypeError (as_obj p)) (\<lambda>payload.
            bindE (item payload ''text'') (\<lambda>text.
            bindE (first_4096 text) (\<lambda>short. Inr (dset ''payload'' (JObj (dset ''text'' short payload)) d)))))
       else Inr d)"

text \<open>One new file: the state it leaves, and the exception if one is raised.\<close>

definition record_file :: "watch_config \<Rightarrow> string \<Rightarrow> json \<Rightarrow> watcher \<Rightarrow> watcher \<times> exc option" where
  "record_file cf name raw w0 =
     (let w = w0\<lparr>wa_seen := insert name (wa_seen w0)\<rparr> in
      case bindE (translate raw) (\<lambda>ev. run_pipeline (wc_deployment cf) (wc_attempt cf) (wc_layers cf) (JObj ev)) of
        Inl e \<Rightarrow> (w, Some e)
      | Inr (redacted, rows) \<Rightarrow>
          (let w = w\<lparr>wa_audit := wa_audit w @ rows\<rparr> in
           case bindE (of_opt TypeError (as_obj redacted)) (\<lambda>d. truncated (dset ''runner_event_id'' (JStr name) d)) of
             Inl e \<Rightarrow> (w, Some e)
           | Inr d \<Rightarrow>
               (case append_event (wc_float cf) (wc_stamp cf) d (wc_attempt cf) (Some (wc_deployment cf)) (wa_writer w) of
                  (writer, Inl e) \<Rightarrow> (w\<lparr>wa_writer := writer\<rparr>, Some e)
                | (writer, Inr seq) \<Rightarrow> (w\<lparr>wa_writer := writer, wa_cursor := seq\<rparr>, None))))"

fun scan_files :: "watch_config \<Rightarrow> listing \<Rightarrow> watcher \<Rightarrow> watcher \<times> exc option" where
  "scan_files cf [] w = (w, None)"
| "scan_files cf ((name, t) # rest) w =
     (if name \<in> wa_seen w then scan_files cf rest w
      else case Option.bind t json_loads of
        None \<Rightarrow> scan_files cf rest w
      | Some raw \<Rightarrow>
          (case record_file cf name raw w of
             (w', Some e) \<Rightarrow> (w', Some e)
           | (w', None) \<Rightarrow> scan_files cf rest w'))"

definition scan_dir :: "watch_config \<Rightarrow> listing \<Rightarrow> watcher \<Rightarrow> watcher \<times> exc option" where
  "scan_dir cf dir w =
     (case event_files dir of Inl e \<Rightarrow> (w, Some e) | Inr files \<Rightarrow> scan_files cf files w)"

subsection \<open>An observation\<close>

text \<open>What an observer knows of an attempt whose log already has events.\<close>

definition of_attempt :: "string \<Rightarrow> json \<Rightarrow> bool" where
  "of_attempt att event = (case event of JObj d \<Rightarrow> jget d ''attempt_id'' = JStr att | _ \<Rightarrow> False)"

definition receipt_of :: "json \<Rightarrow> string option" where
  "receipt_of event = (case event of JObj d \<Rightarrow> as_str (jget d ''runner_event_id'') | _ \<Rightarrow> None)"

definition event_seq_of :: "json \<Rightarrow> int" where
  "event_seq_of event = (case event of JObj d \<Rightarrow> (case seq_number (jget d ''event_seq'') of Some i \<Rightarrow> i | None \<Rightarrow> 0) | _ \<Rightarrow> 0)"

definition open_watcher :: "watch_config \<Rightarrow> string \<Rightarrow> watcher res" where
  "open_watcher cf content =
     (case read_range (wc_decode cf) 0 None content of
        (events, Some e) \<Rightarrow> Inl e
      | (events, None) \<Rightarrow>
          (let own = filter (of_attempt (wc_attempt cf)) events
           in Inr \<lparr>wa_writer = open_writer (wc_decode cf) content, wa_audit = [], wa_seen = set (List.map_filter receipt_of own),
                   wa_cursor = foldl max 0 (map event_seq_of own), wa_reported = 0\<rparr>))"

text \<open>
  One round of the loop: whether the process had ended before the scan, what the directory held, and
  what the progress callback raised, if there is one and it is called.
\<close>

record round =
  ro_final :: bool
  ro_dir :: listing
  ro_progress :: "exc option option"

definition report_progress :: "round \<Rightarrow> watcher \<Rightarrow> watcher \<times> exc option" where
  "report_progress r w =
     (case ro_progress r of
        None \<Rightarrow> (w, None)
      | Some outcome \<Rightarrow>
          if wa_reported w < wa_cursor w
          then (case outcome of Some e \<Rightarrow> (w, Some e) | None \<Rightarrow> (w\<lparr>wa_reported := wa_cursor w\<rparr>, None))
          else (w, None))"

datatype watch_end = Finished | Stopped exc | Watching

fun watch :: "watch_config \<Rightarrow> round list \<Rightarrow> watcher \<Rightarrow> watcher \<times> watch_end" where
  "watch cf [] w = (w, Watching)"
| "watch cf (r # rs) w =
     (case scan_dir cf (ro_dir r) w of
        (w1, Some e) \<Rightarrow> (w1, Stopped e)
      | (w1, None) \<Rightarrow>
          (case report_progress r w1 of
             (w2, Some e) \<Rightarrow> (w2, Stopped e)
           | (w2, None) \<Rightarrow> if ro_final r then (w2, Finished) else watch cf rs w2))"

text \<open>
  Observers one after the other, each starting from the log that the one before it left; the log, and
  how the last one ended.
\<close>

fun observe :: "watch_config \<Rightarrow> round list list \<Rightarrow> string \<Rightarrow> string \<times> watch_end" where
  "observe cf [] content = (content, Watching)"
| "observe cf [rs] content =
     (case open_watcher cf content of
        Inl e \<Rightarrow> (content, Stopped e)
      | Inr w \<Rightarrow> (case watch cf rs w of (w', out) \<Rightarrow> (ew_file (wa_writer w'), out)))"
| "observe cf (rs # later) content =
     (case open_watcher cf content of
        Inl e \<Rightarrow> observe cf later content
      | Inr w \<Rightarrow> (case watch cf rs w of (w', out) \<Rightarrow> observe cf later (ew_file (wa_writer w'))))"

subsection \<open>What the observation relies on of a redaction layer\<close>

text \<open>A layer changes values only: an object keeps its keys, and what can be written stays so.\<close>

locale redaction_layer =
  fixes layer :: "json \<Rightarrow> json \<times> fired"
  assumes keeps_plain: "plain_json v \<Longrightarrow> plain_json (fst (layer v))"
    and keeps_keys: "\<exists>d'. fst (layer (JObj d)) = JObj d' \<and> map fst d' = map fst d"
begin

lemma object_kept:
  assumes "plain_json (JObj d)"
  obtains d' f where "layer (JObj d) = (JObj d', f)" "plain_json (JObj d')" "map fst d' = map fst d"
  using keeps_plain [OF assms] keeps_keys [of d] by (metis prod.collapse)

end

lemma deny_keeps_plain:
  "plain_json v \<Longrightarrow> plain_json (fst (deny m path v))"
  "list_all (\<lambda>(k, v). plain_json v) d \<Longrightarrow> list_all (\<lambda>(k, v). plain_json v) (fst (deny_items m path s d))"
  "list_all plain_json xs \<Longrightarrow> list_all plain_json (fst (deny_elems m path i xs))"
proof (induction m path v and m path s d and m path i xs rule: deny_deny_items_deny_elems.induct)
  case (1 m path d)
  have "list_all (\<lambda>(k, v). plain_json v) (fst (deny_items m path s d))" if "s = (dget d ''secret'' = Some (JBool True) \<and> dget d ''value'' \<noteq> None)" for s
    using 1 that by simp
  then show ?case unfolding deny_obj using "1.prems" by (simp add: deny_items_keys)
qed (auto split: prod.splits)

interpretation denylist: redaction_layer "config_denylist patterns"
proof
  show "plain_json v \<Longrightarrow> plain_json (fst (config_denylist patterns v))" for v
    by (simp add: config_denylist_def deny_keeps_plain)
  show "\<exists>d'. fst (config_denylist patterns (JObj d)) = JObj d' \<and> map fst d' = map fst d" for d
    unfolding config_denylist_def deny_obj by (simp add: deny_items_keys)
qed

lemma taint_items_keys: "map fst (fst (taint_items ns path d)) = map fst d"
  by (induction d) (auto split: prod.splits)

lemma taint_keeps_plain:
  "plain_json v \<Longrightarrow> plain_json (fst (taint_walk ns path v))"
  "list_all (\<lambda>(k, v). plain_json v) d \<Longrightarrow> list_all (\<lambda>(k, v). plain_json v) (fst (taint_items ns path d))"
  "list_all plain_json xs \<Longrightarrow> list_all plain_json (fst (taint_elems ns path i xs))"
proof (induction ns path v and ns path d and ns path i xs rule: taint_walk_taint_items_taint_elems.induct)
  case (1 ns path d)
  then show ?case using taint_items_keys [of ns path d] by (auto split: prod.splits)
qed (auto split: prod.splits)

interpretation taint: redaction_layer "tainted_string ns"
proof
  show "plain_json v \<Longrightarrow> plain_json (fst (tainted_string ns v))" for v
    by (simp add: tainted_string_def taint_keeps_plain)
  show "\<exists>d'. fst (tainted_string ns (JObj d)) = JObj d' \<and> map fst d' = map fst d" for d
    using taint_items_keys [of ns "[]" d] by (auto simp: tainted_string_def split: prod.splits)
qed

lemma vault_items_keys: "map fst (fst (vault_items path d)) = map fst d"
  by (induction d) (auto split: prod.splits option.splits)

lemma vault_keeps_plain:
  "plain_json v \<Longrightarrow> plain_json (fst (vault_walk path v))"
  "list_all (\<lambda>(k, v). plain_json v) d \<Longrightarrow> list_all (\<lambda>(k, v). plain_json v) (fst (vault_items path d))"
  "list_all plain_json xs \<Longrightarrow> list_all plain_json (fst (vault_elems path i xs))"
proof (induction path v and path d and path i xs rule: vault_walk_vault_items_vault_elems.induct)
  case (1 path v)
  show ?case
  proof (cases "vault_rule v")
    case None
    then show ?thesis
    proof (cases v)
      case (JObj d)
      then have "list_all (\<lambda>(k, v). plain_json v) (fst (vault_items path d))" using 1 None by simp
      then show ?thesis
        using "1.prems" None JObj vault_items_keys [of path d] by (cases "vault_items path d") (simp add: vault_walk.simps [of path v])
    next
      case (JList xs)
      then have "list_all plain_json (fst (vault_elems path 0 xs))" using 1 None by simp
      then show ?thesis using None JList by (cases "vault_elems path 0 xs") (simp add: vault_walk.simps [of path v])
    qed (use 1 None in \<open>simp_all add: vault_walk.simps [of path v]\<close>)
  next
    case (Some r)
    then show ?thesis using 1 by (simp add: vault_walk.simps [of path v])
  qed
qed (auto split: prod.splits option.splits)

interpretation vault: redaction_layer vault_tagged
proof
  show "plain_json v \<Longrightarrow> plain_json (fst (vault_tagged v))" for v
    unfolding vault_tagged_def by (rule vault_keeps_plain)
  show "\<exists>d'. fst (vault_tagged (JObj d)) = JObj d' \<and> map fst d' = map fst d" for d
    using vault_items_keys [of "[]" d]
    by (cases "vault_rule (JObj d)") (auto simp: vault_tagged_def vault_walk.simps [of "[]" "JObj d"] split: prod.splits)
qed

text \<open>The layers of an attempt, in the order of \<open>deploy_trigger.py\<close>.\<close>

definition attempt_layers :: "string list \<Rightarrow> string list \<Rightarrow> (string \<times> (json \<Rightarrow> json \<times> fired)) list" where
  "attempt_layers patterns ns =
     [(''config_denylist'', config_denylist patterns), (''vault_tagged'', vault_tagged), (''tainted_string'', tainted_string ns)]"

lemma attempt_layers_keep: "list_all (\<lambda>(name, layer). redaction_layer layer) (attempt_layers patterns ns)"
  by (simp add: attempt_layers_def denylist.redaction_layer_axioms vault.redaction_layer_axioms taint.redaction_layer_axioms)

lemma pipeline_keeps:
  assumes "list_all (\<lambda>(name, layer). redaction_layer layer) layers" and "plain_json (JObj d)" and "''event_seq'' \<notin> set (map fst d)"
  shows "\<exists>d' rows. run_pipeline dep att layers (JObj d) = Inr (JObj d', rows) \<and> plain_json (JObj d') \<and> map fst d' = map fst d"
  using assms
proof (induction layers arbitrary: d)
  case (Cons p layers)
  obtain name layer where p: "p = (name, layer)" by (cases p)
  then have lay: "redaction_layer layer" using Cons.prems(1) by simp
  obtain d1 f where l: "layer (JObj d) = (JObj d1, f)" "plain_json (JObj d1)" "map fst d1 = map fst d"
    using redaction_layer.object_kept [OF lay Cons.prems(2)] .
  have "dget d1 ''event_seq'' = None" using l(3) Cons.prems(3) by (simp add: dget_None_keys)
  then have "audit_seq (JObj d1) = Inr 0" by (simp add: audit_seq_def jget_def)
  moreover have "\<exists>rows. mapE (\<lambda>(rule, path). bindE (Inr 0) (\<lambda>seq.
      Inr \<lparr>ar_deployment = dep, ar_attempt = att, ar_layer = name, ar_rule = rule, ar_event_seq = seq, ar_path = path\<rparr>)) f = Inr rows"
    by (induction f) auto
  ultimately obtain rows1 where rows1: "mapE (\<lambda>(rule, path). bindE (audit_seq (JObj d1)) (\<lambda>seq.
      Inr \<lparr>ar_deployment = dep, ar_attempt = att, ar_layer = name, ar_rule = rule, ar_event_seq = seq, ar_path = path\<rparr>)) f = Inr rows1"
    by auto
  obtain d2 rows where "run_pipeline dep att layers (JObj d1) = Inr (JObj d2, rows)" "plain_json (JObj d2)" "map fst d2 = map fst d1"
    using Cons.IH [OF _ l(2)] Cons.prems(1,3) l(3) by auto
  then show ?case using l rows1 by (simp add: p)
qed simp

subsection \<open>Receipts\<close>

text \<open>The raw files whose events the log holds, in its order.\<close>

definition receipts :: "watch_config \<Rightarrow> string \<Rightarrow> string list" where
  "receipts cf content =
     List.map_filter receipt_of (filter (of_attempt (wc_attempt cf)) (fst (read_range (wc_decode cf) 0 None content)))"

definition sound_log :: "watch_config \<Rightarrow> string \<Rightarrow> bool" where
  "sound_log cf content = (terminated content \<and> snd (read_range (wc_decode cf) 0 None content) = None \<and> distinct (receipts cf content))"

text \<open>What is copied of a raw event can be written; floats of the rest of it do not matter.\<close>

definition recordable :: "string \<times> string option \<Rightarrow> bool" where
  "recordable file =
     (case Option.bind (snd file) json_loads of
        None \<Rightarrow> True
      | Some raw \<Rightarrow> (case translate raw of Inl e \<Rightarrow> True | Inr ev \<Rightarrow> plain_json (JObj ev)))"

definition good_config :: "watch_config \<Rightarrow> bool" where
  "good_config cf = (decodes_ascii (wc_decode cf) \<and> list_all (\<lambda>(name, layer). redaction_layer layer) (wc_layers cf))"

lemma recover_seq_nonneg: "0 \<le> recover_seq decode content"
proof -
  have "(0::int) \<le> h \<Longrightarrow> 0 \<le> foldl (recover_line decode) h ls" for h ls
    by (induction ls arbitrary: h) (auto simp: recover_line_def split: option.splits json.splits)
  then show ?thesis by (simp add: recover_seq_def)
qed

lemma translate_keys: "translate raw = Inr ev \<Longrightarrow> map fst ev = [''event_type'', ''payload'', ''proxmox_ts'']"
  by (auto simp: translate_def res_simps Let_def split: json.splits)

lemma truncated_keeps:
  assumes "truncated d = Inr e" and "plain_json (JObj d)"
  shows "plain_json (JObj e)" and "k \<noteq> ''payload'' \<Longrightarrow> dget e k = dget d k"
proof -
  have short: "first_4096 v = Inr w \<Longrightarrow> plain_json v \<Longrightarrow> plain_json w" for v w
  proof (cases v)
    case (JList xs)
    moreover assume "first_4096 v = Inr w" "plain_json v"
    moreover have "list_all plain_json (take 4096 xs)" if "list_all plain_json xs" using that by (metis append_take_drop_id list_all_append)
    ultimately show "plain_json w" by (auto simp: first_4096_def)
  qed (auto simp: first_4096_def)
  have sub: "plain_json (JObj c) \<Longrightarrow> dget c k' = Some v \<Longrightarrow> plain_json v" for c k' v
    using dget_in_set [of c k' v] by (auto simp: list_all_iff)
  have "plain_json (JObj e) \<and> (\<forall>k. k \<noteq> ''payload'' \<longrightarrow> dget e k = dget d k)"
  proof (cases "e = d")
    case False
    then obtain payload v w where s: "dget d ''payload'' = Some (JObj payload)" "dget payload ''text'' = Some v" "first_4096 v = Inr w"
      "e = dset ''payload'' (JObj (dset ''text'' w payload)) d"
      using assms(1) by (auto simp: truncated_def item_def res_simps split: if_splits)
    have p: "plain_json (JObj payload)" using sub [OF assms(2) s(1)] .
    have "plain_json (JObj (dset ''text'' w payload))" using plain_dset [OF p short [OF s(3) sub [OF p s(2)]]] .
    then show ?thesis unfolding s(4) using plain_dset [OF assms(2)] by (simp add: dget_dset del: plain_json.simps)
  qed (use assms(2) in simp)
  then show "plain_json (JObj e)" "k \<noteq> ''payload'' \<Longrightarrow> dget e k = dget d k" by blast+
qed

lemma log_appended:
  assumes cf: "good_config cf" and log: "sound_log cf (ew_file w)" "ew_seq w = recover_seq (wc_decode cf) (ew_file w)"
    and d: "plain_json (JObj d)" "dget d ''runner_event_id'' = Some (JStr name)"
    and app: "append_event (wc_float cf) (wc_stamp cf) d (wc_attempt cf) dep w = (w', Inr seq)"
  shows "receipts cf (ew_file w') = receipts cf (ew_file w) @ [name]" and "terminated (ew_file w')"
    and "snd (read_range (wc_decode cf) 0 None (ew_file w')) = None" and "ew_seq w' = recover_seq (wc_decode cf) (ew_file w')"
proof -
  let ?s = "stamp seq (wc_attempt cf) dep (wc_stamp cf) d"
  obtain events where r: "read_range (wc_decode cf) 0 None (ew_file w) = (events, None)"
    using log(1) by (cases "read_range (wc_decode cf) 0 None (ew_file w)") (auto simp: sound_log_def)
  have seq: "0 \<le> seq" using append_event_file(1) [OF app] log(2) recover_seq_nonneg by (metis add_increasing2 zero_le_one)
  have reads: "read_range (wc_decode cf) 0 None (ew_file w') = (events @ [JObj ?s], None)"
    "open_writer (wc_decode cf) (ew_file w') = w'" "terminated (ew_file w')"
    using append_reads_back [OF _ d(1) _ r app seq log(2)] cf log(1) by (auto simp: good_config_def sound_log_def)
  have "of_attempt (wc_attempt cf) (JObj ?s)" "receipt_of (JObj ?s) = Some name"
    using d(2) by (simp_all add: of_attempt_def receipt_of_def jget_def dget_stamp)
  then show "receipts cf (ew_file w') = receipts cf (ew_file w) @ [name]"
    by (simp add: receipts_def r reads(1) List.map_filter_def)
  show "terminated (ew_file w')" "snd (read_range (wc_decode cf) 0 None (ew_file w')) = None" using reads by simp_all
  show "ew_seq w' = recover_seq (wc_decode cf) (ew_file w')" using reads(2) by (metis events_writer.select_convs(2) open_writer_def)
qed

subsection \<open>The invariant of an observer\<close>

definition watching :: "watch_config \<Rightarrow> watcher \<Rightarrow> bool" where
  "watching cf w =
     (sound_log cf (ew_file (wa_writer w)) \<and> ew_seq (wa_writer w) = recover_seq (wc_decode cf) (ew_file (wa_writer w))
      \<and> wa_seen w = set (receipts cf (ew_file (wa_writer w))))"

text \<open>After an exception only the log counts: it has what it had.\<close>

definition extends_log :: "watch_config \<Rightarrow> watcher \<Rightarrow> watcher \<Rightarrow> bool" where
  "extends_log cf w w' =
     (sound_log cf (ew_file (wa_writer w')) \<and> prefix (receipts cf (ew_file (wa_writer w))) (receipts cf (ew_file (wa_writer w'))))"

lemma extends_trans: "extends_log cf u v \<Longrightarrow> extends_log cf v w \<Longrightarrow> extends_log cf u w"
  unfolding extends_log_def using prefix_order.order_trans by blast

lemma record_file_cases:
  assumes cf: "good_config cf" and w: "watching cf w" and new: "name \<notin> wa_seen w"
    and raw: "case translate raw of Inl e \<Rightarrow> True | Inr ev \<Rightarrow> plain_json (JObj ev)"
    and run: "record_file cf name raw w = (w', out)"
  shows "extends_log cf w w'" and "out = None \<Longrightarrow> watching cf w' \<and> name \<in> wa_seen w'"
proof -
  have log: "sound_log cf (ew_file (wa_writer w))" "ew_seq (wa_writer w) = recover_seq (wc_decode cf) (ew_file (wa_writer w))"
    "wa_seen w = set (receipts cf (ew_file (wa_writer w)))" using w by (auto simp: watching_def)
  have "extends_log cf w w' \<and> (out = None \<longrightarrow> watching cf w' \<and> name \<in> wa_seen w')"
  proof (cases "ew_file (wa_writer w') = ew_file (wa_writer w) \<and> out \<noteq> None")
    case True
    then show ?thesis using log(1) by (auto simp: extends_log_def)
  next
    case False
    let ?rows = "\<lambda>rows. w\<lparr>wa_seen := insert name (wa_seen w), wa_audit := wa_audit w @ rows\<rparr>"
    obtain ev where ev: "translate raw = Inr ev" using False run by (cases "translate raw") (auto simp: record_file_def Let_def)
    have plain: "plain_json (JObj ev)" using raw ev by simp
    have "''event_seq'' \<notin> set (map fst ev)" using translate_keys [OF ev] by simp
    then obtain d1 rows where d1: "run_pipeline (wc_deployment cf) (wc_attempt cf) (wc_layers cf) (JObj ev) = Inr (JObj d1, rows)" "plain_json (JObj d1)"
      using pipeline_keeps [OF _ plain] cf unfolding good_config_def by blast
    have d2: "plain_json (JObj (dset ''runner_event_id'' (JStr name) d1))" by (rule plain_dset [OF d1(2)]) simp
    obtain d where d: "truncated (dset ''runner_event_id'' (JStr name) d1) = Inr d"
      using False run ev d1(1) by (cases "truncated (dset ''runner_event_id'' (JStr name) d1)") (auto simp: record_file_def Let_def)
    obtain wr r where app: "append_event (wc_float cf) (wc_stamp cf) d (wc_attempt cf) (Some (wc_deployment cf)) (wa_writer w) = (wr, r)"
      by (cases "append_event (wc_float cf) (wc_stamp cf) d (wc_attempt cf) (Some (wc_deployment cf)) (wa_writer w)")
    have seq: "\<exists>seq. r = Inr seq"
      using False run ev d1(1) d app by (auto simp: record_file_def Let_def append_event_def split: sum.splits)
    then obtain seq where seq: "r = Inr seq" by blast
    have out: "out = None" "wa_writer w' = wr" "wa_seen w' = insert name (wa_seen w)"
      using run ev d1(1) d app seq by (auto simp: record_file_def Let_def)
    have id: "dget d ''runner_event_id'' = Some (JStr name)" using truncated_keeps(2) [OF d d2] by (simp add: dget_dset)
    note appended = log_appended [OF cf log(1,2) truncated_keeps(1) [OF d d2] id app [unfolded seq]]
    have "distinct (receipts cf (ew_file wr))" using appended(1) new log(1,3) by (simp add: sound_log_def)
    then show ?thesis
      using appended log out by (auto simp: extends_log_def watching_def sound_log_def)
  qed
  then show "extends_log cf w w'" "out = None \<Longrightarrow> watching cf w' \<and> name \<in> wa_seen w'" by blast+
qed

text \<open>The files of a directory that can be recorded, and whether all of them are.\<close>

definition all_seen :: "string set \<Rightarrow> listing \<Rightarrow> bool" where
  "all_seen seen files = list_all (\<lambda>(name, t). Option.bind t json_loads \<noteq> None \<longrightarrow> name \<in> seen) files"

lemma watching_refl: "watching cf w \<Longrightarrow> extends_log cf w w"
  by (simp add: watching_def extends_log_def)

lemma seen_grows: "watching cf w \<Longrightarrow> watching cf w' \<Longrightarrow> extends_log cf w w' \<Longrightarrow> wa_seen w \<subseteq> wa_seen w'"
  by (auto simp: watching_def extends_log_def dest: set_mono_prefix)

lemma scan_files_cases:
  assumes "good_config cf" and "watching cf w" and "list_all recordable files" and "scan_files cf files w = (w', out)"
  shows "extends_log cf w w' \<and> (out = None \<longrightarrow> watching cf w' \<and> all_seen (wa_seen w') files)"
  using assms(2-4)
proof (induction files arbitrary: w)
  case Nil
  then show ?case using watching_refl by (auto simp: all_seen_def)
next
  case (Cons p files)
  obtain name t where p: "p = (name, t)" by (cases p)
  show ?case
  proof (cases "name \<in> wa_seen w \<or> Option.bind t json_loads = None")
    case True
    then have "scan_files cf files w = (w', out)" using Cons.prems(3) p by (auto split: if_splits option.splits)
    then have ih: "extends_log cf w w' \<and> (out = None \<longrightarrow> watching cf w' \<and> all_seen (wa_seen w') files)"
      using Cons.IH Cons.prems(1,2) by simp
    then show ?thesis using True seen_grows [OF Cons.prems(1)] p by (auto simp: all_seen_def)
  next
    case False
    then obtain raw where raw: "Option.bind t json_loads = Some raw" and new: "name \<notin> wa_seen w" by auto
    obtain w1 o1 where r: "record_file cf name raw w = (w1, o1)" by (cases "record_file cf name raw w")
    have rec: "case translate raw of Inl e \<Rightarrow> True | Inr ev \<Rightarrow> plain_json (JObj ev)"
      using Cons.prems(2) raw p by (simp add: recordable_def)
    note one = record_file_cases [OF assms(1) Cons.prems(1) new rec r]
    show ?thesis
    proof (cases o1)
      case None
      then have "scan_files cf files w1 = (w', out)" using Cons.prems(3) p new raw r by simp
      then have ih: "extends_log cf w1 w' \<and> (out = None \<longrightarrow> watching cf w' \<and> all_seen (wa_seen w') files)"
        using Cons.IH [of w1] Cons.prems(2) one(2) None by simp
      have "wa_seen w1 \<subseteq> wa_seen w'" if "out = None" using seen_grows [of cf w1 w'] ih one(2) None that by simp
      then show ?thesis using extends_trans [OF one(1)] one(2) None ih p by (auto simp: all_seen_def)
    next
      case (Some e)
      then show ?thesis using Cons.prems(3) p new raw r one(1) by auto
    qed
  qed
qed

text \<open>The files that a scan looks at are those of the directory with the name of an event.\<close>

definition json_files :: "listing \<Rightarrow> listing" where
  "json_files dir = filter (\<lambda>(name, t). suffix ''.json'' name) dir"

lemma event_files_set: "event_files dir = Inr files \<Longrightarrow> set files = set (json_files dir)"
  by (auto simp: event_files_def json_files_def Let_def bindE_Inr)

lemma scan_dir_cases:
  assumes "good_config cf" and "watching cf w" and "list_all recordable dir" and "scan_dir cf dir w = (w', out)"
  shows "extends_log cf w w' \<and> (out = None \<longrightarrow> watching cf w' \<and> all_seen (wa_seen w') (json_files dir))"
proof (cases "event_files dir")
  case (Inl e)
  then show ?thesis using assms watching_refl by (auto simp: scan_dir_def)
next
  case (Inr files)
  have "list_all recordable files"
    using assms(3) event_files_set [OF Inr] by (auto simp: list_all_iff json_files_def)
  then show ?thesis
    using scan_files_cases [OF assms(1,2), of files w' out] assms(4) Inr event_files_set [OF Inr]
    by (simp add: scan_dir_def all_seen_def list_all_iff)
qed

lemma report_progress_keeps:
  "report_progress r w = (w', out) \<Longrightarrow> wa_writer w' = wa_writer w \<and> wa_seen w' = wa_seen w"
  by (auto simp: report_progress_def split: option.splits if_splits)

text \<open>What a finished observation saw in its last scan, which began after the process had ended.\<close>

definition drained :: "string set \<Rightarrow> round list \<Rightarrow> bool" where
  "drained seen rs = list_ex (\<lambda>r. ro_final r \<and> all_seen seen (json_files (ro_dir r))) rs"

lemma watch_cases:
  assumes "good_config cf" and "watching cf w" and "list_all (\<lambda>r. list_all recordable (ro_dir r)) rs" and "watch cf rs w = (w', out)"
  shows "extends_log cf w w' \<and> (out = Finished \<longrightarrow> drained (set (receipts cf (ew_file (wa_writer w')))) rs)
    \<and> (out = Watching \<longrightarrow> \<not> list_ex ro_final rs)"
  using assms(2-4)
proof (induction rs arbitrary: w)
  case Nil
  then show ?case using watching_refl by auto
next
  case (Cons r rs)
  obtain w1 o1 where s: "scan_dir cf (ro_dir r) w = (w1, o1)" by (cases "scan_dir cf (ro_dir r) w")
  note one = scan_dir_cases [OF assms(1) Cons.prems(1) _ s]
  show ?case
  proof (cases o1)
    case (Some e)
    then show ?thesis using Cons.prems s one by auto
  next
    case None
    obtain w2 o2 where p: "report_progress r w1 = (w2, o2)" by (cases "report_progress r w1")
    have w2: "watching cf w2" "extends_log cf w w2" "all_seen (wa_seen w2) (json_files (ro_dir r))"
      using one Cons.prems(2) None report_progress_keeps [OF p] by (auto simp: watching_def extends_log_def)
    show ?thesis
    proof (cases "o2 = None \<and> \<not> ro_final r")
      case True
      then have rest: "watch cf rs w2 = (w', out)" using Cons.prems(3) s None p by simp
      then show ?thesis using Cons.IH [OF w2(1) _ rest] Cons.prems(2) extends_trans [OF w2(2)] True by (auto simp: drained_def)
    next
      case False
      then have "w' = w2" "out = Finished \<longrightarrow> ro_final r" "out \<noteq> Watching"
        using Cons.prems(3) s None p by (auto split: option.splits)
      then show ?thesis using w2 by (auto simp: drained_def watching_def)
    qed
  qed
qed

lemma open_watcher_watches:
  assumes "sound_log cf content"
  obtains w where "open_watcher cf content = Inr w" "watching cf w" "ew_file (wa_writer w) = content"
proof -
  obtain events where r: "read_range (wc_decode cf) 0 None content = (events, None)"
    using assms by (cases "read_range (wc_decode cf) 0 None content") (auto simp: sound_log_def)
  then have "open_watcher cf content = Inr \<lparr>wa_writer = open_writer (wc_decode cf) content, wa_audit = [],
      wa_seen = set (receipts cf content), wa_cursor = foldl max 0 (map event_seq_of (filter (of_attempt (wc_attempt cf)) events)),
      wa_reported = 0\<rparr>"
    by (simp add: open_watcher_def receipts_def Let_def)
  then show thesis using that assms by (simp add: watching_def open_writer_def)
qed

lemma observe_cases:
  assumes "good_config cf" and "sound_log cf content" and "list_all (list_all (\<lambda>r. list_all recordable (ro_dir r))) observers"
    and "observe cf observers content = (content', out)"
  shows "sound_log cf content' \<and> prefix (receipts cf content) (receipts cf content')
    \<and> (out = Finished \<longrightarrow> drained (set (receipts cf content')) (List.last observers))
    \<and> (out = Watching \<and> observers \<noteq> [] \<longrightarrow> \<not> list_ex ro_final (List.last observers))"
  using assms(2-4)
proof (induction observers arbitrary: content)
  case (Cons rs later)
  obtain w where w: "open_watcher cf content = Inr w" "watching cf w" "ew_file (wa_writer w) = content"
    using open_watcher_watches [OF Cons.prems(1)] .
  obtain w1 o1 where r: "watch cf rs w = (w1, o1)" by (cases "watch cf rs w")
  have one: "sound_log cf (ew_file (wa_writer w1))" "prefix (receipts cf content) (receipts cf (ew_file (wa_writer w1)))"
    "o1 = Finished \<longrightarrow> drained (set (receipts cf (ew_file (wa_writer w1)))) rs" "o1 = Watching \<longrightarrow> \<not> list_ex ro_final rs"
    using watch_cases [OF assms(1) w(2) _ r] Cons.prems(2) w(3) by (auto simp: extends_log_def)
  show ?case
  proof (cases later)
    case Nil
    then show ?thesis using Cons.prems(3) w(1) r one by auto
  next
    case (Cons rs' later')
    then have "observe cf later (ew_file (wa_writer w1)) = (content', out)" using Cons.prems(3) w(1) r by simp
    then show ?thesis
      using Cons.IH [OF one(1)] Cons.prems(2) one(2) Cons prefix_order.order_trans by auto
  qed
qed simp

subsection \<open>Every raw event once\<close>

text \<open>C35: observers that follow one another on the log of an attempt, each cut off by an exception or not,
  record no raw event file twice and lose no receipt that the log had; when the last of them ends, every
  readable event file that its last scan found, begun after the process had ended, has its event in
  the log. An observer only goes on while no scan was a final one.\<close>

theorem raw_events_recorded_once:
  assumes "decodes_ascii (wc_decode cf)" and "wc_layers cf = attempt_layers patterns tainted" and "sound_log cf content"
    and "list_all (list_all (\<lambda>r. list_all recordable (ro_dir r))) observers"
    and "observe cf observers content = (content', out)"
  shows "distinct (receipts cf content') \<and> prefix (receipts cf content) (receipts cf content')
    \<and> (out = Finished \<longrightarrow> drained (set (receipts cf content')) (List.last observers))
    \<and> (out = Watching \<and> observers \<noteq> [] \<longrightarrow> \<not> list_ex ro_final (List.last observers))"
proof -
  have "good_config cf" using assms(1,2) by (simp add: good_config_def attempt_layers_keep)
  then show ?thesis using observe_cases [OF _ assms(3-5)] by (simp add: sound_log_def)
qed

definition sample_watch :: watch_config where
  "sample_watch = \<lparr>wc_deployment = ''d'', wc_attempt = ''a'', wc_layers = attempt_layers [] [''key''], wc_float = (\<lambda>r. ''0''),
     wc_stamp = ''t'', wc_decode = Some\<rparr>"

definition sample_rounds :: "round list" where
  "sample_rounds = [\<lparr>ro_final = False, ro_dir = [(''1-a.json'', None)], ro_progress = None\<rparr>,
     \<lparr>ro_final = True, ro_dir = [(''1-a.json'', Some ''{}'')], ro_progress = Some None\<rparr>]"

lemma sample_recordable: "recordable (''1-a.json'', None)" "recordable (''1-a.json'', Some ''{}'')"
  unfolding recordable_def by code_simp+

lemma sample_observed: "snd (observe sample_watch [sample_rounds, sample_rounds] []) = Finished"
  by code_simp

theorem raw_events_recorded_once_witness:
  "distinct (receipts sample_watch (fst (observe sample_watch [sample_rounds, sample_rounds] [])))
    \<and> ''1-a.json'' \<in> set (receipts sample_watch (fst (observe sample_watch [sample_rounds, sample_rounds] [])))"
proof -
  let ?o = "observe sample_watch [sample_rounds, sample_rounds] []"
  have "decodes_ascii (wc_decode sample_watch)" by (simp add: sample_watch_def decodes_ascii_def)
  moreover have "wc_layers sample_watch = attempt_layers [] [''key'']" by (simp add: sample_watch_def)
  moreover have "sound_log sample_watch []" by (simp add: sound_log_def receipts_def terminated_def read_range_def)
  moreover have "list_all (list_all (\<lambda>r. list_all recordable (ro_dir r))) [sample_rounds, sample_rounds]"
    by (simp add: sample_rounds_def sample_recordable)
  ultimately have r: "distinct (receipts sample_watch (fst ?o))" "snd ?o = Finished \<longrightarrow> drained (set (receipts sample_watch (fst ?o))) sample_rounds"
    using raw_events_recorded_once [of sample_watch "[]" "[''key'']" "[]" "[sample_rounds, sample_rounds]" "fst ?o" "snd ?o"] by auto
  have "json_files [(''1-a.json'', Some ''{}'')] = [(''1-a.json'', Some ''{}'')]" "json_loads ''{}'' \<noteq> None" by code_simp+
  then show ?thesis using r sample_observed by (auto simp: drained_def sample_rounds_def all_seen_def)
qed

end
