(* ===== verification/Attempt_Cleanup.thy ===== *)
theory Attempt_Cleanup
  imports Runner Watcher
begin

text \<open>
  What is left of an attempt once its runner has ended (\<open>app/core/attempt_cleanup.py\<close>,
  \<open>cleanup_agent\<close> of \<open>app/core/ssh_agent.py\<close>, \<open>cleanup_runtime_vault\<close> of
  \<open>app/core/scenario_runtime.py\<close>, \<open>shred_envvars\<close> of \<open>app/core/workspace.py\<close>).

  The disk is a list of entries by path, each with its device and inode. Paths are the absolute
  normal strings of the theory Runner, and only the last part of a path may be a link: a
  directory inside a workspace is not reached through one. How bytes are decoded, which entries
  may not be opened or removed, \<open>Path.resolve\<close>, \<open>/proc\<close> and the signals are parameters.
\<close>

subsection \<open>The disk\<close>

datatype content = Regular string | Directory | Link string | Socket | Special

record entry =
  en_device :: int
  en_inode :: int
  en_content :: content

type_synonym disk = "(string \<times> entry) list"

datatype stop_signal = SIGTERM | SIGKILL

record disk_env =
  de_decode :: "string \<Rightarrow> string option"
  de_no_open :: "string \<Rightarrow> bool"
  de_no_remove :: "string \<Rightarrow> bool"
  de_resolve :: "string \<Rightarrow> string res"
  de_proc :: "string \<Rightarrow> string res"
  de_pidfd :: "int \<Rightarrow> unit res"
  de_send :: "stop_signal \<Rightarrow> int \<Rightarrow> unit res"

abbreviation find_entry :: "disk \<Rightarrow> string \<Rightarrow> entry option" where
  "find_entry \<equiv> map_of"

definition drop_entry :: "string \<Rightarrow> disk \<Rightarrow> disk" where
  "drop_entry p d = filter (\<lambda>(q, e). q \<noteq> p) d"

definition put_content :: "string \<Rightarrow> content \<Rightarrow> disk \<Rightarrow> disk" where
  "put_content p c d = map (\<lambda>(q, e). (q, if q = p then e\<lparr>en_content := c\<rparr> else e)) d"

text \<open>\<open>a / b\<close>, \<open>p.name\<close> and \<open>p.parent\<close>.\<close>

definition slash :: "string \<Rightarrow> string \<Rightarrow> string" where
  "slash a b = a @ ''/'' @ b"

definition path_name :: "string \<Rightarrow> string" where
  "path_name p = rev (takeWhile (\<lambda>c. c \<noteq> CHR ''/'') (rev p))"

definition path_parent :: "string \<Rightarrow> string" where
  "path_parent p = rev (drop 1 (dropWhile (\<lambda>c. c \<noteq> CHR ''/'') (rev p)))"

text \<open>The names in a directory, in the order of the disk.\<close>

definition entries_of :: "string \<Rightarrow> disk \<Rightarrow> string list" where
  "entries_of dir d = map path_name (filter (\<lambda>p. path_parent p = dir \<and> path_name p \<noteq> []) (map fst d))"

text \<open>A path with its links followed, at most forty of them, as the kernel does.\<close>

fun follow :: "nat \<Rightarrow> disk \<Rightarrow> string \<Rightarrow> (string \<times> entry) option" where
  "follow n d p =
     (case find_entry d p of
        None \<Rightarrow> None
      | Some e \<Rightarrow>
          (case en_content e of
             Link t \<Rightarrow> (case n of 0 \<Rightarrow> None | Suc m \<Rightarrow> follow m d t)
           | _ \<Rightarrow> Some (p, e)))"

declare follow.simps [simp del]

definition is_regular :: "entry \<Rightarrow> bool" where
  "is_regular e = (case en_content e of Regular t \<Rightarrow> True | _ \<Rightarrow> False)"

definition is_link :: "disk \<Rightarrow> string \<Rightarrow> bool" where
  "is_link d p = (case find_entry d p of Some e \<Rightarrow> (case en_content e of Link t \<Rightarrow> True | _ \<Rightarrow> False) | None \<Rightarrow> False)"

definition is_directory :: "disk \<Rightarrow> string \<Rightarrow> bool" where
  "is_directory d p = (case follow 40 d p of Some (q, e) \<Rightarrow> en_content e = Directory | None \<Rightarrow> False)"

text \<open>\<open>os.open\<close> with \<open>O_NOFOLLOW\<close> and \<open>os.fdopen\<close>; a special file opens, and its text is not read here.\<close>

definition open_nofollow :: "disk_env \<Rightarrow> disk \<Rightarrow> string \<Rightarrow> entry res" where
  "open_nofollow env d p =
     (case find_entry d p of
        None \<Rightarrow> Inl OSError
      | Some e \<Rightarrow> if de_no_open env p \<or> en_content e \<in> {Directory, Socket} \<or> is_link d p then Inl OSError else Inr e)"

definition entry_text :: "disk_env \<Rightarrow> entry \<Rightarrow> string res" where
  "entry_text env e = (case en_content e of Regular b \<Rightarrow> of_opt ValueError (de_decode env b) | _ \<Rightarrow> Inl OSError)"

definition read_text :: "disk_env \<Rightarrow> disk \<Rightarrow> string \<Rightarrow> string res" where
  "read_text env d p =
     (case follow 40 d p of
        None \<Rightarrow> Inl OSError
      | Some (q, e) \<Rightarrow> if de_no_open env q then Inl OSError else entry_text env e)"

text \<open>The files of the theory Runner: \<open>/proc\<close> is not on the disk.\<close>

definition files_of :: "disk_env \<Rightarrow> disk \<Rightarrow> files" where
  "files_of env d = \<lparr>f_read = (\<lambda>p. if prefix ''/proc/'' p then de_proc env p else read_text env d p),
     f_resolve = de_resolve env, f_is_symlink = is_link d,
     f_is_file = (\<lambda>p. case follow 40 d p of Some (q, e) \<Rightarrow> is_regular e | None \<Rightarrow> False)\<rparr>"

text \<open>\<open>unlink\<close> of anything but a directory.\<close>

definition unlink :: "disk_env \<Rightarrow> string \<Rightarrow> disk \<Rightarrow> disk res" where
  "unlink env p d =
     (case find_entry d p of
        None \<Rightarrow> Inl OSError
      | Some e \<Rightarrow> if de_no_remove env p \<or> en_content e = Directory then Inl OSError else Inr (drop_entry p d))"

subsection \<open>Raw output\<close>

record cleanup_report =
  cr_removed :: nat
  cr_retained :: nat
  cr_stdout :: bool

text \<open>Universal newlines: the lines of a file that is open as text.\<close>

fun universal :: "string \<Rightarrow> string" where
  "universal [] = []"
| "universal (c # cs) =
     (if c = CHR 0x0D then newline # (case cs of [] \<Rightarrow> [] | x # xs \<Rightarrow> if x = newline then universal xs else universal (x # xs))
      else c # universal cs)"

definition receipt_in :: "string \<Rightarrow> json \<Rightarrow> string option" where
  "receipt_in att event = (if of_attempt att event then receipt_of event else None)"

definition log_receipts :: "string \<Rightarrow> string \<Rightarrow> string list res" where
  "log_receipts att t =
     bindE (mapE (\<lambda>line. of_opt ValueError (json_loads line)) (lines_of [] (universal t))) (\<lambda>events.
       Inr (List.map_filter (receipt_in att) events))"

definition in_runner_dir :: "disk_env \<Rightarrow> disk \<Rightarrow> string \<Rightarrow> string \<Rightarrow> bool res" where
  "in_runner_dir env d ws artifact =
     bindE (de_resolve env artifact) (\<lambda>resolved.
       if is_link d artifact then Inr False
       else bindE (de_resolve env (slash ws ''runner'')) (\<lambda>runner.
            if path_parent resolved \<noteq> runner then Inr False
            else bindE (de_resolve env ws) (\<lambda>w. Inr (resolved = w \<or> prefix (slash w []) resolved))))"

text \<open>The receipts once the attempt may be cleaned up, \<open>None\<close> while it may not.\<close>

definition output_receipts :: "disk_env \<Rightarrow> disk \<Rightarrow> string \<Rightarrow> string \<Rightarrow> string list option res" where
  "output_receipts env d ws artifact =
     bindE (in_runner_dir env d ws artifact) (\<lambda>inside.
     if \<not> inside then Inr None
     else bindE (open_nofollow env d (slash artifact ''rc'')) (\<lambda>rc.
     if \<not> is_regular rc then Inr None
     else bindE (entry_text env rc) (\<lambda>t.
          bindE (of_opt ValueError (int_of_str (take 32 t))) (\<lambda>_.
          bindE (catchE (os_or ValueError) (read_int (files_of env d) (slash artifact ''pid'')) (Inr 0)) (\<lambda>pid.
          bindE (process_matches (files_of env d) artifact pid) (\<lambda>alive.
          if alive then Inr None
          else bindE (open_nofollow env d (slash ws ''events.jsonl'')) (\<lambda>log.
          if \<not> is_regular log then Inr None
          else bindE (entry_text env log) (\<lambda>events.
               bindE (log_receipts (path_name artifact) events) (\<lambda>recorded.
                 if is_link d (slash artifact ''job_events'') \<or> \<not> is_directory d (slash artifact ''job_events'') then Inr None
                 else Inr (Some recorded))))))))))"

definition json_suffix :: "string \<Rightarrow> bool" where
  "json_suffix name = (suffix ''.json'' name \<and> name \<noteq> ''.json'')"

fun remove_events ::
    "disk_env \<Rightarrow> string list \<Rightarrow> string \<Rightarrow> string list \<Rightarrow> disk \<times> cleanup_report \<Rightarrow> (disk \<times> cleanup_report) \<times> exc option" where
  "remove_events env recorded dir [] s = (s, None)"
| "remove_events env recorded dir (name # names) (d, r) =
     (if name \<in> set recorded \<and> json_suffix name
      then (case find_entry d (slash dir name) of
              None \<Rightarrow> ((d, r), Some OSError)
            | Some e \<Rightarrow>
                if is_regular e
                then (case unlink env (slash dir name) d of
                        Inl x \<Rightarrow> ((d, r), Some x)
                      | Inr d' \<Rightarrow> remove_events env recorded dir names (d', r\<lparr>cr_removed := cr_removed r + 1\<rparr>))
                else remove_events env recorded dir names (d, r\<lparr>cr_retained := cr_retained r + 1\<rparr>))
      else remove_events env recorded dir names (d, r\<lparr>cr_retained := cr_retained r + 1\<rparr>))"

definition remove_stdout :: "disk_env \<Rightarrow> string list \<Rightarrow> string \<Rightarrow> disk \<times> cleanup_report \<Rightarrow> (disk \<times> cleanup_report) \<times> exc option" where
  "remove_stdout env recorded artifact s =
     (let p = slash artifact ''stdout''; d = fst s; r = snd s in
      if recorded \<noteq> [] \<and> cr_retained r = 0 \<and> follow 40 d p \<noteq> None
      then (case find_entry d p of
              None \<Rightarrow> (s, Some OSError)
            | Some e \<Rightarrow>
                if is_regular e
                then (case unlink env p d of Inl x \<Rightarrow> (s, Some x) | Inr d' \<Rightarrow> ((d', r\<lparr>cr_stdout := True\<rparr>), None))
                else (s, None))
      else (s, None))"

text \<open>An OSError, ValueError or RuntimeError ends the cleanup with what was done so far.\<close>

definition caught :: "exc \<Rightarrow> bool" where
  "caught e = (e \<in> {OSError, TimeoutError, ValueError, RuntimeError, RecursionError, NotImplementedError})"

definition cleanup_attempt_output :: "disk_env \<Rightarrow> string \<Rightarrow> string \<Rightarrow> disk \<Rightarrow> (disk \<times> cleanup_report) \<times> exc option" where
  "cleanup_attempt_output env ws artifact d =
     (let s = (d, \<lparr>cr_removed = 0, cr_retained = 0, cr_stdout = False\<rparr>);
          dir = slash artifact ''job_events'';
          run = (case output_receipts env d ws artifact of
                   Inl e \<Rightarrow> (s, Some e)
                 | Inr None \<Rightarrow> (s, None)
                 | Inr (Some recorded) \<Rightarrow>
                     (case remove_events env recorded dir (entries_of dir d) s of
                        (s', Some e) \<Rightarrow> (s', Some e)
                      | (s', None) \<Rightarrow> remove_stdout env recorded artifact s'))
      in (fst run, case snd run of Some e \<Rightarrow> if caught e then None else Some e | None \<Rightarrow> None))"

subsection \<open>Credentials\<close>

text \<open>\<open>re.fullmatch(r"\.agent-[a-z0-9_]{8}", name)\<close>\<close>

definition agent_directory :: "string \<Rightarrow> bool" where
  "agent_directory name =
     (let r = drop 7 name in
      take 7 name = ''.agent-'' \<and> length r = 8
      \<and> list_all (\<lambda>c. let n = of_char c :: nat in (97 \<le> n \<and> n \<le> 122) \<or> (48 \<le> n \<and> n \<le> 57) \<or> n = 95) r)"

definition owned_by :: "entry \<Rightarrow> dict \<Rightarrow> string \<Rightarrow> string \<Rightarrow> bool" where
  "owned_by e owner device inode = (jget owner device = JInt (en_device e) \<and> jget owner inode = JInt (en_inode e))"

text \<open>\<open>rmdir\<close> of an empty directory.\<close>

definition remove_dir :: "disk_env \<Rightarrow> string \<Rightarrow> disk \<Rightarrow> disk" where
  "remove_dir env p d =
     (if de_no_remove env p \<or> entries_of p d \<noteq> [] then d else drop_entry p d)"

text \<open>The socket, then its directory; the file descriptors hold the directories that were checked.\<close>

definition remove_socket :: "disk_env \<Rightarrow> string \<Rightarrow> string \<Rightarrow> dict \<Rightarrow> disk \<Rightarrow> disk" where
  "remove_socket env ws name owner d =
     (let dir = slash ws name; s = slash dir ''s'' in
      case (find_entry d ws, find_entry d dir) of
        (Some w, Some e) \<Rightarrow>
          if en_content w \<noteq> Directory \<or> de_no_open env ws \<or> en_content e \<noteq> Directory \<or> de_no_open env dir
             \<or> \<not> owned_by e owner ''device'' ''inode'' then d
          else (case find_entry d s of
                  None \<Rightarrow> remove_dir env dir d
                | Some f \<Rightarrow>
                    if en_content f \<noteq> Socket \<or> \<not> owned_by f owner ''socket_device'' ''socket_inode'' then d
                    else (case unlink env s d of Inl x \<Rightarrow> d | Inr d' \<Rightarrow> remove_dir env dir d'))
      | _ \<Rightarrow> d)"

definition cleanup_agent :: "disk_env \<Rightarrow> json \<Rightarrow> string option \<Rightarrow> json \<Rightarrow> disk \<Rightarrow> disk res" where
  "cleanup_agent env identity ws ownership d =
     (case identity of
        JObj ident \<Rightarrow>
          (case jget ident ''pid'' of
             JInt pid \<Rightarrow>
               if \<not> (0 < pid \<and> pid < 2 ^ 31) then Inr d
               else
                 (let sig = (if ownership \<noteq> JNull then SIGKILL else SIGTERM) in
                  bindE (signal_process_identity (files_of env d) (de_pidfd env) (de_send env sig) ident) (\<lambda>sent.
                  bindE (if sent then Inr None else proc_identity (files_of env d) pid) (\<lambda>alive.
                  if \<not> sent \<and> alive \<noteq> None then Inr d
                  else Inr (case (ws, ownership) of
                      (Some w, JObj owner) \<Rightarrow>
                        (case jget owner ''directory'' of
                           JStr name \<Rightarrow>
                             if agent_directory name
                                \<and> list_all (\<lambda>k. as_int (jget owner k) \<noteq> None) [''device'', ''inode'', ''socket_device'', ''socket_inode'']
                             then remove_socket env w name owner d
                             else d
                         | _ \<Rightarrow> d)
                    | _ \<Rightarrow> d))))
           | _ \<Rightarrow> Inr d)
      | _ \<Rightarrow> Inr d)"

definition placeholder_text :: string where
  "placeholder_text = ''{}'' @ [newline]"

definition cleanup_runtime_vault :: "disk_env \<Rightarrow> string \<Rightarrow> int \<Rightarrow> int \<Rightarrow> disk \<Rightarrow> disk res" where
  "cleanup_runtime_vault env p device inode d =
     catchE (\<lambda>e. e = OSError)
       (bindE (of_opt OSError (find_entry d p)) (\<lambda>e.
        if (en_device e, en_inode e) \<noteq> (device, inode) then Inr d
        else bindE (read_text env d p) (\<lambda>t.
             if universal t = placeholder_text then unlink env p d else Inr d)))
       (Inr d)"

definition shred_envvars :: "disk_env \<Rightarrow> string \<Rightarrow> disk \<Rightarrow> disk" where
  "shred_envvars env p d =
     (case follow 40 d p of
        Some (q, e) \<Rightarrow>
          (case en_content e of
             Regular b \<Rightarrow>
               (let zeroed = (if de_no_open env q then d else put_content q (Regular (replicate (length b) (CHR 0x00))) d)
                in case unlink env p zeroed of Inl x \<Rightarrow> zeroed | Inr d' \<Rightarrow> d')
           | _ \<Rightarrow> d)
      | None \<Rightarrow> d)"

definition secret_files :: "string list" where
  "secret_files = [''env/envvars'', ''env/extravars'', ''command'', ''redaction.json'', ''native-context/prepare-vars.json'',
     ''native-context/variables.json'']"

definition cleanup_document :: "disk_env \<Rightarrow> disk \<Rightarrow> string \<Rightarrow> dict" where
  "cleanup_document env d metadata =
     (case bindE (open_nofollow env d metadata) (\<lambda>e.
           bindE (entry_text env e) (\<lambda>t.
           bindE (of_opt ValueError (json_loads (take 16384 t))) (\<lambda>v.
           bindE (of_opt ValueError (as_obj v)) (\<lambda>doc.
             if json_eq_int (jget doc ''version'') 1 then Inr doc else Inl ValueError)))) of
        Inl e \<Rightarrow> []
      | Inr doc \<Rightarrow> doc)"

definition cleanup_vault_of :: "disk_env \<Rightarrow> string \<Rightarrow> dict \<Rightarrow> disk \<Rightarrow> disk res" where
  "cleanup_vault_of env ws doc d =
     (case jget doc ''runtime_vault'' of
        JObj vault \<Rightarrow>
          (case (jget vault ''device'', jget vault ''inode'') of
             (JInt device, JInt inode) \<Rightarrow> cleanup_runtime_vault env (slash ws ''secrets/default_vault.yml'') device inode d
           | _ \<Rightarrow> Inr d)
      | _ \<Rightarrow> Inr d)"

text \<open>The disk it leaves, and the exception that ended it early.\<close>

definition cleanup_attempt_credentials :: "disk_env \<Rightarrow> string \<Rightarrow> string \<Rightarrow> disk \<Rightarrow> disk \<times> exc option" where
  "cleanup_attempt_credentials env ws artifact d0 =
     (let metadata = slash artifact ''cleanup.json'' in
      case cleanup_attempt_output env ws artifact d0 of
        ((d1, r), Some e) \<Rightarrow> (d1, Some e)
      | ((d1, r), None) \<Rightarrow>
          (let doc = cleanup_document env d1 metadata in
           case (case jget doc ''ssh_agent'' of
                   JObj ident \<Rightarrow> cleanup_agent env (JObj ident) (Some ws) (jget doc ''ssh_socket'') d1
                 | _ \<Rightarrow> Inr d1) of
             Inl e \<Rightarrow> (d1, Some e)
           | Inr d2 \<Rightarrow>
               (case cleanup_vault_of env ws doc d2 of
                  Inl e \<Rightarrow> (d2, Some e)
                | Inr d3 \<Rightarrow>
                    (let d4 = foldl (\<lambda>d relative. shred_envvars env (slash artifact relative) d) d3 secret_files
                     in (case unlink env metadata d4 of Inl x \<Rightarrow> d4 | Inr d5 \<Rightarrow> d5, None)))))"

subsection \<open>Raw output goes only with its receipt\<close>

lemma find_drop: "find_entry (drop_entry p d) q = (if q = p then None else find_entry d q)"
  by (induction d) (auto simp: drop_entry_def)

lemma unlink_removes: "unlink env p d = Inr d' \<Longrightarrow> d' = drop_entry p d"
  by (auto simp: unlink_def split: option.splits if_splits)

text \<open>The runner has published its exit code, does not run, and these are the receipts of the log.\<close>

definition output_released :: "disk_env \<Rightarrow> disk \<Rightarrow> string \<Rightarrow> string \<Rightarrow> string list \<Rightarrow> bool" where
  "output_released env d ws artifact recorded =
     (in_runner_dir env d ws artifact = Inr True
      \<and> (\<exists>rc t. find_entry d (slash artifact ''rc'') = Some rc \<and> is_regular rc \<and> entry_text env rc = Inr t \<and> int_of_str (take 32 t) \<noteq> None)
      \<and> (\<forall>pid. read_int (files_of env d) (slash artifact ''pid'') = Inr pid \<longrightarrow> process_matches (files_of env d) artifact pid = Inr False)
      \<and> (\<exists>log t. find_entry d (slash ws ''events.jsonl'') = Some log \<and> is_regular log \<and> entry_text env log = Inr t
           \<and> log_receipts (path_name artifact) t = Inr recorded))"

lemma open_nofollow_found: "open_nofollow env d p = Inr e \<Longrightarrow> find_entry d p = Some e"
  by (auto simp: open_nofollow_def split: option.splits if_splits)

lemma output_receipts_released:
  assumes "output_receipts env d ws artifact = Inr (Some recorded)"
  shows "output_released env d ws artifact recorded"
  using assms
  by (auto simp: output_receipts_def output_released_def res_simps catchE_Inr dest!: open_nofollow_found split: if_splits)

text \<open>What one removal may have been.\<close>

definition removed_event :: "disk \<Rightarrow> string list \<Rightarrow> string \<Rightarrow> string \<Rightarrow> bool" where
  "removed_event d recorded dir p =
     (\<exists>name e. name \<in> set recorded \<and> json_suffix name \<and> p = slash dir name \<and> find_entry d p = Some e \<and> is_regular e)"

lemma remove_events_cases:
  assumes "remove_events env recorded dir names (d, r) = ((d', r'), out)"
  shows "find_entry d' p \<noteq> find_entry d p \<Longrightarrow> find_entry d' p = None \<and> removed_event d recorded dir p"
    and "cr_retained r \<le> cr_retained r'" and "out = None \<Longrightarrow> cr_retained r' = 0 \<Longrightarrow> list_all (\<lambda>name. name \<in> set recorded) names"
proof -
  have "(find_entry d' p \<noteq> find_entry d p \<longrightarrow> find_entry d' p = None \<and> removed_event d recorded dir p)
    \<and> cr_retained r \<le> cr_retained r' \<and> (out = None \<longrightarrow> cr_retained r' = 0 \<longrightarrow> list_all (\<lambda>name. name \<in> set recorded) names)"
    using assms
  proof (induction names arbitrary: d r)
    case (Cons name names)
    let ?p = "slash dir name"
    consider (gone) e d1 where "name \<in> set recorded" "json_suffix name" "find_entry d ?p = Some e" "is_regular e"
        "d1 = drop_entry ?p d" "remove_events env recorded dir names (d1, r\<lparr>cr_removed := cr_removed r + 1\<rparr>) = ((d', r'), out)"
      | (kept) "remove_events env recorded dir names (d, r\<lparr>cr_retained := cr_retained r + 1\<rparr>) = ((d', r'), out)"
      | (failed) "d' = d" "r' = r" "out \<noteq> None"
      using Cons.prems by (auto split: if_splits option.splits sum.splits dest!: unlink_removes)
    then show ?case
    proof cases
      case gone
      then have "removed_event d recorded dir ?p" by (auto simp: removed_event_def)
      then show ?thesis using Cons.IH [OF gone(6)] gone(1,5) by (auto simp: find_drop removed_event_def split: if_splits)
    next
      case kept
      then show ?thesis using Cons.IH [OF kept] by auto
    next
      case failed
      then show ?thesis by auto
    qed
  qed simp
  then show "find_entry d' p \<noteq> find_entry d p \<Longrightarrow> find_entry d' p = None \<and> removed_event d recorded dir p"
    "cr_retained r \<le> cr_retained r'" "out = None \<Longrightarrow> cr_retained r' = 0 \<Longrightarrow> list_all (\<lambda>name. name \<in> set recorded) names"
    by blast+
qed

lemma raw_output_removed:
  assumes "cleanup_attempt_output env ws artifact d = ((d', report), out)" and "find_entry d' p \<noteq> find_entry d p"
  shows "find_entry d' p = None \<and> (\<exists>e. find_entry d p = Some e \<and> is_regular e)
    \<and> (\<exists>recorded. output_released env d ws artifact recorded
         \<and> (removed_event d recorded (slash artifact ''job_events'') p
            \<or> p = slash artifact ''stdout'' \<and> recorded \<noteq> []
              \<and> list_all (\<lambda>name. name \<in> set recorded) (entries_of (slash artifact ''job_events'') d)))"
proof -
  let ?dir = "slash artifact ''job_events''" and ?r0 = "\<lparr>cr_removed = 0, cr_retained = 0, cr_stdout = False\<rparr>"
  obtain recorded where rec: "output_receipts env d ws artifact = Inr (Some recorded)"
    using assms by (auto simp: cleanup_attempt_output_def Let_def split: sum.splits option.splits)
  obtain d1 r1 o1 where one: "remove_events env recorded ?dir (entries_of ?dir d) (d, ?r0) = ((d1, r1), o1)"
    by (metis prod.exhaust_sel)
  note events = remove_events_cases [OF one]
  have two: "d' = d1 \<or> o1 = None \<and> d' = drop_entry (slash artifact ''stdout'') d1 \<and> recorded \<noteq> [] \<and> cr_retained r1 = 0
      \<and> (\<exists>e. find_entry d1 (slash artifact ''stdout'') = Some e \<and> is_regular e)"
    using assms(1) rec one
    by (auto simp: cleanup_attempt_output_def Let_def remove_stdout_def split: option.splits if_splits sum.splits dest!: unlink_removes)
  have released: "output_released env d ws artifact recorded" using output_receipts_released [OF rec] .
  show ?thesis
  proof (cases "find_entry d1 p = find_entry d p")
    case True
    then have "d' \<noteq> d1" using assms(2) by auto
    then have last: "o1 = None" "d' = drop_entry (slash artifact ''stdout'') d1" "recorded \<noteq> []" "cr_retained r1 = 0"
      "\<exists>e. find_entry d1 (slash artifact ''stdout'') = Some e \<and> is_regular e" using two by blast+
    have p: "p = slash artifact ''stdout''" using True assms(2) unfolding last(2) by (auto simp: find_drop split: if_splits)
    have "find_entry d' p = None" "list_all (\<lambda>name. name \<in> set recorded) (entries_of ?dir d)"
      using events(3) last p by (simp_all add: find_drop)
    moreover have "\<exists>e. find_entry d p = Some e \<and> is_regular e" using last(5) True p by metis
    ultimately show ?thesis using p last(3) released by blast
  next
    case False
    then have "find_entry d1 p = None" "removed_event d recorded ?dir p" using events(1) by blast+
    moreover have "find_entry d' p = None" using two calculation(1) by (auto simp: find_drop)
    ultimately show ?thesis using released by (auto simp: removed_event_def)
  qed
qed

text \<open>C36: the cleanup of an attempt's output changes nothing but raw files that it removes, and it removes
  them only when the runner has published its exit code, its recorded process is not alive and every
  line of the log is JSON: an event file only when the log holds an event of this attempt with its
  name, and the standard output only when that is so of everything in the directory of events.\<close>

theorem raw_output_removed_with_receipt:
  assumes "cleanup_attempt_output env ws artifact d = ((d', report), out)" and "find_entry d' p \<noteq> find_entry d p"
  shows "find_entry d' p = None \<and> (\<exists>e. find_entry d p = Some e \<and> is_regular e)
    \<and> (\<exists>recorded. output_released env d ws artifact recorded
         \<and> (removed_event d recorded (slash artifact ''job_events'') p
            \<or> p = slash artifact ''stdout'' \<and> recorded \<noteq> []
              \<and> list_all (\<lambda>name. name \<in> set recorded) (entries_of (slash artifact ''job_events'') d)))"
  by (rule raw_output_removed [OF assms])

definition sample_env :: disk_env where
  "sample_env = \<lparr>de_decode = Some, de_no_open = (\<lambda>p. False), de_no_remove = (\<lambda>p. False), de_resolve = Inr,
     de_proc = (\<lambda>p. Inl OSError), de_pidfd = (\<lambda>pid. Inl OSError), de_send = (\<lambda>sig pid. Inl OSError)\<rparr>"

definition quoted :: "string \<Rightarrow> string" where
  "quoted s = [CHR 0x22] @ s @ [CHR 0x22]"

definition sample_log :: string where
  "sample_log = ''{'' @ quoted ''attempt_id'' @ '':'' @ quoted ''t'' @ '','' @ quoted ''runner_event_id'' @ '':'' @ quoted ''1-a.json'' @ ''}'' @ [newline]"

definition sample_disk :: disk where
  "sample_disk = map (\<lambda>(p, i, c). (p, \<lparr>en_device = 1, en_inode = i, en_content = c\<rparr>))
     [(''/w'', 1, Directory), (''/w/events.jsonl'', 2, Regular sample_log), (''/w/runner/t'', 3, Directory),
      (''/w/runner/t/rc'', 4, Regular ''0''), (''/w/runner/t/job_events'', 5, Directory),
      (''/w/runner/t/job_events/1-a.json'', 6, Regular ''{}''), (''/w/runner/t/stdout'', 7, Regular ''ok''),
      (''/w/runner/t/command'', 8, Link ''/w/notes''), (''/w/notes'', 9, Regular ''keep'')]"

lemma sample_cleaned:
  "map fst (fst (fst (cleanup_attempt_output sample_env ''/w'' ''/w/runner/t'' sample_disk))) =
     [''/w'', ''/w/events.jsonl'', ''/w/runner/t'', ''/w/runner/t/rc'', ''/w/runner/t/job_events'', ''/w/runner/t/command'', ''/w/notes'']"
  by code_simp

theorem raw_output_removed_with_receipt_witness:
  "find_entry sample_disk ''/w/runner/t/job_events/1-a.json'' \<noteq> None
    \<and> list_ex (\<lambda>p. \<exists>recorded. output_released sample_env sample_disk ''/w'' ''/w/runner/t'' recorded
         \<and> removed_event sample_disk recorded ''/w/runner/t/job_events'' p) [''/w/runner/t/job_events/1-a.json'']"
proof -
  let ?p = "''/w/runner/t/job_events/1-a.json''" and ?run = "cleanup_attempt_output sample_env ''/w'' ''/w/runner/t'' sample_disk"
  have there: "find_entry sample_disk ?p \<noteq> None" by code_simp
  have "find_entry (fst (fst ?run)) ?p = None"
    unfolding map_of_eq_None_iff set_map [symmetric] by (simp add: sample_cleaned)
  then show ?thesis
    using raw_output_removed_with_receipt [of sample_env "''/w''" "''/w/runner/t''" sample_disk "fst (fst ?run)" "snd (fst ?run)" "snd ?run" ?p] there
    by (auto simp: slash_def)
qed

subsection \<open>What the cleanup of credentials leaves\<close>

text \<open>Entries only go, or are overwritten where they were regular files.\<close>

definition shrinks :: "disk \<Rightarrow> disk \<Rightarrow> bool" where
  "shrinks d d' =
     (\<forall>p e'. find_entry d' p = Some e' \<longrightarrow>
        (\<exists>e. find_entry d p = Some e \<and> (en_content e' = en_content e \<or> is_regular e \<and> is_regular e')))"

lemma shrinks_refl: "shrinks d d"
  by (auto simp: shrinks_def)

lemma shrinks_trans: "shrinks d d' \<Longrightarrow> shrinks d' d'' \<Longrightarrow> shrinks d d''"
  unfolding shrinks_def by (fastforce simp: is_regular_def)

lemma shrinks_drop: "shrinks d (drop_entry p d)"
  by (auto simp: shrinks_def find_drop)

lemma find_put:
  "find_entry (put_content p c d) q = (if q = p then map_option (\<lambda>e. e\<lparr>en_content := c\<rparr>) (find_entry d q) else find_entry d q)"
  by (induction d) (auto simp: put_content_def)

lemma follow_found: "follow n d p = Some (q, e) \<Longrightarrow> find_entry d q = Some e"
  by (induction n d p rule: follow.induct) (auto simp: follow.simps split: option.splits content.splits nat.splits)

lemma follow_shrinks:
  "shrinks d d' \<Longrightarrow> follow n d' p = Some (q, e') \<Longrightarrow> is_regular e' \<Longrightarrow> \<exists>e. follow n d p = Some (q, e) \<and> is_regular e"
proof (induction n d' p rule: follow.induct)
  case (1 n d' p)
  obtain f' where f': "find_entry d' p = Some f'" using "1.prems"(2) by (simp add: follow.simps split: option.splits)
  then obtain f where f: "find_entry d p = Some f" "en_content f' = en_content f \<or> is_regular f \<and> is_regular f'"
    using "1.prems"(1) by (auto simp: shrinks_def)
  show ?case
  proof (cases "en_content f'")
    case (Link t)
    then obtain m where m: "n = Suc m" "follow m d' t = Some (q, e')"
      using "1.prems"(2) f' by (cases n) (auto simp: follow.simps [of _ d' p])
    have "en_content f = Link t" using f(2) Link by (simp add: is_regular_def)
    then show ?thesis using "1.IH" [OF f' Link m(1) "1.prems"(1) m(2) "1.prems"(3)] f(1) m(1) by (simp add: follow.simps [of _ d p])
  next
    case (Regular b)
    from f(2) have "is_regular f"
    proof
      assume "en_content f' = en_content f"
      then have "en_content f = Regular b" using Regular by simp
      then show ?thesis by (simp add: is_regular_def)
    qed blast
    moreover have "q = p" using "1.prems"(2) f' Regular by (simp add: follow.simps [of n d' p])
    ultimately show ?thesis using f(1) by (auto simp: follow.simps [of n d p] is_regular_def split: content.splits)
  qed (use "1.prems"(2,3) f' in \<open>simp_all add: follow.simps [of n d' p] is_regular_def\<close>)
qed

definition is_file :: "disk \<Rightarrow> string \<Rightarrow> bool" where
  "is_file d p = (case follow 40 d p of Some (q, e) \<Rightarrow> is_regular e | None \<Rightarrow> False)"

lemma is_file_shrinks: "shrinks d d' \<Longrightarrow> is_file d' p \<Longrightarrow> is_file d p"
  using follow_shrinks by (fastforce simp: is_file_def split: option.splits prod.splits)

lemma shred_cases:
  fixes d :: disk
  obtains (nothing) "\<not> is_file d p" "shred_envvars env p d = d"
  | (shredded) q b e where "follow 40 d p = Some (q, e)" "en_content e = Regular b"
      "shred_envvars env p d = (let z = (if de_no_open env q then d else put_content q (Regular (replicate (length b) (CHR 0x00))) d)
        in if de_no_remove env p then z else drop_entry p z)"
proof (cases "follow 40 d p")
  case None
  show thesis by (rule nothing) (simp_all add: is_file_def shred_envvars_def None)
next
  case (Some r)
  obtain q e where r: "r = (q, e)" by (cases r)
  show thesis
  proof (cases "en_content e")
    case (Regular b)
    let ?z = "if de_no_open env q then d else put_content q (Regular (replicate (length b) (CHR 0x00))) d"
    obtain f where f: "find_entry d p = Some f" "en_content f \<noteq> Directory"
      using Some r Regular by (auto simp: follow.simps [of 40] split: option.splits content.splits)
    have "\<exists>g. find_entry ?z p = Some g \<and> en_content g \<noteq> Directory" using f by (auto simp: find_put)
    then have "unlink env p ?z = (if de_no_remove env p then Inl OSError else Inr (drop_entry p ?z))" by (auto simp: unlink_def)
    then show thesis using shredded [of q e b] Some r Regular by (simp add: shred_envvars_def Let_def)
  qed (rule nothing; use Some r in \<open>simp add: is_file_def is_regular_def shred_envvars_def\<close>)+
qed

lemma shred_shrinks: "shrinks d (shred_envvars env p d)"
proof (cases rule: shred_cases [of d p env])
  case (shredded q b e)
  then have "shrinks d (put_content q (Regular (replicate (length b) (CHR 0x00))) d)"
    using follow_found [OF shredded(1)] by (auto simp: shrinks_def find_put is_regular_def)
  then show ?thesis using shredded(3) shrinks_drop shrinks_trans shrinks_refl by (simp add: Let_def)
qed (simp add: shrinks_refl)

lemma shred_removes: "de_no_remove env p \<or> \<not> is_file (shred_envvars env p d) p"
proof (cases rule: shred_cases [of d p env])
  case (shredded q b e)
  then show ?thesis by (auto simp: is_file_def follow.simps [of 40] find_drop Let_def)
qed simp

text \<open>The places the cleanup of credentials may reach.\<close>

definition cleaned_place :: "string \<Rightarrow> string \<Rightarrow> disk \<Rightarrow> string \<Rightarrow> bool" where
  "cleaned_place ws artifact d p =
     (p \<in> {slash artifact ''stdout'', slash artifact ''cleanup.json'', slash ws ''secrets/default_vault.yml''}
      \<or> (\<exists>name. json_suffix name \<and> p = slash (slash artifact ''job_events'') name)
      \<or> (\<exists>name. agent_directory name \<and> p \<in> {slash ws name, slash (slash ws name) ''s''})
      \<or> list_ex (\<lambda>rel. p = slash artifact rel \<or> (\<exists>e. follow 40 d (slash artifact rel) = Some (p, e) \<and> is_regular e)) secret_files)"

definition changes :: "(string \<Rightarrow> bool) \<Rightarrow> disk \<Rightarrow> disk \<Rightarrow> bool" where
  "changes place d d' = (shrinks d d' \<and> (\<forall>p. find_entry d' p \<noteq> find_entry d p \<longrightarrow> place p))"

lemma changes_refl: "changes place d d"
  by (simp add: changes_def shrinks_refl)

lemma changes_trans: "changes place d d' \<Longrightarrow> changes place d' d'' \<Longrightarrow> changes place d d''"
  unfolding changes_def using shrinks_trans by metis

lemma changes_drop: "place p \<Longrightarrow> changes place d (drop_entry p d)"
  by (simp add: changes_def shrinks_drop find_drop)

lemma changes_mono: "changes place d d' \<Longrightarrow> (\<And>p. place p \<Longrightarrow> place' p) \<Longrightarrow> changes place' d d'"
  by (auto simp: changes_def)

lemma remove_dir_changes: "place p \<Longrightarrow> changes place d (remove_dir env p d)"
  by (simp add: remove_dir_def changes_refl changes_drop)

lemma remove_socket_changes:
  assumes "place (slash ws name)" and "place (slash (slash ws name) ''s'')"
  shows "changes place d (remove_socket env ws name owner d)"
  using assms
  by (auto simp: remove_socket_def Let_def changes_refl remove_dir_changes split: option.splits sum.splits dest!: unlink_removes
      intro: changes_trans [OF changes_drop remove_dir_changes])

lemma cleanup_agent_changes:
  assumes "cleanup_agent env identity (Some ws) ownership d = Inr d'"
    and "\<And>name. agent_directory name \<Longrightarrow> place (slash ws name) \<and> place (slash (slash ws name) ''s'')"
  shows "changes place d d'"
  using assms
  by (auto simp: cleanup_agent_def Let_def res_simps changes_refl remove_socket_changes split: json.splits if_splits)

lemma cleanup_vault_changes:
  assumes "cleanup_vault_of env ws doc d = Inr d'" and "place (slash ws ''secrets/default_vault.yml'')"
  shows "changes place d d'"
  using assms
  by (auto simp: cleanup_vault_of_def cleanup_runtime_vault_def res_simps catchE_Inr changes_refl changes_drop
      split: json.splits if_splits dest!: unlink_removes)

lemma shred_changes: "changes (\<lambda>q. q = p \<or> (\<exists>e. follow 40 d p = Some (q, e) \<and> is_regular e)) d (shred_envvars env p d)"
proof (cases rule: shred_cases [of d p env])
  case (shredded q b e)
  then show ?thesis using shred_shrinks [of d env p]
    by (auto simp: changes_def find_drop find_put Let_def is_regular_def split: if_splits)
qed (simp add: changes_refl)

lemma shred_all:
  assumes "shrinks d0 d" and "\<And>rel. rel \<in> set rels \<Longrightarrow> place (slash artifact rel)"
    and "\<And>rel p e. rel \<in> set rels \<Longrightarrow> follow 40 d0 (slash artifact rel) = Some (p, e) \<Longrightarrow> is_regular e \<Longrightarrow> place p"
  shows "changes place d (foldl (\<lambda>d rel. shred_envvars env (slash artifact rel) d) d rels)
    \<and> list_all (\<lambda>rel. de_no_remove env (slash artifact rel)
        \<or> \<not> is_file (foldl (\<lambda>d rel. shred_envvars env (slash artifact rel) d) d rels) (slash artifact rel)) rels"
  using assms
proof (induction rels arbitrary: d)
  case (Cons rel rels)
  let ?d1 = "shred_envvars env (slash artifact rel) d"
  have one: "changes place d ?d1"
  proof (rule changes_mono [OF shred_changes])
    fix q assume "q = slash artifact rel \<or> (\<exists>e. follow 40 d (slash artifact rel) = Some (q, e) \<and> is_regular e)"
    then have "q = slash artifact rel \<or> (\<exists>e. follow 40 d0 (slash artifact rel) = Some (q, e) \<and> is_regular e)"
      using follow_shrinks [OF Cons.prems(1)] by blast
    then show "place q" using Cons.prems(2,3) [of rel] by auto
  qed
  have "shrinks d0 ?d1" using shrinks_trans [OF Cons.prems(1) shred_shrinks] .
  then have rest: "changes place ?d1 (foldl (\<lambda>d rel. shred_envvars env (slash artifact rel) d) ?d1 rels)"
    "list_all (\<lambda>rel. de_no_remove env (slash artifact rel)
        \<or> \<not> is_file (foldl (\<lambda>d rel. shred_envvars env (slash artifact rel) d) ?d1 rels) (slash artifact rel)) rels"
    using Cons.IH [of ?d1] Cons.prems(2,3) by auto
  moreover have "shrinks ?d1 (foldl (\<lambda>d rel. shred_envvars env (slash artifact rel) d) ?d1 rels)" using rest(1) by (simp add: changes_def)
  ultimately show ?case using changes_trans [OF one] is_file_shrinks shred_removes [of env "slash artifact rel" d] by auto
qed (simp add: changes_refl)

lemma output_changes:
  assumes "cleanup_attempt_output env ws artifact d = ((d', r), out)"
  shows "changes (cleaned_place ws artifact d0) d d'"
proof -
  have removed: "find_entry d' p = None \<and> cleaned_place ws artifact d0 p" if "find_entry d' p \<noteq> find_entry d p" for p
    using raw_output_removed [OF assms that] by (auto simp: cleaned_place_def removed_event_def)
  then have "shrinks d d'" unfolding shrinks_def by (metis option.distinct(1))
  then show ?thesis using removed by (simp add: changes_def)
qed

text \<open>C37: a cleanup of credentials that is not cut off leaves none of the attempt's secret files that it may
  remove, nor the record of what it owned; it changes nothing but those, the files they are links to,
  the raw output, the agent's directory with its socket and the placeholder of the vault, and creates
  no entry and turns none into something else.\<close>

theorem credentials_left_behind:
  assumes "cleanup_attempt_credentials env ws artifact d = (d', None)"
  shows "list_all (\<lambda>rel. de_no_remove env (slash artifact rel) \<or> \<not> is_file d' (slash artifact rel)) secret_files
    \<and> (de_no_remove env (slash artifact ''cleanup.json'')
       \<or> (case find_entry d' (slash artifact ''cleanup.json'') of None \<Rightarrow> True | Some e \<Rightarrow> en_content e = Directory))
    \<and> changes (cleaned_place ws artifact d) d d'"
proof -
  let ?place = "cleaned_place ws artifact d" and ?meta = "slash artifact ''cleanup.json''"
  obtain d1 r where one: "cleanup_attempt_output env ws artifact d = ((d1, r), None)"
    using assms by (auto simp: cleanup_attempt_credentials_def Let_def split: prod.splits option.splits)
  let ?doc = "cleanup_document env d1 ?meta"
  obtain d2 where two: "(case jget ?doc ''ssh_agent'' of JObj ident \<Rightarrow> cleanup_agent env (JObj ident) (Some ws) (jget ?doc ''ssh_socket'') d1
      | _ \<Rightarrow> Inr d1) = Inr d2"
    using assms one by (auto simp: cleanup_attempt_credentials_def Let_def split: sum.splits)
  obtain d3 where three: "cleanup_vault_of env ws ?doc d2 = Inr d3"
    using assms one two by (auto simp: cleanup_attempt_credentials_def Let_def split: sum.splits)
  let ?d4 = "foldl (\<lambda>d rel. shred_envvars env (slash artifact rel) d) d3 secret_files"
  have last: "d' = (case unlink env ?meta ?d4 of Inl x \<Rightarrow> ?d4 | Inr d5 \<Rightarrow> d5)"
    using assms one two three by (simp add: cleanup_attempt_credentials_def Let_def)
  have "changes ?place d1 d2"
    using two cleanup_agent_changes [of env _ ws _ d1 d2 ?place] changes_refl by (auto simp: cleaned_place_def split: json.splits)
  moreover have "changes ?place d2 d3" by (rule cleanup_vault_changes [OF three]) (simp add: cleaned_place_def)
  ultimately have c3: "changes ?place d d3" using changes_trans output_changes [OF one] by blast
  have shred: "changes ?place d3 ?d4"
    "list_all (\<lambda>rel. de_no_remove env (slash artifact rel) \<or> \<not> is_file ?d4 (slash artifact rel)) secret_files"
    using shred_all [of d d3 secret_files ?place artifact env] c3 by (auto simp: cleaned_place_def list_ex_iff changes_def)
  have c5: "changes ?place ?d4 d'" unfolding last
    by (cases "unlink env ?meta ?d4") (auto simp: changes_refl cleaned_place_def dest!: unlink_removes intro!: changes_drop)
  have "de_no_remove env ?meta \<or> (case find_entry d' ?meta of None \<Rightarrow> True | Some e \<Rightarrow> en_content e = Directory)"
    unfolding last by (auto simp: unlink_def find_drop split: option.splits)
  moreover have "list_all (\<lambda>rel. de_no_remove env (slash artifact rel) \<or> \<not> is_file d' (slash artifact rel)) secret_files"
    using shred(2) c5 is_file_shrinks by (auto simp: list_all_iff changes_def)
  ultimately show ?thesis using changes_trans [OF changes_trans [OF c3 shred(1)] c5] by blast
qed

lemma sample_finishes: "snd (cleanup_attempt_credentials sample_env ''/w'' ''/w/runner/t'' sample_disk) = None"
  by code_simp

theorem credentials_left_behind_witness:
  "\<not> is_file (fst (cleanup_attempt_credentials sample_env ''/w'' ''/w/runner/t'' sample_disk)) ''/w/runner/t/command''
    \<and> is_file sample_disk ''/w/runner/t/command''"
proof -
  let ?run = "cleanup_attempt_credentials sample_env ''/w'' ''/w/runner/t'' sample_disk"
  have "?run = (fst ?run, None)" using sample_finishes by (metis prod.collapse)
  from credentials_left_behind [OF this] have "\<not> is_file (fst ?run) ''/w/runner/t/command''"
    by (simp add: secret_files_def slash_def sample_env_def)
  moreover have "is_file sample_disk ''/w/runner/t/command''" by code_simp
  ultimately show ?thesis by blast
qed

text \<open>
  A secret file that was replaced by a link is not the file that is overwritten: the one the link
  leads to is, wherever it lies.
\<close>

theorem shredding_follows_links:
  "map_option en_content (find_entry sample_disk ''/w/notes'') = Some (Regular ''keep'')
    \<and> map_option en_content (find_entry (shred_envvars sample_env ''/w/runner/t/command'' sample_disk) ''/w/notes'') =
        Some (Regular (replicate 4 (CHR 0x00)))"
  by code_simp

end
