(* ===== verification/Scenario_Instances.thy ===== *)
theory Scenario_Instances
  imports Scenario_Networks Py_Values
begin

text \<open>
  Replicated scenarios (\<open>app/core/scenario_instances.py\<close>): the declaration of which guest and which
  network belongs to which team or user, checked against the VM manifest, the network manifest
  and the inventory. SHA-256 is a parameter; keys of the YAML inventory are texts. A failed
  requirement or model is a ValueError.
\<close>

subsection \<open>The declaration\<close>

record user_team =
  ut_id :: string
  ut_users :: "string list"

datatype row_scope = Shared | PerTeam | PerUser

record intent =
  in_teams :: "user_team list"
  in_node_scopes :: "(string \<times> row_scope) list"
  in_network_scopes :: "(string \<times> row_scope) list"

record source_row =
  sr_key :: string
  sr_source :: string
  sr_team :: "string option"
  sr_user :: "string option"

record instance_nic =
  si_index :: int
  si_key :: string
  si_network :: string

record instance_row = source_row +
  ir_vm_id :: int
  ir_hostname :: string
  ir_nics :: "instance_nic list"

record network_row = source_row +
  nr_plan :: vnet_plan

record instances =
  is_scenario :: string
  is_intent :: intent
  is_instances :: "instance_row list"
  is_networks :: "network_row list"

definition valid_identifier :: "string \<Rightarrow> bool" where
  "valid_identifier s = (1 \<le> length s \<and> length s \<le> 128 \<and> list_all (\<lambda>c. is_alnum c \<or> c \<in> set ''_.-'') s)"

definition lower_hex :: "char \<Rightarrow> bool" where
  "lower_hex c = (c \<in> set ''0123456789abcdef'')"

definition net_key :: "string \<Rightarrow> bool" where
  "net_key s = (prefix ''net-'' s \<and> length s = 68 \<and> list_all lower_hex (drop 4 s))"

definition row_key :: "string \<Rightarrow> bool" where
  "row_key s = (net_key s \<or> prefix ''vm-'' s \<and> length s = 67 \<and> list_all lower_hex (drop 3 s))"

text \<open>An object with these keys only; the fields of a strict model.\<close>

definition strict_obj :: "string list \<Rightarrow> json \<Rightarrow> dict option" where
  "strict_obj keys v = (case v of JObj d \<Rightarrow> if set (dkeys d) \<subseteq> set keys then Some d else None | _ \<Rightarrow> None)"

definition str_member :: "(string \<Rightarrow> bool) \<Rightarrow> dict \<Rightarrow> string \<Rightarrow> string option" where
  "str_member p d k = (case dget d k of Some (JStr s) \<Rightarrow> if p s then Some s else None | _ \<Rightarrow> None)"

text \<open>A field that must be there and may be null.\<close>

definition nullable_field :: "(string \<Rightarrow> bool) \<Rightarrow> dict \<Rightarrow> string \<Rightarrow> string option option" where
  "nullable_field p d k =
     (case dget d k of
        Some JNull \<Rightarrow> Some None
      | Some (JStr s) \<Rightarrow> if p s then Some (Some s) else None
      | _ \<Rightarrow> None)"

definition int_field :: "int \<Rightarrow> int \<Rightarrow> dict \<Rightarrow> string \<Rightarrow> int option" where
  "int_field lo hi d k = (case dget d k of Some (JInt i) \<Rightarrow> if lo \<le> i \<and> i \<le> hi then Some i else None | _ \<Rightarrow> None)"

definition rows_field :: "nat \<Rightarrow> nat \<Rightarrow> (json \<Rightarrow> 'a option) \<Rightarrow> dict \<Rightarrow> string \<Rightarrow> 'a list option" where
  "rows_field lo hi f d k =
     (case dget d k of
        Some (JList xs) \<Rightarrow> if lo \<le> length xs \<and> length xs \<le> hi then all_some (map f xs) else None
      | _ \<Rightarrow> None)"

definition user_of_json :: "json \<Rightarrow> string option" where
  "user_of_json v = Option.bind (strict_obj [''id''] v) (\<lambda>d. str_member valid_identifier d ''id'')"

definition team_of_json :: "json \<Rightarrow> user_team option" where
  "team_of_json v =
     Option.bind (strict_obj [''id'', ''users''] v) (\<lambda>d.
     Option.bind (str_member valid_identifier d ''id'') (\<lambda>i.
     Option.bind (rows_field 0 64 user_of_json d ''users'') (\<lambda>us. Some \<lparr>ut_id = i, ut_users = us\<rparr>)))"

definition scope_of_json :: "json \<Rightarrow> row_scope option" where
  "scope_of_json v =
     (if v = JStr ''shared'' then Some Shared else if v = JStr ''per_team'' then Some PerTeam
      else if v = JStr ''per_user'' then Some PerUser else None)"

definition scopes_field :: "nat \<Rightarrow> dict \<Rightarrow> string \<Rightarrow> (string \<times> row_scope) list option" where
  "scopes_field hi d k =
     (case dget d k of
        Some (JObj e) \<Rightarrow>
          if 1 \<le> length e \<and> length e \<le> hi \<and> list_all valid_identifier (dkeys e)
          then all_some (map (\<lambda>(n, v). map_option (Pair n) (scope_of_json v)) e) else None
      | _ \<Rightarrow> None)"

definition intent_of_json :: "json \<Rightarrow> intent option" where
  "intent_of_json v =
     Option.bind (strict_obj [''teams'', ''node_scopes'', ''network_scopes''] v) (\<lambda>d.
     Option.bind (rows_field 0 64 team_of_json d ''teams'') (\<lambda>ts.
     Option.bind (scopes_field 64 d ''node_scopes'') (\<lambda>ns.
     Option.bind (scopes_field 32 d ''network_scopes'') (\<lambda>ws.
       Some \<lparr>in_teams = ts, in_node_scopes = ns, in_network_scopes = ws\<rparr>))))"

definition identity_of_dict :: "dict \<Rightarrow> source_row option" where
  "identity_of_dict d =
     Option.bind (str_member row_key d ''instance_key'') (\<lambda>k.
     Option.bind (str_member valid_identifier d ''source_node_id'') (\<lambda>s.
     Option.bind (nullable_field valid_identifier d ''team_id'') (\<lambda>t.
     Option.bind (nullable_field valid_identifier d ''user_id'') (\<lambda>u.
       Some \<lparr>sr_key = k, sr_source = s, sr_team = t, sr_user = u\<rparr>))))"

definition identity_keys :: "string list" where
  "identity_keys = [''instance_key'', ''source_node_id'', ''team_id'', ''user_id'']"

definition instance_nic_of_json :: "json \<Rightarrow> instance_nic option" where
  "instance_nic_of_json v =
     Option.bind (strict_obj [''index'', ''nic_key'', ''network_instance_key''] v) (\<lambda>d.
     Option.bind (int_field 0 31 d ''index'') (\<lambda>i.
     Option.bind (str_member valid_identifier d ''nic_key'') (\<lambda>k.
     Option.bind (str_member net_key d ''network_instance_key'') (\<lambda>n.
       Some \<lparr>si_index = i, si_key = k, si_network = n\<rparr>))))"

definition instance_of_json :: "json \<Rightarrow> instance_row option" where
  "instance_of_json v =
     Option.bind (strict_obj (identity_keys @ [''vm_id'', ''hostname'', ''nics'']) v) (\<lambda>d.
     Option.bind (identity_of_dict d) (\<lambda>r.
     Option.bind (int_field 100 999999999 d ''vm_id'') (\<lambda>i.
     Option.bind (str_member vm_name d ''hostname'') (\<lambda>h.
     Option.bind (rows_field 1 32 instance_nic_of_json d ''nics'') (\<lambda>ns.
       Some (source_row.extend r (instance_row.fields i h ns)))))))"

text \<open>The VNet model with the name of a bridge; the address validator is the same.\<close>

definition bridge_vnet_of_dict :: "dict \<Rightarrow> vnet_plan option" where
  "bridge_vnet_of_dict d =
     Option.bind (str_member bridge_name d ''vnet'') (\<lambda>name.
     Option.bind (str_member (\<lambda>s. True) d ''subnet'') (\<lambda>subnet.
     Option.bind (if dget d ''gateway'' = None then Some None else nullable_field (\<lambda>s. True) d ''gateway'') (\<lambda>gateway.
     Option.bind (case dget d ''snat'' of Some (JBool b) \<Rightarrow> Some b | _ \<Rightarrow> None) (\<lambda>snat.
       let p = \<lparr>vn_vnet = name, vn_subnet = subnet, vn_gateway = gateway, vn_snat = snat\<rparr>
       in if valid_vnet p then Some p else None))))"

definition network_of_json :: "json \<Rightarrow> network_row option" where
  "network_of_json v =
     Option.bind (strict_obj (identity_keys @ [''vnet'', ''subnet'', ''gateway'', ''snat'']) v) (\<lambda>d.
     Option.bind (identity_of_dict d) (\<lambda>r.
     Option.bind (bridge_vnet_of_dict d) (\<lambda>p. Some (source_row.extend r (network_row.fields p)))))"

definition instances_of_json :: "json \<Rightarrow> instances option" where
  "instances_of_json v =
     Option.bind (strict_obj [''version'', ''scenario_id'', ''intent'', ''instances'', ''networks''] v) (\<lambda>d.
     Option.bind (int_field 1 1 d ''version'') (\<lambda>_.
     Option.bind (str_member valid_identifier d ''scenario_id'') (\<lambda>s.
     Option.bind (Option.bind (dget d ''intent'') intent_of_json) (\<lambda>i.
     Option.bind (rows_field 1 64 instance_of_json d ''instances'') (\<lambda>xs.
     Option.bind (rows_field 1 32 network_of_json d ''networks'') (\<lambda>ns.
       Some \<lparr>is_scenario = s, is_intent = i, is_instances = xs, is_networks = ns\<rparr>))))))"

subsection \<open>Rosters\<close>

definition cohorts_of :: "intent \<Rightarrow> row_scope \<Rightarrow> (string option \<times> string option) list" where
  "cohorts_of i s =
     (case s of
        Shared \<Rightarrow> [(None, None)]
      | PerTeam \<Rightarrow> map (\<lambda>t. (Some (ut_id t), None)) (in_teams i)
      | PerUser \<Rightarrow> concat (map (\<lambda>t. map (\<lambda>u. (Some (ut_id t), Some u)) (ut_users t)) (in_teams i)))"

definition expected_of :: "intent \<Rightarrow> (string \<times> row_scope) list \<Rightarrow> (string \<times> string option \<times> string option) list" where
  "expected_of i scopes = concat (map (\<lambda>(source, s). map (Pair source) (cohorts_of i s)) scopes)"

definition cohort_of :: "('a source_row_scheme) \<Rightarrow> string \<times> string option \<times> string option" where
  "cohort_of r = (sr_source r, sr_team r, sr_user r)"

definition opt_json :: "string option \<Rightarrow> json" where
  "opt_json x = (case x of None \<Rightarrow> JNull | Some s \<Rightarrow> JStr s)"

definition stable_key :: "hasher \<Rightarrow> string \<Rightarrow> string \<Rightarrow> ('a source_row_scheme) \<Rightarrow> string" where
  "stable_key hs kind scenario r =
     kind @ ''-'' @ hs_sha hs (json_dumps (hs_float hs) (JList [JStr scenario, JStr (sr_source r), opt_json (sr_team r), opt_json (sr_user r)]))"

definition identities :: "hasher \<Rightarrow> instances \<Rightarrow> (string \<times> row_scope) list \<Rightarrow> ('a source_row_scheme) list \<Rightarrow> string \<Rightarrow> nat \<Rightarrow> bool" where
  "identities hs doc scopes rows kind limit =
     (let expected = expected_of (is_intent doc) scopes in
      list_all (\<lambda>(source, s). cohorts_of (is_intent doc) s \<noteq> []) scopes
      \<and> card (set expected) \<le> limit
      \<and> distinct (map cohort_of rows) \<and> set (map cohort_of rows) = set expected
      \<and> list_all (\<lambda>r. sr_key r = stable_key hs kind (is_scenario doc) r) rows)"

subsection \<open>The inventory\<close>

text \<open>A group at a depth of at most sixteen; \<open>d.get(k, {})\<close> must be an object.\<close>

definition sub_object :: "dict \<Rightarrow> string \<Rightarrow> dict res" where
  "sub_object d k = (case dget d k of None \<Rightarrow> Inr [] | Some v \<Rightarrow> of_opt ValueError (as_obj v))"

definition add_host :: "nat \<Rightarrow> (string \<times> dict) list \<Rightarrow> string \<times> json \<Rightarrow> (string \<times> dict) list res" where
  "add_host limit hosts = (\<lambda>(name, v).
     bindE (of_opt ValueError (as_obj v)) (\<lambda>values.
       if name \<in> set (map fst hosts) \<or> limit < Suc (length hosts) then Inl ValueError else Inr (hosts @ [(name, values)])))"

primrec visit_group :: "nat \<Rightarrow> nat \<Rightarrow> (string \<times> dict) list \<Rightarrow> json \<Rightarrow> (string \<times> dict) list res" where
  "visit_group 0 = (\<lambda>limit hosts group. Inl ValueError)"
| "visit_group (Suc n) = (\<lambda>limit hosts group.
     bindE (of_opt ValueError (as_obj group)) (\<lambda>d.
     bindE (sub_object d ''hosts'') (\<lambda>entries.
     bindE (sub_object d ''children'') (\<lambda>children.
     bindE (foldE (add_host limit) hosts entries) (\<lambda>hosts.
       foldE (visit_group n limit) hosts (map snd children))))))"

definition inventory_hosts :: "nat \<Rightarrow> dict \<Rightarrow> (string \<times> dict) list res" where
  "inventory_hosts limit inventory = foldE (visit_group 17 limit) [] (map snd inventory)"

definition get_object :: "dict \<Rightarrow> string \<Rightarrow> dict res" where
  "get_object d k = (case dget d k of None \<Rightarrow> Inr [] | Some v \<Rightarrow> of_opt AttributeError (as_obj v))"

definition guest_ok :: "(string \<times> dict) list \<Rightarrow> dict \<Rightarrow> bool" where
  "guest_ok guests vm =
     (case jget vm ''vm_name'' of
        JStr name \<Rightarrow>
          (case map_of guests name of
             None \<Rightarrow> False
           | Some g \<Rightarrow>
               (case ipv4_of_json (jget vm ''ip'') of None \<Rightarrow> False | Some a \<Rightarrow> jget g ''ansible_host'' = JStr (ip_str a))
               \<and> (case jget vm ''cloud_init'' of JObj c \<Rightarrow> jget g ''ansible_user'' = jget c ''ssh_user'' | _ \<Rightarrow> True))
      | _ \<Rightarrow> False)"

definition validate_vm_inventory :: "dict \<Rightarrow> dict \<Rightarrow> unit res" where
  "validate_vm_inventory manifest inventory =
     (if \<not> json_eq_int (jget manifest ''version'') 3 then Inr ()
      else bindE (item manifest ''vms'') (\<lambda>v.
           bindE (iter_json v) (\<lambda>vms.
           bindE (assertE (list_all vm_model vms) ValueError) (\<lambda>_.
           bindE (inventory_hosts (length vms + 2) inventory) (\<lambda>hosts.
           bindE (get_object inventory ''all'') (\<lambda>all_group.
           bindE (get_object all_group ''children'') (\<lambda>children.
           bindE (get_object children ''scenario_guests'') (\<lambda>group.
           bindE (sub_object group ''hosts'') (\<lambda>entries.
           bindE (mapE (\<lambda>(name, v). bindE (of_opt AttributeError (as_obj v)) (\<lambda>g. Inr (name, g))) entries) (\<lambda>guests.
             let ds = List.map_filter as_obj vms; names = set (map (\<lambda>d. jget d ''vm_name'') ds) in
             assertE (set (map (JStr \<circ> fst) guests) = names
                      \<and> set (map (JStr \<circ> fst) hosts) - {JStr ''r42-proxmox'', JStr ''r42-proxmox-cli''} = names
                      \<and> list_all (guest_ok guests) ds) ValueError))))))))))"

subsection \<open>Guests against their networks\<close>

definition network_net :: "network_row \<Rightarrow> ipnet" where
  "network_net n = (case parse_network (vn_subnet (nr_plan n)) of Some x \<Rightarrow> x | None \<Rightarrow> \<lparr>net_base = 0, net_plen = 0\<rparr>)"

definition network_for :: "network_row list \<Rightarrow> string \<Rightarrow> network_row option" where
  "network_for ns key = List.find (\<lambda>n. sr_key n = key) (rev ns)"

text \<open>An instance may be on a network of its own team and user, or on one that is shared.\<close>

definition admits :: "network_row \<Rightarrow> instance_row \<Rightarrow> bool" where
  "admits n i = ((sr_team n = None \<or> sr_team n = sr_team i) \<and> (sr_user n = None \<or> sr_user n = sr_user i))"

text \<open>An interface of an instance against the interface that the VM manifest declares.\<close>

definition link_ok :: "instance_row \<Rightarrow> instance_nic \<Rightarrow> dict \<Rightarrow> network_row \<Rightarrow> bool" where
  "link_ok i nic literal n =
     (admits n i \<and> jget literal ''bridge'' = JStr (vn_vnet (nr_plan n))
      \<and> jget literal ''prefix'' = JInt (int (net_plen (network_net n)))
      \<and> (case ipv4_of_json (jget literal ''ip'') of
           None \<Rightarrow> False
         | Some a \<Rightarrow> usable_in a (network_net n) \<and> Some (ip_str a) \<noteq> vn_gateway (nr_plan n))
      \<and> (if jget literal ''gateway'' = JNull then None else ipv4_of_json (jget literal ''gateway'')) =
          (if si_index nic = 0 then Option.bind (vn_gateway (nr_plan n)) parse_ipv4 else None))"

definition source_link :: "network_row list \<Rightarrow> instance_row \<Rightarrow> instance_nic \<times> dict \<Rightarrow> (int \<times> string \<times> string) option" where
  "source_link ns i = (\<lambda>(nic, literal).
     case network_for ns (si_network nic) of
       None \<Rightarrow> None
     | Some n \<Rightarrow> if link_ok i nic literal n then Some (si_index nic, si_key nic, sr_source n) else None)"

definition vm_with_id :: "dict list \<Rightarrow> int \<Rightarrow> dict option" where
  "vm_with_id vms i = List.find (\<lambda>d. jget d ''vm_id'' = JInt i) vms"

definition instance_links :: "network_row list \<Rightarrow> dict list \<Rightarrow> instance_row \<Rightarrow> (int \<times> string \<times> string) list option" where
  "instance_links ns vms i =
     (case vm_with_id vms (ir_vm_id i) of
        None \<Rightarrow> None
      | Some vm \<Rightarrow>
          if jget vm ''vm_name'' = JStr (ir_hostname i)
             \<and> map si_index (ir_nics i) = map int [0..<length (nics_of vm)] \<and> distinct (map si_key (ir_nics i))
          then all_some (map (source_link ns i) (zip (ir_nics i) (nics_of vm))) else None)"

text \<open>Every replica of a source has the links of the first one.\<close>

definition same_links :: "(string \<times> (int \<times> string \<times> string) list) list \<Rightarrow> bool" where
  "same_links rows = list_all (\<lambda>(s, links). map_of rows s = Some links) rows"

definition instances_linked :: "network_row list \<Rightarrow> dict list \<Rightarrow> instance_row list \<Rightarrow> bool" where
  "instances_linked ns vms is =
     (case all_some (map (\<lambda>i. map_option (Pair (sr_source i)) (instance_links ns vms i)) is) of
        None \<Rightarrow> False
      | Some rows \<Rightarrow> same_links rows)"

definition networks_declared :: "network_row list \<Rightarrow> dict \<Rightarrow> bool" where
  "networks_declared ns manifest =
     (case plan_of_json (JObj manifest) of
        Some (Sdn p) \<Rightarrow> sort_key vn_vnet (map nr_plan ns) = sort_key vn_vnet (sp_vnets p)
      | Some (Bridges bs) \<Rightarrow>
          length bs = length ns \<and> set bs = set (map (vn_vnet \<circ> nr_plan) ns) \<and> list_all (\<lambda>n. \<not> vn_snat (nr_plan n)) ns
      | None \<Rightarrow> False)"

definition rosters_ok :: "instances \<Rightarrow> bool" where
  "rosters_ok doc =
     (let teams = in_teams (is_intent doc) in
      sum_list (map (\<lambda>t. length (ut_users t)) teams) \<le> 64
      \<and> distinct (map ut_id teams) \<and> list_all (\<lambda>t. distinct (ut_users t)) teams
      \<and> set (map fst (in_node_scopes (is_intent doc))) \<inter> set (map fst (in_network_scopes (is_intent doc))) = {})"

definition validate_scenario_instances :: "hasher \<Rightarrow> json \<Rightarrow> dict \<Rightarrow> json \<Rightarrow> dict \<Rightarrow> unit res" where
  "validate_scenario_instances hs document manifest network_manifest inventory =
     bindE (of_opt ValueError (as_obj network_manifest)) (\<lambda>networks.
     bindE (of_opt ValueError (instances_of_json document)) (\<lambda>doc.
     bindE (assertE (rosters_ok doc) ValueError) (\<lambda>_.
     bindE (assertE (identities hs doc (in_node_scopes (is_intent doc)) (is_instances doc) ''vm'' 64
              \<and> identities hs doc (in_network_scopes (is_intent doc)) (is_networks doc) ''net'' 32
              \<and> sum_list (map (\<lambda>i. length (ir_nics i)) (is_instances doc)) \<le> 256
              \<and> json_eq_int (jget manifest ''version'') 3) ValueError) (\<lambda>_.
     bindE (validate_vm_manifest (JObj manifest)) (\<lambda>_.
     bindE (item manifest ''vms'') (\<lambda>v.
     bindE (iter_json v) (\<lambda>rows.
     bindE (assertE (list_all vm_model rows) ValueError) (\<lambda>_.
     let vms = List.map_filter as_obj rows; ns = is_networks doc in
     bindE (assertE (distinct (map (\<lambda>d. jget d ''vm_id'') vms) \<and> length vms = length (is_instances doc)
              \<and> set (map (JInt \<circ> ir_vm_id) (is_instances doc)) = set (map (\<lambda>d. jget d ''vm_id'') vms)
              \<and> distinct (map (vn_vnet \<circ> nr_plan) ns) \<and> pairwise_disjoint (map network_net ns)
              \<and> networks_declared ns networks \<and> instances_linked ns vms (is_instances doc)) ValueError) (\<lambda>_.
       validate_vm_inventory manifest inventory)))))))))"

text \<open>The declaration is optional; \<open>Some None\<close> is a path that is no regular file inside its scenario, or a link.\<close>

definition read_document :: "manifest_file option \<Rightarrow> json res" where
  "read_document f =
     bindE (of_opt ValueError f) (\<lambda>m.
     bindE (assertE (mf_inside m \<and> mf_size m \<le> 262144) ValueError) (\<lambda>_.
       of_opt ValueError (json_loads (mf_text m))))"

definition validate_instance_files :: "hasher \<Rightarrow> manifest_file option option \<Rightarrow> dict \<Rightarrow> manifest_file option \<Rightarrow> dict \<Rightarrow> unit res" where
  "validate_instance_files hs declaration manifest networks inventory =
     (case declaration of
        None \<Rightarrow> Inr ()
      | Some f \<Rightarrow>
          bindE (read_document f) (\<lambda>document.
          bindE (read_document networks) (\<lambda>network_manifest.
            validate_scenario_instances hs document manifest network_manifest inventory)))"

subsection \<open>Teams stay apart\<close>

lemma all_some_nth: "all_some xs = Some ys \<Longrightarrow> xs = map Some ys"
  by (induction xs arbitrary: ys) (auto split: option.splits)

definition declared_vms :: "dict \<Rightarrow> dict list" where
  "declared_vms manifest = (case jget manifest ''vms'' of JList xs \<Rightarrow> List.map_filter as_obj xs | _ \<Rightarrow> [])"

text \<open>The interfaces of an instance's guest, and the network each of them is on.\<close>

definition interfaces :: "dict list \<Rightarrow> instance_row \<Rightarrow> dict list" where
  "interfaces vms i = (case vm_with_id vms (ir_vm_id i) of None \<Rightarrow> [] | Some vm \<Rightarrow> nics_of vm)"

definition placed_in :: "network_row \<Rightarrow> dict \<Rightarrow> bool" where
  "placed_in n literal =
     (jget literal ''bridge'' = JStr (vn_vnet (nr_plan n))
      \<and> (case ipv4_of_json (jget literal ''ip'') of
           None \<Rightarrow> False
         | Some a \<Rightarrow> usable_in a (network_net n) \<and> Some (ip_str a) \<noteq> vn_gateway (nr_plan n)))"

definition well_placed :: "network_row list \<Rightarrow> dict list \<Rightarrow> instance_row \<Rightarrow> bool" where
  "well_placed ns vms i =
     (vm_with_id vms (ir_vm_id i) \<noteq> None \<and> interfaces vms i \<noteq> []
      \<and> list_all (\<lambda>literal. list_ex (\<lambda>n. admits n i \<and> placed_in n literal) ns) (interfaces vms i))"

definition apart_in :: "network_row list \<Rightarrow> dict list \<Rightarrow> instance_row \<Rightarrow> instance_row \<Rightarrow> bool" where
  "apart_in ns vms i j =
     list_all (\<lambda>x. list_all (\<lambda>y. jget x ''bridge'' \<noteq> jget y ''bridge''
       \<or> list_ex (\<lambda>n. jget x ''bridge'' = JStr (vn_vnet (nr_plan n))
            \<and> (sr_team n = None \<or> sr_team i = sr_team j) \<and> (sr_user n = None \<or> sr_user i = sr_user j)) ns)
       (interfaces vms j)) (interfaces vms i)"

lemma network_for_in: "network_for ns k = Some n \<Longrightarrow> n \<in> set ns"
  by (auto simp: network_for_def find_Some_iff in_set_conv_nth) (metis diff_less_Suc in_set_conv_nth length_rev nth_mem set_rev)

lemma linked_well_placed:
  assumes "instance_links ns vms i = Some links" and "ir_nics i \<noteq> []"
  shows "well_placed ns vms i"
proof -
  obtain vm where vm: "vm_with_id vms (ir_vm_id i) = Some vm"
    using assms(1) by (auto simp: instance_links_def split: option.splits)
  have idx: "map si_index (ir_nics i) = map int [0..<length (nics_of vm)]"
    and all: "all_some (map (source_link ns i) (zip (ir_nics i) (nics_of vm))) = Some links"
    using assms(1) vm by (auto simp: instance_links_def split: if_splits)
  have len: "length (ir_nics i) = length (nics_of vm)" using arg_cong [OF idx, of length] by simp
  have "list_ex (\<lambda>n. admits n i \<and> placed_in n x) ns" if x: "x \<in> set (nics_of vm)" for x
  proof -
    obtain k where k: "k < length (nics_of vm)" "x = nics_of vm ! k" using x by (metis in_set_conv_nth)
    have "source_link ns i (ir_nics i ! k, x) = Some (links ! k)"
      using arg_cong [OF all_some_nth [OF all], of "\<lambda>ys. ys ! k"] k len arg_cong [OF all_some_nth [OF all], of length] by simp
    then obtain n where "network_for ns (si_network (ir_nics i ! k)) = Some n" "link_ok i (ir_nics i ! k) x n"
      by (auto simp: source_link_def split: option.splits if_splits)
    then show ?thesis using network_for_in by (auto simp: list_ex_iff link_ok_def placed_in_def split: option.splits)
  qed
  then show ?thesis using vm len assms(2) by (auto simp: well_placed_def interfaces_def list_all_iff)
qed

lemma placed_apart:
  assumes "well_placed ns vms i" and "well_placed ns vms j" and "distinct (map (vn_vnet \<circ> nr_plan) ns)"
  shows "apart_in ns vms i j"
proof -
  have "\<exists>n\<in>set ns. jget x ''bridge'' = JStr (vn_vnet (nr_plan n)) \<and> (sr_team n = None \<or> sr_team i = sr_team j) \<and> (sr_user n = None \<or> sr_user i = sr_user j)"
    if xy: "x \<in> set (interfaces vms i)" "y \<in> set (interfaces vms j)" "jget x ''bridge'' = jget y ''bridge''" for x y
  proof -
    obtain n where n: "n \<in> set ns" "admits n i" "placed_in n x"
      using assms(1) xy(1) by (auto simp: well_placed_def list_all_iff list_ex_iff dest!: bspec)
    obtain m where m: "m \<in> set ns" "admits m j" "placed_in m y"
      using assms(2) xy(2) by (auto simp: well_placed_def list_all_iff list_ex_iff dest!: bspec)
    from n m have "n = m" using xy(3) assms(3) by (auto simp: placed_in_def distinct_map inj_on_def)
    then show ?thesis using n m by (auto simp: admits_def placed_in_def)
  qed
  then show ?thesis by (auto simp: apart_in_def list_all_iff list_ex_iff)
qed

lemma linked_instance:
  assumes "instances_linked ns vms is" and "i \<in> set is"
  shows "\<exists>links. instance_links ns vms i = Some links"
proof -
  obtain rows where rows: "map (\<lambda>i. map_option (Pair (sr_source i)) (instance_links ns vms i)) is = map Some rows"
    using assms(1) by (auto simp: instances_linked_def dest: all_some_nth split: option.splits)
  obtain k where "k < length is" "i = is ! k" using assms(2) by (metis in_set_conv_nth)
  then show ?thesis using arg_cong [OF rows, of "\<lambda>xs. xs ! k"] arg_cong [OF rows, of length] by auto
qed

lemma rows_fieldD:
  assumes "rows_field lo hi f d k = Some ys"
  shows "lo \<le> length ys" and "y \<in> set ys \<Longrightarrow> \<exists>v. f v = Some y"
proof -
  obtain xs where xs: "lo \<le> length xs" "all_some (map f xs) = Some ys"
    using assms by (auto simp: rows_field_def split: option.splits json.splits if_splits)
  have m: "map f xs = map Some ys" using all_some_nth [OF xs(2)] .
  show "lo \<le> length ys" using xs(1) arg_cong [OF m, of length] by simp
  show "\<exists>v. f v = Some y" if y: "y \<in> set ys"
  proof -
    have "Some y \<in> set (map f xs)" unfolding m using y by simp
    then show ?thesis by auto
  qed
qed

lemma instance_has_nics:
  assumes "instances_of_json document = Some doc" and "i \<in> set (is_instances doc)"
  shows "ir_nics i \<noteq> []"
proof -
  obtain d where d: "rows_field 1 64 instance_of_json d ''instances'' = Some (is_instances doc)"
    using assms(1) by (auto simp: instances_of_json_def bind_eq_Some_conv)
  obtain v where "instance_of_json v = Some i" using rows_fieldD(2) [OF d assms(2)] by auto
  then obtain e k h r ns where ns: "rows_field 1 32 instance_nic_of_json e ''nics'' = Some ns" and i: "i = source_row.extend r (instance_row.fields k h ns)"
    by (auto simp: instance_of_json_def bind_eq_Some_conv)
  have "1 \<le> length ns" using rows_fieldD(1) [OF ns] .
  moreover have "ir_nics i = ns" unfolding i by (simp add: source_row.defs instance_row.defs)
  ultimately show ?thesis by auto
qed

lemma validate_keeps: "validate_vm_manifest (JObj m) = Inr d \<Longrightarrow> d = m"
  by (auto simp: validate_vm_manifest_def res_simps split: json.splits if_splits)

lemma v3_validated:
  assumes "validate_vm_manifest (JObj m) = Inr d" and "json_eq_int (jget m ''version'') 3"
  shows "\<exists>rows. dget m ''vms'' = Some (JList rows) \<and> v3_plan_ok (List.map_filter as_obj rows)"
proof -
  have "\<not> is_version (case dget m ''version'' of None \<Rightarrow> JInt 2 | Some v \<Rightarrow> v)"
    using assms(2) by (cases "jget m ''version''") (auto simp: is_version_def jget_def split: option.splits if_splits)
  then show ?thesis
    using assms(1) by (auto simp: validate_vm_manifest_def res_simps jget_def split: json.splits option.splits)
qed

lemma validated:
  assumes "validate_scenario_instances hs document manifest network_manifest inventory = Inr ()" and "instances_of_json document = Some doc"
  shows "identities hs doc (in_node_scopes (is_intent doc)) (is_instances doc) ''vm'' 64"
    and "instances_linked (is_networks doc) (declared_vms manifest) (is_instances doc)"
    and "distinct (map (vn_vnet \<circ> nr_plan) (is_networks doc))" and "distinct (nic_addresses (declared_vms manifest))"
proof -
  obtain v rows where r: "json_eq_int (jget manifest ''version'') 3" "validate_vm_manifest (JObj manifest) = Inr manifest"
      "item manifest ''vms'' = Inr v" "iter_json v = Inr rows" "list_all vm_model rows"
    and ok: "identities hs doc (in_node_scopes (is_intent doc)) (is_instances doc) ''vm'' 64"
      "distinct (map (vn_vnet \<circ> nr_plan) (is_networks doc))" "instances_linked (is_networks doc) (List.map_filter as_obj rows) (is_instances doc)"
    using assms by (auto simp: validate_scenario_instances_def res_simps Let_def dest: validate_keeps)
  have rows: "jget manifest ''vms'' = JList rows" and plan: "v3_plan_ok (List.map_filter as_obj rows)"
    using v3_validated [OF r(2,1)] r(3,4) by (auto simp: item_def jget_def res_simps)
  have "declared_vms manifest = List.map_filter as_obj rows" by (simp add: declared_vms_def rows)
  moreover have "distinct (nic_addresses (List.map_filter as_obj rows))" using plan by (simp add: v3_plan_ok_def)
  ultimately show "identities hs doc (in_node_scopes (is_intent doc)) (is_instances doc) ''vm'' 64"
    "instances_linked (is_networks doc) (declared_vms manifest) (is_instances doc)"
    "distinct (map (vn_vnet \<circ> nr_plan) (is_networks doc))" "distinct (nic_addresses (declared_vms manifest))"
    using ok by simp_all
qed

text \<open>C38: in a replicated scenario that is valid, every node source has exactly one instance for each cohort
  of its scope and no others; every interface of an instance's guest is in a declared network of its
  own team and user or a shared one, at a guest address of that network that is not its gateway and that no other interface
  on the bridge has; and two instances are on one bridge only when its network is not of a
  single team or user, or that is the team or user of both.\<close>

theorem cohorts_isolated:
  assumes "validate_scenario_instances hs document manifest network_manifest inventory = Inr ()" and "instances_of_json document = Some doc"
  shows "distinct (map cohort_of (is_instances doc))
    \<and> set (map cohort_of (is_instances doc)) = set (expected_of (is_intent doc) (in_node_scopes (is_intent doc)))
    \<and> list_all (well_placed (is_networks doc) (declared_vms manifest)) (is_instances doc)
    \<and> distinct (nic_addresses (declared_vms manifest))
    \<and> list_all (\<lambda>i. list_all (apart_in (is_networks doc) (declared_vms manifest) i) (is_instances doc)) (is_instances doc)"
proof -
  note v = validated [OF assms]
  have "well_placed (is_networks doc) (declared_vms manifest) i" if "i \<in> set (is_instances doc)" for i
    using linked_instance [OF v(2) that] instance_has_nics [OF assms(2) that] linked_well_placed by blast
  then show ?thesis using v placed_apart by (simp add: identities_def Let_def list_all_iff)
qed

definition sample_hasher :: hasher where
  "sample_hasher = \<lparr>hs_sha = (\<lambda>s. replicate 64 (if length s = 25 then CHR ''a'' else CHR ''b'')), hs_float = (\<lambda>_. [])\<rparr>"

definition sample_cohort :: "string \<Rightarrow> string \<Rightarrow> string \<Rightarrow> dict" where
  "sample_cohort kind source team =
     [(''instance_key'', JStr (kind @ ''-'' @ replicate 64 (if team = ''red'' then CHR ''a'' else CHR ''b''))),
      (''source_node_id'', JStr source), (''team_id'', JStr team), (''user_id'', JNull)]"

definition sample_instance :: "string \<Rightarrow> int \<Rightarrow> json" where
  "sample_instance team i = JObj (sample_cohort ''vm'' ''web'' team
     @ [(''vm_id'', JInt i), (''hostname'', JStr (''web-'' @ team)),
        (''nics'', JList [JObj [(''index'', JInt 0), (''nic_key'', JStr ''n0''), (''network_instance_key'', jget (sample_cohort ''net'' ''lan'' team) ''instance_key'')]])])"

definition sample_network :: "string \<Rightarrow> string \<Rightarrow> json" where
  "sample_network team subnet = JObj (sample_cohort ''net'' ''lan'' team
     @ [(''vnet'', JStr team), (''subnet'', JStr (subnet @ ''.0/24'')), (''gateway'', JStr (subnet @ ''.1'')), (''snat'', JBool True)])"

definition sample_declaration :: json where
  "sample_declaration = JObj [(''version'', JInt 1), (''scenario_id'', JStr ''demo''),
     (''intent'', JObj [(''teams'', JList [JObj [(''id'', JStr ''red''), (''users'', JList [])], JObj [(''id'', JStr ''blue''), (''users'', JList [])]]),
        (''node_scopes'', JObj [(''web'', JStr ''per_team'')]), (''network_scopes'', JObj [(''lan'', JStr ''per_team'')])]),
     (''instances'', JList [sample_instance ''red'' 200, sample_instance ''blue'' 201]),
     (''networks'', JList [sample_network ''red'' ''10.0.1'', sample_network ''blue'' ''10.0.2''])]"

definition sample_vm :: "string \<Rightarrow> int \<Rightarrow> string \<Rightarrow> json" where
  "sample_vm team i subnet = JObj [(''vm_id'', JInt i), (''vm_name'', JStr (''web-'' @ team)), (''ip'', JStr (subnet @ ''.10'')), (''bridge'', JStr team),
     (''nics'', JList [JObj [(''index'', JInt 0), (''bridge'', JStr team), (''ip'', JStr (subnet @ ''.10'')), (''prefix'', JInt 24), (''gateway'', JStr (subnet @ ''.1''))]])]"

definition sample_vm_manifest :: dict where
  "sample_vm_manifest = [(''version'', JInt 3), (''vms'', JList [sample_vm ''red'' 200 ''10.0.1'', sample_vm ''blue'' 201 ''10.0.2''])]"

definition sample_networks :: json where
  "sample_networks = JObj [(''mode'', JStr ''sdn''), (''zone'', JStr ''lab''),
     (''vnets'', JList (map (\<lambda>(t, s). JObj [(''vnet'', JStr t), (''subnet'', JStr (s @ ''.0/24'')), (''gateway'', JStr (s @ ''.1'')), (''snat'', JBool True)])
        [(''red'', ''10.0.1''), (''blue'', ''10.0.2'')]))]"

definition sample_inventory :: dict where
  "sample_inventory = [(''all'', JObj [(''children'', JObj [(''scenario_guests'', JObj [(''hosts'', JObj
     [(''web-red'', JObj [(''ansible_host'', JStr ''10.0.1.10'')]), (''web-blue'', JObj [(''ansible_host'', JStr ''10.0.2.10'')])])])])])]"

definition sample_row :: "string \<Rightarrow> string \<Rightarrow> string \<Rightarrow> source_row" where
  "sample_row kind source team = \<lparr>sr_key = kind @ ''-'' @ replicate 64 (if team = ''red'' then CHR ''a'' else CHR ''b''),
     sr_source = source, sr_team = Some team, sr_user = None\<rparr>"

lemma hex_keys: "lower_hex (CHR ''a'')" "lower_hex (CHR ''b'')" by code_simp+

lemma sample_keys:
  "row_key (''vm-'' @ replicate 64 (if b then CHR ''a'' else CHR ''b''))" "net_key (''net-'' @ replicate 64 (if b then CHR ''a'' else CHR ''b''))"
  "row_key (''net-'' @ replicate 64 (if b then CHR ''a'' else CHR ''b''))"
  using hex_keys by (simp_all add: row_key_def net_key_def list_all_iff)

lemma sample_names: "valid_identifier ''red''" "valid_identifier ''blue''" "valid_identifier ''web''" "valid_identifier ''lan''" "valid_identifier ''n0''" "valid_identifier ''demo''"
  "vm_name ''web-red''" "vm_name ''web-blue''" "bridge_name ''red''" "bridge_name ''blue''"
  by code_simp+

definition sample_plan_of :: "string \<Rightarrow> string \<Rightarrow> vnet_plan" where
  "sample_plan_of team subnet = \<lparr>vn_vnet = team, vn_subnet = subnet @ ''.0/24'', vn_gateway = Some (subnet @ ''.1''), vn_snat = True\<rparr>"

definition sample_instances :: instances where
  "sample_instances = \<lparr>is_scenario = ''demo'',
     is_intent = \<lparr>in_teams = [\<lparr>ut_id = ''red'', ut_users = []\<rparr>, \<lparr>ut_id = ''blue'', ut_users = []\<rparr>],
       in_node_scopes = [(''web'', PerTeam)], in_network_scopes = [(''lan'', PerTeam)]\<rparr>,
     is_instances = map (\<lambda>(t, i). source_row.extend (sample_row ''vm'' ''web'' t)
         (instance_row.fields i (''web-'' @ t) [\<lparr>si_index = 0, si_key = ''n0'', si_network = sr_key (sample_row ''net'' ''lan'' t)\<rparr>]))
       [(''red'', 200), (''blue'', 201)],
     is_networks = map (\<lambda>(t, s). source_row.extend (sample_row ''net'' ''lan'' t) (network_row.fields (sample_plan_of t s)))
       [(''red'', ''10.0.1''), (''blue'', ''10.0.2'')]\<rparr>"

lemma sample_ips:
  "parse_ipv4 ''10.0.1.1'' = Some 167772417" "parse_ipv4 ''10.0.2.1'' = Some 167772673"
  "parse_ipv4 ''10.0.1.10'' = Some 167772426" "parse_ipv4 ''10.0.2.10'' = Some 167772682"
  "ip_str 167772426 = ''10.0.1.10''" "ip_str 167772682 = ''10.0.2.10''"
  by (simp_all add: ip_eval ip_str_def nat_str.simps digit_char_def)

lemma sample_nets:
  "parse_network ''10.0.1.0/24'' = Some \<lparr>net_base = 167772416, net_plen = 24\<rparr>"
  "parse_network ''10.0.2.0/24'' = Some \<lparr>net_base = 167772672, net_plen = 24\<rparr>"
  by (simp_all add: parse_network_def parse_addr_prefix_def parse_prefix_def ip_eval)

lemmas address_defs = sample_ips sample_nets usable_in_def in_net_def net_broadcast_def net_size_def

lemma sample_vnets: "valid_vnet (sample_plan_of ''red'' ''10.0.1'')" "valid_vnet (sample_plan_of ''blue'' ''10.0.2'')"
  by (simp_all add: valid_vnet_def sample_plan_of_def address_defs)

lemma sample_parsed: "instances_of_json sample_declaration = Some sample_instances"
  using sample_keys [of True, simplified] sample_keys [of False, simplified] sample_vnets
  by (simp add: sample_declaration_def sample_instances_def sample_instance_def sample_network_def sample_cohort_def sample_row_def sample_plan_of_def
      instances_of_json_def intent_of_json_def team_of_json_def scopes_field_def scope_of_json_def rows_field_def instance_of_json_def
      instance_nic_of_json_def network_of_json_def bridge_vnet_of_dict_def identity_of_dict_def str_member_def nullable_field_def int_field_def
      strict_obj_def identity_keys_def dkeys_def jget_def sample_names source_row.defs instance_row.defs network_row.defs)

lemma sample_identities:
  "identities sample_hasher sample_instances [(''web'', PerTeam)] (is_instances sample_instances) ''vm'' 64"
  "identities sample_hasher sample_instances [(''lan'', PerTeam)] (is_networks sample_instances) ''net'' 32"
proof -
  have "length (json_dumps (\<lambda>_. []) (JList [JStr ''demo'', JStr s, JStr ''red'', JNull])) = 25"
    and "length (json_dumps (\<lambda>_. []) (JList [JStr ''demo'', JStr s, JStr ''blue'', JNull])) = 26" if "s = ''web'' \<or> s = ''lan''" for s
    using that by (auto simp: dumps_str_def esc_char_def)
  then show "identities sample_hasher sample_instances [(''web'', PerTeam)] (is_instances sample_instances) ''vm'' 64"
    "identities sample_hasher sample_instances [(''lan'', PerTeam)] (is_networks sample_instances) ''net'' 32"
    by (simp_all add: identities_def expected_of_def cohorts_of_def sample_instances_def sample_row_def cohort_of_def stable_key_def sample_hasher_def
        opt_json_def source_row.defs instance_row.defs network_row.defs Let_def insert_commute)
qed

definition sample_vm_dict :: "string \<Rightarrow> int \<Rightarrow> string \<Rightarrow> dict" where
  "sample_vm_dict team i subnet = (case sample_vm team i subnet of JObj d \<Rightarrow> d)"

lemma sample_vm_models: "vm_model (sample_vm ''red'' 200 ''10.0.1'')" "vm_model (sample_vm ''blue'' 201 ''10.0.2'')"
proof -
  have "valid_bridge ''red''" "valid_bridge ''blue''" by code_simp+
  then show "vm_model (sample_vm ''red'' 200 ''10.0.1'')" "vm_model (sample_vm ''blue'' 201 ''10.0.2'')"
    using sample_names
    by (simp_all add: vm_model_def sample_vm_def overrides_model_def optional_field_def jget_def vmid_value_def int_between_def str_matching_def
        is_ipv4_def bridge_value_def nic_model_def management_nic_def nics_of_def Let_def sample_ips List.map_filter_def)
qed

lemma sample_vms: "List.map_filter as_obj [sample_vm ''red'' 200 ''10.0.1'', sample_vm ''blue'' 201 ''10.0.2'']
    = [sample_vm_dict ''red'' 200 ''10.0.1'', sample_vm_dict ''blue'' 201 ''10.0.2'']"
  by (simp add: sample_vm_dict_def sample_vm_def List.map_filter_def)

lemmas vm_defs = sample_vm_dict_def sample_vm_def jget_def nics_of_def List.map_filter_def

lemma sample_manifest_ok: "validate_vm_manifest (JObj sample_vm_manifest) = Inr sample_vm_manifest"
proof -
  have "v3_plan_ok [sample_vm_dict ''red'' 200 ''10.0.1'', sample_vm_dict ''blue'' 201 ''10.0.2'']"
    by (simp add: v3_plan_ok_def vm_ids_def nic_addresses_def vm_defs sample_ips)
  moreover have "declares k (sample_vm t i s) = (k \<in> {''vm_id'', ''vm_name'', ''ip'', ''bridge'', ''nics''})" for k t i s
    by (auto simp: declares_def sample_vm_def)
  ultimately show ?thesis
    using sample_vm_models sample_vms
    by (simp add: validate_vm_manifest_def sample_vm_manifest_def preferences_guard_def Let_def jget_def is_version_def assertE_def)
qed

lemma visit_numeral:
  "visit_group (numeral k) = (\<lambda>limit hosts group.
     bindE (of_opt ValueError (as_obj group)) (\<lambda>d.
     bindE (sub_object d ''hosts'') (\<lambda>entries.
     bindE (sub_object d ''children'') (\<lambda>children.
     bindE (foldE (add_host limit) hosts entries) (\<lambda>hosts.
       foldE (visit_group (pred_numeral k) limit) hosts (map snd children))))))"
  by (simp add: numeral_eq_Suc)

lemma sample_inventory_ok: "validate_vm_inventory sample_vm_manifest sample_inventory = Inr ()"
  using sample_vm_models sample_vms
  by (simp add: validate_vm_inventory_def sample_vm_manifest_def sample_inventory_def jget_def item_def inventory_hosts_def visit_numeral
      get_object_def sub_object_def add_host_def Let_def assertE_def guest_ok_def sample_vm_dict_def sample_vm_def sample_ips)

lemma sample_linked:
  "instances_linked (is_networks sample_instances) [sample_vm_dict ''red'' 200 ''10.0.1'', sample_vm_dict ''blue'' 201 ''10.0.2''] (is_instances sample_instances)"
  by (simp add: instances_linked_def same_links_def instance_links_def vm_with_id_def source_link_def network_for_def link_ok_def admits_def
      network_net_def sample_instances_def sample_row_def sample_plan_of_def source_row.defs instance_row.defs network_row.defs vm_defs address_defs)

lemma sample_networks_declared:
  "networks_declared (is_networks sample_instances) (case sample_networks of JObj d \<Rightarrow> d)"
proof -
  have names: "sdn_name ''red''" "sdn_name ''blue''" "sdn_name ''lab''" by code_simp+
  have "plan_of_json sample_networks = Some (Sdn \<lparr>sp_zone = ''lab'', sp_vnets = [sample_plan_of ''red'' ''10.0.1'', sample_plan_of ''blue'' ''10.0.2'']\<rparr>)"
    using sample_vnets
    by (simp add: sample_networks_def plan_of_json_def vnet_of_json_def jget_def dkeys_def names unique_networks_def sample_plan_of_def
        nets_overlap_def address_defs)
  then show ?thesis
    by (simp add: networks_declared_def sample_networks_def sample_instances_def network_row.defs source_row.defs sample_plan_of_def)
qed

lemma sample_validated:
  "validate_scenario_instances sample_hasher sample_declaration sample_vm_manifest sample_networks sample_inventory = Inr ()"
proof -
  have i: "is_intent sample_instances = \<lparr>in_teams = [\<lparr>ut_id = ''red'', ut_users = []\<rparr>, \<lparr>ut_id = ''blue'', ut_users = []\<rparr>],
       in_node_scopes = [(''web'', PerTeam)], in_network_scopes = [(''lan'', PerTeam)]\<rparr>"
    by (simp add: sample_instances_def)
  have n: "length (is_instances sample_instances) = 2" "map ir_vm_id (is_instances sample_instances) = [200, 201]"
    "map (\<lambda>i. length (ir_nics i)) (is_instances sample_instances) = [1, 1]"
    "map (vn_vnet \<circ> nr_plan) (is_networks sample_instances) = [''red'', ''blue'']"
    by (simp_all add: sample_instances_def source_row.defs instance_row.defs network_row.defs sample_plan_of_def)
  have d: "pairwise_disjoint (map network_net (is_networks sample_instances))"
    by (simp add: sample_instances_def network_row.defs source_row.defs sample_plan_of_def network_net_def nets_overlap_def address_defs)
  have ids: "jget (sample_vm_dict t k s) ''vm_id'' = JInt k" for t k s by (simp add: vm_defs)
  have r: "rosters_ok sample_instances" by (simp add: rosters_ok_def i)
  have j: "json_eq_int (jget sample_vm_manifest ''version'') 3" "item sample_vm_manifest ''vms'' = Inr (JList [sample_vm ''red'' 200 ''10.0.1'', sample_vm ''blue'' 201 ''10.0.2''])"
    by (simp_all add: sample_vm_manifest_def jget_def item_def)
  have m: "map (JInt \<circ> ir_vm_id) (is_instances sample_instances) = [JInt 200, JInt 201]"
    using arg_cong [OF n(2), of "map JInt"] by (simp add: comp_def)
  have obj: "as_obj (sample_vm t k s) = Some (sample_vm_dict t k s)" for t k s by (simp add: sample_vm_dict_def sample_vm_def)
  show ?thesis
    using sample_networks_declared sample_identities sample_vm_models
    by (simp add: validate_scenario_instances_def sample_networks_def sample_parsed r i j n d m ids sample_manifest_ok obj sample_linked
        sample_inventory_ok assertE_def Let_def del: set_map)
qed

theorem cohorts_isolated_witness:
  "list_all (\<lambda>i. list_all (apart_in (is_networks sample_instances) (declared_vms sample_vm_manifest) i) (is_instances sample_instances))
     (is_instances sample_instances) \<and> map cohort_of (is_instances sample_instances) = [(''web'', Some ''red'', None), (''web'', Some ''blue'', None)]"
  using cohorts_isolated [OF sample_validated sample_parsed]
  by (simp add: sample_instances_def sample_row_def cohort_of_def source_row.defs instance_row.defs)

end
