(* ===== verification/Alloc_Release.thy ===== *)
theory Alloc_Release
  imports Alloc_System Launch
begin

text \<open>
  The end of a deployment's claim (\<open>app/routes/v1/deployments/allocations.py\<close>): its assignments are
  released only when no attempt or lock is left on the deployment and the Proxmox cluster confirms,
  VMID by VMID, that the guests are gone. The check of the cluster holds no database lock, so the
  ledger and the rows are read twice, and the two reads are arguments of the handler.
  \<open>lock\<close> is the outcome of taking the provisioning lock of the workspace root.
\<close>

subsection \<open>The handlers\<close>

definition claim_for :: "alloc_db \<Rightarrow> string \<Rightarrow> deployment_claim res" where
  "claim_for ledger i =
     of_opt (alloc_error ''NOT_FOUND'' 404) (List.find (\<lambda>c. dc_deployment c = i) (ad_claims ledger))"

definition attempt_active :: "store \<Rightarrow> string \<Rightarrow> bool" where
  "attempt_active db i = (\<exists>a \<in> set (st_attempts db). at_deployment a = i \<and> \<not> is_terminal (at_state a))"

definition idle_binding :: "store \<Rightarrow> deployment_claim \<Rightarrow> (deployment \<times> registered_host) res" where
  "idle_binding db claim =
     bindE (of_opt AttributeError (get_deployment db (dc_deployment claim))) (\<lambda>dep.
       let host = get_host db (dep_target_host_id dep) in
       bindE (assertE (dep_project_sha dep \<noteq> None) (alloc_error ''TARGET_CHANGED'' 409)) (\<lambda>_.
       bindE (validate_binding claim (deployment_ref_of dep) (map_option proxmox_host.truncate host)) (\<lambda>_.
       bindE (assertE (dep_state dep \<noteq> ''unknown'' \<and> \<not> attempt_active db (dep_id dep)
                \<and> get_lock db (dep_id dep) = None) (alloc_error ''BUSY'' 409)) (\<lambda>_.
         Inr (dep, the host)))))"

definition claim_view :: "deployment_claim \<Rightarrow> string \<times> string \<times> string \<times> string \<times> claim_vm list \<times> instant" where
  "claim_view c = (dc_deployment c, dc_project_sha c, dc_host c, dc_node_name c, dc_assignments c, dc_created c)"

definition get_deployment_allocations ::
    "alloc_db \<Rightarrow> string \<Rightarrow> (string \<times> string \<times> string \<times> string \<times> claim_vm list \<times> instant) res" where
  "get_deployment_allocations ledger i = bindE (claim_for ledger i) (\<lambda>c. Inr (claim_view c))"

definition verify_absent :: "http_get \<Rightarrow> bool \<Rightarrow> proxmox_host \<Rightarrow> int list \<Rightarrow> unit res" where
  "verify_absent get timed_out host vmids =
     (if timed_out then Inl unavailable
      else bindE (mapE (vmid_is_free get host) vmids) (\<lambda>free.
           assertE (list_all (\<lambda>b. b) free) (alloc_error ''IN_USE'' 409)))"

definition release_deployment_allocations ::
    "http_get \<Rightarrow> unit res \<Rightarrow> bool \<Rightarrow> store \<times> alloc_db \<Rightarrow> store \<times> alloc_db \<Rightarrow> string \<Rightarrow> alloc_db res" where
  "release_deployment_allocations get lock timed_out before at_commit i =
     bindE lock (\<lambda>_.
     bindE (claim_for (snd before) i) (\<lambda>claim.
     bindE (idle_binding (fst before) claim) (\<lambda>(dep, host).
     bindE (verify_absent get timed_out (proxmox_host.truncate host) (map vc_vmid (dc_assignments claim))) (\<lambda>_.
     bindE (claim_for (snd at_commit) i) (\<lambda>fresh.
     bindE (idle_binding (fst at_commit) fresh) (\<lambda>(dep', host').
     bindE (assertE ((dc_id claim, dep_current dep) = (dc_id fresh, dep_current dep')
              \<and> (ph_api_url host, ph_node_name host) = (ph_api_url host', ph_node_name host'))
              (alloc_error ''BUSY'' 409)) (\<lambda>_.
       Inr (drop_claim (dc_id fresh) (snd at_commit)))))))))"

subsection \<open>What a release proves\<close>

lemma claim_for_Inr: "claim_for ledger i = Inr c \<Longrightarrow> c \<in> set (ad_claims ledger) \<and> dc_deployment c = i"
  by (auto simp: claim_for_def res_simps find_Some_iff)

lemma idle_binding_Inr:
  assumes "idle_binding db claim = Inr (dep, host)"
  shows "get_deployment db (dc_deployment claim) = Some dep \<and> dep_state dep \<noteq> ''unknown''
     \<and> \<not> attempt_active db (dep_id dep) \<and> get_lock db (dep_id dep) = None
     \<and> get_host db (dep_target_host_id dep) = Some host
     \<and> dc_host claim = dep_target_host_id dep \<and> dc_api_url claim = ph_api_url host
     \<and> dc_node_name claim = ph_node_name host"
  using assms
  by (auto simp: idle_binding_def res_simps Let_def validate_binding_def deployment_ref_of_def
      proxmox_host.truncate_def split: option.splits)

lemma verify_absent_Inr:
  "verify_absent get timed_out host vmids = Inr u \<Longrightarrow> list_all (\<lambda>v. vmid_is_free get host v = Inr True) vmids"
  by (induction vmids) (auto simp: verify_absent_def res_simps split: if_splits)

text \<open>A released claim is the claim of that deployment, and its deployment was idle at the commit.\<close>

lemma release_Inr:
  assumes "release_deployment_allocations get lock timed_out (db0, l0) (db, l) i = Inr l'"
  obtains claim fresh dep and host :: registered_host where
    "claim \<in> set (ad_claims l0)" "fresh \<in> set (ad_claims l)" "dc_id claim = dc_id fresh"
    "dc_deployment fresh = i" "l' = drop_claim (dc_id fresh) l"
    "get_deployment db i = Some dep" "dep_state dep \<noteq> ''unknown''" "\<not> attempt_active db (dep_id dep)"
    "get_lock db (dep_id dep) = None" "dc_api_url fresh = ph_api_url host" "dc_node_name fresh = ph_node_name host"
    "list_all (\<lambda>vm. vmid_is_free get (proxmox_host.truncate host) (vc_vmid vm) = Inr True) (dc_assignments claim)"
proof -
  from assms obtain claim fresh dep0 dep u and host host' :: registered_host where
    c: "claim_for l0 i = Inr claim" "claim_for l i = Inr fresh"
    and b: "idle_binding db0 claim = Inr (dep0, host)" "idle_binding db fresh = Inr (dep, host')"
    and v: "verify_absent get timed_out (proxmox_host.truncate host) (map vc_vmid (dc_assignments claim)) = Inr u"
    and e: "dc_id claim = dc_id fresh" "ph_api_url host = ph_api_url host'" "ph_node_name host = ph_node_name host'"
    and l': "l' = drop_claim (dc_id fresh) l"
    by (auto simp: release_deployment_allocations_def res_simps split: prod.splits)
  note f = claim_for_Inr [OF c(1)] claim_for_Inr [OF c(2)] idle_binding_Inr [OF b(2)]
  show thesis
    using f e l' verify_absent_Inr [OF v]
    by (intro that [of claim fresh dep host]) (auto simp: list_all_iff)
qed

lemma vmid_is_free_url:
  "ph_api_url h = ph_api_url h' \<Longrightarrow> vmid_is_free get h v = vmid_is_free get h' v"
  by (simp add: vmid_is_free_def api_url_def)

lemma drop_claim_ends:
  "claims_ok l \<Longrightarrow> c \<in> set (ad_claims l) \<Longrightarrow> c' \<in> set (ad_claims (drop_claim (dc_id c) l)) \<Longrightarrow>
   dc_deployment c' \<noteq> dc_deployment c"
  by (auto simp: claims_ok_def drop_claim_def distinct_map inj_on_def)

text \<open>
  C8: a claim is released only when its guests are gone: the deployment's one claim is deleted and
  nothing else changes in the ledger, every VMID that it held was confirmed free on the very
  endpoint and node of the claim, and when the deletion is committed the deployment has no
  unfinished attempt, no workspace lock and no unknown state. The rows read before the check of
  the cluster are those of the commit when they have the same id: a claim is never updated.
\<close>

theorem claim_released_when_absent:
  assumes "release_deployment_allocations get lock timed_out (db0, l0) (db, l) i = Inr l'"
    and "ledger_ok now l"
    and "\<forall>c0 \<in> set (ad_claims l0). \<forall>c \<in> set (ad_claims l). dc_id c0 = dc_id c \<longrightarrow> dc_assignments c0 = dc_assignments c"
  shows "\<exists>claim \<in> set (ad_claims l). dc_deployment claim = i
    \<and> l' = l\<lparr>ad_claims := filter (\<lambda>c. dc_id c \<noteq> dc_id claim) (ad_claims l)\<rparr>
    \<and> i \<notin> dc_deployment ` set (ad_claims l')
    \<and> (\<exists>h :: proxmox_host. ph_api_url h = dc_api_url claim \<and> ph_node_name h = dc_node_name claim
         \<and> list_all (\<lambda>vm. vmid_is_free get h (vc_vmid vm) = Inr True) (dc_assignments claim))
    \<and> (\<exists>dep. get_deployment db i = Some dep \<and> dep_state dep \<noteq> ''unknown'')
    \<and> list_all (\<lambda>a. at_deployment a \<noteq> i \<or> is_terminal (at_state a)) (st_attempts db)
    \<and> get_lock db i = None"
proof -
  from release_Inr [OF assms(1)] obtain claim fresh dep and host :: registered_host where
    c: "claim \<in> set (ad_claims l0)" "fresh \<in> set (ad_claims l)" "dc_id claim = dc_id fresh"
    "dc_deployment fresh = i" "l' = drop_claim (dc_id fresh) l"
    and d: "get_deployment db i = Some dep" "dep_state dep \<noteq> ''unknown''" "\<not> attempt_active db (dep_id dep)"
    "get_lock db (dep_id dep) = None"
    and h: "dc_api_url fresh = ph_api_url host" "dc_node_name fresh = ph_node_name host"
    "list_all (\<lambda>vm. vmid_is_free get (proxmox_host.truncate host) (vc_vmid vm) = Inr True) (dc_assignments claim)"
    by blast
  have i: "dep_id dep = i" using d(1) by (auto simp: row_by_def find_Some_iff)
  have "claims_ok l" using assms(2) by (simp add: ledger_ok_def)
  then have "i \<notin> dc_deployment ` set (ad_claims l')" using drop_claim_ends c by fastforce
  moreover have "dc_assignments claim = dc_assignments fresh" using assms(3) c by blast
  moreover have "list_all (\<lambda>a. at_deployment a \<noteq> i \<or> is_terminal (at_state a)) (st_attempts db)"
    using d(3) i by (auto simp: attempt_active_def list_all_iff)
  ultimately show ?thesis
    using c d h i
    by (intro bexI [of _ fresh] conjI exI [of _ "proxmox_host.truncate host"] exI [of _ dep])
       (auto simp: drop_claim_def proxmox_host.truncate_def)
qed

text \<open>A release is one of the steps of the ledger's machine.\<close>

lemma release_is_step:
  "release_deployment_allocations get lock timed_out before (db, l) i = Inr l' \<Longrightarrow> alloc_step (now, l) (now, l')"
  by (cases before) (auto elim!: release_Inr intro: step_unclaim)

definition release_store :: store where
  "release_store =
     \<lparr>st_deployments = [\<lparr>dep_id = ''d1'', dep_codename = ''lab'', dep_scenario_label = ''one'', dep_project_id = ''p1'',
        dep_target_host_id = ''h1'', dep_project_sha = Some ''c0ffee'', dep_native = None, dep_team_count = 1,
        dep_state = ''failed'', dep_current = Some ''a1'', dep_workspace = ''/w''\<rparr>],
      st_attempts = [], st_locks = [], st_operations = [], st_sets = [],
      st_hosts = [proxmox_host.extend sample_host (registered_host.fields ''ref'')]\<rparr>"

lemma sample_release:
  "release_deployment_allocations reserve_get (Inr ()) False
     (release_store, sample_ledger\<lparr>ad_claims := [sample_claim]\<rparr>)
     (release_store, sample_ledger\<lparr>ad_claims := [sample_claim]\<rparr>) ''d1'' = Inr sample_ledger"
proof -
  have h: "proxmox_host.truncate (proxmox_host.extend sample_host (registered_host.fields ''ref'')) = sample_host"
    by (simp add: proxmox_host.defs sample_host_def registered_host.defs)
  have b: "idle_binding release_store sample_claim =
      Inr (hd (st_deployments release_store), hd (st_hosts release_store))"
    by (simp add: idle_binding_def release_store_def row_by_def sample_claim_def validate_binding_def
        deployment_ref_of_def attempt_active_def sample_host_def proxmox_host.defs registered_host.defs)
  have "mapE (vmid_is_free reserve_get sample_host) (map vc_vmid (dc_assignments sample_claim)) = Inr [True, True]"
    using reserve_get_free by (simp add: sample_claim_def sample_claim_vms_def)
  then show ?thesis
    using b h
    by (simp add: release_deployment_allocations_def claim_for_def sample_ledger_def empty_ledger_def verify_absent_def
        drop_claim_def)
       (simp add: sample_claim_def verify_absent_def drop_claim_def release_store_def)
qed

theorem claim_released_when_absent_witness:
  "\<exists>claim \<in> set (ad_claims (sample_ledger\<lparr>ad_claims := [sample_claim]\<rparr>)). dc_deployment claim = ''d1''
    \<and> sample_ledger = sample_ledger\<lparr>ad_claims := [sample_claim]\<rparr>
         \<lparr>ad_claims := filter (\<lambda>c. dc_id c \<noteq> dc_id claim) (ad_claims (sample_ledger\<lparr>ad_claims := [sample_claim]\<rparr>))\<rparr>
    \<and> ''d1'' \<notin> dc_deployment ` set (ad_claims sample_ledger)
    \<and> (\<exists>h :: proxmox_host. ph_api_url h = dc_api_url claim \<and> ph_node_name h = dc_node_name claim
         \<and> list_all (\<lambda>vm. vmid_is_free reserve_get h (vc_vmid vm) = Inr True) (dc_assignments claim))
    \<and> (\<exists>dep. get_deployment release_store ''d1'' = Some dep \<and> dep_state dep \<noteq> ''unknown'')
    \<and> list_all (\<lambda>a. at_deployment a \<noteq> ''d1'' \<or> is_terminal (at_state a)) (st_attempts release_store)
    \<and> get_lock release_store ''d1'' = None"
proof (rule claim_released_when_absent [OF sample_release, of 7])
  show "ledger_ok 7 (sample_ledger\<lparr>ad_claims := [sample_claim]\<rparr>)"
    by (simp add: ledger_ok_def leases_ok_def claims_ok_def live_leases_def sample_ledger_def empty_ledger_def
        holds_once_def sample_claim_def sample_claim_vms_def all_pairs_def nic_pair_def)
qed simp

end
