(* ===== verification/Installed_Ledger.thy ===== *)
theory Installed_Ledger
  imports Alloc_System Events
begin

text \<open>
  The installed scenarios' reservations (\<open>app/core/allocation_ledger.py\<close>) and the handler that
  allocates with them (\<open>allocate\<close> of \<open>app/routes/v1/proxmox/allocations.py\<close>). The files under the
  playbooks root are a parameter: what a path's parts lead to, which of them are symbolic links,
  and the manifests that the glob finds. How \<open>json.loads\<close> decodes bytes is the parameter \<open>decode\<close>.
\<close>

subsection \<open>Reading a source\<close>

definition max_file_bytes :: nat where "max_file_bytes = 2 * 1024 * 1024"
definition max_total_bytes :: nat where "max_total_bytes = 16 * 1024 * 1024"
definition max_entries :: nat where "max_entries = 16384"
definition max_manifests :: nat where "max_manifests = 1024"

record opened_file =
  of_regular :: bool
  of_size :: nat
  of_bytes :: string

text \<open>
  \<open>is_root\<close> is the outcome of \<open>resolve(strict=True)\<close> on the configured directory, \<open>is_link\<close> tells
  the paths below the root that are symbolic links, and \<open>is_open\<close> is what opening a path gives,
  \<open>None\<close> for an OSError.
\<close>

record installed_sources =
  is_root :: "unit res"
  is_link :: "string list \<Rightarrow> bool"
  is_open :: "string list \<Rightarrow> opened_file option"
  is_manifests :: "string list list"
  is_decode :: "string \<Rightarrow> string option"

definition read_source :: "installed_sources \<Rightarrow> string list \<Rightarrow> string res" where
  "read_source src path =
     bindE (assertE (\<not> list_ex (\<lambda>n. is_link src (take n path)) [1..<Suc (length path)]) ValueError) (\<lambda>_.
     bindE (of_opt OSError (is_open src path)) (\<lambda>f.
     bindE (assertE (of_regular f \<and> of_size f \<le> max_file_bytes) ValueError) (\<lambda>_.
       let data = take (max_file_bytes + 1) (of_bytes f) in
       bindE (assertE (length data \<le> max_file_bytes) ValueError) (\<lambda>_. Inr data))))"

text \<open>\<open>bytes.splitlines\<close> ends a line at a line feed, a carriage return or the pair of them.\<close>

fun byte_lines :: "string \<Rightarrow> string \<Rightarrow> string list" where
  "byte_lines cur [] = (if cur = [] then [] else [rev cur])"
| "byte_lines cur (c # cs) =
     (if c = CHR 0x0A \<or> c = CHR 0x0D
      then rev cur # byte_lines [] (if c = CHR 0x0D \<and> take 1 cs = [CHR 0x0A] then drop 1 cs else cs)
      else byte_lines (c # cur) cs)"

definition loads_bytes :: "installed_sources \<Rightarrow> string \<Rightarrow> json res" where
  "loads_bytes src b =
     bindE (of_opt ValueError (is_decode src b)) (\<lambda>t. of_opt ValueError (json_loads t))"

subsection \<open>Recording an entry\<close>

definition ledger_bridge :: "string \<Rightarrow> bool" where
  "ledger_bridge s =
     (case s of [] \<Rightarrow> False
      | c # cs \<Rightarrow> is_alpha c \<and> class_match (\<lambda>c. is_alnum c \<or> c \<in> set ''_.-'') 0 14 cs)"

definition record_nic :: "occupancy \<Rightarrow> json \<Rightarrow> occupancy res" where
  "record_nic occ nic =
     (case nic of
        JObj d \<Rightarrow>
          (case (jget d ''bridge'', jget d ''ip'') of
             (JNull, JNull) \<Rightarrow> Inr occ
           | (JStr bridge, JStr address) \<Rightarrow>
               if \<not> ledger_bridge bridge then Inl ValueError
               else (case parse_ipv4_interface address of
                  Some a \<Rightarrow> Inr (occ\<lparr>occ_addresses := insert (bridge, ip_str a) (occ_addresses occ)\<rparr>)
                | None \<Rightarrow> if is_ipv6_interface address then Inr occ else Inl ValueError)
           | _ \<Rightarrow> Inl ValueError)
      | _ \<Rightarrow> Inl ValueError)"

definition entry_nics :: "dict \<Rightarrow> json list res" where
  "entry_nics d =
     (case dget d ''nics'' of
        None \<Rightarrow> Inr []
      | Some (JList nics) \<Rightarrow> if length nics \<le> 32 then Inr nics else Inl ValueError
      | Some _ \<Rightarrow> Inl ValueError)"

definition record_entry :: "occupancy \<Rightarrow> json \<Rightarrow> occupancy res" where
  "record_entry occ row =
     (case row of
        JObj d \<Rightarrow>
          (case dget d ''vm_id'' of
             Some (JInt v) \<Rightarrow>
               if \<not> (100 \<le> v \<and> v \<le> 999999999) then Inl ValueError
               else bindE (entry_nics d) (\<lambda>nics.
                 foldE record_nic (occ\<lparr>occ_vmids := insert v (occ_vmids occ)\<rparr>) (row # nics))
           | _ \<Rightarrow> Inl ValueError)
      | _ \<Rightarrow> Inl ValueError)"

subsection \<open>Loading the sources\<close>

definition manifest_rows :: "dict \<Rightarrow> string \<Rightarrow> json list res" where
  "manifest_rows d key =
     (case dget d key of None \<Rightarrow> Inr [] | Some (JList rows) \<Rightarrow> Inr rows | Some _ \<Rightarrow> Inl ValueError)"

definition add_manifest :: "installed_sources \<Rightarrow> nat \<times> json list \<Rightarrow> string list \<Rightarrow> (nat \<times> json list) res" where
  "add_manifest src st path =
     bindE (read_source src path) (\<lambda>data.
     let total = fst st + length data in
     bindE (assertE (total \<le> max_total_bytes) ValueError) (\<lambda>_.
     bindE (loads_bytes src data) (\<lambda>v.
     bindE (of_opt ValueError (as_obj v)) (\<lambda>d.
     bindE (manifest_rows d ''vms'') (\<lambda>vms.
     bindE (manifest_rows d ''templates'') (\<lambda>templates.
     let entries = snd st @ vms @ templates in
     bindE (assertE (length entries \<le> max_entries) ValueError) (\<lambda>_. Inr (total, entries))))))))"

definition installed_entries :: "installed_sources \<Rightarrow> json list res" where
  "installed_entries src =
     bindE (is_root src) (\<lambda>_.
     bindE (read_source src [''scenarios'', ''_reserved.json'']) (\<lambda>data.
     bindE (mapE (loads_bytes src) (filter (\<lambda>line. \<not> list_all byte_space line) (byte_lines [] data))) (\<lambda>entries.
     bindE (assertE (length (is_manifests src) \<le> max_manifests) ValueError) (\<lambda>_.
     bindE (foldE (add_manifest src) (length data, entries) (is_manifests src)) (\<lambda>st.
     bindE (assertE (length (snd st) \<le> max_entries) ValueError) (\<lambda>_. Inr (snd st)))))))"

definition load_installed_reservations :: "installed_sources \<Rightarrow> occupancy res" where
  "load_installed_reservations src =
     (case bindE (installed_entries src) (foldE record_entry empty_occupancy) of
        Inr occ \<Rightarrow> Inr occ
      | Inl e \<Rightarrow> if e \<in> {OSError, ValueError, TypeError, RecursionError} then Inl unavailable else Inl e)"

subsection \<open>Allocating\<close>

text \<open>
  \<open>playbooks\<close> is \<open>None\<close> when no playbooks directory is configured. The header's length bounds are
  those of \<open>token_digest\<close>.
\<close>

definition allocate ::
    "(string \<Rightarrow> string) \<Rightarrow> http_get \<Rightarrow> (nat \<Rightarrow> alloc_db res) \<Rightarrow> (nat \<Rightarrow> instant) \<Rightarrow> proxmox_host option
       \<Rightarrow> installed_sources option \<Rightarrow> alloc_request \<Rightarrow> string \<Rightarrow> string \<Rightarrow> instant
       \<Rightarrow> (nat \<times> reservation \<times> alloc_db) res" where
  "allocate sha256 get ledger clock host playbooks payload token new_id checked_at =
     bindE (token_digest sha256 token) (\<lambda>_.
     bindE (of_opt (ApiError \<lparr>ae_status = 404, ae_error = ''error'', ae_code = ''NOT_FOUND''\<rparr>) host) (\<lambda>h.
     bindE (of_opt unavailable playbooks) (\<lambda>src.
     bindE (load_installed_reservations src) (\<lambda>reserved.
       reserve sha256 get ledger clock h payload token new_id checked_at (Some reserved)))))"

subsection \<open>What is recorded\<close>

lemma load_installed_Inr [res_simps]:
  "load_installed_reservations src = Inr occ \<longleftrightarrow>
     (\<exists>rows. installed_entries src = Inr rows \<and> foldE record_entry empty_occupancy rows = Inr occ)"
  by (auto simp: load_installed_reservations_def res_simps split: sum.splits if_splits)

lemma record_nic_grows: "record_nic occ nic = Inr occ' \<Longrightarrow> occ_le occ occ'"
  by (auto simp: record_nic_def occ_le_def split: json.splits option.splits if_splits)

lemma record_entry_Inr:
  assumes "record_entry occ row = Inr occ'"
  obtains d v nics where "row = JObj d" "dget d ''vm_id'' = Some (JInt v)" "entry_nics d = Inr nics"
    "foldE record_nic (occ\<lparr>occ_vmids := insert v (occ_vmids occ)\<rparr>) (row # nics) = Inr occ'"
  using assms unfolding record_entry_def
  by (auto simp: res_simps bindE_Inr split: json.splits option.splits if_splits simp del: foldE.simps)

lemma record_entry_grows:
  assumes "record_entry occ row = Inr occ'"
  shows "occ_le occ occ'" and "\<exists>d v. row = JObj d \<and> dget d ''vm_id'' = Some (JInt v) \<and> v \<in> occ_vmids occ'"
proof -
  from assms obtain d v nics where d: "row = JObj d" "dget d ''vm_id'' = Some (JInt v)"
    and f: "foldE record_nic (occ\<lparr>occ_vmids := insert v (occ_vmids occ)\<rparr>) (row # nics) = Inr occ'"
    by (rule record_entry_Inr)
  have "occ_le (occ\<lparr>occ_vmids := insert v (occ_vmids occ)\<rparr>) occ'"
    by (rule foldE_grows [OF f record_nic_grows])
  then show "occ_le occ occ'" "\<exists>d v. row = JObj d \<and> dget d ''vm_id'' = Some (JInt v) \<and> v \<in> occ_vmids occ'"
    using d by (auto simp: occ_le_def)
qed

text \<open>An assignment keeps off an entry when it holds neither its VMID nor one of its addresses.\<close>

definition nic_clear :: "addr set \<Rightarrow> json \<Rightarrow> bool" where
  "nic_clear held nic =
     (case nic of
        JObj d \<Rightarrow>
          (case (jget d ''bridge'', jget d ''ip'') of
             (JStr bridge, JStr address) \<Rightarrow>
               (case parse_ipv4_interface address of Some a \<Rightarrow> (bridge, ip_str a) \<notin> held | None \<Rightarrow> True)
           | _ \<Rightarrow> True)
      | _ \<Rightarrow> True)"

definition keeps_off :: "lease_vm list \<Rightarrow> json \<Rightarrow> bool" where
  "keeps_off vms row =
     (case row of
        JObj d \<Rightarrow>
          (case dget d ''vm_id'' of Some (JInt v) \<Rightarrow> v \<notin> ids_of vms | _ \<Rightarrow> False)
          \<and> nic_clear (addrs_of vms) row
          \<and> (case dget d ''nics'' of Some (JList nics) \<Rightarrow> list_all (nic_clear (addrs_of vms)) nics | _ \<Rightarrow> True)
      | _ \<Rightarrow> False)"

lemma record_nic_clear:
  "record_nic s nic = Inr s' \<Longrightarrow> occ_le s' occ \<Longrightarrow> held \<inter> occ_addresses occ = {} \<Longrightarrow> nic_clear held nic"
  by (auto simp: record_nic_def nic_clear_def occ_le_def split: json.splits option.splits if_splits)

lemma entry_nics_clear:
  assumes "record_entry occ row = Inr occ'" and "occ_le occ' final" and "held \<inter> occ_addresses final = {}"
  obtains d nics where "row = JObj d" "entry_nics d = Inr nics" "list_all (nic_clear held) (row # nics)"
proof -
  from assms(1) obtain d v nics where d: "row = JObj d" "entry_nics d = Inr nics"
    and f: "foldE record_nic (occ\<lparr>occ_vmids := insert v (occ_vmids occ)\<rparr>) (row # nics) = Inr occ'"
    by (rule record_entry_Inr)
  have "nic_clear held nic" if "nic \<in> set (row # nics)" for nic
    using foldE_records [OF f _ that] record_nic_grows record_nic_clear assms(2,3) occ_le_trans by blast
  then show thesis using d by (intro that) (auto simp: list_all_iff)
qed

text \<open>Whatever holds no VMID and no address of the loaded occupancy keeps off every installed entry.\<close>

lemma loaded_keeps_off:
  assumes "foldE record_entry empty_occupancy rows = Inr occ" and "row \<in> set rows"
    and "ids_of vms \<inter> occ_vmids occ = {}" "addrs_of vms \<inter> occ_addresses occ = {}"
  shows "keeps_off vms row"
proof -
  from foldE_records [OF assms(1) _ assms(2)] record_entry_grows(1) obtain s s' where
    r: "record_entry s row = Inr s'" and le: "occ_le s' occ" by blast
  from entry_nics_clear [OF r le assms(4)] obtain d nics where
    d: "row = JObj d" "entry_nics d = Inr nics" "list_all (nic_clear (addrs_of vms)) (row # nics)" .
  from record_entry_grows(2) [OF r] d(1) obtain v where v: "dget d ''vm_id'' = Some (JInt v)" "v \<in> occ_vmids s'"
    by auto
  have "v \<notin> ids_of vms" using v(2) le assms(3) by (auto simp: occ_le_def)
  then show ?thesis
    using d v(1) by (auto simp: keeps_off_def entry_nics_def split: option.splits json.splits if_splits)
qed

subsection \<open>The audit a reservation is planned with\<close>

lemma probed_grows: "occ_le occ (probed results occ)"
  by (auto simp: probed_def occ_le_def)

text \<open>The loop's transactions plan with at least the occupancy it started with.\<close>

lemma loop_plans_with:
  "reserve_loop free ledger clock txn i probes cf occ = Inr (j, row, db') \<Longrightarrow>
   \<exists>db occ' cf'. occ_vmids occ \<subseteq> occ_vmids occ' \<and> occ_addresses occ \<subseteq> occ_addresses occ'
     \<and> txn occ' cf' (clock j) db = Inr (Saved row db')"
proof (induction free ledger clock txn i probes cf occ rule: reserve_loop.induct)
  case (1 free ledger clock txn i probes cf occ)
  note run = "1.prems" [unfolded reserve_loop.simps [of free ledger clock txn i probes cf occ]]
  from run obtain db r where go: "probes \<le> max_probes" "ledger i = Inr db" "txn occ cf (clock i) db = Inr r"
    by (auto simp: res_simps split: if_splits)
  show ?case
  proof (cases r)
    case (Saved row' db'')
    with run go show ?thesis by auto
  next
    case (Pending vs)
    with run go obtain results where
      c: "\<not> (vs = [] \<or> max_probes < probes + int (length vs))" "probe_vmids free vs = Inr results"
      and rest: "reserve_loop free ledger clock txn (Suc i) (probes + int (length vs))
                  (cf \<union> fst ` set (filter snd results)) (probed results occ) = Inr (j, row, db')"
      by (auto simp: res_simps split: if_splits)
    from "1.IH" [OF go Pending c rest] probed_grows [of occ results] show ?thesis
      unfolding occ_le_def by blast
  qed
qed

lemma plan_keeps_off:
  assumes "valid_request payload" and "plan payload host leases claims current occ = Inr out"
  shows "ids_of out \<inter> occ_vmids occ = {}" and "addrs_of out \<inter> occ_addresses occ = {}"
proof -
  from plan_spec [OF assms] obtain ov env where
    e: "env = plan_env_of payload ov leases claims current occ"
    and d: "ids_of out \<inter> pe_ids env = {}" "addrs_of out \<inter> pe_ips env = {}"
    by (auto simp: all_pairs_addrs occupied_def)
  show "ids_of out \<inter> occ_vmids occ = {}" "addrs_of out \<inter> occ_addresses occ = {}"
    using d by (auto simp: e plan_env_of_def unavailable_ids_def unavailable_ips_def)
qed

lemma reserve_keeps_off:
  assumes "reserve sha256 get ledger clock host payload token nid ca (Some r) = Inr (j, row, db')"
    and "valid_request payload"
  shows "ids_of (rv_assignments row) \<inter> occ_vmids r = {}" and "addrs_of (rv_assignments row) \<inter> occ_addresses r = {}"
proof -
  from assms(1) obtain occ where
    "reserve_loop (vmid_is_free get host) ledger clock
       (reserve_txn host payload (sha256 token) nid ca) 1 0 {} (with_reserved (Some r) occ) = Inr (j, row, db')"
    by (auto simp: reserve_def res_simps)
  from loop_plans_with [OF this] obtain db occ' cf where
    o: "occ_vmids r \<subseteq> occ_vmids occ'" "occ_addresses r \<subseteq> occ_addresses occ'"
    and t: "reserve_txn host payload (sha256 token) nid ca occ' cf (clock j) db = Inr (Saved row db')"
    by (auto simp: with_reserved_def)
  from reserve_txn_Saved [OF t] obtain current where
    "plan payload host (live_leases (clock j) db) (ad_claims db) current occ' = Inr (rv_assignments row)"
    by blast
  note plan_keeps_off [OF assms(2) this]
  with o show "ids_of (rv_assignments row) \<inter> occ_vmids r = {}" "addrs_of (rv_assignments row) \<inter> occ_addresses r = {}"
    by blast+
qed

subsection \<open>Installed scenarios keep what they reserve\<close>

text \<open>
  C7: an allocation never reuses what an installed scenario reserves: it succeeds only when every
  installed source could be read within its bounds, and none of its virtual machines has the
  VMID, or a bridge and address pair, of any row of the installed ledger or of any machine or
  template of an installed manifest, the rows' primary and listed interfaces alike.
\<close>

theorem installed_never_reallocated:
  assumes "allocate sha256 get ledger clock host playbooks payload token nid ca = Inr (j, row, db')"
    and "valid_request payload"
  shows "\<exists>src rows. playbooks = Some src \<and> installed_entries src = Inr rows
    \<and> length rows \<le> 16384 \<and> list_all (keeps_off (rv_assignments row)) rows"
proof -
  from assms(1) obtain h src rows occ where p: "playbooks = Some src"
    and e: "installed_entries src = Inr rows" and f: "foldE record_entry empty_occupancy rows = Inr occ"
    and r: "reserve sha256 get ledger clock h payload token nid ca (Some occ) = Inr (j, row, db')"
    by (auto simp: allocate_def res_simps)
  have "length rows \<le> 16384" using e by (auto simp: installed_entries_def res_simps max_entries_def)
  moreover have "list_all (keeps_off (rv_assignments row)) rows"
    using loaded_keeps_off [OF f _ reserve_keeps_off [OF r assms(2)]] by (simp add: list_all_iff)
  ultimately show ?thesis using p e by blast
qed

definition sample_line :: string where
  "sample_line = ''{\"vm_id\": 1025, \"bridge\": \"vmbr1\", \"ip\": \"10.0.1.3/24\"}''"

definition sample_sources :: installed_sources where
  "sample_sources = \<lparr>is_root = Inr (), is_link = (\<lambda>_. False),
     is_open = (\<lambda>path. if path = [''scenarios'', ''_reserved.json'']
        then Some \<lparr>of_regular = True, of_size = length sample_line, of_bytes = sample_line\<rparr> else None),
     is_manifests = [], is_decode = Some\<rparr>"

definition sample_entry :: json where
  "sample_entry = JObj [(''vm_id'', JInt 1025), (''bridge'', JStr ''vmbr1''), (''ip'', JStr ''10.0.1.3/24'')]"

lemma sample_line_facts:
  "length sample_line = 55" "byte_lines [] sample_line = [sample_line]" "\<not> list_all byte_space sample_line"
  "json_loads sample_line = Some sample_entry"
  by (code_simp, code_simp, code_simp, code_simp)

lemma sample_entries: "installed_entries sample_sources = Inr [sample_entry]"
proof -
  have "read_source sample_sources [''scenarios'', ''_reserved.json''] = Inr sample_line"
    by (simp add: read_source_def sample_sources_def max_file_bytes_def sample_line_facts Let_def list_ex_iff)
  then show ?thesis
    by (simp add: installed_entries_def sample_line_facts loads_bytes_def)
       (simp add: sample_sources_def loads_bytes_def sample_line_facts max_entries_def)
qed

lemma sample_load: "load_installed_reservations sample_sources = Inr sample_occupancy"
proof -
  have "parse_ipv4_interface ''10.0.1.3/24'' = Some 167772419"
    by (simp add: parse_ipv4_interface_def ip_eval)
  moreover have "ip_str 167772419 = ''10.0.1.3''" by (simp add: ip_str_def nat_str.simps digit_char_def)
  ultimately have "record_entry empty_occupancy sample_entry = Inr sample_occupancy"
    by (simp add: record_entry_def sample_entry_def entry_nics_def record_nic_def jget_def dget_def
        ledger_bridge_def class_match_def is_alnum_def is_alpha_def is_digit_def empty_occupancy_def sample_occupancy_def)
  then show ?thesis
    by (simp add: load_installed_reservations_def sample_entries)
qed

theorem installed_never_reallocated_witness:
  "\<exists>src rows. Some sample_sources = Some src \<and> installed_entries src = Inr rows
    \<and> length rows \<le> 16384 \<and> list_all (keeps_off (rv_assignments sample_row)) rows"
proof (rule installed_never_reallocated)
  have "token_digest (\<lambda>_. ''digest'') sample_token = Inr ''digest''"
    by (simp add: token_digest_def class_match_def sample_token_def is_alnum_def is_alpha_def is_digit_def)
  then show "allocate (\<lambda>_. ''digest'') reserve_get (\<lambda>_. Inr sample_ledger) (\<lambda>_. 5) (Some sample_host)
      (Some sample_sources) sample_request sample_token ''r1'' 4
    = Inr (2, sample_row, sample_ledger\<lparr>ad_leases := [sample_row]\<rparr>)"
    by (simp add: allocate_def sample_load sample_reserve)
qed (rule sample_request_valid)

end
