(* ===== verification/Projects.thy ===== *)
theory Projects
  imports Store Catalog_Sources
begin

text \<open>
  The registry of projects (\<open>app/routes/v1/projects/crud.py\<close> with the models of
  \<open>app/schemas/v1/projects.py\<close>): a project names a Git source and a repository in it. Deployments
  refer to a project and pin one of its commits, so its repository binding must not change under
  them. Each write is one transaction. A handler reads the registry before it writes; where other
  requests may commit in between, it takes both states. The check of a catalog URL is the
  parameter \<open>approved\<close>; time stamps are left out.
\<close>

subsection \<open>The models\<close>

record project_in =
  pi_name :: string
  pi_source :: string
  pi_strategy :: string
  pi_owner :: "string option"
  pi_repo :: "string option"
  pi_subdir :: "string option"
  pi_catalog_url :: "string option"
  pi_catalog_sha :: "string option"

record project = project_in +
  pj_id :: string

text \<open>A request's fields: \<open>None\<close> when a field is not set, \<open>Some None\<close> when it is null.\<close>

record project_patch =
  pp_name :: "string option option"
  pp_source :: "string option option"
  pp_strategy :: "string option option"
  pp_owner :: "string option option"
  pp_repo :: "string option option"
  pp_subdir :: "string option option"
  pp_catalog_url :: "string option option"
  pp_catalog_sha :: "string option option"

definition bounded :: "nat \<Rightarrow> string option \<Rightarrow> unit res" where
  "bounded n v = assertE (case v of None \<Rightarrow> True | Some s \<Rightarrow> length s \<le> n) ValueError"

definition required_text :: "string option \<Rightarrow> string option res" where
  "required_text v =
     (case v of None \<Rightarrow> Inl ValueError | Some s \<Rightarrow> if strip s = [] then Inl ValueError else Inr (Some (strip s)))"

definition repository_name :: "string \<Rightarrow> bool" where
  "repository_name s =
     (case s of [] \<Rightarrow> False
      | c # cs \<Rightarrow> (is_alnum c \<or> c = CHR ''_'') \<and> list_all (\<lambda>c. is_alnum c \<or> c \<in> set ''_.-'') cs)"

definition repository_part :: "bool \<Rightarrow> string option \<Rightarrow> string option res" where
  "repository_part owner v =
     (case v of None \<Rightarrow> Inr None
      | Some s \<Rightarrow>
          bindE (assertE (list_all (\<lambda>p. repository_name p \<and> p \<notin> {''.'', ''..''})
                   (if owner then split_on (CHR ''/'') s else [s])) ValueError) (\<lambda>_.
          bindE (assertE (owner \<or> \<not> suffix ''.git'' s) ValueError) (\<lambda>_. Inr (Some s))))"

definition safe_subdir :: "string option \<Rightarrow> string option res" where
  "safe_subdir v =
     (case v of None \<Rightarrow> Inr None
      | Some s \<Rightarrow>
          if s = [] \<or> s = ''.'' then Inr None
          else if prefix ''/'' s \<or> CHR 0x5C \<in> set s \<or> list_ex (\<lambda>c. (of_char c :: nat) < 32) s
                  \<or> list_ex (\<lambda>p. p \<in> {[], ''.'', ''..'', ''.git''}) (split_on (CHR ''/'') s)
               then Inl ValueError
          else Inr (Some s))"

definition approved_catalog_url :: "(string \<Rightarrow> bool) \<Rightarrow> string option \<Rightarrow> string option res" where
  "approved_catalog_url approved v =
     (case v of None \<Rightarrow> Inr None
      | Some s \<Rightarrow> if s = [] \<or> approved s then Inr (Some s) else Inl ValueError)"

definition known_strategy :: "string option \<Rightarrow> unit res" where
  "known_strategy v =
     assertE (case v of None \<Rightarrow> True | Some s \<Rightarrow> s \<in> {''shared_repo_subdir'', ''dedicated_repo''}) ValueError"

text \<open>A validator sees a field only when it is set.\<close>

definition field :: "('v \<Rightarrow> unit res) \<Rightarrow> ('v \<Rightarrow> 'w res) \<Rightarrow> 'v option \<Rightarrow> 'w option res" where
  "field constraint validator v =
     (case v of None \<Rightarrow> Inr None
      | Some x \<Rightarrow> bindE (constraint x) (\<lambda>_. bindE (validator x) (\<lambda>y. Inr (Some y))))"

definition validate_patch :: "(string \<Rightarrow> bool) \<Rightarrow> project_patch \<Rightarrow> project_patch res" where
  "validate_patch approved p =
     bindE (field (bounded 256) required_text (pp_name p)) (\<lambda>name.
     bindE (field (bounded 64) required_text (pp_source p)) (\<lambda>source.
     bindE (field known_strategy required_text (pp_strategy p)) (\<lambda>strategy.
     bindE (field (bounded 128) (repository_part True) (pp_owner p)) (\<lambda>owner.
     bindE (field (bounded 128) (repository_part False) (pp_repo p)) (\<lambda>repo.
     bindE (field (bounded 256) safe_subdir (pp_subdir p)) (\<lambda>subdir.
     bindE (field (bounded 512) (approved_catalog_url approved) (pp_catalog_url p)) (\<lambda>url.
     bindE (field (bounded 64) Inr (pp_catalog_sha p)) (\<lambda>sha.
       Inr \<lparr>pp_name = name, pp_source = source, pp_strategy = strategy, pp_owner = owner, pp_repo = repo,
            pp_subdir = subdir, pp_catalog_url = url, pp_catalog_sha = sha\<rparr>))))))))"

definition is_given :: "string option \<Rightarrow> bool" where
  "is_given v = (case v of None \<Rightarrow> False | Some s \<Rightarrow> s \<noteq> [])"

definition repository_pair :: "project_in \<Rightarrow> project_in res" where
  "repository_pair p = (if is_given (pi_owner p) = is_given (pi_repo p) then Inr p else Inl ValueError)"

definition validate_project :: "(string \<Rightarrow> bool) \<Rightarrow> project_patch \<Rightarrow> project_in res" where
  "validate_project approved p =
     bindE (validate_patch approved p) (\<lambda>q.
     bindE (of_opt ValueError (Option.bind (pp_name q) (\<lambda>v. v))) (\<lambda>name.
     bindE (of_opt ValueError (Option.bind (pp_source q) (\<lambda>v. v))) (\<lambda>source.
     bindE (of_opt ValueError (Option.bind (pp_strategy q) (\<lambda>v. v))) (\<lambda>strategy.
       let opt = (\<lambda>v. Option.bind v (\<lambda>v. v)) in
       repository_pair \<lparr>pi_name = name, pi_source = source, pi_strategy = strategy, pi_owner = opt (pp_owner q),
         pi_repo = opt (pp_repo q), pi_subdir = opt (pp_subdir q), pi_catalog_url = opt (pp_catalog_url q),
         pi_catalog_sha = opt (pp_catalog_sha q)\<rparr>))))"

subsection \<open>The handlers\<close>

record registry =
  rg_sources :: "catalog_source list"
  rg_projects :: "project list"
  rg_deployments :: "deployment list"

abbreviation project_of :: "registry \<Rightarrow> string \<Rightarrow> project option" where
  "project_of rg \<equiv> \<lambda>i. row_by pj_id i (rg_projects rg)"

definition project_row_of :: "registry \<Rightarrow> string \<Rightarrow> project res" where
  "project_row_of rg i =
     of_opt (ApiError \<lparr>ae_status = 404, ae_error = ''not_found'', ae_code = ''NOT_FOUND''\<rparr>) (project_of rg i)"

definition validate_source :: "registry \<Rightarrow> project_in \<Rightarrow> unit res" where
  "validate_source rg p =
     bindE (of_opt (ApiError \<lparr>ae_status = 404, ae_error = ''not_found'', ae_code = ''SOURCE_NOT_FOUND''\<rparr>)
              (row_by cs_id (pi_source p) (rg_sources rg))) (\<lambda>source.
       assertE (\<not> (is_given (pi_owner p) \<and> CHR ''/'' \<in> set (the (pi_owner p)) \<and> cs_provider source \<noteq> ''gitlab''))
         (ApiError \<lparr>ae_status = 422, ae_error = ''validation_error'', ae_code = ''VALIDATION''\<rparr>))"

definition same_binding :: "('a project_in_scheme) \<Rightarrow> ('b project_in_scheme) \<Rightarrow> bool" where
  "same_binding a b =
     (pi_source a = pi_source b \<and> pi_owner a = pi_owner b \<and> pi_repo a = pi_repo b
      \<and> pi_subdir a = pi_subdir b \<and> pi_strategy a = pi_strategy b)"

definition has_deployments :: "registry \<Rightarrow> string \<Rightarrow> bool" where
  "has_deployments rg i = (\<exists>d \<in> set (rg_deployments rg). dep_project_id d = i)"

definition with_id :: "string \<Rightarrow> project_in \<Rightarrow> project" where
  "with_id i p = project_in.extend p (project.fields i)"

text \<open>A body, or a merged row, that a model rejects.\<close>

definition or_422 :: "'a res \<Rightarrow> 'a res" where
  "or_422 r =
     (case r of
        Inl _ \<Rightarrow> Inl (ApiError \<lparr>ae_status = 422, ae_error = ''validation_error'', ae_code = ''VALIDATION''\<rparr>)
      | Inr x \<Rightarrow> Inr x)"

text \<open>The \<open>UPDATE\<close> with its condition: how many rows it changes, and the table.\<close>

definition update_binding :: "registry \<Rightarrow> string \<Rightarrow> project_in \<Rightarrow> nat \<times> registry" where
  "update_binding rg i p =
     (let hit = (\<lambda>r. pj_id r = i \<and> (\<not> has_deployments rg (pj_id r) \<or> same_binding r p)) in
      (count_rows hit (rg_projects rg), rg\<lparr>rg_projects := update_rows hit (\<lambda>r. with_id (pj_id r) p) (rg_projects rg)\<rparr>))"

definition update_project :: "registry \<Rightarrow> string \<Rightarrow> project_in \<Rightarrow> registry res" where
  "update_project rg i p =
     bindE (validate_source rg p) (\<lambda>_.
       if fst (update_binding rg i p) \<noteq> 1
       then Inl (ApiError \<lparr>ae_status = 409, ae_error = ''conflict'', ae_code = ''PROJECT_BINDING_IN_USE''\<rparr>)
       else Inr (snd (update_binding rg i p)))"

definition insert_project :: "registry \<Rightarrow> string \<Rightarrow> project_in \<Rightarrow> registry" where
  "insert_project rg i p = rg\<lparr>rg_projects := rg_projects rg @ [with_id i p]\<rparr>"

definition create_project :: "registry \<Rightarrow> string \<Rightarrow> project_in \<Rightarrow> registry res" where
  "create_project rg new_id p = bindE (validate_source rg p) (\<lambda>_. Inr (insert_project rg new_id p))"

definition project_key :: "string \<Rightarrow> bool" where
  "project_key i =
     (case i of [] \<Rightarrow> False
      | c # cs \<Rightarrow> is_alnum c \<and> class_match (\<lambda>c. is_alnum c \<or> c \<in> set ''_.-'') 0 63 cs)"

text \<open>
  \<open>before\<close> is what the handler reads, \<open>rg\<close> what its commit finds. An insert fails when another
  registration won, and when its source is gone.
\<close>

definition register_project :: "registry \<Rightarrow> registry \<Rightarrow> string \<Rightarrow> project_in \<Rightarrow> registry res" where
  "register_project before rg i p =
     bindE (assertE (project_key i) (ApiError \<lparr>ae_status = 422, ae_error = ''validation_error'', ae_code = ''VALIDATION''\<rparr>)) (\<lambda>_.
       if project_of before i \<noteq> None then update_project rg i p
       else bindE (validate_source before p) (\<lambda>_.
         if project_of rg i \<noteq> None then update_project rg i p
         else if row_by cs_id (pi_source p) (rg_sources rg) = None
         then Inl (ApiError \<lparr>ae_status = 409, ae_error = ''conflict'', ae_code = ''PROJECT_REGISTRATION_CONFLICT''\<rparr>)
         else Inr (insert_project rg i p)))"

definition or_kept :: "string option option \<Rightarrow> string option \<Rightarrow> string option option" where
  "or_kept v old = (case v of None \<Rightarrow> Some old | Some x \<Rightarrow> Some x)"

definition merged_patch :: "project \<Rightarrow> project_patch \<Rightarrow> project_patch" where
  "merged_patch row p =
     \<lparr>pp_name = or_kept (pp_name p) (Some (pi_name row)), pp_source = or_kept (pp_source p) (Some (pi_source row)),
      pp_strategy = or_kept (pp_strategy p) (Some (pi_strategy row)), pp_owner = or_kept (pp_owner p) (pi_owner row),
      pp_repo = or_kept (pp_repo p) (pi_repo row), pp_subdir = or_kept (pp_subdir p) (pi_subdir row),
      pp_catalog_url = or_kept (pp_catalog_url p) (pi_catalog_url row),
      pp_catalog_sha = or_kept (pp_catalog_sha p) (pi_catalog_sha row)\<rparr>"

definition patch_project :: "(string \<Rightarrow> bool) \<Rightarrow> registry \<Rightarrow> registry \<Rightarrow> string \<Rightarrow> project_patch \<Rightarrow> registry res" where
  "patch_project approved before rg i p =
     bindE (or_422 (validate_patch approved p)) (\<lambda>payload.
     bindE (project_row_of before i) (\<lambda>row.
     bindE (or_422 (validate_project approved (merged_patch row payload))) (\<lambda>merged.
       update_project rg i merged)))"

definition project_heartbeat :: "registry \<Rightarrow> string \<Rightarrow> unit res" where
  "project_heartbeat rg i = bindE (project_row_of rg i) (\<lambda>_. Inr ())"

subsection \<open>The registry as a machine\<close>

text \<open>
  Every committed write of a project, every change of the sources, and deployments that are
  created for an existing project or change without leaving theirs. No handler deletes either.
\<close>

inductive registry_step :: "registry \<Rightarrow> registry \<Rightarrow> bool" where
  registry_create: "create_project rg new_id p = Inr rg' \<Longrightarrow> project_of rg new_id = None \<Longrightarrow> registry_step rg rg'"
| registry_register: "register_project before rg i p = Inr rg' \<Longrightarrow> registry_step rg rg'"
| registry_patch: "patch_project approved before rg i payload = Inr rg' \<Longrightarrow> registry_step rg rg'"
| registry_sources: "registry_step rg (rg\<lparr>rg_sources := sources\<rparr>)"
| registry_deploy: "project_of rg (dep_project_id d) \<noteq> None \<Longrightarrow>
    registry_step rg (rg\<lparr>rg_deployments := rg_deployments rg @ [d]\<rparr>)"
| registry_run: "map dep_project_id ds = map dep_project_id (rg_deployments rg) \<Longrightarrow>
    registry_step rg (rg\<lparr>rg_deployments := ds\<rparr>)"

inductive_cases registry_stepE: "registry_step s t"

definition registry_ok :: "registry \<Rightarrow> bool" where
  "registry_ok rg = distinct (map pj_id (rg_projects rg))"

text \<open>A referenced project stays, with its binding, and stays referenced.\<close>

definition bindings_kept :: "registry \<Rightarrow> registry \<Rightarrow> bool" where
  "bindings_kept s t =
     (\<forall>i p. project_of s i = Some p \<and> has_deployments s i \<longrightarrow>
        has_deployments t i \<and> (\<exists>q. project_of t i = Some q \<and> same_binding p q))"

lemma with_id_sel [simp]: "pj_id (with_id i p) = i" "same_binding q (with_id i p) = same_binding q p"
  by (simp_all add: with_id_def same_binding_def project_in.defs project.defs)

lemma same_binding_refl [simp]: "same_binding p p"
  by (simp add: same_binding_def)

lemma update_project_kept:
  assumes "update_project rg i p = Inr rg'"
  shows "bindings_kept rg rg'" and "registry_ok rg \<Longrightarrow> registry_ok rg'"
proof -
  let ?hit = "\<lambda>r. pj_id r = i \<and> (\<not> has_deployments rg (pj_id r) \<or> same_binding r p)"
  let ?f = "\<lambda>r. with_id (pj_id r) p"
  have rg': "rg' = rg\<lparr>rg_projects := update_rows ?hit ?f (rg_projects rg)\<rparr>"
    using assms by (auto simp: update_project_def update_binding_def res_simps Let_def split: if_splits)
  have key: "pj_id (?f r) = pj_id r" for r by simp
  show "registry_ok rg \<Longrightarrow> registry_ok rg'"
    by (simp add: registry_ok_def rg' update_rows_keys)
  have ref: "has_deployments rg' = has_deployments rg" by (simp add: has_deployments_def rg' fun_eq_iff)
  show "bindings_kept rg rg'"
    unfolding bindings_kept_def ref
  proof (intro allI impI conjI)
    fix j r assume r: "project_of rg j = Some r \<and> has_deployments rg j"
    then show "has_deployments rg j" by simp
    have "pj_id r = j" using r by (auto dest: row_by_Some)
    moreover have "project_of rg' j = Some (if ?hit r then ?f r else r)"
      using row_by_update [where key = pj_id and f = ?f and p = ?hit, OF key] r by (simp add: rg')
    moreover have "same_binding r (if ?hit r then ?f r else r)" using r \<open>pj_id r = j\<close> by simp
    ultimately show "\<exists>q. project_of rg' j = Some q \<and> same_binding r q" by blast
  qed
qed

lemma insert_project_kept:
  assumes "project_of rg i = None"
  shows "bindings_kept rg (insert_project rg i p)" and "registry_ok rg \<Longrightarrow> registry_ok (insert_project rg i p)"
  using assms
  by (auto simp: bindings_kept_def insert_project_def row_by_append has_deployments_def registry_ok_def row_by_None)

lemma or_422_Inr [res_simps]: "or_422 r = Inr x \<longleftrightarrow> r = Inr x"
  by (simp add: or_422_def split: sum.splits)

lemma registry_step_kept:
  assumes "registry_step s t"
  shows "bindings_kept s t \<and> (registry_ok s \<longrightarrow> registry_ok t)"
  using assms
proof (cases rule: registry_step.cases)
  case registry_create
  then show ?thesis by (auto simp: create_project_def res_simps intro: insert_project_kept)
next
  case registry_register
  then show ?thesis
    by (auto simp: register_project_def res_simps split: if_splits intro: insert_project_kept update_project_kept)
next
  case registry_patch
  then show ?thesis by (auto simp: patch_project_def res_simps intro: update_project_kept)
next
  case (registry_run ds)
  have "has_deployments rg i \<longleftrightarrow> i \<in> set (map dep_project_id (rg_deployments rg))" for rg i
    by (auto simp: has_deployments_def)
  then have "has_deployments t i = has_deployments s i" for i
    using registry_run by (simp del: set_map)
  then show ?thesis using registry_run by (auto simp: bindings_kept_def registry_ok_def)
qed (auto simp: bindings_kept_def registry_ok_def has_deployments_def)

interpretation registry: progressive_machine registry_step registry_ok bindings_kept
proof
  show "registry_step s t \<Longrightarrow> registry_ok s \<Longrightarrow> registry_ok t" for s t
    using registry_step_kept by blast
  show "registry_step s t \<Longrightarrow> registry_ok s \<Longrightarrow> bindings_kept s t" for s t
    using registry_step_kept by blast
  show "bindings_kept s s" for s by (auto simp: bindings_kept_def)
  show "bindings_kept s u" if st: "bindings_kept s t" and tu: "bindings_kept t u" for s t u
    unfolding bindings_kept_def
  proof (intro allI impI)
    fix i p assume p: "project_of s i = Some p \<and> has_deployments s i"
    from st p obtain q where q: "has_deployments t i" "project_of t i = Some q" "same_binding p q"
      unfolding bindings_kept_def by blast
    from tu q obtain r where "has_deployments u i" "project_of u i = Some r" "same_binding q r"
      unfolding bindings_kept_def by blast
    with q show "has_deployments u i \<and> (\<exists>q. project_of u i = Some q \<and> same_binding p q)"
      by (auto simp: same_binding_def)
  qed
qed

text \<open>
  C39: the repository that a deployment was created from stays its project's repository: whatever
  projects are created, registered again or patched, on stale reads too, and whatever happens to
  sources and deployments, the project of an existing deployment keeps its source, owner,
  repository, directory and branch strategy.
\<close>

theorem deployed_binding_frozen:
  assumes "registry_step\<^sup>*\<^sup>* s t" and "registry_ok s"
    and "d \<in> set (rg_deployments s)" and "project_of s (dep_project_id d) = Some p"
  shows "\<exists>q. project_of t (dep_project_id d) = Some q \<and> same_binding p q"
  using registry.reachable_forward [OF assms(1,2)] assms(3,4)
  unfolding bindings_kept_def has_deployments_def by blast

definition sample_binding :: "string \<Rightarrow> project_in" where
  "sample_binding name = \<lparr>pi_name = name, pi_source = ''s1'', pi_strategy = ''dedicated_repo'', pi_owner = Some ''range42'',
     pi_repo = Some ''lab'', pi_subdir = None, pi_catalog_url = None, pi_catalog_sha = None\<rparr>"

definition sample_registry :: "string \<Rightarrow> registry" where
  "sample_registry name =
     \<lparr>rg_sources = [\<lparr>cs_id = ''s1'', cs_provider = ''github'', cs_base_url = ''https://github.com'', cs_auth_kind = ''none'',
        cs_token_ref = None, cs_created = 0, cs_repos = []\<rparr>],
      rg_projects = [with_id ''p1'' (sample_binding name)],
      rg_deployments = [\<lparr>dep_id = ''d1'', dep_codename = ''LAB'', dep_scenario_label = ''one'', dep_project_id = ''p1'',
        dep_target_host_id = ''h1'', dep_project_sha = Some ''c0ffee'', dep_native = None, dep_team_count = 1,
        dep_state = ''pending'', dep_current = None, dep_workspace = ''/w''\<rparr>]\<rparr>"

lemma sample_registration:
  "registry_step (sample_registry ''old'') (sample_registry ''new'')"
proof (rule registry_register)
  show "register_project (sample_registry ''old'') (sample_registry ''old'') ''p1'' (sample_binding ''new'')
      = Inr (sample_registry ''new'')"
    by (simp add: register_project_def project_key_def is_alnum_def is_alpha_def is_digit_def class_match_def
        update_project_def update_binding_def validate_source_def sample_registry_def sample_binding_def is_given_def
        count_rows_def update_rows_def same_binding_def with_id_def project_in.defs project.defs)
qed

theorem deployed_binding_frozen_witness:
  "\<exists>q. project_of (sample_registry ''new'') ''p1'' = Some q \<and> same_binding (with_id ''p1'' (sample_binding ''old'')) q"
proof -
  have run: "registry_step\<^sup>*\<^sup>* (sample_registry ''old'') (sample_registry ''new'')"
    using sample_registration by simp
  have d: "hd (rg_deployments (sample_registry ''old'')) \<in> set (rg_deployments (sample_registry ''old''))"
    "dep_project_id (hd (rg_deployments (sample_registry ''old''))) = ''p1''"
    by (simp_all add: sample_registry_def)
  have "registry_ok (sample_registry ''old'')"
    "project_of (sample_registry ''old'') ''p1'' = Some (with_id ''p1'' (sample_binding ''old''))"
    by (simp_all add: registry_ok_def sample_registry_def)
  then show ?thesis
    using deployed_binding_frozen [OF run _ d(1)] d(2) by simp
qed

text \<open>A referenced project cannot be pointed at another repository.\<close>

lemma rebinding_refused:
  assumes "registry_ok rg" and "project_of rg i = Some p" and "has_deployments rg i" and "\<not> same_binding p q"
    and "validate_source rg q = Inr ()"
  shows "update_project rg i q = Inl (ApiError \<lparr>ae_status = 409, ae_error = ''conflict'', ae_code = ''PROJECT_BINDING_IN_USE''\<rparr>)"
proof -
  have "count_rows (\<lambda>r. pj_id r = i \<and> (\<not> has_deployments rg (pj_id r) \<or> same_binding r q)) (rg_projects rg) = 0"
  proof (rule ccontr)
    assume "\<not> ?thesis"
    then obtain r where r: "r \<in> set (rg_projects rg)" "pj_id r = i" "same_binding r q"
      using assms(3) unfolding count_rows_pos by auto
    then have "r = p" using assms(1,2) row_by_unique [of pj_id "rg_projects rg" r i] by (simp add: registry_ok_def)
    with r(3) assms(4) show False by simp
  qed
  then show ?thesis using assms(5) by (simp add: update_project_def update_binding_def Let_def)
qed

end
