(* ===== verification/Workspaces.thy ===== *)
theory Workspaces
  imports Attempt_Cleanup Locks
begin

text \<open>
  Workspaces of deployments: their creation from an operator's template with the removal of what a
  failed creation made (\<open>Workspace.create\<close> and its helpers, \<open>app/core/workspace.py\<close>), and the vault
  password that is written for the duration of a commit (\<open>vault_seed\<close>, \<open>app/core/workspace_secrets.py\<close>).

  The disk is that of the theory Attempt_Cleanup. A system call that changes the disk may fail:
  \<open>wk_fails n\<close> tells whether the \<open>n\<close>-th one does, so that every sequence of failures is covered. The
  modes of new entries are not modelled, those of the template are. The name of the file system,
  device and inode of a new entry, and the encoding of text are parameters.
\<close>

subsection \<open>The template\<close>

record template_entry =
  te_content :: content
  te_mode :: nat

type_synonym template = "(string \<times> template_entry) list"

text \<open>\<open>mode & 0o077\<close> is zero: nothing for the group and for others.\<close>

definition private_mode :: "nat \<Rightarrow> bool" where
  "private_mode m = (m mod 64 = 0)"

definition private_directory :: "template \<Rightarrow> string \<Rightarrow> unit res" where
  "private_directory t p =
     bindE (of_opt OSError (map_of t p)) (\<lambda>e.
       assertE (te_content e = Directory \<and> private_mode (te_mode e)) ValueError)"

definition mebibyte :: nat where "mebibyte = 1024 * 1024"

text \<open>\<open>O_NOFOLLOW\<close> refuses a link, and a socket or a directory cannot be opened for reading as a file.\<close>

definition template_file :: "template \<Rightarrow> string \<Rightarrow> string res" where
  "template_file t p =
     bindE (of_opt OSError (map_of t p)) (\<lambda>e.
       case te_content e of
         Regular b \<Rightarrow> if private_mode (te_mode e) \<and> length b \<le> mebibyte then Inr b else Inl ValueError
       | Link q \<Rightarrow> Inl OSError
       | Socket \<Rightarrow> Inl OSError
       | _ \<Rightarrow> Inl ValueError)"

text \<open>The paths below a directory, sorted, as \<open>rglob\<close> yields them without following links.\<close>

definition below :: "string \<Rightarrow> template \<Rightarrow> string list" where
  "below dir t = sort_key (split_on (CHR ''/'')) (map fst (filter (\<lambda>(p, e). prefix (dir @ ''/'') p \<and> p \<noteq> dir @ ''/'') t))"

definition max_template :: nat where "max_template = 256"

definition add_template_path ::
    "template \<Rightarrow> string \<Rightarrow> (string \<times> string) list \<Rightarrow> string \<Rightarrow> (string \<times> string) list res" where
  "add_template_path t base files p =
     bindE (if (case map_of t p of Some e \<Rightarrow> te_content e = Directory | None \<Rightarrow> False)
            then bindE (private_directory t p) (\<lambda>_. Inr files)
            else bindE (template_file t p) (\<lambda>b. Inr (dset (drop (length base + 1) p) b files))) (\<lambda>files'.
     bindE (assertE (length files' \<le> max_template) ValueError) (\<lambda>_. Inr files'))"

definition add_key_dir ::
    "template \<Rightarrow> string \<Rightarrow> (string \<times> string) list \<Rightarrow> string \<Rightarrow> (string \<times> string) list res" where
  "add_key_dir t base files name =
     (let dir = slash (slash base ''ssh_keys'') name in
      if map_of t dir = None then Inr files
      else bindE (private_directory t dir) (\<lambda>_. foldE (add_template_path t base) files (below dir t)))"

definition template_files :: "(string \<Rightarrow> string res) \<Rightarrow> template \<Rightarrow> string \<Rightarrow> (string \<times> string) list res" where
  "template_files resolve t base =
     bindE (resolve base) (\<lambda>real.
     bindE (assertE (base = real) ValueError) (\<lambda>_.
     bindE (private_directory t base) (\<lambda>_.
     bindE (private_directory t (slash base ''secrets'')) (\<lambda>_.
     bindE (template_file t (slash (slash base ''secrets'') ''default_vault.yml'')) (\<lambda>vault.
     bindE (template_file t (slash (slash base ''secrets'') ''vault_pass.txt'')) (\<lambda>pass.
     bindE (assertE (\<not> list_all byte_space vault \<and> \<not> list_all byte_space pass) ValueError) (\<lambda>_.
       let files = [(''secrets/default_vault.yml'', vault), (''secrets/vault_pass.txt'', pass)];
           ssh = slash base ''ssh_keys'' in
       if map_of t ssh = None then Inr files
       else bindE (private_directory t ssh) (\<lambda>_.
            bindE (if map_of t (slash ssh ''known_hosts'') = None then Inr files
                   else bindE (template_file t (slash ssh ''known_hosts'')) (\<lambda>b. Inr (dset ''ssh_keys/known_hosts'' b files))) (\<lambda>files'.
              foldE (add_key_dir t base) files' [''backend_keys'', ''jump_keys'', ''student_keys'']))))))))) "

subsection \<open>Names and file systems\<close>

definition local_fs_names :: "string list" where
  "local_fs_names = [''ext2'', ''ext3'', ''ext4'', ''xfs'', ''btrfs'', ''tmpfs'', ''zfs'', ''f2fs'', ''overlay'', ''overlayfs'',
     ''apfs'', ''hfs'', ''ntfs'']"

definition network_fs_names :: "string list" where
  "network_fs_names = [''nfs'', ''nfs3'', ''nfs4'', ''cifs'', ''smb'', ''smbfs'', ''sshfs'']"

definition is_local_fs :: "(string \<Rightarrow> string) \<Rightarrow> string \<Rightarrow> bool" where
  "is_local_fs lower name =
     (let n = lower name;
          tokens = filter (\<lambda>t. t \<noteq> []) (split_on (CHR ''/'') (map (\<lambda>c. if c = CHR '','' then CHR ''/'' else c) n))
      in if prefix ''fuse'' n then False
         else if n \<in> set network_fs_names then False
         else list_ex (\<lambda>t. t \<in> set local_fs_names) tokens \<or> n \<in> set local_fs_names \<or> n = ''tmpfs'')"

definition workspace_error :: "string \<Rightarrow> exc" where
  "workspace_error code = ApiError \<lparr>ae_status = 500, ae_error = ''workspace_error'', ae_code = code\<rparr>"

text \<open>\<open>[A-Za-z0-9_-]+(?:[./][A-Za-z0-9_-]+)*\<close>\<close>

definition workspace_name :: "string \<Rightarrow> bool" where
  "workspace_name s =
     list_all (\<lambda>p. p \<noteq> [] \<and> list_all (\<lambda>c. is_alpha c \<or> is_digit c \<or> c \<in> set ''_-'') p)
       (split_on (CHR ''/'') (map (\<lambda>c. if c = CHR ''.'' then CHR ''/'' else c) s))"

definition workspace_subdirs :: "string list" where
  "workspace_subdirs = [''inventory'', ''secrets'', ''ssh_keys'', ''bin'', ''runner'']"

definition event_logs :: "string list" where
  "event_logs = [''events.jsonl'', ''redactions.jsonl'']"

definition safe_workspace_path :: "disk_env \<Rightarrow> disk \<Rightarrow> string \<Rightarrow> string \<Rightarrow> string \<Rightarrow> string res" where
  "safe_workspace_path env d base codename label =
     (let invalid = workspace_error ''WORKSPACE_PATH_INVALID'' in
      bindE (assertE (workspace_name codename \<and> workspace_name label) invalid) (\<lambda>_.
      bindE (assertE (CHR ''/'' \<notin> set codename \<and> CHR ''/'' \<notin> set label) invalid) (\<lambda>_.
      bindE (de_resolve env base) (\<lambda>real_base.
      let target = slash real_base (codename @ ''-'' @ label) in
      bindE (de_resolve env target) (\<lambda>real.
      bindE (assertE (is_relative_to real real_base) invalid) (\<lambda>_.
      bindE (assertE (\<not> is_link d target) invalid) (\<lambda>_.
      bindE (assertE (\<not> list_ex (\<lambda>sub. is_link d (slash target sub)) (workspace_subdirs @ event_logs)) invalid) (\<lambda>_.
        Inr target)))))))) "

subsection \<open>System calls that may fail\<close>

record ws_env =
  wk_disk :: disk_env
  wk_fails :: "nat \<Rightarrow> bool"
  wk_new :: "nat \<Rightarrow> int \<times> int"
  wk_partial :: "nat \<Rightarrow> nat"

record ws_state =
  wk_d :: disk
  wk_dirs :: "string list"
  wk_files :: "(string \<times> int \<times> int) list"
  wk_calls :: nat

type_synonym 'a ws = "ws_state \<Rightarrow> 'a res \<times> ws_state"

definition bindW :: "'a ws \<Rightarrow> ('a \<Rightarrow> 'b ws) \<Rightarrow> 'b ws" where
  "bindW m k s = (case m s of (Inl e, s') \<Rightarrow> (Inl e, s') | (Inr x, s') \<Rightarrow> k x s')"

definition raiseW :: "exc \<Rightarrow> 'a ws" where
  "raiseW e s = (Inl e, s)"

definition returnW :: "'a \<Rightarrow> 'a ws" where
  "returnW x s = (Inr x, s)"

fun eachW :: "('x \<Rightarrow> unit ws) \<Rightarrow> 'x list \<Rightarrow> unit ws" where
  "eachW f [] = returnW ()"
| "eachW f (x # xs) = bindW (f x) (\<lambda>_. eachW f xs)"

text \<open>A call that fails leaves the disk as it was.\<close>

definition call :: "ws_env \<Rightarrow> (ws_state \<Rightarrow> ws_state res) \<Rightarrow> unit ws" where
  "call env f s =
     (let s' = s\<lparr>wk_calls := Suc (wk_calls s)\<rparr> in
      if wk_fails env (wk_calls s) then (Inl OSError, s')
      else case f s of Inl e \<Rightarrow> (Inl e, s') | Inr t \<Rightarrow> (Inr (), t\<lparr>wk_calls := Suc (wk_calls s)\<rparr>))"

text \<open>A new entry needs a directory to be in, and a free name: \<open>O_EXCL\<close>, and \<open>mkdir\<close> by itself.\<close>

definition new_entry :: "ws_env \<Rightarrow> string \<Rightarrow> content \<Rightarrow> ws_state \<Rightarrow> (entry \<times> disk) res" where
  "new_entry env p c s =
     (let (device, inode) = wk_new env (wk_calls s);
          e = \<lparr>en_device = device, en_inode = inode, en_content = c\<rparr> in
      if find_entry (wk_d s) p \<noteq> None \<or> path_name p = []
         \<or> (case find_entry (wk_d s) (path_parent p) of Some f \<Rightarrow> en_content f \<noteq> Directory | None \<Rightarrow> True)
      then Inl OSError else Inr (e, wk_d s @ [(p, e)]))"

definition mkdir_call :: "ws_env \<Rightarrow> string \<Rightarrow> unit ws" where
  "mkdir_call env p = call env (\<lambda>s. bindE (new_entry env p Directory s) (\<lambda>(e, d).
     Inr (s\<lparr>wk_d := d, wk_dirs := wk_dirs s @ [p]\<rparr>)))"

definition chmod_call :: "ws_env \<Rightarrow> string \<Rightarrow> unit ws" where
  "chmod_call env p = call env (\<lambda>s. if follow 40 (wk_d s) p = None then Inl OSError else Inr s)"

definition create_call :: "ws_env \<Rightarrow> string \<Rightarrow> unit ws" where
  "create_call env p = call env (\<lambda>s. bindE (new_entry env p (Regular []) s) (\<lambda>(e, d).
     Inr (s\<lparr>wk_d := d, wk_files := wk_files s @ [(p, en_device e, en_inode e)]\<rparr>)))"

text \<open>A write that fails may have written a part.\<close>

definition write_call :: "ws_env \<Rightarrow> string \<Rightarrow> string \<Rightarrow> unit ws" where
  "write_call env p b s =
     (let fails = wk_fails env (wk_calls s);
          written = (if fails then take (wk_partial env (wk_calls s)) b else b)
      in (if fails then Inl OSError else Inr (),
          s\<lparr>wk_d := put_content p (Regular written) (wk_d s)\<rparr>\<lparr>wk_calls := Suc (wk_calls s)\<rparr>))"

definition fsync_call :: "ws_env \<Rightarrow> unit ws" where
  "fsync_call env = call env Inr"

subsection \<open>Creating a workspace\<close>

definition make_dir :: "ws_env \<Rightarrow> string \<Rightarrow> unit ws" where
  "make_dir env p s =
     (if is_link (wk_d s) p then (Inl ValueError, s)
      else bindW (if follow 40 (wk_d s) p = None then mkdir_call env p else returnW ()) (\<lambda>_. chmod_call env p) s)"

definition write_new :: "ws_env \<Rightarrow> string \<Rightarrow> string \<Rightarrow> unit ws" where
  "write_new env p b =
     bindW (create_call env p) (\<lambda>_.
     bindW (if b = [] then returnW () else write_call env p b) (\<lambda>_. fsync_call env))"

text \<open>The directories of a relative path, outermost first.\<close>

definition rel_parents :: "string \<Rightarrow> string list" where
  "rel_parents rel =
     (let parts = split_on (CHR ''/'') rel in
      map (\<lambda>n. join_with ''/'' (take n parts)) [1..<length parts])"

definition write_file :: "ws_env \<Rightarrow> string \<Rightarrow> string \<times> string \<Rightarrow> unit ws" where
  "write_file env target file =
     bindW (eachW (\<lambda>p. make_dir env (slash target p)) (rel_parents (fst file))) (\<lambda>_.
       write_new env (slash target (fst file)) (snd file))"

definition event_file :: "ws_env \<Rightarrow> string \<Rightarrow> string \<Rightarrow> unit ws" where
  "event_file env target name s =
     (let p = slash target name; found = follow 40 (wk_d s) p in
      if is_link (wk_d s) p \<or> (case found of Some (q, e) \<Rightarrow> \<not> is_regular e | None \<Rightarrow> False) then (Inl ValueError, s)
      else if found = None then write_new env p [] s else (Inr (), s))"

definition make_workspace :: "ws_env \<Rightarrow> string \<Rightarrow> (string \<times> string) list \<Rightarrow> unit ws" where
  "make_workspace env target files =
     bindW (make_dir env target) (\<lambda>_.
     bindW (eachW (\<lambda>name. make_dir env (slash target name)) workspace_subdirs) (\<lambda>_.
     bindW (eachW (write_file env target) files) (\<lambda>_.
       eachW (event_file env target) event_logs)))"

text \<open>The removal of what a failed creation made; its own failures are passed over.\<close>

definition remove_created :: "disk_env \<Rightarrow> string \<times> int \<times> int \<Rightarrow> disk \<Rightarrow> disk" where
  "remove_created env f d =
     (case f of (p, device, inode) \<Rightarrow>
        (case find_entry d p of
           None \<Rightarrow> d
         | Some e \<Rightarrow>
             if (en_device e, en_inode e) = (device, inode)
             then (case unlink env p d of Inl x \<Rightarrow> d | Inr d' \<Rightarrow> d') else d))"

definition roll_back :: "disk_env \<Rightarrow> ws_state \<Rightarrow> disk" where
  "roll_back env s =
     fold (remove_dir env) (rev (wk_dirs s)) (fold (remove_created env) (rev (wk_files s)) (wk_d s))"

definition is_dir_or_new :: "disk \<Rightarrow> string \<Rightarrow> bool" where
  "is_dir_or_new d p = (\<not> is_link d p \<and> (follow 40 d p = None \<or> is_directory d p))"

text \<open>
  \<open>template\<close> is the outcome of reading the configured template, \<open>None\<close> when none is configured. The
  workspace root exists; \<open>fs\<close> is the name of its file system. An error is the one that the creation
  of a deployment reports for the code of the WorkspaceError.
\<close>

definition workspace_checks ::
    "disk_env \<Rightarrow> (string \<Rightarrow> string) \<Rightarrow> string \<Rightarrow> (string \<times> string) list res option \<Rightarrow> bool
       \<Rightarrow> string \<Rightarrow> string \<Rightarrow> string \<Rightarrow> disk \<Rightarrow> (string \<times> (string \<times> string) list) res" where
  "workspace_checks env lower fs template inherit_template base codename label d =
     bindE (safe_workspace_path env d base codename label) (\<lambda>target.
     bindE (assertE (is_local_fs lower fs) (workspace_error ''WORKSPACE_NON_LOCAL_FS'')) (\<lambda>_.
     bindE (assertE (list_all (is_dir_or_new d) (target # map (slash target) workspace_subdirs))
              (workspace_error ''WORKSPACE_PATH_INVALID'')) (\<lambda>_.
     let has_credentials = list_ex (\<lambda>name. entries_of (slash target name) d \<noteq> []) [''secrets'', ''ssh_keys''] in
     bindE (case template of
              None \<Rightarrow> Inr []
            | Some files \<Rightarrow>
                if inherit_template \<and> \<not> has_credentials
                then (case files of
                        Inl e \<Rightarrow> Inl (if e \<in> {OSError, ValueError} then workspace_error ''WORKSPACE_TEMPLATE_INVALID'' else e)
                      | Inr fs \<Rightarrow> Inr fs)
                else Inr []) (\<lambda>files. Inr (target, files)))))"

definition workspace_create ::
    "ws_env \<Rightarrow> (string \<Rightarrow> string) \<Rightarrow> string \<Rightarrow> (string \<times> string) list res option \<Rightarrow> bool
       \<Rightarrow> string \<Rightarrow> string \<Rightarrow> string \<Rightarrow> disk \<Rightarrow> string res \<times> disk" where
  "workspace_create env lower fs template inherit_template base codename label d =
     (case workspace_checks (wk_disk env) lower fs template inherit_template base codename label d of
        Inl e \<Rightarrow> (Inl e, d)
      | Inr (target, files) \<Rightarrow>
          (case make_workspace env target files \<lparr>wk_d = d, wk_dirs = [], wk_files = [], wk_calls = 0\<rparr> of
             (Inr _, s) \<Rightarrow> (Inr target, wk_d s)
           | (Inl e, s) \<Rightarrow>
               if e \<in> {OSError, ValueError} then (Inl (workspace_error ''WORKSPACE_CREATE_FAILED''), roll_back (wk_disk env) s)
               else (Inl e, wk_d s)))"

subsection \<open>What a creation leaves\<close>

definition paths :: "disk \<Rightarrow> string set" where
  "paths d = fst ` set d"

text \<open>Every entry is in a directory of the disk.\<close>

definition closed_disk :: "disk \<Rightarrow> bool" where
  "closed_disk d = list_all (\<lambda>p. path_name p = [] \<or> path_parent p = [] \<or> find_entry d (path_parent p) \<noteq> None) (map fst d)"

definition has_id :: "disk \<Rightarrow> string \<times> int \<times> int \<Rightarrow> bool" where
  "has_id d f =
     (case f of (p, device, inode) \<Rightarrow>
        (case find_entry d p of
           Some e \<Rightarrow> en_device e = device \<and> en_inode e = inode \<and> is_regular e
         | None \<Rightarrow> False))"

definition is_dir_entry :: "disk \<Rightarrow> string \<Rightarrow> bool" where
  "is_dir_entry d p = (case find_entry d p of Some e \<Rightarrow> en_content e = Directory | None \<Rightarrow> False)"

text \<open>
  The disk is the old one with the entries that were made, no directory was made after something
  in it, and what is recorded of them is true.
\<close>

definition made :: "disk \<Rightarrow> ws_state \<Rightarrow> bool" where
  "made d0 s =
     (\<exists>news. wk_d s = d0 @ news \<and> closed_disk (wk_d s) \<and> distinct (map fst news) \<and> paths news \<inter> paths d0 = {}
        \<and> paths news = set (wk_dirs s) \<union> fst ` set (wk_files s)
        \<and> distinct (map fst (wk_files s)) \<and> list_all (has_id news) (wk_files s)
        \<and> list_all (is_dir_entry news) (wk_dirs s)
        \<and> list_all (\<lambda>p. path_name p \<noteq> []) (wk_dirs s)
        \<and> sorted_wrt (\<lambda>p q. path_parent p \<noteq> q) (wk_dirs s) \<and> distinct (wk_dirs s))"

lemma made_calls [simp]: "made d0 (s\<lparr>wk_calls := n\<rparr>) = made d0 s"
  by (simp add: made_def)

lemma made_start: "closed_disk d \<Longrightarrow> made d \<lparr>wk_d = d, wk_dirs = [], wk_files = [], wk_calls = n\<rparr>"
  by (simp add: made_def paths_def)

lemma find_entry_paths: "find_entry d p \<noteq> None \<longleftrightarrow> p \<in> paths d"
  by (simp add: paths_def map_of_eq_None_iff)

lemma paths_append [simp]: "paths (a @ b) = paths a \<union> paths b" "paths [] = {}" "paths ((p, e) # d) = insert p (paths d)"
  by (auto simp: paths_def)

lemma path_parent_shorter: "path_name p \<noteq> [] \<Longrightarrow> length (path_parent p) < length p"
proof -
  assume "path_name p \<noteq> []"
  then have "takeWhile (\<lambda>c. c \<noteq> CHR ''/'') (rev p) \<noteq> []" by (simp add: path_name_def)
  then have "length (dropWhile (\<lambda>c. c \<noteq> CHR ''/'') (rev p)) < length (rev p)"
    by (metis length_append length_greater_0_conv less_add_same_cancel2 takeWhile_dropWhile_id)
  then show ?thesis by (simp add: path_parent_def)
qed

lemma closed_no_child:
  "closed_disk d \<Longrightarrow> p \<notin> paths d \<Longrightarrow> p \<noteq> [] \<Longrightarrow> q \<in> paths d \<Longrightarrow> path_name q \<noteq> [] \<Longrightarrow> path_parent q \<noteq> p"
  by (auto simp: closed_disk_def list_all_iff paths_def map_of_eq_None_iff)

lemma new_entry_Inr:
  assumes "new_entry env p c s = Inr (e, d)"
  shows "d = wk_d s @ [(p, e)]" and "en_content e = c" and "p \<notin> paths (wk_d s)" and "path_name p \<noteq> []"
    and "path_parent p \<in> paths (wk_d s)"
  using assms find_entry_paths [of "wk_d s"]
  by (auto simp: new_entry_def Let_def split: prod.splits if_splits option.splits)

lemma closed_disk_snoc:
  "closed_disk d \<Longrightarrow> path_parent p \<in> paths d \<Longrightarrow> closed_disk (d @ [(p, e)])"
  by (auto simp: closed_disk_def list_all_iff paths_def map_of_eq_None_iff)

lemma map_of_fresh_snoc: "p \<notin> paths d \<Longrightarrow> find_entry (d @ [(p, e)]) q = (if q = p then Some e else find_entry d q)"
  by (induction d) (auto simp: paths_def)

lemma has_id_snoc: "has_id news f \<Longrightarrow> p \<notin> paths news \<Longrightarrow> has_id (news @ [(p, e)]) f"
  by (auto simp: has_id_def map_of_fresh_snoc find_entry_paths [symmetric] split: option.splits prod.splits
      simp del: map_of_append)

lemma is_dir_entry_snoc: "is_dir_entry news q \<Longrightarrow> p \<notin> paths news \<Longrightarrow> is_dir_entry (news @ [(p, e)]) q"
  by (auto simp: is_dir_entry_def map_of_fresh_snoc find_entry_paths [symmetric] split: option.splits
      simp del: map_of_append)

lemma made_new_dir:
  assumes "made d0 s" and "new_entry env p Directory s = Inr (e, d)"
  shows "made d0 (s\<lparr>wk_d := d, wk_dirs := wk_dirs s @ [p]\<rparr>)"
proof -
  note n = new_entry_Inr [OF assms(2)]
  from assms(1) obtain news where
    m: "wk_d s = d0 @ news" "closed_disk (wk_d s)" "distinct (map fst news)" "paths news \<inter> paths d0 = {}"
    "paths news = set (wk_dirs s) \<union> fst ` set (wk_files s)" "distinct (map fst (wk_files s))"
    "list_all (has_id news) (wk_files s)" "list_all (is_dir_entry news) (wk_dirs s)"
    "list_all (\<lambda>p. path_name p \<noteq> []) (wk_dirs s)" "sorted_wrt (\<lambda>p q. path_parent p \<noteq> q) (wk_dirs s)" "distinct (wk_dirs s)"
    unfolding made_def by blast
  have fresh: "p \<notin> paths news" "p \<notin> paths d0" "p \<noteq> []" using n(3,4) m(1) by (auto simp: path_name_def)
  have later: "path_parent q \<noteq> p" if "q \<in> set (wk_dirs s)" for q
    using closed_no_child [OF m(2) n(3) fresh(3)] that m(1,5,9) by (auto simp: list_all_iff)
  have dirs: "list_all (is_dir_entry (news @ [(p, e)])) (wk_dirs s @ [p])"
    using m(8) is_dir_entry_snoc fresh(1) n(2)
    by (auto simp: list_all_iff is_dir_entry_def [of _ p] map_of_fresh_snoc simp del: map_of_append)
  have files: "list_all (has_id (news @ [(p, e)])) (wk_files s)"
    using m(7) has_id_snoc fresh(1) by (auto simp: list_all_iff)
  have "distinct (map fst (news @ [(p, e)]))" using m(3) fresh(1) by (simp add: paths_def)
  then show ?thesis
    using m n fresh later dirs files closed_disk_snoc [OF m(2) n(5)]
    unfolding made_def
    by (intro exI [of _ "news @ [(p, e)]"]) (auto simp: sorted_wrt_append list_all_iff)
qed

lemma made_new_file:
  assumes "made d0 s" and "new_entry env p (Regular []) s = Inr (e, d)"
  shows "made d0 (s\<lparr>wk_d := d, wk_files := wk_files s @ [(p, en_device e, en_inode e)]\<rparr>)"
proof -
  note n = new_entry_Inr [OF assms(2)]
  from assms(1) obtain news where
    m: "wk_d s = d0 @ news" "closed_disk (wk_d s)" "distinct (map fst news)" "paths news \<inter> paths d0 = {}"
    "paths news = set (wk_dirs s) \<union> fst ` set (wk_files s)" "distinct (map fst (wk_files s))"
    "list_all (has_id news) (wk_files s)" "list_all (is_dir_entry news) (wk_dirs s)"
    "list_all (\<lambda>p. path_name p \<noteq> []) (wk_dirs s)" "sorted_wrt (\<lambda>p q. path_parent p \<noteq> q) (wk_dirs s)" "distinct (wk_dirs s)"
    unfolding made_def by blast
  have fresh: "p \<notin> paths news" "p \<notin> paths d0" using n(3) m(1) by auto
  have dirs: "list_all (is_dir_entry (news @ [(p, e)])) (wk_dirs s)"
    using m(8) is_dir_entry_snoc fresh(1) by (auto simp: list_all_iff)
  have files: "list_all (has_id (news @ [(p, e)])) (wk_files s @ [(p, en_device e, en_inode e)])"
    using m(7) has_id_snoc fresh(1) n(2)
    by (auto simp: list_all_iff has_id_def [of _ "(p, en_device e, en_inode e)"] map_of_fresh_snoc is_regular_def
        simp del: map_of_append)
  have "distinct (map fst (news @ [(p, e)]))" using m(3) fresh(1) by (simp add: paths_def)
  moreover have "p \<notin> fst ` set (wk_files s)" using fresh(1) m(5) by blast
  ultimately show ?thesis
    using m n fresh dirs files closed_disk_snoc [OF m(2) n(5)]
    unfolding made_def
    by (intro exI [of _ "news @ [(p, e)]"]) (auto simp: list_all_iff)
qed

lemma put_content_keys [simp]: "map fst (put_content p c d) = map fst d" "paths (put_content p c d) = paths d"
  by (auto simp: put_content_def paths_def image_image split_def)

lemma find_put_content:
  "find_entry (put_content p c d) q = (if q = p then map_option (\<lambda>e. e\<lparr>en_content := c\<rparr>) (find_entry d q) else find_entry d q)"
  by (induction d) (auto simp: put_content_def)

lemma put_content_other: "p \<notin> paths d \<Longrightarrow> put_content p c d = d"
  by (induction d) (auto simp: put_content_def paths_def)

lemma find_put_content_None: "find_entry (put_content p c d) q = None \<longleftrightarrow> find_entry d q = None"
  by (simp add: find_put_content)

lemma closed_put_content [simp]: "closed_disk (put_content p c d) = closed_disk d"
  unfolding closed_disk_def by (simp only: put_content_keys(1) find_put_content_None)

lemma made_write:
  assumes "made d0 s" and "p \<in> fst ` set (wk_files s)"
  shows "made d0 (s\<lparr>wk_d := put_content p (Regular b) (wk_d s)\<rparr>)"
proof -
  from assms(1) obtain news where
    m: "wk_d s = d0 @ news" "closed_disk (wk_d s)" "distinct (map fst news)" "paths news \<inter> paths d0 = {}"
    "paths news = set (wk_dirs s) \<union> fst ` set (wk_files s)" "distinct (map fst (wk_files s))"
    "list_all (has_id news) (wk_files s)" "list_all (is_dir_entry news) (wk_dirs s)"
    "list_all (\<lambda>p. path_name p \<noteq> []) (wk_dirs s)" "sorted_wrt (\<lambda>p q. path_parent p \<noteq> q) (wk_dirs s)" "distinct (wk_dirs s)"
    unfolding made_def by blast
  let ?news = "put_content p (Regular b) news"
  have p: "p \<notin> paths d0" using assms(2) m(4,5) by blast
  have nd: "p \<notin> set (wk_dirs s)"
  proof
    assume "p \<in> set (wk_dirs s)"
    then have "is_dir_entry news p" using m(8) by (simp add: list_all_iff)
    moreover obtain dv i where "has_id news (p, dv, i)" using assms(2) m(7) by (force simp: list_all_iff)
    ultimately show False by (auto simp: is_dir_entry_def has_id_def is_regular_def split: option.splits)
  qed
  have "put_content p (Regular b) (wk_d s) = d0 @ ?news"
    using put_content_other [OF p] by (simp add: m(1) put_content_def)
  moreover have "list_all (has_id ?news) (wk_files s)"
    using m(7) by (auto simp: list_all_iff has_id_def find_put_content is_regular_def split: option.splits prod.splits)
  moreover have "list_all (is_dir_entry ?news) (wk_dirs s)"
    using m(8) nd by (auto simp: list_all_iff is_dir_entry_def find_put_content)
  moreover have "closed_disk (put_content p (Regular b) (wk_d s))" using m(2) by simp
  ultimately show ?thesis
    using m(3-6,9-11) unfolding made_def
    by (intro exI [of _ ?news]) auto
qed

text \<open>What every operation of a creation keeps, whether it succeeds or not.\<close>

definition builds_on :: "ws_state \<Rightarrow> ws_state \<Rightarrow> bool" where
  "builds_on s t = ((\<forall>d0. made d0 s \<longrightarrow> made d0 t) \<and> paths (wk_d s) \<subseteq> paths (wk_d t))"

definition tidy :: "unit ws \<Rightarrow> bool" where
  "tidy m = (\<forall>s. builds_on s (snd (m s)) \<and> (\<forall>e. fst (m s) = Inl e \<longrightarrow> e \<in> {OSError, ValueError}))"

named_theorems tidy_rules \<open>operations that are tidy\<close>

lemma builds_on_refl [simp]: "builds_on s s"
  by (simp add: builds_on_def)

lemma builds_on_trans: "builds_on s t \<Longrightarrow> builds_on t u \<Longrightarrow> builds_on s u"
  by (auto simp: builds_on_def)

lemma builds_on_calls: "builds_on s (t\<lparr>wk_calls := n\<rparr>) = builds_on s t"
  by (simp add: builds_on_def)

lemma tidyD: "tidy m \<Longrightarrow> m s = (r, t) \<Longrightarrow> builds_on s t"
  by (auto simp: tidy_def dest: spec [of _ s])

lemma tidy_return [tidy_rules]: "tidy (returnW ())"
  by (simp add: tidy_def returnW_def)

lemma tidy_bind [tidy_rules]:
  assumes "tidy m" and "\<And>x. tidy (k x)"
  shows "tidy (bindW m k)"
  unfolding tidy_def
proof
  fix s
  show "builds_on s (snd (bindW m k s)) \<and> (\<forall>e. fst (bindW m k s) = Inl e \<longrightarrow> e \<in> {OSError, ValueError})"
  proof (cases "m s")
    case (Pair r t)
    then have t: "builds_on s t" "\<forall>e. r = Inl e \<longrightarrow> e \<in> {OSError, ValueError}"
      using assms(1) by (auto simp: tidy_def dest: spec [of _ s])
    show ?thesis
    proof (cases r)
      case (Inl e)
      then show ?thesis using t Pair by (simp add: bindW_def)
    next
      case (Inr x)
      then show ?thesis
        using t Pair assms(2) [of x] builds_on_trans [OF t(1), of "snd (k x t)"]
        by (auto simp: bindW_def tidy_def)
    qed
  qed
qed

lemma tidy_each [tidy_rules]: "(\<And>x. x \<in> set xs \<Longrightarrow> tidy (f x)) \<Longrightarrow> tidy (eachW f xs)"
  by (induction xs) (auto intro: tidy_rules)

lemma tidy_if [tidy_rules]: "(b \<Longrightarrow> tidy m) \<Longrightarrow> (\<not> b \<Longrightarrow> tidy n) \<Longrightarrow> tidy (if b then m else n)"
  by simp

lemma tidy_call:
  assumes "\<And>s t. f s = Inr t \<Longrightarrow> builds_on s t" and "\<And>s e. f s = Inl e \<Longrightarrow> e \<in> {OSError, ValueError}"
  shows "tidy (call env f)"
  unfolding tidy_def
proof (intro allI conjI impI)
  fix s e
  show "builds_on s (snd (call env f s))"
    using assms(1) [of s] by (auto simp: call_def Let_def builds_on_calls split: sum.split)
  show "fst (call env f s) = Inl e \<Longrightarrow> e \<in> {OSError, ValueError}"
    using assms(2) [of s] by (auto simp: call_def Let_def split: sum.splits if_splits)
qed

lemma new_entry_Inl: "new_entry env p c s = Inl e \<Longrightarrow> e = OSError"
  by (auto simp: new_entry_def Let_def split: prod.splits if_splits)

lemma tidy_mkdir [tidy_rules]: "tidy (mkdir_call env p)"
  unfolding mkdir_call_def
proof (rule tidy_call)
  fix s t
  assume "bindE (new_entry env p Directory s) (\<lambda>(e, d). Inr (s\<lparr>wk_d := d, wk_dirs := wk_dirs s @ [p]\<rparr>)) = Inr t"
  then obtain e d where n: "new_entry env p Directory s = Inr (e, d)"
    and t: "t = s\<lparr>wk_d := d, wk_dirs := wk_dirs s @ [p]\<rparr>" by (auto simp: res_simps)
  show "builds_on s t" using made_new_dir [OF _ n] new_entry_Inr(1) [OF n] by (auto simp: builds_on_def t)
qed (auto simp: bindE_Inl dest: new_entry_Inl)

lemma tidy_chmod [tidy_rules]: "tidy (chmod_call env p)"
  unfolding chmod_call_def by (rule tidy_call) (auto split: if_splits)

lemma tidy_fsync [tidy_rules]: "tidy (fsync_call env)"
  unfolding fsync_call_def by (rule tidy_call) auto

lemma tidy_create [tidy_rules]: "tidy (create_call env p)"
  unfolding create_call_def
proof (rule tidy_call)
  fix s t
  assume "bindE (new_entry env p (Regular []) s)
    (\<lambda>(e, d). Inr (s\<lparr>wk_d := d, wk_files := wk_files s @ [(p, en_device e, en_inode e)]\<rparr>)) = Inr t"
  then obtain e d where n: "new_entry env p (Regular []) s = Inr (e, d)"
    and t: "t = s\<lparr>wk_d := d, wk_files := wk_files s @ [(p, en_device e, en_inode e)]\<rparr>" by (auto simp: res_simps)
  show "builds_on s t" using made_new_file [OF _ n] new_entry_Inr(1) [OF n] by (auto simp: builds_on_def t)
qed (auto simp: bindE_Inl dest: new_entry_Inl)

text \<open>A write is tidy on a file that the creation made.\<close>

lemma create_call_records:
  "create_call env p s = (Inr u, t) \<Longrightarrow> p \<in> fst ` set (wk_files t) \<and> p \<in> paths (wk_d t)"
  by (auto simp: create_call_def call_def Let_def res_simps dest!: new_entry_Inr(1) split: if_splits sum.splits)

lemma write_call_builds_on:
  assumes "p \<in> fst ` set (wk_files s)"
  shows "builds_on s (snd (write_call env p b s))"
proof -
  have "builds_on s (s\<lparr>wk_d := put_content p (Regular b) (wk_d s)\<rparr>)" for b
    using made_write [OF _ assms] by (simp add: builds_on_def)
  then show ?thesis by (simp add: write_call_def Let_def builds_on_calls)
qed

lemma tidy_write_new [tidy_rules]: "tidy (write_new env p b)"
  unfolding tidy_def
proof
  fix s
  let ?rest = "bindW (if b = [] then returnW () else write_call env p b) (\<lambda>_. fsync_call env)"
  show "builds_on s (snd (write_new env p b s)) \<and> (\<forall>e. fst (write_new env p b s) = Inl e \<longrightarrow> e \<in> {OSError, ValueError})"
  proof (cases "create_call env p s")
    case (Pair r t)
    have t: "builds_on s t" "\<forall>e. r = Inl e \<longrightarrow> e \<in> {OSError, ValueError}"
      using tidy_create [of env p] Pair by (auto simp: tidy_def dest: spec [of _ s])
    show ?thesis
    proof (cases r)
      case (Inl e)
      then show ?thesis using t Pair by (simp add: write_new_def bindW_def)
    next
      case (Inr u)
      then have p: "p \<in> fst ` set (wk_files t)" using create_call_records Pair by simp
      have f: "builds_on w (snd (fsync_call env w))" "fst (fsync_call env w) = Inl e \<Longrightarrow> e \<in> {OSError, ValueError}" for w e
        using tidy_fsync [of env] by (auto simp: tidy_def)
      obtain q w where w: "(if b = [] then returnW () else write_call env p b) t = (q, w)" by fastforce
      have "builds_on t w" "\<forall>e. q = Inl e \<longrightarrow> e \<in> {OSError, ValueError}"
        using write_call_builds_on [OF p, of env b] w
        by (auto simp: returnW_def write_call_def Let_def split: if_splits)
      then have "builds_on t (snd (?rest t))" "\<forall>e. fst (?rest t) = Inl e \<longrightarrow> e \<in> {OSError, ValueError}"
        using f builds_on_trans w by (auto simp: bindW_def split: sum.splits)
      then show ?thesis
        using Pair Inr builds_on_trans [OF t(1)] by (auto simp: write_new_def bindW_def)
    qed
  qed
qed

lemma tidy_make_dir [tidy_rules]: "tidy (make_dir env p)"
proof -
  have a: "tidy (bindW (mkdir_call env p) (\<lambda>_. chmod_call env p))"
    "tidy (bindW (returnW ()) (\<lambda>_. chmod_call env p))" by (intro tidy_rules)+
  then show ?thesis unfolding tidy_def make_dir_def by auto
qed

lemma tidy_event_file [tidy_rules]: "tidy (event_file env target name)"
  using tidy_write_new [of env "slash target name" "[]"] unfolding tidy_def event_file_def by (auto simp: Let_def)

lemma tidy_write_file [tidy_rules]: "tidy (write_file env target f)"
  unfolding write_file_def by (intro tidy_rules)

lemma tidy_make_workspace: "tidy (make_workspace env target files)"
  unfolding make_workspace_def by (intro tidy_rules)

subsection \<open>Creation is all or nothing\<close>

lemma find_entry_filter:
  "find_entry (filter (\<lambda>(q, e). q \<notin> S) d) p = (if p \<in> S then None else find_entry d p)"
  by (induction d) auto

lemma remove_created_all:
  assumes "\<And>p. \<not> de_no_remove env p" and "distinct (map fst fs)" and "list_all (has_id d) fs"
  shows "fold (remove_created env) fs d = filter (\<lambda>(q, e). q \<notin> fst ` set fs) d"
  using assms(2,3)
proof (induction fs arbitrary: d)
  case Nil
  then show ?case by (simp add: filter_True)
next
  case (Cons f fs)
  obtain p dv i where f: "f = (p, dv, i)" by (cases f)
  from Cons.prems(2) obtain e where e: "find_entry d p = Some e" "en_device e = dv" "en_inode e = i" "is_regular e"
    by (auto simp: f has_id_def split: option.splits)
  have r: "remove_created env f d = drop_entry p d"
    using e assms(1) by (auto simp: remove_created_def f unlink_def is_regular_def)
  have "list_all (has_id (drop_entry p d)) fs"
    using Cons.prems find_entry_filter [of "{p}" d]
    by (fastforce simp: list_all_iff has_id_def f drop_entry_def split_def)
  from Cons.IH [OF _ this] Cons.prems(1) r show ?case
    by (simp add: f drop_entry_def split_def conj_commute)
qed

lemma entries_of_Nil: "entries_of p d = [] \<longleftrightarrow> (\<forall>q \<in> paths d. path_name q \<noteq> [] \<longrightarrow> path_parent q \<noteq> p)"
  by (auto simp: entries_of_def filter_empty_conv paths_def)

lemma remove_dirs_all:
  assumes "\<And>p. \<not> de_no_remove env p"
    and "sorted_wrt (\<lambda>q p. path_parent p \<noteq> q) ds" and "distinct ds" and "\<forall>q \<in> set ds. path_name q \<noteq> []"
    and "\<forall>x \<in> paths d. x \<notin> set ds \<longrightarrow> path_name x \<noteq> [] \<longrightarrow> path_parent x \<notin> set ds"
  shows "fold (remove_dir env) ds d = filter (\<lambda>(q, e). q \<notin> set ds) d"
  using assms(2-)
proof (induction ds arbitrary: d)
  case Nil
  then show ?case by (simp add: filter_True)
next
  case (Cons q ds)
  have "path_parent q \<noteq> q" using Cons.prems(3) path_parent_shorter [of q] by auto
  then have "entries_of q d = []"
    unfolding entries_of_Nil using Cons.prems by auto
  then have r: "remove_dir env q d = drop_entry q d" using assms(1) by (simp add: remove_dir_def)
  have "paths (drop_entry q d) \<subseteq> paths d" by (auto simp: paths_def drop_entry_def)
  then have "fold (remove_dir env) ds (drop_entry q d) = filter (\<lambda>(x, e). x \<notin> set ds) (drop_entry q d)"
    using Cons.prems by (intro Cons.IH) (auto simp: paths_def drop_entry_def)
  then show ?case using r by (simp add: drop_entry_def split_def conj_commute)
qed

lemma distinct_rev_records: "distinct (map fst fs) \<Longrightarrow> distinct (map fst (rev fs))"
  by (simp add: rev_map [symmetric])

lemma find_append_new: "p \<notin> paths d \<Longrightarrow> find_entry (d @ news) p = find_entry news p"
  by (induction d) (auto simp: paths_def)

lemma has_id_append: "has_id news f \<Longrightarrow> fst f \<notin> paths d0 \<Longrightarrow> has_id (d0 @ news) f"
  by (cases f) (simp add: has_id_def find_append_new del: map_of_append)

lemma roll_back_made:
  assumes "made d0 s" and "closed_disk d0" and ok: "\<And>p. \<not> de_no_remove env p"
  shows "roll_back env s = d0"
proof -
  from assms(1) obtain news where
    m: "wk_d s = d0 @ news" "paths news \<inter> paths d0 = {}"
    "paths news = set (wk_dirs s) \<union> fst ` set (wk_files s)" "distinct (map fst (wk_files s))"
    "list_all (has_id news) (wk_files s)" "list_all (\<lambda>p. path_name p \<noteq> []) (wk_dirs s)"
    "sorted_wrt (\<lambda>p q. path_parent p \<noteq> q) (wk_dirs s)" "distinct (wk_dirs s)"
    unfolding made_def by blast
  let ?F = "fst ` set (wk_files s)" and ?D = "set (wk_dirs s)"
  have old: "x \<notin> paths d0" if "x \<in> ?D \<union> ?F" for x using m(2,3) that by blast
  have "list_all (has_id (d0 @ news)) (rev (wk_files s))"
    using m(5) old by (auto simp: list_all_iff intro: has_id_append)
  then have files: "fold (remove_created env) (rev (wk_files s)) (wk_d s) = filter (\<lambda>(q, e). q \<notin> ?F) (d0 @ news)"
    using remove_created_all [OF ok distinct_rev_records [OF m(4)], of "d0 @ news"] m(1) by simp
  have "x \<in> paths d0" if "x \<in> paths (filter (\<lambda>(q, e). q \<notin> ?F) (d0 @ news))" "x \<notin> ?D" for x
  proof -
    have "x \<in> paths d0 \<union> paths news" "x \<notin> ?F" using that(1) by (auto simp: paths_def rev_image_eqI)
    then show ?thesis using that(2) m(3) by blast
  qed
  moreover have "path_parent x \<notin> ?D" if "x \<in> paths d0" "path_name x \<noteq> []" for x
  proof
    assume d: "path_parent x \<in> ?D"
    then have "path_parent x \<noteq> []" using m(6) by (auto simp: list_all_iff path_name_def)
    then show False using closed_no_child [OF assms(2) _ _ that] old d by blast
  qed
  ultimately have "fold (remove_dir env) (rev (wk_dirs s)) (filter (\<lambda>(q, e). q \<notin> ?F) (d0 @ news))
      = filter (\<lambda>(q, e). q \<notin> ?D) (filter (\<lambda>(q, e). q \<notin> ?F) (d0 @ news))"
    using remove_dirs_all [OF ok, of "rev (wk_dirs s)"] m(6-8)
    by (simp add: sorted_wrt_rev list_all_iff)
  also have "\<dots> = d0"
  proof -
    have "q \<notin> ?D \<and> q \<notin> ?F" if "(q, e) \<in> set d0" for q e
    proof -
      have "q \<in> paths d0" using that by (auto simp: paths_def rev_image_eqI)
      then show ?thesis using old by blast
    qed
    then have "filter (\<lambda>(q, e). q \<notin> ?D) (filter (\<lambda>(q, e). q \<notin> ?F) d0) = d0"
      by (auto simp: filter_id_conv)
    moreover have "filter (\<lambda>(q, e). q \<notin> ?D) (filter (\<lambda>(q, e). q \<notin> ?F) news) = []"
    proof -
      have "q \<in> ?D \<union> ?F" if "(q, e) \<in> set news" for q e
        using that m(3) by (auto simp: paths_def rev_image_eqI)
      then show ?thesis by (auto simp: filter_empty_conv)
    qed
    ultimately show ?thesis by simp
  qed
  finally show ?thesis by (simp add: roll_back_def files)
qed

text \<open>A creation that succeeds made every directory and both logs.\<close>

lemma bindW_Inr: "bindW m k s = (Inr y, t) \<longleftrightarrow> (\<exists>x u. m s = (Inr x, u) \<and> k x u = (Inr y, t))"
  by (auto simp: bindW_def split: prod.splits sum.splits)

lemma call_Inr: "call env f s = (Inr u, t) \<Longrightarrow> \<exists>r. f s = Inr r \<and> wk_d t = wk_d r"
  by (auto simp: call_def Let_def split: if_splits sum.splits)

lemma follow_paths: "follow n d p \<noteq> None \<Longrightarrow> p \<in> paths d"
  using find_entry_paths [of d p] by (auto simp: follow.simps [of n d p] split: option.splits)

lemma make_dir_makes: "make_dir env p s = (Inr u, t) \<Longrightarrow> p \<in> paths (wk_d t)"
  by (auto simp: make_dir_def bindW_Inr chmod_call_def split: if_splits dest!: call_Inr intro: follow_paths)

lemma event_file_makes:
  assumes "event_file env target name s = (Inr u, t)"
  shows "slash target name \<in> paths (wk_d t)"
proof (cases "follow 40 (wk_d s) (slash target name)")
  case (Some r)
  then have "t = s" using assms by (auto simp: event_file_def Let_def split: if_splits)
  then show ?thesis using Some follow_paths by blast
next
  case None
  with assms obtain v w where c: "create_call env (slash target name) s = (Inr v, w)" and f: "fsync_call env w = (Inr u, t)"
    by (auto simp: event_file_def Let_def write_new_def bindW_Inr returnW_def split: if_splits)
  then show ?thesis using create_call_records [OF c] by (auto simp: fsync_call_def dest: call_Inr)
qed

lemma each_makes:
  assumes "\<And>x s t. f x s = (Inr (), t) \<Longrightarrow> g x \<in> paths (wk_d t)" and "\<And>x. tidy (f x)"
    and "eachW f xs s = (Inr (), t)"
  shows "g ` set xs \<subseteq> paths (wk_d t)"
  using assms(3)
proof (induction xs arbitrary: s)
  case (Cons x xs)
  then obtain u where u: "f x s = (Inr (), u)" "eachW f xs u = (Inr (), t)" by (auto simp: bindW_Inr)
  have "tidy (eachW f xs)" using assms(2) by (intro tidy_rules)
  then have "paths (wk_d u) \<subseteq> paths (wk_d t)" using tidyD [of "eachW f xs" u, OF _ u(2)] by (simp add: builds_on_def)
  then show ?case using Cons.IH [OF u(2)] assms(1) [OF u(1)] by auto
qed simp

lemma make_workspace_makes:
  assumes "make_workspace env target files s = (Inr u, t)"
  shows "list_all (\<lambda>name. slash target name \<in> paths (wk_d t)) (workspace_subdirs @ event_logs)"
proof -
  from assms obtain a b c where
    d: "eachW (\<lambda>name. make_dir env (slash target name)) workspace_subdirs a = (Inr (), b)"
    and w: "eachW (write_file env target) files b = (Inr (), c)"
    and e: "eachW (event_file env target) event_logs c = (Inr (), t)"
    by (auto simp: make_workspace_def bindW_Inr)
  have dirs: "(\<lambda>name. slash target name) ` set workspace_subdirs \<subseteq> paths (wk_d b)"
    by (rule each_makes [OF _ _ d]) (auto intro: make_dir_makes tidy_rules)
  have logs: "(\<lambda>name. slash target name) ` set event_logs \<subseteq> paths (wk_d t)"
    by (rule each_makes [OF _ _ e]) (auto intro: event_file_makes tidy_rules)
  have "tidy (eachW (write_file env target) files)" "tidy (eachW (event_file env target) event_logs)"
    by (intro tidy_rules)+
  then have "paths (wk_d b) \<subseteq> paths (wk_d c)" "paths (wk_d c) \<subseteq> paths (wk_d t)"
    using tidyD [of "eachW (write_file env target) files" b, OF _ w] tidyD [of "eachW (event_file env target) event_logs" c, OF _ e]
    by (auto simp: builds_on_def)
  then show ?thesis using dirs logs by (auto simp: list_all_iff)
qed


definition sample_root :: disk where
  "sample_root = [(''/w'', \<lparr>en_device = 1, en_inode = 2, en_content = Directory\<rparr>)]"

definition failing_env :: ws_env where
  "failing_env = \<lparr>wk_disk = sample_env, wk_fails = (\<lambda>n. n = 14), wk_new = (\<lambda>n. (1, int n)), wk_partial = (\<lambda>n. 2)\<rparr>"

lemma sample_creation:
  "workspace_create failing_env (\<lambda>s. s) ''ext2/ext3'' (Some (Inr [(''secrets/vault_pass.txt'', ''pass''), (''ssh_keys/known_hosts'', ''key'')]))
     True ''/w'' ''LAB'' ''one'' sample_root = (Inl (workspace_error ''WORKSPACE_CREATE_FAILED''), sample_root)"
  by code_simp


subsection \<open>The vault password of a commit\<close>

text \<open>
  \<open>vault_seed\<close> writes the password, runs the commit, and puts the file back when the commit raises.
  \<open>fails n\<close> tells whether its \<open>n\<close>-th system call fails: making the directory, touching the file, its
  mode, opening it for writing, writing, and the revert. The directory is there, since the workspace
  was just created, and the file is not a link.
\<close>

definition vault_pass_path :: "string \<Rightarrow> string" where
  "vault_pass_path ws = slash (slash ws ''secrets'') ''vault_pass.txt''"

record seed_env =
  sd_disk :: disk_env
  sd_fails :: "nat \<Rightarrow> bool"
  sd_partial :: nat
  sd_id :: "int \<times> int"
  sd_encode :: "string \<Rightarrow> string"

definition touch :: "seed_env \<Rightarrow> string \<Rightarrow> disk \<Rightarrow> disk" where
  "touch env p d =
     (if find_entry d p = None
      then d @ [(p, \<lparr>en_device = fst (sd_id env), en_inode = snd (sd_id env), en_content = Regular []\<rparr>)] else d)"

text \<open>The file's old text, and what the write leaves: \<open>Inl\<close> with the disk of a failed one.\<close>

definition prior_text :: "seed_env \<Rightarrow> disk \<Rightarrow> string \<Rightarrow> string option res" where
  "prior_text env d p =
     (if (case find_entry d p of Some e \<Rightarrow> is_regular e | None \<Rightarrow> False)
      then bindE (read_text (sd_disk env) d p) (\<lambda>t. Inr (Some (universal t)))
      else Inr None)"

definition write_seed :: "seed_env \<Rightarrow> string \<Rightarrow> string \<Rightarrow> disk \<Rightarrow> disk + disk" where
  "write_seed env p secret d =
     (let touched = touch env p d;
          regular = (case find_entry touched p of Some e \<Rightarrow> is_regular e | None \<Rightarrow> False);
          text = sd_encode env secret
      in if sd_fails env 0 \<or> \<not> is_directory d (path_parent p) \<or> sd_fails env 1 then Inl d
         else if sd_fails env 2 \<or> \<not> regular \<or> sd_fails env 3 then Inl touched
         else if sd_fails env 4 then Inl (put_content p (Regular (take (sd_partial env) text)) touched)
         else Inr (put_content p (Regular text) touched))"

definition revert :: "seed_env \<Rightarrow> string \<Rightarrow> string option \<Rightarrow> disk \<Rightarrow> disk" where
  "revert env p prior d =
     (case prior of
        Some t \<Rightarrow> if sd_fails env 5 then d else put_content p (Regular (sd_encode env t)) d
      | None \<Rightarrow> (case unlink (sd_disk env) p d of Inl e \<Rightarrow> d | Inr d' \<Rightarrow> d'))"

definition vault_seed ::
    "seed_env \<Rightarrow> string \<Rightarrow> (string \<times> string) list option \<Rightarrow> 'a res \<Rightarrow> disk \<Rightarrow> 'a res \<times> disk" where
  "vault_seed env ws secrets commit d =
     (let p = vault_pass_path ws; failed = workspace_error ''VAULT_SEED_FAILED'' in
      case Option.bind secrets (\<lambda>s. dget s ''vault_password'') of
        None \<Rightarrow> (commit, d)
      | Some secret \<Rightarrow>
          if secret = [] then (commit, d)
          else case prior_text env d p of
            Inl e \<Rightarrow> (Inl (if e = OSError then failed else e), d)
          | Inr prior \<Rightarrow>
              (case write_seed env p secret d of
                 Inl d' \<Rightarrow> (Inl failed, d')
               | Inr d' \<Rightarrow> (case commit of Inr x \<Rightarrow> (Inr x, d') | Inl e \<Rightarrow> (Inl e, revert env p prior d'))))"

lemma put_content_twice: "put_content p c (put_content p c' d) = put_content p c d"
  by (induction d) (auto simp: put_content_def)

lemma put_content_same:
  "distinct (map fst d) \<Longrightarrow> find_entry d p = Some e \<Longrightarrow> en_content e = c \<Longrightarrow> put_content p c d = d"
proof (induction d)
  case (Cons a d)
  obtain q f where a: "a = (q, f)" by (cases a)
  have step: "put_content p c (a # d) = (q, if q = p then f\<lparr>en_content := c\<rparr> else f) # put_content p c d"
    by (simp add: put_content_def a)
  show ?case
  proof (cases "q = p")
    case True
    then have "p \<notin> paths d" using Cons.prems(1) by (simp add: a paths_def)
    then show ?thesis using step True Cons.prems(2,3) by (auto simp: a put_content_other)
  next
    case False
    then show ?thesis using step Cons by (simp add: a)
  qed
qed simp

lemma drop_entry_new: "p \<notin> paths d \<Longrightarrow> drop_entry p (d @ [(p, e)]) = d"
  by (auto simp: drop_entry_def paths_def filter_id_conv rev_image_eqI)

text \<open>
  The password is durable if and only if the row is, as long as no system call fails: a commit that
  succeeds leaves the new password, and one that raises leaves the disk as it was, whose old
  password is text that is written as it is read.
\<close>

theorem vault_follows_commit:
  assumes "vault_seed env ws secrets commit d = (r, d')"
    and "Option.bind secrets (\<lambda>s. dget s ''vault_password'') = Some secret" and "secret \<noteq> []"
    and "\<forall>n. \<not> sd_fails env n" and "\<forall>p. \<not> de_no_remove (sd_disk env) p"
    and "prior_text env d (vault_pass_path ws) = Inr prior"
    and "is_directory d (path_parent (vault_pass_path ws))" and "distinct (map fst d)"
    and "case find_entry d (vault_pass_path ws) of
           None \<Rightarrow> prior = None
         | Some e \<Rightarrow> (\<exists>t. prior = Some t \<and> en_content e = Regular (sd_encode env t))"
  shows "r = commit \<and>
    (case commit of
       Inr x \<Rightarrow> (\<exists>e. find_entry d' (vault_pass_path ws) = Some e \<and> en_content e = Regular (sd_encode env secret))
     | Inl x \<Rightarrow> d' = d)"
proof -
  let ?p = "vault_pass_path ws" and ?new = "Regular (sd_encode env secret)"
  have w: "write_seed env ?p secret d = Inr (put_content ?p ?new (touch env ?p d))"
    using assms(4,7,9) by (auto simp: write_seed_def Let_def touch_def map_of_fresh_snoc find_entry_paths [symmetric]
        is_regular_def split: option.splits simp del: map_of_append)
  have run: "(r, d') = (case commit of Inr x \<Rightarrow> (Inr x, put_content ?p ?new (touch env ?p d))
      | Inl e \<Rightarrow> (Inl e, revert env ?p prior (put_content ?p ?new (touch env ?p d))))"
    using assms(1-3,6) w by (simp add: vault_seed_def Let_def)
  show ?thesis
  proof (cases commit)
    case (Inr x)
    have "find_entry (touch env ?p d) ?p \<noteq> None"
      by (cases "find_entry d ?p")
         (simp_all add: touch_def map_of_fresh_snoc find_entry_paths [symmetric] del: map_of_append)
    then show ?thesis using run Inr by (auto simp: find_put_content)
  next
    case (Inl e)
    have "revert env ?p prior (put_content ?p ?new (touch env ?p d)) = d"
    proof (cases "find_entry d ?p")
      case None
      then have p: "?p \<notin> paths d" using find_entry_paths by blast
      obtain f where "put_content ?p ?new (touch env ?p d) = d @ [(?p, f)]" "en_content f = ?new"
        using put_content_other [OF p] None by (auto simp: touch_def put_content_def)
      then show ?thesis
        using None p assms(5,9)
        by (simp add: revert_def unlink_def map_of_fresh_snoc drop_entry_new del: map_of_append)
    next
      case (Some f)
      then show ?thesis
        using assms(4,8,9) put_content_same [OF assms(8) Some]
        by (auto simp: revert_def touch_def put_content_twice)
    qed
    then show ?thesis using run Inl by simp
  qed
qed

text \<open>
  A write that fails, on the other hand, is not undone: the old password is lost, or an empty file
  is left, although the error promises that nothing was changed.
\<close>

theorem failed_seed_is_not_undone:
  assumes "Option.bind secrets (\<lambda>s. dget s ''vault_password'') = Some secret" and "secret \<noteq> []"
    and "prior_text env d (vault_pass_path ws) = Inr prior" and "write_seed env (vault_pass_path ws) secret d = Inl d'"
  shows "vault_seed env ws secrets commit d = (Inl (workspace_error ''VAULT_SEED_FAILED''), d')"
  using assms by (simp add: vault_seed_def Let_def)

definition seeded_disk :: "string \<Rightarrow> disk" where
  "seeded_disk pass = [(''/w/secrets'', \<lparr>en_device = 1, en_inode = 2, en_content = Directory\<rparr>),
     (''/w/secrets/vault_pass.txt'', \<lparr>en_device = 1, en_inode = 3, en_content = Regular pass\<rparr>)]"

lemma old_password_lost:
  "vault_seed \<lparr>sd_disk = sample_env, sd_fails = (\<lambda>n. n = 4), sd_partial = 0, sd_id = (1, 9), sd_encode = (\<lambda>s. s)\<rparr>
     ''/w'' (Some [(''vault_password'', ''new'')]) (Inr ()) (seeded_disk ''old'')
   = (Inl (workspace_error ''VAULT_SEED_FAILED''), seeded_disk [])"
  by code_simp

end
