(* ===== verification/Spec2Isabelle.thy ===== *)
theory Spec2Isabelle
  imports Scenario_Resources Snapshot_Safety Progress Events Redaction Catalog_Sources Runtime_Completion Launch Maintenance Overlay_Expand Attempt_Cleanup Scenario_Instances Alloc_Release Installed_Ledger Projects Workspaces
begin

text \<open>
  Range42 backend API: a verification library of its core.

  The backend is a FastAPI service that turns a user's saved scenario into virtual machines on a
  Proxmox cluster. It allocates VMIDs and addresses, reserves one attempt at a time on a deployment,
  checks a scenario before it runs, starts a detached Ansible runner for the attempt, follows its
  events into a redacted log, and afterwards observes, changes and snapshots what was deployed. Its
  state is an SQLite database, the files of the workspaces, and what the cluster itself holds.

  \<^bold>\<open>How the program is modelled.\<close> A row is a record, a table a list of rows, a transaction a function
  of the tables it reads whose raise leaves them as they were, because the session rolls back.
  Requests and background tasks that interleave are steps of a relation, one step for each committed
  transaction; where a handler reads, waits for the network and then commits, it takes both states.
  A raise is the left side of a sum (\<open>'a res\<close>), with its HTTP status, its error and its code; message
  texts are left out. JSON values are trees whose objects keep the order of their keys, texts are
  lists of characters below code point 256, floats are rationals, instants are microseconds of UTC.
  Parameters are what the code calls and does not define: the HTTP client with its answers, SHA-256,
  files and \<open>/proc\<close>, \<open>kill\<close>, the clock, fresh identifiers, the decoding of bytes, YAML, git and Fernet.

  \<^bold>\<open>Shared theories.\<close>
  \<^item> \<open>Prelude\<close>: exceptions and results with their sequencing (\<open>bindE\<close>, \<open>foldE\<close>, \<open>mapE\<close>), JSON values and dict
    operations, characters and numbers, and the locales \<open>machine\<close> and \<open>progressive_machine\<close> that every
    state machine below interprets.
  \<^item> \<open>Json_Values\<close>, \<open>Py_Values\<close>, \<open>Json_Text\<close>, \<open>Json_Roundtrip\<close>, \<open>Ipv4\<close>: what is used of Python's
    values, of \<open>json\<close> and of \<open>ipaddress\<close>, from their documentation. \<open>json_roundtrip\<close> is a theorem about
    the parser, whose fuel of twice the length of a text is enough because every nested call consumes
    a character.
  \<^item> \<open>Store\<close>: the tables of deployments, attempts, locks and snapshot sets and the statements on them
    (\<open>app/core/models.py\<close>, \<open>snapshot_models.py\<close>).

  \<^bold>\<open>Allocation of VMIDs and addresses.\<close> A user draws assignments for a draft under a token, keeps them
  for some time, and binds them to the deployment that is created from the draft.
  \<^item> \<open>Vmid_Guard\<close> (\<open>core/vmid_guard.py\<close>, \<open>core/allocation.py\<close>): protected ranges and the old scan, with a
    proof that the two protection tests agree on what the backend accepts.
  \<^item> \<open>Occupancy\<close> (\<open>core/proxmox_read.py\<close>, \<open>core/allocation_occupancy.py\<close>): the audit of the cluster. It only
    grows, and a completed audit holds every guest and every static address.
  \<^item> \<open>Installed_Ledger\<close> (\<open>core/allocation_ledger.py\<close>, \<open>routes/v1/proxmox/allocations.py\<close>): what the installed
    scenarios reserve, and that an allocation never reuses it.
  \<^item> \<open>Alloc_Schema\<close>, \<open>Reservations\<close>, \<open>Plan_Correct\<close> (\<open>schemas/v1/allocation.py\<close>,
    \<open>core/allocation_reservations.py\<close>): the request, the planner, and its correctness; \<open>draws\<close> is the scheme
    that VMIDs and addresses share.
  \<^item> \<open>Alloc_Txn\<close>, \<open>Alloc_System\<close>, \<open>Alloc_Release\<close> (\<open>core/deployment_allocations.py\<close>,
    \<open>routes/v1/deployments/allocations.py\<close>): reserving with its probe loop, which \<open>max_probes\<close> bounds,
    renewing, releasing, binding and the end of a claim; \<open>ledger_ok\<close> is the invariant that nothing is
    held twice, and the locale \<open>probing\<close> the contract between the loop and its transaction.

  \<^bold>\<open>Checks before a run.\<close>
  \<^item> \<open>Manifest\<close> (\<open>core/scenario_manifest.py\<close>), \<open>Scenario_Instances\<close> (\<open>core/scenario_instances.py\<close>),
    \<open>Scenario_Networks\<close> (\<open>core/scenario_networks.py\<close>), \<open>Scenario_Resources\<close> (\<open>core/scenario_resources.py\<close>):
    the declared guests, cohorts and networks, and which guests of the cluster a run may touch.
  \<^item> \<open>Host_Capacity\<close>, \<open>Scenario_Capacity\<close>, \<open>Preflight\<close> (\<open>core/host_capacity.py\<close>, \<open>scenario_capacity.py\<close>,
    \<open>preflight.py\<close>): what a node offers, what a plan needs, and the report.
  \<^item> \<open>Projects\<close> (\<open>routes/v1/projects/crud.py\<close>, \<open>schemas/v1/projects.py\<close>): the repository binding that
    deployments pin, frozen as long as one of them refers to it.
  \<^item> \<open>Overlay\<close>, \<open>Overlay_Expand\<close> (\<open>app/overlay\<close>): composing a document, hiding its secrets, and
    replicating it for teams.

  \<^bold>\<open>Attempts.\<close>
  \<^item> \<open>Runner\<close>, \<open>Locks\<close>, \<open>Attempts\<close>, \<open>Orphans\<close> (\<open>core/runner_detached.py\<close>, \<open>locks.py\<close>, \<open>attempt_lifecycle.py\<close>,
    \<open>orphans.py\<close>, \<open>routes/v1/deployments/attempts.py\<close>): processes by their recorded identity, the
    workspace lock, the transactions of an attempt, and recovery after a restart.
  \<^item> \<open>Lifecycle\<close>, \<open>System_Runs\<close>, \<open>Progress\<close>: all of them as one machine (\<open>sys_step\<close>) with its invariant
    \<open>sys_ok\<close>, what no run undoes (\<open>forward\<close>), when a reservation is granted, the end of attempts whose
    runner is gone, and the refinement of a system in which a deployment is one slot.
  \<^item> \<open>Launch\<close> (\<open>core/deploy_trigger.py\<close>, \<open>core/ssh_agent.py\<close>): from a reserved attempt to a process and to
    its end, as a trace of observable steps under every failure and cancellation.
  \<^item> \<open>Events\<close>, \<open>Watcher\<close>, \<open>Redaction\<close>, \<open>Attempt_Cleanup\<close> (\<open>core/events.py\<close>, \<open>events_watcher.py\<close>, \<open>redaction.py\<close>,
    \<open>attempt_cleanup.py\<close>): the log, what reaches it, what is hidden in it, and what is removed afterwards
    on a disk with links (at most forty are followed, as the kernel does).

  \<^item> \<open>Workspaces\<close> (\<open>core/workspace.py\<close>, \<open>workspace_secrets.py\<close>): the creation of a workspace when any of its
    system calls may fail, with the removal of what it made, and the vault password of a commit.

  \<^bold>\<open>Deployed systems.\<close>
  \<^item> \<open>Pve_Routes\<close>, \<open>Snapshot_Read\<close>, \<open>Snapshot_Sets\<close>, \<open>Snapshot_Safety\<close>
    (\<open>routes/v1/proxmox/snapshots.py\<close>, \<open>core/snapshot_sets.py\<close>): reviewed snapshot sets; intent before a
    write, success only after a read-back, retention that keeps the newest.
  \<^item> \<open>Runtime_State\<close>, \<open>Runtime_Networks\<close>, \<open>Runtime_Firewall\<close>, \<open>Runtime_Ops\<close>, \<open>Runtime_Completion\<close>
    (\<open>core/runtime_*.py\<close>, \<open>core/native_sdn.py\<close>, \<open>schemas/v1/runtime*.py\<close>): observing guests, networks and
    firewalls, planning their reviewed change, and reading the result back.

  \<^bold>\<open>The service.\<close>
  \<^item> \<open>Access\<close> (\<open>core/access.py\<close>, \<open>auth.py\<close>, \<open>audit.py\<close>): roles, the bearer middleware and the mutation audit.
  \<^item> \<open>Maintenance\<close> (\<open>core/maintenance.py\<close>, \<open>maintenance_guard.py\<close>): requests against the installer's lock.
  \<^item> \<open>Catalog_Cache\<close>, \<open>Catalog_Sources\<close> (\<open>core/catalog_snapshots.py\<close>, \<open>routes/v1/catalog/sources.py\<close>): the
    cache as a machine over its interleaved operations, and the registry of sources.

  \<^bold>\<open>Kinds of lemmas.\<close> Each component has the inversion of its operations (\<open>..._Inr\<close>, what a result that is
  not an error says about every branch passed), the invariant of its state and its preservation by
  every operation, and examples that evaluate the definitions. The properties are stated at the end
  of their component and are applied to a concrete input by their \<open>..._witness\<close>.

  \<^bold>\<open>Bounds.\<close> Loops of the code are recursions with a measure. Fuel is used for JSON text (above), for the
  links of a path (forty) and for the groups of an inventory (seventeen levels, as the code bounds
  them). The search for a free identifier of a source has no bound in the code; it is a partial
  function, and its end is proved.

  \<^bold>\<open>Not modelled.\<close>
  \<^item> The legacy routes and their schemas: they copy a request into variables of one playbook; schemas that
    declare fields without an operation.
  \<^item> Git checkouts, catalog walks and bundles, encryption of credentials and vaults, native contexts: they
    are file trees, YAML and libraries; their outcomes are parameters where a modelled part uses them.
  \<^item> Routes that forward a single request to Proxmox, and routes that list rows for display.
  \<^item> Settings, logging, websockets, the start of the application, and messages of errors.
  \<^item> The texts of the Ansible plays that a plan becomes; the plans are modelled.
\<close>

end
